(* ===== verification/Prelude.thy ===== *)
theory Prelude
  imports Complex_Main "HOL-Library.Word" "HOL-Library.Sublist"
begin

text \<open>
  Shared vocabulary of the development: the exceptions of the Python scripts as values, the
  result type of fallible code with its inversion rules, bytes, and the generic list lemmas
  that several components use. Nothing here is specific to one script.
\<close>

subsection \<open>Fallible code\<close>

text \<open>
  A Python exception is a value: its class and the fixed words of its message (the parts that an
  f-string interpolates are left out, so that every \<open>raise\<close> of the sources is a
  distinguishable branch).
\<close>

datatype exn =
    ValueError string
  | RuntimeError string
  | CollectionError string
  | AttestationError string
  | TypeError string
  | KeyError string
  | IndexError string
  | AttributeError string
  | OverflowError string
  | ZeroDivisionError
  | UnicodeError string
  | AssertionError string
  | OSError string
  | ArgumentTypeError string
  | StructError string

type_synonym 'a res = "exn + 'a"

named_theorems ok_simps \<open>inversion of code that ended with a value\<close>

lemma case_ok [ok_simps]:
  "(case m of Inl e \<Rightarrow> Inl e | Inr x \<Rightarrow> f x) = Inr r \<longleftrightarrow> (\<exists>x. m = Inr x \<and> f x = Inr r)"
  by (cases m) auto

lemma if_raise_ok [ok_simps]:
  "(if b then Inl e else m) = Inr r \<longleftrightarrow> \<not> b \<and> m = Inr r"
  by auto

lemma if_else_raise_ok [ok_simps]:
  "(if b then m else Inl e) = Inr r \<longleftrightarrow> b \<and> m = Inr r"
  by auto

lemma case_option_raise_ok [ok_simps]:
  "(case m of None \<Rightarrow> Inl e | Some x \<Rightarrow> f x) = Inr r \<longleftrightarrow> (\<exists>x. m = Some x \<and> f x = Inr r)"
  by (cases m) auto

lemma Let_ok [ok_simps]: "(let x = a in f x) = Inr r \<longleftrightarrow> f a = Inr r"
  by (simp add: Let_def)

text \<open>
  A statement that may raise, followed by the rest of the body; and a guard \<open>if not b: raise e\<close>. Long
  validations are written with these two instead of nested cases.
\<close>

definition and_then :: "'a res \<Rightarrow> ('a \<Rightarrow> 'b res) \<Rightarrow> 'b res" where
  "and_then m f = (case m of Inl e \<Rightarrow> Inl e | Inr x \<Rightarrow> f x)"

definition require :: "bool \<Rightarrow> exn \<Rightarrow> unit res" where
  "require b e = (if b then Inr () else Inl e)"

lemma and_then_simps [simp]: "and_then (Inl e) f = Inl e" "and_then (Inr x) f = f x"
  by (simp_all add: and_then_def)

lemma and_then_ok [ok_simps]: "and_then m f = Inr r \<longleftrightarrow> (\<exists>x. m = Inr x \<and> f x = Inr r)"
  by (cases m) auto

lemma and_then_E: "and_then m f = Inr r \<Longrightarrow> (\<And>x. m = Inr x \<Longrightarrow> f x = Inr r \<Longrightarrow> P) \<Longrightarrow> P"
  by (cases m) auto

lemma and_then_pair_E: "and_then m (\<lambda>(x, y). f x y) = Inr r \<Longrightarrow> (\<And>x y. m = Inr (x, y) \<Longrightarrow> f x y = Inr r \<Longrightarrow> P) \<Longrightarrow> P"
  by (cases m) auto

lemma and_then_cong [fundef_cong]: "m = m' \<Longrightarrow> (\<And>x. m' = Inr x \<Longrightarrow> f x = f' x) \<Longrightarrow> and_then m f = and_then m' f'"
  by (cases m') auto

lemma require_ok [ok_simps]: "require b e = Inr x \<longleftrightarrow> b"
  by (simp add: require_def)

lemma require_True [simp]: "require True e = Inr ()"
  by (simp add: require_def)

text \<open>The loop \<open>for x in xs: ...\<close> that collects results and stops at the first raise.\<close>

fun map_res :: "('a \<Rightarrow> 'b res) \<Rightarrow> 'a list \<Rightarrow> 'b list res" where
  "map_res f [] = Inr []"
| "map_res f (x # xs) =
     (case f x of Inl e \<Rightarrow> Inl e | Inr y \<Rightarrow>
      case map_res f xs of Inl e \<Rightarrow> Inl e | Inr ys \<Rightarrow> Inr (y # ys))"

text \<open>The loop over a state that stops at the first raise.\<close>

fun fold_res :: "('s \<Rightarrow> 'a \<Rightarrow> 's res) \<Rightarrow> 's \<Rightarrow> 'a list \<Rightarrow> 's res" where
  "fold_res f s [] = Inr s"
| "fold_res f s (x # xs) = (case f s x of Inl e \<Rightarrow> Inl e | Inr s' \<Rightarrow> fold_res f s' xs)"

lemma map_res_ok_iff:
  "map_res f xs = Inr ys \<longleftrightarrow> length ys = length xs \<and> (\<forall>i < length xs. f (xs ! i) = Inr (ys ! i))"
proof (induction xs arbitrary: ys)
  case Nil
  then show ?case by auto
next
  case (Cons x xs)
  show ?case
  proof (cases ys)
    case Nil
    then show ?thesis by (auto simp: ok_simps)
  next
    case (Cons y ys')
    then show ?thesis
      by (auto simp: ok_simps Cons.IH nth_Cons' less_Suc_eq_0_disj)
  qed
qed

lemma map_res_length: "map_res f xs = Inr ys \<Longrightarrow> length ys = length xs"
  by (simp add: map_res_ok_iff)

lemma map_res_set: "map_res f xs = Inr ys \<Longrightarrow> y \<in> set ys \<Longrightarrow> \<exists>x \<in> set xs. f x = Inr y"
  unfolding map_res_ok_iff by (metis in_set_conv_nth)

lemma map_res_set_dom: "map_res f xs = Inr ys \<Longrightarrow> x \<in> set xs \<Longrightarrow> \<exists>y \<in> set ys. f x = Inr y"
  unfolding map_res_ok_iff by (metis in_set_conv_nth)

lemma fold_res_append:
  "fold_res f s (xs @ ys) = (case fold_res f s xs of Inl e \<Rightarrow> Inl e | Inr s' \<Rightarrow> fold_res f s' ys)"
  by (induction xs arbitrary: s) (auto split: sum.splits)

lemma fold_res_invariant:
  assumes "fold_res f s xs = Inr s'" and "I s"
    and "\<And>s x s'. x \<in> set xs \<Longrightarrow> I s \<Longrightarrow> f s x = Inr s' \<Longrightarrow> I s'"
  shows "I s'"
  using assms
proof (induction xs arbitrary: s)
  case Nil
  then show ?case by simp
next
  case (Cons x xs)
  then obtain t where "f s x = Inr t" and rest: "fold_res f t xs = Inr s'"
    by (auto simp: ok_simps)
  then have "I t" using Cons.prems by (metis list.set_intros(1))
  with rest show ?case
    using Cons.IH Cons.prems(3) by (metis list.set_intros(2))
qed

subsection \<open>Bytes\<close>

type_synonym byte = "8 word"
type_synonym bytes = "byte list"

definition byte_of :: "nat \<Rightarrow> byte" where
  "byte_of n = of_nat n"

lemma unat_byte_of [simp]: "unat (byte_of n) = n mod 256"
  by (simp add: byte_of_def unat_of_nat)

lemma unat_byte_less [simp]: "unat (b :: byte) < 256"
  using unsigned_less [of b] by simp

lemma byte_of_unat [simp]: "byte_of (unat b) = b"
  by (simp add: byte_of_def)

lemma byte_of_eqI: "unat b = n mod 256 \<Longrightarrow> byte_of n = b"
  by (metis unat_byte_of word_unat_eq_iff)

subsection \<open>Lists\<close>

text \<open>\<open>all(a == b for ...)\<close> on positions: the indices of a list that satisfy a test.\<close>

definition positions :: "('a \<Rightarrow> bool) \<Rightarrow> 'a list \<Rightarrow> nat list" where
  "positions p xs = filter (\<lambda>i. p (xs ! i)) [0..<length xs]"

lemma set_positions: "set (positions p xs) = {i. i < length xs \<and> p (xs ! i)}"
  by (auto simp: positions_def)

lemma distinct_positions [simp]: "distinct (positions p xs)"
  by (simp add: positions_def)

text \<open>
  The loop \<open>for begin in range(0, n, step)\<close> over slices \<open>xs[begin:begin + step]\<close>; the
  step is \<open>Suc k\<close>.
\<close>

function chunks :: "nat \<Rightarrow> 'a list \<Rightarrow> 'a list list" where
  "chunks k xs = (if xs = [] then [] else take (Suc k) xs # chunks k (drop (Suc k) xs))"
  by pat_completeness auto
termination by (relation "measure (\<lambda>(k, xs). length xs)") (auto simp: diff_less)

declare chunks.simps [simp del]

lemma chunks_Nil [simp]: "chunks k [] = []"
  by (simp add: chunks.simps)

lemma chunks_nonempty: "xs \<noteq> [] \<Longrightarrow> chunks k xs = take (Suc k) xs # chunks k (drop (Suc k) xs)"
  by (subst chunks.simps) simp

lemma concat_chunks [simp]: "concat (chunks k xs) = xs"
proof (induction k xs rule: chunks.induct)
  case (1 k xs)
  then show ?case by (cases "xs = []") (simp_all add: chunks_nonempty)
qed

lemma chunks_bound: "c \<in> set (chunks k xs) \<Longrightarrow> c \<noteq> [] \<and> length c \<le> Suc k"
proof (induction k xs rule: chunks.induct)
  case (1 k xs)
  then show ?case by (cases "xs = []") (auto simp: chunks_nonempty)
qed

lemma prefix_take: "prefix (take n xs) xs"
  by (metis append_take_drop_id prefixI)

lemma sum_list_filter_split:
  "sum_list (map f (filter p xs)) + sum_list (map f (filter (\<lambda>x. \<not> p x) xs))
     = (sum_list (map f xs) :: 'b :: comm_monoid_add)"
  by (induction xs) (auto simp: algebra_simps)

end
