(* ===== verification/TopK.thy ===== *)
theory TopK
  imports Prelude "HOL-Library.Multiset"
begin

text \<open>
  The exact nearest-neighbour selection of \<open>run_large_scale_benchmark.py\<close>
  (\<open>_select_topk\<close>, \<open>exact_topk_block\<close>). A score is the finite float32 that NumPy computed,
  as a rational; a row identifier is a \<open>uint32\<close>. The NumPy routines are the fields of
  \<open>kernels\<close> and \<open>kernels_ok\<close> states their documented contracts. The reference is a
  sort of all hits in the order "score descending, identifier ascending", which is an instance of
  \<open>linorder\<close>; the theory proves the blockwise selection equal to the first \<open>k\<close> of
  that sort, for every block size.
\<close>

subsection \<open>Hits and their order\<close>

datatype hit = Hit (hit_score: rat) (hit_id: "32 word")

instantiation hit :: linorder
begin

definition less_eq_hit :: "hit \<Rightarrow> hit \<Rightarrow> bool" where
  "less_eq_hit a b \<longleftrightarrow> hit_score b < hit_score a \<or> hit_score a = hit_score b \<and> hit_id a \<le> hit_id b"

definition less_hit :: "hit \<Rightarrow> hit \<Rightarrow> bool" where
  "less_hit a b \<longleftrightarrow> hit_score b < hit_score a \<or> hit_score a = hit_score b \<and> hit_id a < hit_id b"

instance
  by standard (auto simp: less_eq_hit_def less_hit_def intro: hit.expand)

end

subsection \<open>NumPy\<close>

text \<open>
  \<open>argpartition xs k\<close>: an index permutation whose position \<open>k\<close> splits the values;
  \<open>argsort\<close>: a permutation that sorts identifiers; \<open>lexsort (ids, keys)\<close>: a
  permutation that sorts by key, then by identifier; \<open>matmul\<close>: the score matrix.
\<close>

record 'v kernels =
  matmul :: "'v list \<Rightarrow> 'v list \<Rightarrow> rat list list"
  argpartition :: "rat list \<Rightarrow> nat \<Rightarrow> nat list"
  argsort :: "32 word list \<Rightarrow> nat list"
  lexsort :: "32 word list \<Rightarrow> rat list \<Rightarrow> nat list"

definition index_permutation :: "nat \<Rightarrow> nat list \<Rightarrow> bool" where
  "index_permutation n p \<longleftrightarrow> mset p = mset [0..<n]"

definition kernels_ok :: "'v kernels \<Rightarrow> ('v \<Rightarrow> 'v \<Rightarrow> rat) \<Rightarrow> bool" where
  "kernels_ok K dot \<longleftrightarrow>
     (\<forall>qs cs. matmul K qs cs = map (\<lambda>q. map (dot q) cs) qs)
     \<and> (\<forall>xs k. k < length xs \<longrightarrow>
          index_permutation (length xs) (argpartition K xs k)
          \<and> (\<forall>i \<in> set (take k (argpartition K xs k)). \<forall>j \<in> set (drop k (argpartition K xs k)).
               xs ! i \<le> xs ! j))
     \<and> (\<forall>ids. index_permutation (length ids) (argsort K ids)
          \<and> sorted (map (\<lambda>i. ids ! i) (argsort K ids)))
     \<and> (\<forall>ids keys. length ids = length keys \<longrightarrow>
          index_permutation (length ids) (lexsort K ids keys)
          \<and> sorted (map (\<lambda>i. Hit (- (keys ! i)) (ids ! i)) (lexsort K ids keys)))"

subsection \<open>The code\<close>

text \<open>One row of \<open>_select_topk\<close>: \<open>row_scores > threshold\<close> and \<open>== threshold\<close> as index lists.\<close>

definition select_candidates ::
  "'v kernels \<Rightarrow> rat list \<Rightarrow> 32 word list \<Rightarrow> nat \<Rightarrow> nat list" where
  "select_candidates K row_scores row_ids wanted =
     (if wanted = length row_scores then [0..<length row_scores]
      else let part = argpartition K row_scores (length row_scores - wanted);
               provisional = drop (length part - wanted) part;
               threshold = Min (set (map (\<lambda>i. row_scores ! i) provisional));
               strict = positions (\<lambda>s. threshold < s) row_scores;
               ties = positions (\<lambda>s. s = threshold) row_scores;
               needed = wanted - length strict;
               tie_order = argsort K (map (\<lambda>i. row_ids ! i) ties)
           in strict @ map (\<lambda>i. ties ! i) (take needed tie_order))"

definition select_row ::
  "'v kernels \<Rightarrow> nat \<Rightarrow> rat list \<Rightarrow> 32 word list \<Rightarrow> rat list \<times> 32 word list" where
  "select_row K wanted row_scores row_ids =
     (let candidates = select_candidates K row_scores row_ids wanted;
          order = lexsort K (map (\<lambda>i. row_ids ! i) candidates)
                    (map (\<lambda>i. - (row_scores ! i)) candidates);
          selected = map (\<lambda>i. candidates ! i) (take wanted order)
      in (map (\<lambda>i. row_scores ! i) selected, map (\<lambda>i. row_ids ! i) selected))"

definition shape :: "'a list list \<Rightarrow> nat \<times> nat" where
  "shape m = (length m, case m of [] \<Rightarrow> 0 | row # _ \<Rightarrow> length row)"

definition select_topk ::
  "'v kernels \<Rightarrow> rat list list \<Rightarrow> 32 word list list \<Rightarrow> nat
     \<Rightarrow> (rat list list \<times> 32 word list list) res" where
  "select_topk K scores ids top_k =
     (if shape scores \<noteq> shape ids then Inl (ValueError ''score/ID candidate shape mismatch'')
      else let wanted = min top_k (snd (shape scores)) in
           if wanted = 0 \<and> snd (shape scores) \<noteq> 0 \<and> scores \<noteq> []
             then Inl (ValueError ''kth out of bounds'')
           else let rows = map2 (select_row K wanted) scores ids
                in Inr (map fst rows, map snd rows))"

text \<open>
  One corpus block: the accumulator is the row number of the block's first row and the best
  scores and identifiers per query.
\<close>

definition block_step ::
  "'v kernels \<Rightarrow> 'v list \<Rightarrow> nat \<Rightarrow> nat \<times> rat list list \<times> 32 word list list \<Rightarrow> 'v list
     \<Rightarrow> (nat \<times> rat list list \<times> 32 word list list) res" where
  "block_step K queries top_k acc block =
     (case acc of (begin, best_scores, best_ids) \<Rightarrow>
      let scores = matmul K queries block;
          ids = replicate (length queries) (map of_nat [begin..<begin + length block]) in
      case select_topk K scores ids top_k of Inl e \<Rightarrow> Inl e | Inr (local_scores, local_ids) \<Rightarrow>
      case select_topk K (map2 append best_scores local_scores) (map2 append best_ids local_ids)
             top_k of Inl e \<Rightarrow> Inl e | Inr (scores', ids') \<Rightarrow>
      Inr (begin + length block, scores', ids'))"

definition exact_topk_block ::
  "'v kernels \<Rightarrow> 'v list \<Rightarrow> 'v list \<Rightarrow> nat \<Rightarrow> int \<Rightarrow> 32 word list list res" where
  "exact_topk_block K corpus queries top_k corpus_block_rows =
     (if corpus_block_rows = 0 then Inl (ValueError ''range() arg 3 must not be zero'')
      else case fold_res (block_step K queries top_k)
                  (0, map (\<lambda>_. []) queries, map (\<lambda>_. []) queries)
                  (if corpus_block_rows < 0 then [] else chunks (nat corpus_block_rows - 1) corpus) of
        Inl e \<Rightarrow> Inl e | Inr (_, _, best_ids) \<Rightarrow> Inr best_ids)"

subsection \<open>The smallest elements of a list\<close>

text \<open>Splitting off elements that no other element undercuts.\<close>

lemma sort_split:
  fixes C R :: "'a :: linorder list"
  assumes "mset xs = mset C + mset R" and "\<forall>c \<in> set C. \<forall>r \<in> set R. c \<le> r"
  shows "sort xs = sort C @ sort R"
  using assms by (intro properties_for_sort) (auto simp: sorted_append)

lemma take_sort_split:
  fixes C R :: "'a :: linorder list"
  assumes "mset xs = mset C + mset R" and "\<forall>c \<in> set C. \<forall>r \<in> set R. c \<le> r" and "length C = k"
  shows "take k (sort xs) = sort C"
  using assms by (simp add: sort_split)

lemma count_below_take_sort:
  fixes s :: "'a :: linorder"
  assumes "s \<in> set (take k (sort X))"
  shows "length (filter (\<lambda>x. x < s) X) < k"
proof -
  obtain i where i: "i < k" "i < length (sort X)" "sort X ! i = s"
    using assms by (auto simp: in_set_conv_nth)
  have "\<forall>x \<in> set (drop i (sort X)). \<not> x < s"
  proof
    fix x assume "x \<in> set (drop i (sort X))"
    then obtain j where "j < length (drop i (sort X))" "x = drop i (sort X) ! j"
      by (metis in_set_conv_nth)
    then have "i + j < length (sort X)" "x = sort X ! (i + j)" by simp_all
    then have "s \<le> x" using i(3) sorted_nth_mono [of "sort X" i "i + j"] by simp
    then show "\<not> x < s" by simp
  qed
  then have "filter (\<lambda>x. x < s) (drop i (sort X)) = []" by (simp add: filter_empty_conv)
  then have "filter (\<lambda>x. x < s) (sort X) = filter (\<lambda>x. x < s) (take i (sort X))"
    by (metis append.right_neutral append_take_drop_id filter_append)
  then have "length (filter (\<lambda>x. x < s) (sort X)) \<le> i"
    by (metis length_filter_le length_take min.bounded_iff)
  moreover have "mset (filter (\<lambda>x. x < s) (sort X)) = mset (filter (\<lambda>x. x < s) X)" by simp
  then have "length (filter (\<lambda>x. x < s) (sort X)) = length (filter (\<lambda>x. x < s) X)"
    by (rule mset_eq_length)
  ultimately show ?thesis using i(1) by simp
qed

text \<open>Dropping everything but the \<open>k\<close> smallest of a part does not change the \<open>k\<close> smallest.\<close>

lemma take_sort_absorb:
  fixes A B :: "'a :: linorder list"
  shows "take k (sort (take k (sort A) @ B)) = take k (sort (A @ B))"
proof (cases "length A \<le> k")
  case True
  have "sort (sort A @ B) = sort (A @ B)"
    by (rule properties_for_sort) (simp_all add: ac_simps)
  with True show ?thesis by simp
next
  case False
  let ?A = "take k (sort A)" and ?R = "drop k (sort A)"
  let ?X = "?A @ B"
  let ?S = "take k (sort ?X)" and ?T = "drop k (sort ?X)"
  have split: "?A @ ?R = sort A" by simp
  have lenA: "length ?A = k" using False by simp
  have le: "\<forall>a \<in> set ?A. \<forall>r \<in> set ?R. a \<le> r"
    using split sorted_sort [of A] by (metis sorted_append)
  have "\<forall>s \<in> set ?S. \<forall>r \<in> set ?R. s \<le> r"
  proof (intro ballI, rule ccontr)
    fix s r assume s: "s \<in> set ?S" and r: "r \<in> set ?R" and "\<not> s \<le> r"
    then have "\<forall>a \<in> set ?A. a < s" using le by (metis le_less_trans not_le)
    then have "filter (\<lambda>x. x < s) ?A = ?A" by (simp only: filter_id_conv)
    then have "k \<le> length (filter (\<lambda>x. x < s) ?X)" using lenA by simp
    then show False using count_below_take_sort [OF s] by simp
  qed
  moreover have "\<forall>s \<in> set ?S. \<forall>t \<in> set ?T. s \<le> t"
    using sorted_sort [of ?X] by (metis append_take_drop_id sorted_append)
  ultimately have le2: "\<forall>s \<in> set ?S. \<forall>t \<in> set (?T @ ?R). s \<le> t" by auto
  have s1: "mset (?A @ ?R) = mset A" unfolding append_take_drop_id by (rule mset_sort)
  have s2: "mset (?S @ ?T) = mset ?X" unfolding append_take_drop_id by (rule mset_sort)
  have "mset (A @ B) = (mset ?A + mset ?R) + mset B" using s1 by (simp only: mset_append)
  also have "\<dots> = (mset ?A + mset B) + mset ?R" by (simp only: ac_simps)
  also have "\<dots> = (mset ?S + mset ?T) + mset ?R" using s2 by (simp only: mset_append)
  also have "\<dots> = mset ?S + mset (?T @ ?R)" by (simp only: mset_append ac_simps)
  finally have "mset (A @ B) = mset ?S + mset (?T @ ?R)" .
  moreover have "length ?S = k" using lenA by simp
  ultimately have "take k (sort (A @ B)) = sort ?S" using le2 by (intro take_sort_split)
  moreover have "sort ?S = ?S" by (intro sorted_sort_id sorted_wrt_take sorted_sort)
  ultimately show ?thesis by simp
qed

lemma take_sort_merge:
  fixes A B :: "'a :: linorder list"
  shows "take k (sort (take k (sort A) @ take k (sort B))) = take k (sort (A @ B))"
proof -
  have comm: "sort (X @ Y) = sort (Y @ X)" for X Y :: "'a list"
    by (rule properties_for_sort) (simp_all add: ac_simps)
  have "take k (sort (A @ take k (sort B))) = take k (sort (take k (sort B) @ A))"
    by (rule arg_cong [OF comm])
  also have "\<dots> = take k (sort (B @ A))" by (rule take_sort_absorb)
  also have "\<dots> = take k (sort (A @ B))" by (rule arg_cong [OF comm])
  finally show ?thesis by (simp only: take_sort_absorb)
qed

subsection \<open>One row\<close>

abbreviation hit_at :: "rat list \<Rightarrow> 32 word list \<Rightarrow> nat \<Rightarrow> hit" where
  "hit_at S I i \<equiv> Hit (S ! i) (I ! i)"

lemma map2_hit_at: "length S = length I \<Longrightarrow> map2 Hit S I = map (hit_at S I) [0..<length S]"
  by (intro nth_equalityI) auto

lemma index_permutation_facts:
  assumes "index_permutation n p"
  shows "length p = n" "distinct p" "set p = {..<n}"
proof -
  have m: "mset p = mset [0..<n]" using assms by (simp add: index_permutation_def)
  show "length p = n" using mset_eq_length [OF m] by simp
  show "distinct p" using mset_eq_imp_distinct_iff [OF m] by simp
  have "set p = set [0..<n]" using m by (rule mset_eq_setD)
  then show "set p = {..<n}" by (simp add: atLeast0LessThan)
qed

lemma mset_map_permuted:
  assumes "index_permutation (length xs) p"
  shows "mset (map (\<lambda>i. xs ! i) p) = mset xs"
proof -
  have "mset (map (\<lambda>i. xs ! i) p) = image_mset (\<lambda>i. xs ! i) (mset [0..<length xs])"
    using assms by (simp add: index_permutation_def)
  also have "\<dots> = mset (map (\<lambda>i. xs ! i) [0..<length xs])" by simp
  finally show ?thesis by (simp only: map_nth)
qed

text \<open>What the partition gives: few hits above the threshold, enough at or above it.\<close>

lemma threshold_counts:
  fixes S :: "rat list"
  assumes perm: "index_permutation (length S) part"
    and split: "\<forall>i \<in> set (take k part). \<forall>j \<in> set (drop k part). S ! i \<le> S ! j"
    and k: "k < length S"
    and thr: "thr = Min (set (map (\<lambda>i. S ! i) (drop k part)))"
  shows "length (positions (\<lambda>s. thr < s) S) < length S - k"
    and "length S - k \<le> length (positions (\<lambda>s. thr < s) S) + length (positions (\<lambda>s. s = thr) S)"
proof -
  note facts = index_permutation_facts [OF perm]
  let ?hi = "set (drop k part)"
  have parts: "set (take k part) \<union> ?hi = {..<length S}"
    using facts(3) by (metis append_take_drop_id set_append)
  have card: "card ?hi = length S - k"
    using facts by (simp add: distinct_card)
  then have fin: "finite ((\<lambda>i. S ! i) ` ?hi)" "(\<lambda>i. S ! i) ` ?hi \<noteq> {}" using k by fastforce+
  then obtain m where m: "m \<in> ?hi" "S ! m = thr"
    using Min_in [OF fin] unfolding thr set_map by (metis (no_types, lifting) imageE)
  have ge: "thr \<le> S ! j" if "j \<in> ?hi" for j
    using that fin thr by simp
  have le: "S ! i \<le> thr" if "i \<in> set (take k part)" for i
    using that split m by auto
  have "set (positions (\<lambda>s. thr < s) S) \<subseteq> ?hi - {m}"
    using parts le m(2) by (auto simp: set_positions)
       (metis UnE lessThan_iff not_le)
  then have "card (set (positions (\<lambda>s. thr < s) S)) \<le> card (?hi - {m})"
    by (intro card_mono) auto
  then have *: "length (positions (\<lambda>s. thr < s) S) \<le> length S - k - 1"
    using card m(1) by (simp add: distinct_card)
  then show "length (positions (\<lambda>s. thr < s) S) < length S - k" using k by simp
  have "?hi \<subseteq> set (positions (\<lambda>s. thr < s) S) \<union> set (positions (\<lambda>s. s = thr) S)"
  proof
    fix j assume j: "j \<in> ?hi"
    then have "j < length S" using parts by blast
    then show "j \<in> set (positions (\<lambda>s. thr < s) S) \<union> set (positions (\<lambda>s. s = thr) S)"
      using ge [OF j] by (simp add: set_positions) linarith
  qed
  then have "card ?hi \<le> card (set (positions (\<lambda>s. thr < s) S) \<union> set (positions (\<lambda>s. s = thr) S))"
    by (intro card_mono) auto
  also have "\<dots> \<le> card (set (positions (\<lambda>s. thr < s) S)) + card (set (positions (\<lambda>s. s = thr) S))"
    by (rule card_Un_le)
  finally show "length S - k
      \<le> length (positions (\<lambda>s. thr < s) S) + length (positions (\<lambda>s. s = thr) S)"
    using card by (simp add: distinct_card)
qed

definition best_candidates :: "rat list \<Rightarrow> 32 word list \<Rightarrow> nat \<Rightarrow> nat list \<Rightarrow> bool" where
  "best_candidates S I n C \<longleftrightarrow> distinct C \<and> set C \<subseteq> {..<length S} \<and> length C = n
     \<and> (\<forall>c \<in> set C. \<forall>j < length S. j \<notin> set C \<longrightarrow> hit_at S I c \<le> hit_at S I j)"

lemma ties_selected:
  assumes srt: "sorted (map (\<lambda>i. xs ! i) p)" and perm: "index_permutation (length xs) p"
    and a: "a \<in> set (take n p)" and b: "b < length xs" "b \<notin> set (take n p)"
  shows "(xs ! a :: 'a :: linorder) \<le> xs ! b"
proof -
  have "b \<in> set p" using index_permutation_facts(3) [OF perm] b(1) by simp
  then have "b \<in> set (drop n p)"
    using b(2) by (metis UnE append_take_drop_id set_append)
  moreover have "sorted (map (\<lambda>i. xs ! i) (take n p) @ map (\<lambda>i. xs ! i) (drop n p))"
    using srt by (metis append_take_drop_id map_append)
  ultimately show ?thesis using a by (auto simp: sorted_append)
qed

lemma select_candidates_best:
  assumes K: "kernels_ok K dot" and len: "length S = length I"
    and n: "0 < n" "n \<le> length S"
  shows "best_candidates S I n (select_candidates K S I n)"
proof (cases "n = length S")
  case True
  then show ?thesis by (auto simp: best_candidates_def select_candidates_def)
next
  case False
  let ?k = "length S - n"
  define part where "part = argpartition K S ?k"
  define thr where "thr = Min (set (map (\<lambda>i. S ! i) (drop ?k part)))"
  define strict where "strict = positions (\<lambda>s. thr < s) S"
  define ties where "ties = positions (\<lambda>s. s = thr) S"
  define keys where "keys = map (\<lambda>i. I ! i) ties"
  define order where "order = argsort K keys"
  let ?need = "n - length strict"
  let ?taken = "map (\<lambda>i. ties ! i) (take ?need order)"
  have k: "?k < length S" using n False by simp
  have part: "index_permutation (length S) part"
    "\<forall>i \<in> set (take ?k part). \<forall>j \<in> set (drop ?k part). S ! i \<le> S ! j"
    using K k unfolding kernels_ok_def part_def by blast+
  have counts: "length strict < n" "n \<le> length strict + length ties"
    using threshold_counts [OF part k thr_def] n unfolding strict_def ties_def by simp_all
  have order: "index_permutation (length keys) order" "sorted (map (\<lambda>i. keys ! i) order)"
    using K unfolding kernels_ok_def order_def by blast+
  note ofacts = index_permutation_facts [OF order(1)]
  have lk: "length keys = length ties" by (simp add: keys_def)
  have tied: "set (take ?need order) \<subseteq> {..<length ties}"
    using ofacts(3) lk by (metis set_take_subset)
  have C: "select_candidates K S I n = strict @ ?taken"
    using False index_permutation_facts(1) [OF part(1)]
    by (simp add: select_candidates_def Let_def part_def thr_def strict_def ties_def order_def keys_def)
  have dt: "distinct ties" by (simp add: ties_def)
  have "inj_on (\<lambda>i. ties ! i) (set (take ?need order))"
    using tied dt by (auto simp: inj_on_def nth_eq_iff_index_eq subset_iff)
  then have d: "distinct ?taken" using ofacts(2) by (simp add: distinct_map)
  have in_ties: "set ?taken \<subseteq> set ties" using tied by (auto simp: subset_iff)
  have disj: "set strict \<inter> set ties = {}" by (auto simp: strict_def ties_def set_positions)
  have ranges: "set strict \<subseteq> {..<length S}" "set ties \<subseteq> {..<length S}"
    by (auto simp: strict_def ties_def set_positions)
  have "length ?taken = ?need" using counts ofacts(1) lk by simp
  moreover have "hit_at S I c \<le> hit_at S I j"
    if c: "c \<in> set (strict @ ?taken)" and j: "j < length S" "j \<notin> set (strict @ ?taken)" for c j
  proof -
    have j_le: "S ! j \<le> thr" using j by (auto simp: strict_def set_positions)
    consider "thr < S ! c" | "S ! c = thr" "c \<in> set ?taken"
      using c in_ties by (auto simp: strict_def ties_def set_positions subset_iff)
    then show ?thesis
    proof cases
      case 1
      then show ?thesis using j_le by (auto simp: less_eq_hit_def)
    next
      case 2
      show ?thesis
      proof (cases "S ! j = thr")
        case True
        then have "j \<in> set ties" using j by (simp add: ties_def set_positions)
        then obtain b where b: "b < length ties" "j = ties ! b" by (metis in_set_conv_nth)
        moreover from this have "b \<notin> set (take ?need order)" using j(2) by auto
        moreover obtain a where a: "a \<in> set (take ?need order)" "c = ties ! a" using 2(2) by auto
        ultimately have "keys ! a \<le> keys ! b" using ties_selected [OF order(2,1)] lk by simp
        moreover have "a < length ties" using a(1) tied by auto
        ultimately show ?thesis using a b True 2(1) by (simp add: keys_def less_eq_hit_def)
      next
        case False
        then show ?thesis using 2 j_le by (simp add: less_eq_hit_def)
      qed
    qed
  qed
  ultimately show ?thesis
    unfolding best_candidates_def C using counts d disj in_ties ranges
    by (intro conjI ballI allI impI) (auto simp: strict_def simp del: set_map)
qed

lemma select_row_sorts:
  assumes K: "kernels_ok K dot" and len: "length S = length I"
    and n: "0 < n" "n \<le> length S" and r: "select_row K n S I = (s, i)"
  shows "map2 Hit s i = take n (sort (map2 Hit S I))" "length s = n" "length i = n"
proof -
  define C where "C = select_candidates K S I n"
  have best: "best_candidates S I n C"
    using select_candidates_best [OF K len n] by (simp add: C_def)
  define order where "order = lexsort K (map (\<lambda>i. I ! i) C) (map (\<lambda>i. - (S ! i)) C)"
  have lenC: "length C = n" using best by (simp add: best_candidates_def)
  have lexK: "\<forall>ids keys. length ids = length keys \<longrightarrow>
      index_permutation (length ids) (lexsort K ids keys)
      \<and> sorted (map (\<lambda>i. Hit (- (keys ! i)) (ids ! i)) (lexsort K ids keys))"
    using K unfolding kernels_ok_def by (elim conjE)
  note lex0 = lexK [rule_format, of "map (\<lambda>i. I ! i) C" "map (\<lambda>i. - (S ! i)) C", folded order_def]
  have lex: "index_permutation (length C) order"
    "sorted (map (\<lambda>j. Hit (- (map (\<lambda>i. - (S ! i)) C ! j)) (map (\<lambda>i. I ! i) C ! j)) order)"
    using lex0 [THEN conjunct1] lex0 [THEN conjunct2] by (simp_all only: length_map)
  note facts = index_permutation_facts [OF lex(1)]
  let ?sel = "map (\<lambda>j. C ! j) order"
  have out: "s = map (\<lambda>j. S ! j) ?sel" "i = map (\<lambda>j. I ! j) ?sel"
    using r facts(1) lenC by (auto simp: select_row_def Let_def C_def order_def)
  then show "length s = n" "length i = n" using facts(1) lenC by simp_all
  have hits: "map2 Hit s i = map (hit_at S I) ?sel"
    unfolding out by (intro nth_equalityI) auto
  have "map (hit_at S I) ?sel
      = map (\<lambda>j. Hit (- (map (\<lambda>i. - (S ! i)) C ! j)) (map (\<lambda>i. I ! i) C ! j)) order"
    using facts(3) by auto
  then have srt: "sorted (map (hit_at S I) ?sel)" using lex(2) by (simp only:)
  have "mset (map (hit_at S I) ?sel) = mset (map (hit_at S I) C)"
    using mset_map_permuted [OF lex(1)] by (metis mset_map)
  then have 1: "sort (map (hit_at S I) C) = map (hit_at S I) ?sel"
    by (rule properties_for_sort) (rule srt)
  let ?R = "filter (\<lambda>j. j \<notin> set C) [0..<length S]"
  have "mset C = mset (filter (\<lambda>j. j \<in> set C) [0..<length S])"
    using best
    by (subst set_eq_iff_mset_eq_distinct [symmetric]) (auto simp: best_candidates_def subset_iff)
  then have "mset [0..<length S] = mset C + mset ?R"
    by (metis mset_filter multiset_partition)
  then have "image_mset (hit_at S I) (mset [0..<length S])
      = image_mset (hit_at S I) (mset C) + image_mset (hit_at S I) (mset ?R)"
    by (metis image_mset_union)
  then have parts: "mset (map2 Hit S I) = mset (map (hit_at S I) C) + mset (map (hit_at S I) ?R)"
    unfolding map2_hit_at [OF len] by (simp only: mset_map)
  have "\<forall>c \<in> set (map (hit_at S I) C). \<forall>r \<in> set (map (hit_at S I) ?R). c \<le> r"
    using best by (auto simp: best_candidates_def)
  then have "take n (sort (map2 Hit S I)) = sort (map (hit_at S I) C)"
    using take_sort_split [OF parts] lenC by simp
  then show "map2 Hit s i = take n (sort (map2 Hit S I))" using 1 hits by simp
qed

subsection \<open>All rows, all blocks\<close>

lemma map2_Hit_ids: "length s = length i \<Longrightarrow> map hit_id (map2 Hit s i) = i"
  by (simp add: comp_def case_prod_unfold)

lemma select_row_sorts_min:
  assumes K: "kernels_ok K dot" and len: "length S = length I" and k: "0 < k"
    and r: "select_row K (min k (length S)) S I = (s, i)"
  shows "map2 Hit s i = take k (sort (map2 Hit S I)) \<and> length s = min k (length S)
    \<and> length i = min k (length S)"
proof (cases "S = []")
  case True
  then show ?thesis using r len by (simp add: select_row_def Let_def)
next
  case False
  then have n: "0 < min k (length S)" "min k (length S) \<le> length S" using k by auto
  note row = select_row_sorts [OF K len n r]
  have "take k (sort (map2 Hit S I)) = take (min k (length S)) (sort (map2 Hit S I))"
    using len by (simp add: min_def)
  then show ?thesis using row by simp
qed

definition top_rows :: "nat \<Rightarrow> nat \<Rightarrow> hit list list \<Rightarrow> rat list list \<Rightarrow> 32 word list list \<Rightarrow> bool" where
  "top_rows k n hits S I \<longleftrightarrow> length S = length hits \<and> length I = length hits
     \<and> (\<forall>q < length hits. length (S ! q) = min k n \<and> length (I ! q) = min k n
          \<and> map2 Hit (S ! q) (I ! q) = take k (sort (hits ! q)))"

lemma select_topk_rows:
  assumes K: "kernels_ok K dot" and k: "0 < k"
    and len: "length S = length I" "\<forall>r \<in> set S. length r = n" "\<forall>r \<in> set I. length r = n"
  obtains S' I' where "select_topk K S I k = Inr (S', I')"
    and "top_rows k n (map2 (map2 Hit) S I) S' I'"
proof -
  define wanted where "wanted = min k (snd (shape S))"
  define rows where "rows = map2 (select_row K wanted) S I"
  have sh: "shape S = shape I"
    using len by (cases S; cases I) (auto simp: shape_def)
  have w: "S \<noteq> [] \<Longrightarrow> wanted = min k n"
    using len(2) by (cases S) (auto simp: shape_def wanted_def)
  have "select_topk K S I k = Inr (map fst rows, map snd rows)"
    using sh k by (auto simp: select_topk_def Let_def wanted_def rows_def)
  moreover have "top_rows k n (map2 (map2 Hit) S I) (map fst rows) (map snd rows)"
    unfolding top_rows_def
  proof (intro conjI allI impI)
    fix q assume "q < length (map2 (map2 Hit) S I)"
    then have q: "q < length S" "q < length I" using len by auto
    have lens: "length (S ! q) = n" "length (I ! q) = n" using q len by auto
    have "S \<noteq> []" using q by auto
    obtain s i where si: "select_row K wanted (S ! q) (I ! q) = (s, i)" by (metis surj_pair)
    then have "rows ! q = (s, i)" using q by (simp add: rows_def)
    moreover have "map2 Hit s i = take k (sort (map2 Hit (S ! q) (I ! q))) \<and> length s = min k n
        \<and> length i = min k n"
      using select_row_sorts_min [OF K _ k] si lens w [OF \<open>S \<noteq> []\<close>] by metis
    ultimately show "length (map fst rows ! q) = min k n" "length (map snd rows ! q) = min k n"
      "map2 Hit (map fst rows ! q) (map snd rows ! q) = take k (sort (map2 (map2 Hit) S I ! q))"
      using q by (simp_all add: rows_def)
  qed (use len in \<open>simp_all add: rows_def\<close>)
  ultimately show thesis by (rule that)
qed

text \<open>All hits of one query over a run of corpus rows that starts at row \<open>b\<close>.\<close>

definition hits_from :: "('v \<Rightarrow> 'v \<Rightarrow> rat) \<Rightarrow> 'v \<Rightarrow> nat \<Rightarrow> 'v list \<Rightarrow> hit list" where
  "hits_from dot q b cs = map2 (\<lambda>c i. Hit (dot q c) (of_nat i)) cs [b..<b + length cs]"

lemma hits_from_append:
  "hits_from dot q b (cs @ ds) = hits_from dot q b cs @ hits_from dot q (b + length cs) ds"
  by (simp add: hits_from_def upt_add_eq_append [of b "b + length cs" "length ds"] add.assoc [symmetric]
      zip_append)

lemma length_hits_from [simp]: "length (hits_from dot q b cs) = length cs"
  by (simp add: hits_from_def)

definition block_invariant ::
  "('v \<Rightarrow> 'v \<Rightarrow> rat) \<Rightarrow> 'v list \<Rightarrow> nat \<Rightarrow> 'v list \<Rightarrow> nat \<times> rat list list \<times> 32 word list list \<Rightarrow> bool" where
  "block_invariant dot queries k done acc \<longleftrightarrow>
     (case acc of (b, S, I) \<Rightarrow> b = length done
        \<and> top_rows k (length done) (map (\<lambda>q. hits_from dot q 0 done) queries) S I)"

lemma block_step_invariant:
  assumes K: "kernels_ok K dot" and k: "0 < k" and inv: "block_invariant dot queries k done acc"
  obtains acc' where "block_step K queries k acc block = Inr acc'"
    and "block_invariant dot queries k (done @ block) acc'"
proof -
  obtain S I where acc: "acc = (length done, S, I)"
    and top: "top_rows k (length done) (map (\<lambda>q. hits_from dot q 0 done) queries) S I"
    using inv by (auto simp: block_invariant_def split: prod.splits)
  let ?b = "length done" and ?m = "length block"
  define M where "M = map (\<lambda>q. map (dot q) block) queries"
  define J where "J = replicate (length queries) (map of_nat [?b..<?b + ?m] :: 32 word list)"
  have mm: "matmul K queries block = M" using K by (simp add: kernels_ok_def M_def)
  obtain LS LI where loc: "select_topk K M J k = Inr (LS, LI)"
    and ltop: "top_rows k ?m (map2 (map2 Hit) M J) LS LI"
    by (rule select_topk_rows [OF K k, of M J ?m]) (auto simp: M_def J_def)
  let ?n = "min k ?b + min k ?m"
  have lens: "length S = length queries" "length I = length queries"
    "length LS = length queries" "length LI = length queries"
    using top ltop by (auto simp: top_rows_def M_def J_def)
  have rowlen: "length (S ! q) = min k ?b" "length (I ! q) = min k ?b"
    "length (LS ! q) = min k ?m" "length (LI ! q) = min k ?m" if "q < length queries" for q
    using that top ltop by (auto simp: top_rows_def M_def J_def)
  obtain S' I' where fin: "select_topk K (map2 append S LS) (map2 append I LI) k = Inr (S', I')"
    and ftop: "top_rows k ?n (map2 (map2 Hit) (map2 append S LS) (map2 append I LI)) S' I'"
    by (rule select_topk_rows [OF K k, of "map2 append S LS" "map2 append I LI" ?n])
       (use lens rowlen in \<open>auto simp: in_set_conv_nth\<close>)
  have "block_step K queries k acc block = Inr (?b + ?m, S', I')"
    using loc fin by (simp add: block_step_def acc mm J_def)
  moreover have "top_rows k (?b + ?m) (map (\<lambda>q. hits_from dot q 0 (done @ block)) queries) S' I'"
    unfolding top_rows_def
  proof (intro conjI allI impI)
    fix q assume "q < length (map (\<lambda>q. hits_from dot q 0 (done @ block)) queries)"
    then have q: "q < length queries" by simp
    have MJ: "map2 Hit (M ! q) (J ! q) = hits_from dot (queries ! q) ?b block"
      using q by (intro nth_equalityI) (auto simp: M_def J_def hits_from_def)
    have "map2 Hit (S ! q) (I ! q) = take k (sort (hits_from dot (queries ! q) 0 done))"
      using q top by (simp add: top_rows_def)
    moreover have "map2 Hit (LS ! q) (LI ! q) = take k (sort (hits_from dot (queries ! q) ?b block))"
      using q ltop MJ by (simp add: top_rows_def M_def J_def)
    ultimately have "map2 Hit (S ! q @ LS ! q) (I ! q @ LI ! q)
        = take k (sort (hits_from dot (queries ! q) 0 done))
          @ take k (sort (hits_from dot (queries ! q) ?b block))"
      using rowlen [OF q] by (simp add: zip_append)
    then have "map2 Hit (S' ! q) (I' ! q)
        = take k (sort (hits_from dot (queries ! q) 0 (done @ block)))"
      using q ftop lens by (simp add: top_rows_def take_sort_merge hits_from_append)
    then show "map2 Hit (S' ! q) (I' ! q)
        = take k (sort (map (\<lambda>q. hits_from dot q 0 (done @ block)) queries ! q))"
      using q by simp
    have "min k ?n = min k (?b + ?m)" by auto
    then show "length (S' ! q) = min k (?b + ?m)" "length (I' ! q) = min k (?b + ?m)"
      using q ftop lens by (simp_all add: top_rows_def)
  qed (use ftop lens in \<open>simp_all add: top_rows_def\<close>)
  ultimately show thesis
    by (intro that) (auto simp: block_invariant_def)
qed

lemma block_loop_invariant:
  assumes K: "kernels_ok K dot" and k: "0 < k" and inv: "block_invariant dot queries k done acc"
  shows "\<exists>acc'. fold_res (block_step K queries k) acc blocks = Inr acc'
    \<and> block_invariant dot queries k (done @ concat blocks) acc'"
  using inv
proof (induction blocks arbitrary: acc "done")
  case (Cons block blocks)
  obtain acc1 where "block_step K queries k acc block = Inr acc1"
    and "block_invariant dot queries k (done @ block) acc1"
    by (rule block_step_invariant [OF K k Cons.prems])
  then show ?case using Cons.IH [of "done @ block" acc1] by simp
qed simp

lemma exact_topk_rows:
  assumes K: "kernels_ok K dot" and k: "0 < k" and b: "0 < block_rows"
  shows "exact_topk_block K corpus queries k block_rows
    = Inr (map (\<lambda>q. map hit_id (take k (sort (hits_from dot q 0 corpus)))) queries)"
proof -
  have "block_invariant dot queries k [] (0, map (\<lambda>_. []) queries, map (\<lambda>_. []) queries)"
    by (simp add: block_invariant_def top_rows_def hits_from_def)
  then obtain n S I where
    run: "fold_res (block_step K queries k) (0, map (\<lambda>_. []) queries, map (\<lambda>_. []) queries)
            (chunks (nat block_rows - 1) corpus) = Inr (n, S, I)"
    and "block_invariant dot queries k corpus (n, S, I)"
    using block_loop_invariant [OF K k, of queries "[]" _ "chunks (nat block_rows - 1) corpus"]
    by (metis append_Nil concat_chunks prod_cases3)
  then have top: "top_rows k (length corpus) (map (\<lambda>q. hits_from dot q 0 corpus) queries) S I"
    by (auto simp: block_invariant_def)
  have "I = map (\<lambda>q. map hit_id (take k (sort (hits_from dot q 0 corpus)))) queries"
  proof (rule nth_equalityI)
    fix q assume "q < length I"
    then have q: "q < length queries" using top by (simp add: top_rows_def)
    then show "I ! q = map (\<lambda>q. map hit_id (take k (sort (hits_from dot q 0 corpus)))) queries ! q"
      using top map2_Hit_ids [of "S ! q" "I ! q"] by (simp add: top_rows_def)
  qed (use top in \<open>simp add: top_rows_def\<close>)
  then show ?thesis using run b by (simp add: exact_topk_block_def)
qed

text \<open>
  A selected row is a row the ground-truth format accepts: \<open>k\<close> distinct row numbers of the corpus.
\<close>

definition exact_row :: "('v \<Rightarrow> 'v \<Rightarrow> rat) \<Rightarrow> 'v list \<Rightarrow> nat \<Rightarrow> 'v \<Rightarrow> 32 word list" where
  "exact_row dot corpus k q = map hit_id (take k (sort (hits_from dot q 0 corpus)))"

lemma hit_ids_from: "map hit_id (hits_from dot q 0 cs) = map of_nat [0..<length cs]"
  by (intro nth_equalityI) (auto simp: hits_from_def)

lemma exact_row_valid:
  assumes "length corpus \<le> 2 ^ 32" and "k \<le> length corpus"
  shows "length (exact_row dot corpus k q) = k" "distinct (exact_row dot corpus k q)"
    "\<forall>i \<in> set (exact_row dot corpus k q). unat i < length corpus"
proof -
  let ?ids = "map of_nat [0..<length corpus] :: 32 word list"
  have small: "unat (of_nat i :: 32 word) = i" if "i < length corpus" for i
    using that assms(1) by (simp add: unat_of_nat)
  have "inj_on (of_nat :: nat \<Rightarrow> 32 word) (set [0..<length corpus])"
    by (rule inj_on_inverseI [where g = unat]) (simp add: small)
  then have d: "distinct ?ids" by (simp add: distinct_map)
  have m: "mset (map hit_id (sort (hits_from dot q 0 corpus))) = mset ?ids"
    by (simp only: mset_map mset_sort flip: hit_ids_from [of dot q])
  have ds: "distinct (map hit_id (sort (hits_from dot q 0 corpus)))"
    using mset_eq_imp_distinct_iff [OF m] d by simp
  have ss: "set (map hit_id (sort (hits_from dot q 0 corpus))) = set ?ids"
    using m by (rule mset_eq_setD)
  show "length (exact_row dot corpus k q) = k" using assms(2) by (simp add: exact_row_def)
  show "distinct (exact_row dot corpus k q)"
    using ds by (simp add: exact_row_def flip: take_map)
  show "\<forall>i \<in> set (exact_row dot corpus k q). unat i < length corpus"
  proof
    fix i assume "i \<in> set (exact_row dot corpus k q)"
    then have "i \<in> set (take k (map hit_id (sort (hits_from dot q 0 corpus))))"
      by (simp add: exact_row_def take_map)
    then have "i \<in> set ?ids" using ss by (blast dest: in_set_takeD)
    then show "unat i < length corpus" using small by auto
  qed
qed

subsection \<open>The property\<close>

text \<open>
  C2. The blockwise selection is exact: whatever partition and sorts NumPy uses within their
  contracts and whatever the block size, \<open>exact_topk_block\<close> returns for every query the
  identifiers of the first \<open>k\<close> of all corpus rows in the order "score descending, identifier
  ascending"; no block boundary and no tie at the threshold loses a hit.
\<close>

theorem exact_topk_is_global_sort:
  assumes "kernels_ok K dot" and "0 < k" and "0 < block_rows"
  shows "exact_topk_block K corpus queries k block_rows
    = Inr (map (\<lambda>q. map hit_id (take k (sort (hits_from dot q 0 corpus)))) queries)"
  using assms by (rule exact_topk_rows)

text \<open>Kernels that sort: they meet the contracts.\<close>

definition sorting_kernels :: "('v \<Rightarrow> 'v \<Rightarrow> rat) \<Rightarrow> 'v kernels" where
  "sorting_kernels dot =
     \<lparr>matmul = \<lambda>qs cs. map (\<lambda>q. map (dot q) cs) qs,
      argpartition = \<lambda>xs k. sort_key (\<lambda>i. xs ! i) [0..<length xs],
      argsort = \<lambda>ids. sort_key (\<lambda>i. ids ! i) [0..<length ids],
      lexsort = \<lambda>ids keys. sort_key (\<lambda>i. Hit (- (keys ! i)) (ids ! i)) [0..<length ids]\<rparr>"

lemma sorting_kernels_ok: "kernels_ok (sorting_kernels dot) dot"
proof -
  have "xs ! i \<le> xs ! j"
    if "i \<in> set (take k p)" "j \<in> set (drop k p)" "p = sort_key (\<lambda>i. xs ! i) [0..<length xs]"
    for xs :: "rat list" and k i j p
  proof -
    have "sorted (map (\<lambda>i. xs ! i) (take k p) @ map (\<lambda>i. xs ! i) (drop k p))"
      unfolding map_append [symmetric] append_take_drop_id that(3) by (rule sorted_sort_key)
    then show ?thesis using that(1,2) by (auto simp: sorted_append)
  qed
  then show ?thesis
    by (simp add: kernels_ok_def sorting_kernels_def index_permutation_def sorted_sort_key)
qed

theorem exact_topk_is_global_sort_witness:
  "exact_topk_block (sorting_kernels (\<lambda>q c. q * c)) [3, 1, 3, 2, 3] [1, -1] 2 2
     = Inr [[0, 2], [1, 3]]"
proof -
  have "exact_topk_block (sorting_kernels (\<lambda>q c. q * c)) [3, 1, 3, 2, 3] [1, -1] 2 2
    = Inr (map (\<lambda>q. map hit_id (take 2 (sort (hits_from (\<lambda>q c. q * c) q 0 [3, 1, 3, 2, 3])))) [1, -1])"
    by (rule exact_topk_is_global_sort [OF sorting_kernels_ok]) simp_all
  also have "\<dots> = Inr [[0, 2], [1, 3]]"
    by (simp add: hits_from_def upt_rec less_eq_hit_def insort_key.simps)
  finally show ?thesis .
qed

end
