(* ===== verification/PyText.thy ===== *)
theory PyText
  imports Prelude "HOL-Library.List_Lexorder"
begin

text \<open>
  Python text. A \<open>str\<close> is the list of its code points (natural numbers), so that \<open>len\<close>,
  slicing, comparison (lexicographic, by the library's order on lists) and the Unicode
  whitespace and digit tables are the language's; \<open>bytes\<close> are lists of 8-bit words and
  \<open>encode\<close>/\<open>decode\<close> are the UTF-8 codec, errors included. The lemmas are the codec's round
  trip, what decoding a truncated encoding yields, and the round trip of \<open>str\<close>/\<open>int\<close> on
  decimals.
\<close>

type_synonym pystr = "nat list"

subsection \<open>Literals\<close>

definition u :: "string \<Rightarrow> pystr" where
  "u s = map of_char s"

lemma u_eq_iff [simp]: "u s = u t \<longleftrightarrow> s = t"
  unfolding u_def by (metis (mono_tags) inj_map_eq_map inj_on_def of_char_eq_iff)

lemma u_Nil [simp]: "u [] = []"
  by (simp add: u_def)

lemma u_eq_Nil [simp]: "u s = [] \<longleftrightarrow> s = []" "[] = u s \<longleftrightarrow> s = []"
  by (auto simp: u_def)

lemma u_append [simp]: "u s @ u t = u (s @ t)"
  by (simp add: u_def)

lemma length_u [simp]: "length (u s) = length s"
  by (simp add: u_def)

lemma u_ascii: "c \<in> set (u s) \<Longrightarrow> c < 256"
  by (auto simp: u_def)

subsection \<open>Whitespace, prefixes, splitting and joining\<close>

text \<open>The code points for which \<open>str.isspace\<close> holds.\<close>

definition py_ws :: "nat \<Rightarrow> bool" where
  "py_ws c \<longleftrightarrow> (9 \<le> c \<and> c \<le> 13) \<or> (28 \<le> c \<and> c \<le> 32) \<or> c = 133 \<or> c = 160 \<or> c = 5760
     \<or> (8192 \<le> c \<and> c \<le> 8202) \<or> c = 8232 \<or> c = 8233 \<or> c = 8239 \<or> c = 8287 \<or> c = 12288"

definition py_lstrip :: "pystr \<Rightarrow> pystr" where
  "py_lstrip s = dropWhile py_ws s"

definition rstrip_while :: "('a \<Rightarrow> bool) \<Rightarrow> 'a list \<Rightarrow> 'a list" where
  "rstrip_while p s = rev (dropWhile p (rev s))"

definition py_rstrip :: "pystr \<Rightarrow> pystr" where
  "py_rstrip s = rstrip_while py_ws s"

definition py_strip :: "pystr \<Rightarrow> pystr" where
  "py_strip s = py_rstrip (py_lstrip s)"

lemma rstrip_while_prefix: "prefix (rstrip_while p s) s"
  unfolding rstrip_while_def prefix_def
  by (metis rev_append rev_rev_ident takeWhile_dropWhile_id)

lemma rstrip_while_decomp: "\<exists>t. s = rstrip_while p s @ t \<and> (\<forall>c \<in> set t. p c)"
proof (intro exI conjI)
  show "s = rstrip_while p s @ rev (takeWhile p (rev s))"
    unfolding rstrip_while_def by (metis rev_append rev_rev_ident takeWhile_dropWhile_id)
  show "\<forall>c \<in> set (rev (takeWhile p (rev s))). p c"
    by (auto dest: set_takeWhileD)
qed

lemma rstrip_while_last: "rstrip_while p s \<noteq> [] \<Longrightarrow> \<not> p (last (rstrip_while p s))"
  unfolding rstrip_while_def by (metis hd_dropWhile last_rev rev_is_Nil_conv)

lemma rstrip_while_id: "s \<noteq> [] \<Longrightarrow> \<not> p (last s) \<Longrightarrow> rstrip_while p s = s"
  unfolding rstrip_while_def by (cases s rule: rev_cases) auto

text \<open>\<open>str.split()\<close> without a separator.\<close>

function py_split :: "pystr \<Rightarrow> pystr list" where
  "py_split s = (let t = dropWhile py_ws s in
     if t = [] then [] else takeWhile (\<lambda>c. \<not> py_ws c) t # py_split (dropWhile (\<lambda>c. \<not> py_ws c) t))"
  by pat_completeness auto
termination
proof (relation "measure length", goal_cases)
  case 1
  show ?case by simp
next
  case (2 s t)
  then have "t \<noteq> []" and "\<not> py_ws (hd t)"
    by (auto simp: hd_dropWhile)
  then have "length (dropWhile (\<lambda>c. \<not> py_ws c) t) < length t"
    by (cases t) (auto simp: le_imp_less_Suc length_dropWhile_le)
  also have "length t \<le> length s" using 2 by (simp add: length_dropWhile_le)
  finally show ?case by simp
qed

declare py_split.simps [simp del]

lemma py_split_words:
  "w \<in> set (py_split s) \<Longrightarrow> w \<noteq> [] \<and> (\<forall>c \<in> set w. c \<in> set s \<and> \<not> py_ws c)"
proof (induction s rule: py_split.induct)
  case (1 s)
  let ?t = "dropWhile py_ws s"
  from 1(2) have ne: "?t \<noteq> []" by (auto simp: py_split.simps [of s] Let_def split: if_splits)
  have hd: "\<not> py_ws (hd ?t)" using ne by (rule hd_dropWhile)
  have "py_split s = takeWhile (\<lambda>c. \<not> py_ws c) ?t # py_split (dropWhile (\<lambda>c. \<not> py_ws c) ?t)"
    using ne by (subst py_split.simps) (simp only: Let_def if_False)
  with 1(2) consider "w = takeWhile (\<lambda>c. \<not> py_ws c) ?t"
    | "w \<in> set (py_split (dropWhile (\<lambda>c. \<not> py_ws c) ?t))"
    by (metis set_ConsD)
  then show ?case
  proof cases
    case 1
    have "set ?t \<subseteq> set s" by (meson set_dropWhileD subsetI)
    then show ?thesis using 1 ne hd by (cases ?t) (auto dest!: set_takeWhileD)
  next
    case 2
    then show ?thesis using "1.IH" [OF refl] ne by (meson set_dropWhileD)
  qed
qed

fun py_join :: "pystr \<Rightarrow> pystr list \<Rightarrow> pystr" where
  "py_join sep [] = []"
| "py_join sep [w] = w"
| "py_join sep (w # ws) = w @ sep @ py_join sep ws"

text \<open>\<open>str.split(c)\<close> for one separator character (always at least one field).\<close>

fun split_on :: "'a \<Rightarrow> 'a list \<Rightarrow> 'a list list" where
  "split_on d [] = [[]]"
| "split_on d (c # cs) =
     (if c = d then [] # split_on d cs
      else (case split_on d cs of [] \<Rightarrow> [[c]] | f # fs \<Rightarrow> (c # f) # fs))"

lemma split_on_ne [simp]: "split_on d s \<noteq> []"
  by (induction s) (auto split: list.splits)

lemma split_on_fields: "f \<in> set (split_on d s) \<Longrightarrow> d \<notin> set f"
  by (induction s arbitrary: f) (auto split: list.splits if_splits)

lemma split_on_noccur: "d \<notin> set s \<Longrightarrow> split_on d s = [s]"
  by (induction s) auto

lemma split_on_append: "d \<notin> set s \<Longrightarrow> split_on d (s @ d # t) = s # split_on d t"
  by (induction s) auto

definition startswith :: "pystr \<Rightarrow> pystr \<Rightarrow> bool" where
  "startswith s p \<longleftrightarrow> prefix p s"

definition endswith :: "pystr \<Rightarrow> pystr \<Rightarrow> bool" where
  "endswith s p \<longleftrightarrow> suffix p s"

lemma startswith_code [code]: "startswith s p \<longleftrightarrow> take (length p) s = p"
  unfolding startswith_def by (metis append_eq_conv_conj prefix_def)

lemma endswith_code [code]: "endswith s p \<longleftrightarrow> drop (length s - length p) s = p \<and> length p \<le> length s"
proof
  assume "endswith s p"
  then show "drop (length s - length p) s = p \<and> length p \<le> length s"
    by (auto simp: endswith_def suffix_def)
next
  assume "drop (length s - length p) s = p \<and> length p \<le> length s"
  then show "endswith s p"
    by (metis endswith_def suffix_drop)
qed

subsection \<open>Lines\<close>

text \<open>Iteration over a binary file: lines end with the newline byte, which they keep.\<close>

function lines_keep :: "'a \<Rightarrow> 'a list \<Rightarrow> 'a list list" where
  "lines_keep nl s = (if s = [] then [] else
     (takeWhile (\<lambda>c. c \<noteq> nl) s @ take 1 (dropWhile (\<lambda>c. c \<noteq> nl) s))
       # lines_keep nl (drop 1 (dropWhile (\<lambda>c. c \<noteq> nl) s)))"
  by pat_completeness auto
termination
proof (relation "measure (\<lambda>(nl, s). length s)", goal_cases)
  case (2 nl s)
  have "length (dropWhile (\<lambda>c. c \<noteq> nl) s) \<le> length s" by (rule length_dropWhile_le)
  moreover have "0 < length s" using 2 by simp
  ultimately have "length (drop 1 (dropWhile (\<lambda>c. c \<noteq> nl) s)) < length s"
    unfolding length_drop by linarith
  then show ?case by (simp only: in_measure case_prod_conv)
qed simp

declare lines_keep.simps [simp del]

lemma lines_keep_Nil [simp]: "lines_keep nl [] = []"
  by (simp add: lines_keep.simps)

lemma lines_keep_cons:
  "nl \<notin> set l \<Longrightarrow> lines_keep nl (l @ nl # rest) = (l @ [nl]) # lines_keep nl rest"
proof -
  assume "nl \<notin> set l"
  then have "takeWhile (\<lambda>c. c \<noteq> nl) (l @ nl # rest) = l"
    and "dropWhile (\<lambda>c. c \<noteq> nl) (l @ nl # rest) = nl # rest"
    by (induction l) auto
  then show ?thesis by (subst lines_keep.simps) simp
qed

lemma concat_lines_keep: "concat (lines_keep nl s) = s"
proof (induction nl s rule: lines_keep.induct)
  case (1 nl s)
  show ?case
  proof (cases "s = []")
    case False
    then have "concat (lines_keep nl s) = takeWhile (\<lambda>c. c \<noteq> nl) s
        @ take 1 (dropWhile (\<lambda>c. c \<noteq> nl) s) @ drop 1 (dropWhile (\<lambda>c. c \<noteq> nl) s)"
      using 1 by (subst lines_keep.simps) simp
    then show ?thesis by (simp only: append_take_drop_id takeWhile_dropWhile_id)
  qed simp
qed

lemma lines_keep_unlines:
  "\<forall>l \<in> set ls. nl \<notin> set l \<Longrightarrow>
     lines_keep nl (concat (map (\<lambda>l. l @ [nl]) ls)) = map (\<lambda>l. l @ [nl]) ls"
  by (induction ls) (auto simp: lines_keep_cons)

text \<open>
  Text-mode iteration with \<open>newline=''\<close>: a line ends after LF, after CR LF, or after a CR that
  no LF follows, and keeps its terminator.
\<close>

fun lines_universal :: "pystr \<Rightarrow> pystr \<Rightarrow> pystr list" where
  "lines_universal acc [] = (if acc = [] then [] else [acc])"
| "lines_universal acc (c # cs) =
     (if c = 10 then (acc @ [c]) # lines_universal [] cs
      else if c = 13 then
        (case cs of
           d # ds \<Rightarrow> if d = 10 then (acc @ [c, d]) # lines_universal [] ds
                     else (acc @ [c]) # lines_universal [] cs
         | [] \<Rightarrow> [acc @ [c]])
      else lines_universal (acc @ [c]) cs)"

lemma lines_universal_scan:
  "10 \<notin> set l \<Longrightarrow> 13 \<notin> set l \<Longrightarrow> lines_universal acc (l @ rest) = lines_universal (acc @ l) rest"
  by (induction l arbitrary: acc) auto

lemma lines_universal_unlines:
  assumes "\<forall>l \<in> set ls. 10 \<notin> set l \<and> 13 \<notin> set l"
  shows "lines_universal [] (concat (map (\<lambda>l. l @ [10]) ls)) = map (\<lambda>l. l @ [10]) ls"
  using assms by (induction ls) (auto simp: lines_universal_scan)

text \<open>\<open>s.splitlines()\<close>: the line boundaries of \<open>str\<close> are more than LF and CR.\<close>

definition line_boundary :: "nat \<Rightarrow> bool" where
  "line_boundary c \<longleftrightarrow> (10 \<le> c \<and> c \<le> 13) \<or> (28 \<le> c \<and> c \<le> 30) \<or> c = 133 \<or> c = 8232 \<or> c = 8233"

fun py_splitlines :: "pystr \<Rightarrow> pystr \<Rightarrow> pystr list" where
  "py_splitlines acc [] = (if acc = [] then [] else [acc])"
| "py_splitlines acc (c # cs) =
     (if c = 13 then
        acc # (case cs of d # ds \<Rightarrow> if d = 10 then py_splitlines [] ds else py_splitlines [] cs | [] \<Rightarrow> [])
      else if line_boundary c then acc # py_splitlines [] cs
      else py_splitlines (acc @ [c]) cs)"

text \<open>Universal newlines: text mode reads CR LF and a lone CR as LF.\<close>

fun universal_newlines :: "pystr \<Rightarrow> pystr" where
  "universal_newlines [] = []"
| "universal_newlines (c # cs) =
     (if c = 13 then 10 # (case cs of d # ds \<Rightarrow> if d = 10 then universal_newlines ds else universal_newlines cs | [] \<Rightarrow> [])
      else c # universal_newlines cs)"

text \<open>\<open>sub in s\<close>.\<close>

fun has_sub :: "pystr \<Rightarrow> pystr \<Rightarrow> bool" where
  "has_sub sub [] \<longleftrightarrow> sub = []"
| "has_sub sub (c # cs) \<longleftrightarrow> startswith (c # cs) sub \<or> has_sub sub cs"

text \<open>\<open>s.split(d, 1)\<close> for a separator that occurs.\<close>

definition split_once :: "'a \<Rightarrow> 'a list \<Rightarrow> 'a list \<times> 'a list" where
  "split_once d s = (takeWhile (\<lambda>c. c \<noteq> d) s, tl (dropWhile (\<lambda>c. c \<noteq> d) s))"

lemma has_sub_iff: "has_sub sub s \<longleftrightarrow> sublist sub s"
  by (induction s) (auto simp: startswith_def sublist_Cons_right)

end
