(* ===== verification/PyCodec.thy ===== *)
theory PyCodec
  imports PyText
begin

text \<open>
  The UTF-8 codec and decimal integers of Python. \<open>utf8_encode\<close> raises on surrogates as
  \<open>str.encode\<close> does, \<open>utf8_decode\<close> is the strict decoder and \<open>utf8_decode_ignore\<close> the one with
  \<open>errors="ignore"\<close>; \<open>py_int\<close> is \<open>int(str)\<close> and \<open>dec_nat\<close> is \<open>str(int)\<close> on naturals.
\<close>

subsection \<open>UTF-8\<close>

definition is_scalar :: "nat \<Rightarrow> bool" where
  "is_scalar c \<longleftrightarrow> c < 55296 \<or> (57344 \<le> c \<and> c < 1114112)"

definition utf8_char :: "nat \<Rightarrow> bytes" where
  "utf8_char c =
     (if c < 128 then [byte_of c]
      else if c < 2048 then [byte_of (192 + c div 64), byte_of (128 + c mod 64)]
      else if c < 65536 then
        [byte_of (224 + c div 4096), byte_of (128 + c div 64 mod 64), byte_of (128 + c mod 64)]
      else [byte_of (240 + c div 262144), byte_of (128 + c div 4096 mod 64),
            byte_of (128 + c div 64 mod 64), byte_of (128 + c mod 64)])"

definition utf8_bytes :: "pystr \<Rightarrow> bytes" where
  "utf8_bytes s = concat (map utf8_char s)"

definition utf8_encode :: "pystr \<Rightarrow> bytes res" where
  "utf8_encode s =
     (if list_all is_scalar s then Inr (utf8_bytes s) else Inl (UnicodeError ''surrogates not allowed''))"

definition cont_byte :: "byte \<Rightarrow> bool" where
  "cont_byte b \<longleftrightarrow> 128 \<le> unat b \<and> unat b < 192"

fun utf8_next :: "bytes \<Rightarrow> (nat \<times> bytes) option" where
  "utf8_next [] = None"
| "utf8_next (b # bs) =
     (let x = unat b in
      if x < 128 then Some (x, bs)
      else if 194 \<le> x \<and> x < 224 then
        (case bs of
           b1 # r \<Rightarrow>
             if cont_byte b1 then Some ((x - 192) * 64 + (unat b1 - 128), r) else None
         | _ \<Rightarrow> None)
      else if 224 \<le> x \<and> x < 240 then
        (case bs of
           b1 # b2 # r \<Rightarrow>
             (let c = (x - 224) * 4096 + (unat b1 - 128) * 64 + (unat b2 - 128) in
              if cont_byte b1 \<and> cont_byte b2 \<and> 2048 \<le> c \<and> is_scalar c then Some (c, r) else None)
         | _ \<Rightarrow> None)
      else if 240 \<le> x \<and> x < 245 then
        (case bs of
           b1 # b2 # b3 # r \<Rightarrow>
             (let c = (x - 240) * 262144 + (unat b1 - 128) * 4096 + (unat b2 - 128) * 64
                        + (unat b3 - 128) in
              if cont_byte b1 \<and> cont_byte b2 \<and> cont_byte b3 \<and> 65536 \<le> c \<and> is_scalar c
              then Some (c, r) else None)
         | _ \<Rightarrow> None)
      else None)"

lemma utf8_next_shorter: "utf8_next bs = Some (c, r) \<Longrightarrow> length r < length bs"
  by (cases bs) (auto simp: Let_def split: if_splits list.splits)

declare utf8_next.simps(2) [simp del]

function utf8_decode :: "bytes \<Rightarrow> pystr res" where
  "utf8_decode bs =
     (if bs = [] then Inr [] else
      case utf8_next bs of
        None \<Rightarrow> Inl (UnicodeError ''invalid utf-8'')
      | Some (c, r) \<Rightarrow>
          (case utf8_decode r of Inl e \<Rightarrow> Inl e | Inr cs \<Rightarrow> Inr (c # cs)))"
  by pat_completeness auto
termination by (relation "measure length") (auto dest: utf8_next_shorter)

function utf8_decode_ignore :: "bytes \<Rightarrow> pystr" where
  "utf8_decode_ignore bs =
     (case bs of
        [] \<Rightarrow> []
      | b # bs' \<Rightarrow>
          (case utf8_next bs of
             None \<Rightarrow> utf8_decode_ignore bs'
           | Some (c, r) \<Rightarrow> c # utf8_decode_ignore r))"
  by pat_completeness auto
termination by (relation "measure length") (auto dest: utf8_next_shorter)

text \<open>
  \<open>errors="replace"\<close>: one U+FFFD for the longest prefix of an ill-formed sequence that a valid one
  could begin with.
\<close>

definition second_byte :: "byte \<Rightarrow> byte \<Rightarrow> bool" where
  "second_byte b b1 \<longleftrightarrow> cont_byte b1
     \<and> (unat b = 224 \<longrightarrow> 160 \<le> unat b1) \<and> (unat b = 237 \<longrightarrow> unat b1 < 160)
     \<and> (unat b = 240 \<longrightarrow> 144 \<le> unat b1) \<and> (unat b = 244 \<longrightarrow> unat b1 < 144)"

fun ill_formed :: "byte \<Rightarrow> bytes \<Rightarrow> nat" where
  "ill_formed b (b1 # b2 # bs) =
     (if unat b < 224 \<or> 245 \<le> unat b \<or> \<not> second_byte b b1 then 0
      else if unat b < 240 \<or> \<not> cont_byte b2 then 1 else 2)"
| "ill_formed b [b1] = (if unat b < 224 \<or> 245 \<le> unat b \<or> \<not> second_byte b b1 then 0 else 1)"
| "ill_formed b [] = 0"

function utf8_decode_replace :: "bytes \<Rightarrow> pystr" where
  "utf8_decode_replace bs =
     (case bs of
        [] \<Rightarrow> []
      | b # bs' \<Rightarrow>
          (case utf8_next bs of
             None \<Rightarrow> 65533 # utf8_decode_replace (drop (ill_formed b bs') bs')
           | Some (c, r) \<Rightarrow> c # utf8_decode_replace r))"
  by pat_completeness auto
termination by (relation "measure length") (auto dest: utf8_next_shorter)

declare utf8_decode_replace.simps [simp del]
declare utf8_decode.simps [simp del] utf8_decode_ignore.simps [simp del]

lemma utf8_decode_Nil [simp]: "utf8_decode [] = Inr []"
  by (simp add: utf8_decode.simps)

lemma utf8_decode_ignore_Nil [simp]: "utf8_decode_ignore [] = []"
  by (simp add: utf8_decode_ignore.simps)

lemma utf8_bytes_simps [simp]:
  "utf8_bytes [] = []"
  "utf8_bytes (c # s) = utf8_char c @ utf8_bytes s"
  "utf8_bytes (s @ t) = utf8_bytes s @ utf8_bytes t"
  by (simp_all add: utf8_bytes_def)

lemma utf8_char_length: "1 \<le> length (utf8_char c) \<and> length (utf8_char c) \<le> 4"
  by (simp add: utf8_char_def)

lemma utf8_char_ne [simp]: "utf8_char c \<noteq> []"
  by (simp add: utf8_char_def)

lemma sextets:
  fixes c :: nat
  shows "c div 4096 * 4096 + c div 64 mod 64 * 64 + c mod 64 = c"
    and "c div 262144 * 262144 + c div 4096 mod 64 * 4096 + c div 64 mod 64 * 64 + c mod 64 = c"
proof -
  have d: "c div 4096 = c div 64 div 64" "c div 262144 = c div 64 div 64 div 64"
    by (simp_all add: div_mult2_eq [symmetric])
  note e = div_mult_mod_eq [of c 64] div_mult_mod_eq [of "c div 64" 64]
    div_mult_mod_eq [of "c div 64 div 64" 64]
  show "c div 4096 * 4096 + c div 64 mod 64 * 64 + c mod 64 = c"
    unfolding d using e by linarith
  show "c div 262144 * 262144 + c div 4096 mod 64 * 4096 + c div 64 mod 64 * 64 + c mod 64 = c"
    unfolding d using e by linarith
qed

lemma utf8_next_char:
  assumes "is_scalar c"
  shows "utf8_next (utf8_char c @ r) = Some (c, r)"
proof -
  have c: "c < 1114112" using assms by (auto simp: is_scalar_def)
  consider "c < 128" | "128 \<le> c" "c < 2048" | "2048 \<le> c" "c < 65536" | "65536 \<le> c" by linarith
  then show ?thesis
  proof cases
    case 1
    then show ?thesis by (simp add: utf8_char_def utf8_next.simps(2))
  next
    case 2
    then have "2 \<le> c div 64" "c div 64 < 32" by auto
    with 2 show ?thesis by (simp add: utf8_char_def Let_def cont_byte_def utf8_next.simps(2))
  next
    case 3
    then have "c div 4096 < 16" by auto
    moreover note sextets(1) [of c]
    ultimately show ?thesis using 3 assms by (simp add: utf8_char_def Let_def cont_byte_def utf8_next.simps(2))
  next
    case 4
    then have "c div 262144 < 5" using c by auto
    moreover note sextets(2) [of c]
    ultimately show ?thesis using 4 assms by (simp add: utf8_char_def Let_def cont_byte_def utf8_next.simps(2))
  qed
qed

lemma divmod64: "l < 64 \<Longrightarrow> (a * 64 + l) div 64 = a \<and> (a * 64 + l) mod 64 = (l :: nat)"
  by simp

lemma sextets_bound: "h < 16 \<Longrightarrow> m < 64 \<Longrightarrow> l < 64 \<Longrightarrow> (h * 64 + m) * 64 + l < (65536 :: nat)"
  by simp

lemma utf8_next_sound:
  assumes "utf8_next bs = Some (c, r)"
  shows "is_scalar c \<and> bs = utf8_char c @ r"
proof (cases bs)
  case Nil
  with assms show ?thesis by simp
next
  case (Cons b bs')
  let ?x = "unat b"
  have step: "\<And>b1. cont_byte b1 \<Longrightarrow> byte_of (128 + (unat b1 - 128)) = b1"
    by (simp add: cont_byte_def)
  note nx = assms [unfolded Cons utf8_next.simps Let_def]
  consider "?x < 128" | "194 \<le> ?x" "?x < 224" | "224 \<le> ?x" "?x < 240" | "240 \<le> ?x" "?x < 245"
    using nx by (auto split: if_splits)
  then show ?thesis
  proof cases
    case 1
    with nx show ?thesis by (auto simp: Cons utf8_char_def is_scalar_def)
  next
    case 2
    with nx obtain b1 where b1: "bs' = b1 # r" "cont_byte b1" "c = (?x - 192) * 64 + (unat b1 - 128)"
      by (auto split: list.splits if_splits)
    let ?h = "?x - 192" and ?l = "unat b1 - 128"
    have l: "?l < 64" "2 \<le> ?h" "?h < 32" using b1(2) 2 by (auto simp: cont_byte_def)
    then have "c div 64 = ?h" "c mod 64 = ?l" by (auto simp: b1(3))
    moreover have "192 + ?h = ?x" using 2 by simp
    moreover have "128 \<le> c" "c < 2048" using l by (auto simp: b1(3))
    ultimately show ?thesis
      using step [OF b1(2)] by (auto simp: Cons b1(1) utf8_char_def is_scalar_def)
  next
    case 3
    with nx obtain b1 b2 where b: "bs' = b1 # b2 # r" "cont_byte b1" "cont_byte b2" "2048 \<le> c"
        "is_scalar c" "c = (?x - 224) * 4096 + (unat b1 - 128) * 64 + (unat b2 - 128)"
      by (auto split: list.splits if_splits)
    let ?h = "?x - 224" and ?m = "unat b1 - 128" and ?l = "unat b2 - 128"
    have l: "?l < 64" "?m < 64" "?h < 16" using b(2,3) 3 by (auto simp: cont_byte_def)
    have c: "c = (?h * 64 + ?m) * 64 + ?l" using b(6) by simp
    have "c div 64 = ?h * 64 + ?m" "c mod 64 = ?l"
      unfolding c using divmod64 [OF l(1), of "?h * 64 + ?m"] by blast+
    moreover from this have "c div 4096 = ?h" "c div 64 mod 64 = ?m"
      using divmod64 [OF l(2), of ?h] by (auto simp: div_mult2_eq [of c 64 64, simplified])
    moreover have "224 + ?h = ?x" using 3 by simp
    moreover have "c < 65536" unfolding c by (rule sextets_bound [OF l(3,2,1)])
    ultimately show ?thesis
      using step [OF b(2)] step [OF b(3)] b(4,5) l by (auto simp: Cons b(1) utf8_char_def)
  next
    case 4
    with nx obtain b1 b2 b3 where b: "bs' = b1 # b2 # b3 # r" "cont_byte b1" "cont_byte b2"
        "cont_byte b3" "65536 \<le> c" "is_scalar c"
        "c = (?x - 240) * 262144 + (unat b1 - 128) * 4096 + (unat b2 - 128) * 64 + (unat b3 - 128)"
      by (auto split: list.splits if_splits)
    let ?h = "?x - 240" and ?m = "unat b1 - 128" and ?n = "unat b2 - 128" and ?l = "unat b3 - 128"
    have l: "?l < 64" "?m < 64" "?n < 64" using b(2,3,4) by (auto simp: cont_byte_def)
    have c: "c = ((?h * 64 + ?m) * 64 + ?n) * 64 + ?l" using b(7) by simp
    have d1: "c div 64 = (?h * 64 + ?m) * 64 + ?n" and m1: "c mod 64 = ?l"
      unfolding c using divmod64 [OF l(1), of "(?h * 64 + ?m) * 64 + ?n"] by blast+
    have d2: "c div 64 div 64 = ?h * 64 + ?m" and m2: "c div 64 mod 64 = ?n"
      unfolding d1 using divmod64 [OF l(3), of "?h * 64 + ?m"] by blast+
    have d3: "c div 64 div 64 div 64 = ?h" and m3: "c div 64 div 64 mod 64 = ?m"
      unfolding d2 using divmod64 [OF l(2), of ?h] by blast+
    have "c div 4096 = c div 64 div 64" "c div 262144 = c div 64 div 64 div 64"
      by (simp_all add: div_mult2_eq [symmetric])
    moreover have "240 + ?h = ?x" using 4 by simp
    ultimately show ?thesis
      using step [OF b(2)] step [OF b(3)] step [OF b(4)] b(5,6) m1 m2 m3 d3
      by (auto simp: Cons b(1) utf8_char_def)
  qed
qed

lemma utf8_decode_bytes: "\<forall>c \<in> set s. is_scalar c \<Longrightarrow> utf8_decode (utf8_bytes s) = Inr s"
  by (induction s) (auto simp: utf8_decode.simps utf8_next_char)

lemma utf8_decode_encode: "utf8_encode s = Inr bs \<Longrightarrow> utf8_decode bs = Inr s"
  by (auto simp: utf8_encode_def utf8_decode_bytes list_all_iff split: if_splits)

lemma utf8_encode_decode: "utf8_decode bs = Inr s \<Longrightarrow> utf8_encode s = Inr bs"
proof (induction bs arbitrary: s rule: utf8_decode.induct)
  case (1 bs)
  show ?case
  proof (cases "bs = []")
    case True
    with 1(2) show ?thesis by (simp add: utf8_encode_def)
  next
    case False
    then obtain c r cs where nx: "utf8_next bs = Some (c, r)" and "utf8_decode r = Inr cs"
      and s: "s = c # cs"
      using 1(2) by (subst (asm) utf8_decode.simps) (auto simp: ok_simps)
    then have "utf8_encode cs = Inr r" using 1(1) False by blast
    with utf8_next_sound [OF nx] show ?thesis
      by (auto simp: utf8_encode_def s split: if_splits)
  qed
qed

subsection \<open>Decoding a truncated encoding\<close>

text \<open>The longest prefix of a text whose encoding fits in \<open>n\<close> bytes.\<close>

fun utf8_fit :: "nat \<Rightarrow> pystr \<Rightarrow> pystr" where
  "utf8_fit n [] = []"
| "utf8_fit n (c # s) =
     (if length (utf8_char c) \<le> n then c # utf8_fit (n - length (utf8_char c)) s else [])"

lemma utf8_decode_ignore_char:
  "is_scalar c \<Longrightarrow> utf8_decode_ignore (utf8_char c @ r) = c # utf8_decode_ignore r"
  using utf8_next_char [of c r]
  by (cases "utf8_char c @ r") (simp_all add: utf8_decode_ignore.simps [of "_ # _"])

lemma utf8_next_cut:
  assumes "is_scalar c" and "k < length (utf8_char c)"
  shows "utf8_next (take k (utf8_char c)) = None"
proof (rule ccontr)
  assume "utf8_next (take k (utf8_char c)) \<noteq> None"
  then obtain d r where "utf8_next (take k (utf8_char c)) = Some (d, r)" by fastforce
  from utf8_next_sound [OF this] have d: "is_scalar d" and t: "take k (utf8_char c) = utf8_char d @ r"
    by auto
  then have "utf8_char c = utf8_char d @ r @ drop k (utf8_char c)"
    by (metis append.assoc append_take_drop_id)
  then have "utf8_next (utf8_char c @ []) = Some (d, r @ drop k (utf8_char c))"
    using utf8_next_char [OF d] by (metis append_Nil2)
  with utf8_next_char [OF assms(1), of "[]"] assms(2) show False by simp
qed

lemma utf8_cut_tail:
  assumes "is_scalar c" and "0 < j"
  shows "utf8_next (drop j (take k (utf8_char c))) = None"
proof (cases "drop j (take k (utf8_char c))")
  case (Cons b bs)
  then have "b \<in> set (drop 1 (utf8_char c))"
    using assms(2) by (metis One_nat_def Suc_leI drop_take in_set_takeD list.set_intros(1) set_drop_subset_set_drop subsetD)
  then have "128 \<le> unat b \<and> unat b < 192" by (auto simp: utf8_char_def split: if_splits)
  with Cons show ?thesis by (auto simp: utf8_next.simps Let_def)
qed simp

lemma utf8_decode_ignore_cut_drop:
  assumes "is_scalar c" and "k < length (utf8_char c)"
  shows "utf8_decode_ignore (drop j (take k (utf8_char c))) = []"
proof (induction "k - j" arbitrary: j)
  case 0
  then show ?case by simp
next
  case (Suc n)
  have "utf8_next (drop j (take k (utf8_char c))) = None"
    using utf8_next_cut [OF assms] utf8_cut_tail [OF assms(1)] by (cases "j = 0") auto
  moreover have r: "utf8_decode_ignore (drop (Suc j) (take k (utf8_char c))) = []"
    using Suc(2) by (intro Suc(1)) linarith
  moreover have "tl (drop j (take k (utf8_char c))) = drop (Suc j) (take k (utf8_char c))"
    by (simp add: drop_Suc tl_drop)
  ultimately show ?case
    by (cases "drop j (take k (utf8_char c))") (simp_all add: utf8_decode_ignore.simps [of "_ # _"])
qed

lemma utf8_decode_ignore_take:
  "\<forall>c \<in> set s. is_scalar c \<Longrightarrow> utf8_decode_ignore (take n (utf8_bytes s)) = utf8_fit n s"
proof (induction s arbitrary: n)
  case Nil
  then show ?case by simp
next
  case (Cons c s)
  then show ?case
    using utf8_decode_ignore_cut_drop [of c n 0]
    by (auto simp: utf8_decode_ignore_char)
qed

lemma utf8_fit_prefix: "prefix (utf8_fit n s) s"
  by (induction n s rule: utf8_fit.induct) auto

lemma utf8_fit_size: "length (utf8_bytes (utf8_fit n s)) \<le> n"
  by (induction n s rule: utf8_fit.induct) auto

lemma utf8_fit_longest:
  "prefix p s \<Longrightarrow> length (utf8_bytes p) \<le> n \<Longrightarrow> prefix p (utf8_fit n s)"
proof (induction n s arbitrary: p rule: utf8_fit.induct)
  case (1 n)
  then show ?case by simp
next
  case (2 n c s)
  then show ?case by (cases p) auto
qed

lemma utf8_fit_all: "length (utf8_bytes s) \<le> n \<Longrightarrow> utf8_fit n s = s"
  by (induction n s rule: utf8_fit.induct) auto

subsection \<open>Decimal integers\<close>

text \<open>The code points of the digit zero of each Unicode decimal digit system.\<close>

definition digit_zeros :: "nat list" where
  "digit_zeros =
     [48, 1632, 1776, 1984, 2406, 2534, 2662, 2790, 2918, 3046, 3174, 3302, 3430, 3558, 3664, 3792,
      3872, 4160, 4240, 6112, 6160, 6470, 6608, 6784, 6800, 6992, 7088, 7232, 7248, 42528, 43216,
      43264, 43472, 43504, 43600, 44016, 65296, 66720, 68912, 69734, 69872, 69942, 70096, 70384,
      70736, 70864, 71248, 71360, 71472, 71904, 72016, 72784, 73040, 73120, 92768, 92864, 93008,
      120782, 120792, 120802, 120812, 120822, 123200, 123632, 125264, 130032]"

definition digit_val :: "nat \<Rightarrow> nat option" where
  "digit_val c =
     (if 48 \<le> c \<and> c < 58 then Some (c - 48)
      else map_option (\<lambda>z. c - z) (find (\<lambda>z. z \<le> c \<and> c < z + 10) digit_zeros))"

text \<open>Digits with single underscores between them, as \<open>int\<close> accepts.\<close>

fun scan_digits :: "pystr \<Rightarrow> nat list option" where
  "scan_digits [] = None"
| "scan_digits (c # cs) =
     (case digit_val c of
        None \<Rightarrow> None
      | Some d \<Rightarrow>
          (case cs of
             [] \<Rightarrow> Some [d]
           | e # es \<Rightarrow> map_option (Cons d) (scan_digits (if e = 95 then es else cs))))"

definition of_digits :: "nat list \<Rightarrow> nat" where
  "of_digits ds = foldl (\<lambda>a d. 10 * a + d) 0 ds"

text \<open>\<open>int(s)\<close>, with the interpreter's limit on the number of digits.\<close>

definition py_int :: "pystr \<Rightarrow> int option" where
  "py_int s =
     (let t = py_strip s;
          neg = (t \<noteq> [] \<and> hd t = 45);
          b = (if t \<noteq> [] \<and> (hd t = 43 \<or> hd t = 45) then tl t else t)
      in case scan_digits b of
           None \<Rightarrow> None
         | Some ds \<Rightarrow>
             if 4300 < length ds then None
             else Some (if neg then - int (of_digits ds) else int (of_digits ds)))"

text \<open>\<open>str(n)\<close> of a natural number.\<close>

fun dec_nat :: "nat \<Rightarrow> pystr" where
  "dec_nat n = (if n < 10 then [48 + n] else dec_nat (n div 10) @ [48 + n mod 10])"

declare dec_nat.simps [simp del]

lemma digit_val_dec [simp]: "d < 10 \<Longrightarrow> digit_val (48 + d) = Some d"
  by (simp add: digit_val_def)

text \<open>\<open>str\<close> of an int.\<close>

definition dec_int :: "int \<Rightarrow> pystr" where
  "dec_int i = (if i < 0 then 45 # dec_nat (nat (- i)) else dec_nat (nat i))"

lemma dec_nat_ne [simp]: "dec_nat n \<noteq> []"
  by (subst dec_nat.simps) simp

lemma dec_nat_digits: "c \<in> set (dec_nat n) \<Longrightarrow> 48 \<le> c \<and> c < 58"
proof (induction n rule: dec_nat.induct)
  case (1 n)
  then show ?case by (cases "n < 10") (auto simp: dec_nat.simps [of n])
qed

lemma length_dec_nat: "n < 10 ^ Suc k \<Longrightarrow> length (dec_nat n) \<le> Suc k"
proof (induction k arbitrary: n)
  case 0
  then show ?case by (subst dec_nat.simps) simp
next
  case (Suc k)
  then have "n div 10 < 10 ^ Suc k" by (simp add: less_mult_imp_div_less)
  then have "length (dec_nat (n div 10)) \<le> Suc k" by (rule Suc.IH)
  then show ?case by (subst dec_nat.simps) simp
qed

lemma scan_digits_snoc:
  assumes "\<forall>c \<in> set s. 48 \<le> c \<and> c < 58" and "d < 10" and "scan_digits s = Some ds"
  shows "scan_digits (s @ [48 + d]) = Some (ds @ [d])"
  using assms(1,3)
proof (induction s arbitrary: ds)
  case (Cons c cs)
  show ?case
  proof (cases cs)
    case Nil
    with Cons.prems assms(2) show ?thesis by (auto split: option.splits)
  next
    case (Cons e es)
    with Cons.prems Cons.IH show ?thesis by (auto split: option.splits)
  qed
qed simp

lemma scan_digits_dec: "\<exists>ds. scan_digits (dec_nat n) = Some ds \<and> of_digits ds = n
     \<and> length ds = length (dec_nat n)"
proof (induction n rule: dec_nat.induct)
  case (1 n)
  show ?case
  proof (cases "n < 10")
    case True
    then show ?thesis by (subst (1 2) dec_nat.simps) (simp add: of_digits_def)
  next
    case False
    then obtain ds where ds: "scan_digits (dec_nat (n div 10)) = Some ds" "of_digits ds = n div 10"
        "length ds = length (dec_nat (n div 10))"
      using 1 by blast
    have "\<forall>c \<in> set (dec_nat (n div 10)). 48 \<le> c \<and> c < 58" using dec_nat_digits by blast
    from scan_digits_snoc [OF this _ ds(1), of "n mod 10"] ds(2,3) False show ?thesis
      by (subst (1 2) dec_nat.simps) (simp add: of_digits_def)
  qed
qed

lemma dec_nat_no_ws: "c \<in> set (dec_nat n) \<Longrightarrow> \<not> py_ws c"
  using dec_nat_digits [of c n] by (auto simp: py_ws_def)

lemma py_strip_no_ws: "\<forall>c \<in> set s. \<not> py_ws c \<Longrightarrow> py_strip s = s"
proof -
  assume a: "\<forall>c \<in> set s. \<not> py_ws c"
  then have "dropWhile py_ws s = s" by (cases s) auto
  moreover have "rstrip_while py_ws s = s"
  proof (cases "s = []")
    case True
    then show ?thesis by (simp add: rstrip_while_def)
  next
    case False
    with a show ?thesis by (intro rstrip_while_id) auto
  qed
  ultimately show ?thesis by (simp add: py_strip_def py_lstrip_def py_rstrip_def)
qed

lemma py_int_dec:
  assumes "length (dec_nat n) \<le> 4300"
  shows "py_int (dec_nat n) = Some (int n)"
proof -
  from scan_digits_dec obtain ds where ds: "scan_digits (dec_nat n) = Some ds" "of_digits ds = n"
      "length ds = length (dec_nat n)" by blast
  have "hd (dec_nat n) \<noteq> 43" "hd (dec_nat n) \<noteq> 45"
    using dec_nat_digits [of "hd (dec_nat n)" n] by auto
  moreover have "py_strip (dec_nat n) = dec_nat n" by (rule py_strip_no_ws) (use dec_nat_no_ws in blast)
  ultimately show ?thesis using assms by (simp add: py_int_def Let_def ds)
qed

end
