(* ===== verification/PyFloat.thy ===== *)
theory PyFloat
  imports Prelude
begin

text \<open>
  Python's \<open>float\<close> (IEEE binary64) on exact values: a finite float is the rational it denotes
  (both zeros are \<open>Fin 0\<close>), arithmetic computes the exact result and rounds it once with
  \<open>rnd64\<close> (to nearest, ties to even, gradual underflow, overflow to infinity). The lemmas bound
  the rounding: it is exact on the integers below \<open>2 ^ 53\<close> and never turns a normal number into
  zero.
\<close>

datatype pyfloat = Fin rat | PInf | NInf | NaN

fun fl_eq :: "pyfloat \<Rightarrow> pyfloat \<Rightarrow> bool" where
  "fl_eq (Fin a) (Fin b) = (a = b)"
| "fl_eq PInf PInf = True"
| "fl_eq NInf NInf = True"
| "fl_eq _ _ = False"

fun fl_lt :: "pyfloat \<Rightarrow> pyfloat \<Rightarrow> bool" where
  "fl_lt (Fin a) (Fin b) = (a < b)"
| "fl_lt NInf (Fin b) = True"
| "fl_lt NInf PInf = True"
| "fl_lt (Fin a) PInf = True"
| "fl_lt _ _ = False"

definition fl_le :: "pyfloat \<Rightarrow> pyfloat \<Rightarrow> bool" where
  "fl_le a b \<longleftrightarrow> fl_lt a b \<or> fl_eq a b"

definition fl_isfinite :: "pyfloat \<Rightarrow> bool" where
  "fl_isfinite a = (case a of Fin _ \<Rightarrow> True | _ \<Rightarrow> False)"

subsection \<open>Rounding\<close>

function ilog2 :: "int \<Rightarrow> nat" where
  "ilog2 n = (if n < 2 then 0 else Suc (ilog2 (n div 2)))"
  by pat_completeness auto
termination by (relation "measure nat") auto

declare ilog2.simps [simp del]

definition pow2 :: "int \<Rightarrow> rat" where
  "pow2 k = (if 0 \<le> k then 2 ^ nat k else 1 / 2 ^ nat (- k))"

text \<open>The exponent \<open>e\<close> with \<open>2 ^ e \<le> x < 2 ^ (e + 1)\<close> of a positive rational.\<close>

definition exponent2 :: "rat \<Rightarrow> int" where
  "exponent2 x = (let (p, q) = quotient_of x; k = int (ilog2 p) - int (ilog2 q)
     in if x < pow2 k then k - 1 else k)"

definition round_half_even :: "rat \<Rightarrow> int" where
  "round_half_even x = (let f = \<lfloor>x\<rfloor>; d = x - of_int f in
     if d < 1 / 2 then f else if 1 / 2 < d then f + 1 else if even f then f else f + 1)"

definition rnd64 :: "rat \<Rightarrow> pyfloat" where
  "rnd64 x =
     (if x = 0 then Fin 0 else
      let q = max (exponent2 \<bar>x\<bar> - 52) (- 1074);
          m = round_half_even (\<bar>x\<bar> / pow2 q);
          y = of_int m * pow2 q
      in if 2 ^ 1024 \<le> y then (if 0 < x then PInf else NInf)
         else Fin (if 0 < x then y else - y))"

lemma pow2_pos [simp]: "0 < pow2 k"
  by (simp add: pow2_def)

lemma pow2_add: "pow2 (a + b) = pow2 a * pow2 b"
proof -
  have eq: "pow2 k = 2 powi k" for k
    by (auto simp: pow2_def power_int_def field_simps)
  show ?thesis by (simp add: eq power_int_add)
qed

lemma pow2_mono: "a \<le> b \<Longrightarrow> pow2 a \<le> pow2 b"
proof -
  assume "a \<le> b"
  then have "1 \<le> pow2 (b - a)" by (simp add: pow2_def)
  then have "pow2 a * 1 \<le> pow2 a * pow2 (b - a)" by (intro mult_left_mono) (auto simp: less_imp_le)
  then show ?thesis by (simp add: pow2_add [symmetric])
qed

lemma ilog2_bounds: "0 < n \<Longrightarrow> 2 ^ ilog2 n \<le> n \<and> n < 2 ^ Suc (ilog2 n)"
proof (induction n rule: ilog2.induct)
  case (1 n)
  show ?case
  proof (cases "n < 2")
    case True
    with 1(2) have "n = 1" by simp
    then show ?thesis by (simp add: ilog2.simps)
  next
    case False
    then have "2 ^ ilog2 (n div 2) \<le> n div 2 \<and> n div 2 < 2 ^ Suc (ilog2 (n div 2))"
      using 1 by auto
    moreover have "ilog2 n = Suc (ilog2 (n div 2))" using False by (subst ilog2.simps) simp
    ultimately show ?thesis by auto
  qed
qed

lemma exponent2_le:
  assumes "0 < x"
  shows "pow2 (exponent2 x) \<le> x"
proof -
  obtain p q where pq: "quotient_of x = (p, q)" by fastforce
  have q: "0 < q" using pq by (rule quotient_of_denom_pos)
  have x: "x = of_int p / of_int q" using pq by (rule quotient_of_div)
  have p: "0 < p" using assms q by (simp add: x zero_less_divide_iff)
  let ?a = "ilog2 p" and ?b = "ilog2 q"
  let ?k = "int ?a - int ?b"
  have a: "(2 :: rat) ^ ?a \<le> of_int p"
    using ilog2_bounds [OF p] of_int_le_iff [of "2 ^ ?a" p, where 'a = rat] by simp
  have b: "(of_int q :: rat) \<le> 2 ^ Suc ?b"
    using ilog2_bounds [OF q] of_int_le_iff [of q "2 ^ Suc ?b", where 'a = rat] by simp
  have pk: "pow2 (?k - 1) = 2 ^ ?a / 2 ^ Suc ?b"
  proof -
    have p2: "pow2 (int n) = 2 ^ n" for n by (simp add: pow2_def)
    have e: "?k - 1 + int (Suc ?b) = int ?a" by simp
    have "2 ^ ?a = pow2 (?k - 1) * 2 ^ Suc ?b"
      using pow2_add [of "?k - 1" "int (Suc ?b)"] unfolding e p2 .
    then show ?thesis by (simp only: nonzero_eq_divide_eq power_not_zero) simp
  qed
  have "pow2 (?k - 1) \<le> x"
    unfolding pk x using a b p q by (intro frac_le) auto
  then show ?thesis by (auto simp: exponent2_def pq Let_def)
qed

lemma round_half_even_ge_floor: "\<lfloor>x\<rfloor> \<le> round_half_even x"
  by (auto simp: round_half_even_def Let_def)

lemma round_half_even_int [simp]: "round_half_even (of_int n) = n"
  by (simp add: round_half_even_def)

lemma rnd64_0 [simp]: "rnd64 0 = Fin 0"
  by (simp add: rnd64_def)

text \<open>No positive value at or above the smallest subnormal is rounded to zero.\<close>

lemma rnd64_pos:
  assumes "pow2 (- 1074) \<le> x"
  shows "rnd64 x = PInf \<or> (\<exists>y. 0 < y \<and> rnd64 x = Fin y)"
proof -
  have x: "0 < x" using assms pow2_pos [of "- 1074"] by linarith
  let ?q = "max (exponent2 \<bar>x\<bar> - 52) (- 1074)"
  have "pow2 ?q \<le> x"
  proof (cases "exponent2 x - 52 \<le> - 1074")
    case True
    with assms x show ?thesis by simp
  next
    case False
    then have "pow2 ?q \<le> pow2 (exponent2 x)" using x by (intro pow2_mono) simp
    also have "\<dots> \<le> x" by (rule exponent2_le [OF x])
    finally show ?thesis .
  qed
  then have "1 \<le> x / pow2 ?q" by simp
  then have "1 \<le> round_half_even (x / pow2 ?q)"
    using round_half_even_ge_floor [of "x / pow2 ?q"] by linarith
  then have "(0 :: rat) < of_int (round_half_even (x / pow2 ?q)) * pow2 ?q" by simp
  then show ?thesis using x by (auto simp: rnd64_def Let_def)
qed

text \<open>Rounding is exact on the numbers with at most 53 significant bits.\<close>

lemma rnd64_dyadic:
  assumes n: "0 < n" "n < 2 ^ 53" and e: "-1074 \<le> e" and top: "of_int n * pow2 e < 2 ^ 1024"
  shows "rnd64 (of_int n * pow2 e) = Fin (of_int n * pow2 e)"
proof -
  let ?x = "of_int n * pow2 e :: rat"
  have pos: "0 < ?x" using n by simp
  have "pow2 (exponent2 ?x) \<le> ?x" by (rule exponent2_le [OF pos])
  also have "?x < pow2 53 * pow2 e"
  proof -
    have "(of_int n :: rat) < of_int (2 ^ 53)" using n by (simp only: of_int_less_iff)
    then show ?thesis by (simp add: pow2_def [of 53])
  qed
  also have "\<dots> = pow2 (53 + e)" by (simp add: pow2_add)
  finally have "\<not> 53 + e \<le> exponent2 ?x" using pow2_mono [of "53 + e" "exponent2 ?x"] by auto
  then have q: "max (exponent2 ?x - 52) (- 1074) \<le> e" (is "?q \<le> e") using e by simp
  have "pow2 e = pow2 (e - ?q) * pow2 ?q" by (simp add: pow2_add [symmetric])
  then have "?x = (of_int n * pow2 (e - ?q)) * pow2 ?q" by (simp only: mult.assoc)
  then have "?x / pow2 ?q = of_int n * pow2 (e - ?q)"
    using pow2_pos [of ?q] by (metis less_numeral_extra(3) nonzero_mult_div_cancel_right)
  also have "pow2 (e - ?q) = of_int (2 ^ nat (e - ?q))" using q by (simp add: pow2_def)
  finally have i: "?x / pow2 ?q = of_int (n * 2 ^ nat (e - ?q))" by simp
  have "of_int (round_half_even (?x / pow2 ?q)) * pow2 ?q = ?x / pow2 ?q * pow2 ?q"
    unfolding i round_half_even_int by (rule refl)
  then have y: "of_int (round_half_even (?x / pow2 ?q)) * pow2 ?q = ?x" using pow2_pos [of ?q] by simp
  then show ?thesis using pos top unfolding rnd64_def Let_def abs_of_pos [OF pos] by simp
qed

subsection \<open>Operations\<close>

definition fl_of_int :: "int \<Rightarrow> pyfloat res" where
  "fl_of_int i = (case rnd64 (of_int i) of Fin x \<Rightarrow> Inr (Fin x)
     | _ \<Rightarrow> Inl (OverflowError ''int too large to convert to float''))"

text \<open>\<open>a / b\<close> on two ints: the correctly rounded quotient.\<close>

definition int_true_div :: "int \<Rightarrow> int \<Rightarrow> pyfloat res" where
  "int_true_div a b =
     (if b = 0 then Inl ZeroDivisionError
      else case rnd64 (of_int a / of_int b) of Fin x \<Rightarrow> Inr (Fin x)
        | _ \<Rightarrow> Inl (OverflowError ''integer division result too large for a float''))"

fun fl_abs :: "pyfloat \<Rightarrow> pyfloat" where
  "fl_abs (Fin a) = Fin \<bar>a\<bar>"
| "fl_abs NInf = PInf"
| "fl_abs x = x"

fun fl_sub :: "pyfloat \<Rightarrow> pyfloat \<Rightarrow> pyfloat" where
  "fl_sub (Fin a) (Fin b) = rnd64 (a - b)"
| "fl_sub PInf (Fin _) = PInf"
| "fl_sub PInf NInf = PInf"
| "fl_sub NInf (Fin _) = NInf"
| "fl_sub NInf PInf = NInf"
| "fl_sub (Fin _) PInf = NInf"
| "fl_sub (Fin _) NInf = PInf"
| "fl_sub _ _ = NaN"

text \<open>The product with a finite factor other than zero.\<close>

fun fl_scale :: "rat \<Rightarrow> pyfloat \<Rightarrow> pyfloat" where
  "fl_scale k (Fin a) = rnd64 (k * a)"
| "fl_scale k PInf = (if 0 < k then PInf else NInf)"
| "fl_scale k NInf = (if 0 < k then NInf else PInf)"
| "fl_scale k NaN = NaN"

text \<open>The float literal of a decimal fraction \<open>n / 10 ^ k\<close>.\<close>

definition fl_lit :: "int \<Rightarrow> nat \<Rightarrow> pyfloat" where
  "fl_lit n k = rnd64 (of_int n / 10 ^ k)"

fun fin_val :: "pyfloat \<Rightarrow> rat" where
  "fin_val (Fin a) = a"
| "fin_val _ = 0"

text \<open>\<open>math.isclose\<close>.\<close>

definition isclose :: "pyfloat \<Rightarrow> pyfloat \<Rightarrow> pyfloat \<Rightarrow> pyfloat \<Rightarrow> bool" where
  "isclose rel_tol abs_tol a b =
     (if fl_eq a b then True
      else if a = PInf \<or> a = NInf \<or> b = PInf \<or> b = NInf then False
      else let diff = fl_abs (fl_sub b a)
           in fl_le diff (fl_abs (fl_scale (fin_val rel_tol) b))
              \<or> fl_le diff (fl_abs (fl_scale (fin_val rel_tol) a))
              \<or> fl_le diff abs_tol)"

lemma isclose_nan [simp]: "isclose r t NaN b = False"
proof -
  have "fl_sub b NaN = NaN" by (cases b) auto
  then show ?thesis by (simp add: isclose_def Let_def fl_le_def)
qed

lemma isclose_refl: "a \<noteq> NaN \<Longrightarrow> isclose r t a a"
  by (cases a) (auto simp: isclose_def)

lemma int_true_div_eq_0_iff:
  assumes "0 \<le> a" and "0 < b" and "b < 2 ^ 1000"
  shows "int_true_div a b = Inr (Fin 0) \<longleftrightarrow> a = 0"
proof (cases "a = 0")
  case True
  with assms show ?thesis by (simp add: int_true_div_def)
next
  case False
  with assms have "1 \<le> a" by simp
  have "pow2 (- 1074) \<le> 1 / 2 ^ 1000"
    using pow2_mono [of "- 1074" "- 1000"] by (simp add: pow2_def)
  also have "\<dots> \<le> 1 / (of_int b :: rat)"
  proof (rule divide_left_mono)
    have "of_int b \<le> (of_int (2 ^ 1000) :: rat)" using assms(3) by (simp only: of_int_le_iff less_imp_le)
    then show "(of_int b :: rat) \<le> 2 ^ 1000" by (simp only: of_int_power of_int_numeral)
  qed (use assms in auto)
  also have "\<dots> \<le> of_int a / of_int b"
    using \<open>1 \<le> a\<close> assms(2) by (simp add: divide_right_mono)
  finally have "pow2 (- 1074) \<le> (of_int a :: rat) / of_int b" .
  from rnd64_pos [OF this] False assms show ?thesis
    by (auto simp: int_true_div_def split: pyfloat.splits)
qed

end
