(* ===== verification/PyNumber.thy ===== *)
theory PyNumber
  imports PyCodec PyFloat
begin

text \<open>
  Numbers and text: \<open>float(str)\<close> of Python, and the float arithmetic the collector and the stage
  runner need beyond comparison. Each operation computes the exact result and rounds once.
\<close>

subsection \<open>ASCII case\<close>

definition ascii_lower :: "pystr \<Rightarrow> pystr" where
  "ascii_lower = map (\<lambda>c. if 65 \<le> c \<and> c \<le> 90 then c + 32 else c)"

subsection \<open>\<open>float(s)\<close>\<close>

definition pow10 :: "int \<Rightarrow> rat" where
  "pow10 e = (if 0 \<le> e then 10 ^ nat e else 1 / 10 ^ nat (- e))"

definition split_sign :: "pystr \<Rightarrow> bool \<times> pystr" where
  "split_sign s = (s \<noteq> [] \<and> hd s = 45, if s \<noteq> [] \<and> (hd s = 43 \<or> hd s = 45) then tl s else s)"

definition digit_part :: "pystr \<Rightarrow> nat list option" where
  "digit_part s = (if s = [] then Some [] else scan_digits s)"

definition float_mantissa :: "pystr \<Rightarrow> (nat list \<times> nat) option" where
  "float_mantissa m =
     (let whole = takeWhile (\<lambda>c. c \<noteq> 46) m; frac = drop 1 (dropWhile (\<lambda>c. c \<noteq> 46) m) in
      if whole = [] \<and> frac = [] then None
      else case (digit_part whole, digit_part frac) of
        (Some ds, Some fs) \<Rightarrow> Some (ds @ fs, length fs) | _ \<Rightarrow> None)"

definition float_exponent :: "pystr \<Rightarrow> int option" where
  "float_exponent e =
     (case e of
        [] \<Rightarrow> Some 0
      | _ # x \<Rightarrow> (case split_sign x of (neg, ds) \<Rightarrow>
          map_option (\<lambda>ds. if neg then - int (of_digits ds) else int (of_digits ds)) (scan_digits ds)))"

definition py_float :: "pystr \<Rightarrow> pyfloat option" where
  "py_float s =
     (case split_sign (py_strip s) of (neg, b) \<Rightarrow>
      let l = ascii_lower b in
      if l = u ''inf'' \<or> l = u ''infinity'' then Some (if neg then NInf else PInf)
      else if l = u ''nan'' then Some NaN
      else case (float_mantissa (takeWhile (\<lambda>c. c \<noteq> 101 \<and> c \<noteq> 69) b),
                 float_exponent (dropWhile (\<lambda>c. c \<noteq> 101 \<and> c \<noteq> 69) b)) of
        (Some (ds, k), Some e) \<Rightarrow>
          let x = of_nat (of_digits ds) * pow10 (e - int k) in Some (rnd64 (if neg then - x else x))
      | _ \<Rightarrow> None)"

subsection \<open>Arithmetic\<close>

fun fl_neg :: "pyfloat \<Rightarrow> pyfloat" where
  "fl_neg (Fin a) = Fin (- a)"
| "fl_neg PInf = NInf"
| "fl_neg NInf = PInf"
| "fl_neg NaN = NaN"

definition fl_add :: "pyfloat \<Rightarrow> pyfloat \<Rightarrow> pyfloat" where
  "fl_add a b = fl_sub a (fl_neg b)"

text \<open>The sign of a value: infinities keep it, and both zeros are \<open>0\<close>.\<close>

fun fl_sign :: "pyfloat \<Rightarrow> rat" where
  "fl_sign (Fin a) = sgn a"
| "fl_sign PInf = 1"
| "fl_sign NInf = -1"
| "fl_sign NaN = 0"

definition fl_mul :: "pyfloat \<Rightarrow> pyfloat \<Rightarrow> pyfloat" where
  "fl_mul a b =
     (case (a, b) of
        (Fin x, Fin y) \<Rightarrow> rnd64 (x * y)
      | _ \<Rightarrow> if fl_sign a * fl_sign b = 0 then NaN else if 0 < fl_sign a * fl_sign b then PInf else NInf)"

text \<open>\<open>a / b\<close> on floats, which raises on a zero divisor.\<close>

definition fl_div :: "pyfloat \<Rightarrow> pyfloat \<Rightarrow> pyfloat res" where
  "fl_div a b =
     (case (a, b) of
        (_, Fin y) \<Rightarrow>
          if y = 0 then Inl ZeroDivisionError
          else (case a of Fin x \<Rightarrow> Inr (rnd64 (x / y))
                | NaN \<Rightarrow> Inr NaN
                | _ \<Rightarrow> Inr (if 0 < fl_sign a * sgn y then PInf else NInf))
      | (Fin _, NaN) \<Rightarrow> Inr NaN
      | (Fin _, _) \<Rightarrow> Inr (Fin 0)
      | _ \<Rightarrow> Inr NaN)"

end
