(* ===== verification/Json.thy ===== *)
theory Json
  imports PyNumber
begin

text \<open>
  JSON documents as Python values, and the accessors through which every script reads recorded
  evidence. An object is the list of its items in insertion order (keys distinct). \<open>py_eq\<close> is
  Python's \<open>==\<close> on such values: numbers compare across \<open>bool\<close>, \<open>int\<close> and \<open>float\<close>, dicts ignore
  the order of their items. The accessors of \<open>collect_large_scale_results.py\<close> follow in the
  order of the script; each raises exactly where the code does.
\<close>

datatype json =
    JNull
  | JBool bool
  | JInt int
  | JFloat pyfloat
  | JStr pystr
  | JArr "json list"
  | JObj "(pystr \<times> json) list"

type_synonym jobj = "(pystr \<times> json) list"

text \<open>The numeric value Python compares, for the three numeric types.\<close>

fun num_of :: "json \<Rightarrow> pyfloat option" where
  "num_of (JBool b) = Some (Fin (if b then 1 else 0))"
| "num_of (JInt i) = Some (Fin (of_int i))"
| "num_of (JFloat f) = Some f"
| "num_of _ = None"

fun py_eq :: "json \<Rightarrow> json \<Rightarrow> bool"
  and py_eq_list :: "json list \<Rightarrow> json list \<Rightarrow> bool"
  and py_eq_items :: "jobj \<Rightarrow> jobj \<Rightarrow> bool" where
  "py_eq JNull b = (b = JNull)"
| "py_eq (JStr s) b = (b = JStr s)"
| "py_eq (JArr xs) b = (case b of JArr ys \<Rightarrow> py_eq_list xs ys | _ \<Rightarrow> False)"
| "py_eq (JObj m) b =
     (case b of JObj n \<Rightarrow> length m = length n \<and> py_eq_items m n | _ \<Rightarrow> False)"
| "py_eq (JBool x) b = (case num_of b of Some g \<Rightarrow> fl_eq (Fin (if x then 1 else 0)) g | None \<Rightarrow> False)"
| "py_eq (JInt i) b = (case num_of b of Some g \<Rightarrow> fl_eq (Fin (of_int i)) g | None \<Rightarrow> False)"
| "py_eq (JFloat f) b = (case num_of b of Some g \<Rightarrow> fl_eq f g | None \<Rightarrow> False)"
| "py_eq_list [] ys = (ys = [])"
| "py_eq_list (x # xs) ys = (case ys of [] \<Rightarrow> False | y # ys' \<Rightarrow> py_eq x y \<and> py_eq_list xs ys')"
| "py_eq_items [] n = True"
| "py_eq_items (kv # m) n =
     ((case map_of n (fst kv) of None \<Rightarrow> False | Some w \<Rightarrow> py_eq (snd kv) w) \<and> py_eq_items m n)"

lemma py_eq_str [simp]: "py_eq v (JStr s) \<longleftrightarrow> v = JStr s"
  by (cases v) auto

lemma py_eq_int [simp]: "py_eq v (JInt i) \<longleftrightarrow> num_of v = Some (Fin (of_int i))"
proof -
  have "fl_eq f (Fin x) \<longleftrightarrow> f = Fin x" for f x by (cases f) auto
  then show ?thesis by (cases v) auto
qed

text \<open>\<open>d.get(k)\<close> (absent keys read as \<open>None\<close>) and \<open>k in d\<close>.\<close>

definition jget :: "jobj \<Rightarrow> string \<Rightarrow> json" where
  "jget m k = (case map_of m (u k) of None \<Rightarrow> JNull | Some v \<Rightarrow> v)"

definition jhas :: "jobj \<Rightarrow> string \<Rightarrow> bool" where
  "jhas m k \<longleftrightarrow> map_of m (u k) \<noteq> None"

text \<open>\<open>d[k] = v\<close>: a key keeps its place.\<close>

fun dict_set :: "('k \<times> 'v) list \<Rightarrow> 'k \<Rightarrow> 'v \<Rightarrow> ('k \<times> 'v) list" where
  "dict_set [] k v = [(k, v)]"
| "dict_set (kv # m) k v = (if fst kv = k then (k, v) # m else kv # dict_set m k v)"

lemma map_of_dict_set [simp]: "map_of (dict_set m k v) = (map_of m)(k \<mapsto> v)"
  by (induction m) auto

lemma keys_dict_set: "fst ` set (dict_set m k v) = insert k (fst ` set m)"
  by (induction m) auto

lemma distinct_dict_set [simp]: "distinct (map fst (dict_set m k v)) \<longleftrightarrow> distinct (map fst m)"
proof (induction m)
  case (Cons kv m)
  have "fst kv \<in> set (map fst (dict_set m k v)) \<longleftrightarrow> fst kv = k \<or> fst kv \<in> set (map fst m)"
    using keys_dict_set [of m k v] by (metis insert_iff set_map)
  with Cons show ?case by auto
qed simp

lemma values_dict_set: "kv \<in> set (dict_set m k v) \<Longrightarrow> kv = (k, v) \<or> kv \<in> set m"
  by (induction m) (auto split: if_splits)

text \<open>\<open>d[k]\<close>, which raises \<open>KeyError\<close>.\<close>

definition jidx :: "jobj \<Rightarrow> string \<Rightarrow> json res" where
  "jidx m k = (case map_of m (u k) of None \<Rightarrow> Inl (KeyError k) | Some v \<Rightarrow> Inr v)"

text \<open>\<open>d.get(a, {}).get(b)\<close>, which raises when \<open>d[a]\<close> is no dict.\<close>

definition jget2 :: "jobj \<Rightarrow> string \<Rightarrow> string \<Rightarrow> json res" where
  "jget2 m a b =
     (case map_of m (u a) of
        None \<Rightarrow> Inr JNull
      | Some (JObj n) \<Rightarrow> Inr (jget n b)
      | Some _ \<Rightarrow> Inl (AttributeError ''get''))"

text \<open>The displays \<open>{"k": v, ...}\<close> with literal keys.\<close>

definition jobj :: "(string \<times> json) list \<Rightarrow> jobj" where
  "jobj kvs = map (\<lambda>(k, v). (u k, v)) kvs"

lemma map_of_jobj [simp]: "map_of (jobj kvs) (u k) = map_of kvs k"
  by (induction kvs) (auto simp: jobj_def)

lemma jget_jobj [simp]: "jget (jobj kvs) k = (case map_of kvs k of None \<Rightarrow> JNull | Some v \<Rightarrow> v)"
  by (simp add: jget_def)

lemma jhas_jobj [simp]: "jhas (jobj kvs) k \<longleftrightarrow> map_of kvs k \<noteq> None"
  by (simp add: jhas_def)

lemma jidx_jobj [simp]:
  "jidx (jobj kvs) k = (case map_of kvs k of None \<Rightarrow> Inl (KeyError k) | Some v \<Rightarrow> Inr v)"
  by (simp add: jidx_def)

subsection \<open>Accessors of the collector\<close>

definition is_number :: "json \<Rightarrow> bool res" where
  "is_number v =
     (case v of
        JInt i \<Rightarrow> (case fl_of_int i of Inl e \<Rightarrow> Inl e | Inr f \<Rightarrow> Inr (fl_isfinite f))
      | JFloat f \<Rightarrow> Inr (fl_isfinite f)
      | _ \<Rightarrow> Inr False)"

definition number :: "json \<Rightarrow> pyfloat res" where
  "number v =
     (case is_number v of Inl e \<Rightarrow> Inl e | Inr ok \<Rightarrow>
      if \<not> ok then Inl (CollectionError ''expected a finite number'')
      else (case v of JInt i \<Rightarrow> fl_of_int i | JFloat f \<Rightarrow> Inr f
              | _ \<Rightarrow> Inl (CollectionError ''expected a finite number'')))"

definition integer :: "json \<Rightarrow> int \<Rightarrow> int res" where
  "integer v minimum =
     (case v of
        JInt i \<Rightarrow> if i < minimum then Inl (CollectionError ''expected an integer >='') else Inr i
      | _ \<Rightarrow> Inl (CollectionError ''expected an integer >=''))"

definition mapping :: "json \<Rightarrow> jobj res" where
  "mapping v = (case v of JObj m \<Rightarrow> Inr m | _ \<Rightarrow> Inl (CollectionError ''expected an object''))"

definition sequence :: "json \<Rightarrow> json list res" where
  "sequence v = (case v of JArr xs \<Rightarrow> Inr xs | _ \<Rightarrow> Inl (CollectionError ''expected an array''))"

definition required :: "jobj \<Rightarrow> string \<Rightarrow> json res" where
  "required m k =
     (case map_of m (u k) of
        None \<Rightarrow> Inl (CollectionError ''missing required field'')
      | Some v \<Rightarrow> Inr v)"

definition close :: "pyfloat \<Rightarrow> pyfloat \<Rightarrow> bool" where
  "close actual expected = isclose (fl_lit 1 8) (fl_lit 1 6) actual expected"

definition nonempty_string :: "json \<Rightarrow> pystr res" where
  "nonempty_string v =
     (case v of
        JStr s \<Rightarrow> if s = [] then Inl (CollectionError ''expected a non-empty string'') else Inr s
      | _ \<Rightarrow> Inl (CollectionError ''expected a non-empty string''))"

lemma integer_ok [ok_simps]: "integer v k = Inr i \<longleftrightarrow> v = JInt i \<and> k \<le> i"
  by (auto simp: integer_def split: json.splits)

lemma mapping_ok [ok_simps]: "mapping v = Inr m \<longleftrightarrow> v = JObj m"
  by (auto simp: mapping_def split: json.splits)

lemma sequence_ok [ok_simps]: "sequence v = Inr xs \<longleftrightarrow> v = JArr xs"
  by (auto simp: sequence_def split: json.splits)

lemma required_ok [ok_simps]: "required m k = Inr v \<longleftrightarrow> map_of m (u k) = Some v"
  by (auto simp: required_def split: option.splits)

lemma nonempty_string_ok [ok_simps]: "nonempty_string v = Inr s \<longleftrightarrow> v = JStr s \<and> s \<noteq> []"
  by (auto simp: nonempty_string_def split: json.splits)

lemma number_fin: "number v = Inr f \<Longrightarrow> \<exists>x. f = Fin x"
  by (cases f) (auto simp: number_def is_number_def fl_of_int_def fl_isfinite_def ok_simps
      split: json.splits pyfloat.splits)

text \<open>Strings of lower-case hexadecimal digits: \<open>re.fullmatch(r"[0-9a-f]{64}", s)\<close>.\<close>

definition hex_digit :: "nat \<Rightarrow> bool" where
  "hex_digit c \<longleftrightarrow> (48 \<le> c \<and> c \<le> 57) \<or> (97 \<le> c \<and> c \<le> 102)"

definition is_hex :: "nat \<Rightarrow> pystr \<Rightarrow> bool" where
  "is_hex n s \<longleftrightarrow> length s = n \<and> list_all hex_digit s"

definition is_sha256 :: "json \<Rightarrow> bool" where
  "is_sha256 v = (case v of JStr s \<Rightarrow> is_hex 64 s | _ \<Rightarrow> False)"

text \<open>\<open>bytes.hex()\<close>.\<close>

definition hex_char :: "nat \<Rightarrow> nat" where
  "hex_char d = (if d < 10 then 48 + d else 87 + d)"

definition to_hex :: "bytes \<Rightarrow> pystr" where
  "to_hex bs = concat (map (\<lambda>b. [hex_char (unat b div 16), hex_char (unat b mod 16)]) bs)"

lemma hex_char_digit: "d < 16 \<Longrightarrow> hex_digit (hex_char d)"
  by (simp add: hex_char_def hex_digit_def)

lemma is_hex_to_hex: "is_hex (2 * length bs) (to_hex bs)"
proof -
  have "unat (b :: byte) div 16 < 16" for b
    using unat_byte_less [of b] by linarith
  then show ?thesis
    by (induction bs) (auto simp: to_hex_def is_hex_def hex_char_digit)
qed

end
