(* ===== verification/LineFiles.thy ===== *)
theory LineFiles
  imports Json
begin

text \<open>
  The shared readers of \<open>benchmark_cache.py\<close>: hashing of a byte range, the line reader all tools
  count rows with, source identities and file snapshots. The functions of the interpreter's
  C modules that the scripts treat as opaque are the fields of \<open>host\<close>: the SHA-256 digest
  (\<open>hashlib\<close>) and the JSON text codec (\<open>json.dumps\<close> in its two configurations and
  \<open>json.loads\<close>). The file system is what the scripts observe of it: path resolution and
  the contents of the regular files.
\<close>

record host =
  sha256 :: "bytes \<Rightarrow> bytes"
  dumps_canonical :: "json \<Rightarrow> bytes"
  dumps_indent :: "json \<Rightarrow> bytes"
  loads :: "bytes \<Rightarrow> json option"

record fsys =
  fs_resolve :: "pystr \<Rightarrow> pystr"
  fs_file :: "pystr \<Rightarrow> bytes option"

definition sha_hex :: "host \<Rightarrow> bytes \<Rightarrow> pystr" where
  "sha_hex h bs = to_hex (sha256 h bs)"

definition canonical_hash :: "host \<Rightarrow> json \<Rightarrow> pystr" where
  "canonical_hash h v = sha_hex h (dumps_canonical h v)"

definition open_rb :: "fsys \<Rightarrow> pystr \<Rightarrow> bytes res" where
  "open_rb fs p = (case fs_file fs (fs_resolve fs p) of
     None \<Rightarrow> Inl (OSError ''no such file'') | Some bs \<Rightarrow> Inr bs)"

subsection \<open>Hashing a byte range\<close>

definition block_size :: nat where
  "block_size = 1024 * 1024"

lemma block_size_pos [simp]: "0 < block_size" "block_size \<noteq> 0"
  by (simp_all add: block_size_def)

text \<open>The read loop: what was fed to the digest, and the bytes still wanted.\<close>

function read_loop :: "nat option \<Rightarrow> bytes \<Rightarrow> bytes \<Rightarrow> bytes \<times> nat option" where
  "read_loop remaining acc src =
     (if remaining = Some 0 then (acc, remaining)
      else let size = (case remaining of None \<Rightarrow> block_size | Some r \<Rightarrow> min block_size r);
               block = take size src
           in if block = [] then (acc, remaining)
              else read_loop (map_option (\<lambda>r. r - length block) remaining) (acc @ block)
                     (drop size src))"
  by pat_completeness auto
termination
  by (relation "measure (\<lambda>(remaining, acc, src). length src)") (auto split: option.splits)

declare read_loop.simps [simp del]

definition sha256_bytes :: "host \<Rightarrow> bytes \<Rightarrow> nat \<Rightarrow> nat option \<Rightarrow> pystr res" where
  "sha256_bytes h content offset len =
     (case read_loop len [] (drop offset content) of
        (fed, remaining) \<Rightarrow>
          if remaining = None \<or> remaining = Some 0 then Inr (sha_hex h fed)
          else Inl (ValueError ''truncated while hashing''))"

definition sha256_file :: "host \<Rightarrow> fsys \<Rightarrow> pystr \<Rightarrow> nat \<Rightarrow> nat option \<Rightarrow> pystr res" where
  "sha256_file h fs p offset len =
     (case open_rb fs p of Inl e \<Rightarrow> Inl e | Inr content \<Rightarrow> sha256_bytes h content offset len)"

lemma read_loop_all: "read_loop None acc src = (acc @ src, None)"
proof (induction "None :: nat option" acc src rule: read_loop.induct)
  case (1 acc src)
  show ?case
  proof (cases "src = []")
    case False
    then have "read_loop None acc src = read_loop None (acc @ take block_size src) (drop block_size src)"
      by (subst read_loop.simps) (simp add: Let_def)
    with 1 False show ?thesis by (simp add: append.assoc)
  qed (simp add: read_loop.simps)
qed

lemma read_loop_some: "read_loop (Some n) acc src = (acc @ take n src, Some (n - length src))"
proof (induction "Some n" acc src arbitrary: n rule: read_loop.induct)
  case (1 acc src)
  let ?size = "min block_size n"
  show ?case
  proof (cases "n = 0 \<or> src = []")
    case True
    then show ?thesis by (subst read_loop.simps) (auto simp: Let_def)
  next
    case False
    then have step: "read_loop (Some n) acc src
        = read_loop (Some (n - length (take ?size src))) (acc @ take ?size src) (drop ?size src)"
      by (subst read_loop.simps) (simp add: Let_def min_def)
    have "read_loop (Some (n - length (take ?size src))) (acc @ take ?size src) (drop ?size src)
        = ((acc @ take ?size src) @ take (n - length (take ?size src)) (drop ?size src),
           Some (n - length (take ?size src) - length (drop ?size src)))"
      using False 1 [of ?size "take ?size src"] by (simp add: Let_def)
    moreover have "take ?size src @ take (n - length (take ?size src)) (drop ?size src) = take n src"
    proof (cases "length src \<le> ?size")
      case False
      then have "length (take ?size src) = ?size" unfolding length_take by linarith
      then have "n - length (take ?size src) = n - ?size" by (rule arg_cong)
      moreover have "take (?size + (n - ?size)) src = take ?size src @ take (n - ?size) (drop ?size src)"
        by (rule take_add)
      ultimately show ?thesis by simp
    qed simp
    moreover have "n - length (take ?size src) - length (drop ?size src) = n - length src"
      by simp
    ultimately show ?thesis using step by simp
  qed
qed

lemma sha256_bytes_all: "sha256_bytes h c k None = Inr (sha_hex h (drop k c))"
  by (simp add: sha256_bytes_def read_loop_all)

lemma sha256_bytes_some:
  "sha256_bytes h c k (Some n) =
     (if n \<le> length c - k then Inr (sha_hex h (take n (drop k c)))
      else Inl (ValueError ''truncated while hashing''))"
  by (simp add: sha256_bytes_def read_loop_some)

subsection \<open>Lines\<close>

definition strip_line_end :: "pystr \<Rightarrow> pystr" where
  "strip_line_end line =
     (let a = (if line \<noteq> [] \<and> last line = 10 then butlast line else line)
      in if a \<noteq> [] \<and> last a = 13 then butlast a else a)"

definition iter_nonempty_lines :: "bytes \<Rightarrow> pystr list res" where
  "iter_nonempty_lines content =
     (case utf8_decode content of Inl e \<Rightarrow> Inl e | Inr s \<Rightarrow>
      Inr (filter (\<lambda>l. l \<noteq> []) (map strip_line_end (lines_universal [] s))))"

definition count_nonempty_lines :: "bytes \<Rightarrow> nat res" where
  "count_nonempty_lines content =
     (case iter_nonempty_lines content of Inl e \<Rightarrow> Inl e | Inr ls \<Rightarrow> Inr (length ls))"

record source_id =
  si_path :: pystr
  si_size :: nat
  si_sha :: pystr
  si_lines :: nat

definition source_identity :: "host \<Rightarrow> fsys \<Rightarrow> pystr \<Rightarrow> source_id res" where
  "source_identity h fs p =
     (case open_rb fs p of Inl e \<Rightarrow> Inl e | Inr content \<Rightarrow>
      case sha256_bytes h content 0 None of Inl e \<Rightarrow> Inl e | Inr digest \<Rightarrow>
      case count_nonempty_lines content of Inl e \<Rightarrow> Inl e | Inr n \<Rightarrow>
      Inr \<lparr>si_path = fs_resolve fs p, si_size = length content, si_sha = digest, si_lines = n\<rparr>)"

definition source_json :: "source_id \<Rightarrow> json" where
  "source_json s = JObj (jobj [(''path'', JStr (si_path s)), (''size_bytes'', JInt (int (si_size s))),
     (''sha256'', JStr (si_sha s)), (''nonempty_lines'', JInt (int (si_lines s)))])"

lemma strip_line_end_unix: "10 \<notin> set l \<Longrightarrow> 13 \<notin> set l \<Longrightarrow> strip_line_end (l @ [10]) = l"
proof -
  assume "10 \<notin> set l" "13 \<notin> set l"
  moreover have "butlast (l @ [10]) = l" by simp
  ultimately show ?thesis
    by (auto simp: strip_line_end_def Let_def simp del: butlast_append) (metis last_in_set)
qed

text \<open>A file of clean lines is read back as those lines.\<close>

lemma iter_nonempty_lines_unlines:
  assumes "\<forall>l \<in> set ls. l \<noteq> [] \<and> 10 \<notin> set l \<and> 13 \<notin> set l \<and> (\<forall>c \<in> set l. is_scalar c)"
  shows "iter_nonempty_lines (utf8_bytes (concat (map (\<lambda>l. l @ [10]) ls))) = Inr ls"
proof -
  let ?s = "concat (map (\<lambda>l. l @ [10]) ls)"
  have "\<forall>c \<in> set ?s. is_scalar c" using assms by (auto simp: is_scalar_def)
  then have "utf8_decode (utf8_bytes ?s) = Inr ?s" by (rule utf8_decode_bytes)
  moreover have "lines_universal [] ?s = map (\<lambda>l. l @ [10]) ls"
    using assms by (intro lines_universal_unlines) blast
  moreover have "map strip_line_end (map (\<lambda>l. l @ [10]) ls) = ls"
    using assms by (induction ls) (auto simp: strip_line_end_unix)
  moreover have "filter (\<lambda>l. l \<noteq> []) ls = ls" using assms by (auto simp: filter_id_conv)
  ultimately show ?thesis by (simp add: iter_nonempty_lines_def)
qed

subsection \<open>Snapshots\<close>

record snapshot =
  sn_path :: pystr
  sn_size :: nat
  sn_sha :: pystr

fun snapshot_loop :: "host \<Rightarrow> fsys \<Rightarrow> pystr list \<Rightarrow> pystr list \<Rightarrow> snapshot list" where
  "snapshot_loop h fs seen [] = []"
| "snapshot_loop h fs seen (p # ps) =
     (case fs_file fs p of
        None \<Rightarrow> snapshot_loop h fs seen ps
      | Some c \<Rightarrow>
          if p \<in> set seen then snapshot_loop h fs seen ps
          else \<lparr>sn_path = p, sn_size = length c, sn_sha = sha_hex h c\<rparr>
                 # snapshot_loop h fs (p # seen) ps)"

definition snapshot_files :: "host \<Rightarrow> fsys \<Rightarrow> pystr list \<Rightarrow> snapshot list" where
  "snapshot_files h fs paths = snapshot_loop h fs [] (sort (map (fs_resolve fs) paths))"

definition snapshot_json :: "snapshot \<Rightarrow> json" where
  "snapshot_json s = JObj (jobj [(''path'', JStr (sn_path s)), (''size_bytes'', JInt (int (sn_size s))),
     (''sha256'', JStr (sn_sha s))])"

lemma snapshot_loop_paths:
  "set (map sn_path (snapshot_loop h fs seen ps)) = {p \<in> set ps. fs_file fs p \<noteq> None \<and> p \<notin> set seen}"
  by (induction h fs seen ps rule: snapshot_loop.induct) (auto split: option.splits)

lemma snapshot_loop_sorted:
  "sorted ps \<Longrightarrow> sorted_wrt (<) (map sn_path (snapshot_loop h fs seen ps))"
proof (induction h fs seen ps rule: snapshot_loop.induct)
  case (2 h fs seen p ps)
  have "p < q" if "q \<in> set (map sn_path (snapshot_loop h fs (p # seen) ps))" for q
    using that 2(4) unfolding snapshot_loop_paths by (auto simp: order.strict_iff_order)
  with 2 show ?case by (auto split: option.splits)
qed simp

lemma snapshot_loop_content:
  "s \<in> set (snapshot_loop h fs seen ps) \<Longrightarrow>
     \<exists>c. fs_file fs (sn_path s) = Some c \<and> sn_size s = length c \<and> sn_sha s = sha_hex h c"
  by (induction h fs seen ps rule: snapshot_loop.induct) (auto split: option.splits if_splits)

end
