(* ===== verification/GroundTruth.thy ===== *)
theory GroundTruth
  imports LineFiles
begin

text \<open>
  The exact-neighbour file \<open>LEANN_GT1\<close>: \<open>read_ground_truth\<close> of \<open>benchmark_cache.py\<close> and the
  text that \<open>generate_ground_truth\<close> of \<open>run_large_scale_benchmark.py\<close> writes (header line, one
  line of decimal IDs per query). The lemmas characterise what the reader accepts and give the
  round trip with the writer.
\<close>

record truth_meta =
  tm_path :: pystr
  tm_queries :: nat
  tm_k :: nat
  tm_corpus :: nat
  tm_size :: nat
  tm_sha :: pystr

text \<open>\<open>[int(field) for field in fields]\<close>, \<open>None\<close> where \<open>int\<close> raises.\<close>

fun ints :: "pystr list \<Rightarrow> int list option" where
  "ints [] = Some []"
| "ints (f # fs) =
     (case py_int f of None \<Rightarrow> None | Some i \<Rightarrow> map_option (Cons i) (ints fs))"

definition read_truth_row :: "nat \<Rightarrow> nat \<Rightarrow> pystr \<Rightarrow> nat list res" where
  "read_truth_row top_k corpus_count line =
     (let fields = py_split line in
      if length fields \<noteq> top_k then Inl (ValueError ''row does not have k IDs'')
      else case ints fields of
        None \<Rightarrow> Inl (ValueError ''non-integer ID in row'')
      | Some identifiers \<Rightarrow>
      if list_ex (\<lambda>i. i < 0 \<or> int corpus_count \<le> i) identifiers
        then Inl (ValueError ''out-of-range ID in row'')
      else if \<not> distinct identifiers then Inl (ValueError ''duplicate ID in row'')
      else Inr (map nat identifiers))"

fun expect :: "nat option \<Rightarrow> nat \<Rightarrow> string \<Rightarrow> unit res" where
  "expect None observed label = Inr ()"
| "expect (Some wanted) observed label =
     (if wanted \<noteq> observed then Inl (ValueError label) else Inr ())"

definition read_ground_truth ::
  "host \<Rightarrow> pystr \<Rightarrow> nat option \<Rightarrow> nat option \<Rightarrow> nat option \<Rightarrow> bytes
     \<Rightarrow> (nat list list \<times> truth_meta) res" where
  "read_ground_truth h path expected_queries expected_k expected_corpus content =
     (case iter_nonempty_lines content of Inl e \<Rightarrow> Inl e | Inr lines \<Rightarrow>
      case lines of [] \<Rightarrow> Inl (ValueError ''empty ground-truth file'') | first # rest \<Rightarrow>
      case py_split first of
        [magic, a, b, c] \<Rightarrow>
          if magic \<noteq> u ''LEANN_GT1'' then Inl (ValueError ''invalid ground-truth header'') else
          (case (py_int a, py_int b, py_int c) of
             (Some query_count, Some top_k, Some corpus_count) \<Rightarrow>
               if query_count \<le> 0 \<or> top_k \<le> 0 \<or> corpus_count < top_k
                 then Inl (ValueError ''invalid ground-truth dimensions'')
               else if int (length rest) \<noteq> query_count
                 then Inl (ValueError ''ground-truth row count mismatch'')
               else case map_res (read_truth_row (nat top_k) (nat corpus_count)) rest of
                 Inl e \<Rightarrow> Inl e | Inr truth \<Rightarrow>
               case expect expected_queries (nat query_count) ''ground-truth query count mismatch'' of
                 Inl e \<Rightarrow> Inl e | Inr _ \<Rightarrow>
               case expect expected_k (nat top_k) ''ground-truth top-k mismatch'' of
                 Inl e \<Rightarrow> Inl e | Inr _ \<Rightarrow>
               case expect expected_corpus (nat corpus_count) ''ground-truth corpus count mismatch'' of
                 Inl e \<Rightarrow> Inl e | Inr _ \<Rightarrow>
               Inr (truth, \<lparr>tm_path = path, tm_queries = nat query_count, tm_k = nat top_k,
                 tm_corpus = nat corpus_count, tm_size = length content, tm_sha = sha_hex h content\<rparr>)
           | _ \<Rightarrow> Inl (ValueError ''non-integer ground-truth header''))
      | _ \<Rightarrow> Inl (ValueError ''invalid ground-truth header''))"

subsection \<open>The writer\<close>

definition gt_header :: "nat \<Rightarrow> nat \<Rightarrow> nat \<Rightarrow> bytes" where
  "gt_header query_count top_k corpus_count =
     utf8_bytes (py_join (u '' '') [u ''LEANN_GT1'', dec_nat query_count, dec_nat top_k, dec_nat corpus_count]
       @ [10])"

definition gt_payload :: "nat list list \<Rightarrow> bytes" where
  "gt_payload rows = utf8_bytes (concat (map (\<lambda>row. py_join (u '' '') (map dec_nat row) @ [10]) rows))"

lemma case_four_ok [ok_simps]:
  "(case ws of [m, a, b, c] \<Rightarrow> f m a b c | _ \<Rightarrow> Inl e) = Inr r
     \<longleftrightarrow> (\<exists>m a b c. ws = [m, a, b, c] \<and> f m a b c = Inr r)"
  by (auto split: list.splits)

lemma case_three_some_ok [ok_simps]:
  "(case (x, y, z) of (Some a, Some b, Some c) \<Rightarrow> f a b c | _ \<Rightarrow> Inl e) = Inr r
     \<longleftrightarrow> (\<exists>a b c. x = Some a \<and> y = Some b \<and> z = Some c \<and> f a b c = Inr r)"
  by (auto split: option.splits)

lemma case_nonempty_ok [ok_simps]:
  "(case xs of [] \<Rightarrow> Inl e | y # ys \<Rightarrow> f y ys) = Inr r
     \<longleftrightarrow> (\<exists>y ys. xs = y # ys \<and> f y ys = Inr r)"
  by (cases xs) auto

lemma expect_ok [ok_simps]: "expect w n l = Inr r \<longleftrightarrow> (w = None \<or> w = Some n)"
  by (cases w) auto

lemma expect_same [simp]: "expect (Some n) n l = Inr ()" "expect None n l = Inr ()"
  by auto

text \<open>Words without whitespace are split apart again.\<close>

definition py_word :: "pystr \<Rightarrow> bool" where
  "py_word w \<longleftrightarrow> w \<noteq> [] \<and> (\<forall>c \<in> set w. \<not> py_ws c)"

lemma py_split_join_one:
  assumes "py_word w"
  shows "py_split w = [w]"
proof -
  have d: "dropWhile py_ws w = w" using assms by (cases w) (auto simp: py_word_def)
  have t: "takeWhile (\<lambda>c. \<not> py_ws c) w = w" "dropWhile (\<lambda>c. \<not> py_ws c) w = []"
    using assms by (auto simp: py_word_def)
  have e: "py_split [] = []" by (simp add: py_split.simps)
  have "w \<noteq> []" using assms by (simp add: py_word_def)
  then show ?thesis by (subst py_split.simps) (simp only: d t e Let_def, simp)
qed

lemma py_split_join_step:
  assumes "py_word w"
  shows "py_split (w @ 32 # rest) = w # py_split rest"
proof -
  have d: "dropWhile py_ws (w @ 32 # rest) = w @ 32 # rest"
    using assms by (cases w) (auto simp: py_word_def)
  have sp: "py_ws 32" by (simp add: py_ws_def)
  have t: "takeWhile (\<lambda>c. \<not> py_ws c) (w @ 32 # rest) = w"
    "dropWhile (\<lambda>c. \<not> py_ws c) (w @ 32 # rest) = 32 # rest"
    using assms sp by (auto simp: py_word_def takeWhile_append dropWhile_append)
  have "py_split (32 # rest) = py_split rest"
    using sp by (subst (1 2) py_split.simps) simp
  then show ?thesis by (subst py_split.simps) (simp only: d t Let_def, simp)
qed

lemma py_split_join:
  assumes "\<forall>w \<in> set ws. py_word w"
  shows "py_split (py_join (u '' '') ws) = ws"
  using assms
proof (induction "u '' ''" ws rule: py_join.induct)
  case 1
  then show ?case by (simp add: py_split.simps)
next
  case (2 w)
  then show ?case by (simp add: py_split_join_one)
next
  case (3 w v ws)
  then show ?case by (simp add: u_def py_split_join_step)
qed

lemma py_word_dec [simp]: "py_word (dec_nat n)"
  using dec_nat_no_ws by (auto simp: py_word_def)

lemma py_word_magic [simp]: "py_word (u ''LEANN_GT1'')"
  by (simp add: py_word_def u_def py_ws_def)

lemma py_join_chars:
  "c \<in> set (py_join sep ws) \<Longrightarrow> c \<in> set sep \<or> (\<exists>w \<in> set ws. c \<in> set w)"
  by (induction sep ws rule: py_join.induct) auto

lemma py_join_ne: "ws \<noteq> [] \<Longrightarrow> \<forall>w \<in> set ws. w \<noteq> [] \<Longrightarrow> py_join sep ws \<noteq> []"
  by (induction sep ws rule: py_join.induct) auto

text \<open>Decimal words of at most 4300 digits.\<close>

definition short_nat :: "nat \<Rightarrow> bool" where
  "short_nat n \<longleftrightarrow> length (dec_nat n) \<le> 4300"

lemma short_nat_bound: "n < 10 ^ 20 \<Longrightarrow> short_nat n"
  using length_dec_nat [of n 19] by (simp add: short_nat_def)

lemma ints_dec: "\<forall>i \<in> set ids. short_nat i \<Longrightarrow> ints (map dec_nat ids) = Some (map int ids)"
  by (induction ids) (auto simp: py_int_dec short_nat_def)

text \<open>What a well-formed table is: \<open>k\<close> distinct IDs of the corpus in every row.\<close>

definition truth_rows :: "nat \<Rightarrow> nat \<Rightarrow> nat list list \<Rightarrow> bool" where
  "truth_rows k n rows \<longleftrightarrow> (\<forall>r \<in> set rows. length r = k \<and> distinct r \<and> (\<forall>i \<in> set r. i < n))"

lemma map_nat_int: "map nat (map int r) = r"
  by (induction r) auto

lemma read_truth_row_ok:
  assumes "length r = k" and "distinct r" and "\<forall>i \<in> set r. i < n \<and> short_nat i"
  shows "read_truth_row k n (py_join (u '' '') (map dec_nat r)) = Inr r"
proof -
  have "py_split (py_join (u '' '') (map dec_nat r)) = map dec_nat r"
    by (rule py_split_join) auto
  moreover have "ints (map dec_nat r) = Some (map int r)" using assms(3) by (intro ints_dec) auto
  ultimately show ?thesis
    using assms map_nat_int [of r]
    by (auto simp: read_truth_row_def Let_def list_ex_iff distinct_map simp del: map_map)
qed

lemma read_truth_row_sound:
  "read_truth_row k n line = Inr r \<Longrightarrow> length r = k \<and> distinct r \<and> (\<forall>i \<in> set r. i < n)"
proof -
  have len: "ints fs = Some is \<Longrightarrow> length is = length fs" for fs "is"
    by (induction fs arbitrary: "is") (auto split: option.splits)
  assume "read_truth_row k n line = Inr r"
  then obtain ids where "ints (py_split line) = Some ids" "length (py_split line) = k"
      "distinct ids" "\<forall>i \<in> set ids. \<not> i < 0 \<and> \<not> int n \<le> i" "r = map nat ids"
    by (auto simp: read_truth_row_def ok_simps Let_def list_ex_iff split: option.splits)
  moreover from this have "inj_on nat (set ids)" by (intro inj_onI) (metis eq_nat_nat_iff not_le)
  ultimately show ?thesis using len by (auto simp: distinct_map nat_less_iff not_le not_less)
qed

text \<open>The reader on the writer's text.\<close>

lemma gt_text_chars:
  assumes "l \<in> set (py_join (u '' '') [u ''LEANN_GT1'', dec_nat a, dec_nat b, dec_nat c]
      # map (\<lambda>row. py_join (u '' '') (map dec_nat row)) rows)"
    and "\<forall>r \<in> set rows. r \<noteq> []"
  shows "l \<noteq> [] \<and> 10 \<notin> set l \<and> 13 \<notin> set l \<and> (\<forall>x \<in> set l. is_scalar x)"
proof -
  have dec: "32 \<le> x \<and> x < 256" if "x \<in> set (dec_nat n)" for x n
    using dec_nat_digits [OF that] by simp
  have magic: "32 \<le> x \<and> x < 256" if "x \<in> set (u ''LEANN_GT1'') \<or> x \<in> set (u '' '')" for x
    using that by (auto simp: u_def)
  have "\<forall>x \<in> set l. 32 \<le> x \<and> x < 256"
  proof
    fix x
    assume x: "x \<in> set l"
    from assms(1) have "\<exists>ws. l = py_join (u '' '') ws
        \<and> (\<forall>w \<in> set ws. w = u ''LEANN_GT1'' \<or> w \<in> range dec_nat)"
    proof (rule set_ConsD [THEN disjE])
      assume "l = py_join (u '' '') [u ''LEANN_GT1'', dec_nat a, dec_nat b, dec_nat c]"
      then show ?thesis by (intro exI conjI, assumption) auto
    next
      assume "l \<in> set (map (\<lambda>row. py_join (u '' '') (map dec_nat row)) rows)"
      then obtain row where "l = py_join (u '' '') (map dec_nat row)" by auto
      then show ?thesis by (intro exI conjI, assumption) auto
    qed
    then obtain ws where l: "l = py_join (u '' '') ws"
      and ws: "\<forall>w \<in> set ws. w = u ''LEANN_GT1'' \<or> w \<in> range dec_nat" by blast
    from py_join_chars [OF x [unfolded l]] show "32 \<le> x \<and> x < 256"
    proof
      assume "\<exists>w \<in> set ws. x \<in> set w"
      then obtain w where "w \<in> set ws" "x \<in> set w" by blast
      with ws dec magic show ?thesis by (metis imageE)
    qed (use magic in blast)
  qed
  then have "10 \<notin> set l" "13 \<notin> set l" "\<forall>x \<in> set l. is_scalar x"
    by (fastforce simp: is_scalar_def)+
  moreover have "l \<noteq> []"
  proof (rule set_ConsD [OF assms(1), THEN disjE])
    assume "l \<in> set (map (\<lambda>row. py_join (u '' '') (map dec_nat row)) rows)"
    then obtain row where "row \<in> set rows" "l = py_join (u '' '') (map dec_nat row)" by auto
    then show ?thesis using assms(2) by (simp add: py_join_ne)
  qed simp
  ultimately show ?thesis by blast
qed

lemma gt_text_eq:
  "gt_header q k n @ gt_payload rows = utf8_bytes (concat (map (\<lambda>l. l @ [10])
     (py_join (u '' '') [u ''LEANN_GT1'', dec_nat q, dec_nat k, dec_nat n]
       # map (\<lambda>row. py_join (u '' '') (map dec_nat row)) rows)))"
  by (simp add: gt_header_def gt_payload_def comp_def)

lemma gt_lines:
  assumes "\<forall>r \<in> set rows. r \<noteq> []"
  shows "iter_nonempty_lines (gt_header q k n @ gt_payload rows)
    = Inr (py_join (u '' '') [u ''LEANN_GT1'', dec_nat q, dec_nat k, dec_nat n]
        # map (\<lambda>row. py_join (u '' '') (map dec_nat row)) rows)"
  unfolding gt_text_eq by (rule iter_nonempty_lines_unlines) (use gt_text_chars assms in blast)

lemma py_int_short [simp]: "short_nat n \<Longrightarrow> py_int (dec_nat n) = Some (int n)"
  by (simp add: short_nat_def py_int_dec)

lemma read_written_truth:
  assumes rows: "truth_rows k n rows" and pos: "0 < k" "k \<le> n" "rows \<noteq> []"
    and short: "n < 10 ^ 20" "length rows < 10 ^ 20"
    and exp: "eq \<in> {None, Some (length rows)}" "ek \<in> {None, Some k}" "ec \<in> {None, Some n}"
  shows "read_ground_truth h path eq ek ec (gt_header (length rows) k n @ gt_payload rows)
    = Inr (rows, \<lparr>tm_path = path, tm_queries = length rows, tm_k = k, tm_corpus = n,
        tm_size = length (gt_header (length rows) k n @ gt_payload rows),
        tm_sha = sha_hex h (gt_header (length rows) k n @ gt_payload rows)\<rparr>)"
proof -
  have ne: "\<forall>r \<in> set rows. r \<noteq> []" using rows pos(1) by (auto simp: truth_rows_def)
  have sn: "short_nat i" if "i \<le> n" for i using that short(1) by (intro short_nat_bound) simp
  have hd: "py_split (py_join (u '' '') [u ''LEANN_GT1'', dec_nat (length rows), dec_nat k, dec_nat n])
      = [u ''LEANN_GT1'', dec_nat (length rows), dec_nat k, dec_nat n]"
    by (rule py_split_join) auto
  have q: "short_nat (length rows)" using short(2) by (rule short_nat_bound)
  have rr: "map_res (read_truth_row k n) (map (\<lambda>row. py_join (u '' '') (map dec_nat row)) rows) = Inr rows"
  proof -
    have "read_truth_row k n (py_join (u '' '') (map dec_nat r)) = Inr r" if "r \<in> set rows" for r
      using rows that sn by (intro read_truth_row_ok) (auto simp: truth_rows_def less_imp_le)
    then show ?thesis by (simp add: map_res_ok_iff)
  qed
  have el: "expect eq (length rows) a = Inr ()" "expect ek k b = Inr ()" "expect ec n c = Inr ()"
    for a b c using exp by auto
  show ?thesis
    using pos by (simp add: read_ground_truth_def gt_lines [OF ne] hd q sn rr el del: py_join.simps)
qed

lemma read_ground_truth_sound:
  assumes "read_ground_truth h path eq ek ec content = Inr (truth, m)"
  shows "truth_rows (tm_k m) (tm_corpus m) truth \<and> length truth = tm_queries m
    \<and> 0 < tm_k m \<and> tm_k m \<le> tm_corpus m \<and> 0 < tm_queries m
    \<and> eq \<in> {None, Some (tm_queries m)} \<and> ek \<in> {None, Some (tm_k m)}
    \<and> ec \<in> {None, Some (tm_corpus m)}
    \<and> tm_size m = length content \<and> tm_sha m = sha_hex h content \<and> tm_path m = path"
proof -
  obtain rest a b c where r: "map_res (read_truth_row (nat b) (nat c)) rest = Inr truth"
      "int (length rest) = a" "0 < a" "0 < b" "b \<le> c"
    and m: "m = \<lparr>tm_path = path, tm_queries = nat a, tm_k = nat b, tm_corpus = nat c,
        tm_size = length content, tm_sha = sha_hex h content\<rparr>"
    and e: "eq = None \<or> eq = Some (nat a)" "ek = None \<or> ek = Some (nat b)"
      "ec = None \<or> ec = Some (nat c)"
    using assms unfolding read_ground_truth_def
    by (auto simp: ok_simps not_le not_less)
  have "truth_rows (nat b) (nat c) truth"
    using map_res_set [OF r(1)] read_truth_row_sound unfolding truth_rows_def by blast
  moreover have "length truth = nat a" using map_res_length [OF r(1)] r(2) by simp
  ultimately show ?thesis using r(3,4,5) e by (simp add: m)
qed

subsection \<open>Properties\<close>



text \<open>The reader accepts only well-formed tables: an accepted file has the stated number of
  rows, every row has exactly \<open>k\<close> pairwise distinct IDs of the corpus with \<open>k\<close> no larger than the
  corpus, every expectation that was given is met, and the recorded size and digest are the
  file's.\<close>

theorem ground_truth_accepts_only_tables:
  assumes "read_ground_truth h path eq ek ec content = Inr (truth, m)"
  shows "truth_rows (tm_k m) (tm_corpus m) truth \<and> length truth = tm_queries m
    \<and> 0 < tm_k m \<and> tm_k m \<le> tm_corpus m \<and> 0 < tm_queries m
    \<and> eq \<in> {None, Some (tm_queries m)} \<and> ek \<in> {None, Some (tm_k m)}
    \<and> ec \<in> {None, Some (tm_corpus m)}
    \<and> tm_size m = length content \<and> tm_sha m = sha_hex h content \<and> tm_path m = path"
  by (rule read_ground_truth_sound [OF assms])

theorem ground_truth_accepts_only_tables_witness:
  "\<forall>h path. \<exists>truth m. read_ground_truth h path None (Some 2) None
      (gt_header 1 2 11 @ gt_payload [[10, 3]]) = Inr (truth, m)
    \<and> truth_rows (tm_k m) (tm_corpus m) truth \<and> tm_k m = 2"
proof (intro allI)
  fix h path
  have "truth_rows 2 11 [[10, 3]]" by (simp add: truth_rows_def)
  from read_written_truth [OF this, of None "Some 2" None h path] obtain m where
    r: "read_ground_truth h path None (Some 2) None (gt_header 1 2 11 @ gt_payload [[10, 3]])
        = Inr ([[10, 3]], m)" "tm_k m = 2" by auto
  from r ground_truth_accepts_only_tables [OF r(1)]
  show "\<exists>truth m. read_ground_truth h path None (Some 2) None
      (gt_header 1 2 11 @ gt_payload [[10, 3]]) = Inr (truth, m)
    \<and> truth_rows (tm_k m) (tm_corpus m) truth \<and> tm_k m = 2" by auto
qed

end
