(* ===== verification/VectorCache.thy ===== *)
theory VectorCache
  imports LineFiles
begin

text \<open>
  The embedding cache format of \<open>benchmark_cache.py\<close>: the \<open>LEANNBC1\<close>/\<open>LEANNBC2\<close> headers
  (\<open>struct\<close> little-endian fields), the structural validation of \<open>read_cache\<close>, the vector checks,
  the binding of a cache to its source file, and the writer. A matrix is the list of its rows,
  a row the bytes of its float32 components; what NumPy computes of a row (finiteness, Euclidean
  norm, the error of the norm, the row divided by its norm) are the fields of \<open>numerics\<close>.
  The lemmas give the round trip of the format and, conversely, that whatever \<open>read_cache\<close>
  accepts is byte for byte one header followed by its rows.
\<close>

record numerics =
  row_finite :: "bytes \<Rightarrow> bool"
  row_norm :: "bytes \<Rightarrow> pyfloat"
  row_unit_error :: "bytes \<Rightarrow> pyfloat"
  row_scaled :: "bytes \<Rightarrow> bytes"

subsection \<open>Little-endian fields\<close>

fun le_encode :: "nat \<Rightarrow> nat \<Rightarrow> bytes" where
  "le_encode 0 n = []"
| "le_encode (Suc k) n = byte_of n # le_encode k (n div 256)"

fun le_decode :: "bytes \<Rightarrow> nat" where
  "le_decode [] = 0"
| "le_decode (b # bs) = unat b + 256 * le_decode bs"

definition pack_uint :: "nat \<Rightarrow> int \<Rightarrow> bytes res" where
  "pack_uint k n = (if 0 \<le> n \<and> n < 256 ^ k then Inr (le_encode k (nat n))
     else Inl (StructError ''format requires an unsigned value in range''))"

lemma length_le_encode [simp]: "length (le_encode k n) = k"
  by (induction k n rule: le_encode.induct) auto

lemma le_decode_encode: "n < 256 ^ k \<Longrightarrow> le_decode (le_encode k n) = n"
  by (induction k n rule: le_encode.induct) (auto simp: less_mult_imp_div_less mult.commute)

lemma le_encode_decode: "length bs = k \<Longrightarrow> le_encode k (le_decode bs) = bs"
proof (induction bs arbitrary: k)
  case (Cons b bs)
  have "unat b = (unat b + 256 * le_decode bs) mod 256" by (simp add: mod_less)
  then have "byte_of (unat b + 256 * le_decode bs) = b" by (rule byte_of_eqI)
  moreover have "(unat b + 256 * le_decode bs) div 256 = le_decode bs" by simp
  ultimately show ?case using Cons by auto
qed simp

lemma le_decode_bound: "le_decode bs < 256 ^ length bs"
proof (induction bs)
  case (Cons b bs)
  then have "unat b + 256 * le_decode bs < 256 * Suc (le_decode bs)"
    using unat_byte_less [of b] by simp
  also have "\<dots> \<le> 256 * 256 ^ length bs" using Cons by (simp add: Suc_le_eq)
  finally show ?case by simp
qed simp

subsection \<open>Headers\<close>

definition magic_v1 :: bytes where "magic_v1 = map byte_of (u ''LEANNBC1'')"
definition magic_v2 :: bytes where "magic_v2 = map byte_of (u ''LEANNBC2'')"

definition max_fingerprint_bytes :: nat where
  "max_fingerprint_bytes = 16 * 1024 * 1024"

lemma magic_simps [simp]: "length magic_v1 = 8" "length magic_v2 = 8" "magic_v1 \<noteq> magic_v2"
proof -
  have "map unat magic_v1 \<noteq> map unat magic_v2"
    by (simp add: magic_v1_def magic_v2_def u_def)
  then show "magic_v1 \<noteq> magic_v2" by auto
qed (simp_all add: magic_v1_def magic_v2_def)

record cache_head =
  ch_version :: nat
  ch_dimension :: nat
  ch_count :: nat
  ch_fingerprint_size :: nat
  ch_source :: "(nat \<times> pystr) option"
  ch_fixed :: nat

text \<open>The fixed part: \<open>"<8sIQI"\<close> (24 bytes) or \<open>"<8sIQIQ32s"\<close> (64 bytes).\<close>

definition read_fixed :: "bytes \<Rightarrow> cache_head res" where
  "read_fixed content =
     (let magic = take 8 content in
      if magic = magic_v1 then
        (let f = take 24 content in
         if length f \<noteq> 24 then Inl (ValueError ''truncated V1 cache header'')
         else Inr \<lparr>ch_version = 1, ch_dimension = le_decode (take 4 (drop 8 f)),
                ch_count = le_decode (take 8 (drop 12 f)),
                ch_fingerprint_size = le_decode (take 4 (drop 20 f)),
                ch_source = None, ch_fixed = 24\<rparr>)
      else if magic = magic_v2 then
        (let f = take 64 content in
         if length f \<noteq> 64 then Inl (ValueError ''truncated V2 cache header'')
         else Inr \<lparr>ch_version = 2, ch_dimension = le_decode (take 4 (drop 8 f)),
                ch_count = le_decode (take 8 (drop 12 f)),
                ch_fingerprint_size = le_decode (take 4 (drop 20 f)),
                ch_source = Some (le_decode (take 8 (drop 24 f)), to_hex (drop 32 f)),
                ch_fixed = 64\<rparr>)
      else Inl (ValueError ''unexpected cache magic''))"

definition decode_fingerprint :: "bytes \<Rightarrow> pystr res" where
  "decode_fingerprint raw =
     (case utf8_decode raw of Inl e \<Rightarrow> Inl (ValueError ''cache fingerprint is not UTF-8'') | Inr s \<Rightarrow> Inr s)"

subsection \<open>Vector checks\<close>

definition float32_tiny :: pyfloat where
  "float32_tiny = Fin (pow2 (- 126))"

definition validate_block :: "numerics \<Rightarrow> bool \<Rightarrow> pyfloat \<Rightarrow> bytes list \<Rightarrow> unit res" where
  "validate_block np require_unit tolerance block =
     (if \<not> list_all (row_finite np) block then Inl (ValueError ''NaN or infinity in rows at/after'')
      else if list_ex (\<lambda>r. fl_le (row_norm np r) float32_tiny) block
        then Inl (ValueError ''zero-length vector at/after row'')
      else if require_unit \<and> list_ex (\<lambda>r. fl_lt tolerance (row_unit_error np r)) block
        then Inl (ValueError ''vectors are not normalized'')
      else Inr ())"

definition validate_vector_matrix ::
  "numerics \<Rightarrow> bool \<Rightarrow> int \<Rightarrow> pyfloat \<Rightarrow> nat \<Rightarrow> bytes list \<Rightarrow> unit res" where
  "validate_vector_matrix np require_unit block_rows tolerance width vectors =
     (if vectors = [] \<or> width = 0 then Inl (ValueError ''expected a non-empty rank-2 matrix'')
      else if block_rows \<le> 0 then Inl (ValueError ''block_rows must be positive'')
      else fold_res (\<lambda>_. validate_block np require_unit tolerance) ()
             (chunks (nat block_rows - 1) vectors))"

definition good_row :: "numerics \<Rightarrow> bool \<Rightarrow> pyfloat \<Rightarrow> bytes \<Rightarrow> bool" where
  "good_row np require_unit tolerance r \<longleftrightarrow>
     row_finite np r \<and> \<not> fl_le (row_norm np r) float32_tiny
     \<and> (require_unit \<longrightarrow> \<not> fl_lt tolerance (row_unit_error np r))"

lemma validate_block_ok:
  "validate_block np ru tol block = Inr () \<longleftrightarrow> list_all (good_row np ru tol) block"
  by (auto simp: validate_block_def good_row_def list_all_iff list_ex_iff)

lemma validate_blocks_ok:
  "fold_res (\<lambda>_. validate_block np ru tol) () blocks = Inr ()
     \<longleftrightarrow> list_all (good_row np ru tol) (concat blocks)"
proof (induction blocks)
  case (Cons b bs)
  show ?case
    using Cons validate_block_ok [of np ru tol b]
    by (cases "validate_block np ru tol b") auto
qed simp

lemma validate_vector_matrix_ok:
  "validate_vector_matrix np ru k tol width vectors = Inr x \<longleftrightarrow>
     vectors \<noteq> [] \<and> width \<noteq> 0 \<and> 0 < k \<and> list_all (good_row np ru tol) vectors"
  by (auto simp: validate_vector_matrix_def validate_blocks_ok)

subsection \<open>Reading\<close>

record cache_meta =
  cm_version :: nat
  cm_path :: pystr
  cm_count :: nat
  cm_dimensions :: nat
  cm_fingerprint :: pystr
  cm_fingerprint_sha :: pystr
  cm_vector_offset :: nat
  cm_vector_bytes :: nat
  cm_size :: nat
  cm_source :: "(nat \<times> pystr) option"

text \<open>The memory map of \<open>count\<close> rows of \<open>width\<close> bytes.\<close>

definition rows_of :: "nat \<Rightarrow> bytes \<Rightarrow> bytes list" where
  "rows_of width payload = chunks (width - 1) payload"

definition read_cache ::
  "host \<Rightarrow> numerics \<Rightarrow> pystr \<Rightarrow> bool \<Rightarrow> bool option \<Rightarrow> int \<Rightarrow> bytes
     \<Rightarrow> (bytes list \<times> cache_meta) res" where
  "read_cache h np path validate_vectors require_unit validation_rows content =
     (case read_fixed content of Inl e \<Rightarrow> Inl e | Inr hdr \<Rightarrow>
      if ch_dimension hdr = 0 \<or> ch_count hdr = 0
        then Inl (ValueError ''cache dimension/count must be positive'')
      else if max_fingerprint_bytes < ch_fingerprint_size hdr
        then Inl (ValueError ''unreasonable fingerprint length'')
      else let raw = take (ch_fingerprint_size hdr) (drop (ch_fixed hdr) content) in
      if length raw \<noteq> ch_fingerprint_size hdr then Inl (ValueError ''truncated cache fingerprint'')
      else case decode_fingerprint raw of Inl e \<Rightarrow> Inl e | Inr fingerprint \<Rightarrow>
      let vector_offset = ch_fixed hdr + ch_fingerprint_size hdr;
          vector_bytes = ch_count hdr * ch_dimension hdr * 4 in
      if length content \<noteq> vector_offset + vector_bytes then Inl (ValueError ''cache length mismatch'')
      else let vectors = rows_of (4 * ch_dimension hdr) (drop vector_offset content);
               unit = (case require_unit of None \<Rightarrow> ch_version hdr = 2 | Some b \<Rightarrow> b) in
      case (if validate_vectors
            then validate_vector_matrix np unit validation_rows (fl_lit 2 3) (ch_dimension hdr) vectors
            else Inr ()) of Inl e \<Rightarrow> Inl e | Inr _ \<Rightarrow>
      Inr (vectors,
           \<lparr>cm_version = ch_version hdr, cm_path = path, cm_count = ch_count hdr,
            cm_dimensions = ch_dimension hdr, cm_fingerprint = fingerprint,
            cm_fingerprint_sha = sha_hex h raw, cm_vector_offset = vector_offset,
            cm_vector_bytes = vector_bytes, cm_size = length content,
            cm_source = ch_source hdr\<rparr>))"

definition read_cache_default :: "host \<Rightarrow> numerics \<Rightarrow> fsys \<Rightarrow> pystr \<Rightarrow> (bytes list \<times> cache_meta) res" where
  "read_cache_default h np fs path =
     (case open_rb fs path of Inl e \<Rightarrow> Inl e | Inr content \<Rightarrow>
      read_cache h np (fs_resolve fs path) True None 8192 content)"

definition validate_cache_source ::
  "host \<Rightarrow> fsys \<Rightarrow> cache_meta \<Rightarrow> pystr \<Rightarrow> nat option \<Rightarrow> bool \<Rightarrow> source_id res" where
  "validate_cache_source h fs meta source_path expected_count require_integrity =
     (case source_identity h fs source_path of Inl e \<Rightarrow> Inl e | Inr identity \<Rightarrow>
      let expected = (case expected_count of None \<Rightarrow> si_lines identity | Some n \<Rightarrow> n) in
      if cm_count meta \<noteq> expected then Inl (ValueError ''cache/source count mismatch'')
      else case cm_source meta of
        Some (nbytes, sha) \<Rightarrow>
          if nbytes \<noteq> si_size identity then Inl (ValueError ''V2 cache/source byte-size mismatch'')
          else if sha \<noteq> si_sha identity then Inl (ValueError ''V2 cache/source SHA-256 mismatch'')
          else Inr identity
      | None \<Rightarrow>
          if require_integrity
          then Inl (ValueError ''legacy V1 cache is not bound to the source file'')
          else Inr identity)"

subsection \<open>Writing\<close>

definition hex_val :: "nat \<Rightarrow> nat option" where
  "hex_val c =
     (if 48 \<le> c \<and> c \<le> 57 then Some (c - 48)
      else if 97 \<le> c \<and> c \<le> 102 then Some (c - 87)
      else if 65 \<le> c \<and> c \<le> 70 then Some (c - 55) else None)"

text \<open>\<open>bytes.fromhex\<close>: pairs of digits, ASCII whitespace between pairs skipped.\<close>

fun fromhex :: "pystr \<Rightarrow> bytes option" where
  "fromhex [] = Some []"
| "fromhex (c # cs) =
     (if (9 \<le> c \<and> c \<le> 13) \<or> c = 32 then fromhex cs
      else case cs of
        [] \<Rightarrow> None
      | d # ds \<Rightarrow>
          (case (hex_val c, hex_val d) of
             (Some a, Some b) \<Rightarrow> map_option (Cons (byte_of (16 * a + b))) (fromhex ds)
           | _ \<Rightarrow> None))"

definition cache_v2_header :: "int \<Rightarrow> int \<Rightarrow> pystr \<Rightarrow> int \<Rightarrow> pystr \<Rightarrow> bytes res" where
  "cache_v2_header dimension count fingerprint source_size_bytes source_sha256 =
     (case utf8_encode fingerprint of Inl e \<Rightarrow> Inl e | Inr raw \<Rightarrow>
      if dimension \<le> 0 \<or> count \<le> 0 \<or> raw = [] \<or> max_fingerprint_bytes < length raw
        then Inl (ValueError ''invalid V2 cache header values'')
      else case fromhex source_sha256 of
        None \<Rightarrow> Inl (ValueError ''source_sha256 is not hexadecimal'')
      | Some digest \<Rightarrow>
      if length digest \<noteq> 32 \<or> source_size_bytes < 0
        then Inl (ValueError ''invalid V2 source identity'')
      else case pack_uint 4 dimension of Inl e \<Rightarrow> Inl e | Inr d \<Rightarrow>
           case pack_uint 8 count of Inl e \<Rightarrow> Inl e | Inr c \<Rightarrow>
           case pack_uint 4 (int (length raw)) of Inl e \<Rightarrow> Inl e | Inr f \<Rightarrow>
           case pack_uint 8 source_size_bytes of Inl e \<Rightarrow> Inl e | Inr s \<Rightarrow>
           Inr (magic_v2 @ d @ c @ f @ s @ digest @ raw))"

definition normalize_vectors :: "numerics \<Rightarrow> nat \<Rightarrow> bytes list \<Rightarrow> bytes list res" where
  "normalize_vectors np width matrix =
     (if matrix = [] \<or> width = 0
        then Inl (ValueError ''embedding response must be a non-empty rank-2 matrix'')
      else if \<not> list_all (row_finite np) matrix
        then Inl (ValueError ''embedding response contains NaN or infinity'')
      else if list_ex (\<lambda>r. fl_le (row_norm np r) float32_tiny) matrix
        then Inl (ValueError ''embedding response contains a zero-length vector'')
      else let scaled = map (row_scaled np) matrix in
        case validate_vector_matrix np True 8192 (fl_lit 2 3) width scaled of
          Inl e \<Rightarrow> Inl e | Inr _ \<Rightarrow> Inr scaled)"

definition fs_write :: "fsys \<Rightarrow> pystr \<Rightarrow> bytes \<Rightarrow> fsys" where
  "fs_write fs p content = fs\<lparr>fs_file := (fs_file fs)(p \<mapsto> content)\<rparr>"

text \<open>The metadata returned carries the digest of the written file besides \<open>read_cache\<close>'s fields.\<close>

definition write_cache_v2 ::
  "host \<Rightarrow> numerics \<Rightarrow> fsys \<Rightarrow> pystr \<Rightarrow> nat \<Rightarrow> bytes list \<Rightarrow> pystr \<Rightarrow> pystr
     \<Rightarrow> (fsys \<times> cache_meta \<times> pystr) res" where
  "write_cache_v2 h np fs path width vectors fingerprint source_path =
     (case normalize_vectors np width vectors of Inl e \<Rightarrow> Inl e | Inr normalized \<Rightarrow>
      case source_identity h fs source_path of Inl e \<Rightarrow> Inl e | Inr identity \<Rightarrow>
      if length normalized \<noteq> si_lines identity then Inl (ValueError ''vector/source count mismatch'')
      else case cache_v2_header (int width) (int (length normalized)) fingerprint
                  (int (si_size identity)) (si_sha identity) of Inl e \<Rightarrow> Inl e | Inr header \<Rightarrow>
      let target = fs_resolve fs path;
          fs' = fs_write fs target (header @ concat normalized) in
      case read_cache h np target True None 8192 (header @ concat normalized) of
        Inl e \<Rightarrow> Inl e | Inr (_, meta) \<Rightarrow>
      Inr (fs', meta, sha_hex h (header @ concat normalized)))"


subsection \<open>The format\<close>

lemma chunks_concat_rows:
  assumes "\<forall>r \<in> set rows. length r = Suc k"
  shows "chunks k (concat rows) = rows"
  using assms
proof (induction rows)
  case (Cons r rows)
  then have "concat (r # rows) \<noteq> []" by auto
  from chunks_nonempty [OF this, of k] show ?case using Cons by simp
qed simp

lemma chunks_exact:
  assumes "length xs = n * Suc k"
  shows "length (chunks k xs) = n \<and> (\<forall>c \<in> set (chunks k xs). length c = Suc k)"
  using assms
proof (induction n arbitrary: xs)
  case (Suc n)
  then have ne: "xs \<noteq> []" by auto
  have "length (drop (Suc k) xs) = n * Suc k" using Suc.prems by simp
  then show ?case using Suc.IH [of "drop (Suc k) xs"] Suc.prems by (simp add: chunks_nonempty [OF ne])
qed simp

lemma rows_of_concat:
  "0 < width \<Longrightarrow> \<forall>r \<in> set rows. length r = width \<Longrightarrow> rows_of width (concat rows) = rows"
  unfolding rows_of_def by (intro chunks_concat_rows) simp

lemma rows_of_exact:
  assumes "0 < width" and "length payload = n * width"
  shows "length (rows_of width payload) = n" "\<forall>r \<in> set (rows_of width payload). length r = width"
    "concat (rows_of width payload) = payload"
  using chunks_exact [of payload n "width - 1"] assms by (auto simp: rows_of_def)

text \<open>The bytes of a version 2 file: one header, then the rows.\<close>

definition v2_header_bytes :: "nat \<Rightarrow> nat \<Rightarrow> bytes \<Rightarrow> nat \<Rightarrow> bytes \<Rightarrow> bytes" where
  "v2_header_bytes dm count raw nbytes digest =
     magic_v2 @ le_encode 4 dm @ le_encode 8 count @ le_encode 4 (length raw) @ le_encode 8 nbytes
       @ digest @ raw"

lemma length_v2_header [simp]:
  "length digest = 32 \<Longrightarrow> length (v2_header_bytes dm count raw nbytes digest) = 64 + length raw"
  by (simp add: v2_header_bytes_def)

lemma read_fixed_v2:
  assumes "length digest = 32" and "dm < 256 ^ 4" and "count < 256 ^ 8" and "length raw < 256 ^ 4"
    and "nbytes < 256 ^ 8"
  shows "read_fixed (v2_header_bytes dm count raw nbytes digest @ payload)
    = Inr \<lparr>ch_version = 2, ch_dimension = dm, ch_count = count, ch_fingerprint_size = length raw,
        ch_source = Some (nbytes, to_hex digest), ch_fixed = 64\<rparr>"
  using assms magic_simps(3) [symmetric]
  by (simp add: read_fixed_def v2_header_bytes_def le_decode_encode)

lemma split_v2_fields:
  "xs = take 8 xs @ take 4 (drop 8 xs) @ take 8 (drop 12 xs) @ take 4 (drop 20 xs)
      @ take 8 (drop 24 xs) @ drop 32 xs"
proof -
  have "drop i xs = take k (drop i xs) @ drop (i + k) xs" for i k
    by (metis add.commute append_take_drop_id drop_drop)
  from this [of 8 4] this [of 12 8] this [of 20 4] this [of 24 8] show ?thesis
    using append_take_drop_id [of 8 xs] by simp
qed

lemma read_fixed_v2_sound:
  assumes "read_fixed content = Inr hdr" and "ch_version hdr = 2"
  obtains digest where "length digest = 32" "ch_fixed hdr = 64" "64 \<le> length content"
    and "ch_source hdr = Some (le_decode (take 8 (drop 24 content)), to_hex digest)"
    and "take 64 content = magic_v2 @ le_encode 4 (ch_dimension hdr) @ le_encode 8 (ch_count hdr)
        @ le_encode 4 (ch_fingerprint_size hdr) @ le_encode 8 (le_decode (take 8 (drop 24 content)))
        @ digest"
proof -
  have magic: "take 8 content = magic_v2" and len: "64 \<le> length content"
    using assms by (auto simp: read_fixed_def Let_def split: if_splits)
  then have h: "ch_dimension hdr = le_decode (take 4 (drop 8 content))"
      "ch_count hdr = le_decode (take 8 (drop 12 content))"
      "ch_fingerprint_size hdr = le_decode (take 4 (drop 20 content))"
      "ch_source hdr = Some (le_decode (take 8 (drop 24 content)), to_hex (drop 32 (take 64 content)))"
      "ch_fixed hdr = 64"
    using assms(1) magic_simps(3) by (auto simp: read_fixed_def Let_def drop_take split: if_splits)
  let ?c = "take 64 content"
  note split_v2_fields [of ?c]
  then have "?c = magic_v2 @ le_encode 4 (ch_dimension hdr) @ le_encode 8 (ch_count hdr)
        @ le_encode 4 (ch_fingerprint_size hdr) @ le_encode 8 (le_decode (take 8 (drop 24 content)))
        @ drop 32 ?c"
    using len by (simp add: h magic le_encode_decode take_drop min_def)
  moreover have "length (drop 32 ?c) = 32" using len by simp
  ultimately show thesis using that h(4,5) len by blast
qed

lemma hex_val_char: "d < 16 \<Longrightarrow> hex_val (hex_char d) = Some d"
  by (simp add: hex_val_def hex_char_def)

lemma hex_char_no_ws: "d < 16 \<Longrightarrow> 48 \<le> hex_char d"
  by (simp add: hex_char_def)

lemma fromhex_to_hex [simp]: "fromhex (to_hex bs) = Some bs"
proof (induction bs)
  case (Cons b bs)
  let ?h = "unat b div 16" and ?l = "unat b mod 16"
  have hl: "?h < 16" "?l < 16" using unat_byte_less [of b] by linarith+
  have "byte_of (16 * ?h + ?l) = b" by simp
  then show ?case
    using Cons hex_val_char [OF hl(1)] hex_val_char [OF hl(2)] hex_char_no_ws [OF hl(1)]
    by (auto simp: to_hex_def)
qed (simp add: to_hex_def)

lemma to_hex_inj [simp]: "to_hex a = to_hex b \<longleftrightarrow> a = b"
  by (metis fromhex_to_hex option.inject)

lemma cache_v2_header_ok:
  assumes "cache_v2_header (int d) (int n) fp (int nbytes) (to_hex digest) = Inr header"
  obtains raw where "utf8_encode fp = Inr raw" "0 < d" "0 < n" "raw \<noteq> []" "length digest = 32"
    and "length raw \<le> max_fingerprint_bytes"
    and "d < 256 ^ 4" "n < 256 ^ 8" "length raw < 256 ^ 4" "nbytes < 256 ^ 8"
    and "header = v2_header_bytes d n raw nbytes digest"
  using assms unfolding cache_v2_header_def v2_header_bytes_def
  by (auto simp: ok_simps pack_uint_def)

lemma read_cache_of_header:
  assumes header: "cache_v2_header (int d) (int n) fp (int nbytes) (to_hex digest) = Inr header"
    and rows: "length rows = n" "\<forall>r \<in> set rows. length r = 4 * d"
      "list_all (good_row np True (fl_lit 2 3)) rows"
  shows "read_cache h np path True None 8192 (header @ concat rows) =
    Inr (rows, \<lparr>cm_version = 2, cm_path = path, cm_count = n, cm_dimensions = d,
      cm_fingerprint = fp, cm_fingerprint_sha = sha_hex h (utf8_bytes fp),
      cm_vector_offset = length header, cm_vector_bytes = n * d * 4,
      cm_size = length header + n * d * 4, cm_source = Some (nbytes, to_hex digest)\<rparr>)"
proof -
  obtain raw where raw: "utf8_encode fp = Inr raw" "0 < d" "0 < n" "length digest = 32"
      "length raw \<le> max_fingerprint_bytes"
      "d < 256 ^ 4" "n < 256 ^ 8" "length raw < 256 ^ 4" "nbytes < 256 ^ 8"
      "header = v2_header_bytes d n raw nbytes digest"
    using header by (rule cache_v2_header_ok) blast
  have len: "length header = 64 + length raw" using raw by simp
  have enc: "raw = utf8_bytes fp" using raw(1) by (auto simp: utf8_encode_def split: if_splits)
  have dh: "drop 64 header = raw"
    using raw(4,10) by (simp add: v2_header_bytes_def)
  have dec: "decode_fingerprint raw = Inr fp"
    using utf8_decode_encode [OF raw(1)] by (simp add: decode_fingerprint_def)
  have total: "length (concat rows) = n * d * 4"
    using rows(1,2) by (induction rows arbitrary: n) (auto simp: algebra_simps)
  have v: "rows_of (4 * d) (concat rows) = rows"
    using rows(2) raw(2) by (simp add: rows_of_concat)
  have ok: "validate_vector_matrix np True 8192 (fl_lit 2 3) d rows = Inr ()"
    using rows raw(2,3) by (auto simp: validate_vector_matrix_ok)
  note fixed = read_fixed_v2 [OF raw(4,6,7,8,9), of "concat rows", folded raw(10)]
  show ?thesis
    using raw(2,3,5) len total
    by (simp add: read_cache_def fixed dh dec v ok Let_def enc [symmetric])
qed

lemma read_cache_v2_parts:
  assumes ok: "read_cache h np path vv ru k content = Inr (rows, meta)" and v2: "cm_version meta = 2"
  shows "\<exists>raw digest nbytes.
      content = v2_header_bytes (cm_dimensions meta) (cm_count meta) raw nbytes digest @ concat rows
    \<and> utf8_encode (cm_fingerprint meta) = Inr raw \<and> length digest = 32
    \<and> cm_source meta = Some (nbytes, to_hex digest)
    \<and> length rows = cm_count meta \<and> (\<forall>r \<in> set rows. length r = 4 * cm_dimensions meta)"
proof -
  obtain hdr fp where hdr: "read_fixed content = Inr hdr" "0 < ch_dimension hdr"
      "decode_fingerprint (take (ch_fingerprint_size hdr) (drop (ch_fixed hdr) content)) = Inr fp"
      "length (take (ch_fingerprint_size hdr) (drop (ch_fixed hdr) content)) = ch_fingerprint_size hdr"
      "length content = ch_fixed hdr + ch_fingerprint_size hdr + ch_count hdr * ch_dimension hdr * 4"
      "rows = rows_of (4 * ch_dimension hdr) (drop (ch_fixed hdr + ch_fingerprint_size hdr) content)"
    and meta: "cm_version meta = ch_version hdr" "cm_count meta = ch_count hdr"
      "cm_dimensions meta = ch_dimension hdr" "cm_fingerprint meta = fp" "cm_source meta = ch_source hdr"
    using ok unfolding read_cache_def by (auto simp: ok_simps Let_def)
  obtain digest where d: "length digest = 32" "ch_fixed hdr = 64" "64 \<le> length content"
      "ch_source hdr = Some (le_decode (take 8 (drop 24 content)), to_hex digest)"
      "take 64 content = magic_v2 @ le_encode 4 (ch_dimension hdr) @ le_encode 8 (ch_count hdr)
        @ le_encode 4 (ch_fingerprint_size hdr) @ le_encode 8 (le_decode (take 8 (drop 24 content)))
        @ digest"
    using read_fixed_v2_sound [OF hdr(1)] v2 meta(1) by metis
  define raw where "raw = take (ch_fingerprint_size hdr) (drop 64 content)"
  have raw: "length raw = ch_fingerprint_size hdr" "utf8_encode fp = Inr raw"
    using hdr(3,4) utf8_encode_decode [of raw fp]
    by (auto simp: raw_def d(2) decode_fingerprint_def split: sum.splits)
  define P where "P = drop (64 + length raw) content"
  define nb where "nb = le_decode (take 8 (drop 24 content))"
  have payload: "length P = ch_count hdr * (4 * ch_dimension hdr)"
    using hdr(5) by (simp add: d(2) raw(1) P_def)
  have rows: "rows = rows_of (4 * ch_dimension hdr) P"
    by (simp add: hdr(6) d(2) raw(1) P_def)
  have "content = take 64 content @ raw @ P"
    unfolding P_def by (metis append_take_drop_id add.commute drop_drop raw(1) raw_def)
  also have "\<dots> = v2_header_bytes (ch_dimension hdr) (ch_count hdr) raw nb digest @ P"
    by (simp only: d(5) v2_header_bytes_def raw(1) append.assoc nb_def)
  finally have "content = v2_header_bytes (ch_dimension hdr) (ch_count hdr) raw nb digest @ P" .
  moreover have "ch_source hdr = Some (nb, to_hex digest)" by (simp add: d(4) nb_def)
  moreover have "0 < 4 * ch_dimension hdr" using hdr(2) by simp
  note rw = rows_of_exact [OF this payload]
  ultimately show ?thesis
    unfolding meta rows rw(3) using rw(1,2) d(1) raw(2) by blast
qed

lemma source_identity_ok:
  "source_identity h fs p = Inr i \<longleftrightarrow>
     (\<exists>c n. fs_file fs (fs_resolve fs p) = Some c \<and> count_nonempty_lines c = Inr n
        \<and> i = \<lparr>si_path = fs_resolve fs p, si_size = length c, si_sha = sha_hex h c, si_lines = n\<rparr>)"
  by (auto simp: source_identity_def open_rb_def ok_simps sha256_bytes_all split: option.splits)

lemma validate_cache_source_v2:
  "validate_cache_source h fs meta p None True = Inr i \<longleftrightarrow>
     source_identity h fs p = Inr i \<and> cm_count meta = si_lines i
     \<and> cm_source meta = Some (si_size i, si_sha i)"
  by (auto simp: validate_cache_source_def ok_simps Let_def split: option.splits)

lemma write_cache_v2_ok:
  assumes w: "write_cache_v2 h np fs path width vectors fp src = Inr (fs', meta, digest)"
    and size: "\<forall>r \<in> set vectors. length (row_scaled np r) = 4 * width"
  obtains i header where "source_identity h fs src = Inr i"
    and "fs' = fs_write fs (fs_resolve fs path) (header @ concat (map (row_scaled np) vectors))"
    and "digest = sha_hex h (header @ concat (map (row_scaled np) vectors))"
    and "read_cache h np (fs_resolve fs path) True None 8192
           (header @ concat (map (row_scaled np) vectors)) = Inr (map (row_scaled np) vectors, meta)"
    and "cm_count meta = si_lines i" and "cm_source meta = Some (si_size i, si_sha i)"
proof -
  let ?rows = "map (row_scaled np) vectors"
  obtain i header rows' where i: "source_identity h fs src = Inr i"
    and n: "length ?rows = si_lines i"
    and hdr: "cache_v2_header (int width) (int (length ?rows)) fp (int (si_size i)) (si_sha i) = Inr header"
    and fs': "fs' = fs_write fs (fs_resolve fs path) (header @ concat ?rows)"
    and dg: "digest = sha_hex h (header @ concat ?rows)"
    and rd: "read_cache h np (fs_resolve fs path) True None 8192 (header @ concat ?rows) = Inr (rows', meta)"
    and ok: "validate_vector_matrix np True 8192 (fl_lit 2 3) width ?rows = Inr ()"
    using w unfolding write_cache_v2_def normalize_vectors_def
    by (auto simp: ok_simps Let_def)
  obtain c where sha: "si_sha i = to_hex (sha256 h c)"
    using i by (auto simp: source_identity_ok sha_hex_def)
  have good: "list_all (good_row np True (fl_lit 2 3)) ?rows"
    using ok by (simp add: validate_vector_matrix_ok)
  have len: "\<forall>r \<in> set ?rows. length r = 4 * width" using size by auto
  note rt = read_cache_of_header [OF hdr [unfolded sha] refl len good, of h "fs_resolve fs path"]
  then have "rows' = ?rows" "cm_count meta = length ?rows" "cm_source meta = Some (si_size i, si_sha i)"
    using rd by (auto simp: sha)
  with i n fs' dg rd show thesis by (intro that) auto
qed

subsection \<open>Properties\<close>

text \<open>A host and row arithmetic for the concrete instances below.\<close>

definition plain_host :: host where
  "plain_host = \<lparr>sha256 = (\<lambda>bs. take 32 (bs @ replicate 32 0)), dumps_canonical = (\<lambda>_. []),
     dumps_indent = (\<lambda>_. []), loads = (\<lambda>_. None)\<rparr>"

definition unit_numerics :: numerics where
  "unit_numerics = \<lparr>row_finite = (\<lambda>_. True), row_norm = (\<lambda>_. Fin 1), row_unit_error = (\<lambda>_. Fin 0),
     row_scaled = id\<rparr>"

lemma good_row_unit [simp]: "good_row unit_numerics b (fl_lit 2 3) r"
proof -
  have "pow2 (- 1074) \<le> pow2 (- 9)" by (rule pow2_mono) simp
  also have "\<dots> \<le> of_int 2 / 10 ^ 3" by (simp add: pow2_def)
  finally have "\<not> fl_lt (fl_lit 2 3) (Fin 0)"
    using rnd64_pos [of "of_int 2 / 10 ^ 3"] by (auto simp: fl_lit_def)
  then show ?thesis
    by (simp add: good_row_def unit_numerics_def fl_le_def float32_tiny_def pow2_def)
qed

lemma small_header:
  assumes "length digest = 32" and "0 < n" and "n < 256" and "k < 256"
  shows "\<exists>header. cache_v2_header (int 1) (int n) (u ''m'') (int k) (to_hex digest) = Inr header"
proof -
  have "utf8_encode (u ''m'') = Inr [byte_of 109]"
    by (simp add: utf8_encode_def is_scalar_def u_def utf8_char_def)
  moreover have "(int m :: int) < 256 ^ j" if "m < 256" "0 < j" for m j :: nat
  proof -
    have "(256 :: nat) ^ 1 \<le> 256 ^ j" using that(2) by (intro power_increasing) auto
    then show ?thesis using that(1) by simp
  qed
  ultimately show ?thesis
    using assms by (simp add: cache_v2_header_def max_fingerprint_bytes_def pack_uint_def)
qed

text \<open>C3. Round trip of the cache format: a file made of the header that \<open>cache_v2_header\<close> packs and
  of well-formed unit rows is read back as exactly those rows, with the dimension, row count,
  fingerprint and source binding that were written.\<close>

theorem cache_roundtrip:
  assumes "cache_v2_header (int d) (int n) fp (int nbytes) (to_hex digest) = Inr header"
    and "length rows = n" and "\<forall>r \<in> set rows. length r = 4 * d"
    and "list_all (good_row np True (fl_lit 2 3)) rows"
  shows "\<exists>meta. read_cache h np path True None 8192 (header @ concat rows) = Inr (rows, meta)
    \<and> cm_version meta = 2 \<and> cm_dimensions meta = d \<and> cm_count meta = n
    \<and> cm_fingerprint meta = fp \<and> cm_source meta = Some (nbytes, to_hex digest)
    \<and> cm_vector_offset meta = length header
    \<and> cm_size meta = length header + cm_vector_bytes meta"
  using read_cache_of_header [OF assms] by simp

theorem cache_roundtrip_witness:
  "\<exists>header meta. cache_v2_header 1 2 (u ''m'') 9 (to_hex (replicate 32 7)) = Inr header
    \<and> read_cache plain_host unit_numerics [] True None 8192
        (header @ [0, 0, 128, 63, 0, 0, 128, 191]) = Inr ([[0, 0, 128, 63], [0, 0, 128, 191]], meta)
    \<and> cm_source meta = Some (9, to_hex (replicate 32 7))"
proof -
  from small_header [of "replicate 32 7" 2 9] obtain header where h: "cache_v2_header 1 2 (u ''m'') 9 (to_hex (replicate 32 7)) = Inr header"
    by auto
  then show ?thesis
    using cache_roundtrip [of 1 2 "u ''m''" 9 "replicate 32 7" header
        "[[0, 0, 128, 63], [0, 0, 128, 191]]" unit_numerics plain_host "[]"]
    by auto
qed

text \<open>Nothing but the format is accepted: whenever \<open>read_cache\<close> accepts a file as version 2,
  the file is byte for byte one well-formed header followed by exactly the rows it returns, and
  the reported fingerprint and source binding are the ones of that header.\<close>

theorem cache_accepts_only_format:
  assumes "read_cache h np path vv ru k content = Inr (rows, meta)" and "cm_version meta = 2"
  shows "\<exists>raw digest nbytes.
      content = v2_header_bytes (cm_dimensions meta) (cm_count meta) raw nbytes digest @ concat rows
    \<and> utf8_encode (cm_fingerprint meta) = Inr raw \<and> length digest = 32
    \<and> cm_source meta = Some (nbytes, to_hex digest)
    \<and> length rows = cm_count meta \<and> (\<forall>r \<in> set rows. length r = 4 * cm_dimensions meta)"
  by (rule read_cache_v2_parts [OF assms])

theorem cache_accepts_only_format_witness:
  "\<exists>content rows meta. read_cache plain_host unit_numerics [] True None 8192 content = Inr (rows, meta)
    \<and> (\<exists>raw digest nbytes.
      content = v2_header_bytes (cm_dimensions meta) (cm_count meta) raw nbytes digest @ concat rows)"
proof -
  from small_header [of "replicate 32 7" 1 9] obtain header where
    h: "cache_v2_header (int 1) (int 1) (u ''m'') (int 9) (to_hex (replicate 32 7)) = Inr header"
    by auto
  obtain meta where
    r: "read_cache plain_host unit_numerics [] True None 8192 (header @ [0, 0, 128, 63])
        = Inr ([[0, 0, 128, 63]], meta)" and m: "cm_version meta = 2"
    using read_cache_of_header [OF h, of "[[0, 0, 128, 63]]" unit_numerics plain_host "[]"] by simp
  from r cache_accepts_only_format [OF r m] show ?thesis by blast
qed

text \<open>C3. A cache written by \<open>write_cache_v2\<close> is bound to its source: re-opening the target yields
  the normalised rows and the same metadata, the recorded digest is the target's, and the source
  file passes the integrity check of \<open>validate_cache_source\<close> against that metadata.\<close>

theorem written_cache_is_bound:
  assumes "write_cache_v2 h np fs path width vectors fp src = Inr (fs', meta, digest)"
    and "\<forall>r \<in> set vectors. length (row_scaled np r) = 4 * width"
    and "fs_resolve fs path \<noteq> fs_resolve fs src"
  shows "read_cache_default h np fs' path = Inr (map (row_scaled np) vectors, meta)
    \<and> sha256_file h fs' path 0 None = Inr digest
    \<and> validate_cache_source h fs' meta src None True = source_identity h fs src"
proof -
  obtain i header where i: "source_identity h fs src = Inr i"
    and fs': "fs' = fs_write fs (fs_resolve fs path) (header @ concat (map (row_scaled np) vectors))"
    and dg: "digest = sha_hex h (header @ concat (map (row_scaled np) vectors))"
    and rd: "read_cache h np (fs_resolve fs path) True None 8192
           (header @ concat (map (row_scaled np) vectors)) = Inr (map (row_scaled np) vectors, meta)"
    and m: "cm_count meta = si_lines i" "cm_source meta = Some (si_size i, si_sha i)"
    using assms(1,2) by (rule write_cache_v2_ok)
  have "source_identity h fs' src = Inr i"
    using i assms(3) by (auto simp: source_identity_ok fs' fs_write_def)
  then have "validate_cache_source h fs' meta src None True = Inr i"
    using m by (simp add: validate_cache_source_v2)
  moreover have "read_cache_default h np fs' path = Inr (map (row_scaled np) vectors, meta)"
    using rd by (simp add: read_cache_default_def open_rb_def fs' fs_write_def)
  moreover have "sha256_file h fs' path 0 None = Inr digest"
    by (simp add: sha256_file_def open_rb_def fs' fs_write_def sha256_bytes_all dg)
  ultimately show ?thesis using i by simp
qed

definition two_line_fs :: fsys where
  "two_line_fs = \<lparr>fs_resolve = id, fs_file = [u ''src'' \<mapsto> utf8_bytes (u ''a'' @ [10] @ u ''b'' @ [10])]\<rparr>"

theorem written_cache_is_bound_witness:
  "\<exists>fs' meta digest.
     write_cache_v2 plain_host unit_numerics two_line_fs (u ''out'') 1 [[0, 0, 128, 63], [0, 0, 128, 63]]
       (u ''m'') (u ''src'') = Inr (fs', meta, digest)
   \<and> read_cache_default plain_host unit_numerics fs' (u ''out'')
       = Inr ([[0, 0, 128, 63], [0, 0, 128, 63]], meta)"
proof -
  let ?rows = "[[0, 0, 128, 63], [0, 0, 128, 63]] :: bytes list"
  have lines: "iter_nonempty_lines (utf8_bytes (u ''a'' @ [10] @ u ''b'' @ [10])) = Inr [u ''a'', u ''b'']"
    using iter_nonempty_lines_unlines [of "[u ''a'', u ''b'']"] by (simp add: u_def is_scalar_def)
  define dg :: bytes where "dg = take 32 (utf8_bytes (u ''a'' @ [10] @ u ''b'' @ [10]) @ replicate 32 0)"
  have sid: "source_identity plain_host two_line_fs (u ''src'')
      = Inr \<lparr>si_path = u ''src'', si_size = 4, si_sha = to_hex dg, si_lines = 2\<rparr>"
    using lines by (auto simp: source_identity_ok two_line_fs_def count_nonempty_lines_def
        sha_hex_def plain_host_def utf8_char_def u_def dg_def)
  have norm: "normalize_vectors unit_numerics 1 ?rows = Inr ?rows"
  proof -
    have "validate_vector_matrix unit_numerics True 8192 (fl_lit 2 3) 1 ?rows = Inr ()"
      by (simp add: validate_vector_matrix_ok)
    then show ?thesis
      by (simp add: normalize_vectors_def unit_numerics_def fl_le_def float32_tiny_def pow2_def)
  qed
  have "length dg = 32" by (simp add: u_def utf8_char_def dg_def)
  from small_header [OF this, of 2 4] obtain header where
    h: "cache_v2_header (int 1) (int 2) (u ''m'') (int 4) (to_hex dg) = Inr header" by auto
  have "\<exists>meta. read_cache plain_host unit_numerics (u ''out'') True None 8192 (header @ concat ?rows)
      = Inr (?rows, meta)"
    using read_cache_of_header [OF h, of ?rows unit_numerics plain_host "u ''out''"] by simp
  then obtain fs' meta digest where
    w: "write_cache_v2 plain_host unit_numerics two_line_fs (u ''out'') 1 ?rows (u ''m'') (u ''src'')
        = Inr (fs', meta, digest)"
    unfolding write_cache_v2_def norm sid using h by (auto simp: two_line_fs_def Let_def)
  have "\<forall>r \<in> set ?rows. length (row_scaled unit_numerics r) = 4 * 1"
    by (simp add: unit_numerics_def)
  moreover have "fs_resolve two_line_fs (u ''out'') \<noteq> fs_resolve two_line_fs (u ''src'')"
    by (simp add: two_line_fs_def)
  ultimately show ?thesis
    using written_cache_is_bound [OF w] w by (auto simp: unit_numerics_def)
qed

text \<open>C5. A version 2 cache accepts one source only: if two source files both pass the integrity
  check of the same cache and the digest does not collide on their contents, the contents are
  equal.\<close>

theorem cache_binds_one_source:
  assumes "validate_cache_source h fs meta src None True = Inr i"
    and "validate_cache_source h fs' meta src' None True = Inr i'"
    and "open_rb fs src = Inr c" and "open_rb fs' src' = Inr c'"
    and "sha256 h c = sha256 h c' \<Longrightarrow> c = c'"
  shows "c = c'"
  using assms by (auto simp: validate_cache_source_v2 source_identity_ok open_rb_def sha_hex_def)

theorem cache_binds_one_source_witness:
  "\<exists>meta i. validate_cache_source plain_host two_line_fs meta (u ''src'') None True = Inr i
     \<and> (\<forall>c'. open_rb two_line_fs (u ''src'') = Inr c' \<longrightarrow>
          utf8_bytes (u ''a'' @ [10] @ u ''b'' @ [10]) = c')"
proof -
  let ?c = "utf8_bytes (u ''a'' @ [10] @ u ''b'' @ [10])"
  have lines: "iter_nonempty_lines ?c = Inr [u ''a'', u ''b'']"
    using iter_nonempty_lines_unlines [of "[u ''a'', u ''b'']"] by (simp add: u_def is_scalar_def)
  let ?i = "\<lparr>si_path = u ''src'', si_size = length ?c, si_sha = sha_hex plain_host ?c, si_lines = 2\<rparr>"
  let ?meta = "\<lparr>cm_version = 2, cm_path = [], cm_count = 2, cm_dimensions = 1, cm_fingerprint = [],
      cm_fingerprint_sha = [], cm_vector_offset = 64, cm_vector_bytes = 8, cm_size = 72,
      cm_source = Some (si_size ?i, si_sha ?i)\<rparr>"
  have o: "open_rb two_line_fs (u ''src'') = Inr ?c" by (simp add: open_rb_def two_line_fs_def)
  have v: "validate_cache_source plain_host two_line_fs ?meta (u ''src'') None True = Inr ?i"
    using lines by (simp add: validate_cache_source_v2 source_identity_ok two_line_fs_def
        count_nonempty_lines_def)
  have "?c = c'" if "open_rb two_line_fs (u ''src'') = Inr c'" for c'
    using cache_binds_one_source [OF v v o that] o that by simp
  with v show ?thesis by blast
qed

end
