(* ===== verification/Disk.thy ===== *)
theory Disk
  imports LineFiles "HOL-Library.Countable" "HOL-Library.Multiset"
begin

text \<open>
  The disk as the resumable generators of \<open>run_large_scale_benchmark.py\<close> see it, with crashes.
  A \<open>world\<close> is the current file system together with every file system that was on the disk
  since the process started: a crash leaves the disk in one of these. Appending is torn (any
  prefix of the data may have reached the disk), \<open>os.replace\<close>, \<open>truncate\<close> and \<open>unlink\<close> are
  single steps, and the temporary file of \<open>atomic_write_json\<close> has a name of its own, so that
  its write is one step of the names modelled here. Paths are compared after resolution; the
  generated files are not symbolic links. The rest of the theory is what the generators share:
  side paths, reading JSON documents, and the contract of the JSON codec.
\<close>

subsection \<open>Worlds\<close>

record world =
  fs :: fsys
  past :: "fsys list"

definition boot :: "fsys \<Rightarrow> world" where
  "boot d = \<lparr>fs = d, past = []\<rparr>"

definition visited :: "world \<Rightarrow> fsys set" where
  "visited w = insert (fs w) (set (past w))"

definition commit :: "world \<Rightarrow> fsys \<Rightarrow> world" where
  "commit w d = \<lparr>fs = d, past = past w @ [fs w]\<rparr>"

definition set_file :: "fsys \<Rightarrow> pystr \<Rightarrow> bytes option \<Rightarrow> fsys" where
  "set_file d p c = d\<lparr>fs_file := (fs_file d)(fs_resolve d p := c)\<rparr>"

definition file_at :: "fsys \<Rightarrow> pystr \<Rightarrow> bytes option" where
  "file_at d p = fs_file d (fs_resolve d p)"

definition path_exists :: "fsys \<Rightarrow> pystr \<Rightarrow> bool" where
  "path_exists d p \<longleftrightarrow> file_at d p \<noteq> None"

text \<open>\<open>target.write(data); flush; fsync\<close> behind the bytes that are there: any prefix may be seen.\<close>

fun write_behind :: "world \<Rightarrow> pystr \<Rightarrow> bytes \<Rightarrow> bytes \<Rightarrow> world" where
  "write_behind w p old [] = commit w (set_file (fs w) p (Some old))"
| "write_behind w p old (b # bs) =
     write_behind (commit w (set_file (fs w) p (Some old))) p (old @ [b]) bs"

text \<open>\<open>open("ab")\<close> and \<open>open("xb")\<close> with one write.\<close>

definition append_file :: "world \<Rightarrow> pystr \<Rightarrow> bytes \<Rightarrow> world" where
  "append_file w p data =
     write_behind w p (case file_at (fs w) p of None \<Rightarrow> [] | Some c \<Rightarrow> c) data"

definition create_file :: "world \<Rightarrow> pystr \<Rightarrow> bytes \<Rightarrow> world \<times> unit res" where
  "create_file w p data =
     (if path_exists (fs w) p then (w, Inl (OSError ''file exists''))
      else (write_behind w p [] data, Inr ()))"

definition truncate_file :: "world \<Rightarrow> pystr \<Rightarrow> nat \<Rightarrow> world" where
  "truncate_file w p n = commit w (set_file (fs w) p (map_option (take n) (file_at (fs w) p)))"

definition replace_file :: "world \<Rightarrow> pystr \<Rightarrow> pystr \<Rightarrow> world" where
  "replace_file w p q = commit w (set_file (set_file (fs w) q (file_at (fs w) p)) p None)"

definition unlink_file :: "world \<Rightarrow> pystr \<Rightarrow> world" where
  "unlink_file w p = commit w (set_file (fs w) p None)"

definition atomic_write_bytes :: "world \<Rightarrow> pystr \<Rightarrow> bytes \<Rightarrow> world" where
  "atomic_write_bytes w p payload = commit w (set_file (fs w) p (Some payload))"

definition atomic_write_json :: "host \<Rightarrow> world \<Rightarrow> pystr \<Rightarrow> json \<Rightarrow> world" where
  "atomic_write_json h w p payload = commit w (set_file (fs w) p (Some (dumps_indent h payload @ [10])))"

definition load_json :: "host \<Rightarrow> fsys \<Rightarrow> pystr \<Rightarrow> json res" where
  "load_json h d p =
     (case open_rb d p of Inl e \<Rightarrow> Inl e | Inr content \<Rightarrow>
      case loads h content of None \<Rightarrow> Inl (ValueError ''json'') | Some v \<Rightarrow> Inr v)"

subsection \<open>Paths\<close>

text \<open>Name, parent and child of a resolved path.\<close>

definition path_name :: "pystr \<Rightarrow> pystr" where
  "path_name p = last (split_on 47 p)"

definition path_parent :: "pystr \<Rightarrow> pystr" where
  "path_parent p = py_join [47] (butlast (split_on 47 p))"

definition path_join :: "pystr \<Rightarrow> pystr \<Rightarrow> pystr" where
  "path_join dir name = dir @ 47 # name"

text \<open>Side paths.\<close>

definition sidecar_path :: "pystr \<Rightarrow> pystr" where "sidecar_path p = p @ u ''.meta.json''"
definition checkpoint_path :: "pystr \<Rightarrow> pystr" where "checkpoint_path p = p @ u ''.checkpoint.json''"
definition partial_path :: "pystr \<Rightarrow> pystr" where "partial_path p = p @ u ''.partial''"

lemma side_paths_distinct [simp]:
  "sidecar_path p \<noteq> p" "checkpoint_path p \<noteq> p" "partial_path p \<noteq> p"
  "sidecar_path p \<noteq> checkpoint_path p" "sidecar_path p \<noteq> partial_path p"
  "checkpoint_path p \<noteq> partial_path p"
  "p \<noteq> sidecar_path p" "p \<noteq> checkpoint_path p" "p \<noteq> partial_path p"
  "checkpoint_path p \<noteq> sidecar_path p" "partial_path p \<noteq> sidecar_path p"
  "partial_path p \<noteq> checkpoint_path p"
  by (auto simp: sidecar_path_def checkpoint_path_def partial_path_def u_def)

definition managed :: "pystr \<Rightarrow> pystr list" where
  "managed p = [p, sidecar_path p, checkpoint_path p, partial_path p]"

text \<open>Python's views of a JSON value: \<open>v.get(k)\<close>, \<open>v[k]\<close>, \<open>v.get(a, {}).get(b)\<close> and \<open>int(v)\<close>.\<close>

definition json_get :: "json \<Rightarrow> string \<Rightarrow> json res" where
  "json_get v k = (case v of JObj m \<Rightarrow> Inr (jget m k) | _ \<Rightarrow> Inl (AttributeError ''get''))"

definition json_item :: "json \<Rightarrow> string \<Rightarrow> json res" where
  "json_item v k = (case v of JObj m \<Rightarrow> jidx m k | _ \<Rightarrow> Inl (TypeError ''indices''))"

definition json_get2 :: "json \<Rightarrow> string \<Rightarrow> string \<Rightarrow> json res" where
  "json_get2 v a b = (case v of JObj m \<Rightarrow> jget2 m a b | _ \<Rightarrow> Inl (AttributeError ''get''))"

definition json_item2 :: "json \<Rightarrow> string \<Rightarrow> string \<Rightarrow> json res" where
  "json_item2 v a b = (case json_item v a of Inl e \<Rightarrow> Inl e | Inr x \<Rightarrow> json_item x b)"

definition rat_trunc :: "rat \<Rightarrow> int" where
  "rat_trunc r = (if 0 \<le> r then \<lfloor>r\<rfloor> else \<lceil>r\<rceil>)"

definition int_of_json :: "json \<Rightarrow> int res" where
  "int_of_json v =
     (case v of
        JInt i \<Rightarrow> Inr i
      | JBool b \<Rightarrow> Inr (if b then 1 else 0)
      | JFloat f \<Rightarrow> (case f of Fin r \<Rightarrow> Inr (rat_trunc r) | NaN \<Rightarrow> Inl (ValueError ''nan'')
          | _ \<Rightarrow> Inl (OverflowError ''infinity''))
      | JStr s \<Rightarrow> (case py_int s of None \<Rightarrow> Inl (ValueError ''int'') | Some i \<Rightarrow> Inr i)
      | _ \<Rightarrow> Inl (TypeError ''int''))"

definition checkpoint_created_at :: "json \<Rightarrow> pystr res" where
  "checkpoint_created_at state =
     (case json_get state ''created_at'' of Inl e \<Rightarrow> Inl e | Inr v \<Rightarrow>
      case v of
        JStr s \<Rightarrow> if py_strip s = [] then Inl (RuntimeError ''checkpoint predates start-time recording'')
                 else Inr s
      | _ \<Rightarrow> Inl (RuntimeError ''checkpoint predates start-time recording''))"

text \<open>\<open>sha256_file\<close> with a length that came out of a document (a negative one never reaches 0).\<close>

definition sha256_prefix :: "host \<Rightarrow> fsys \<Rightarrow> pystr \<Rightarrow> nat \<Rightarrow> int \<Rightarrow> pystr res" where
  "sha256_prefix h d p offset len =
     (if len < 0 then (case open_rb d p of Inl e \<Rightarrow> Inl e | Inr _ \<Rightarrow>
                       Inl (ValueError ''truncated while hashing''))
      else sha256_file h d p offset (Some (nat len)))"

subsection \<open>What steps change\<close>

lemma resolve_set_file [simp]: "fs_resolve (set_file d p c) = fs_resolve d"
  by (simp add: set_file_def)

lemma file_at_set_file [simp]:
  "file_at (set_file d p c) q = (if fs_resolve d q = fs_resolve d p then c else file_at d q)"
  by (simp add: file_at_def set_file_def)

lemma set_file_set_file [simp]: "set_file (set_file d p c) p c' = set_file d p c'"
  by (simp add: set_file_def)

lemma set_file_same: "file_at d p = c \<Longrightarrow> set_file d p c = d"
  by (simp add: set_file_def file_at_def fun_upd_idem)

lemma open_rb_file_at: "open_rb d p = (case file_at d p of None \<Rightarrow> Inl (OSError ''no such file'') | Some c \<Rightarrow> Inr c)"
  by (simp add: open_rb_def file_at_def)

lemma boot_simps [simp]: "fs (boot d) = d" "visited (boot d) = {d}"
  by (simp_all add: boot_def visited_def)

lemma commit_simps [simp]: "fs (commit w d) = d" "visited (commit w d) = insert d (visited w)"
  by (auto simp: commit_def visited_def)

lemma fs_in_visited [simp]: "fs w \<in> visited w"
  by (simp add: visited_def)

lemma write_behind_fs [simp]: "fs (write_behind w p old data) = set_file (fs w) p (Some (old @ data))"
  by (induction w p old data rule: write_behind.induct) auto

lemma write_behind_visited:
  "visited (write_behind w p old data)
     = visited w \<union> {set_file (fs w) p (Some (old @ t)) | t. prefix t data}"
proof (induction w p old data rule: write_behind.induct)
  case (1 w p old)
  then show ?case by auto
next
  case (2 w p old b bs)
  have "{set_file (fs w) p (Some (old @ t)) | t. prefix t (b # bs)}
      = insert (set_file (fs w) p (Some old)) {set_file (fs w) p (Some ((old @ [b]) @ t)) | t. prefix t bs}"
    by (auto simp: prefix_Cons) (rule exI [of _ "[]"], simp)
  with 2 show ?case by auto
qed

subsection \<open>The JSON codec\<close>

text \<open>
  Every object of a document has distinct keys (\<open>json_plain\<close>). \<open>json.dump(..., sort_keys=True)\<close>
  orders the items of every object, so a document is read back as \<open>json_sorted\<close> of what was
  written: \<open>repr\<close> of a float is read back as the same float, NaN and the infinities have
  literals of their own. A document that is read has distinct keys. (A string with a high surrogate
  directly before a low one would come back as one character; paths, digests and decoded text have
  no such pair.)
\<close>

fun json_plain :: "json \<Rightarrow> bool" where
  "json_plain (JArr xs) = list_all json_plain xs"
| "json_plain (JObj m) = (distinct (map fst m) \<and> list_all (\<lambda>kv. json_plain (snd kv)) m)"
| "json_plain _ = True"

fun json_sorted :: "json \<Rightarrow> json" where
  "json_sorted (JArr xs) = JArr (map json_sorted xs)"
| "json_sorted (JObj m) = JObj (sort_key fst (map (\<lambda>kv. (fst kv, json_sorted (snd kv))) m))"
| "json_sorted v = v"

definition codec_ok :: "host \<Rightarrow> bool" where
  "codec_ok h \<longleftrightarrow>
     (\<forall>v. json_plain v \<longrightarrow> loads h (dumps_indent h v @ [10]) = Some (json_sorted v))
     \<and> (\<forall>b v. loads h b = Some v \<longrightarrow> json_plain v)"

lemma map_of_map_snd:
  "map_of (map (\<lambda>kv. (fst kv, f (snd kv))) m) k = map_option f (map_of m k)"
  by (induction m) auto

lemma json_sorted_lookup:
  assumes "json_plain (JObj m)" and "json_sorted (JObj m) = JObj n"
  shows "map_of n k = map_option json_sorted (map_of m k)"
proof -
  let ?m = "map (\<lambda>kv. (fst kv, json_sorted (snd kv))) m"
  have n: "n = sort_key fst ?m" using assms(2) by simp
  have keys: "map fst ?m = map fst m" by (simp add: comp_def)
  then have "distinct (map fst ?m)" unfolding keys using assms(1) by simp
  moreover have "distinct (map fst n)"
  proof -
    have "mset (map fst n) = mset (map fst ?m)" unfolding n mset_map by simp
    then show ?thesis using \<open>distinct (map fst ?m)\<close> by (metis mset_eq_imp_distinct_iff)
  qed
  ultimately have "map_of n = map_of ?m" unfolding n by (subst map_of_inject_set) auto
  then show ?thesis by (simp add: map_of_map_snd)
qed

lemma jget_sorted:
  assumes "json_plain (JObj m)" and "json_sorted (JObj m) = JObj n"
  shows "jget n k = json_sorted (jget m k)"
  using json_sorted_lookup [OF assms] by (simp add: jget_def split: option.splits)

lemma load_json_of_file:
  assumes "codec_ok h" and "json_plain v" and "file_at d p = Some (dumps_indent h v @ [10])"
  shows "load_json h d p = Inr (json_sorted v)"
  using assms by (simp add: load_json_def open_rb_file_at codec_ok_def)

lemma json_get_sorted:
  assumes "json_plain (JObj m)"
  shows "json_get (json_sorted (JObj m)) k = Inr (json_sorted (jget m k))"
  using jget_sorted [OF assms json_sorted.simps(2)] by (simp add: json_get_def)

lemma json_item_sorted:
  assumes "json_plain (JObj m)" and "map_of m (u k) = Some v"
  shows "json_item (json_sorted (JObj m)) k = Inr (json_sorted v)"
  using json_sorted_lookup [OF assms(1) json_sorted.simps(2)] assms(2) by (simp add: json_item_def jidx_def)

lemma json_get2_sorted:
  assumes m: "json_plain (JObj m)" and a: "map_of m (u a) = Some (JObj n)"
  shows "json_get2 (json_sorted (JObj m)) a b = Inr (json_sorted (jget n b))"
proof -
  have "JObj n \<in> snd ` set m" using a by (metis image_iff map_of_SomeD snd_conv)
  then have n: "json_plain (JObj n)" using m by (fastforce simp only: json_plain.simps list_all_iff)
  obtain n' where n': "json_sorted (JObj n) = JObj n'" by simp
  have "jget2 (sort_key fst (map (\<lambda>kv. (fst kv, json_sorted (snd kv))) m)) a b = Inr (jget n' b)"
    using json_sorted_lookup [OF m json_sorted.simps(2), of "u a"] a n' by (simp add: jget2_def)
  then show ?thesis using jget_sorted [OF n n'] by (simp add: json_get2_def)
qed

text \<open>A host whose codec meets the contract: documents are numbered.\<close>

instance pyfloat :: countable by countable_datatype
instance json :: countable by countable_datatype

definition counting_host :: host where
  "counting_host = \<lparr>sha256 = (\<lambda>bs. take 32 (bs @ replicate 32 0)), dumps_canonical = (\<lambda>_. []),
     dumps_indent = (\<lambda>v. replicate (to_nat (json_sorted v)) 0),
     loads = (\<lambda>b. let v = from_nat (length b - 1) in if json_plain v then Some v else None)\<rparr>"

lemma distinct_sort_key: "distinct (map f (sort_key k xs)) \<longleftrightarrow> distinct (map f xs)"
  by (metis mset_eq_imp_distinct_iff mset_map mset_sort)

lemma json_plain_sorted: "json_plain v \<Longrightarrow> json_plain (json_sorted v)"
proof (induction v rule: json_plain.induct)
  case (2 m)
  have "fst \<circ> (\<lambda>kv :: pystr \<times> json. (fst kv, json_sorted (snd kv))) = fst" by (simp add: comp_def)
  then have "distinct (map fst (sort_key fst (map (\<lambda>kv. (fst kv, json_sorted (snd kv))) m)))"
    using 2 unfolding distinct_sort_key map_map by simp
  moreover have "json_plain (snd kv)" if "kv \<in> set (map (\<lambda>kv. (fst kv, json_sorted (snd kv))) m)" for kv
    using that 2 by (auto simp: list_all_iff)
  ultimately show ?case by (simp add: list_all_iff)
qed (auto simp: list_all_iff)

lemma json_sorted_idem: "json_sorted (json_sorted v) = json_sorted v"
proof (induction v rule: json_sorted.induct)
  case (2 m)
  let ?g = "\<lambda>kv :: pystr \<times> json. (fst kv, json_sorted (snd kv))"
  let ?ys = "sort_key fst (map ?g m)"
  have "map ?g ?ys = ?ys" using 2 by (intro map_idI) auto
  then show ?case by (simp add: sort_key_id_if_sorted)
qed simp_all

lemma counting_host_codec: "codec_ok counting_host"
  by (auto simp: codec_ok_def counting_host_def Let_def json_plain_sorted split: if_splits)

text \<open>Comparing a document with what was read back.\<close>

fun json_no_nan :: "json \<Rightarrow> bool" where
  "json_no_nan (JFloat f) = (f \<noteq> NaN)"
| "json_no_nan (JArr xs) = list_all json_no_nan xs"
| "json_no_nan (JObj m) = list_all (\<lambda>kv. json_no_nan (snd kv)) m"
| "json_no_nan _ = True"

lemma py_eq_items_iff:
  "py_eq_items m n \<longleftrightarrow> (\<forall>kv \<in> set m. case map_of n (fst kv) of None \<Rightarrow> False | Some w \<Rightarrow> py_eq (snd kv) w)"
  by (induction m) auto

lemma py_eq_list_iff: "py_eq_list xs ys \<longleftrightarrow> list_all2 py_eq xs ys"
  by (induction xs arbitrary: ys) (auto split: list.splits)

lemma fl_eq_refl [simp]: "f \<noteq> NaN \<Longrightarrow> fl_eq f f"
  by (cases f) simp_all

lemma py_eq_refl: "json_plain v \<Longrightarrow> json_no_nan v \<Longrightarrow> py_eq v v"
proof (induction v rule: json_plain.induct)
  case (1 xs)
  then show ?case by (auto simp: py_eq_list_iff list_all_iff list_all2_conv_all_nth)
next
  case (2 m)
  then have "map_of m (fst kv) = Some (snd kv)" if "kv \<in> set m" for kv using that by simp
  with 2 show ?case by (auto simp: py_eq_items_iff list_all_iff)
qed simp_all

lemma py_eq_sorted_left: "py_eq (json_sorted x) y = py_eq x y"
proof (induction x arbitrary: y rule: json_sorted.induct)
  case (1 xs)
  have "list_all2 py_eq (map json_sorted xs) ys = list_all2 py_eq xs ys" for ys
    unfolding list_all2_map1 using 1 by (auto simp: list_all2_conv_all_nth)
  then show ?case by (auto simp: py_eq_list_iff split: json.splits)
next
  case (2 m)
  have "py_eq_items (sort_key fst (map (\<lambda>kv. (fst kv, json_sorted (snd kv))) m)) n = py_eq_items m n" for n
    unfolding py_eq_items_iff using 2 by (auto split: option.splits)
  then show ?case by (auto split: json.splits)
qed simp_all

lemma py_eq_sorted_right: "json_plain y \<Longrightarrow> py_eq x (json_sorted y) = py_eq x y"
proof (induction x arbitrary: y rule: json_sorted.induct)
  case (1 xs)
  then show ?case
    by (cases y) (auto simp: py_eq_list_iff list_all2_map2 list_all2_conv_all_nth list_all_iff)
next
  case (2 m)
  show ?case
  proof (cases y)
    case (JObj n)
    obtain n' where n': "json_sorted (JObj n) = JObj n'" by simp
    have lk: "map_of n' k = map_option json_sorted (map_of n k)" for k
      using json_sorted_lookup [OF _ n'] 2(2) JObj by simp
    have "length n' = length n" using n' by auto
    moreover have "json_plain w" if "map_of n k = Some w" for k w
      using 2(2) JObj map_of_SomeD [OF that] by (auto simp: list_all_iff)
    then have "py_eq_items m n' = py_eq_items m n"
      unfolding py_eq_items_iff lk using 2(1) by (auto split: option.splits)
    ultimately show ?thesis using JObj n' by simp
  qed (use 2 in \<open>auto split: json.splits\<close>)
next
qed (case_tac y; simp)+

end
