(* ===== verification/Restart.thy ===== *)
theory Restart
  imports Disk
begin

text \<open>
  The contract of a resumable operation, as interfaces. \<open>crashing\<close>: a \<open>run\<close> takes what differs
  between two runs (the clock, the programs it starts) and the disk, and leaves a world; \<open>ok\<close> are
  the disks that crashes can leave. \<open>restartable\<close> adds \<open>good\<close>, the disks a new run can finish from,
  and \<open>final\<close>, those that hold the result. The locales prove once what this gives for any number of
  crashed runs.
\<close>

locale crashing =
  fixes run :: "'env \<Rightarrow> fsys \<Rightarrow> world \<times> 'a res"
    and env_ok :: "'env \<Rightarrow> bool"
    and ok :: "fsys \<Rightarrow> bool"
  assumes crash_safe: "env_ok e \<Longrightarrow> ok d \<Longrightarrow> d' \<in> visited (fst (run e d)) \<Longrightarrow> ok d'"
begin

text \<open>A process that is started on the disk and dies, or ends, at any of its steps.\<close>

inductive reach :: "fsys \<Rightarrow> fsys \<Rightarrow> bool" for d where
  start: "reach d d"
| crash: "reach d d1 \<Longrightarrow> env_ok e \<Longrightarrow> d2 \<in> visited (fst (run e d1)) \<Longrightarrow> reach d d2"

lemma reach_ok: "reach d d' \<Longrightarrow> ok d \<Longrightarrow> ok d'"
  by (induction rule: reach.induct) (auto intro: crash_safe)

lemma reach_trans: "reach d1 d2 \<Longrightarrow> reach d d1 \<Longrightarrow> reach d d2"
  by (induction rule: reach.induct) (auto intro: reach.crash)

end

locale restartable = crashing run env_ok ok
  for run :: "'env \<Rightarrow> fsys \<Rightarrow> world \<times> 'a res" and env_ok ok +
  fixes good final :: "fsys \<Rightarrow> bool"
  assumes good_runs: "env_ok e \<Longrightarrow> ok d \<Longrightarrow> good d \<Longrightarrow> \<exists>a. snd (run e d) = Inr a \<and> final (fs (fst (run e d)))"
    and bad_stops: "env_ok e \<Longrightarrow> ok d \<Longrightarrow> \<not> good d \<Longrightarrow> \<exists>x. snd (run e d) = Inl x \<and> visited (fst (run e d)) = {d}"
    and final_good: "ok d \<Longrightarrow> final d \<Longrightarrow> good d"
begin

text \<open>After any crashes, a run ends with the result or refuses and changes nothing.\<close>

lemma rerun:
  assumes "reach d d'" and "ok d" and "env_ok e"
  shows "(\<exists>a. snd (run e d') = Inr a \<and> final (fs (fst (run e d'))))
    \<or> (\<not> good d' \<and> (\<exists>x. snd (run e d') = Inl x) \<and> visited (fst (run e d')) = {d'})"
  using assms reach_ok [OF assms(1,2)] good_runs bad_stops by blast

text \<open>A refusing disk stays as it is, whatever is run on it.\<close>

lemma stuck: "reach d d' \<Longrightarrow> ok d \<Longrightarrow> \<not> good d \<Longrightarrow> d' = d"
proof (induction rule: reach.induct)
  case (crash d1 e d2)
  then show ?case using bad_stops [of e d] by auto
qed simp

end

end
