(* ===== verification/TruthGen.thy ===== *)
theory TruthGen
  imports TopK GroundTruth VectorCache Restart
begin

text \<open>
  \<open>generate_ground_truth\<close> of \<open>run_large_scale_benchmark.py\<close>: the resumable generator of the
  exact-neighbour file, with every write of it a step of the \<open>world\<close>. The function is cut at
  its stages (inputs, existing output, resume or start, the block loop, publication) and
  composed in the code's order. The clock is a parameter, read at a step count. The theory
  describes the disks the generator can leave behind by a datatype of phases and proves crash
  safety: from any of them a new run ends with the same file.
\<close>

subsection \<open>Inputs\<close>

record truth_job =
  tj_corpus_cache :: pystr
  tj_query_cache :: pystr
  tj_documents :: pystr
  tj_queries :: pystr
  tj_output :: pystr
  tj_top_k :: int
  tj_query_block_rows :: int
  tj_corpus_block_rows :: int

record truth_ctx =
  tc_stable :: jobj
  tc_hash :: pystr
  tc_corpus :: "bytes list"
  tc_queries :: "bytes list"

text \<open>The two caches with their sources, in the order they are opened and checked.\<close>

record vector_pair =
  vp_corpus :: "bytes list"
  vp_corpus_meta :: cache_meta
  vp_queries :: "bytes list"
  vp_query_meta :: cache_meta
  vp_corpus_source :: source_id
  vp_query_source :: source_id

definition truth_vectors :: "host \<Rightarrow> numerics \<Rightarrow> fsys \<Rightarrow> truth_job \<Rightarrow> vector_pair res" where
  "truth_vectors h np d job =
     (case read_cache_default h np d (tj_corpus_cache job) of Inl e \<Rightarrow> Inl e | Inr corpus \<Rightarrow>
      case read_cache_default h np d (tj_query_cache job) of Inl e \<Rightarrow> Inl e | Inr queries \<Rightarrow>
      case validate_cache_source h d (snd corpus) (tj_documents job) None True of
        Inl e \<Rightarrow> Inl e | Inr corpus_source \<Rightarrow>
      case validate_cache_source h d (snd queries) (tj_queries job) None True of
        Inl e \<Rightarrow> Inl e | Inr query_source \<Rightarrow>
      if cm_dimensions (snd corpus) \<noteq> cm_dimensions (snd queries)
        then Inl (ValueError ''corpus/query vector dimensions differ'')
      else if cm_fingerprint (snd corpus) \<noteq> cm_fingerprint (snd queries)
        then Inl (ValueError ''corpus/query native fingerprints differ'')
      else if tj_top_k job \<le> 0 \<or> int (length (fst corpus)) < tj_top_k job
        then Inl (ValueError ''top-k must be in [1, corpus count]'')
      else Inr \<lparr>vp_corpus = fst corpus, vp_corpus_meta = snd corpus, vp_queries = fst queries,
                vp_query_meta = snd queries, vp_corpus_source = corpus_source,
                vp_query_source = query_source\<rparr>)"

definition truth_stable ::
  "truth_job \<Rightarrow> vector_pair \<Rightarrow> pystr \<Rightarrow> pystr \<Rightarrow> json \<Rightarrow> jobj" where
  "truth_stable job vp corpus_sha query_sha model = jobj
     [(''schema'', JStr (u ''leann-exact-ground-truth-v1'')),
      (''corpus_cache_sha256'', JStr corpus_sha),
      (''query_cache_sha256'', JStr query_sha),
      (''corpus_source_sha256'', JStr (si_sha (vp_corpus_source vp))),
      (''query_source_sha256'', JStr (si_sha (vp_query_source vp))),
      (''model_sha256'', model),
      (''query_count'', JInt (int (length (vp_queries vp)))),
      (''corpus_count'', JInt (int (length (vp_corpus vp)))),
      (''dimensions'', JInt (int (cm_dimensions (vp_corpus_meta vp)))),
      (''top_k'', JInt (tj_top_k job)),
      (''algorithm'', JStr (u ''blockwise float32 matrix multiplication; score desc, ID asc ties'')),
      (''query_block_rows'', JInt (tj_query_block_rows job)),
      (''corpus_block_rows'', JInt (tj_corpus_block_rows job))]"

text \<open>The digests and the model identity of the two caches, which their sidecars must agree on.\<close>

definition truth_identity :: "host \<Rightarrow> fsys \<Rightarrow> truth_job \<Rightarrow> (pystr \<times> pystr \<times> json) res" where
  "truth_identity h d job =
     (case sha256_file h d (tj_corpus_cache job) 0 None of Inl e \<Rightarrow> Inl e | Inr corpus_sha \<Rightarrow>
      case sha256_file h d (tj_query_cache job) 0 None of Inl e \<Rightarrow> Inl e | Inr query_sha \<Rightarrow>
      case load_json h d (sidecar_path (tj_corpus_cache job)) of Inl e \<Rightarrow> Inl e | Inr corpus_sidecar \<Rightarrow>
      case load_json h d (sidecar_path (tj_query_cache job)) of Inl e \<Rightarrow> Inl e | Inr query_sidecar \<Rightarrow>
      case json_item2 corpus_sidecar ''model'' ''sha256'' of Inl e \<Rightarrow> Inl e | Inr corpus_model \<Rightarrow>
      case json_item2 query_sidecar ''model'' ''sha256'' of Inl e \<Rightarrow> Inl e | Inr query_model \<Rightarrow>
      if \<not> py_eq corpus_model query_model
        then Inl (ValueError ''corpus/query model identity hashes differ'')
      else case json_get2 query_sidecar ''bindings'' ''corpus_cache_sha256'' of Inl e \<Rightarrow> Inl e | Inr bound \<Rightarrow>
      if \<not> py_eq bound (JStr corpus_sha)
        then Inl (ValueError ''query vectors are not bound to this corpus cache'')
      else Inr (corpus_sha, query_sha, corpus_model))"

definition truth_inputs :: "host \<Rightarrow> numerics \<Rightarrow> fsys \<Rightarrow> truth_job \<Rightarrow> truth_ctx res" where
  "truth_inputs h np d job =
     (case truth_vectors h np d job of Inl e \<Rightarrow> Inl e | Inr vp \<Rightarrow>
      case truth_identity h d job of Inl e \<Rightarrow> Inl e | Inr (corpus_sha, query_sha, model) \<Rightarrow>
      let stable = truth_stable job vp corpus_sha query_sha model in
      Inr \<lparr>tc_stable = stable, tc_hash = canonical_hash h (JObj stable),
           tc_corpus = vp_corpus vp, tc_queries = vp_queries vp\<rparr>)"

definition truth_header :: "truth_job \<Rightarrow> truth_ctx \<Rightarrow> bytes" where
  "truth_header job ctx =
     gt_header (length (tc_queries ctx)) (nat (tj_top_k job)) (length (tc_corpus ctx))"

definition read_truth_file ::
  "host \<Rightarrow> truth_job \<Rightarrow> truth_ctx \<Rightarrow> fsys \<Rightarrow> pystr \<Rightarrow> (nat list list \<times> truth_meta) res" where
  "read_truth_file h job ctx d p =
     (case open_rb d p of Inl e \<Rightarrow> Inl e | Inr content \<Rightarrow>
      read_ground_truth h (fs_resolve d p) (Some (length (tc_queries ctx)))
        (Some (nat (tj_top_k job))) (Some (length (tc_corpus ctx))) content)"

definition truth_json :: "truth_meta \<Rightarrow> json" where
  "truth_json m = JObj (jobj
     [(''schema'', JStr (u ''LEANN_GT1'')), (''path'', JStr (tm_path m)),
      (''query_count'', JInt (int (tm_queries m))), (''top_k'', JInt (int (tm_k m))),
      (''corpus_count'', JInt (int (tm_corpus m))), (''size_bytes'', JInt (int (tm_size m))),
      (''sha256'', JStr (tm_sha m))])"

subsection \<open>An output that is there already\<close>

definition truth_declared ::
  "host \<Rightarrow> truth_job \<Rightarrow> truth_ctx \<Rightarrow> fsys \<Rightarrow> json res" where
  "truth_declared h job ctx d =
     (let output = tj_output job in
      case load_json h d (sidecar_path output) of Inl e \<Rightarrow> Inl e | Inr declared \<Rightarrow>
      case read_truth_file h job ctx d output of Inl e \<Rightarrow> Inl e | Inr _ \<Rightarrow>
      case json_get declared ''input_hash'' of Inl e \<Rightarrow> Inl e | Inr hash \<Rightarrow>
      if \<not> py_eq hash (JStr (tc_hash ctx))
        then Inl (ValueError ''existing ground truth belongs to different inputs'')
      else case json_get2 declared ''ground_truth'' ''sha256'' of Inl e \<Rightarrow> Inl e | Inr recorded \<Rightarrow>
      case sha256_file h d output 0 None of Inl e \<Rightarrow> Inl e | Inr sha \<Rightarrow>
      if \<not> py_eq recorded (JStr sha) then Inl (ValueError ''existing ground-truth SHA-256 mismatch'')
      else Inr declared)"

definition truth_recovered ::
  "host \<Rightarrow> truth_job \<Rightarrow> truth_ctx \<Rightarrow> fsys \<Rightarrow> (truth_meta \<times> pystr) res" where
  "truth_recovered h job ctx d =
     (let output = tj_output job; state_path = checkpoint_path output in
      if \<not> path_exists d state_path
        then Inl (ValueError ''existing ground truth has no provenance sidecar/checkpoint'')
      else case load_json h d state_path of Inl e \<Rightarrow> Inl e | Inr state \<Rightarrow>
      case json_get state ''status'' of Inl e \<Rightarrow> Inl e | Inr status \<Rightarrow>
      case json_get state ''input_hash'' of Inl e \<Rightarrow> Inl e | Inr hash \<Rightarrow>
      case json_get state ''ground_truth_sha256'' of Inl e \<Rightarrow> Inl e | Inr recorded \<Rightarrow>
      case sha256_file h d output 0 None of Inl e \<Rightarrow> Inl e | Inr sha \<Rightarrow>
      if \<not> py_eq status (JStr (u ''ready-to-publish'')) \<or> \<not> py_eq hash (JStr (tc_hash ctx))
           \<or> \<not> py_eq recorded (JStr sha)
        then Inl (ValueError ''ground-truth publication checkpoint mismatch'')
      else case read_truth_file h job ctx d output of Inl e \<Rightarrow> Inl e | Inr (_, truth) \<Rightarrow>
      case checkpoint_created_at state of Inl e \<Rightarrow> Inl e | Inr started \<Rightarrow> Inr (truth, started))"

definition truth_existing ::
  "host \<Rightarrow> (nat \<Rightarrow> pystr) \<Rightarrow> truth_job \<Rightarrow> truth_ctx \<Rightarrow> world \<Rightarrow> world \<times> json option res" where
  "truth_existing h clock job ctx w =
     (let output = tj_output job; meta_path = sidecar_path output in
      if path_exists (fs w) output \<and> path_exists (fs w) meta_path then
        (case truth_declared h job ctx (fs w) of Inl e \<Rightarrow> (w, Inl e) | Inr declared \<Rightarrow>
         (w, Inr (Some declared)))
      else if path_exists (fs w) output \<and> \<not> path_exists (fs w) meta_path then
        (case truth_recovered h job ctx (fs w) of Inl e \<Rightarrow> (w, Inl e) | Inr (truth, started) \<Rightarrow>
         let declared = JObj (tc_stable ctx @ jobj
               [(''input_hash'', JStr (tc_hash ctx)),
                (''created_at'', JStr (clock (length (past w)))),
                (''generation_started_at'', JStr started),
                (''ground_truth'', truth_json truth),
                (''note'', JStr (u ''Sidecar recovered from a verified ready-to-publish checkpoint.''))]);
             w1 = atomic_write_json h w meta_path declared
         in (unlink_file w1 (checkpoint_path output), Inr (Some declared)))
      else (w, Inr None))"

subsection \<open>Resuming and starting\<close>

text \<open>
  What a checkpoint promises about the partial file: the rows completed, and the length and
  digest of the committed prefix (a checkpoint of an older version has only
  \<open>partial_sha256\<close>, over the whole file).
\<close>

definition truth_committed :: "json \<Rightarrow> nat \<Rightarrow> (int \<times> json) res" where
  "truth_committed state observed_length =
     (case json_get state ''committed_length_bytes'' of Inl e \<Rightarrow> Inl e | Inr cl \<Rightarrow>
      case json_get state ''partial_sha256'' of Inl e \<Rightarrow> Inl e | Inr legacy \<Rightarrow>
      case int_of_json (if cl = JNull then JInt (int observed_length) else cl) of
        Inl e \<Rightarrow> Inl e | Inr committed_length \<Rightarrow>
      Inr (committed_length,
           case json_item state ''committed_prefix_sha256'' of Inl _ \<Rightarrow> legacy | Inr s \<Rightarrow> s))"

definition truth_progress :: "truth_ctx \<Rightarrow> json \<Rightarrow> (int \<times> pystr) res" where
  "truth_progress ctx state =
     (case json_get state ''input_hash'' of Inl e \<Rightarrow> Inl e | Inr hash \<Rightarrow>
      if \<not> py_eq hash (JStr (tc_hash ctx))
        then Inl (RuntimeError ''ground-truth checkpoint belongs to different inputs'')
      else case checkpoint_created_at state of Inl e \<Rightarrow> Inl e | Inr started \<Rightarrow>
      case json_item state ''completed_queries'' of Inl e \<Rightarrow> Inl e | Inr cq \<Rightarrow>
      case int_of_json cq of Inl e \<Rightarrow> Inl e | Inr completed \<Rightarrow> Inr (completed, started))"

definition truth_checkpoint ::
  "host \<Rightarrow> truth_job \<Rightarrow> truth_ctx \<Rightarrow> fsys \<Rightarrow> (int \<times> pystr \<times> int) res" where
  "truth_checkpoint h job ctx d =
     (let partial = partial_path (tj_output job); checkpoint = checkpoint_path (tj_output job) in
      if \<not> path_exists d checkpoint \<or> \<not> path_exists d partial
        then Inl (RuntimeError ''ground-truth checkpoint and partial must coexist'')
      else case load_json h d checkpoint of Inl e \<Rightarrow> Inl e | Inr state \<Rightarrow>
      case truth_progress ctx state of Inl e \<Rightarrow> Inl e | Inr (completed, started) \<Rightarrow>
      case open_rb d partial of Inl e \<Rightarrow> Inl e | Inr content \<Rightarrow>
      case truth_committed state (length content) of Inl e \<Rightarrow> Inl e | Inr (committed_length, committed_sha) \<Rightarrow>
      if int (length content) < committed_length
        then Inl (RuntimeError ''ground-truth partial is shorter than its committed checkpoint'')
      else case sha256_prefix h d partial 0 committed_length of Inl e \<Rightarrow> Inl e | Inr sha \<Rightarrow>
      if \<not> py_eq (JStr sha) committed_sha
        then Inl (RuntimeError ''ground-truth committed-prefix checksum mismatch'')
      else Inr (completed, started, committed_length))"

definition truth_resume ::
  "host \<Rightarrow> truth_job \<Rightarrow> truth_ctx \<Rightarrow> world \<Rightarrow> world \<times> (nat \<times> pystr) res" where
  "truth_resume h job ctx w =
     (let partial = partial_path (tj_output job) in
      case truth_checkpoint h job ctx (fs w) of Inl e \<Rightarrow> (w, Inl e) | Inr (completed, started, committed_length) \<Rightarrow>
      let w1 = (case file_at (fs w) partial of None \<Rightarrow> w | Some content \<Rightarrow>
                if committed_length < int (length content)
                then truncate_file w partial (nat committed_length) else w) in
      case open_rb (fs w1) partial of Inl e \<Rightarrow> (w1, Inl e) | Inr content \<Rightarrow>
      case iter_nonempty_lines content of Inl e \<Rightarrow> (w1, Inl e) | Inr lines \<Rightarrow>
      if int (length lines) \<noteq> completed + 1
        then (w1, Inl (RuntimeError ''ground-truth partial row count/header mismatch''))
      else case lines of [] \<Rightarrow> (w1, Inl (IndexError ''list index out of range'')) | first # _ \<Rightarrow>
      case utf8_decode (truth_header job ctx) of Inl e \<Rightarrow> (w1, Inl e) | Inr header \<Rightarrow>
      if first \<noteq> py_strip header
        then (w1, Inl (RuntimeError ''ground-truth partial row count/header mismatch''))
      else (w1, Inr (nat completed, started)))"

definition truth_state ::
  "truth_ctx \<Rightarrow> pystr \<Rightarrow> string \<Rightarrow> nat \<Rightarrow> nat \<Rightarrow> pystr \<Rightarrow> (string \<times> json) list \<Rightarrow> pystr \<Rightarrow> json" where
  "truth_state ctx started status completed committed_length committed_sha extra now =
     JObj (tc_stable ctx @ jobj
       ([(''input_hash'', JStr (tc_hash ctx)), (''created_at'', JStr started),
         (''status'', JStr (u status)), (''completed_queries'', JInt (int completed)),
         (''committed_length_bytes'', JInt (int committed_length)),
         (''committed_prefix_sha256'', JStr committed_sha)] @ extra @ [(''updated_at'', JStr now)]))"

definition truth_start ::
  "host \<Rightarrow> (nat \<Rightarrow> pystr) \<Rightarrow> truth_job \<Rightarrow> truth_ctx \<Rightarrow> world \<Rightarrow> world \<times> (nat \<times> pystr) res" where
  "truth_start h clock job ctx w =
     (let partial = partial_path (tj_output job); started = clock (length (past w));
          header = truth_header job ctx in
      case create_file w partial header of (w1, Inl e) \<Rightarrow> (w1, Inl e) | (w1, Inr _) \<Rightarrow>
      case sha256_file h (fs w1) partial 0 None of Inl e \<Rightarrow> (w1, Inl e) | Inr sha \<Rightarrow>
      (atomic_write_json h w1 (checkpoint_path (tj_output job))
         (truth_state ctx started ''running'' 0 (length header) sha [] (clock (length (past w1)))),
       Inr (0, started)))"

definition truth_prepare ::
  "host \<Rightarrow> (nat \<Rightarrow> pystr) \<Rightarrow> truth_job \<Rightarrow> truth_ctx \<Rightarrow> world \<Rightarrow> world \<times> (nat \<times> pystr) res" where
  "truth_prepare h clock job ctx w =
     (if path_exists (fs w) (checkpoint_path (tj_output job))
         \<or> path_exists (fs w) (partial_path (tj_output job))
      then truth_resume h job ctx w else truth_start h clock job ctx w)"

subsection \<open>The block loop and publication\<close>

fun truth_blocks ::
  "host \<Rightarrow> bytes kernels \<Rightarrow> (nat \<Rightarrow> pystr) \<Rightarrow> truth_job \<Rightarrow> truth_ctx \<Rightarrow> pystr \<Rightarrow> world \<Rightarrow> nat
     \<Rightarrow> bytes list list \<Rightarrow> world \<times> nat res" where
  "truth_blocks h K clock job ctx started w completed [] = (w, Inr completed)"
| "truth_blocks h K clock job ctx started w completed (block # blocks) =
     (let partial = partial_path (tj_output job) in
      case exact_topk_block K (tc_corpus ctx) block (nat (tj_top_k job)) (tj_corpus_block_rows job) of
        Inl e \<Rightarrow> (w, Inl e) | Inr identifiers \<Rightarrow>
      let w1 = append_file w partial (gt_payload (map (map unat) identifiers));
          completed' = completed + length block in
      case open_rb (fs w1) partial of Inl e \<Rightarrow> (w1, Inl e) | Inr content \<Rightarrow>
      case sha256_file h (fs w1) partial 0 (Some (length content)) of Inl e \<Rightarrow> (w1, Inl e) | Inr sha \<Rightarrow>
      let w2 = atomic_write_json h w1 (checkpoint_path (tj_output job))
                 (truth_state ctx started ''running'' completed' (length content) sha []
                    (clock (length (past w1))))
      in truth_blocks h K clock job ctx started w2 completed' blocks)"

definition truth_loop ::
  "host \<Rightarrow> bytes kernels \<Rightarrow> (nat \<Rightarrow> pystr) \<Rightarrow> truth_job \<Rightarrow> truth_ctx \<Rightarrow> pystr \<Rightarrow> world \<Rightarrow> nat
     \<Rightarrow> world \<times> nat res" where
  "truth_loop h K clock job ctx started w completed =
     (if tj_query_block_rows job = 0 then (w, Inl (ValueError ''range() arg 3 must not be zero''))
      else truth_blocks h K clock job ctx started w completed
             (if tj_query_block_rows job < 0 then []
              else chunks (nat (tj_query_block_rows job) - 1) (drop completed (tc_queries ctx))))"

definition truth_publish ::
  "host \<Rightarrow> (nat \<Rightarrow> pystr) \<Rightarrow> truth_job \<Rightarrow> truth_ctx \<Rightarrow> pystr \<Rightarrow> world \<Rightarrow> nat \<Rightarrow> world \<times> json res" where
  "truth_publish h clock job ctx started w completed =
     (let output = tj_output job; partial = partial_path output; checkpoint = checkpoint_path output in
      case read_truth_file h job ctx (fs w) partial of Inl e \<Rightarrow> (w, Inl e) | Inr (_, truth) \<Rightarrow>
      case sha256_file h (fs w) partial 0 None of Inl e \<Rightarrow> (w, Inl e) | Inr sha \<Rightarrow>
      case open_rb (fs w) partial of Inl e \<Rightarrow> (w, Inl e) | Inr content \<Rightarrow>
      let w1 = atomic_write_json h w checkpoint
                 (truth_state ctx started ''ready-to-publish'' completed (length content) sha
                    [(''ground_truth_sha256'', JStr sha)] (clock (length (past w))));
          w2 = replace_file w1 partial output;
          published = truth\<lparr>tm_path := fs_resolve (fs w2) output\<rparr>;
          declared = JObj (tc_stable ctx @ jobj
            [(''input_hash'', JStr (tc_hash ctx)),
             (''created_at'', JStr (clock (length (past w2)))),
             (''generation_started_at'', JStr started),
             (''ground_truth'', truth_json published)]);
          w3 = atomic_write_json h w2 (sidecar_path output) declared
      in (unlink_file w3 checkpoint, Inr declared))"

definition generate_ground_truth ::
  "host \<Rightarrow> numerics \<Rightarrow> bytes kernels \<Rightarrow> (nat \<Rightarrow> pystr) \<Rightarrow> truth_job \<Rightarrow> world \<Rightarrow> world \<times> json res" where
  "generate_ground_truth h np K clock job w =
     (case truth_inputs h np (fs w) job of Inl e \<Rightarrow> (w, Inl e) | Inr ctx \<Rightarrow>
      case truth_existing h clock job ctx w of (w1, Inl e) \<Rightarrow> (w1, Inl e)
      | (w1, Inr (Some declared)) \<Rightarrow> (w1, Inr declared)
      | (w1, Inr None) \<Rightarrow>
      (case truth_prepare h clock job ctx w1 of (w2, Inl e) \<Rightarrow> (w2, Inl e) | (w2, Inr (completed, started)) \<Rightarrow>
       case truth_loop h K clock job ctx started w2 completed of (w3, Inl e) \<Rightarrow> (w3, Inl e) | (w3, Inr completed') \<Rightarrow>
       truth_publish h clock job ctx started w3 completed'))"

subsection \<open>The environment of a job\<close>

definition truth_input_paths :: "truth_job \<Rightarrow> pystr list" where
  "truth_input_paths job =
     [tj_corpus_cache job, tj_query_cache job, tj_documents job, tj_queries job,
      sidecar_path (tj_corpus_cache job), sidecar_path (tj_query_cache job)]"

text \<open>
  The four generated files are distinct and none is an input; the inputs evaluate to \<open>ctx\<close>;
  block sizes are positive; row numbers fit \<open>uint32\<close>; the codec, NumPy and the clock keep their
  contracts; the recorded model identity is a plain value.
\<close>

definition truth_env ::
  "host \<Rightarrow> numerics \<Rightarrow> bytes kernels \<Rightarrow> (bytes \<Rightarrow> bytes \<Rightarrow> rat) \<Rightarrow> truth_job \<Rightarrow> truth_ctx \<Rightarrow> fsys \<Rightarrow> bool" where
  "truth_env h np K dot job ctx d \<longleftrightarrow>
     distinct (map (fs_resolve d) (managed (tj_output job)))
     \<and> (\<forall>p \<in> set (truth_input_paths job). fs_resolve d p \<notin> fs_resolve d ` set (managed (tj_output job)))
     \<and> truth_inputs h np d job = Inr ctx
     \<and> 0 < tj_query_block_rows job \<and> 0 < tj_corpus_block_rows job
     \<and> length (tc_corpus ctx) \<le> 2 ^ 32 \<and> length (tc_queries ctx) < 10 ^ 20
     \<and> codec_ok h \<and> kernels_ok K dot
     \<and> json_plain (JObj (tc_stable ctx))"

lemma managed_set_file:
  assumes "truth_env h np K dot job ctx d" and "p \<in> set (managed (tj_output job))"
  shows "truth_env h np K dot job ctx (set_file d p c)"
proof -
  have other: "fs_resolve d q \<noteq> fs_resolve d p" if "q \<in> set (truth_input_paths job)" for q
    using assms that by (auto simp: truth_env_def)
  have o: "open_rb (set_file d p c) q = open_rb d q" if "q \<in> set (truth_input_paths job)" for q
    using other [OF that] by (simp add: open_rb_file_at)
  have reads: "read_cache_default h np (set_file d p c) q = read_cache_default h np d q"
    "source_identity h (set_file d p c) q = source_identity h d q"
    "sha256_file h (set_file d p c) q n l = sha256_file h d q n l"
    "load_json h (set_file d p c) q = load_json h d q"
    if "q \<in> set (truth_input_paths job)" for q n l
    unfolding read_cache_default_def source_identity_def sha256_file_def load_json_def
      o [OF that] resolve_set_file by (rule refl)+
  have mem: "tj_corpus_cache job \<in> set (truth_input_paths job)"
    "tj_query_cache job \<in> set (truth_input_paths job)" "tj_documents job \<in> set (truth_input_paths job)"
    "tj_queries job \<in> set (truth_input_paths job)"
    "sidecar_path (tj_corpus_cache job) \<in> set (truth_input_paths job)"
    "sidecar_path (tj_query_cache job) \<in> set (truth_input_paths job)"
    by (simp_all add: truth_input_paths_def)
  have v: "truth_vectors h np (set_file d p c) job = truth_vectors h np d job"
    unfolding truth_vectors_def validate_cache_source_def
      reads(1) [OF mem(1)] reads(1) [OF mem(2)] reads(2) [OF mem(3)] reads(2) [OF mem(4)] ..
  have i: "truth_identity h (set_file d p c) job = truth_identity h d job"
    unfolding truth_identity_def
      reads(3) [OF mem(1)] reads(3) [OF mem(2)] reads(4) [OF mem(5)] reads(4) [OF mem(6)] ..
  have "truth_inputs h np (set_file d p c) job = truth_inputs h np d job"
    unfolding truth_inputs_def v i ..
  then show ?thesis using assms(1) by (simp add: truth_env_def)
qed

lemma env_paths:
  assumes "truth_env h np K dot job ctx d"
  defines "r \<equiv> fs_resolve d" and "out \<equiv> tj_output job"
  shows "r out \<noteq> r (sidecar_path out)" "r out \<noteq> r (checkpoint_path out)" "r out \<noteq> r (partial_path out)"
    "r (sidecar_path out) \<noteq> r (checkpoint_path out)" "r (sidecar_path out) \<noteq> r (partial_path out)"
    "r (checkpoint_path out) \<noteq> r (partial_path out)"
    "r (sidecar_path out) \<noteq> r out" "r (checkpoint_path out) \<noteq> r out" "r (partial_path out) \<noteq> r out"
    "r (checkpoint_path out) \<noteq> r (sidecar_path out)" "r (partial_path out) \<noteq> r (sidecar_path out)"
    "r (partial_path out) \<noteq> r (checkpoint_path out)"
  using assms by (auto simp: truth_env_def managed_def)

lemma env_facts:
  assumes "truth_env h np K dot job ctx d"
  shows "tc_queries ctx \<noteq> []" "0 < tj_top_k job" "nat (tj_top_k job) \<le> length (tc_corpus ctx)"
proof -
  obtain vp where vp: "truth_vectors h np d job = Inr vp"
    and ctx: "tc_queries ctx = vp_queries vp" "tc_corpus ctx = vp_corpus vp"
    using assms by (auto simp: truth_env_def truth_inputs_def ok_simps)
  obtain qs m where q: "read_cache_default h np d (tj_query_cache job) = Inr (qs, m)" and "vp_queries vp = qs"
    and k: "\<not> (tj_top_k job \<le> 0 \<or> int (length (vp_corpus vp)) < tj_top_k job)"
    using vp unfolding truth_vectors_def by (auto simp: ok_simps)
  then show "0 < tj_top_k job" "nat (tj_top_k job) \<le> length (tc_corpus ctx)" using ctx by auto
  have "qs \<noteq> []"
    using q by (auto simp: read_cache_default_def read_cache_def ok_simps validate_vector_matrix_ok)
  then show "tc_queries ctx \<noteq> []" using ctx \<open>vp_queries vp = qs\<close> by simp
qed

subsection \<open>Documents of a job\<close>

text \<open>The keys of \<open>stable\<close>, and the keys that the documents add to it.\<close>

definition stable_names :: "string list" where
  "stable_names = [''schema'', ''corpus_cache_sha256'', ''query_cache_sha256'',
     ''corpus_source_sha256'', ''query_source_sha256'', ''model_sha256'', ''query_count'',
     ''corpus_count'', ''dimensions'', ''top_k'', ''algorithm'', ''query_block_rows'',
     ''corpus_block_rows'']"

definition added_names :: "string list" where
  "added_names = [''input_hash'', ''created_at'', ''status'', ''completed_queries'',
     ''committed_length_bytes'', ''committed_prefix_sha256'', ''partial_sha256'', ''updated_at'',
     ''ground_truth_sha256'', ''generation_started_at'', ''ground_truth'', ''note'']"

lemma names_disjoint: "set stable_names \<inter> set added_names = {}"
  by (simp add: stable_names_def added_names_def)

lemma map_fst_jobj: "map fst (jobj kvs) = map u (map fst kvs)"
  by (simp add: jobj_def case_prod_unfold)

lemma map_fst_stable: "map fst (truth_stable job vp a b m) = map u stable_names"
  unfolding truth_stable_def map_fst_jobj stable_names_def by simp

lemma stable_keys:
  assumes "truth_env h np K dot job ctx d"
  shows "map fst (tc_stable ctx) = map u stable_names"
proof -
  obtain vp a b m where "tc_stable ctx = truth_stable job vp a b m"
    using assms unfolding truth_env_def truth_inputs_def by (auto simp: ok_simps Let_def)
  then show ?thesis by (simp only: map_fst_stable)
qed

lemma u_mem_iff: "u k \<in> set (map u ks) \<longleftrightarrow> k \<in> set ks"
  by auto

lemma stable_lookup:
  assumes "truth_env h np K dot job ctx d" and "k \<in> set added_names"
  shows "map_of (tc_stable ctx @ jobj kvs) (u k) = map_of kvs k"
    "jget (tc_stable ctx @ jobj kvs) k = jget (jobj kvs) k"
proof -
  have "k \<notin> set stable_names" using assms(2) names_disjoint by blast
  then have "u k \<notin> set (map fst (tc_stable ctx))"
    unfolding stable_keys [OF assms(1)] u_mem_iff .
  then have "map_of (tc_stable ctx) (u k) = None" by (simp add: map_of_eq_None_iff)
  then show m: "map_of (tc_stable ctx @ jobj kvs) (u k) = map_of kvs k"
    by (simp add: map_add_def split: option.splits)
  then show "jget (tc_stable ctx @ jobj kvs) k = jget (jobj kvs) k" by (simp add: jget_def)
qed

lemma plain_with_stable:
  assumes env: "truth_env h np K dot job ctx d"
    and keys: "set (map fst kvs) \<subseteq> set added_names"
    and plain: "distinct (map fst kvs)" "\<forall>kv \<in> set kvs. json_plain (snd kv)"
  shows "json_plain (JObj (tc_stable ctx @ jobj kvs))"
proof -
  have st: "json_plain (JObj (tc_stable ctx))" using env by (simp only: truth_env_def)
  have "distinct (map u (map fst kvs))"
    using plain(1) by (simp add: distinct_map inj_on_def)
  moreover have "set (map u (map fst kvs)) \<inter> set (map u stable_names) = {}"
    using names_disjoint keys u_mem_iff [of _ stable_names] by fastforce
  ultimately have "distinct (map fst (tc_stable ctx @ jobj kvs))"
    using st stable_keys [OF env] unfolding map_append map_fst_jobj by auto
  moreover have "\<forall>kv \<in> set (tc_stable ctx). json_plain (snd kv)"
    using st by (simp add: list_all_iff)
  moreover have "\<forall>kv \<in> set (jobj kvs). json_plain (snd kv)"
    using plain(2) by (auto simp: jobj_def)
  ultimately show ?thesis by (auto simp: list_all_iff)
qed

text \<open>Reading a checkpoint of this job back.\<close>

definition state_doc ::
  "host \<Rightarrow> truth_ctx \<Rightarrow> nat \<Rightarrow> bytes \<Rightarrow> bool \<Rightarrow> bytes \<Rightarrow> bool" where
  "state_doc h ctx c content ready doc \<longleftrightarrow>
     (\<exists>started status extra now. py_strip started \<noteq> []
        \<and> (ready \<longrightarrow> status = ''ready-to-publish'')
        \<and> extra = (if ready then [(''ground_truth_sha256'', JStr (sha_hex h content))] else [])
        \<and> doc = dumps_indent h (truth_state ctx started status c (length content)
                  (sha_hex h content) extra now) @ [10])"

lemma added_members:
  "''input_hash'' \<in> set added_names" "''created_at'' \<in> set added_names" "''status'' \<in> set added_names"
  "''completed_queries'' \<in> set added_names" "''committed_length_bytes'' \<in> set added_names"
  "''committed_prefix_sha256'' \<in> set added_names" "''partial_sha256'' \<in> set added_names"
  "''updated_at'' \<in> set added_names" "''ground_truth_sha256'' \<in> set added_names"
  "''generation_started_at'' \<in> set added_names" "''ground_truth'' \<in> set added_names"
  "''note'' \<in> set added_names"
  by (simp_all add: added_names_def)

lemma state_doc_read:
  assumes env: "truth_env h np K dot job ctx d" and doc: "state_doc h ctx c content ready doc"
    and at: "file_at d p = Some doc"
  obtains v started where "load_json h d p = Inr v" and "py_strip started \<noteq> []"
    and "json_get v ''input_hash'' = Inr (JStr (tc_hash ctx))"
    and "json_get v ''created_at'' = Inr (JStr started)"
    and "ready \<longrightarrow> json_get v ''status'' = Inr (JStr (u ''ready-to-publish''))"
    and "json_item v ''completed_queries'' = Inr (JInt (int c))"
    and "json_get v ''committed_length_bytes'' = Inr (JInt (int (length content)))"
    and "json_item v ''committed_prefix_sha256'' = Inr (JStr (sha_hex h content))"
    and "json_get v ''partial_sha256'' = Inr JNull"
    and "json_get v ''ground_truth_sha256'' = Inr (if ready then JStr (sha_hex h content) else JNull)"
    and "checkpoint_created_at v = Inr started"
proof -
  obtain started status extra now where s: "py_strip started \<noteq> []"
      "ready \<longrightarrow> status = ''ready-to-publish''"
      "extra = (if ready then [(''ground_truth_sha256'', JStr (sha_hex h content))] else [])"
      "doc = dumps_indent h (truth_state ctx started status c (length content)
                  (sha_hex h content) extra now) @ [10]"
    using doc unfolding state_doc_def by blast
  define kvs where "kvs = [(''input_hash'', JStr (tc_hash ctx)), (''created_at'', JStr started),
         (''status'', JStr (u status)), (''completed_queries'', JInt (int c)),
         (''committed_length_bytes'', JInt (int (length content))),
         (''committed_prefix_sha256'', JStr (sha_hex h content))] @ extra @ [(''updated_at'', JStr now)]"
  define m where "m = tc_stable ctx @ jobj kvs"
  have st: "truth_state ctx started status c (length content) (sha_hex h content) extra now = JObj m"
    by (simp only: truth_state_def m_def kvs_def)
  have "set (map fst kvs) \<subseteq> set added_names" unfolding kvs_def s(3) by (auto simp: added_members)
  moreover have "distinct (map fst kvs)" "\<forall>kv \<in> set kvs. json_plain (snd kv)"
    unfolding kvs_def s(3) by simp_all
  ultimately have plain: "json_plain (JObj m)" unfolding m_def by (rule plain_with_stable [OF env])
  have "codec_ok h" using env by (simp only: truth_env_def)
  from load_json_of_file [OF this plain, of d p]
  have load: "load_json h d p = Inr (json_sorted (JObj m))" using at s(4) st by simp
  note look = stable_lookup [OF env, folded m_def]
  have get: "json_get (json_sorted (JObj m)) k = Inr (json_sorted (jget (jobj kvs) k))"
    if "k \<in> set added_names" for k
    unfolding json_get_sorted [OF plain] unfolding m_def stable_lookup(2) [OF env that] ..
  have item: "json_item (json_sorted (JObj m)) k = Inr (json_sorted v)"
    if "k \<in> set added_names" "map_of kvs k = Some v" for k v
    using that stable_lookup(1) [OF env that(1), of kvs, folded m_def]
    by (intro json_item_sorted [OF plain]) simp
  note g = get [OF added_members(1)] get [OF added_members(2)] get [OF added_members(3)]
    get [OF added_members(5)] get [OF added_members(7)] get [OF added_members(9)]
  have i: "json_item (json_sorted (JObj m)) ''completed_queries'' = Inr (json_sorted (JInt (int c)))"
    "json_item (json_sorted (JObj m)) ''committed_prefix_sha256'' = Inr (json_sorted (JStr (sha_hex h content)))"
    by (rule item, simp add: added_members, simp add: kvs_def)+
  have created: "json_get (json_sorted (JObj m)) ''created_at'' = Inr (JStr started)"
    unfolding g by (simp add: kvs_def)
  show thesis
  proof (rule that [OF load s(1)])
    show "json_get (json_sorted (JObj m)) ''created_at'' = Inr (JStr started)" by (rule created)
    show "checkpoint_created_at (json_sorted (JObj m)) = Inr started"
      unfolding checkpoint_created_at_def created using s(1) by simp
  qed (unfold g i, simp_all add: kvs_def s(2,3))
qed

subsection \<open>The disks a run can leave\<close>

text \<open>The exact table, and the partial file after \<open>c\<close> committed queries.\<close>

definition truth_table :: "(bytes \<Rightarrow> bytes \<Rightarrow> rat) \<Rightarrow> truth_job \<Rightarrow> truth_ctx \<Rightarrow> nat list list" where
  "truth_table dot job ctx =
     map (\<lambda>q. map unat (exact_row dot (tc_corpus ctx) (nat (tj_top_k job)) q)) (tc_queries ctx)"

definition committed :: "(bytes \<Rightarrow> bytes \<Rightarrow> rat) \<Rightarrow> truth_job \<Rightarrow> truth_ctx \<Rightarrow> nat \<Rightarrow> bytes" where
  "committed dot job ctx c = truth_header job ctx @ gt_payload (take c (truth_table dot job ctx))"

definition truth_file :: "(bytes \<Rightarrow> bytes \<Rightarrow> rat) \<Rightarrow> truth_job \<Rightarrow> truth_ctx \<Rightarrow> bytes" where
  "truth_file dot job ctx = truth_header job ctx @ gt_payload (truth_table dot job ctx)"

text \<open>A sidecar that names this job and the published file.\<close>

definition declared_doc ::
  "host \<Rightarrow> (bytes \<Rightarrow> bytes \<Rightarrow> rat) \<Rightarrow> truth_job \<Rightarrow> truth_ctx \<Rightarrow> bytes \<Rightarrow> bool" where
  "declared_doc h dot job ctx doc \<longleftrightarrow>
     (\<exists>created started truth note. tm_sha truth = sha_hex h (truth_file dot job ctx)
        \<and> (note = [] \<or> (\<exists>t. note = [(''note'', JStr t)]))
        \<and> doc = dumps_indent h (JObj (tc_stable ctx @ jobj
             ([(''input_hash'', JStr (tc_hash ctx)), (''created_at'', JStr created),
               (''generation_started_at'', JStr started), (''ground_truth'', truth_json truth)] @ note)))
             @ [10])"

type_synonym view = "bytes option \<times> bytes option \<times> bytes option \<times> bytes option"

text \<open>Output, sidecar, checkpoint and partial file of a job.\<close>

definition view :: "truth_job \<Rightarrow> fsys \<Rightarrow> view" where
  "view job d = (file_at d (tj_output job), file_at d (sidecar_path (tj_output job)),
     file_at d (checkpoint_path (tj_output job)), file_at d (partial_path (tj_output job)))"

inductive recoverable ::
  "host \<Rightarrow> (bytes \<Rightarrow> bytes \<Rightarrow> rat) \<Rightarrow> truth_job \<Rightarrow> truth_ctx \<Rightarrow> view \<Rightarrow> bool"
  for h dot job ctx where
  fresh: "recoverable h dot job ctx (None, None, None, None)"
| running: "c \<le> length (tc_queries ctx) \<Longrightarrow> state_doc h ctx c (committed dot job ctx c) ready doc \<Longrightarrow>
    recoverable h dot job ctx (None, None, Some doc, Some (committed dot job ctx c @ junk))"
| replaced: "state_doc h ctx c (truth_file dot job ctx) True doc \<Longrightarrow>
    recoverable h dot job ctx (Some (truth_file dot job ctx), None, Some doc, None)"
| published: "declared_doc h dot job ctx doc \<Longrightarrow>
    recoverable h dot job ctx (Some (truth_file dot job ctx), Some doc, ck, None)"

text \<open>A crash inside the creation of the partial file, before its first checkpoint.\<close>

definition half_created :: "truth_job \<Rightarrow> truth_ctx \<Rightarrow> view \<Rightarrow> bool" where
  "half_created job ctx v \<longleftrightarrow> (\<exists>t. prefix t (truth_header job ctx) \<and> v = (None, None, None, Some t))"

definition truth_ok ::
  "host \<Rightarrow> numerics \<Rightarrow> bytes kernels \<Rightarrow> (bytes \<Rightarrow> bytes \<Rightarrow> rat) \<Rightarrow> truth_job \<Rightarrow> truth_ctx \<Rightarrow> fsys \<Rightarrow> bool" where
  "truth_ok h np K dot job ctx d \<longleftrightarrow> truth_env h np K dot job ctx d
     \<and> (recoverable h dot job ctx (view job d) \<or> half_created job ctx (view job d))"

abbreviation all_ok ::
  "host \<Rightarrow> numerics \<Rightarrow> bytes kernels \<Rightarrow> (bytes \<Rightarrow> bytes \<Rightarrow> rat) \<Rightarrow> truth_job \<Rightarrow> truth_ctx \<Rightarrow> world \<Rightarrow> bool" where
  "all_ok h np K dot job ctx w \<equiv> \<forall>d \<in> visited w. truth_ok h np K dot job ctx d"

lemma managed_members:
  "p \<in> set (managed p)" "sidecar_path p \<in> set (managed p)"
  "checkpoint_path p \<in> set (managed p)" "partial_path p \<in> set (managed p)"
  by (simp_all add: managed_def)

lemma view_set_file:
  assumes "truth_env h np K dot job ctx d" and "view job d = (o1, m1, k1, p1)"
  shows "view job (set_file d (tj_output job) c) = (c, m1, k1, p1)"
    "view job (set_file d (sidecar_path (tj_output job)) c) = (o1, c, k1, p1)"
    "view job (set_file d (checkpoint_path (tj_output job)) c) = (o1, m1, c, p1)"
    "view job (set_file d (partial_path (tj_output job)) c) = (o1, m1, k1, c)"
  using assms(2) env_paths [OF assms(1)] by (simp_all add: view_def)

lemma ok_set_file:
  assumes "truth_env h np K dot job ctx d" and "p \<in> set (managed (tj_output job))"
    and "recoverable h dot job ctx (view job (set_file d p c))
      \<or> half_created job ctx (view job (set_file d p c))"
  shows "truth_ok h np K dot job ctx (set_file d p c)"
  using managed_set_file [OF assms(1,2)] assms(3) by (simp add: truth_ok_def)

lemma truth_table_facts:
  assumes "truth_env h np K dot job ctx d"
  shows "length (truth_table dot job ctx) = length (tc_queries ctx)"
    "truth_rows (nat (tj_top_k job)) (length (tc_corpus ctx)) (truth_table dot job ctx)"
    "\<forall>r \<in> set (truth_table dot job ctx). r \<noteq> []"
proof -
  show len: "length (truth_table dot job ctx) = length (tc_queries ctx)"
    by (simp add: truth_table_def)
  have n: "length (tc_corpus ctx) \<le> 2 ^ 32" using assms by (simp add: truth_env_def)
  note v = exact_row_valid [OF n env_facts(3) [OF assms]]
  have "inj_on unat (set r)" for r :: "32 word list" by (simp add: inj_on_def word_unat_eq_iff)
  then show t: "truth_rows (nat (tj_top_k job)) (length (tc_corpus ctx)) (truth_table dot job ctx)"
    using v by (auto simp: truth_rows_def truth_table_def distinct_map)
  show "\<forall>r \<in> set (truth_table dot job ctx). r \<noteq> []"
    using t env_facts(2) [OF assms] by (auto simp: truth_rows_def)
qed

lemma committed_all: "truth_env h np K dot job ctx d \<Longrightarrow>
    committed dot job ctx (length (tc_queries ctx)) = truth_file dot job ctx"
  using truth_table_facts(1) by (fastforce simp: committed_def truth_file_def)

lemma committed_0: "committed dot job ctx 0 = truth_header job ctx"
  by (simp add: committed_def gt_payload_def)

text \<open>The committed prefix has one header line and one line per query.\<close>

definition header_line :: "truth_job \<Rightarrow> truth_ctx \<Rightarrow> pystr" where
  "header_line job ctx = py_join (u '' '') [u ''LEANN_GT1'', dec_nat (length (tc_queries ctx)),
     dec_nat (nat (tj_top_k job)), dec_nat (length (tc_corpus ctx))]"

lemma committed_lines:
  assumes env: "truth_env h np K dot job ctx d" and c: "c \<le> length (tc_queries ctx)"
  obtains rest where "iter_nonempty_lines (committed dot job ctx c) = Inr (header_line job ctx # rest)"
    and "length rest = c"
proof
  let ?rows = "take c (truth_table dot job ctx)"
  have "\<forall>r \<in> set ?rows. r \<noteq> []"
    using truth_table_facts(3) [OF env] by (meson in_set_takeD)
  from gt_lines [OF this]
  show "iter_nonempty_lines (committed dot job ctx c)
      = Inr (header_line job ctx # map (\<lambda>row. py_join (u '' '') (map dec_nat row)) ?rows)"
    unfolding committed_def truth_header_def header_line_def .
  show "length (map (\<lambda>row. py_join (u '' '') (map dec_nat row)) ?rows) = c"
    using c truth_table_facts(1) [OF env] by simp
qed

lemma header_text:
  "utf8_decode (truth_header job ctx) = Inr (header_line job ctx @ [10])"
  "py_strip (header_line job ctx @ [10]) = header_line job ctx"
proof -
  let ?l = "header_line job ctx"
  have chars: "\<forall>x \<in> set ?l. is_scalar x"
    using gt_text_chars [where rows = "[]"] unfolding header_line_def by (metis empty_iff list.set(1) list.set_intros(1))
  then have "\<forall>x \<in> set (?l @ [10]). is_scalar x" by (simp add: is_scalar_def)
  from utf8_decode_bytes [OF this] show "utf8_decode (truth_header job ctx) = Inr (?l @ [10])"
    unfolding truth_header_def gt_header_def header_line_def .
  let ?d = "dec_nat (length (tc_corpus ctx))"
  obtain xs where xs: "?l = xs @ ?d" "xs \<noteq> []" "hd xs = 76"
    by (rule that [of "u ''LEANN_GT1 '' @ dec_nat (length (tc_queries ctx)) @ u '' ''
          @ dec_nat (nat (tj_top_k job)) @ u '' ''"]) (simp_all add: header_line_def u_def)
  have "?d \<noteq> []" "\<not> py_ws (last ?d)"
    using py_word_dec [of "length (tc_corpus ctx)"] by (auto simp: py_word_def)
  then have l: "?l \<noteq> []" "\<not> py_ws (last ?l)" using xs(1) by simp_all
  have "dropWhile py_ws (?l @ [10]) = ?l @ [10]"
    using xs by (cases xs) (simp_all add: py_ws_def)
  moreover have "py_rstrip (?l @ [10]) = ?l"
  proof -
    have "py_ws 10" by (simp add: py_ws_def)
    then have "rstrip_while py_ws (?l @ [10]) = rstrip_while py_ws ?l"
      by (simp add: rstrip_while_def)
    then show ?thesis using l by (simp add: py_rstrip_def rstrip_while_id)
  qed
  ultimately show "py_strip (?l @ [10]) = ?l" by (simp add: py_strip_def py_lstrip_def)
qed

subsection \<open>Stages\<close>

lemma sha256_file_at:
  "file_at d p = Some c \<Longrightarrow> sha256_file h d p 0 None = Inr (sha_hex h c)"
  "file_at d p = Some c \<Longrightarrow> sha256_file h d p 0 (Some (length c)) = Inr (sha_hex h c)"
  by (simp_all add: sha256_file_def open_rb_file_at sha256_bytes_all sha256_bytes_some)

lemma sha256_prefix_at:
  "file_at d p = Some (c @ t) \<Longrightarrow> sha256_prefix h d p 0 (int (length c)) = Inr (sha_hex h c)"
  by (simp add: sha256_prefix_def sha256_file_def open_rb_file_at sha256_bytes_some)

lemma running_ok:
  assumes "truth_env h np K dot job ctx d" and "c \<le> length (tc_queries ctx)"
    and "state_doc h ctx c (committed dot job ctx c) ready doc"
    and "view job d = (None, None, Some doc, Some (committed dot job ctx c @ junk))"
  shows "truth_ok h np K dot job ctx d"
  using assms recoverable.running [OF assms(2,3), of junk] by (simp add: truth_ok_def)

lemma truth_checkpoint_running:
  assumes env: "truth_env h np K dot job ctx d"
    and doc: "state_doc h ctx c (committed dot job ctx c) ready doc"
    and v: "view job d = (None, None, Some doc, Some (committed dot job ctx c @ junk))"
  obtains started where "py_strip started \<noteq> []"
    and "truth_checkpoint h job ctx d = Inr (int c, started, int (length (committed dot job ctx c)))"
proof -
  let ?C = "committed dot job ctx c"
  have files: "file_at d (checkpoint_path (tj_output job)) = Some doc"
    "file_at d (partial_path (tj_output job)) = Some (?C @ junk)"
    using v by (simp_all add: view_def)
  obtain st started where load: "load_json h d (checkpoint_path (tj_output job)) = Inr st"
    and started: "py_strip started \<noteq> []"
    and g: "json_get st ''input_hash'' = Inr (JStr (tc_hash ctx))"
      "json_item st ''completed_queries'' = Inr (JInt (int c))"
      "json_get st ''committed_length_bytes'' = Inr (JInt (int (length ?C)))"
      "json_item st ''committed_prefix_sha256'' = Inr (JStr (sha_hex h ?C))"
      "json_get st ''partial_sha256'' = Inr JNull" "checkpoint_created_at st = Inr started"
    by (rule state_doc_read [OF env doc files(1)])
  have progress: "truth_progress ctx st = Inr (int c, started)"
    unfolding truth_progress_def g by (simp add: g(6) int_of_json_def)
  have comm: "truth_committed st n = Inr (int (length ?C), JStr (sha_hex h ?C))" for n
    unfolding truth_committed_def g by (simp add: int_of_json_def)
  have "truth_checkpoint h job ctx d = Inr (int c, started, int (length ?C))"
    unfolding truth_checkpoint_def Let_def load open_rb_file_at files
    by (simp add: path_exists_def files progress comm sha256_prefix_at [OF files(2)])
  with started show thesis by (rule that)
qed

lemma truth_resume_running:
  assumes env: "truth_env h np K dot job ctx (fs w)" and ok: "all_ok h np K dot job ctx w"
    and c: "c \<le> length (tc_queries ctx)"
    and doc: "state_doc h ctx c (committed dot job ctx c) ready doc"
    and v: "view job (fs w) = (None, None, Some doc, Some (committed dot job ctx c @ junk))"
  obtains w1 started where "truth_resume h job ctx w = (w1, Inr (c, started))"
    and "py_strip started \<noteq> []" and "all_ok h np K dot job ctx w1"
    and "truth_env h np K dot job ctx (fs w1)"
    and "view job (fs w1) = (None, None, Some doc, Some (committed dot job ctx c))"
proof -
  let ?C = "committed dot job ctx c" and ?P = "partial_path (tj_output job)"
  obtain started where started: "py_strip started \<noteq> []"
    and ck: "truth_checkpoint h job ctx (fs w) = Inr (int c, started, int (length ?C))"
    by (rule truth_checkpoint_running [OF env doc v])
  have at: "file_at (fs w) ?P = Some (?C @ junk)" using v by (simp add: view_def)
  define w1 where "w1 = (if junk = [] then w else truncate_file w ?P (length ?C))"
  have fs1: "fs w1 = set_file (fs w) ?P (Some ?C)"
    using at by (simp add: w1_def truncate_file_def set_file_same)
  have v1: "view job (fs w1) = (None, None, Some doc, Some ?C)"
    unfolding fs1 by (rule view_set_file(4) [OF env v])
  have env1: "truth_env h np K dot job ctx (fs w1)"
    unfolding fs1 by (rule managed_set_file [OF env managed_members(4)])
  have "truth_ok h np K dot job ctx (fs w1)"
    by (rule running_ok [OF env1 c doc, of "[]"]) (simp add: v1)
  moreover have "visited w1 \<subseteq> insert (fs w1) (visited w)"
    by (auto simp: w1_def truncate_file_def)
  ultimately have ok1: "all_ok h np K dot job ctx w1" using ok by auto
  have at1: "file_at (fs w1) ?P = Some ?C" using v1 by (simp add: view_def)
  obtain rest where lines: "iter_nonempty_lines ?C = Inr (header_line job ctx # rest)" "length rest = c"
    by (rule committed_lines [OF env c])
  have w1: "w1 = (if int (length ?C) < int (length (?C @ junk))
      then truncate_file w ?P (nat (int (length ?C))) else w)"
    by (simp add: w1_def)
  have "truth_resume h job ctx w = (w1, Inr (c, started))"
    unfolding truth_resume_def Let_def ck sum.case prod.case at option.case w1 [symmetric]
      open_rb_file_at at1 lines list.case header_text
    by (simp add: lines)
  then show thesis using started ok1 env1 v1 by (rule that)
qed

lemma state_docI:
  "py_strip started \<noteq> [] \<Longrightarrow> state_doc h ctx c content False
     (dumps_indent h (truth_state ctx started status c (length content) (sha_hex h content) [] now) @ [10])"
  "py_strip started \<noteq> [] \<Longrightarrow> state_doc h ctx c content True
     (dumps_indent h (truth_state ctx started ''ready-to-publish'' c (length content) (sha_hex h content)
        [(''ground_truth_sha256'', JStr (sha_hex h content))] now) @ [10])"
  unfolding state_doc_def by fastforce+

text \<open>Writing the partial file goes through disks that hold a prefix of the new bytes.\<close>

lemma write_partial_ok:
  assumes "all_ok h np K dot job ctx w" and "truth_env h np K dot job ctx (fs w)"
    and "view job (fs w) = (None, None, k, p)"
    and "\<And>t. prefix t data \<Longrightarrow> recoverable h dot job ctx (None, None, k, Some (old @ t))
      \<or> half_created job ctx (None, None, k, Some (old @ t))"
  shows "all_ok h np K dot job ctx (write_behind w (partial_path (tj_output job)) old data)"
    and "truth_env h np K dot job ctx (fs (write_behind w (partial_path (tj_output job)) old data))"
    and "view job (fs (write_behind w (partial_path (tj_output job)) old data)) = (None, None, k, Some (old @ data))"
proof -
  show "all_ok h np K dot job ctx (write_behind w (partial_path (tj_output job)) old data)"
  proof
    fix d assume "d \<in> visited (write_behind w (partial_path (tj_output job)) old data)"
    then consider "d \<in> visited w"
      | t where "prefix t data" "d = set_file (fs w) (partial_path (tj_output job)) (Some (old @ t))"
      unfolding write_behind_visited by blast
    then show "truth_ok h np K dot job ctx d"
    proof cases
      case 1
      then show ?thesis using assms(1) by blast
    next
      case 2
      show ?thesis
        unfolding 2 by (rule ok_set_file [OF assms(2) managed_members(4)])
          (unfold view_set_file(4) [OF assms(2,3)], rule assms(4) [OF 2(1)])
    qed
  qed
  show "truth_env h np K dot job ctx (fs (write_behind w (partial_path (tj_output job)) old data))"
    by (simp add: managed_set_file [OF assms(2) managed_members(4)])
  show "view job (fs (write_behind w (partial_path (tj_output job)) old data)) = (None, None, k, Some (old @ data))"
    by (simp add: view_set_file(4) [OF assms(2,3)])
qed

lemma write_checkpoint_ok:
  assumes "all_ok h np K dot job ctx w" and "truth_env h np K dot job ctx (fs w)"
    and "view job (fs w) = (None, None, k, Some (committed dot job ctx c))"
    and "c \<le> length (tc_queries ctx)"
    and "state_doc h ctx c (committed dot job ctx c) ready (dumps_indent h v @ [10])"
  defines "w1 \<equiv> atomic_write_json h w (checkpoint_path (tj_output job)) v"
  shows "all_ok h np K dot job ctx w1" and "truth_env h np K dot job ctx (fs w1)"
    and "view job (fs w1)
      = (None, None, Some (dumps_indent h v @ [10]), Some (committed dot job ctx c))"
proof -
  let ?d = "set_file (fs w) (checkpoint_path (tj_output job)) (Some (dumps_indent h v @ [10]))"
  have d: "fs w1 = ?d" "visited w1 = insert ?d (visited w)"
    by (simp_all add: w1_def atomic_write_json_def)
  show v1: "view job (fs w1)
      = (None, None, Some (dumps_indent h v @ [10]), Some (committed dot job ctx c))"
    unfolding d by (rule view_set_file(3) [OF assms(2,3)])
  show env1: "truth_env h np K dot job ctx (fs w1)"
    unfolding d by (rule managed_set_file [OF assms(2) managed_members(3)])
  have "truth_ok h np K dot job ctx (fs w1)"
    by (rule running_ok [OF env1 assms(4,5), of "[]"]) (simp add: v1)
  then show "all_ok h np K dot job ctx w1" using assms(1) by (simp add: d)
qed

lemma truth_start_fresh:
  assumes clock: "\<forall>n. py_strip (clock n) \<noteq> []"
    and env: "truth_env h np K dot job ctx (fs w)" and ok: "all_ok h np K dot job ctx w"
    and v: "view job (fs w) = (None, None, None, None)"
  obtains w1 started doc where "truth_start h clock job ctx w = (w1, Inr (0, started))"
    and "py_strip started \<noteq> []" and "all_ok h np K dot job ctx w1"
    and "truth_env h np K dot job ctx (fs w1)"
    and "view job (fs w1) = (None, None, Some doc, Some (committed dot job ctx 0))"
    and "state_doc h ctx 0 (committed dot job ctx 0) False doc"
proof -
  let ?P = "partial_path (tj_output job)" and ?H = "truth_header job ctx"
  define w1 where "w1 = write_behind w ?P [] ?H"
  have half: "half_created job ctx (None, None, None, Some ([] @ t))" if "prefix t ?H" for t
    using that by (simp add: half_created_def)
  note w1 = write_partial_ok [OF ok env v, of ?H "[]", folded w1_def, simplified]
  have ok1: "all_ok h np K dot job ctx w1" and env1: "truth_env h np K dot job ctx (fs w1)"
    and v1: "view job (fs w1) = (None, None, None, Some (committed dot job ctx 0))"
    using write_partial_ok [OF ok env v, of ?H "[]", folded w1_def] half by (simp_all add: committed_0)
  define started where "started = clock (length (past w))"
  define st where "st = truth_state ctx started ''running'' 0 (length ?H) (sha_hex h ?H) []
      (clock (length (past w1)))"
  have s: "py_strip started \<noteq> []" using clock by (simp add: started_def)
  have doc: "state_doc h ctx 0 (committed dot job ctx 0) False (dumps_indent h st @ [10])"
    unfolding st_def committed_0 by (rule state_docI(1) [OF s])
  define w2 where "w2 = atomic_write_json h w1 (checkpoint_path (tj_output job)) st"
  note w2 = write_checkpoint_ok [OF ok1 env1 v1 _ doc, folded w2_def]
  have "\<not> path_exists (fs w) ?P" using v by (simp add: view_def path_exists_def)
  then have "create_file w ?P ?H = (w1, Inr ())" by (simp add: create_file_def w1_def)
  moreover have "sha256_file h (fs w1) ?P 0 None = Inr (sha_hex h ?H)"
    using v1 by (intro sha256_file_at) (simp add: view_def committed_0)
  ultimately have "truth_start h clock job ctx w = (w2, Inr (0, started))"
    by (simp add: truth_start_def started_def st_def w2_def Let_def)
  then show thesis using s w2 doc by (intro that) simp_all
qed

lemma gt_payload_append: "gt_payload (xs @ ys) = gt_payload xs @ gt_payload ys"
  by (simp add: gt_payload_def utf8_bytes_def)

lemma block_rows:
  assumes env: "truth_env h np K dot job ctx d"
    and b: "block @ later = drop c (tc_queries ctx)"
  obtains ids where "exact_topk_block K (tc_corpus ctx) block (nat (tj_top_k job)) (tj_corpus_block_rows job) = Inr ids"
    and "take (c + length block) (truth_table dot job ctx)
      = take c (truth_table dot job ctx) @ map (map unat) ids"
proof -
  let ?row = "\<lambda>q. map hit_id (take (nat (tj_top_k job)) (sort (hits_from dot q 0 (tc_corpus ctx))))"
  have "exact_topk_block K (tc_corpus ctx) block (nat (tj_top_k job)) (tj_corpus_block_rows job)
      = Inr (map ?row block)"
    using env env_facts(2) [OF env] by (intro exact_topk_rows) (auto simp: truth_env_def)
  moreover have "take (length block) (drop c (tc_queries ctx)) = block"
    using b by (metis append_eq_conv_conj)
  then have "take (c + length block) (truth_table dot job ctx)
      = take c (truth_table dot job ctx) @ map (map unat) (map ?row block)"
    by (simp add: truth_table_def take_add take_map drop_map exact_row_def)
  ultimately show thesis by (rule that)
qed

lemma truth_blocks_run:
  assumes env: "truth_env h np K dot job ctx (fs w)" and ok: "all_ok h np K dot job ctx w"
    and s: "py_strip started \<noteq> []"
    and v: "view job (fs w) = (None, None, Some doc, Some (committed dot job ctx c))"
    and doc: "state_doc h ctx c (committed dot job ctx c) ready doc"
    and bl: "concat blocks = drop c (tc_queries ctx)" and c: "c \<le> length (tc_queries ctx)"
  shows "\<exists>w1 doc ready. truth_blocks h K clock job ctx started w c blocks = (w1, Inr (length (tc_queries ctx)))
    \<and> all_ok h np K dot job ctx w1 \<and> truth_env h np K dot job ctx (fs w1)
    \<and> view job (fs w1) = (None, None, Some doc, Some (truth_file dot job ctx))
    \<and> state_doc h ctx (length (tc_queries ctx)) (truth_file dot job ctx) ready doc"
  using assms(1-7)
proof (induction blocks arbitrary: w c doc ready)
  case Nil
  then have "c = length (tc_queries ctx)" by simp
  then show ?case using Nil committed_all [OF Nil(1)] by auto
next
  case (Cons block blocks)
  let ?P = "partial_path (tj_output job)" and ?c = "c + length block"
  have "block @ concat blocks = drop c (tc_queries ctx)" using Cons.prems(6) by simp
  then obtain ids where ids: "exact_topk_block K (tc_corpus ctx) block (nat (tj_top_k job)) (tj_corpus_block_rows job) = Inr ids"
    and rows: "take ?c (truth_table dot job ctx) = take c (truth_table dot job ctx) @ map (map unat) ids"
    by (rule block_rows [OF Cons.prems(1)])
  have rest: "concat blocks = drop ?c (tc_queries ctx)"
    by (metis Cons.prems(6) append_eq_conv_conj concat.simps(2) drop_drop add.commute)
  have c': "?c \<le> length (tc_queries ctx)"
  proof -
    have "length (block @ concat blocks) = length (drop c (tc_queries ctx))"
      using Cons.prems(6) by (simp only: concat.simps)
    then show ?thesis using Cons.prems(7) unfolding length_append length_drop by linarith
  qed
  let ?pay = "gt_payload (map (map unat) ids)"
  have grow: "committed dot job ctx ?c = committed dot job ctx c @ ?pay"
    by (simp add: committed_def rows gt_payload_append)
  define w1 where "w1 = append_file w ?P ?pay"
  have "file_at (fs w) ?P = Some (committed dot job ctx c)" using Cons.prems(4) by (simp add: view_def)
  then have w1_eq: "w1 = write_behind w ?P (committed dot job ctx c) ?pay"
    by (simp add: w1_def append_file_def)
  have "recoverable h dot job ctx (None, None, Some doc, Some (committed dot job ctx c @ t))" for t
    by (rule recoverable.running [OF Cons.prems(7,5)])
  note ap = write_partial_ok [OF Cons.prems(2,1,4) disjI1 [OF this], of ?pay, folded w1_eq]
  have v1: "view job (fs w1) = (None, None, Some doc, Some (committed dot job ctx ?c))"
    using ap(3) by (simp add: grow)
  have at1: "file_at (fs w1) ?P = Some (committed dot job ctx ?c)" using v1 by (simp add: view_def)
  define st where "st = truth_state ctx started ''running'' ?c (length (committed dot job ctx ?c))
      (sha_hex h (committed dot job ctx ?c)) [] (clock (length (past w1)))"
  have doc': "state_doc h ctx ?c (committed dot job ctx ?c) False (dumps_indent h st @ [10])"
    unfolding st_def by (rule state_docI(1) [OF s])
  define w2 where "w2 = atomic_write_json h w1 (checkpoint_path (tj_output job)) st"
  note ck = write_checkpoint_ok [OF ap(1,2) v1 c' doc', folded w2_def]
  have step: "truth_blocks h K clock job ctx started w c (block # blocks)
      = truth_blocks h K clock job ctx started w2 ?c blocks"
    unfolding truth_blocks.simps Let_def ids sum.case w1_def [symmetric] open_rb_file_at at1
      option.case sha256_file_at(2) [OF at1] st_def [symmetric] w2_def [symmetric] ..
  show ?case unfolding step by (rule Cons.IH [OF ck(2,1) s ck(3) doc' rest c'])
qed

lemma read_truth_full:
  assumes env: "truth_env h np K dot job ctx d" and at: "file_at d p = Some (truth_file dot job ctx)"
  obtains m where "read_truth_file h job ctx d p = Inr (truth_table dot job ctx, m)"
    and "tm_sha m = sha_hex h (truth_file dot job ctx)"
proof -
  let ?T = "truth_table dot job ctx"
  note t = truth_table_facts [OF env]
  have sizes: "length (tc_corpus ctx) < 10 ^ 20" "length ?T < 10 ^ 20"
    using env t(1) by (simp_all add: truth_env_def)
  have "?T \<noteq> []" using env_facts(1) [OF env] t(1) by fastforce
  moreover have "0 < nat (tj_top_k job)" using env_facts(2) [OF env] by simp
  ultimately show thesis
    using read_written_truth [OF t(2) _ env_facts(3) [OF env] _ sizes, where path = "fs_resolve d p"
        and eq = "Some (length ?T)" and ek = "Some (nat (tj_top_k job))"
        and ec = "Some (length (tc_corpus ctx))" and h = h]
    by (intro that) (auto simp: read_truth_file_def open_rb_file_at at t(1) truth_file_def truth_header_def)
qed

lemma published_ok:
  assumes "truth_env h np K dot job ctx d" and "declared_doc h dot job ctx doc"
    and "view job d = (Some (truth_file dot job ctx), Some doc, k, None)"
  shows "truth_ok h np K dot job ctx d"
  using assms recoverable.published [OF assms(2)] by (simp add: truth_ok_def)

text \<open>Writing the sidecar and dropping the checkpoint, from both places that do it.\<close>

lemma finish_ok:
  assumes ok: "all_ok h np K dot job ctx w" and env: "truth_env h np K dot job ctx (fs w)"
    and v: "view job (fs w) = (Some (truth_file dot job ctx), None, k, None)"
    and doc: "declared_doc h dot job ctx (dumps_indent h D @ [10])"
  defines "w1 \<equiv> unlink_file (atomic_write_json h w (sidecar_path (tj_output job)) D)
      (checkpoint_path (tj_output job))"
  shows "all_ok h np K dot job ctx w1" and "truth_env h np K dot job ctx (fs w1)"
    and "view job (fs w1) = (Some (truth_file dot job ctx), Some (dumps_indent h D @ [10]), None, None)"
proof -
  let ?d1 = "set_file (fs w) (sidecar_path (tj_output job)) (Some (dumps_indent h D @ [10]))"
  let ?d2 = "set_file ?d1 (checkpoint_path (tj_output job)) None"
  have w1: "fs w1 = ?d2" "visited w1 = insert ?d2 (insert ?d1 (visited w))"
    by (simp_all add: w1_def unlink_file_def atomic_write_json_def)
  have env1: "truth_env h np K dot job ctx ?d1"
    by (rule managed_set_file [OF env managed_members(2)])
  note v1 = view_set_file(2) [OF env v, of "Some (dumps_indent h D @ [10])"]
  show env2: "truth_env h np K dot job ctx (fs w1)"
    unfolding w1 by (rule managed_set_file [OF env1 managed_members(3)])
  show v2: "view job (fs w1) = (Some (truth_file dot job ctx), Some (dumps_indent h D @ [10]), None, None)"
    unfolding w1 by (rule view_set_file(3) [OF env1 v1])
  show "all_ok h np K dot job ctx w1"
    using ok published_ok [OF env1 doc v1] published_ok [OF env2 doc v2] by (simp add: w1)
qed

lemma truth_publish_run:
  assumes env: "truth_env h np K dot job ctx (fs w)" and ok: "all_ok h np K dot job ctx w"
    and s: "py_strip started \<noteq> []"
    and v: "view job (fs w) = (None, None, Some doc, Some (truth_file dot job ctx))"
  obtains w1 D doc where "truth_publish h clock job ctx started w (length (tc_queries ctx)) = (w1, Inr D)"
    and "all_ok h np K dot job ctx w1" and "truth_env h np K dot job ctx (fs w1)"
    and "view job (fs w1) = (Some (truth_file dot job ctx), Some doc, None, None)"
    and "declared_doc h dot job ctx doc"
proof -
  let ?n = "length (tc_queries ctx)" and ?F = "truth_file dot job ctx"
  have full: "committed dot job ctx ?n = ?F" by (rule committed_all [OF env])
  have at: "file_at (fs w) (partial_path (tj_output job)) = Some ?F" using v by (simp add: view_def)
  obtain m where m: "read_truth_file h job ctx (fs w) (partial_path (tj_output job)) = Inr (truth_table dot job ctx, m)"
    "tm_sha m = sha_hex h ?F" by (rule read_truth_full [OF env at])
  define st where "st = truth_state ctx started ''ready-to-publish'' ?n (length ?F) (sha_hex h ?F)
      [(''ground_truth_sha256'', JStr (sha_hex h ?F))] (clock (length (past w)))"
  have doc1: "state_doc h ctx ?n ?F True (dumps_indent h st @ [10])"
    unfolding st_def by (rule state_docI(2) [OF s])
  define w1 where "w1 = atomic_write_json h w (checkpoint_path (tj_output job)) st"
  note w1 = write_checkpoint_ok [OF ok env, of "Some doc" ?n True st, folded w1_def, unfolded full, OF v order.refl doc1]
  define w2 where "w2 = replace_file w1 (partial_path (tj_output job)) (tj_output job)"
  let ?d = "set_file (fs w1) (tj_output job) (Some ?F)"
  have fs2: "fs w2 = set_file ?d (partial_path (tj_output job)) None"
    "visited w2 = insert (fs w2) (visited w1)"
    using w1(3) by (simp_all add: w2_def replace_file_def view_def)
  have envd: "truth_env h np K dot job ctx ?d" by (rule managed_set_file [OF w1(2) managed_members(1)])
  have env2: "truth_env h np K dot job ctx (fs w2)"
    unfolding fs2 by (rule managed_set_file [OF envd managed_members(4)])
  have v2: "view job (fs w2) = (Some ?F, None, Some (dumps_indent h st @ [10]), None)"
    unfolding fs2 by (rule view_set_file(4) [OF envd view_set_file(1) [OF w1(2,3)]])
  have "truth_ok h np K dot job ctx (fs w2)"
    using env2 recoverable.replaced [OF doc1] by (simp add: truth_ok_def v2)
  then have ok2: "all_ok h np K dot job ctx w2" using w1(1) by (simp add: fs2(2))
  define D where "D = JObj (tc_stable ctx @ jobj
            [(''input_hash'', JStr (tc_hash ctx)),
             (''created_at'', JStr (clock (length (past w2)))),
             (''generation_started_at'', JStr started),
             (''ground_truth'', truth_json (m\<lparr>tm_path := fs_resolve (fs w2) (tj_output job)\<rparr>))])"
  have dd: "declared_doc h dot job ctx (dumps_indent h D @ [10])"
    unfolding declared_doc_def D_def
    by (intro exI conjI, rule_tac [3] refl [THEN trans]) (simp_all add: m(2))
  note fin = finish_ok [OF ok2 env2 v2 dd]
  have "truth_publish h clock job ctx started w ?n
      = (unlink_file (atomic_write_json h w2 (sidecar_path (tj_output job)) D)
           (checkpoint_path (tj_output job)), Inr D)"
    unfolding truth_publish_def Let_def m sum.case prod.case sha256_file_at(1) [OF at]
      open_rb_file_at at option.case st_def [symmetric] w1_def [symmetric] w2_def [symmetric]
      D_def [symmetric] ..
  then show thesis using fin dd by (intro that)
qed

subsection \<open>Existing outputs\<close>

lemma declared_doc_read:
  assumes env: "truth_env h np K dot job ctx d" and doc: "declared_doc h dot job ctx doc"
    and at: "file_at d p = Some doc"
  obtains v where "load_json h d p = Inr v"
    and "json_get v ''input_hash'' = Inr (JStr (tc_hash ctx))"
    and "json_get2 v ''ground_truth'' ''sha256'' = Inr (JStr (sha_hex h (truth_file dot job ctx)))"
proof -
  obtain created started truth remark where t: "tm_sha truth = sha_hex h (truth_file dot job ctx)"
    and remark: "remark = [] \<or> (\<exists>t. remark = [(''note'', JStr t)])"
    and d: "doc = dumps_indent h (JObj (tc_stable ctx @ jobj
             ([(''input_hash'', JStr (tc_hash ctx)), (''created_at'', JStr created),
               (''generation_started_at'', JStr started), (''ground_truth'', truth_json truth)] @ remark)))
             @ [10]"
    using doc unfolding declared_doc_def by blast
  define kvs where "kvs = [(''input_hash'', JStr (tc_hash ctx)), (''created_at'', JStr created),
               (''generation_started_at'', JStr started), (''ground_truth'', truth_json truth)] @ remark"
  define m where "m = tc_stable ctx @ jobj kvs"
  define tm where "tm = jobj
     [(''schema'', JStr (u ''LEANN_GT1'')), (''path'', JStr (tm_path truth)),
      (''query_count'', JInt (int (tm_queries truth))), (''top_k'', JInt (int (tm_k truth))),
      (''corpus_count'', JInt (int (tm_corpus truth))), (''size_bytes'', JInt (int (tm_size truth))),
      (''sha256'', JStr (tm_sha truth))]"
  have tj: "truth_json truth = JObj tm" by (simp only: truth_json_def tm_def)
  have "json_plain (truth_json truth)" by (simp add: truth_json_def jobj_def)
  then have "\<forall>kv \<in> set kvs. json_plain (snd kv)" using remark by (auto simp: kvs_def)
  moreover have "set (map fst kvs) \<subseteq> set added_names" "distinct (map fst kvs)"
    using remark by (auto simp: kvs_def added_members)
  ultimately have plain: "json_plain (JObj m)"
    unfolding m_def by (intro plain_with_stable [OF env])
  have "codec_ok h" using env by (simp only: truth_env_def)
  from load_json_of_file [OF this plain, of d p]
  have load: "load_json h d p = Inr (json_sorted (JObj m))" using at d by (simp add: m_def kvs_def)
  have hash: "json_get (json_sorted (JObj m)) ''input_hash'' = Inr (JStr (tc_hash ctx))"
    unfolding json_get_sorted [OF plain] unfolding m_def stable_lookup(2) [OF env added_members(1)]
    by (simp add: kvs_def)
  have "map_of m (u ''ground_truth'') = Some (JObj tm)"
    unfolding m_def stable_lookup(1) [OF env added_members(11)] by (simp add: kvs_def tj)
  from json_get2_sorted [OF plain this]
  have "json_get2 (json_sorted (JObj m)) ''ground_truth'' ''sha256'' = Inr (JStr (tm_sha truth))"
    by (simp add: tm_def)
  with load hash show thesis using t by (intro that) simp_all
qed

lemma truth_declared_published:
  assumes env: "truth_env h np K dot job ctx d" and doc: "declared_doc h dot job ctx doc"
    and v: "view job d = (Some (truth_file dot job ctx), Some doc, k, None)"
  obtains D where "truth_declared h job ctx d = Inr D"
proof -
  have at: "file_at d (tj_output job) = Some (truth_file dot job ctx)"
    "file_at d (sidecar_path (tj_output job)) = Some doc" using v by (simp_all add: view_def)
  obtain D where D: "load_json h d (sidecar_path (tj_output job)) = Inr D"
    "json_get D ''input_hash'' = Inr (JStr (tc_hash ctx))"
    "json_get2 D ''ground_truth'' ''sha256'' = Inr (JStr (sha_hex h (truth_file dot job ctx)))"
    by (rule declared_doc_read [OF env doc at(2)])
  obtain m where "read_truth_file h job ctx d (tj_output job) = Inr (truth_table dot job ctx, m)"
    by (rule read_truth_full [OF env at(1)])
  then have "truth_declared h job ctx d = Inr D"
    by (simp add: truth_declared_def Let_def D sha256_file_at [OF at(1)])
  then show thesis by (rule that)
qed

lemma truth_existing_replaced:
  assumes ok: "all_ok h np K dot job ctx w" and env: "truth_env h np K dot job ctx (fs w)"
    and doc: "state_doc h ctx c (truth_file dot job ctx) True doc"
    and v: "view job (fs w) = (Some (truth_file dot job ctx), None, Some doc, None)"
  obtains w1 D mdoc where "truth_existing h clock job ctx w = (w1, Inr (Some D))"
    and "all_ok h np K dot job ctx w1" and "truth_env h np K dot job ctx (fs w1)"
    and "view job (fs w1) = (Some (truth_file dot job ctx), Some mdoc, None, None)"
    and "declared_doc h dot job ctx mdoc"
proof -
  let ?F = "truth_file dot job ctx" and ?O = "tj_output job"
  have at: "file_at (fs w) ?O = Some ?F" "file_at (fs w) (sidecar_path ?O) = None"
    "file_at (fs w) (checkpoint_path ?O) = Some doc" using v by (simp_all add: view_def)
  obtain st started where st: "load_json h (fs w) (checkpoint_path ?O) = Inr st"
    "json_get st ''input_hash'' = Inr (JStr (tc_hash ctx))"
    "True \<longrightarrow> json_get st ''status'' = Inr (JStr (u ''ready-to-publish''))"
    "json_get st ''ground_truth_sha256'' = Inr (if True then JStr (sha_hex h ?F) else JNull)"
    "checkpoint_created_at st = Inr started"
    by (rule state_doc_read [OF env doc at(3)])
  obtain m where m: "read_truth_file h job ctx (fs w) ?O = Inr (truth_table dot job ctx, m)"
    "tm_sha m = sha_hex h ?F" by (rule read_truth_full [OF env at(1)])
  have rec: "truth_recovered h job ctx (fs w) = Inr (m, started)"
    using st(3,4) by (simp add: truth_recovered_def Let_def path_exists_def at st m sha256_file_at [OF at(1)])
  define D where "D = JObj (tc_stable ctx @ jobj
               ([(''input_hash'', JStr (tc_hash ctx)),
                (''created_at'', JStr (clock (length (past w)))),
                (''generation_started_at'', JStr started),
                (''ground_truth'', truth_json m)] @
                [(''note'', JStr (u ''Sidecar recovered from a verified ready-to-publish checkpoint.''))]))"
  have dd: "declared_doc h dot job ctx (dumps_indent h D @ [10])"
    unfolding declared_doc_def D_def using m(2) by blast
  note fin = finish_ok [OF ok env v dd]
  have "truth_existing h clock job ctx w
      = (unlink_file (atomic_write_json h w (sidecar_path ?O) D) (checkpoint_path ?O), Inr (Some D))"
    unfolding truth_existing_def Let_def rec sum.case prod.case
    by (simp add: path_exists_def at D_def)
  then show thesis using fin dd by (intro that)
qed

subsection \<open>The whole run\<close>

definition final_view ::
  "host \<Rightarrow> (bytes \<Rightarrow> bytes \<Rightarrow> rat) \<Rightarrow> truth_job \<Rightarrow> truth_ctx \<Rightarrow> view \<Rightarrow> bool" where
  "final_view h dot job ctx v \<longleftrightarrow>
     (\<exists>doc k. declared_doc h dot job ctx doc \<and> v = (Some (truth_file dot job ctx), Some doc, k, None))"

lemma continue_run:
  assumes env: "truth_env h np K dot job ctx (fs w)" and ok: "all_ok h np K dot job ctx w"
    and s: "py_strip started \<noteq> []" and c: "c \<le> length (tc_queries ctx)"
    and v: "view job (fs w) = (None, None, Some doc, Some (committed dot job ctx c))"
    and doc: "state_doc h ctx c (committed dot job ctx c) ready doc"
  shows "\<exists>w2 D. (case truth_loop h K clock job ctx started w c of
        (w3, Inl e) \<Rightarrow> (w3, Inl e) | (w3, Inr n) \<Rightarrow> truth_publish h clock job ctx started w3 n) = (w2, Inr D)
      \<and> all_ok h np K dot job ctx w2 \<and> truth_env h np K dot job ctx (fs w2)
      \<and> final_view h dot job ctx (view job (fs w2))"
proof -
  let ?blocks = "chunks (nat (tj_query_block_rows job) - 1) (drop c (tc_queries ctx))"
  have pos: "0 < tj_query_block_rows job" using env by (simp add: truth_env_def)
  obtain w1 doc1 ready1 where loop: "truth_blocks h K clock job ctx started w c ?blocks
        = (w1, Inr (length (tc_queries ctx)))"
    and w1: "all_ok h np K dot job ctx w1" "truth_env h np K dot job ctx (fs w1)"
      "view job (fs w1) = (None, None, Some doc1, Some (truth_file dot job ctx))"
    using truth_blocks_run [OF env ok s v doc _ c, of ?blocks clock] by auto
  obtain w2 D mdoc where "truth_publish h clock job ctx started w1 (length (tc_queries ctx)) = (w2, Inr D)"
    and w2: "all_ok h np K dot job ctx w2" "truth_env h np K dot job ctx (fs w2)"
      "view job (fs w2) = (Some (truth_file dot job ctx), Some mdoc, None, None)"
      "declared_doc h dot job ctx mdoc"
    by (rule truth_publish_run [OF w1(2,1) s w1(3)])
  moreover have "truth_loop h K clock job ctx started w c = (w1, Inr (length (tc_queries ctx)))"
    using pos loop by (simp add: truth_loop_def)
  ultimately show ?thesis unfolding final_view_def by (intro exI [of _ w2] exI [of _ D]) auto
qed

theorem run_recoverable:
  assumes clock: "\<forall>n. py_strip (clock n) \<noteq> []"
    and env: "truth_env h np K dot job ctx d" and r: "recoverable h dot job ctx (view job d)"
  shows "\<exists>w D. generate_ground_truth h np K clock job (boot d) = (w, Inr D)
    \<and> all_ok h np K dot job ctx w \<and> truth_env h np K dot job ctx (fs w)
    \<and> final_view h dot job ctx (view job (fs w))"
proof -
  have inp: "truth_inputs h np d job = Inr ctx" using env by (simp only: truth_env_def)
  have ok0: "all_ok h np K dot job ctx (boot d)" using env r by (simp add: truth_ok_def)
  have env0: "truth_env h np K dot job ctx (fs (boot d))" using env by simp
  have gen: "generate_ground_truth h np K clock job (boot d)
      = (case truth_existing h clock job ctx (boot d) of (w1, Inl e) \<Rightarrow> (w1, Inl e)
      | (w1, Inr (Some declared)) \<Rightarrow> (w1, Inr declared)
      | (w1, Inr None) \<Rightarrow>
      (case truth_prepare h clock job ctx w1 of (w2, Inl e) \<Rightarrow> (w2, Inl e) | (w2, Inr (completed, started)) \<Rightarrow>
       case truth_loop h K clock job ctx started w2 completed of (w3, Inl e) \<Rightarrow> (w3, Inl e) | (w3, Inr completed') \<Rightarrow>
       truth_publish h clock job ctx started w3 completed'))"
    unfolding generate_ground_truth_def boot_simps inp sum.case ..
  have none: "truth_existing h clock job ctx (boot d) = (boot d, Inr None)" if "file_at d (tj_output job) = None"
    using that by (simp add: truth_existing_def Let_def path_exists_def)
  from r show ?thesis
  proof cases
    case fresh
    then have v: "view job (fs (boot d)) = (None, None, None, None)" by simp
    obtain w1 started doc where start: "truth_start h clock job ctx (boot d) = (w1, Inr (0, started))"
      "py_strip started \<noteq> []" "all_ok h np K dot job ctx w1" "truth_env h np K dot job ctx (fs w1)"
      "view job (fs w1) = (None, None, Some doc, Some (committed dot job ctx 0))"
      "state_doc h ctx 0 (committed dot job ctx 0) False doc"
      by (rule truth_start_fresh [OF clock env0 ok0 v])
    have "truth_prepare h clock job ctx (boot d) = (w1, Inr (0, started))"
      using v start(1) by (simp add: truth_prepare_def path_exists_def view_def)
    then show ?thesis
      unfolding gen none [OF view_def [of job d, unfolded fresh, THEN sym, unfolded prod.inject, THEN conjunct1]]
      using continue_run [OF start(4,3,2) le0 start(5,6), where clock = clock] by simp
  next
    case (running c ready doc junk)
    then have v: "view job (fs (boot d)) = (None, None, Some doc, Some (committed dot job ctx c @ junk))" by simp
    obtain w1 started where res: "truth_resume h job ctx (boot d) = (w1, Inr (c, started))"
      "py_strip started \<noteq> []" "all_ok h np K dot job ctx w1" "truth_env h np K dot job ctx (fs w1)"
      "view job (fs w1) = (None, None, Some doc, Some (committed dot job ctx c))"
      by (rule truth_resume_running [OF env0 ok0 running(2,3) v])
    have "truth_prepare h clock job ctx (boot d) = (w1, Inr (c, started))"
      using v res(1) by (simp add: truth_prepare_def path_exists_def view_def)
    then show ?thesis
      unfolding gen none [OF view_def [of job d, unfolded running(1), THEN sym, unfolded prod.inject, THEN conjunct1]]
      using continue_run [OF res(4,3,2) running(2) res(5) running(3), where clock = clock] by simp
  next
    case (replaced c doc)
    then have v: "view job (fs (boot d)) = (Some (truth_file dot job ctx), None, Some doc, None)" by simp
    obtain w1 D mdoc where "truth_existing h clock job ctx (boot d) = (w1, Inr (Some D))"
      "all_ok h np K dot job ctx w1" "truth_env h np K dot job ctx (fs w1)"
      "view job (fs w1) = (Some (truth_file dot job ctx), Some mdoc, None, None)"
      "declared_doc h dot job ctx mdoc"
      by (rule truth_existing_replaced [OF ok0 env0 replaced(2) v])
    then show ?thesis unfolding gen final_view_def by auto
  next
    case (published doc k)
    obtain D where "truth_declared h job ctx d = Inr D"
      by (rule truth_declared_published [OF env published(2,1)])
    moreover have "path_exists d (tj_output job)" "path_exists d (sidecar_path (tj_output job))"
      using published(1) by (simp_all add: path_exists_def view_def)
    ultimately have "truth_existing h clock job ctx (boot d) = (boot d, Inr (Some D))"
      by (simp add: truth_existing_def Let_def)
    then show ?thesis unfolding gen final_view_def using ok0 env published by auto
  qed
qed

lemma run_half_created:
  assumes env: "truth_env h np K dot job ctx d" and v: "half_created job ctx (view job d)"
  shows "generate_ground_truth h np K clock job (boot d)
    = (boot d, Inl (RuntimeError ''ground-truth checkpoint and partial must coexist''))"
proof -
  have inp: "truth_inputs h np d job = Inr ctx" using env by (simp only: truth_env_def)
  have at: "\<not> path_exists d (tj_output job)" "\<not> path_exists d (checkpoint_path (tj_output job))"
    "path_exists d (partial_path (tj_output job))"
    using v by (auto simp: half_created_def view_def path_exists_def)
  have "truth_existing h clock job ctx (boot d) = (boot d, Inr None)"
    using at by (simp add: truth_existing_def Let_def)
  moreover have "truth_prepare h clock job ctx (boot d)
      = (boot d, Inl (RuntimeError ''ground-truth checkpoint and partial must coexist''))"
    using at by (simp add: truth_prepare_def truth_resume_def truth_checkpoint_def)
  ultimately show ?thesis by (simp add: generate_ground_truth_def inp)
qed

subsection \<open>Crash safety\<close>

definition truth_run ::
  "host \<Rightarrow> numerics \<Rightarrow> bytes kernels \<Rightarrow> truth_job \<Rightarrow> (nat \<Rightarrow> pystr) \<Rightarrow> fsys \<Rightarrow> world \<times> json res" where
  "truth_run h np K job clock d = generate_ground_truth h np K clock job (boot d)"

definition clock_ok :: "(nat \<Rightarrow> pystr) \<Rightarrow> bool" where
  "clock_ok clock \<longleftrightarrow> (\<forall>n. py_strip (clock n) \<noteq> [])"

lemma final_recoverable: "final_view h dot job ctx v \<Longrightarrow> recoverable h dot job ctx v"
  by (auto simp: final_view_def intro: recoverable.published)

lemma recoverable_not_half: "recoverable h dot job ctx v \<Longrightarrow> \<not> half_created job ctx v"
  by (auto simp: half_created_def elim: recoverable.cases)

interpretation truth_restart: restartable
  "truth_run h np K job" clock_ok "truth_ok h np K dot job ctx"
  "\<lambda>d. recoverable h dot job ctx (view job d)" "\<lambda>d. final_view h dot job ctx (view job d)"
proof
  fix e :: "nat \<Rightarrow> pystr" and d d' :: fsys
  assume e: "clock_ok e" and ok: "truth_ok h np K dot job ctx d"
    and d': "d' \<in> visited (fst (truth_run h np K job e d))"
  have env: "truth_env h np K dot job ctx d" using ok by (simp add: truth_ok_def)
  show "truth_ok h np K dot job ctx d'"
  proof (cases "recoverable h dot job ctx (view job d)")
    case True
    then show ?thesis
      using run_recoverable [OF e [unfolded clock_ok_def] env True] d' by (auto simp: truth_run_def)
  next
    case False
    then have "half_created job ctx (view job d)" using ok by (simp add: truth_ok_def)
    from run_half_created [OF env this, of e] show ?thesis using d' ok by (simp add: truth_run_def)
  qed
next
  fix e :: "nat \<Rightarrow> pystr" and d :: fsys
  assume e: "clock_ok e" and ok: "truth_ok h np K dot job ctx d"
    and r: "recoverable h dot job ctx (view job d)"
  have env: "truth_env h np K dot job ctx d" using ok by (simp add: truth_ok_def)
  from run_recoverable [OF e [unfolded clock_ok_def] env r]
  show "\<exists>a. snd (truth_run h np K job e d) = Inr a
      \<and> final_view h dot job ctx (view job (fs (fst (truth_run h np K job e d))))"
    by (auto simp: truth_run_def)
next
  fix e :: "nat \<Rightarrow> pystr" and d :: fsys
  assume ok: "truth_ok h np K dot job ctx d" and r: "\<not> recoverable h dot job ctx (view job d)"
  then have "truth_env h np K dot job ctx d" "half_created job ctx (view job d)"
    by (simp_all add: truth_ok_def)
  from run_half_created [OF this, of e]
  show "\<exists>x. snd (truth_run h np K job e d) = Inl x \<and> visited (fst (truth_run h np K job e d)) = {d}"
    by (simp add: truth_run_def)
next
  fix d assume "final_view h dot job ctx (view job d)"
  then show "recoverable h dot job ctx (view job d)" by (rule final_recoverable)
qed

text \<open>
  C1. Crash safety of \<open>generate_ground_truth\<close>. Start on a disk without any generated file and let
  any number of runs die at any point (mid-append, between an append and its checkpoint, around
  the rename, before the sidecar). Then the output file is absent or already the exact table,
  and the next run either ends with the exact table published, or finds the partial file without
  a checkpoint (a crash before the first checkpoint was written), refuses and changes nothing.
\<close>

theorem truth_generation_survives_crashes:
  assumes "truth_env h np K dot job ctx d" and "view job d = (None, None, None, None)"
    and "crashing.reach (truth_run h np K job) clock_ok d d'" and "clock_ok clock"
  shows "file_at d' (tj_output job) \<in> {None, Some (truth_file dot job ctx)}
    \<and> ((\<exists>w D m. truth_run h np K job clock d' = (w, Inr D)
          \<and> file_at (fs w) (tj_output job) = Some (truth_file dot job ctx)
          \<and> read_truth_file h job ctx (fs w) (tj_output job) = Inr (truth_table dot job ctx, m))
      \<or> (half_created job ctx (view job d')
          \<and> truth_run h np K job clock d'
            = (boot d', Inl (RuntimeError ''ground-truth checkpoint and partial must coexist''))))"
proof -
  have ok: "truth_ok h np K dot job ctx d"
    using assms(1,2) recoverable.fresh by (simp add: truth_ok_def)
  have ok': "truth_ok h np K dot job ctx d'"
    by (rule truth_restart.reach_ok [OF assms(3) ok])
  then have env': "truth_env h np K dot job ctx d'" by (simp add: truth_ok_def)
  from ok' have cases: "recoverable h dot job ctx (view job d') \<or> half_created job ctx (view job d')"
    by (simp add: truth_ok_def)
  then have out: "file_at d' (tj_output job) \<in> {None, Some (truth_file dot job ctx)}"
    by (auto simp: view_def half_created_def elim: recoverable.cases)
  from cases show ?thesis
  proof
    assume "recoverable h dot job ctx (view job d')"
    from run_recoverable [OF assms(4) [unfolded clock_ok_def] env' this] obtain w D where
      w: "truth_run h np K job clock d' = (w, Inr D)" "truth_env h np K dot job ctx (fs w)"
        "final_view h dot job ctx (view job (fs w))"
      by (auto simp: truth_run_def)
    then have at: "file_at (fs w) (tj_output job) = Some (truth_file dot job ctx)"
      by (auto simp: final_view_def view_def)
    obtain m where "read_truth_file h job ctx (fs w) (tj_output job) = Inr (truth_table dot job ctx, m)"
      by (rule read_truth_full [OF w(2) at])
    then show ?thesis using out w(1) at by blast
  next
    assume half: "half_created job ctx (view job d')"
    then show ?thesis using out run_half_created [OF env' half] by (simp add: truth_run_def)
  qed
qed

text \<open>A job on a concrete disk: one two-row cache serves as corpus and as query cache.\<close>

definition pair_text :: bytes where
  "pair_text = utf8_bytes (u ''a'' @ [10] @ u ''b'' @ [10])"

definition pair_rows :: "bytes list" where
  "pair_rows = [[0, 0, 128, 63], [0, 0, 128, 191]]"

definition pair_sidecar :: "bytes \<Rightarrow> json" where
  "pair_sidecar cache = JObj (jobj
     [(''bindings'', JObj (jobj [(''corpus_cache_sha256'', JStr (sha_hex counting_host cache))])),
      (''model'', JObj (jobj [(''sha256'', JStr (u ''00''))]))])"

definition pair_fs :: "bytes \<Rightarrow> fsys" where
  "pair_fs header = \<lparr>fs_resolve = id, fs_file =
     [u ''src'' \<mapsto> pair_text, u ''c'' \<mapsto> header @ concat pair_rows,
      sidecar_path (u ''c'') \<mapsto> dumps_indent counting_host (pair_sidecar (header @ concat pair_rows)) @ [10]]\<rparr>"

definition pair_job :: truth_job where
  "pair_job = \<lparr>tj_corpus_cache = u ''c'', tj_query_cache = u ''c'', tj_documents = u ''src'',
     tj_queries = u ''src'', tj_output = u ''out'', tj_top_k = 1, tj_query_block_rows = 1,
     tj_corpus_block_rows = 1\<rparr>"

definition sign_dot :: "bytes \<Rightarrow> bytes \<Rightarrow> rat" where
  "sign_dot q c = (if q = c then 1 else - 1)"

lemma pair_env:
  obtains header ctx where
    "truth_env counting_host unit_numerics (sorting_kernels sign_dot) sign_dot pair_job ctx (pair_fs header)"
    and "view pair_job (pair_fs header) = (None, None, None, None)"
    and "tc_corpus ctx = pair_rows" and "tc_queries ctx = pair_rows"
proof -
  let ?h = counting_host
  have lines: "iter_nonempty_lines pair_text = Inr [u ''a'', u ''b'']"
    using iter_nonempty_lines_unlines [of "[u ''a'', u ''b'']"]
    by (simp add: u_def is_scalar_def pair_text_def)
  define dg where "dg = sha256 ?h pair_text"
  have len: "length pair_text = 4" by (simp add: pair_text_def u_def utf8_char_def)
  have "length dg = 32" by (simp add: dg_def counting_host_def)
  from small_header [OF this, of 2 4] obtain header where
    hdr: "cache_v2_header (int 1) (int 2) (u ''m'') (int 4) (to_hex dg) = Inr header" by auto
  let ?d = "pair_fs header" and ?cache = "header @ concat pair_rows"
  have files: "file_at ?d (u ''src'') = Some pair_text" "file_at ?d (u ''c'') = Some ?cache"
    "file_at ?d (sidecar_path (u ''c'')) = Some (dumps_indent ?h (pair_sidecar ?cache) @ [10])"
    by (simp_all add: file_at_def pair_fs_def sidecar_path_def u_def)
  define meta where "meta = \<lparr>cm_version = 2, cm_path = u ''c'', cm_count = 2, cm_dimensions = 1,
      cm_fingerprint = u ''m'', cm_fingerprint_sha = sha_hex ?h (utf8_bytes (u ''m'')),
      cm_vector_offset = length header, cm_vector_bytes = 8,
      cm_size = length header + 8, cm_source = Some (4, to_hex dg)\<rparr>"
  have "read_cache ?h unit_numerics (u ''c'') True None 8192 ?cache = Inr (pair_rows, meta)"
    using read_cache_of_header [OF hdr, of pair_rows unit_numerics ?h "u ''c''"]
    by (simp add: pair_rows_def meta_def)
  then have rd: "read_cache_default ?h unit_numerics ?d (u ''c'') = Inr (pair_rows, meta)"
    by (simp add: read_cache_default_def open_rb_file_at files) (simp add: pair_fs_def)
  define sid where "sid = \<lparr>si_path = u ''src'', si_size = 4, si_sha = to_hex dg, si_lines = 2\<rparr>"
  have "source_identity ?h ?d (u ''src'') = Inr sid"
    using lines len by (simp add: source_identity_def open_rb_file_at files sha256_bytes_all
        count_nonempty_lines_def sid_def sha_hex_def dg_def) (simp add: pair_fs_def)
  then have src: "validate_cache_source ?h ?d meta (u ''src'') None True = Inr sid"
    by (simp add: validate_cache_source_v2 meta_def sid_def)
  define vp where "vp = \<lparr>vp_corpus = pair_rows, vp_corpus_meta = meta, vp_queries = pair_rows,
      vp_query_meta = meta, vp_corpus_source = sid, vp_query_source = sid\<rparr>"
  have vec: "truth_vectors ?h unit_numerics ?d pair_job = Inr vp"
    by (simp add: truth_vectors_def pair_job_def rd src vp_def) (simp add: pair_rows_def)
  have plain: "json_plain (pair_sidecar ?cache)" by (simp add: pair_sidecar_def jobj_def)
  have load: "load_json ?h ?d (sidecar_path (u ''c'')) = Inr (json_sorted (pair_sidecar ?cache))"
    by (rule load_json_of_file [OF counting_host_codec plain files(3)])
  let ?sha = "sha_hex ?h ?cache"
  have sha: "sha256_file ?h ?d (u ''c'') 0 None = Inr ?sha" by (rule sha256_file_at(1) [OF files(2)])
  have model: "json_item2 (json_sorted (pair_sidecar ?cache)) ''model'' ''sha256'' = Inr (JStr (u ''00''))"
  proof -
    have "json_item (json_sorted (pair_sidecar ?cache)) ''model''
        = Inr (json_sorted (JObj (jobj [(''sha256'', JStr (u ''00''))])))"
      unfolding pair_sidecar_def by (rule json_item_sorted [OF plain [unfolded pair_sidecar_def]]) simp
    then show ?thesis
      unfolding json_item2_def by (simp add: json_item_def jidx_def jobj_def)
  qed
  have bound: "json_get2 (json_sorted (pair_sidecar ?cache)) ''bindings'' ''corpus_cache_sha256'' = Inr (JStr ?sha)"
  proof -
    have "json_get2 (json_sorted (pair_sidecar ?cache)) ''bindings'' ''corpus_cache_sha256''
        = Inr (json_sorted (jget (jobj [(''corpus_cache_sha256'', JStr ?sha)]) ''corpus_cache_sha256''))"
      unfolding pair_sidecar_def
      by (rule json_get2_sorted [OF plain [unfolded pair_sidecar_def]]) simp
    then show ?thesis by simp
  qed
  have ident: "truth_identity ?h ?d pair_job = Inr (?sha, ?sha, JStr (u ''00''))"
    by (simp add: truth_identity_def pair_job_def sha load model bound)
  define ctx where "ctx = \<lparr>tc_stable = truth_stable pair_job vp ?sha ?sha (JStr (u ''00'')),
      tc_hash = canonical_hash ?h (JObj (truth_stable pair_job vp ?sha ?sha (JStr (u ''00'')))),
      tc_corpus = pair_rows, tc_queries = pair_rows\<rparr>"
  have inp: "truth_inputs ?h unit_numerics ?d pair_job = Inr ctx"
    by (simp add: truth_inputs_def vec ident Let_def ctx_def) (simp add: vp_def)
  have "json_plain (JObj (tc_stable ctx))"
    by (simp add: ctx_def truth_stable_def jobj_def)
  moreover have "distinct (map (fs_resolve ?d) (managed (tj_output pair_job)))"
    "\<forall>p \<in> set (truth_input_paths pair_job). fs_resolve ?d p \<notin> fs_resolve ?d ` set (managed (tj_output pair_job))"
    by (simp_all add: pair_fs_def managed_def truth_input_paths_def pair_job_def)
       (simp add: sidecar_path_def checkpoint_path_def partial_path_def u_def)
  ultimately have "truth_env ?h unit_numerics (sorting_kernels sign_dot) sign_dot pair_job ctx ?d"
    unfolding truth_env_def using inp counting_host_codec sorting_kernels_ok [of sign_dot]
    by (simp add: ctx_def pair_rows_def) (simp add: pair_job_def)
  moreover have "view pair_job ?d = (None, None, None, None)"
    by (simp add: view_def file_at_def pair_fs_def pair_job_def sidecar_path_def checkpoint_path_def
        partial_path_def u_def)
  ultimately show thesis by (rule that) (simp_all add: ctx_def)
qed

theorem truth_generation_survives_crashes_witness:
  "\<exists>d w D. truth_run counting_host unit_numerics (sorting_kernels sign_dot) pair_job (\<lambda>_. u ''now'') d = (w, Inr D)
     \<and> file_at d (u ''out'') = None
     \<and> file_at (fs w) (u ''out'') = Some (gt_header 2 1 2 @ gt_payload [[0], [1]])"
proof -
  obtain header ctx where
    env: "truth_env counting_host unit_numerics (sorting_kernels sign_dot) sign_dot pair_job ctx (pair_fs header)"
    and v: "view pair_job (pair_fs header) = (None, None, None, None)"
    and ctx: "tc_corpus ctx = pair_rows" "tc_queries ctx = pair_rows"
    by (rule pair_env)
  have clock: "clock_ok (\<lambda>_. u ''now'')"
    by (simp add: clock_ok_def py_strip_def py_lstrip_def py_rstrip_def rstrip_while_def u_def py_ws_def)
  have table: "truth_table sign_dot pair_job ctx = [[0], [1]]"
    by (simp add: truth_table_def ctx pair_rows_def exact_row_def hits_from_def upt_rec sign_dot_def
        less_eq_hit_def pair_job_def)
  have "truth_file sign_dot pair_job ctx = gt_header 2 1 2 @ gt_payload [[0], [1]]"
    by (simp add: truth_file_def table truth_header_def ctx) (simp add: pair_rows_def pair_job_def numeral_2_eq_2)
  moreover have "\<not> half_created pair_job ctx (view pair_job (pair_fs header))"
    using v by (simp add: half_created_def)
  moreover have "tj_output pair_job = u ''out''" by (simp add: pair_job_def)
  moreover have "file_at (pair_fs header) (u ''out'') = None" using v by (simp add: view_def pair_job_def)
  ultimately show ?thesis
    using truth_generation_survives_crashes [OF env v truth_restart.reach.start clock] by metis
qed

end
