(* ===== verification/NqText.thy ===== *)
theory NqText
  imports LineFiles
begin

text \<open>
  Text preparation of \<open>prepare_beir_nq_scale.py\<close>: line cleaning, the UTF-8 byte budget, the
  document and query formats, identifiers and argument checks. \<open>py\<close> collects what the
  interpreter computes of a value that the model leaves open: the MD5 digest, \<open>str\<close> of a JSON
  value that is a float, list or dict, and \<open>str.casefold\<close>.
\<close>

record py =
  md5 :: "bytes \<Rightarrow> bytes"
  str_other :: "json \<Rightarrow> pystr"
  casefold :: "pystr \<Rightarrow> pystr"

definition document_prefix :: pystr where "document_prefix = u ''search_document: ''"
definition max_safe_document_bytes :: nat where "max_safe_document_bytes = 2000"

definition clean_line :: "json \<Rightarrow> pystr res" where
  "clean_line v =
     (case v of
        JNull \<Rightarrow> Inr []
      | JStr s \<Rightarrow> Inr (py_join (u '' '') (py_split (map (\<lambda>c. if c = 0 then 32 else c) s)))
      | _ \<Rightarrow> Inl (RuntimeError ''field must be a string''))"

definition truncate_utf8 :: "pystr \<Rightarrow> nat \<Rightarrow> (pystr \<times> bool) res" where
  "truncate_utf8 v max_bytes =
     (case utf8_encode v of Inl e \<Rightarrow> Inl e | Inr encoded \<Rightarrow>
      if length encoded \<le> max_bytes then Inr (v, False)
      else let truncated = py_rstrip (utf8_decode_ignore (take max_bytes encoded)) in
      if truncated = [] then Inl (RuntimeError ''document byte budget removed all prepared text'')
      else case utf8_encode truncated of Inl e \<Rightarrow> Inl e | Inr again \<Rightarrow>
      if max_bytes < length again
        then Inl (AssertionError ''UTF-8 truncation exceeded its byte budget'')
      else Inr (truncated, True))"

record prepared_document =
  pd_text :: pystr
  pd_raw_bytes :: nat
  pd_original_bytes :: nat
  pd_truncated :: bool

text \<open>\<open>record.get(k, "")\<close>\<close>

definition get_text :: "jobj \<Rightarrow> string \<Rightarrow> json" where
  "get_text m k = (case map_of m (u k) of None \<Rightarrow> JStr [] | Some v \<Rightarrow> v)"

definition document_content :: "pystr \<Rightarrow> pystr \<Rightarrow> pystr" where
  "document_content title text =
     (if title \<noteq> [] \<and> text \<noteq> [] then title @ u ''. '' @ text
      else if title \<noteq> [] then title else text)"

definition document_text :: "jobj \<Rightarrow> nat \<Rightarrow> prepared_document res" where
  "document_text r max_document_bytes =
     (case clean_line (get_text r ''title'') of Inl e \<Rightarrow> Inl e | Inr title \<Rightarrow>
      case clean_line (get_text r ''text'') of Inl e \<Rightarrow> Inl e | Inr text \<Rightarrow>
      let content = document_content title text in
      if content = [] then Inl (RuntimeError ''corpus document has no usable text'')
      else let original = document_prefix @ content in
      case truncate_utf8 original max_document_bytes of Inl e \<Rightarrow> Inl e | Inr (prepared, truncated) \<Rightarrow>
      if \<not> startswith prepared document_prefix
        then Inl (RuntimeError ''document byte budget is too small to preserve the Nomic prefix'')
      else case utf8_encode content of Inl e \<Rightarrow> Inl e | Inr raw \<Rightarrow>
      case utf8_encode original of Inl e \<Rightarrow> Inl e | Inr full \<Rightarrow>
      Inr \<lparr>pd_text = prepared, pd_raw_bytes = length raw, pd_original_bytes = length full,
           pd_truncated = truncated\<rparr>)"

definition query_text :: "jobj \<Rightarrow> (pystr \<times> nat) res" where
  "query_text r =
     (case clean_line (jget r ''text'') of Inl e \<Rightarrow> Inl e | Inr text \<Rightarrow>
      if text = [] then Inl (RuntimeError ''query has no usable text'')
      else case utf8_encode text of Inl e \<Rightarrow> Inl e | Inr raw \<Rightarrow>
      Inr (u ''search_query: '' @ text, length raw))"

text \<open>\<open>str(v)\<close>\<close>

definition int_str :: "int \<Rightarrow> pystr" where
  "int_str i = (if i < 0 then u ''-'' @ dec_nat (nat (- i)) else dec_nat (nat i))"

definition py_str :: "py \<Rightarrow> json \<Rightarrow> pystr" where
  "py_str py v =
     (case v of
        JStr s \<Rightarrow> s
      | JInt i \<Rightarrow> int_str i
      | JBool b \<Rightarrow> u (if b then ''True'' else ''False'')
      | JNull \<Rightarrow> u ''None''
      | _ \<Rightarrow> str_other py v)"

definition tsv_unsafe :: "pystr \<Rightarrow> bool" where
  "tsv_unsafe s \<longleftrightarrow> 9 \<in> set s \<or> 10 \<in> set s \<or> 13 \<in> set s"

definition identifier_of :: "py \<Rightarrow> jobj \<Rightarrow> pystr res" where
  "identifier_of py r =
     (case map_of r (u ''_id'') of
        None \<Rightarrow> Inl (RuntimeError ''line is missing _id'')
      | Some v \<Rightarrow>
          let result = py_str py v in
          if result = [] then Inl (RuntimeError ''line has an empty _id'')
          else if tsv_unsafe result then Inl (RuntimeError ''ID is not TSV-safe'')
          else Inr result)"

definition rank_hash :: "host \<Rightarrow> pystr \<Rightarrow> pystr \<Rightarrow> bytes res" where
  "rank_hash h seed v = (case utf8_encode (seed @ v) of Inl e \<Rightarrow> Inl e | Inr bs \<Rightarrow> Inr (sha256 h bs))"

definition validate_rate :: "pyfloat \<Rightarrow> unit res" where
  "validate_rate v =
     (if \<not> fl_isfinite v \<or> fl_lt v (Fin 0) \<or> fl_lt (Fin 1) v
      then Inl (ValueError ''must be a finite number in [0, 1]'') else Inr ())"

text \<open>
  \<open>value.lower()\<close> matters only where the result is hexadecimal, which no character outside
  ASCII maps to.
\<close>

definition validate_expected_md5 :: "pystr \<Rightarrow> pystr res" where
  "validate_expected_md5 v =
     (let normalized = ascii_lower v in
      if is_hex 32 normalized then Inr normalized
      else Inl (ValueError ''--expected-md5 must be exactly 32 hexadecimal characters''))"

subsection \<open>Lemmas\<close>

lemma clean_line_ok:
  "clean_line v = Inr s \<longleftrightarrow>
     v = JNull \<and> s = []
     \<or> (\<exists>t. v = JStr t \<and> s = py_join (u '' '') (py_split (map (\<lambda>c. if c = 0 then 32 else c) t)))"
  by (cases v) (auto simp: clean_line_def)

text \<open>A cleaned line is one line: no whitespace but single blanks between words.\<close>

lemma clean_line_chars:
  assumes "clean_line v = Inr s" and "c \<in> set s"
  shows "c = 32 \<or> \<not> py_ws c"
proof -
  obtain t where s: "s = py_join (u '' '') (py_split t)"
    using assms clean_line_ok by fastforce
  have "c \<in> set (u '' '') \<or> (\<exists>w \<in> set (py_split t). c \<in> set w)"
  proof -
    have "c \<in> set (py_join sep ws) \<Longrightarrow> c \<in> set sep \<or> (\<exists>w \<in> set ws. c \<in> set w)" for sep ws
      by (induction sep ws rule: py_join.induct) auto
    then show ?thesis using assms(2) s by blast
  qed
  then show ?thesis using py_split_words by (fastforce simp: u_def)
qed

lemma truncate_utf8_spec:
  assumes "truncate_utf8 v n = Inr (t, trunc)"
  shows "prefix t v" "\<exists>bs. utf8_encode t = Inr bs \<and> length bs \<le> n"
    "t = (if trunc then py_rstrip (utf8_fit n v) else v)"
    "trunc \<longleftrightarrow> n < length (utf8_bytes v)"
proof -
  obtain enc where enc: "utf8_encode v = Inr enc" using assms by (auto simp: truncate_utf8_def ok_simps)
  then have sc: "\<forall>c \<in> set v. is_scalar c" and e: "enc = utf8_bytes v"
    by (auto simp: utf8_encode_def list_all_iff split: if_splits)
  have fit: "utf8_decode_ignore (take n (utf8_bytes v)) = utf8_fit n v"
    using sc by (intro utf8_decode_ignore_take) auto
  have cases: "(length (utf8_bytes v) \<le> n \<and> t = v \<and> \<not> trunc)
      \<or> (\<not> length (utf8_bytes v) \<le> n \<and> t = py_rstrip (utf8_fit n v) \<and> trunc
         \<and> (\<exists>bs. utf8_encode t = Inr bs \<and> length bs \<le> n))"
    using assms enc e fit by (auto simp: truncate_utf8_def Let_def ok_simps split: if_splits)
  then show "prefix t v"
    using rstrip_while_prefix [of py_ws "utf8_fit n v"] utf8_fit_prefix [of n v]
    by (auto simp: py_rstrip_def dest: prefix_order.trans)
  show "\<exists>bs. utf8_encode t = Inr bs \<and> length bs \<le> n" using cases enc e by auto
  show "t = (if trunc then py_rstrip (utf8_fit n v) else v)" "trunc \<longleftrightarrow> n < length (utf8_bytes v)"
    using cases by auto
qed

lemma document_text_spec:
  assumes "document_text r n = Inr d"
  obtains title body where "clean_line (get_text r ''title'') = Inr title"
    and "clean_line (get_text r ''text'') = Inr body"
    and "document_content title body \<noteq> []"
    and "truncate_utf8 (document_prefix @ document_content title body) n = Inr (pd_text d, pd_truncated d)"
    and "startswith (pd_text d) document_prefix"
    and "pd_raw_bytes d = length (utf8_bytes (document_content title body))"
    and "pd_original_bytes d = length (utf8_bytes (document_prefix @ document_content title body))"
  using assms unfolding document_text_def
  by (auto simp: ok_simps Let_def utf8_encode_def split: prod.splits if_splits)

text \<open>A text that is cut at twenty bytes, within the blank before its last word.\<close>

lemma cut_document:
  assumes g: "get_text r ''title'' = JStr (u ''A'')" "get_text r ''text'' = JStr (u ''b  c'')"
  shows "document_text r 20 = Inr \<lparr>pd_text = u ''search_document: A.'', pd_raw_bytes = 6, pd_original_bytes = 23, pd_truncated = True\<rparr>"
proof -
  let ?v = "u ''search_document: A. b c''"
  have c: "clean_line (get_text r ''title'') = Inr (u ''A'')" "clean_line (get_text r ''text'') = Inr (u ''b c'')"
    unfolding g by (simp_all add: clean_line_def u_def py_split.simps py_ws_def)
  have e: "utf8_encode ?v = Inr (utf8_bytes ?v)" "utf8_encode (u ''search_document: A.'') = Inr (utf8_bytes (u ''search_document: A.''))"
    "utf8_encode (u ''A. b c'') = Inr (utf8_bytes (u ''A. b c''))"
    by (simp_all add: utf8_encode_def u_def is_scalar_def)
  have n: "length (utf8_bytes ?v) = 23" "length (utf8_bytes (u ''A. b c'')) = 6"
    "length (utf8_bytes (u ''search_document: A.'')) = 19"
    by (simp_all add: u_def utf8_char_def)
  have fit: "utf8_fit 20 ?v = u ''search_document: A. ''" by (simp add: u_def utf8_char_def)
  have "utf8_decode_ignore (take 20 (utf8_bytes ?v)) = utf8_fit 20 ?v"
    by (rule utf8_decode_ignore_take) (simp add: u_def is_scalar_def)
  moreover have "py_rstrip (u ''search_document: A. '') = u ''search_document: A.''"
    by (simp add: py_rstrip_def rstrip_while_def u_def py_ws_def)
  ultimately have t: "truncate_utf8 ?v 20 = Inr (u ''search_document: A.'', True)"
    by (simp add: truncate_utf8_def e n fit)
  have st: "startswith (u ''search_document: A.'') document_prefix"
    by (simp add: startswith_code document_prefix_def u_def)
  show ?thesis
    unfolding document_text_def c using t st by (simp add: document_content_def document_prefix_def e n)
qed



end
