(* ===== verification/NqParse.thy ===== *)
theory NqParse
  imports NqText "HOL-Library.Product_Lexorder" "HOL-Library.Multiset"
begin

text \<open>
  The BEIR source files of \<open>prepare_beir_nq_scale.py\<close>: \<open>parse_queries\<close>, \<open>parse_qrels\<close> and
  the choice of queries. A dict or a dict of sets is an association list in insertion order.
  The lemmas show what a parsed file guarantees and that the selection depends on the set of
  judged queries only, not on the order of the judgments.
\<close>

subsection \<open>Queries\<close>

record source_stats =
  ss_bytes :: nat
  ss_lines :: nat
  ss_sha :: pystr

definition stats_of_lines :: "host \<Rightarrow> bytes list \<Rightarrow> source_stats" where
  "stats_of_lines h ls = \<lparr>ss_bytes = sum_list (map length ls), ss_lines = length ls,
     ss_sha = sha_hex h (concat ls)\<rparr>"

definition blank_bytes :: "bytes \<Rightarrow> bool" where
  "blank_bytes raw \<longleftrightarrow> list_all (\<lambda>b. (9 \<le> unat b \<and> unat b \<le> 13) \<or> unat b = 32) raw"

definition parse_record :: "host \<Rightarrow> bytes \<Rightarrow> jobj res" where
  "parse_record h raw =
     (if blank_bytes raw then Inl (RuntimeError ''blank line'')
      else case loads h raw of
        None \<Rightarrow> Inl (RuntimeError ''invalid line'')
      | Some v \<Rightarrow> (case v of JObj m \<Rightarrow> Inr m | _ \<Rightarrow> Inl (RuntimeError ''line is not an object'')))"

type_synonym queries = "(pystr \<times> pystr \<times> nat) list"

definition query_step :: "host \<Rightarrow> py \<Rightarrow> queries \<Rightarrow> bytes \<Rightarrow> queries res" where
  "query_step h py qs raw =
     (case parse_record h raw of Inl e \<Rightarrow> Inl e | Inr r \<Rightarrow>
      case identifier_of py r of Inl e \<Rightarrow> Inl e | Inr query_id \<Rightarrow>
      if query_id \<in> fst ` set qs then Inl (RuntimeError ''duplicate query ID'')
      else case query_text r of Inl e \<Rightarrow> Inl e | Inr t \<Rightarrow> Inr (qs @ [(query_id, t)]))"

definition parse_queries :: "host \<Rightarrow> py \<Rightarrow> bytes \<Rightarrow> (queries \<times> source_stats) res" where
  "parse_queries h py content =
     (let ls = lines_keep 10 content in
      case fold_res (query_step h py) [] ls of Inl e \<Rightarrow> Inl e | Inr qs \<Rightarrow>
      if qs = [] then Inl (RuntimeError ''queries.jsonl is empty'')
      else Inr (qs, stats_of_lines h ls))"

subsection \<open>Relevance judgments\<close>

record qrel =
  qr_query :: pystr
  qr_corpus :: pystr
  qr_text :: pystr
  qr_score :: pyfloat

record qrel_state =
  qs_qrels :: "qrel list"
  qs_positives :: "(pystr \<times> pystr list) list"
  qs_seen :: "(pystr \<times> pystr) list"

text \<open>\<open>positives.setdefault(query_id, set()).add(corpus_id)\<close>\<close>

fun add_positive :: "(pystr \<times> pystr list) list \<Rightarrow> pystr \<Rightarrow> pystr \<Rightarrow> (pystr \<times> pystr list) list" where
  "add_positive [] q c = [(q, [c])]"
| "add_positive ((p, cs) # rest) q c =
     (if p = q then (p, if c \<in> set cs then cs else cs @ [c]) # rest
      else (p, cs) # add_positive rest q c)"

definition tsv_fields :: "bytes \<Rightarrow> pystr list res" where
  "tsv_fields raw =
     (case utf8_decode raw of Inl e \<Rightarrow> Inl (RuntimeError ''test qrels line is not UTF-8'') | Inr s \<Rightarrow>
      Inr (split_on 9 (rstrip_while (\<lambda>c. c = 13 \<or> c = 10) s)))"

definition qrel_of_fields :: "pystr list \<Rightarrow> qrel res" where
  "qrel_of_fields cols =
     (case cols of
        [query_id, corpus_id, score_text] \<Rightarrow>
          if query_id = [] \<or> corpus_id = [] \<or> score_text = []
            then Inl (RuntimeError ''test qrels line must have three non-empty fields'')
          else if tsv_unsafe query_id \<or> tsv_unsafe corpus_id
            then Inl (RuntimeError ''invalid qrel ID'')
          else (case py_float score_text of
              None \<Rightarrow> Inl (RuntimeError ''invalid qrel score'')
            | Some score \<Rightarrow>
                if \<not> fl_isfinite score then Inl (RuntimeError ''non-finite qrel score'')
                else Inr \<lparr>qr_query = query_id, qr_corpus = corpus_id, qr_text = score_text, qr_score = score\<rparr>)
      | _ \<Rightarrow> Inl (RuntimeError ''test qrels line must have three non-empty fields''))"

definition qrel_step :: "qrel_state \<Rightarrow> bytes \<Rightarrow> qrel_state res" where
  "qrel_step st raw =
     (case tsv_fields raw of Inl e \<Rightarrow> Inl e | Inr cols \<Rightarrow>
      case qrel_of_fields cols of Inl e \<Rightarrow> Inl e | Inr q \<Rightarrow>
      if (qr_query q, qr_corpus q) \<in> set (qs_seen st) then Inl (RuntimeError ''duplicate qrel pair'')
      else Inr \<lparr>qs_qrels = qs_qrels st @ [q],
        qs_positives = (if fl_lt (Fin 0) (qr_score q)
          then add_positive (qs_positives st) (qr_query q) (qr_corpus q) else qs_positives st),
        qs_seen = (qr_query q, qr_corpus q) # qs_seen st\<rparr>)"

definition parse_qrels ::
  "host \<Rightarrow> bytes \<Rightarrow> (qrel list \<times> (pystr \<times> pystr list) list \<times> source_stats) res" where
  "parse_qrels h content =
     (case lines_keep 10 content of
        [] \<Rightarrow> Inl (RuntimeError ''test qrels file is empty'')
      | header # ls \<Rightarrow>
          (case utf8_decode header of Inl e \<Rightarrow> Inl (RuntimeError ''test qrels header is not UTF-8'') | Inr s \<Rightarrow>
           if length (split_on 9 (rstrip_while (\<lambda>c. c = 13 \<or> c = 10) s)) \<noteq> 3
             then Inl (RuntimeError ''test qrels header must contain exactly three columns'')
           else case fold_res qrel_step \<lparr>qs_qrels = [], qs_positives = [], qs_seen = []\<rparr> ls of
             Inl e \<Rightarrow> Inl e | Inr st \<Rightarrow>
           if qs_positives st = [] then Inl (RuntimeError ''test qrels contain no positive judgments'')
           else Inr (qs_qrels st, qs_positives st, stats_of_lines h (header # ls))))"

subsection \<open>Choosing queries\<close>

text \<open>
  The sort key is \<open>(rank_hash(seed, id), id)\<close>; computing it raises when an ID has no UTF-8
  encoding.
\<close>

definition select_queries ::
  "host \<Rightarrow> queries \<Rightarrow> (pystr \<times> pystr list) list \<Rightarrow> pystr \<Rightarrow> nat \<Rightarrow> pystr list res" where
  "select_queries h qs positives seed wanted =
     (let missing = filter (\<lambda>q. q \<notin> fst ` set qs) (map fst positives) in
      if missing \<noteq> [] then Inl (RuntimeError ''positive-qrel query IDs are absent from queries.jsonl'')
      else let pool = map fst positives in
      if length pool < wanted then Inl (RuntimeError ''too few test queries have positive qrels'')
      else case map_res (rank_hash h seed) pool of Inl e \<Rightarrow> Inl e | Inr _ \<Rightarrow>
      Inr (take wanted (sort_key (\<lambda>q. (sha256 h (utf8_bytes (seed @ q)), q)) pool)))"

subsection \<open>What parsing guarantees\<close>

lemma parse_queries_distinct:
  assumes "parse_queries h py content = Inr (qs, st)"
  shows "distinct (map fst qs)" "qs \<noteq> []"
    "st = stats_of_lines h (lines_keep 10 content)"
proof -
  have run: "fold_res (query_step h py) [] (lines_keep 10 content) = Inr qs" "qs \<noteq> []"
    and st: "st = stats_of_lines h (lines_keep 10 content)"
    using assms by (auto simp: parse_queries_def ok_simps Let_def)
  have "distinct (map fst qs)"
    by (rule fold_res_invariant [OF run(1), where I = "\<lambda>qs. distinct (map fst qs)"])
       (auto simp: query_step_def ok_simps)
  then show "distinct (map fst qs)" "qs \<noteq> []" "st = stats_of_lines h (lines_keep 10 content)"
    using run(2) st by simp_all
qed

definition positive_pairs :: "qrel list \<Rightarrow> (pystr \<times> pystr) set" where
  "positive_pairs qrels =
     {(qr_query q, qr_corpus q) | q. q \<in> set qrels \<and> fl_lt (Fin 0) (qr_score q)}"

definition qrel_inv :: "qrel_state \<Rightarrow> bool" where
  "qrel_inv st \<longleftrightarrow>
     distinct (map (\<lambda>q. (qr_query q, qr_corpus q)) (qs_qrels st))
     \<and> set (qs_seen st) = (\<lambda>q. (qr_query q, qr_corpus q)) ` set (qs_qrels st)
     \<and> (\<forall>q \<in> set (qs_qrels st). fl_isfinite (qr_score q) \<and> \<not> tsv_unsafe (qr_query q)
          \<and> \<not> tsv_unsafe (qr_corpus q))
     \<and> distinct (map fst (qs_positives st))
     \<and> (\<forall>(q, cs) \<in> set (qs_positives st). cs \<noteq> [] \<and> distinct cs)
     \<and> {(q, c) | q c cs. (q, cs) \<in> set (qs_positives st) \<and> c \<in> set cs} = positive_pairs (qs_qrels st)"

lemma add_positive_keys: "fst ` set (add_positive ps q c) = insert q (fst ` set ps)"
  by (induction ps q c rule: add_positive.induct) auto

lemma add_positive_distinct: "distinct (map fst ps) \<Longrightarrow> distinct (map fst (add_positive ps q c))"
proof (induction ps q c rule: add_positive.induct)
  case (2 p cs rest q c)
  then show ?case using add_positive_keys [of rest q c] by auto
qed simp

lemma add_positive_ne:
  "\<forall>(q, cs) \<in> set ps. cs \<noteq> [] \<and> distinct cs \<Longrightarrow> \<forall>(q, cs) \<in> set (add_positive ps q c). cs \<noteq> [] \<and> distinct cs"
  by (induction ps q c rule: add_positive.induct) auto

lemma add_positive_pairs:
  "distinct (map fst ps) \<Longrightarrow>
   {(q, c) | q c cs. (q, cs) \<in> set (add_positive ps q0 c0) \<and> c \<in> set cs}
     = insert (q0, c0) {(q, c) | q c cs. (q, cs) \<in> set ps \<and> c \<in> set cs}"
proof (induction ps q0 c0 rule: add_positive.induct)
  case (2 p cs rest q c)
  then show ?case by (cases "p = q") (auto, blast+)
qed auto

lemma qrel_step_inv: "qrel_inv st \<Longrightarrow> qrel_step st raw = Inr st' \<Longrightarrow> qrel_inv st'"
proof -
  assume inv: "qrel_inv st" and "qrel_step st raw = Inr st'"
  then obtain q cols where f: "qrel_of_fields cols = Inr q"
    and new: "(qr_query q, qr_corpus q) \<notin> set (qs_seen st)"
    and st': "st' = \<lparr>qs_qrels = qs_qrels st @ [q],
        qs_positives = (if fl_lt (Fin 0) (qr_score q)
          then add_positive (qs_positives st) (qr_query q) (qr_corpus q) else qs_positives st),
        qs_seen = (qr_query q, qr_corpus q) # qs_seen st\<rparr>"
    by (auto simp: qrel_step_def ok_simps)
  have q: "fl_isfinite (qr_score q)" "\<not> tsv_unsafe (qr_query q)" "\<not> tsv_unsafe (qr_corpus q)"
    using f by (auto simp: qrel_of_fields_def split: list.splits option.splits if_splits)
  have pp: "positive_pairs (qs_qrels st @ [q]) = (if fl_lt (Fin 0) (qr_score q)
      then insert (qr_query q, qr_corpus q) (positive_pairs (qs_qrels st)) else positive_pairs (qs_qrels st))"
    by (auto simp: positive_pairs_def)
  let ?ps = "qs_positives st" and ?k = "qr_query q" and ?c = "qr_corpus q"
  let ?ps' = "if fl_lt (Fin 0) (qr_score q) then add_positive ?ps ?k ?c else ?ps"
  have i: "distinct (map fst ?ps)" "\<forall>(q, cs) \<in> set ?ps. cs \<noteq> [] \<and> distinct cs"
    "{(q, c) | q c cs. (q, cs) \<in> set ?ps \<and> c \<in> set cs} = positive_pairs (qs_qrels st)"
    using inv unfolding qrel_inv_def by blast+
  have "distinct (map fst ?ps')" using i(1) add_positive_distinct by simp
  moreover have "\<forall>(q, cs) \<in> set ?ps'. cs \<noteq> [] \<and> distinct cs"
    using i(2) add_positive_ne [OF i(2)] by simp
  moreover have "{(q, c) | q c cs. (q, cs) \<in> set ?ps' \<and> c \<in> set cs} = positive_pairs (qs_qrels st @ [q])"
    using i(3) add_positive_pairs [OF i(1), of ?k ?c] by (simp add: pp)
  ultimately show "qrel_inv st'"
    using inv new q unfolding qrel_inv_def st' by simp
qed

lemma parse_qrels_sound:
  assumes "parse_qrels h content = Inr (qrels, positives, st)"
  shows "distinct (map (\<lambda>q. (qr_query q, qr_corpus q)) qrels)"
    "\<forall>q \<in> set qrels. fl_isfinite (qr_score q) \<and> \<not> tsv_unsafe (qr_query q) \<and> \<not> tsv_unsafe (qr_corpus q)"
    "distinct (map fst positives)" "positives \<noteq> []"
    "\<forall>(q, cs) \<in> set positives. cs \<noteq> [] \<and> distinct cs"
    "{(q, c) | q c cs. (q, cs) \<in> set positives \<and> c \<in> set cs} = positive_pairs qrels"
proof -
  obtain s ls where run: "fold_res qrel_step \<lparr>qs_qrels = [], qs_positives = [], qs_seen = []\<rparr> ls = Inr s"
    and out: "qrels = qs_qrels s" "positives = qs_positives s" "qs_positives s \<noteq> []"
    using assms by (auto simp: parse_qrels_def ok_simps split: list.splits if_splits sum.splits)
  have "qrel_inv s"
  proof (rule fold_res_invariant [OF run, where I = qrel_inv])
    show "qrel_inv \<lparr>qs_qrels = [], qs_positives = [], qs_seen = []\<rparr>"
      by (simp add: qrel_inv_def positive_pairs_def)
  qed (rule qrel_step_inv)
  then show "distinct (map (\<lambda>q. (qr_query q, qr_corpus q)) qrels)"
    "\<forall>q \<in> set qrels. fl_isfinite (qr_score q) \<and> \<not> tsv_unsafe (qr_query q) \<and> \<not> tsv_unsafe (qr_corpus q)"
    "distinct (map fst positives)" "positives \<noteq> []"
    "\<forall>(q, cs) \<in> set positives. cs \<noteq> [] \<and> distinct cs"
    "{(q, c) | q c cs. (q, cs) \<in> set positives \<and> c \<in> set cs} = positive_pairs qrels"
    using out unfolding qrel_inv_def by simp_all
qed

subsection \<open>The selection is canonical\<close>

lemma sort_key_inj_perm:
  assumes "inj f" and "mset xs = mset ys"
  shows "sort_key f xs = sort_key f ys"
proof -
  have "map f (sort_key f zs) = sort (map f zs)" for zs
    by (rule properties_for_sort [symmetric]) simp_all
  moreover have "sort (map f xs) = sort (map f ys)"
    using assms(2) by (intro properties_for_sort) simp_all
  ultimately have "map f (sort_key f xs) = map f (sort_key f ys)" by simp
  then show ?thesis using assms(1) by (simp add: inj_map_eq_map)
qed

definition query_key :: "host \<Rightarrow> pystr \<Rightarrow> pystr \<Rightarrow> bytes \<times> pystr" where
  "query_key h seed q = (sha256 h (utf8_bytes (seed @ q)), q)"

lemma inj_query_key: "inj (query_key h seed)"
  by (rule injI) (simp add: query_key_def)

lemma select_queries_ok:
  "select_queries h qs positives seed wanted = Inr sel \<longleftrightarrow>
     set (map fst positives) \<subseteq> fst ` set qs \<and> wanted \<le> length positives
     \<and> (\<forall>q \<in> set (map fst positives). \<exists>r. rank_hash h seed q = Inr r)
     \<and> sel = take wanted (sort_key (query_key h seed) (map fst positives))"
proof -
  have res: "(\<exists>ys. map_res f xs = Inr ys) \<longleftrightarrow> (\<forall>x \<in> set xs. \<exists>y. f x = Inr y)" for f :: "pystr \<Rightarrow> bytes res" and xs
  proof (induction xs)
    case (Cons a xs)
    then show ?case by (auto simp: ok_simps)
  qed simp
  have key: "(\<lambda>q. (sha256 h (utf8_bytes (seed @ q)), q)) = query_key h seed"
    by (simp add: query_key_def fun_eq_iff)
  show ?thesis
    unfolding select_queries_def Let_def key res [symmetric]
    by (auto simp: ok_simps filter_empty_conv)
qed

text \<open>
  C7. Query selection is canonical: a successful selection has exactly the requested number of
  distinct judged queries, in rank order, each ranked before every judged query left out; and it
  depends on the judged queries only as a collection, so that reordering the judgment file
  does not change it.
\<close>

theorem query_selection_canonical:
  assumes "select_queries h qs positives seed wanted = Inr sel" and "distinct (map fst positives)"
  shows "length sel = wanted \<and> distinct sel \<and> set sel \<subseteq> fst ` set positives \<and> set sel \<subseteq> fst ` set qs
    \<and> sorted (map (query_key h seed) sel)
    \<and> (\<forall>p \<in> set sel. \<forall>q \<in> fst ` set positives - set sel. query_key h seed p \<le> query_key h seed q)
    \<and> (\<forall>other. mset (map fst other) = mset (map fst positives) \<longrightarrow>
         select_queries h qs other seed wanted = Inr sel)"
proof -
  let ?pool = "map fst positives" and ?f = "query_key h seed"
  let ?srt = "sort_key ?f ?pool"
  have ok: "set ?pool \<subseteq> fst ` set qs" "wanted \<le> length positives"
    "\<forall>q \<in> set ?pool. \<exists>r. rank_hash h seed q = Inr r" and sel: "sel = take wanted ?srt"
    using assms(1) unfolding select_queries_ok by simp_all
  have sub: "set sel \<subseteq> set ?pool" unfolding sel by (metis set_sort set_take_subset)
  have d: "distinct ?srt" using assms(2) by simp
  have sorted: "sorted (map ?f (sel @ drop wanted ?srt))" by (simp add: sel)
  have rest: "q \<in> set (drop wanted ?srt)" if "q \<in> set ?pool - set sel" for q
  proof -
    have "q \<in> set (take wanted ?srt @ drop wanted ?srt)" using that by simp
    then show ?thesis using that unfolding sel by (metis DiffD2 Un_iff set_append)
  qed
  have same: "select_queries h qs other seed wanted = Inr sel" if "mset (map fst other) = mset ?pool" for other
  proof -
    have "set (map fst other) = set ?pool" using that by (rule mset_eq_setD)
    moreover have "length other = length positives" using mset_eq_length [OF that] by simp
    ultimately show ?thesis
      unfolding select_queries_ok sort_key_inj_perm [OF inj_query_key that] using ok sel by simp
  qed
  have "length sel = wanted" using ok(2) by (simp add: sel)
  moreover have "distinct sel" using d by (simp add: sel)
  moreover have "set sel \<subseteq> fst ` set positives" using sub by simp
  moreover have "set sel \<subseteq> fst ` set qs" using sub ok(1) by blast
  moreover have "sorted (map ?f sel)" using sorted by (simp add: sorted_append)
  moreover have "\<forall>p \<in> set sel. \<forall>q \<in> fst ` set positives - set sel. ?f p \<le> ?f q"
    using sorted rest by (auto simp: sorted_append)
  ultimately show ?thesis using same by blast
qed

definition echo_host :: host where
  "echo_host = \<lparr>sha256 = id, dumps_canonical = (\<lambda>_. []), dumps_indent = (\<lambda>_. []), loads = (\<lambda>_. None)\<rparr>"

theorem query_selection_canonical_witness:
  "select_queries echo_host [(u ''q1'', u ''x'', 1), (u ''q2'', u ''y'', 1)]
      [(u ''q2'', [u ''d'']), (u ''q1'', [u ''d''])] (u ''s'') 1 = Inr [u ''q1'']
    \<and> select_queries echo_host [(u ''q1'', u ''x'', 1), (u ''q2'', u ''y'', 1)]
      [(u ''q1'', [u ''d'']), (u ''q2'', [u ''d''])] (u ''s'') 1 = Inr [u ''q1'']"
proof -
  let ?qs = "[(u ''q1'', u ''x'', 1), (u ''q2'', u ''y'', 1)]"
  let ?ps = "[(u ''q2'', [u ''d'']), (u ''q1'', [u ''d''])]"
  have run: "select_queries echo_host ?qs ?ps (u ''s'') 1 = Inr [u ''q1'']"
    unfolding select_queries_ok
    by (simp add: rank_hash_def utf8_encode_def echo_host_def query_key_def u_def is_scalar_def
        utf8_char_def byte_of_def less_eq_prod_def)
  have "distinct (map fst ?ps)" by simp
  from query_selection_canonical [OF run this] run show ?thesis by (simp add: add_mset_commute)
qed

end
