(* ===== verification/NqSelect.thy ===== *)
theory NqSelect
  imports NqParse
begin

text \<open>
  Corpus indexing and document selection of \<open>prepare_beir_nq_scale.py\<close>. The SQLite tables are
  lists of rows with the primary key checked on insertion; \<open>ORDER BY rank_hash, corpus_id\<close> is a
  sort by that pair (BLOBs compare as bytes, TEXT as code points). The main lemma is a
  functional refinement: a successful selection is the ranked positives followed by the first
  ranked fillers whose text has not been used yet.
\<close>

subsection \<open>Indexing the corpus\<close>

record corpus_row =
  cr_id :: pystr
  cr_rank :: bytes
  cr_digest :: bytes
  cr_text :: pystr
  cr_raw :: nat
  cr_original :: nat
  cr_prepared :: nat
  cr_truncated :: bool
  cr_positive :: bool

definition sql_batch_rows :: nat where "sql_batch_rows = 5000"

definition insert_row :: "corpus_row list \<Rightarrow> corpus_row \<Rightarrow> corpus_row list res" where
  "insert_row table row =
     (if cr_id row \<in> cr_id ` set table
      then Inl (RuntimeError ''corpus contains a duplicate ID or invalid indexed value'')
      else Inr (table @ [row]))"

definition flush_corpus_batch :: "corpus_row list \<Rightarrow> corpus_row list \<Rightarrow> corpus_row list res" where
  "flush_corpus_batch table batch = fold_res insert_row table batch"

record index_state =
  ix_table :: "corpus_row list"
  ix_batch :: "corpus_row list"
  ix_prepared :: nat
  ix_original :: nat
  ix_raw :: nat
  ix_truncated :: nat
  ix_removed :: int
  ix_maximum :: nat
  ix_seen :: "pystr list"

definition corpus_row_of ::
  "host \<Rightarrow> py \<Rightarrow> pystr list \<Rightarrow> pystr \<Rightarrow> nat \<Rightarrow> bytes \<Rightarrow> corpus_row res" where
  "corpus_row_of h py positive_ids seed max_document_bytes raw =
     (case parse_record h raw of Inl e \<Rightarrow> Inl e | Inr r \<Rightarrow>
      case identifier_of py r of Inl e \<Rightarrow> Inl e | Inr corpus_id \<Rightarrow>
      case document_text r max_document_bytes of Inl e \<Rightarrow> Inl e | Inr document \<Rightarrow>
      case utf8_encode (pd_text document) of Inl e \<Rightarrow> Inl e | Inr encoded \<Rightarrow>
      case rank_hash h seed corpus_id of Inl e \<Rightarrow> Inl e | Inr rank \<Rightarrow>
      Inr \<lparr>cr_id = corpus_id, cr_rank = rank, cr_digest = sha256 h encoded, cr_text = pd_text document,
           cr_raw = pd_raw_bytes document, cr_original = pd_original_bytes document,
           cr_prepared = length encoded, cr_truncated = pd_truncated document,
           cr_positive = (corpus_id \<in> set positive_ids)\<rparr>)"

definition account_row :: "index_state \<Rightarrow> corpus_row \<Rightarrow> index_state" where
  "account_row st row =
     st\<lparr>ix_batch := ix_batch st @ [row],
        ix_prepared := ix_prepared st + cr_prepared row,
        ix_original := ix_original st + cr_original row,
        ix_raw := ix_raw st + cr_raw row,
        ix_truncated := ix_truncated st + (if cr_truncated row then 1 else 0),
        ix_removed := ix_removed st
          + (if cr_truncated row then int (cr_original row) - int (cr_prepared row) else 0),
        ix_maximum := max (ix_maximum st) (cr_prepared row),
        ix_seen := (if cr_positive row then cr_id row # ix_seen st else ix_seen st)\<rparr>"

definition flush_state :: "index_state \<Rightarrow> index_state res" where
  "flush_state st =
     (case flush_corpus_batch (ix_table st) (ix_batch st) of Inl e \<Rightarrow> Inl e | Inr table \<Rightarrow>
      Inr (st\<lparr>ix_table := table, ix_batch := []\<rparr>))"

definition index_step ::
  "host \<Rightarrow> py \<Rightarrow> pystr list \<Rightarrow> pystr \<Rightarrow> nat \<Rightarrow> index_state \<Rightarrow> bytes \<Rightarrow> index_state res" where
  "index_step h py positive_ids seed max_document_bytes st raw =
     (case corpus_row_of h py positive_ids seed max_document_bytes raw of Inl e \<Rightarrow> Inl e | Inr row \<Rightarrow>
      let st' = account_row st row in
      if sql_batch_rows \<le> length (ix_batch st') then flush_state st' else Inr st')"

definition empty_index :: index_state where
  "empty_index = \<lparr>ix_table = [], ix_batch = [], ix_prepared = 0, ix_original = 0, ix_raw = 0,
     ix_truncated = 0, ix_removed = 0, ix_maximum = 0, ix_seen = []\<rparr>"

definition index_corpus ::
  "host \<Rightarrow> py \<Rightarrow> pystr list \<Rightarrow> pystr \<Rightarrow> nat \<Rightarrow> bytes \<Rightarrow> (source_stats \<times> index_state) res" where
  "index_corpus h py positive_ids seed max_document_bytes content =
     (let ls = lines_keep 10 content in
      case fold_res (index_step h py positive_ids seed max_document_bytes) empty_index ls of
        Inl e \<Rightarrow> Inl e | Inr st \<Rightarrow>
      case flush_state st of Inl e \<Rightarrow> Inl e | Inr st' \<Rightarrow>
      if \<not> set positive_ids \<subseteq> set (ix_seen st')
        then Inl (RuntimeError ''positive qrel documents are absent from corpus.jsonl'')
      else if ls = [] then Inl (RuntimeError ''corpus.jsonl is empty'')
      else Inr (stats_of_lines h ls, st'))"

subsection \<open>Selecting documents\<close>

definition row_key :: "corpus_row \<Rightarrow> bytes \<times> pystr" where
  "row_key r = (cr_rank r, cr_id r)"

record selected_row =
  sr_id :: pystr
  sr_tier :: nat
  sr_forced :: bool

text \<open>\<open>positive_ids_by_text.setdefault(digest, []).append(corpus_id)\<close>\<close>

fun add_text_group :: "(bytes \<times> pystr list) list \<Rightarrow> bytes \<Rightarrow> pystr \<Rightarrow> (bytes \<times> pystr list) list" where
  "add_text_group [] d i = [(d, [i])]"
| "add_text_group ((e, is) # gs) d i =
     (if e = d then (e, is @ [i]) # gs else (e, is) # add_text_group gs d i)"

definition text_groups :: "corpus_row list \<Rightarrow> (bytes \<times> pystr list) list" where
  "text_groups rows = foldl (\<lambda>gs r. add_text_group gs (cr_digest r) (cr_id r)) [] rows"

record fill_state =
  fl_used :: "bytes list"
  fl_selected :: "selected_row list"
  fl_pending :: "selected_row list"
  fl_small :: nat
  fl_large :: nat
  fl_skipped :: nat

definition take_filler :: "nat \<Rightarrow> fill_state \<Rightarrow> corpus_row \<Rightarrow> fill_state" where
  "take_filler small_count st r =
     (let tier = (if fl_small st < small_count then 0 else 1);
          pending = fl_pending st @ [\<lparr>sr_id = cr_id r, sr_tier = tier, sr_forced = False\<rparr>];
          full = sql_batch_rows \<le> length pending
      in \<lparr>fl_used = cr_digest r # fl_used st,
          fl_selected = (if full then fl_selected st @ pending else fl_selected st),
          fl_pending = (if full then [] else pending),
          fl_small = fl_small st + (if tier = 0 then 1 else 0),
          fl_large = fl_large st + 1, fl_skipped = fl_skipped st\<rparr>)"

fun filler_loop :: "nat \<Rightarrow> nat \<Rightarrow> fill_state \<Rightarrow> corpus_row list \<Rightarrow> fill_state" where
  "filler_loop small_count large_count st [] = st"
| "filler_loop small_count large_count st (r # rs) =
     (if cr_digest r \<in> set (fl_used st)
      then filler_loop small_count large_count (st\<lparr>fl_skipped := fl_skipped st + 1\<rparr>) rs
      else let st' = take_filler small_count st r in
        if fl_large st' = large_count then st' else filler_loop small_count large_count st' rs)"

record selection =
  sl_rows :: "selected_row list"
  sl_source :: nat
  sl_positive :: nat
  sl_small :: nat
  sl_large :: nat
  sl_skipped :: nat
  sl_unique :: nat

definition select_documents ::
  "corpus_row list \<Rightarrow> nat \<Rightarrow> nat \<Rightarrow> nat \<Rightarrow> selection res" where
  "select_documents table positive_count small_count large_count =
     (if small_count < positive_count
        then Inl (RuntimeError ''positive documents do not fit in the nested tier'')
      else if length table < large_count then Inl (RuntimeError ''corpus has too few documents'')
      else let positives = sort_key row_key (filter cr_positive table) in
      if filter (\<lambda>g. 1 < length (snd g)) (text_groups positives) \<noteq> []
        then Inl (RuntimeError ''selected positive-qrel document rows reuse prepared text'')
      else let st = filler_loop small_count large_count
             \<lparr>fl_used = map cr_digest positives,
              fl_selected = map (\<lambda>r. \<lparr>sr_id = cr_id r, sr_tier = 0, sr_forced = True\<rparr>) positives,
              fl_pending = [], fl_small = length positives, fl_large = length positives, fl_skipped = 0\<rparr>
             (sort_key row_key (filter (\<lambda>r. \<not> cr_positive r) table)) in
      if fl_small st \<noteq> small_count \<or> fl_large st \<noteq> large_count
        then Inl (RuntimeError ''not enough unique prepared documents to satisfy requested tiers'')
      else if card (set (fl_used st)) \<noteq> fl_large st
        then Inl (RuntimeError ''selected corpus contains retained prepared-text duplicates'')
      else Inr \<lparr>sl_rows = fl_selected st @ fl_pending st, sl_source = length table,
                sl_positive = positive_count, sl_small = fl_small st, sl_large = fl_large st,
                sl_skipped = fl_skipped st, sl_unique = card (set (fl_used st))\<rparr>)"

subsection \<open>The index is a table\<close>

lemma flush_corpus_batch_ok:
  "distinct (map cr_id table) \<Longrightarrow> flush_corpus_batch table batch = Inr out \<longleftrightarrow>
     out = table @ batch \<and> distinct (map cr_id (table @ batch))"
  unfolding flush_corpus_batch_def
proof (induction batch arbitrary: table)
  case (Cons r batch)
  show ?case
  proof (cases "cr_id r \<in> cr_id ` set table")
    case True
    then show ?thesis by (simp add: insert_row_def)
  next
    case False
    then have "distinct (map cr_id (table @ [r]))" using Cons.prems by auto
    from Cons.IH [OF this] show ?thesis using False by (simp add: insert_row_def)
  qed
qed auto

definition ix_rows :: "index_state \<Rightarrow> corpus_row list" where
  "ix_rows st = ix_table st @ ix_batch st"

definition index_inv :: "(bytes \<Rightarrow> corpus_row \<Rightarrow> bool) \<Rightarrow> bytes list \<Rightarrow> index_state \<Rightarrow> bool" where
  "index_inv R done st \<longleftrightarrow> distinct (map cr_id (ix_table st))
     \<and> list_all2 R done (ix_rows st)
     \<and> ix_prepared st = sum_list (map cr_prepared (ix_rows st))
     \<and> ix_original st = sum_list (map cr_original (ix_rows st))
     \<and> ix_raw st = sum_list (map cr_raw (ix_rows st))
     \<and> ix_truncated st = length (filter cr_truncated (ix_rows st))
     \<and> (\<forall>r \<in> set (ix_rows st). cr_prepared r \<le> ix_maximum st)
     \<and> set (ix_seen st) = cr_id ` {r \<in> set (ix_rows st). cr_positive r}"

lemma flush_state_inv:
  assumes inv: "index_inv R done st" and f: "flush_state st = Inr st'"
  shows "index_inv R done st' \<and> ix_batch st' = [] \<and> ix_table st' = ix_rows st"
proof -
  obtain table where t: "flush_corpus_batch (ix_table st) (ix_batch st) = Inr table"
    and st': "st' = st\<lparr>ix_table := table, ix_batch := []\<rparr>"
    using f by (auto simp: flush_state_def ok_simps)
  have "distinct (map cr_id (ix_table st))" using inv by (simp add: index_inv_def)
  from t [unfolded flush_corpus_batch_ok [OF this]]
  have t: "table = ix_rows st" "distinct (map cr_id (ix_rows st))" by (simp_all add: ix_rows_def)
  have "ix_rows st' = ix_rows st" "ix_table st' = ix_rows st" by (simp_all add: st' t(1) ix_rows_def)
  then show ?thesis using inv t(2) unfolding index_inv_def st' by simp
qed

lemma account_row_rows [simp]:
  "ix_rows (account_row st row) = ix_rows st @ [row]" "ix_table (account_row st row) = ix_table st"
  by (simp_all add: ix_rows_def account_row_def)

lemma account_row_inv:
  assumes "index_inv R done st" and "R raw row"
  shows "index_inv R (done @ [raw]) (account_row st row)"
proof -
  have "list_all2 R (done @ [raw]) (ix_rows st @ [row])"
    using assms by (auto simp: index_inv_def intro: list_all2_appendI)
  then show ?thesis
    using assms(1) unfolding index_inv_def account_row_rows
    by (auto simp: account_row_def)
qed

lemma index_steps_inv:
  assumes "fold_res (index_step h py pos seed n) st ls = Inr st'"
    and "index_inv (\<lambda>raw row. corpus_row_of h py pos seed n raw = Inr row) done st"
  shows "index_inv (\<lambda>raw row. corpus_row_of h py pos seed n raw = Inr row) (done @ ls) st'"
  using assms
proof (induction ls arbitrary: st "done")
  case (Cons raw ls)
  obtain st1 where st1: "index_step h py pos seed n st raw = Inr st1"
    and rest: "fold_res (index_step h py pos seed n) st1 ls = Inr st'"
    using Cons.prems(1) by (auto simp: ok_simps)
  obtain row where row: "corpus_row_of h py pos seed n raw = Inr row"
    using st1 by (auto simp: index_step_def ok_simps)
  have acc: "index_inv (\<lambda>raw row. corpus_row_of h py pos seed n raw = Inr row) (done @ [raw]) (account_row st row)"
    using Cons.prems(2) row by (rule account_row_inv)
  have "index_inv (\<lambda>raw row. corpus_row_of h py pos seed n raw = Inr row) (done @ [raw]) st1"
  proof (cases "sql_batch_rows \<le> length (ix_batch (account_row st row))")
    case True
    then have "flush_state (account_row st row) = Inr st1" using st1 by (simp add: index_step_def row)
    from flush_state_inv [OF acc this] show ?thesis by blast
  next
    case False
    then have "st1 = account_row st row" using st1 by (simp add: index_step_def row)
    then show ?thesis using acc by simp
  qed
  from Cons.IH [OF rest this] show ?case by simp
qed simp

lemma index_corpus_sound:
  assumes "index_corpus h py pos seed n content = Inr (ss, st)"
  shows "distinct (map cr_id (ix_table st))"
    "list_all2 (\<lambda>raw row. corpus_row_of h py pos seed n raw = Inr row) (lines_keep 10 content) (ix_table st)"
    "set pos \<subseteq> cr_id ` {r \<in> set (ix_table st). cr_positive r}"
    "ss = stats_of_lines h (lines_keep 10 content)"
proof -
  obtain st0 where run: "fold_res (index_step h py pos seed n) empty_index (lines_keep 10 content) = Inr st0"
    and fl: "flush_state st0 = Inr st" and pos: "set pos \<subseteq> set (ix_seen st)"
    and ss: "ss = stats_of_lines h (lines_keep 10 content)"
    using assms by (auto simp: index_corpus_def ok_simps Let_def)
  have "index_inv (\<lambda>raw row. corpus_row_of h py pos seed n raw = Inr row) [] empty_index"
    by (simp add: index_inv_def empty_index_def ix_rows_def)
  from flush_state_inv [OF index_steps_inv [OF run this] fl]
  have "index_inv (\<lambda>raw row. corpus_row_of h py pos seed n raw = Inr row) (lines_keep 10 content) st"
    "ix_rows st = ix_table st" by (simp_all add: ix_rows_def)
  then show "distinct (map cr_id (ix_table st))"
    "list_all2 (\<lambda>raw row. corpus_row_of h py pos seed n raw = Inr row) (lines_keep 10 content) (ix_table st)"
    "set pos \<subseteq> cr_id ` {r \<in> set (ix_table st). cr_positive r}"
    "ss = stats_of_lines h (lines_keep 10 content)"
    using pos ss by (simp_all add: index_inv_def)
qed

subsection \<open>The selection, as a specification\<close>

text \<open>The rows whose text no earlier row, and none of \<open>used\<close>, has.\<close>

fun fresh_texts :: "bytes list \<Rightarrow> corpus_row list \<Rightarrow> corpus_row list" where
  "fresh_texts used [] = []"
| "fresh_texts used (r # rs) =
     (if cr_digest r \<in> set used then fresh_texts used rs
      else r # fresh_texts (cr_digest r # used) rs)"

definition select_row_as :: "nat \<Rightarrow> bool \<Rightarrow> corpus_row \<Rightarrow> selected_row" where
  "select_row_as tier forced r = \<lparr>sr_id = cr_id r, sr_tier = tier, sr_forced = forced\<rparr>"

definition fillers_from :: "nat \<Rightarrow> corpus_row list \<Rightarrow> selected_row list" where
  "fillers_from k rows = map (select_row_as 0 False) (take k rows) @ map (select_row_as 1 False) (drop k rows)"

definition ranked :: "(corpus_row \<Rightarrow> bool) \<Rightarrow> corpus_row list \<Rightarrow> corpus_row list" where
  "ranked p table = sort_key row_key (filter p table)"

definition chosen_fillers :: "corpus_row list \<Rightarrow> nat \<Rightarrow> corpus_row list" where
  "chosen_fillers table large_count =
     (let P = ranked cr_positive table
      in take (large_count - length P)
           (fresh_texts (map cr_digest P) (ranked (\<lambda>r. \<not> cr_positive r) table)))"

lemma fillers_ids: "map sr_id (fillers_from k rows) = map cr_id rows"
proof -
  have "map sr_id (fillers_from k rows) = map cr_id (take k rows @ drop k rows)"
    unfolding fillers_from_def map_append by (simp add: select_row_as_def)
  then show ?thesis by simp
qed

lemma fresh_texts_digests:
  "distinct (map cr_digest (fresh_texts used rs)) \<and> cr_digest ` set (fresh_texts used rs) \<inter> set used = {}"
  by (induction used rs rule: fresh_texts.induct) auto

lemma fresh_texts_sub: "set (fresh_texts used rs) \<subseteq> set rs"
  by (induction used rs rule: fresh_texts.induct) auto

lemma fresh_texts_ids: "distinct (map cr_id rs) \<Longrightarrow> distinct (map cr_id (fresh_texts used rs))"
proof (induction used rs rule: fresh_texts.induct)
  case (2 used r rs)
  then show ?case using fresh_texts_sub [of "cr_digest r # used" rs] by auto
qed simp

lemma fillers_from_simps [simp]:
  "fillers_from k [] = []"
  "fillers_from 0 (r # rs) = select_row_as 1 False r # fillers_from 0 rs"
  "fillers_from (Suc k) (r # rs) = select_row_as 0 False r # fillers_from k rs"
  by (simp_all add: fillers_from_def)

lemma filler_loop_small: "fl_small st \<le> fl_small (filler_loop small_count large_count st rs)"
proof (induction small_count large_count st rs rule: filler_loop.induct)
  case (2 s l st r rs)
  have "fl_small st \<le> fl_small (take_filler s st r)" by (simp add: take_filler_def Let_def)
  with 2 show ?case by (auto simp: Let_def intro: order.trans)
qed simp

lemma filler_loop_spec:
  assumes "fl_large st < large_count"
  shows "let F = take (large_count - fl_large st) (fresh_texts (fl_used st) rs);
             st' = filler_loop small_count large_count st rs
         in fl_selected st' @ fl_pending st'
              = fl_selected st @ fl_pending st @ fillers_from (small_count - fl_small st) F
            \<and> fl_used st' = rev (map cr_digest F) @ fl_used st
            \<and> fl_small st' = fl_small st + min (small_count - fl_small st) (length F)
            \<and> fl_large st' = fl_large st + length F"
  using assms
proof (induction rs arbitrary: st)
  case (Cons r rs)
  show ?case
  proof (cases "cr_digest r \<in> set (fl_used st)")
    case True
    then show ?thesis
      using Cons.IH [of "st\<lparr>fl_skipped := fl_skipped st + 1\<rparr>"] Cons.prems by (simp add: Let_def)
  next
    case False
    let ?st = "take_filler small_count st r"
    have step: "fl_used ?st = cr_digest r # fl_used st"
      "fl_selected ?st @ fl_pending ?st = fl_selected st @ fl_pending st
         @ [select_row_as (if fl_small st < small_count then 0 else 1) False r]"
      "fl_small ?st = fl_small st + (if fl_small st < small_count then 1 else 0)"
      "fl_large ?st = Suc (fl_large st)"
      by (simp_all add: take_filler_def Let_def select_row_as_def)
    define n where "n = large_count - Suc (fl_large st)"
    have n: "large_count - fl_large st = Suc n" using Cons.prems by (simp add: n_def)
    define k where "k = small_count - fl_small st"
    have k: "small_count - fl_small ?st = k - 1" "fl_small st < small_count \<longleftrightarrow> k \<noteq> 0"
      using step(3) by (auto simp: k_def)
    show ?thesis
    proof (cases "n = 0")
      case True
      then have "fl_large ?st = large_count" using Cons.prems step(4) by (simp add: n_def)
      then have "filler_loop small_count large_count st (r # rs) = ?st" using False by (simp add: Let_def)
      moreover have "take (large_count - fl_large st) (fresh_texts (fl_used st) (r # rs)) = [r]"
        using False n True by simp
      ultimately show ?thesis
        using step k by (cases k) (simp_all add: Let_def flip: k_def)
    next
      case False2: False
      then have lt: "fl_large ?st < large_count" using step(4) by (simp add: n_def)
      then have loop: "filler_loop small_count large_count st (r # rs) = filler_loop small_count large_count ?st rs"
        using False by (simp add: Let_def)
      let ?F = "take n (fresh_texts (cr_digest r # fl_used st) rs)"
      have F: "take (large_count - fl_large st) (fresh_texts (fl_used st) (r # rs)) = r # ?F"
        using False n by simp
      have n': "large_count - fl_large ?st = n" using step(4) by (simp add: n_def)
      note IH = Cons.IH [OF lt, unfolded n' step(1) k(1), unfolded Let_def]
      show ?thesis
        unfolding loop F Let_def k_def [symmetric]
        using IH step(2,3,4) k(2) by (cases k) simp_all
    qed
  qed
qed (simp add: Let_def)

lemma add_text_group_lookup:
  "map_of (add_text_group gs d i) e
     = (if e = d then Some ((case map_of gs d of None \<Rightarrow> [] | Some is \<Rightarrow> is) @ [i]) else map_of gs e)"
  by (induction gs d i rule: add_text_group.induct) auto

lemma text_groups_lookup:
  "map_of (text_groups rows) d
     = (if d \<in> cr_digest ` set rows then Some (map cr_id (filter (\<lambda>r. cr_digest r = d) rows)) else None)"
proof (induction rows rule: rev_induct)
  case (snoc r rows)
  have "text_groups (rows @ [r]) = add_text_group (text_groups rows) (cr_digest r) (cr_id r)"
    by (simp add: text_groups_def)
  then show ?case using snoc by (auto simp: add_text_group_lookup filter_empty_conv image_iff) metis
qed (simp add: text_groups_def)

lemma text_groups_distinct:
  assumes "filter (\<lambda>g. 1 < length (snd g)) (text_groups rows) = []"
  shows "distinct (map cr_digest rows)"
proof (rule ccontr)
  assume "\<not> distinct (map cr_digest rows)"
  then obtain d xs ys zs where split: "map cr_digest rows = xs @ [d] @ ys @ [d] @ zs"
    by (metis not_distinct_decomp)
  have "length (filter (\<lambda>r. cr_digest r = d) rows) = length (filter (\<lambda>e. e = d) (map cr_digest rows))"
    by (simp add: filter_map comp_def)
  also have "1 < \<dots>" unfolding split by simp
  finally have n: "1 < length (filter (\<lambda>r. cr_digest r = d) rows)" .
  have "d \<in> cr_digest ` set rows" using split by (metis append_Cons in_set_conv_decomp image_set)
  then have "map_of (text_groups rows) d = Some (map cr_id (filter (\<lambda>r. cr_digest r = d) rows))"
    by (simp add: text_groups_lookup)
  then have "(d, map cr_id (filter (\<lambda>r. cr_digest r = d) rows)) \<in> set (text_groups rows)"
    by (rule map_of_SomeD)
  then show False using assms n by (auto simp: filter_empty_conv)
qed

lemma select_documents_spec:
  assumes "select_documents table positive_count small_count large_count = Inr sel"
    and "small_count < large_count"
  defines "P \<equiv> ranked cr_positive table" and "F \<equiv> chosen_fillers table large_count"
  shows "sl_rows sel = map (select_row_as 0 True) P @ fillers_from (small_count - length P) F"
    "length P \<le> small_count" "length P + length F = large_count"
    "distinct (map cr_digest (P @ F))" "sl_small sel = small_count" "sl_large sel = large_count"
    "sl_unique sel = large_count" "sl_source sel = length table" "sl_positive sel = positive_count"
proof -
  define N where "N = ranked (\<lambda>r. \<not> cr_positive r) table"
  define st0 where "st0 = \<lparr>fl_used = map cr_digest P,
      fl_selected = map (select_row_as 0 True) P, fl_pending = [],
      fl_small = length P, fl_large = length P, fl_skipped = 0\<rparr>"
  define st where "st = filler_loop small_count large_count st0 N"
  have st: "fl_small st = small_count" "fl_large st = large_count"
    and grp: "filter (\<lambda>g. 1 < length (snd g)) (text_groups P) = []"
    and sel: "sel = \<lparr>sl_rows = fl_selected st @ fl_pending st, sl_source = length table,
                sl_positive = positive_count, sl_small = fl_small st, sl_large = fl_large st,
                sl_skipped = fl_skipped st, sl_unique = card (set (fl_used st))\<rparr>"
    and card: "card (set (fl_used st)) = fl_large st"
  proof -
    have C: "\<not> small_count < positive_count \<and> \<not> length table < large_count
      \<and> filter (\<lambda>g. 1 < length (snd g)) (text_groups P) = []
      \<and> (fl_small st = small_count \<and> fl_large st = large_count)
      \<and> card (set (fl_used st)) = fl_large st
      \<and> \<lparr>sl_rows = fl_selected st @ fl_pending st, sl_source = length table,
                sl_positive = positive_count, sl_small = fl_small st, sl_large = fl_large st,
                sl_skipped = fl_skipped st, sl_unique = card (set (fl_used st))\<rparr> = sel"
      by (rule assms(1) [unfolded select_documents_def Let_def ok_simps ranked_def [symmetric] P_def [symmetric] N_def [symmetric]
          select_row_as_def [symmetric] st0_def [symmetric] st_def [symmetric] not_not sum.inject
          de_Morgan_disj])
    from C show "fl_small st = small_count" "fl_large st = large_count"
      "filter (\<lambda>g. 1 < length (snd g)) (text_groups P) = []"
      "card (set (fl_used st)) = fl_large st" by blast+
    from C show "sel = \<lparr>sl_rows = fl_selected st @ fl_pending st, sl_source = length table,
                sl_positive = positive_count, sl_small = fl_small st, sl_large = fl_large st,
                sl_skipped = fl_skipped st, sl_unique = card (set (fl_used st))\<rparr>" by blast
  qed
  have small: "length P \<le> small_count"
    using filler_loop_small [of st0 small_count large_count N] st(1) by (simp add: st_def st0_def)
  then have lt: "fl_large st0 < large_count" using assms(2) by (simp add: st0_def)
  have F: "take (large_count - fl_large st0) (fresh_texts (fl_used st0) N) = F"
    by (simp add: F_def chosen_fillers_def P_def [symmetric] N_def [symmetric] st0_def)
  note loop = filler_loop_spec [OF lt, of N small_count, unfolded F Let_def, folded st_def]
  show "sl_rows sel = map (select_row_as 0 True) P @ fillers_from (small_count - length P) F"
    using loop by (simp add: sel st0_def)
  show "length P \<le> small_count" by (rule small)
  show "length P + length F = large_count" using loop st(2) by (simp add: st0_def)
  have "distinct (map cr_digest F)" "cr_digest ` set F \<inter> cr_digest ` set P = {}"
    using fresh_texts_digests [of "map cr_digest P" N] F [symmetric]
    by (auto simp: st0_def distinct_map take_map dest: in_set_takeD intro: inj_on_subset [OF _ set_take_subset])
  then show "distinct (map cr_digest (P @ F))" using text_groups_distinct [OF grp] by auto
  show "sl_small sel = small_count" "sl_large sel = large_count" "sl_unique sel = large_count"
    "sl_source sel = length table" "sl_positive sel = positive_count"
    using st card by (simp_all add: sel)
qed

text \<open>
  C5. Document selection refines its specification: a successful \<open>select_documents\<close> selects all
  positive documents in rank order into the small tier, then, in rank order, the first fillers
  whose prepared text no selected document has, up to the requested totals; the small tier has
  exactly the small count, all selected texts (by digest) and IDs are pairwise distinct, and
  every positive document is in the small tier.
\<close>

theorem document_selection_refines:
  assumes "select_documents table positive_count small_count large_count = Inr sel"
    and "small_count < large_count" and "distinct (map cr_id table)"
  shows "(let P = ranked cr_positive table; F = chosen_fillers table large_count in
      sl_rows sel = map (select_row_as 0 True) P @ fillers_from (small_count - length P) F
      \<and> distinct (map cr_digest (P @ F)) \<and> distinct (map sr_id (sl_rows sel))
      \<and> length (sl_rows sel) = large_count
      \<and> length (filter (\<lambda>s. sr_tier s = 0) (sl_rows sel)) = small_count
      \<and> (\<forall>r \<in> set table. cr_positive r \<longrightarrow> select_row_as 0 True r \<in> set (sl_rows sel)))"
proof -
  let ?P = "ranked cr_positive table" and ?F = "chosen_fillers table large_count"
  note s = select_documents_spec [OF assms(1,2)]
  have ids: "map sr_id (sl_rows sel) = map cr_id (?P @ ?F)"
    by (simp add: s(1) fillers_ids select_row_as_def)
  have sub: "set ?F \<subseteq> {r \<in> set table. \<not> cr_positive r}"
    using fresh_texts_sub by (fastforce simp: chosen_fillers_def Let_def ranked_def dest: in_set_takeD)
  have "distinct (map cr_id (filter p table))" for p using assms(3) by (rule distinct_map_filter)
  then have dr: "distinct (map cr_id (ranked p table))" for p
    by (simp add: ranked_def distinct_map)
  have "distinct (map cr_id ?F)"
    using fresh_texts_ids [OF dr] by (simp add: chosen_fillers_def Let_def flip: take_map)
  moreover have "cr_id ` set ?P \<inter> cr_id ` set ?F = {}"
    using sub assms(3) by (auto simp: ranked_def distinct_map inj_on_def)
  ultimately have d: "distinct (map sr_id (sl_rows sel))" unfolding ids using dr by simp
  have "length (filter (\<lambda>s. sr_tier s = 0) (sl_rows sel))
      = length ?P + min (small_count - length ?P) (length ?F)"
    by (simp add: s(1) fillers_from_def select_row_as_def filter_map comp_def)
  then have "length (filter (\<lambda>s. sr_tier s = 0) (sl_rows sel)) = small_count"
    using s(2,3) assms(2) by linarith
  moreover have "length (sl_rows sel) = large_count"
    using s(3) arg_cong [OF ids, of length] by simp
  moreover have "\<forall>r \<in> set table. cr_positive r \<longrightarrow> select_row_as 0 True r \<in> set (sl_rows sel)"
    by (auto simp: s(1) ranked_def)
  ultimately show ?thesis using s(1,4) d by (simp add: Let_def)
qed

text \<open>Five rows, two of which share a text; rank order is \<open>b, e, a, c, d\<close>.\<close>

definition sample_row :: "string \<Rightarrow> nat \<Rightarrow> nat \<Rightarrow> bool \<Rightarrow> corpus_row" where
  "sample_row i rank text positive = \<lparr>cr_id = u i, cr_rank = [byte_of rank], cr_digest = [byte_of text],
     cr_text = [97], cr_raw = 1, cr_original = 1, cr_prepared = 1, cr_truncated = False,
     cr_positive = positive\<rparr>"

definition sample_table :: "corpus_row list" where
  "sample_table = [sample_row ''a'' 3 1 True, sample_row ''b'' 1 1 False, sample_row ''c'' 4 2 False,
     sample_row ''d'' 5 2 False, sample_row ''e'' 2 3 False]"

theorem document_selection_refines_witness:
  "\<exists>sel. select_documents sample_table 1 2 3 = Inr sel
     \<and> map (\<lambda>s. (sr_id s, sr_tier s)) (sl_rows sel) = [(u ''a'', 0), (u ''e'', 0), (u ''c'', 1)]
     \<and> length (filter (\<lambda>s. sr_tier s = 0) (sl_rows sel)) = 2"
proof -
  have b: "byte_of 1 \<noteq> byte_of 2" "byte_of 1 \<noteq> byte_of 3" "byte_of 2 \<noteq> byte_of 3"
    by (simp_all add: byte_of_def)
  have o: "byte_of i \<le> byte_of j \<longleftrightarrow> i \<le> j" if "i < 256" "j < 256" for i j
    using that by (simp add: word_le_nat_alt)
  have o': "byte_of i < byte_of j \<longleftrightarrow> i < j" "byte_of i = byte_of j \<longleftrightarrow> i = j" if "i < 256" "j < 256" for i j
    using that by (simp_all add: word_less_nat_alt word_unat_eq_iff)
  have P: "sort_key row_key (filter cr_positive sample_table) = [sample_row ''a'' 3 1 True]"
    by (simp add: sample_table_def sample_row_def)
  have N: "sort_key row_key (filter (\<lambda>r. \<not> cr_positive r) sample_table)
      = [sample_row ''b'' 1 1 False, sample_row ''e'' 2 3 False, sample_row ''c'' 4 2 False, sample_row ''d'' 5 2 False]"
    by (simp add: sample_table_def sample_row_def row_key_def less_eq_prod_def o o')
  let ?a = "select_row_as 0 True (sample_row ''a'' 3 1 True)"
  let ?e = "select_row_as 0 False (sample_row ''e'' 2 3 False)"
  let ?c = "select_row_as 1 False (sample_row ''c'' 4 2 False)"
  have dg: "cr_digest (sample_row i r t q) = [byte_of t]" for i r t q by (simp add: sample_row_def)
  define st0 where "st0 = \<lparr>fl_used = [[byte_of 1]], fl_selected = [?a], fl_pending = [],
      fl_small = 1, fl_large = 1, fl_skipped = 0\<rparr>"
  define st1 where "st1 = st0\<lparr>fl_skipped := 1\<rparr>"
  define st2 where "st2 = \<lparr>fl_used = [[byte_of 3], [byte_of 1]], fl_selected = [?a], fl_pending = [?e],
      fl_small = 2, fl_large = 2, fl_skipped = 1\<rparr>"
  define st3 where "st3 = \<lparr>fl_used = [[byte_of 2], [byte_of 3], [byte_of 1]], fl_selected = [?a],
      fl_pending = [?e, ?c], fl_small = 2, fl_large = 3, fl_skipped = 1\<rparr>"
  have s2: "take_filler 2 st1 (sample_row ''e'' 2 3 False) = st2"
    by (simp add: take_filler_def st1_def st0_def st2_def dg sql_batch_rows_def select_row_as_def)
  have s3: "take_filler 2 st2 (sample_row ''c'' 4 2 False) = st3"
    by (simp add: take_filler_def st2_def st3_def dg sql_batch_rows_def select_row_as_def)
  have loop: "filler_loop 2 3 st0 [sample_row ''b'' 1 1 False, sample_row ''e'' 2 3 False,
      sample_row ''c'' 4 2 False, sample_row ''d'' 5 2 False] = st3"
  proof -
    have "filler_loop 2 3 st0 [sample_row ''b'' 1 1 False, sample_row ''e'' 2 3 False,
        sample_row ''c'' 4 2 False, sample_row ''d'' 5 2 False]
      = filler_loop 2 3 st1 [sample_row ''e'' 2 3 False, sample_row ''c'' 4 2 False, sample_row ''d'' 5 2 False]"
      by (simp add: dg st0_def st1_def)
    also have "\<dots> = filler_loop 2 3 st2 [sample_row ''c'' 4 2 False, sample_row ''d'' 5 2 False]"
      unfolding filler_loop.simps s2 Let_def dg using b by (simp add: st1_def st0_def st2_def)
    also have "\<dots> = st3"
      unfolding filler_loop.simps s3 Let_def dg using b by (simp add: st2_def st3_def)
    finally show ?thesis .
  qed
  have card: "card (set (fl_used st3)) = 3" using b by (simp add: st3_def)
  have st0: "\<lparr>fl_used = map cr_digest [sample_row ''a'' 3 1 True],
      fl_selected = map (\<lambda>r. \<lparr>sr_id = cr_id r, sr_tier = 0, sr_forced = True\<rparr>) [sample_row ''a'' 3 1 True],
      fl_pending = [], fl_small = length [sample_row ''a'' 3 1 True],
      fl_large = length [sample_row ''a'' 3 1 True], fl_skipped = 0\<rparr> = st0"
    by (simp add: st0_def dg select_row_as_def)
  have grp: "filter (\<lambda>g. 1 < length (snd g)) (text_groups [sample_row ''a'' 3 1 True]) = []"
    by (simp add: text_groups_def)
  have sums: "length sample_table = 5" "fl_small st3 = 2" "fl_large st3 = 3"
    "fl_selected st3 @ fl_pending st3 = [?a, ?e, ?c]"
    by (simp_all add: sample_table_def st3_def)
  have run: "\<exists>sel. select_documents sample_table 1 2 3 = Inr sel
     \<and> map (\<lambda>s. (sr_id s, sr_tier s)) (sl_rows sel) = [(u ''a'', 0), (u ''e'', 0), (u ''c'', 1)]"
  proof (intro exI conjI)
    show "select_documents sample_table 1 2 3 = Inr \<lparr>sl_rows = [?a, ?e, ?c], sl_source = 5,
        sl_positive = 1, sl_small = 2, sl_large = 3, sl_skipped = fl_skipped st3, sl_unique = 3\<rparr>"
      unfolding select_documents_def P N Let_def st0 loop grp card sums by simp
  qed (simp add: select_row_as_def sample_row_def)
  then obtain sel where sel: "select_documents sample_table 1 2 3 = Inr sel"
    "map (\<lambda>s. (sr_id s, sr_tier s)) (sl_rows sel) = [(u ''a'', 0), (u ''e'', 0), (u ''c'', 1)]"
    by (elim exE conjE) (rule that)
  have d: "distinct (map cr_id sample_table)" by (simp add: sample_table_def sample_row_def)
  have "(2 :: nat) < 3" by simp
  from document_selection_refines [OF sel(1) this d, unfolded Let_def]
  have "length (filter (\<lambda>s. sr_tier s = 0) (sl_rows sel)) = 2" by (elim conjE)
  with sel show ?thesis by (intro exI conjI)
qed

end
