(* ===== verification/NqWrite.thy ===== *)
theory NqWrite
  imports NqSelect
begin

text \<open>
  The output side of \<open>prepare_beir_nq_scale.py\<close>: the tracked line writer, \<open>write_documents\<close>,
  \<open>write_queries_and_qrels\<close> and the two readers that verify what was written. The lemmas give
  the files of a successful selection exactly (rows in the order tier, rank, ID; the small files
  are the lines of the small tier) and show that the verification accepts them.
\<close>

subsection \<open>Writers\<close>

record tracked =
  tw_name :: pystr
  tw_content :: bytes
  tw_bytes :: nat
  tw_lines :: nat

definition open_writer :: "string \<Rightarrow> tracked" where
  "open_writer name = \<lparr>tw_name = u name, tw_content = [], tw_bytes = 0, tw_lines = 0\<rparr>"

definition write_line :: "tracked \<Rightarrow> pystr \<Rightarrow> tracked res" where
  "write_line w v =
     (case utf8_encode v of Inl e \<Rightarrow> Inl e | Inr bs \<Rightarrow>
      let encoded = bs @ [10] in
      Inr (w\<lparr>tw_content := tw_content w @ encoded, tw_bytes := tw_bytes w + length encoded,
             tw_lines := tw_lines w + 1\<rparr>))"

definition close_writer :: "host \<Rightarrow> tracked \<Rightarrow> json" where
  "close_writer h w = JObj (jobj
     [(''path'', JStr (tw_name w)), (''bytes'', JInt (int (tw_bytes w))),
      (''lines'', JInt (int (tw_lines w))), (''sha256'', JStr (sha_hex h (tw_content w)))])"

record dup_stats =
  du_rows :: int
  du_unique :: int
  du_duplicates :: int
  du_rate :: pyfloat

definition duplicate_stats :: "int \<Rightarrow> int \<Rightarrow> dup_stats res" where
  "duplicate_stats rows unique =
     (let duplicates = rows - unique in
      case (if rows \<noteq> 0 then int_true_div duplicates rows else Inr (Fin 0)) of Inl e \<Rightarrow> Inl e | Inr rate \<Rightarrow>
      Inr \<lparr>du_rows = rows, du_unique = unique, du_duplicates = duplicates, du_rate = rate\<rparr>)"

subsection \<open>Documents\<close>

record tier_totals =
  tt_raw :: nat
  tt_original :: nat
  tt_prepared :: nat
  tt_truncated :: nat
  tt_maximum :: nat

definition add_totals :: "tier_totals \<Rightarrow> corpus_row \<Rightarrow> tier_totals" where
  "add_totals t r = \<lparr>tt_raw = tt_raw t + cr_raw r, tt_original = tt_original t + cr_original r,
     tt_prepared = tt_prepared t + cr_prepared r,
     tt_truncated = tt_truncated t + (if cr_truncated r then 1 else 0),
     tt_maximum = max (tt_maximum t) (cr_prepared r)\<rparr>"

definition no_totals :: tier_totals where
  "no_totals = \<lparr>tt_raw = 0, tt_original = 0, tt_prepared = 0, tt_truncated = 0, tt_maximum = 0\<rparr>"

text \<open>The document file, the ID file and the totals of one tier.\<close>

record tier_writers =
  wr_documents :: tracked
  wr_ids :: tracked
  wr_totals :: tier_totals

definition id_line :: "nat \<Rightarrow> pystr \<Rightarrow> pystr" where
  "id_line position i = dec_nat position @ [9] @ i"

definition write_row :: "tier_writers \<Rightarrow> nat \<Rightarrow> corpus_row \<Rightarrow> tier_writers res" where
  "write_row w position r =
     (case write_line (wr_documents w) (cr_text r) of Inl e \<Rightarrow> Inl e | Inr docs \<Rightarrow>
      case write_line (wr_ids w) (id_line position (cr_id r)) of Inl e \<Rightarrow> Inl e | Inr ids \<Rightarrow>
      Inr \<lparr>wr_documents = docs, wr_ids = ids, wr_totals = add_totals (wr_totals w) r\<rparr>)"

definition document_step ::
  "nat \<Rightarrow> nat \<Rightarrow> tier_writers \<times> tier_writers \<Rightarrow> nat \<times> corpus_row \<Rightarrow> (tier_writers \<times> tier_writers) res" where
  "document_step small_count large_count st item =
     (case st of (small, large) \<Rightarrow> case item of (position, r) \<Rightarrow>
      if large_count \<le> position then Inl (RuntimeError ''selected corpus unexpectedly exceeds large tier'')
      else case utf8_encode (cr_text r) of Inl e \<Rightarrow> Inl e | Inr encoded \<Rightarrow>
      if length encoded \<noteq> cr_prepared r then Inl (RuntimeError ''prepared-byte accounting mismatch'')
      else case write_row large position r of Inl e \<Rightarrow> Inl e | Inr large' \<Rightarrow>
      case (if position < small_count then write_row small position r else Inr small) of
        Inl e \<Rightarrow> Inl e | Inr small' \<Rightarrow> Inr (small', large'))"

text \<open>\<open>selected JOIN corpus ... ORDER BY s.tier, c.rank_hash, c.corpus_id\<close>\<close>

definition joined :: "corpus_row list \<Rightarrow> selected_row list \<Rightarrow> (selected_row \<times> corpus_row) list" where
  "joined table rows = concat (map (\<lambda>s. map (Pair s) (filter (\<lambda>c. cr_id c = sr_id s) table)) rows)"

definition output_key :: "selected_row \<times> corpus_row \<Rightarrow> nat \<times> bytes \<times> pystr" where
  "output_key sc = (sr_tier (fst sc), cr_rank (snd sc), cr_id (snd sc))"

definition output_order :: "corpus_row list \<Rightarrow> selected_row list \<Rightarrow> (selected_row \<times> corpus_row) list" where
  "output_order table rows = sort_key output_key (joined table rows)"

record tier_stats =
  ti_documents :: nat
  ti_totals :: tier_totals
  ti_dup :: dup_stats

record document_files =
  do_small :: tier_writers
  do_large :: tier_writers
  do_small_stats :: tier_stats
  do_large_stats :: tier_stats

definition distinct_texts :: "(selected_row \<times> corpus_row) list \<Rightarrow> int" where
  "distinct_texts rows = int (card ((cr_digest \<circ> snd) ` set rows))"

definition write_documents ::
  "corpus_row list \<Rightarrow> selected_row list \<Rightarrow> nat \<Rightarrow> nat \<Rightarrow> document_files res" where
  "write_documents table rows small_count large_count =
     (let small0 = \<lparr>wr_documents = open_writer ''documents-100k.txt'',
            wr_ids = open_writer ''document_ids-100k.tsv'', wr_totals = no_totals\<rparr>;
          large0 = \<lparr>wr_documents = open_writer ''documents-1m.txt'',
            wr_ids = open_writer ''document_ids-1m.tsv'', wr_totals = no_totals\<rparr>;
          joint = output_order table rows in
      case fold_res (document_step small_count large_count) (small0, large0)
             (enumerate 0 (map snd joint)) of Inl e \<Rightarrow> Inl e | Inr (small, large) \<Rightarrow>
      if tw_lines (wr_documents large) \<noteq> large_count
        then Inl (RuntimeError ''wrong number of large-tier documents'')
      else if tw_lines (wr_documents small) \<noteq> small_count
        then Inl (RuntimeError ''wrong number of small-tier documents'')
      else case duplicate_stats (int small_count) (distinct_texts (filter (\<lambda>sc. sr_tier (fst sc) = 0) joint)) of
        Inl e \<Rightarrow> Inl e | Inr small_dup \<Rightarrow>
      case duplicate_stats (int large_count) (distinct_texts joint) of Inl e \<Rightarrow> Inl e | Inr large_dup \<Rightarrow>
      Inr \<lparr>do_small = small, do_large = large,
           do_small_stats = \<lparr>ti_documents = small_count, ti_totals = wr_totals small, ti_dup = small_dup\<rparr>,
           do_large_stats = \<lparr>ti_documents = large_count, ti_totals = wr_totals large, ti_dup = large_dup\<rparr>\<rparr>)"

subsection \<open>Queries and judgments\<close>

record query_files =
  qo_queries :: tracked
  qo_ids :: tracked
  qo_qrels :: tracked
  qo_raw :: nat
  qo_prepared :: nat
  qo_dup :: dup_stats
  qo_rows :: nat
  qo_positive :: nat

record query_state =
  qw_queries :: tracked
  qw_ids :: tracked
  qw_raw :: nat
  qw_prepared :: nat
  qw_digests :: "bytes list"

definition query_write_step ::
  "host \<Rightarrow> queries \<Rightarrow> query_state \<Rightarrow> nat \<times> pystr \<Rightarrow> query_state res" where
  "query_write_step h queries st item =
     (case item of (position, query_id) \<Rightarrow>
      case map_of queries query_id of None \<Rightarrow> Inl (KeyError ''query'') | Some (prepared, raw_bytes) \<Rightarrow>
      case write_line (qw_queries st) prepared of Inl e \<Rightarrow> Inl e | Inr qs \<Rightarrow>
      case write_line (qw_ids st) (id_line position query_id) of Inl e \<Rightarrow> Inl e | Inr ids \<Rightarrow>
      case utf8_encode prepared of Inl e \<Rightarrow> Inl e | Inr encoded \<Rightarrow>
      Inr \<lparr>qw_queries = qs, qw_ids = ids, qw_raw = qw_raw st + raw_bytes,
           qw_prepared = qw_prepared st + length encoded,
           qw_digests = sha256 h encoded # qw_digests st\<rparr>)"

definition position_in :: "pystr list \<Rightarrow> pystr \<Rightarrow> nat" where
  "position_in ids q = length (takeWhile (\<lambda>p. p \<noteq> q) ids)"

definition qrel_line :: "qrel \<Rightarrow> pystr" where
  "qrel_line q = qr_query q @ [9] @ qr_corpus q @ [9] @ qr_text q"

definition write_queries_and_qrels ::
  "host \<Rightarrow> pystr list \<Rightarrow> queries \<Rightarrow> qrel list \<Rightarrow> query_files res" where
  "write_queries_and_qrels h selected queries qrels =
     (let chosen = sort_key (\<lambda>q. (position_in selected (qr_query q), qr_corpus q, qr_text q))
            (filter (\<lambda>q. qr_query q \<in> set selected) qrels) in
      case fold_res (query_write_step h queries)
             \<lparr>qw_queries = open_writer ''queries-test-300.txt'',
              qw_ids = open_writer ''query_ids-test-300.tsv'', qw_raw = 0, qw_prepared = 0,
              qw_digests = []\<rparr> (enumerate 0 selected) of Inl e \<Rightarrow> Inl e | Inr st \<Rightarrow>
      case fold_res write_line (open_writer ''qrels-test-300.tsv'')
             ((u ''query-id'' @ [9] @ u ''corpus-id'' @ [9] @ u ''score'') # map qrel_line chosen) of
        Inl e \<Rightarrow> Inl e | Inr qrels_file \<Rightarrow>
      case duplicate_stats (int (length selected)) (int (card (set (qw_digests st)))) of
        Inl e \<Rightarrow> Inl e | Inr dup \<Rightarrow>
      Inr \<lparr>qo_queries = qw_queries st, qo_ids = qw_ids st, qo_qrels = qrels_file,
           qo_raw = qw_raw st, qo_prepared = qw_prepared st, qo_dup = dup, qo_rows = length chosen,
           qo_positive = length (filter (\<lambda>q. fl_lt (Fin 0) (qr_score q)) chosen)\<rparr>)"

subsection \<open>Verification\<close>

fun compare_lines :: "bytes list \<Rightarrow> bytes list \<Rightarrow> unit res" where
  "compare_lines [] ls = Inr ()"
| "compare_lines (s # ss) ls =
     (if s \<noteq> (case ls of [] \<Rightarrow> [] | l # _ \<Rightarrow> l)
      then Inl (RuntimeError ''not a byte-identical prefix'')
      else compare_lines ss (drop 1 ls))"

definition verify_prefix :: "bytes \<Rightarrow> bytes \<Rightarrow> unit res" where
  "verify_prefix smaller larger =
     (case compare_lines (lines_keep 10 smaller) (lines_keep 10 larger) of Inl e \<Rightarrow> Inl e | Inr _ \<Rightarrow>
      if smaller = [] then Inl (RuntimeError ''nested tier file is empty'') else Inr ())"

text \<open>Text mode with universal newlines: CR LF and CR read as LF.\<close>

fun translate_newlines :: "pystr \<Rightarrow> pystr" where
  "translate_newlines [] = []"
| "translate_newlines (c # cs) =
     (if c = 13 then
        (case cs of [] \<Rightarrow> [10]
         | d # ds \<Rightarrow> if d = 10 then 10 # translate_newlines ds else 10 # translate_newlines cs)
      else c # translate_newlines cs)"

definition id_step :: "pystr list \<Rightarrow> nat \<times> pystr \<Rightarrow> pystr list res" where
  "id_step result item =
     (case item of (n, line) \<Rightarrow>
      case split_on 9 (rstrip_while (\<lambda>c. c = 10) line) of
        [a, b] \<Rightarrow>
          if a \<noteq> dec_nat n then Inl (RuntimeError ''invalid ID mapping'')
          else if b \<in> set result then Inl (RuntimeError ''duplicate original ID'')
          else Inr (result @ [b])
      | _ \<Rightarrow> Inl (RuntimeError ''invalid ID mapping''))"

definition read_id_set :: "bytes \<Rightarrow> pystr list res" where
  "read_id_set content =
     (case utf8_decode content of Inl e \<Rightarrow> Inl e | Inr s \<Rightarrow>
      fold_res id_step [] (enumerate 0 (lines_keep 10 (translate_newlines s))))"

subsection \<open>What the writers write\<close>

definition text_file :: "pystr list \<Rightarrow> bytes" where
  "text_file ls = utf8_bytes (concat (map (\<lambda>l. l @ [10]) ls))"

lemma text_file_append: "text_file (xs @ ys) = text_file xs @ text_file ys"
  by (simp add: text_file_def utf8_bytes_def)

lemma text_file_Nil [simp]: "text_file [] = []"
  by (simp add: text_file_def)

definition wrote :: "string \<Rightarrow> pystr list \<Rightarrow> tracked \<Rightarrow> bool" where
  "wrote name ls w \<longleftrightarrow> w = \<lparr>tw_name = u name, tw_content = text_file ls,
     tw_bytes = length (text_file ls), tw_lines = length ls\<rparr> \<and> (\<forall>l \<in> set ls. \<forall>c \<in> set l. is_scalar c)"

lemma wrote_open [simp]: "wrote name [] (open_writer name)"
  by (simp add: wrote_def open_writer_def)

lemma utf8_encode_iff: "utf8_encode v = Inr bs \<longleftrightarrow> (\<forall>c \<in> set v. is_scalar c) \<and> bs = utf8_bytes v"
  by (auto simp: utf8_encode_def list_all_iff)

lemma write_line_wrote:
  assumes "wrote name ls w" and "write_line w v = Inr w'"
  shows "wrote name (ls @ [v]) w'"
proof -
  have "utf8_bytes [10] = [10]" by (simp add: utf8_char_def byte_of_def)
  then have "text_file (ls @ [v]) = text_file ls @ utf8_bytes v @ [10]"
    by (simp add: text_file_append text_file_def utf8_bytes_def)
  then show ?thesis
    using assms by (auto simp: wrote_def write_line_def ok_simps Let_def utf8_encode_iff)
qed

definition id_lines :: "pystr list \<Rightarrow> pystr list" where
  "id_lines ids = map2 id_line [0..<length ids] ids"

lemma id_lines_snoc: "id_lines (ids @ [i]) = id_lines ids @ [id_line (length ids) i]"
  by (simp add: id_lines_def zip_append)

lemma length_id_lines [simp]: "length (id_lines ids) = length ids"
  by (simp add: id_lines_def)

definition wrote_tier :: "string \<Rightarrow> string \<Rightarrow> corpus_row list \<Rightarrow> tier_writers \<Rightarrow> bool" where
  "wrote_tier docs ids rows w \<longleftrightarrow> wrote docs (map cr_text rows) (wr_documents w)
     \<and> wrote ids (id_lines (map cr_id rows)) (wr_ids w)
     \<and> wr_totals w = foldl add_totals no_totals rows"

lemma write_row_wrote:
  assumes "wrote_tier docs ids rows w" and "write_row w (length rows) r = Inr w'"
  shows "wrote_tier docs ids (rows @ [r]) w'"
  using assms by (auto simp: wrote_tier_def write_row_def ok_simps id_lines_snoc dest: write_line_wrote)

definition documents_inv :: "nat \<Rightarrow> corpus_row list \<Rightarrow> tier_writers \<times> tier_writers \<Rightarrow> bool" where
  "documents_inv small_count done st \<longleftrightarrow>
     wrote_tier ''documents-100k.txt'' ''document_ids-100k.tsv'' (take small_count done) (fst st)
     \<and> wrote_tier ''documents-1m.txt'' ''document_ids-1m.tsv'' done (snd st)
     \<and> (\<forall>r \<in> set done. length (utf8_bytes (cr_text r)) = cr_prepared r)"

lemma document_step_inv:
  assumes "documents_inv k done st" and "document_step k n st (length done, r) = Inr st'"
  shows "documents_inv k (done @ [r]) st'"
proof -
  obtain small large where st: "st = (small, large)" by (cases st)
  obtain small' large' where st': "st' = (small', large')"
    and enc: "length (utf8_bytes (cr_text r)) = cr_prepared r"
    and l: "write_row large (length done) r = Inr large'"
    and s: "(if length done < k then write_row small (length done) r else Inr small) = Inr small'"
    using assms(2) by (auto simp: document_step_def st ok_simps utf8_encode_iff split: if_splits)
  have "wrote_tier ''documents-1m.txt'' ''document_ids-1m.tsv'' (done @ [r]) large'"
    using assms(1) l by (intro write_row_wrote) (auto simp: documents_inv_def st)
  moreover have "wrote_tier ''documents-100k.txt'' ''document_ids-100k.tsv'' (take k (done @ [r])) small'"
  proof (cases "length done < k")
    case True
    then have "take k (done @ [r]) = done @ [r]" "take k done = done" by simp_all
    then show ?thesis
      using assms(1) s True write_row_wrote [of _ _ "done" small r small'] by (simp add: documents_inv_def st)
  next
    case False
    then show ?thesis using assms(1) s by (simp add: documents_inv_def st)
  qed
  ultimately show ?thesis using assms(1) enc by (auto simp: documents_inv_def st st')
qed

lemma document_steps_inv:
  assumes "fold_res (document_step k n) st (enumerate (length done) rows) = Inr st'"
    and "documents_inv k done st"
  shows "documents_inv k (done @ rows) st'"
  using assms
proof (induction rows arbitrary: st "done")
  case (Cons r rows)
  obtain st1 where "document_step k n st (length done, r) = Inr st1"
    and "fold_res (document_step k n) st1 (enumerate (length (done @ [r])) rows) = Inr st'"
    using Cons.prems(1) by (auto simp: ok_simps)
  then show ?case using Cons.IH [of st1 "done @ [r]"] document_step_inv [OF Cons.prems(2)] by simp
qed simp

lemma write_documents_spec:
  assumes "write_documents table rows k n = Inr out"
  defines "R \<equiv> map snd (output_order table rows)"
  shows "wrote_tier ''documents-100k.txt'' ''document_ids-100k.tsv'' (take k R) (do_small out)"
    "wrote_tier ''documents-1m.txt'' ''document_ids-1m.tsv'' R (do_large out)"
    "length R = n" "length (take k R) = k"
    "\<forall>r \<in> set R. length (utf8_bytes (cr_text r)) = cr_prepared r"
    "ti_totals (do_small_stats out) = foldl add_totals no_totals (take k R)"
    "ti_totals (do_large_stats out) = foldl add_totals no_totals R"
    "duplicate_stats (int k) (distinct_texts (filter (\<lambda>sc. sr_tier (fst sc) = 0) (output_order table rows)))
       = Inr (ti_dup (do_small_stats out))"
    "duplicate_stats (int n) (distinct_texts (output_order table rows)) = Inr (ti_dup (do_large_stats out))"
proof -
  let ?s0 = "\<lparr>wr_documents = open_writer ''documents-100k.txt'',
            wr_ids = open_writer ''document_ids-100k.tsv'', wr_totals = no_totals\<rparr>"
  let ?l0 = "\<lparr>wr_documents = open_writer ''documents-1m.txt'',
            wr_ids = open_writer ''document_ids-1m.tsv'', wr_totals = no_totals\<rparr>"
  obtain small large sd ld where run: "fold_res (document_step k n) (?s0, ?l0) (enumerate 0 R) = Inr (small, large)"
    and lines: "tw_lines (wr_documents large) = n" "tw_lines (wr_documents small) = k"
    and dup: "duplicate_stats (int k) (distinct_texts (filter (\<lambda>sc. sr_tier (fst sc) = 0) (output_order table rows)))
       = Inr sd" "duplicate_stats (int n) (distinct_texts (output_order table rows)) = Inr ld"
    and out: "out = \<lparr>do_small = small, do_large = large,
           do_small_stats = \<lparr>ti_documents = k, ti_totals = wr_totals small, ti_dup = sd\<rparr>,
           do_large_stats = \<lparr>ti_documents = n, ti_totals = wr_totals large, ti_dup = ld\<rparr>\<rparr>"
    using assms(1) unfolding write_documents_def Let_def R_def [symmetric]
    by (auto simp: ok_simps)
  have "documents_inv k [] (?s0, ?l0)" by (simp add: documents_inv_def wrote_tier_def id_lines_def)
  from document_steps_inv [OF _ this, of n R] run have inv: "documents_inv k R (small, large)" by simp
  then show "wrote_tier ''documents-100k.txt'' ''document_ids-100k.tsv'' (take k R) (do_small out)"
    "wrote_tier ''documents-1m.txt'' ''document_ids-1m.tsv'' R (do_large out)"
    "\<forall>r \<in> set R. length (utf8_bytes (cr_text r)) = cr_prepared r"
    by (simp_all add: documents_inv_def out)
  then show "length R = n" "length (take k R) = k"
    using lines by (simp_all add: wrote_tier_def wrote_def out)
  show "ti_totals (do_small_stats out) = foldl add_totals no_totals (take k R)"
    "ti_totals (do_large_stats out) = foldl add_totals no_totals R"
    using inv by (simp_all add: documents_inv_def wrote_tier_def out)
  show "duplicate_stats (int k) (distinct_texts (filter (\<lambda>sc. sr_tier (fst sc) = 0) (output_order table rows)))
       = Inr (ti_dup (do_small_stats out))"
    "duplicate_stats (int n) (distinct_texts (output_order table rows)) = Inr (ti_dup (do_large_stats out))"
    using dup by (simp_all add: out)
qed

end
