(* ===== verification/NqPrepare.thy ===== *)
theory NqPrepare
  imports NqWrite
begin

text \<open>
  \<open>validate_arguments\<close>, \<open>prepare\<close> and \<open>build_manifest\<close> of \<open>prepare_beir_nq_scale.py\<close>. \<open>prepare\<close>
  is split where the code turns from producing the files to verifying them:
  \<open>prepare_files\<close> selects and writes, \<open>verify_outputs\<close> re-reads what was written, and the manifest
  follows. The main lemma shows that of all the checks of \<open>verify_outputs\<close> only the threshold on
  repeated queries can fail, so that a corpus that was selected is always published.
\<close>

subsection \<open>Arguments\<close>

record nq_args =
  na_expected_md5 :: pystr
  na_seed :: pystr
  na_query_count :: int
  na_small_count :: int
  na_large_count :: int
  na_max_document_bytes :: int
  na_max_text_rate :: pyfloat
  na_max_query_rate :: pyfloat
  na_max_members :: int
  na_max_extracted :: int
  na_timeout :: int

text \<open>What the parser fills in.\<close>

definition default_args :: nq_args where
  "default_args = \<lparr>na_expected_md5 = u ''d4d3d2e48787a744b6f6e691ff534307'',
     na_seed = u ''leann.cpp-beir-nq-scale-v1'', na_query_count = 300, na_small_count = 100000,
     na_large_count = 1000000, na_max_document_bytes = 2000, na_max_text_rate = Fin 0,
     na_max_query_rate = fl_lit 1 2, na_max_members = 100000, na_max_extracted = 64 * 1024 ^ 3,
     na_timeout = 120\<rparr>"

definition minimum_document_bytes :: nat where
  "minimum_document_bytes = length (utf8_bytes document_prefix) + 1"

definition validate_counts :: "nq_args \<Rightarrow> unit res" where
  "validate_counts a =
     (if na_seed a = [] then Inl (ValueError ''--seed must not be empty'')
      else if na_query_count a \<le> 0 then Inl (ValueError ''--query-count must be positive'')
      else if na_small_count a \<le> 0 then Inl (ValueError ''--small-count must be positive'')
      else if na_large_count a \<le> na_small_count a
        then Inl (ValueError ''--large-count must be greater than --small-count'')
      else if \<not> (int minimum_document_bytes \<le> na_max_document_bytes a
                \<and> na_max_document_bytes a \<le> int max_safe_document_bytes)
        then Inl (ValueError ''--max-document-bytes is out of range'')
      else Inr ())"

definition validate_limits :: "nq_args \<Rightarrow> unit res" where
  "validate_limits a =
     (case validate_rate (na_max_text_rate a) of Inl e \<Rightarrow> Inl e | Inr _ \<Rightarrow>
      if \<not> fl_eq (na_max_text_rate a) (Fin 0)
        then Inl (ValueError ''--max-text-duplicate-rate must be exactly 0'')
      else case validate_rate (na_max_query_rate a) of Inl e \<Rightarrow> Inl e | Inr _ \<Rightarrow>
      if na_max_members a \<le> 0 then Inl (ValueError ''--max-archive-members must be positive'')
      else if na_max_extracted a \<le> 0 then Inl (ValueError ''--max-extracted-bytes must be positive'')
      else if na_timeout a \<le> 0 then Inl (ValueError ''--download-timeout must be positive'')
      else Inr ())"

definition validate_arguments :: "nq_args \<Rightarrow> nq_args res" where
  "validate_arguments a =
     (case validate_expected_md5 (na_expected_md5 a) of Inl e \<Rightarrow> Inl e | Inr md5_hex \<Rightarrow>
      case validate_counts a of Inl e \<Rightarrow> Inl e | Inr _ \<Rightarrow>
      case validate_limits a of Inl e \<Rightarrow> Inl e | Inr _ \<Rightarrow>
      Inr (a\<lparr>na_expected_md5 := md5_hex\<rparr>))"

subsection \<open>Producing the files\<close>

definition selected_positives :: "(pystr \<times> pystr list) list \<Rightarrow> pystr list \<Rightarrow> pystr list res" where
  "selected_positives positives selected =
     (case map_res (\<lambda>q. case map_of positives q of None \<Rightarrow> Inl (KeyError ''positives'') | Some cs \<Rightarrow> Inr cs)
             selected of Inl e \<Rightarrow> Inl e | Inr css \<Rightarrow> Inr (remdups (concat css)))"

record nq_build =
  nb_query_ids :: "pystr list"
  nb_qrels :: "qrel list"
  nb_positive_ids :: "pystr list"
  nb_query_source :: source_stats
  nb_qrel_source :: source_stats
  nb_corpus_source :: source_stats
  nb_corpus :: index_state
  nb_selection :: selection
  nb_documents :: document_files
  nb_queries :: query_files

text \<open>The three source files of a dataset.\<close>

record nq_sources =
  ns_queries :: bytes
  ns_qrels :: bytes
  ns_corpus :: bytes

definition choose_queries ::
  "host \<Rightarrow> py \<Rightarrow> nq_args \<Rightarrow> nq_sources
     \<Rightarrow> (queries \<times> source_stats \<times> qrel list \<times> source_stats \<times> pystr list \<times> pystr list) res" where
  "choose_queries h py a src =
     (case parse_queries h py (ns_queries src) of Inl e \<Rightarrow> Inl e | Inr (qs, qstats) \<Rightarrow>
      case parse_qrels h (ns_qrels src) of Inl e \<Rightarrow> Inl e | Inr (qrels, positives, rstats) \<Rightarrow>
      case select_queries h qs positives (na_seed a) (nat (na_query_count a)) of Inl e \<Rightarrow> Inl e | Inr chosen \<Rightarrow>
      case selected_positives positives chosen of Inl e \<Rightarrow> Inl e | Inr positive_ids \<Rightarrow>
      Inr (qs, qstats, qrels, rstats, chosen, positive_ids))"

definition prepare_files :: "host \<Rightarrow> py \<Rightarrow> nq_args \<Rightarrow> nq_sources \<Rightarrow> nq_build res" where
  "prepare_files h py a src =
     (case choose_queries h py a src of Inl e \<Rightarrow> Inl e
      | Inr (qs, qstats, qrels, rstats, chosen, positive_ids) \<Rightarrow>
      case index_corpus h py positive_ids (na_seed a) (nat (na_max_document_bytes a)) (ns_corpus src) of
        Inl e \<Rightarrow> Inl e | Inr (cstats, corpus) \<Rightarrow>
      case select_documents (ix_table corpus) (length positive_ids) (nat (na_small_count a)) (nat (na_large_count a)) of
        Inl e \<Rightarrow> Inl e | Inr sel \<Rightarrow>
      case write_documents (ix_table corpus) (sl_rows sel) (nat (na_small_count a)) (nat (na_large_count a)) of
        Inl e \<Rightarrow> Inl e | Inr docs \<Rightarrow>
      case write_queries_and_qrels h chosen qs qrels of Inl e \<Rightarrow> Inl e | Inr qfiles \<Rightarrow>
      Inr \<lparr>nb_query_ids = chosen, nb_qrels = qrels, nb_positive_ids = positive_ids,
           nb_query_source = qstats, nb_qrel_source = rstats, nb_corpus_source = cstats,
           nb_corpus = corpus, nb_selection = sel, nb_documents = docs, nb_queries = qfiles\<rparr>)"

subsection \<open>Verifying what was written\<close>

definition tier_checks :: "nq_args \<Rightarrow> tier_stats \<Rightarrow> unit res" where
  "tier_checks a t =
     (if na_max_document_bytes a < int (tt_maximum (ti_totals t))
        then Inl (RuntimeError ''tier contains an oversized prepared document'')
      else if du_duplicates (ti_dup t) \<noteq> 0 \<or> \<not> fl_eq (du_rate (ti_dup t)) (Fin 0)
        then Inl (RuntimeError ''tier retains prepared-text duplicate rows'')
      else Inr ())"

definition id_checks :: "nq_args \<Rightarrow> nq_build \<Rightarrow> pystr list \<Rightarrow> pystr list \<Rightarrow> unit res" where
  "id_checks a b small_ids large_ids =
     (if int (length small_ids) \<noteq> na_small_count a \<or> int (length large_ids) \<noteq> na_large_count a
        then Inl (RuntimeError ''output ID cardinality does not match requested tiers'')
      else if \<not> set small_ids \<subseteq> set large_ids
        then Inl (RuntimeError ''100K document IDs are not nested in 1M document IDs'')
      else if \<not> set (nb_positive_ids b) \<subseteq> set small_ids
        then Inl (RuntimeError ''100K tier does not cover every selected positive qrel'')
      else if \<not> list_all (\<lambda>q. qr_corpus q \<in> set small_ids)
            (filter (\<lambda>q. qr_query q \<in> set (nb_query_ids b) \<and> fl_lt (Fin 0) (qr_score q)) (nb_qrels b))
        then Inl (RuntimeError ''100K tier does not cover every positive qrel judgment'')
      else Inr ())"

definition query_rate_check :: "nq_args \<Rightarrow> nq_build \<Rightarrow> unit res" where
  "query_rate_check a b =
     (if fl_lt (na_max_query_rate a) (du_rate (qo_dup (nb_queries b)))
      then Inl (RuntimeError ''query prepared-text duplicate rate exceeds threshold'') else Inr ())"

definition verify_outputs :: "nq_args \<Rightarrow> nq_build \<Rightarrow> unit res" where
  "verify_outputs a b =
     (let small = do_small (nb_documents b); large = do_large (nb_documents b) in
      case verify_prefix (tw_content (wr_documents small)) (tw_content (wr_documents large)) of
        Inl e \<Rightarrow> Inl e | Inr _ \<Rightarrow>
      case verify_prefix (tw_content (wr_ids small)) (tw_content (wr_ids large)) of Inl e \<Rightarrow> Inl e | Inr _ \<Rightarrow>
      case read_id_set (tw_content (wr_ids small)) of Inl e \<Rightarrow> Inl e | Inr small_ids \<Rightarrow>
      case read_id_set (tw_content (wr_ids large)) of Inl e \<Rightarrow> Inl e | Inr large_ids \<Rightarrow>
      case id_checks a b small_ids large_ids of Inl e \<Rightarrow> Inl e | Inr _ \<Rightarrow>
      case tier_checks a (do_small_stats (nb_documents b)) of Inl e \<Rightarrow> Inl e | Inr _ \<Rightarrow>
      case tier_checks a (do_large_stats (nb_documents b)) of Inl e \<Rightarrow> Inl e | Inr _ \<Rightarrow>
      query_rate_check a b)"

subsection \<open>The order of the output\<close>

lemma take_filter_sorted:
  "sorted_wrt (\<lambda>a b. p b \<longrightarrow> p a) xs \<Longrightarrow> take (length (filter p xs)) xs = filter p xs"
proof (induction xs)
  case (Cons x xs)
  then show ?case
  proof (cases "p x")
    case False
    then have "filter p xs = []" using Cons.prems by (auto simp: filter_empty_conv)
    then show ?thesis using False by simp
  qed simp
qed simp

lemma list_all2_source: "list_all2 P xs ys \<Longrightarrow> y \<in> set ys \<Longrightarrow> \<exists>x \<in> set xs. P x y"
  by (induction xs ys rule: list_all2_induct) auto

lemma filter_eq_distinct: "distinct xs \<Longrightarrow> x \<in> set xs \<Longrightarrow> filter (\<lambda>c. c = x) xs = [x]"
  by (induction xs) (auto simp: filter_empty_conv)

lemma joined_zip:
  assumes "distinct (map cr_id table)" and "set rs \<subseteq> set table" and "map sr_id rows = map cr_id rs"
  shows "joined table rows = zip rows rs"
  using assms(2,3)
proof (induction rows arbitrary: rs)
  case (Cons s rows)
  obtain r rs' where rs: "rs = r # rs'" using Cons.prems(2) by (cases rs) auto
  have "filter (\<lambda>c. cr_id c = sr_id s) table = [r]"
  proof -
    have r: "r \<in> set table" "sr_id s = cr_id r" using Cons.prems rs by auto
    then have "filter (\<lambda>c. cr_id c = cr_id r) table = filter (\<lambda>c. c = r) table"
      using assms(1) by (intro filter_cong) (auto simp: distinct_map inj_on_def)
    also have "\<dots> = [r]"
      using r(1) assms(1) by (simp add: distinct_map filter_eq_distinct)
    finally show ?thesis using r(2) by simp
  qed
  then show ?case using Cons.IH [of rs'] Cons.prems rs by (simp add: joined_def)
qed (simp add: joined_def)

lemma output_order_spec:
  assumes sel: "select_documents table positive_count k n = Inr sel"
    and kn: "k < n" and ids: "distinct (map cr_id table)"
  defines "out \<equiv> output_order table (sl_rows sel)"
  shows "length out = n" "distinct (map (cr_digest \<circ> snd) out)" "distinct (map (cr_id \<circ> snd) out)"
    "set (map snd out) \<subseteq> set table"
    "length (filter (\<lambda>sc. sr_tier (fst sc) = 0) out) = k"
    "take k out = filter (\<lambda>sc. sr_tier (fst sc) = 0) out"
    "{r \<in> set table. cr_positive r} \<subseteq> set (map snd (take k out))"
proof -
  let ?P = "ranked cr_positive table" and ?F = "chosen_fillers table n"
  let ?rows = "sl_rows sel" and ?rs = "ranked cr_positive table @ chosen_fillers table n"
  let ?small = "\<lambda>sc. sr_tier (fst sc) = 0"
  note s = select_documents_spec [OF sel kn]
  have rid: "map sr_id ?rows = map cr_id ?rs"
    by (simp add: s(1) fillers_ids select_row_as_def)
  then have len: "length ?rows = length ?rs" by (metis length_map)
  have sub: "set ?F \<subseteq> {r \<in> set table. \<not> cr_positive r}"
    using fresh_texts_sub by (fastforce simp: chosen_fillers_def Let_def ranked_def dest: in_set_takeD)
  have "distinct (map cr_id (filter p table))" for p using ids by (rule distinct_map_filter)
  then have dr: "distinct (map cr_id (ranked p table))" for p
    by (simp add: ranked_def distinct_map)
  have "distinct (map cr_id ?F)"
    using fresh_texts_ids [OF dr] by (simp add: chosen_fillers_def Let_def flip: take_map)
  moreover have "cr_id ` set ?P \<inter> cr_id ` set ?F = {}"
    using sub ids by (auto simp: ranked_def distinct_map inj_on_def)
  ultimately have did: "distinct (map cr_id ?rs)" using dr by simp
  have st: "set ?rs \<subseteq> set table" using sub by (auto simp: ranked_def)
  have z: "out = sort_key output_key (zip ?rows ?rs)"
    unfolding out_def output_order_def joined_zip [OF ids st rid] ..
  have ms: "mset (map (f \<circ> snd) out) = mset (map f ?rs)" for f :: "corpus_row \<Rightarrow> 'x"
  proof -
    have "mset (map (f \<circ> snd) out) = mset (map (f \<circ> snd) (zip ?rows ?rs))" by (simp add: z)
    also have "map (f \<circ> snd) (zip ?rows ?rs) = map f ?rs" by (metis len map_map map_snd_zip)
    finally show ?thesis .
  qed
  show "length out = n" using s(3) len by (simp add: z)
  show "distinct (map (cr_digest \<circ> snd) out)" using mset_eq_imp_distinct_iff [OF ms [of cr_digest]] s(4) by simp
  show "distinct (map (cr_id \<circ> snd) out)" using mset_eq_imp_distinct_iff [OF ms [of cr_id]] did by simp
  have "set (map snd out) = set ?rs" using mset_eq_setD [OF ms [of id]] by (simp add: comp_def)
  then show "set (map snd out) \<subseteq> set table" using st by simp
  have "map fst (zip ?rows ?rs) = ?rows" using len by simp
  then have "length (filter ?small (zip ?rows ?rs)) = length (filter (\<lambda>x. sr_tier x = 0) ?rows)"
    by (metis (no_types, lifting) comp_def filter_cong filter_map length_map)
  also have "\<dots> = length ?P + min (k - length ?P) (length ?F)"
    by (simp add: s(1) fillers_from_def select_row_as_def filter_map comp_def)
  also have "\<dots> = k" using s(2,3) kn by linarith
  finally have zk: "length (filter ?small (zip ?rows ?rs)) = k" .
  have "mset (filter ?small out) = mset (filter ?small (zip ?rows ?rs))" by (simp add: z)
  then show k: "length (filter ?small out) = k" using zk by (metis size_mset)
  have "sorted (map output_key out)" by (simp add: z)
  then have "sorted_wrt (\<lambda>a b. output_key a \<le> output_key b) out" by (simp add: sorted_map)
  then have "sorted_wrt (\<lambda>a b. ?small b \<longrightarrow> ?small a) out"
    by (rule sorted_wrt_mono_rel [rotated]) (auto simp: output_key_def less_eq_prod_def)
  from take_filter_sorted [OF this] k show t: "take k out = filter ?small out" by simp
  have "(select_row_as 0 True r, r) \<in> set (zip ?rows ?rs)" if "r \<in> set ?P" for r
  proof -
    have "zip ?rows ?rs = zip (map (select_row_as 0 True) ?P) ?P @ zip (fillers_from (k - length ?P) ?F) ?F"
      by (simp add: s(1))
    then show ?thesis using that by (auto simp: zip_map1 zip_same_conv_map)
  qed
  then show "{r \<in> set table. cr_positive r} \<subseteq> set (map snd (take k out))"
    unfolding t by (force simp: z ranked_def select_row_as_def)
qed

subsection \<open>The verification reads back what was written\<close>

lemma lines_keep_split: "lines_keep nl (s @ nl # t) = lines_keep nl (s @ [nl]) @ lines_keep nl t"
proof (induction "length s" arbitrary: s rule: less_induct)
  case less
  show ?case
  proof (cases "nl \<in> set s")
    case True
    then obtain l s' where s: "s = l @ nl # s'" "nl \<notin> set l" by (metis split_list_first)
    then have "length s' < length s" by simp
    from less [OF this] show ?thesis using s by (simp add: lines_keep_cons)
  next
    case False
    then show ?thesis using lines_keep_cons [of nl s "[]"] by (simp add: lines_keep_cons)
  qed
qed

lemma compare_lines_prefix: "compare_lines ls (ls @ ms) = Inr ()"
  by (induction ls) simp_all

lemma verify_prefix_text_file:
  assumes "ls \<noteq> []"
  shows "verify_prefix (text_file ls) (text_file (ls @ ms)) = Inr ()"
proof -
  obtain s where s: "text_file ls = s @ [10]"
    using assms by (cases ls rule: rev_cases) (simp_all add: text_file_def utf8_char_def byte_of_def)
  have "lines_keep 10 (text_file (ls @ ms)) = lines_keep 10 (text_file ls) @ lines_keep 10 (text_file ms)"
    using lines_keep_split [of 10 s "text_file ms"] by (simp add: text_file_append s)
  then show ?thesis by (simp add: verify_prefix_def compare_lines_prefix s)
qed

lemma translate_newlines_id: "13 \<notin> set s \<Longrightarrow> translate_newlines s = s"
  by (induction s) auto

lemma id_step_line:
  assumes "i \<notin> set done" and "\<not> tsv_unsafe i"
  shows "id_step done (n, id_line n i @ [10]) = Inr (done @ [i])"
proof -
  have d: "9 \<notin> set (dec_nat n)" using dec_nat_digits by fastforce
  have ne: "id_line n i \<noteq> []" "last (id_line n i) \<noteq> 10"
    using assms(2) by (auto simp: id_line_def tsv_unsafe_def) (metis last_in_set)
  then have "rstrip_while (\<lambda>c. c = 10) (id_line n i @ [10]) = id_line n i"
    using rstrip_while_id [OF ne(1), of "\<lambda>c. c = 10"] by (simp add: rstrip_while_def)
  moreover have "split_on 9 (id_line n i) = [dec_nat n, i]"
    using split_on_append [OF d, of i] assms(2) by (simp add: id_line_def tsv_unsafe_def split_on_noccur)
  ultimately show ?thesis using assms(1) by (simp add: id_step_def)
qed

lemma id_steps_lines:
  assumes "distinct (done @ ids)" and "\<forall>i \<in> set ids. \<not> tsv_unsafe i"
  shows "fold_res id_step done (enumerate n (map (\<lambda>l. l @ [10]) (map2 id_line [n..<n + length ids] ids)))
    = Inr (done @ ids)"
  using assms
proof (induction ids arbitrary: "done" n)
  case (Cons i ids)
  have "[n..<n + length (i # ids)] = n # [Suc n..<Suc n + length ids]"
    by (simp add: upt_conv_Cons del: upt_Suc)
  moreover have "id_step done (n, id_line n i @ [10]) = Inr (done @ [i])"
    using Cons.prems by (intro id_step_line) auto
  ultimately show ?case using Cons.IH [of "done @ [i]" "Suc n"] Cons.prems by simp
qed simp

lemma id_lines_clean:
  assumes "\<forall>i \<in> set ids. \<not> tsv_unsafe i" and "l \<in> set (id_lines ids)"
  shows "10 \<notin> set l \<and> 13 \<notin> set l"
proof -
  obtain n i where "l = id_line n i" "i \<in> set ids"
    using assms(2) by (auto simp: id_lines_def set_zip)
  moreover have "10 \<notin> set (dec_nat n)" "13 \<notin> set (dec_nat n)" for n using dec_nat_digits by fastforce+
  ultimately show ?thesis using assms(1) by (auto simp: id_line_def tsv_unsafe_def)
qed

lemma take_id_lines: "take k (id_lines ids) = id_lines (take k ids)"
  by (cases "k \<le> length ids") (simp_all add: id_lines_def take_zip take_map)

lemma read_id_set_lines:
  assumes "distinct ids" and safe: "\<forall>i \<in> set ids. \<not> tsv_unsafe i"
    and sc: "\<forall>l \<in> set (id_lines ids). \<forall>c \<in> set l. is_scalar c"
  shows "read_id_set (text_file (id_lines ids)) = Inr ids"
proof -
  let ?s = "concat (map (\<lambda>l. l @ [10]) (id_lines ids))"
  have "\<forall>c \<in> set ?s. is_scalar c" using sc by (auto simp: is_scalar_def)
  then have "utf8_decode (utf8_bytes ?s) = Inr ?s" by (rule utf8_decode_bytes)
  moreover have "translate_newlines ?s = ?s"
    using id_lines_clean [OF safe] by (intro translate_newlines_id) auto
  moreover have "lines_keep 10 ?s = map (\<lambda>l. l @ [10]) (id_lines ids)"
    using id_lines_clean [OF safe] by (intro lines_keep_unlines) blast
  ultimately show ?thesis
    using id_steps_lines [of "[]" ids 0] assms(1) safe
    by (simp add: read_id_set_def text_file_def id_lines_def)
qed

subsection \<open>Only the query threshold can fail\<close>

lemma corpus_row_of_ok:
  assumes "corpus_row_of h py pos seed n raw = Inr row"
  shows "\<not> tsv_unsafe (cr_id row)" "cr_prepared row \<le> n" "cr_prepared row = length (utf8_bytes (cr_text row))"
    "cr_positive row \<longleftrightarrow> cr_id row \<in> set pos"
proof -
  obtain r i d enc where id: "identifier_of py r = Inr i" and d: "document_text r n = Inr d"
    and enc: "utf8_encode (pd_text d) = Inr enc"
    and row: "cr_id row = i" "cr_text row = pd_text d" "cr_prepared row = length enc"
      "cr_positive row \<longleftrightarrow> i \<in> set pos"
    using assms by (auto simp: corpus_row_of_def ok_simps)
  show "\<not> tsv_unsafe (cr_id row)"
    using id row by (auto simp: identifier_of_def Let_def split: option.splits if_splits)
  obtain full trunc where "truncate_utf8 full n = Inr (pd_text d, trunc)"
    using d by (rule document_text_spec)
  from truncate_utf8_spec(2) [OF this] show "cr_prepared row \<le> n"
    using enc row by auto
  show "cr_prepared row = length (utf8_bytes (cr_text row))" "cr_positive row \<longleftrightarrow> cr_id row \<in> set pos"
    using enc row by (simp_all add: utf8_encode_iff)
qed

lemma totals_maximum:
  "\<forall>r \<in> set rows. cr_prepared r \<le> n \<Longrightarrow> tt_maximum t \<le> n \<Longrightarrow> tt_maximum (foldl add_totals t rows) \<le> n"
  by (induction rows arbitrary: t) (auto simp: add_totals_def)

lemma distinct_texts_length: "distinct (map (cr_digest \<circ> snd) xs) \<Longrightarrow> distinct_texts xs = int (length xs)"
  using distinct_card [of "map (cr_digest \<circ> snd) xs"] by (simp add: distinct_texts_def)

lemma duplicate_stats_none:
  "duplicate_stats n n = Inr \<lparr>du_rows = n, du_unique = n, du_duplicates = 0, du_rate = Fin 0\<rparr>"
  by (simp add: duplicate_stats_def Let_def int_true_div_def)

lemma selected_positives_cover:
  assumes "parse_qrels h content = Inr (qrels, positives, st)"
    and "selected_positives positives chosen = Inr ids"
    and "q \<in> set qrels" "qr_query q \<in> set chosen" "fl_lt (Fin 0) (qr_score q)"
  shows "qr_corpus q \<in> set ids"
proof -
  note p = parse_qrels_sound [OF assms(1)]
  have "(qr_query q, qr_corpus q) \<in> positive_pairs qrels"
    using assms(3,5) by (auto simp: positive_pairs_def)
  then obtain cs where cs: "(qr_query q, cs) \<in> set positives" "qr_corpus q \<in> set cs"
    unfolding p(6) [symmetric] by blast
  obtain css where css: "map_res (\<lambda>q. case map_of positives q of None \<Rightarrow> Inl (KeyError ''positives'')
      | Some cs \<Rightarrow> Inr cs) chosen = Inr css" and ids: "ids = remdups (concat css)"
    using assms(2) by (auto simp: selected_positives_def ok_simps)
  have "map_of positives (qr_query q) = Some cs" using cs(1) p(3) by simp
  then have "cs \<in> set css" using map_res_set_dom [OF css assms(4)] by auto
  then show ?thesis using cs(2) by (auto simp: ids)
qed

lemma validate_arguments_ok:
  assumes "validate_arguments a0 = Inr a"
  shows "0 < na_small_count a" "na_small_count a < na_large_count a"
    "0 < na_query_count a" "na_seed a \<noteq> []"
    "int minimum_document_bytes \<le> na_max_document_bytes a"
    "na_max_document_bytes a \<le> int max_safe_document_bytes" "na_max_text_rate a = Fin 0"
    "is_hex 32 (na_expected_md5 a)"
proof -
  obtain m where m: "validate_expected_md5 (na_expected_md5 a0) = Inr m"
    and counts: "validate_counts a0 = Inr ()" and limits: "validate_limits a0 = Inr ()"
    and a: "a = a0\<lparr>na_expected_md5 := m\<rparr>"
    using assms by (auto simp: validate_arguments_def ok_simps)
  show "is_hex 32 (na_expected_md5 a)"
    using m by (simp add: a validate_expected_md5_def Let_def split: if_splits)
  show "0 < na_small_count a" "na_small_count a < na_large_count a" "0 < na_query_count a" "na_seed a \<noteq> []"
    "int minimum_document_bytes \<le> na_max_document_bytes a"
    "na_max_document_bytes a \<le> int max_safe_document_bytes"
    using counts by (simp_all add: a validate_counts_def split: if_splits)
  have "fl_eq (na_max_text_rate a0) (Fin 0)" using limits by (simp add: validate_limits_def ok_simps)
  then show "na_max_text_rate a = Fin 0" by (cases "na_max_text_rate a0") (auto simp: a)
qed

text \<open>What \<open>prepare_files\<close> went through.\<close>

lemma prepare_files_parts:
  assumes "prepare_files h py a src = Inr b"
  obtains qs qstats positives where
    "parse_queries h py (ns_queries src) = Inr (qs, qstats)"
    "parse_qrels h (ns_qrels src) = Inr (nb_qrels b, positives, nb_qrel_source b)"
    "select_queries h qs positives (na_seed a) (nat (na_query_count a)) = Inr (nb_query_ids b)"
    "selected_positives positives (nb_query_ids b) = Inr (nb_positive_ids b)"
    "index_corpus h py (nb_positive_ids b) (na_seed a) (nat (na_max_document_bytes a)) (ns_corpus src)
       = Inr (nb_corpus_source b, nb_corpus b)"
    "select_documents (ix_table (nb_corpus b)) (length (nb_positive_ids b)) (nat (na_small_count a))
       (nat (na_large_count a)) = Inr (nb_selection b)"
    "write_documents (ix_table (nb_corpus b)) (sl_rows (nb_selection b)) (nat (na_small_count a))
       (nat (na_large_count a)) = Inr (nb_documents b)"
    "write_queries_and_qrels h (nb_query_ids b) qs (nb_qrels b) = Inr (nb_queries b)"
  using assms by (auto simp: prepare_files_def choose_queries_def ok_simps split: prod.splits)

definition output_rows :: "nq_build \<Rightarrow> corpus_row list" where
  "output_rows b = map snd (output_order (ix_table (nb_corpus b)) (sl_rows (nb_selection b)))"

lemma prepare_files_spec:
  assumes run: "prepare_files h py a src = Inr b" and arg: "validate_arguments a0 = Inr a"
  defines "k \<equiv> nat (na_small_count a)" and "n \<equiv> nat (na_large_count a)" and "R \<equiv> output_rows b"
  shows "wrote_tier ''documents-100k.txt'' ''document_ids-100k.tsv'' (take k R) (do_small (nb_documents b))"
    "wrote_tier ''documents-1m.txt'' ''document_ids-1m.tsv'' R (do_large (nb_documents b))"
    "length R = n" "k < n" "0 < k" "distinct (map cr_id R)" "distinct (map cr_digest R)"
    "\<forall>r \<in> set R. \<not> tsv_unsafe (cr_id r) \<and> cr_prepared r \<le> nat (na_max_document_bytes a)
       \<and> cr_prepared r = length (utf8_bytes (cr_text r))"
    "set (nb_positive_ids b) \<subseteq> cr_id ` set (take k R)"
    "tier_checks a (do_small_stats (nb_documents b)) = Inr ()"
    "tier_checks a (do_large_stats (nb_documents b)) = Inr ()"
    "\<forall>q \<in> set (nb_qrels b). qr_query q \<in> set (nb_query_ids b) \<longrightarrow> fl_lt (Fin 0) (qr_score q)
       \<longrightarrow> qr_corpus q \<in> set (nb_positive_ids b)"
proof -
  obtain qs qstats positives where
    rels: "parse_qrels h (ns_qrels src) = Inr (nb_qrels b, positives, nb_qrel_source b)"
    and pos: "selected_positives positives (nb_query_ids b) = Inr (nb_positive_ids b)"
    and idx: "index_corpus h py (nb_positive_ids b) (na_seed a) (nat (na_max_document_bytes a)) (ns_corpus src)
       = Inr (nb_corpus_source b, nb_corpus b)"
    and sel: "select_documents (ix_table (nb_corpus b)) (length (nb_positive_ids b)) k n = Inr (nb_selection b)"
    and wr: "write_documents (ix_table (nb_corpus b)) (sl_rows (nb_selection b)) k n = Inr (nb_documents b)"
    unfolding k_def n_def using run by (rule prepare_files_parts)
  note v = validate_arguments_ok [OF arg] and i = index_corpus_sound [OF idx]
    and w = write_documents_spec [OF wr, folded output_rows_def R_def]
  show kn: "k < n" and "0 < k" using v(1,2) by (simp_all add: k_def n_def)
  note o = output_order_spec [OF sel kn i(1)]
  show "wrote_tier ''documents-100k.txt'' ''document_ids-100k.tsv'' (take k R) (do_small (nb_documents b))"
    "wrote_tier ''documents-1m.txt'' ''document_ids-1m.tsv'' R (do_large (nb_documents b))" "length R = n"
    by (fact w)+
  show dd: "distinct (map cr_id R)" "distinct (map cr_digest R)"
    using o(2,3) by (simp_all add: R_def output_rows_def)
  show row: "\<forall>r \<in> set R. \<not> tsv_unsafe (cr_id r) \<and> cr_prepared r \<le> nat (na_max_document_bytes a)
       \<and> cr_prepared r = length (utf8_bytes (cr_text r))"
  proof
    fix r assume "r \<in> set R"
    then have "r \<in> set (ix_table (nb_corpus b))" using o(4) by (auto simp: R_def output_rows_def)
    from list_all2_source [OF i(2) this]
    obtain raw where "corpus_row_of h py (nb_positive_ids b) (na_seed a) (nat (na_max_document_bytes a)) raw = Inr r"
      by blast
    from corpus_row_of_ok [OF this]
    show "\<not> tsv_unsafe (cr_id r) \<and> cr_prepared r \<le> nat (na_max_document_bytes a)
       \<and> cr_prepared r = length (utf8_bytes (cr_text r))" by blast
  qed
  show "set (nb_positive_ids b) \<subseteq> cr_id ` set (take k R)"
    using i(3) o(7) unfolding R_def output_rows_def by (fastforce simp: take_map)
  let ?O = "output_order (ix_table (nb_corpus b)) (sl_rows (nb_selection b))"
  have "distinct (map (cr_digest \<circ> snd) (take k ?O))" using o(2) by (simp flip: take_map)
  then have ds: "distinct_texts (filter (\<lambda>sc. sr_tier (fst sc) = 0) ?O) = int k"
    using distinct_texts_length [of "take k ?O"] o(5,6) by simp
  have dl: "distinct_texts ?O = int n" using distinct_texts_length [OF o(2)] o(1) by simp
  have "\<forall>r \<in> set R. cr_prepared r \<le> nat (na_max_document_bytes a)"
    "\<forall>r \<in> set (take k R). cr_prepared r \<le> nat (na_max_document_bytes a)"
    using row by (blast, meson in_set_takeD row)
  then have "tt_maximum (foldl add_totals no_totals R) \<le> nat (na_max_document_bytes a)"
    "tt_maximum (foldl add_totals no_totals (take k R)) \<le> nat (na_max_document_bytes a)"
    by (auto intro!: totals_maximum simp: no_totals_def)
  moreover have "0 \<le> na_max_document_bytes a" using v(5) by linarith
  ultimately show "tier_checks a (do_small_stats (nb_documents b)) = Inr ()"
    "tier_checks a (do_large_stats (nb_documents b)) = Inr ()"
    using w(6,7,8,9) unfolding ds dl duplicate_stats_none
    by (auto simp: tier_checks_def sum.inject dest!: sym [of _ "ti_dup _"])
  show "\<forall>q \<in> set (nb_qrels b). qr_query q \<in> set (nb_query_ids b) \<longrightarrow> fl_lt (Fin 0) (qr_score q)
       \<longrightarrow> qr_corpus q \<in> set (nb_positive_ids b)"
    using selected_positives_cover [OF rels pos] by blast
qed

lemma verify_outputs_prepared:
  assumes run: "prepare_files h py a src = Inr b" and arg: "validate_arguments a0 = Inr a"
  shows "verify_outputs a b = query_rate_check a b"
proof -
  let ?k = "nat (na_small_count a)" and ?R = "output_rows b"
  note p = prepare_files_spec [OF run arg] and v = validate_arguments_ok [OF arg]
  let ?small = "do_small (nb_documents b)" and ?large = "do_large (nb_documents b)"
  have sw: "wrote ''documents-100k.txt'' (map cr_text (take ?k ?R)) (wr_documents ?small)"
    "wrote ''document_ids-100k.tsv'' (id_lines (map cr_id (take ?k ?R))) (wr_ids ?small)"
    and lw: "wrote ''documents-1m.txt'' (map cr_text ?R) (wr_documents ?large)"
    "wrote ''document_ids-1m.tsv'' (id_lines (map cr_id ?R)) (wr_ids ?large)"
    using p(1,2) by (simp_all add: wrote_tier_def)
  have content: "tw_content w = text_file ls" "\<forall>l \<in> set ls. \<forall>c \<in> set l. is_scalar c" if "wrote nm ls w" for nm ls w
    using that by (auto simp: wrote_def)
  have ne: "take ?k ?R \<noteq> []" using p(3,4,5) by auto
  have safe: "\<not> tsv_unsafe i" if "i \<in> set (map cr_id ?R)" for i using that p(8) by auto
  have idp: "id_lines (map cr_id ?R) = id_lines (map cr_id (take ?k ?R)) @ drop ?k (id_lines (map cr_id ?R))"
  proof -
    have "take ?k (id_lines (map cr_id ?R)) = id_lines (map cr_id (take ?k ?R))"
      by (simp add: take_id_lines take_map)
    then show ?thesis by (metis append_take_drop_id)
  qed
  have "verify_prefix (tw_content (wr_documents ?small)) (tw_content (wr_documents ?large)) = Inr ()"
    using verify_prefix_text_file [of "map cr_text (take ?k ?R)" "map cr_text (drop ?k ?R)"] ne
    unfolding content(1) [OF sw(1)] content(1) [OF lw(1)] map_append [symmetric] append_take_drop_id by simp
  moreover have "verify_prefix (tw_content (wr_ids ?small)) (tw_content (wr_ids ?large)) = Inr ()"
  proof -
    have "id_lines (map cr_id (take ?k ?R)) \<noteq> []" using ne length_id_lines [of "map cr_id (take ?k ?R)"]
      by (metis length_0_conv length_map)
    then show ?thesis
      unfolding content(1) [OF sw(2)] content(1) [OF lw(2)] by (subst idp) (rule verify_prefix_text_file)
  qed
  moreover have "read_id_set (tw_content (wr_ids ?small)) = Inr (map cr_id (take ?k ?R))"
    unfolding content(1) [OF sw(2)] using p(6,8) content(2) [OF sw(2)]
    by (intro read_id_set_lines) (simp_all flip: take_map, meson in_set_takeD safe)
  moreover have "read_id_set (tw_content (wr_ids ?large)) = Inr (map cr_id ?R)"
    unfolding content(1) [OF lw(2)] using p(6,8) content(2) [OF lw(2)]
    by (intro read_id_set_lines) auto
  moreover have "id_checks a b (map cr_id (take ?k ?R)) (map cr_id ?R) = Inr ()"
  proof -
    have "list_all (\<lambda>q. qr_corpus q \<in> set (map cr_id (take ?k ?R)))
        (filter (\<lambda>q. qr_query q \<in> set (nb_query_ids b) \<and> fl_lt (Fin 0) (qr_score q)) (nb_qrels b))"
      using p(9,12) by (auto simp: list_all_iff)
    moreover have "int (length (take ?k ?R)) = na_small_count a" "int (length ?R) = na_large_count a"
      using p(3,4) v(1,2) by simp_all
    moreover have "set (map cr_id (take ?k ?R)) \<subseteq> set (map cr_id ?R)" by (auto dest: in_set_takeD)
    ultimately show ?thesis using p(9) unfolding id_checks_def by simp
  qed
  ultimately show ?thesis unfolding verify_outputs_def Let_def using p(10,11) by simp
qed

subsection \<open>The manifest\<close>

record file_digest_info =
  fd_bytes :: nat
  fd_md5 :: pystr
  fd_sha256 :: pystr

definition source_file_manifest :: "source_stats \<Rightarrow> json" where
  "source_file_manifest s = JObj (jobj [(''bytes'', JInt (int (ss_bytes s))), (''lines'', JInt (int (ss_lines s))),
     (''sha256'', JStr (ss_sha s))])"

definition dup_json :: "dup_stats \<Rightarrow> json" where
  "dup_json s = JObj (jobj [(''rows'', JInt (du_rows s)), (''unique_prepared_texts'', JInt (du_unique s)),
     (''duplicate_rows'', JInt (du_duplicates s)), (''duplicate_rate'', JFloat (du_rate s))])"

definition tier_json :: "tier_stats \<Rightarrow> json" where
  "tier_json s = JObj (jobj
     [(''documents'', JInt (int (ti_documents s))),
      (''raw_text_bytes_without_newlines'', JInt (int (tt_raw (ti_totals s)))),
      (''original_prepared_text_bytes_without_newlines'', JInt (int (tt_original (ti_totals s)))),
      (''prepared_text_bytes_without_newlines'', JInt (int (tt_prepared (ti_totals s)))),
      (''maximum_prepared_document_bytes'', JInt (int (tt_maximum (ti_totals s)))),
      (''truncation'', JObj (jobj [(''documents'', JInt (int (tt_truncated (ti_totals s)))),
         (''bytes_removed'', JInt (int (tt_original (ti_totals s)) - int (tt_prepared (ti_totals s))))])),
      (''text_duplicates'', dup_json (ti_dup s))])"

definition query_json :: "nat \<Rightarrow> query_files \<Rightarrow> json" where
  "query_json queries q = JObj (jobj
     [(''queries'', JInt (int queries)),
      (''raw_query_bytes_without_newlines'', JInt (int (qo_raw q))),
      (''prepared_query_bytes_without_newlines'', JInt (int (qo_prepared q))),
      (''text_duplicates'', dup_json (qo_dup q)),
      (''qrel_rows'', JInt (int (qo_rows q))), (''positive_qrel_rows'', JInt (int (qo_positive q)))])"

definition corpus_json :: "nat \<Rightarrow> index_state \<Rightarrow> json" where
  "corpus_json lines st = JObj (jobj
     [(''records'', JInt (int lines)),
      (''raw_text_bytes_without_newlines'', JInt (int (ix_raw st))),
      (''original_prepared_text_bytes_without_newlines'', JInt (int (ix_original st))),
      (''prepared_text_bytes_without_newlines'', JInt (int (ix_prepared st))),
      (''truncated_documents'', JInt (int (ix_truncated st))),
      (''truncated_bytes_removed'', JInt (ix_removed st)),
      (''maximum_prepared_document_bytes'', JInt (int (ix_maximum st)))])"

definition selection_json :: "selection \<Rightarrow> nat \<Rightarrow> json" where
  "selection_json s queries = JObj (jobj
     [(''source_documents'', JInt (int (sl_source s))), (''positive_documents'', JInt (int (sl_positive s))),
      (''small_documents'', JInt (int (sl_small s))), (''large_documents'', JInt (int (sl_large s))),
      (''filler_text_duplicates_skipped'', JInt (int (sl_skipped s))),
      (''unique_selected_texts'', JInt (int (sl_unique s))), (''queries'', JInt (int queries))])"

definition files_json :: "host \<Rightarrow> nq_build \<Rightarrow> json" where
  "files_json h b = (let small = do_small (nb_documents b); large = do_large (nb_documents b); q = nb_queries b in
     JObj (jobj
       [(''documents_100k'', close_writer h (wr_documents small)), (''document_ids_100k'', close_writer h (wr_ids small)),
        (''documents_1m'', close_writer h (wr_documents large)), (''document_ids_1m'', close_writer h (wr_ids large)),
        (''queries'', close_writer h (qo_queries q)), (''query_ids'', close_writer h (qo_ids q)),
        (''qrels'', close_writer h (qo_qrels q))]))"

definition manifest_dataset ::
  "nq_args \<Rightarrow> file_digest_info option \<Rightarrow> json \<Rightarrow> nq_build \<Rightarrow> json" where
  "manifest_dataset a archive provenance b = JObj (jobj
     [(''name'', JStr (u ''BEIR Natural Questions (NQ)'')),
      (''source_url'', JStr (u ''https://public.ukp.informatik.tu-darmstadt.de/thakur/BEIR/datasets/nq.zip'')),
      (''official_archive_expected_md5'', JStr (u ''d4d3d2e48787a744b6f6e691ff534307'')),
      (''validated_expected_md5'', JStr (na_expected_md5 a)),
      (''archive'', (case archive of None \<Rightarrow> JNull | Some f \<Rightarrow>
         JObj (jobj [(''bytes'', JInt (int (fd_bytes f))), (''md5'', JStr (fd_md5 f)), (''sha256'', JStr (fd_sha256 f))]))),
      (''provenance'', provenance),
      (''source_files'', JObj (jobj
         [(''corpus.jsonl'', source_file_manifest (nb_corpus_source b)),
          (''qrels/test.tsv'', source_file_manifest (nb_qrel_source b)),
          (''queries.jsonl'', source_file_manifest (nb_query_source b))])),
      (''source_corpus'', corpus_json (ss_lines (nb_corpus_source b)) (nb_corpus b))])"

definition manifest_normalization :: "nq_args \<Rightarrow> json" where
  "manifest_normalization a = JObj (jobj
     [(''line_cleaning'', JStr (u ''replace NUL with space, split on Unicode whitespace, join tokens with one ASCII space'')),
      (''document_format'', JStr (u ''search_document: <title>. <text>; a missing title or text uses the non-empty field without the separator'')),
      (''document_truncation'', JObj (jobj
         [(''maximum_utf8_bytes_including_prefix'', JInt (na_max_document_bytes a)),
          (''algorithm'', JStr (u ''take the longest valid UTF-8 prefix no larger than the byte ceiling, then remove trailing Unicode whitespace'')),
          (''applied_before_text_hashing_deduplication_and_selection'', JBool True),
          (''token_safety_basis'', JStr (u (''the configured ceiling is no greater than the 2,000-byte hard ceiling, which is below ''
             @ ''the model's 2,048-token context and leaves room for special tokens; a tokenizer cannot emit more byte-fallback ''
             @ ''tokens than the valid UTF-8 input byte count'')))])),
      (''query_format'', JStr (u ''search_query: <query>'')),
      (''encoding'', JStr (u ''UTF-8 with LF line endings''))])"

definition ids_digest :: "host \<Rightarrow> pystr list \<Rightarrow> pystr res" where
  "ids_digest h ids =
     (case utf8_encode (py_join [10] ids @ [10]) of Inl e \<Rightarrow> Inl e | Inr bs \<Rightarrow> Inr (sha_hex h bs))"

definition manifest_selection :: "nq_args \<Rightarrow> pystr \<Rightarrow> pystr \<Rightarrow> json" where
  "manifest_selection a query_digest positive_digest = JObj (jobj
     [(''seed'', JStr (na_seed a)),
      (''rank'', JStr (u ''SHA-256(UTF-8(seed) || UTF-8(original_id))'')),
      (''queries'', JStr (u ''lowest-ranked test query IDs that have at least one positive qrel'')),
      (''documents'', JStr (u (''all selected-query positive documents in the 100K tier; reject if positive documents reuse ''
         @ ''prepared text; unique-text fillers in rank order; each tier ordered by rank''))),
      (''selected_query_ids_sha256'', JStr query_digest),
      (''selected_positive_document_ids_sha256'', JStr positive_digest)])"

definition manifest_coverage :: "nat \<Rightarrow> json" where
  "manifest_coverage n = JObj (jobj
     [(''required_positive_documents'', JInt (int n)), (''covered_positive_documents_100k'', JInt (int n)),
      (''covered_positive_documents_1m'', JInt (int n)), (''document_coverage_100k'', JFloat (Fin 1)),
      (''document_coverage_1m'', JFloat (Fin 1)), (''positive_judgment_coverage_100k'', JFloat (Fin 1)),
      (''positive_judgment_coverage_1m'', JFloat (Fin 1))])"

definition manifest_invariants :: "nq_args \<Rightarrow> json" where
  "manifest_invariants a = JObj (jobj
     [(''100k_is_exact_prefix_of_1m'', JBool True), (''document_ids_are_unique'', JBool True),
      (''prepared_document_texts_are_unique'', JBool True),
      (''original_query_document_ids_and_qrel_scores_preserved'', JBool True),
      (''thresholds'', JObj (jobj [(''maximum_document_text_duplicate_rate'', JFloat (na_max_text_rate a)),
         (''maximum_query_text_duplicate_rate'', JFloat (na_max_query_rate a))]))])"

definition build_manifest ::
  "host \<Rightarrow> nq_args \<Rightarrow> file_digest_info option \<Rightarrow> json \<Rightarrow> nq_build \<Rightarrow> json res" where
  "build_manifest h a archive provenance b =
     (case ids_digest h (nb_query_ids b) of Inl e \<Rightarrow> Inl e | Inr qd \<Rightarrow>
      case ids_digest h (sort (nb_positive_ids b)) of Inl e \<Rightarrow> Inl e | Inr pd \<Rightarrow>
      Inr (JObj (jobj
        [(''schema_version'', JInt 1),
         (''preparer'', JObj (jobj [(''name'', JStr (u ''prepare_beir_nq_scale.py'')), (''version'', JInt 3)])),
         (''dataset'', manifest_dataset a archive provenance b),
         (''normalization'', manifest_normalization a),
         (''selection'', manifest_selection a qd pd),
         (''counts'', selection_json (nb_selection b) (length (nb_query_ids b))),
         (''tiers'', JObj (jobj [(''100k'', tier_json (do_small_stats (nb_documents b))),
            (''1m'', tier_json (do_large_stats (nb_documents b)))])),
         (''queries'', query_json (length (nb_query_ids b)) (nb_queries b)),
         (''qrel_coverage'', manifest_coverage (length (nb_positive_ids b))),
         (''invariants'', manifest_invariants a),
         (''requested_tier_counts'', JObj (jobj [(''100k'', JInt (na_small_count a)), (''1m'', JInt (na_large_count a))])),
         (''files'', files_json h b)])))"

text \<open>The directory that is published, by file name.\<close>

definition output_files :: "nq_build \<Rightarrow> (pystr \<times> bytes) list" where
  "output_files b = map (\<lambda>w. (tw_name w, tw_content w))
     [wr_documents (do_small (nb_documents b)), wr_ids (do_small (nb_documents b)),
      wr_documents (do_large (nb_documents b)), wr_ids (do_large (nb_documents b)),
      qo_queries (nb_queries b), qo_ids (nb_queries b), qo_qrels (nb_queries b)]"

definition prepare ::
  "host \<Rightarrow> py \<Rightarrow> nq_args \<Rightarrow> nq_sources \<Rightarrow> file_digest_info option \<Rightarrow> json
     \<Rightarrow> ((pystr \<times> bytes) list \<times> json) res" where
  "prepare h py a src archive provenance =
     (case prepare_files h py a src of Inl e \<Rightarrow> Inl e | Inr b \<Rightarrow>
      case verify_outputs a b of Inl e \<Rightarrow> Inl e | Inr _ \<Rightarrow>
      case build_manifest h a archive provenance b of Inl e \<Rightarrow> Inl e | Inr manifest \<Rightarrow>
      let content = dumps_indent h manifest @ [10] in
      case loads h content of None \<Rightarrow> Inl (ValueError ''json'') | Some _ \<Rightarrow>
      Inr (output_files b @ [(u ''manifest.json'', content)], manifest))"

subsection \<open>What is published\<close>


text \<open>
  C10. Verification accepts what selection produced: once \<open>prepare_files\<close> has succeeded under
  validated arguments, the prefix checks, the ID re-reads, the coverage checks and the tier checks
  of \<open>verify_outputs\<close> all pass; the run can still be refused only by the query duplicate rate.
\<close>

theorem verification_accepts_selection:
  assumes "validate_arguments a0 = Inr a" and "prepare_files h py a src = Inr b"
  shows "verify_outputs a b
    = (if fl_lt (na_max_query_rate a) (du_rate (qo_dup (nb_queries b)))
       then Inl (RuntimeError ''query prepared-text duplicate rate exceeds threshold'') else Inr ())"
  using verify_outputs_prepared [OF assms(2,1)] by (simp add: query_rate_check_def)

subsection \<open>A small dataset\<close>

definition sample_loads :: "bytes \<Rightarrow> json option" where
  "sample_loads b =
     (if b = [1, 10] then Some (JObj (jobj [(''_id'', JStr (u ''q'')), (''text'', JStr (u ''t''))]))
      else if b = [2, 10] then Some (JObj (jobj [(''_id'', JStr (u ''a'')), (''text'', JStr (u ''x''))]))
      else if b = [3, 10] then Some (JObj (jobj [(''_id'', JStr (u ''b'')), (''text'', JStr (u ''y''))]))
      else if b = [4, 10] then Some JNull else None)"

definition sample_host :: host where
  "sample_host = \<lparr>sha256 = id, dumps_canonical = (\<lambda>_. []), dumps_indent = (\<lambda>_. [4]), loads = sample_loads\<rparr>"

definition sample_py :: py where
  "sample_py = \<lparr>md5 = id, str_other = (\<lambda>_. []), casefold = id\<rparr>"

definition sample_args :: nq_args where
  "sample_args = \<lparr>na_expected_md5 = replicate 32 48, na_seed = u ''s'', na_query_count = 1, na_small_count = 1,
     na_large_count = 2, na_max_document_bytes = 100, na_max_text_rate = Fin 0, na_max_query_rate = Fin 0,
     na_max_members = 1, na_max_extracted = 1, na_timeout = 1\<rparr>"

definition sample_src :: nq_sources where
  "sample_src = \<lparr>ns_queries = [1, 10], ns_qrels = utf8_bytes (u ''h'' @ [9] @ u ''h'' @ [9] @ u ''h'' @ [10] @ u ''q'' @ [9] @ u ''a'' @ [9] @ u ''1'' @ [10]),
     ns_corpus = [2, 10, 3, 10]\<rparr>"

lemma sample_clean:
  "clean_line (JStr (u ''t'')) = Inr (u ''t'')" "clean_line (JStr (u ''x'')) = Inr (u ''x'')"
  "clean_line (JStr (u ''y'')) = Inr (u ''y'')" "clean_line (JStr []) = Inr []"
  by (simp_all add: clean_line_def u_def py_split.simps py_ws_def)

lemma sample_encode:
  "utf8_encode (u ''t'') = Inr [116]" "utf8_encode (u ''x'') = Inr [120]" "utf8_encode (u ''y'') = Inr [121]"
  "utf8_encode (u ''sa'') = Inr [115, 97]" "utf8_encode (u ''sb'') = Inr [115, 98]" "utf8_encode (u ''sq'') = Inr [115, 113]"
  by (simp_all add: utf8_encode_def u_def is_scalar_def utf8_char_def byte_of_def)

lemma rnd64_1: "rnd64 1 = Fin 1"
proof -
  have "exponent2 1 = 0" by (simp add: exponent2_def ilog2.simps pow2_def)
  moreover have "round_half_even (2 ^ 52) = 2 ^ 52" using round_half_even_int [of "2 ^ 52"] by simp
  ultimately show ?thesis by (simp add: rnd64_def Let_def pow2_def)
qed

lemma py_float_1: "py_float [49] = Some (Fin 1)"
proof -
  have "py_strip [49] = [49]" by (simp add: py_strip_def py_lstrip_def py_rstrip_def rstrip_while_def py_ws_def)
  moreover have "scan_digits [49] = Some [1]" by (simp add: digit_val_def)
  ultimately show ?thesis
    by (simp add: py_float_def split_sign_def ascii_lower_def u_def float_mantissa_def float_exponent_def
        digit_part_def of_digits_def pow10_def rnd64_1)
qed

lemma sample_queries:
  "parse_queries sample_host sample_py (ns_queries sample_src)
     = Inr ([(u ''q'', u ''search_query: t'', 1)], stats_of_lines sample_host [[1, 10]])"
proof -
  have l: "lines_keep 10 [1 :: byte, 10] = [[1, 10]]" using lines_keep_cons [of 10 "[1 :: byte]" "[]"] by simp
  have "parse_record sample_host [1, 10] = Inr (jobj [(''_id'', JStr (u ''q'')), (''text'', JStr (u ''t''))])"
    by (simp add: parse_record_def blank_bytes_def sample_host_def sample_loads_def)
  moreover have "identifier_of sample_py (jobj [(''_id'', JStr (u ''q'')), (''text'', JStr (u ''t''))]) = Inr (u ''q'')"
    by (simp add: identifier_of_def py_str_def tsv_unsafe_def) (simp add: u_def)
  moreover have "query_text (jobj [(''_id'', JStr (u ''q'')), (''text'', JStr (u ''t''))]) = Inr (u ''search_query: t'', 1)"
    by (simp add: query_text_def sample_clean sample_encode)
  ultimately show ?thesis by (simp add: parse_queries_def query_step_def sample_src_def l)
qed

lemma sample_qrels:
  "parse_qrels sample_host (ns_qrels sample_src)
     = Inr ([\<lparr>qr_query = u ''q'', qr_corpus = u ''a'', qr_text = u ''1'', qr_score = Fin 1\<rparr>], [(u ''q'', [u ''a''])],
         stats_of_lines sample_host [[104, 9, 104, 9, 104, 10], [113, 9, 97, 9, 49, 10]])"
proof -
  have c: "ns_qrels sample_src = [104, 9, 104, 9, 104, 10, 113, 9, 97, 9, 49, 10]"
    by (simp add: sample_src_def u_def utf8_char_def byte_of_def)
  have l: "lines_keep 10 (ns_qrels sample_src) = [[104, 9, 104, 9, 104, 10], [113, 9, 97, 9, 49, 10]]"
    unfolding c using lines_keep_cons [of 10 "[104 :: byte, 9, 104, 9, 104]" "[113, 9, 97, 9, 49, 10]"]
      lines_keep_cons [of 10 "[113 :: byte, 9, 97, 9, 49]" "[]"] by simp
  have d: "utf8_decode [104, 9, 104, 9, 104, 10] = Inr [104, 9, 104, 9, 104, 10]"
    "utf8_decode [113, 9, 97, 9, 49, 10] = Inr [113, 9, 97, 9, 49, 10]"
    using utf8_decode_bytes [of "[104, 9, 104, 9, 104, 10]"] utf8_decode_bytes [of "[113, 9, 97, 9, 49, 10]"]
    by (simp_all add: is_scalar_def utf8_char_def byte_of_def)
  have f: "tsv_fields [113, 9, 97, 9, 49, 10] = Inr [[113], [97], [49]]"
    by (simp add: tsv_fields_def d rstrip_while_def)
  have s: "py_float [49] = Some (Fin 1)"
    by (simp add: py_float_1)
  have q: "qrel_of_fields [[113], [97], [49]] = Inr \<lparr>qr_query = u ''q'', qr_corpus = u ''a'', qr_text = u ''1'', qr_score = Fin 1\<rparr>"
    by (simp add: qrel_of_fields_def tsv_unsafe_def s fl_isfinite_def u_def)
  show ?thesis
    by (simp add: parse_qrels_def l d rstrip_while_def qrel_step_def f q)
qed

definition sample_doc :: "string \<Rightarrow> string \<Rightarrow> bool \<Rightarrow> corpus_row" where
  "sample_doc i t p = \<lparr>cr_id = u i, cr_rank = utf8_bytes (u (''s'' @ i)), cr_digest = utf8_bytes (document_prefix @ u t),
     cr_text = document_prefix @ u t, cr_raw = 1, cr_original = 18, cr_prepared = 18, cr_truncated = False,
     cr_positive = p\<rparr>"

lemma sample_document:
  "document_text (jobj [(''_id'', JStr (u i)), (''text'', JStr (u t))]) 100
    = Inr \<lparr>pd_text = document_prefix @ u t, pd_raw_bytes = 1, pd_original_bytes = 18, pd_truncated = False\<rparr>"
  "utf8_encode (document_prefix @ u t) = Inr (utf8_bytes (document_prefix @ u t))"
  "length (utf8_bytes (document_prefix @ u t)) = 18"
  if "t \<in> {''x'', ''y''}"
proof -
  have e: "utf8_encode (document_prefix @ u t) = Inr (utf8_bytes (document_prefix @ u t))"
    "length (utf8_bytes (document_prefix @ u t)) = 18"
    using that by (auto simp: utf8_encode_def document_prefix_def u_def is_scalar_def utf8_char_def)
  then show "utf8_encode (document_prefix @ u t) = Inr (utf8_bytes (document_prefix @ u t))"
    "length (utf8_bytes (document_prefix @ u t)) = 18" by simp_all
  have "startswith (document_prefix @ u t) document_prefix" by (simp add: startswith_def)
  moreover have "clean_line (JStr (u t)) = Inr (u t)" "\<exists>c. utf8_encode (u t) = Inr [c]" "t \<noteq> []"
    using that sample_clean sample_encode by auto
  ultimately show "document_text (jobj [(''_id'', JStr (u i)), (''text'', JStr (u t))]) 100
    = Inr \<lparr>pd_text = document_prefix @ u t, pd_raw_bytes = 1, pd_original_bytes = 18, pd_truncated = False\<rparr>"
    using e by (auto simp: document_text_def get_text_def sample_clean document_content_def truncate_utf8_def)
qed

lemma sample_row_of:
  "corpus_row_of sample_host sample_py [u ''a''] (u ''s'') 100 [2, 10] = Inr (sample_doc ''a'' ''x'' True)"
  "corpus_row_of sample_host sample_py [u ''a''] (u ''s'') 100 [3, 10] = Inr (sample_doc ''b'' ''y'' False)"
proof -
  have p: "parse_record sample_host [2, 10] = Inr (jobj [(''_id'', JStr (u ''a'')), (''text'', JStr (u ''x''))])"
    "parse_record sample_host [3, 10] = Inr (jobj [(''_id'', JStr (u ''b'')), (''text'', JStr (u ''y''))])"
    by (simp_all add: parse_record_def blank_bytes_def sample_host_def sample_loads_def)
  have i: "identifier_of sample_py (jobj [(''_id'', JStr (u i)), (''text'', JStr (u t))]) = Inr (u i)"
    if "i = ''a'' \<or> i = ''b''" for i t
    using that by (auto simp: identifier_of_def py_str_def tsv_unsafe_def) (auto simp: u_def)
  have r: "rank_hash sample_host (u ''s'') (u ''a'') = Inr (utf8_bytes (u ''sa''))"
    "rank_hash sample_host (u ''s'') (u ''b'') = Inr (utf8_bytes (u ''sb''))"
    by (simp_all add: rank_hash_def sample_host_def utf8_encode_def u_def is_scalar_def)
  have h: "sha256 sample_host = id" by (simp add: sample_host_def)
  show "corpus_row_of sample_host sample_py [u ''a''] (u ''s'') 100 [2, 10] = Inr (sample_doc ''a'' ''x'' True)"
    using sample_document [of "''x''"] i by (simp add: corpus_row_of_def p r h sample_doc_def)
  show "corpus_row_of sample_host sample_py [u ''a''] (u ''s'') 100 [3, 10] = Inr (sample_doc ''b'' ''y'' False)"
    using sample_document [of "''y''"] i by (simp add: corpus_row_of_def p r h sample_doc_def)
qed

lemma sample_index:
  "\<exists>st. index_corpus sample_host sample_py [u ''a''] (u ''s'') 100 (ns_corpus sample_src)
     = Inr (stats_of_lines sample_host [[2, 10], [3, 10]], st)
   \<and> ix_table st = [sample_doc ''a'' ''x'' True, sample_doc ''b'' ''y'' False]"
proof -
  have l: "lines_keep 10 [2 :: byte, 10, 3, 10] = [[2, 10], [3, 10]]"
    using lines_keep_cons [of 10 "[2 :: byte]" "[3, 10]"] lines_keep_cons [of 10 "[3 :: byte]" "[]"] by simp
  have d: "cr_id (sample_doc i t p) = u i" "cr_positive (sample_doc i t p) = p" for i t p by (simp_all add: sample_doc_def)
  show ?thesis
    by (simp add: index_corpus_def sample_src_def l index_step_def sample_row_of Let_def sql_batch_rows_def
        account_row_def empty_index_def flush_state_def flush_corpus_batch_def insert_row_def d)
qed

lemma sample_selection:
  "\<exists>sel. select_documents [sample_doc ''a'' ''x'' True, sample_doc ''b'' ''y'' False] 1 1 2 = Inr sel
     \<and> sl_rows sel = [select_row_as 0 True (sample_doc ''a'' ''x'' True), select_row_as 1 False (sample_doc ''b'' ''y'' False)]"
proof -
  have d: "cr_id (sample_doc i t p) = u i" "cr_positive (sample_doc i t p) = p"
    "cr_digest (sample_doc i t p) = utf8_bytes (document_prefix @ u t)" for i t p by (simp_all add: sample_doc_def)
  have ne: "utf8_bytes (document_prefix @ u ''y'') \<noteq> utf8_bytes (document_prefix @ u ''x'')"
    by (simp add: document_prefix_def u_def utf8_char_def byte_of_def)
  show ?thesis
    using ne by (simp add: select_documents_def d text_groups_def Let_def take_filler_def sql_batch_rows_def
        select_row_as_def card_insert_if)
qed

lemma sample_written:
  "\<exists>out. write_documents [sample_doc ''a'' ''x'' True, sample_doc ''b'' ''y'' False]
     [select_row_as 0 True (sample_doc ''a'' ''x'' True), select_row_as 1 False (sample_doc ''b'' ''y'' False)] 1 2 = Inr out"
proof -
  let ?a = "sample_doc ''a'' ''x'' True" and ?b = "sample_doc ''b'' ''y'' False"
  have d: "cr_id (sample_doc i t p) = u i" "cr_text (sample_doc i t p) = document_prefix @ u t"
    "cr_prepared (sample_doc i t p) = 18" for i t p by (simp_all add: sample_doc_def)
  have o: "output_order [?a, ?b] [select_row_as 0 True ?a, select_row_as 1 False ?b]
      = [(select_row_as 0 True ?a, ?a), (select_row_as 1 False ?b, ?b)]"
    by (simp add: output_order_def joined_def d select_row_as_def output_key_def less_eq_prod_def)
  have e: "utf8_encode (id_line 0 (u ''a'')) = Inr (utf8_bytes (id_line 0 (u ''a'')))"
    "utf8_encode (id_line 1 (u ''b'')) = Inr (utf8_bytes (id_line 1 (u ''b'')))"
    by (simp_all add: id_line_def utf8_encode_def u_def is_scalar_def dec_nat.simps)
  have x: "utf8_encode (document_prefix @ u ''x'') = Inr (utf8_bytes (document_prefix @ u ''x''))"
    "length (utf8_bytes (document_prefix @ u ''x'')) = 18"
    "utf8_encode (document_prefix @ u ''y'') = Inr (utf8_bytes (document_prefix @ u ''y''))"
    "length (utf8_bytes (document_prefix @ u ''y'')) = 18"
    using sample_document(2,3) [of "''x''"] sample_document(2,3) [of "''y''"] by simp_all
  have ne: "cr_digest ?a \<noteq> cr_digest ?b"
    by (simp add: sample_doc_def document_prefix_def u_def utf8_char_def byte_of_def)
  have t: "distinct_texts (filter (\<lambda>sc. sr_tier (fst sc) = 0)
      [(select_row_as 0 True ?a, ?a), (select_row_as 1 False ?b, ?b)]) = int 1"
    "distinct_texts [(select_row_as 0 True ?a, ?a), (select_row_as 1 False ?b, ?b)] = int 2"
    using ne by (simp_all add: distinct_texts_def select_row_as_def)
  show ?thesis
    unfolding write_documents_def Let_def o t duplicate_stats_none
    by (simp add: document_step_def d x x(2,4) [simplified] write_row_def write_line_def e e [unfolded One_nat_def] open_writer_def Let_def)
qed

lemma sample_queries_written:
  "\<exists>out. write_queries_and_qrels sample_host [u ''q''] [(u ''q'', u ''search_query: t'', 1)]
     [\<lparr>qr_query = u ''q'', qr_corpus = u ''a'', qr_text = u ''1'', qr_score = Fin 1\<rparr>] = Inr out
     \<and> du_rate (qo_dup out) = Fin 0"
proof -
  have e: "utf8_encode (u ''search_query: t'') = Inr (utf8_bytes (u ''search_query: t''))"
    "utf8_encode (id_line 0 (u ''q'')) = Inr (utf8_bytes (id_line 0 (u ''q'')))"
    "utf8_encode (u ''query-id'' @ 9 # u ''corpus-id'' @ 9 # u ''score'') = Inr (utf8_bytes (u ''query-id'' @ 9 # u ''corpus-id'' @ 9 # u ''score''))"
    "utf8_encode (u ''q'' @ 9 # u ''a'' @ 9 # u ''1'') = Inr (utf8_bytes (u ''q'' @ 9 # u ''a'' @ 9 # u ''1''))"
    by (simp_all add: id_line_def utf8_encode_def u_def is_scalar_def dec_nat.simps)
  show ?thesis
    using duplicate_stats_none [of 1]
    by (simp add: write_queries_and_qrels_def Let_def query_write_step_def write_line_def e qrel_line_def)
qed

lemma sample_args_valid: "validate_arguments sample_args = Inr sample_args"
proof -
  have "validate_expected_md5 (replicate 32 48) = Inr (replicate 32 48)"
    by (simp add: validate_expected_md5_def ascii_lower_def is_hex_def hex_digit_def list_all_iff)
  moreover have "minimum_document_bytes = 18"
    by (simp add: minimum_document_bytes_def document_prefix_def u_def utf8_char_def)
  ultimately show ?thesis
    by (simp add: validate_arguments_def sample_args_def validate_counts_def validate_limits_def
        max_safe_document_bytes_def validate_rate_def fl_isfinite_def)
qed

lemma sample_prepared:
  "\<exists>b. prepare_files sample_host sample_py sample_args sample_src = Inr b
     \<and> du_rate (qo_dup (nb_queries b)) = Fin 0 \<and> nb_query_ids b = [u ''q''] \<and> nb_positive_ids b = [u ''a'']"
proof -
  have s: "select_queries sample_host [(u ''q'', u ''search_query: t'', 1)] [(u ''q'', [u ''a''])] (u ''s'') 1 = Inr [u ''q'']"
    by (simp add: select_queries_ok rank_hash_def sample_encode)
  have c: "choose_queries sample_host sample_py sample_args sample_src
    = Inr ([(u ''q'', u ''search_query: t'', 1)], stats_of_lines sample_host [[1, 10]],
        [\<lparr>qr_query = u ''q'', qr_corpus = u ''a'', qr_text = u ''1'', qr_score = Fin 1\<rparr>],
        stats_of_lines sample_host [[104, 9, 104, 9, 104, 10], [113, 9, 97, 9, 49, 10]], [u ''q''], [u ''a''])"
    using s by (simp add: choose_queries_def sample_queries sample_qrels sample_args_def selected_positives_def)
  obtain st where st: "index_corpus sample_host sample_py [u ''a''] (u ''s'') 100 (ns_corpus sample_src)
     = Inr (stats_of_lines sample_host [[2, 10], [3, 10]], st)"
    "ix_table st = [sample_doc ''a'' ''x'' True, sample_doc ''b'' ''y'' False]"
    using sample_index by blast
  have a: "na_seed sample_args = u ''s''" "nat (na_max_document_bytes sample_args) = 100"
    "nat (na_small_count sample_args) = 1" "nat (na_large_count sample_args) = 2"
    by (simp_all add: sample_args_def)
  show ?thesis
    using sample_selection sample_written sample_queries_written
    by (auto simp: prepare_files_def c st a)
qed

theorem verification_accepts_selection_witness:
  "\<exists>b. prepare_files sample_host sample_py sample_args sample_src = Inr b \<and> verify_outputs sample_args b = Inr ()"
proof -
  obtain b where b: "prepare_files sample_host sample_py sample_args sample_src = Inr b"
    "du_rate (qo_dup (nb_queries b)) = Fin 0" using sample_prepared by blast
  have "verify_outputs sample_args b = Inr ()"
    using verification_accepts_selection [OF sample_args_valid b(1)] b(2) by (simp add: sample_args_def)
  then show ?thesis using b(1) by blast
qed

lemma sample_prepare:
  "\<exists>files m. prepare sample_host sample_py sample_args sample_src archive provenance = Inr (files, m)"
proof -
  obtain b where b: "prepare_files sample_host sample_py sample_args sample_src = Inr b"
    "du_rate (qo_dup (nb_queries b)) = Fin 0" "nb_query_ids b = [u ''q'']" "nb_positive_ids b = [u ''a'']"
    using sample_prepared by blast
  have v: "verify_outputs sample_args b = Inr ()"
    using verify_outputs_prepared [OF b(1) sample_args_valid] b(2) by (simp add: sample_args_def query_rate_check_def)
  have "ids_digest sample_host [u ''q''] = Inr (sha_hex sample_host [113, 10])"
    "ids_digest sample_host (sort [u ''a'']) = Inr (sha_hex sample_host [97, 10])"
    by (simp_all add: ids_digest_def utf8_encode_def u_def is_scalar_def utf8_char_def byte_of_def)
  then obtain m where m: "build_manifest sample_host sample_args archive provenance b = Inr m"
    by (simp add: build_manifest_def b)
  have "loads sample_host (dumps_indent sample_host m @ [10]) = Some JNull"
    by (simp add: sample_host_def sample_loads_def)
  then have "prepare sample_host sample_py sample_args sample_src archive provenance = Inr (output_files b @ [(u ''manifest.json'', dumps_indent sample_host m @ [10])], m)"
    by (simp add: prepare_def b(1) v m Let_def)
  then show ?thesis by blast
qed


end
