(* ===== verification/NqArchive.thy ===== *)
theory NqArchive
  imports NqPrepare Disk
begin

text \<open>
  Acquisition and publication in \<open>prepare_beir_nq_scale.py\<close>: \<open>file_digest\<close>,
  \<open>download_archive\<close>, \<open>verify_archive\<close>, \<open>safe_extract\<close>, \<open>find_dataset_root\<close>,
  \<open>publish_directory\<close> and \<open>run\<close>. An extraction tree maps relative paths (lists of components) to
  directories and files. What the ZIP reader, the network and the directory listing answer is a
  parameter. The lemmas show that extraction stays below its destination and within its limits,
  and that publication never leaves the output without a complete corpus.
\<close>

subsection \<open>Digests\<close>

definition file_digest :: "host \<Rightarrow> py \<Rightarrow> bytes \<Rightarrow> file_digest_info" where
  "file_digest h py content =
     (case read_loop None [] content of (fed, _) \<Rightarrow>
      \<lparr>fd_bytes = length fed, fd_md5 = to_hex (md5 py fed), fd_sha256 = sha_hex h fed\<rparr>)"

lemma file_digest_content:
  "file_digest h py c = \<lparr>fd_bytes = length c, fd_md5 = to_hex (md5 py c), fd_sha256 = sha_hex h c\<rparr>"
  by (simp add: file_digest_def read_loop_all)

definition verify_archive :: "host \<Rightarrow> py \<Rightarrow> fsys \<Rightarrow> pystr \<Rightarrow> pystr \<Rightarrow> file_digest_info res" where
  "verify_archive h py d path expected_md5 =
     (case file_at d path of
        None \<Rightarrow> Inl (RuntimeError ''archive does not exist or is not a file'')
      | Some content \<Rightarrow>
          let observed = file_digest h py content in
          if fd_md5 observed \<noteq> expected_md5 then Inl (RuntimeError ''BEIR NQ archive MD5 mismatch'')
          else Inr observed)"

text \<open>
  The response body is what the network gives. The temporary file is replaced into place only
  after the digest matched, and is removed otherwise.
\<close>

definition download_archive ::
  "host \<Rightarrow> py \<Rightarrow> bytes res \<Rightarrow> fsys \<Rightarrow> pystr \<Rightarrow> pystr \<Rightarrow> fsys \<times> file_digest_info res" where
  "download_archive h py response d destination expected_md5 =
     (let fetch = (case response of Inl e \<Rightarrow> (d, Inl e) | Inr body \<Rightarrow>
            let observed = file_digest h py body in
            if fd_md5 observed \<noteq> expected_md5
              then (d, Inl (RuntimeError ''BEIR NQ archive MD5 mismatch''))
            else (set_file d destination (Some body), Inr observed)) in
      case file_at d destination of
        None \<Rightarrow> fetch
      | Some content \<Rightarrow>
          let observed = file_digest h py content in
          if fd_md5 observed = expected_md5 then (d, Inr observed) else fetch)"

lemma download_archive_matches:
  assumes "download_archive h py response d p m = (d', Inr f)"
  shows "\<exists>c. file_at d' p = Some c \<and> f = file_digest h py c \<and> fd_md5 f = m"
  using assms by (auto simp: download_archive_def Let_def split: option.splits sum.splits if_splits)

subsection \<open>Extraction\<close>

record zip_member =
  zm_name :: pystr
  zm_size :: nat
  zm_flags :: "16 word"
  zm_attr :: "32 word"
  zm_data :: "bytes res"

type_synonym tree = "(pystr list \<times> bytes option) list"

definition posix_components :: "pystr \<Rightarrow> pystr list" where
  "posix_components name = filter (\<lambda>p. p \<noteq> [] \<and> p \<noteq> u ''.'') (split_on 47 name)"

definition is_absolute :: "pystr \<Rightarrow> bool" where
  "is_absolute name \<longleftrightarrow> startswith name (u ''/'')"

text \<open>\<open>Path.resolve\<close> below a fresh directory, where nothing is a link.\<close>

definition resolve_parts :: "pystr list \<Rightarrow> pystr list \<Rightarrow> pystr list" where
  "resolve_parts base parts = foldl (\<lambda>acc p. if p = u ''..'' then butlast acc else acc @ [p]) base parts"

definition path_string :: "pystr list \<Rightarrow> pystr" where
  "path_string parts = u ''/'' @ py_join (u ''/'') parts"

definition unix_mode :: "zip_member \<Rightarrow> 32 word" where
  "unix_mode m = and (drop_bit 16 (zm_attr m)) 0xFFFF"

definition is_link_mode :: "32 word \<Rightarrow> bool" where
  "is_link_mode mode \<longleftrightarrow> and mode 0xF000 = 0xA000"

definition is_regular_mode :: "32 word \<Rightarrow> bool" where
  "is_regular_mode mode \<longleftrightarrow> and mode 0xF000 = 0x8000"

definition is_file_in :: "tree \<Rightarrow> pystr list \<Rightarrow> bool" where
  "is_file_in t p = (case map_of t p of Some (Some _) \<Rightarrow> True | _ \<Rightarrow> False)"

definition make_directories :: "tree \<Rightarrow> pystr list \<Rightarrow> tree res" where
  "make_directories t path =
     (let ps = map (\<lambda>n. take n path) [1..<Suc (length path)] in
      if list_ex (is_file_in t) ps then Inl (OSError ''not a directory'')
      else Inr (t @ map (\<lambda>p. (p, None)) (filter (\<lambda>p. map_of t p = None) ps)))"

definition check_member :: "zip_member \<Rightarrow> unit res" where
  "check_member m =
     (let name = zm_name m in
      if name = [] \<or> 0 \<in> set name \<or> 92 \<in> set name then Inl (RuntimeError ''unsafe zip member name'')
      else if is_absolute name \<or> u ''..'' \<in> set (posix_components name)
        then Inl (RuntimeError ''unsafe zip member path'')
      else if bit (zm_flags m) 0 then Inl (RuntimeError ''encrypted zip member is unsupported'')
      else if unix_mode m \<noteq> 0 \<and> is_link_mode (unix_mode m)
        then Inl (RuntimeError ''symbolic link in zip is forbidden'')
      else Inr ())"

definition write_member :: "tree \<Rightarrow> pystr list \<Rightarrow> zip_member \<Rightarrow> tree res" where
  "write_member t path m =
     (case make_directories t (butlast path) of Inl e \<Rightarrow> Inl e | Inr t' \<Rightarrow>
      case zm_data m of Inl e \<Rightarrow> Inl e | Inr data \<Rightarrow>
      if path = [] \<or> map_of t' path \<noteq> None then Inl (OSError ''file exists'')
      else if length data \<noteq> zm_size m then Inl (RuntimeError ''short extraction for zip member'')
      else Inr (t' @ [(path, Some data)]))"

definition extract_member ::
  "py \<Rightarrow> pystr list \<Rightarrow> tree \<times> pystr list \<Rightarrow> zip_member \<Rightarrow> (tree \<times> pystr list) res" where
  "extract_member py destination st m =
     (case st of (t, seen) \<Rightarrow>
      case check_member m of Inl e \<Rightarrow> Inl e | Inr _ \<Rightarrow>
      let path = posix_components (zm_name m);
          resolved = resolve_parts destination path;
          key = casefold py (path_string resolved) in
      if \<not> prefix destination resolved then Inl (RuntimeError ''unsafe zip member path'')
      else if key \<in> set seen then Inl (RuntimeError ''duplicate zip extraction target'')
      else if endswith (zm_name m) (u ''/'') then
        (case make_directories t path of Inl e \<Rightarrow> Inl e | Inr t' \<Rightarrow> Inr (t', key # seen))
      else if unix_mode m \<noteq> 0 \<and> \<not> is_regular_mode (unix_mode m)
        then Inl (RuntimeError ''non-regular zip member is forbidden'')
      else case write_member t path m of Inl e \<Rightarrow> Inl e | Inr t' \<Rightarrow> Inr (t', key # seen))"

definition safe_extract ::
  "py \<Rightarrow> zip_member list \<Rightarrow> pystr list \<Rightarrow> int \<Rightarrow> int \<Rightarrow> tree res" where
  "safe_extract py members destination max_members max_uncompressed_bytes =
     (if max_members < int (length members) then Inl (RuntimeError ''archive contains too many members'')
      else if max_uncompressed_bytes < int (sum_list (map zm_size members))
        then Inl (RuntimeError ''archive expands beyond the limit'')
      else case fold_res (extract_member py destination) ([], []) members of
        Inl e \<Rightarrow> Inl e | Inr (t, seen) \<Rightarrow> Inr t)"

subsection \<open>Extraction stays inside\<close>

lemma posix_components_no_slash: "p \<in> set (posix_components name) \<Longrightarrow> 47 \<notin> set p \<and> p \<noteq> [] \<and> p \<noteq> u ''.''"
  by (auto simp: posix_components_def dest: split_on_fields)

lemma resolve_parts_plain: "u ''..'' \<notin> set parts \<Longrightarrow> resolve_parts base parts = base @ parts"
  by (induction parts arbitrary: base) (auto simp: resolve_parts_def)

definition safe_path :: "pystr list \<Rightarrow> bool" where
  "safe_path path \<longleftrightarrow> (\<forall>p \<in> set path. p \<noteq> [] \<and> p \<noteq> u ''.'' \<and> p \<noteq> u ''..'' \<and> 47 \<notin> set p)"

definition file_bytes :: "tree \<Rightarrow> nat" where
  "file_bytes t = sum_list (map (\<lambda>(p, c). case c of None \<Rightarrow> 0 | Some b \<Rightarrow> length b) t)"

definition file_count :: "tree \<Rightarrow> nat" where
  "file_count t = length (filter (\<lambda>(p, c). c \<noteq> None) t)"

text \<open>What holds of the tree after the members in \<open>done\<close>.\<close>

definition extracted :: "zip_member list \<Rightarrow> tree \<Rightarrow> bool" where
  "extracted done t \<longleftrightarrow> distinct (map fst t) \<and> (\<forall>(p, c) \<in> set t. p \<noteq> [] \<and> safe_path p)
     \<and> file_bytes t \<le> sum_list (map zm_size done) \<and> file_count t \<le> length done
     \<and> (\<forall>p b. (p, Some b) \<in> set t \<longrightarrow> (\<exists>m \<in> set done. p = posix_components (zm_name m)
          \<and> zm_data m = Inr b \<and> length b = zm_size m \<and> \<not> is_link_mode (unix_mode m)))
     \<and> (\<forall>p. map_of t p = None \<or> (\<forall>n. 0 < n \<longrightarrow> n < length p \<longrightarrow> map_of t (take n p) = Some None))"

lemma make_directories_ok:
  assumes "make_directories t path = Inr t'"
  obtains ps where "t' = t @ map (\<lambda>p. (p, None)) ps" "distinct ps"
    "set ps = {take n path | n. 0 < n \<and> n \<le> length path} - fst ` set t"
    "\<forall>n. 0 < n \<longrightarrow> n \<le> length path \<longrightarrow> map_of t' (take n path) = Some None"
proof -
  define ps where "ps = map (\<lambda>n. take n path) [1..<Suc (length path)]"
  let ?ps = "filter (\<lambda>p. map_of t p = None) ps"
  have nofile: "\<not> list_ex (is_file_in t) ps" and t': "t' = t @ map (\<lambda>p. (p, None)) ?ps"
    using assms unfolding make_directories_def Let_def ps_def [symmetric] by (simp_all split: if_splits)
  have set: "set ps = {take n path | n. 0 < n \<and> n \<le> length path}"
    by (force simp: ps_def simp del: upt_Suc)
  have "inj_on (\<lambda>n. take n path) {1..<Suc (length path)}"
    by (rule inj_onI) (metis atLeastLessThan_iff length_take less_Suc_eq_le min.absorb2)
  then have d: "distinct ps" by (simp add: ps_def distinct_map del: upt_Suc)
  have all: "map_of t' p = Some None" if "p \<in> set ps" for p
  proof (cases "map_of t p")
    case None
    then have "p \<in> set ?ps" using that by simp
    then have "map_of (map (\<lambda>p. (p, None :: bytes option)) ?ps) p = Some None"
      by (simp add: map_of_map_restrict [of "\<lambda>_. None", unfolded comp_def] restrict_map_def)
    then show ?thesis using None by (simp add: t' map_add_def)
  next
    case (Some c)
    then have "c = None" using nofile that by (cases c) (auto simp: list_ex_iff is_file_in_def)
    moreover have "map_of (map (\<lambda>p. (p, None :: bytes option)) ?ps) p = None"
    proof -
      have "p \<notin> set ?ps" using Some by simp
      then show ?thesis by (auto simp only: map_of_eq_None_iff set_map image_image fst_conv image_ident)
    qed
    ultimately show ?thesis using Some by (simp add: t' map_add_def)
  qed
  show thesis
  proof (rule that [OF t'])
    show "distinct ?ps" using d by simp
    show "set ?ps = {take n path | n. 0 < n \<and> n \<le> length path} - fst ` set t"
      unfolding set [symmetric] by (auto simp: map_of_eq_None_iff)
    show "\<forall>n. 0 < n \<longrightarrow> n \<le> length path \<longrightarrow> map_of t' (take n path) = Some None"
      using all unfolding set by blast
  qed
qed

lemma extractedI:
  assumes "distinct (map fst t)" and "\<And>p c. (p, c) \<in> set t \<Longrightarrow> p \<noteq> [] \<and> safe_path p"
    and "file_bytes t \<le> sum_list (map zm_size done)" and "file_count t \<le> length done"
    and "\<And>p b. (p, Some b) \<in> set t \<Longrightarrow> \<exists>m \<in> set done. p = posix_components (zm_name m)
          \<and> zm_data m = Inr b \<and> length b = zm_size m \<and> \<not> is_link_mode (unix_mode m)"
    and "\<And>p n. map_of t p \<noteq> None \<Longrightarrow> 0 < n \<Longrightarrow> n < length p \<Longrightarrow> map_of t (take n p) = Some None"
  shows "extracted done t"
  unfolding extracted_def
proof (intro conjI allI impI)
  fix p show "map_of t p = None \<or> (\<forall>n. 0 < n \<longrightarrow> n < length p \<longrightarrow> map_of t (take n p) = Some None)"
    using assms(6) by blast
next
  show "\<forall>(p, c) \<in> set t. p \<noteq> [] \<and> safe_path p" using assms(2) by fast
next
  fix p b assume "(p, Some b) \<in> set t"
  then show "\<exists>m \<in> set done. p = posix_components (zm_name m)
          \<and> zm_data m = Inr b \<and> length b = zm_size m \<and> \<not> is_link_mode (unix_mode m)" by (rule assms(5))
next
  show "distinct (map fst t)" by (rule assms(1))
next
  show "file_bytes t \<le> sum_list (map zm_size done)" by (rule assms(3))
next
  show "file_count t \<le> length done" by (rule assms(4))
qed

lemma extractedD:
  assumes "extracted done t"
  shows "distinct (map fst t)" "(p, c) \<in> set t \<Longrightarrow> p \<noteq> [] \<and> safe_path p"
    "file_bytes t \<le> sum_list (map zm_size done)" "file_count t \<le> length done"
    "(p, Some b) \<in> set t \<Longrightarrow> \<exists>m \<in> set done. p = posix_components (zm_name m)
          \<and> zm_data m = Inr b \<and> length b = zm_size m \<and> \<not> is_link_mode (unix_mode m)"
    "map_of t p \<noteq> None \<Longrightarrow> 0 < n \<Longrightarrow> n < length p \<Longrightarrow> map_of t (take n p) = Some None"
proof -
  note e = assms [unfolded extracted_def]
  show "distinct (map fst t)" "file_bytes t \<le> sum_list (map zm_size done)" "file_count t \<le> length done"
    using e by simp_all
  show "(p, c) \<in> set t \<Longrightarrow> p \<noteq> [] \<and> safe_path p" using e by fast
  show "(p, Some b) \<in> set t \<Longrightarrow> \<exists>m \<in> set done. p = posix_components (zm_name m)
          \<and> zm_data m = Inr b \<and> length b = zm_size m \<and> \<not> is_link_mode (unix_mode m)" using e by simp
  show "map_of t p \<noteq> None \<Longrightarrow> 0 < n \<Longrightarrow> n < length p \<Longrightarrow> map_of t (take n p) = Some None"
    using e by metis
qed

lemma safe_path_take: "safe_path path \<Longrightarrow> safe_path (take n path)"
  by (auto simp: safe_path_def dest: in_set_takeD)

lemma safe_path_butlast: "safe_path path \<Longrightarrow> safe_path (butlast path)"
  by (auto simp: safe_path_def dest: in_set_butlastD)

lemma make_directories_extracted:
  assumes t: "extracted done t" and m: "make_directories t path = Inr t'" and safe: "safe_path path"
  shows "extracted done t'" "\<forall>n. 0 < n \<longrightarrow> n \<le> length path \<longrightarrow> map_of t' (take n path) = Some None"
proof -
  obtain ps where t': "t' = t @ map (\<lambda>p. (p, None)) ps" and ps: "distinct ps"
    "set ps = {take n path | n. 0 < n \<and> n \<le> length path} - fst ` set t"
    and dirs: "\<forall>n. 0 < n \<longrightarrow> n \<le> length path \<longrightarrow> map_of t' (take n path) = Some None"
    using m by (rule make_directories_ok)
  show "\<forall>n. 0 < n \<longrightarrow> n \<le> length path \<longrightarrow> map_of t' (take n path) = Some None" by (rule dirs)
  have old: "map_of t' p = map_of t p" if "map_of t p \<noteq> None" for p using that by (auto simp: t' map_add_def)
  note e = extractedD [OF t]
  show "extracted done t'"
  proof (rule extractedI)
    have "map fst t' = map fst t @ ps" by (simp add: t' comp_def)
    then show "distinct (map fst t')" using e(1) ps by auto
    show "file_bytes t' \<le> sum_list (map zm_size done)" "file_count t' \<le> length done"
      using e(3,4) by (simp_all add: t' file_bytes_def file_count_def comp_def)
  next
    fix p c assume "(p, c) \<in> set t'"
    then show "p \<noteq> [] \<and> safe_path p"
      using e(2) ps(2) safe_path_take [OF safe] by (auto simp: t')
  next
    fix p b assume "(p, Some b) \<in> set t'"
    then have "(p, Some b) \<in> set t" by (auto simp: t')
    then show "\<exists>m \<in> set done. p = posix_components (zm_name m)
          \<and> zm_data m = Inr b \<and> length b = zm_size m \<and> \<not> is_link_mode (unix_mode m)" by (rule e(5))
  next
    fix p n assume p: "map_of t' p \<noteq> None" and n: "0 < n" "n < length p"
    show "map_of t' (take n p) = Some None"
    proof (cases "p \<in> set ps")
      case True
      then show ?thesis using dirs n unfolding ps(2) by (auto simp: min_def)
    next
      case False
      then have "map_of (map (\<lambda>p. (p, None :: bytes option)) ps) p = None"
        by (simp add: map_of_eq_None_iff image_image)
      then have "map_of t p \<noteq> None" using p by (simp add: t' map_add_def split: option.splits)
      then show ?thesis using e(6) [OF _ n] old by simp
    qed
  qed
qed

lemma check_member_ok:
  assumes "check_member m = Inr ()"
  shows "safe_path (posix_components (zm_name m))" "unix_mode m \<noteq> 0 \<Longrightarrow> \<not> is_link_mode (unix_mode m)"
proof -
  have "u ''..'' \<notin> set (posix_components (zm_name m))"
    "unix_mode m \<noteq> 0 \<longrightarrow> \<not> is_link_mode (unix_mode m)"
    using assms by (auto simp: check_member_def Let_def split: if_splits)
  then show "safe_path (posix_components (zm_name m))" "unix_mode m \<noteq> 0 \<Longrightarrow> \<not> is_link_mode (unix_mode m)"
    using posix_components_no_slash by (auto simp: safe_path_def)
qed

lemma extracted_more: "extracted done t \<Longrightarrow> extracted (done @ [m]) t"
  by (rule extractedI) (auto dest: extractedD)

lemma write_member_extracted:
  assumes t: "extracted done t" and w: "write_member t path m = Inr t'"
    and path: "path = posix_components (zm_name m)" "safe_path path" "\<not> is_link_mode (unix_mode m)"
  shows "extracted (done @ [m]) t'"
proof -
  obtain t1 data where t1: "make_directories t (butlast path) = Inr t1" and data: "zm_data m = Inr data"
    "length data = zm_size m" and fresh: "path \<noteq> []" "map_of t1 path = None" and t': "t' = t1 @ [(path, Some data)]"
    using w by (auto simp: write_member_def ok_simps)
  note e = make_directories_extracted [OF t t1 safe_path_butlast [OF path(2)]]
  have old: "map_of t' p = map_of t1 p" if "map_of t1 p \<noteq> None" for p using that by (auto simp: t' map_add_def)
  note d = extractedD [OF e(1)]
  show ?thesis
  proof (rule extractedI)
    have "path \<notin> fst ` set t1" using fresh(2) by (simp add: map_of_eq_None_iff)
    then show "distinct (map fst t')" using d(1) by (simp add: t')
    show "file_bytes t' \<le> sum_list (map zm_size (done @ [m]))" "file_count t' \<le> length (done @ [m])"
      using d(3,4) data by (simp_all add: t' file_bytes_def file_count_def)
  next
    fix p c assume "(p, c) \<in> set t'"
    then show "p \<noteq> [] \<and> safe_path p" using d(2) fresh(1) path(2) by (auto simp: t')
  next
    fix p b assume "(p, Some b) \<in> set t'"
    then consider "(p, Some b) \<in> set t1" | "p = path" "b = data" by (auto simp: t')
    then show "\<exists>m \<in> set (done @ [m]). p = posix_components (zm_name m)
          \<and> zm_data m = Inr b \<and> length b = zm_size m \<and> \<not> is_link_mode (unix_mode m)"
      using d(5) data path by cases auto
  next
    fix p n assume p: "map_of t' p \<noteq> None" and n: "0 < n" "n < length p"
    show "map_of t' (take n p) = Some None"
    proof (cases "p = path")
      case True
      have "take n (butlast path) = take n path" "n \<le> length (butlast path)"
        using n True by (simp_all add: butlast_conv_take min_absorb1)
      then have "map_of t1 (take n p) = Some None" using e(2) n(1) True by metis
      then show ?thesis using old [of "take n p"] by simp
    next
      case False
      then have "map_of t1 p \<noteq> None" using p by (simp add: t' map_add_def split: option.splits)
      then show ?thesis using d(6) [OF _ n] old by simp
    qed
  qed
qed

lemma extract_member_step:
  assumes t: "extracted done t" and e: "extract_member py dest (t, seen) m = Inr (t', seen')"
  shows "extracted (done @ [m]) t'"
proof -
  let ?path = "posix_components (zm_name m)"
  have c: "check_member m = Inr ()" using e by (auto simp: extract_member_def ok_simps)
  note s = check_member_ok [OF c]
  have "\<not> is_link_mode 0" by (simp add: is_link_mode_def)
  then have nl: "\<not> is_link_mode (unix_mode m)" using s(2) by metis
  consider "make_directories t ?path = Inr t'" | "write_member t ?path m = Inr t'"
    using e by (auto simp: extract_member_def Let_def ok_simps split: if_splits)
  then show ?thesis
  proof cases
    case 1
    from make_directories_extracted(1) [OF t this s(1)] show ?thesis by (rule extracted_more)
  next
    case 2
    then show ?thesis using t s(1) nl by (intro write_member_extracted [of _ t ?path]) simp_all
  qed
qed

lemma extract_members:
  assumes "fold_res (extract_member py dest) (t, seen) ms = Inr (t', seen')" and "extracted done t"
  shows "extracted (done @ ms) t'"
  using assms
proof (induction ms arbitrary: t seen "done")
  case (Cons m ms)
  obtain t1 seen1 where s: "extract_member py dest (t, seen) m = Inr (t1, seen1)"
    and r: "fold_res (extract_member py dest) (t1, seen1) ms = Inr (t', seen')"
    using Cons.prems(1) by (auto simp: ok_simps)
  show ?case using Cons.IH [OF r extract_member_step [OF Cons.prems(2) s]] by simp
qed simp


definition plain_member :: "string \<Rightarrow> bytes \<Rightarrow> zip_member" where
  "plain_member name data = \<lparr>zm_name = u name, zm_size = length data, zm_flags = 0, zm_attr = 0, zm_data = Inr data\<rparr>"


subsection \<open>Finding the dataset\<close>

text \<open>A directory as the code looks at it; \<open>dv_glob\<close> is \<open>source.glob("*/corpus.jsonl")\<close>, by parent.\<close>

record dir_view =
  dv_resolve :: "pystr \<Rightarrow> pystr"
  dv_glob :: "pystr \<Rightarrow> pystr list"
  dv_is_file :: "pystr \<Rightarrow> bool"
  dv_is_symlink :: "pystr \<Rightarrow> bool"
  dv_read :: "pystr \<Rightarrow> bytes res"

definition path_below :: "pystr \<Rightarrow> pystr \<Rightarrow> bool" where
  "path_below p parent \<longleftrightarrow> (if parent = u ''/'' then p \<noteq> parent else startswith p (parent @ u ''/''))"

definition check_source_file :: "dir_view \<Rightarrow> pystr \<Rightarrow> pystr \<Rightarrow> unit res" where
  "check_source_file v source path =
     (if dv_is_symlink v path \<or> \<not> dv_is_file v path
        then Inl (RuntimeError ''source file must be a regular non-symlink'')
      else let resolved = dv_resolve v path in
      if resolved \<noteq> source \<and> \<not> path_below resolved source
        then Inl (RuntimeError ''source file escapes source directory'')
      else Inr ())"

definition find_dataset_root :: "dir_view \<Rightarrow> pystr \<Rightarrow> pystr res" where
  "find_dataset_root v source0 =
     (let source = dv_resolve v source0;
          candidates = (if dv_is_file v (source @ u ''/corpus.jsonl'') then [source] else []) @ dv_glob v source;
          valid = filter (\<lambda>p. dv_is_file v (p @ u ''/queries.jsonl'') \<and> dv_is_file v (p @ u ''/qrels/test.tsv''))
                    candidates in
      case sort (remdups valid) of
        [dir] \<Rightarrow>
          (case map_res (check_source_file v source)
                  [dir @ u ''/corpus.jsonl'', dir @ u ''/queries.jsonl'', dir @ u ''/qrels/test.tsv''] of
             Inl e \<Rightarrow> Inl e | Inr _ \<Rightarrow> Inr dir)
      | _ \<Rightarrow> Inl (RuntimeError ''expected exactly one BEIR dataset''))"

definition view_sources :: "dir_view \<Rightarrow> pystr \<Rightarrow> nq_sources res" where
  "view_sources v dir =
     (case dv_read v (dir @ u ''/queries.jsonl'') of Inl e \<Rightarrow> Inl e | Inr q \<Rightarrow>
      case dv_read v (dir @ u ''/qrels/test.tsv'') of Inl e \<Rightarrow> Inl e | Inr r \<Rightarrow>
      case dv_read v (dir @ u ''/corpus.jsonl'') of Inl e \<Rightarrow> Inl e | Inr c \<Rightarrow>
      Inr \<lparr>ns_queries = q, ns_qrels = r, ns_corpus = c\<rparr>)"

text \<open>The view of an extracted tree: nothing in it is a link.\<close>

definition tree_path :: "pystr list \<Rightarrow> pystr list \<Rightarrow> pystr" where
  "tree_path dest p = path_string (dest @ p)"

definition tree_file :: "pystr list \<Rightarrow> tree \<Rightarrow> pystr \<Rightarrow> bytes option" where
  "tree_file dest t path =
     (case filter (\<lambda>(p, c). tree_path dest p = path) t of (p, Some b) # _ \<Rightarrow> Some b | _ \<Rightarrow> None)"

definition tree_view :: "pystr list \<Rightarrow> tree \<Rightarrow> dir_view" where
  "tree_view dest t =
     \<lparr>dv_resolve = (\<lambda>p. p),
      dv_glob = (\<lambda>source. map (\<lambda>(p, c). tree_path dest (butlast p))
        (filter (\<lambda>(p, c). length p = 2 \<and> last p = u ''corpus.jsonl'' \<and> source = path_string dest) t)),
      dv_is_file = (\<lambda>p. tree_file dest t p \<noteq> None), dv_is_symlink = (\<lambda>p. False),
      dv_read = (\<lambda>p. case tree_file dest t p of None \<Rightarrow> Inl (OSError ''no such file'') | Some b \<Rightarrow> Inr b)\<rparr>"

subsection \<open>Publication\<close>

datatype entry = Absent | Symlink | Other | Dir "(pystr \<times> bytes) list"

record slots =
  sl_output :: entry
  sl_backup :: entry
  sl_staged :: entry

text \<open>
  The states that are on disk, in order, and how the call ends. \<open>rename_fails\<close> is an \<open>OSError\<close> of
  \<open>staged.rename(output)\<close>; \<open>shutil.rmtree(backup)\<close> removes the files one after the other.
\<close>

definition removal_states :: "slots \<Rightarrow> slots list" where
  "removal_states s =
     (case sl_backup s of
        Dir old \<Rightarrow> map (\<lambda>n. s\<lparr>sl_backup := Dir (drop n old)\<rparr>) [0..<Suc (length old)] @ [s\<lparr>sl_backup := Absent\<rparr>]
      | _ \<Rightarrow> [])"

definition publish_directory :: "bool \<Rightarrow> slots \<Rightarrow> slots list \<times> unit res" where
  "publish_directory rename_fails s =
     (if sl_output s = Symlink then ([s], Inl (RuntimeError ''refusing to replace symlink output''))
      else if sl_output s = Other then ([s], Inl (RuntimeError ''refusing to replace non-directory output''))
      else let had_previous = sl_output s \<noteq> Absent;
               s1 = (if had_previous then s\<lparr>sl_output := Absent, sl_backup := sl_output s\<rparr> else s) in
      if rename_fails then
        (s # s1 # (if had_previous \<and> sl_backup s1 \<noteq> Absent \<and> sl_output s1 = Absent
                   then [s1\<lparr>sl_output := sl_backup s1, sl_backup := Absent\<rparr>] else []),
         Inl (OSError ''rename''))
      else let s2 = s1\<lparr>sl_output := sl_staged s1, sl_staged := Absent\<rparr> in
        (s # s1 # s2 # (if had_previous then removal_states s2 else []), Inr ()))"

text \<open>At every moment the previous or the new corpus is complete on disk.\<close>

lemma publish_directory_spec:
  assumes "sl_staged s = Dir new" and "sl_backup s = Absent"
  shows "(\<forall>t \<in> set (fst (publish_directory fails s)).
      sl_output t = sl_output s \<or> sl_backup t = sl_output s \<or> sl_output t = Dir new)
    \<and> (snd (publish_directory fails s) = Inr () \<longrightarrow>
        last (fst (publish_directory fails s)) = \<lparr>sl_output = Dir new, sl_backup = Absent, sl_staged = Absent\<rparr>)
    \<and> (\<forall>e. snd (publish_directory fails s) = Inl e \<longrightarrow> last (fst (publish_directory fails s)) = s)
    \<and> (snd (publish_directory fails s) = Inr () \<longleftrightarrow>
        \<not> fails \<and> sl_output s \<noteq> Symlink \<and> sl_output s \<noteq> Other)"
proof -
  obtain out where s: "s = \<lparr>sl_output = out, sl_backup = Absent, sl_staged = Dir new\<rparr>"
    using assms by (cases s) simp
  show ?thesis
  proof (cases out)
    case (Dir old)
    then show ?thesis unfolding s
      by (auto simp: publish_directory_def removal_states_def Let_def)
  qed (auto simp: s publish_directory_def Let_def)
qed

subsection \<open>The program\<close>

datatype nq_origin = FromDirectory pystr | FromArchive pystr | FromDownload pystr

text \<open>
  What surrounds the program: the disk, the view of a directory given by the user, the network's
  answer, the ZIP reader, and the directory in which the run stages its work. \<open>nq_origin\<close> is what
  the mutually exclusive options name, paths resolved.
\<close>

record nq_env =
  ne_fs :: fsys
  ne_view :: dir_view
  ne_response :: "bytes res"
  ne_unzip :: "bytes \<Rightarrow> zip_member list res"
  ne_staging :: "pystr list"
  ne_rename_fails :: bool

definition origin_clear :: "pystr \<Rightarrow> nq_origin \<Rightarrow> unit res" where
  "origin_clear output origin =
     (case origin of
        FromDirectory p \<Rightarrow>
          if p = output \<or> path_below p output \<or> path_below output p
          then Inl (RuntimeError ''--source-dir and --output must not contain each other'') else Inr ()
      | _ \<Rightarrow> Inr ())"

definition acquire_archive ::
  "host \<Rightarrow> py \<Rightarrow> nq_args \<Rightarrow> nq_env \<Rightarrow> nq_origin \<Rightarrow> (fsys \<times> file_digest_info \<times> pystr \<times> pystr) res" where
  "acquire_archive h py a env origin =
     (case origin of
        FromArchive p \<Rightarrow>
          (case verify_archive h py (ne_fs env) p (na_expected_md5 a) of Inl e \<Rightarrow> Inl e | Inr f \<Rightarrow>
           Inr (ne_fs env, f, p, u ''provided_archive''))
      | FromDownload p \<Rightarrow>
          (case download_archive h py (ne_response env) (ne_fs env) p (na_expected_md5 a) of
             (d, Inl e) \<Rightarrow> Inl e
           | (d, Inr f) \<Rightarrow> Inr (d, f, p, u ''official_download_or_verified_cache''))
      | FromDirectory p \<Rightarrow> Inl (AssertionError ''unreachable''))"

definition extract_archive ::
  "host \<Rightarrow> py \<Rightarrow> nq_args \<Rightarrow> nq_env \<Rightarrow> nq_origin \<Rightarrow> (nq_sources \<times> file_digest_info \<times> json) res" where
  "extract_archive h py a env origin =
     (case acquire_archive h py a env origin of Inl e \<Rightarrow> Inl e | Inr (d, f, path, acquisition) \<Rightarrow>
      case open_rb d path of Inl e \<Rightarrow> Inl e | Inr content \<Rightarrow>
      case ne_unzip env content of Inl e \<Rightarrow> Inl e | Inr members \<Rightarrow>
      let dest = ne_staging env @ [u ''extracted''] in
      case safe_extract py members dest (na_max_members a) (na_max_extracted a) of Inl e \<Rightarrow> Inl e | Inr t \<Rightarrow>
      case find_dataset_root (tree_view dest t) (path_string dest) of Inl e \<Rightarrow> Inl e | Inr dir \<Rightarrow>
      case view_sources (tree_view dest t) dir of Inl e \<Rightarrow> Inl e | Inr src \<Rightarrow>
      Inr (src, f, JObj (jobj [(''kind'', JStr acquisition), (''archive_path'', JStr path),
        (''archive_validation'', JStr (u ''MD5 matched validated_expected_md5''))])))"

definition acquire ::
  "host \<Rightarrow> py \<Rightarrow> nq_args \<Rightarrow> nq_env \<Rightarrow> nq_origin \<Rightarrow> (nq_sources \<times> file_digest_info option \<times> json) res" where
  "acquire h py a env origin =
     (case origin of
        FromDirectory p \<Rightarrow>
          (case find_dataset_root (ne_view env) p of Inl e \<Rightarrow> Inl e | Inr dir \<Rightarrow>
           case view_sources (ne_view env) dir of Inl e \<Rightarrow> Inl e | Inr src \<Rightarrow>
           Inr (src, None, JObj (jobj [(''kind'', JStr (u ''source_directory'')), (''path'', JStr p),
             (''archive_validation'', JStr (u ''not applicable''))])))
      | _ \<Rightarrow>
          (case extract_archive h py a env origin of Inl e \<Rightarrow> Inl e | Inr (src, f, provenance) \<Rightarrow>
           Inr (src, Some f, provenance)))"

definition nq_run ::
  "host \<Rightarrow> py \<Rightarrow> nq_env \<Rightarrow> nq_args \<Rightarrow> nq_origin \<Rightarrow> pystr \<Rightarrow> entry \<Rightarrow> slots list \<times> json res" where
  "nq_run h py env a0 origin output previous =
     (let before = \<lparr>sl_output = previous, sl_backup = Absent, sl_staged = Absent\<rparr>;
          staged = (case validate_arguments a0 of Inl e \<Rightarrow> Inl e | Inr a \<Rightarrow>
            case origin_clear output origin of Inl e \<Rightarrow> Inl e | Inr _ \<Rightarrow>
            case acquire h py a env origin of Inl e \<Rightarrow> Inl e | Inr (src, archive, provenance) \<Rightarrow>
            prepare h py a src archive provenance) in
      case staged of Inl e \<Rightarrow> ([before], Inl e) | Inr (files, manifest) \<Rightarrow>
      case publish_directory (ne_rename_fails env) (before\<lparr>sl_staged := Dir files\<rparr>) of
        (states, Inl e) \<Rightarrow> (states, Inl e) | (states, Inr _) \<Rightarrow> (states, Inr manifest))"


definition sample_view :: dir_view where
  "sample_view = \<lparr>dv_resolve = id, dv_glob = (\<lambda>_. []), dv_is_file = (\<lambda>_. True), dv_is_symlink = (\<lambda>_. False),
     dv_read = (\<lambda>p. if p = u ''/d/queries.jsonl'' then Inr (ns_queries sample_src)
       else if p = u ''/d/qrels/test.tsv'' then Inr (ns_qrels sample_src) else Inr (ns_corpus sample_src))\<rparr>"

definition sample_env :: nq_env where
  "sample_env = \<lparr>ne_fs = \<lparr>fs_resolve = id, fs_file = (\<lambda>_. None)\<rparr>, ne_view = sample_view,
     ne_response = Inl (OSError ''offline''), ne_unzip = (\<lambda>_. Inr []), ne_staging = [u ''tmp''], ne_rename_fails = False\<rparr>"


end
