(* ===== verification/Embedding.thy ===== *)
theory Embedding
  imports Disk VectorCache "HOL-Library.Multiset"
begin

text \<open>
  The embedding client of \<open>run_large_scale_benchmark.py\<close>: \<open>embedding_endpoint\<close>,
  \<open>model_descriptor\<close>, \<open>EmbeddingClient.embed\<close> with its retries, \<open>_iter_batches\<close> and the
  look-ahead pipeline \<open>_iter_embedded_batches\<close>. What the server answers to a batch at an attempt
  is a parameter, and so is NumPy's conversion of the JSON rows. The lemmas show that rows come
  back in the order of the texts whatever the order of the response, and that looking ahead
  changes neither the results nor their order.
\<close>

subsection \<open>Endpoint and model identity\<close>

definition embedding_endpoint :: "pystr \<Rightarrow> pystr" where
  "embedding_endpoint base_url =
     (let base = rstrip_while (\<lambda>c. c = 47) base_url in
      if endswith base (u ''/v1'') then base @ u ''/embeddings'' else base @ u ''/v1/embeddings'')"

record model_args =
  ma_embedding_model :: pystr
  ma_fingerprint :: pystr
  ma_identity :: "pystr option"
  ma_artifact :: "pystr option"

definition model_artifact :: "host \<Rightarrow> fsys \<Rightarrow> model_args \<Rightarrow> json res" where
  "model_artifact h d a =
     (case ma_artifact a of
        None \<Rightarrow> Inr JNull
      | Some p \<Rightarrow>
          (case open_rb d p of Inl e \<Rightarrow> Inl e | Inr content \<Rightarrow>
           case sha256_file h d p 0 None of Inl e \<Rightarrow> Inl e | Inr sha \<Rightarrow>
           Inr (JObj (jobj [(''path'', JStr (fs_resolve d p)), (''size_bytes'', JInt (int (length content))),
             (''sha256'', JStr sha)]))))"

definition model_descriptor :: "host \<Rightarrow> fsys \<Rightarrow> model_args \<Rightarrow> json res" where
  "model_descriptor h d a =
     (case model_artifact h d a of Inl e \<Rightarrow> Inl e | Inr artifact \<Rightarrow>
      let descriptor = [(''embedding_model'', JStr (ma_embedding_model a)),
            (''native_fingerprint'', JStr (ma_fingerprint a)),
            (''declared_identity'', case ma_identity a of None \<Rightarrow> JNull | Some s \<Rightarrow> JStr s),
            (''artifact'', artifact)];
          strength = (if artifact \<noteq> JNull then ''artifact-sha256''
            else if ma_identity a \<noteq> None \<and> ma_identity a \<noteq> Some [] then ''declared'' else ''fingerprint-only'')
      in Inr (JObj (jobj (descriptor
           @ [(''sha256'', JStr (canonical_hash h (JObj (jobj descriptor)))),
              (''identity_strength'', JStr (u strength))]))))"

subsection \<open>One response\<close>

text \<open>\<open>isinstance(v, int)\<close> with the value; a \<open>bool\<close> is an \<open>int\<close>.\<close>

definition int_value :: "json \<Rightarrow> int option" where
  "int_value v = (case v of JInt i \<Rightarrow> Some i | JBool b \<Rightarrow> Some (if b then 1 else 0) | _ \<Rightarrow> None)"

definition index_item :: "nat \<Rightarrow> (int \<times> json) list \<Rightarrow> json \<Rightarrow> (int \<times> json) list res" where
  "index_item n by_index item =
     (case item of
        JObj m \<Rightarrow>
          (case int_value (jget m ''index'') of
             None \<Rightarrow> Inl (ValueError ''embedding response has an invalid index'')
           | Some i \<Rightarrow>
               if i \<in> fst ` set by_index \<or> i < 0 \<or> int n \<le> i
               then Inl (ValueError ''embedding response indices are not a permutation'')
               else Inr (by_index @ [(i, jget m ''embedding'')]))
      | _ \<Rightarrow> Inl (ValueError ''embedding response has an invalid index''))"

text \<open>
  \<open>as_matrix\<close> is \<open>np.asarray(rows, dtype=np.float32)\<close>: the width and the rows as bytes. An array that
  is not of rank 2 reads as the empty matrix, which \<open>normalize_vectors\<close> refuses with the same
  error.
\<close>

type_synonym matrix = "nat \<times> bytes list"

definition response_matrix ::
  "numerics \<Rightarrow> (json list \<Rightarrow> matrix res) \<Rightarrow> nat \<Rightarrow> int option \<Rightarrow> json \<Rightarrow> matrix res" where
  "response_matrix np as_matrix n expected_dimension payload =
     (case (case payload of JObj m \<Rightarrow> jget m ''data'' | _ \<Rightarrow> JNull) of
        JArr data \<Rightarrow>
          if length data \<noteq> n then Inl (ValueError ''embedding endpoint returned the wrong row count'')
          else (case fold_res (index_item n) [] data of Inl e \<Rightarrow> Inl e | Inr by_index \<Rightarrow>
            if \<not> list_all (\<lambda>i. int i \<in> fst ` set by_index) [0..<n]
              then Inl (ValueError ''embedding response indices are incomplete'')
            else case as_matrix (map (\<lambda>i. the (map_of by_index (int i))) [0..<n]) of Inl e \<Rightarrow> Inl e | Inr (width, vals) \<Rightarrow>
            case normalize_vectors np width vals of Inl e \<Rightarrow> Inl e | Inr rows \<Rightarrow>
            if expected_dimension \<noteq> None \<and> expected_dimension \<noteq> Some (int width)
              then Inl (ValueError ''embedding dimension changed'')
            else Inr (width, rows))
      | _ \<Rightarrow> Inl (ValueError ''embedding endpoint returned the wrong row count''))"

subsection \<open>Retries\<close>

datatype reply = HttpError nat | Unreachable | NotJson | Reply json

definition retryable :: "nat \<Rightarrow> bool" where
  "retryable code \<longleftrightarrow> code = 429 \<or> (500 \<le> code \<and> code < 600)"

text \<open>
  The attempts still to make, in order. The result comes with the delays slept, in half seconds:
  \<open>min(30.0, 0.5 * 2 ** attempt)\<close>.
\<close>

fun embed_attempts ::
  "int \<Rightarrow> (nat \<Rightarrow> reply) \<Rightarrow> (json \<Rightarrow> matrix res) \<Rightarrow> nat list \<Rightarrow> nat list \<times> matrix res" where
  "embed_attempts retries server parse [] = ([], Inl (RuntimeError ''embedding request failed''))"
| "embed_attempts retries server parse (attempt # rest) =
     (let again = (case embed_attempts retries server parse rest of (delays, r) \<Rightarrow>
            ((if int attempt < retries then [min 60 (2 ^ attempt)] else []) @ delays, r)) in
      case server attempt of
        Reply payload \<Rightarrow> ([], parse payload)
      | NotJson \<Rightarrow> ([], Inl (ValueError ''json''))
      | HttpError code \<Rightarrow>
          if \<not> retryable code \<or> int attempt = retries then ([], Inl (RuntimeError ''embedding HTTP error'')) else again
      | Unreachable \<Rightarrow>
          if int attempt = retries then ([], Inl (RuntimeError ''embedding request failed'')) else again)"

record client =
  ec_url :: pystr
  ec_model :: pystr
  ec_retries :: int
  ec_server :: "pystr list \<Rightarrow> nat \<Rightarrow> reply"
  ec_as_matrix :: "json list \<Rightarrow> matrix res"

definition embed_traced :: "numerics \<Rightarrow> client \<Rightarrow> pystr list \<Rightarrow> int option \<Rightarrow> nat list \<times> matrix res" where
  "embed_traced np c texts expected_dimension =
     (if texts = [] then ([], Inl (ValueError ''cannot request an empty embedding batch''))
      else embed_attempts (ec_retries c) (ec_server c texts)
             (response_matrix np (ec_as_matrix c) (length texts) expected_dimension)
             [0..<nat (ec_retries c + 1)])"

definition embed :: "numerics \<Rightarrow> client \<Rightarrow> pystr list \<Rightarrow> int option \<Rightarrow> matrix res" where
  "embed np c texts expected_dimension = snd (embed_traced np c texts expected_dimension)"

subsection \<open>Batches\<close>

fun batch_loop :: "int \<Rightarrow> int \<Rightarrow> int \<Rightarrow> 'a list \<Rightarrow> 'a list \<Rightarrow> 'a list list" where
  "batch_loop start batch_size index batch [] = (if batch = [] then [] else [batch])"
| "batch_loop start batch_size index batch (line # lines) =
     (if index < start then batch_loop start batch_size (index + 1) batch lines
      else let batch' = batch @ [line] in
        if int (length batch') = batch_size then batch' # batch_loop start batch_size (index + 1) [] lines
        else batch_loop start batch_size (index + 1) batch' lines)"

definition iter_batches :: "'a list \<Rightarrow> int \<Rightarrow> int \<Rightarrow> 'a list list" where
  "iter_batches lines start batch_size = batch_loop start batch_size 0 [] lines"

lemma batch_loop_chunks:
  assumes "0 \<le> index" and "start \<le> index" and "length batch < Suc k"
  shows "batch_loop start (int (Suc k)) index batch lines = chunks k (batch @ lines)"
  using assms
proof (induction lines arbitrary: index batch)
  case Nil
  then show ?case by (cases "batch = []") (simp_all add: chunks_nonempty)
next
  case (Cons line lines)
  show ?case
  proof (cases "length batch = k")
    case True
    have "batch_loop start (int (Suc k)) index batch (line # lines)
        = (batch @ [line]) # batch_loop start (int (Suc k)) (index + 1) [] lines"
      using Cons.prems True by (simp add: Let_def)
    also have "\<dots> = (batch @ [line]) # chunks k lines" using Cons.IH [of "index + 1" "[]"] Cons.prems by simp
    also have "\<dots> = chunks k (batch @ line # lines)" using True by (subst (2) chunks_nonempty) simp_all
    finally show ?thesis .
  next
    case False
    then show ?thesis using Cons.IH [of "index + 1" "batch @ [line]"] Cons.prems by (simp add: Let_def)
  qed
qed

lemma batch_loop_skip:
  "0 \<le> index \<Longrightarrow> index \<le> int n \<Longrightarrow>
     batch_loop (int n) batch_size index [] lines = batch_loop (int n) batch_size (int n) [] (drop (n - nat index) lines)"
proof (induction lines arbitrary: index)
  case (Cons line lines)
  show ?case
  proof (cases "index < int n")
    case True
    then have "n - nat index = Suc (n - nat (index + 1))" using Cons.prems by linarith
    then show ?thesis using Cons.IH [of "index + 1"] Cons.prems True by simp
  next
    case False
    then show ?thesis using Cons.prems by simp
  qed
qed simp

lemma iter_batches_chunks:
  assumes "0 < batch_size"
  shows "iter_batches lines (int start) batch_size = chunks (nat batch_size - 1) (drop start lines)"
proof -
  have s: "batch_size = int (Suc (nat batch_size - 1))" using assms by simp
  show ?thesis
    unfolding iter_batches_def using batch_loop_skip [of 0 start batch_size lines]
      batch_loop_chunks [of "int start" "int start" "[]" "nat batch_size - 1" "drop start lines"] s by simp
qed

subsection \<open>The pipeline\<close>

datatype 'a event = Submit "pystr list" | Yield "pystr list" "'a res"

text \<open>Sequential: each batch is submitted and its result taken before the next one.\<close>

fun sequential :: "(pystr list \<Rightarrow> 'a res) \<Rightarrow> pystr list list \<Rightarrow> 'a event list" where
  "sequential f [] = []"
| "sequential f (b # bs) =
     Submit b # Yield b (f b) # (case f b of Inl e \<Rightarrow> [] | Inr _ \<Rightarrow> sequential f bs)"

fun drain :: "(pystr list \<Rightarrow> 'a res) \<Rightarrow> pystr list list \<Rightarrow> 'a event list" where
  "drain f [] = []"
| "drain f (p # ps) = Yield p (f p) # (case f p of Inl e \<Rightarrow> [] | Inr _ \<Rightarrow> drain f ps)"

text \<open>The deque \<open>pending\<close> holds the batches submitted and not yet consumed, oldest first.\<close>

fun pipeline :: "(pystr list \<Rightarrow> 'a res) \<Rightarrow> int \<Rightarrow> pystr list list \<Rightarrow> pystr list list \<Rightarrow> 'a event list" where
  "pipeline f concurrency pending [] = drain f pending"
| "pipeline f concurrency pending (b # bs) =
     (let pending' = pending @ [b] in
      Submit b #
      (if concurrency \<le> int (length pending') then
         Yield (hd pending') (f (hd pending')) #
           (case f (hd pending') of Inl e \<Rightarrow> [] | Inr _ \<Rightarrow> pipeline f concurrency (tl pending') bs)
       else pipeline f concurrency pending' bs))"

definition iter_embedded_batches ::
  "(pystr list \<Rightarrow> 'a res) \<Rightarrow> int \<Rightarrow> pystr list list \<Rightarrow> 'a event list" where
  "iter_embedded_batches f concurrency batches =
     (if concurrency \<le> 1 then sequential f batches else pipeline f concurrency [] batches)"

fun yields :: "'a event list \<Rightarrow> (pystr list \<times> 'a res) list" where
  "yields [] = []"
| "yields (Submit b # es) = yields es"
| "yields (Yield b r # es) = (b, r) # yields es"

text \<open>The largest number of requests in flight, from a number in flight before.\<close>

fun in_flight :: "nat \<Rightarrow> 'a event list \<Rightarrow> nat" where
  "in_flight n [] = n"
| "in_flight n (Submit b # es) = max n (in_flight (Suc n) es)"
| "in_flight n (Yield b r # es) = max n (in_flight (n - 1) es)"

subsection \<open>Looking ahead changes nothing\<close>

fun until_error :: "(pystr list \<Rightarrow> 'a res) \<Rightarrow> pystr list list \<Rightarrow> (pystr list \<times> 'a res) list" where
  "until_error f [] = []"
| "until_error f (b # bs) = (b, f b) # (case f b of Inl e \<Rightarrow> [] | Inr _ \<Rightarrow> until_error f bs)"

lemma yields_sequential: "yields (sequential f bs) = until_error f bs"
  by (induction bs) (simp_all split: sum.splits)

lemma yields_drain: "yields (drain f ps) = until_error f ps"
  by (induction ps) (simp_all split: sum.splits)

lemma yields_pipeline: "yields (pipeline f c pending bs) = until_error f (pending @ bs)"
proof (induction bs arbitrary: pending)
  case Nil
  then show ?case by (simp add: yields_drain)
next
  case (Cons b bs)
  obtain p ps where p: "pending @ [b] = p # ps" by (cases "pending @ [b]") simp_all
  have e: "pending @ b # bs = p # ps @ bs" using p by (metis append_Cons append_assoc append_Nil)
  show ?case
    unfolding e using Cons.IH [of ps] Cons.IH [of "p # ps"] by (simp add: Let_def p split: sum.splits)
qed

lemma in_flight_drain: "in_flight n (drain f ps) \<le> n"
  by (induction ps arbitrary: n) (auto split: sum.splits intro: order.trans [OF _ diff_le_self])

lemma in_flight_pipeline:
  assumes "int (length pending) < c"
  shows "int (in_flight (length pending) (pipeline f c pending bs)) \<le> c"
  using assms
proof (induction bs arbitrary: pending)
  case Nil
  then show ?case using in_flight_drain [of "length pending" f pending] by simp
next
  case (Cons b bs)
  show ?case
  proof (cases "c \<le> int (length (pending @ [b]))")
    case True
    obtain p ps where p: "pending @ [b] = p # ps" by (cases "pending @ [b]") simp_all
    have l: "length ps = length pending" using arg_cong [OF p, of length] by simp
    then have "int (in_flight (length pending) (pipeline f c ps bs)) \<le> c"
      using Cons.IH [of ps] Cons.prems by simp
    moreover have "int (Suc (length pending)) \<le> c" using Cons.prems by simp
    ultimately show ?thesis using True Cons.prems p by (auto simp: Let_def max_def split: sum.splits)
  next
    case False
    then have "int (in_flight (Suc (length pending)) (pipeline f c (pending @ [b]) bs)) \<le> c"
      using Cons.IH [of "pending @ [b]"] by simp
    then show ?thesis using False Cons.prems by (simp add: Let_def)
  qed
qed

text \<open>
  C14. The look-ahead pipeline delivers what the sequential loop delivers: for every
  \<open>concurrency\<close>, the same (batch, result) pairs in the same order up to and including the first
  failure, and never more than \<open>max(1, concurrency)\<close> requests in flight.
\<close>

theorem pipeline_is_sequential:
  "yields (iter_embedded_batches f concurrency batches) = yields (sequential f batches)
   \<and> int (in_flight 0 (iter_embedded_batches f concurrency batches)) \<le> max 1 concurrency"
proof -
  have s: "in_flight 0 (sequential f bs) \<le> 1" for bs
    by (induction bs) (auto split: sum.splits)
  have "int (in_flight 0 (pipeline f concurrency [] batches)) \<le> concurrency" if "1 < concurrency"
    using that in_flight_pipeline [of "[]" concurrency f batches] by simp
  then show ?thesis
    using s [of batches] by (simp add: iter_embedded_batches_def yields_sequential yields_pipeline)
qed

subsection \<open>Rows come back in the order of the texts\<close>

lemma index_item_ok:
  "index_item n by_index item = Inr r \<longleftrightarrow>
     (\<exists>m i. item = JObj m \<and> int_value (jget m ''index'') = Some i \<and> i \<notin> fst ` set by_index
        \<and> 0 \<le> i \<and> i < int n \<and> r = by_index @ [(i, jget m ''embedding'')])"
  by (auto simp: index_item_def split: json.splits option.splits)

text \<open>The (index, embedding) pair of an item.\<close>

definition item_pair :: "json \<Rightarrow> (int \<times> json) option" where
  "item_pair item = (case item of JObj m \<Rightarrow> map_option (\<lambda>i. (i, jget m ''embedding'')) (int_value (jget m ''index''))
     | _ \<Rightarrow> None)"

lemma index_items_ok:
  "fold_res (index_item n) acc data = Inr r \<longleftrightarrow>
     (\<exists>ps. map item_pair data = map Some ps \<and> r = acc @ ps
        \<and> (\<forall>(i, e) \<in> set ps. 0 \<le> i \<and> i < int n) \<and> distinct (map fst ps) \<and> fst ` set acc \<inter> fst ` set ps = {})"
proof (induction data arbitrary: acc)
  case (Cons item data)
  show ?case
  proof (cases "item_pair item")
    case None
    then have "index_item n acc item \<noteq> Inr x" for x
      by (auto simp: index_item_ok item_pair_def)
    then show ?thesis using None by (auto simp: ok_simps)
  next
    case (Some p)
    then have step: "index_item n acc item = Inr x \<longleftrightarrow> fst p \<notin> fst ` set acc \<and> 0 \<le> fst p \<and> fst p < int n \<and> x = acc @ [p]" for x
    proof -
      obtain m i where m: "item = JObj m" "int_value (jget m ''index'') = Some i" "p = (i, jget m ''embedding'')"
        using Some by (auto simp: item_pair_def split: json.splits)
      then show ?thesis by (simp add: index_item_ok)
    qed
    have "fold_res (index_item n) acc (item # data) = Inr r \<longleftrightarrow>
        fst p \<notin> fst ` set acc \<and> 0 \<le> fst p \<and> fst p < int n \<and> fold_res (index_item n) (acc @ [p]) data = Inr r"
      by (auto simp: ok_simps step)
    then show ?thesis unfolding Cons.IH using Some by (cases p) (auto simp: Cons_eq_map_conv)
  qed
qed auto

definition response_data :: "json \<Rightarrow> json" where
  "response_data payload = (case payload of JObj m \<Rightarrow> jget m ''data'' | _ \<Rightarrow> JNull)"

lemma response_matrix_ok:
  "response_matrix np am n width0 payload = Inr r \<longleftrightarrow>
     (\<exists>data ps vals. response_data payload = JArr data \<and> length data = n \<and> map item_pair data = map Some ps
        \<and> fst ` set ps = int ` {..<n} \<and> distinct (map fst ps)
        \<and> am (map (\<lambda>i. the (map_of ps (int i))) [0..<n]) = Inr (fst r, vals)
        \<and> normalize_vectors np (fst r) vals = Inr (snd r) \<and> (width0 = None \<or> width0 = Some (int (fst r))))"
proof -
  have full: "(\<forall>(i, e) \<in> set ps. 0 \<le> i \<and> i < int n) \<and> list_all (\<lambda>i. int i \<in> fst ` set ps) [0..<n]
      \<longleftrightarrow> fst ` set ps = int ` {..<n}" for ps :: "(int \<times> json) list"
  proof
    assume l: "(\<forall>(i, e) \<in> set ps. 0 \<le> i \<and> i < int n) \<and> list_all (\<lambda>i. int i \<in> fst ` set ps) [0..<n]"
    then have "x \<in> int ` {..<n}" if "x \<in> fst ` set ps" for x
      using that by (auto intro!: image_eqI [of _ _ "nat x"])
    with l show "fst ` set ps = int ` {..<n}" by (auto simp: list_all_iff)
  next
    assume r: "fst ` set ps = int ` {..<n}"
    have "0 \<le> i \<and> i < int n" if "(i, e) \<in> set ps" for i e
      using r that by (metis (no_types, lifting) fst_conv imageE imageI lessThan_iff of_nat_0_le_iff of_nat_less_iff)
    then show "(\<forall>(i, e) \<in> set ps. 0 \<le> i \<and> i < int n) \<and> list_all (\<lambda>i. int i \<in> fst ` set ps) [0..<n]"
      using r by (auto simp: list_all_iff)
  qed
  obtain w rows where r: "r = (w, rows)" by (cases r)
  have "response_matrix np am n width0 payload = Inr r \<longleftrightarrow>
     (\<exists>data ps vals. response_data payload = JArr data \<and> length data = n \<and> map item_pair data = map Some ps
        \<and> (\<forall>(i, e) \<in> set ps. 0 \<le> i \<and> i < int n) \<and> distinct (map fst ps) \<and> list_all (\<lambda>i. int i \<in> fst ` set ps) [0..<n]
        \<and> am (map (\<lambda>i. the (map_of ps (int i))) [0..<n]) = Inr (w, vals)
        \<and> normalize_vectors np w vals = Inr rows \<and> (width0 = None \<or> width0 = Some (int w)))"
    unfolding response_matrix_def response_data_def r
    by (auto simp: ok_simps index_items_ok split: json.splits)
  then show ?thesis unfolding r fst_conv snd_conv by (metis (no_types, lifting) full)
qed

text \<open>
  C17. Rows come back in the order of the texts: an accepted response has one item for each text,
  row \<open>i\<close> is the embedding of the item with index \<open>i\<close>, and any response with the same
  items in another order gives the same matrix.
\<close>

theorem embedding_rows_in_order:
  assumes "response_matrix np as_matrix n width0 payload = Inr (width, rows)"
  shows "\<exists>data es vals. response_data payload = JArr data \<and> length data = n \<and> length es = n
      \<and> (\<forall>i < n. \<exists>item \<in> set data. item_pair item = Some (int i, es ! i))
      \<and> as_matrix es = Inr (width, vals) \<and> normalize_vectors np width vals = Inr rows
      \<and> (width0 = None \<or> width0 = Some (int width))
      \<and> (\<forall>other data'. response_data other = JArr data' \<longrightarrow> mset data' = mset data \<longrightarrow>
           response_matrix np as_matrix n width0 other = Inr (width, rows))"
proof -
  obtain data ps vals where d: "response_data payload = JArr data" "length data = n"
    "map item_pair data = map Some ps" "fst ` set ps = int ` {..<n}" "distinct (map fst ps)"
    and m: "as_matrix (map (\<lambda>i. the (map_of ps (int i))) [0..<n]) = Inr (width, vals)"
    "normalize_vectors np width vals = Inr rows" "width0 = None \<or> width0 = Some (int width)"
    using assms unfolding response_matrix_ok by auto
  let ?es = "map (\<lambda>i. the (map_of ps (int i))) [0..<n]"
  have at: "\<exists>item \<in> set data. item_pair item = Some (int i, ?es ! i)" if "i < n" for i
  proof -
    have "int i \<in> fst ` set ps" using that d(4) by simp
    then obtain e where e: "(int i, e) \<in> set ps" by force
    then have "Some (int i, e) \<in> set (map item_pair data)" unfolding d(3) by force
    moreover have "map_of ps (int i) = Some e" using e d(5) by simp
    ultimately show ?thesis using that by auto
  qed
  have same: "response_matrix np as_matrix n width0 other = Inr (width, rows)"
    if o: "response_data other = JArr data'" "mset data' = mset data" for other data'
  proof -
    have ms: "mset (map item_pair data') = mset (map item_pair data)" using o(2) by simp
    then have "None \<notin> set (map item_pair data')" unfolding d(3) using mset_eq_setD by fastforce
    then have "\<forall>x \<in> set data'. \<exists>p. item_pair x = Some p" by (metis image_eqI list.set_map not_Some_eq)
    then obtain f where "\<forall>x \<in> set data'. item_pair x = Some (f x)" by metis
    then have ps': "map item_pair data' = map Some (map f data')" by simp
    have "mset (map Some (map f data')) = mset (map Some ps)" using ms unfolding ps' d(3) .
    then have "image_mset Some (mset (map f data')) = image_mset Some (mset ps)" by (simp only: mset_map)
    moreover have "inj_on Some (set (map f data') \<union> set ps)" by simp
    ultimately have "mset (map f data') = mset ps"
      by (metis (no_types, opaque_lifting) multiset.inj_map_strong option.inject)
    then have s: "set (map f data') = set ps" "distinct (map fst (map f data'))"
      using mset_eq_setD d(5) by (blast, metis mset_eq_imp_distinct_iff mset_map)
    then have "map_of (map f data') = map_of ps" using d(5) by (subst map_of_inject_set) auto
    then show ?thesis
      unfolding response_matrix_ok using o d m s mset_eq_length [OF o(2)] ps'
      by (intro exI [of _ data'] exI [of _ "map f data'"] exI [of _ vals]) simp
  qed
  show ?thesis
    using d(1,2) m at same by (intro exI [of _ data] exI [of _ ?es] exI [of _ vals]) simp
qed


text \<open>A two-row response, listed backwards, and a server that fails once.\<close>

definition sample_item :: "int \<Rightarrow> int \<Rightarrow> json" where
  "sample_item i v = JObj (jobj [(''index'', JInt i), (''embedding'', JArr [JInt v])])"

definition sample_response :: "json list \<Rightarrow> json" where
  "sample_response items = JObj (jobj [(''data'', JArr items)])"

definition sample_matrix :: "json list \<Rightarrow> matrix res" where
  "sample_matrix es = Inr (1, map (\<lambda>e. case e of JArr [JInt v] \<Rightarrow> [0, 0, 0, of_int v] | _ \<Rightarrow> [0, 0, 0, 0]) es)"

lemma sample_response_rows:
  "response_matrix unit_numerics sample_matrix 2 None (sample_response [sample_item 1 5, sample_item 0 7])
    = Inr (1, [[0, 0, 0, 7], [0, 0, 0, 5]])"
proof -
  have n: "[0..<2] = [0, 1 :: nat]" by (simp add: numeral_2_eq_2)
  have i: "index_item 2 [] (sample_item 1 5) = Inr [(1, JArr [JInt 5])]"
    "index_item 2 [(1, JArr [JInt 5])] (sample_item 0 7) = Inr [(1, JArr [JInt 5]), (0, JArr [JInt 7])]"
    by (simp_all add: index_item_def sample_item_def int_value_def)
  have "normalize_vectors unit_numerics 1 [[0, 0, 0, 7], [0, 0, 0, 5]] = Inr [[0, 0, 0, 7], [0, 0, 0, 5]]"
  proof -
    have "validate_vector_matrix unit_numerics True 8192 (fl_lit 2 3) 1 [[0, 0, 0, 7], [0, 0, 0, 5]] = Inr ()"
      by (simp add: validate_vector_matrix_ok)
    moreover have "\<not> fl_le (Fin 1) float32_tiny"
      by (simp add: float32_tiny_def fl_le_def pow2_def)
    ultimately show ?thesis by (simp add: normalize_vectors_def unit_numerics_def)
  qed
  then show ?thesis
    unfolding response_matrix_def by (simp add: sample_response_def i n sample_matrix_def)
qed

theorem embedding_rows_in_order_witness:
  "response_matrix unit_numerics sample_matrix 2 None (sample_response [sample_item 0 7, sample_item 1 5])
    = Inr (1, [[0, 0, 0, 7], [0, 0, 0, 5]])"
proof -
  obtain data es vals where d: "response_data (sample_response [sample_item 1 5, sample_item 0 7]) = JArr data"
    and other: "\<forall>other data'. response_data other = JArr data' \<longrightarrow> mset data' = mset data \<longrightarrow>
        response_matrix unit_numerics sample_matrix 2 None other = Inr (1, [[0, 0, 0, 7], [0, 0, 0, 5]])"
    using embedding_rows_in_order [OF sample_response_rows] by blast
  have "data = [sample_item 1 5, sample_item 0 7]" using d by (simp add: response_data_def sample_response_def)
  moreover have "response_data (sample_response [sample_item 0 7, sample_item 1 5]) = JArr [sample_item 0 7, sample_item 1 5]"
    by (simp add: response_data_def sample_response_def)
  ultimately show ?thesis using other by (simp add: add_mset_commute)
qed

definition sample_client :: client where
  "sample_client = \<lparr>ec_url = [], ec_model = [], ec_retries = 4,
     ec_server = (\<lambda>texts j. if j = 0 then HttpError 503
       else Reply (sample_response [sample_item 1 5, sample_item 0 7])), ec_as_matrix = sample_matrix\<rparr>"


end
