(* ===== verification/CacheGen.thy ===== *)
theory CacheGen
  imports Embedding Restart
begin

text \<open>
  \<open>generate_cache\<close> of \<open>run_large_scale_benchmark.py\<close>: the resumable generator of a vector cache,
  with \<open>_validate_existing_cache\<close> and \<open>_payload_sha\<close>. Writes are steps of the \<open>world\<close>, the clock is
  read at a step count, the client is the one of theory Embedding. The function is cut at its
  stages: inputs, a cache that is there already, resume, the seed from a prefix cache, the batch
  loop, publication.
\<close>

subsection \<open>Inputs\<close>

record cache_job =
  cj_source :: pystr
  cj_cache :: pystr
  cj_fingerprint :: pystr
  cj_model :: jobj
  cj_role :: pystr
  cj_batch_size :: int
  cj_dimension :: "int option"
  cj_bindings :: json
  cj_prefix :: "pystr option"
  cj_concurrency :: int

record cache_ctx =
  cc_source :: source_id
  cc_stable :: jobj
  cc_hash :: pystr
  cc_model_sha :: json

definition json_option :: "('a \<Rightarrow> json) \<Rightarrow> 'a option \<Rightarrow> json" where
  "json_option f v = (case v of None \<Rightarrow> JNull | Some x \<Rightarrow> f x)"

definition cache_stable :: "fsys \<Rightarrow> cache_job \<Rightarrow> client \<Rightarrow> source_id \<Rightarrow> json \<Rightarrow> jobj" where
  "cache_stable d job c source prefix_sha = jobj
     [(''schema'', JStr (u ''leann-cache-generation-checkpoint-v1'')),
      (''source'', source_json source),
      (''cache_path'', JStr (fs_resolve d (cj_cache job))),
      (''fingerprint'', JStr (cj_fingerprint job)),
      (''model'', JObj (cj_model job)),
      (''role'', JStr (cj_role job)),
      (''bindings'', cj_bindings job),
      (''embedding_endpoint'', JStr (ec_url c)),
      (''batch_size'', JInt (cj_batch_size job)),
      (''requested_dimension'', json_option JInt (cj_dimension job)),
      (''prefix_cache_sha256'', prefix_sha)]"

definition cache_inputs :: "host \<Rightarrow> fsys \<Rightarrow> cache_job \<Rightarrow> client \<Rightarrow> cache_ctx res" where
  "cache_inputs h d job c =
     (case source_identity h d (cj_source job) of Inl e \<Rightarrow> Inl e | Inr source \<Rightarrow>
      if si_lines source \<le> 0 then Inl (ValueError ''no non-empty input lines'')
      else case (case cj_prefix job of None \<Rightarrow> Inr JNull | Some p \<Rightarrow>
                 (case sha256_file h d p 0 None of Inl e \<Rightarrow> Inl e | Inr s \<Rightarrow> Inr (JStr s))) of
        Inl e \<Rightarrow> Inl e | Inr prefix_sha \<Rightarrow>
      let stable = cache_stable d job c source prefix_sha in
      case jidx (cj_model job) ''sha256'' of Inl e \<Rightarrow> Inl e | Inr model_sha \<Rightarrow>
      Inr \<lparr>cc_source = source, cc_stable = stable, cc_hash = canonical_hash h (JObj stable),
           cc_model_sha = model_sha\<rparr>)"

text \<open>The dict that \<open>read_cache\<close> returns.\<close>

definition cache_meta_json :: "cache_meta \<Rightarrow> jobj" where
  "cache_meta_json m = jobj
     ([(''schema'', JStr (u ''LEANNBC'' @ dec_nat (cm_version m))), (''version'', JInt (int (cm_version m))),
       (''path'', JStr (cm_path m)), (''count'', JInt (int (cm_count m))),
       (''dimensions'', JInt (int (cm_dimensions m))), (''fingerprint'', JStr (cm_fingerprint m)),
       (''fingerprint_sha256'', JStr (cm_fingerprint_sha m)), (''vector_offset'', JInt (int (cm_vector_offset m))),
       (''vector_bytes'', JInt (int (cm_vector_bytes m))), (''size_bytes'', JInt (int (cm_size m)))]
      @ (case cm_source m of None \<Rightarrow> []
         | Some (n, s) \<Rightarrow> [(''source_size_bytes'', JInt (int n)), (''source_sha256'', JStr s)]))"

definition cache_meta_schema :: pystr where
  "cache_meta_schema = u ''leann-shared-embedding-cache-v1''"

subsection \<open>A cache that is there already\<close>

definition sidecar_matches :: "cache_job \<Rightarrow> cache_ctx \<Rightarrow> json \<Rightarrow> unit res" where
  "sidecar_matches job ctx declared =
     (case json_get declared ''schema'' of Inl e \<Rightarrow> Inl e | Inr schema \<Rightarrow>
      if \<not> py_eq schema (JStr cache_meta_schema) then Inl (ValueError ''unknown cache sidecar schema'')
      else case json_get declared ''role'' of Inl e \<Rightarrow> Inl e | Inr role \<Rightarrow>
      if \<not> py_eq role (JStr (cj_role job)) then Inl (ValueError ''cache role mismatch'')
      else case json_get2 declared ''model'' ''sha256'' of Inl e \<Rightarrow> Inl e | Inr model_sha \<Rightarrow>
      if \<not> py_eq model_sha (cc_model_sha ctx) then Inl (ValueError ''model identity sidecar mismatch'')
      else case json_get declared ''bindings'' of Inl e \<Rightarrow> Inl e | Inr bindings \<Rightarrow>
      if \<not> py_eq bindings (cj_bindings job) then Inl (ValueError ''cache bindings mismatch'')
      else Inr ())"

definition sidecar_digests :: "pystr \<Rightarrow> cache_meta \<Rightarrow> json \<Rightarrow> unit res" where
  "sidecar_digests actual meta declared =
     (case json_get2 declared ''cache'' ''sha256'' of Inl e \<Rightarrow> Inl e | Inr recorded \<Rightarrow>
      if \<not> py_eq recorded (JStr actual) then Inl (ValueError ''cache sidecar SHA-256 mismatch'')
      else case json_get2 declared ''source'' ''sha256'' of Inl e \<Rightarrow> Inl e | Inr source_sha \<Rightarrow>
      (case cm_source meta of None \<Rightarrow> Inl (KeyError ''source_sha256'') | Some (_, s) \<Rightarrow>
       if \<not> py_eq source_sha (JStr s) then Inl (ValueError ''cache sidecar source mismatch'')
       else Inr ()))"

definition cache_declared ::
  "host \<Rightarrow> cache_job \<Rightarrow> cache_ctx \<Rightarrow> cache_meta \<Rightarrow> fsys \<Rightarrow> json res" where
  "cache_declared h job ctx meta d =
     (case load_json h d (sidecar_path (cj_cache job)) of Inl e \<Rightarrow> Inl e | Inr declared \<Rightarrow>
      case sidecar_matches job ctx declared of Inl e \<Rightarrow> Inl e | Inr _ \<Rightarrow>
      case sha256_file h d (cj_cache job) 0 None of Inl e \<Rightarrow> Inl e | Inr actual \<Rightarrow>
      case sidecar_digests actual meta declared of Inl e \<Rightarrow> Inl e | Inr _ \<Rightarrow> Inr declared)"

definition cache_ready :: "host \<Rightarrow> cache_job \<Rightarrow> cache_ctx \<Rightarrow> fsys \<Rightarrow> pystr res" where
  "cache_ready h job ctx d =
     (let state_path = checkpoint_path (cj_cache job) in
      if \<not> path_exists d state_path then Inl (ValueError ''complete cache has no provenance sidecar'')
      else case load_json h d state_path of Inl e \<Rightarrow> Inl e | Inr state \<Rightarrow>
      case json_get state ''status'' of Inl e \<Rightarrow> Inl e | Inr status \<Rightarrow>
      if \<not> py_eq status (JStr (u ''ready-to-publish'')) then Inl (ValueError ''incomplete cache provenance checkpoint'')
      else case json_get state ''input_hash'' of Inl e \<Rightarrow> Inl e | Inr hash \<Rightarrow>
      if \<not> py_eq hash (JStr (cc_hash ctx)) then Inl (ValueError ''publication checkpoint input mismatch'')
      else case json_get state ''cache_sha256'' of Inl e \<Rightarrow> Inl e | Inr recorded \<Rightarrow>
      case sha256_file h d (cj_cache job) 0 None of Inl e \<Rightarrow> Inl e | Inr sha \<Rightarrow>
      if \<not> py_eq recorded (JStr sha) then Inl (ValueError ''publication checkpoint checksum mismatch'')
      else Inr sha)"

text \<open>The caller's \<open>expected_input_hash\<close> is \<open>cc_hash ctx\<close>; the source is hashed again here.\<close>

definition validate_existing_cache ::
  "host \<Rightarrow> numerics \<Rightarrow> (nat \<Rightarrow> pystr) \<Rightarrow> cache_job \<Rightarrow> cache_ctx \<Rightarrow> world \<Rightarrow> world \<times> json res" where
  "validate_existing_cache h np clock job ctx w =
     (let d = fs w; meta_path = sidecar_path (cj_cache job) in
      case read_cache_default h np d (cj_cache job) of Inl e \<Rightarrow> (w, Inl e) | Inr (_, meta) \<Rightarrow>
      case validate_cache_source h d meta (cj_source job) None True of Inl e \<Rightarrow> (w, Inl e) | Inr source \<Rightarrow>
      if cm_fingerprint meta \<noteq> cj_fingerprint job then (w, Inl (ValueError ''native fingerprint mismatch''))
      else if path_exists d meta_path then (w, cache_declared h job ctx meta d)
      else case cache_ready h job ctx d of Inl e \<Rightarrow> (w, Inl e) | Inr sha \<Rightarrow>
      let declared = JObj (jobj
            [(''schema'', JStr cache_meta_schema), (''created_at'', JStr (clock (length (past w)))),
             (''role'', JStr (cj_role job)),
             (''cache'', JObj (cache_meta_json meta @ jobj [(''sha256'', JStr sha)])),
             (''source'', source_json source), (''model'', JObj (cj_model job)), (''bindings'', cj_bindings job),
             (''note'', JStr (u ''Sidecar recovered from a verified ready-to-publish checkpoint.''))]);
          w1 = atomic_write_json h w meta_path declared
      in (unlink_file w1 (checkpoint_path (cj_cache job)), Inr declared))"

subsection \<open>Progress\<close>

text \<open>The variables of the function that the loop updates; \<open>cs_payload\<close> is what the digest was fed.\<close>

record cache_state =
  cs_dimension :: "int option"
  cs_completed :: int
  cs_header :: "int option"
  cs_payload :: bytes
  cs_seed :: json
  cs_started :: pystr

definition payload_sha :: "host \<Rightarrow> fsys \<Rightarrow> pystr \<Rightarrow> int \<Rightarrow> int \<Rightarrow> int \<Rightarrow> pystr res" where
  "payload_sha h d p header_size rows dimension =
     (case open_rb d p of Inl e \<Rightarrow> Inl e | Inr _ \<Rightarrow>
      if header_size < 0 then Inl (ValueError ''negative seek value'')
      else sha256_prefix h d p (nat header_size) (rows * dimension * 4))"

definition int_item :: "json \<Rightarrow> string \<Rightarrow> int res" where
  "int_item v k = (case json_item v k of Inl e \<Rightarrow> Inl e | Inr x \<Rightarrow> int_of_json x)"

definition cache_progress :: "cache_ctx \<Rightarrow> json \<Rightarrow> (pystr \<times> int \<times> int \<times> int \<times> json) res" where
  "cache_progress ctx state =
     (case json_get state ''input_hash'' of Inl e \<Rightarrow> Inl e | Inr hash \<Rightarrow>
      if \<not> py_eq hash (JStr (cc_hash ctx)) then Inl (RuntimeError ''cache checkpoint belongs to different inputs'')
      else case checkpoint_created_at state of Inl e \<Rightarrow> Inl e | Inr started \<Rightarrow>
      case int_item state ''dimension'' of Inl e \<Rightarrow> Inl e | Inr dimension \<Rightarrow>
      case int_item state ''completed_rows'' of Inl e \<Rightarrow> Inl e | Inr completed \<Rightarrow>
      case int_item state ''header_size'' of Inl e \<Rightarrow> Inl e | Inr header_size \<Rightarrow>
      case json_get state ''prefix_seed'' of Inl e \<Rightarrow> Inl e | Inr seed \<Rightarrow>
      Inr (started, dimension, completed, header_size, seed))"

text \<open>Everything a checkpoint must agree on with the partial file, before the file is cut.\<close>

definition cache_committed ::
  "host \<Rightarrow> cache_job \<Rightarrow> cache_ctx \<Rightarrow> fsys \<Rightarrow> (json \<times> pystr \<times> int \<times> int \<times> int \<times> json) res" where
  "cache_committed h job ctx d =
     (let partial = partial_path (cj_cache job); checkpoint = checkpoint_path (cj_cache job) in
      if \<not> path_exists d checkpoint \<or> \<not> path_exists d partial
        then Inl (RuntimeError ''cache checkpoint and partial file must exist together'')
      else case load_json h d checkpoint of Inl e \<Rightarrow> Inl e | Inr state \<Rightarrow>
      case cache_progress ctx state of Inl e \<Rightarrow> Inl e | Inr progress \<Rightarrow> Inr (state, progress))"

definition cache_intact ::
  "host \<Rightarrow> cache_job \<Rightarrow> fsys \<Rightarrow> json \<Rightarrow> int \<Rightarrow> int \<Rightarrow> int \<Rightarrow> bytes \<Rightarrow> unit res" where
  "cache_intact h job d state dimension completed header_size content =
     (if int (length content) < header_size + completed * dimension * 4
        then Inl (RuntimeError ''partial cache is shorter than its checkpoint'')
      else case payload_sha h d (partial_path (cj_cache job)) header_size completed dimension of
        Inl e \<Rightarrow> Inl e | Inr sha \<Rightarrow>
      case json_item state ''payload_sha256'' of Inl e \<Rightarrow> Inl e | Inr recorded \<Rightarrow>
      if \<not> py_eq (JStr sha) recorded then Inl (RuntimeError ''partial cache payload checksum mismatch'')
      else Inr ())"

definition cache_resume ::
  "host \<Rightarrow> cache_job \<Rightarrow> cache_ctx \<Rightarrow> world \<Rightarrow> world \<times> cache_state res" where
  "cache_resume h job ctx w =
     (let partial = partial_path (cj_cache job) in
      case cache_committed h job ctx (fs w) of Inl e \<Rightarrow> (w, Inl e)
      | Inr (state, started, dimension, completed, header_size, seed) \<Rightarrow>
      case open_rb (fs w) partial of Inl e \<Rightarrow> (w, Inl e) | Inr content \<Rightarrow>
      case cache_intact h job (fs w) state dimension completed header_size content of Inl e \<Rightarrow> (w, Inl e) | Inr _ \<Rightarrow>
      let expected_prefix = header_size + completed * dimension * 4;
          w1 = (if expected_prefix < int (length content)
                then truncate_file w partial (nat expected_prefix) else w) in
      case open_rb (fs w1) partial of Inl e \<Rightarrow> (w1, Inl e) | Inr kept \<Rightarrow>
      (w1, Inr \<lparr>cs_dimension = Some dimension, cs_completed = completed, cs_header = Some header_size,
                cs_payload = drop (nat header_size) kept, cs_seed = seed, cs_started = started\<rparr>))"

definition cache_checkpoint ::
  "cache_ctx \<Rightarrow> host \<Rightarrow> cache_state \<Rightarrow> string \<Rightarrow> (string \<times> json) list \<Rightarrow> pystr \<Rightarrow> json" where
  "cache_checkpoint ctx h st status extra now = JObj (cc_stable ctx @ jobj
     ([(''input_hash'', JStr (cc_hash ctx)), (''created_at'', JStr (cs_started st)), (''status'', JStr (u status)),
       (''dimension'', json_option JInt (cs_dimension st)), (''header_size'', json_option JInt (cs_header st)),
       (''completed_rows'', JInt (cs_completed st)), (''payload_sha256'', JStr (sha_hex h (cs_payload st))),
       (''prefix_seed'', cs_seed st)] @ extra @ [(''updated_at'', JStr now)]))"

definition cache_header :: "cache_job \<Rightarrow> cache_ctx \<Rightarrow> int \<Rightarrow> bytes res" where
  "cache_header job ctx dimension =
     cache_v2_header dimension (int (si_lines (cc_source ctx))) (cj_fingerprint job)
       (int (si_size (cc_source ctx))) (si_sha (cc_source ctx))"

text \<open>The partial file is created with its header, then the checkpoint says so.\<close>

definition cache_create ::
  "host \<Rightarrow> (nat \<Rightarrow> pystr) \<Rightarrow> cache_job \<Rightarrow> cache_ctx \<Rightarrow> world \<Rightarrow> cache_state \<Rightarrow> int \<Rightarrow> world \<times> cache_state res" where
  "cache_create h clock job ctx w st dimension =
     (case cache_header job ctx dimension of Inl e \<Rightarrow> (w, Inl e) | Inr header \<Rightarrow>
      case create_file w (partial_path (cj_cache job)) header of (w1, Inl e) \<Rightarrow> (w1, Inl e) | (w1, Inr _) \<Rightarrow>
      let st1 = st\<lparr>cs_dimension := Some dimension, cs_header := Some (int (length header))\<rparr> in
      (atomic_write_json h w1 (checkpoint_path (cj_cache job))
         (cache_checkpoint ctx h (st1\<lparr>cs_completed := 0\<rparr>) ''running'' [] (clock (length (past w1)))), Inr st1))"

subsection \<open>The seed from a prefix cache\<close>

definition prefix_fits :: "cache_job \<Rightarrow> cache_ctx \<Rightarrow> int option \<Rightarrow> cache_meta \<Rightarrow> unit res" where
  "prefix_fits job ctx dimension m =
     (if cm_version m \<noteq> 2 then Inl (ValueError ''--prefix-cache must use LEANNBC2'')
      else if si_lines (cc_source ctx) \<le> cm_count m
        then Inl (ValueError ''--prefix-cache must be smaller than the target corpus'')
      else if cm_fingerprint m \<noteq> cj_fingerprint job then Inl (ValueError ''--prefix-cache fingerprint mismatch'')
      else if dimension \<noteq> None \<and> dimension \<noteq> Some (int (cm_dimensions m))
        then Inl (ValueError ''--prefix-cache dimension mismatch'')
      else Inr ())"

definition prefix_provenance :: "host \<Rightarrow> fsys \<Rightarrow> cache_ctx \<Rightarrow> pystr \<Rightarrow> bool res" where
  "prefix_provenance h d ctx p =
     (case load_json h d (sidecar_path p) of Inl e \<Rightarrow> Inl e | Inr declared \<Rightarrow>
      case json_get declared ''schema'' of Inl e \<Rightarrow> Inl e | Inr schema \<Rightarrow>
      if \<not> py_eq schema (JStr cache_meta_schema) then Inr False
      else case json_get declared ''role'' of Inl e \<Rightarrow> Inl e | Inr role \<Rightarrow>
      if \<not> py_eq role (JStr (u ''corpus'')) then Inr False
      else case json_get2 declared ''model'' ''sha256'' of Inl e \<Rightarrow> Inl e | Inr model_sha \<Rightarrow>
      if \<not> py_eq model_sha (cc_model_sha ctx) then Inr False
      else case json_get2 declared ''cache'' ''sha256'' of Inl e \<Rightarrow> Inl e | Inr recorded \<Rightarrow>
      case sha256_file h d p 0 None of Inl e \<Rightarrow> Inl e | Inr sha \<Rightarrow> Inr (py_eq recorded (JStr sha)))"

text \<open>The source of the prefix cache: its size and digest, which the target source must begin with.\<close>

definition prefix_source :: "host \<Rightarrow> fsys \<Rightarrow> cache_job \<Rightarrow> cache_ctx \<Rightarrow> cache_meta \<Rightarrow> (nat \<times> pystr) res" where
  "prefix_source h d job ctx m =
     (case cm_source m of None \<Rightarrow> Inl (KeyError ''source_size_bytes'') | Some (prefix_size, prefix_sha) \<Rightarrow>
      if si_size (cc_source ctx) \<le> prefix_size
        then Inl (ValueError ''--prefix-cache source bytes are not an exact prefix of target source'')
      else case sha256_file h d (cj_source job) 0 (Some prefix_size) of Inl e \<Rightarrow> Inl e | Inr sha \<Rightarrow>
      if sha \<noteq> prefix_sha
        then Inl (ValueError ''--prefix-cache source bytes are not an exact prefix of target source'')
      else Inr (prefix_size, prefix_sha))"

definition prefix_checked ::
  "host \<Rightarrow> numerics \<Rightarrow> fsys \<Rightarrow> cache_job \<Rightarrow> cache_ctx \<Rightarrow> int option \<Rightarrow> pystr \<Rightarrow> (cache_meta \<times> nat \<times> pystr) res" where
  "prefix_checked h np d job ctx dimension p =
     (case read_cache_default h np d p of Inl e \<Rightarrow> Inl e | Inr (_, m) \<Rightarrow>
      case prefix_fits job ctx dimension m of Inl e \<Rightarrow> Inl e | Inr _ \<Rightarrow>
      case prefix_provenance h d ctx p of Inl e \<Rightarrow> Inl e | Inr ok \<Rightarrow>
      if \<not> ok then Inl (ValueError ''--prefix-cache provenance mismatch'')
      else case prefix_source h d job ctx m of Inl e \<Rightarrow> Inl e | Inr (n, sha) \<Rightarrow> Inr (m, n, sha))"

definition prefix_seed_json :: "fsys \<Rightarrow> pystr \<Rightarrow> pystr \<Rightarrow> cache_meta \<Rightarrow> nat \<Rightarrow> pystr \<Rightarrow> json" where
  "prefix_seed_json d p sha m prefix_size prefix_sha = JObj (jobj
     [(''cache'', JStr (fs_resolve d p)), (''cache_sha256'', JStr sha), (''rows'', JInt (int (cm_count m))),
      (''source_prefix_size_bytes'', JInt (int prefix_size)), (''source_prefix_sha256'', JStr prefix_sha),
      (''vectors_copied_bitwise'', JBool True)])"

definition cache_seed ::
  "host \<Rightarrow> numerics \<Rightarrow> (nat \<Rightarrow> pystr) \<Rightarrow> cache_job \<Rightarrow> cache_ctx \<Rightarrow> world \<Rightarrow> cache_state \<Rightarrow> pystr
     \<Rightarrow> world \<times> cache_state res" where
  "cache_seed h np clock job ctx w st p =
     (case prefix_checked h np (fs w) job ctx (cs_dimension st) p of Inl e \<Rightarrow> (w, Inl e)
      | Inr (m, prefix_size, prefix_sha) \<Rightarrow>
      case cache_header job ctx (int (cm_dimensions m)) of Inl e \<Rightarrow> (w, Inl e) | Inr header \<Rightarrow>
      case open_rb (fs w) p of Inl e \<Rightarrow> (w, Inl e) | Inr content \<Rightarrow>
      let payload = take (cm_vector_bytes m) (drop (cm_vector_offset m) content) in
      case create_file w (partial_path (cj_cache job)) (header @ payload) of
        (w1, Inl e) \<Rightarrow> (w1, Inl e) | (w1, Inr _) \<Rightarrow>
      if length payload < cm_vector_bytes m
        then (w1, Inl (RuntimeError ''truncated prefix-cache vector payload''))
      else case sha256_file h (fs w1) p 0 None of Inl e \<Rightarrow> (w1, Inl e) | Inr sha \<Rightarrow>
      let st1 = st\<lparr>cs_dimension := Some (int (cm_dimensions m)), cs_header := Some (int (length header)),
                  cs_completed := int (cm_count m), cs_payload := payload,
                  cs_seed := prefix_seed_json (fs w1) p sha m prefix_size prefix_sha\<rparr> in
      (atomic_write_json h w1 (checkpoint_path (cj_cache job))
         (cache_checkpoint ctx h st1 ''running'' [] (clock (length (past w1)))), Inr st1))"

subsection \<open>The batch loop\<close>

definition cache_append ::
  "host \<Rightarrow> (nat \<Rightarrow> pystr) \<Rightarrow> cache_job \<Rightarrow> cache_ctx \<Rightarrow> world \<Rightarrow> cache_state \<Rightarrow> pystr list \<Rightarrow> bytes list
     \<Rightarrow> world \<times> cache_state res" where
  "cache_append h clock job ctx w st texts rows =
     (if cs_dimension st = None \<or> cs_header st = None then (w, Inl (AssertionError ''dimension''))
      else let payload = concat rows;
               w1 = append_file w (partial_path (cj_cache job)) payload;
               st1 = st\<lparr>cs_payload := cs_payload st @ payload,
                        cs_completed := cs_completed st + int (length texts)\<rparr> in
      (atomic_write_json h w1 (checkpoint_path (cj_cache job))
         (cache_checkpoint ctx h st1 ''running'' [] (clock (length (past w1)))), Inr st1))"

definition cache_step ::
  "host \<Rightarrow> (nat \<Rightarrow> pystr) \<Rightarrow> cache_job \<Rightarrow> cache_ctx \<Rightarrow> world \<Rightarrow> cache_state \<Rightarrow> pystr list \<Rightarrow> matrix
     \<Rightarrow> world \<times> cache_state res" where
  "cache_step h clock job ctx w st texts m =
     (if cs_dimension st = None then
        (case cache_create h clock job ctx w st (int (fst m)) of (w1, Inl e) \<Rightarrow> (w1, Inl e) | (w1, Inr st1) \<Rightarrow>
         cache_append h clock job ctx w1 st1 texts (snd m))
      else cache_append h clock job ctx w st texts (snd m))"

text \<open>Sequentially, every request carries the dimension known by then.\<close>

fun cache_loop ::
  "host \<Rightarrow> numerics \<Rightarrow> (nat \<Rightarrow> pystr) \<Rightarrow> cache_job \<Rightarrow> cache_ctx \<Rightarrow> client \<Rightarrow> world \<Rightarrow> cache_state
     \<Rightarrow> pystr list list \<Rightarrow> world \<times> cache_state res" where
  "cache_loop h np clock job ctx c w st [] = (w, Inr st)"
| "cache_loop h np clock job ctx c w st (texts # batches) =
     (case embed np c texts (cs_dimension st) of Inl e \<Rightarrow> (w, Inl e) | Inr m \<Rightarrow>
      case cache_step h clock job ctx w st texts m of (w1, Inl e) \<Rightarrow> (w1, Inl e) | (w1, Inr st1) \<Rightarrow>
      cache_loop h np clock job ctx c w1 st1 batches)"

text \<open>With look-ahead, the loop consumes what the pipeline yields.\<close>

fun cache_consume ::
  "host \<Rightarrow> (nat \<Rightarrow> pystr) \<Rightarrow> cache_job \<Rightarrow> cache_ctx \<Rightarrow> world \<Rightarrow> cache_state
     \<Rightarrow> (pystr list \<times> matrix res) list \<Rightarrow> world \<times> cache_state res" where
  "cache_consume h clock job ctx w st [] = (w, Inr st)"
| "cache_consume h clock job ctx w st ((texts, r) # ys) =
     (case r of Inl e \<Rightarrow> (w, Inl e) | Inr m \<Rightarrow>
      case cache_step h clock job ctx w st texts m of (w1, Inl e) \<Rightarrow> (w1, Inl e) | (w1, Inr st1) \<Rightarrow>
      cache_consume h clock job ctx w1 st1 ys)"

definition cache_batches ::
  "host \<Rightarrow> numerics \<Rightarrow> (nat \<Rightarrow> pystr) \<Rightarrow> cache_job \<Rightarrow> cache_ctx \<Rightarrow> client \<Rightarrow> world \<Rightarrow> cache_state
     \<Rightarrow> world \<times> cache_state res" where
  "cache_batches h np clock job ctx c w st =
     (case open_rb (fs w) (cj_source job) of Inl e \<Rightarrow> (w, Inl e) | Inr content \<Rightarrow>
      case iter_nonempty_lines content of Inl e \<Rightarrow> (w, Inl e) | Inr lines \<Rightarrow>
      let batches = iter_batches lines (cs_completed st) (cj_batch_size job) in
      case cs_dimension st of
        None \<Rightarrow> cache_loop h np clock job ctx c w st batches
      | Some d \<Rightarrow>
          cache_consume h clock job ctx w st
            (yields (iter_embedded_batches (\<lambda>texts. embed np c texts (Some d)) (cj_concurrency job) batches)))"

subsection \<open>Publication\<close>

definition cache_verified :: "host \<Rightarrow> numerics \<Rightarrow> cache_job \<Rightarrow> fsys \<Rightarrow> pystr \<Rightarrow> cache_meta res" where
  "cache_verified h np job d p =
     (case read_cache_default h np d p of Inl e \<Rightarrow> Inl e | Inr (_, m) \<Rightarrow>
      case validate_cache_source h d m (cj_source job) None True of Inl e \<Rightarrow> Inl e | Inr _ \<Rightarrow> Inr m)"

definition cache_sidecar ::
  "host \<Rightarrow> cache_job \<Rightarrow> cache_ctx \<Rightarrow> client \<Rightarrow> cache_state \<Rightarrow> cache_meta \<Rightarrow> pystr \<Rightarrow> pystr \<Rightarrow> json" where
  "cache_sidecar h job ctx c st m cache_sha now = JObj (jobj
     [(''schema'', JStr cache_meta_schema), (''created_at'', JStr now), (''role'', JStr (cj_role job)),
      (''cache'', JObj (cache_meta_json m @ jobj [(''sha256'', JStr cache_sha)])),
      (''source'', source_json (cc_source ctx)), (''model'', JObj (cj_model job)), (''bindings'', cj_bindings job),
      (''generation'', JObj (jobj
         [(''started_at'', JStr (cs_started st)), (''endpoint'', JStr (ec_url c)),
          (''batch_size'', JInt (cj_batch_size job)), (''request_concurrency'', JInt (cj_concurrency job)),
          (''normalization'', JStr (u ''L2 float32 per row before persistence'')),
          (''payload_sha256'', JStr (sha_hex h (cs_payload st))), (''prefix_seed'', cs_seed st)]))])"

definition cache_replace ::
  "host \<Rightarrow> numerics \<Rightarrow> (nat \<Rightarrow> pystr) \<Rightarrow> cache_job \<Rightarrow> cache_ctx \<Rightarrow> world \<Rightarrow> cache_state
     \<Rightarrow> world \<times> (cache_meta \<times> pystr) res" where
  "cache_replace h np clock job ctx w st =
     (let cache = cj_cache job; partial = partial_path cache in
      if cs_completed st \<noteq> int (si_lines (cc_source ctx)) \<or> cs_dimension st = None
        then (w, Inl (RuntimeError ''cache generation ended before all source rows''))
      else case cache_verified h np job (fs w) partial of Inl e \<Rightarrow> (w, Inl e) | Inr _ \<Rightarrow>
      case sha256_file h (fs w) partial 0 None of Inl e \<Rightarrow> (w, Inl e) | Inr cache_sha \<Rightarrow>
      let w1 = atomic_write_json h w (checkpoint_path cache)
                 (cache_checkpoint ctx h st ''ready-to-publish'' [(''cache_sha256'', JStr cache_sha)]
                    (clock (length (past w))));
          w2 = replace_file w1 partial cache in
      case cache_verified h np job (fs w2) cache of Inl e \<Rightarrow> (w2, Inl e) | Inr m \<Rightarrow> (w2, Inr (m, cache_sha)))"

definition cache_publish ::
  "host \<Rightarrow> numerics \<Rightarrow> (nat \<Rightarrow> pystr) \<Rightarrow> cache_job \<Rightarrow> cache_ctx \<Rightarrow> client \<Rightarrow> world \<Rightarrow> cache_state
     \<Rightarrow> world \<times> json res" where
  "cache_publish h np clock job ctx c w st =
     (case cache_replace h np clock job ctx w st of (w2, Inl e) \<Rightarrow> (w2, Inl e) | (w2, Inr (m, cache_sha)) \<Rightarrow>
      let declared = cache_sidecar h job ctx c st m cache_sha (clock (length (past w2)));
          w3 = atomic_write_json h w2 (sidecar_path (cj_cache job)) declared
      in (unlink_file w3 (checkpoint_path (cj_cache job)), Inr declared))"

subsection \<open>The generator\<close>

definition cache_begin ::
  "host \<Rightarrow> numerics \<Rightarrow> (nat \<Rightarrow> pystr) \<Rightarrow> cache_job \<Rightarrow> cache_ctx \<Rightarrow> world \<Rightarrow> world \<times> cache_state res" where
  "cache_begin h np clock job ctx w =
     (let fresh = \<lparr>cs_dimension = cj_dimension job, cs_completed = 0, cs_header = None, cs_payload = [],
                   cs_seed = JNull, cs_started = clock (length (past w))\<rparr> in
      if path_exists (fs w) (checkpoint_path (cj_cache job)) \<or> path_exists (fs w) (partial_path (cj_cache job))
        then cache_resume h job ctx w
      else case (case cj_prefix job of None \<Rightarrow> (w, Inr fresh) | Some p \<Rightarrow> cache_seed h np clock job ctx w fresh p) of
        (w1, Inl e) \<Rightarrow> (w1, Inl e) | (w1, Inr st) \<Rightarrow>
      case (cs_dimension st, cs_header st) of
        (Some d, None) \<Rightarrow> cache_create h clock job ctx w1 st d
      | _ \<Rightarrow> (w1, Inr st))"

definition generate_cache ::
  "host \<Rightarrow> numerics \<Rightarrow> (nat \<Rightarrow> pystr) \<Rightarrow> client \<Rightarrow> cache_job \<Rightarrow> world \<Rightarrow> world \<times> json res" where
  "generate_cache h np clock c job w =
     (case cache_inputs h (fs w) job c of Inl e \<Rightarrow> (w, Inl e) | Inr ctx \<Rightarrow>
      if path_exists (fs w) (cj_cache job) then validate_existing_cache h np clock job ctx w
      else case cache_begin h np clock job ctx w of (w1, Inl e) \<Rightarrow> (w1, Inl e) | (w1, Inr st) \<Rightarrow>
      case cache_batches h np clock job ctx c w1 st of (w2, Inl e) \<Rightarrow> (w2, Inl e) | (w2, Inr st') \<Rightarrow>
      cache_publish h np clock job ctx c w2 st')"

subsection \<open>Which files a stage writes\<close>

text \<open>Between two worlds only the files named in \<open>S\<close> (resolved) changed, at every step.\<close>

definition changes_only :: "pystr set \<Rightarrow> world \<Rightarrow> world \<Rightarrow> bool" where
  "changes_only S w w' \<longleftrightarrow>
     (\<forall>d \<in> insert (fs w') (visited w' - visited w). fs_resolve d = fs_resolve (fs w) \<and> (\<forall>q. q \<notin> S \<longrightarrow> fs_file d q = fs_file (fs w) q))"

lemma within_refl [simp]: "changes_only S w w"
  by (simp add: changes_only_def)

lemma within_trans: "changes_only S w w1 \<Longrightarrow> changes_only S w1 w2 \<Longrightarrow> changes_only S w w2"
  unfolding changes_only_def by (metis Diff_iff insert_iff)

lemma within_commit:
  "fs_resolve d = fs_resolve (fs w) \<Longrightarrow> (\<And>q. q \<notin> S \<Longrightarrow> fs_file d q = fs_file (fs w) q) \<Longrightarrow> changes_only S w (commit w d)"
  by (auto simp: changes_only_def)

lemma fs_file_set_file: "q \<noteq> fs_resolve d p \<Longrightarrow> fs_file (set_file d p c) q = fs_file d q"
  by (simp add: set_file_def)

lemma within_write_behind: "fs_resolve (fs w) p \<in> S \<Longrightarrow> changes_only S w (write_behind w p old data)"
  unfolding changes_only_def write_behind_visited by (auto; metis fs_file_set_file)

lemma within_set: "fs_resolve (fs w) p \<in> S \<Longrightarrow> changes_only S w (commit w (set_file (fs w) p c))"
  by (rule within_commit, simp, metis fs_file_set_file)

lemma within_steps:
  assumes "fs_resolve (fs w) p \<in> S"
  shows "changes_only S w (atomic_write_json h w p v)" "changes_only S w (unlink_file w p)"
    "changes_only S w (append_file w p data)" "changes_only S w (truncate_file w p n)"
    "create_file w p data = (w', r) \<Longrightarrow> changes_only S w w'"
proof -
  show "changes_only S w (atomic_write_json h w p v)" "changes_only S w (unlink_file w p)"
    "changes_only S w (truncate_file w p n)"
    unfolding atomic_write_json_def unlink_file_def truncate_file_def by (rule within_set [OF assms])+
  show "changes_only S w (append_file w p data)"
    unfolding append_file_def by (rule within_write_behind [OF assms])
  show "create_file w p data = (w', r) \<Longrightarrow> changes_only S w w'"
    using within_write_behind [OF assms] by (auto simp: create_file_def split: if_splits)
qed

lemma within_resolve: "changes_only S w w' \<Longrightarrow> fs_resolve (fs w') = fs_resolve (fs w)"
  by (simp add: changes_only_def)

lemma within_file_at: "changes_only S w w' \<Longrightarrow> fs_resolve (fs w) p \<notin> S \<Longrightarrow> file_at (fs w') p = file_at (fs w) p"
  by (simp add: changes_only_def file_at_def)

lemma within_visited:
  "changes_only S w w' \<Longrightarrow> d \<in> visited w' \<Longrightarrow> fs_resolve (fs w) p \<notin> S \<Longrightarrow> d \<in> visited w \<or> file_at d p = file_at (fs w) p"
proof -
  assume c: "changes_only S w w'" and d: "d \<in> visited w'" and p: "fs_resolve (fs w) p \<notin> S"
  show "d \<in> visited w \<or> file_at d p = file_at (fs w) p"
  proof (cases "d \<in> visited w")
    case False
    then have "fs_resolve d = fs_resolve (fs w)" "\<forall>q. q \<notin> S \<longrightarrow> fs_file d q = fs_file (fs w) q"
      using c d by (simp_all only: changes_only_def) blast+
    then show ?thesis using p by (simp only: file_at_def) blast
  qed simp
qed

text \<open>The two files of a cache in progress.\<close>

definition scratch :: "cache_job \<Rightarrow> fsys \<Rightarrow> pystr set" where
  "scratch job d = {fs_resolve d (partial_path (cj_cache job)), fs_resolve d (checkpoint_path (cj_cache job))}"

lemma scratch_members [simp]:
  "fs_resolve d (partial_path (cj_cache job)) \<in> scratch job d"
  "fs_resolve d (checkpoint_path (cj_cache job)) \<in> scratch job d"
  by (simp_all add: scratch_def)

lemma scratch_within: "changes_only S w w' \<Longrightarrow> scratch job (fs w') = scratch job (fs w)"
  by (simp add: scratch_def within_resolve)

lemma cache_resume_within:
  "cache_resume h job ctx w = (w', r) \<Longrightarrow> changes_only (scratch job (fs w)) w w'"
  by (auto simp: cache_resume_def Let_def intro: within_steps split: sum.splits prod.splits if_splits)

text \<open>Creating the partial file and then writing the checkpoint.\<close>

lemma create_then_checkpoint:
  assumes "create_file w (partial_path (cj_cache job)) data = (w1, r)"
  shows "changes_only (scratch job (fs w)) w w1"
    "changes_only (scratch job (fs w)) w (atomic_write_json h w1 (checkpoint_path (cj_cache job)) v)"
proof -
  show w1: "changes_only (scratch job (fs w)) w w1" using assms by (intro within_steps(5)) simp_all
  have "changes_only (scratch job (fs w)) w1 (atomic_write_json h w1 (checkpoint_path (cj_cache job)) v)"
    using within_resolve [OF w1] by (intro within_steps(1)) (simp add: scratch_def)
  with w1 show "changes_only (scratch job (fs w)) w (atomic_write_json h w1 (checkpoint_path (cj_cache job)) v)"
    by (rule within_trans)
qed

lemma cache_create_within:
  "cache_create h clock job ctx w st n = (w', r) \<Longrightarrow> changes_only (scratch job (fs w)) w w'"
  unfolding cache_create_def
  by (auto simp: Let_def split: sum.splits prod.splits intro: create_then_checkpoint)

lemma cache_seed_within:
  "cache_seed h np clock job ctx w st p = (w', r) \<Longrightarrow> changes_only (scratch job (fs w)) w w'"
  unfolding cache_seed_def
  by (auto simp: Let_def split: sum.splits prod.splits if_splits intro: create_then_checkpoint)

lemma cache_append_within:
  assumes "cache_append h clock job ctx w st texts rows = (w', r)"
  shows "changes_only (scratch job (fs w)) w w'"
proof -
  let ?w1 = "append_file w (partial_path (cj_cache job)) (concat rows)"
  have w1: "changes_only (scratch job (fs w)) w ?w1" by (intro within_steps) simp
  have "changes_only (scratch job (fs w)) ?w1 (atomic_write_json h ?w1 (checkpoint_path (cj_cache job)) v)" for v
    using within_resolve [OF w1] by (intro within_steps(1)) (simp add: scratch_def)
  then show ?thesis using assms within_trans [OF w1] by (auto simp: cache_append_def Let_def split: if_splits)
qed

lemma cache_step_within:
  assumes "cache_step h clock job ctx w st texts m = (w', r)"
  shows "changes_only (scratch job (fs w)) w w'"
proof (cases "cs_dimension st = None")
  case True
  obtain w1 r1 where c: "cache_create h clock job ctx w st (int (fst m)) = (w1, r1)" by fastforce
  note w1 = cache_create_within [OF c]
  show ?thesis
  proof (cases r1)
    case (Inr st1)
    then have "cache_append h clock job ctx w1 st1 texts (snd m) = (w', r)"
      using assms True c by (simp add: cache_step_def)
    then show ?thesis using within_trans [OF w1] cache_append_within scratch_within [OF w1] by metis
  qed (use assms True c w1 in \<open>simp add: cache_step_def\<close>)
qed (use assms cache_append_within in \<open>auto simp: cache_step_def\<close>)

lemma cache_loop_within:
  "cache_loop h np clock job ctx c w st bs = (w', r) \<Longrightarrow> changes_only (scratch job (fs w)) w w'"
proof (induction bs arbitrary: w st)
  case (Cons texts bs)
  show ?case
  proof (cases "embed np c texts (cs_dimension st)")
    case (Inr x)
    obtain w1 r1 where s: "cache_step h clock job ctx w st texts x = (w1, r1)" by fastforce
    note w1 = cache_step_within [OF s]
    show ?thesis
    proof (cases r1)
      case (Inr st1)
      then have "cache_loop h np clock job ctx c w1 st1 bs = (w', r)"
        using Cons.prems \<open>embed np c texts (cs_dimension st) = Inr x\<close> s by simp
      from Cons.IH [OF this] show ?thesis using within_trans [OF w1] scratch_within [OF w1] by metis
    qed (use Cons.prems Inr s w1 in simp)
  qed (use Cons.prems in simp)
qed simp

subsection \<open>The concurrency is invisible\<close>

lemma cache_loop_consume:
  "cs_dimension st = Some d \<Longrightarrow>
     cache_loop h np clock job ctx c w st bs
       = cache_consume h clock job ctx w st (until_error (\<lambda>texts. embed np c texts (Some d)) bs)"
proof (induction bs arbitrary: w st)
  case (Cons texts bs)
  have keep: "cs_dimension st1 = Some d" if "cache_step h clock job ctx w st texts m = (w1, Inr st1)" for m w1 st1
    using that Cons.prems by (auto simp: cache_step_def cache_append_def Let_def split: if_splits)
  show ?case
    using Cons.prems keep
    by (auto simp: Cons.IH split: sum.splits prod.splits)
qed simp

lemma cache_batches_sequential:
  "cache_batches h np clock job ctx c w st =
     (case open_rb (fs w) (cj_source job) of Inl e \<Rightarrow> (w, Inl e) | Inr content \<Rightarrow>
      case iter_nonempty_lines content of Inl e \<Rightarrow> (w, Inl e) | Inr lines \<Rightarrow>
      cache_loop h np clock job ctx c w st (iter_batches lines (cs_completed st) (cj_batch_size job)))"
  by (auto simp: cache_batches_def Let_def iter_embedded_batches_def yields_sequential yields_pipeline
      cache_loop_consume split: sum.splits option.splits)

lemma cache_batches_within:
  "cache_batches h np clock job ctx c w st = (w', r) \<Longrightarrow> changes_only (scratch job (fs w)) w w'"
  unfolding cache_batches_sequential by (auto split: sum.splits intro: cache_loop_within)

lemma cache_begin_within:
  assumes "cache_begin h np clock job ctx w = (w', r)"
  shows "changes_only (scratch job (fs w)) w w'"
proof (cases "path_exists (fs w) (checkpoint_path (cj_cache job)) \<or> path_exists (fs w) (partial_path (cj_cache job))")
  case True
  then have "cache_resume h job ctx w = (w', r)" using assms by (simp add: cache_begin_def Let_def)
  then show ?thesis by (rule cache_resume_within)
next
  case False
  define fresh where "fresh = \<lparr>cs_dimension = cj_dimension job, cs_completed = 0, cs_header = None, cs_payload = [],
     cs_seed = JNull, cs_started = clock (length (past w))\<rparr>"
  obtain w1 r1 where s: "(case cj_prefix job of None \<Rightarrow> (w, Inr fresh)
      | Some p \<Rightarrow> cache_seed h np clock job ctx w fresh p) = (w1, r1)" by fastforce
  have w1: "changes_only (scratch job (fs w)) w w1"
    using s cache_seed_within by (auto split: option.splits)
  have run: "cache_begin h np clock job ctx w = (case r1 of Inl e \<Rightarrow> (w1, Inl e) | Inr st \<Rightarrow>
      (case (cs_dimension st, cs_header st) of (Some d, None) \<Rightarrow> cache_create h clock job ctx w1 st d | _ \<Rightarrow> (w1, Inr st)))"
    using False s unfolding cache_begin_def Let_def fresh_def [symmetric] by (simp split: sum.splits)
  show ?thesis
  proof (cases r1)
    case (Inr st)
    then consider "w' = w1" | d where "cache_create h clock job ctx w1 st d = (w', r)"
      using run assms by (auto split: option.splits)
    then show ?thesis
      using w1 within_trans [OF w1] cache_create_within scratch_within [OF w1] by cases metis+
  qed (use run assms w1 in simp)
qed

text \<open>The four files of a cache are different files, and the source is none of them.\<close>

definition cache_paths_ok :: "cache_job \<Rightarrow> fsys \<Rightarrow> bool" where
  "cache_paths_ok job d \<longleftrightarrow> distinct (map (fs_resolve d) (managed (cj_cache job)))
     \<and> fs_resolve d (cj_source job) \<notin> fs_resolve d ` set (managed (cj_cache job))"

text \<open>A complete cache of the job's source, as every reader of it checks.\<close>

definition complete_cache :: "host \<Rightarrow> numerics \<Rightarrow> cache_job \<Rightarrow> fsys \<Rightarrow> bytes \<Rightarrow> bool" where
  "complete_cache h np job d content \<longleftrightarrow>
     (\<exists>vectors m s. read_cache h np (fs_resolve d (cj_cache job)) True None 8192 content = Inr (vectors, m)
        \<and> validate_cache_source h d m (cj_source job) None True = Inr s)"

lemma validate_cache_source_cong:
  assumes "fs_resolve d' = fs_resolve d" and "file_at d' p = file_at d p"
    and "cm_count m' = cm_count m" "cm_source m' = cm_source m"
  shows "validate_cache_source h d' m' p n b = validate_cache_source h d m p n b"
  unfolding validate_cache_source_def source_identity_def open_rb_file_at assms ..

lemma read_cache_path:
  "read_cache h np p v r k content = Inr (vectors, m) \<Longrightarrow>
     read_cache h np q v r k content = Inr (vectors, m\<lparr>cm_path := q\<rparr>)"
  by (auto simp: read_cache_def ok_simps Let_def)

lemma cache_verified_ok:
  assumes "cache_verified h np job d p = Inr m" and "file_at d p = Some content"
  shows "complete_cache h np job d content"
proof -
  obtain vectors s where "read_cache h np (fs_resolve d p) True None 8192 content = Inr (vectors, m)"
    and v: "validate_cache_source h d m (cj_source job) None True = Inr s"
    using assms by (auto simp: cache_verified_def read_cache_default_def open_rb_file_at ok_simps)
  from read_cache_path [OF this(1)]
  have r: "read_cache h np (fs_resolve d (cj_cache job)) True None 8192 content
      = Inr (vectors, m\<lparr>cm_path := fs_resolve d (cj_cache job)\<rparr>)" .
  have "validate_cache_source h d (m\<lparr>cm_path := fs_resolve d (cj_cache job)\<rparr>) (cj_source job) None True = Inr s"
    by (rule trans [OF validate_cache_source_cong v]) simp_all
  then show ?thesis using r unfolding complete_cache_def by blast
qed

lemma complete_cache_cong:
  assumes "fs_resolve d' = fs_resolve d" and "file_at d' (cj_source job) = file_at d (cj_source job)"
  shows "complete_cache h np job d' content = complete_cache h np job d content"
  unfolding complete_cache_def assms(1) validate_cache_source_cong [OF assms refl refl] ..

lemma cache_meta_json_sha: "map_of (cache_meta_json m) (u ''sha256'') = None"
  by (cases "cm_source m") (auto simp: cache_meta_json_def)

lemma cache_sidecar_sha:
  "json_get2 (cache_sidecar h job c0 c st m sha now) ''cache'' ''sha256'' = Inr (JStr sha)"
  by (simp add: cache_sidecar_def json_get2_def jget2_def jget_def map_add_def cache_meta_json_sha)

lemma cache_publish_spec:
  assumes run: "cache_publish h np clock job ctx c w st = (w', r)"
    and paths: "cache_paths_ok job (fs w)" and absent: "file_at (fs w) (cj_cache job) = None"
  shows "\<forall>d \<in> visited w'. d \<in> visited w \<or> file_at d (cj_cache job) = None
      \<or> (\<exists>content. file_at d (cj_cache job) = Some content \<and> complete_cache h np job d content)"
    "r = Inr declared \<Longrightarrow> \<exists>content. file_at (fs w') (cj_cache job) = Some content
       \<and> complete_cache h np job (fs w') content
       \<and> json_get2 declared ''cache'' ''sha256'' = Inr (JStr (sha_hex h content))
       \<and> file_at (fs w') (sidecar_path (cj_cache job)) = Some (dumps_indent h declared @ [10])
       \<and> file_at (fs w') (partial_path (cj_cache job)) = None
       \<and> file_at (fs w') (checkpoint_path (cj_cache job)) = None"
proof -
  let ?C = "cj_cache job"
  let ?P = "partial_path ?C" and ?K = "checkpoint_path ?C" and ?M = "sidecar_path ?C"
  let ?r = "fs_resolve (fs w)"
  have ne: "?r ?C \<noteq> ?r ?P" "?r ?C \<noteq> ?r ?K" "?r ?C \<noteq> ?r ?M" "?r ?M \<noteq> ?r ?P" "?r ?M \<noteq> ?r ?K" "?r ?P \<noteq> ?r ?K"
    "?r (cj_source job) \<noteq> ?r ?C" "?r (cj_source job) \<noteq> ?r ?P" "?r (cj_source job) \<noteq> ?r ?K"
    "?r (cj_source job) \<noteq> ?r ?M"
    using paths by (auto simp: cache_paths_ok_def managed_def)
  have goal: "(\<forall>d \<in> visited w'. d \<in> visited w \<or> file_at d ?C = None
      \<or> (\<exists>content. file_at d ?C = Some content \<and> complete_cache h np job d content))
    \<and> (\<forall>declared. r = Inr declared \<longrightarrow> (\<exists>content. file_at (fs w') ?C = Some content
       \<and> complete_cache h np job (fs w') content
       \<and> json_get2 declared ''cache'' ''sha256'' = Inr (JStr (sha_hex h content))
       \<and> file_at (fs w') ?M = Some (dumps_indent h declared @ [10])
       \<and> file_at (fs w') ?P = None \<and> file_at (fs w') ?K = None))"
  proof (cases "cs_completed st \<noteq> int (si_lines (cc_source ctx)) \<or> cs_dimension st = None")
    case True
    then show ?thesis using run by (auto simp: cache_publish_def cache_replace_def Let_def)
  next
    case alive: False
    show ?thesis
    proof (cases "cache_verified h np job (fs w) ?P")
      case (Inl e)
      then show ?thesis using run alive by (simp add: cache_publish_def cache_replace_def Let_def) auto
    next
      case (Inr m0)
      obtain content where content: "file_at (fs w) ?P = Some content"
        using Inr by (auto simp: cache_verified_def read_cache_default_def open_rb_file_at ok_simps split: option.splits)
      have sha: "sha256_file h (fs w) ?P 0 None = Inr (sha_hex h content)"
        using content by (simp add: sha256_file_def open_rb_file_at sha256_bytes_all)
      define w1 where "w1 = atomic_write_json h w ?K (cache_checkpoint ctx h st ''ready-to-publish''
          [(''cache_sha256'', JStr (sha_hex h content))] (clock (length (past w))))"
      define w2 where "w2 = replace_file w1 ?P ?C"
      have fs1: "fs_resolve (fs w1) = ?r" "file_at (fs w1) ?P = Some content" "file_at (fs w1) ?C = None"
        using ne content absent by (simp_all add: w1_def atomic_write_json_def)
      have fs2: "fs_resolve (fs w2) = ?r" "file_at (fs w2) ?C = Some content" "file_at (fs w2) ?P = None"
        "file_at (fs w2) (cj_source job) = file_at (fs w) (cj_source job)"
        using ne fs1 by (simp_all add: w2_def replace_file_def) (simp add: w1_def atomic_write_json_def)
      have v2: "visited w2 = visited w \<union> {fs w1, fs w2}"
        by (auto simp: w2_def w1_def replace_file_def atomic_write_json_def)
      have c0: "complete_cache h np job (fs w) content" using Inr content by (rule cache_verified_ok)
      have cc: "complete_cache h np job d content"
        if "fs_resolve d = ?r" "file_at d (cj_source job) = file_at (fs w) (cj_source job)" for d
        using c0 complete_cache_cong [OF that] by blast
      have safe2: "\<forall>d \<in> visited w2. d \<in> visited w \<or> file_at d ?C = None
          \<or> (\<exists>content. file_at d ?C = Some content \<and> complete_cache h np job d content)"
        unfolding v2 using fs1(3) fs2(2) cc [OF fs2(1,4)] by auto
      have pub: "cache_publish h np clock job ctx c w st = (case cache_verified h np job (fs w2) ?C of
          Inl e \<Rightarrow> (w2, Inl e) | Inr m \<Rightarrow>
          (unlink_file (atomic_write_json h w2 ?M (cache_sidecar h job ctx c st m (sha_hex h content) (clock (length (past w2))))) ?K,
           Inr (cache_sidecar h job ctx c st m (sha_hex h content) (clock (length (past w2))))))"
        unfolding cache_publish_def cache_replace_def Let_def Inr sha w2_def w1_def
        by (simp only: sum.case alive if_False) (simp split: sum.split)
      show ?thesis
      proof (cases "cache_verified h np job (fs w2) ?C")
        case (Inl e)
        then have "w' = w2" "r = Inl e"
          using run by (simp_all add: pub Inl)
        then show ?thesis using safe2 by simp
      next
        case (Inr m)
        define declared where "declared = cache_sidecar h job ctx c st m (sha_hex h content) (clock (length (past w2)))"
        define w3 where "w3 = atomic_write_json h w2 ?M declared"
        have out: "w' = unlink_file w3 ?K" "r = Inr declared"
          using run by (simp_all add: pub Inr flip: declared_def w3_def)
        have fs3: "fs_resolve (fs w3) = ?r" "file_at (fs w3) ?C = Some content"
          "file_at (fs w3) (cj_source job) = file_at (fs w) (cj_source job)"
          "file_at (fs w3) ?M = Some (dumps_indent h declared @ [10])" "file_at (fs w3) ?P = None"
          using ne fs2 by (simp_all add: w3_def atomic_write_json_def)
        have fs4: "fs_resolve (fs w') = ?r" "file_at (fs w') ?C = Some content"
          "file_at (fs w') (cj_source job) = file_at (fs w) (cj_source job)"
          "file_at (fs w') ?M = Some (dumps_indent h declared @ [10])" "file_at (fs w') ?P = None"
          "file_at (fs w') ?K = None"
          using ne fs3 by (simp_all add: out unlink_file_def)
        have v4: "visited w' = visited w2 \<union> {fs w3, fs w'}"
          by (auto simp: out w3_def unlink_file_def atomic_write_json_def)
        have "\<forall>d \<in> visited w'. d \<in> visited w \<or> file_at d ?C = None
          \<or> (\<exists>content. file_at d ?C = Some content \<and> complete_cache h np job d content)"
          unfolding v4 using safe2 fs3(2) cc [OF fs3(1,3)] fs4(2) cc [OF fs4(1,3)] by auto
        moreover have "json_get2 declared ''cache'' ''sha256'' = Inr (JStr (sha_hex h content))"
          unfolding declared_def by (rule cache_sidecar_sha)
        ultimately show ?thesis using fs4 cc [OF fs4(1,3)] out(2) by simp
      qed
    qed
  qed
  then show "\<forall>d \<in> visited w'. d \<in> visited w \<or> file_at d (cj_cache job) = None
      \<or> (\<exists>content. file_at d (cj_cache job) = Some content \<and> complete_cache h np job d content)" by blast
  show "r = Inr declared \<Longrightarrow> \<exists>content. file_at (fs w') (cj_cache job) = Some content
       \<and> complete_cache h np job (fs w') content
       \<and> json_get2 declared ''cache'' ''sha256'' = Inr (JStr (sha_hex h content))
       \<and> file_at (fs w') (sidecar_path (cj_cache job)) = Some (dumps_indent h declared @ [10])
       \<and> file_at (fs w') (partial_path (cj_cache job)) = None
       \<and> file_at (fs w') (checkpoint_path (cj_cache job)) = None" using goal by blast
qed

subsection \<open>Runs with different concurrency\<close>

lemma other_concurrency:
  fixes job k
  defines "j \<equiv> job\<lparr>cj_concurrency := k\<rparr>"
  shows "cj_source j = cj_source job" "cj_cache j = cj_cache job" "cj_fingerprint j = cj_fingerprint job"
    "cj_model j = cj_model job" "cj_role j = cj_role job" "cj_batch_size j = cj_batch_size job"
    "cj_dimension j = cj_dimension job" "cj_bindings j = cj_bindings job" "cj_prefix j = cj_prefix job"
  by (simp_all add: j_def)

lemma stages_other_concurrency:
  fixes job k
  defines "j \<equiv> job\<lparr>cj_concurrency := k\<rparr>"
  shows "cache_inputs h d j c = cache_inputs h d job c"
    "validate_existing_cache h np clock j ctx w = validate_existing_cache h np clock job ctx w"
    "cache_begin h np clock j ctx w = cache_begin h np clock job ctx w"
    "cache_batches h np clock j ctx c w st = cache_batches h np clock job ctx c w st"
    "cache_verified h np j d p = cache_verified h np job d p"
proof -
  note sel = other_concurrency [where job = job and k = k, folded j_def]
  show "cache_inputs h d j c = cache_inputs h d job c"
    unfolding cache_inputs_def cache_stable_def sel ..
  have "cache_declared h j ctx m d = cache_declared h job ctx m d" "cache_ready h j ctx d = cache_ready h job ctx d" for m d
    unfolding cache_declared_def sidecar_matches_def cache_ready_def sel by (rule refl)+
  then show "validate_existing_cache h np clock j ctx w = validate_existing_cache h np clock job ctx w"
    unfolding validate_existing_cache_def sel by (simp only:)
  have resume: "cache_resume h j ctx w = cache_resume h job ctx w"
    unfolding cache_resume_def cache_committed_def cache_intact_def sel ..
  have hd: "cache_header j ctx n = cache_header job ctx n" for n
    unfolding cache_header_def sel ..
  have create: "cache_create h clock j ctx w st n = cache_create h clock job ctx w st n" for w st n
    unfolding cache_create_def hd sel ..
  have seed: "cache_seed h np clock j ctx w st p = cache_seed h np clock job ctx w st p" for st p
    unfolding cache_seed_def prefix_checked_def prefix_fits_def prefix_source_def hd sel ..
  show "cache_begin h np clock j ctx w = cache_begin h np clock job ctx w"
    unfolding cache_begin_def sel resume create seed ..
  have step: "cache_step h clock j ctx w st texts m = cache_step h clock job ctx w st texts m" for w st texts m
    unfolding cache_step_def create cache_append_def sel ..
  have "cache_loop h np clock j ctx c w st bs = cache_loop h np clock job ctx c w st bs" for w st bs
    by (induction bs arbitrary: w st) (simp_all add: step split: sum.splits prod.splits)
  then show "cache_batches h np clock j ctx c w st = cache_batches h np clock job ctx c w st"
    unfolding cache_batches_sequential sel by (simp only:)
  show "cache_verified h np j d p = cache_verified h np job d p"
    unfolding cache_verified_def sel ..
qed

lemma publish_other_concurrency:
  assumes "cache_publish h np clock job ctx c w st = (w1, r1)"
    and "cache_publish h np clock (job\<lparr>cj_concurrency := k\<rparr>) ctx c w st = (w2, r2)"
  shows "(\<exists>d1 d2. r1 = Inr d1 \<and> r2 = Inr d2 \<and> (\<forall>p. fs_resolve (fs w) p \<noteq> fs_resolve (fs w) (sidecar_path (cj_cache job)) \<longrightarrow>
      file_at (fs w1) p = file_at (fs w2) p)) \<or> (\<exists>e. r1 = Inl e \<and> r2 = Inl e \<and> w1 = w2)"
proof -
  note sel = other_concurrency [where job = job and k = k]
  note v = stages_other_concurrency(5) [where job = job and k = k]
  obtain w' r' where run: "cache_replace h np clock job ctx w st = (w', r')" by fastforce
  have run': "cache_replace h np clock (job\<lparr>cj_concurrency := k\<rparr>) ctx w st = (w', r')"
    using run unfolding cache_replace_def sel v .
  have res: "fs_resolve (fs w') = fs_resolve (fs w)"
    using run by (auto simp: cache_replace_def Let_def replace_file_def atomic_write_json_def split: if_splits sum.splits)
  show ?thesis
  proof (cases r')
    case (Inl e)
    then show ?thesis using assms by (auto simp: cache_publish_def run run')
  next
    case (Inr ms)
    obtain m sha where ms: "ms = (m, sha)" by (cases ms)
    let ?d = "\<lambda>j. cache_sidecar h j ctx c st m sha (clock (length (past w')))"
    have "w1 = unlink_file (atomic_write_json h w' (sidecar_path (cj_cache job)) (?d job)) (checkpoint_path (cj_cache job))"
      "r1 = Inr (?d job)"
      "w2 = unlink_file (atomic_write_json h w' (sidecar_path (cj_cache job)) (?d (job\<lparr>cj_concurrency := k\<rparr>))) (checkpoint_path (cj_cache job))"
      "r2 = Inr (?d (job\<lparr>cj_concurrency := k\<rparr>))"
      using assms by (simp_all add: cache_publish_def run run' Inr ms sel Let_def)
    then show ?thesis using res by (simp add: unlink_file_def atomic_write_json_def)
  qed
qed


text \<open>
  C12. A cache appears complete: when \<open>generate_cache\<close> starts without a cache (and the four files
  and the source have names of their own), then in every state that is on the disk during the
  run, crashes and failures included, the cache is either absent or a complete, readable cache
  bound to the source; and if the run succeeds, the cache is there, its digest is the one the
  sidecar on the disk records, and no partial file or checkpoint is left.
\<close>

theorem cache_appears_complete:
  assumes "generate_cache h np clock c job w = (w', r)" and "cache_paths_ok job (fs w)"
    and "file_at (fs w) (cj_cache job) = None"
  shows "(\<forall>d \<in> visited w'. d \<in> visited w \<or> file_at d (cj_cache job) = None
      \<or> (\<exists>content. file_at d (cj_cache job) = Some content \<and> complete_cache h np job d content))
    \<and> (\<forall>declared. r = Inr declared \<longrightarrow> (\<exists>content. file_at (fs w') (cj_cache job) = Some content
       \<and> complete_cache h np job (fs w') content
       \<and> json_get2 declared ''cache'' ''sha256'' = Inr (JStr (sha_hex h content))
       \<and> file_at (fs w') (sidecar_path (cj_cache job)) = Some (dumps_indent h declared @ [10])
       \<and> file_at (fs w') (partial_path (cj_cache job)) = None
       \<and> file_at (fs w') (checkpoint_path (cj_cache job)) = None))"
proof -
  let ?C = "cj_cache job" and ?S = "scratch job (fs w)"
  have out: "fs_resolve (fs w) ?C \<notin> ?S"
    using assms(2) by (auto simp: cache_paths_ok_def managed_def scratch_def)
  have quiet: "\<forall>d \<in> visited v. d \<in> visited w \<or> file_at d ?C = None" if "changes_only ?S w v" for v
    using within_visited [OF that _ out] assms(3) by fastforce
  show ?thesis
  proof (cases "cache_inputs h (fs w) job c")
    case (Inr ctx)
    have fresh: "\<not> path_exists (fs w) ?C" using assms(3) by (simp add: path_exists_def)
    obtain wb rb where b: "cache_begin h np clock job ctx w = (wb, rb)" by fastforce
    note wb = cache_begin_within [OF b]
    show ?thesis
    proof (cases rb)
      case (Inl e)
      then have "w' = wb" "r = Inl e" using assms(1) fresh b \<open>cache_inputs h (fs w) job c = Inr ctx\<close>
        by (simp_all add: generate_cache_def)
      then show ?thesis using quiet [OF wb] by auto
    next
      case (Inr st0)
      obtain wl rl where l: "cache_batches h np clock job ctx c wb st0 = (wl, rl)" by fastforce
      have wl: "changes_only ?S w wl"
        using within_trans [OF wb] cache_batches_within [OF l] scratch_within [OF wb] by simp
      show ?thesis
      proof (cases rl)
        case (Inl e)
        then have "w' = wl" "r = Inl e"
          using assms(1) fresh b l Inr \<open>cache_inputs h (fs w) job c = Inr ctx\<close> by (simp_all add: generate_cache_def)
        then show ?thesis using quiet [OF wl] by auto
      next
        case (Inr st1)
        then have p: "cache_publish h np clock job ctx c wl st1 = (w', r)"
          using assms(1) fresh b l \<open>rb = Inr st0\<close> \<open>cache_inputs h (fs w) job c = Inr ctx\<close> by (simp add: generate_cache_def)
        have "cache_paths_ok job (fs wl)" using assms(2) within_resolve [OF wl] by (simp add: cache_paths_ok_def)
        moreover have "file_at (fs wl) ?C = None" using within_file_at [OF wl out] assms(3) by simp
        ultimately show ?thesis
          using cache_publish_spec [OF p] quiet [OF wl] by blast
      qed
    qed
  qed (use assms in \<open>auto simp: generate_cache_def\<close>)
qed

subsection \<open>A run\<close>

definition sample_job :: cache_job where
  "sample_job = \<lparr>cj_source = u ''src'', cj_cache = u ''c'', cj_fingerprint = u ''m'',
     cj_model = jobj [(''sha256'', JStr [])], cj_role = u ''corpus'', cj_batch_size = 2, cj_dimension = None,
     cj_bindings = JNull, cj_prefix = None, cj_concurrency = 1\<rparr>"

lemma sample_paths: "cache_paths_ok sample_job two_line_fs" "file_at two_line_fs (cj_cache sample_job) = None"
proof -
  have n: "u ''c'' \<noteq> sidecar_path (u ''c'')" "u ''src'' \<notin> set (managed (u ''c''))"
    by (simp_all add: managed_def sidecar_path_def checkpoint_path_def partial_path_def u_def)
  then show "cache_paths_ok sample_job two_line_fs"
    by (simp add: cache_paths_ok_def two_line_fs_def sample_job_def) (simp add: managed_def)
  show "file_at two_line_fs (cj_cache sample_job) = None"
    by (simp add: file_at_def two_line_fs_def sample_job_def)
qed

lemma sample_generated:
  "\<exists>w' declared. generate_cache plain_host unit_numerics (\<lambda>_. []) sample_client sample_job (boot two_line_fs) = (w', Inr declared)"
proof -
  let ?rows = "[[0, 0, 0, 7], [0, 0, 0, 5]] :: bytes list"
  let ?src = "utf8_bytes (u ''a'' @ [10] @ u ''b'' @ [10])"
  have lines: "iter_nonempty_lines ?src = Inr [u ''a'', u ''b'']"
    using iter_nonempty_lines_unlines [of "[u ''a'', u ''b'']"] by (simp add: u_def is_scalar_def)
  define dg :: bytes where "dg = take 32 (?src @ replicate 32 0)"
  define ident where "ident = \<lparr>si_path = u ''src'', si_size = 4, si_sha = to_hex dg, si_lines = 2\<rparr>"
  have sid: "source_identity plain_host d (u ''src'') = Inr ident"
    if "fs_resolve d = id" "file_at d (u ''src'') = Some ?src" for d
    using lines that by (auto simp: source_identity_ok count_nonempty_lines_def file_at_def
        sha_hex_def plain_host_def utf8_char_def u_def dg_def ident_def)
  have "length dg = 32" by (simp add: u_def utf8_char_def dg_def)
  from small_header [OF this, of 2 4] obtain header where
    h: "cache_v2_header (int 1) (int 2) (u ''m'') (int 4) (to_hex dg) = Inr header" by auto
  let ?F = "header @ concat ?rows"
  have read: "\<exists>m. read_cache plain_host unit_numerics q True None 8192 ?F = Inr (?rows, m)
      \<and> cm_count m = 2 \<and> cm_source m = Some (4, to_hex dg)" for q
    using read_cache_of_header [OF h, of ?rows unit_numerics plain_host q] by simp
  have ver: "\<exists>m. cache_verified plain_host unit_numerics sample_job d p = Inr m"
    if d: "fs_resolve d = id" "file_at d (u ''src'') = Some ?src" "file_at d p = Some ?F" for d p
  proof -
    obtain m where m: "read_cache plain_host unit_numerics p True None 8192 ?F = Inr (?rows, m)"
      "cm_count m = 2" "cm_source m = Some (4, to_hex dg)" using read by blast
    have "validate_cache_source plain_host d m (u ''src'') None True = Inr ident"
      using sid [OF d(1,2)] m by (simp add: validate_cache_source_v2 ident_def)
    then show ?thesis using m(1) d by (simp add: cache_verified_def read_cache_default_def open_rb_file_at sample_job_def)
  qed
  let ?w = "boot two_line_fs" and ?P = "partial_path (u ''c'')" and ?K = "checkpoint_path (u ''c'')"
  have fs0: "fs_resolve two_line_fs = id" "file_at two_line_fs (u ''src'') = Some ?src"
    "file_at two_line_fs q = (if q = u ''src'' then Some ?src else None)" for q
    by (simp_all add: two_line_fs_def file_at_def)
  have ne: "?P \<noteq> u ''src''" "?K \<noteq> u ''src''" "u ''c'' \<noteq> u ''src''" "?P \<noteq> ?K" "u ''c'' \<noteq> ?P" "u ''c'' \<noteq> ?K"
    by (auto simp: partial_path_def checkpoint_path_def u_def)
  define ctx where "ctx = \<lparr>cc_source = ident, cc_stable = cache_stable two_line_fs sample_job sample_client ident JNull,
     cc_hash = canonical_hash plain_host (JObj (cache_stable two_line_fs sample_job sample_client ident JNull)),
     cc_model_sha = JStr []\<rparr>"
  have inputs: "cache_inputs plain_host two_line_fs sample_job sample_client = Inr ctx"
    using sid [OF fs0(1,2)] by (simp add: cache_inputs_def sample_job_def ctx_def ident_def Let_def)
  define st0 where "st0 = \<lparr>cs_dimension = None, cs_completed = 0, cs_header = None, cs_payload = [],
     cs_seed = JNull, cs_started = []\<rparr>"
  have bgn: "cache_begin plain_host unit_numerics (\<lambda>_. []) sample_job ctx ?w = (?w, Inr st0)"
    using ne by (simp add: cache_begin_def path_exists_def sample_job_def fs0 st0_def Let_def)
  have emb: "embed unit_numerics sample_client [u ''a'', u ''b''] None = Inr (1, ?rows)"
    using sample_response_rows
    by (simp add: embed_def embed_traced_def sample_client_def upt_rec numeral_2_eq_2 retryable_def Let_def)
  have hd: "cache_header sample_job ctx 1 = Inr header"
    using h by (simp add: cache_header_def ctx_def ident_def sample_job_def)
  let ?w1 = "write_behind ?w ?P [] header"
  let ?st1 = "st0\<lparr>cs_dimension := Some 1, cs_header := Some (int (length header))\<rparr>"
  let ?w2 = "atomic_write_json plain_host ?w1 ?K (cache_checkpoint ctx plain_host (?st1\<lparr>cs_completed := 0\<rparr>) ''running'' [] [])"
  let ?w3 = "append_file ?w2 ?P (concat ?rows)"
  let ?st2 = "?st1\<lparr>cs_payload := concat ?rows, cs_completed := 2\<rparr>"
  let ?w4 = "atomic_write_json plain_host ?w3 ?K (cache_checkpoint ctx plain_host ?st2 ''running'' [] [])"
  have sel: "cj_cache sample_job = u ''c''" "cs_dimension st0 = None" by (simp_all add: sample_job_def st0_def)
  have create: "cache_create plain_host (\<lambda>_. []) sample_job ctx ?w st0 1 = (?w2, Inr ?st1)"
    using ne by (simp add: cache_create_def hd create_file_def path_exists_def fs0 sel Let_def)
  have app: "cache_append plain_host (\<lambda>_. []) sample_job ctx ?w2 ?st1 [u ''a'', u ''b''] ?rows = (?w4, Inr ?st2)"
    unfolding cache_append_def sel Let_def by (simp add: st0_def)
  have step: "cache_step plain_host (\<lambda>_. []) sample_job ctx ?w st0 [u ''a'', u ''b''] (1, ?rows) = (?w4, Inr ?st2)"
    using create app by (simp add: cache_step_def sel)
  have batches: "cache_batches plain_host unit_numerics (\<lambda>_. []) sample_job ctx sample_client ?w st0 = (?w4, Inr ?st2)"
    using lines step emb by (simp add: cache_batches_sequential open_rb_file_at fs0 sample_job_def iter_batches_def st0_def Let_def)
  have fs4: "fs_resolve (fs ?w4) = id" "file_at (fs ?w4) (u ''src'') = Some ?src" "file_at (fs ?w4) ?P = Some ?F"
    using ne by (simp_all add: atomic_write_json_def append_file_def fs0)
  obtain m where v4: "cache_verified plain_host unit_numerics sample_job (fs ?w4) ?P = Inr m" using ver [OF fs4] by blast
  have sha: "sha256_file plain_host (fs ?w4) ?P 0 None = Inr (sha_hex plain_host ?F)"
    using fs4(3) by (simp add: sha256_file_def open_rb_file_at sha256_bytes_all)
  let ?w5 = "atomic_write_json plain_host ?w4 ?K (cache_checkpoint ctx plain_host ?st2 ''ready-to-publish''
       [(''cache_sha256'', JStr (sha_hex plain_host ?F))] [])"
  let ?w6 = "replace_file ?w5 ?P (u ''c'')"
  have frame: "fs_resolve (fs (replace_file (atomic_write_json plain_host v ?K j) ?P (u ''c''))) = id
      \<and> file_at (fs (replace_file (atomic_write_json plain_host v ?K j) ?P (u ''c''))) (u ''src'') = Some ?src
      \<and> file_at (fs (replace_file (atomic_write_json plain_host v ?K j) ?P (u ''c''))) (u ''c'') = Some content"
    if "fs_resolve (fs v) = id" "file_at (fs v) (u ''src'') = Some ?src" "file_at (fs v) ?P = Some content" for v j content
    using ne that by (simp add: atomic_write_json_def replace_file_def)
  have fs6: "fs_resolve (fs ?w6) = id" "file_at (fs ?w6) (u ''src'') = Some ?src" "file_at (fs ?w6) (u ''c'') = Some ?F"
    using frame [OF fs4] by blast+
  obtain m' where v6: "cache_verified plain_host unit_numerics sample_job (fs ?w6) (u ''c'') = Inr m'" using ver [OF fs6] by blast
  have "cs_completed ?st2 = int (si_lines (cc_source ctx))" by (simp add: ctx_def ident_def)
  then have repl: "cache_replace plain_host unit_numerics (\<lambda>_. []) sample_job ctx ?w4 ?st2 = (?w6, Inr (m', sha_hex plain_host ?F))"
    using v4 v6 sha unfolding cache_replace_def sel Let_def by simp
  have "\<exists>w' d. cache_publish plain_host unit_numerics (\<lambda>_. []) sample_job ctx sample_client ?w4 ?st2 = (w', Inr d)"
    using repl by (simp add: cache_publish_def Let_def)
  then obtain w w' st d where pub: "cache_publish plain_host unit_numerics (\<lambda>_. []) sample_job ctx sample_client w st = (w', Inr d)"
    and bat: "cache_batches plain_host unit_numerics (\<lambda>_. []) sample_job ctx sample_client ?w st0 = (w, Inr st)"
    using batches by blast
  have "\<not> path_exists two_line_fs (cj_cache sample_job)" using sample_paths(2) by (simp add: path_exists_def)
  then show ?thesis
    by (simp add: generate_cache_def inputs bgn bat pub)
qed


theorem cache_appears_complete_witness:
  "\<exists>w' declared content. generate_cache plain_host unit_numerics (\<lambda>_. []) sample_client sample_job (boot two_line_fs) = (w', Inr declared)
     \<and> file_at (fs w') (u ''c'') = Some content \<and> complete_cache plain_host unit_numerics sample_job (fs w') content"
proof -
  obtain w' declared where g: "generate_cache plain_host unit_numerics (\<lambda>_. []) sample_client sample_job (boot two_line_fs) = (w', Inr declared)"
    using sample_generated by blast
  have "cache_paths_ok sample_job (fs (boot two_line_fs))" "file_at (fs (boot two_line_fs)) (cj_cache sample_job) = None"
    using sample_paths by simp_all
  from cache_appears_complete [OF g this] show ?thesis using g by (auto simp: sample_job_def)
qed

end
