(* ===== verification/Stage.thy ===== *)
theory Stage
  imports Restart
begin

text \<open>
  The repeated command stages of \<open>run_large_scale_benchmark.py\<close>: \<open>run_observation\<close>,
  \<open>parse_native_metrics\<close>, \<open>prefix_artifacts\<close> and \<open>run_repeated_stage\<close>, whose progress is one
  state document on the disk. The commands themselves are a parameter: what a process writes, with
  the disks seen meanwhile, and how it ends. The lemmas show that the state document is well formed at
  every moment, that an interrupted stage resumes where it stopped, and what is executed.
\<close>

subsection \<open>Observing a command\<close>

text \<open>\<open>shlex.join\<close>.\<close>

definition shell_safe :: "nat \<Rightarrow> bool" where
  "shell_safe c \<longleftrightarrow> (48 \<le> c \<and> c \<le> 57) \<or> (65 \<le> c \<and> c \<le> 90) \<or> (97 \<le> c \<and> c \<le> 122)
     \<or> c \<in> set (u ''_@%+=:,./-'')"

definition shell_quote :: "pystr \<Rightarrow> pystr" where
  "shell_quote s =
     (if s = [] then [39, 39]
      else if list_all shell_safe s then s
      else 39 # concat (map (\<lambda>c. if c = 39 then [39, 34, 39, 34, 39] else [c]) s) @ [39])"

text \<open>
  How a process ended: its exit code, what it wrote, its wall time and \<open>ru_maxrss\<close> where \<open>wait4\<close> exists.
\<close>

record process =
  pr_exit :: int
  pr_stdout :: bytes
  pr_stderr :: bytes
  pr_wall :: pyfloat
  pr_maxrss :: "int option"

text \<open>\<open>se_exec\<close> is \<open>None\<close> when the program cannot be started.\<close>

record stage_env =
  se_exec :: "pystr list \<Rightarrow> fsys \<Rightarrow> (fsys list \<times> fsys \<times> process) option"
  se_darwin :: bool
  se_now :: "nat \<Rightarrow> pystr"

definition peak_rss :: "stage_env \<Rightarrow> process \<Rightarrow> json \<times> pystr" where
  "peak_rss env p =
     (case pr_maxrss p of
        None \<Rightarrow> (JNull, u ''unavailable'')
      | Some k \<Rightarrow>
          if se_darwin env then (JInt k, u ''wait4 direct-child ru_maxrss (bytes)'')
          else (JInt (k * 1024), u ''wait4 direct-child ru_maxrss (KiB converted to bytes)''))"

definition executable_json :: "host \<Rightarrow> fsys \<Rightarrow> pystr \<Rightarrow> json" where
  "executable_json h d p =
     (if path_exists d p then snapshot_json (hd (snapshot_files h d [p])) else JNull)"

definition observation_json ::
  "host \<Rightarrow> stage_env \<Rightarrow> pystr \<Rightarrow> pystr list \<Rightarrow> fsys \<Rightarrow> process \<Rightarrow> pystr \<Rightarrow> pystr \<Rightarrow> jobj" where
  "observation_json h env cwd command d p started finished = jobj
     [(''command'', JArr (map JStr command)),
      (''command_display'', JStr (py_join (u '' '') (map shell_quote command))),
      (''measurement_wrapper'', JNull), (''cwd'', JStr (fs_resolve d cwd)), (''environment_overrides'', JObj []),
      (''started_at'', JStr started), (''finished_at'', JStr finished), (''wall_seconds'', JFloat (pr_wall p)),
      (''peak_rss_bytes'', fst (peak_rss env p)), (''peak_rss_source'', JStr (snd (peak_rss env p))),
      (''exit_code'', JInt (pr_exit p)), (''stdout'', JStr (utf8_decode_replace (pr_stdout p))),
      (''stderr'', JStr (utf8_decode_replace (pr_stderr p))),
      (''executable'', executable_json h d (hd command))]"

definition run_observation ::
  "host \<Rightarrow> stage_env \<Rightarrow> pystr \<Rightarrow> world \<Rightarrow> pystr list \<Rightarrow> world \<times> (jobj \<times> process) res" where
  "run_observation h env cwd w command =
     (if command = [] then (w, Inl (ValueError ''command must be a non-empty argv string list''))
      else case se_exec env command (fs w) of
        None \<Rightarrow> (w, Inl (OSError ''cannot execute''))
      | Some (meanwhile, d, p) \<Rightarrow>
          let w1 = \<lparr>fs = d, past = past w @ fs w # meanwhile\<rparr> in
          (w1, Inr (observation_json h env cwd command d p (se_now env (length (past w)))
             (se_now env (length (past w1))), p)))"

subsection \<open>Native metrics\<close>

definition metric_value :: "pystr \<Rightarrow> json" where
  "metric_value v =
     (case py_int v of Some i \<Rightarrow> JInt i | None \<Rightarrow>
      case py_float v of Some f \<Rightarrow> JFloat f | None \<Rightarrow> JStr v)"

fun metric_lines :: "jobj \<Rightarrow> pystr list \<Rightarrow> jobj" where
  "metric_lines metrics [] = metrics"
| "metric_lines metrics (line # ls) =
     (if 61 \<notin> set line then metric_lines metrics ls
      else case split_once 61 line of (key, v) \<Rightarrow>
        metric_lines (dict_set metrics (py_strip key) (metric_value (py_strip v))) ls)"

definition parse_native_metrics :: "pystr \<Rightarrow> jobj" where
  "parse_native_metrics output = metric_lines [] (py_splitlines [] output)"

subsection \<open>Artifacts of a prefix\<close>

definition is_build_residue :: "pystr \<Rightarrow> bool" where
  "is_build_residue name \<longleftrightarrow> has_sub (u ''.tmp.'') name \<or> has_sub (u ''.bak.'') name
     \<or> endswith name (u ''.tmp'') \<or> endswith name (u ''.bak'')"

text \<open>\<open>Path.stem\<close>: a dot that is neither first nor last ends it.\<close>

definition path_stem :: "pystr \<Rightarrow> pystr" where
  "path_stem p =
     (let name = path_name p; tail = length (takeWhile (\<lambda>c. c \<noteq> 46) (rev name)) in
      if 46 \<in> set name \<and> 0 < tail \<and> Suc tail < length name then take (length name - Suc tail) name else name)"

text \<open>
  \<open>parent.glob(pattern)\<close>, where \<open>listing\<close> gives the names of the directory, for a prefix without the
  characters a pattern treats specially.
\<close>

definition prefix_artifacts :: "(fsys \<Rightarrow> pystr \<Rightarrow> pystr list) \<Rightarrow> pystr \<Rightarrow> bool \<Rightarrow> fsys \<Rightarrow> pystr list" where
  "prefix_artifacts listing base official d =
     (let p = fs_resolve d base;
          start = (if official then path_stem p else path_name p @ u ''.'')
      in filter (\<lambda>q. path_exists d q \<and> \<not> is_build_residue (path_name q))
           (map (path_join (path_parent p)) (filter (\<lambda>name. startswith name start) (listing d (path_parent p)))))"

subsection \<open>The state document\<close>

datatype kind = Warmups | Measurements

fun kind_key :: "kind \<Rightarrow> string" where
  "kind_key Warmups = ''warmups''"
| "kind_key Measurements = ''measurements''"

record stage_job =
  sj_name :: pystr
  sj_dir :: pystr
  sj_inputs :: jobj
  sj_command :: "kind \<Rightarrow> nat \<Rightarrow> pystr list \<times> pystr option"
  sj_artifacts :: "fsys \<Rightarrow> pystr list"
  sj_cwd :: pystr
  sj_warmups :: int
  sj_repetitions :: int

fun wanted :: "stage_job \<Rightarrow> kind \<Rightarrow> int" where
  "wanted job Warmups = sj_warmups job"
| "wanted job Measurements = sj_repetitions job"

definition stage_path :: "stage_job \<Rightarrow> pystr" where
  "stage_path job = path_join (sj_dir job) (sj_name job @ u ''.json'')"

definition stage_protocol :: "stage_job \<Rightarrow> json" where
  "stage_protocol job = JObj (jobj [(''warmups'', JInt (sj_warmups job)), (''repetitions'', JInt (sj_repetitions job))])"

definition stage_inputs :: "stage_job \<Rightarrow> json" where
  "stage_inputs job = JObj (dict_set (sj_inputs job) (u ''execution_protocol'') (stage_protocol job))"

definition stage_arguments :: "stage_job \<Rightarrow> unit res" where
  "stage_arguments job =
     (if sj_warmups job < 0 \<or> sj_repetitions job \<le> 0
        then Inl (ValueError ''warmups must be non-negative and repetitions positive'')
      else if jhas (sj_inputs job) ''execution_protocol''
          \<and> \<not> py_eq (jget (sj_inputs job) ''execution_protocol'') (stage_protocol job)
        then Inl (ValueError ''input execution protocol disagrees with requested counts'')
      else Inr ())"

text \<open>The list under a key of the state, and \<open>len\<close> of it.\<close>

definition arr :: "jobj \<Rightarrow> string \<Rightarrow> json list" where
  "arr m k = (case jget m k of JArr xs \<Rightarrow> xs | _ \<Rightarrow> [])"

abbreviation taken :: "jobj \<Rightarrow> kind \<Rightarrow> nat" where
  "taken m kind \<equiv> length (arr m (kind_key kind))"

definition observation_named :: "kind \<Rightarrow> nat \<Rightarrow> json \<Rightarrow> bool" where
  "observation_named kind ordinal v =
     (case v of
        JObj o1 \<Rightarrow> py_eq (jget o1 ''kind'') (JStr (u (kind_key kind))) \<and> py_eq (jget o1 ''ordinal'') (JInt (int ordinal))
      | _ \<Rightarrow> False)"

definition check_kind :: "stage_job \<Rightarrow> jobj \<Rightarrow> kind \<Rightarrow> unit res" where
  "check_kind job m kind =
     (case jget m (kind_key kind) of
        JArr xs \<Rightarrow>
          if wanted job kind < int (length xs)
            then Inl (RuntimeError ''checkpoint contains more than requested'')
          else if \<not> list_all (\<lambda>(i, v). observation_named kind i v) (enumerate 0 xs)
            then Inl (RuntimeError ''observation identity mismatch'')
          else Inr ()
      | _ \<Rightarrow> Inl (RuntimeError ''state is not an array''))"

text \<open>\<open>status not in {...}\<close>, which raises on a status that cannot be hashed.\<close>

definition check_status :: "json \<Rightarrow> unit res" where
  "check_status v =
     (case v of
        JArr _ \<Rightarrow> Inl (TypeError ''unhashable'')
      | JObj _ \<Rightarrow> Inl (TypeError ''unhashable'')
      | _ \<Rightarrow>
          if v \<in> {JStr (u ''running''), JStr (u ''failed''), JStr (u ''complete'')} then Inr ()
          else Inl (RuntimeError ''existing stage status is invalid''))"

definition stage_validate :: "host \<Rightarrow> stage_job \<Rightarrow> jobj \<Rightarrow> unit res" where
  "stage_validate h job m =
     (if \<not> py_eq (jget m ''schema'') (JStr (u ''leann-command-stage-v1'')) \<or> \<not> py_eq (jget m ''name'') (JStr (sj_name job))
          \<or> \<not> py_eq (jget m ''inputs'') (stage_inputs job)
        then Inl (RuntimeError ''existing stage state identity mismatch'')
      else if \<not> py_eq (jget m ''input_hash'') (JStr (canonical_hash h (stage_inputs job)))
        then Inl (RuntimeError ''existing stage state belongs to different inputs'')
      else case check_status (jget m ''status'') of Inl e \<Rightarrow> Inl e | Inr _ \<Rightarrow>
      case check_kind job m Warmups of Inl e \<Rightarrow> Inl e | Inr _ \<Rightarrow>
      check_kind job m Measurements)"

definition artifacts_json :: "host \<Rightarrow> stage_job \<Rightarrow> fsys \<Rightarrow> json" where
  "artifacts_json h job d = JArr (map snapshot_json (snapshot_files h d (sj_artifacts job d)))"

text \<open>\<open>state["measurements"][-1].get("artifacts", [])\<close>.\<close>

definition recorded_artifacts :: "jobj \<Rightarrow> json" where
  "recorded_artifacts m =
     (case last (arr m ''measurements'') of
        JObj o1 \<Rightarrow> if jhas o1 ''artifacts'' then jget o1 ''artifacts'' else JArr []
      | _ \<Rightarrow> JArr [])"

definition stage_reuse :: "host \<Rightarrow> stage_job \<Rightarrow> fsys \<Rightarrow> jobj \<Rightarrow> unit res" where
  "stage_reuse h job d m =
     (if int (taken m Warmups) \<noteq> sj_warmups job \<or> int (taken m Measurements) \<noteq> sj_repetitions job
        then Inl (RuntimeError ''completed stage has incomplete observation counts'')
      else if \<not> py_eq (artifacts_json h job d) (recorded_artifacts m)
        then Inl (RuntimeError ''completed-stage artifacts changed; refuse stale reuse'')
      else Inr ())"

definition stage_fresh :: "host \<Rightarrow> stage_job \<Rightarrow> pystr \<Rightarrow> jobj" where
  "stage_fresh h job now = jobj
     [(''schema'', JStr (u ''leann-command-stage-v1'')), (''name'', JStr (sj_name job)),
      (''input_hash'', JStr (canonical_hash h (stage_inputs job))), (''inputs'', stage_inputs job),
      (''status'', JStr (u ''running'')), (''warmups'', JArr []), (''measurements'', JArr []),
      (''failed_attempts'', JArr []), (''created_at'', JStr now)]"

text \<open>The state to go on from; \<open>True\<close> with it when the stage is complete already.\<close>

definition stage_open :: "host \<Rightarrow> stage_env \<Rightarrow> stage_job \<Rightarrow> world \<Rightarrow> (bool \<times> jobj) res" where
  "stage_open h env job w =
     (if path_exists (fs w) (stage_path job) then
        (case load_json h (fs w) (stage_path job) of Inl e \<Rightarrow> Inl e | Inr (JObj m) \<Rightarrow>
           (case stage_validate h job m of Inl e \<Rightarrow> Inl e | Inr _ \<Rightarrow>
            if jget m ''status'' = JStr (u ''complete'') then
              (case stage_reuse h job (fs w) m of Inl e \<Rightarrow> Inl e | Inr _ \<Rightarrow> Inr (True, m))
            else Inr (False, m))
         | Inr _ \<Rightarrow> Inl (AttributeError ''get''))
      else Inr (False, stage_fresh h job (se_now env (length (past w)))))"

subsection \<open>One observation of a stage\<close>

definition with_result :: "host \<Rightarrow> fsys \<Rightarrow> pystr option \<Rightarrow> jobj \<Rightarrow> jobj res" where
  "with_result h d output obs =
     (case output of
        None \<Rightarrow> Inr obs
      | Some p \<Rightarrow>
          if \<not> path_exists d p then Inr obs
          else let obs1 = dict_set obs (u ''result_file'') (snapshot_json (hd (snapshot_files h d [p]))) in
            case load_json h d p of
              Inr v \<Rightarrow> Inr (dict_set obs1 (u ''result'') v)
            | Inl _ \<Rightarrow>
                (case open_rb d p of Inl e \<Rightarrow> Inl e | Inr content \<Rightarrow>
                 Inr (dict_set obs1 (u ''raw_result'') (JStr (universal_newlines (utf8_decode_replace content))))))"

definition annotate ::
  "host \<Rightarrow> stage_job \<Rightarrow> kind \<Rightarrow> nat \<Rightarrow> pystr option \<Rightarrow> fsys \<Rightarrow> jobj \<Rightarrow> process \<Rightarrow> jobj res" where
  "annotate h job kind ordinal output d obs p =
     (case with_result h d output
        (dict_set (dict_set obs (u ''kind'') (JStr (u (kind_key kind)))) (u ''ordinal'') (JInt (int ordinal))) of
        Inl e \<Rightarrow> Inl e
      | Inr obs1 \<Rightarrow>
          let obs2 = (if startswith (sj_name job) (u ''native-'')
                then dict_set obs1 (u ''parsed_stdout'') (JObj (parse_native_metrics (utf8_decode_replace (pr_stdout p))))
                else obs1)
          in Inr (dict_set obs2 (u ''artifacts'') (artifacts_json h job d)))"

definition append_to :: "jobj \<Rightarrow> string \<Rightarrow> json \<Rightarrow> jobj res" where
  "append_to m k v =
     (case jidx m k of Inl e \<Rightarrow> Inl e | Inr (JArr xs) \<Rightarrow> Inr (dict_set m (u k) (JArr (xs @ [v])))
      | Inr _ \<Rightarrow> Inl (AttributeError ''append''))"

definition set_status :: "jobj \<Rightarrow> string \<Rightarrow> string \<Rightarrow> pystr \<Rightarrow> jobj" where
  "set_status m status stamp now =
     dict_set (dict_set m (u ''status'') (JStr (u status))) (u stamp) (JStr now)"

definition write_state :: "host \<Rightarrow> stage_job \<Rightarrow> world \<Rightarrow> jobj \<Rightarrow> world" where
  "write_state h job w m = atomic_write_json h w (stage_path job) (JObj m)"

definition record_failure :: "host \<Rightarrow> stage_env \<Rightarrow> stage_job \<Rightarrow> world \<Rightarrow> jobj \<Rightarrow> jobj \<Rightarrow> world \<times> jobj res" where
  "record_failure h env job w m obs =
     (case append_to m ''failed_attempts'' (JObj obs) of Inl e \<Rightarrow> (w, Inl e) | Inr m1 \<Rightarrow>
      (write_state h job w (set_status m1 ''failed'' ''updated_at'' (se_now env (length (past w)))),
       Inl (RuntimeError ''failed with exit'')))"

definition stage_step ::
  "host \<Rightarrow> stage_env \<Rightarrow> stage_job \<Rightarrow> kind \<Rightarrow> world \<Rightarrow> jobj \<Rightarrow> world \<times> jobj res" where
  "stage_step h env job kind w m =
     (case sj_command job kind (taken m kind) of (command, output) \<Rightarrow>
      case run_observation h env (sj_cwd job) w command of (w1, Inl e) \<Rightarrow> (w1, Inl e) | (w1, Inr (obs, p)) \<Rightarrow>
      case annotate h job kind (taken m kind) output (fs w1) obs p of Inl e \<Rightarrow> (w1, Inl e) | Inr obs1 \<Rightarrow>
      if pr_exit p \<noteq> 0 then record_failure h env job w1 m obs1
      else case append_to m (kind_key kind) (JObj obs1) of Inl e \<Rightarrow> (w1, Inl e) | Inr m1 \<Rightarrow>
        let m2 = set_status m1 ''running'' ''updated_at'' (se_now env (length (past w1))) in
        (write_state h job w1 m2, Inr m2))"

text \<open>
  The loop \<open>while len(state[kind]) < wanted\<close>. The list that comes with the result names the
  observations that were attempted, in order.
\<close>

lemma kind_key_fresh [simp]:
  "k \<in> {''schema'', ''name'', ''input_hash'', ''inputs'', ''status'', ''failed_attempts'', ''created_at'', ''updated_at'',
     ''completed_at''} \<Longrightarrow> kind_key kind \<noteq> k"
  "kind_key kind = kind_key kind' \<longleftrightarrow> kind = kind'"
  by (cases kind; auto) (cases kind; cases kind'; simp)

lemma taken_set_status [simp]: "stamp = ''updated_at'' \<or> stamp = ''completed_at'' \<Longrightarrow>
    taken (set_status m status stamp now) kind = taken m kind"
  by (cases kind) (auto simp: set_status_def arr_def jget_def)

lemma append_to_ok:
  "append_to m k v = Inr m1 \<longleftrightarrow> (\<exists>xs. map_of m (u k) = Some (JArr xs) \<and> m1 = dict_set m (u k) (JArr (xs @ [v])))"
  by (auto simp: append_to_def jidx_def split: option.splits json.splits)

lemma stage_step_taken: "stage_step h env job kind w m = (w1, Inr m1) \<Longrightarrow> taken m1 kind = Suc (taken m kind)"
  by (auto simp: stage_step_def record_failure_def append_to_ok arr_def jget_def Let_def
      split: prod.splits sum.splits if_splits)
    (simp add: set_status_def jget_def)

function stage_while ::
  "host \<Rightarrow> stage_env \<Rightarrow> stage_job \<Rightarrow> kind \<Rightarrow> world \<Rightarrow> jobj \<Rightarrow> world \<times> (kind \<times> nat) list \<times> jobj res" where
  "stage_while h env job kind w m =
     (if int (taken m kind) < wanted job kind then
        (case stage_step h env job kind w m of
           (w1, Inl e) \<Rightarrow> (w1, [(kind, taken m kind)], Inl e)
         | (w1, Inr m1) \<Rightarrow>
             (case stage_while h env job kind w1 m1 of (w2, attempts, r) \<Rightarrow>
                (w2, (kind, taken m kind) # attempts, r)))
      else (w, [], Inr m))"
  by pat_completeness auto
termination
  by (relation "measure (\<lambda>(h, env, job, kind, w, m). nat (wanted job kind - int (taken m kind)))")
    (auto dest!: stage_step_taken [OF sym])

declare stage_while.simps [simp del]

definition stage_complete :: "host \<Rightarrow> stage_env \<Rightarrow> stage_job \<Rightarrow> world \<Rightarrow> jobj \<Rightarrow> world \<times> jobj" where
  "stage_complete h env job w m =
     (let m1 = set_status m ''complete'' ''completed_at'' (se_now env (length (past w)))
      in (write_state h job w m1, m1))"

definition run_repeated_stage ::
  "host \<Rightarrow> stage_env \<Rightarrow> stage_job \<Rightarrow> world \<Rightarrow> world \<times> (kind \<times> nat) list \<times> jobj res" where
  "run_repeated_stage h env job w =
     (case stage_arguments job of Inl e \<Rightarrow> (w, [], Inl e) | Inr _ \<Rightarrow>
      case stage_open h env job w of Inl e \<Rightarrow> (w, [], Inl e) | Inr (finished, m) \<Rightarrow>
      if finished then (w, [], Inr m)
      else case stage_while h env job Warmups w m of (w1, a1, Inl e) \<Rightarrow> (w1, a1, Inl e) | (w1, a1, Inr m1) \<Rightarrow>
        case stage_while h env job Measurements w1 m1 of (w2, a2, Inl e) \<Rightarrow> (w2, a1 @ a2, Inl e) | (w2, a2, Inr m2) \<Rightarrow>
        (case stage_complete h env job w2 m2 of (w3, m3) \<Rightarrow> (w3, a1 @ a2, Inr m3)))"

subsection \<open>The state document is well formed\<close>

definition observation_good :: "kind \<Rightarrow> nat \<Rightarrow> json \<Rightarrow> bool" where
  "observation_good kind i v =
     (case v of
        JObj o1 \<Rightarrow> jget o1 ''kind'' = JStr (u (kind_key kind)) \<and> jget o1 ''ordinal'' = JInt (int i)
          \<and> jget o1 ''exit_code'' = JInt 0
      | _ \<Rightarrow> False)"

definition observations_good :: "stage_job \<Rightarrow> jobj \<Rightarrow> kind \<Rightarrow> bool" where
  "observations_good job m kind \<longleftrightarrow>
     jget m (kind_key kind) = JArr (arr m (kind_key kind)) \<and> int (taken m kind) \<le> wanted job kind
     \<and> (\<forall>i < taken m kind. observation_good kind i (arr m (kind_key kind) ! i))"

definition is_complete :: "jobj \<Rightarrow> bool" where
  "is_complete m \<longleftrightarrow> jget m ''status'' = JStr (u ''complete'')"

definition stage_identity :: "host \<Rightarrow> stage_job \<Rightarrow> jobj \<Rightarrow> bool" where
  "stage_identity h job m \<longleftrightarrow>
     jget m ''schema'' = JStr (u ''leann-command-stage-v1'') \<and> jget m ''name'' = JStr (sj_name job)
     \<and> py_eq (jget m ''inputs'') (stage_inputs job) \<and> jget m ''input_hash'' = JStr (canonical_hash h (stage_inputs job))
     \<and> jget m ''status'' \<in> {JStr (u ''running''), JStr (u ''failed''), JStr (u ''complete'')}
     \<and> jget m ''failed_attempts'' = JArr (arr m ''failed_attempts'')"

text \<open>
  A state document of a job: its identity, successful observations numbered from 0, warmups before
  measurements, and complete only with all of them.
\<close>

definition stage_doc :: "host \<Rightarrow> stage_job \<Rightarrow> jobj \<Rightarrow> bool" where
  "stage_doc h job m \<longleftrightarrow>
     json_plain (JObj m) \<and> stage_identity h job m
     \<and> observations_good job m Warmups \<and> observations_good job m Measurements
     \<and> (arr m ''measurements'' \<noteq> [] \<longrightarrow> int (taken m Warmups) = sj_warmups job)
     \<and> (is_complete m \<longrightarrow> int (taken m Warmups) = sj_warmups job \<and> int (taken m Measurements) = sj_repetitions job)"

definition artifacts_match :: "host \<Rightarrow> stage_job \<Rightarrow> fsys \<Rightarrow> jobj \<Rightarrow> bool" where
  "artifacts_match h job d m \<longleftrightarrow>
     (int (taken m Measurements) = sj_repetitions job \<longrightarrow> py_eq (artifacts_json h job d) (recorded_artifacts m))"

definition document_bytes :: "host \<Rightarrow> jobj \<Rightarrow> bytes" where
  "document_bytes h m = dumps_indent h (JObj m) @ [10]"

definition stage_disk :: "host \<Rightarrow> stage_job \<Rightarrow> fsys \<Rightarrow> bool" where
  "stage_disk h job d \<longleftrightarrow> file_at d (stage_path job) = None
     \<or> (\<exists>m. stage_doc h job m \<and> artifacts_match h job d m \<and> file_at d (stage_path job) = Some (document_bytes h m))"

text \<open>Reading the document back sorts its keys; nothing the stage looks at changes.\<close>

lemma arr_sorted:
  assumes "json_plain (JObj m)" and "json_sorted (JObj m) = JObj n"
  shows "arr n k = map json_sorted (arr m k)"
  unfolding arr_def jget_sorted [OF assms] by (cases "jget m k") simp_all

lemma plain_item: "json_plain (JObj m) \<Longrightarrow> json_plain (jget m k)"
proof (cases "map_of m (u k)")
  case (Some v)
  then have "(u k, v) \<in> set m" by (rule map_of_SomeD)
  moreover assume "json_plain (JObj m)"
  ultimately show ?thesis using Some by (fastforce simp: jget_def list_all_iff)
qed (simp add: jget_def)

lemma plain_arr: "json_plain (JObj m) \<Longrightarrow> v \<in> set (arr m k) \<Longrightarrow> json_plain v"
  using plain_item [of m k] by (cases "jget m k") (auto simp: arr_def list_all_iff)

lemma observation_good_sorted:
  assumes "json_plain v" and "observation_good kind i v"
  shows "observation_good kind i (json_sorted v)"
proof -
  from assms(2) obtain o1 where o1: "v = JObj o1" by (auto simp: observation_good_def split: json.splits)
  obtain o2 where o2: "json_sorted (JObj o1) = JObj o2" by simp
  have "jget o2 k = json_sorted (jget o1 k)" for k using jget_sorted [OF _ o2] assms(1) o1 by simp
  then show ?thesis using assms(2) unfolding o1 o2 by (simp add: observation_good_def)
qed

lemma recorded_artifacts_sorted:
  assumes m: "json_plain (JObj m)" "json_sorted (JObj m) = JObj n" and ne: "arr m ''measurements'' \<noteq> []"
  shows "py_eq x (recorded_artifacts n) = py_eq x (recorded_artifacts m)"
proof -
  let ?v = "last (arr m ''measurements'')"
  have v: "json_plain ?v" by (rule plain_arr [OF m(1) last_in_set [OF ne]])
  have l: "last (arr n ''measurements'') = json_sorted ?v" using ne arr_sorted [OF m] by (simp add: last_map)
  show ?thesis
  proof (cases ?v)
    case (JObj o1)
    obtain o2 where o2: "json_sorted (JObj o1) = JObj o2" by simp
    have o1: "json_plain (JObj o1)" using v JObj by simp
    have "jhas o2 k = jhas o1 k" for k using json_sorted_lookup [OF o1 o2] by (simp add: jhas_def)
    then show ?thesis using jget_sorted [OF o1 o2] o2 py_eq_sorted_right [OF plain_item [OF o1]]
      by (simp add: recorded_artifacts_def l JObj)
  qed (simp_all add: recorded_artifacts_def l)
qed

lemma stage_doc_sorted:
  assumes doc: "stage_doc h job m" and n: "json_sorted (JObj m) = JObj n"
  shows "stage_doc h job n" and "taken n kind = taken m kind" and "is_complete n = is_complete m"
proof -
  have m: "json_plain (JObj m)" using doc by (simp add: stage_doc_def)
  have get: "jget n k = json_sorted (jget m k)" and ar: "arr n k = map json_sorted (arr m k)" for k
    using jget_sorted [OF m n] arr_sorted [OF m n] by simp_all
  show t: "taken n kind = taken m kind" for kind by (simp add: ar)
  have str: "json_sorted v = JStr s \<longleftrightarrow> v = JStr s" for v s by (cases v) auto
  then show c: "is_complete n = is_complete m" by (simp add: is_complete_def get)
  have "observations_good job n kind" if "observations_good job m kind" for kind
    using that by (auto simp: observations_good_def get ar intro!: observation_good_sorted plain_arr [OF m nth_mem])
  moreover have "stage_identity h job n" if "stage_identity h job m"
    using that by (auto simp: stage_identity_def get ar py_eq_sorted_left)
  moreover have "json_plain (JObj n)" using json_plain_sorted [OF m] n by simp
  moreover have "arr n ''measurements'' = [] \<longleftrightarrow> arr m ''measurements'' = []" by (simp add: ar)
  ultimately show "stage_doc h job n"
    using doc t [of Warmups] t [of Measurements] c unfolding stage_doc_def by simp
qed

subsection \<open>Opening a stage\<close>

text \<open>
  What the runs rely on: the inputs are a document, the commands and the artifacts have nothing to do
  with the state document.
\<close>

definition stage_job_ok :: "host \<Rightarrow> stage_job \<Rightarrow> bool" where
  "stage_job_ok h job \<longleftrightarrow>
     stage_arguments job = Inr () \<and> json_plain (stage_inputs job) \<and> json_no_nan (stage_inputs job)
     \<and> (\<forall>d c. artifacts_json h job (set_file d (stage_path job) c) = artifacts_json h job d)"

definition stage_env_ok :: "stage_job \<Rightarrow> stage_env \<Rightarrow> bool" where
  "stage_env_ok job env \<longleftrightarrow>
     (\<forall>command d. case se_exec env command d of None \<Rightarrow> True | Some (meanwhile, d', p) \<Rightarrow>
        \<forall>x \<in> set (d' # meanwhile). fs_resolve x = fs_resolve d \<and> file_at x (stage_path job) = file_at d (stage_path job))"

definition stage_succeeds :: "stage_job \<Rightarrow> stage_env \<Rightarrow> bool" where
  "stage_succeeds job env \<longleftrightarrow>
     (\<forall>kind n. fst (sj_command job kind n) \<noteq> []
        \<and> (\<forall>d. case se_exec env (fst (sj_command job kind n)) d of None \<Rightarrow> False | Some (_, _, p) \<Rightarrow> pr_exit p = 0))"

lemma stage_job_counts: "stage_job_ok h job \<Longrightarrow> 0 \<le> sj_warmups job \<and> 0 < sj_repetitions job"
  by (auto simp: stage_job_ok_def stage_arguments_def split: if_splits)

lemma observation_good_named: "observation_good kind i v \<Longrightarrow> observation_named kind i v"
  by (auto simp: observation_good_def observation_named_def split: json.splits)

lemma check_kind_good: "observations_good job m kind \<Longrightarrow> check_kind job m kind = Inr ()"
  unfolding observations_good_def check_kind_def
  by (auto simp: list_all_length nth_enumerate_eq observation_good_named split: json.splits)

lemma stage_validate_doc: "stage_doc h job m \<Longrightarrow> stage_validate h job m = Inr ()"
  unfolding stage_doc_def stage_validate_def stage_identity_def
  by (auto simp: check_kind_good check_status_def)

lemma stage_reuse_doc:
  "stage_doc h job m \<Longrightarrow> is_complete m \<Longrightarrow>
     stage_reuse h job d m = (if artifacts_match h job d m then Inr () else
       Inl (RuntimeError ''completed-stage artifacts changed; refuse stale reuse''))"
  by (auto simp: stage_doc_def stage_reuse_def artifacts_match_def)

text \<open>How many observations of a kind are on the disk.\<close>

definition recorded :: "host \<Rightarrow> stage_job \<Rightarrow> fsys \<Rightarrow> kind \<Rightarrow> nat" where
  "recorded h job d kind =
     (case load_json h d (stage_path job) of Inr (JObj m) \<Rightarrow> taken m kind | _ \<Rightarrow> 0)"

definition on_disk :: "host \<Rightarrow> stage_job \<Rightarrow> fsys \<Rightarrow> jobj \<Rightarrow> bool" where
  "on_disk h job d m \<longleftrightarrow> stage_doc h job m \<and> \<not> is_complete m \<and> artifacts_match h job d m
     \<and> (\<forall>kind. recorded h job d kind = taken m kind)"

lemma load_document:
  "codec_ok h \<Longrightarrow> stage_doc h job m \<Longrightarrow> file_at d (stage_path job) = Some (document_bytes h m) \<Longrightarrow>
     load_json h d (stage_path job) = Inr (json_sorted (JObj m))"
  by (rule load_json_of_file) (auto simp: stage_doc_def document_bytes_def)

lemma recorded_document:
  assumes "codec_ok h" and "stage_doc h job m" and "file_at d (stage_path job) = Some (document_bytes h m)"
  shows "recorded h job d kind = taken m kind"
proof -
  obtain n where n: "json_sorted (JObj m) = JObj n" by simp
  show ?thesis using load_document [OF assms] stage_doc_sorted(2) [OF assms(2) n]
    unfolding recorded_def n by simp
qed

lemma artifacts_match_sorted:
  assumes doc: "stage_doc h job m" and n: "json_sorted (JObj m) = JObj n" and pos: "0 < sj_repetitions job"
  shows "artifacts_match h job d n = artifacts_match h job d m"
proof (cases "int (taken m Measurements) = sj_repetitions job")
  case True
  then have "arr m ''measurements'' \<noteq> []" using pos by auto
  moreover have "json_plain (JObj m)" using doc by (simp add: stage_doc_def)
  ultimately show ?thesis
    using recorded_artifacts_sorted [OF _ n] stage_doc_sorted(2) [OF doc n, of Measurements]
    by (simp add: artifacts_match_def)
qed (use stage_doc_sorted(2) [OF doc n, of Measurements] in \<open>simp add: artifacts_match_def\<close>)

lemma stage_fresh_doc:
  assumes "stage_job_ok h job"
  shows "stage_doc h job (stage_fresh h job now)" and "\<not> is_complete (stage_fresh h job now)"
    and "taken (stage_fresh h job now) kind = 0"
proof -
  have pos: "0 \<le> sj_warmups job" "0 < sj_repetitions job" using stage_job_counts [OF assms] by simp_all
  have inputs: "json_plain (stage_inputs job)" "py_eq (stage_inputs job) (stage_inputs job)"
    using assms by (simp_all add: stage_job_ok_def py_eq_refl)
  have get: "jget (stage_fresh h job now) ''status'' = JStr (u ''running'')" by (simp add: stage_fresh_def)
  then show "\<not> is_complete (stage_fresh h job now)" by (simp add: is_complete_def)
  have arrs: "arr (stage_fresh h job now) (kind_key kind) = []" "jget (stage_fresh h job now) (kind_key kind) = JArr []" for kind
    by (cases kind; simp add: stage_fresh_def arr_def)+
  then show "taken (stage_fresh h job now) kind = 0" by simp
  have "json_plain (JObj (stage_fresh h job now))" using inputs by (simp add: stage_fresh_def jobj_def)
  moreover have "stage_identity h job (stage_fresh h job now)"
    using inputs by (simp add: stage_identity_def stage_fresh_def arr_def)
  moreover have "observations_good job (stage_fresh h job now) kind" for kind
    using arrs [of kind] pos by (cases kind) (simp_all add: observations_good_def)
  ultimately show "stage_doc h job (stage_fresh h job now)"
    using arrs [of Measurements] get by (simp add: stage_doc_def is_complete_def)
qed

text \<open>A disk the stage left is never refused.\<close>

lemma stage_open_disk:
  assumes codec: "codec_ok h" and job: "stage_job_ok h job" and disk: "stage_disk h job (fs w)"
  shows "\<exists>finished m. stage_open h env job w = Inr (finished, m) \<and> stage_doc h job m
      \<and> finished = is_complete m \<and> artifacts_match h job (fs w) m \<and> (\<forall>kind. recorded h job (fs w) kind = taken m kind)"
proof (cases "file_at (fs w) (stage_path job)")
  case None
  let ?m = "stage_fresh h job (se_now env (length (past w)))"
  have "artifacts_match h job (fs w) ?m"
    using stage_job_counts [OF job] stage_fresh_doc(3) [OF job, of _ Measurements] by (simp add: artifacts_match_def)
  moreover have "recorded h job (fs w) kind = 0" for kind
    using None by (simp add: recorded_def load_json_def open_rb_file_at)
  ultimately show ?thesis
    using None stage_fresh_doc [OF job] by (auto simp: stage_open_def path_exists_def)
next
  case (Some c)
  then obtain m where doc: "stage_doc h job m" and am: "artifacts_match h job (fs w) m"
    and bytes: "file_at (fs w) (stage_path job) = Some (document_bytes h m)"
    using disk by (auto simp: stage_disk_def)
  obtain n where n: "json_sorted (JObj m) = JObj n" by simp
  have load: "load_json h (fs w) (stage_path job) = Inr (JObj n)" using load_document [OF codec doc bytes] n by simp
  have ndoc: "stage_doc h job n" by (rule stage_doc_sorted(1) [OF doc n])
  have nam: "artifacts_match h job (fs w) n"
    using am artifacts_match_sorted [OF doc n] stage_job_counts [OF job] by simp
  have "stage_open h env job w = Inr (is_complete n, n)"
    using bytes load stage_validate_doc [OF ndoc] stage_reuse_doc [OF ndoc] nam
    by (auto simp: stage_open_def path_exists_def is_complete_def)
  moreover have "recorded h job (fs w) kind = taken n kind" for kind
    using recorded_document [OF codec doc bytes] stage_doc_sorted(2) [OF doc n] by simp
  ultimately show ?thesis using ndoc nam by blast
qed

subsection \<open>One observation\<close>

lemma jget_dict_set [simp]: "jget (dict_set m (u k) v) k' = (if k' = k then v else jget m k')"
  by (simp add: jget_def)

lemma arr_dict_set [simp]: "arr (dict_set m (u k) (JArr xs)) k' = (if k' = k then xs else arr m k')"
  by (simp add: arr_def)

lemma plain_dict_set: "json_plain (JObj m) \<Longrightarrow> json_plain v \<Longrightarrow> json_plain (JObj (dict_set m k v))"
  by (auto simp: list_all_iff dest!: values_dict_set)

lemma plain_snapshot [simp]: "json_plain (snapshot_json s)" "json_no_nan (snapshot_json s)"
  by (simp_all add: snapshot_json_def jobj_def)

lemma plain_artifacts [simp]: "json_plain (artifacts_json h job d)" "json_no_nan (artifacts_json h job d)"
  by (simp_all add: artifacts_json_def list_all_iff)

lemma plain_metrics: "json_plain (JObj m) \<Longrightarrow> json_plain (JObj (metric_lines m ls))"
proof (induction m ls rule: metric_lines.induct)
  case (2 m l ls)
  have "json_plain (metric_value v)" for v by (simp add: metric_value_def split: option.split)
  then show ?case using 2 plain_dict_set by (auto split: prod.split)
qed simp

lemma plain_observation: "json_plain (JObj (observation_json h env cwd command d p started finished))"
proof -
  have "json_plain (executable_json h d q)" for q by (simp add: executable_json_def)
  moreover have "json_plain (fst (peak_rss env p))" by (simp add: peak_rss_def split: option.split)
  ultimately show ?thesis by (simp add: observation_json_def jobj_def list_all_iff)
qed

lemma observation_exit: "jget (observation_json h env cwd command d p started finished) ''exit_code'' = JInt (pr_exit p)"
  by (simp add: observation_json_def)

lemma with_result_ok:
  assumes "codec_ok h" and "json_plain (JObj obs)"
  shows "\<exists>o1. with_result h d output obs = Inr o1 \<and> json_plain (JObj o1)
    \<and> (\<forall>k \<in> {''kind'', ''ordinal'', ''exit_code''}. jget o1 k = jget obs k)"
proof (cases "\<exists>p c. output = Some p \<and> file_at d p = Some c")
  case True
  then obtain p c where p: "output = Some p" "file_at d p = Some c" by blast
  let ?o1 = "dict_set obs (u ''result_file'') (snapshot_json (hd (snapshot_files h d [p])))"
  have o1: "json_plain (JObj ?o1)" by (rule plain_dict_set [OF assms(2)]) simp
  show ?thesis
  proof (cases "loads h c")
    case None
    then show ?thesis using p plain_dict_set [OF o1]
      by (simp add: with_result_def load_json_def open_rb_file_at path_exists_def Let_def del: json_plain.simps(2))
  next
    case (Some v)
    then have "json_plain v" using assms(1) by (auto simp: codec_ok_def)
    then show ?thesis using Some p plain_dict_set [OF o1]
      by (simp add: with_result_def load_json_def open_rb_file_at path_exists_def Let_def del: json_plain.simps(2))
  qed
next
  case False
  then show ?thesis using assms(2) by (auto simp: with_result_def path_exists_def split: option.split)
qed

lemma annotate_ok:
  assumes "codec_ok h" and "json_plain (JObj obs)"
  shows "\<exists>o1. annotate h job kind n output d obs p = Inr o1 \<and> json_plain (JObj o1)
    \<and> jget o1 ''kind'' = JStr (u (kind_key kind)) \<and> jget o1 ''ordinal'' = JInt (int n)
    \<and> jget o1 ''exit_code'' = jget obs ''exit_code'' \<and> jget o1 ''artifacts'' = artifacts_json h job d \<and> jhas o1 ''artifacts''"
proof -
  let ?obs = "dict_set (dict_set obs (u ''kind'') (JStr (u (kind_key kind)))) (u ''ordinal'') (JInt (int n))"
  have "json_plain (JObj ?obs)" by (intro plain_dict_set assms(2)) simp_all
  from with_result_ok [OF assms(1) this] obtain o1 where
    o1: "with_result h d output ?obs = Inr o1" "json_plain (JObj o1)"
      "\<forall>k \<in> {''kind'', ''ordinal'', ''exit_code''}. jget o1 k = jget ?obs k" by blast
  have m: "json_plain (JObj (parse_native_metrics x))" for x
    unfolding parse_native_metrics_def by (rule plain_metrics) simp
  show ?thesis
    using o1 m plain_dict_set [OF o1(2) m] plain_dict_set [OF o1(2) plain_artifacts(1)]
      plain_dict_set [OF plain_dict_set [OF o1(2) m] plain_artifacts(1)]
    by (auto simp: annotate_def Let_def jhas_def simp del: json_plain.simps(2))
qed

lemma run_observation_cases:
  assumes env: "stage_env_ok job env"
    and run: "run_observation h env cwd w command = (w1, r)"
  shows "(w1 = w \<and> (\<exists>e. r = Inl e)) \<or> (\<exists>p obs d meanwhile. se_exec env command (fs w) = Some (meanwhile, d, p)
     \<and> r = Inr (obs, p) \<and> json_plain (JObj obs) \<and> jget obs ''exit_code'' = JInt (pr_exit p)
     \<and> fs w1 = d \<and> visited w1 = visited w \<union> set (d # meanwhile)
     \<and> (\<forall>x \<in> set (d # meanwhile). fs_resolve x = fs_resolve (fs w) \<and> file_at x (stage_path job) = file_at (fs w) (stage_path job)))"
proof (cases "command = [] \<or> se_exec env command (fs w) = None")
  case True
  then show ?thesis using run unfolding run_observation_def by (cases "command = []") auto
next
  case False
  then obtain meanwhile d p where x: "se_exec env command (fs w) = Some (meanwhile, d, p)" by auto
  have "visited \<lparr>fs = d, past = past w @ fs w # meanwhile\<rparr> = visited w \<union> set (d # meanwhile)"
    by (auto simp: visited_def)
  moreover have "\<forall>x \<in> set (d # meanwhile). fs_resolve x = fs_resolve (fs w) \<and> file_at x (stage_path job) = file_at (fs w) (stage_path job)"
    using spec [OF spec [OF env [unfolded stage_env_ok_def], of command], of "fs w"] x by simp
  ultimately show ?thesis using run False x plain_observation
    by (auto simp: run_observation_def Let_def observation_exit simp del: json_plain.simps(2))
qed

subsection \<open>Steps keep the document well formed\<close>

lemma jget_set_status [simp]:
  "jget (set_status m s stamp now) k = (if k = stamp then JStr now else if k = ''status'' then JStr (u s) else jget m k)"
  by (simp add: set_status_def)

lemma arr_set_status [simp]:
  "k \<noteq> stamp \<Longrightarrow> k \<noteq> ''status'' \<Longrightarrow> arr (set_status m s stamp now) k = arr m k"
  by (simp add: arr_def)

lemma plain_set_status: "json_plain (JObj m) \<Longrightarrow> json_plain (JObj (set_status m s stamp now))"
  unfolding set_status_def by (intro plain_dict_set) simp_all

lemma unfinished:
  assumes job: "stage_job_ok h job" and doc: "stage_doc h job m" and less: "int (taken m kind) < wanted job kind"
  shows "int (taken m Measurements) \<noteq> sj_repetitions job"
proof
  assume all: "int (taken m Measurements) = sj_repetitions job"
  then have "arr m ''measurements'' \<noteq> []" using stage_job_counts [OF job] by auto
  then have "int (taken m Warmups) = sj_warmups job" using doc by (simp add: stage_doc_def)
  with less all show False by (cases kind) simp_all
qed

lemma appended_doc:
  fixes now :: pystr
  assumes doc: "stage_doc h job m" and job: "stage_job_ok h job" and less: "int (taken m kind) < wanted job kind"
    and order: "kind = Measurements \<longrightarrow> int (taken m Warmups) = sj_warmups job"
    and o1: "json_plain (JObj o1)" "observation_good kind (taken m kind) (JObj o1)"
  defines "m' \<equiv> set_status (dict_set m (u (kind_key kind)) (JArr (arr m (kind_key kind) @ [JObj o1]))) ''running'' ''updated_at'' now"
  shows "stage_doc h job m'" and "\<not> is_complete m'"
    and "arr m' (kind_key k) = (if k = kind then arr m (kind_key kind) @ [JObj o1] else arr m (kind_key k))"
proof -
  have m: "json_plain (JObj m)" using doc by (simp add: stage_doc_def)
  have "json_plain (JArr (arr m (kind_key kind) @ [JObj o1]))"
    using o1(1) plain_arr [OF m] by (auto simp: list_all_iff)
  then have plain: "json_plain (JObj m')" unfolding m'_def by (intro plain_set_status plain_dict_set m)
  have ar: "arr m' (kind_key k) = (if k = kind then arr m (kind_key kind) @ [JObj o1] else arr m (kind_key k))" for k
    by (simp add: m'_def)
  then show "arr m' (kind_key k) = (if k = kind then arr m (kind_key kind) @ [JObj o1] else arr m (kind_key k))" .
  show nc: "\<not> is_complete m'" by (simp add: m'_def is_complete_def)
  have "stage_identity h job m'"
    using doc kind_key_fresh(1) [of _ kind] unfolding stage_doc_def stage_identity_def m'_def
    by (auto simp: kind_key_fresh(1) [of _ kind, symmetric])
  moreover have "observations_good job m' k" for k
  proof -
    have g: "observations_good job m k" using doc by (cases k) (simp_all add: stage_doc_def)
    have get: "jget m' (kind_key k) = JArr (arr m' (kind_key k))"
      using g by (simp add: m'_def observations_good_def)
    show ?thesis
      using g less o1(2) unfolding observations_good_def get by (auto simp: ar nth_append less_Suc_eq)
  qed
  moreover have "arr m' ''measurements'' \<noteq> [] \<longrightarrow> int (taken m' Warmups) = sj_warmups job"
    using doc order less ar [of Warmups] ar [of Measurements] by (cases kind) (auto simp: stage_doc_def)
  ultimately show "stage_doc h job m'" using plain nc by (simp add: stage_doc_def)
qed

lemma failed_doc:
  fixes now :: pystr
  assumes doc: "stage_doc h job m" and v: "json_plain v"
  defines "m' \<equiv> set_status (dict_set m (u ''failed_attempts'') (JArr (arr m ''failed_attempts'' @ [v]))) ''failed'' ''updated_at'' now"
  shows "stage_doc h job m'" and "taken m' kind = taken m kind"
proof -
  have m: "json_plain (JObj m)" using doc by (simp add: stage_doc_def)
  have "json_plain (JArr (arr m ''failed_attempts'' @ [v]))" using v plain_arr [OF m] by (auto simp: list_all_iff)
  then have plain: "json_plain (JObj m')" unfolding m'_def by (intro plain_set_status plain_dict_set m)
  have ar: "arr m' (kind_key kind) = arr m (kind_key kind)" "jget m' (kind_key kind) = jget m (kind_key kind)" for kind
    by (simp_all add: m'_def)
  then show "taken m' kind = taken m kind" by simp
  have "stage_identity h job m'" using doc by (simp add: stage_doc_def stage_identity_def m'_def)
  moreover have "\<not> is_complete m'" by (simp add: m'_def is_complete_def)
  ultimately show "stage_doc h job m'"
    using doc plain ar [of Warmups] ar [of Measurements] by (simp add: stage_doc_def observations_good_def)
qed

lemma write_state_simps [simp]:
  "fs (write_state h job w m) = set_file (fs w) (stage_path job) (Some (document_bytes h m))"
  "visited (write_state h job w m) = insert (fs (write_state h job w m)) (visited w)"
  by (simp_all add: write_state_def atomic_write_json_def document_bytes_def)

lemma recorded_write:
  "codec_ok h \<Longrightarrow> stage_doc h job m \<Longrightarrow> recorded h job (set_file d (stage_path job) (Some (document_bytes h m))) kind = taken m kind"
  by (rule recorded_document) simp_all

lemma artifacts_match_write:
  "stage_job_ok h job \<Longrightarrow> artifacts_match h job (set_file d (stage_path job) c) m = artifacts_match h job d m"
  by (simp add: stage_job_ok_def artifacts_match_def)

text \<open>While a command runs, the document on the disk is the one before it.\<close>

lemma stage_disk_meanwhile:
  assumes codec: "codec_ok h" and job: "stage_job_ok h job" and disk: "stage_disk h job d"
    and part: "recorded h job d Measurements = n" "int n \<noteq> sj_repetitions job"
    and same: "file_at x (stage_path job) = file_at d (stage_path job)"
  shows "stage_disk h job x"
proof (cases "file_at d (stage_path job)")
  case (Some c)
  then obtain m where m: "stage_doc h job m" "file_at d (stage_path job) = Some (document_bytes h m)"
    using disk by (auto simp: stage_disk_def)
  have "int (taken m Measurements) \<noteq> sj_repetitions job"
    using recorded_document [OF codec m, of Measurements] part by simp
  then show ?thesis using m same by (auto simp: stage_disk_def artifacts_match_def)
qed (use same in \<open>simp add: stage_disk_def\<close>)

text \<open>The invariant of the loops: the document in memory and the one on the disk agree.\<close>

definition stage_inv :: "host \<Rightarrow> stage_job \<Rightarrow> world \<Rightarrow> jobj \<Rightarrow> bool" where
  "stage_inv h job w m \<longleftrightarrow> stage_disk h job (fs w) \<and> on_disk h job (fs w) m"

lemma stage_write:
  assumes "codec_ok h" and "stage_job_ok h job" and doc: "stage_doc h job m" and am: "artifacts_match h job (fs w) m"
  shows "stage_disk h job (fs (write_state h job w m))"
    and "\<not> is_complete m \<Longrightarrow> stage_inv h job (write_state h job w m) m"
proof -
  show d: "stage_disk h job (fs (write_state h job w m))"
    using doc am artifacts_match_write [OF assms(2)] by (auto simp: stage_disk_def)
  show "stage_inv h job (write_state h job w m) m" if "\<not> is_complete m"
    using that d doc am artifacts_match_write [OF assms(2)] recorded_write [OF assms(1) doc]
    unfolding stage_inv_def on_disk_def by simp
qed

lemma stage_succeeds_exec:
  assumes "stage_succeeds job env" and "sj_command job kind n = (command, out)"
  shows "command \<noteq> [] \<and> (\<exists>meanwhile d' p. se_exec env command d = Some (meanwhile, d', p) \<and> pr_exit p = 0)"
proof -
  have "command \<noteq> [] \<and> (case se_exec env command d of None \<Rightarrow> False | Some (_, _, p) \<Rightarrow> pr_exit p = 0)"
    using assms(1) [unfolded stage_succeeds_def, rule_format, of kind n] assms(2) by simp
  then show ?thesis by (cases "se_exec env command d") auto
qed

lemma stage_step_kept:
  assumes codec: "codec_ok h" and job: "stage_job_ok h job" and env: "stage_env_ok job env"
    and inv: "stage_inv h job w m" and less: "int (taken m kind) < wanted job kind"
    and order: "kind = Measurements \<longrightarrow> int (taken m Warmups) = sj_warmups job"
    and step: "stage_step h env job kind w m = (w1, r)"
  shows "d \<in> visited w1 \<Longrightarrow> d \<in> visited w \<or> stage_disk h job d"
    and "r = Inr m1 \<Longrightarrow> stage_inv h job w1 m1 \<and> (\<forall>k. taken m1 k = (if k = kind then Suc (taken m k) else taken m k))"
    and "stage_succeeds job env \<Longrightarrow> \<exists>m1. r = Inr m1"
proof -
  have disk: "stage_disk h job (fs w)" and doc: "stage_doc h job m" and rec: "recorded h job (fs w) k = taken m k" for k
    using inv by (simp_all add: stage_inv_def on_disk_def)
  note part = unfinished [OF job doc less]
  obtain command out where c: "sj_command job kind (taken m kind) = (command, out)" by fastforce
  obtain w0 r0 where run: "run_observation h env (sj_cwd job) w command = (w0, r0)" by fastforce
  note step' = step [unfolded stage_step_def c prod.case run]
  have goal: "(\<forall>d \<in> visited w1. d \<in> visited w \<or> stage_disk h job d)
      \<and> (\<forall>m1. r = Inr m1 \<longrightarrow> stage_inv h job w1 m1 \<and> (\<forall>k. taken m1 k = (if k = kind then Suc (taken m k) else taken m k)))
      \<and> (stage_succeeds job env \<longrightarrow> (\<exists>m1. r = Inr m1))"
    using run_observation_cases [OF env run]
  proof
    assume f: "w0 = w \<and> (\<exists>e. r0 = Inl e)"
    then have "w1 = w" "\<exists>e. r = Inl e" using step' by auto
    moreover have "\<not> stage_succeeds job env"
      using stage_succeeds_exec [OF _ c, of env "fs w"] run f by (auto simp: run_observation_def Let_def)
    ultimately show ?thesis by auto
  next
    assume "\<exists>p obs d meanwhile. se_exec env command (fs w) = Some (meanwhile, d, p)
     \<and> r0 = Inr (obs, p) \<and> json_plain (JObj obs) \<and> jget obs ''exit_code'' = JInt (pr_exit p)
     \<and> fs w0 = d \<and> visited w0 = visited w \<union> set (d # meanwhile)
     \<and> (\<forall>x \<in> set (d # meanwhile). fs_resolve x = fs_resolve (fs w) \<and> file_at x (stage_path job) = file_at (fs w) (stage_path job))"
    then obtain p obs meanwhile where x: "se_exec env command (fs w) = Some (meanwhile, fs w0, p)"
      "r0 = Inr (obs, p)" "json_plain (JObj obs)" "jget obs ''exit_code'' = JInt (pr_exit p)"
      "visited w0 = visited w \<union> set (fs w0 # meanwhile)"
      "\<forall>x \<in> set (fs w0 # meanwhile). file_at x (stage_path job) = file_at (fs w) (stage_path job)" by blast
    obtain o1 where o1: "annotate h job kind (taken m kind) out (fs w0) obs p = Inr o1" "json_plain (JObj o1)"
      "jget o1 ''kind'' = JStr (u (kind_key kind))" "jget o1 ''ordinal'' = JInt (int (taken m kind))"
      "jget o1 ''exit_code'' = JInt (pr_exit p)" "jget o1 ''artifacts'' = artifacts_json h job (fs w0)" "jhas o1 ''artifacts''"
      using annotate_ok [OF codec x(3)] x(4) by metis
    have mean: "stage_disk h job d" if "d \<in> set (fs w0 # meanwhile)" for d
      using stage_disk_meanwhile [OF codec job disk rec part] x(6) that by blast
    note step2 = step' [unfolded x(2) o1(1) prod.case sum.case]
    show ?thesis
    proof (cases "pr_exit p = 0")
      case False
      have "jget m ''failed_attempts'' = JArr (arr m ''failed_attempts'')" using doc by (simp add: stage_doc_def stage_identity_def)
      then have "map_of m (u ''failed_attempts'') = Some (JArr (arr m ''failed_attempts''))"
        by (simp add: jget_def split: option.splits)
      then have w1: "w1 = write_state h job w0 (set_status (dict_set m (u ''failed_attempts'')
          (JArr (arr m ''failed_attempts'' @ [JObj o1]))) ''failed'' ''updated_at'' (se_now env (length (past w0))))" "\<exists>e. r = Inl e"
        using step2 False by (auto simp: record_failure_def append_to_def jidx_def)
      note fd = failed_doc [OF doc o1(2), of "se_now env (length (past w0))"]
      have "artifacts_match h job (fs w0) (set_status (dict_set m (u ''failed_attempts'')
          (JArr (arr m ''failed_attempts'' @ [JObj o1]))) ''failed'' ''updated_at'' (se_now env (length (past w0))))"
        using part fd(2) [of Measurements] by (simp add: artifacts_match_def)
      from stage_write(1) [OF codec job fd(1) this] have "stage_disk h job (fs w1)" unfolding w1(1) .
      moreover have "\<not> stage_succeeds job env"
        using stage_succeeds_exec [OF _ c, of env "fs w"] False x(1) by auto
      ultimately show ?thesis using w1 x(5) mean by auto
    next
      case True
      let ?m1 = "set_status (dict_set m (u (kind_key kind)) (JArr (arr m (kind_key kind) @ [JObj o1]))) ''running''
          ''updated_at'' (se_now env (length (past w0)))"
      have "jget m (kind_key kind) = JArr (arr m (kind_key kind))"
        using doc by (cases kind) (simp_all add: stage_doc_def observations_good_def)
      then have "map_of m (u (kind_key kind)) = Some (JArr (arr m (kind_key kind)))"
        by (simp add: jget_def split: option.splits)
      then have w1: "w1 = write_state h job w0 ?m1" "r = Inr ?m1"
        using step2 True by (auto simp: append_to_def jidx_def Let_def)
      have good: "observation_good kind (taken m kind) (JObj o1)" using o1 True by (simp add: observation_good_def)
      note ad = appended_doc [OF doc job less order o1(2) good, of "se_now env (length (past w0))"]
      have tk: "taken ?m1 k = (if k = kind then Suc (taken m k) else taken m k)" for k using ad(3) [of k] by simp
      have am: "artifacts_match h job (fs w0) ?m1"
      proof (cases kind)
        case Measurements
        then have "recorded_artifacts ?m1 = artifacts_json h job (fs w0)"
          using o1(6,7) by (simp add: recorded_artifacts_def)
        then show ?thesis by (simp add: artifacts_match_def py_eq_refl)
      qed (use part tk [of Measurements] in \<open>simp add: artifacts_match_def\<close>)
      note sw = stage_write [OF codec job ad(1) am]
      have "stage_inv h job w1 ?m1" using sw(2) [OF ad(2)] unfolding w1(1) .
      moreover have "stage_disk h job (fs w1)" using sw(1) unfolding w1(1) .
      ultimately show ?thesis using w1 x(5) mean tk by auto
    qed
  qed
  show "d \<in> visited w1 \<Longrightarrow> d \<in> visited w \<or> stage_disk h job d" using goal by blast
  show "r = Inr m1 \<Longrightarrow> stage_inv h job w1 m1 \<and> (\<forall>k. taken m1 k = (if k = kind then Suc (taken m k) else taken m k))"
    using goal by blast
  show "stage_succeeds job env \<Longrightarrow> \<exists>m1. r = Inr m1" using goal by blast
qed

text \<open>The observations of a kind that are still to be made.\<close>

definition missing :: "stage_job \<Rightarrow> kind \<Rightarrow> nat \<Rightarrow> (kind \<times> nat) list" where
  "missing job kind n = map (Pair kind) [n..<nat (wanted job kind)]"

lemma missing_step: "int n < wanted job kind \<Longrightarrow> missing job kind n = (kind, n) # missing job kind (Suc n)"
  by (simp add: missing_def upt_conv_Cons)

lemma stage_while_kept:
  assumes codec: "codec_ok h" and job: "stage_job_ok h job" and env: "stage_env_ok job env"
    and "stage_inv h job w m" and "kind = Measurements \<longrightarrow> int (taken m Warmups) = sj_warmups job"
    and "stage_while h env job kind w m = (w1, attempts, r)"
  shows "(\<forall>d \<in> visited w1. d \<in> visited w \<or> stage_disk h job d) \<and> prefix attempts (missing job kind (taken m kind))
    \<and> (\<forall>m1. r = Inr m1 \<longrightarrow> stage_inv h job w1 m1 \<and> attempts = missing job kind (taken m kind)
        \<and> (\<forall>k. int (taken m1 k) = (if k = kind then wanted job kind else int (taken m k))))
    \<and> (stage_succeeds job env \<longrightarrow> (\<exists>m1. r = Inr m1))"
  using assms(4-)
proof (induction "nat (wanted job kind - int (taken m kind))" arbitrary: w m attempts)
  case 0
  have "stage_doc h job m" using 0 by (simp add: stage_inv_def on_disk_def)
  then have "int (taken m kind) \<le> wanted job kind" by (cases kind) (simp_all add: stage_doc_def observations_good_def)
  then have full: "int (taken m kind) = wanted job kind" using 0 by simp
  then have "missing job kind (taken m kind) = []" by (simp add: missing_def)
  moreover have "w1 = w" "attempts = []" "r = Inr m" using 0(4) full by (simp_all add: stage_while.simps [of _ _ _ _ _ m])
  ultimately show ?case using 0 full by auto
next
  case (Suc n)
  have less: "int (taken m kind) < wanted job kind" using Suc.hyps(2) by simp
  obtain w0 r0 where step: "stage_step h env job kind w m = (w0, r0)" by fastforce
  note kept = stage_step_kept [OF codec job env Suc.prems(1) less Suc.prems(2) step]
  show ?case
  proof (cases r0)
    case (Inl e)
    then have "w1 = w0" "attempts = [(kind, taken m kind)]" "r = Inl e"
      using Suc.prems(3) less step by (simp_all add: stage_while.simps [of _ _ _ _ _ m])
    then show ?thesis using kept Inl missing_step [OF less] by auto
  next
    case (Inr m0)
    note k0 = kept(2) [OF Inr]
    obtain a0 where rest: "stage_while h env job kind w0 m0 = (w1, a0, r)" and a: "attempts = (kind, taken m kind) # a0"
      using Suc.prems(3) less step Inr by (auto simp: stage_while.simps [of _ _ _ _ _ m] split: prod.splits)
    have tk: "taken m0 kind = Suc (taken m kind)" using k0 by simp
    have "n = nat (wanted job kind - int (taken m0 kind))" using Suc.hyps(2) tk by simp
    moreover have "kind = Measurements \<longrightarrow> int (taken m0 Warmups) = sj_warmups job"
      using Suc.prems(2) k0 by (metis kind.distinct(1))
    ultimately have ih: "(\<forall>d \<in> visited w1. d \<in> visited w0 \<or> stage_disk h job d) \<and> prefix a0 (missing job kind (taken m0 kind))
      \<and> (\<forall>m1. r = Inr m1 \<longrightarrow> stage_inv h job w1 m1 \<and> a0 = missing job kind (taken m0 kind)
        \<and> (\<forall>k. int (taken m1 k) = (if k = kind then wanted job kind else int (taken m0 k))))
      \<and> (stage_succeeds job env \<longrightarrow> (\<exists>m1. r = Inr m1))"
      using Suc.hyps(1) k0 rest by blast
    have "taken m0 k = taken m k" if "k \<noteq> kind" for k using k0 that by simp
    then show ?thesis using ih kept(1) a unfolding tk missing_step [OF less] by auto
  qed
qed

subsection \<open>Crashes and restarts\<close>

definition stage_missing :: "host \<Rightarrow> stage_job \<Rightarrow> fsys \<Rightarrow> (kind \<times> nat) list" where
  "stage_missing h job d = missing job Warmups (recorded h job d Warmups) @ missing job Measurements (recorded h job d Measurements)"

text \<open>The result on the disk: the complete document, with all observations.\<close>

definition stage_done :: "host \<Rightarrow> stage_job \<Rightarrow> fsys \<Rightarrow> jobj \<Rightarrow> bool" where
  "stage_done h job d m \<longleftrightarrow> stage_doc h job m \<and> is_complete m \<and> artifacts_match h job d m
     \<and> load_json h d (stage_path job) = Inr (json_sorted (JObj m))"

lemma completed_doc:
  fixes now :: pystr
  assumes doc: "stage_doc h job m" and full: "\<forall>k. int (taken m k) = wanted job k"
  defines "m' \<equiv> set_status m ''complete'' ''completed_at'' now"
  shows "stage_doc h job m'" and "is_complete m'" and "artifacts_match h job d m' = artifacts_match h job d m"
proof -
  have plain: "json_plain (JObj m')" using doc unfolding m'_def by (intro plain_set_status) (simp add: stage_doc_def)
  have ar: "arr m' (kind_key k) = arr m (kind_key k)" "jget m' (kind_key k) = jget m (kind_key k)" for k
    by (simp_all add: m'_def)
  show c: "is_complete m'" by (simp add: m'_def is_complete_def)
  have "stage_identity h job m'" using doc by (simp add: stage_doc_def stage_identity_def m'_def)
  then show "stage_doc h job m'"
    using doc plain ar [of Warmups] ar [of Measurements] full [rule_format, of Warmups] full [rule_format, of Measurements]
    by (simp add: stage_doc_def observations_good_def)
  show "artifacts_match h job d m' = artifacts_match h job d m"
    using ar [of Measurements] by (simp add: artifacts_match_def recorded_artifacts_def)
qed

lemma stage_run_kept:
  assumes codec: "codec_ok h" and job: "stage_job_ok h job" and env: "stage_env_ok job env"
    and disk: "stage_disk h job (fs w)" and run: "run_repeated_stage h env job w = (w1, attempts, r)"
  shows "(\<forall>d \<in> visited w1. d \<in> visited w \<or> stage_disk h job d) \<and> prefix attempts (stage_missing h job (fs w))
    \<and> (\<forall>m1. r = Inr m1 \<longrightarrow> attempts = stage_missing h job (fs w) \<and> stage_done h job (fs w1) m1)
    \<and> (stage_succeeds job env \<longrightarrow> (\<exists>m1. r = Inr m1))"
proof -
  obtain finished m where op: "stage_open h env job w = Inr (finished, m)" and doc: "stage_doc h job m"
    and fin: "finished = is_complete m" and am: "artifacts_match h job (fs w) m"
    and rec: "\<forall>kind. recorded h job (fs w) kind = taken m kind"
    using stage_open_disk [OF codec job disk] by blast
  have args: "stage_arguments job = Inr ()" using job by (simp add: stage_job_ok_def)
  note run' = run [unfolded run_repeated_stage_def args op sum.case prod.case]
  show ?thesis
  proof (cases finished)
    case True
    then have full: "int (taken m Warmups) = sj_warmups job" "int (taken m Measurements) = sj_repetitions job"
      using doc fin by (simp_all add: stage_doc_def)
    then have none: "missing job kind (recorded h job (fs w) kind) = []" for kind
      using rec by (cases kind) (auto simp: missing_def)
    have done1: "stage_done h job (fs w) m"
    proof -
      obtain n where n: "load_json h (fs w) (stage_path job) = Inr (JObj n)" "m = n"
        using op True by (auto simp: stage_open_def split: if_splits sum.splits json.splits)
      obtain m0 where m0: "stage_doc h job m0" "file_at (fs w) (stage_path job) = Some (document_bytes h m0)"
        using disk n(1) by (auto simp: stage_disk_def load_json_def open_rb_file_at)
      then have "json_sorted (JObj m0) = JObj n" using load_document [OF codec m0] n by simp
      then show ?thesis using n doc fin True am json_sorted_idem [of "JObj m0"] by (simp add: stage_done_def)
    qed
    have "w1 = w" "attempts = []" "r = Inr m" using run' True by simp_all
    then show ?thesis using done1 none by (simp add: stage_missing_def)
  next
    case False
    then have inv: "stage_inv h job w m"
      using disk doc am fin rec by (simp add: stage_inv_def on_disk_def)
    obtain wa aa ra where wa: "stage_while h env job Warmups w m = (wa, aa, ra)" by (metis prod_cases3)
    note ka = stage_while_kept [OF codec job env inv _ wa]
    show ?thesis
    proof (cases ra)
      case (Inl e)
      then have "w1 = wa" "attempts = aa" "r = Inl e" using run' False wa by simp_all
      then show ?thesis using ka Inl rec by (auto simp: stage_missing_def)
    next
      case (Inr ma)
      then have inva: "stage_inv h job wa ma" and aa: "aa = missing job Warmups (taken m Warmups)"
        and ta: "int (taken ma Warmups) = sj_warmups job" "taken ma Measurements = taken m Measurements"
        using ka by (auto dest: spec [of _ Warmups] spec [of _ Measurements])
      obtain wb ab rb where wb: "stage_while h env job Measurements wa ma = (wb, ab, rb)" by (metis prod_cases3)
      note kb = stage_while_kept [OF codec job env inva _ wb]
      show ?thesis
      proof (cases rb)
        case (Inl e)
        then have "w1 = wb" "attempts = aa @ ab" "r = Inl e" using run' False wa Inr wb by simp_all
        then show ?thesis using ka kb Inl Inr rec ta aa by (auto simp: stage_missing_def)
      next
        case Inr': (Inr mb)
        then have invb: "stage_inv h job wb mb" and ab: "ab = missing job Measurements (taken m Measurements)"
          and tb: "\<forall>k. int (taken mb k) = (if k = Measurements then wanted job Measurements else int (taken ma k))"
          using kb ta by simp_all
        have full: "\<forall>k. int (taken mb k) = wanted job k"
        proof
          show "int (taken mb k) = wanted job k" for k
            using tb [rule_format, of k] ta by (cases k) simp_all
        qed
        obtain m3 w3 where c: "stage_complete h env job wb mb = (w3, m3)" by fastforce
        then have w3: "w3 = write_state h job wb m3"
          and m3: "m3 = set_status mb ''complete'' ''completed_at'' (se_now env (length (past wb)))"
          by (auto simp: stage_complete_def Let_def)
        have docb: "stage_doc h job mb" "artifacts_match h job (fs wb) mb"
          using invb by (simp_all add: stage_inv_def on_disk_def)
        note cd = completed_doc [OF docb(1) full, where now = "se_now env (length (past wb))", folded m3]
        have am3: "artifacts_match h job (fs wb) m3" using cd(3) docb(2) by simp
        have "stage_done h job (fs w3) m3"
          using cd am3 artifacts_match_write [OF job] load_document [OF codec cd(1)]
          unfolding w3 stage_done_def by simp
        moreover have "stage_disk h job (fs w3)" using stage_write(1) [OF codec job cd(1) am3] unfolding w3 .
        moreover have "w1 = w3" "attempts = aa @ ab" "r = Inr m3" using run' False wa Inr wb Inr' c by simp_all
        moreover have "\<forall>d \<in> visited w3. d \<in> visited w \<or> stage_disk h job d"
        proof
          fix d assume "d \<in> visited w3"
          then have "d = fs w3 \<or> d \<in> visited wb" unfolding w3 by simp
          then show "d \<in> visited w \<or> stage_disk h job d" using ka kb ta(1) \<open>stage_disk h job (fs w3)\<close> by blast
        qed
        moreover have "aa @ ab = stage_missing h job (fs w)" using rec by (simp add: stage_missing_def aa ab)
        ultimately show ?thesis by simp
      qed
    qed
  qed
qed

definition stage_run :: "host \<Rightarrow> stage_job \<Rightarrow> stage_env \<Rightarrow> fsys \<Rightarrow> world \<times> jobj res" where
  "stage_run h job env d = (case run_repeated_stage h env job (boot d) of (w, attempts, r) \<Rightarrow> (w, r))"

definition stage_ready :: "host \<Rightarrow> stage_job \<Rightarrow> fsys \<Rightarrow> bool" where
  "stage_ready h job d \<longleftrightarrow> codec_ok h \<and> stage_job_ok h job \<and> stage_disk h job d"

interpretation stage: crashing "stage_run h job" "stage_env_ok job" "stage_ready h job" for h job
proof
  fix env d d'
  assume "stage_env_ok job env" "stage_ready h job d" "d' \<in> visited (fst (stage_run h job env d))"
  moreover obtain w a r where "run_repeated_stage h env job (boot d) = (w, a, r)" by (metis prod_cases3)
  ultimately show "stage_ready h job d'"
    using stage_run_kept [of h job env "boot d" w a r] by (auto simp: stage_ready_def stage_run_def)
qed

text \<open>
  C16. A stage survives crashes: whatever runs were started on it and died at any of their steps, a new
  run attempts only the observations that are not recorded yet, in order, each at most once; a run
  that returns has attempted all of them and leaves the complete document, whose artifacts are those on the
  disk; and a run whose commands all succeed returns.
\<close>

theorem stage_survives_crashes:
  assumes "codec_ok h" and "stage_job_ok h job" and "file_at d (stage_path job) = None"
    and "stage.reach h job d d'" and "stage_env_ok job env"
    and "run_repeated_stage h env job (boot d') = (w, attempts, r)"
  shows "prefix attempts (stage_missing h job d')
    \<and> (\<forall>m. r = Inr m \<longrightarrow> attempts = stage_missing h job d' \<and> stage_done h job (fs w) m)
    \<and> (stage_succeeds job env \<longrightarrow> (\<exists>m. r = Inr m))"
proof -
  have "stage_ready h job d'"
    using stage.reach_ok [OF assms(4)] assms(1-3) by (simp add: stage_ready_def stage_disk_def)
  then have "stage_disk h job (fs (boot d'))" by (simp add: stage_ready_def)
  from stage_run_kept [OF assms(1,2,5) this assms(6), unfolded boot_simps] show ?thesis by blast
qed

text \<open>
  C17. A complete stage is never run again: as long as its document is on the disk, a run executes
  nothing and writes nothing, returns the document when the artifacts are those recorded, and otherwise
  refuses.
\<close>

theorem complete_stage_is_reused:
  assumes codec: "codec_ok h" and job: "stage_job_ok h job" and d: "stage_done h job d m"
    and same: "file_at d' (stage_path job) = file_at d (stage_path job)"
  shows "\<exists>n. json_sorted (JObj m) = JObj n \<and> run_repeated_stage h env job (boot d')
    = (boot d', [], if py_eq (artifacts_json h job d') (recorded_artifacts m) then Inr n
         else Inl (RuntimeError ''completed-stage artifacts changed; refuse stale reuse''))"
proof -
  have doc: "stage_doc h job m" "is_complete m" using d by (simp_all add: stage_done_def)
  obtain n where n: "json_sorted (JObj m) = JObj n" by simp
  have ndoc: "stage_doc h job n" "is_complete n" using stage_doc_sorted [OF doc(1) n] doc by simp_all
  have "load_json h d (stage_path job) = Inr (JObj n)" using d n by (simp add: stage_done_def)
  then have load: "load_json h d' (stage_path job) = Inr (JObj n)" "path_exists d' (stage_path job)"
    using same by (auto simp: load_json_def open_rb_file_at path_exists_def split: option.splits)
  have pos: "0 < sj_repetitions job" using stage_job_counts [OF job] by simp
  have "int (taken m Measurements) = sj_repetitions job" using doc by (simp add: stage_doc_def)
  then have am: "artifacts_match h job d' n \<longleftrightarrow> py_eq (artifacts_json h job d') (recorded_artifacts m)"
    using artifacts_match_sorted [OF doc(1) n pos] by (simp add: artifacts_match_def)
  have args: "stage_arguments job = Inr ()" using job by (simp add: stage_job_ok_def)
  have st: "jget n ''status'' = JStr (u ''complete'')" using ndoc(2) by (simp add: is_complete_def)
  show ?thesis
    using n load stage_validate_doc [OF ndoc(1)] stage_reuse_doc [OF ndoc] am st
    by (simp add: run_repeated_stage_def args stage_open_def)
qed

subsection \<open>A run\<close>

definition sample_stage :: stage_job where
  "sample_stage = \<lparr>sj_name = u ''native-build'', sj_dir = u ''stages'', sj_inputs = jobj [(''command'', JArr [JStr (u ''leann'')])],
     sj_command = (\<lambda>_ _. ([u ''leann''], None)), sj_artifacts = (\<lambda>_. []), sj_cwd = u ''.'', sj_warmups = 1,
     sj_repetitions = 2\<rparr>"

definition quiet_env :: stage_env where
  "quiet_env = \<lparr>se_exec = (\<lambda>_ d. Some ([], d, \<lparr>pr_exit = 0, pr_stdout = [], pr_stderr = [], pr_wall = Fin 1, pr_maxrss = None\<rparr>)),
     se_darwin = False, se_now = (\<lambda>_. [])\<rparr>"

definition empty_disk :: fsys where
  "empty_disk = \<lparr>fs_resolve = id, fs_file = (\<lambda>_. None)\<rparr>"

lemma sample_stage_ok:
  "stage_job_ok counting_host sample_stage" "stage_env_ok sample_stage quiet_env" "stage_succeeds sample_stage quiet_env"
  "file_at empty_disk (stage_path sample_stage) = None" "stage_missing counting_host sample_stage empty_disk
     = [(Warmups, 0), (Measurements, 0), (Measurements, 1)]"
proof -
  have "recorded counting_host sample_stage empty_disk kind = 0" for kind
    by (simp add: recorded_def load_json_def open_rb_file_at file_at_def empty_disk_def)
  then show "stage_missing counting_host sample_stage empty_disk = [(Warmups, 0), (Measurements, 0), (Measurements, 1)]"
    by (simp add: stage_missing_def missing_def sample_stage_def upt_rec)
  show "stage_job_ok counting_host sample_stage"
    by (simp add: stage_job_ok_def sample_stage_def stage_arguments_def stage_inputs_def stage_protocol_def
        artifacts_json_def snapshot_files_def) (simp add: jobj_def)
qed (simp_all add: stage_env_ok_def stage_succeeds_def sample_stage_def quiet_env_def file_at_def empty_disk_def)

theorem stage_survives_crashes_witness:
  "\<exists>w m. run_repeated_stage counting_host quiet_env sample_stage (boot empty_disk)
      = (w, [(Warmups, 0), (Measurements, 0), (Measurements, 1)], Inr m)
    \<and> stage_done counting_host sample_stage (fs w) m"
proof -
  obtain w attempts r where run: "run_repeated_stage counting_host quiet_env sample_stage (boot empty_disk) = (w, attempts, r)"
    by (metis prod_cases3)
  note sv = stage_survives_crashes [OF counting_host_codec sample_stage_ok(1,4) stage.reach.start sample_stage_ok(2) run]
  obtain m where "r = Inr m" using sv sample_stage_ok(3) by blast
  then show ?thesis using sv run sample_stage_ok(5) by auto
qed

theorem complete_stage_is_reused_witness:
  "\<exists>(w :: world) n. run_repeated_stage counting_host quiet_env sample_stage (boot (fs w)) = (boot (fs w), [], Inr n)"
proof -
  obtain w attempts r where run: "run_repeated_stage counting_host quiet_env sample_stage (boot empty_disk) = (w, attempts, r)"
    by (metis prod_cases3)
  have "stage_disk counting_host sample_stage (fs (boot empty_disk))"
    using sample_stage_ok(4) by (simp add: stage_disk_def)
  from stage_run_kept [OF counting_host_codec sample_stage_ok(1,2) this run] sample_stage_ok(3)
  obtain m where m: "stage_done counting_host sample_stage (fs w) m" by blast
  then have doc: "stage_doc counting_host sample_stage m" "is_complete m" "artifacts_match counting_host sample_stage (fs w) m"
    by (simp_all add: stage_done_def)
  then have "py_eq (artifacts_json counting_host sample_stage (fs w)) (recorded_artifacts m)"
    by (simp add: stage_doc_def artifacts_match_def)
  then have "\<exists>n. run_repeated_stage counting_host quiet_env sample_stage (boot (fs w)) = (boot (fs w), [], Inr n)"
    using complete_stage_is_reused [OF counting_host_codec sample_stage_ok(1) m refl, of quiet_env] by auto
  then show ?thesis by (rule exI)
qed

end
