(* ===== verification/Evidence.thy ===== *)
theory Evidence
  imports Disk
begin

text \<open>
  What \<open>collect_large_scale_results.py\<close> trusts about recorded evidence: percentiles, options of an argv,
  artifact sets, the file verifier with its memory of verified snapshots, the identity of the shared
  artifacts, and the byte prefix of the document identifiers. \<open>tools\<close> collects what the interpreter and
  NumPy compute for the collector: \<open>json.dumps\<close> without NaN, \<open>str\<close> of a value that is no string,
  the mean and the percentile of an array. The lemmas show that what the verifier accepts is on the disk with
  the recorded digest, and what an accepted identity guarantees.
\<close>

record tools =
  tl_host :: host
  tl_dumps :: "json \<Rightarrow> bytes res"
  tl_str :: "json \<Rightarrow> pystr"
  tl_mean :: "pyfloat list \<Rightarrow> pyfloat"
  tl_percentile :: "pyfloat list \<Rightarrow> pyfloat \<Rightarrow> pyfloat"

definition collector_hash :: "tools \<Rightarrow> json \<Rightarrow> pystr res" where
  "collector_hash t v = and_then (tl_dumps t v) (\<lambda>payload. Inr (sha_hex (tl_host t) payload))"

definition collector_load :: "tools \<Rightarrow> fsys \<Rightarrow> pystr \<Rightarrow> json res" where
  "collector_load t d p =
     (case open_rb d p of
        Inl _ \<Rightarrow> Inl (CollectionError ''cannot read JSON'')
      | Inr content \<Rightarrow> and_then (utf8_decode content) (\<lambda>_.
          case loads (tl_host t) content of None \<Rightarrow> Inl (CollectionError ''cannot read JSON'') | Some v \<Rightarrow> Inr v))"

definition py_str :: "tools \<Rightarrow> json \<Rightarrow> pystr" where
  "py_str t v = (case v of JStr s \<Rightarrow> s | _ \<Rightarrow> tl_str t v)"

text \<open>The \<open>PurePath.name\<close> of a path as written: empty and dot components do not count.\<close>

definition pure_name :: "pystr \<Rightarrow> pystr" where
  "pure_name p = (let cs = filter (\<lambda>c. c \<noteq> [] \<and> c \<noteq> u ''.'') (split_on 47 p) in if cs = [] then [] else last cs)"

subsection \<open>Percentiles\<close>

text \<open>The values are finite, as both callers check.\<close>

definition nearest_rank :: "pyfloat list \<Rightarrow> pyfloat \<Rightarrow> pyfloat res" where
  "nearest_rank vals fraction =
     (let ordered = sort_key fin_val vals in
      if ordered = [] then Inl (CollectionError ''cannot calculate a percentile over no values'')
      else let position = max 0 (\<lceil>fin_val (fl_mul fraction (rnd64 (of_nat (length ordered))))\<rceil> - 1) in
        Inr (ordered ! nat (min position (int (length ordered) - 1))))"

definition linear_percentile :: "tools \<Rightarrow> pyfloat list \<Rightarrow> pyfloat \<Rightarrow> pyfloat res" where
  "linear_percentile t vals fraction =
     (if vals = [] then Inl (CollectionError ''cannot calculate a percentile over no values'')
      else Inr (tl_percentile t vals (fl_mul fraction (Fin 100))))"

subsection \<open>Options of an argv\<close>

text \<open>\<open>all(isinstance(value, str) for value in command)\<close>.\<close>

fun strings_of :: "json list \<Rightarrow> pystr list option" where
  "strings_of [] = Some []"
| "strings_of (v # vs) =
     (case v of JStr s \<Rightarrow> (case strings_of vs of None \<Rightarrow> None | Some ss \<Rightarrow> Some (s # ss)) | _ \<Rightarrow> None)"

definition argv_of :: "json \<Rightarrow> pystr list res" where
  "argv_of command =
     (case command of
        JArr vs \<Rightarrow> (case strings_of vs of Some ss \<Rightarrow> Inr ss
          | None \<Rightarrow> Inl (CollectionError ''command is not an argv string array''))
      | _ \<Rightarrow> Inl (CollectionError ''command is not an argv string array''))"

definition argv_value :: "json \<Rightarrow> string \<Rightarrow> pystr option res" where
  "argv_value command option = and_then (argv_of command) (\<lambda>argv.
     case positions (\<lambda>v. v = u option) argv of
       [] \<Rightarrow> Inr None
     | [p] \<Rightarrow> if length argv \<le> p + 1 then Inl (CollectionError ''malformed or repeated option'') else Inr (Some (argv ! (p + 1)))
     | _ \<Rightarrow> Inl (CollectionError ''malformed or repeated option''))"

definition argv_values :: "json \<Rightarrow> string \<Rightarrow> pystr list option res" where
  "argv_values command option = and_then (argv_of command) (\<lambda>argv.
     case positions (\<lambda>v. v = u option) argv of
       [] \<Rightarrow> Inr None
     | [p] \<Rightarrow>
         let vals = takeWhile (\<lambda>v. \<not> startswith v (u ''--'')) (drop (p + 1) argv) in
         if vals = [] then Inl (CollectionError ''option has no values'') else Inr (Some vals)
     | _ \<Rightarrow> Inl (CollectionError ''repeated option''))"

subsection \<open>Artifact sets\<close>

definition snapshot_identity :: "jobj \<Rightarrow> jobj" where
  "snapshot_identity s = jobj [(''path'', jget s ''path''), (''size_bytes'', jget s ''size_bytes''), (''sha256'', jget s ''sha256'')]"

record artifact =
  af_name :: pystr
  af_size :: json
  af_sha :: json
  af_path :: json

definition artifact_step :: "tools \<Rightarrow> artifact list \<Rightarrow> json \<Rightarrow> artifact list res" where
  "artifact_step t seen v = and_then (mapping v) (\<lambda>snapshot.
     let identity = snapshot_identity snapshot; name = pure_name (py_str t (jget identity ''path'')) in
     if name \<in> af_name ` set seen then Inl (CollectionError ''duplicate artifact basename'')
     else Inr (seen @ [\<lparr>af_name = name, af_size = jget identity ''size_bytes'', af_sha = jget identity ''sha256'',
                        af_path = jget identity ''path''\<rparr>]))"

definition portable_json :: "artifact \<Rightarrow> json" where
  "portable_json a = JObj (jobj [(''name'', JStr (af_name a)), (''size_bytes'', af_size a), (''sha256'', af_sha a)])"

text \<open>The digest that names the set, with the set sorted by name.\<close>

record artifact_set =
  as_sha :: pystr
  as_artifacts :: "artifact list"

definition make_artifact_set :: "tools \<Rightarrow> json \<Rightarrow> artifact_set res" where
  "make_artifact_set t artifacts = and_then (sequence artifacts) (\<lambda>vals.
     and_then (require (vals \<noteq> []) (CollectionError ''index artifact set is empty'')) (\<lambda>_.
     and_then (fold_res (artifact_step t) [] vals) (\<lambda>normalized.
     let ordered = sort_key af_name normalized in
     and_then (collector_hash t (JArr (map portable_json ordered))) (\<lambda>sha.
     Inr \<lparr>as_sha = sha, as_artifacts = ordered\<rparr>))))"

subsection \<open>The file verifier\<close>

record verifier =
  fv_enabled :: bool
  fv_verified :: "(pystr \<times> int \<times> pystr) list"

definition sha_field :: "json \<Rightarrow> exn \<Rightarrow> pystr res" where
  "sha_field v e = (case v of JStr s \<Rightarrow> if is_hex 64 s then Inr s else Inl e | _ \<Rightarrow> Inl e)"

definition path_field :: "json \<Rightarrow> pystr res" where
  "path_field v = (case v of JStr p \<Rightarrow> if p = [] then Inl (CollectionError ''invalid snapshot path'') else Inr p
     | _ \<Rightarrow> Inl (CollectionError ''invalid snapshot path''))"

definition verify :: "tools \<Rightarrow> fsys \<Rightarrow> verifier \<Rightarrow> json \<Rightarrow> (verifier \<times> pystr) res" where
  "verify t d fv snapshot =
     and_then (mapping snapshot) (\<lambda>r.
     and_then (required r ''path'') (\<lambda>raw_path.
     and_then (and_then (required r ''size_bytes'') (\<lambda>v. integer v 0)) (\<lambda>size_bytes.
     and_then (required r ''sha256'') (\<lambda>digest_json.
     and_then (path_field raw_path) (\<lambda>path.
     and_then (sha_field digest_json (CollectionError ''invalid SHA-256'')) (\<lambda>digest.
     case file_at d path of
       None \<Rightarrow> Inl (CollectionError ''recorded file does not exist'')
     | Some content \<Rightarrow>
         if int (length content) \<noteq> size_bytes then Inl (CollectionError ''size changed'')
         else let key = (fs_resolve d path, size_bytes, digest) in
           if \<not> fv_enabled fv \<or> key \<in> set (fv_verified fv) then Inr (fv, path)
           else if sha_hex (tl_host t) content \<noteq> digest then Inl (CollectionError ''SHA-256 changed'')
           else Inr (fv\<lparr>fv_verified := fv_verified fv @ [key]\<rparr>, path)))))))"

subsection \<open>Shared artifacts\<close>

record dataset =
  ds_corpus_count :: int
  ds_query_count :: int
  ds_dimensions :: int
  ds_documents_sha :: pystr
  ds_queries_sha :: pystr
  ds_corpus_cache_sha :: pystr
  ds_query_cache_sha :: pystr
  ds_truth_sha :: pystr
  ds_truth_top_k :: int
  ds_model_sha :: pystr
  ds_model_artifact_sha :: pystr
  ds_fingerprint :: pystr

definition member :: "jobj \<Rightarrow> string \<Rightarrow> jobj res" where
  "member m k = and_then (required m k) mapping"

definition identity_sha :: "jobj \<Rightarrow> pystr res" where
  "identity_sha m = sha_field (jget m ''sha256'') (CollectionError ''invalid identity field'')"

definition identity_text :: "json \<Rightarrow> pystr res" where
  "identity_text v = (case v of JStr s \<Rightarrow> if s = [] then Inl (CollectionError ''missing identity field'') else Inr s
     | _ \<Rightarrow> Inl (CollectionError ''missing identity field''))"

text \<open>The fields of the identity, in the order in which the code reads and checks them.\<close>

definition identity_fields :: "jobj \<Rightarrow> jobj \<Rightarrow> jobj \<Rightarrow> jobj \<Rightarrow> jobj \<Rightarrow> jobj \<Rightarrow> jobj \<Rightarrow> dataset res" where
  "identity_fields documents queries corpus query_cache truth model artifact =
     and_then (integer (jget corpus ''count'') 1) (\<lambda>corpus_count.
     and_then (integer (jget query_cache ''count'') 1) (\<lambda>query_count.
     and_then (integer (jget corpus ''dimensions'') 1) (\<lambda>dimensions.
     and_then (identity_sha documents) (\<lambda>documents_sha.
     and_then (identity_sha queries) (\<lambda>queries_sha.
     and_then (identity_sha corpus) (\<lambda>corpus_sha.
     and_then (identity_sha query_cache) (\<lambda>query_sha.
     and_then (identity_sha truth) (\<lambda>truth_sha.
     and_then (integer (jget truth ''top_k'') 1) (\<lambda>top_k.
     and_then (identity_sha model) (\<lambda>model_sha.
     and_then (identity_sha artifact) (\<lambda>artifact_sha.
     and_then (identity_text (jget corpus ''fingerprint'')) (\<lambda>fingerprint.
     Inr \<lparr>ds_corpus_count = corpus_count, ds_query_count = query_count, ds_dimensions = dimensions,
       ds_documents_sha = documents_sha, ds_queries_sha = queries_sha, ds_corpus_cache_sha = corpus_sha,
       ds_query_cache_sha = query_sha, ds_truth_sha = truth_sha, ds_truth_top_k = top_k, ds_model_sha = model_sha,
       ds_model_artifact_sha = artifact_sha, ds_fingerprint = fingerprint\<rparr>))))))))))))"

definition identity_agrees :: "jobj \<Rightarrow> jobj \<Rightarrow> jobj \<Rightarrow> jobj \<Rightarrow> jobj \<Rightarrow> dataset \<Rightarrow> unit res" where
  "identity_agrees documents queries query_cache truth model ds =
     and_then (require (py_eq (jget query_cache ''dimensions'') (JInt (ds_dimensions ds))) (CollectionError ''corpus/query dimensions differ'')) (\<lambda>_.
     and_then (require (py_eq (jget query_cache ''fingerprint'') (JStr (ds_fingerprint ds))) (CollectionError ''corpus/query fingerprints differ'')) (\<lambda>_.
     and_then (require (py_eq (jget truth ''corpus_count'') (JInt (ds_corpus_count ds))) (CollectionError ''truth corpus count differs'')) (\<lambda>_.
     and_then (require (py_eq (jget truth ''query_count'') (JInt (ds_query_count ds))) (CollectionError ''truth query count differs'')) (\<lambda>_.
     and_then (require (py_eq (jget documents ''nonempty_lines'') (JInt (ds_corpus_count ds))) (CollectionError ''document line count differs'')) (\<lambda>_.
     and_then (require (py_eq (jget queries ''nonempty_lines'') (JInt (ds_query_count ds))) (CollectionError ''query line count differs'')) (\<lambda>_.
     require (py_eq (jget model ''identity_strength'') (JStr (u ''artifact-sha256'')))
       (CollectionError ''benchmark model must be bound by artifact SHA-256'')))))))"

definition shared_identity :: "jobj \<Rightarrow> dataset res" where
  "shared_identity shared =
     and_then (member shared ''documents'') (\<lambda>documents.
     and_then (member shared ''queries'') (\<lambda>queries.
     and_then (member shared ''corpus_cache'') (\<lambda>corpus.
     and_then (member shared ''query_cache'') (\<lambda>query_cache.
     and_then (member shared ''ground_truth'') (\<lambda>truth.
     and_then (member shared ''model'') (\<lambda>model.
     and_then (member model ''artifact'') (\<lambda>artifact.
     and_then (identity_fields documents queries corpus query_cache truth model artifact) (\<lambda>ds.
     and_then (identity_agrees documents queries query_cache truth model ds) (\<lambda>_.
     Inr ds)))))))))"

text \<open>\<open>_dataset_record\<close>: the identity with the sizes and paths the report shows.\<close>

record dataset_record =
  dr_tier :: pystr
  dr_identity :: dataset
  dr_raw_bytes :: int
  dr_dense_bytes :: int
  dr_documents_path :: json
  dr_corpus_cache_path :: json
  dr_truth_path :: json

definition make_dataset_record :: "pystr \<Rightarrow> jobj \<Rightarrow> dataset_record res" where
  "make_dataset_record tier shared =
     and_then (shared_identity shared) (\<lambda>ds.
     and_then (member shared ''documents'') (\<lambda>documents.
     and_then (member shared ''corpus_cache'') (\<lambda>corpus.
     and_then (member shared ''ground_truth'') (\<lambda>truth.
     and_then (integer (jget documents ''size_bytes'') 1) (\<lambda>raw.
     and_then (integer (jget corpus ''vector_bytes'') 1) (\<lambda>dense.
     Inr \<lparr>dr_tier = tier, dr_identity = ds, dr_raw_bytes = raw, dr_dense_bytes = dense,
       dr_documents_path = jget documents ''path'', dr_corpus_cache_path = jget corpus ''path'',
       dr_truth_path = jget truth ''path''\<rparr>))))))"

subsection \<open>The prefix of the document identifiers\<close>

text \<open>\<open>{item["name"]: item for item in tiers}\<close>: the last item of a name counts.\<close>

definition tier_item :: "(json \<times> jobj) list \<Rightarrow> json \<Rightarrow> (json \<times> jobj) list res" where
  "tier_item tiers item =
     (case item of
        JObj m \<Rightarrow> and_then (jidx m ''name'') (\<lambda>name.
          case name of
            JArr _ \<Rightarrow> Inl (TypeError ''unhashable'')
          | JObj _ \<Rightarrow> Inl (TypeError ''unhashable'')
          | _ \<Rightarrow> Inr (dict_set tiers name m))
      | _ \<Rightarrow> Inl (TypeError ''indices''))"

record prefix_identity =
  pi_size :: int
  pi_sha :: pystr

definition prefix_of_tiers :: "tools \<Rightarrow> fsys \<Rightarrow> jobj \<Rightarrow> jobj \<Rightarrow> prefix_identity res" where
  "prefix_of_tiers t d small large =
     and_then (mapping (jget small ''document_ids'')) (\<lambda>smaller.
     and_then (mapping (jget large ''document_ids'')) (\<lambda>larger.
     and_then (integer (jget smaller ''size_bytes'') 1) (\<lambda>smaller_size.
     and_then (integer (jget larger ''size_bytes'') 1) (\<lambda>larger_size.
     and_then (require (smaller_size < larger_size) (CollectionError ''1m document ID mapping is not larger than 100k'')) (\<lambda>_.
     and_then (nonempty_string (jget larger ''path'')) (\<lambda>path.
     and_then (sha256_file (tl_host t) d path 0 (Some (nat smaller_size))) (\<lambda>sha.
     if \<not> py_eq (JStr sha) (jget smaller ''sha256'')
       then Inl (CollectionError ''100k document ID mapping is not the exact byte prefix of 1m'')
     else Inr \<lparr>pi_size = smaller_size, pi_sha = sha\<rparr>)))))))"

definition validate_document_id_prefix :: "tools \<Rightarrow> fsys \<Rightarrow> jobj \<Rightarrow> prefix_identity option res" where
  "validate_document_id_prefix t d derivation =
     and_then (sequence (jget derivation ''tiers'')) (\<lambda>items.
     and_then (fold_res tier_item [] items) (\<lambda>tiers.
     case (map_of tiers (JStr (u ''100k'')), map_of tiers (JStr (u ''1m''))) of
       (Some small, Some large) \<Rightarrow> and_then (prefix_of_tiers t d small large) (\<lambda>p. Inr (Some p))
     | _ \<Rightarrow> Inr None))"

subsection \<open>Order statistics\<close>

lemma sorted_count_le:
  assumes "sorted (map f xs)" and "k < length xs"
  shows "Suc k \<le> length (filter (\<lambda>x. f x \<le> (f (xs ! k) :: 'a :: linorder)) xs)"
    and "length (filter (\<lambda>x. f x < f (xs ! k)) xs) \<le> k"
proof -
  have le: "f x \<le> f (xs ! k)" if "x \<in> set (take (Suc k) xs)" for x
  proof -
    from that obtain i where "i < Suc k" "x = xs ! i" using assms(2) by (auto simp: in_set_conv_nth)
    then show ?thesis using assms sorted_nth_mono [OF assms(1), of i k] by simp
  qed
  have ge: "f (xs ! k) \<le> f x" if "x \<in> set (drop k xs)" for x
  proof -
    from that obtain i where "i < length (drop k xs)" "x = drop k xs ! i" by (metis in_set_conv_nth)
    then have "k + i < length xs" "x = xs ! (k + i)" by simp_all
    then show ?thesis using sorted_nth_mono [OF assms(1), of k "k + i"] by simp
  qed
  have "filter (\<lambda>x. f x \<le> f (xs ! k)) (take (Suc k) xs) = take (Suc k) xs" using le by (simp add: filter_id_conv)
  moreover have "filter (\<lambda>x. f x \<le> f (xs ! k)) xs = filter (\<lambda>x. f x \<le> f (xs ! k)) (take (Suc k) xs)
      @ filter (\<lambda>x. f x \<le> f (xs ! k)) (drop (Suc k) xs)"
    by (metis append_take_drop_id filter_append)
  ultimately show "Suc k \<le> length (filter (\<lambda>x. f x \<le> f (xs ! k)) xs)" using assms(2) by simp
  have "filter (\<lambda>x. f x < f (xs ! k)) (drop k xs) = []" using ge by (auto simp: filter_empty_conv not_less)
  then have "filter (\<lambda>x. f x < f (xs ! k)) xs = filter (\<lambda>x. f x < f (xs ! k)) (take k xs)"
    by (metis append_Nil2 append_take_drop_id filter_append)
  then show "length (filter (\<lambda>x. f x < f (xs ! k)) xs) \<le> k"
    using length_filter_le [of "\<lambda>x. f x < f (xs ! k)" "take k xs"] assms(2) by simp
qed

text \<open>
  The nearest-rank percentile of \<open>n\<close> values is one of them, an order statistic: with
  \<open>k\<close> the rounded-up product of the fraction and \<open>n\<close>, kept between 1 and \<open>n\<close>, at least \<open>k\<close> values are at
  most the result and fewer than \<open>k\<close> lie below it.
\<close>

theorem nearest_rank_is_order_statistic:
  assumes "nearest_rank vals fraction = Inr r"
  shows "\<exists>k. k = min (length vals) (nat (max 1 \<lceil>fin_val (fl_mul fraction (rnd64 (of_nat (length vals))))\<rceil>))
    \<and> r \<in> set vals \<and> k \<le> length (filter (\<lambda>x. fin_val x \<le> fin_val r) vals)
    \<and> length (filter (\<lambda>x. fin_val x < fin_val r) vals) < k"
proof -
  let ?xs = "sort_key fin_val vals" and ?c = "\<lceil>fin_val (fl_mul fraction (rnd64 (of_nat (length vals))))\<rceil>"
  define p where "p = nat (min (max 0 (?c - 1)) (int (length vals) - 1))"
  have ne: "vals \<noteq> []" and r: "r = ?xs ! p"
    using assms by (auto simp: nearest_rank_def p_def Let_def split: if_splits)
  have p: "p < length vals" using ne by (simp add: p_def min_less_iff_disj nat_less_iff)
  have k: "Suc p = min (length vals) (nat (max 1 ?c))"
  proof -
    have "0 < int (length vals)" using ne by simp
    then have "int (Suc p) = min (int (length vals)) (max 1 ?c)" unfolding p_def min_def max_def by (simp; linarith)
    also have "\<dots> = int (min (length vals) (nat (max 1 ?c)))" using ne by (cases vals) (simp_all add: of_nat_min)
    finally show ?thesis by (simp only: of_nat_eq_iff)
  qed
  have s: "sorted (map fin_val ?xs)" by simp
  have cnt: "length (filter P ?xs) = length (filter P vals)" for P
    by (metis mset_filter mset_sort size_mset)
  have "r \<in> set vals" using p r by (metis length_sort nth_mem set_sort)
  then show ?thesis
    using sorted_count_le [OF s, of p] p unfolding r [symmetric] cnt k [symmetric] by simp
qed

subsection \<open>Artifact sets do not depend on the order of the record\<close>

definition artifact_of :: "tools \<Rightarrow> json \<Rightarrow> artifact" where
  "artifact_of t v =
     (case v of
        JObj s \<Rightarrow> \<lparr>af_name = pure_name (py_str t (jget s ''path'')), af_size = jget s ''size_bytes'',
          af_sha = jget s ''sha256'', af_path = jget s ''path''\<rparr>
      | _ \<Rightarrow> \<lparr>af_name = [], af_size = JNull, af_sha = JNull, af_path = JNull\<rparr>)"

lemma artifact_step_ok:
  "artifact_step t seen v = Inr seen' \<longleftrightarrow>
     (\<exists>s. v = JObj s) \<and> af_name (artifact_of t v) \<notin> af_name ` set seen \<and> seen' = seen @ [artifact_of t v]"
  by (auto simp: artifact_step_def artifact_of_def snapshot_identity_def mapping_def Let_def split: json.splits)

lemma artifact_fold_ok:
  "distinct (map af_name seen) \<Longrightarrow> fold_res (artifact_step t) seen vals = Inr out \<longleftrightarrow>
     (\<forall>v \<in> set vals. \<exists>s. v = JObj s) \<and> out = seen @ map (artifact_of t) vals \<and> distinct (map af_name out)"
proof (induction vals arbitrary: seen)
  case (Cons v vals)
  show ?case
  proof (cases "(\<exists>s. v = JObj s) \<and> af_name (artifact_of t v) \<notin> af_name ` set seen")
    case True
    then have "fold_res (artifact_step t) seen (v # vals) = fold_res (artifact_step t) (seen @ [artifact_of t v]) vals"
      using artifact_step_ok [of t seen v "seen @ [artifact_of t v]"] by simp
    with True Cons show ?thesis by auto
  next
    case False
    then have "artifact_step t seen v \<noteq> Inr s" for s using False unfolding artifact_step_ok by blast
    then have "fold_res (artifact_step t) seen (v # vals) \<noteq> Inr out" by (auto split: sum.splits)
    then show ?thesis using False by auto
  qed
qed auto

lemma sort_key_mset_unique:
  assumes "mset xs = mset ys" and "distinct (map f xs)"
  shows "sort_key f xs = sort_key f ys"
proof (rule properties_for_sort_key)
  show m: "mset (sort_key f ys) = mset xs" using assms(1) by simp
  show "sorted (map f (sort_key f ys))" by simp
  fix k assume k: "k \<in> set (sort_key f ys)"
  have only: "filter (\<lambda>x. f k = f x) zs = [k]" if "distinct (map f zs)" "k \<in> set zs" for zs
    using that by (induction zs) (auto simp: filter_empty_conv image_iff)
  have "distinct (map f (sort_key f ys))" using assms by (metis m mset_eq_imp_distinct_iff mset_map)
  moreover have "k \<in> set xs" using k m by (metis mset_eq_setD)
  ultimately show "filter (\<lambda>x. f k = f x) (sort_key f ys) = filter (\<lambda>x. f k = f x) xs"
    using only k assms(2) by simp
qed

text \<open>
  An accepted artifact set is the same whatever the order in which the record lists the artifacts, and
  its artifacts are listed by name without repetition.
\<close>

theorem artifact_set_canonical:
  assumes "make_artifact_set t (JArr vals) = Inr a" and "mset vals' = mset vals"
  shows "make_artifact_set t (JArr vals') = Inr a \<and> sorted_wrt (<) (map af_name (as_artifacts a))
    \<and> as_artifacts a = sort_key af_name (map (artifact_of t) vals)"
proof -
  from assms(1) obtain out where out: "vals \<noteq> []" "fold_res (artifact_step t) [] vals = Inr out"
    "as_artifacts a = sort_key af_name out"
    and sha: "collector_hash t (JArr (map portable_json (sort_key af_name out))) = Inr (as_sha a)"
    by (auto simp: make_artifact_set_def ok_simps Let_def)
  then have o1: "\<forall>v \<in> set vals. \<exists>s. v = JObj s" "out = map (artifact_of t) vals" "distinct (map af_name out)"
  proof -
    have "distinct (map af_name [])" by simp
    from artifact_fold_ok [OF this, of t vals out] out(2)
    show "\<forall>v \<in> set vals. \<exists>s. v = JObj s" "out = map (artifact_of t) vals" "distinct (map af_name out)"
      unfolding append_Nil by blast+
  qed
  let ?out = "map (artifact_of t) vals'"
  have m: "mset ?out = mset out" using assms(2) o1(2) by simp
  have d: "distinct (map af_name ?out)" using m o1(3) by (metis mset_eq_imp_distinct_iff mset_map)
  have "fold_res (artifact_step t) [] vals' = Inr ?out"
    using o1(1) d mset_eq_setD [OF assms(2)] by (simp add: artifact_fold_ok)
  moreover have "sort_key af_name ?out = sort_key af_name out" by (rule sort_key_mset_unique [OF m d])
  moreover have "vals' \<noteq> []" using assms(2) out(1) by auto
  ultimately have "make_artifact_set t (JArr vals') = Inr a"
    using sha out(3) by (simp add: make_artifact_set_def sequence_def Let_def)
  moreover have "sorted_wrt (<) (map af_name (as_artifacts a))"
    using o1(3) unfolding out(3) strict_sorted_iff by (simp add: distinct_sort_key)
  ultimately show ?thesis using out(3) o1(2) by simp
qed

subsection \<open>What the verifier guarantees\<close>

definition key_matches :: "tools \<Rightarrow> fsys \<Rightarrow> pystr \<times> int \<times> pystr \<Rightarrow> bool" where
  "key_matches t d key =
     (case key of (p, n, digest) \<Rightarrow>
        case fs_file d p of None \<Rightarrow> False
        | Some content \<Rightarrow> int (length content) = n \<and> sha_hex (tl_host t) content = digest)"

definition snapshot_matches :: "tools \<Rightarrow> fsys \<Rightarrow> json \<Rightarrow> bool" where
  "snapshot_matches t d s =
     (case s of
        JObj r \<Rightarrow>
          (case (jget r ''path'', jget r ''size_bytes'', jget r ''sha256'') of
             (JStr p, JInt n, JStr digest) \<Rightarrow> is_hex 64 digest \<and> key_matches t d (fs_resolve d p, n, digest)
           | _ \<Rightarrow> False)
      | _ \<Rightarrow> False)"

definition verifier_ok :: "tools \<Rightarrow> fsys \<Rightarrow> verifier \<Rightarrow> bool" where
  "verifier_ok t d fv \<longleftrightarrow> fv_enabled fv \<and> distinct (fv_verified fv) \<and> list_all (key_matches t d) (fv_verified fv)"

text \<open>Verifying a list of snapshots with one verifier.\<close>

definition verify_all :: "tools \<Rightarrow> fsys \<Rightarrow> verifier \<Rightarrow> json list \<Rightarrow> verifier res" where
  "verify_all t d = fold_res (\<lambda>fv s. and_then (verify t d fv s) (\<lambda>(fv', p). Inr fv'))"

lemma sha_field_ok [ok_simps]: "sha_field v e = Inr s \<longleftrightarrow> v = JStr s \<and> is_hex 64 s"
  by (auto simp: sha_field_def split: json.splits if_splits)

lemma path_field_ok [ok_simps]: "path_field v = Inr p \<longleftrightarrow> v = JStr p \<and> p \<noteq> []"
  by (auto simp: path_field_def split: json.splits if_splits)

lemma verify_sound:
  assumes v: "verify t d fv s = Inr (fv', path)" and ok: "verifier_ok t d fv"
  shows "verifier_ok t d fv'" and "snapshot_matches t d s" and "set (fv_verified fv) \<subseteq> set (fv_verified fv')"
proof -
  from v obtain r n digest content where s: "s = JObj r" "map_of r (u ''path'') = Some (JStr path)"
    "map_of r (u ''size_bytes'') = Some (JInt n)" "map_of r (u ''sha256'') = Some (JStr digest)" "is_hex 64 digest"
    "file_at d path = Some content" "int (length content) = n"
    and rest: "(if (fs_resolve d path, n, digest) \<in> set (fv_verified fv) then Inr (fv, path)
       else if sha_hex (tl_host t) content \<noteq> digest then Inl (CollectionError ''SHA-256 changed'')
       else Inr (fv\<lparr>fv_verified := fv_verified fv @ [(fs_resolve d path, n, digest)]\<rparr>, path)) = Inr (fv', path)"
    using ok by (auto simp: verify_def ok_simps verifier_ok_def Let_def split: if_splits option.splits)
  have get: "jget r ''path'' = JStr path" "jget r ''size_bytes'' = JInt n" "jget r ''sha256'' = JStr digest"
    using s by (simp_all add: jget_def)
  have fresh: "key_matches t d (fs_resolve d path, n, digest)" if "sha_hex (tl_host t) content = digest"
    using s that by (simp add: key_matches_def file_at_def)
  have "key_matches t d (fs_resolve d path, n, digest)"
    using rest fresh ok by (auto simp: verifier_ok_def list_all_iff split: if_splits)
  then show "snapshot_matches t d s" using s get by (simp add: snapshot_matches_def)
  show "verifier_ok t d fv'" "set (fv_verified fv) \<subseteq> set (fv_verified fv')"
    using rest fresh ok by (auto simp: verifier_ok_def split: if_splits)
qed

text \<open>
  Whatever sequence of snapshots an enabled verifier accepts, each names a file of the recorded size
  and SHA-256 digest, although each distinct file and digest is hashed only once.
\<close>

theorem verified_snapshots_match:
  assumes "verify_all t d \<lparr>fv_enabled = True, fv_verified = []\<rparr> snapshots = Inr fv"
  shows "list_all (snapshot_matches t d) snapshots \<and> distinct (fv_verified fv)"
proof -
  have "verifier_ok t d fv0 \<Longrightarrow> verify_all t d fv0 snapshots = Inr fv \<Longrightarrow>
      verifier_ok t d fv \<and> list_all (snapshot_matches t d) snapshots" for fv0
  proof (induction snapshots arbitrary: fv0)
    case (Cons s ss)
    from Cons.prems(2) obtain fv1 p where "verify t d fv0 s = Inr (fv1, p)" "verify_all t d fv1 ss = Inr fv"
      by (auto simp: verify_all_def ok_simps)
    then show ?case using verify_sound(1,2) [of t d fv0 s fv1 p] Cons.IH [of fv1] Cons.prems(1) by simp
  qed (simp add: verify_all_def)
  from this [OF _ assms] show ?thesis by (simp add: verifier_ok_def)
qed

text \<open>
  C24. When the prefix of the document identifiers is accepted, the identifier file of the larger tier
  begins, byte for byte, with the file recorded for the smaller one, unless SHA-256 has a collision there.
\<close>

theorem accepted_prefix_is_prefix:
  assumes "validate_document_id_prefix t d derivation = Inr (Some p)"
    and "int (length small) = pi_size p" and "sha_hex (tl_host t) small = pi_sha p"
    and "\<And>large. sha_hex (tl_host t) (take (length small) large) = sha_hex (tl_host t) small \<Longrightarrow>
        length small \<le> length large \<Longrightarrow> take (length small) large = small"
  shows "\<exists>items tiers m larger path content. jget derivation ''tiers'' = JArr items \<and> fold_res tier_item [] items = Inr tiers
    \<and> map_of tiers (JStr (u ''1m'')) = Some m \<and> jget m ''document_ids'' = JObj larger \<and> jget larger ''path'' = JStr path
    \<and> file_at d path = Some content \<and> prefix small content"
proof -
  from assms(1) obtain items tiers s1 m where t: "jget derivation ''tiers'' = JArr items" "fold_res tier_item [] items = Inr tiers"
    "map_of tiers (JStr (u ''100k'')) = Some s1" "map_of tiers (JStr (u ''1m'')) = Some m" "prefix_of_tiers t d s1 m = Inr p"
    by (auto simp: validate_document_id_prefix_def ok_simps split: option.splits)
  then obtain larger path n sha where l: "jget m ''document_ids'' = JObj larger" "jget larger ''path'' = JStr path"
    "sha256_file (tl_host t) d path 0 (Some (nat n)) = Inr sha" "p = \<lparr>pi_size = n, pi_sha = sha\<rparr>"
    by (auto simp: prefix_of_tiers_def ok_simps)
  then obtain content where c: "file_at d path = Some content" "length small \<le> length content"
    "sha_hex (tl_host t) (take (length small) content) = sha"
    using assms(2) by (auto simp: sha256_file_def open_rb_file_at sha256_bytes_some ok_simps split: option.splits if_splits)
  then have "take (length small) content = small" using assms(3,4) l(4) by simp
  then have "prefix small content" by (metis prefix_take)
  then show ?thesis using t l c by blast
qed

subsection \<open>Sample evidence\<close>

lemma rnd64_samples: "rnd64 3 = Fin 3" "rnd64 (3 / 2) = Fin (3 / 2)"
  using rnd64_dyadic [of 3 0] rnd64_dyadic [of 3 "- 1"] by (simp_all add: pow2_def)

theorem nearest_rank_is_order_statistic_witness:
  "nearest_rank [Fin 3, Fin 1, Fin 2] (Fin (1 / 2)) = Inr (Fin 2)
    \<and> 2 \<le> length (filter (\<lambda>x. fin_val x \<le> 2) [Fin 3, Fin 1, Fin 2])"
proof -
  have r: "nearest_rank [Fin 3, Fin 1, Fin 2] (Fin (1 / 2)) = Inr (Fin 2)"
  proof -
    have "\<lceil>3 / 2 :: rat\<rceil> = 2" by (rule ceiling_unique) simp_all
    then show ?thesis by (simp add: nearest_rank_def fl_mul_def rnd64_samples Let_def)
  qed
  have "\<lceil>3 / 2 :: rat\<rceil> = 2" by (rule ceiling_unique) simp_all
  with nearest_rank_is_order_statistic [OF r] show ?thesis
    using r by (simp add: fl_mul_def rnd64_samples)
qed

definition sample_tools :: tools where
  "sample_tools = \<lparr>tl_host = counting_host, tl_dumps = (\<lambda>v. Inr (replicate (to_nat v) 0)), tl_str = (\<lambda>_. []),
     tl_mean = (\<lambda>_. Fin 0), tl_percentile = (\<lambda>_ _. Fin 0)\<rparr>"

definition sample_snapshot :: "string \<Rightarrow> json" where
  "sample_snapshot name = JObj (jobj [(''path'', JStr (u name)), (''size_bytes'', JInt 0),
     (''sha256'', JStr (to_hex (replicate 32 0)))])"

definition empty_files :: fsys where
  "empty_files = \<lparr>fs_resolve = id, fs_file = (\<lambda>_. Some [])\<rparr>"

lemma sample_names: "pure_name (u ''a'') = u ''a''" "pure_name (u ''b'') = u ''b''"
  by (simp_all add: pure_name_def u_def Let_def)

theorem artifact_set_canonical_witness:
  "\<exists>a. make_artifact_set sample_tools (JArr [sample_snapshot ''b'', sample_snapshot ''a'']) = Inr a
    \<and> make_artifact_set sample_tools (JArr [sample_snapshot ''a'', sample_snapshot ''b'']) = Inr a"
proof -
  obtain a where a: "make_artifact_set sample_tools (JArr [sample_snapshot ''b'', sample_snapshot ''a'']) = Inr a"
    by (auto simp: make_artifact_set_def sequence_def sample_snapshot_def artifact_step_def mapping_def snapshot_identity_def
        py_str_def sample_names collector_hash_def sample_tools_def Let_def)
  from artifact_set_canonical [OF this, of "[sample_snapshot ''a'', sample_snapshot ''b'']"] a show ?thesis
    by (simp add: add_mset_commute)
qed

lemma zero_digest: "is_hex 64 (to_hex (replicate 32 0))" "sha_hex counting_host [] = to_hex (replicate 32 0)"
  using is_hex_to_hex [of "replicate 32 0"] by (simp_all add: sha_hex_def counting_host_def)

theorem verified_snapshots_match_witness:
  "\<exists>fv. verify_all sample_tools empty_files \<lparr>fv_enabled = True, fv_verified = []\<rparr>
      [sample_snapshot ''a'', sample_snapshot ''b'', sample_snapshot ''a''] = Inr fv
    \<and> list_all (snapshot_matches sample_tools empty_files) [sample_snapshot ''a'', sample_snapshot ''b'', sample_snapshot ''a'']"
proof -
  obtain fv where "verify_all sample_tools empty_files \<lparr>fv_enabled = True, fv_verified = []\<rparr>
      [sample_snapshot ''a'', sample_snapshot ''b'', sample_snapshot ''a''] = Inr fv"
    by (auto simp: verify_all_def verify_def sample_snapshot_def mapping_def required_def integer_def path_field_def
        sha_field_def zero_digest file_at_def empty_files_def sample_tools_def Let_def)
  from verified_snapshots_match [OF this] this show ?thesis by blast
qed

definition sample_derivation :: jobj where
  "sample_derivation = jobj [(''tiers'', JArr (map (\<lambda>(name, n). JObj (jobj [(''name'', JStr (u name)),
     (''document_ids'', JObj (jobj [(''path'', JStr (u ''ids'')), (''size_bytes'', JInt n),
        (''sha256'', JStr (to_hex (1 # replicate 31 0)))]))])) [(''100k'', 1), (''1m'', 2)]))]"

definition id_files :: fsys where
  "id_files = \<lparr>fs_resolve = id, fs_file = (\<lambda>_. Some [1, 2])\<rparr>"

theorem accepted_prefix_is_prefix_witness:
  "validate_document_id_prefix sample_tools id_files sample_derivation
      = Inr (Some \<lparr>pi_size = 1, pi_sha = to_hex (1 # replicate 31 0)\<rparr>) \<and> prefix [1 :: byte] [1, 2]"
proof -
  have sha: "sha_hex counting_host [1] = to_hex (1 # replicate 31 0)" by (simp add: sha_hex_def counting_host_def)
  have v: "validate_document_id_prefix sample_tools id_files sample_derivation
      = Inr (Some \<lparr>pi_size = 1, pi_sha = to_hex (1 # replicate 31 0)\<rparr>)"
    by (simp add: validate_document_id_prefix_def sample_derivation_def sequence_def tier_item_def prefix_of_tiers_def
        mapping_def integer_def nonempty_string_def sha256_file_def open_rb_def id_files_def sample_tools_def
        sha256_bytes_some sha)
  have "\<exists>items tiers m larger path content. jget sample_derivation ''tiers'' = JArr items
    \<and> fold_res tier_item [] items = Inr tiers
    \<and> map_of tiers (JStr (u ''1m'')) = Some m \<and> jget m ''document_ids'' = JObj larger \<and> jget larger ''path'' = JStr path
    \<and> file_at id_files path = Some content \<and> prefix [1] content"
  proof (rule accepted_prefix_is_prefix [OF v])
    fix large :: bytes
    assume "length [1 :: byte] \<le> length large" and "sha_hex (tl_host sample_tools) (take (length [1 :: byte]) large)
        = sha_hex (tl_host sample_tools) [1]"
    then show "take (length [1 :: byte]) large = [1]"
      by (cases large; auto simp: sample_tools_def sha_hex_def counting_host_def to_hex_def hex_char_def
          dest!: arg_cong [of _ _ hd] split: if_splits) (simp add: word_unat_eq_iff)
  qed (simp_all add: sample_tools_def sha)
  then show ?thesis using v by simp
qed

end
