(* ===== verification/Csv.thy ===== *)
theory Csv
  imports Disk
begin

text \<open>
  The CSV files of \<open>collect_large_scale_results.py\<close>: the \<open>csv\<close> module's reader and \<open>DictReader\<close> in the default
  dialect (what \<open>_read_native_csv\<close> and \<open>validate_output_commit\<close> run over a file opened with
  \<open>newline=""\<close>), and its writer with minimal quoting (what \<open>report_csv\<close> produces). The reader goes line by line; a
  quoted field may span lines. The lemmas show that every written table is read back.
\<close>

subsection \<open>The CSV reader\<close>

datatype csv_state = StartRecord | StartField | InField | InQuoted | QuoteInQuoted | EatNewline

record csv =
  cv_state :: csv_state
  cv_field :: pystr
  cv_fields :: "pystr list"

definition csv_start :: csv where
  "csv_start = \<lparr>cv_state = StartRecord, cv_field = [], cv_fields = []\<rparr>"

definition csv_error :: exn where
  "csv_error = CollectionError ''cannot parse CSV''"

definition csv_add :: "csv \<Rightarrow> nat \<Rightarrow> csv_state \<Rightarrow> csv res" where
  "csv_add s c next_state =
     (if 131072 \<le> length (cv_field s) then Inl csv_error
      else Inr (s\<lparr>cv_field := cv_field s @ [c], cv_state := next_state\<rparr>))"

definition csv_save :: "csv \<Rightarrow> csv_state \<Rightarrow> csv" where
  "csv_save s next_state = \<lparr>cv_state = next_state, cv_field = [], cv_fields = cv_fields s @ [cv_field s]\<rparr>"

text \<open>One character, or the end of the line (\<open>None\<close>); 44 is the comma, 34 the quote.\<close>

definition line_end :: "nat option \<Rightarrow> bool" where
  "line_end c \<longleftrightarrow> c = None \<or> c = Some 10 \<or> c = Some 13"

definition after_end :: "nat option \<Rightarrow> csv_state" where
  "after_end c = (if c = None then StartRecord else EatNewline)"

definition csv_field_char :: "csv \<Rightarrow> nat option \<Rightarrow> csv res" where
  "csv_field_char s c =
     (if line_end c then Inr (csv_save s (after_end c))
      else if c = Some 34 then Inr (s\<lparr>cv_state := InQuoted\<rparr>)
      else if c = Some 44 then Inr (csv_save s StartField)
      else csv_add s (the c) InField)"

definition csv_char :: "csv \<Rightarrow> nat option \<Rightarrow> csv res" where
  "csv_char s c =
     (case cv_state s of
        StartRecord \<Rightarrow>
          if c = None then Inr s
          else if line_end c then Inr (s\<lparr>cv_state := EatNewline\<rparr>)
          else csv_field_char s c
      | StartField \<Rightarrow> csv_field_char s c
      | InField \<Rightarrow>
          if line_end c then Inr (csv_save s (after_end c))
          else if c = Some 44 then Inr (csv_save s StartField)
          else csv_add s (the c) InField
      | InQuoted \<Rightarrow>
          (case c of
             None \<Rightarrow> Inr s
           | Some ch \<Rightarrow> if ch = 34 then Inr (s\<lparr>cv_state := QuoteInQuoted\<rparr>) else csv_add s ch InQuoted)
      | QuoteInQuoted \<Rightarrow>
          if c = Some 34 then csv_add s 34 InQuoted
          else if c = Some 44 then Inr (csv_save s StartField)
          else if line_end c then Inr (csv_save s (after_end c))
          else csv_add s (the c) InField
      | EatNewline \<Rightarrow>
          (case c of
             None \<Rightarrow> Inr (s\<lparr>cv_state := StartRecord\<rparr>)
           | Some ch \<Rightarrow> if line_end c then Inr s else Inl csv_error))"

definition csv_line :: "csv \<Rightarrow> pystr \<Rightarrow> csv res" where
  "csv_line s line = fold_res csv_char s (map Some line @ [None])"

text \<open>The records of the lines; a record that is open at the end is closed there.\<close>

fun csv_records :: "csv \<Rightarrow> pystr list \<Rightarrow> pystr list list res" where
  "csv_records s [] =
     (if cv_field s \<noteq> [] \<or> cv_state s = InQuoted then Inr [cv_fields s @ [cv_field s]] else Inr [])"
| "csv_records s (line # ls) =
     (case csv_line s line of Inl e \<Rightarrow> Inl e | Inr s1 \<Rightarrow>
      if cv_state s1 = StartRecord then
        (case csv_records csv_start ls of Inl e \<Rightarrow> Inl e | Inr rs \<Rightarrow> Inr (cv_fields s1 # rs))
      else csv_records s1 ls)"

text \<open>
  \<open>csv.DictReader\<close>: the first record names the columns, empty records are skipped, a missing value is
  \<open>None\<close>, values beyond the columns are not looked at.
\<close>

type_synonym csv_row = "(pystr \<times> pystr option) list"

definition dict_row :: "pystr list \<Rightarrow> pystr list \<Rightarrow> csv_row" where
  "dict_row names vals =
     fold (\<lambda>k m. dict_set m k None) (drop (length vals) names)
       (fold (\<lambda>(k, v) m. dict_set m k (Some v)) (zip names vals) [])"

definition dict_reader :: "pystr list list \<Rightarrow> pystr list \<times> csv_row list" where
  "dict_reader records =
     (case records of [] \<Rightarrow> ([], []) | names # rs \<Rightarrow> (names, map (dict_row names) (filter (\<lambda>r. r \<noteq> []) rs)))"

definition read_csv :: "fsys \<Rightarrow> pystr \<Rightarrow> (pystr list \<times> csv_row list) res" where
  "read_csv d path =
     (case open_rb d path of
        Inl _ \<Rightarrow> Inl csv_error
      | Inr content \<Rightarrow>
          and_then (utf8_decode content) (\<lambda>s.
          and_then (csv_records csv_start (lines_universal [] s)) (\<lambda>records. Inr (dict_reader records))))"

subsection \<open>The CSV writer\<close>

text \<open>A field is quoted when it holds a comma, a quote or an end of line; 10 is \<open>lineterminator="\n"\<close>.\<close>

definition needs_quotes :: "pystr \<Rightarrow> bool" where
  "needs_quotes f \<longleftrightarrow> list_ex (\<lambda>c. c = 10 \<or> c = 13 \<or> c = 34 \<or> c = 44) f"

definition escaped :: "pystr \<Rightarrow> pystr" where
  "escaped f = concat (map (\<lambda>c. if c = 34 then [34, 34] else [c]) f)"

definition csv_field :: "pystr \<Rightarrow> pystr" where
  "csv_field f = (if needs_quotes f then [34] @ escaped f @ [34] else f)"

definition csv_row_text :: "pystr list \<Rightarrow> pystr" where
  "csv_row_text r = (if r = [[]] then [34, 34] else py_join [44] (map csv_field r)) @ [10]"

definition written_csv :: "pystr list list \<Rightarrow> pystr" where
  "written_csv rs = concat (map csv_row_text rs)"

subsection \<open>What is written is read back\<close>

text \<open>
  The reader as it goes over the characters: \<open>mid\<close> tells whether a line is open, its end is fed to the
  automaton as \<open>None\<close>.
\<close>

fun csv_stream :: "bool \<Rightarrow> csv \<Rightarrow> pystr \<Rightarrow> pystr list list res" where
  "csv_stream mid s [] =
     (if mid then
        (case csv_char s None of Inl e \<Rightarrow> Inl e | Inr s1 \<Rightarrow>
         if cv_state s1 = StartRecord then Inr [cv_fields s1] else csv_records s1 [])
      else csv_records s [])"
| "csv_stream mid s (c # cs) =
     (case csv_char s (Some c) of Inl e \<Rightarrow> Inl e | Inr s1 \<Rightarrow>
      if c = 10 \<or> c = 13 \<and> take 1 cs \<noteq> [10] then
        (case csv_char s1 None of Inl e \<Rightarrow> Inl e | Inr s2 \<Rightarrow>
         if cv_state s2 = StartRecord then
           (case csv_stream False csv_start cs of Inl e \<Rightarrow> Inl e | Inr rs \<Rightarrow> Inr (cv_fields s2 # rs))
         else csv_stream False s2 cs)
      else csv_stream True s1 cs)"

text \<open>One line of the reader and the lines behind it.\<close>

definition after_line :: "csv \<Rightarrow> pystr list \<Rightarrow> pystr list list res" where
  "after_line s1 ls =
     (if cv_state s1 = StartRecord then
        (case csv_records csv_start ls of Inl e \<Rightarrow> Inl e | Inr rs \<Rightarrow> Inr (cv_fields s1 # rs))
      else csv_records s1 ls)"

lemma csv_records_line:
  "csv_records s (line # ls) = and_then (fold_res csv_char s (map Some line @ [None])) (\<lambda>s1. after_line s1 ls)"
  by (simp add: csv_line_def after_line_def and_then_def split: sum.splits)

lemma fold_res_snoc: "fold_res f s (xs @ [x]) = and_then (fold_res f s xs) (\<lambda>t. f t x)"
  by (simp add: fold_res_append and_then_def split: sum.splits)

lemma fold_res_Cons: "fold_res f s (x # xs) = and_then (f s x) (\<lambda>t. fold_res f t xs)"
  by (simp add: and_then_def split: sum.splits)

lemma csv_stream_Cons:
  "csv_stream mid s (c # cs) = and_then (csv_char s (Some c)) (\<lambda>s1.
     if c = 10 \<or> c = 13 \<and> take 1 cs \<noteq> [10] then
       and_then (csv_char s1 None) (\<lambda>s2.
         if cv_state s2 = StartRecord then and_then (csv_stream False csv_start cs) (\<lambda>rs. Inr (cv_fields s2 # rs))
         else csv_stream False s2 cs)
     else csv_stream True s1 cs)"
  by (simp add: and_then_def cong: if_cong split: sum.splits)

lemma and_then_assoc: "and_then (and_then m f) g = and_then m (\<lambda>x. and_then (f x) g)"
  by (simp add: and_then_def split: sum.splits)

lemma csv_records_stream:
  "csv_records s (lines_universal acc cs) =
     and_then (fold_res csv_char s (map Some acc)) (\<lambda>s1. csv_stream (acc \<noteq> []) s1 cs)"
proof (induction acc cs arbitrary: s rule: lines_universal.induct)
  case (1 acc)
  show ?case
    by (cases "acc = []")
      (simp_all add: csv_records_line fold_res_snoc and_then_assoc after_line_def csv_start_def and_then_def
        del: csv_records.simps(2) cong: if_cong split: sum.splits)
next
  case (2 acc c cs)
  have after: "after_line s2 (lines_universal [] t) = (if cv_state s2 = StartRecord
        then and_then (csv_stream False csv_start t) (\<lambda>rs. Inr (cv_fields s2 # rs)) else csv_stream False s2 t)"
    if "\<And>s. csv_records s (lines_universal [] t) = csv_stream False s t" for s2 t
    by (simp add: after_line_def that and_then_def cong: if_cong)
  have split: "fold_res csv_char s (map Some (acc @ t) @ rest)
      = and_then (fold_res csv_char s (map Some acc)) (\<lambda>s1. fold_res csv_char s1 (map Some t @ rest))" for s t rest
    by (simp add: fold_res_append and_then_def split: sum.splits)
  note steps = csv_records_line split and_then_assoc fold_res_Cons csv_stream_Cons
  show ?case
  proof (cases "c = 10")
    case True
    then have "csv_records t (lines_universal [] cs) = csv_stream False t cs" for t using 2(1) by simp
    from after [OF this] show ?thesis using True by (simp add: steps del: csv_records.simps fold_res.simps(2) csv_stream.simps map_append)
  next
    case not_lf: False
    show ?thesis
    proof (cases "c = 13")
      case cr: True
      show ?thesis
      proof (cases cs)
        case Nil
        then show ?thesis using cr after [of "[]"]
          by (simp add: steps del: csv_records.simps(2) csv_stream.simps(2) fold_res.simps(2) map_append)
      next
        case (Cons d ds)
        show ?thesis
        proof (cases "d = 10")
          case True
          then have "csv_records t (lines_universal [] ds) = csv_stream False t ds" for t
            using 2(2) [OF not_lf cr Cons] by simp
          from after [OF this] show ?thesis using True cr Cons
            by (simp add: steps del: csv_records.simps fold_res.simps(2) csv_stream.simps map_append)
        next
          case False
          then have "csv_records t (lines_universal [] cs) = csv_stream False t cs" for t
            using 2(3) [OF not_lf cr Cons] by simp
          note next_line = after [OF this]
          have "lines_universal acc (13 # cs) = (acc @ [13]) # lines_universal [] cs" "take 1 cs \<noteq> [10]"
            using False Cons by simp_all
          then show ?thesis using cr
            by (simp add: steps next_line del: csv_records.simps fold_res.simps(2) csv_stream.simps map_append
                lines_universal.simps)
        qed
      qed
    next
      case False
      have "fold_res csv_char s (map Some (acc @ [c])) = and_then (fold_res csv_char s (map Some acc)) (\<lambda>s1. csv_char s1 (Some c))"
        by (simp add: fold_res_snoc)
      then show ?thesis using 2(4) [OF not_lf False] not_lf False
        by (simp add: and_then_assoc csv_stream_Cons del: csv_records.simps fold_res.simps(2) csv_stream.simps map_append)
    qed
  qed
qed

text \<open>Fields of up to the reader's limit; a written field ends with a comma or with the end of the record.\<close>

definition csv_field_ok :: "pystr \<Rightarrow> bool" where
  "csv_field_ok f \<longleftrightarrow> length f \<le> 131072"

lemma stream_quoted:
  assumes "length acc + length f \<le> 131072"
  shows "csv_stream mid \<lparr>cv_state = InQuoted, cv_field = acc, cv_fields = gs\<rparr> (escaped f @ 34 # rest)
    = csv_stream True \<lparr>cv_state = QuoteInQuoted, cv_field = acc @ f, cv_fields = gs\<rparr> rest"
  using assms
proof (induction f arbitrary: acc mid)
  case Nil
  then show ?case by (simp add: escaped_def csv_char_def)
next
  case (Cons c f)
  have tail: "csv_stream m \<lparr>cv_state = InQuoted, cv_field = acc @ [c], cv_fields = gs\<rparr> (escaped f @ 34 # rest)
      = csv_stream True \<lparr>cv_state = QuoteInQuoted, cv_field = acc @ c # f, cv_fields = gs\<rparr> rest" for m
    using Cons.IH [of "acc @ [c]" m] Cons.prems by simp
  have add: "csv_add \<lparr>cv_state = st, cv_field = acc, cv_fields = gs\<rparr> c InQuoted
      = Inr \<lparr>cv_state = InQuoted, cv_field = acc @ [c], cv_fields = gs\<rparr>" for st
    using Cons.prems by (simp add: csv_add_def)
  show ?case
  proof (cases "c = 34")
    case True
    then show ?thesis using tail add by (simp add: escaped_def csv_char_def csv_stream_Cons del: csv_stream.simps)
  next
    case False
    then show ?thesis using tail add
      by (simp add: escaped_def csv_char_def csv_stream_Cons del: csv_stream.simps)
  qed
qed

lemma stream_plain:
  assumes "length acc + length f \<le> 131072" and "\<not> needs_quotes f"
  shows "csv_stream mid \<lparr>cv_state = InField, cv_field = acc, cv_fields = gs\<rparr> (f @ d # rest)
    = csv_stream True \<lparr>cv_state = InField, cv_field = acc @ f, cv_fields = gs\<rparr> (d # rest)"
  using assms
proof (induction f arbitrary: acc mid)
  case (Cons c f)
  then show ?case
    using Cons.IH [of "acc @ [c]" True]
    by (simp add: needs_quotes_def csv_char_def csv_add_def line_end_def csv_stream_Cons del: csv_stream.simps)
qed (simp add: csv_stream_Cons del: csv_stream.simps)

lemma stream_field:
  assumes "csv_field_ok f" and "s = StartRecord \<or> s = StartField" and "d = 44 \<or> d = 10"
    and "d = 10 \<Longrightarrow> s = StartRecord \<Longrightarrow> f \<noteq> []"
  shows "csv_stream mid \<lparr>cv_state = s, cv_field = [], cv_fields = gs\<rparr> (csv_field f @ d # rest)
    = (if d = 44 then csv_stream True \<lparr>cv_state = StartField, cv_field = [], cv_fields = gs @ [f]\<rparr> rest
       else and_then (csv_stream False csv_start rest) (\<lambda>rs. Inr ((gs @ [f]) # rs)))"
proof -
  have stop: "csv_stream m \<lparr>cv_state = st, cv_field = f, cv_fields = gs\<rparr> (d # rest)
    = (if d = 44 then csv_stream True \<lparr>cv_state = StartField, cv_field = [], cv_fields = gs @ [f]\<rparr> rest
       else and_then (csv_stream False csv_start rest) (\<lambda>rs. Inr ((gs @ [f]) # rs)))"
    if "st = InField \<or> st = QuoteInQuoted \<or> (f = [] \<and> st = s)" for st m
    using that assms(2,3,4)
    by (auto simp: csv_char_def csv_field_char_def csv_save_def line_end_def after_end_def csv_stream_Cons
        simp del: csv_stream.simps)
  show ?thesis
  proof (cases "needs_quotes f")
    case True
    have "csv_stream mid \<lparr>cv_state = s, cv_field = [], cv_fields = gs\<rparr> (34 # escaped f @ 34 # d # rest)
        = csv_stream True \<lparr>cv_state = InQuoted, cv_field = [], cv_fields = gs\<rparr> (escaped f @ 34 # d # rest)"
      using assms(2) by (auto simp: csv_char_def csv_field_char_def line_end_def csv_stream_Cons simp del: csv_stream.simps)
    also have "\<dots> = csv_stream True \<lparr>cv_state = QuoteInQuoted, cv_field = f, cv_fields = gs\<rparr> (d # rest)"
      using stream_quoted [of "[]" f] assms(1) by (simp add: csv_field_ok_def)
    finally show ?thesis using True stop by (simp add: csv_field_def)
  next
    case False
    show ?thesis
    proof (cases f)
      case Nil
      then show ?thesis using False stop by (simp add: csv_field_def)
    next
      case (Cons c cs)
      then have "csv_stream mid \<lparr>cv_state = s, cv_field = [], cv_fields = gs\<rparr> (f @ d # rest)
          = csv_stream True \<lparr>cv_state = InField, cv_field = [c], cv_fields = gs\<rparr> (cs @ d # rest)"
        using assms(2) False
        by (auto simp: needs_quotes_def csv_char_def csv_field_char_def csv_add_def line_end_def csv_stream_Cons
            simp del: csv_stream.simps)
      also have "\<dots> = csv_stream True \<lparr>cv_state = InField, cv_field = f, cv_fields = gs\<rparr> (d # rest)"
        using stream_plain [of "[c]" cs] assms(1) False Cons by (simp add: csv_field_ok_def needs_quotes_def)
      finally show ?thesis using False stop by (simp add: csv_field_def)
    qed
  qed
qed

lemma stream_record:
  assumes "r \<noteq> []" and "list_all csv_field_ok r" and "s = StartRecord \<or> s = StartField"
    and "s = StartRecord \<Longrightarrow> r \<noteq> [[]]"
  shows "csv_stream mid \<lparr>cv_state = s, cv_field = [], cv_fields = gs\<rparr> (py_join [44] (map csv_field r) @ 10 # rest)
    = and_then (csv_stream False csv_start rest) (\<lambda>rs. Inr ((gs @ r) # rs))"
  using assms
proof (induction r arbitrary: gs mid s)
  case (Cons f r)
  show ?case
  proof (cases r)
    case Nil
    then show ?thesis using stream_field [of f s 10 mid gs rest] Cons.prems by simp
  next
    case (Cons g r')
    then have "py_join [44] (map csv_field (f # r)) @ 10 # rest
        = csv_field f @ 44 # py_join [44] (map csv_field r) @ 10 # rest" by simp
    then show ?thesis
      using stream_field [of f s 44 mid gs "py_join [44] (map csv_field r) @ 10 # rest"]
        Cons.IH [of StartField True "gs @ [f]"] Cons Cons.prems by simp
  qed
qed simp

lemma stream_row:
  assumes "r \<noteq> []" and "list_all csv_field_ok r"
  shows "csv_stream mid csv_start (csv_row_text r @ rest)
    = and_then (csv_stream False csv_start rest) (\<lambda>rs. Inr (r # rs))"
proof (cases "r = [[]]")
  case True
  have "csv_stream mid csv_start (34 # 34 # 10 # rest)
      = and_then (csv_stream False csv_start rest) (\<lambda>rs. Inr ([[]] # rs))"
    by (simp add: csv_start_def csv_char_def csv_field_char_def csv_save_def line_end_def after_end_def csv_stream_Cons
        del: csv_stream.simps)
  then show ?thesis using True by (simp add: csv_row_text_def)
next
  case False
  then show ?thesis
    using stream_record [of r StartRecord mid "[]" rest] assms by (simp add: csv_row_text_def csv_start_def)
qed

lemma csv_records_written:
  assumes "\<forall>r \<in> set rs. r \<noteq> [] \<and> list_all csv_field_ok r"
  shows "csv_records csv_start (lines_universal [] (written_csv rs)) = Inr rs"
proof -
  have "csv_stream False csv_start (written_csv rs) = Inr rs"
    using assms
  proof (induction rs)
    case (Cons r rs)
    then show ?case using stream_row [of r False "written_csv rs"] by (simp add: written_csv_def)
  qed (simp add: written_csv_def csv_start_def)
  then show ?thesis by (simp add: csv_records_stream)
qed

lemma read_csv_written:
  assumes "\<forall>r \<in> set (names # rs). r \<noteq> [] \<and> list_all csv_field_ok r"
    and "utf8_encode (written_csv (names # rs)) = Inr b" and "file_at d path = Some b"
  shows "read_csv d path = Inr (names, map (dict_row names) rs)"
proof -
  have "utf8_decode b = Inr (written_csv (names # rs))" using assms(2) by (rule utf8_decode_encode)
  moreover have "filter (\<lambda>r. r \<noteq> []) rs = rs" using assms(1) by (auto simp: filter_id_conv)
  ultimately show ?thesis
    using csv_records_written [OF assms(1)] assms(3) by (simp add: read_csv_def open_rb_file_at dict_reader_def)
qed


definition quoted_table :: "pystr list list" where
  "quoted_table = [[u ''id''], [u ''a,b''], [u ''say '' @ [34, 34, 13, 10] @ u ''end'']]"


end
