(* ===== verification/Publish.thy ===== *)
theory Publish
  imports Evidence Csv Restart
begin

text \<open>
  The publication of a report by \<open>collect_large_scale_results.py\<close>: the CSV rendering (\<open>report_csv\<close>), the
  identifier of a report, \<open>write_outputs\<close>, which writes one generation of JSON, CSV and Markdown under the
  identifier of the report and then replaces one commit marker, and \<open>validate_output_commit\<close>, which readers run.
  The Markdown rendering is an argument of \<open>write_outputs\<close>. The lemmas show that the marker always names a
  complete generation, whenever the process dies.
\<close>

subsection \<open>The CSV rendering\<close>

definition csv_columns :: "string list" where
  "csv_columns = [''report_id'', ''tier'', ''corpus_count'', ''system'', ''recompute_mode'', ''latency_comparable'',
     ''search_parameter'', ''search_value'', ''batch_size'', ''repetitions'', ''queries_per_repetition'',
     ''query_observations'', ''recall_at_3'', ''recall_at_10'', ''latency_ms_mean'', ''latency_ms_p50'',
     ''latency_ms_p95'', ''latency_ms_min'', ''latency_ms_max'', ''candidate_embeddings_mean_per_query'',
     ''embedding_batches_mean_per_query'', ''approximate_distances_mean_per_query'',
     ''upper_layer_hops_mean_per_query'', ''result_ids_sha256'', ''index_build_status'',
     ''index_artifact_set_sha256'', ''build_source_manifest_sha256'', ''matched_pair_selected'',
     ''matched_pair_id'', ''source_manifest_sha256'']"

text \<open>\<open>for x in v\<close> and \<open>";".join(v)\<close>.\<close>

definition py_iter :: "json \<Rightarrow> json list res" where
  "py_iter v =
     (case v of
        JArr vs \<Rightarrow> Inr vs
      | JObj m \<Rightarrow> Inr (map (\<lambda>kv. JStr (fst kv)) m)
      | JStr s \<Rightarrow> Inr (map (\<lambda>c. JStr [c]) s)
      | _ \<Rightarrow> Inl (TypeError ''object is not iterable''))"

definition join_semicolon :: "json \<Rightarrow> json res" where
  "join_semicolon v = and_then (py_iter v) (\<lambda>vs.
     case strings_of vs of None \<Rightarrow> Inl (TypeError ''expected str instance'') | Some ss \<Rightarrow> Inr (JStr (py_join [59] ss)))"

text \<open>The cells that are not \<open>point.get(column)\<close>.\<close>

definition csv_provenance :: "json \<Rightarrow> (string \<times> json) list res" where
  "csv_provenance point =
     and_then (and_then (json_item2 point ''index_build_provenance'' ''statuses'') join_semicolon) (\<lambda>statuses.
     and_then (json_item2 point ''index_build_provenance'' ''artifact_set_sha256'') (\<lambda>artifacts.
     and_then (and_then (json_item2 point ''index_build_provenance'' ''build_source_manifest_sha256'') join_semicolon) (\<lambda>builds.
     and_then (and_then (json_item point ''source_manifest_sha256'') join_semicolon) (\<lambda>sources.
     and_then (json_item point ''matched_pair_selected'') (\<lambda>selected.
     and_then (json_item point ''matched_pair_id'') (\<lambda>pair.
     Inr [(''index_build_status'', statuses), (''index_artifact_set_sha256'', artifacts),
        (''build_source_manifest_sha256'', builds), (''source_manifest_sha256'', sources),
        (''matched_pair_selected'', selected), (''matched_pair_id'', pair)]))))))"

definition csv_special :: "jobj \<Rightarrow> json \<Rightarrow> (string \<times> json) list res" where
  "csv_special report point =
     and_then (json_item point ''latency_ms'') (\<lambda>latency.
     and_then (jidx report ''report_id'') (\<lambda>report_id.
     and_then (map_res (json_item latency) [''mean'', ''p50'', ''p95'', ''min'', ''max'']) (\<lambda>l.
     and_then (csv_provenance point) (\<lambda>provenance.
     Inr ([(''report_id'', report_id), (''latency_ms_mean'', l ! 0), (''latency_ms_p50'', l ! 1),
        (''latency_ms_p95'', l ! 2), (''latency_ms_min'', l ! 3), (''latency_ms_max'', l ! 4)] @ provenance)))))"

text \<open>What the writer makes of a value: nothing of \<open>None\<close>, else \<open>str\<close>.\<close>

definition csv_cell :: "tools \<Rightarrow> json \<Rightarrow> pystr" where
  "csv_cell t v = (if v = JNull then [] else py_str t v)"

definition csv_point_row :: "tools \<Rightarrow> jobj \<Rightarrow> json \<Rightarrow> pystr list res" where
  "csv_point_row t report point =
     and_then (csv_special report point) (\<lambda>special.
     and_then (mapping point) (\<lambda>m.
     Inr (map (\<lambda>column. csv_cell t (case map_of special column of Some v \<Rightarrow> v | None \<Rightarrow> jget m column)) csv_columns)))"

definition report_rows :: "tools \<Rightarrow> jobj \<Rightarrow> pystr list list res" where
  "report_rows t report =
     and_then (and_then (jidx report ''points'') py_iter) (\<lambda>points. map_res (csv_point_row t report) points)"

definition report_csv :: "tools \<Rightarrow> jobj \<Rightarrow> pystr res" where
  "report_csv t report =
     and_then (report_rows t report) (\<lambda>rows. Inr (written_csv (map u csv_columns # rows)))"

subsection \<open>The identifier of a report\<close>

definition without :: "string \<Rightarrow> jobj \<Rightarrow> jobj" where
  "without k m = filter (\<lambda>kv. fst kv \<noteq> u k) m"

definition validate_report_identifier :: "tools \<Rightarrow> jobj \<Rightarrow> pystr res" where
  "validate_report_identifier t report =
     and_then (sha_field (jget report ''report_id'') (CollectionError ''report has no valid report_id'')) (\<lambda>report_id.
     and_then (collector_hash t (JObj (without ''report_id'' report))) (\<lambda>expected.
     and_then (require (report_id = expected) (CollectionError ''report_id does not match report payload'')) (\<lambda>_.
     Inr report_id)))"

subsection \<open>Validation of a commit marker\<close>

text \<open>\<open>s.count(sub)\<close> for a non-empty \<open>sub\<close>: the occurrences counted do not overlap.\<close>

fun count_from :: "pystr \<Rightarrow> nat \<Rightarrow> pystr \<Rightarrow> nat" where
  "count_from sub skip [] = 0"
| "count_from sub skip (c # cs) =
     (if 0 < skip then count_from sub (skip - 1) cs
      else if startswith (c # cs) sub then Suc (count_from sub (length sub - 1) cs)
      else count_from sub 0 cs)"

definition commit_schema :: json where
  "commit_schema = JStr (u ''leann-large-scale-output-commit-v1'')"

definition evidence_marker :: "pystr \<Rightarrow> pystr" where
  "evidence_marker report_id = u ''Evidence ID: '' @ [96] @ report_id @ [96, 46]"

record output_commit =
  oc_path :: pystr
  oc_id :: pystr
  oc_report :: pystr
  oc_json :: pystr
  oc_csv :: pystr
  oc_markdown :: pystr

definition commit_fields :: "tools \<Rightarrow> jobj \<Rightarrow> (pystr \<times> pystr \<times> jobj) res" where
  "commit_fields t marker =
     and_then (require (py_eq (jget marker ''schema'') commit_schema) (CollectionError ''unknown output commit schema'')) (\<lambda>_.
     and_then (sha_field (jget marker ''commit_id'') (CollectionError ''invalid output commit ID'')) (\<lambda>commit_id.
     and_then (collector_hash t (JObj (without ''commit_id'' marker))) (\<lambda>digest.
     and_then (require (digest = commit_id) (CollectionError ''output commit ID differs'')) (\<lambda>_.
     and_then (sha_field (jget marker ''report_id'') (CollectionError ''invalid committed report ID'')) (\<lambda>report_id.
     and_then (mapping (jget marker ''files'')) (\<lambda>files.
     and_then (require (fst ` set files = {u ''json'', u ''csv'', u ''markdown''})
        (CollectionError ''committed output set must be JSON/CSV/Markdown'')) (\<lambda>_.
     Inr (commit_id, report_id, files))))))))"

definition committed_files :: "tools \<Rightarrow> fsys \<Rightarrow> jobj \<Rightarrow> (pystr \<times> pystr \<times> pystr) res" where
  "committed_files t d files =
     and_then (verify t d \<lparr>fv_enabled = True, fv_verified = []\<rparr> (jget files ''json'')) (\<lambda>(fv1, p).
     and_then (verify t d fv1 (jget files ''csv'')) (\<lambda>(fv2, q).
     and_then (verify t d fv2 (jget files ''markdown'')) (\<lambda>(fv3, r). Inr (p, q, r))))"

definition check_json :: "tools \<Rightarrow> fsys \<Rightarrow> pystr \<Rightarrow> pystr \<Rightarrow> unit res" where
  "check_json t d path report_id =
     and_then (and_then (collector_load t d path) mapping) (\<lambda>report.
     and_then (validate_report_identifier t report) (\<lambda>i.
     require (i = report_id) (CollectionError ''JSON report ID differs from commit marker'')))"

definition check_csv :: "fsys \<Rightarrow> pystr \<Rightarrow> pystr \<Rightarrow> unit res" where
  "check_csv d path report_id =
     and_then (read_csv d path) (\<lambda>(names, rows).
     require (u ''report_id'' \<in> set names \<and> list_all (\<lambda>row. map_of row (u ''report_id'') = Some (Some report_id)) rows)
       (CollectionError ''CSV report IDs differ from commit marker''))"

definition read_text :: "fsys \<Rightarrow> pystr \<Rightarrow> pystr res" where
  "read_text d path =
     (case open_rb d path of
        Inl _ \<Rightarrow> Inl (CollectionError ''cannot read committed Markdown'')
      | Inr content \<Rightarrow> and_then (utf8_decode content) (\<lambda>s. Inr (universal_newlines s)))"

definition check_markdown :: "fsys \<Rightarrow> pystr \<Rightarrow> pystr \<Rightarrow> unit res" where
  "check_markdown d path report_id =
     and_then (read_text d path) (\<lambda>s.
     require (count_from (evidence_marker report_id) 0 s = 1)
       (CollectionError ''Markdown report ID differs from commit marker''))"

definition validate_output_commit :: "tools \<Rightarrow> fsys \<Rightarrow> pystr \<Rightarrow> output_commit res" where
  "validate_output_commit t d path =
     and_then (and_then (collector_load t d (fs_resolve d path)) mapping) (\<lambda>marker.
     and_then (commit_fields t marker) (\<lambda>(commit_id, report_id, files).
     and_then (committed_files t d files) (\<lambda>(p, q, r).
     and_then (check_json t d p report_id) (\<lambda>_.
     and_then (check_csv d q report_id) (\<lambda>_.
     and_then (check_markdown d r report_id) (\<lambda>_.
     Inr \<lparr>oc_path = fs_resolve d path, oc_id = commit_id, oc_report = report_id, oc_json = p, oc_csv = q,
          oc_markdown = r\<rparr>))))))"

subsection \<open>Writing the outputs\<close>

text \<open>\<open>_atomic_write\<close>; a text with surrogates is refused before anything is replaced.\<close>

definition write_text :: "world \<Rightarrow> pystr \<Rightarrow> pystr res \<Rightarrow> world \<times> unit res" where
  "write_text w p payload =
     (case and_then payload utf8_encode of Inl e \<Rightarrow> (w, Inl e) | Inr b \<Rightarrow> (atomic_write_bytes w p b, Inr ()))"

text \<open>\<open>json.dumps(..., allow_nan=False)\<close>, in ASCII.\<close>

fun json_finite :: "json \<Rightarrow> bool" where
  "json_finite (JFloat f) = fl_isfinite f"
| "json_finite (JArr xs) = list_all json_finite xs"
| "json_finite (JObj m) = list_all (\<lambda>kv. json_finite (snd kv)) m"
| "json_finite _ = True"

definition write_json :: "tools \<Rightarrow> world \<Rightarrow> pystr \<Rightarrow> json \<Rightarrow> world \<times> unit res" where
  "write_json t w p v =
     (if json_finite v then (atomic_write_json (tl_host t) w p v, Inr ())
      else (w, Inl (ValueError ''Out of range float values are not JSON compliant'')))"

definition output_paths :: "pystr \<Rightarrow> pystr \<Rightarrow> pystr \<times> pystr \<times> pystr" where
  "output_paths base report_id =
     (let dir = path_join (path_parent base) (path_name base @ u ''.generations'') in
      (path_join dir (report_id @ u ''.json''), path_join dir (report_id @ u ''.csv''),
       path_join dir (report_id @ u ''.md'')))"

definition commit_path :: "pystr \<Rightarrow> pystr" where
  "commit_path base = path_join (path_parent base) (path_name base @ u ''.commit.json'')"

definition output_snapshot :: "tools \<Rightarrow> fsys \<Rightarrow> pystr \<Rightarrow> json res" where
  "output_snapshot t d p =
     and_then (open_rb d p) (\<lambda>content.
     and_then (sha256_file (tl_host t) d p 0 None) (\<lambda>sha.
     Inr (JObj (jobj [(''path'', JStr (fs_resolve d p)), (''size_bytes'', JInt (int (length content))),
       (''sha256'', JStr sha)]))))"

definition commit_core :: "tools \<Rightarrow> fsys \<Rightarrow> pystr \<Rightarrow> pystr \<times> pystr \<times> pystr \<Rightarrow> jobj res" where
  "commit_core t d report_id paths =
     (case paths of (p, q, r) \<Rightarrow>
      and_then (output_snapshot t d p) (\<lambda>json.
      and_then (output_snapshot t d q) (\<lambda>csv.
      and_then (output_snapshot t d r) (\<lambda>markdown.
      Inr (jobj [(''schema'', commit_schema), (''report_id'', JStr report_id),
        (''files'', JObj (jobj [(''json'', json), (''csv'', csv), (''markdown'', markdown)]))])))))"

definition publish_commit :: "tools \<Rightarrow> world \<Rightarrow> pystr \<Rightarrow> pystr \<Rightarrow> pystr \<times> pystr \<times> pystr \<Rightarrow> world \<times> output_commit res" where
  "publish_commit t w report_id path paths =
     (case and_then (commit_core t (fs w) report_id paths) (\<lambda>core.
             and_then (collector_hash t (JObj core)) (\<lambda>i. Inr (core @ jobj [(''commit_id'', JStr i)]))) of
        Inl e \<Rightarrow> (w, Inl e)
      | Inr marker \<Rightarrow>
          (case write_json t w path (JObj marker) of (w1, Inl e) \<Rightarrow> (w1, Inl e) | (w1, Inr _) \<Rightarrow>
           (w1, and_then (validate_output_commit t (fs w1) path) (\<lambda>validated.
             and_then (require (oc_report validated = report_id) (CollectionError ''published output commit report ID differs'')) (\<lambda>_.
             Inr validated)))))"

definition write_outputs ::
  "tools \<Rightarrow> (jobj \<Rightarrow> pystr res) \<Rightarrow> world \<Rightarrow> jobj \<Rightarrow> pystr \<Rightarrow> world \<times> output_commit res" where
  "write_outputs t markdown w report base =
     (case validate_report_identifier t report of Inl e \<Rightarrow> (w, Inl e) | Inr report_id \<Rightarrow>
      let base = fs_resolve (fs w) base; paths = output_paths base report_id in
      case write_json t w (fst paths) (JObj report) of (w1, Inl e) \<Rightarrow> (w1, Inl e) | (w1, Inr _) \<Rightarrow>
      case write_text w1 (fst (snd paths)) (report_csv t report) of (w2, Inl e) \<Rightarrow> (w2, Inl e) | (w2, Inr _) \<Rightarrow>
      case write_text w2 (snd (snd paths)) (markdown report) of (w3, Inl e) \<Rightarrow> (w3, Inl e) | (w3, Inr _) \<Rightarrow>
      publish_commit t w3 report_id (commit_path base) paths)"

subsection \<open>What the interpreter promises\<close>

text \<open>
  \<open>json.dumps\<close> sorts the keys, does not fail on finite values without surrogates, and writes ASCII unless told
  otherwise; a digest has 32 bytes.
\<close>

fun json_scalar :: "json \<Rightarrow> bool" where
  "json_scalar (JStr s) = list_all is_scalar s"
| "json_scalar (JArr xs) = list_all json_scalar xs"
| "json_scalar (JObj m) = list_all (\<lambda>kv. list_all is_scalar (fst kv) \<and> json_scalar (snd kv)) m"
| "json_scalar _ = True"

definition tools_ok :: "tools \<Rightarrow> bool" where
  "tools_ok t \<longleftrightarrow> codec_ok (tl_host t)
     \<and> (\<forall>v. json_plain v \<longrightarrow> tl_dumps t (json_sorted v) = tl_dumps t v)
     \<and> (\<forall>v. json_finite v \<and> json_scalar v \<longrightarrow> (\<exists>b. tl_dumps t v = Inr b))
     \<and> (\<forall>v. list_all (\<lambda>b. unat b < 128) (dumps_indent (tl_host t) v))
     \<and> (\<forall>b. length (sha256 (tl_host t) b) = 32)"

lemma utf8_decode_ascii: "list_all (\<lambda>b. unat b < 128) bs \<Longrightarrow> utf8_decode bs = Inr (map unat bs)"
proof -
  assume a: "list_all (\<lambda>b. unat b < 128) bs"
  then have "utf8_bytes (map unat bs) = bs"
    by (induction bs) (simp_all add: utf8_char_def)
  moreover have "\<forall>c \<in> set (map unat bs). is_scalar c" using a by (auto simp: list_all_iff is_scalar_def)
  ultimately show ?thesis using utf8_decode_bytes [of "map unat bs"] by simp
qed

lemma collector_load_of_file:
  assumes "tools_ok t" and "json_plain v" and "file_at d p = Some (dumps_indent (tl_host t) v @ [10])"
  shows "collector_load t d p = Inr (json_sorted v)"
proof -
  have "list_all (\<lambda>b. unat b < 128) (dumps_indent (tl_host t) v @ [10])" using assms(1) by (simp add: tools_ok_def)
  from utf8_decode_ascii [OF this] show ?thesis
    using assms by (simp add: collector_load_def open_rb_file_at tools_ok_def codec_ok_def)
qed

lemma without_sorted:
  assumes "json_sorted (JObj m) = JObj n"
  shows "JObj (without k n) = json_sorted (JObj (without k m))"
proof -
  let ?g = "\<lambda>kv :: pystr \<times> json. (fst kv, json_sorted (snd kv))"
  have "without k (map ?g m) = map ?g (without k m)" by (induction m) (simp_all add: without_def)
  then show ?thesis using assms by (auto simp: without_def filter_sort)
qed

lemma hash_without_sorted:
  assumes "tools_ok t" and "json_plain (JObj m)" and "json_sorted (JObj m) = JObj n"
  shows "collector_hash t (JObj (without k n)) = collector_hash t (JObj (without k m))"
proof -
  have "json_plain (JObj (without k m))" using assms(2) by (auto simp: without_def list_all_iff distinct_map_filter)
  then have "tl_dumps t (json_sorted (JObj (without k m))) = tl_dumps t (JObj (without k m))"
    using assms(1) unfolding tools_ok_def by blast
  then show ?thesis unfolding without_sorted [OF assms(3), of k] collector_hash_def by (rule arg_cong)
qed

lemma report_identifier_sorted:
  assumes "tools_ok t" and "json_plain (JObj m)" and "json_sorted (JObj m) = JObj n"
  shows "validate_report_identifier t n = validate_report_identifier t m"
proof -
  have "sha_field (json_sorted v) e = sha_field v e" for v e by (cases v) (simp_all add: sha_field_def)
  then show ?thesis
    using jget_sorted [OF assms(2,3)] hash_without_sorted [OF assms] by (simp add: validate_report_identifier_def)
qed

subsection \<open>A generation on the disk\<close>

type_synonym generation = "bytes \<times> bytes \<times> bytes"

text \<open>The three files of a report whose renderings can be read back.\<close>

definition rendered :: "tools \<Rightarrow> (jobj \<Rightarrow> pystr res) \<Rightarrow> jobj \<Rightarrow> pystr \<Rightarrow> generation \<Rightarrow> bool" where
  "rendered t markdown report report_id g \<longleftrightarrow>
     (case g of (j, c, m) \<Rightarrow>
      validate_report_identifier t report = Inr report_id
      \<and> json_plain (JObj report) \<and> json_finite (JObj report) \<and> j = dumps_indent (tl_host t) (JObj report) @ [10]
      \<and> (\<exists>rows. report_rows t report = Inr rows \<and> (\<forall>row \<in> set rows. list_all csv_field_ok row)
           \<and> utf8_encode (written_csv (map u csv_columns # rows)) = Inr c)
      \<and> (\<exists>s. markdown report = Inr s \<and> utf8_encode s = Inr m
           \<and> count_from (evidence_marker report_id) 0 (universal_newlines s) = 1))"

definition generation_at :: "fsys \<Rightarrow> pystr \<times> pystr \<times> pystr \<Rightarrow> generation \<Rightarrow> bool" where
  "generation_at d paths g \<longleftrightarrow>
     (case (paths, g) of ((p, q, r), (j, c, m)) \<Rightarrow>
      file_at d p = Some j \<and> file_at d q = Some c \<and> file_at d r = Some m)"

definition snapshot_doc :: "tools \<Rightarrow> pystr \<Rightarrow> bytes \<Rightarrow> json" where
  "snapshot_doc t p content = JObj (jobj [(''path'', JStr p), (''size_bytes'', JInt (int (length content))),
     (''sha256'', JStr (sha_hex (tl_host t) content))])"

definition core_doc :: "tools \<Rightarrow> (pystr \<Rightarrow> pystr) \<Rightarrow> pystr \<Rightarrow> pystr \<times> pystr \<times> pystr \<Rightarrow> generation \<Rightarrow> jobj" where
  "core_doc t resolve report_id paths g =
     (case (paths, g) of ((p, q, r), (j, c, m)) \<Rightarrow>
      jobj [(''schema'', commit_schema), (''report_id'', JStr report_id),
        (''files'', JObj (jobj [(''json'', snapshot_doc t (resolve p) j), (''csv'', snapshot_doc t (resolve q) c),
           (''markdown'', snapshot_doc t (resolve r) m)]))])"

definition marker_doc :: "tools \<Rightarrow> (pystr \<Rightarrow> pystr) \<Rightarrow> pystr \<Rightarrow> pystr \<times> pystr \<times> pystr \<Rightarrow> generation \<Rightarrow> jobj" where
  "marker_doc t resolve report_id paths g =
     (let core = core_doc t resolve report_id paths g in
      core @ jobj [(''commit_id'', JStr (case collector_hash t (JObj core) of Inr i \<Rightarrow> i | Inl _ \<Rightarrow> []))])"

lemma output_snapshot_at:
  "file_at d p = Some content \<Longrightarrow> output_snapshot t d p = Inr (snapshot_doc t (fs_resolve d p) content)"
  by (simp add: output_snapshot_def snapshot_doc_def open_rb_file_at sha256_file_def sha256_bytes_all)

lemma commit_core_at:
  "generation_at d paths g \<Longrightarrow> commit_core t d report_id paths = Inr (core_doc t (fs_resolve d) report_id paths g)"
  by (auto simp: generation_at_def commit_core_def core_doc_def output_snapshot_at split: prod.splits)

lemma hash_ok:
  assumes "tools_ok t" and "json_finite v" and "json_scalar v"
  obtains i where "collector_hash t v = Inr i" "is_hex 64 i"
proof -
  from assms obtain b where "tl_dumps t v = Inr b" by (auto simp: tools_ok_def)
  moreover have "is_hex 64 (sha_hex (tl_host t) b)"
    using is_hex_to_hex [of "sha256 (tl_host t) b"] assms(1) by (simp add: sha_hex_def tools_ok_def)
  ultimately show thesis using that by (simp add: collector_hash_def)
qed

lemma hex_scalar: "is_hex k s \<Longrightarrow> list_all is_scalar s"
  by (auto simp: is_hex_def list_all_iff hex_digit_def is_scalar_def)

lemma u_scalar: "list_all is_scalar (u s)"
  using u_ascii [of _ s] by (fastforce simp: list_all_iff is_scalar_def)

lemma core_finite: "json_finite (JObj (core_doc t resolve i paths g))"
  by (simp add: core_doc_def jobj_def commit_schema_def snapshot_doc_def split: prod.splits)

lemma core_plain: "json_plain (JObj (core_doc t resolve i paths g))"
  by (simp add: core_doc_def jobj_def commit_schema_def snapshot_doc_def split: prod.splits)

lemma core_scalar:
  assumes "tools_ok t" and "is_hex 64 i" and "paths = (p, q, r)"
    and "list_all (list_all is_scalar) [resolve p, resolve q, resolve r]"
  shows "json_scalar (JObj (core_doc t resolve i paths g))"
proof -
  have "list_all is_scalar (sha_hex (tl_host t) b)" for b
    using is_hex_to_hex [of "sha256 (tl_host t) b"] hex_scalar assms(1) by (simp add: sha_hex_def tools_ok_def)
  then show ?thesis using assms(2-4) hex_scalar [OF assms(2)]
    by (simp add: core_doc_def jobj_def commit_schema_def snapshot_doc_def u_scalar split: prod.splits)
qed

lemma marker_plain: "json_plain (JObj (marker_doc t resolve i paths g))"
  by (cases paths; cases g) (simp add: marker_doc_def core_doc_def jobj_def commit_schema_def snapshot_doc_def Let_def)

lemma marker_without: "without ''commit_id'' (marker_doc t resolve i paths g) = core_doc t resolve i paths g"
  by (cases paths; cases g) (simp add: marker_doc_def core_doc_def without_def jobj_def Let_def)

lemma verify_snapshot_doc:
  assumes t: "tools_ok t" and f: "file_at d p = Some content" and p: "p \<noteq> []"
    and fv: "fv_enabled fv"
  shows "\<exists>fv'. verify t d fv (json_sorted (snapshot_doc t p content)) = Inr (fv', p) \<and> fv_enabled fv'"
proof -
  let ?m = "jobj [(''path'', JStr p), (''size_bytes'', JInt (int (length content))), (''sha256'', JStr (sha_hex (tl_host t) content))]"
  have plain: "json_plain (JObj ?m)" by (simp add: jobj_def)
  obtain n where n: "json_sorted (JObj ?m) = JObj n" by simp
  have "map_of n (u k) = map_option json_sorted (map_of ?m (u k))" for k by (rule json_sorted_lookup [OF plain n])
  then have "required n ''path'' = Inr (JStr p)" "required n ''size_bytes'' = Inr (JInt (int (length content)))"
      "required n ''sha256'' = Inr (JStr (sha_hex (tl_host t) content))"
    by (simp_all add: required_def)
  moreover have "sha_field (JStr (sha_hex (tl_host t) content)) e = Inr (sha_hex (tl_host t) content)" for e
    using is_hex_to_hex [of "sha256 (tl_host t) content"] t by (simp add: sha_field_def sha_hex_def tools_ok_def)
  moreover have "path_field (JStr p) = Inr p" using p by (simp add: path_field_def)
  ultimately show ?thesis
    using f fv n by (simp add: verify_def snapshot_doc_def mapping_def integer_def Let_def)
qed

text \<open>A lookup in the row of the CSV that \<open>DictReader\<close> makes.\<close>

lemma fold_dict_set_other:
  "k \<notin> set ks \<Longrightarrow> map_of (fold (\<lambda>(k, v) m. dict_set m k (Some v)) (zip ks vs) m) k = map_of m k"
proof (induction ks arbitrary: vs m)
  case (Cons a ks)
  then show ?case by (cases vs) auto
qed simp

lemma dict_row_first:
  assumes "k \<notin> set ks" and "length vs = length ks"
  shows "map_of (dict_row (k # ks) (v # vs)) k = Some (Some v)"
  using fold_dict_set_other [OF assms(1), of vs "[(k, Some v)]"] assms(2) by (simp add: dict_row_def)

lemma report_rows_identified:
  assumes "report_rows t report = Inr rows" and "jget report ''report_id'' = JStr i" and "row \<in> set rows"
  shows "map_of (dict_row (map u csv_columns) row) (u ''report_id'') = Some (Some i)" and "row \<noteq> []"
proof -
  from assms(1,3) obtain point where "csv_point_row t report point = Inr row"
    unfolding report_rows_def by (auto simp: ok_simps dest: map_res_set)
  then obtain special m where sp: "csv_special report point = Inr special"
    and row: "row = map (\<lambda>column. csv_cell t (case map_of special column of Some v \<Rightarrow> v | None \<Rightarrow> jget m column)) csv_columns"
    by (auto simp: csv_point_row_def ok_simps)
  from sp assms(2) have "map_of special ''report_id'' = Some (JStr i)"
    by (auto simp: csv_special_def ok_simps jidx_def jget_def split: option.splits)
  then have row_Cons: "row = i # map (\<lambda>column. csv_cell t (case map_of special column of Some v \<Rightarrow> v | None \<Rightarrow> jget m column)) (tl csv_columns)"
    unfolding row by (simp add: csv_columns_def csv_cell_def py_str_def)
  then show "row \<noteq> []" by simp
  have cols: "map u csv_columns = u ''report_id'' # map u (tl csv_columns)" by (simp add: csv_columns_def)
  have "u ''report_id'' \<notin> set (map u (tl csv_columns))" by (simp add: csv_columns_def)
  then show "map_of (dict_row (map u csv_columns) row) (u ''report_id'') = Some (Some i)"
    unfolding cols row_Cons by (rule dict_row_first) simp
qed

lemma check_csv_rendered:
  assumes "rendered t markdown report i (j, c, m)" and "file_at d q = Some c"
  shows "check_csv d q i = Inr ()"
proof -
  from assms(1) obtain rows where rows: "report_rows t report = Inr rows" "\<forall>row \<in> set rows. list_all csv_field_ok row"
      "utf8_encode (written_csv (map u csv_columns # rows)) = Inr c"
    and i: "validate_report_identifier t report = Inr i" by (auto simp: rendered_def)
  from i have id: "jget report ''report_id'' = JStr i" by (auto simp: validate_report_identifier_def ok_simps)
  have "\<forall>r \<in> set (map u csv_columns # rows). r \<noteq> [] \<and> list_all csv_field_ok r"
    using rows(2) report_rows_identified(2) [OF rows(1) id] by (simp add: csv_columns_def csv_field_ok_def)
  from read_csv_written [OF this rows(3) assms(2)]
  have "read_csv d q = Inr (map u csv_columns, map (dict_row (map u csv_columns)) rows)" .
  moreover have "u ''report_id'' \<in> set (map u csv_columns)" by (simp add: csv_columns_def)
  ultimately show ?thesis
    using report_rows_identified(1) [OF rows(1) id] by (simp add: check_csv_def list_all_iff)
qed

lemma check_json_rendered:
  assumes t: "tools_ok t" and r: "rendered t markdown report i (j, c, m)" and f: "file_at d p = Some j"
  shows "check_json t d p i = Inr ()"
proof -
  obtain n where n: "json_sorted (JObj report) = JObj n" by simp
  have "collector_load t d p = Inr (JObj n)"
    using collector_load_of_file [OF t, of "JObj report" d p] r f n by (auto simp: rendered_def)
  then show ?thesis
    using report_identifier_sorted [OF t _ n] r by (simp add: check_json_def mapping_def rendered_def)
qed

lemma check_markdown_rendered:
  assumes "rendered t markdown report i (j, c, m)" and "file_at d r = Some m"
  shows "check_markdown d r i = Inr ()"
  using assms by (auto simp: rendered_def check_markdown_def read_text_def open_rb_file_at dest!: utf8_decode_encode)

lemma committed_files_doc:
  assumes t: "tools_ok t" and at: "generation_at d (p, q, r) (j, c, m)" and ne: "p \<noteq> []" "q \<noteq> []" "r \<noteq> []"
    and n: "json_sorted (JObj (jobj [(''json'', snapshot_doc t p j), (''csv'', snapshot_doc t q c),
        (''markdown'', snapshot_doc t r m)])) = JObj n"
  shows "committed_files t d n = Inr (p, q, r)" and "fst ` set n = {u ''json'', u ''csv'', u ''markdown''}"
proof -
  let ?m = "jobj [(''json'', snapshot_doc t p j), (''csv'', snapshot_doc t q c), (''markdown'', snapshot_doc t r m)]"
  have "json_plain (JObj ?m)" by (simp add: jobj_def snapshot_doc_def)
  then have get: "jget n k = json_sorted (jget ?m k)" for k by (rule jget_sorted [OF _ n])
  have f: "file_at d p = Some j" "file_at d q = Some c" "file_at d r = Some m" using at by (simp_all add: generation_at_def)
  obtain fv1 where fv1: "verify t d \<lparr>fv_enabled = True, fv_verified = []\<rparr> (jget n ''json'') = Inr (fv1, p)" "fv_enabled fv1"
    using verify_snapshot_doc [OF t f(1) ne(1), of "\<lparr>fv_enabled = True, fv_verified = []\<rparr>"] get by auto
  obtain fv2 where fv2: "verify t d fv1 (jget n ''csv'') = Inr (fv2, q)" "fv_enabled fv2"
    using verify_snapshot_doc [OF t f(2) ne(2) fv1(2)] get by auto
  obtain fv3 where "verify t d fv2 (jget n ''markdown'') = Inr (fv3, r)"
    using verify_snapshot_doc [OF t f(3) ne(3) fv2(2)] get by auto
  then show "committed_files t d n = Inr (p, q, r)" using fv1 fv2 by (simp add: committed_files_def)
  have n': "n = sort_key fst (map (\<lambda>kv. (fst kv, json_sorted (snd kv))) ?m)" using n by (simp only: json_sorted.simps json.inject)
  show "fst ` set n = {u ''json'', u ''csv'', u ''markdown''}" unfolding n' set_sort by (simp add: jobj_def)
qed

lemma commit_fields_doc:
  assumes t: "tools_ok t" and i: "is_hex 64 i" and sc: "list_all (list_all is_scalar) [resolve p, resolve q, resolve r]"
    and n: "json_sorted (JObj (marker_doc t resolve i (p, q, r) (j, c, m))) = JObj n"
    and f: "json_sorted (JObj (jobj [(''json'', snapshot_doc t (resolve p) j), (''csv'', snapshot_doc t (resolve q) c),
        (''markdown'', snapshot_doc t (resolve r) m)])) = JObj files"
    and keys: "fst ` set files = {u ''json'', u ''csv'', u ''markdown''}"
  shows "\<exists>k. commit_fields t n = Inr (k, i, files)"
proof -
  let ?g = "(j, c, m)" and ?ps = "(p, q, r)"
  let ?core = "core_doc t resolve i ?ps ?g"
  obtain k where k: "collector_hash t (JObj ?core) = Inr k" "is_hex 64 k"
    using hash_ok [OF t core_finite] core_scalar [of t i ?ps p q r resolve ?g] t i sc by blast
  have get: "jget n x = json_sorted (jget (marker_doc t resolve i ?ps ?g) x)" for x
    by (rule jget_sorted [OF marker_plain n])
  have marker: "marker_doc t resolve i ?ps ?g = jobj [(''schema'', commit_schema), (''report_id'', JStr i),
      (''files'', JObj (jobj [(''json'', snapshot_doc t (resolve p) j), (''csv'', snapshot_doc t (resolve q) c),
        (''markdown'', snapshot_doc t (resolve r) m)])), (''commit_id'', JStr k)]"
    using k(1) by (simp add: marker_doc_def core_doc_def Let_def) (simp add: jobj_def)
  have fields: "jget n ''schema'' = commit_schema" "jget n ''commit_id'' = JStr k" "jget n ''report_id'' = JStr i"
    "jget n ''files'' = JObj files"
    unfolding get marker using f by (simp_all add: commit_schema_def)
  have "collector_hash t (JObj (without ''commit_id'' n)) = Inr k"
    using hash_without_sorted [OF t marker_plain n] k(1) by (simp add: marker_without)
  then show ?thesis using fields k(2) i keys
    by (simp add: commit_fields_def sha_field_def mapping_def) (simp add: commit_schema_def)
qed

lemma validate_generation:
  assumes t: "tools_ok t" and r: "rendered t markdown report i g"
    and at: "generation_at d (p, q, r) g" and idem: "\<And>x. fs_resolve d (fs_resolve d x) = fs_resolve d x"
    and ok: "\<forall>x \<in> {p, q, r}. fs_resolve d x \<noteq> [] \<and> list_all is_scalar (fs_resolve d x)"
    and marker: "file_at d path = Some (dumps_indent (tl_host t) (JObj (marker_doc t (fs_resolve d) i (p, q, r) g)) @ [10])"
  shows "\<exists>oc. validate_output_commit t d path = Inr oc \<and> oc_report oc = i"
proof -
  let ?R = "fs_resolve d"
  obtain j c m where g: "g = (j, c, m)" by (cases g)
  have idem': "file_at d (?R x) = file_at d x" for x by (simp add: file_at_def idem)
  have at': "generation_at d (?R p, ?R q, ?R r) (j, c, m)" using at g by (simp add: generation_at_def idem')
  obtain n where n: "json_sorted (JObj (marker_doc t ?R i (p, q, r) g)) = JObj n" by simp
  obtain files where f: "json_sorted (JObj (jobj [(''json'', snapshot_doc t (?R p) j), (''csv'', snapshot_doc t (?R q) c),
      (''markdown'', snapshot_doc t (?R r) m)])) = JObj files" by simp
  note files = committed_files_doc [OF t at' _ _ _ f]
  have i: "is_hex 64 i" using r g by (auto simp: rendered_def validate_report_identifier_def ok_simps)
  obtain k where k: "commit_fields t n = Inr (k, i, files)"
    using commit_fields_doc [OF t i _ n [unfolded g] f] files(2) ok by auto
  have load: "collector_load t d (?R path) = Inr (JObj n)"
    using collector_load_of_file [OF t marker_plain, of d "?R path"] marker n by (simp add: idem')
  have "check_json t d (?R p) i = Inr ()" "check_csv d (?R q) i = Inr ()" "check_markdown d (?R r) i = Inr ()"
    using check_json_rendered [OF t r [unfolded g]] check_csv_rendered [OF r [unfolded g]]
      check_markdown_rendered [OF r [unfolded g]] at' by (simp_all add: generation_at_def)
  then show ?thesis using load k files(1) ok by (simp add: validate_output_commit_def mapping_def)
qed

subsection \<open>What a run leaves at its steps\<close>

definition output_list :: "pystr \<Rightarrow> pystr \<Rightarrow> pystr list" where
  "output_list base i = (case output_paths base i of (p, q, r) \<Rightarrow> [p, q, r])"

definition marker_bytes :: "tools \<Rightarrow> (pystr \<Rightarrow> pystr) \<Rightarrow> pystr \<Rightarrow> pystr \<Rightarrow> generation \<Rightarrow> bytes" where
  "marker_bytes t resolve base i g =
     dumps_indent (tl_host t) (JObj (marker_doc t resolve i (output_paths base i) g)) @ [10]"

text \<open>The disks after the replacement of the JSON, the CSV, the Markdown and the marker.\<close>

definition after_json :: "pystr \<Rightarrow> pystr \<Rightarrow> generation \<Rightarrow> fsys \<Rightarrow> fsys" where
  "after_json base i g d = set_file d (fst (output_paths base i)) (Some (fst g))"

definition after_csv :: "pystr \<Rightarrow> pystr \<Rightarrow> generation \<Rightarrow> fsys \<Rightarrow> fsys" where
  "after_csv base i g d = set_file (after_json base i g d) (fst (snd (output_paths base i))) (Some (fst (snd g)))"

definition after_markdown :: "pystr \<Rightarrow> pystr \<Rightarrow> generation \<Rightarrow> fsys \<Rightarrow> fsys" where
  "after_markdown base i g d = set_file (after_csv base i g d) (snd (snd (output_paths base i))) (Some (snd (snd g)))"

definition after_marker :: "tools \<Rightarrow> pystr \<Rightarrow> pystr \<Rightarrow> generation \<Rightarrow> fsys \<Rightarrow> fsys" where
  "after_marker t base i g d =
     set_file (after_markdown base i g d) (commit_path base) (Some (marker_bytes t (fs_resolve d) base i g))"

lemmas afters = after_json_def after_csv_def after_markdown_def after_marker_def

text \<open>
  The names are usable: resolving is idempotent, the files of one report and the marker are different files
  with names that can be written to a document.
\<close>

definition names_ok :: "(pystr \<Rightarrow> pystr) \<Rightarrow> pystr \<Rightarrow> pystr \<Rightarrow> bool" where
  "names_ok resolve base i \<longleftrightarrow>
     (\<forall>x. resolve (resolve x) = resolve x)
     \<and> distinct (map resolve (commit_path base # output_list base i))
     \<and> (\<forall>x \<in> set (output_list base i). resolve x \<noteq> [] \<and> list_all is_scalar (resolve x))"

lemma after_resolve [simp]:
  "fs_resolve (after_json base i g d) = fs_resolve d" "fs_resolve (after_csv base i g d) = fs_resolve d"
  "fs_resolve (after_markdown base i g d) = fs_resolve d" "fs_resolve (after_marker t base i g d) = fs_resolve d"
  by (simp_all add: afters)

lemma after_generation:
  assumes "names_ok (fs_resolve d) base i"
  shows "generation_at (after_markdown base i g d) (output_paths base i) g"
    and "generation_at (after_marker t base i g d) (output_paths base i) g"
    and "file_at (after_marker t base i g d) (commit_path base) = Some (marker_bytes t (fs_resolve d) base i g)"
proof -
  obtain p q r where ps: "output_paths base i = (p, q, r)" by (metis prod_cases3)
  obtain j c m where g: "g = (j, c, m)" by (cases g)
  have d: "distinct (map (fs_resolve d) [commit_path base, p, q, r])"
    using assms by (simp add: names_ok_def output_list_def ps)
  show "generation_at (after_markdown base i g d) (output_paths base i) g"
    using d by (auto simp: generation_at_def ps g afters)
  show "generation_at (after_marker t base i g d) (output_paths base i) g"
    using d by (auto simp: generation_at_def ps g afters)
  show "file_at (after_marker t base i g d) (commit_path base) = Some (marker_bytes t (fs_resolve d) base i g)"
    by (simp add: afters)
qed

lemma write_outputs_run:
  assumes t: "tools_ok t" and r: "rendered t markdown report i g"
    and names: "names_ok (fs_resolve d) (fs_resolve d base) i"
  shows "\<exists>w oc. write_outputs t markdown (boot d) report base = (w, Inr oc) \<and> oc_report oc = i
    \<and> fs w = after_marker t (fs_resolve d base) i g d
    \<and> visited w = {d, after_json (fs_resolve d base) i g d, after_csv (fs_resolve d base) i g d,
        after_markdown (fs_resolve d base) i g d, after_marker t (fs_resolve d base) i g d}
    \<and> validate_output_commit t (fs w) (commit_path (fs_resolve d base)) = Inr oc"
proof -
  let ?b = "fs_resolve d base"
  obtain p q rr where ps: "output_paths ?b i = (p, q, rr)" by (metis prod_cases3)
  obtain j c m where g: "g = (j, c, m)" by (cases g)
  from r obtain rows s where i: "validate_report_identifier t report = Inr i" and fin: "json_finite (JObj report)"
    and j: "j = dumps_indent (tl_host t) (JObj report) @ [10]"
    and csv: "report_csv t report = Inr (written_csv (map u csv_columns # rows))" "utf8_encode (written_csv (map u csv_columns # rows)) = Inr c"
    and md: "markdown report = Inr s" "utf8_encode s = Inr m"
    by (auto simp: rendered_def g report_csv_def)
  define w1 where "w1 = commit (boot d) (after_json ?b i g d)"
  define w2 where "w2 = commit w1 (after_csv ?b i g d)"
  define w3 where "w3 = commit w2 (after_markdown ?b i g d)"
  define w4 where "w4 = commit w3 (after_marker t ?b i g d)"
  note ws = w1_def w2_def w3_def w4_def
  have s1: "write_json t (boot d) p (JObj report) = (w1, Inr ())"
    using fin by (simp add: write_json_def atomic_write_json_def w1_def after_json_def ps g j)
  have s2: "write_text w1 q (report_csv t report) = (w2, Inr ())"
    using csv by (simp add: write_text_def atomic_write_bytes_def ws after_csv_def ps g)
  have s3: "write_text w2 rr (markdown report) = (w3, Inr ())"
    using md by (simp add: write_text_def atomic_write_bytes_def ws after_markdown_def ps g)
  have gen: "generation_at (fs w3) (output_paths ?b i) g" "generation_at (fs w4) (output_paths ?b i) g"
    using after_generation [OF names] by (simp_all add: ws)
  have hex: "is_hex 64 i" using i by (auto simp: validate_report_identifier_def ok_simps)
  let ?core = "core_doc t (fs_resolve d) i (output_paths ?b i) g"
  have sc: "\<forall>x \<in> {p, q, rr}. fs_resolve d x \<noteq> [] \<and> list_all is_scalar (fs_resolve d x)"
    using names by (simp add: names_ok_def output_list_def ps)
  obtain k where k: "collector_hash t (JObj ?core) = Inr k" and "is_hex 64 k"
  proof (rule hash_ok [OF t core_finite])
    show "json_scalar (JObj ?core)" using core_scalar [OF t hex ps, of "fs_resolve d" g] sc by simp
  qed
  have "marker_doc t (fs_resolve d) i (output_paths ?b i) g = ?core @ jobj [(''commit_id'', JStr k)]"
    using k by (simp add: marker_doc_def Let_def)
  moreover have "json_finite (JObj (?core @ jobj [(''commit_id'', JStr k)]))"
    using core_finite [of t "fs_resolve d" i "output_paths ?b i" g] by (simp add: jobj_def)
  ultimately have s4: "write_json t w3 (commit_path ?b) (JObj (?core @ jobj [(''commit_id'', JStr k)])) = (w4, Inr ())"
    by (simp add: write_json_def atomic_write_json_def ws after_marker_def marker_bytes_def)
  obtain oc where oc: "validate_output_commit t (fs w4) (commit_path ?b) = Inr oc" "oc_report oc = i"
  proof -
    have "file_at (fs w4) (commit_path ?b) = Some (dumps_indent (tl_host t) (JObj (marker_doc t (fs_resolve (fs w4)) i (p, q, rr) g)) @ [10])"
      using after_generation(3) [OF names, of t g] by (simp add: ws marker_bytes_def ps)
    from validate_generation [OF t r gen(2) [unfolded ps] _ _ this] show thesis
      using that sc names by (auto simp: ws names_ok_def)
  qed
  have "publish_commit t w3 i (commit_path ?b) (output_paths ?b i) = (w4, Inr oc)"
    using commit_core_at [OF gen(1)] k s4 oc by (simp add: publish_commit_def ws)
  then have "write_outputs t markdown (boot d) report base = (w4, Inr oc)"
    using i s1 s2 s3 by (simp add: write_outputs_def Let_def ps)
  moreover have "visited w4 = {d, after_json ?b i g d, after_csv ?b i g d, after_markdown ?b i g d, after_marker t ?b i g d}"
    by (auto simp: ws)
  ultimately show ?thesis using oc by (auto simp: ws)
qed

subsection \<open>The marker names a complete generation, whenever a run dies\<close>

type_synonym edition = "jobj \<times> pystr \<times> generation"

definition outputs_apart :: "(pystr \<Rightarrow> pystr) \<Rightarrow> pystr \<Rightarrow> edition \<Rightarrow> edition \<Rightarrow> bool" where
  "outputs_apart resolve base e e' \<longleftrightarrow>
     (case (e, e') of ((_, i, g), (_, i', g')) \<Rightarrow>
      if i = i' then g = g'
      else resolve ` set (output_list base i) \<inter> resolve ` set (output_list base i') = {})"

text \<open>
  The reports that are published under one name: each can be rendered, its names are usable, and two reports with
  one identifier have the same files.
\<close>

definition publishing :: "tools \<Rightarrow> (jobj \<Rightarrow> pystr res) \<Rightarrow> (pystr \<Rightarrow> pystr) \<Rightarrow> pystr \<Rightarrow> edition set \<Rightarrow> bool" where
  "publishing t markdown resolve base Rs \<longleftrightarrow>
     tools_ok t \<and> (\<forall>(report, i, g) \<in> Rs. rendered t markdown report i g \<and> names_ok resolve (resolve base) i)
     \<and> (\<forall>e \<in> Rs. \<forall>e' \<in> Rs. outputs_apart resolve (resolve base) e e')"

definition publish_run ::
  "tools \<Rightarrow> (jobj \<Rightarrow> pystr res) \<Rightarrow> pystr \<Rightarrow> edition \<Rightarrow> fsys \<Rightarrow> world \<times> output_commit res" where
  "publish_run t markdown base e d = write_outputs t markdown (boot d) (fst e) base"

definition published_at :: "tools \<Rightarrow> pystr \<Rightarrow> fsys \<Rightarrow> edition \<Rightarrow> bool" where
  "published_at t base d e \<longleftrightarrow>
     (case e of (_, i, g) \<Rightarrow> generation_at d (output_paths base i) g
        \<and> file_at d (commit_path base) = Some (marker_bytes t (fs_resolve d) base i g))"

definition marker_ok :: "tools \<Rightarrow> (pystr \<Rightarrow> pystr) \<Rightarrow> pystr \<Rightarrow> edition set \<Rightarrow> fsys \<Rightarrow> bool" where
  "marker_ok t resolve base Rs d \<longleftrightarrow>
     fs_resolve d = resolve
     \<and> (file_at d (commit_path (resolve base)) = None \<or> (\<exists>e \<in> Rs. published_at t (resolve base) d e))"

lemma set_file_generation:
  assumes "generation_at d (p, q, r) (j, c, m)" and "distinct (map (fs_resolve d) [p, q, r])"
    and "(x, y) \<in> {(p, j), (q, c), (r, m)} \<or> fs_resolve d x \<notin> {fs_resolve d p, fs_resolve d q, fs_resolve d r}"
  shows "generation_at (set_file d x (Some y)) (p, q, r) (j, c, m)"
  using assms by (auto simp: generation_at_def)

lemma generation_kept:
  assumes apart: "outputs_apart (fs_resolve d) base (R, i, g) (R', i', g')"
    and names: "names_ok (fs_resolve d) base i'" and at: "generation_at d (output_paths base i') g'"
  shows "generation_at (after_json base i g d) (output_paths base i') g'"
    and "generation_at (after_csv base i g d) (output_paths base i') g'"
    and "generation_at (after_markdown base i g d) (output_paths base i') g'"
proof -
  obtain p q r where ps: "output_paths base i = (p, q, r)" by (metis prod_cases3)
  obtain p' q' r' where ps': "output_paths base i' = (p', q', r')" by (metis prod_cases3)
  obtain j c m j' c' m' where g: "g = (j, c, m)" "g' = (j', c', m')" by (metis prod_cases3)
  have d: "distinct (map (fs_resolve d) [p', q', r'])" using names by (simp add: names_ok_def output_list_def ps')
  have part: "(x, y) \<in> {(p', j'), (q', c'), (r', m')} \<or> fs_resolve d x \<notin> {fs_resolve d p', fs_resolve d q', fs_resolve d r'}"
    if "(x, y) \<in> {(p, j), (q, c), (r, m)}" for x y
    using that apart ps ps' g by (cases "i = i'") (auto simp: outputs_apart_def output_list_def)
  note step = set_file_generation [where j = j' and c = c' and m = m']
  have 1: "generation_at (set_file d p (Some j)) (p', q', r') (j', c', m')"
    using step [OF at [unfolded ps' g] d part, of p j] by simp
  then show "generation_at (after_json base i g d) (output_paths base i') g'" by (simp add: afters ps ps' g)
  have 2: "generation_at (set_file (set_file d p (Some j)) q (Some c)) (p', q', r') (j', c', m')"
    using step [OF 1, of q c] d part [of q c] by simp
  then show "generation_at (after_csv base i g d) (output_paths base i') g'" by (simp add: afters ps ps' g)
  show "generation_at (after_markdown base i g d) (output_paths base i') g'"
    using step [OF 2, of r m] d part [of r m] by (simp add: afters ps ps' g)
qed

lemma marker_unaffected:
  assumes "names_ok (fs_resolve d) base i" and "d' \<in> {after_json base i g d, after_csv base i g d, after_markdown base i g d}"
  shows "file_at d' (commit_path base) = file_at d (commit_path base)"
  using assms by (auto simp: names_ok_def output_list_def afters split: prod.splits)

lemma published_kept:
  assumes "outputs_apart (fs_resolve d) base (R, i, g) e" and "names_ok (fs_resolve d) base i"
    and "names_ok (fs_resolve d) base (fst (snd e))" and "published_at t base d e"
    and "d' \<in> {after_json base i g d, after_csv base i g d, after_markdown base i g d}"
  shows "published_at t base d' e"
proof -
  obtain R' i' g' where e: "e = (R', i', g')" by (cases e)
  have "generation_at d' (output_paths base i') g'"
    using generation_kept [OF assms(1) [unfolded e]] assms(3-5) e by (auto simp: published_at_def)
  moreover have "fs_resolve d' = fs_resolve d" using assms(5) by auto
  ultimately show ?thesis
    using marker_unaffected [OF assms(2,5)] assms(4) e by (simp add: published_at_def)
qed

lemma publish_crash_safe:
  assumes P: "publishing t markdown resolve base Rs" and e: "e \<in> Rs" and ok: "marker_ok t resolve base Rs d"
    and d': "d' \<in> visited (fst (publish_run t markdown base e d))"
  shows "marker_ok t resolve base Rs d'"
proof -
  obtain report i g where e': "e = (report, i, g)" by (cases e)
  have res: "fs_resolve d = resolve" using ok by (simp add: marker_ok_def)
  let ?b = "resolve base"
  have t: "tools_ok t" and r: "rendered t markdown report i g" and names: "names_ok resolve ?b i"
    using P e e' by (auto simp: publishing_def)
  have names': "names_ok (fs_resolve d) (fs_resolve d base) i" using names res by simp
  from write_outputs_run [OF t r names'] obtain w oc where "write_outputs t markdown (boot d) report base = (w, Inr oc)"
    and vis: "visited w = {d, after_json ?b i g d, after_csv ?b i g d, after_markdown ?b i g d, after_marker t ?b i g d}"
    unfolding res by blast
  then have w: "fst (publish_run t markdown base e d) = w" by (simp add: publish_run_def e')
  consider "d' = d" | "d' \<in> {after_json ?b i g d, after_csv ?b i g d, after_markdown ?b i g d}" | "d' = after_marker t ?b i g d"
    using d' w vis by auto
  then show ?thesis
  proof cases
    case 1
    then show ?thesis using ok by simp
  next
    case 2
    have res': "fs_resolve d' = resolve" using 2 res by auto
    from ok consider "file_at d (commit_path ?b) = None" | e1 where "e1 \<in> Rs" "published_at t ?b d e1"
      by (auto simp: marker_ok_def)
    then show ?thesis
    proof cases
      case 1
      then show ?thesis using marker_unaffected [OF _ 2] names res res' by (simp add: marker_ok_def)
    next
      case e1: 2
      have "outputs_apart resolve ?b (report, i, g) e1" using P e e' e1(1) by (auto simp: publishing_def)
      moreover have "names_ok resolve ?b (fst (snd e1))" using P e1(1) by (auto simp: publishing_def)
      ultimately have "published_at t ?b d' e1"
        using published_kept [OF _ _ _ e1(2) 2] names res by simp
      then show ?thesis using e1(1) res' by (auto simp: marker_ok_def)
    qed
  next
    case 3
    have "published_at t ?b d' e"
      using after_generation [of d ?b i] names res 3 by (simp add: published_at_def e')
    then show ?thesis using e 3 res by (auto simp: marker_ok_def)
  qed
qed

interpretation publication: crashing "publish_run t markdown base"
  "\<lambda>e. publishing t markdown resolve base Rs \<and> e \<in> Rs" "marker_ok t resolve base Rs"
  for t markdown resolve base Rs
  by unfold_locales (blast intro: publish_crash_safe)

text \<open>
  C21. Publish any number of reports under one name, and let each run die at any step. Then the commit marker is
  absent, or it validates: it names the JSON, CSV and Markdown of one published report, all complete. And a run that is
  not disturbed ends with a marker that validates and names its report.
\<close>

theorem commit_marker_always_complete:
  assumes P: "publishing t markdown resolve base Rs" and "fs_resolve d = resolve"
    and "file_at d (commit_path (resolve base)) = None"
    and "crashing.reach (publish_run t markdown base) (\<lambda>e. publishing t markdown resolve base Rs \<and> e \<in> Rs) d d'"
  shows "(file_at d' (commit_path (resolve base)) = None
      \<or> (\<exists>(report, i, g) \<in> Rs. \<exists>oc. validate_output_commit t d' (commit_path (resolve base)) = Inr oc
           \<and> oc_report oc = i \<and> generation_at d' (output_paths (resolve base) i) g))
    \<and> (\<forall>(report, i, g) \<in> Rs. \<exists>w oc. write_outputs t markdown (boot d') report base = (w, Inr oc) \<and> oc_report oc = i
         \<and> validate_output_commit t (fs w) (commit_path (resolve base)) = Inr oc)"
proof -
  let ?b = "resolve base"
  have "marker_ok t resolve base Rs d" using assms(2,3) by (simp add: marker_ok_def)
  with publication.reach_ok [OF assms(4)] have ok: "marker_ok t resolve base Rs d'" .
  then have res: "fs_resolve d' = resolve" by (simp add: marker_ok_def)
  have t: "tools_ok t" and Rs: "\<And>report i g. (report, i, g) \<in> Rs \<Longrightarrow> rendered t markdown report i g \<and> names_ok resolve ?b i"
    using P by (auto simp: publishing_def)
  have runs: "\<exists>w oc. write_outputs t markdown (boot d') report base = (w, Inr oc) \<and> oc_report oc = i
      \<and> validate_output_commit t (fs w) (commit_path ?b) = Inr oc" if "(report, i, g) \<in> Rs" for report i g
    using write_outputs_run [OF t, of markdown report i g d' base] Rs [OF that] res by auto
  have valid: "\<exists>oc. validate_output_commit t d' (commit_path ?b) = Inr oc \<and> oc_report oc = i"
    if e: "(report, i, g) \<in> Rs" "published_at t ?b d' (report, i, g)" for report i g
  proof -
    obtain p q r where ps: "output_paths ?b i = (p, q, r)" by (metis prod_cases3)
    from e(2) have at: "generation_at d' (p, q, r) g"
      and m: "file_at d' (commit_path ?b) = Some (dumps_indent (tl_host t) (JObj (marker_doc t (fs_resolve d') i (p, q, r) g)) @ [10])"
      by (simp_all add: published_at_def marker_bytes_def ps)
    from Rs [OF e(1)] have "\<forall>x \<in> {p, q, r}. resolve x \<noteq> [] \<and> list_all is_scalar (resolve x)" "\<And>x. resolve (resolve x) = resolve x"
      by (simp_all add: names_ok_def output_list_def ps)
    with validate_generation [OF t _ at _ _ m] Rs [OF e(1)] res show ?thesis by blast
  qed
  have "file_at d' (commit_path ?b) = None \<or> (\<exists>e \<in> Rs. published_at t ?b d' e)"
    using ok by (simp add: marker_ok_def)
  then have "file_at d' (commit_path ?b) = None \<or> (\<exists>(report, i, g) \<in> Rs. \<exists>oc.
      validate_output_commit t d' (commit_path ?b) = Inr oc \<and> oc_report oc = i \<and> generation_at d' (output_paths ?b i) g)"
  proof
    assume "\<exists>e \<in> Rs. published_at t ?b d' e"
    then obtain report i g where e: "(report, i, g) \<in> Rs" "published_at t ?b d' (report, i, g)" by auto
    with valid [OF this] have "\<exists>oc. validate_output_commit t d' (commit_path ?b) = Inr oc \<and> oc_report oc = i
        \<and> generation_at d' (output_paths ?b i) g" by (simp add: published_at_def)
    then show ?thesis using e(1) by blast
  qed simp
  then show ?thesis using runs by blast
qed

subsection \<open>A report on a concrete disk\<close>

definition publish_tools :: tools where
  "publish_tools = sample_tools\<lparr>tl_dumps := (\<lambda>v. Inr (replicate (to_nat (json_sorted v)) 0))\<rparr>"

lemma publish_tools_ok: "tools_ok publish_tools"
  unfolding tools_ok_def publish_tools_def sample_tools_def
  using counting_host_codec by (simp add: json_sorted_idem) (auto simp: counting_host_def list_all_iff min_def)

definition zero_id :: pystr where
  "zero_id = to_hex (replicate 32 0)"

definition sample_point :: jobj where
  "sample_point = jobj [(''tier'', JStr (u ''1m'')),
     (''latency_ms'', JObj (jobj [(''mean'', JInt 1), (''p50'', JInt 1), (''p95'', JInt 1), (''min'', JInt 1), (''max'', JInt 1)])),
     (''index_build_provenance'', JObj (jobj [(''statuses'', JArr [JStr (u ''inherited'')]),
        (''artifact_set_sha256'', JNull), (''build_source_manifest_sha256'', JArr [])])),
     (''source_manifest_sha256'', JArr []), (''matched_pair_selected'', JBool False), (''matched_pair_id'', JNull)]"

definition sample_report :: jobj where
  "sample_report = jobj [(''report_id'', JStr zero_id), (''points'', JArr [JObj sample_point])]"

definition sample_csv_row :: "pystr list" where
  "sample_csv_row = zero_id # u ''1m'' # replicate 22 [] @ [u ''inherited''] @ replicate 5 []"

lemma sample_rows: "report_rows publish_tools sample_report = Inr [sample_csv_row]"
proof -
  have "csv_point_row publish_tools sample_report (JObj sample_point) = Inr sample_csv_row"
    unfolding csv_point_row_def csv_special_def csv_provenance_def sample_point_def sample_report_def
    by (simp add: json_item_def json_item2_def join_semicolon_def py_iter_def mapping_def csv_columns_def csv_cell_def
        py_str_def publish_tools_def sample_tools_def sample_csv_row_def eval_nat_numeral)
  then show ?thesis by (simp add: report_rows_def sample_report_def py_iter_def)
qed

lemma zero_id_hex: "is_hex 64 zero_id"
  using is_hex_to_hex [of "replicate 32 0"] by (simp add: zero_id_def)

lemma sample_identifier: "validate_report_identifier publish_tools sample_report = Inr zero_id"
proof -
  have "sha256 counting_host (replicate k 0) = replicate 32 0" for k
    by (simp add: counting_host_def replicate_add [symmetric])
  then show ?thesis using zero_id_hex
    by (simp add: validate_report_identifier_def sample_report_def sha_field_def collector_hash_def publish_tools_def
        sample_tools_def sha_hex_def zero_id_def)
qed

lemma count_from_skip: "length cs \<le> k \<Longrightarrow> count_from sub k cs = 0"
  by (induction cs arbitrary: k) auto

lemma count_from_self: "sub \<noteq> [] \<Longrightarrow> count_from sub 0 sub = 1"
  by (cases sub) (simp_all add: startswith_def count_from_skip)

lemma universal_newlines_id: "13 \<notin> set s \<Longrightarrow> universal_newlines s = s"
  by (induction s) auto

definition sample_markdown :: "jobj \<Rightarrow> pystr res" where
  "sample_markdown report = Inr (evidence_marker zero_id)"

definition sample_edition :: edition where
  "sample_edition = (sample_report, zero_id,
     (dumps_indent counting_host (JObj sample_report) @ [10],
      utf8_bytes (written_csv [map u csv_columns, sample_csv_row]), utf8_bytes (evidence_marker zero_id)))"

lemma zero_id_scalar: "list_all is_scalar zero_id" "13 \<notin> set zero_id"
  using zero_id_hex hex_scalar by (auto simp: is_hex_def list_all_iff hex_digit_def)

lemma plain_csv_row:
  "\<forall>f \<in> set r. \<not> needs_quotes f \<and> list_all is_scalar f \<Longrightarrow> list_all is_scalar (csv_row_text r)"
proof -
  assume f: "\<forall>f \<in> set r. \<not> needs_quotes f \<and> list_all is_scalar f"
  have "list_all is_scalar (py_join [44] (map csv_field r))"
    using f
  proof (induction r rule: induct_list012)
    case (3 a b r)
    then show ?case by (simp add: csv_field_def is_scalar_def)
  qed (simp_all add: csv_field_def)
  then show ?thesis by (simp add: csv_row_text_def is_scalar_def)
qed

lemma sample_rendered: "rendered publish_tools sample_markdown sample_report zero_id (snd (snd sample_edition))"
proof -
  have quotes: "\<not> needs_quotes zero_id"
    using zero_id_hex by (auto simp: is_hex_def needs_quotes_def list_all_iff list_ex_iff hex_digit_def)
  have plain: "\<forall>f \<in> set (map u csv_columns) \<union> set sample_csv_row. \<not> needs_quotes f \<and> list_all is_scalar f"
    using quotes zero_id_scalar u_scalar
    by (simp add: csv_columns_def sample_csv_row_def) (simp add: needs_quotes_def u_def)
  then have "list_all is_scalar (written_csv [map u csv_columns, sample_csv_row])"
    by (simp add: written_csv_def plain_csv_row)
  then have enc: "utf8_encode (written_csv [map u csv_columns, sample_csv_row]) = Inr (utf8_bytes (written_csv [map u csv_columns, sample_csv_row]))"
    by (simp add: utf8_encode_def)
  have "length zero_id = 64" using zero_id_hex by (simp add: is_hex_def)
  then have fields: "list_all csv_field_ok sample_csv_row"
    by (simp add: sample_csv_row_def csv_field_ok_def list_all_iff)
  have "list_all is_scalar (evidence_marker zero_id)"
    using zero_id_scalar u_scalar by (simp add: evidence_marker_def is_scalar_def)
  then have md: "utf8_encode (evidence_marker zero_id) = Inr (utf8_bytes (evidence_marker zero_id))"
    by (simp add: utf8_encode_def)
  have "13 \<notin> set (evidence_marker zero_id)" using zero_id_scalar(2) by (simp add: evidence_marker_def u_def)
  then have count: "count_from (evidence_marker zero_id) 0 (universal_newlines (evidence_marker zero_id)) = 1"
    using count_from_self [of "evidence_marker zero_id"] by (simp add: universal_newlines_id evidence_marker_def)
  have "json_plain (JObj sample_report)" "json_finite (JObj sample_report)"
    by (simp_all add: sample_report_def sample_point_def jobj_def)
  then show ?thesis
    using sample_identifier sample_rows enc fields md count
    by (simp add: rendered_def sample_edition_def sample_markdown_def publish_tools_def sample_tools_def)
qed

lemma published_names_ok: "names_ok id (u ''/out/r'') zero_id"
proof -
  have dirs: "path_parent (u ''/out/r'') = u ''/out''" "path_name (u ''/out/r'') = u ''r''"
    by (simp_all add: path_parent_def path_name_def u_def)
  have "list_all is_scalar zero_id" by (rule zero_id_scalar)
  then show ?thesis
    by (simp add: names_ok_def output_list_def output_paths_def commit_path_def path_join_def dirs Let_def)
      (simp add: u_def is_scalar_def)
qed

theorem commit_marker_always_complete_witness:
  "\<exists>w oc. write_outputs publish_tools sample_markdown (boot \<lparr>fs_resolve = id, fs_file = (\<lambda>_. None)\<rparr>) sample_report (u ''/out/r'') = (w, Inr oc)
     \<and> oc_report oc = zero_id \<and> validate_output_commit publish_tools (fs w) (commit_path (u ''/out/r'')) = Inr oc"
proof -
  let ?d = "\<lparr>fs_resolve = id, fs_file = (\<lambda>_. None)\<rparr>"
  obtain g where e: "sample_edition = (sample_report, zero_id, g)" by (simp add: sample_edition_def)
  have "outputs_apart id (u ''/out/r'') sample_edition sample_edition" by (simp add: outputs_apart_def e)
  then have P: "publishing publish_tools sample_markdown id (u ''/out/r'') {sample_edition}"
    using publish_tools_ok sample_rendered published_names_ok by (simp add: publishing_def e)
  have "fs_resolve ?d = id" "file_at ?d (commit_path (id (u ''/out/r''))) = None" by (simp_all add: file_at_def)
  from commit_marker_always_complete [OF P this publication.reach.start] show ?thesis by (simp add: e)
qed

end
