(* ===== verification/RunPlan.thy ===== *)
theory RunPlan
  imports Stage Evidence
begin

text \<open>
  What a benchmark run declares before it measures anything: its role (\<open>benchmark_run_role\<close>), the planned stages and
  the commands of \<open>orchestrate\<close> in \<open>run_large_scale_benchmark.py\<close>, and how \<open>collect_large_scale_results.py\<close> checks
  the declaration (\<open>_validate_declared_run_role\<close>, \<open>_recognized_stage_name\<close>, \<open>_expected_observation_command\<close>). The two
  scripts share no code: the lemmas show that the collector accepts what the orchestrator declares, and expects the
  commands the orchestrator runs.
\<close>

subsection \<open>Arguments\<close>

datatype native_role = Gate | Sweep
datatype recompute = Cached | Recomputed

fun native_role_name :: "native_role \<Rightarrow> pystr" where
  "native_role_name Gate = u ''gate''"
| "native_role_name Sweep = u ''sweep''"

fun recompute_name :: "recompute \<Rightarrow> pystr" where
  "recompute_name Cached = u ''cached''"
| "recompute_name Recomputed = u ''real''"

record run_args =
  ra_documents :: pystr
  ra_queries :: pystr
  ra_corpus_cache :: pystr
  ra_query_cache :: pystr
  ra_ground_truth :: pystr
  ra_top_k :: int
  ra_recall_k :: "int list"
  ra_output :: pystr
  ra_embedding_url :: pystr
  ra_embedding_model :: pystr
  ra_proxy_url :: pystr
  ra_server_ctx :: int
  ra_build_warmups :: int
  ra_build_repetitions :: int
  ra_search_warmups :: int
  ra_search_repetitions :: int
  ra_skip_native :: bool
  ra_native_binary :: pystr
  ra_native_index :: pystr
  ra_native_model :: "pystr option"
  ra_gpu_layers :: int
  ra_parallel :: int
  ra_ctx :: int
  ra_batch_tokens :: int
  ra_warmup_queries :: int
  ra_native_role :: native_role
  ra_efs :: "int list"
  ra_scan_limit :: int
  ra_rerank :: pyfloat
  ra_recompute_batch :: int
  ra_build_extra :: "pystr list"
  ra_search_extra :: "pystr list"
  ra_skip_official :: bool
  ra_python :: pystr
  ra_script :: pystr
  ra_repo :: pystr
  ra_index :: pystr
  ra_m :: int
  ra_ef_construction :: int
  ra_complexities :: "int list"
  ra_batches :: "int list"
  ra_official_extra :: "pystr list"
  ra_mode :: recompute

subsection \<open>The role and the planned stages\<close>

definition benchmark_run_role :: "run_args \<Rightarrow> pystr res" where
  "benchmark_run_role a =
     and_then (require (ra_skip_native a \<or> ra_native_role a \<noteq> Gate \<or> length (ra_efs a) = 1)
        (ValueError ''--native-role gate requires exactly one --native-ef-search value'')) (\<lambda>_.
     let components = (if ra_skip_native a then [] else [u ''native-'' @ native_role_name (ra_native_role a)])
        @ (if ra_skip_official a then []
           else [if ra_mode a = Recomputed then u ''official-real-run'' else u ''official-cached-sweep'']) in
     if components = [] then Inl (ValueError ''benchmark must enable at least one implementation'')
     else Inr (py_join (u ''+'') components))"

definition search_stage :: "int \<Rightarrow> pystr" where
  "search_stage ef = u ''native-search-ef'' @ dec_int ef"

definition official_search_stage :: "run_args \<Rightarrow> pystr" where
  "official_search_stage a = u ''official-search-'' @ recompute_name (ra_mode a)"

definition planned_stages :: "run_args \<Rightarrow> pystr list" where
  "planned_stages a =
     (if ra_skip_native a then [] else [u ''native-build'', u ''native-stats''] @ map search_stage (ra_efs a))
     @ (if ra_skip_official a then [] else [u ''official-build'', official_search_stage a])"

subsection \<open>Commands\<close>

text \<open>\<open>pa_resolve\<close> is \<open>Path.resolve\<close>, \<open>pa_abspath\<close> is \<open>os.path.abspath\<close>, \<open>pa_str\<close> is \<open>str\<close> of a float.\<close>

record path_tools =
  pa_resolve :: "pystr \<Rightarrow> pystr"
  pa_abspath :: "pystr \<Rightarrow> pystr"
  pa_str :: "pyfloat \<Rightarrow> pystr"

definition model_path :: "run_args \<Rightarrow> pystr res" where
  "model_path a = (case ra_native_model a of None \<Rightarrow> Inl (AttributeError ''resolve'') | Some m \<Rightarrow> Inr m)"

definition native_common :: "path_tools \<Rightarrow> run_args \<Rightarrow> pystr \<Rightarrow> pystr list" where
  "native_common pt a model =
     [u ''--embedder'', u ''llama'', u ''--model'', pa_resolve pt model, u ''--gpu-layers'', dec_int (ra_gpu_layers a),
      u ''--parallel'', dec_int (ra_parallel a), u ''--ctx'', dec_int (ra_ctx a), u ''--batch-tokens'',
      dec_int (ra_batch_tokens a)]"

definition native_build_command :: "path_tools \<Rightarrow> run_args \<Rightarrow> pystr list" where
  "native_build_command pt a =
     [pa_resolve pt (ra_native_binary a), u ''build'', u ''--docs'', pa_resolve pt (ra_documents a), u ''--index'',
      pa_resolve pt (ra_native_index a), u ''--embedder'', u ''cache'', u ''--embedding-cache'',
      pa_resolve pt (ra_corpus_cache a)] @ ra_build_extra a"

definition native_search_command :: "path_tools \<Rightarrow> run_args \<Rightarrow> pystr \<Rightarrow> pystr list \<Rightarrow> int \<Rightarrow> pystr list" where
  "native_search_command pt a model report ef =
     [pa_resolve pt (ra_native_binary a), u ''bench'', u ''--index'', pa_resolve pt (ra_native_index a), u ''--queries'',
      pa_resolve pt (ra_queries a), u ''--query-embedding-cache'', pa_resolve pt (ra_query_cache a), u ''--ground-truth'',
      pa_resolve pt (ra_ground_truth a), u ''--top-k'', dec_int (ra_top_k a)] @ report
     @ [u ''--ef-search'', dec_int ef, u ''--scan-limit'', dec_int (ra_scan_limit a), u ''--rerank-ratio'',
        pa_str pt (ra_rerank a), u ''--recompute-batch'', dec_int (ra_recompute_batch a), u ''--dense-baseline'', u ''0'',
        u ''--warmup-queries'', dec_int (ra_warmup_queries a)]
     @ native_common pt a model @ ra_search_extra a"

definition native_commands :: "path_tools \<Rightarrow> run_args \<Rightarrow> (pystr list \<times> (int \<times> pystr list) list) res" where
  "native_commands pt a =
     and_then (model_path a) (\<lambda>model.
     let additional = filter (\<lambda>k. k \<noteq> ra_top_k a) (ra_recall_k a) in
     and_then (require (length additional \<le> 1) (ValueError ''native CLI supports one --report-k cutoff'')) (\<lambda>_.
     let report = (case additional of [] \<Rightarrow> [] | k # _ \<Rightarrow> [u ''--report-k'', dec_int k]) in
     Inr (native_build_command pt a,
          fold (\<lambda>ef m. dict_set m ef (native_search_command pt a model report ef)) (ra_efs a) [])))"

definition official_front :: "path_tools \<Rightarrow> run_args \<Rightarrow> string \<Rightarrow> pystr list" where
  "official_front pt a mode =
     [pa_abspath pt (ra_python a), pa_resolve pt (ra_script a), u ''--'' @ u mode, u ''--documents'',
      pa_resolve pt (ra_documents a), u ''--queries'', pa_resolve pt (ra_queries a), u ''--corpus-cache'',
      pa_resolve pt (ra_corpus_cache a), u ''--query-cache'', pa_resolve pt (ra_query_cache a), u ''--ground-truth'',
      pa_resolve pt (ra_ground_truth a), u ''--top-k'', dec_int (ra_top_k a), u ''--report-k''] @ map dec_int (ra_recall_k a)
     @ [u ''--index'', pa_resolve pt (ra_index a), u ''--output'']"

definition official_rest :: "path_tools \<Rightarrow> run_args \<Rightarrow> pystr list" where
  "official_rest pt a =
     [u ''--official-repo'', pa_resolve pt (ra_repo a), u ''--llama-url'', ra_embedding_url a, u ''--proxy-url'', ra_proxy_url a,
      u ''--recompute-mode'', recompute_name (ra_mode a), u ''--model-alias'', ra_embedding_model a, u ''--m'',
      dec_int (ra_m a), u ''--ef-construction'', dec_int (ra_ef_construction a), u ''--complexities'']
     @ map dec_int (ra_complexities a) @ [u ''--batch-sizes''] @ map dec_int (ra_batches a) @ ra_official_extra a"

definition official_command :: "path_tools \<Rightarrow> run_args \<Rightarrow> string \<Rightarrow> pystr \<Rightarrow> pystr list" where
  "official_command pt a mode out = official_front pt a mode @ [pa_resolve pt out] @ official_rest pt a"

text \<open>The factories: \<open>kind\<close> and \<open>ordinal\<close> of an observation name its result file.\<close>

definition results_dir :: "path_tools \<Rightarrow> run_args \<Rightarrow> pystr" where
  "results_dir pt a = path_join (pa_resolve pt (ra_output a)) (u ''raw-results'')"

definition native_result :: "path_tools \<Rightarrow> run_args \<Rightarrow> int \<Rightarrow> pystr \<Rightarrow> pystr \<Rightarrow> pystr" where
  "native_result pt a ef kind ordinal =
     path_join (results_dir pt a) (search_stage ef @ u ''-'' @ kind @ u ''-'' @ ordinal @ u ''.csv'')"

definition native_factory :: "path_tools \<Rightarrow> run_args \<Rightarrow> pystr list \<Rightarrow> int \<Rightarrow> kind \<Rightarrow> nat \<Rightarrow> pystr list \<times> pystr option" where
  "native_factory pt a command ef kind ordinal =
     (let raw = native_result pt a ef (u (kind_key kind)) (dec_nat ordinal) in
      (command @ [u ''--raw-latencies'', pa_resolve pt raw], Some raw))"

definition native_template :: "path_tools \<Rightarrow> run_args \<Rightarrow> pystr list \<Rightarrow> int \<Rightarrow> pystr list" where
  "native_template pt a command ef =
     command @ [u ''--raw-latencies'', pa_resolve pt (native_result pt a ef (u ''{kind}'') (u ''{ordinal}''))]"

definition official_result :: "path_tools \<Rightarrow> run_args \<Rightarrow> string \<Rightarrow> pystr \<Rightarrow> pystr \<Rightarrow> pystr" where
  "official_result pt a label kind ordinal =
     path_join (results_dir pt a) (u ''official-'' @ u label @ u ''-'' @ kind @ u ''-'' @ ordinal @ u ''.json'')"

definition official_factory ::
  "path_tools \<Rightarrow> run_args \<Rightarrow> string \<Rightarrow> string \<Rightarrow> kind \<Rightarrow> nat \<Rightarrow> pystr list \<times> pystr option" where
  "official_factory pt a mode label kind ordinal =
     (let out = official_result pt a label (u (kind_key kind)) (dec_nat ordinal) in
      (official_command pt a mode out, Some out))"

definition official_template :: "path_tools \<Rightarrow> run_args \<Rightarrow> string \<Rightarrow> string \<Rightarrow> pystr list" where
  "official_template pt a mode label =
     official_command pt a mode (official_result pt a label (u ''{kind}'') (u ''{ordinal}''))"

subsection \<open>The collector's view\<close>

definition allowed_roles :: "pystr list" where
  "allowed_roles = map u [''native-gate'', ''native-sweep'', ''official-cached-sweep'', ''official-real-run'',
     ''official-real-search-reuse'']"

definition expected_official :: "pystr set \<Rightarrow> pystr set" where
  "expected_official planned =
     (if u ''official-search-cached'' \<in> planned then {u ''official-cached-sweep''} else {})
     \<union> (if u ''official-search-real'' \<in> planned
        then {if u ''official-build'' \<in> planned then u ''official-real-run'' else u ''official-real-search-reuse''} else {})"

definition validate_declared_run_role :: "json \<Rightarrow> pystr list \<Rightarrow> pystr res" where
  "validate_declared_run_role declared planned =
     and_then (nonempty_string declared) (\<lambda>role.
     let components = split_on 43 role in
     and_then (require (set components \<subseteq> set allowed_roles \<and> distinct components)
        (CollectionError ''invalid explicit run role'')) (\<lambda>_.
     let native_present = list_ex (\<lambda>n. startswith n (u ''native-'')) planned;
         native_roles = set (filter (\<lambda>c. startswith c (u ''native-'')) components);
         declared_official = set (filter (\<lambda>c. startswith c (u ''official-'')) components) in
     and_then (require (native_present = (card native_roles = 1))
        (CollectionError ''explicit native run role does not match planned stages'')) (\<lambda>_.
     and_then (require (declared_official = expected_official (set planned))
        (CollectionError ''explicit official run role does not match planned stages'')) (\<lambda>_.
     and_then (require (native_present \<or> expected_official (set planned) \<noteq> {})
        (CollectionError ''run role has no executable stage family'')) (\<lambda>_.
     and_then (require (py_join (u ''+'') (filter (\<lambda>c. c \<in> set components) allowed_roles) = role)
        (CollectionError ''run role components are not in canonical order'')) (\<lambda>_.
     Inr role))))))"

definition recognized_stage_name :: "pystr \<Rightarrow> bool" where
  "recognized_stage_name name \<longleftrightarrow>
     name \<in> {u ''native-build'', u ''native-stats'', u ''official-build'', u ''official-search-cached'', u ''official-search-real''}
     \<or> startswith name (u ''native-search-ef'')
       \<and> (case drop (length (u ''native-search-ef'')) name of [] \<Rightarrow> False
          | c # cs \<Rightarrow> 49 \<le> c \<and> c \<le> 57 \<and> list_all (\<lambda>c. 48 \<le> c \<and> c \<le> 57) cs)"

text \<open>\<open>str.replace\<close> of a non-empty text.\<close>

function py_replace :: "pystr \<Rightarrow> pystr \<Rightarrow> pystr \<Rightarrow> pystr" where
  "py_replace old new s =
     (if s = [] then [] else if old \<noteq> [] \<and> startswith s old then new @ py_replace old new (drop (length old) s)
      else hd s # py_replace old new (tl s))"
  by pat_completeness auto
termination
  by (relation "measure (\<lambda>(old, new, s). length s)") (auto simp: startswith_def dest: prefix_length_le)

declare py_replace.simps [simp del]

definition expand :: "pystr \<Rightarrow> pystr \<Rightarrow> pystr \<Rightarrow> pystr" where
  "expand kind ordinal s = py_replace (u ''{ordinal}'') ordinal (py_replace (u ''{kind}'') kind s)"

definition expected_observation_command :: "jobj \<Rightarrow> pystr \<Rightarrow> nat \<Rightarrow> pystr list res" where
  "expected_observation_command inputs kind ordinal =
     and_then (sequence (if jhas inputs ''command_template'' then jget inputs ''command_template'' else jget inputs ''command'')) (\<lambda>command.
     case strings_of command of
       None \<Rightarrow> Inl (CollectionError ''planned command is not an argv string array'')
     | Some args \<Rightarrow> and_then (require (args \<noteq> []) (CollectionError ''planned command is not an argv string array'')) (\<lambda>_.
         Inr (map (expand kind (dec_nat ordinal)) args)))"

subsection \<open>The collector accepts the declared role\<close>

lemma startswith_append [simp]: "startswith (s @ t) s" "startswith s s"
  by (simp_all add: startswith_def)

lemma not_startswith: "length p \<le> length s \<Longrightarrow> take (length p) s \<noteq> p \<Longrightarrow> \<not> startswith s p"
  by (simp add: startswith_code)

lemma dec_nat_pos: "0 < n \<Longrightarrow> \<exists>c cs. dec_nat n = c # cs \<and> 49 \<le> c \<and> c \<le> 57 \<and> list_all (\<lambda>c. 48 \<le> c \<and> c \<le> 57) cs"
proof (induction n rule: dec_nat.induct)
  case (1 n)
  show ?case
  proof (cases "n < 10")
    case True
    then show ?thesis using 1(2) by (simp add: dec_nat.simps [of n])
  next
    case False
    then obtain c cs where "dec_nat (n div 10) = c # cs" "49 \<le> c" "c \<le> 57" "list_all (\<lambda>c. 48 \<le> c \<and> c \<le> 57) cs"
      using 1(1) [OF False] by (auto simp: div_greater_zero_iff)
    then show ?thesis using False by (simp add: dec_nat.simps [of n])
  qed
qed

lemma dec_nat_inj [simp]: "dec_nat m = dec_nat n \<longleftrightarrow> m = n"
proof
  assume e: "dec_nat m = dec_nat n"
  obtain d1 where "scan_digits (dec_nat m) = Some d1" "of_digits d1 = m" using scan_digits_dec [of m] by blast
  moreover obtain d2 where "scan_digits (dec_nat n) = Some d2" "of_digits d2 = n" using scan_digits_dec [of n] by blast
  ultimately show "m = n" using e by simp
qed simp

lemma search_stage_recognized: "0 < ef \<Longrightarrow> recognized_stage_name (search_stage ef)"
  using dec_nat_pos [of "nat ef"] by (auto simp: recognized_stage_name_def search_stage_def dec_int_def)

lemma search_stage_inj: "0 < e \<Longrightarrow> 0 < f \<Longrightarrow> search_stage e = search_stage f \<longleftrightarrow> e = f"
  by (auto simp: search_stage_def dec_int_def)

lemma search_stage_start: "startswith (search_stage ef) (u ''native-'')" "\<not> startswith (search_stage ef) (u ''official-'')"
  by (simp_all add: search_stage_def startswith_code u_def)

lemma stage_starts:
  "startswith (u ''native-build'') (u ''native-'')" "\<not> startswith (u ''official-build'') (u ''native-'')"
  "\<not> startswith (u ''official-search-cached'') (u ''native-'')" "\<not> startswith (u ''official-search-real'') (u ''native-'')"
  by (simp_all add: startswith_code u_def)

lemma search_stage_other:
  "search_stage ef \<noteq> u ''native-build''" "search_stage ef \<noteq> u ''native-stats''" "search_stage ef \<noteq> u ''official-build''"
  "search_stage ef \<noteq> u ''official-search-cached''" "search_stage ef \<noteq> u ''official-search-real''"
  by (auto simp: search_stage_def u_def)

text \<open>What the checks of the role look at, for each of the eight shapes of a run.\<close>

definition shape_planned :: "bool \<Rightarrow> recompute option \<Rightarrow> pystr set \<Rightarrow> bool" where
  "shape_planned native official planned \<longleftrightarrow>
     ((\<exists>n \<in> planned. startswith n (u ''native-'')) = native)
     \<and> (u ''official-search-cached'' \<in> planned \<longleftrightarrow> official = Some Cached)
     \<and> (u ''official-search-real'' \<in> planned \<longleftrightarrow> official = Some Recomputed)
     \<and> (u ''official-build'' \<in> planned \<longleftrightarrow> official \<noteq> None)"

lemma planned_shape:
  "shape_planned (\<not> ra_skip_native a) (if ra_skip_official a then None else Some (ra_mode a)) (set (planned_stages a))"
  unfolding shape_planned_def
  by (cases "ra_mode a") (auto simp: planned_stages_def official_search_stage_def search_stage_start stage_starts
      search_stage_other [symmetric])

definition role_of :: "native_role option \<Rightarrow> recompute option \<Rightarrow> pystr" where
  "role_of native official = py_join (u ''+'') ((case native of None \<Rightarrow> [] | Some r \<Rightarrow> [u ''native-'' @ native_role_name r])
     @ (case official of None \<Rightarrow> [] | Some m \<Rightarrow> [if m = Recomputed then u ''official-real-run'' else u ''official-cached-sweep'']))"

lemma role_accepted:
  assumes "shape_planned (native \<noteq> None) official (set planned)" and "native \<noteq> None \<or> official \<noteq> None"
  shows "validate_declared_run_role (JStr (role_of native official)) planned = Inr (role_of native official)"
proof -
  have s: "list_ex (\<lambda>n. startswith n (u ''native-'')) planned = (native \<noteq> None)"
    "expected_official (set planned) = (case official of None \<Rightarrow> {} | Some Cached \<Rightarrow> {u ''official-cached-sweep''}
       | Some Recomputed \<Rightarrow> {u ''official-real-run''})"
    using assms(1) by (auto simp: shape_planned_def list_ex_iff expected_official_def split: option.splits recompute.splits)
  have eval: "validate_declared_run_role (JStr (role_of (Some r) None)) planned = Inr (role_of (Some r) None)"
    if "native = Some r" "official = None" for r
    unfolding validate_declared_run_role_def s
    by (cases r) (simp_all add: that nonempty_string_def role_of_def require_def allowed_roles_def startswith_code u_def Let_def del: set_filter)
  have eval2: "validate_declared_run_role (JStr (role_of None (Some m))) planned = Inr (role_of None (Some m))"
    if "native = None" "official = Some m" for m
    unfolding validate_declared_run_role_def s
    by (cases m) (simp_all add: that nonempty_string_def role_of_def require_def allowed_roles_def startswith_code u_def Let_def del: set_filter)
  have eval3: "validate_declared_run_role (JStr (role_of (Some r) (Some m))) planned = Inr (role_of (Some r) (Some m))"
    if "native = Some r" "official = Some m" for r m
    unfolding validate_declared_run_role_def s
    by (cases r; cases m) (simp_all add: that nonempty_string_def role_of_def require_def allowed_roles_def startswith_code u_def Let_def del: set_filter)
  show ?thesis using eval eval2 eval3 assms(2) by (cases native; cases official) blast+
qed

lemma run_role_of:
  assumes "benchmark_run_role a = Inr role"
  shows "role = role_of (if ra_skip_native a then None else Some (ra_native_role a)) (if ra_skip_official a then None else Some (ra_mode a))"
    and "\<not> ra_skip_native a \<or> \<not> ra_skip_official a"
  using assms by (auto simp: benchmark_run_role_def role_of_def ok_simps Let_def split: if_splits)

lemma planned_distinct:
  assumes "\<forall>ef \<in> set (ra_efs a). 0 < ef"
  shows "distinct (planned_stages a) \<longleftrightarrow> ra_skip_native a \<or> distinct (ra_efs a)"
proof -
  have "inj_on search_stage (set (ra_efs a))" using assms search_stage_inj by (auto simp: inj_on_def)
  then have "distinct (map search_stage (ra_efs a)) = distinct (ra_efs a)" by (simp add: distinct_map)
  moreover have "u ''native-build'' \<notin> search_stage ` A" "u ''native-stats'' \<notin> search_stage ` A" "u ''official-build'' \<notin> search_stage ` A"
    "official_search_stage a \<notin> search_stage ` A" for A
    using search_stage_other by (cases "ra_mode a"; auto simp: official_search_stage_def dest: sym)+
  moreover have "official_search_stage a \<noteq> u ''official-build''" "official_search_stage a \<notin> {u ''native-build'', u ''native-stats''}"
    by (cases "ra_mode a"; simp add: official_search_stage_def)+
  ultimately show ?thesis by (auto simp: planned_stages_def)
qed

text \<open>
  C26. What the orchestrator declares, the collector accepts: the role recorded for the planned stages passes the
  collector's check of declared roles, every planned stage name is one the collector recognises, and the names are
  distinct exactly when no ef-search value is given twice.
\<close>

theorem declared_plan_is_accepted:
  assumes "benchmark_run_role a = Inr role" and "\<forall>ef \<in> set (ra_efs a). 0 < ef"
  shows "validate_declared_run_role (JStr role) (planned_stages a) = Inr role
    \<and> (\<forall>n \<in> set (planned_stages a). recognized_stage_name n)
    \<and> (distinct (planned_stages a) \<longleftrightarrow> ra_skip_native a \<or> distinct (ra_efs a))"
proof -
  let ?n = "if ra_skip_native a then None else Some (ra_native_role a)"
  let ?o = "if ra_skip_official a then None else Some (ra_mode a)"
  have "shape_planned (?n \<noteq> None) ?o (set (planned_stages a))" using planned_shape [of a] by (cases "ra_skip_native a") simp_all
  moreover have "?n \<noteq> None \<or> ?o \<noteq> None" using run_role_of(2) [OF assms(1)] by auto
  ultimately have "validate_declared_run_role (JStr role) (planned_stages a) = Inr role"
    unfolding run_role_of(1) [OF assms(1)] by (rule role_accepted)
  moreover have "recognized_stage_name n" if "n \<in> set (planned_stages a)" for n
    using that assms(2) search_stage_recognized
    by (cases "ra_mode a") (auto simp: planned_stages_def official_search_stage_def split: if_splits,
        auto simp: recognized_stage_name_def)
  ultimately show ?thesis using planned_distinct [OF assms(2)] by blast
qed

subsection \<open>The collector expects the commands that are run\<close>

lemma py_replace_skip: "c \<notin> set s \<Longrightarrow> py_replace (c # old) new (s @ t) = s @ py_replace (c # old) new t"
  by (induction s) (auto simp: py_replace.simps startswith_def)

lemma py_replace_none: "c \<notin> set s \<Longrightarrow> py_replace (c # old) new s = s"
  using py_replace_skip [of c s old new "[]"] by (simp add: py_replace.simps)

lemma py_replace_hit: "py_replace (c # old) new ((c # old) @ t) = new @ py_replace (c # old) new t"
  by (simp add: py_replace.simps startswith_def)

lemma py_replace_miss: "\<not> startswith (c # s) (c # old) \<Longrightarrow> py_replace (c # old) new (c # s) = c # py_replace (c # old) new s"
  by (simp add: py_replace.simps)

lemma braces: "u ''{kind}'' = 123 # u ''kind}''" "u ''{ordinal}'' = 123 # u ''ordinal}''"
  by (simp_all add: u_def)

lemma expand_plain: "123 \<notin> set s \<Longrightarrow> expand kind ordinal s = s"
  by (simp add: expand_def braces py_replace_none)

lemma expand_template:
  assumes "123 \<notin> set x" "123 \<notin> set y" "123 \<notin> set z" "123 \<notin> set kind"
  shows "expand kind ordinal (x @ u ''{kind}'' @ y @ u ''{ordinal}'' @ z) = x @ kind @ y @ ordinal @ z"
proof -
  have no: "123 \<notin> set (u ''ordinal}'' @ z)" using assms by (simp add: u_def)
  have miss: "\<not> startswith (123 # u ''ordinal}'' @ z) (123 # u ''kind}'')" by (simp add: startswith_def u_def)
  have "py_replace (u ''{kind}'') kind (x @ u ''{kind}'' @ y @ u ''{ordinal}'' @ z) = x @ kind @ y @ u ''{ordinal}'' @ z"
    unfolding braces append_Cons using assms(1,2) py_replace_hit [of 123 "u ''kind}''" kind]
    by (simp add: py_replace_skip py_replace_miss [OF miss] py_replace_none [OF no])
  then show ?thesis unfolding expand_def
    using assms py_replace_hit [of 123 "u ''ordinal}''" ordinal]
    by (simp add: braces py_replace_skip py_replace_none)
qed

subsection \<open>A sample run\<close>

definition sample_args :: run_args where
  "sample_args = \<lparr>ra_documents = u ''documents'', ra_queries = u ''queries'', ra_corpus_cache = u ''corpus'', ra_query_cache = u ''query'',
     ra_ground_truth = u ''truth'', ra_top_k = 10, ra_recall_k = [3, 10], ra_output = u ''out'', ra_embedding_url = u ''http://a'',
     ra_embedding_model = u ''nomic'', ra_proxy_url = u ''http://b'', ra_server_ctx = 32768, ra_build_warmups = 0,
     ra_build_repetitions = 1, ra_search_warmups = 1, ra_search_repetitions = 3, ra_skip_native = False,
     ra_native_binary = u ''leann'', ra_native_index = u ''index'', ra_native_model = Some (u ''model''), ra_gpu_layers = 99,
     ra_parallel = 16, ra_ctx = 2048, ra_batch_tokens = 32768, ra_warmup_queries = 1, ra_native_role = Sweep, ra_efs = [32, 64],
     ra_scan_limit = 0, ra_rerank = Fin (1 / 4), ra_recompute_batch = 16, ra_build_extra = [], ra_search_extra = [],
     ra_skip_official = False, ra_python = u ''python'', ra_script = u ''compare'', ra_repo = u ''repo'', ra_index = u ''official'',
     ra_m = 32, ra_ef_construction = 200, ra_complexities = [32], ra_batches = [0], ra_official_extra = [], ra_mode = Cached\<rparr>"

lemma sample_args_simps [simp]:
  "ra_documents sample_args = u ''documents''" "ra_queries sample_args = u ''queries''"
  "ra_corpus_cache sample_args = u ''corpus''" "ra_query_cache sample_args = u ''query''"
  "ra_ground_truth sample_args = u ''truth''" "ra_top_k sample_args = 10" "ra_recall_k sample_args = [3, 10]"
  "ra_output sample_args = u ''out''" "ra_embedding_url sample_args = u ''http://a''"
  "ra_embedding_model sample_args = u ''nomic''" "ra_proxy_url sample_args = u ''http://b''"
  "ra_server_ctx sample_args = 32768" "ra_build_warmups sample_args = 0" "ra_build_repetitions sample_args = 1"
  "ra_search_warmups sample_args = 1" "ra_search_repetitions sample_args = 3" "ra_skip_native sample_args = False"
  "ra_native_binary sample_args = u ''leann''" "ra_native_index sample_args = u ''index''"
  "ra_native_model sample_args = Some (u ''model'')" "ra_gpu_layers sample_args = 99" "ra_parallel sample_args = 16"
  "ra_ctx sample_args = 2048" "ra_batch_tokens sample_args = 32768" "ra_warmup_queries sample_args = 1"
  "ra_native_role sample_args = Sweep" "ra_efs sample_args = [32, 64]" "ra_scan_limit sample_args = 0"
  "ra_rerank sample_args = Fin (1 / 4)" "ra_recompute_batch sample_args = 16" "ra_build_extra sample_args = []"
  "ra_search_extra sample_args = []" "ra_skip_official sample_args = False" "ra_python sample_args = u ''python''"
  "ra_script sample_args = u ''compare''" "ra_repo sample_args = u ''repo''" "ra_index sample_args = u ''official''"
  "ra_m sample_args = 32" "ra_ef_construction sample_args = 200" "ra_complexities sample_args = [32]"
  "ra_batches sample_args = [0]" "ra_official_extra sample_args = []" "ra_mode sample_args = Cached"
  by (simp_all add: sample_args_def)

theorem declared_plan_is_accepted_witness:
  "validate_declared_run_role (JStr (u ''native-sweep+official-cached-sweep'')) (planned_stages sample_args)
      = Inr (u ''native-sweep+official-cached-sweep'')
    \<and> distinct (planned_stages sample_args) \<and> recognized_stage_name (search_stage 64)"
proof -
  have r: "benchmark_run_role sample_args = Inr (u ''native-sweep+official-cached-sweep'')"
    by (simp add: benchmark_run_role_def require_def)
  have e: "\<forall>ef \<in> set (ra_efs sample_args). 0 < ef" "search_stage 64 \<in> set (planned_stages sample_args)" "distinct (ra_efs sample_args)"
    by (simp_all add: planned_stages_def)
  from declared_plan_is_accepted [OF r e(1)] e(2,3) show ?thesis by blast
qed

end
