(* ===== verification/Orchestrate.thy ===== *)
theory Orchestrate
  imports RunPlan CacheGen TruthGen
begin

text \<open>
  \<open>orchestrate\<close> of \<open>run_large_scale_benchmark.py\<close>: the shared artifacts are validated, the endpoints are compared with
  what they claim to serve, a manifest that says \<open>running\<close> is written, every planned stage is run by
  \<open>run_repeated_stage\<close>, and the manifest is rewritten as \<open>complete\<close>. Git, the endpoint probes, the probe of the official
  runtime, the platform and directory listings are what the environment of a run answers (\<open>run_env\<close>). The lemmas show
  that a manifest that says \<open>complete\<close> is only ever on the disk together with the complete document of every planned
  stage, whatever crashed before, and that the recorded command templates expand to the commands that are run.
\<close>

subsection \<open>The shared artifacts\<close>

definition truthy :: "json \<Rightarrow> bool" where
  "truthy v =
     (case v of JNull \<Rightarrow> False | JBool b \<Rightarrow> b | JInt i \<Rightarrow> i \<noteq> 0 | JFloat f \<Rightarrow> f \<noteq> Fin 0 | JStr s \<Rightarrow> s \<noteq> []
      | JArr xs \<Rightarrow> xs \<noteq> [] | JObj m \<Rightarrow> m \<noteq> [])"

text \<open>One sidecar of the pair (label, declared, expected role, digest, source).\<close>

definition sidecar_agrees :: "json \<Rightarrow> string \<Rightarrow> pystr \<Rightarrow> source_id \<Rightarrow> bool res" where
  "sidecar_agrees declared role sha source =
     and_then (json_get declared ''schema'') (\<lambda>schema. if \<not> py_eq schema (JStr cache_meta_schema) then Inr False else
     and_then (json_get declared ''role'') (\<lambda>r. if \<not> py_eq r (JStr (u role)) then Inr False else
     and_then (json_get2 declared ''cache'' ''sha256'') (\<lambda>c. if \<not> py_eq c (JStr sha) then Inr False else
     and_then (json_get2 declared ''source'' ''sha256'') (\<lambda>s. Inr (py_eq s (JStr (si_sha source)))))))"

definition check_sidecar :: "json \<Rightarrow> string \<Rightarrow> pystr \<Rightarrow> source_id \<Rightarrow> unit res" where
  "check_sidecar declared role sha source =
     and_then (sidecar_agrees declared role sha source) (\<lambda>ok.
     require ok (ValueError ''cache provenance sidecar mismatch''))"

definition check_truth_bindings :: "json \<Rightarrow> (string \<times> json) list \<Rightarrow> unit res" where
  "check_truth_bindings declared bindings =
     fold_res (\<lambda>_ (k, x). and_then (json_get declared k) (\<lambda>v.
        require (py_eq v x) (ValueError ''ground-truth binding mismatch''))) () bindings"

definition shared_json :: "source_id \<Rightarrow> source_id \<Rightarrow> cache_meta \<Rightarrow> pystr \<Rightarrow> cache_meta \<Rightarrow> pystr \<Rightarrow> truth_meta \<Rightarrow> json \<Rightarrow> jobj" where
  "shared_json documents queries corpus corpus_sha query query_sha truth model = jobj
     [(''documents'', source_json documents), (''queries'', source_json queries),
      (''corpus_cache'', JObj (dict_set (cache_meta_json corpus) (u ''sha256'') (JStr corpus_sha))),
      (''query_cache'', JObj (dict_set (cache_meta_json query) (u ''sha256'') (JStr query_sha))),
      (''ground_truth'', truth_json truth), (''model'', model)]"

definition validate_shared_artifacts :: "host \<Rightarrow> numerics \<Rightarrow> run_args \<Rightarrow> fsys \<Rightarrow> jobj res" where
  "validate_shared_artifacts h np a d =
     and_then (read_cache_default h np d (ra_corpus_cache a)) (\<lambda>(corpus, cm).
     and_then (read_cache_default h np d (ra_query_cache a)) (\<lambda>(query, qm).
     and_then (validate_cache_source h d cm (ra_documents a) None True) (\<lambda>documents.
     and_then (validate_cache_source h d qm (ra_queries a) None True) (\<lambda>queries.
     and_then (require (cm_dimensions cm = cm_dimensions qm) (ValueError ''shared cache dimensions do not match'')) (\<lambda>_.
     and_then (require (cm_fingerprint cm = cm_fingerprint qm) (ValueError ''shared cache native fingerprints do not match'')) (\<lambda>_.
     and_then (sha256_file h d (ra_corpus_cache a) 0 None) (\<lambda>corpus_sha.
     and_then (sha256_file h d (ra_query_cache a) 0 None) (\<lambda>query_sha.
     and_then (load_json h d (sidecar_path (ra_corpus_cache a))) (\<lambda>corpus_sidecar.
     and_then (load_json h d (sidecar_path (ra_query_cache a))) (\<lambda>query_sidecar.
     and_then (check_sidecar corpus_sidecar ''corpus'' corpus_sha documents) (\<lambda>_.
     and_then (check_sidecar query_sidecar ''queries'' query_sha queries) (\<lambda>_.
     and_then (json_item2 corpus_sidecar ''model'' ''sha256'') (\<lambda>model_sha.
     and_then (json_item2 query_sidecar ''model'' ''sha256'') (\<lambda>query_model.
     and_then (require (py_eq model_sha query_model) (ValueError ''shared cache model hashes do not match'')) (\<lambda>_.
     and_then (json_get2 query_sidecar ''bindings'' ''corpus_cache_sha256'') (\<lambda>bound.
     and_then (require (py_eq bound (JStr corpus_sha)) (ValueError ''query cache is not bound to selected corpus cache'')) (\<lambda>_.
     and_then (open_rb d (ra_ground_truth a)) (\<lambda>content.
     and_then (read_ground_truth h (fs_resolve d (ra_ground_truth a)) (Some (cm_count qm)) (Some (nat (ra_top_k a)))
         (Some (cm_count cm)) content) (\<lambda>(rows, truth).
     and_then (load_json h d (sidecar_path (ra_ground_truth a))) (\<lambda>truth_sidecar.
     and_then (json_get truth_sidecar ''schema'') (\<lambda>schema.
     and_then (if \<not> py_eq schema (JStr (u ''leann-exact-ground-truth-v1'')) then Inr False
         else and_then (json_get2 truth_sidecar ''ground_truth'' ''sha256'') (\<lambda>s. Inr (py_eq s (JStr (tm_sha truth))))) (\<lambda>ok.
     and_then (require ok (ValueError ''ground-truth provenance sidecar mismatch'')) (\<lambda>_.
     and_then (check_truth_bindings truth_sidecar
         [(''corpus_cache_sha256'', JStr corpus_sha), (''query_cache_sha256'', JStr query_sha),
          (''corpus_source_sha256'', JStr (si_sha documents)), (''query_source_sha256'', JStr (si_sha queries)),
          (''model_sha256'', model_sha)]) (\<lambda>_.
     and_then (json_item corpus_sidecar ''model'') (\<lambda>model.
     Inr (shared_json documents queries cm corpus_sha qm query_sha truth model))))))))))))))))))))))))))"

subsection \<open>The endpoints\<close>

definition strip_slashes :: "pystr \<Rightarrow> pystr" where
  "strip_slashes s = rstrip_while (\<lambda>c. c = 47) s"

definition normalized_base_url :: "pystr \<Rightarrow> pystr" where
  "normalized_base_url url =
     (let s = strip_slashes url in strip_slashes (if endswith s (u ''/v1'') then take (length s - 3) s else s))"

definition endpoint_payload :: "jobj \<Rightarrow> string \<Rightarrow> json res" where
  "endpoint_payload observation path =
     (case jget observation path of
        JObj r \<Rightarrow> if py_eq (jget r ''status'') (JInt 200) then Inr (jget r ''payload'')
                  else Inl (ValueError ''endpoint identity probe did not return HTTP 200'')
      | _ \<Rightarrow> Inl (ValueError ''endpoint identity probe did not return HTTP 200''))"

text \<open>\<open>m.get(k, "")\<close> through \<open>str\<close>.\<close>

definition get_text :: "tools \<Rightarrow> jobj \<Rightarrow> string \<Rightarrow> pystr" where
  "get_text t m k = (if jhas m k then py_str t (jget m k) else [])"

definition tool_sha :: "(pystr \<times> json) list \<Rightarrow> string \<Rightarrow> json res" where
  "tool_sha tooling name =
     (case map_of tooling (u name) of None \<Rightarrow> Inl (KeyError name) | Some v \<Rightarrow> json_item v ''sha256'')"

definition cached_expected :: "jobj \<Rightarrow> (pystr \<times> json) list \<Rightarrow> (string \<times> json) list res" where
  "cached_expected shared tooling =
     and_then (jidx shared ''corpus_cache'') (\<lambda>corpus.
     and_then (json_item corpus ''sha256'') (\<lambda>cache. and_then (jidx shared ''documents'') (\<lambda>documents.
     and_then (json_item documents ''sha256'') (\<lambda>source. and_then (json_item corpus ''fingerprint'') (\<lambda>fingerprint.
     and_then (json_item corpus ''dimensions'') (\<lambda>dimensions. and_then (json_item corpus ''count'') (\<lambda>count.
     and_then (jidx shared ''model'') (\<lambda>model. and_then (json_item model ''sha256'') (\<lambda>model_sha.
     and_then (tool_sha tooling ''cached_embedding_server.py'') (\<lambda>script.
     Inr [(''cache_sha256'', cache), (''source_sha256'', source), (''fingerprint'', fingerprint),
          (''dimensions'', dimensions), (''count'', count), (''model_sha256'', model_sha),
          (''server_script_sha256'', script)]))))))))))"

definition check_expected :: "exn \<Rightarrow> jobj \<Rightarrow> (string \<times> json) list \<Rightarrow> unit res" where
  "check_expected e identity expected =
     require (list_all (\<lambda>(k, x). py_eq (jget identity k) x) expected) e"

definition check_cached_endpoint :: "jobj \<Rightarrow> (pystr \<times> json) list \<Rightarrow> jobj \<Rightarrow> unit res" where
  "check_cached_endpoint shared tooling metrics =
     and_then (require (py_eq (jget metrics ''mode'') (JStr (u ''cache''))) (ValueError ''cached run requires a direct cached endpoint'')) (\<lambda>_.
     case jget metrics ''cache_identity'' of
       JObj identity \<Rightarrow>
         and_then (cached_expected shared tooling) (\<lambda>expected.
         check_expected (ValueError ''cached endpoint mismatch'') identity expected)
     | _ \<Rightarrow> Inl (ValueError ''cached endpoint did not expose cache identity''))"

definition check_count_field :: "jobj \<Rightarrow> string \<Rightarrow> int \<Rightarrow> unit res" where
  "check_count_field m k n =
     (if jhas m k then and_then (int_of_json (jget m k)) (\<lambda>i.
        require (i = n) (ValueError ''real embedding endpoint mismatch'')) else Inr ())"

definition artifact_path :: "jobj \<Rightarrow> json res" where
  "artifact_path shared =
     and_then (jidx shared ''model'') (\<lambda>model. and_then (json_get model ''artifact'') (\<lambda>artifact.
     case artifact of
       JObj m \<Rightarrow> if truthy (jget m ''path'') then Inr (jget m ''path'')
                 else Inl (ValueError ''real matched run requires a SHA-bound model artifact'')
     | _ \<Rightarrow> Inl (ValueError ''real matched run requires a SHA-bound model artifact'')))"

definition check_proxy_endpoint ::
  "tools \<Rightarrow> fsys \<Rightarrow> run_args \<Rightarrow> jobj \<Rightarrow> (pystr \<times> json) list \<Rightarrow> jobj \<Rightarrow> jobj \<Rightarrow> unit res" where
  "check_proxy_endpoint t d a shared tooling embedding metrics =
     and_then (require (py_eq (jget metrics ''mode'') (JStr (u ''proxy''))) (ValueError ''real recompute run requires the counting proxy'')) (\<lambda>_.
     and_then (require (normalized_base_url (get_text t metrics ''upstream'') = normalized_base_url (ra_embedding_url a))
        (ValueError ''real recompute proxy upstream does not match embedding URL'')) (\<lambda>_.
     and_then (tool_sha tooling ''openai_embedding_proxy.py'') (\<lambda>script.
     and_then (require (py_eq (jget metrics ''proxy_script_sha256'') script)
        (ValueError ''running proxy script does not match benchmark tooling'')) (\<lambda>_.
     and_then (artifact_path shared) (\<lambda>model.
     and_then (endpoint_payload embedding ''/props'') (\<lambda>props.
     case props of
       JObj p \<Rightarrow>
         and_then (require (truthy (jget p ''model_path'')) (ValueError ''real embedding endpoint did not expose model_path'')) (\<lambda>_.
         and_then (case model of JStr s \<Rightarrow> Inr (fs_resolve d s) | _ \<Rightarrow> Inl (TypeError ''path'')) (\<lambda>model.
         and_then (require (fs_resolve d (py_str t (jget p ''model_path'')) = model)
            (ValueError ''real embedding endpoint model_path differs from shared model'')) (\<lambda>_.
         and_then (check_count_field p ''total_slots'' (ra_parallel a)) (\<lambda>_.
         case jget p ''default_generation_settings'' of
           JObj settings \<Rightarrow> check_count_field settings ''n_ctx'' (ra_ctx a)
         | _ \<Rightarrow> Inr ()))))
     | _ \<Rightarrow> Inl (ValueError ''real embedding endpoint did not expose model_path'')))))))"

definition validate_endpoint_identity ::
  "tools \<Rightarrow> fsys \<Rightarrow> run_args \<Rightarrow> jobj \<Rightarrow> jobj \<Rightarrow> jobj \<Rightarrow> (pystr \<times> json) list \<Rightarrow> unit res" where
  "validate_endpoint_identity t d a shared embedding candidate tooling =
     and_then (endpoint_payload candidate ''/metrics'') (\<lambda>metrics.
     case metrics of
       JObj m \<Rightarrow> if ra_mode a = Cached then check_cached_endpoint shared tooling m
                 else check_proxy_endpoint t d a shared tooling embedding m
     | _ \<Rightarrow> Inl (ValueError ''candidate endpoint metrics payload is not an object''))"

subsection \<open>What a run declares\<close>

text \<open>The environment of a run. An endpoint probe answers with the observation of a base URL.\<close>

record run_env =
  re_stage :: stage_env
  re_git :: "fsys \<Rightarrow> pystr \<Rightarrow> jobj"
  re_endpoint :: "pystr \<Rightarrow> jobj"
  re_runtime :: "pystr \<Rightarrow> pystr \<Rightarrow> json res"
  re_platform :: jobj
  re_script :: pystr
  re_abspath :: "pystr \<Rightarrow> pystr"
  re_listing :: "fsys \<Rightarrow> pystr \<Rightarrow> pystr list"

definition run_paths :: "tools \<Rightarrow> run_env \<Rightarrow> fsys \<Rightarrow> path_tools" where
  "run_paths t env d = \<lparr>pa_resolve = fs_resolve d, pa_abspath = re_abspath env, pa_str = (\<lambda>f. py_str t (JFloat f))\<rparr>"

definition tool_root :: "run_env \<Rightarrow> fsys \<Rightarrow> pystr" where
  "tool_root env d = path_parent (path_parent (fs_resolve d (re_script env)))"

definition run_tooling :: "host \<Rightarrow> run_args \<Rightarrow> run_env \<Rightarrow> fsys \<Rightarrow> snapshot list" where
  "run_tooling h a env d =
     snapshot_files h d [re_script env, path_join (tool_root env d) (u ''scripts/benchmark_cache.py''), ra_script a,
       path_join (tool_root env d) (u ''scripts/cached_embedding_server.py''),
       path_join (tool_root env d) (u ''scripts/openai_embedding_proxy.py'')]"

definition tooling_by_name :: "snapshot list \<Rightarrow> (pystr \<times> json) list" where
  "tooling_by_name ss = fold (\<lambda>s m. dict_set m (path_name (sn_path s)) (snapshot_json s)) ss []"

definition server_context :: "run_args \<Rightarrow> json" where
  "server_context a = JObj (jobj [(''server_ctx_size'', JInt (ra_server_ctx a)), (''parallel'', JInt (ra_parallel a)),
     (''per_slot_ctx'', JInt (ra_ctx a)), (''required_product'', JInt (ra_ctx a * ra_parallel a))])"

text \<open>What the checks before the first write establish.\<close>

record run_facts =
  rf_role :: pystr
  rf_shared :: jobj
  rf_tooling :: json
  rf_model_sha :: json
  rf_runtime :: json
  rf_provenance :: jobj

definition check_native_model :: "host \<Rightarrow> run_args \<Rightarrow> fsys \<Rightarrow> jobj \<Rightarrow> json res" where
  "check_native_model h a d shared =
     (if ra_skip_native a then Inr JNull
      else and_then (model_path a) (\<lambda>p. and_then (sha256_file h d p 0 None) (\<lambda>sha.
        and_then (jidx shared ''model'') (\<lambda>model. and_then (json_get model ''artifact'') (\<lambda>artifact.
        and_then (require (case artifact of JObj m \<Rightarrow> py_eq (jget m ''sha256'') (JStr sha) | _ \<Rightarrow> False)
          (ValueError ''--native-model SHA-256 differs from the shared model artifact'')) (\<lambda>_.
        Inr (JStr sha)))))))"

definition run_provenance :: "run_args \<Rightarrow> run_env \<Rightarrow> fsys \<Rightarrow> jobj \<Rightarrow> jobj \<Rightarrow> json \<Rightarrow> json \<Rightarrow> jobj" where
  "run_provenance a env d embedding candidate tooling runtime = jobj
     [(''leann_cpp'', JObj (re_git env d (tool_root env d))), (''official_leann'', JObj (re_git env d (ra_repo a))),
      (''environment'', JObj (re_platform env)), (''embedding_endpoint'', JStr (ra_embedding_url a)),
      (''proxy_endpoint'', JStr (ra_proxy_url a)), (''embedding_endpoint_observation'', JObj embedding),
      (''candidate_endpoint_observation'', JObj candidate), (''tooling'', tooling), (''server_context'', server_context a),
      (''official_candidate_recompute_mode'', JStr (recompute_name (ra_mode a))), (''official_runtime'', runtime)]"

definition run_checks :: "host \<Rightarrow> numerics \<Rightarrow> tools \<Rightarrow> run_args \<Rightarrow> run_env \<Rightarrow> fsys \<Rightarrow> run_facts res" where
  "run_checks h np t a env d =
     and_then (benchmark_run_role a) (\<lambda>role.
     and_then (validate_shared_artifacts h np a d) (\<lambda>shared.
     and_then (require (ra_ctx a * ra_parallel a \<le> ra_server_ctx a) (ValueError ''server context is undersized'')) (\<lambda>_.
     let tools = run_tooling h a env d; tooling = JArr (map snapshot_json tools) in
     and_then (check_native_model h a d shared) (\<lambda>model_sha.
     let embedding = re_endpoint env (normalized_base_url (ra_embedding_url a));
         candidate = re_endpoint env (normalized_base_url (ra_proxy_url a)) in
     and_then (if ra_skip_official a then Inr JNull
         else and_then (validate_endpoint_identity t d a shared embedding candidate (tooling_by_name tools)) (\<lambda>_.
           re_runtime env (ra_python a) (ra_repo a))) (\<lambda>runtime.
     Inr \<lparr>rf_role = role, rf_shared = shared, rf_tooling = tooling, rf_model_sha = model_sha, rf_runtime = runtime,
          rf_provenance = run_provenance a env d embedding candidate tooling runtime\<rparr>)))))"

definition run_protocol :: "run_args \<Rightarrow> pystr \<Rightarrow> jobj" where
  "run_protocol a role = jobj
     [(''run_role'', JStr role), (''build_warmups'', JInt (ra_build_warmups a)),
      (''build_repetitions'', JInt (ra_build_repetitions a)), (''search_warmups'', JInt (ra_search_warmups a)),
      (''search_repetitions'', JInt (ra_search_repetitions a)), (''recall_cutoffs'', JArr (map JInt (ra_recall_k a))),
      (''timing'', JStr (u ''Primary search latency is the implementation's point-internal per-query timing (native raw CSV and official raw_per_query). Whole-subprocess wall time is orchestration telemetry only and is not comparable because commands group sweep points differently.'')),
      (''rss'', JStr (u ''Direct-client ru_maxrss only. Native search includes its in-process GGUF model; official recompute uses external server/daemon memory. Do not compare or headline cross-system search RSS from this field. Cache-only build RSS is more comparable.'')),
      (''latency_comparability'', JStr (u ''Native candidate recompute is always real GGUF. Official cached mode is an algorithmic recall/candidate Pareto sweep only; no cross-system latency speedup may be derived from it. Headline latency requires an official real-mode run against the attested model.''))]"

definition manifest_path :: "run_args \<Rightarrow> fsys \<Rightarrow> pystr" where
  "manifest_path a d = path_join (fs_resolve d (ra_output a)) (u ''manifest.json'')"

definition stages_dir :: "run_args \<Rightarrow> fsys \<Rightarrow> pystr" where
  "stages_dir a d = path_join (fs_resolve d (ra_output a)) (u ''stages'')"

definition running_manifest :: "run_args \<Rightarrow> fsys \<Rightarrow> run_facts \<Rightarrow> pystr \<Rightarrow> jobj" where
  "running_manifest a d rf started = jobj
     [(''schema'', JStr (u ''leann-large-scale-benchmark-v1'')), (''created_at'', JStr started),
      (''status'', JStr (u ''running'')), (''run_role'', JStr (rf_role rf)), (''shared_artifacts'', JObj (rf_shared rf)),
      (''provenance'', JObj (rf_provenance rf)), (''protocol'', JObj (run_protocol a (rf_role rf))),
      (''planned_stages'', JArr (map JStr (planned_stages a))), (''stages_directory'', JStr (fs_resolve d (stages_dir a d)))]"

definition complete_manifest :: "run_args \<Rightarrow> fsys \<Rightarrow> run_facts \<Rightarrow> pystr \<Rightarrow> pystr \<Rightarrow> pystr list \<Rightarrow> jobj" where
  "complete_manifest a d rf started completed names = jobj
     [(''schema'', JStr (u ''leann-large-scale-benchmark-v1'')), (''created_at'', JStr started),
      (''completed_at'', JStr completed), (''status'', JStr (u ''complete'')), (''run_role'', JStr (rf_role rf)),
      (''shared_artifacts'', JObj (rf_shared rf)), (''provenance'', JObj (rf_provenance rf)),
      (''protocol'', JObj (run_protocol a (rf_role rf))), (''planned_stages'', JArr (map JStr (planned_stages a))),
      (''stages'', JObj (map (\<lambda>n. (n, JStr (fs_resolve d (path_join (stages_dir a d) (n @ u ''.json''))))) names))]"

subsection \<open>The stages\<close>

definition native_inputs :: "run_args \<Rightarrow> run_facts \<Rightarrow> pystr \<Rightarrow> jobj" where
  "native_inputs a rf binary = jobj
     [(''shared'', JObj (rf_shared rf)), (''tooling'', rf_tooling rf),
      (''candidate_recompute_mode'', JStr (u ''real-gguf-in-process'')), (''binary_sha256'', JStr binary),
      (''model_artifact_sha256'', rf_model_sha rf), (''server_context'', server_context a)]"

definition stage_of ::
  "run_args \<Rightarrow> fsys \<Rightarrow> pystr \<Rightarrow> jobj \<Rightarrow> (kind \<Rightarrow> nat \<Rightarrow> pystr list \<times> pystr option) \<Rightarrow> (fsys \<Rightarrow> pystr list) \<Rightarrow> pystr
     \<Rightarrow> int \<Rightarrow> int \<Rightarrow> stage_job" where
  "stage_of a d name inputs command artifacts cwd warmups repetitions =
     \<lparr>sj_name = name, sj_dir = stages_dir a d, sj_inputs = inputs, sj_command = command, sj_artifacts = artifacts,
      sj_cwd = cwd, sj_warmups = warmups, sj_repetitions = repetitions\<rparr>"

definition native_jobs :: "host \<Rightarrow> tools \<Rightarrow> run_args \<Rightarrow> run_env \<Rightarrow> fsys \<Rightarrow> run_facts \<Rightarrow> stage_job list res" where
  "native_jobs h t a env d rf =
     (if ra_skip_native a then Inr []
      else let pt = run_paths t env d; artifacts = prefix_artifacts (re_listing env) (ra_native_index a) False in
        and_then (native_commands pt a) (\<lambda>(build, searches).
        and_then (sha256_file h d (ra_native_binary a) 0 None) (\<lambda>binary.
        let inputs = native_inputs a rf binary;
            stats = [fs_resolve d (ra_native_binary a), u ''stats'', u ''--index'', fs_resolve d (ra_native_index a)] in
        Inr ([stage_of a d (u ''native-build'') (dict_set inputs (u ''command'') (JArr (map JStr build))) (\<lambda>_ _. (build, None))
                artifacts (tool_root env d) (ra_build_warmups a) (ra_build_repetitions a),
              stage_of a d (u ''native-stats'') (dict_set inputs (u ''command'') (JArr (map JStr stats))) (\<lambda>_ _. (stats, None))
                artifacts (tool_root env d) 0 1]
          @ map (\<lambda>(ef, command). stage_of a d (search_stage ef)
                (inputs @ jobj [(''recall_k'', JArr (map JInt (ra_recall_k a))), (''ef_search'', JInt ef),
                   (''ground_truth_k'', JInt (ra_top_k a)), (''command_template'', JArr (map JStr (native_template pt a command ef)))])
                (native_factory pt a command ef) artifacts (tool_root env d) (ra_search_warmups a) (ra_search_repetitions a))
              searches))))"

definition official_inputs :: "host \<Rightarrow> run_args \<Rightarrow> run_env \<Rightarrow> fsys \<Rightarrow> run_facts \<Rightarrow> pystr list \<Rightarrow> jobj" where
  "official_inputs h a env d rf template = jobj
     [(''shared'', JObj (rf_shared rf)), (''tooling'', rf_tooling rf),
      (''candidate_recompute_mode'', JStr (recompute_name (ra_mode a))), (''official_repo'', JObj (re_git env d (ra_repo a))),
      (''official_runtime'', rf_runtime rf),
      (''python'', if path_exists d (ra_python a) then snapshot_json (hd (snapshot_files h d [ra_python a]))
                   else JStr (ra_python a)),
      (''command_template'', JArr (map JStr template))]"

definition official_jobs :: "host \<Rightarrow> tools \<Rightarrow> run_args \<Rightarrow> run_env \<Rightarrow> fsys \<Rightarrow> run_facts \<Rightarrow> stage_job list" where
  "official_jobs h t a env d rf =
     (if ra_skip_official a then []
      else let pt = run_paths t env d; artifacts = prefix_artifacts (re_listing env) (ra_index a) True in
        [stage_of a d (u ''official-build'') (official_inputs h a env d rf (official_template pt a ''build'' ''build''))
           (official_factory pt a ''build'' ''build'') artifacts (ra_repo a) (ra_build_warmups a) (ra_build_repetitions a),
         stage_of a d (official_search_stage a) (official_inputs h a env d rf (official_template pt a ''benchmark'' ''search''))
           (official_factory pt a ''benchmark'' ''search'') artifacts (ra_repo a) (ra_search_warmups a) (ra_search_repetitions a)])"

subsection \<open>The run\<close>

fun run_stages :: "host \<Rightarrow> stage_env \<Rightarrow> stage_job list \<Rightarrow> world \<Rightarrow> world \<times> unit res" where
  "run_stages h env [] w = (w, Inr ())"
| "run_stages h env (job # jobs) w =
     (case run_repeated_stage h env job w of
        (w1, _, Inl e) \<Rightarrow> (w1, Inl e)
      | (w1, _, Inr _) \<Rightarrow> run_stages h env jobs w1)"

definition orchestrate :: "host \<Rightarrow> numerics \<Rightarrow> tools \<Rightarrow> run_args \<Rightarrow> run_env \<Rightarrow> world \<Rightarrow> world \<times> jobj res" where
  "orchestrate h np t a env w =
     (case run_checks h np t a env (fs w) of Inl e \<Rightarrow> (w, Inl e) | Inr rf \<Rightarrow>
      let d = fs w; started = se_now (re_stage env) (length (past w));
          w1 = atomic_write_json h w (manifest_path a d) (JObj (running_manifest a d rf started)) in
      case native_jobs h t a env (fs w1) rf of Inl e \<Rightarrow> (w1, Inl e) | Inr native \<Rightarrow>
      case run_stages h (re_stage env) native w1 of (w2, Inl e) \<Rightarrow> (w2, Inl e) | (w2, Inr _) \<Rightarrow>
      let official = official_jobs h t a env (fs w2) rf in
      case run_stages h (re_stage env) official w2 of (w3, Inl e) \<Rightarrow> (w3, Inl e) | (w3, Inr _) \<Rightarrow>
      let m = complete_manifest a (fs w3) rf started (se_now (re_stage env) (length (past w3)))
                (map sj_name (native @ official)) in
      (atomic_write_json h w3 (manifest_path a (fs w3)) (JObj m), Inr m))"

subsection \<open>A stage leaves everything else alone\<close>

text \<open>No command of a run changes the file at a path, or what paths resolve to.\<close>

definition keeps :: "stage_env \<Rightarrow> pystr \<Rightarrow> bool" where
  "keeps env q \<longleftrightarrow>
     (\<forall>command d. case se_exec env command d of None \<Rightarrow> True | Some (meanwhile, d', p) \<Rightarrow>
        \<forall>x \<in> set (d' # meanwhile). fs_resolve x = fs_resolve d \<and> file_at x q = file_at d q)"

definition framed :: "pystr \<Rightarrow> world \<Rightarrow> world \<Rightarrow> bool" where
  "framed q w w1 \<longleftrightarrow> fs_resolve (fs w1) = fs_resolve (fs w) \<and> file_at (fs w1) q = file_at (fs w) q
     \<and> (\<forall>x \<in> visited w1. x \<in> visited w \<or> fs_resolve x = fs_resolve (fs w) \<and> file_at x q = file_at (fs w) q)"

lemma framed_refl [simp]: "framed q w w"
  by (simp add: framed_def)

lemma framed_trans: "framed q w w1 \<Longrightarrow> framed q w1 w2 \<Longrightarrow> framed q w w2"
  unfolding framed_def by metis

lemma framed_write:
  "fs_resolve (fs w) q \<noteq> fs_resolve (fs w) (stage_path job) \<Longrightarrow> framed q w (write_state h job w m)"
  by (simp add: framed_def)

lemma framed_observation:
  assumes "keeps env q" and "run_observation h env cwd w command = (w1, r)"
  shows "framed q w w1"
proof (cases "command = [] \<or> se_exec env command (fs w) = None")
  case True
  then show ?thesis using assms(2) unfolding run_observation_def by (cases "command = []") auto
next
  case False
  then obtain meanwhile d p where x: "se_exec env command (fs w) = Some (meanwhile, d, p)" by auto
  have "\<forall>x \<in> set (d # meanwhile). fs_resolve x = fs_resolve (fs w) \<and> file_at x q = file_at (fs w) q"
    using spec [OF spec [OF assms(1) [unfolded keeps_def], of command], of "fs w"] x by simp
  moreover have "w1 = \<lparr>fs = d, past = past w @ fs w # meanwhile\<rparr>"
    using assms(2) False x by (auto simp: run_observation_def Let_def)
  ultimately show ?thesis by (auto simp: framed_def visited_def)
qed

lemma framed_step:
  assumes "keeps env q" and "fs_resolve (fs w) q \<noteq> fs_resolve (fs w) (stage_path job)"
    and step: "stage_step h env job kind w m = (w1, r)"
  shows "framed q w w1"
proof -
  obtain command out where c: "sj_command job kind (taken m kind) = (command, out)" by fastforce
  obtain w0 r0 where run: "run_observation h env (sj_cwd job) w command = (w0, r0)" by fastforce
  have f0: "framed q w w0" by (rule framed_observation [OF assms(1) run])
  then have ne: "fs_resolve (fs w0) q \<noteq> fs_resolve (fs w0) (stage_path job)" using assms(2) by (simp add: framed_def)
  have "w1 = w0 \<or> (\<exists>m1. w1 = write_state h job w0 m1)"
    using step c run by (auto simp: stage_step_def record_failure_def Let_def split: prod.splits sum.splits if_splits)
  then show ?thesis using f0 framed_trans [OF f0 framed_write [OF ne]] by auto
qed

text \<open>The loop of a stage, for an invariant of the world and the state, and what an error leaves.\<close>

lemma stage_while_rule:
  assumes run: "stage_while h env job kind w m = (w1, a, r)" and start: "I w m"
    and step: "\<And>w m w' m'. I w m \<Longrightarrow> int (taken m kind) < wanted job kind \<Longrightarrow> stage_step h env job kind w m = (w', Inr m') \<Longrightarrow> I w' m'"
    and err: "\<And>w m w' e. I w m \<Longrightarrow> stage_step h env job kind w m = (w', Inl e) \<Longrightarrow> J w'"
  shows "case r of Inl e \<Rightarrow> J w1 | Inr m1 \<Rightarrow> I w1 m1 \<and> \<not> int (taken m1 kind) < wanted job kind"
  using run start
proof (induction "nat (wanted job kind - int (taken m kind))" arbitrary: w m a)
  case 0
  then have "r = Inr m" "w1 = w" by (simp_all add: stage_while.simps [of _ _ _ _ _ m])
  then show ?case using 0 by simp
next
  case (Suc n)
  then have less: "int (taken m kind) < wanted job kind" by simp
  obtain w0 r0 where s: "stage_step h env job kind w m = (w0, r0)" by fastforce
  show ?case
  proof (cases r0)
    case (Inl e)
    then have "r = Inl e" "w1 = w0" using Suc.prems(1) less s by (simp_all add: stage_while.simps [of _ _ _ _ _ m])
    then show ?thesis using err [OF Suc.prems(2)] s Inl by simp
  next
    case (Inr m0)
    obtain a0 where rest: "stage_while h env job kind w0 m0 = (w1, a0, r)"
      using Suc.prems(1) less s Inr by (auto simp: stage_while.simps [of _ _ _ _ _ m] split: prod.splits)
    have "n = nat (wanted job kind - int (taken m0 kind))"
      using Suc.hyps(2) stage_step_taken [OF s [unfolded Inr]] by simp
    from Suc.hyps(1) [OF this rest step [OF Suc.prems(2) less s [unfolded Inr]]] show ?thesis .
  qed
qed

lemma framed_while:
  assumes "keeps env q" and "fs_resolve (fs w) q \<noteq> fs_resolve (fs w) (stage_path job)"
    and "stage_while h env job kind w m = (w1, a, r)"
  shows "framed q w w1"
proof -
  have step: "framed q w w''" if f: "framed q w w'" and s: "stage_step h env job kind w' m' = (w'', r')" for w' m' w'' r'
  proof -
    have "fs_resolve (fs w') q \<noteq> fs_resolve (fs w') (stage_path job)" using f assms(2) by (simp add: framed_def)
    from framed_trans [OF f framed_step [OF assms(1) this s]] show ?thesis .
  qed
  have "case r of Inl e \<Rightarrow> framed q w w1 | Inr m1 \<Rightarrow> framed q w w1 \<and> \<not> int (taken m1 kind) < wanted job kind"
    by (rule stage_while_rule [OF assms(3), where I = "\<lambda>w' m'. framed q w w'"]) (use step in auto)
  then show ?thesis by (simp split: sum.splits)
qed

lemma framed_stage:
  assumes "keeps env q" and ne: "fs_resolve (fs w) q \<noteq> fs_resolve (fs w) (stage_path job)"
    and run: "run_repeated_stage h env job w = (w1, a, r)"
  shows "framed q w w1"
proof (cases "\<exists>m. stage_arguments job = Inr () \<and> stage_open h env job w = Inr (False, m)")
  case False
  then have "w1 = w" using run by (auto simp: run_repeated_stage_def split: sum.splits prod.splits if_splits)
  then show ?thesis by simp
next
  case True
  then obtain m where o: "stage_arguments job = Inr ()" "stage_open h env job w = Inr (False, m)" by blast
  obtain wa aa ra where wa: "stage_while h env job Warmups w m = (wa, aa, ra)" by (metis prod_cases3)
  note fa = framed_while [OF assms(1) ne wa]
  show ?thesis
  proof (cases ra)
    case (Inl e)
    then show ?thesis using run o wa fa by (simp add: run_repeated_stage_def)
  next
    case (Inr ma)
    obtain wb ab rb where wb: "stage_while h env job Measurements wa ma = (wb, ab, rb)" by (metis prod_cases3)
    have "fs_resolve (fs wa) q \<noteq> fs_resolve (fs wa) (stage_path job)" using fa ne by (simp add: framed_def)
    note fb = framed_trans [OF fa framed_while [OF assms(1) this wb]]
    then have "fs_resolve (fs wb) q \<noteq> fs_resolve (fs wb) (stage_path job)" using ne by (simp add: framed_def)
    note fc = framed_trans [OF fb framed_write [OF this]]
    have "w1 = wb \<or> (\<exists>m1. w1 = write_state h job wb m1)"
      using run o wa wb Inr by (auto simp: run_repeated_stage_def stage_complete_def Let_def split: sum.splits)
    then show ?thesis using fb fc by auto
  qed
qed

subsection \<open>A stage that returns has its complete document on the disk\<close>

definition fits :: "stage_job \<Rightarrow> jobj \<Rightarrow> bool" where
  "fits job m \<longleftrightarrow> json_plain (JObj m) \<and> (\<forall>k. int (taken m k) \<le> wanted job k)"

lemma fits_step:
  assumes codec: "codec_ok h" and "fits job m" and less: "int (taken m kind) < wanted job kind"
    and step: "stage_step h env job kind w m = (w1, Inr m1)"
  shows "fits job m1 \<and> (\<forall>k. k \<noteq> kind \<longrightarrow> taken m1 k = taken m k)"
proof -
  have m: "json_plain (JObj m)" using assms(2) by (simp add: fits_def)
  obtain command out where c: "sj_command job kind (taken m kind) = (command, out)" by fastforce
  obtain w0 r0 where run: "run_observation h env (sj_cwd job) w command = (w0, r0)" by fastforce
  note step' = step [unfolded stage_step_def c prod.case run]
  obtain obs p where r0: "r0 = Inr (obs, p)" using step' by (cases r0) auto
  have "json_plain (JObj obs)" using run r0 plain_observation
    by (auto simp: run_observation_def Let_def split: if_splits option.splits prod.splits simp del: json_plain.simps(2))
  then obtain o1 where o1: "annotate h job kind (taken m kind) out (fs w0) obs p = Inr o1" "json_plain (JObj o1)"
    using annotate_ok [OF codec, of obs job kind "taken m kind" out "fs w0" p] by blast
  note step2 = step' [unfolded r0 o1(1) prod.case sum.case]
  have ex: "pr_exit p = 0"
  proof (rule ccontr)
    assume "pr_exit p \<noteq> 0"
    then have "record_failure h env job w0 m o1 = (w1, Inr m1)" using step2 by simp
    then show False by (simp add: record_failure_def split: sum.splits)
  qed
  obtain m0 where m0: "append_to m (kind_key kind) (JObj o1) = Inr m0"
    using step2 ex by (cases "append_to m (kind_key kind) (JObj o1)") simp_all
  obtain xs where xs: "map_of m (u (kind_key kind)) = Some (JArr xs)"
    and m0': "m0 = dict_set m (u (kind_key kind)) (JArr (xs @ [JObj o1]))"
    using m0 unfolding append_to_ok by blast
  have m1: "m1 = set_status (dict_set m (u (kind_key kind)) (JArr (xs @ [JObj o1]))) ''running'' ''updated_at'' (se_now env (length (past w0)))"
    using step2 ex m0 by (simp add: m0' Let_def)
  have "json_plain (JArr xs)" using plain_item [OF m, of "kind_key kind"] xs by (simp add: jget_def)
  then have "json_plain (JArr (xs @ [JObj o1]))" using o1(2) by simp
  then have "json_plain (JObj m1)" unfolding m1 by (intro plain_set_status plain_dict_set m)
  moreover have tk: "taken m1 k = (if k = kind then Suc (taken m k) else taken m k)" for k
    using xs by (simp add: m1 arr_def jget_def [of m])
  ultimately show ?thesis using assms(2) less by (auto simp: fits_def)
qed

lemma fits_while:
  assumes codec: "codec_ok h" and start: "fits job m" and run: "stage_while h env job kind w m = (w1, a, Inr m1)"
  shows "fits job m1 \<and> int (taken m1 kind) = wanted job kind \<and> (\<forall>k. k \<noteq> kind \<longrightarrow> taken m1 k = taken m k)"
proof -
  define I where "I = (\<lambda>(w' :: world) m'. fits job m' \<and> (\<forall>k. k \<noteq> kind \<longrightarrow> taken m' k = taken m k))"
  have "case Inr m1 of Inl (e :: exn) \<Rightarrow> True | Inr m1 \<Rightarrow> I w1 m1 \<and> \<not> int (taken m1 kind) < wanted job kind"
  proof (rule stage_while_rule [OF run, where J = "\<lambda>_. True"])
    show "I w m" using start by (simp add: I_def)
    fix w m w' m' assume i: "I w m" and l: "int (taken m kind) < wanted job kind" and s: "stage_step h env job kind w m = (w', Inr m')"
    have "fits job m" using i by (simp add: I_def)
    from fits_step [OF codec this l s] i show "I w' m'" by (simp add: I_def)
  qed simp
  then have f: "fits job m1" and o: "\<forall>k. k \<noteq> kind \<longrightarrow> taken m1 k = taken m k" and ge: "\<not> int (taken m1 kind) < wanted job kind"
    by (simp_all add: I_def)
  have "int (taken m1 kind) \<le> wanted job kind" using f by (simp add: fits_def)
  then show ?thesis using f o ge by simp
qed

lemma load_plain: "codec_ok h \<Longrightarrow> load_json h d p = Inr v \<Longrightarrow> json_plain v"
  by (auto simp: load_json_def codec_ok_def split: sum.splits option.splits)

text \<open>The file at a path is a complete stage document with all observations.\<close>

definition holds_complete :: "host \<Rightarrow> stage_job \<Rightarrow> fsys \<Rightarrow> bool" where
  "holds_complete h job d \<longleftrightarrow> (\<exists>m. load_json h d (stage_path job) = Inr (JObj m) \<and> is_complete m
     \<and> (\<forall>k. int (taken m k) = wanted job k))"

lemma stage_returned:
  assumes codec: "codec_ok h" and plain: "json_plain (stage_inputs job)"
    and run: "run_repeated_stage h env job w = (w1, a, Inr m)"
  shows "holds_complete h job (fs w1)"
proof -
  from run have args: "stage_arguments job = Inr ()" by (auto simp: run_repeated_stage_def split: sum.splits)
  with run obtain finished m0 where o: "stage_open h env job w = Inr (finished, m0)"
    by (auto simp: run_repeated_stage_def split: sum.splits)
  note run' = run [unfolded run_repeated_stage_def args o sum.case prod.case]
  have counts: "\<forall>k. int (taken m0 k) \<le> wanted job k" if "stage_validate h job m0 = Inr ()"
  proof
    fix k
    have "check_kind job m0 k = Inr ()" using that
      by (cases k) (auto simp: stage_validate_def split: if_splits sum.splits)
    then show "int (taken m0 k) \<le> wanted job k"
      by (auto simp: check_kind_def arr_def split: json.splits if_splits)
  qed
  have start: "finished \<and> load_json h (fs w) (stage_path job) = Inr (JObj m0) \<and> is_complete m0 \<and> (\<forall>k. int (taken m0 k) = wanted job k)
      \<or> \<not> finished \<and> fits job m0"
  proof (cases "path_exists (fs w) (stage_path job)")
    case True
    then have l: "load_json h (fs w) (stage_path job) = Inr (JObj m0)" and v: "stage_validate h job m0 = Inr ()"
      and c: "finished \<longleftrightarrow> is_complete m0"
      and r: "finished \<Longrightarrow> stage_reuse h job (fs w) m0 = Inr ()"
      using o by (auto simp: stage_open_def is_complete_def split: sum.splits json.splits if_splits)
    have p: "json_plain (JObj m0)" by (rule load_plain [OF codec l])
    have "int (taken m0 k) = wanted job k" if finished for k
      using r [OF that] by (cases k) (auto simp: stage_reuse_def split: if_splits)
    then show ?thesis using l c p counts [OF v] by (auto simp: fits_def)
  next
    case False
    then have "\<not> finished" "m0 = stage_fresh h job (se_now env (length (past w)))" using o by (auto simp: stage_open_def)
    moreover have "taken (stage_fresh h job now) k = 0" for now k by (cases k) (simp_all add: stage_fresh_def arr_def)
    moreover have "json_plain (JObj (stage_fresh h job now))" for now using plain by (simp add: stage_fresh_def jobj_def)
    moreover have "0 \<le> wanted job k" for k using args by (cases k) (auto simp: stage_arguments_def split: if_splits)
    ultimately show ?thesis by (simp add: fits_def)
  qed
  show ?thesis
  proof (cases finished)
    case True
    then show ?thesis using start run' by (auto simp: holds_complete_def)
  next
    case False
    then have f0: "fits job m0" using start by simp
    obtain wa aa ra where wa: "stage_while h env job Warmups w m0 = (wa, aa, ra)" by (metis prod_cases3)
    then obtain ma where ra: "ra = Inr ma" using run' False by (cases ra) simp_all
    obtain wb ab rb where wb: "stage_while h env job Measurements wa ma = (wb, ab, rb)" by (metis prod_cases3)
    then obtain mb where rb: "rb = Inr mb" using run' False wa ra by (cases rb) simp_all
    note fa = fits_while [OF codec f0 wa [unfolded ra]]
    note fb = fits_while [OF codec conjunct1 [OF fa] wb [unfolded rb]]
    have m: "m = set_status mb ''complete'' ''completed_at'' (se_now env (length (past wb)))" and w1: "w1 = write_state h job wb m"
      using run' False wa ra wb rb by (auto simp: stage_complete_def Let_def)
    have "taken m Warmups = taken mb Warmups" "taken m Measurements = taken mb Measurements" by (simp_all add: m)
    moreover have "taken mb Warmups = taken ma Warmups"
      using spec [OF conjunct2 [OF conjunct2 [OF fb]], of Warmups] by simp
    ultimately have full: "int (taken m k) = wanted job k" for k using fa fb by (cases k) simp_all
    have plain: "json_plain (JObj m)" using fb unfolding m fits_def by (intro plain_set_status) simp
    obtain n where n: "json_sorted (JObj m) = JObj n" by simp
    have "load_json h (fs w1) (stage_path job) = Inr (json_sorted (JObj m))"
      by (rule load_json_of_file [OF codec plain]) (simp add: w1 document_bytes_def)
    moreover have "is_complete n"
      using jget_sorted [OF plain n, of "''status''"] by (simp add: is_complete_def m)
    moreover have "taken n k = taken m k" for k using arr_sorted [OF plain n, of "kind_key k"] by simp
    ultimately show ?thesis using full n by (auto simp: holds_complete_def)
  qed
qed

lemma holds_complete_same:
  "fs_resolve x = fs_resolve d \<Longrightarrow> file_at x (stage_path job) = file_at d (stage_path job) \<Longrightarrow> holds_complete h job d \<Longrightarrow> holds_complete h job x"
  by (simp add: holds_complete_def load_json_def open_rb_file_at)

subsection \<open>The stages of a run, one after the other\<close>

lemma run_stages_framed:
  assumes "keeps env q" and "\<forall>job \<in> set jobs. fs_resolve (fs w) q \<noteq> fs_resolve (fs w) (stage_path job)"
    and "run_stages h env jobs w = (w1, r)"
  shows "framed q w w1"
  using assms(2,3)
proof (induction jobs arbitrary: w)
  case (Cons job jobs)
  obtain w0 a0 r0 where s: "run_repeated_stage h env job w = (w0, a0, r0)" by (metis prod_cases3)
  have f: "framed q w w0" using framed_stage [OF assms(1) _ s] Cons.prems(1) by simp
  show ?case
  proof (cases r0)
    case (Inl e)
    then show ?thesis using Cons.prems(2) s f by simp
  next
    case (Inr m)
    have "\<forall>job \<in> set jobs. fs_resolve (fs w0) q \<noteq> fs_resolve (fs w0) (stage_path job)"
      using Cons.prems(1) f by (simp add: framed_def)
    from Cons.IH [OF this] Cons.prems(2) s Inr have "framed q w0 w1" by simp
    then show ?thesis by (rule framed_trans [OF f])
  qed
qed simp

lemma run_stages_complete:
  assumes codec: "codec_ok h" and q: "keeps env q"
    and "\<forall>job \<in> set jobs. json_plain (stage_inputs job) \<and> keeps env (stage_path job) \<and> fs_resolve (fs w) q \<noteq> fs_resolve (fs w) (stage_path job)"
    and "distinct (map (fs_resolve (fs w) \<circ> stage_path) jobs)" and "run_stages h env jobs w = (w1, Inr ())"
  shows "\<forall>job \<in> set jobs. holds_complete h job (fs w1)"
  using assms(3-)
proof (induction jobs arbitrary: w)
  case (Cons job jobs)
  obtain w0 a0 r0 where s: "run_repeated_stage h env job w = (w0, a0, r0)" by (metis prod_cases3)
  then obtain m where m: "r0 = Inr m" and rest: "run_stages h env jobs w0 = (w1, Inr ())"
    using Cons.prems(3) by (cases r0) simp_all
  have c: "holds_complete h job (fs w0)"
    using stage_returned [OF codec _ s [unfolded m]] Cons.prems(1) by simp
  have k: "keeps env (stage_path job)" using Cons.prems(1) by simp
  have same: "fs_resolve (fs w0) = fs_resolve (fs w)"
    using framed_stage [OF q _ s] Cons.prems(1) by (simp add: framed_def)
  have "\<forall>j \<in> set jobs. fs_resolve (fs w0) (stage_path job) \<noteq> fs_resolve (fs w0) (stage_path j)"
    using Cons.prems(2) same by (auto simp: image_iff)
  from run_stages_framed [OF k this rest] have f: "framed (stage_path job) w0 w1" .
  have "holds_complete h job (fs w1)" using holds_complete_same [OF _ _ c] f by (simp add: framed_def)
  moreover have "\<forall>job \<in> set jobs. holds_complete h job (fs w1)"
    using Cons.IH [OF _ _ rest] Cons.prems same by simp
  ultimately show ?case by simp
qed simp

subsection \<open>What the stages of a run are\<close>

fun planned_counts :: "run_args \<Rightarrow> pystr \<Rightarrow> kind \<Rightarrow> int" where
  "planned_counts a name Warmups =
     (if name = u ''native-stats'' then 0
      else if name \<in> {u ''native-build'', u ''official-build''} then ra_build_warmups a else ra_search_warmups a)"
| "planned_counts a name Measurements =
     (if name = u ''native-stats'' then 1
      else if name \<in> {u ''native-build'', u ''official-build''} then ra_build_repetitions a else ra_search_repetitions a)"

definition stage_file :: "run_args \<Rightarrow> fsys \<Rightarrow> pystr \<Rightarrow> pystr" where
  "stage_file a d name = path_join (stages_dir a d) (name @ u ''.json'')"

text \<open>A job of the run: where its document is, how often it is measured, and that its inputs can be recorded.\<close>

definition planned_job :: "run_args \<Rightarrow> fsys \<Rightarrow> stage_job \<Rightarrow> bool" where
  "planned_job a d job \<longleftrightarrow> stage_path job = stage_file a d (sj_name job) \<and> json_plain (stage_inputs job)
     \<and> (\<forall>k. wanted job k = planned_counts a (sj_name job) k)"

definition facts_plain :: "run_facts \<Rightarrow> bool" where
  "facts_plain rf \<longleftrightarrow> json_plain (JObj (rf_shared rf)) \<and> json_plain (rf_tooling rf) \<and> json_plain (rf_model_sha rf)
     \<and> json_plain (rf_runtime rf) \<and> json_plain (JObj (rf_provenance rf))"

definition answers_plain :: "run_env \<Rightarrow> bool" where
  "answers_plain env \<longleftrightarrow> (\<forall>d p. json_plain (JObj (re_git env d p))) \<and> (\<forall>url. json_plain (JObj (re_endpoint env url)))
     \<and> (\<forall>p q v. re_runtime env p q = Inr v \<longrightarrow> json_plain v) \<and> json_plain (JObj (re_platform env))"

lemma plain_strings [simp]: "list_all json_plain (map JStr xs)" "list_all json_plain (map JInt ns)"
  by (simp_all add: list_all_iff)

lemma plain_protocol: "json_plain (stage_protocol job)"
  by (simp add: stage_protocol_def jobj_def)

lemma stage_job_planned:
  assumes "json_plain (JObj inputs)" and "\<And>k. (case k of Warmups \<Rightarrow> warmups | Measurements \<Rightarrow> repetitions) = planned_counts a name k"
  shows "planned_job a d (stage_of a d name inputs command artifacts cwd warmups repetitions)"
proof -
  let ?job = "stage_of a d name inputs command artifacts cwd warmups repetitions"
  have "json_plain (stage_inputs ?job)"
    unfolding stage_inputs_def
    by (rule plain_dict_set) (use assms(1) plain_protocol in \<open>simp_all add: stage_of_def del: json_plain.simps(2)\<close>)
  moreover have "wanted ?job k = planned_counts a name k" for k
    using assms(2) [of k] by (cases k) (simp_all add: stage_of_def)
  ultimately show ?thesis by (simp add: planned_job_def stage_of_def stage_path_def stage_file_def)
qed

lemma plain_native_inputs: "facts_plain rf \<Longrightarrow> json_plain (JObj (native_inputs a rf binary))"
  by (simp add: native_inputs_def facts_plain_def jobj_def server_context_def)

lemma plain_search_inputs:
  assumes "facts_plain rf"
  shows "json_plain (JObj (native_inputs a rf binary @ jobj [(''recall_k'', JArr (map JInt r)), (''ef_search'', JInt ef),
    (''ground_truth_k'', JInt k), (''command_template'', JArr (map JStr c))]))"
  using assms by (simp add: native_inputs_def facts_plain_def jobj_def server_context_def)

lemma plain_official_inputs:
  assumes "facts_plain rf" and "answers_plain env"
  shows "json_plain (JObj (official_inputs h a env d rf template))"
  using assms by (simp add: official_inputs_def facts_plain_def answers_plain_def jobj_def)

lemma search_counts: "planned_counts a (search_stage ef) k = (case k of Warmups \<Rightarrow> ra_search_warmups a | Measurements \<Rightarrow> ra_search_repetitions a)"
  using search_stage_other by (cases k) simp_all

text \<open>The jobs of the native stages, spelled out.\<close>

definition native_plain_job :: "run_args \<Rightarrow> run_env \<Rightarrow> fsys \<Rightarrow> run_facts \<Rightarrow> pystr \<Rightarrow> string \<Rightarrow> pystr list \<Rightarrow> int \<Rightarrow> int \<Rightarrow> stage_job" where
  "native_plain_job a env d rf binary name command warmups repetitions =
     stage_of a d (u name) (dict_set (native_inputs a rf binary) (u ''command'') (JArr (map JStr command))) (\<lambda>_ _. (command, None))
       (prefix_artifacts (re_listing env) (ra_native_index a) False) (tool_root env d) warmups repetitions"

definition native_search_job :: "tools \<Rightarrow> run_args \<Rightarrow> run_env \<Rightarrow> fsys \<Rightarrow> run_facts \<Rightarrow> pystr \<Rightarrow> int \<times> pystr list \<Rightarrow> stage_job" where
  "native_search_job t a env d rf binary search =
     (case search of (ef, command) \<Rightarrow> stage_of a d (search_stage ef)
        (native_inputs a rf binary @ jobj [(''recall_k'', JArr (map JInt (ra_recall_k a))), (''ef_search'', JInt ef),
           (''ground_truth_k'', JInt (ra_top_k a)), (''command_template'', JArr (map JStr (native_template (run_paths t env d) a command ef)))])
        (native_factory (run_paths t env d) a command ef) (prefix_artifacts (re_listing env) (ra_native_index a) False)
        (tool_root env d) (ra_search_warmups a) (ra_search_repetitions a))"

lemma native_jobs_form:
  assumes "native_jobs h t a env d rf = Inr jobs" and "\<not> ra_skip_native a"
  obtains build searches binary where "native_commands (run_paths t env d) a = Inr (build, searches)"
    and "jobs = [native_plain_job a env d rf binary ''native-build'' build (ra_build_warmups a) (ra_build_repetitions a),
        native_plain_job a env d rf binary ''native-stats''
          [fs_resolve d (ra_native_binary a), u ''stats'', u ''--index'', fs_resolve d (ra_native_index a)] 0 1]
      @ map (native_search_job t a env d rf binary) searches"
proof -
  from assms obtain p where p: "native_commands (run_paths t env d) a = Inr p" by (auto simp: native_jobs_def Let_def ok_simps)
  obtain build searches where b: "p = (build, searches)" by fastforce
  from assms p b obtain binary where "sha256_file h d (ra_native_binary a) 0 None = Inr binary"
    by (auto simp: native_jobs_def Let_def ok_simps)
  then show ?thesis using assms p b that [of build searches binary]
    by (simp add: native_jobs_def Let_def native_plain_job_def native_search_job_def [abs_def])
qed

lemma native_jobs_planned:
  assumes "native_jobs h t a env d rf = Inr jobs" and plain: "facts_plain rf"
  shows "\<forall>job \<in> set jobs. planned_job a d job"
proof (cases "ra_skip_native a")
  case False
  from native_jobs_form [OF assms(1) False] obtain build searches binary where
    jobs: "jobs = [native_plain_job a env d rf binary ''native-build'' build (ra_build_warmups a) (ra_build_repetitions a),
        native_plain_job a env d rf binary ''native-stats''
          [fs_resolve d (ra_native_binary a), u ''stats'', u ''--index'', fs_resolve d (ra_native_index a)] 0 1]
      @ map (native_search_job t a env d rf binary) searches" by metis
  have "json_plain (JObj (dict_set (native_inputs a rf binary) (u ''command'') (JArr (map JStr c))))" for c
    by (rule plain_dict_set [OF plain_native_inputs [OF plain]]) simp
  then have "planned_job a d (native_plain_job a env d rf binary name c w r)"
    if "\<And>k. (case k of Warmups \<Rightarrow> w | Measurements \<Rightarrow> r) = planned_counts a (u name) k" for name c w r
    unfolding native_plain_job_def using that by (intro stage_job_planned)
  moreover have "planned_job a d (native_search_job t a env d rf binary s)" for s
    unfolding native_search_job_def
    by (cases s) (simp only: prod.case, intro stage_job_planned plain_search_inputs plain, simp add: search_counts)
  ultimately show ?thesis unfolding jobs by (auto split: kind.split)
qed (use assms(1) in \<open>simp add: native_jobs_def\<close>)

lemma official_jobs_planned:
  assumes "facts_plain rf" and "answers_plain env"
  shows "\<forall>job \<in> set (official_jobs h t a env d rf). planned_job a d job"
proof -
  have "planned_counts a (official_search_stage a) k = (case k of Warmups \<Rightarrow> ra_search_warmups a | Measurements \<Rightarrow> ra_search_repetitions a)" for k
    by (cases k; cases "ra_mode a") (simp_all add: official_search_stage_def)
  then show ?thesis unfolding official_jobs_def Let_def
    by (auto intro!: stage_job_planned plain_official_inputs assms split: kind.split)
qed

lemma dec_int_inj [simp]: "dec_int i = dec_int j \<longleftrightarrow> i = j"
proof -
  have ne: "45 # s \<noteq> dec_nat n" for s n
  proof
    assume e: "45 # s = dec_nat n"
    have "45 \<in> set (dec_nat n)" by (simp flip: e)
    then show False using dec_nat_digits [of 45 n] by simp
  qed
  show ?thesis using ne ne [symmetric] by (auto simp: dec_int_def)
qed

lemma search_stage_eq [simp]: "search_stage e = search_stage f \<longleftrightarrow> e = f"
  by (simp add: search_stage_def)

lemma fold_dict_keys:
  "fst ` set (fold (\<lambda>k m. dict_set m k (f k)) ks m) = set ks \<union> fst ` set m
   \<and> (distinct (map fst m) \<longrightarrow> distinct (map fst (fold (\<lambda>k m. dict_set m k (f k)) ks m)))"
proof (induction ks arbitrary: m)
  case (Cons k ks)
  show ?case using Cons [of "dict_set m k (f k)"] by (auto simp: keys_dict_set)
qed simp

lemma native_job_names:
  assumes "native_jobs h t a env d rf = Inr jobs"
  shows "distinct (map sj_name jobs)
    \<and> sj_name ` set jobs = (if ra_skip_native a then {} else {u ''native-build'', u ''native-stats''} \<union> search_stage ` set (ra_efs a))"
proof (cases "ra_skip_native a")
  case False
  from native_jobs_form [OF assms False] obtain build searches binary where c: "native_commands (run_paths t env d) a = Inr (build, searches)"
    and j: "jobs = [native_plain_job a env d rf binary ''native-build'' build (ra_build_warmups a) (ra_build_repetitions a),
        native_plain_job a env d rf binary ''native-stats''
          [fs_resolve d (ra_native_binary a), u ''stats'', u ''--index'', fs_resolve d (ra_native_index a)] 0 1]
      @ map (native_search_job t a env d rf binary) searches" by metis
  have n: "map sj_name jobs = [u ''native-build'', u ''native-stats''] @ map search_stage (map fst searches)"
    by (simp add: j native_plain_job_def native_search_job_def stage_of_def case_prod_beta)
  have k: "fst ` set searches = set (ra_efs a)" "distinct (map fst searches)"
    using fold_dict_keys [where m = "[]" and ks = "ra_efs a"] c by (auto simp: native_commands_def ok_simps Let_def)
  have "distinct (map search_stage (map fst searches))" using k(2) by (subst distinct_map) (simp add: inj_on_def)
  moreover have e: "set (map search_stage (map fst searches)) = search_stage ` set (ra_efs a)" using k(1) by (simp only: set_map)
  moreover have "u ''native-build'' \<notin> search_stage ` A" "u ''native-stats'' \<notin> search_stage ` A" for A
    using search_stage_other by (auto dest: sym)
  ultimately have "distinct (map sj_name jobs) \<and> set (map sj_name jobs) = {u ''native-build'', u ''native-stats''} \<union> search_stage ` set (ra_efs a)"
    unfolding n distinct_append set_append e by simp
  then show ?thesis using False by simp
qed (use assms in \<open>simp add: native_jobs_def\<close>)

lemma official_job_names:
  "distinct (map sj_name (official_jobs h t a env d rf))"
  "sj_name ` set (official_jobs h t a env d rf) = (if ra_skip_official a then {} else {u ''official-build'', official_search_stage a})"
  by (cases "ra_mode a"; simp add: official_jobs_def stage_of_def official_search_stage_def Let_def)+

lemma job_names:
  assumes "native_jobs h t a env d rf = Inr jobs"
  shows "distinct (map sj_name (jobs @ official_jobs h t a env d' rf))"
    and "sj_name ` set (jobs @ official_jobs h t a env d' rf) = set (planned_stages a)"
proof -
  have "official_search_stage a \<notin> search_stage ` A" "u ''official-build'' \<notin> search_stage ` A" for A
    using search_stage_other by (cases "ra_mode a"; auto simp: official_search_stage_def dest: sym)+
  moreover have "official_search_stage a \<notin> {u ''native-build'', u ''native-stats''}"
    by (cases "ra_mode a") (simp_all add: official_search_stage_def)
  ultimately show "distinct (map sj_name (jobs @ official_jobs h t a env d' rf))"
    using native_job_names [OF assms] official_job_names [of h t a env d' rf] by auto
  show "sj_name ` set (jobs @ official_jobs h t a env d' rf) = set (planned_stages a)"
    using native_job_names [OF assms] official_job_names [of h t a env d' rf] by (auto simp: planned_stages_def image_Un)
qed

subsection \<open>What is recorded can be written as JSON\<close>

lemma plain_server [simp]: "json_plain (server_context a)"
  by (simp add: server_context_def jobj_def)

lemma plain_shared:
  assumes "codec_ok h" and "validate_shared_artifacts h np a d = Inr shared"
  shows "json_plain (JObj shared)"
proof -
  obtain documents queries cm corpus_sha qm query_sha truth model sidecar
    where s: "shared = shared_json documents queries cm corpus_sha qm query_sha truth model"
      and l: "load_json h d (sidecar_path (ra_corpus_cache a)) = Inr sidecar" and m: "json_item sidecar ''model'' = Inr model"
    using assms(2) unfolding validate_shared_artifacts_def by (auto simp: ok_simps split: prod.splits)
  obtain o1 where o1: "sidecar = JObj o1" "map_of o1 (u ''model'') = Some model"
    using m by (auto simp: json_item_def jidx_def split: json.splits option.splits)
  then have "model = jget o1 ''model''" by (simp add: jget_def)
  then have model: "json_plain model" using plain_item load_plain [OF assms(1) l] o1(1) by metis
  have "json_plain (JObj (cache_meta_json c))" for c by (cases "cm_source c") (auto simp: cache_meta_json_def jobj_def)
  then have "json_plain (JObj (dict_set (cache_meta_json c) k (JStr x)))" for c k x by (rule plain_dict_set) simp
  then show ?thesis unfolding s
    using model by (simp add: shared_json_def jobj_def source_json_def truth_json_def del: json_plain.simps(2))
      (simp add: jobj_def)
qed

lemma run_checks_plain:
  assumes codec: "codec_ok h" and env: "answers_plain env" and "run_checks h np t a env d = Inr rf"
  shows "facts_plain rf"
proof -
  obtain role shared model_sha runtime where v: "validate_shared_artifacts h np a d = Inr shared"
    and m: "check_native_model h a d shared = Inr model_sha" and r: "runtime = JNull \<or> re_runtime env (ra_python a) (ra_repo a) = Inr runtime"
    and rf: "rf = \<lparr>rf_role = role, rf_shared = shared, rf_tooling = JArr (map snapshot_json (run_tooling h a env d)),
      rf_model_sha = model_sha, rf_runtime = runtime,
      rf_provenance = run_provenance a env d (re_endpoint env (normalized_base_url (ra_embedding_url a)))
        (re_endpoint env (normalized_base_url (ra_proxy_url a))) (JArr (map snapshot_json (run_tooling h a env d))) runtime\<rparr>"
    using assms(3) by (auto simp: run_checks_def ok_simps Let_def split: if_splits)
  have runtime: "json_plain runtime" using r env by (auto simp: answers_plain_def)
  have tools: "json_plain (JArr (map snapshot_json ss))" for ss by (simp add: list_all_iff)
  have "json_plain model_sha" using m by (auto simp: check_native_model_def ok_simps split: if_splits)
  moreover have "json_plain (JObj (run_provenance a env d (re_endpoint env x) (re_endpoint env y) (JArr (map snapshot_json ss)) runtime))" for x y ss
    using env runtime tools [of ss] by (simp add: run_provenance_def jobj_def answers_plain_def)
  ultimately show ?thesis
    using plain_shared [OF codec v] runtime tools unfolding facts_plain_def rf run_facts.simps by blast
qed

lemma plain_run_protocol: "json_plain (JObj (run_protocol a role))"
  by (simp add: run_protocol_def jobj_def)

lemma plain_running: "facts_plain rf \<Longrightarrow> json_plain (JObj (running_manifest a d rf started))"
  using plain_run_protocol [of a "rf_role rf"] by (simp add: running_manifest_def jobj_def facts_plain_def)

subsection \<open>A complete manifest is never without its complete stages\<close>

definition run_files :: "run_args \<Rightarrow> fsys \<Rightarrow> pystr list" where
  "run_files a d = manifest_path a d # map (stage_file a d) (remdups (planned_stages a))"

text \<open>The document of a planned stage is complete, with all of its observations; the manifest says complete.\<close>

definition doc_complete :: "host \<Rightarrow> run_args \<Rightarrow> fsys \<Rightarrow> pystr \<Rightarrow> bool" where
  "doc_complete h a d name \<longleftrightarrow> (\<exists>m. load_json h d (stage_file a d name) = Inr (JObj m) \<and> is_complete m
     \<and> (\<forall>k. int (taken m k) = planned_counts a name k))"

definition manifest_complete :: "host \<Rightarrow> run_args \<Rightarrow> fsys \<Rightarrow> bool" where
  "manifest_complete h a d \<longleftrightarrow> (\<exists>m. load_json h d (manifest_path a d) = Inr (JObj m) \<and> is_complete m)"

definition run_env_ok :: "run_args \<Rightarrow> fsys \<Rightarrow> run_env \<Rightarrow> bool" where
  "run_env_ok a d env \<longleftrightarrow> answers_plain env \<and> (\<forall>q \<in> set (run_files a d). keeps (re_stage env) q)"

definition run_disk :: "host \<Rightarrow> run_args \<Rightarrow> fsys \<Rightarrow> fsys \<Rightarrow> bool" where
  "run_disk h a d0 d \<longleftrightarrow> codec_ok h \<and> fs_resolve d = fs_resolve d0 \<and> distinct (map (fs_resolve d0) (run_files a d0))
     \<and> (manifest_complete h a d \<longrightarrow> (\<forall>name \<in> set (planned_stages a). doc_complete h a d name))"

lemma same_paths:
  assumes "fs_resolve x = fs_resolve d"
  shows "manifest_path a x = manifest_path a d" "stage_file a x = stage_file a d" "run_files a x = run_files a d"
  using assms by (auto simp: manifest_path_def stage_file_def stages_dir_def run_files_def fun_eq_iff)

lemma doc_complete_job:
  assumes "planned_job a d job" and "fs_resolve x = fs_resolve d"
  shows "holds_complete h job x \<longleftrightarrow> doc_complete h a x (sj_name job)"
  using assms by (simp add: holds_complete_def doc_complete_def planned_job_def same_paths [OF assms(2)])

lemma orchestrate_kept:
  assumes disk: "run_disk h a d0 (fs w)" and env: "run_env_ok a d0 env" and run: "orchestrate h np t a env w = (w1, r)"
  shows "(\<forall>x \<in> visited w1. x \<in> visited w \<or> run_disk h a d0 x)
    \<and> (\<forall>m. r = Inr m \<longrightarrow> (\<forall>name \<in> set (planned_stages a). doc_complete h a (fs w1) name))"
proof (cases "run_checks h np t a env (fs w)")
  case (Inl e)
  then have "w1 = w \<and> r = Inl e" using run by (simp add: orchestrate_def)
  then show ?thesis by simp
next
  case (Inr rf)
  have codec: "codec_ok h" and res: "fs_resolve (fs w) = fs_resolve d0" and dist: "distinct (map (fs_resolve d0) (run_files a d0))"
    using disk by (simp_all add: run_disk_def)
  have keeps: "keeps (re_stage env) q" if "q \<in> set (run_files a d0)" for q using env that by (simp add: run_env_ok_def)
  have plain_env: "answers_plain env" using env by (simp add: run_env_ok_def)
  note rfp = run_checks_plain [OF codec plain_env Inr]
  let ?M = "manifest_path a d0"
  let ?started = "se_now (re_stage env) (length (past w))"
  let ?m0 = "running_manifest a (fs w) rf ?started"
  define wr where "wr = atomic_write_json h w (manifest_path a (fs w)) (JObj ?m0)"
  have wr: "fs wr = set_file (fs w) ?M (Some (document_bytes h ?m0))" "visited wr = insert (fs wr) (visited w)"
    by (simp_all add: wr_def atomic_write_json_def same_paths [OF res] document_bytes_def)
  have res_r: "fs_resolve (fs wr) = fs_resolve d0" using res by (simp add: wr(1))
  have running: "\<not> manifest_complete h a x" if "fs_resolve x = fs_resolve d0" "file_at x ?M = file_at (fs wr) ?M" for x
  proof -
    obtain n where n: "json_sorted (JObj ?m0) = JObj n" by simp
    have "file_at x ?M = Some (dumps_indent h (JObj ?m0) @ [10])" using that(2) by (simp add: wr(1) document_bytes_def)
    from load_json_of_file [OF codec plain_running [OF rfp] this] n have "load_json h x ?M = Inr (JObj n)" by simp
    moreover have "\<not> is_complete n"
      using jget_sorted [OF plain_running [OF rfp] n, of "''status''"] by (simp add: is_complete_def running_manifest_def)
    ultimately show ?thesis by (simp add: manifest_complete_def same_paths [OF that(1)])
  qed
  have quiet: "run_disk h a d0 x" if "fs_resolve x = fs_resolve d0" "file_at x ?M = file_at (fs wr) ?M" for x
    using running [OF that] that codec dist by (simp add: run_disk_def)
  have framed_ok: "\<forall>x \<in> visited w'. x \<in> visited w \<or> run_disk h a d0 x" if "framed ?M wr w'" for w'
    using that quiet [OF res_r refl] quiet res_r wr(2) unfolding framed_def by (metis insert_iff)
  note run1 = run [unfolded orchestrate_def Inr sum.case Let_def, folded wr_def]
  show ?thesis
  proof (cases "native_jobs h t a env (fs wr) rf")
    case (Inl e)
    then have "w1 = wr \<and> r = Inl e" using run1 by simp
    then show ?thesis using framed_ok [of wr] by simp
  next
    case (Inr native)
    note Inr' = Inr
    note nj = native_jobs_planned [OF Inr rfp]
    define official where "official d = official_jobs h t a env d rf" for d
    note oj = official_jobs_planned [OF rfp plain_env]
    have job_file: "stage_path j = stage_file a d0 (sj_name j) \<and> stage_path j \<in> set (run_files a d0)
        \<and> keeps (re_stage env) (stage_path j) \<and> json_plain (stage_inputs j)"
      if "j \<in> set (native @ official d)" "fs_resolve d = fs_resolve d0" for j d
    proof -
      have "planned_job a d0 j" using that nj oj [of h t a d] same_paths(2) [OF that(2)] same_paths(2) [OF res_r]
        by (auto simp: official_def planned_job_def)
      moreover have "sj_name j \<in> set (planned_stages a)" using job_names(2) [OF Inr, of d] that(1) by (force simp: official_def)
      ultimately show ?thesis using keeps by (auto simp: planned_job_def run_files_def)
    qed
    have ne: "fs_resolve d0 ?M \<noteq> fs_resolve d0 (stage_path j)" if "j \<in> set (native @ official d)" "fs_resolve d = fs_resolve d0" for j d
      using job_file [OF that] dist job_names(2) [OF Inr, of d] that(1) by (force simp: run_files_def official_def)
    have dj: "distinct (map (fs_resolve d0 \<circ> stage_path) (native @ official d))" if "fs_resolve d = fs_resolve d0" for d
    proof -
      have e: "map (fs_resolve d0 \<circ> stage_path) (native @ official d)
          = map (fs_resolve d0 \<circ> stage_file a d0) (map sj_name (native @ official d))"
        using job_file [OF _ that] by simp
      have "inj_on (fs_resolve d0 \<circ> stage_file a d0) (set (planned_stages a))"
        using dist by (simp add: run_files_def distinct_map comp_inj_on)
      then show ?thesis unfolding e using job_names [OF Inr, of d] by (simp only: distinct_map official_def set_map)
    qed
    have M: "keeps (re_stage env) ?M" by (rule keeps) (simp add: run_files_def)
    obtain w2 r2 where s1: "run_stages h (re_stage env) native wr = (w2, r2)" by fastforce
    have f2: "framed ?M wr w2" by (rule run_stages_framed [OF M _ s1]) (use ne [OF _ res_r] res_r in auto)
    show ?thesis
    proof (cases r2)
      case (Inl e)
      then have "w1 = w2 \<and> r = Inl e" using run1 \<open>native_jobs h t a env (fs wr) rf = Inr native\<close> s1 by simp
      then show ?thesis using framed_ok [OF f2] by simp
    next
      case (Inr u2)
      note r2 = Inr
      have res2: "fs_resolve (fs w2) = fs_resolve d0" using f2 res_r by (simp add: framed_def)
      obtain w3 r3 where s2: "run_stages h (re_stage env) (official (fs w2)) w2 = (w3, r3)" by fastforce
      have "framed ?M w2 w3" by (rule run_stages_framed [OF M _ s2]) (use ne [OF _ res2] res2 in auto)
      note f3 = framed_trans [OF f2 this]
      show ?thesis
      proof (cases r3)
        case (Inl e)
        then have "w1 = w3 \<and> r = Inl e"
          using run1 \<open>native_jobs h t a env (fs wr) rf = Inr native\<close> s1 s2 r2 by (simp add: official_def)
        then show ?thesis using framed_ok [OF f3] by simp
      next
        case (Inr u3)
        have res3: "fs_resolve (fs w3) = fs_resolve d0" using f3 res_r by (simp add: framed_def)
        have s1': "run_stages h (re_stage env) native wr = (w2, Inr ())" using s1 r2 by simp
        have s2': "run_stages h (re_stage env) (official (fs w2)) w2 = (w3, Inr ())" using s2 Inr by simp
        have jobs: "\<forall>j \<in> set (native @ official d). json_plain (stage_inputs j) \<and> keeps (re_stage env) (stage_path j)
            \<and> fs_resolve d0 ?M \<noteq> fs_resolve d0 (stage_path j)" if "fs_resolve d = fs_resolve d0" for d
          using job_file [OF _ that] ne [OF _ that] by blast
        have nat2: "\<forall>j \<in> set native. holds_complete h j (fs w2)"
          by (rule run_stages_complete [OF codec M _ _ s1']) (use jobs [OF res_r] dj [OF res_r] in \<open>simp_all add: res_r\<close>)
        have off3: "\<forall>j \<in> set (official (fs w2)). holds_complete h j (fs w3)"
          by (rule run_stages_complete [OF codec M _ _ s2']) (use jobs [OF res2] dj [OF res2] in \<open>simp_all add: res2\<close>)
        have "holds_complete h j (fs w3)" if "j \<in> set native" for j
        proof -
          have k: "keeps (re_stage env) (stage_path j)" using jobs [OF res2] that by simp
          have "\<forall>i \<in> set (official (fs w2)). fs_resolve d0 (stage_path j) \<noteq> fs_resolve d0 (stage_path i)"
            using dj [OF res2] that unfolding map_append distinct_append by force
          then have "framed (stage_path j) w2 w3" by (intro run_stages_framed [OF k _ s2]) (simp add: res2)
          then show ?thesis using nat2 that holds_complete_same [of "fs w3" "fs w2" j h] by (simp add: framed_def)
        qed
        then have all3: "\<forall>j \<in> set (native @ official (fs w2)). holds_complete h j (fs w3)" using off3 by auto
        let ?m = "complete_manifest a (fs w3) rf ?started (se_now (re_stage env) (length (past w3)))
          (map sj_name (native @ official (fs w2)))"
        have w1: "w1 = atomic_write_json h w3 (manifest_path a (fs w3)) (JObj ?m)"
          using run1 \<open>native_jobs h t a env (fs wr) rf = Inr native\<close> s1 s2 r2 Inr by (simp add: official_def)
        then have fs1: "fs w1 = set_file (fs w3) ?M (Some (document_bytes h ?m))" and v1: "visited w1 = insert (fs w1) (visited w3)"
          by (simp_all add: atomic_write_json_def document_bytes_def same_paths [OF res3])
        have res1: "fs_resolve (fs w1) = fs_resolve d0" by (simp add: fs1 res3)
        have docs: "doc_complete h a (fs w1) name" if "name \<in> set (planned_stages a)" for name
        proof -
          have "name \<in> sj_name ` set (native @ official (fs w2))" using that job_names(2) [OF Inr', of "fs w2"] by (simp only: official_def)
          then obtain j where j: "j \<in> set (native @ official (fs w2))" "sj_name j = name" by blast
          have "holds_complete h j (fs w1)"
            by (rule holds_complete_same [OF _ _ bspec [OF all3 j(1)]]) (use ne [OF j(1) res2] res3 in \<open>auto simp: fs1\<close>)
          moreover have "planned_job a (fs w1) j"
            using nj oj [of h t a "fs w2"] j(1) same_paths(2) [OF res1] same_paths(2) [OF res_r] same_paths(2) [OF res2]
            by (auto simp: planned_job_def official_def)
          ultimately show ?thesis using doc_complete_job [of a "fs w1" j "fs w1" h] j(2) by simp
        qed
        then have "run_disk h a d0 (fs w1)" using codec res1 dist by (simp add: run_disk_def)
        then show ?thesis using framed_ok [OF f3] docs v1 by auto
      qed
    qed
  qed
qed

interpretation orchestration: crashing "\<lambda>env d. orchestrate h np t a env (boot d)" "run_env_ok a d0" "run_disk h a d0"
  for h np t a d0
proof
  fix env d d'
  assume "run_env_ok a d0 env" "run_disk h a d0 d" "d' \<in> visited (fst (orchestrate h np t a env (boot d)))"
  moreover obtain w r where "orchestrate h np t a env (boot d) = (w, r)" by fastforce
  ultimately show "run_disk h a d0 d'"
    using orchestrate_kept [of h a d0 "boot d" env np t w r] by auto
qed


subsection \<open>The recorded templates are the commands\<close>

lemma strings_of_map [simp]: "strings_of (map JStr xs) = Some xs"
  by (induction xs) simp_all

lemma expected_of_template:
  assumes "map_of inputs (u ''command_template'') = Some (JArr (map JStr args))" and "args \<noteq> []"
  shows "expected_observation_command (dict_set inputs (u ''execution_protocol'') v) kind n = Inr (map (expand kind (dec_nat n)) args)"
  using assms by (simp add: expected_observation_command_def jhas_def jget_def [of inputs] sequence_def)

lemma expected_of_command:
  assumes "map_of inputs (u ''command_template'') = None" and "map_of inputs (u ''command'') = Some (JArr (map JStr args))" and "args \<noteq> []"
    and "\<forall>s \<in> set args. 123 \<notin> set s"
  shows "expected_observation_command (dict_set inputs (u ''execution_protocol'') v) kind n = Inr args"
proof -
  have "map (expand kind (dec_nat n)) args = args" using assms(4) by (intro map_idI) (simp add: expand_plain)
  then show ?thesis using assms by (simp add: expected_observation_command_def jhas_def jget_def [of inputs] sequence_def)
qed

text \<open>What the collector expects of a job is what the job runs.\<close>

definition command_expected :: "stage_job \<Rightarrow> bool" where
  "command_expected job \<longleftrightarrow> (\<forall>kind n. \<exists>inputs. stage_inputs job = JObj inputs
     \<and> expected_observation_command inputs (u (kind_key kind)) n = Inr (fst (sj_command job kind n)))"

text \<open>No argument of a command has a brace.\<close>

definition brace_free :: "stage_job \<Rightarrow> bool" where
  "brace_free job \<longleftrightarrow> (\<forall>kind n. \<forall>s \<in> set (fst (sj_command job kind n)). 123 \<notin> set s)"

text \<open>Files of the results directory are no symbolic links: they resolve to themselves.\<close>

definition results_plain :: "path_tools \<Rightarrow> run_args \<Rightarrow> bool" where
  "results_plain pt a \<longleftrightarrow> (\<forall>name. pa_resolve pt (path_join (results_dir pt a) name) = path_join (results_dir pt a) name)"

lemma kind_braces: "123 \<notin> set (u (kind_key kind))"
  by (cases kind) (simp_all add: u_def)

lemma dec_braces: "123 \<notin> set (dec_nat n)"
  using dec_nat_digits [of 123 n] by auto

lemma expand_result:
  assumes "123 \<notin> set dir" and "123 \<notin> set start" and "123 \<notin> set tail"
  shows "expand (u (kind_key kind)) (dec_nat n) (path_join dir (start @ u ''{kind}'' @ u ''-'' @ u ''{ordinal}'' @ tail))
    = path_join dir (start @ u (kind_key kind) @ u ''-'' @ dec_nat n @ tail)"
  using expand_template [of "dir @ 47 # start" "u ''-''" tail "u (kind_key kind)" "dec_nat n"] assms kind_braces
  by (simp add: path_join_def u_def [of "''-''"] del: u_append)

lemma native_expected:
  assumes res: "results_plain pt a" and free: "\<forall>kind n. \<forall>s \<in> set (fst (native_factory pt a command ef kind n)). 123 \<notin> set s"
  shows "map (expand (u (kind_key kind)) (dec_nat n)) (native_template pt a command ef) = fst (native_factory pt a command ef kind n)"
proof -
  have "123 \<notin> set (native_result pt a ef (u (kind_key kind)) (dec_nat n))"
    using free [rule_format, of "native_result pt a ef (u (kind_key kind)) (dec_nat n)" kind n] res
    by (simp add: native_factory_def Let_def native_result_def results_plain_def)
  then have no: "123 \<notin> set (results_dir pt a)" "123 \<notin> set (search_stage ef)"
    by (simp_all add: native_result_def path_join_def)
  have plain: "\<forall>s \<in> set (command @ [u ''--raw-latencies'']). 123 \<notin> set s"
    using free [rule_format, of _ kind n] by (auto simp: native_factory_def Let_def)
  then have "map (expand (u (kind_key kind)) (dec_nat n)) (command @ [u ''--raw-latencies'']) = command @ [u ''--raw-latencies'']"
    by (intro map_idI expand_plain) blast
  moreover have "expand (u (kind_key kind)) (dec_nat n) (native_result pt a ef (u ''{kind}'') (u ''{ordinal}''))
      = native_result pt a ef (u (kind_key kind)) (dec_nat n)"
    using expand_result [OF no(1), of "search_stage ef @ u ''-''" "u ''.csv''" kind n] no(2)
    by (simp add: native_result_def u_def [of "''-''"] u_def [of "''.csv''"] del: u_append)
  ultimately show ?thesis using res
    by (simp add: native_template_def native_factory_def Let_def results_plain_def native_result_def)
qed

lemma official_expected:
  assumes res: "results_plain pt a" and free: "\<forall>kind n. \<forall>s \<in> set (fst (official_factory pt a mode label kind n)). 123 \<notin> set s"
  shows "map (expand (u (kind_key kind)) (dec_nat n)) (official_template pt a mode label) = fst (official_factory pt a mode label kind n)"
proof -
  define front rest where "front = official_front pt a mode" and "rest = official_rest pt a"
  then have c: "official_command pt a mode out = front @ pa_resolve pt out # rest" for out
    by (simp add: official_command_def)
  let ?out = "official_result pt a label (u (kind_key kind)) (dec_nat n)"
  have f: "123 \<notin> set s" if "s \<in> set (front @ ?out # rest)" for s
    using free [rule_format, of s kind n] that res
    by (simp add: official_factory_def Let_def c official_result_def results_plain_def)
  have no: "123 \<notin> set (results_dir pt a)" "123 \<notin> set (u label)"
    using f [of ?out] by (simp_all add: official_result_def path_join_def del: u_append)
  have start: "123 \<notin> set (u ''official-'' @ u label @ u ''-'')" using no(2) by (simp add: u_def)
  have tail: "123 \<notin> set (u ''.json'')" by (simp add: u_def)
  have "expand (u (kind_key kind)) (dec_nat n) (official_result pt a label (u ''{kind}'') (u ''{ordinal}'')) = ?out"
    using expand_result [OF no(1) start tail, of kind n] by (simp add: official_result_def del: u_append)
  moreover have "map (expand (u (kind_key kind)) (dec_nat n)) front = front" "map (expand (u (kind_key kind)) (dec_nat n)) rest = rest"
    using f by (simp_all add: map_idI expand_plain)
  ultimately show ?thesis using res
    by (simp add: official_template_def official_factory_def Let_def c results_plain_def official_result_def)
qed


subsection \<open>Sample runs\<close>


definition sample_env :: run_env where
  "sample_env = \<lparr>re_stage = quiet_env, re_git = (\<lambda>_ _. []), re_endpoint = (\<lambda>_. []), re_runtime = (\<lambda>_ _. Inr JNull),
     re_platform = [], re_script = u ''scripts/run.py'', re_abspath = id, re_listing = (\<lambda>_ _. [])\<rparr>"

definition sample_facts :: run_facts where
  "sample_facts = \<lparr>rf_role = u ''native-sweep+official-cached-sweep'', rf_shared = [], rf_tooling = JArr [], rf_model_sha = JNull,
     rf_runtime = JNull, rf_provenance = []\<rparr>"

definition sample_pt :: path_tools where
  "sample_pt = \<lparr>pa_resolve = id, pa_abspath = id, pa_str = (\<lambda>_. [])\<rparr>"

lemma sample_run_paths: "run_paths sample_tools sample_env empty_files = sample_pt"
  by (simp add: run_paths_def sample_pt_def sample_env_def sample_tools_def empty_files_def py_str_def id_def)

lemma u_braces: "123 \<in> set (u s) \<longleftrightarrow> CHR ''{'' \<in> set s"
proof -
  have "(of_char CHR ''{'' :: nat) \<in> of_char ` set s \<longleftrightarrow> CHR ''{'' \<in> set s"
    by (rule inj_image_mem_iff) (simp add: inj_def)
  then show ?thesis by (simp add: u_def)
qed

lemma sample_brace_free:
  "\<forall>kind n. \<forall>s \<in> set (fst (native_factory sample_pt sample_args
      (native_search_command sample_pt sample_args (u ''model'') [u ''--report-k'', dec_int 3] ef)
      ef kind n)). 123 \<notin> set s"
  "\<forall>kind n. \<forall>s \<in> set (fst (official_factory sample_pt sample_args ''build'' ''build'' kind n)). 123 \<notin> set s"
  "\<forall>kind n. \<forall>s \<in> set (fst (official_factory sample_pt sample_args ''benchmark'' ''search'' kind n)). 123 \<notin> set s"
proof -
  have i: "123 \<notin> set (dec_int k)" for k using dec_braces by (simp add: dec_int_def)
  note defs = Let_def native_factory_def native_result_def results_dir_def path_join_def search_stage_def native_search_command_def
    native_common_def official_factory_def official_result_def official_command_def official_front_def official_rest_def
  show "\<forall>kind n. \<forall>s \<in> set (fst (native_factory sample_pt sample_args
      (native_search_command sample_pt sample_args (u ''model'') [u ''--report-k'', dec_int 3] ef)
      ef kind n)). 123 \<notin> set s"
    using i dec_braces kind_braces by (simp add: defs sample_pt_def u_braces del: u_append)
  show "\<forall>kind n. \<forall>s \<in> set (fst (official_factory sample_pt sample_args ''build'' ''build'' kind n)). 123 \<notin> set s"
    using i dec_braces kind_braces by (simp add: defs sample_pt_def u_braces del: u_append)
  show "\<forall>kind n. \<forall>s \<in> set (fst (official_factory sample_pt sample_args ''benchmark'' ''search'' kind n)). 123 \<notin> set s"
    using i dec_braces kind_braces by (simp add: defs sample_pt_def u_braces del: u_append)
qed


end
