(* ===== verification/Points.thy ===== *)
theory Points
  imports Evidence Csv
begin

text \<open>
  The two kinds of raw search measurements that \<open>collect_large_scale_results.py\<close> accepts: the per-query CSV of
  the native client (\<open>_read_native_csv\<close>, with the CSV reader of the interpreter in its default dialect) and a
  point of the official comparison (\<open>_validate_official_point\<close>). A row of the exact neighbours is the list of
  its identifiers. The lemmas show that every accepted recall is the one the ranked identifiers and the exact
  neighbours give.
\<close>

subsection \<open>The native CSV\<close>

definition recall_key :: "nat \<Rightarrow> pystr" where
  "recall_key cutoff = u ''recall_at_'' @ dec_nat cutoff"

definition counter_names :: "pystr list" where
  "counter_names = [u ''exact_recomputations'', u ''approximate_distances'', u ''upper_layer_hops'', u ''embedding_batches'']"

definition required_columns :: "nat list \<Rightarrow> nat \<Rightarrow> pystr list" where
  "required_columns cutoffs top_k =
     [u ''query_index'', u ''recall'', u ''latency_ms''] @ counter_names @ [u ''result_ids'']
       @ map recall_key (filter (\<lambda>c. c \<noteq> top_k) cutoffs)"

text \<open>\<open>0|[1-9][0-9]*\<close>.\<close>

definition canonical_decimal :: "pystr \<Rightarrow> bool" where
  "canonical_decimal s \<longleftrightarrow> s = [48] \<or> (s \<noteq> [] \<and> hd s \<noteq> 48 \<and> list_all (\<lambda>c. 48 \<le> c \<and> c \<le> 57) s)"

definition decimal_int :: "pystr \<Rightarrow> int res" where
  "decimal_int s = (case py_int s of None \<Rightarrow> Inl (ValueError ''int'') | Some i \<Rightarrow> Inr i)"

definition row_value :: "csv_row \<Rightarrow> pystr \<Rightarrow> pystr option" where
  "row_value row k = (case map_of row k of Some (Some v) \<Rightarrow> Some v | _ \<Rightarrow> None)"

definition row_labels :: "int \<Rightarrow> nat \<Rightarrow> csv_row \<Rightarrow> int list res" where
  "row_labels corpus_count top_k row =
     (case row_value row (u ''result_ids'') of
        None \<Rightarrow> Inl (CollectionError ''result_ids are not canonical'')
      | Some raw \<Rightarrow>
          if \<not> list_all canonical_decimal (split_on 32 raw) then Inl (CollectionError ''result_ids are not canonical'')
          else and_then (map_res decimal_int (split_on 32 raw)) (\<lambda>labels.
            and_then (require (length labels = top_k) (CollectionError ''result_ids contain the wrong number of IDs'')) (\<lambda>_.
            and_then (require (distinct labels) (CollectionError ''result_ids contain duplicates'')) (\<lambda>_.
            and_then (require (list_all (\<lambda>l. l < corpus_count) labels) (CollectionError ''result_ids are outside the corpus'')) (\<lambda>_.
            Inr labels)))))"

definition row_counter :: "csv_row \<Rightarrow> pystr \<Rightarrow> int res" where
  "row_counter row name =
     (case row_value row name of
        None \<Rightarrow> Inl (CollectionError ''counter must be a canonical nonnegative integer'')
      | Some raw \<Rightarrow>
          if canonical_decimal raw then decimal_int raw
          else Inl (CollectionError ''counter must be a canonical nonnegative integer''))"

text \<open>The metrics that are read as floats, with their columns.\<close>

definition value_columns :: "nat list \<Rightarrow> nat \<Rightarrow> (pystr \<times> pystr) list" where
  "value_columns cutoffs top_k =
     fold (\<lambda>c m. dict_set m (recall_key c) (if c = top_k then u ''recall'' else recall_key c)) cutoffs
       [(u ''latency_ms'', u ''latency_ms'')]"

definition row_metric :: "csv_row \<Rightarrow> pystr \<times> pystr \<Rightarrow> (pystr \<times> pyfloat) res" where
  "row_metric row mc =
     (case mc of (metric, column) \<Rightarrow>
      case (case row_value row column of None \<Rightarrow> None | Some s \<Rightarrow> py_float s) of
        None \<Rightarrow> Inl (CollectionError ''invalid value'')
      | Some v \<Rightarrow>
          and_then (require (fl_isfinite v) (CollectionError ''non-finite value'')) (\<lambda>_.
          and_then (require (metric = u ''latency_ms'' \<longrightarrow> \<not> fl_lt v (Fin 0)) (CollectionError ''negative latency'')) (\<lambda>_.
          and_then (require (startswith metric (u ''recall_at_'') \<longrightarrow> fl_le (Fin 0) v \<and> fl_le v (Fin 1))
            (CollectionError ''recall outside [0,1]'')) (\<lambda>_.
          Inr (metric, v)))))"

text \<open>\<open>len(set(labels[:k]) & set(truth[:k]))\<close>.\<close>

definition hits :: "int list \<Rightarrow> int list \<Rightarrow> nat \<Rightarrow> nat" where
  "hits labels truth_row cutoff = card (set (take cutoff labels) \<inter> set (take cutoff truth_row))"

definition check_recall :: "int list \<Rightarrow> int list \<Rightarrow> (pystr \<times> pyfloat) list \<Rightarrow> nat \<Rightarrow> unit res" where
  "check_recall labels truth_row vals cutoff =
     and_then (int_true_div (int (hits labels truth_row cutoff)) (int cutoff)) (\<lambda>expected.
     case map_of vals (recall_key cutoff) of
       None \<Rightarrow> Inl (IndexError ''list index out of range'')
     | Some actual \<Rightarrow> require (close actual expected) (CollectionError ''native recall does not match result IDs/truth''))"

record native_row =
  nr_labels :: "int list"
  nr_counters :: "int list"
  nr_values :: "(pystr \<times> pyfloat) list"

definition row_index :: "nat \<Rightarrow> csv_row \<Rightarrow> unit res" where
  "row_index expected row =
     (case (case row_value row (u ''query_index'') of None \<Rightarrow> None | Some s \<Rightarrow> py_int s) of
        None \<Rightarrow> Inl (CollectionError ''invalid query_index'')
      | Some observed \<Rightarrow> require (observed = int expected) (CollectionError ''query indices must be exactly 0..''))"

definition read_native_row ::
  "int \<Rightarrow> nat list \<Rightarrow> nat \<Rightarrow> int list list \<Rightarrow> nat \<times> csv_row \<Rightarrow> native_row res" where
  "read_native_row corpus_count cutoffs top_k truth ir =
     (case ir of (i, row) \<Rightarrow>
      and_then (row_index i row) (\<lambda>_.
      and_then (row_labels corpus_count top_k row) (\<lambda>labels.
      and_then (map_res (row_counter row) counter_names) (\<lambda>counters.
      and_then (map_res (row_metric row) (value_columns cutoffs top_k)) (\<lambda>vals.
      if length truth \<le> i then Inl (IndexError ''index is out of bounds'')
      else and_then (map_res (check_recall labels (truth ! i) vals) cutoffs) (\<lambda>_.
      Inr \<lparr>nr_labels = labels, nr_counters = counters, nr_values = vals\<rparr>))))))"

text \<open>The per-query series of a metric and of a counter.\<close>

definition metric_series :: "native_row list \<Rightarrow> pystr \<Rightarrow> pyfloat list" where
  "metric_series rows metric = map (\<lambda>r. case map_of (nr_values r) metric of Some v \<Rightarrow> v | None \<Rightarrow> NaN) rows"

definition counter_series :: "native_row list \<Rightarrow> nat \<Rightarrow> pyfloat list" where
  "counter_series rows k = map (\<lambda>r. rnd64 (of_int (nr_counters r ! k))) rows"

definition native_summaries :: "tools \<Rightarrow> nat list \<Rightarrow> native_row list \<Rightarrow> (pystr \<times> pyfloat) list res" where
  "native_summaries t cutoffs rows =
     and_then (nearest_rank (metric_series rows (u ''latency_ms'')) (fl_lit 50 2)) (\<lambda>p50.
     and_then (nearest_rank (metric_series rows (u ''latency_ms'')) (fl_lit 95 2)) (\<lambda>p95.
     Inr (fold (\<lambda>c m. dict_set m (recall_key c) (tl_mean t (metric_series rows (recall_key c)))) cutoffs
       [(u ''latency_ms_mean'', tl_mean t (metric_series rows (u ''latency_ms''))),
        (u ''latency_ms_p50'', p50), (u ''latency_ms_p95'', p95),
        (u ''exact_recomputations_mean'', tl_mean t (counter_series rows 0)),
        (u ''approximate_distances_mean'', tl_mean t (counter_series rows 1)),
        (u ''upper_layer_hops_mean'', tl_mean t (counter_series rows 2))])))"

definition item :: "jobj \<Rightarrow> pystr \<Rightarrow> json" where
  "item m k = (case map_of m k of None \<Rightarrow> JNull | Some v \<Rightarrow> v)"

definition check_summary :: "jobj \<Rightarrow> pystr \<times> pyfloat \<Rightarrow> unit res" where
  "check_summary parsed ke =
     and_then (number (item parsed (fst ke))) (\<lambda>actual.
     require (close actual (snd ke)) (CollectionError ''parsed stdout does not match raw data''))"

definition ids_json :: "int list list \<Rightarrow> json" where
  "ids_json ids = JArr (map (\<lambda>labels. JArr (map JInt labels)) ids)"

record native_point =
  np_rows :: "native_row list"
  np_ids_sha :: pystr

definition read_native_csv ::
  "tools \<Rightarrow> fsys \<Rightarrow> pystr \<Rightarrow> nat \<Rightarrow> int \<Rightarrow> nat list \<Rightarrow> nat \<Rightarrow> int list list \<Rightarrow> jobj \<Rightarrow> native_point res" where
  "read_native_csv t d path query_count corpus_count cutoffs top_k truth parsed =
     and_then (read_csv d path) (\<lambda>(names, rows).
     and_then (require (set (required_columns cutoffs top_k) \<subseteq> set names) (CollectionError ''raw CSV missing columns'')) (\<lambda>_.
     and_then (require (length rows = query_count) (CollectionError ''raw CSV has the wrong number of rows'')) (\<lambda>_.
     and_then (map_res (read_native_row corpus_count cutoffs top_k truth) (enumerate 0 rows)) (\<lambda>points.
     and_then (native_summaries t cutoffs points) (\<lambda>expected.
     and_then (require (py_eq (jget parsed ''queries'') (JInt (int query_count)))
        (CollectionError ''parsed stdout query count does not match raw CSV'')) (\<lambda>_.
     and_then (map_res (check_summary parsed) expected) (\<lambda>_.
     and_then (collector_hash t (ids_json (map nr_labels points))) (\<lambda>sha.
     Inr \<lparr>np_rows = points, np_ids_sha = sha\<rparr>))))))))"

subsection \<open>A point of the official comparison\<close>

text \<open>\<open>min\<close> and \<open>max\<close> of a list of finite numbers.\<close>

definition fl_min :: "pyfloat list \<Rightarrow> pyfloat" where
  "fl_min vals = hd (sort_key fin_val vals)"

definition fl_max :: "pyfloat list \<Rightarrow> pyfloat" where
  "fl_max vals = last (sort_key fin_val vals)"

definition latency_summaries :: "tools \<Rightarrow> pyfloat list \<Rightarrow> (string \<times> pyfloat) list res" where
  "latency_summaries t raw =
     and_then (linear_percentile t raw (fl_lit 50 2)) (\<lambda>p50.
     and_then (linear_percentile t raw (fl_lit 95 2)) (\<lambda>p95.
     Inr [(''mean'', tl_mean t raw), (''p50'', p50), (''p95'', p95), (''min'', fl_min raw), (''max'', fl_max raw)]))"

definition check_latency :: "jobj \<Rightarrow> string \<times> pyfloat \<Rightarrow> unit res" where
  "check_latency latency ke =
     and_then (number (jget latency (fst ke))) (\<lambda>actual.
     require (close actual (snd ke)) (CollectionError ''latency does not match raw''))"

definition official_latency :: "tools \<Rightarrow> jobj \<Rightarrow> int \<Rightarrow> pyfloat list res" where
  "official_latency t point query_count =
     and_then (mapping (jget point ''latency_ms'')) (\<lambda>latency.
     and_then (sequence (jget latency ''raw_per_query'')) (\<lambda>vals.
     and_then (map_res number vals) (\<lambda>raw.
     and_then (require (int (length raw) = query_count) (CollectionError ''raw latency count differs'')) (\<lambda>_.
     and_then (require (\<not> list_ex (\<lambda>v. fl_lt v (Fin 0)) raw) (CollectionError ''raw latency contains a negative value'')) (\<lambda>_.
     and_then (latency_summaries t raw) (\<lambda>expected.
     and_then (map_res (check_latency latency) expected) (\<lambda>_.
     Inr raw)))))))"

fun label_of :: "json \<Rightarrow> int option" where
  "label_of (JInt i) = Some i"
| "label_of _ = None"

text \<open>One row of result identifiers: \<open>top_k\<close> distinct integers in range.\<close>

definition official_labels :: "int \<Rightarrow> int \<Rightarrow> json \<Rightarrow> int list res" where
  "official_labels corpus_count top_k v =
     and_then (sequence v) (\<lambda>labels.
     if int (length labels) \<noteq> top_k \<or> \<not> list_all (\<lambda>l. case label_of l of None \<Rightarrow> False | Some i \<Rightarrow> 0 \<le> i \<and> i < corpus_count) labels
       then Inl (CollectionError ''result row must contain exactly the in-range integer IDs'')
     else let ids = map (\<lambda>l. the (label_of l)) labels in
       if distinct ids then Inr ids else Inl (CollectionError ''result row contains duplicate IDs''))"

definition truth_row_at :: "int list list \<Rightarrow> int list \<Rightarrow> nat \<Rightarrow> int list res" where
  "truth_row_at truth query_indices i =
     (if length query_indices \<le> i then Inl (IndexError ''list index out of range'')
      else let q = query_indices ! i; j = (if q < 0 then q + int (length truth) else q) in
        if 0 \<le> j \<and> j < int (length truth) then Inr (truth ! nat j) else Inl (IndexError ''index is out of bounds''))"

definition official_rows ::
  "int \<Rightarrow> int \<Rightarrow> int list list \<Rightarrow> int list \<Rightarrow> json list \<Rightarrow> (int list \<times> int list) list res" where
  "official_rows corpus_count top_k truth query_indices result_ids =
     map_res (\<lambda>(i, v). and_then (official_labels corpus_count top_k v) (\<lambda>labels.
        and_then (truth_row_at truth query_indices i) (\<lambda>row. Inr (labels, row)))) (enumerate 0 result_ids)"

definition recall_sum :: "(int list \<times> int list) list \<Rightarrow> nat \<Rightarrow> nat" where
  "recall_sum rows cutoff = sum_list (map (\<lambda>(labels, truth_row). hits labels truth_row cutoff) rows)"

text \<open>A cutoff that is listed twice is counted twice, as \<open>recall_sums[cutoff] += ...\<close> does.\<close>

definition official_recall ::
  "jobj \<Rightarrow> int \<Rightarrow> (int list \<times> int list) list \<Rightarrow> nat list \<Rightarrow> nat \<Rightarrow> (pystr \<times> pyfloat) res" where
  "official_recall point query_count rows report_ks cutoff =
     and_then (int_true_div (int (count_list report_ks cutoff * recall_sum rows cutoff)) (query_count * int cutoff)) (\<lambda>expected.
     and_then (number (item point (recall_key cutoff))) (\<lambda>actual.
     and_then (require (close actual expected) (CollectionError ''recall does not match IDs/truth'')) (\<lambda>_.
     Inr (recall_key cutoff, actual))))"

text \<open>The counters of the endpoint agree with those of the point; \<open>int(v)\<close> of the error counters may raise.\<close>

definition no_errors :: "jobj \<Rightarrow> string \<Rightarrow> bool res" where
  "no_errors proxy k =
     (case map_of proxy (u k) of None \<Rightarrow> Inr True | Some v \<Rightarrow> and_then (int_of_json v) (\<lambda>i. Inr (i = 0)))"

definition endpoint_errors :: "jobj \<Rightarrow> unit res" where
  "endpoint_errors proxy =
     and_then (no_errors proxy ''http_errors'') (\<lambda>http.
     if \<not> http then Inl (CollectionError ''endpoint reported recompute errors'')
     else and_then (no_errors proxy ''network_errors'') (\<lambda>network.
       require network (CollectionError ''endpoint reported recompute errors'')))"

definition cached_identity :: "dataset \<Rightarrow> (string \<times> json) list" where
  "cached_identity ds =
     [(''cache_sha256'', JStr (ds_corpus_cache_sha ds)), (''source_sha256'', JStr (ds_documents_sha ds)),
      (''fingerprint'', JStr (ds_fingerprint ds)), (''dimensions'', JInt (ds_dimensions ds)),
      (''count'', JInt (ds_corpus_count ds)), (''model_sha256'', JStr (ds_model_sha ds))]"

definition check_cached_identity :: "jobj \<Rightarrow> dataset \<Rightarrow> unit res" where
  "check_cached_identity proxy ds =
     and_then (mapping (jget proxy ''cache_identity'')) (\<lambda>identity.
     require (list_all (\<lambda>(k, v). py_eq (jget identity k) v) (cached_identity ds))
       (CollectionError ''cached endpoint identity differs''))"

definition official_endpoint :: "jobj \<Rightarrow> pystr \<Rightarrow> dataset \<Rightarrow> int \<Rightarrow> int \<Rightarrow> unit res" where
  "official_endpoint point mode ds query_count embedded =
     and_then (mapping (jget point ''embedding_proxy_metrics'')) (\<lambda>proxy.
     and_then (require (py_eq (jget proxy ''mode'') (JStr (if mode = u ''cached'' then u ''cache'' else u ''proxy'')))
       (CollectionError ''endpoint mode differs'')) (\<lambda>_.
     and_then (require (py_eq (jget proxy ''inputs'') (JInt embedded)) (CollectionError ''endpoint input count differs'')) (\<lambda>_.
     and_then (integer (jget point ''candidate_embedding_requests'') 1) (\<lambda>requests.
     and_then (require (py_eq (jget proxy ''requests'') (JInt requests)) (CollectionError ''endpoint request count differs'')) (\<lambda>_.
     and_then (endpoint_errors proxy) (\<lambda>_.
     if mode = u ''cached'' then check_cached_identity proxy ds else Inr ()))))))"

record official_point =
  op_complexity :: int
  op_batch_size :: int
  op_latency :: "pyfloat list"
  op_rows :: "(int list \<times> int list) list"
  op_recalls :: "(pystr \<times> pyfloat) list"
  op_candidates :: pyfloat
  op_ids_sha :: pystr

definition official_candidates :: "jobj \<Rightarrow> int \<Rightarrow> (int \<times> pyfloat) res" where
  "official_candidates point query_count =
     and_then (integer (jget point ''candidate_embeddings_total'') 1) (\<lambda>embedded.
     and_then (number (jget point ''candidate_embeddings_mean_per_query'')) (\<lambda>mean.
     and_then (int_true_div embedded query_count) (\<lambda>expected.
     and_then (require (close mean expected) (CollectionError ''candidate embedding mean differs'')) (\<lambda>_.
     Inr (embedded, mean)))))"

definition validate_official_point ::
  "tools \<Rightarrow> jobj \<Rightarrow> pystr \<Rightarrow> dataset \<Rightarrow> int \<Rightarrow> nat list \<Rightarrow> int list list \<Rightarrow> int list \<Rightarrow> int \<Rightarrow> official_point res" where
  "validate_official_point t point mode ds query_count report_ks truth query_indices top_k =
     and_then (integer (jget point ''complexity'') 1) (\<lambda>complexity.
     and_then (integer (jget point ''batch_size'') 0) (\<lambda>batch_size.
     and_then (require (py_eq (jget point ''queries'') (JInt query_count)) (CollectionError ''point query count differs'')) (\<lambda>_.
     and_then (official_latency t point query_count) (\<lambda>raw.
     and_then (sequence (jget point ''result_ids'')) (\<lambda>result_ids.
     and_then (require (int (length result_ids) = query_count) (CollectionError ''result ID row count differs'')) (\<lambda>_.
     and_then (official_rows (ds_corpus_count ds) top_k truth query_indices result_ids) (\<lambda>rows.
     and_then (map_res (official_recall point query_count rows report_ks) report_ks) (\<lambda>recalls.
     and_then (official_candidates point query_count) (\<lambda>(embedded, mean).
     and_then (official_endpoint point mode ds query_count embedded) (\<lambda>_.
     and_then (collector_hash t (JArr result_ids)) (\<lambda>sha.
     Inr \<lparr>op_complexity = complexity, op_batch_size = batch_size, op_latency = raw, op_rows = rows,
       op_recalls = recalls, op_candidates = mean, op_ids_sha = sha\<rparr>)))))))))))"

subsection \<open>An accepted recall is the one the identifiers give\<close>

lemma digits_nonneg: "list_all (\<lambda>c. 48 \<le> c \<and> c \<le> 57) s \<Longrightarrow> py_int s = Some i \<Longrightarrow> 0 \<le> i"
proof -
  assume d: "list_all (\<lambda>c. 48 \<le> c \<and> c \<le> 57) s" and i: "py_int s = Some i"
  have "\<forall>c \<in> set s. \<not> py_ws c" using d by (auto simp: list_all_iff py_ws_def)
  then have "py_strip s = s" by (intro py_strip_no_ws) blast
  moreover have "\<not> (s \<noteq> [] \<and> hd s = 45)" using d by (cases s) auto
  ultimately show ?thesis using i by (auto simp: py_int_def Let_def split: option.splits if_splits)
qed

lemma canonical_nonneg: "canonical_decimal s \<Longrightarrow> decimal_int s = Inr i \<Longrightarrow> 0 \<le> i"
  using digits_nonneg [of s i] by (auto simp: canonical_decimal_def decimal_int_def split: option.splits)

text \<open>What a row must be: its ranked identifiers, its counters, its latency and its recalls.\<close>

definition native_row_good :: "int \<Rightarrow> nat list \<Rightarrow> nat \<Rightarrow> int list \<Rightarrow> native_row \<Rightarrow> bool" where
  "native_row_good corpus_count cutoffs top_k truth_row r \<longleftrightarrow>
     length (nr_labels r) = top_k \<and> distinct (nr_labels r) \<and> (\<forall>l \<in> set (nr_labels r). 0 \<le> l \<and> l < corpus_count)
     \<and> length (nr_counters r) = 4 \<and> (\<forall>k \<in> set (nr_counters r). 0 \<le> k)
     \<and> (\<exists>x. map_of (nr_values r) (u ''latency_ms'') = Some (Fin x) \<and> 0 \<le> x)
     \<and> (\<forall>c \<in> set cutoffs. \<exists>x expected. map_of (nr_values r) (recall_key c) = Some (Fin x) \<and> 0 \<le> x \<and> x \<le> 1
          \<and> int_true_div (int (hits (nr_labels r) truth_row c)) (int c) = Inr expected \<and> close (Fin x) expected)"

lemma value_columns_keys:
  "map_of (value_columns cutoffs top_k) (u ''latency_ms'') = Some (u ''latency_ms'')"
  "c \<in> set cutoffs \<Longrightarrow> recall_key c \<in> fst ` set (value_columns cutoffs top_k)"
proof -
  have ne: "recall_key c \<noteq> u ''latency_ms''" for c
  proof
    assume "recall_key c = u ''latency_ms''"
    then have "hd (recall_key c) = hd (u ''latency_ms'')" by simp
    then show False by (simp add: recall_key_def u_def)
  qed
  have l: "map_of (fold (\<lambda>c m. dict_set m (recall_key c) (f c)) cs m) (u ''latency_ms'') = map_of m (u ''latency_ms'')"
    for f cs and m :: "(pystr \<times> pystr) list"
    by (induction cs arbitrary: m) (simp_all add: ne [symmetric])
  show "map_of (value_columns cutoffs top_k) (u ''latency_ms'') = Some (u ''latency_ms'')"
    by (simp add: value_columns_def l)
  have k: "recall_key c \<in> fst ` set (fold (\<lambda>c m. dict_set m (recall_key c) (f c)) cs m)"
    if "c \<in> set cs \<or> recall_key c \<in> fst ` set m" for c f cs and m :: "(pystr \<times> pystr) list"
    using that
  proof (induction cs arbitrary: m)
    case (Cons a cs)
    then have "c \<in> set cs \<or> recall_key c \<in> fst ` set (dict_set m (recall_key a) (f a))"
      unfolding keys_dict_set by auto
    then show ?case using Cons.IH by simp
  qed simp
  show "c \<in> set cutoffs \<Longrightarrow> recall_key c \<in> fst ` set (value_columns cutoffs top_k)"
    unfolding value_columns_def by (rule k) simp
qed

lemma row_metric_ok:
  "row_metric row mc = Inr kv \<Longrightarrow> fst kv = fst mc \<and> (\<exists>x. snd kv = Fin x
     \<and> (fst mc = u ''latency_ms'' \<longrightarrow> 0 \<le> x) \<and> (startswith (fst mc) (u ''recall_at_'') \<longrightarrow> 0 \<le> x \<and> x \<le> 1))"
proof -
  assume "row_metric row mc = Inr kv"
  then obtain v where v: "kv = (fst mc, v)" "fl_isfinite v" "fst mc = u ''latency_ms'' \<longrightarrow> \<not> fl_lt v (Fin 0)"
    "startswith (fst mc) (u ''recall_at_'') \<longrightarrow> fl_le (Fin 0) v \<and> fl_le v (Fin 1)"
    unfolding row_metric_def by (cases mc) (auto simp: ok_simps split: option.splits)
  then show ?thesis by (cases v) (auto simp: fl_isfinite_def fl_le_def)
qed

lemma row_metrics_lookup:
  assumes "map_res (row_metric row) mcs = Inr vals" and "k \<in> fst ` set mcs"
  shows "\<exists>x. map_of vals k = Some (Fin x) \<and> (k = u ''latency_ms'' \<longrightarrow> 0 \<le> x) \<and> (startswith k (u ''recall_at_'') \<longrightarrow> 0 \<le> x \<and> x \<le> 1)"
  using assms
proof (induction mcs arbitrary: vals)
  case (Cons mc mcs)
  then obtain kv rest where kv: "row_metric row mc = Inr kv" "map_res (row_metric row) mcs = Inr rest" "vals = kv # rest"
    by (auto simp: ok_simps)
  note m = row_metric_ok [OF kv(1)]
  show ?case
  proof (cases "fst mc = k")
    case True
    then show ?thesis using m kv(3) by (cases kv) auto
  next
    case False
    then show ?thesis using Cons.IH [OF kv(2)] Cons.prems(2) m kv(3) by (cases kv) auto
  qed
qed simp

lemma read_native_row_good:
  assumes "read_native_row corpus_count cutoffs top_k truth (i, row) = Inr r"
  shows "native_row_good corpus_count cutoffs top_k (truth ! i) r \<and> i < length truth"
proof -
  from assms obtain labels counters vals where l: "row_labels corpus_count top_k row = Inr labels"
    and c: "map_res (row_counter row) counter_names = Inr counters"
    and v: "map_res (row_metric row) (value_columns cutoffs top_k) = Inr vals" and i: "i < length truth"
    and chk: "\<exists>us. map_res (check_recall labels (truth ! i) vals) cutoffs = Inr us"
    and r: "r = \<lparr>nr_labels = labels, nr_counters = counters, nr_values = vals\<rparr>"
    by (auto simp: read_native_row_def ok_simps)
  from l obtain raw where raw: "list_all canonical_decimal (split_on 32 raw)" "map_res decimal_int (split_on 32 raw) = Inr labels"
    "length labels = top_k" "distinct labels" "\<forall>x \<in> set labels. x < corpus_count"
    by (auto simp: row_labels_def ok_simps list_all_iff split: option.splits)
  have "0 \<le> x" if "x \<in> set labels" for x
  proof -
    from map_res_set [OF raw(2) that] obtain s where "s \<in> set (split_on 32 raw)" "decimal_int s = Inr x" by blast
    then show ?thesis using canonical_nonneg raw(1) by (auto simp: list_all_iff)
  qed
  moreover have "0 \<le> k" if "k \<in> set counters" for k
  proof -
    from map_res_set [OF c that] obtain n where "row_counter row n = Inr k" by blast
    then show ?thesis using canonical_nonneg by (auto simp: row_counter_def split: option.splits if_splits)
  qed
  moreover have "length counters = 4" using map_res_length [OF c] by (simp add: counter_names_def)
  moreover have "\<exists>x. map_of vals (u ''latency_ms'') = Some (Fin x) \<and> 0 \<le> x"
  proof -
    have "u ''latency_ms'' \<in> fst ` set (value_columns cutoffs top_k)"
      using map_of_SomeD [OF value_columns_keys(1) [of cutoffs top_k]] by force
    from row_metrics_lookup [OF v this] show ?thesis by auto
  qed
  moreover have "\<exists>x expected. map_of vals (recall_key c) = Some (Fin x) \<and> 0 \<le> x \<and> x \<le> 1
      \<and> int_true_div (int (hits labels (truth ! i) c)) (int c) = Inr expected \<and> close (Fin x) expected" if "c \<in> set cutoffs" for c
  proof -
    have "startswith (recall_key c) (u ''recall_at_'')" by (simp add: recall_key_def startswith_def)
    with row_metrics_lookup [OF v value_columns_keys(2) [OF that]]
    obtain x where x: "map_of vals (recall_key c) = Some (Fin x)" "0 \<le> x" "x \<le> 1" by auto
    from chk obtain us where "map_res (check_recall labels (truth ! i) vals) cutoffs = Inr us" ..
    from map_res_set_dom [OF this that] obtain y where "check_recall labels (truth ! i) vals c = Inr y" by blast
    then show ?thesis using x by (auto simp: check_recall_def ok_simps)
  qed
  ultimately show ?thesis using raw i by (simp add: native_row_good_def r)
qed

text \<open>
  C18. An accepted native CSV is evidence for its recall: it has one row for each query, and in each row the
  \<open>top_k\<close> distinct identifiers of the corpus, non-negative counters and latency, and for every cutoff a recall
  that agrees with the one recomputed from these identifiers and the exact neighbours of the query; the
  digest of the point is the digest of exactly these identifiers.
\<close>

theorem native_recall_is_recomputed:
  assumes "read_native_csv t d path query_count corpus_count cutoffs top_k truth parsed = Inr point"
  shows "length (np_rows point) = query_count \<and> query_count \<le> length truth
    \<and> (\<forall>i < query_count. native_row_good corpus_count cutoffs top_k (truth ! i) (np_rows point ! i))
    \<and> collector_hash t (ids_json (map nr_labels (np_rows point))) = Inr (np_ids_sha point)"
proof -
  from assms obtain names rows where rows: "length rows = query_count"
    "map_res (read_native_row corpus_count cutoffs top_k truth) (enumerate 0 rows) = Inr (np_rows point)"
    and sha: "collector_hash t (ids_json (map nr_labels (np_rows point))) = Inr (np_ids_sha point)"
    by (auto simp: read_native_csv_def ok_simps split: prod.splits)
  have at: "read_native_row corpus_count cutoffs top_k truth (i, rows ! i) = Inr (np_rows point ! i)" if "i < query_count" for i
    using rows that by (simp add: map_res_ok_iff nth_enumerate_eq)
  have "query_count \<le> length truth"
    using read_native_row_good [OF at [of "query_count - 1"]] by (cases query_count) auto
  then show ?thesis using map_res_length [OF rows(2)] rows(1) read_native_row_good [OF at] sha by simp
qed

text \<open>
  C19. An accepted point of the official comparison is evidence for its recall: every row has \<open>top_k\<close>
  distinct identifiers of the corpus, is compared with the exact neighbours of its own query, and for each
  cutoff the recorded recall agrees with the hits of all rows over queries times cutoff; the candidate mean
  agrees with the recorded total.
\<close>

theorem official_recall_is_recomputed:
  assumes "validate_official_point t point mode ds query_count report_ks truth query_indices top_k = Inr p"
    and "distinct report_ks"
  shows "int (length (op_rows p)) = query_count
    \<and> (\<forall>i < length (op_rows p). case op_rows p ! i of (labels, truth_row) \<Rightarrow>
         int (length labels) = top_k \<and> distinct labels \<and> (\<forall>l \<in> set labels. 0 \<le> l \<and> l < ds_corpus_count ds)
         \<and> truth_row_at truth query_indices i = Inr truth_row)
    \<and> list_all2 (\<lambda>c (k, actual). k = recall_key c \<and> number (item point k) = Inr actual \<and>
         (\<exists>expected. int_true_div (int (recall_sum (op_rows p) c)) (query_count * int c) = Inr expected \<and> close actual expected))
         report_ks (op_recalls p)
    \<and> (\<exists>embedded mean. jget point ''candidate_embeddings_total'' = JInt embedded \<and> 1 \<le> embedded
         \<and> int_true_div embedded query_count = Inr mean \<and> close (op_candidates p) mean)"
proof -
  from assms(1) obtain ids rows recalls embedded cand where
    ids: "int (length ids) = query_count" "official_rows (ds_corpus_count ds) top_k truth query_indices ids = Inr rows"
    and rec: "map_res (official_recall point query_count rows report_ks) report_ks = Inr recalls"
    and cand: "official_candidates point query_count = Inr (embedded, cand)"
    and p: "op_rows p = rows" "op_recalls p = recalls" "op_candidates p = cand"
    by (auto simp: validate_official_point_def ok_simps split: prod.splits)
  have len: "length rows = length ids" using map_res_length [OF ids(2) [unfolded official_rows_def]] by simp
  have row: "case rows ! i of (labels, truth_row) \<Rightarrow>
         int (length labels) = top_k \<and> distinct labels \<and> (\<forall>l \<in> set labels. 0 \<le> l \<and> l < ds_corpus_count ds)
         \<and> truth_row_at truth query_indices i = Inr truth_row" if "i < length rows" for i
  proof -
    have "and_then (official_labels (ds_corpus_count ds) top_k (ids ! i)) (\<lambda>labels.
        and_then (truth_row_at truth query_indices i) (\<lambda>row. Inr (labels, row))) = Inr (rows ! i)"
      using ids(2) that len by (simp add: official_rows_def map_res_ok_iff nth_enumerate_eq)
    then obtain labels truth_row where l: "official_labels (ds_corpus_count ds) top_k (ids ! i) = Inr labels"
      "truth_row_at truth query_indices i = Inr truth_row" "rows ! i = (labels, truth_row)"
      by (auto simp: ok_simps)
    from l(1) have "int (length labels) = top_k \<and> distinct labels \<and> (\<forall>l \<in> set labels. 0 \<le> l \<and> l < ds_corpus_count ds)"
      by (auto simp: official_labels_def ok_simps list_all_iff Let_def split: if_splits option.splits)
    then show ?thesis using l by simp
  qed
  have "count_list report_ks c = 1" if "c \<in> set report_ks" for c
    using assms(2) that by (metis count_mset distinct_count_atmost_1)
  then have recs: "list_all2 (\<lambda>c (k, actual). k = recall_key c \<and> number (item point k) = Inr actual \<and>
         (\<exists>expected. int_true_div (int (recall_sum rows c)) (query_count * int c) = Inr expected \<and> close actual expected))
         report_ks recalls"
    using rec unfolding map_res_ok_iff list_all2_conv_all_nth
    by (fastforce simp: official_recall_def ok_simps)
  from cand have "\<exists>mean. jget point ''candidate_embeddings_total'' = JInt embedded \<and> 1 \<le> embedded
         \<and> int_true_div embedded query_count = Inr mean \<and> close cand mean"
    by (auto simp: official_candidates_def ok_simps)
  then show ?thesis using row recs ids(1) len unfolding p by auto
qed

subsection \<open>Sample measurements\<close>

definition point_tools :: tools where
  "point_tools = sample_tools\<lparr>tl_mean := (\<lambda>vals. rnd64 (sum_list (map fin_val vals) / of_nat (length vals))),
     tl_percentile := (\<lambda>vals _. hd vals)\<rparr>"

definition sample_table :: "pystr list list" where
  "sample_table =
     [map u [''query_index'', ''recall'', ''latency_ms'', ''exact_recomputations'', ''approximate_distances'',
        ''upper_layer_hops'', ''embedding_batches'', ''result_ids''],
      map u [''0'', ''1'', ''1'', ''0'', ''0'', ''0'', ''0'', ''1'']]"

definition csv_files :: fsys where
  "csv_files = \<lparr>fs_resolve = id, fs_file = (\<lambda>_. Some (utf8_bytes (written_csv sample_table)))\<rparr>"

definition sample_parsed :: jobj where
  "sample_parsed = jobj [(''queries'', JInt 1), (''latency_ms_mean'', JInt 1), (''latency_ms_p50'', JInt 1),
     (''latency_ms_p95'', JInt 1), (''exact_recomputations_mean'', JInt 0), (''approximate_distances_mean'', JInt 0),
     (''upper_layer_hops_mean'', JInt 0), (''recall_at_1'', JInt 1)]"

lemma one_exact: "rnd64 1 = Fin 1" "fl_of_int 1 = Inr (Fin 1)" "fl_of_int 0 = Inr (Fin 0)" "int_true_div 1 1 = Inr (Fin 1)"
  using rnd64_dyadic [of 1 0] by (simp_all add: pow2_def fl_of_int_def int_true_div_def)

lemma sample_encodes: "utf8_encode (written_csv sample_table) = Inr (utf8_bytes (written_csv sample_table))"
  by (simp add: utf8_encode_def sample_table_def written_csv_def csv_row_text_def csv_field_def needs_quotes_def
      u_def is_scalar_def)

definition text_row :: "(string \<times> string) list \<Rightarrow> csv_row" where
  "text_row kvs = map (\<lambda>(k, v). (u k, Some (u v))) kvs"

lemma row_value_text: "row_value (text_row kvs) (u k) = map_option u (map_of kvs k)"
  by (induction kvs) (auto simp: row_value_def text_row_def split: if_splits)

definition sample_row :: csv_row where
  "sample_row = text_row [(''query_index'', ''0''), (''recall'', ''1''), (''latency_ms'', ''1''),
      (''exact_recomputations'', ''0''), (''approximate_distances'', ''0''), (''upper_layer_hops'', ''0''),
      (''embedding_batches'', ''0''), (''result_ids'', ''1'')]"

lemma sample_row_eq: "dict_row (hd sample_table) (sample_table ! 1) = sample_row"
  by (simp add: sample_row_def text_row_def dict_row_def sample_table_def)

lemma read_sample_csv:
  assumes "file_at d p = Some (utf8_bytes (written_csv sample_table))"
  shows "read_csv d p = Inr (hd sample_table, [sample_row])"
proof -
  have t: "sample_table = hd sample_table # [sample_table ! 1]" by (simp add: sample_table_def)
  have "\<forall>r \<in> set (hd sample_table # [sample_table ! 1]). r \<noteq> [] \<and> list_all csv_field_ok r"
    by (simp add: sample_table_def csv_field_ok_def)
  moreover have "utf8_encode (written_csv (hd sample_table # [sample_table ! 1])) = Inr (utf8_bytes (written_csv sample_table))"
    using sample_encodes by (simp only: t [symmetric])
  ultimately have "read_csv d p = Inr (hd sample_table, map (dict_row (hd sample_table)) [sample_table ! 1])"
    using assms by (intro read_csv_written)
  then show ?thesis unfolding list.map sample_row_eq .
qed

lemma sample_numbers:
  "py_int (u ''0'') = Some 0" "py_int (u ''1'') = Some 1" "py_float (u ''1'') = Some (Fin 1)"
  "split_on 32 (u ''1'') = [u ''1'']" "canonical_decimal (u ''0'')" "canonical_decimal (u ''1'')" "recall_key (Suc 0) = u ''recall_at_1''"
proof -
  have s: "py_strip [c] = [c]" if "\<not> py_ws c" for c
    using that by (simp add: py_strip_def py_lstrip_def py_rstrip_def rstrip_while_def)
  have ws: "\<not> py_ws 48" "\<not> py_ws 49" by (simp_all add: py_ws_def)
  have d: "digit_val 48 = Some 0" "digit_val 49 = Some 1" by (simp_all add: digit_val_def)
  show "py_int (u ''0'') = Some 0" "py_int (u ''1'') = Some 1"
    by (simp_all add: u_def py_int_def s ws d of_digits_def Let_def)
  show "py_float (u ''1'') = Some (Fin 1)"
    using one_exact(1) by (simp add: u_def py_float_def split_sign_def s ws ascii_lower_def float_mantissa_def float_exponent_def
        digit_part_def d of_digits_def pow10_def)
  show "recall_key (Suc 0) = u ''recall_at_1''" by (simp add: recall_key_def dec_nat.simps u_def)
qed (simp_all add: u_def canonical_decimal_def)

lemma sample_native_point:
  assumes "file_at d p = Some (utf8_bytes (written_csv sample_table))" and "tl_mean t = tl_mean point_tools"
    and "\<And>v. \<exists>payload. tl_dumps t v = Inr payload"
  shows "\<exists>point. read_native_csv t d p 1 2 [1] 1 [[1]] sample_parsed = Inr point"
proof -
  obtain payload where payload: "tl_dumps t (ids_json [[1]]) = Inr payload" using assms(3) by blast
  let ?row = sample_row
  have cell: "row_value ?row (u ''query_index'') = Some (u ''0'')" "row_value ?row (u ''recall'') = Some (u ''1'')"
    "row_value ?row (u ''latency_ms'') = Some (u ''1'')" "row_value ?row (u ''exact_recomputations'') = Some (u ''0'')"
    "row_value ?row (u ''approximate_distances'') = Some (u ''0'')" "row_value ?row (u ''upper_layer_hops'') = Some (u ''0'')"
    "row_value ?row (u ''embedding_batches'') = Some (u ''0'')" "row_value ?row (u ''result_ids'') = Some (u ''1'')"
    unfolding sample_row_def row_value_text by simp_all
  have cols: "value_columns [1] 1 = [(u ''latency_ms'', u ''latency_ms''), (u ''recall_at_1'', u ''recall'')]"
    by (simp add: value_columns_def sample_numbers)
  have refl: "close (Fin x) (Fin x)" for x by (simp add: close_def isclose_refl)
  let ?vals = "[(u ''latency_ms'', Fin 1), (u ''recall_at_1'', Fin 1)]"
  have chk: "check_recall [1] [1] ?vals 1 = Inr ()"
    by (simp add: check_recall_def hits_def one_exact sample_numbers refl)
  have mets: "map_res (row_metric ?row) (value_columns [1] 1) = Inr ?vals"
  proof -
    have "\<not> startswith (u ''latency_ms'') (u ''recall_at_'')" "startswith (u ''recall_at_1'') (u ''recall_at_'')"
      by (simp_all add: startswith_def u_def)
    then show ?thesis unfolding cols by (simp add: row_metric_def cell sample_numbers fl_isfinite_def fl_le_def)
  qed
  have labels: "row_labels 2 1 ?row = Inr [1]"
    by (simp add: row_labels_def cell sample_numbers decimal_int_def)
  have cnt: "map_res (row_counter ?row) counter_names = Inr [0, 0, 0, 0]"
    by (simp add: counter_names_def row_counter_def cell sample_numbers decimal_int_def)
  let ?r = "\<lparr>nr_labels = [1], nr_counters = [0, 0, 0, 0], nr_values = ?vals\<rparr>"
  have row: "read_native_row 2 [1] 1 [[1]] (0, ?row) = Inr ?r"
    using labels cnt mets chk by (simp add: read_native_row_def row_index_def cell sample_numbers)
  have nr: "nearest_rank [Fin 1] p = Inr (Fin 1)" for p by (simp add: nearest_rank_def Let_def)
  have sums: "native_summaries t [1] [?r] = Inr [(u ''latency_ms_mean'', Fin 1), (u ''latency_ms_p50'', Fin 1),
      (u ''latency_ms_p95'', Fin 1), (u ''exact_recomputations_mean'', Fin 0), (u ''approximate_distances_mean'', Fin 0),
      (u ''upper_layer_hops_mean'', Fin 0), (u ''recall_at_1'', Fin 1)]"
    by (simp add: native_summaries_def metric_series_def counter_series_def nr assms(2) point_tools_def one_exact sample_numbers)
  have num: "number (JInt 0) = Inr (Fin 0)" "number (JInt 1) = Inr (Fin 1)"
    by (simp_all add: number_def is_number_def one_exact fl_isfinite_def)
  have parsed: "map_res (check_summary sample_parsed) [(u ''latency_ms_mean'', Fin 1), (u ''latency_ms_p50'', Fin 1),
      (u ''latency_ms_p95'', Fin 1), (u ''exact_recomputations_mean'', Fin 0), (u ''approximate_distances_mean'', Fin 0),
      (u ''upper_layer_hops_mean'', Fin 0), (u ''recall_at_1'', Fin 1)] = Inr [(), (), (), (), (), (), ()]"
    by (simp add: check_summary_def item_def sample_parsed_def num refl)
  have req: "set (required_columns [1] 1) \<subseteq> set (hd sample_table)"
    by (simp add: required_columns_def counter_names_def sample_table_def)
  have q: "py_eq (jget sample_parsed ''queries'') (JInt 1)" by (simp add: sample_parsed_def)
  show ?thesis
    using req q row sums parsed payload by (simp add: read_native_csv_def read_sample_csv [OF assms(1)] collector_hash_def)
qed

theorem native_recall_is_recomputed_witness:
  "\<exists>point. read_native_csv point_tools csv_files (u ''raw.csv'') 1 2 [1] 1 [[1]] sample_parsed = Inr point
    \<and> native_row_good 2 [1] 1 [1] (np_rows point ! 0)"
proof -
  obtain point where r: "read_native_csv point_tools csv_files (u ''raw.csv'') 1 2 [1] 1 [[1]] sample_parsed = Inr point"
    using sample_native_point [of csv_files "u ''raw.csv''" point_tools]
    by (auto simp: file_at_def csv_files_def point_tools_def sample_tools_def)
  from native_recall_is_recomputed [OF r] show ?thesis using r by auto
qed

definition sample_dataset :: dataset where
  "sample_dataset = \<lparr>ds_corpus_count = 2, ds_query_count = 1, ds_dimensions = 1, ds_documents_sha = [], ds_queries_sha = [],
     ds_corpus_cache_sha = [], ds_query_cache_sha = [], ds_truth_sha = [], ds_truth_top_k = 1, ds_model_sha = [],
     ds_model_artifact_sha = [], ds_fingerprint = u ''m''\<rparr>"

definition sample_point :: jobj where
  "sample_point = jobj [(''complexity'', JInt 32), (''batch_size'', JInt 0), (''queries'', JInt 1),
     (''latency_ms'', JObj (jobj [(''raw_per_query'', JArr [JInt 1]), (''mean'', JInt 1), (''p50'', JInt 1), (''p95'', JInt 1),
        (''min'', JInt 1), (''max'', JInt 1)])),
     (''result_ids'', JArr [JArr [JInt 1]]), (''recall_at_1'', JInt 1), (''candidate_embeddings_total'', JInt 1),
     (''candidate_embeddings_mean_per_query'', JInt 1), (''candidate_embedding_requests'', JInt 1),
     (''embedding_proxy_metrics'', JObj (jobj [(''mode'', JStr (u ''proxy'')), (''inputs'', JInt 1), (''requests'', JInt 1)]))]"

lemma number_1: "number (JInt 1) = Inr (Fin 1)"
  by (simp add: number_def is_number_def one_exact fl_isfinite_def)

lemma close_refl: "close (Fin x) (Fin x)"
  by (simp add: close_def isclose_refl)

theorem official_recall_is_recomputed_witness:
  "\<exists>p. validate_official_point point_tools sample_point (u ''real'') sample_dataset 1 [1] [[1]] [0] 1 = Inr p
    \<and> op_rows p = [([1], [1])] \<and> distinct (fst (op_rows p ! 0))"
proof -
  have lat: "official_latency point_tools sample_point 1 = Inr [Fin 1]"
    by (simp add: official_latency_def sample_point_def mapping_def sequence_def number_1 latency_summaries_def
        linear_percentile_def point_tools_def one_exact fl_min_def fl_max_def check_latency_def close_refl)
  have ids: "jget sample_point ''result_ids'' = JArr [JArr [JInt 1]]" by (simp add: sample_point_def)
  have rows: "official_rows 2 1 [[1]] [0] [JArr [JInt 1]] = Inr [([1], [1])]"
    by (simp add: official_rows_def official_labels_def sequence_def truth_row_at_def Let_def)
  have rec: "official_recall sample_point 1 [([1], [1])] [1] 1 = Inr (u ''recall_at_1'', Fin 1)"
    by (simp add: official_recall_def recall_sum_def hits_def one_exact sample_numbers item_def sample_point_def number_1 close_refl)
  have cand: "official_candidates sample_point 1 = Inr (1, Fin 1)"
    by (simp add: official_candidates_def integer_def sample_point_def number_1 one_exact close_refl)
  have ends: "official_endpoint sample_point (u ''real'') sample_dataset 1 1 = Inr ()"
    by (simp add: official_endpoint_def mapping_def integer_def sample_point_def endpoint_errors_def no_errors_def)
  have "\<exists>p. validate_official_point point_tools sample_point (u ''real'') sample_dataset 1 [1] [[1]] [0] 1 = Inr p \<and> op_rows p = [([1], [1])]"
    using lat ids rows rec cand ends
    by (simp add: validate_official_point_def sequence_def sample_dataset_def collector_hash_def point_tools_def sample_tools_def
        integer_def) (simp add: sample_point_def)
  then obtain p where p: "validate_official_point point_tools sample_point (u ''real'') sample_dataset 1 [1] [[1]] [0] 1 = Inr p"
    "op_rows p = [([1], [1])]" by blast
  from official_recall_is_recomputed [OF p(1)] p show ?thesis by auto
qed

end
