(* ===== verification/Aggregate.thy ===== *)
theory Aggregate
  imports Points "HOL-Library.Product_Lexorder"
begin

text \<open>
  The middle of \<open>collect_results\<close>: binding search samples to measured builds (\<open>_bind_search_indexes\<close>), pooling the
  repetitions of a search point (\<open>_aggregate_points\<close>) and of a build (\<open>_aggregate_builds\<close>). A sample and a build are the
  dicts that the ingest operations append to the collector, as records. \<open>fsum\<close> stands for Python's \<open>sum\<close> over floats.
  An issue keeps its fixed words. The lemmas show that nothing is pooled across runs and that no sample is lost.
\<close>

subsection \<open>Issues, samples and builds\<close>

record issue =
  is_code :: pystr
  is_tier :: pystr
  is_profile :: pystr
  is_detail :: pystr

definition make_issue :: "string \<Rightarrow> pystr \<Rightarrow> pystr \<Rightarrow> pystr \<Rightarrow> issue" where
  "make_issue code tier profile detail =
     \<lparr>is_code = u code, is_tier = tier, is_profile = profile, is_detail = detail\<rparr>"

text \<open>What \<open>search["index_build_provenance"]\<close> records.\<close>

record binding =
  bi_status :: pystr
  bi_artifacts :: pystr
  bi_builds :: "pystr list"

datatype series = Ints "int list" | Floats "pyfloat list"

record sample =
  sm_tier :: pystr
  sm_corpus :: int
  sm_system :: pystr
  sm_mode :: pystr
  sm_comparable :: bool
  sm_parameter :: pystr
  sm_value :: int
  sm_batch :: int
  sm_queries :: int
  sm_source :: pystr
  sm_protocol :: pystr
  sm_role :: pystr
  sm_reuse_artifacts :: "pystr option"
  sm_reuse_source :: "pystr option"
  sm_reuse_storage :: "pystr option"
  sm_evidence :: jobj
  sm_artifacts :: artifact_set
  sm_latency :: "pyfloat list"
  sm_recalls :: "(pystr \<times> pyfloat list) list"
  sm_counts :: "(string \<times> series) list"
  sm_ids_sha :: "pystr option"
  sm_binding :: "binding option"

record storage =
  st_vector_index :: int
  st_lookup_aux :: int
  st_vector_serving :: int
  st_text_store :: int
  st_total :: int
  st_dense :: int
  st_raw :: int
  st_definition :: pystr

record build =
  bd_tier :: pystr
  bd_system :: pystr
  bd_source :: pystr
  bd_wall :: json
  bd_rss :: json
  bd_algorithm :: json
  bd_storage :: "storage option"
  bd_storage_sha :: "pystr option"
  bd_config :: json
  bd_profile :: pystr
  bd_evidence :: json
  bd_artifacts :: artifact_set
  bd_inherited :: "pystr list"

definition native_system :: pystr where "native_system = u ''leann.cpp''"
definition official_system :: pystr where "official_system = u ''official LEANN''"

definition profile_for :: "pystr \<Rightarrow> pystr \<Rightarrow> pystr" where
  "profile_for system mode = (if system = native_system then u ''native'' else u ''official-'' @ mode)"

subsection \<open>Binding samples to builds\<close>

record bound =
  bn_builds :: "build list"
  bn_issues :: "issue list"
  bn_samples :: "sample list"

text \<open>\<open>sorted(set(xs))\<close>.\<close>

definition sorted_set :: "'a :: linorder list \<Rightarrow> 'a list" where
  "sorted_set xs = sort (remdups xs)"

definition build_matches :: "sample \<Rightarrow> build \<Rightarrow> bool" where
  "build_matches s b \<longleftrightarrow>
     bd_tier b = sm_tier s \<and> bd_system b = sm_system s \<and> as_sha (bd_artifacts b) = as_sha (sm_artifacts s)
     \<and> (case sm_reuse_source s of None \<Rightarrow> True | Some x \<Rightarrow> bd_source b = x)
     \<and> (case sm_reuse_storage s of None \<Rightarrow> True | Some x \<Rightarrow> bd_storage_sha b = Some x)"

definition inherit :: "pystr \<Rightarrow> build \<Rightarrow> build" where
  "inherit profile b = b\<lparr>bd_inherited := List.insert profile (bd_inherited b)\<rparr>"

text \<open>The builds of the sample's own run if any match, else every build that matches.\<close>

definition own_matches :: "build list \<Rightarrow> sample \<Rightarrow> build list" where
  "own_matches builds s = filter (\<lambda>b. build_matches s b \<and> bd_source b = sm_source s) builds"

definition selected_builds :: "build list \<Rightarrow> sample \<Rightarrow> build list" where
  "selected_builds builds s = (if own_matches builds s \<noteq> [] then own_matches builds s else filter (build_matches s) builds)"

definition sample_binding :: "build list \<Rightarrow> sample \<Rightarrow> binding" where
  "sample_binding builds s =
     \<lparr>bi_status = (if own_matches builds s \<noteq> [] then u ''measured-in-same-run''
         else if selected_builds builds s \<noteq> [] then u ''inherited'' else u ''unbound''),
      bi_artifacts = as_sha (sm_artifacts s), bi_builds = sorted_set (map bd_source (selected_builds builds s))\<rparr>"

definition binding_issues :: "build list \<Rightarrow> sample \<Rightarrow> issue list" where
  "binding_issues builds s =
     (let profile = profile_for (sm_system s) (sm_mode s) in
      if selected_builds builds s = [] then
        [make_issue ''unbound-index'' (sm_tier s) profile
           (if sm_reuse_source s \<noteq> None
            then u ''search artifact hashes do not match the exact attested cached-build source/storage supplied to the collector''
            else u ''search artifact hashes do not match any measured build'')]
      else if list_ex (\<lambda>b. bd_storage b \<noteq> None) (selected_builds builds s) then []
      else [make_issue ''missing-build-metrics'' (sm_tier s) profile
              (u ''index artifacts are bound, but no matching build has validated storage/build metrics'')])"

definition inherit_builds :: "build list \<Rightarrow> sample \<Rightarrow> build list" where
  "inherit_builds builds s =
     (if own_matches builds s \<noteq> [] then builds
      else map (\<lambda>b. if build_matches s b then inherit (profile_for (sm_system s) (sm_mode s)) b else b) builds)"

definition bind_sample :: "bound \<Rightarrow> sample \<Rightarrow> bound res" where
  "bind_sample st s =
     (if sm_reuse_artifacts s \<notin> {None, Some (as_sha (sm_artifacts s))}
      then Inl (CollectionError ''official real search artifact identity differs from its cached-build reuse attestation'')
      else Inr \<lparr>bn_builds = inherit_builds (bn_builds st) s,
                bn_issues = bn_issues st @ binding_issues (bn_builds st) s,
                bn_samples = bn_samples st @ [s\<lparr>sm_binding := Some (sample_binding (bn_builds st) s)\<rparr>]\<rparr>)"

definition bind_search_indexes :: "build list \<Rightarrow> issue list \<Rightarrow> sample list \<Rightarrow> bound res" where
  "bind_search_indexes builds issues samples =
     fold_res bind_sample \<lparr>bn_builds = builds, bn_issues = issues, bn_samples = []\<rparr> samples"

subsection \<open>Pooling the repetitions of a point\<close>

type_synonym point_key = "pystr \<times> int \<times> pystr \<times> pystr \<times> pystr \<times> int \<times> int"

definition sample_key :: "sample \<Rightarrow> point_key" where
  "sample_key s = (sm_tier s, sm_corpus s, sm_system s, sm_mode s, sm_parameter s, sm_value s, sm_batch s)"

record latency =
  la_mean :: pyfloat
  la_p50 :: pyfloat
  la_p95 :: pyfloat
  la_min :: pyfloat
  la_max :: pyfloat

record point =
  pt_tier :: pystr
  pt_corpus :: int
  pt_system :: pystr
  pt_mode :: pystr
  pt_comparable :: bool
  pt_parameter :: pystr
  pt_value :: int
  pt_batch :: int
  pt_repetitions :: nat
  pt_queries :: int
  pt_observations :: int
  pt_latency :: latency
  pt_evidence :: "jobj list"
  pt_sources :: "pystr list"
  pt_role :: pystr
  pt_protocol :: pystr
  pt_statuses :: "pystr list"
  pt_artifacts :: pystr
  pt_build_sources :: "pystr list"
  pt_recalls :: "(pystr \<times> pyfloat) list"
  pt_candidates :: "pyfloat option"
  pt_batches :: "pyfloat option"
  pt_distances :: "pyfloat option"
  pt_hops :: "pyfloat option"
  pt_ids_sha :: "pystr option"
  pt_selected :: bool
  pt_pair :: "pystr option"

text \<open>\<open>sum\<close> over one series, over the runs, and its quotient by the number of observations.\<close>

definition series_sum :: "(pyfloat list \<Rightarrow> pyfloat) \<Rightarrow> series \<Rightarrow> json" where
  "series_sum fsum s = (case s of Ints ks \<Rightarrow> JInt (sum_list ks) | Floats xs \<Rightarrow> if xs = [] then JInt 0 else JFloat (fsum xs))"

definition total_sum :: "(pyfloat list \<Rightarrow> pyfloat) \<Rightarrow> json list \<Rightarrow> json" where
  "total_sum fsum vs =
     (if list_all (\<lambda>v. case v of JInt _ \<Rightarrow> True | _ \<Rightarrow> False) vs
      then JInt (sum_list (map (\<lambda>v. case v of JInt i \<Rightarrow> i | _ \<Rightarrow> 0) vs))
      else JFloat (fsum (map (\<lambda>v. case v of JInt i \<Rightarrow> rnd64 (of_int i) | JFloat f \<Rightarrow> f | _ \<Rightarrow> NaN) vs)))"

definition per_observation :: "json \<Rightarrow> int \<Rightarrow> pyfloat res" where
  "per_observation v n =
     (case v of
        JInt i \<Rightarrow> int_true_div i n
      | JFloat f \<Rightarrow> and_then (fl_of_int n) (fl_div f)
      | _ \<Rightarrow> Inl (TypeError ''unsupported operand''))"

definition pooled :: "(pyfloat list \<Rightarrow> pyfloat) \<Rightarrow> series list \<Rightarrow> int \<Rightarrow> pyfloat res" where
  "pooled fsum vs observations = per_observation (total_sum fsum (map (series_sum fsum) vs)) observations"

definition pooled_recall :: "(pyfloat list \<Rightarrow> pyfloat) \<Rightarrow> sample list \<Rightarrow> int \<Rightarrow> pystr \<Rightarrow> (pystr \<times> pyfloat) res" where
  "pooled_recall fsum runs observations key =
     and_then (map_res (\<lambda>s. case map_of (sm_recalls s) key of None \<Rightarrow> Inl (KeyError ''recall'') | Some xs \<Rightarrow> Inr (Floats xs)) runs) (\<lambda>vs.
     and_then (pooled fsum vs observations) (\<lambda>v. Inr (key, v)))"

definition pooled_count :: "(pyfloat list \<Rightarrow> pyfloat) \<Rightarrow> sample list \<Rightarrow> int \<Rightarrow> string \<Rightarrow> pyfloat option res" where
  "pooled_count fsum runs observations field =
     (case those (map (\<lambda>s. map_of (sm_counts s) field) runs) of
        None \<Rightarrow> Inr None
      | Some vs \<Rightarrow> and_then (pooled fsum vs observations) (\<lambda>v. Inr (Some v)))"

text \<open>\<open>len({...}) != 1: raise\<close>, else the one value.\<close>

definition the_one :: "exn \<Rightarrow> 'a list \<Rightarrow> 'a res" where
  "the_one e xs = (case remdups xs of [x] \<Rightarrow> Inr x | _ \<Rightarrow> Inl e)"

definition pooled_latency :: "tools \<Rightarrow> pyfloat list \<Rightarrow> latency res" where
  "pooled_latency t vals =
     and_then (linear_percentile t vals (fl_lit 50 2)) (\<lambda>p50.
     and_then (linear_percentile t vals (fl_lit 95 2)) (\<lambda>p95.
     Inr \<lparr>la_mean = tl_mean t vals, la_p50 = p50, la_p95 = p95, la_min = fl_min vals, la_max = fl_max vals\<rparr>))"

definition pooled_ids :: "sample list \<Rightarrow> pystr option res" where
  "pooled_ids runs =
     (case those (map sm_ids_sha runs) of
        None \<Rightarrow> Inr None
      | Some hashes \<Rightarrow> and_then (the_one (CollectionError ''ranked result IDs changed across repetitions'') hashes) (\<lambda>x. Inr (Some x)))"

definition evidence_key :: "jobj \<Rightarrow> pystr \<times> pystr" where
  "evidence_key e = (case jget e ''sha256'' of JStr s \<Rightarrow> s | _ \<Rightarrow> [], case jget e ''path'' of JStr s \<Rightarrow> s | _ \<Rightarrow> [])"

text \<open>What a runs has in common: its source, protocol, role, query count, bindings and artifacts.\<close>

record common =
  cn_source :: pystr
  cn_protocol :: pystr
  cn_role :: pystr
  cn_queries :: int
  cn_bindings :: "binding list"
  cn_artifacts :: pystr

definition group_common :: "sample list \<Rightarrow> common res" where
  "group_common runs =
     (let pooled_error = CollectionError ''duplicate measurements from separate benchmark runs/roles cannot be pooled'' in
      and_then (the_one pooled_error (map sm_source runs)) (\<lambda>source.
      and_then (the_one pooled_error (map sm_protocol runs)) (\<lambda>protocol.
      and_then (the_one pooled_error (map sm_role runs)) (\<lambda>role.
      and_then (the_one (CollectionError ''query count differs across repetitions'') (map sm_queries runs)) (\<lambda>queries.
      case those (map sm_binding runs) of
        None \<Rightarrow> Inl (KeyError ''index_build_provenance'')
      | Some bindings \<Rightarrow>
          and_then (the_one (CollectionError ''index artifact identity differs across repetitions'') (map bi_artifacts bindings)) (\<lambda>artifacts.
          Inr \<lparr>cn_source = source, cn_protocol = protocol, cn_role = role, cn_queries = queries,
               cn_bindings = bindings, cn_artifacts = artifacts\<rparr>))))))"

definition aggregate_group :: "tools \<Rightarrow> (pyfloat list \<Rightarrow> pyfloat) \<Rightarrow> point_key \<Rightarrow> sample list \<Rightarrow> point res" where
  "aggregate_group t fsum key runs =
     (case key of (tier, corpus, system, mode, parameter, value, batch) \<Rightarrow>
      and_then (group_common runs) (\<lambda>cn.
      let observations = sum_list (map sm_queries runs) in
      and_then (pooled_latency t (concat (map sm_latency runs))) (\<lambda>latency.
      and_then (map_res (pooled_recall fsum runs observations) (sorted_set (map fst (sm_recalls (hd runs))))) (\<lambda>recalls.
      and_then (map_res (pooled_count fsum runs observations)
          [''candidate_embeddings'', ''embedding_batches'', ''approximate_distances'', ''upper_layer_hops'']) (\<lambda>counts.
      and_then (pooled_ids runs) (\<lambda>ids.
      Inr \<lparr>pt_tier = tier, pt_corpus = corpus, pt_system = system, pt_mode = mode,
           pt_comparable = list_all sm_comparable runs, pt_parameter = parameter, pt_value = value, pt_batch = batch,
           pt_repetitions = length runs, pt_queries = cn_queries cn, pt_observations = observations,
           pt_latency = latency, pt_evidence = sort_key evidence_key (map sm_evidence runs),
           pt_sources = [cn_source cn], pt_role = cn_role cn, pt_protocol = cn_protocol cn,
           pt_statuses = sorted_set (map bi_status (cn_bindings cn)), pt_artifacts = cn_artifacts cn,
           pt_build_sources = sorted_set (concat (map bi_builds (cn_bindings cn))), pt_recalls = recalls,
           pt_candidates = counts ! 0, pt_batches = counts ! 1, pt_distances = counts ! 2, pt_hops = counts ! 3,
           pt_ids_sha = ids, pt_selected = False, pt_pair = None\<rparr>))))))"

definition group_of :: "sample list \<Rightarrow> point_key \<Rightarrow> sample list" where
  "group_of samples key = filter (\<lambda>s. sample_key s = key) samples"

definition aggregate_points :: "tools \<Rightarrow> (pyfloat list \<Rightarrow> pyfloat) \<Rightarrow> sample list \<Rightarrow> point list res" where
  "aggregate_points t fsum samples =
     map_res (\<lambda>key. aggregate_group t fsum key (group_of samples key)) (sorted_set (map sample_key samples))"

subsection \<open>Pooling the repetitions of a build\<close>

definition storage_json :: "storage \<Rightarrow> json" where
  "storage_json s = JObj (jobj [(''vector_index_bytes'', JInt (st_vector_index s)), (''lookup_aux_bytes'', JInt (st_lookup_aux s)),
     (''vector_serving_bytes'', JInt (st_vector_serving s)), (''text_store_bytes'', JInt (st_text_store s)),
     (''total_bytes'', JInt (st_total s)), (''dense_fp32_bytes_omitted'', JInt (st_dense s)),
     (''raw_text_file_bytes'', JInt (st_raw s)), (''definition'', JStr (st_definition s))])"

record build_summary =
  bs_tier :: pystr
  bs_system :: pystr
  bs_repetitions :: nat
  bs_wall_mean :: pyfloat
  bs_rss_max :: "int option"
  bs_algorithm_mean :: "pyfloat option"
  bs_storage :: storage
  bs_over_dense :: pyfloat
  bs_over_raw :: pyfloat
  bs_config :: json
  bs_measured :: "pystr list"
  bs_inherited :: "pystr list"
  bs_artifacts :: "artifact_set list"
  bs_sources :: "pystr list"
  bs_evidence :: "jobj list"

text \<open>The numbers among some values, and \<open>int(max(...))\<close> of them.\<close>

definition numbers_of :: "json list \<Rightarrow> json list res" where
  "numbers_of vs = and_then (map_res (\<lambda>v. and_then (is_number v) (\<lambda>b. Inr (b, v))) vs) (\<lambda>bs.
     Inr (map snd (filter fst bs)))"

definition int_max :: "json list \<Rightarrow> int option" where
  "int_max vs =
     (if vs = [] then None else Some (rat_trunc (Max (set (map (\<lambda>v. case num_of v of Some f \<Rightarrow> fin_val f | None \<Rightarrow> 0) vs)))))"

definition build_evidence :: "json \<Rightarrow> jobj list res" where
  "build_evidence v =
     (case v of
        JArr vs \<Rightarrow> map_res (\<lambda>x. and_then (mapping x) (\<lambda>m. Inr (snapshot_identity m))) vs
      | _ \<Rightarrow> and_then (mapping v) (\<lambda>m. Inr [snapshot_identity m]))"

text \<open>\<open>100.0 * a / b\<close>.\<close>

definition percent_of :: "int \<Rightarrow> int \<Rightarrow> pyfloat res" where
  "percent_of a b = and_then (fl_of_int a) (\<lambda>x. and_then (fl_of_int b) (fl_div (fl_mul (Fin 100) x)))"

definition sort_hashed :: "tools \<Rightarrow> jobj list \<Rightarrow> jobj list res" where
  "sort_hashed t es =
     and_then (map_res (\<lambda>e. and_then (collector_hash t (JObj e)) (\<lambda>k. Inr (k, e))) es) (\<lambda>ks. Inr (map snd (sort_key fst ks)))"

definition aggregate_build :: "tools \<Rightarrow> pystr \<Rightarrow> pystr \<Rightarrow> storage \<Rightarrow> build list \<Rightarrow> build_summary res" where
  "aggregate_build t tier system storage runs =
     and_then (numbers_of (map bd_rss runs)) (\<lambda>peaks.
     and_then (and_then (numbers_of (map bd_algorithm runs)) (map_res number)) (\<lambda>algorithm.
     and_then (map_res (build_evidence \<circ> bd_evidence) runs) (\<lambda>evidence.
     and_then (map_res (number \<circ> bd_wall) runs) (\<lambda>walls.
     and_then (percent_of (st_vector_serving storage) (st_dense storage)) (\<lambda>over_dense.
     and_then (percent_of (st_vector_serving storage) (st_raw storage)) (\<lambda>over_raw.
     and_then (sort_hashed t (concat evidence)) (\<lambda>ordered.
     let sets = fold (\<lambda>b m. dict_set m (as_sha (bd_artifacts b)) (bd_artifacts b)) runs [] in
     Inr \<lparr>bs_tier = tier, bs_system = system, bs_repetitions = length runs, bs_wall_mean = tl_mean t walls,
          bs_rss_max = int_max peaks, bs_algorithm_mean = (if algorithm = [] then None else Some (tl_mean t algorithm)),
          bs_storage = storage, bs_over_dense = over_dense, bs_over_raw = over_raw, bs_config = bd_config (hd runs),
          bs_measured = sorted_set (filter (\<lambda>p. p \<noteq> []) (map bd_profile runs)),
          bs_inherited = sorted_set (concat (map bd_inherited runs)),
          bs_artifacts = map snd (sort_key fst sets),
          bs_sources = sorted_set (map bd_source runs), bs_evidence = ordered\<rparr>)))))))"

definition keyed_builds :: "tools \<Rightarrow> build list \<Rightarrow> ((pystr \<times> pystr \<times> pystr) \<times> storage \<times> build) list res" where
  "keyed_builds t builds =
     map_res (\<lambda>(b, s). and_then (collector_hash t (storage_json s)) (\<lambda>k. Inr ((bd_tier b, bd_system b, k), s, b)))
       (concat (map (\<lambda>b. case bd_storage b of None \<Rightarrow> [] | Some s \<Rightarrow> [(b, s)]) builds))"

definition one_storage :: "(pystr \<times> pystr \<times> pystr) list \<Rightarrow> bool" where
  "one_storage keys \<longleftrightarrow> list_all (\<lambda>(t, s, k). list_all (\<lambda>(t', s', k'). t = t' \<and> s = s' \<longrightarrow> k = k') keys) keys"

definition aggregate_builds :: "tools \<Rightarrow> build list \<Rightarrow> build_summary list res" where
  "aggregate_builds t builds =
     and_then (keyed_builds t builds) (\<lambda>kbs.
     and_then (require (one_storage (map fst kbs)) (CollectionError ''storage differs across source runs'')) (\<lambda>_.
     map_res (\<lambda>key. let runs = filter (\<lambda>kb. fst kb = key) kbs in
        case key of (tier, system, _) \<Rightarrow>
          aggregate_build t tier system (fst (snd (hd runs))) (map (snd \<circ> snd) runs))
       (sorted_set (map fst kbs))))"

subsection \<open>A bound sample names builds of its own artifacts\<close>

text \<open>The builds but for the profiles that inherit them: binding looks at nothing else.\<close>

definition bare :: "build \<Rightarrow> build" where
  "bare b = b\<lparr>bd_inherited := []\<rparr>"

lemma bare_simps [simp]:
  "bd_source (bare b) = bd_source b" "bd_storage (bare b) = bd_storage b" "build_matches s (bare b) = build_matches s b"
  "bare (inherit p b) = bare b"
  by (simp_all add: bare_def build_matches_def inherit_def split: option.splits)

lemma own_matches_bare: "own_matches (map bare builds) s = map bare (own_matches builds s)"
  by (simp add: own_matches_def filter_map comp_def)

lemma selected_bare: "selected_builds (map bare builds) s = map bare (selected_builds builds s)"
  by (simp add: selected_builds_def own_matches_bare filter_map comp_def)

lemma binding_bare:
  "sample_binding (map bare builds) s = sample_binding builds s" "binding_issues (map bare builds) s = binding_issues builds s"
  by (simp_all add: sample_binding_def binding_issues_def own_matches_bare selected_bare comp_def list_ex_iff Let_def)

lemma inherit_bare: "map bare (inherit_builds builds s) = map bare builds"
  by (auto simp: inherit_builds_def)

lemma sorted_set_set [simp]: "set (sorted_set xs) = set xs"
  by (simp add: sorted_set_def)

lemma sorted_set_strict: "sorted_wrt (<) (sorted_set xs)"
  by (simp add: sorted_set_def strict_sorted_iff)

lemma sorted_set_Nil [simp]: "sorted_set xs = [] \<longleftrightarrow> xs = []"
  by (metis set_empty sorted_set_set)

lemma bind_fold:
  assumes "fold_res bind_sample st samples = Inr st'"
  shows "map bare (bn_builds st') = map bare (bn_builds st)
    \<and> bn_issues st' = bn_issues st @ concat (map (binding_issues (bn_builds st)) samples)
    \<and> bn_samples st' = bn_samples st @ map (\<lambda>s. s\<lparr>sm_binding := Some (sample_binding (bn_builds st) s)\<rparr>) samples
    \<and> (\<forall>s \<in> set samples. sm_reuse_artifacts s \<in> {None, Some (as_sha (sm_artifacts s))})"
  using assms
proof (induction samples arbitrary: st)
  case (Cons s samples)
  then obtain st1 where st1: "bind_sample st s = Inr st1" and rest: "fold_res bind_sample st1 samples = Inr st'"
    by (auto simp: ok_simps)
  from st1 have s: "sm_reuse_artifacts s \<in> {None, Some (as_sha (sm_artifacts s))}"
    and b: "map bare (bn_builds st1) = map bare (bn_builds st)"
    and i: "bn_issues st1 = bn_issues st @ binding_issues (bn_builds st) s"
    and m: "bn_samples st1 = bn_samples st @ [s\<lparr>sm_binding := Some (sample_binding (bn_builds st) s)\<rparr>]"
    by (auto simp: bind_sample_def inherit_bare split: if_splits)
  have "sample_binding (bn_builds st1) x = sample_binding (bn_builds st) x"
    "binding_issues (bn_builds st1) x = binding_issues (bn_builds st) x" for x
    by (metis b binding_bare(1), metis b binding_bare(2))
  then show ?case using Cons.IH [OF rest] b s i m by simp
qed simp

text \<open>What a binding states: builds of the same tier, system and artifacts, those of the sample's own run first.\<close>

definition binding_correct :: "build list \<Rightarrow> sample \<Rightarrow> binding \<Rightarrow> bool" where
  "binding_correct builds s b \<longleftrightarrow>
     (let same = {x \<in> set builds. build_matches s x} in
      bi_artifacts b = as_sha (sm_artifacts s)
      \<and> (bi_status b = u ''measured-in-same-run'' \<longleftrightarrow> sm_source s \<in> bd_source ` same)
      \<and> (bi_status b = u ''unbound'' \<longleftrightarrow> same = {})
      \<and> bi_status b \<in> {u ''measured-in-same-run'', u ''inherited'', u ''unbound''}
      \<and> set (bi_builds b) = (if sm_source s \<in> bd_source ` same then {sm_source s} else bd_source ` same))"

lemma sample_binding_correct: "binding_correct builds s (sample_binding builds s)"
proof -
  have own: "own_matches builds s = [] \<longleftrightarrow> sm_source s \<notin> bd_source ` {x \<in> set builds. build_matches s x}"
    by (force simp: own_matches_def filter_empty_conv)
  have sel: "selected_builds builds s = [] \<longleftrightarrow> {x \<in> set builds. build_matches s x} = {}"
    by (auto simp: selected_builds_def own_matches_def filter_empty_conv)
  have "bd_source ` set (own_matches builds s) = {sm_source s}" if "own_matches builds s \<noteq> []"
    using that by (cases "own_matches builds s") (auto simp: own_matches_def filter_eq_Cons_iff)
  then have "bd_source ` set (selected_builds builds s)
      = (if sm_source s \<in> bd_source ` {x \<in> set builds. build_matches s x} then {sm_source s}
         else bd_source ` {x \<in> set builds. build_matches s x})"
    using own by (auto simp: selected_builds_def)
  moreover have "own_matches builds s \<noteq> [] \<Longrightarrow> selected_builds builds s \<noteq> []" by (simp add: selected_builds_def)
  ultimately show ?thesis using own sel by (auto simp: binding_correct_def sample_binding_def Let_def)
qed

text \<open>
  C26. Binding keeps the samples in order and gives each the builds whose artifacts it searched: measured in its own
  run when such a build exists, else inherited from every run that built these artifacts, else unbound, which is
  recorded as an issue. A sample that attests a reuse was made of exactly the attested artifacts, build and storage.
\<close>

theorem samples_bound_to_their_builds:
  assumes "bind_search_indexes builds issues samples = Inr st"
  shows "list_all2 (\<lambda>s s'. \<exists>b. s' = s\<lparr>sm_binding := Some b\<rparr> \<and> binding_correct builds s b
        \<and> sm_reuse_artifacts s \<in> {None, Some (as_sha (sm_artifacts s))}
        \<and> (bi_status b = u ''unbound'' \<longrightarrow> (\<exists>i \<in> set (bn_issues st). is_code i = u ''unbound-index'' \<and> is_tier i = sm_tier s
              \<and> is_profile i = profile_for (sm_system s) (sm_mode s)))) samples (bn_samples st)
    \<and> map bare (bn_builds st) = map bare builds \<and> set issues \<subseteq> set (bn_issues st)"
proof -
  from bind_fold [OF assms [unfolded bind_search_indexes_def]]
  have b: "map bare (bn_builds st) = map bare builds"
    and i: "bn_issues st = issues @ concat (map (binding_issues builds) samples)"
    and m: "bn_samples st = map (\<lambda>s. s\<lparr>sm_binding := Some (sample_binding builds s)\<rparr>) samples"
    and r: "\<forall>s \<in> set samples. sm_reuse_artifacts s \<in> {None, Some (as_sha (sm_artifacts s))}"
    by simp_all
  have "\<exists>x \<in> set (bn_issues st). is_code x = u ''unbound-index'' \<and> is_tier x = sm_tier s \<and> is_profile x = profile_for (sm_system s) (sm_mode s)"
    if "s \<in> set samples" "bi_status (sample_binding builds s) = u ''unbound''" for s
  proof -
    have "selected_builds builds s = []" using that(2) by (auto simp: sample_binding_def split: if_splits)
    then have "\<exists>x \<in> set (binding_issues builds s). is_code x = u ''unbound-index'' \<and> is_tier x = sm_tier s
        \<and> is_profile x = profile_for (sm_system s) (sm_mode s)"
      by (simp add: binding_issues_def make_issue_def Let_def)
    then show ?thesis using that(1) i by auto
  qed
  then have "\<forall>s \<in> set samples. \<exists>b. s\<lparr>sm_binding := Some (sample_binding builds s)\<rparr> = s\<lparr>sm_binding := Some b\<rparr> \<and> binding_correct builds s b
        \<and> sm_reuse_artifacts s \<in> {None, Some (as_sha (sm_artifacts s))}
        \<and> (bi_status b = u ''unbound'' \<longrightarrow> (\<exists>i \<in> set (bn_issues st). is_code i = u ''unbound-index'' \<and> is_tier i = sm_tier s
              \<and> is_profile i = profile_for (sm_system s) (sm_mode s)))"
    using sample_binding_correct r by blast
  then show ?thesis using b i unfolding m by (auto simp: list_all2_map2 list_all2_same)
qed

subsection \<open>No sample is lost, and nothing is pooled across runs\<close>

definition point_key :: "point \<Rightarrow> point_key" where
  "point_key p = (pt_tier p, pt_corpus p, pt_system p, pt_mode p, pt_parameter p, pt_value p, pt_batch p)"

lemma the_one_ok [ok_simps]: "the_one e xs = Inr x \<longleftrightarrow> xs \<noteq> [] \<and> set xs = {x}"
proof
  assume "the_one e xs = Inr x"
  then have "remdups xs = [x]" by (auto simp: the_one_def split: list.splits)
  then have "set xs = {x}" by (metis list.simps(15) set_empty2 set_remdups)
  then show "xs \<noteq> [] \<and> set xs = {x}" by auto
next
  assume "xs \<noteq> [] \<and> set xs = {x}"
  then have "set (remdups xs) = {x}" "distinct (remdups xs)" by simp_all
  then obtain y ys where "remdups xs = y # ys" by (cases "remdups xs") auto
  moreover from this have "ys = []" using \<open>set (remdups xs) = {x}\<close> \<open>distinct (remdups xs)\<close> by (cases ys) auto
  ultimately show "the_one e xs = Inr x" using \<open>set (remdups xs) = {x}\<close> by (simp add: the_one_def)
qed

text \<open>A point of a group: its key, its repetitions, and what all of its samples share.\<close>

definition pools :: "sample list \<Rightarrow> point \<Rightarrow> bool" where
  "pools runs p \<longleftrightarrow>
     runs \<noteq> [] \<and> pt_repetitions p = length runs \<and> pt_observations p = int (length runs) * pt_queries p
     \<and> (\<forall>s \<in> set runs. sample_key s = point_key p \<and> pt_sources p = [sm_source s] \<and> pt_protocol p = sm_protocol s
          \<and> pt_role p = sm_role s \<and> pt_queries p = sm_queries s
          \<and> (\<exists>b. sm_binding s = Some b \<and> bi_artifacts b = pt_artifacts p \<and> bi_status b \<in> set (pt_statuses p))
          \<and> (\<forall>h. pt_ids_sha p = Some h \<longrightarrow> sm_ids_sha s = Some h))"

lemma those_ok: "those xs = Some ys \<longleftrightarrow> xs = map Some ys"
proof (induction xs arbitrary: ys)
  case (Cons x xs)
  then show ?case by (cases ys; cases x) (auto split: option.splits)
qed auto

lemma group_common_shared:
  assumes "group_common runs = Inr cn"
  shows "runs \<noteq> [] \<and> (\<forall>s \<in> set runs. sm_source s = cn_source cn \<and> sm_protocol s = cn_protocol cn
    \<and> sm_role s = cn_role cn \<and> sm_queries s = cn_queries cn
    \<and> (\<exists>b \<in> set (cn_bindings cn). sm_binding s = Some b \<and> bi_artifacts b = cn_artifacts cn))"
proof -
  obtain bindings where b: "those (map sm_binding runs) = Some bindings" and cn: "cn_bindings cn = bindings"
    and ne: "runs \<noteq> []" and one: "set (map sm_source runs) = {cn_source cn}" "set (map sm_protocol runs) = {cn_protocol cn}"
      "set (map sm_role runs) = {cn_role cn}" "set (map sm_queries runs) = {cn_queries cn}"
      "set (map bi_artifacts bindings) = {cn_artifacts cn}"
    using assms by (auto simp: group_common_def Let_def ok_simps)
  have "\<exists>x \<in> set bindings. sm_binding s = Some x" if "s \<in> set runs" for s
  proof -
    have "sm_binding s \<in> set (map Some bindings)" using b that by (metis those_ok image_eqI list.set_map)
    then show ?thesis by auto
  qed
  then show ?thesis using one ne cn by fastforce
qed

lemma sum_same: "\<forall>s \<in> set xs. f s = (k :: int) \<Longrightarrow> sum_list (map f xs) = int (length xs) * k"
  by (induction xs) (auto simp: algebra_simps)

lemma pooled_ids_same: "pooled_ids runs = Inr (Some h) \<Longrightarrow> s \<in> set runs \<Longrightarrow> sm_ids_sha s = Some h"
proof -
  assume p: "pooled_ids runs = Inr (Some h)" and s: "s \<in> set runs"
  then obtain hs where hs: "map sm_ids_sha runs = map Some hs" "set hs = {h}"
    by (auto simp: pooled_ids_def ok_simps those_ok split: option.splits)
  then have "sm_ids_sha s \<in> Some ` {h}" using s by (metis image_eqI list.set_map)
  then show "sm_ids_sha s = Some h" by simp
qed

lemma aggregate_group_pools:
  assumes "aggregate_group t fsum key runs = Inr p" and "\<forall>s \<in> set runs. sample_key s = key"
  shows "pools runs p" and "point_key p = key"
proof -
  obtain tier corpus system mode parameter val batch where key: "key = (tier, corpus, system, mode, parameter, val, batch)"
    by (metis prod_cases7)
  obtain cn where cn: "group_common runs = Inr cn"
    and p: "pt_sources p = [cn_source cn]" "pt_protocol p = cn_protocol cn" "pt_role p = cn_role cn" "pt_queries p = cn_queries cn"
      "pt_artifacts p = cn_artifacts cn" "pt_statuses p = sorted_set (map bi_status (cn_bindings cn))"
      "pt_repetitions p = length runs" "pt_observations p = sum_list (map sm_queries runs)" "pooled_ids runs = Inr (pt_ids_sha p)"
    and pk: "point_key p = key"
    using assms(1) by (auto simp: aggregate_group_def key ok_simps Let_def point_key_def)
  note shared = group_common_shared [OF cn]
  have "pt_observations p = int (length runs) * pt_queries p"
    using p shared by (simp add: sum_same)
  then show "pools runs p"
    using p pk shared assms(2) pooled_ids_same [of runs] by (fastforce simp: pools_def)
  show "point_key p = key" by (rule pk)
qed

lemma length_group: "length (group_of samples k) = count_list (map sample_key samples) k"
  by (induction samples) (simp_all add: group_of_def)

text \<open>
  C22. The points are one per distinct key, in the order of the keys, and together they count every sample exactly once.
  What a point pools comes from one benchmark run, one protocol and role, one set of index artifacts, one query count and
  one list of result identifiers.
\<close>

theorem points_partition_samples:
  assumes "aggregate_points t fsum samples = Inr points"
  shows "sorted_wrt (<) (map point_key points) \<and> set (map point_key points) = set (map sample_key samples)
    \<and> (\<forall>p \<in> set points. pools (group_of samples (point_key p)) p)
    \<and> sum_list (map pt_repetitions points) = length samples"
proof -
  let ?keys = "sorted_set (map sample_key samples)"
  from assms have n: "length points = length ?keys"
    and nth: "\<And>i. i < length ?keys \<Longrightarrow> aggregate_group t fsum (?keys ! i) (group_of samples (?keys ! i)) = Inr (points ! i)"
    unfolding aggregate_points_def map_res_ok_iff by simp_all
  have of: "\<forall>s \<in> set (group_of samples k). sample_key s = k" for k by (simp add: group_of_def)
  have keys: "map point_key points = ?keys"
  proof (rule nth_equalityI)
    fix i assume "i < length (map point_key points)"
    then have "i < length ?keys" using n by simp
    from aggregate_group_pools(2) [OF nth [OF this] of] show "map point_key points ! i = ?keys ! i"
      using \<open>i < length (map point_key points)\<close> by simp
  qed (simp add: n)
  have pools: "pools (group_of samples (point_key p)) p" if "p \<in> set points" for p
  proof -
    from that obtain i where i: "i < length ?keys" "p = points ! i" using n by (metis in_set_conv_nth)
    then show ?thesis using aggregate_group_pools [OF nth [OF i(1)] of] by simp
  qed
  have "sum_list (map pt_repetitions points) = (\<Sum>k\<leftarrow>?keys. length (group_of samples k))"
    using pools unfolding keys [symmetric] map_map
    by (intro arg_cong [where f = sum_list] map_cong) (auto simp: pools_def)
  also have "\<dots> = (\<Sum>k \<in> set ?keys. length (group_of samples k))"
    by (rule sum_list_distinct_conv_sum_set) (simp add: sorted_set_def)
  also have "\<dots> = length samples"
  proof -
    have "(\<Sum>k \<in> sample_key ` set samples. length (group_of samples k)) = length samples"
      using sum_count_set [of "map sample_key samples" "sample_key ` set samples"] by (simp add: length_group)
    then show ?thesis by simp
  qed
  finally show ?thesis using keys pools sorted_set_strict [of "map sample_key samples"] by simp
qed

subsection \<open>Two repetitions of a reused index\<close>

definition bench_artifacts :: artifact_set where
  "bench_artifacts = \<lparr>as_sha = u ''index'', as_artifacts = []\<rparr>"

definition bench_sample :: sample where
  "bench_sample = \<lparr>sm_tier = u ''1m'', sm_corpus = 5, sm_system = official_system, sm_mode = u ''real'',
     sm_comparable = True, sm_parameter = u ''complexity'', sm_value = 32, sm_batch = 0, sm_queries = 1,
     sm_source = u ''search-run'', sm_protocol = u ''p'', sm_role = u ''official-real-search-reuse'',
     sm_reuse_artifacts = Some (u ''index''), sm_reuse_source = Some (u ''build-run''), sm_reuse_storage = None,
     sm_evidence = [], sm_artifacts = bench_artifacts, sm_latency = [Fin 1], sm_recalls = [],
     sm_counts = [(''candidate_embeddings'', Ints [0])], sm_ids_sha = Some (u ''ids''), sm_binding = None\<rparr>"

definition bench_build :: build where
  "bench_build = \<lparr>bd_tier = u ''1m'', bd_system = official_system, bd_source = u ''build-run'', bd_wall = JInt 1,
     bd_rss = JNull, bd_algorithm = JNull, bd_storage = None, bd_storage_sha = None, bd_config = JNull,
     bd_profile = u ''official-cached'', bd_evidence = JArr [], bd_artifacts = bench_artifacts, bd_inherited = []\<rparr>"

lemma bench_matches: "build_matches bench_sample bench_build" "bd_source bench_build \<noteq> sm_source bench_sample"
  by (simp_all add: build_matches_def bench_sample_def bench_build_def)

theorem samples_bound_to_their_builds_witness:
  "\<exists>st b. bind_search_indexes [bench_build] [] [bench_sample] = Inr st
     \<and> bn_samples st = [bench_sample\<lparr>sm_binding := Some b\<rparr>]
     \<and> binding_correct [bench_build] bench_sample b \<and> set (bi_builds b) = {u ''build-run''}"
proof -
  have reuse: "sm_reuse_artifacts bench_sample = Some (as_sha (sm_artifacts bench_sample))"
    by (simp add: bench_sample_def bench_artifacts_def)
  then obtain st where st: "bind_search_indexes [bench_build] [] [bench_sample] = Inr st"
    by (simp add: bind_search_indexes_def bind_sample_def)
  from samples_bound_to_their_builds [OF st] obtain b where
    b: "bn_samples st = [bench_sample\<lparr>sm_binding := Some b\<rparr>]" "binding_correct [bench_build] bench_sample b"
    by (auto simp: list_all2_Cons1)
  moreover have "set (bi_builds b) = {u ''build-run''}"
    using b(2) bench_matches by (auto simp: binding_correct_def Let_def bench_build_def)
  ultimately show ?thesis using st by blast
qed

theorem points_partition_samples_witness:
  "\<exists>points. aggregate_points sample_tools (\<lambda>_. Fin 0)
      (replicate 2 (bench_sample\<lparr>sm_binding := Some \<lparr>bi_status = u ''inherited'', bi_artifacts = u ''index'', bi_builds = []\<rparr>\<rparr>)) = Inr points
    \<and> sum_list (map pt_repetitions points) = 2"
proof -
  let ?s = "bench_sample\<lparr>sm_binding := Some \<lparr>bi_status = u ''inherited'', bi_artifacts = u ''index'', bi_builds = []\<rparr>\<rparr>"
  have "int_true_div 0 2 = Inr (Fin 0)" by (simp add: int_true_div_def)
  then have "\<exists>p. aggregate_group sample_tools (\<lambda>_. Fin 0) (sample_key ?s) [?s, ?s] = Inr p"
    by (simp add: aggregate_group_def sample_key_def group_common_def the_one_def bench_sample_def pooled_latency_def
        linear_percentile_def pooled_count_def pooled_def series_sum_def total_sum_def per_observation_def pooled_ids_def
        sorted_set_def Let_def)
  then obtain points where "aggregate_points sample_tools (\<lambda>_. Fin 0) (replicate 2 ?s) = Inr points"
    by (auto simp: aggregate_points_def sorted_set_def group_of_def numeral_2_eq_2)
  from points_partition_samples [OF this] this show ?thesis by auto
qed

end
