(* ===== verification/Collect.thy ===== *)
theory Collect
  imports Aggregate RunPlan GroundTruth CacheGen
begin

text \<open>
  The state of the collector of \<open>collect_large_scale_results.py\<close> and the operations every ingest shares: the recounted
  source lines, the validated shared caches, the registered data set of a tier, the loaded ground truth, the checked
  measurement, and the binding of an official observation to the staged Python runtime. The disk does not change while
  the collector runs, so it is a parameter. A measurement and a runtime only touch the file verifier. The lemmas show
  that the memory of the collector never holds anything but what the disk says, so that the work it saves is invisible.
\<close>

subsection \<open>State\<close>

record collector_env =
  ce_tools :: tools
  ce_numerics :: numerics
  ce_disk :: fsys

type_synonym file_key = "pystr \<times> int \<times> pystr"

text \<open>A dataset as registered: the record with the parsed headers of its two caches.\<close>

record tier_data =
  td_record :: dataset_record
  td_corpus :: cache_meta
  td_query :: cache_meta

text \<open>What a sample repeats of its source manifest; \<open>reuse_of\<close> an attested index reuse.\<close>

record reuse_of =
  ru_source :: pystr
  ru_artifacts :: pystr
  ru_storage :: pystr

record source_context =
  sx_role :: pystr
  sx_protocol :: pystr
  sx_reuse :: "reuse_of option"

record stage_entry =
  se_name :: pystr
  se_path :: pystr
  se_sha :: pystr
  se_status :: json

text \<open>The digests of a recorded official attestation.\<close>

record attested =
  ao_runtime :: pystr
  ao_machine :: pystr
  ao_server :: pystr
  ao_embedding :: pystr
  ao_candidate :: pystr

text \<open>A source repeats many fields of its manifest; \<open>sr_manifest\<close> is that manifest.\<close>

record source_record =
  sr_tier :: pystr
  sr_path :: pystr
  sr_sha :: pystr
  sr_manifest :: jobj
  sr_machine :: pystr
  sr_server :: pystr
  sr_attestation :: "attested option"
  sr_reuse :: "jobj option"
  sr_role :: pystr
  sr_protocol :: pystr
  sr_stages :: "stage_entry list"

record tier_prefix =
  tp_documents_bytes :: int
  tp_documents_sha :: pystr
  tp_vector_bytes :: int
  tp_vector_sha :: pystr

record collector =
  co_verifier :: verifier
  co_datasets :: "(pystr \<times> tier_data) list"
  co_sources :: "source_record list"
  co_samples :: "sample list"
  co_builds :: "build list"
  co_issues :: "issue list"
  co_truths :: "(pystr \<times> nat list list) list"
  co_binaries :: "pystr set"
  co_official_commits :: "pystr set"
  co_leann_commits :: "pystr set"
  co_tooling :: "(pystr \<times> pystr) set"
  co_models :: "pystr set"
  co_queries :: "pystr set"
  co_query_counts :: "int set"
  co_dimensions :: "int set"
  co_context :: "(pystr \<times> source_context) list"
  co_runtimes :: "pystr set"
  co_machines :: "pystr set"
  co_servers :: "pystr set"
  co_caches :: "(file_key \<times> cache_meta) list"
  co_lines :: "(file_key \<times> nat) list"
  co_prefix :: "tier_prefix option"

definition new_collector :: "bool \<Rightarrow> collector" where
  "new_collector enabled =
     \<lparr>co_verifier = \<lparr>fv_enabled = enabled, fv_verified = []\<rparr>, co_datasets = [], co_sources = [], co_samples = [],
      co_builds = [], co_issues = [], co_truths = [], co_binaries = {}, co_official_commits = {}, co_leann_commits = {},
      co_tooling = {}, co_models = {}, co_queries = {}, co_query_counts = {}, co_dimensions = {}, co_context = [],
      co_runtimes = {}, co_machines = {}, co_servers = {}, co_caches = [], co_lines = [], co_prefix = None\<rparr>"

definition add_issue :: "collector \<Rightarrow> string \<Rightarrow> pystr \<Rightarrow> pystr \<Rightarrow> pystr \<Rightarrow> collector" where
  "add_issue c code tier profile detail = c\<lparr>co_issues := co_issues c @ [make_issue code tier profile detail]\<rparr>"

definition verify_file :: "collector_env \<Rightarrow> collector \<Rightarrow> json \<Rightarrow> (collector \<times> pystr) res" where
  "verify_file env c snapshot =
     and_then (verify (ce_tools env) (ce_disk env) (co_verifier c) snapshot) (\<lambda>(fv, p). Inr (c\<lparr>co_verifier := fv\<rparr>, p))"

text \<open>\<open>except (...) as error: raise CollectionError\<close>.\<close>

definition rethrow :: "(exn \<Rightarrow> bool) \<Rightarrow> string \<Rightarrow> 'a res \<Rightarrow> 'a res" where
  "rethrow caught message m =
     (case m of Inl e \<Rightarrow> Inl (if caught e then CollectionError message else e) | Inr x \<Rightarrow> Inr x)"

definition os_or_unicode :: "exn \<Rightarrow> bool" where
  "os_or_unicode e = (case e of OSError _ \<Rightarrow> True | UnicodeError _ \<Rightarrow> True | _ \<Rightarrow> False)"

definition os_or_value :: "exn \<Rightarrow> bool" where
  "os_or_value e = (case e of OSError _ \<Rightarrow> True | UnicodeError _ \<Rightarrow> True | ValueError _ \<Rightarrow> True | _ \<Rightarrow> False)"

subsection \<open>Source lines\<close>

definition file_key :: "collector_env \<Rightarrow> jobj \<Rightarrow> (pystr \<times> file_key) res" where
  "file_key env r =
     and_then (nonempty_string (jget r ''path'')) (\<lambda>path.
     and_then (integer (jget r ''size_bytes'') 0) (\<lambda>n.
     and_then (nonempty_string (jget r ''sha256'')) (\<lambda>digest.
     Inr (path, (fs_resolve (ce_disk env) path, n, digest)))))"

definition counted_lines :: "collector_env \<Rightarrow> pystr \<Rightarrow> nat res" where
  "counted_lines env path =
     rethrow os_or_unicode ''cannot count source lines'' (and_then (open_rb (ce_disk env) path) count_nonempty_lines)"

definition line_count :: "collector_env \<Rightarrow> collector \<Rightarrow> jobj \<Rightarrow> (collector \<times> nat) res" where
  "line_count env c r =
     and_then (file_key env r) (\<lambda>(path, key).
     case map_of (co_lines c) key of
       Some n \<Rightarrow> Inr (c, n)
     | None \<Rightarrow> and_then (counted_lines env path) (\<lambda>n. Inr (c\<lparr>co_lines := dict_set (co_lines c) key n\<rparr>, n)))"

subsection \<open>Shared caches\<close>

definition parsed_cache :: "collector_env \<Rightarrow> pystr \<Rightarrow> cache_meta res" where
  "parsed_cache env path =
     and_then (rethrow os_or_value ''invalid LEANNBC2 cache'' (and_then (open_rb (ce_disk env) path)
        (read_cache (tl_host (ce_tools env)) (ce_numerics env) (fs_resolve (ce_disk env) path) True (Some True) 8192))) (\<lambda>(vectors, meta).
     and_then (require (cm_version meta = 2) (CollectionError ''publication caches must use LEANNBC2'')) (\<lambda>_.
     Inr meta))"

definition header_fields :: "string list" where
  "header_fields = [''schema'', ''version'', ''count'', ''dimensions'', ''fingerprint'', ''fingerprint_sha256'',
     ''vector_offset'', ''vector_bytes'', ''size_bytes'', ''source_size_bytes'', ''source_sha256'']"

definition check_header_field :: "jobj \<Rightarrow> cache_meta \<Rightarrow> string \<Rightarrow> unit res" where
  "check_header_field cache_record meta k =
     and_then (require (jhas cache_record k) (CollectionError ''shared cache metadata omits a field'')) (\<lambda>_.
     and_then (jidx (cache_meta_json meta) k) (\<lambda>v.
     require (py_eq (jget cache_record k) v) (CollectionError ''declared field differs from parsed LEANNBC2 header'')))"

definition find_cache :: "collector_env \<Rightarrow> collector \<Rightarrow> jobj \<Rightarrow> (collector \<times> cache_meta) res" where
  "find_cache env c r =
     and_then (file_key env r) (\<lambda>(path, key).
     case map_of (co_caches c) key of
       Some meta \<Rightarrow> Inr (c, meta)
     | None \<Rightarrow> and_then (parsed_cache env (fst key)) (\<lambda>meta. Inr (c\<lparr>co_caches := dict_set (co_caches c) key meta\<rparr>, meta)))"

text \<open>The cache is bound to the source by count, size and digest.\<close>

definition check_cache_source :: "cache_meta \<Rightarrow> jobj \<Rightarrow> nat \<Rightarrow> unit res" where
  "check_cache_source meta source_record source_count =
     and_then (integer (jget source_record ''nonempty_lines'') 1) (\<lambda>declared.
     and_then (require (int source_count = declared) (CollectionError ''source lines differ from the manifest'')) (\<lambda>_.
     and_then (require (cm_count meta = source_count) (CollectionError ''cache/source line counts differ'')) (\<lambda>_.
     and_then (jidx (cache_meta_json meta) ''source_size_bytes'') (\<lambda>n.
     and_then (require (py_eq n (jget source_record ''size_bytes'')) (CollectionError ''LEANNBC2 source byte-size binding differs'')) (\<lambda>_.
     and_then (jidx (cache_meta_json meta) ''source_sha256'') (\<lambda>sha.
     require (py_eq sha (jget source_record ''sha256'')) (CollectionError ''LEANNBC2 source SHA-256 binding differs'')))))))"

definition validate_shared_cache :: "collector_env \<Rightarrow> collector \<Rightarrow> jobj \<Rightarrow> jobj \<Rightarrow> (collector \<times> cache_meta) res" where
  "validate_shared_cache env c cache_record source_record =
     and_then (find_cache env c cache_record) (\<lambda>(c, meta).
     and_then (map_res (check_header_field cache_record meta) header_fields) (\<lambda>_.
     and_then (line_count env c source_record) (\<lambda>(c, n).
     and_then (check_cache_source meta source_record n) (\<lambda>_.
     Inr (c, meta)))))"

subsection \<open>The dataset of a tier\<close>

definition declared_cardinality :: "(pystr \<times> int) list" where
  "declared_cardinality = [(u ''100k'', 100000), (u ''1m'', 1000000)]"

definition verify_shared :: "collector_env \<Rightarrow> collector \<Rightarrow> jobj \<Rightarrow> collector res" where
  "verify_shared env c shared =
     and_then (fold_res (\<lambda>c k. and_then (verify_file env c (jget shared k)) (\<lambda>(c, _). Inr c)) c
        [''documents'', ''queries'', ''corpus_cache'', ''query_cache'', ''ground_truth'']) (\<lambda>c.
     and_then (mapping (jget shared ''model'')) (\<lambda>model.
     and_then (verify_file env c (jget model ''artifact'')) (\<lambda>(c, _). Inr c)))"

definition check_cardinality :: "pystr \<Rightarrow> dataset_record \<Rightarrow> unit res" where
  "check_cardinality tier ds =
     (case map_of declared_cardinality tier of
        None \<Rightarrow> Inr ()
      | Some n \<Rightarrow> require (ds_corpus_count (dr_identity ds) = n) (CollectionError ''tier must contain exactly the declared documents''))"

definition enter_dataset :: "collector \<Rightarrow> pystr \<Rightarrow> tier_data \<Rightarrow> collector res" where
  "enter_dataset c tier td =
     (let ds = dr_identity (td_record td) in
      and_then (require (case map_of (co_datasets c) tier of None \<Rightarrow> True | Some existing \<Rightarrow> existing = td)
        (CollectionError ''shared artifact identity differs within tier'')) (\<lambda>_.
      Inr (c\<lparr>co_datasets := dict_set (co_datasets c) tier td, co_models := insert (ds_model_sha ds) (co_models c),
             co_queries := insert (ds_queries_sha ds) (co_queries c),
             co_query_counts := insert (ds_query_count ds) (co_query_counts c),
             co_dimensions := insert (ds_dimensions ds) (co_dimensions c)\<rparr>)))"

definition register_shared :: "collector_env \<Rightarrow> collector \<Rightarrow> pystr \<Rightarrow> jobj \<Rightarrow> (collector \<times> tier_data) res" where
  "register_shared env c tier shared =
     and_then (verify_shared env c shared) (\<lambda>c.
     and_then (make_dataset_record tier shared) (\<lambda>ds.
     and_then (check_cardinality tier ds) (\<lambda>_.
     and_then (mapping (jget shared ''corpus_cache'')) (\<lambda>corpus.
     and_then (mapping (jget shared ''documents'')) (\<lambda>documents.
     and_then (validate_shared_cache env c corpus documents) (\<lambda>(c, corpus_meta).
     and_then (mapping (jget shared ''query_cache'')) (\<lambda>query_cache.
     and_then (mapping (jget shared ''queries'')) (\<lambda>queries.
     and_then (validate_shared_cache env c query_cache queries) (\<lambda>(c, query_meta).
     let td = \<lparr>td_record = ds, td_corpus = corpus_meta, td_query = query_meta\<rparr> in
     and_then (enter_dataset c tier td) (\<lambda>c. Inr (c, td)))))))))))"

subsection \<open>The ground truth\<close>

definition read_truth :: "collector_env \<Rightarrow> dataset_record \<Rightarrow> pystr \<Rightarrow> nat list list res" where
  "read_truth env ds path =
     (let identity = dr_identity ds in
      and_then (open_rb (ce_disk env) path) (\<lambda>content.
      and_then (read_ground_truth (tl_host (ce_tools env)) (fs_resolve (ce_disk env) path) (Some (nat (ds_query_count identity)))
         (Some (nat (ds_truth_top_k identity))) (Some (nat (ds_corpus_count identity))) content) (\<lambda>(truth, meta).
      and_then (require (tm_sha meta = ds_truth_sha identity) (CollectionError ''ground-truth SHA-256 changed'')) (\<lambda>_.
      Inr truth))))"

definition load_truth :: "collector_env \<Rightarrow> collector \<Rightarrow> dataset_record \<Rightarrow> (collector \<times> nat list list) res" where
  "load_truth env c ds =
     (let path = py_str (ce_tools env) (dr_truth_path ds); key = fs_resolve (ce_disk env) path in
      case map_of (co_truths c) key of
        Some truth \<Rightarrow> Inr (c, truth)
      | None \<Rightarrow> and_then (read_truth env ds path) (\<lambda>truth. Inr (c\<lparr>co_truths := dict_set (co_truths c) key truth\<rparr>, truth)))"

subsection \<open>A measurement\<close>

text \<open>\<open>for x in v\<close>, and \<open>path.suffix == ".json"\<close>.\<close>

definition iter_json :: "json \<Rightarrow> json list res" where
  "iter_json v =
     (case v of
        JArr xs \<Rightarrow> Inr xs
      | JObj m \<Rightarrow> Inr (map (\<lambda>kv. JStr (fst kv)) m)
      | JStr s \<Rightarrow> Inr (map (\<lambda>ch. JStr [ch]) s)
      | _ \<Rightarrow> Inl (TypeError ''not iterable''))"

definition has_json_suffix :: "pystr \<Rightarrow> bool" where
  "has_json_suffix path \<longleftrightarrow> endswith (pure_name path) (u ''.json'') \<and> 5 < length (pure_name path)"

definition result_of_file :: "tools \<Rightarrow> fsys \<Rightarrow> verifier \<Rightarrow> jobj \<Rightarrow> (verifier \<times> jobj option) res" where
  "result_of_file t d fv obs =
     (if \<not> jhas obs ''result_file'' then Inr (fv, None)
      else and_then (verify t d fv (jget obs ''result_file'')) (\<lambda>(fv, path).
        if \<not> has_json_suffix path then Inr (fv, None)
        else and_then (collector_load t d path) (\<lambda>loaded.
          if loaded = JNull then Inr (fv, None)
          else and_then (mapping loaded) (\<lambda>result.
            and_then (require (\<not> jhas obs ''result'' \<or> py_eq (jget obs ''result'') (JObj result))
              (CollectionError ''embedded result differs from result file'')) (\<lambda>_.
            Inr (fv, Some result))))))"

definition verify_each :: "tools \<Rightarrow> fsys \<Rightarrow> verifier \<Rightarrow> json list \<Rightarrow> verifier res" where
  "verify_each t d = fold_res (\<lambda>fv s. and_then (verify t d fv s) (\<lambda>(fv, p). Inr fv))"

definition measurement :: "tools \<Rightarrow> fsys \<Rightarrow> verifier \<Rightarrow> json \<Rightarrow> bool \<Rightarrow> (verifier \<times> jobj \<times> jobj option) res" where
  "measurement t d fv v require_result =
     and_then (mapping v) (\<lambda>obs.
     and_then (require (py_eq (jget obs ''exit_code'') (JInt 0)) (CollectionError ''observation exit code is not zero'')) (\<lambda>_.
     and_then (number (jget obs ''wall_seconds'')) (\<lambda>wall.
     and_then (require (\<not> fl_lt wall (Fin 0)) (CollectionError ''negative wall time'')) (\<lambda>_.
     and_then (result_of_file t d fv obs) (\<lambda>(fv, loaded).
     let result = (case loaded of Some r \<Rightarrow> Some r | None \<Rightarrow> (case jget obs ''result'' of JObj r \<Rightarrow> Some r | _ \<Rightarrow> None)) in
     and_then (require (\<not> require_result \<or> result \<noteq> None) (CollectionError ''missing structured result'')) (\<lambda>_.
     and_then (iter_json (if jhas obs ''artifacts'' then jget obs ''artifacts'' else JArr [])) (\<lambda>artifacts.
     and_then (verify_each t d fv artifacts) (\<lambda>fv.
     and_then (if jget obs ''executable'' = JNull then Inr fv
        else and_then (verify t d fv (jget obs ''executable'')) (\<lambda>(fv, p). Inr fv)) (\<lambda>fv.
     Inr (fv, obs, result))))))))))"

subsection \<open>The runtime of an official observation\<close>

text \<open>\<open>OFFICIAL_RUNTIME_MODULES\<close>, sorted.\<close>

definition runtime_modules :: "string list" where
  "runtime_modules = [''leann'', ''leann_backend_hnsw'', ''leann_backend_hnsw._swigfaiss'', ''leann_backend_hnsw.faiss'',
     ''leann_backend_hnsw.hnsw_backend'']"

type_synonym file_identity = "pystr \<times> pystr"

definition module_file :: "tools \<Rightarrow> fsys \<Rightarrow> verifier \<times> file_identity set \<Rightarrow> json \<Rightarrow> (verifier \<times> file_identity set) res" where
  "module_file t d st v =
     and_then (verify t d (fst st) v) (\<lambda>(fv, path).
     and_then (mapping v) (\<lambda>r.
     and_then (nonempty_string (jget r ''sha256'')) (\<lambda>digest.
     Inr (fv, insert (fs_resolve d path, digest) (snd st)))))"

definition runtime_module ::
  "tools \<Rightarrow> fsys \<Rightarrow> jobj \<Rightarrow> verifier \<times> (string \<times> file_identity set) list \<Rightarrow> string
     \<Rightarrow> (verifier \<times> (string \<times> file_identity set) list) res" where
  "runtime_module t d modules st name =
     and_then (mapping (jget modules name)) (\<lambda>m.
     and_then (nonempty_string (jget m ''path'')) (\<lambda>path.
     and_then (sequence (jget m ''files'')) (\<lambda>files.
     and_then (require (files \<noteq> []) (CollectionError ''runtime module has no hashed files'')) (\<lambda>_.
     and_then (fold_res (module_file t d) (fst st, {}) files) (\<lambda>(fv, identities).
     and_then (require (fs_resolve d path \<in> fst ` identities)
        (CollectionError ''runtime module path is not among its hashed files'')) (\<lambda>_.
     Inr (fv, snd st @ [(name, identities)])))))))"

definition runtime_paths :: "fsys \<Rightarrow> jobj \<Rightarrow> pystr \<Rightarrow> unit res" where
  "runtime_paths d runtime python_path =
     and_then (map_res (\<lambda>k. and_then (nonempty_string (jget runtime k)) (\<lambda>p.
        require (fs_resolve d p = python_path) (CollectionError ''runtime differs from the staged Python executable'')))
        [''executable'', ''launcher'', ''launcher_resolved'']) (\<lambda>_. Inr ())"

text \<open>Imported modules, and the FAISS backend among the files of its module.\<close>

definition runtime_files :: "tools \<Rightarrow> fsys \<Rightarrow> verifier \<Rightarrow> jobj \<Rightarrow> verifier res" where
  "runtime_files t d fv runtime =
     and_then (mapping (jget runtime ''modules'')) (\<lambda>modules.
     and_then (require (set (map fst modules) = set (map u runtime_modules))
        (CollectionError ''official runtime module set differs from the attested LEANN/FAISS module set'')) (\<lambda>_.
     and_then (fold_res (runtime_module t d modules) (fv, []) runtime_modules) (\<lambda>(fv, verified).
     and_then (mapping (jget runtime ''backend_faiss'')) (\<lambda>backend.
     and_then (verify t d fv (JObj backend)) (\<lambda>(fv, path).
     and_then (nonempty_string (jget backend ''sha256'')) (\<lambda>digest.
     case map_of verified ''leann_backend_hnsw.faiss'' of
       None \<Rightarrow> Inl (KeyError ''leann_backend_hnsw.faiss'')
     | Some identities \<Rightarrow>
         and_then (require ((fs_resolve d path, digest) \<in> identities)
           (CollectionError ''runtime FAISS backend differs from the imported LEANN backend module'')) (\<lambda>_.
         Inr fv)))))))"

definition starts_with_python :: "fsys \<Rightarrow> pystr \<Rightarrow> json list \<Rightarrow> bool" where
  "starts_with_python d python_path argv = (case argv of JStr s # _ \<Rightarrow> fs_resolve d s = python_path | _ \<Rightarrow> False)"

definition runtime_commands :: "fsys \<Rightarrow> jobj \<Rightarrow> jobj \<Rightarrow> pystr \<Rightarrow> unit res" where
  "runtime_commands d inputs obs python_path =
     and_then (sequence (jget obs ''command'')) (\<lambda>command.
     and_then (require (command \<noteq> [] \<and> strings_of command \<noteq> None) (CollectionError ''command is not an argv string array'')) (\<lambda>_.
     and_then (require (starts_with_python d python_path command)
        (CollectionError ''observed command did not use the staged Python executable'')) (\<lambda>_.
     and_then (sequence (jget inputs ''command_template'')) (\<lambda>template.
     and_then (require (case template of JStr s # _ \<Rightarrow> True | _ \<Rightarrow> False) (CollectionError ''command template is invalid'')) (\<lambda>_.
     require (starts_with_python d python_path template)
       (CollectionError ''planned command did not use the staged Python executable''))))))"

definition runtime_binding :: "tools \<Rightarrow> fsys \<Rightarrow> verifier \<Rightarrow> jobj \<Rightarrow> jobj \<Rightarrow> (verifier \<times> jobj) res" where
  "runtime_binding t d fv stage obs =
     and_then (mapping (jget stage ''inputs'')) (\<lambda>inputs.
     and_then (mapping (jget inputs ''official_runtime'')) (\<lambda>runtime.
     and_then (mapping (jget inputs ''python'')) (\<lambda>python.
     and_then (verify t d fv (JObj python)) (\<lambda>(fv, path).
     let python_path = fs_resolve d path in
     and_then (runtime_paths d runtime python_path) (\<lambda>_.
     and_then (runtime_files t d fv runtime) (\<lambda>fv.
     and_then (runtime_commands d inputs obs python_path) (\<lambda>_.
     and_then (mapping (jget obs ''executable'')) (\<lambda>executable.
     and_then (verify t d fv (JObj executable)) (\<lambda>(fv, observed).
     and_then (require (fs_resolve d observed = python_path \<and> py_eq (jget executable ''sha256'') (jget python ''sha256''))
        (CollectionError ''observed executable differs from the staged Python snapshot'')) (\<lambda>_.
     Inr (fv, runtime)))))))))))"

subsection \<open>Every operation keeps what the verifier keeps\<close>

text \<open>
  The contract between the verifier and the operations that call it: whatever holds of the verifier and survives one
  verification survives a measurement and a runtime binding, however many files they verify.
\<close>

locale verifier_contract =
  fixes t :: tools and d :: fsys and inv :: "verifier \<Rightarrow> bool"
  assumes verified: "verify t d fv s = Inr (fv', p) \<Longrightarrow> inv fv \<Longrightarrow> inv fv'"
begin

lemma verify_each_kept:
  assumes "verify_each t d fv ss = Inr fv'" and "inv fv"
  shows "inv fv'"
  using assms(1) [unfolded verify_each_def] assms(2)
  by (rule fold_res_invariant) (auto simp: ok_simps intro: verified)

lemma result_of_file_kept: "result_of_file t d fv obs = Inr (fv', r) \<Longrightarrow> inv fv \<Longrightarrow> inv fv'"
  by (auto simp: result_of_file_def ok_simps intro: verified split: if_splits)

lemma measurement_kept:
  assumes "measurement t d fv v b = Inr (fv', obs, r)" and "inv fv"
  shows "inv fv'"
proof -
  from assms(1) obtain fv1 loaded artifacts fv2 where "result_of_file t d fv obs = Inr (fv1, loaded)"
    "verify_each t d fv1 artifacts = Inr fv2"
    "(if jget obs ''executable'' = JNull then Inr fv2 else and_then (verify t d fv2 (jget obs ''executable'')) (\<lambda>(fv, p). Inr fv)) = Inr fv'"
    unfolding measurement_def by (simp add: ok_simps Let_def split: prod.splits) blast
  then show ?thesis using assms(2) result_of_file_kept verify_each_kept verified by (auto simp: ok_simps split: if_splits)
qed

lemma runtime_module_kept:
  assumes "runtime_module t d modules st name = Inr st'" and "inv (fst st)"
  shows "inv (fst st')"
proof -
  from assms(1) obtain files fv fids where "fold_res (module_file t d) (fst st, {}) files = Inr (fv, fids)" "fst st' = fv"
    by (auto simp: runtime_module_def ok_simps)
  moreover from this(1) have "inv (fst (fv, fids))"
    by (rule fold_res_invariant) (auto simp: assms(2) module_file_def ok_simps intro: verified)
  ultimately show ?thesis by simp
qed

lemma runtime_files_kept:
  assumes "runtime_files t d fv runtime = Inr fv'" and "inv fv"
  shows "inv fv'"
proof -
  from assms(1) obtain modules fv1 vs where f: "fold_res (runtime_module t d modules) (fv, []) runtime_modules = Inr (fv1, vs)"
    and v: "\<exists>s p. verify t d fv1 s = Inr (fv', p)"
    unfolding runtime_files_def by (simp add: ok_simps split: prod.splits) blast
  from f have "inv (fst (fv1, vs))"
    by (rule fold_res_invariant) (auto simp: assms(2) intro: runtime_module_kept)
  then show ?thesis using v verified by auto
qed

lemma runtime_binding_kept:
  assumes "runtime_binding t d fv stage obs = Inr (fv', runtime)" and "inv fv"
  shows "inv fv'"
proof -
  from assms(1) obtain s1 p1 fv1 fv2 s2 p2 where "verify t d fv s1 = Inr (fv1, p1)" "runtime_files t d fv1 runtime = Inr fv2"
    "verify t d fv2 s2 = Inr (fv', p2)"
    unfolding runtime_binding_def by (simp add: ok_simps Let_def split: prod.splits) blast
  then show ?thesis using assms(2) verified runtime_files_kept by blast
qed

end

interpretation sound: verifier_contract t d "verifier_ok t d" for t d
  by unfold_locales (rule verify_sound(1))

subsection \<open>What the collector holds\<close>

text \<open>
  Memory: what is remembered of a cache or of the lines of a source is what the disk says. Datasets: the tier has its
  declared size and the document file is on the disk with its digest. Samples and builds: the files they name as
  evidence and the index files they searched or built are on the disk with the recorded digests.
\<close>

definition lines_on_disk :: "fsys \<Rightarrow> file_key \<times> nat \<Rightarrow> bool" where
  "lines_on_disk d kn = (case fs_file d (fst (fst kn)) of None \<Rightarrow> False | Some content \<Rightarrow> count_nonempty_lines content = Inr (snd kn))"

definition cache_on_disk :: "collector_env \<Rightarrow> file_key \<times> cache_meta \<Rightarrow> bool" where
  "cache_on_disk env km \<longleftrightarrow> parsed_cache env (fst (fst km)) = Inr (snd km)"

definition documents_on_disk :: "collector_env \<Rightarrow> dataset_record \<Rightarrow> bool" where
  "documents_on_disk env ds =
     (case dr_documents_path ds of
        JStr p \<Rightarrow>
          (case file_at (ce_disk env) p of
             None \<Rightarrow> False
           | Some content \<Rightarrow> int (length content) = dr_raw_bytes ds
               \<and> sha_hex (tl_host (ce_tools env)) content = ds_documents_sha (dr_identity ds))
      | _ \<Rightarrow> False)"

definition dataset_ok :: "collector_env \<Rightarrow> pystr \<times> tier_data \<Rightarrow> bool" where
  "dataset_ok env e \<longleftrightarrow>
     check_cardinality (fst e) (td_record (snd e)) = Inr () \<and> 1 \<le> ds_query_count (dr_identity (td_record (snd e)))
     \<and> documents_on_disk env (td_record (snd e))"

definition artifact_json :: "artifact \<Rightarrow> json" where
  "artifact_json a = JObj (jobj [(''path'', af_path a), (''size_bytes'', af_size a), (''sha256'', af_sha a)])"

definition artifacts_on_disk :: "collector_env \<Rightarrow> artifact_set \<Rightarrow> bool" where
  "artifacts_on_disk env as \<longleftrightarrow> list_all (\<lambda>a. snapshot_matches (ce_tools env) (ce_disk env) (artifact_json a)) (as_artifacts as)"

definition evidence_on_disk :: "collector_env \<Rightarrow> json \<Rightarrow> bool" where
  "evidence_on_disk env e =
     (case e of JArr xs \<Rightarrow> list_all (snapshot_matches (ce_tools env) (ce_disk env)) xs
      | v \<Rightarrow> snapshot_matches (ce_tools env) (ce_disk env) v)"

definition sample_on_disk :: "collector_env \<Rightarrow> sample \<Rightarrow> bool" where
  "sample_on_disk env s \<longleftrightarrow> evidence_on_disk env (JObj (sm_evidence s)) \<and> artifacts_on_disk env (sm_artifacts s)"

definition build_on_disk :: "collector_env \<Rightarrow> build \<Rightarrow> bool" where
  "build_on_disk env b \<longleftrightarrow> evidence_on_disk env (bd_evidence b) \<and> artifacts_on_disk env (bd_artifacts b)"

text \<open>One value per query in every series of a sample.\<close>

fun series_length :: "series \<Rightarrow> int" where
  "series_length (Ints ks) = int (length ks)"
| "series_length (Floats xs) = int (length xs)"

definition sample_complete :: "sample \<Rightarrow> bool" where
  "sample_complete s \<longleftrightarrow>
     1 \<le> sm_queries s \<and> int (length (sm_latency s)) = sm_queries s
     \<and> list_all (\<lambda>r. int (length (snd r)) = sm_queries s) (sm_recalls s)
     \<and> list_all (\<lambda>r. series_length (snd r) = sm_queries s) (sm_counts s)"

definition collector_ok :: "collector_env \<Rightarrow> collector \<Rightarrow> bool" where
  "collector_ok env c \<longleftrightarrow>
     verifier_ok (ce_tools env) (ce_disk env) (co_verifier c)
     \<and> list_all (cache_on_disk env) (co_caches c) \<and> list_all (lines_on_disk (ce_disk env)) (co_lines c)
     \<and> list_all (dataset_ok env) (co_datasets c)
     \<and> list_all (\<lambda>s. sample_complete s \<and> sample_on_disk env s \<and> sm_role s \<noteq> u ''native-gate'') (co_samples c)
     \<and> list_all (build_on_disk env) (co_builds c)"

lemma new_collector_ok: "collector_ok env (new_collector True)"
  by (simp add: collector_ok_def new_collector_def verifier_ok_def)

lemma add_issue_ok [simp]: "collector_ok env (add_issue c code tier profile detail) = collector_ok env c"
  by (simp add: collector_ok_def add_issue_def)

lemma list_all_dict_set: "list_all P m \<Longrightarrow> P (k, v) \<Longrightarrow> list_all P (dict_set m k v)"
  using values_dict_set [of _ m k v] by (auto simp: list_all_iff)

lemma verify_file_ok:
  "verify_file env c s = Inr (c', p) \<Longrightarrow> collector_ok env c \<Longrightarrow>
     collector_ok env c' \<and> snapshot_matches (ce_tools env) (ce_disk env) s"
  by (auto simp: verify_file_def collector_ok_def ok_simps intro: verify_sound(1,2))

lemma rethrow_ok [ok_simps]: "rethrow caught message m = Inr x \<longleftrightarrow> m = Inr x"
  by (auto simp: rethrow_def split: sum.splits)

lemma file_key_ok: "file_key env r = Inr (path, key) \<Longrightarrow> fst key = fs_resolve (ce_disk env) path"
  by (auto simp: file_key_def ok_simps)

lemma line_count_kept:
  assumes "line_count env c r = Inr (c', n)" and "collector_ok env c"
  shows "collector_ok env c'"
proof -
  from assms(1) obtain path key where k: "file_key env r = Inr (path, key)"
    and rest: "(case map_of (co_lines c) key of Some n \<Rightarrow> Inr (c, n)
      | None \<Rightarrow> and_then (counted_lines env path) (\<lambda>n. Inr (c\<lparr>co_lines := dict_set (co_lines c) key n\<rparr>, n))) = Inr (c', n)"
    by (auto simp: line_count_def ok_simps)
  show ?thesis
  proof (cases "map_of (co_lines c) key")
    case None
    then have c': "c' = c\<lparr>co_lines := dict_set (co_lines c) key n\<rparr>" and n: "counted_lines env path = Inr n"
      using rest by (auto simp: ok_simps)
    have "lines_on_disk (ce_disk env) (key, n)"
      using n file_key_ok [OF k] by (auto simp: lines_on_disk_def counted_lines_def ok_simps open_rb_def split: option.splits)
    then have "list_all (lines_on_disk (ce_disk env)) (dict_set (co_lines c) key n)"
      using assms(2) by (intro list_all_dict_set) (simp_all add: collector_ok_def)
    then show ?thesis using assms(2) unfolding c' collector_ok_def by simp
  qed (use rest assms(2) in simp)
qed

lemma find_cache_kept:
  assumes "find_cache env c r = Inr (c', meta)" and "collector_ok env c"
  shows "collector_ok env c' \<and> (\<exists>path key. file_key env r = Inr (path, key) \<and> parsed_cache env (fst key) = Inr meta)"
proof -
  from assms(1) obtain path key where k: "file_key env r = Inr (path, key)"
    and rest: "(case map_of (co_caches c) key of Some meta \<Rightarrow> Inr (c, meta)
      | None \<Rightarrow> and_then (parsed_cache env (fst key)) (\<lambda>meta. Inr (c\<lparr>co_caches := dict_set (co_caches c) key meta\<rparr>, meta))) = Inr (c', meta)"
    by (auto simp: find_cache_def ok_simps)
  have caches: "list_all (cache_on_disk env) (co_caches c)" using assms(2) by (simp add: collector_ok_def)
  show ?thesis
  proof (cases "map_of (co_caches c) key")
    case None
    then have c': "c' = c\<lparr>co_caches := dict_set (co_caches c) key meta\<rparr>" and n: "parsed_cache env (fst key) = Inr meta"
      using rest by (auto simp: ok_simps)
    have "list_all (cache_on_disk env) (dict_set (co_caches c) key meta)"
      using caches n by (intro list_all_dict_set) (simp_all add: cache_on_disk_def)
    then show ?thesis using assms(2) k n unfolding c' collector_ok_def by simp
  next
    case (Some m)
    then have "cache_on_disk env (key, m)" using caches map_of_SomeD by (fastforce simp: list_all_iff)
    then show ?thesis using Some rest assms(2) k by (simp add: cache_on_disk_def)
  qed
qed

lemma validate_shared_cache_kept:
  assumes "validate_shared_cache env c r src = Inr (c', meta)" and "collector_ok env c"
  shows "collector_ok env c'"
proof -
  from assms(1) obtain c1 n where "find_cache env c r = Inr (c1, meta)" "line_count env c1 src = Inr (c', n)"
    unfolding validate_shared_cache_def by (simp add: ok_simps split: prod.splits) blast
  then show ?thesis using assms(2) find_cache_kept line_count_kept by blast
qed

lemma verify_shared_kept:
  assumes "verify_shared env c shared = Inr c'" and "collector_ok env c"
  shows "collector_ok env c'" and "snapshot_matches (ce_tools env) (ce_disk env) (jget shared ''documents'')"
proof -
  let ?step = "\<lambda>c k. and_then (verify_file env c (jget shared k)) (\<lambda>(c, _). Inr c)"
  from assms(1) obtain c1 p1 c2 where first: "verify_file env c (jget shared ''documents'') = Inr (c1, p1)"
    and rest: "fold_res ?step c1 [''queries'', ''corpus_cache'', ''query_cache'', ''ground_truth''] = Inr c2"
    and last: "\<exists>s p. verify_file env c2 s = Inr (c', p)"
    unfolding verify_shared_def by (simp add: ok_simps split: prod.splits) blast
  show "snapshot_matches (ce_tools env) (ce_disk env) (jget shared ''documents'')"
    using verify_file_ok [OF first assms(2)] by simp
  from rest have "collector_ok env c2"
    by (rule fold_res_invariant) (use verify_file_ok [OF first assms(2)] verify_file_ok in \<open>auto simp: ok_simps\<close>)
  then show "collector_ok env c'" using last verify_file_ok by blast
qed

lemma make_dataset_record_ok:
  assumes "make_dataset_record tier shared = Inr ds"
    and "snapshot_matches (ce_tools env) (ce_disk env) (jget shared ''documents'')"
  shows "documents_on_disk env ds \<and> 1 \<le> ds_query_count (dr_identity ds)"
proof -
  from assms(1) obtain identity documents corpus truth raw dense where i: "shared_identity shared = Inr identity"
    and doc: "member shared ''documents'' = Inr documents" and raw: "integer (jget documents ''size_bytes'') 1 = Inr raw"
    and ds: "ds = \<lparr>dr_tier = tier, dr_identity = identity, dr_raw_bytes = raw, dr_dense_bytes = dense,
       dr_documents_path = jget documents ''path'', dr_corpus_cache_path = jget corpus ''path'', dr_truth_path = jget truth ''path''\<rparr>"
    unfolding make_dataset_record_def by (simp add: ok_simps) blast
  have d: "jget shared ''documents'' = JObj documents" using doc by (simp add: member_def ok_simps jget_def)
  from i obtain documents' queries corpus' query_cache truth' model artifact where
    "member shared ''documents'' = Inr documents'" "identity_fields documents' queries corpus' query_cache truth' model artifact = Inr identity"
    unfolding shared_identity_def by (simp add: ok_simps) blast
  then have f: "identity_fields documents queries corpus' query_cache truth' model artifact = Inr identity" using doc by simp
  then have sha: "jget documents ''sha256'' = JStr (ds_documents_sha identity)" and q: "1 \<le> ds_query_count identity"
    by (auto simp: identity_fields_def identity_sha_def ok_simps)
  have "jget documents ''size_bytes'' = JInt raw" using raw by (simp add: ok_simps)
  then show ?thesis
    using assms(2) sha q unfolding ds d
    by (auto simp: snapshot_matches_def key_matches_def documents_on_disk_def file_at_def split: json.splits option.splits)
qed

lemma register_shared_kept:
  assumes "register_shared env c tier shared = Inr (c', td)" and "collector_ok env c"
  shows "collector_ok env c' \<and> 1 \<le> ds_query_count (dr_identity (td_record td))"
proof -
  from assms(1) obtain c1 ds corpus documents c2 m1 queries query_cache c3 m2 where r:
    "verify_shared env c shared = Inr c1" "make_dataset_record tier shared = Inr ds" "check_cardinality tier ds = Inr ()"
    "validate_shared_cache env c1 corpus documents = Inr (c2, m1)" "validate_shared_cache env c2 query_cache queries = Inr (c3, m2)"
    and td: "td = \<lparr>td_record = ds, td_corpus = m1, td_query = m2\<rparr>" and e: "enter_dataset c3 tier td = Inr c'"
    unfolding register_shared_def by (simp add: ok_simps Let_def split: prod.splits) blast
  note v = verify_shared_kept [OF r(1) assms(2)]
  have ok: "collector_ok env c3" using v(1) r(4,5) validate_shared_cache_kept by blast
  have ds: "dataset_ok env (tier, td)" using make_dataset_record_ok [OF r(2) v(2)] r(3) by (simp add: dataset_ok_def td)
  have "list_all (dataset_ok env) (dict_set (co_datasets c3) tier td)"
    using ok ds by (intro list_all_dict_set) (simp_all add: collector_ok_def)
  then show ?thesis using e ok ds by (auto simp: enter_dataset_def ok_simps Let_def collector_ok_def dataset_ok_def)
qed

lemma load_truth_kept: "load_truth env c ds = Inr (c', truth) \<Longrightarrow> collector_ok env c \<Longrightarrow> collector_ok env c'"
  by (auto simp: load_truth_def Let_def ok_simps collector_ok_def split: option.splits)

text \<open>The identity of an artifact set is that of verified snapshots.\<close>

lemma artifact_json_of: "artifact_json (artifact_of t (JObj m)) = JObj (snapshot_identity m)"
  by (simp add: artifact_json_def artifact_of_def snapshot_identity_def)

lemma snapshot_matches_identity: "snapshot_matches t d (JObj (snapshot_identity m)) = snapshot_matches t d (JObj m)"
  by (simp add: snapshot_matches_def snapshot_identity_def)

lemma artifact_set_on_disk:
  assumes "make_artifact_set (ce_tools env) (JArr vals) = Inr as" and "list_all (snapshot_matches (ce_tools env) (ce_disk env)) vals"
  shows "artifacts_on_disk env as"
proof -
  from assms(1) obtain out where out: "fold_res (artifact_step (ce_tools env)) [] vals = Inr out" "as_artifacts as = sort_key af_name out"
    by (auto simp: make_artifact_set_def ok_simps Let_def)
  have o1: "\<forall>v \<in> set vals. \<exists>s. v = JObj s" and o2: "out = map (artifact_of (ce_tools env)) vals"
    using artifact_fold_ok [of "[]" "ce_tools env" vals out] out(1) by simp_all
  have "snapshot_matches (ce_tools env) (ce_disk env) (artifact_json (artifact_of (ce_tools env) v))" if "v \<in> set vals" for v
    using that o1 assms(2) artifact_json_of snapshot_matches_identity by (fastforce simp: list_all_iff)
  then show ?thesis using out(2) o2 by (simp add: artifacts_on_disk_def list_all_iff)
qed

lemma verify_each_matches:
  "verify_each t d fv ss = Inr fv' \<Longrightarrow> verifier_ok t d fv \<Longrightarrow> list_all (snapshot_matches t d) ss"
proof (induction ss arbitrary: fv)
  case (Cons s ss)
  then obtain fv1 p where "verify t d fv s = Inr (fv1, p)" "verify_each t d fv1 ss = Inr fv'"
    by (auto simp: verify_each_def ok_simps)
  then show ?case using verify_sound(1,2) [of t d fv s fv1 p] Cons by simp
qed simp

text \<open>The files a checked measurement names are on the disk.\<close>

lemma measurement_evidence:
  assumes "measurement t d fv v b = Inr (fv', obs, r)" and "verifier_ok t d fv"
  shows "jhas obs ''result_file'' \<Longrightarrow> snapshot_matches t d (jget obs ''result_file'')"
    and "jget obs ''artifacts'' = JArr xs \<Longrightarrow> list_all (snapshot_matches t d) xs"
proof -
  from assms(1) obtain fv1 loaded artifacts fv2 where m: "result_of_file t d fv obs = Inr (fv1, loaded)"
    "iter_json (if jhas obs ''artifacts'' then jget obs ''artifacts'' else JArr []) = Inr artifacts"
    "verify_each t d fv1 artifacts = Inr fv2"
    unfolding measurement_def by (simp add: ok_simps Let_def split: prod.splits) blast
  show "jhas obs ''result_file'' \<Longrightarrow> snapshot_matches t d (jget obs ''result_file'')"
    using m(1) assms(2) by (auto simp: result_of_file_def ok_simps intro: verify_sound(2))
  have "verifier_ok t d fv1" using m(1) assms(2) by (rule sound.result_of_file_kept)
  moreover have "artifacts = xs" if "jget obs ''artifacts'' = JArr xs"
    using m(2) that by (auto simp: iter_json_def jhas_def jget_def split: option.splits if_splits)
  ultimately show "jget obs ''artifacts'' = JArr xs \<Longrightarrow> list_all (snapshot_matches t d) xs"
    using m(3) verify_each_matches by blast
qed

end
