(* ===== verification/Ingest.thy ===== *)
theory Ingest
  imports Collect
begin

text \<open>
  What the collector takes from one recorded stage: the builds and statistics of the native program, its search
  repetitions, and the builds and search points of the official program (\<open>_native_build\<close>, \<open>_native_stats\<close>,
  \<open>_native_search\<close>, \<open>_official_build\<close>, \<open>_official_search\<close>). Every operation checks the evidence of a measurement,
  recomputes what it can, and appends builds or samples to the collector. A raised exception ends the whole
  collection, so that the state is only that of the successful path. The lemmas show what a sample that was
  accepted is worth: the file it names is on the disk with the recorded digest, and its series are complete.
\<close>

text \<open>\<open>_snapshot_identity(observation["result_file"])\<close>, and \<open>self._source_context[source_sha]\<close>.\<close>

definition evidence_of :: "jobj \<Rightarrow> jobj res" where
  "evidence_of obs = and_then (jidx obs ''result_file'') (\<lambda>v.
     case v of JObj s \<Rightarrow> Inr (snapshot_identity s) | _ \<Rightarrow> Inl (AttributeError ''get''))"

definition context_of :: "collector \<Rightarrow> pystr \<Rightarrow> source_context res" where
  "context_of c source = (case map_of (co_context c) source of None \<Rightarrow> Inl (KeyError ''source'') | Some x \<Rightarrow> Inr x)"

text \<open>\<open>int(text)\<close> with \<open>except ValueError: raise CollectionError\<close>.\<close>

definition text_int :: "string \<Rightarrow> pystr \<Rightarrow> int res" where
  "text_int message s = (case py_int s of None \<Rightarrow> Inl (CollectionError message) | Some i \<Rightarrow> Inr i)"

definition optional_text :: "pystr option \<Rightarrow> json" where
  "optional_text x = (case x of None \<Rightarrow> JNull | Some s \<Rightarrow> JStr s)"

subsection \<open>Native builds\<close>

definition native_config :: "jobj \<Rightarrow> json res" where
  "native_config obs =
     and_then (argv_value (jget obs ''command'') ''--graph-degree'') (\<lambda>degree.
     and_then (argv_value (jget obs ''command'') ''--ef-construction'') (\<lambda>ef.
     Inr (JObj (jobj [(''graph_degree'', optional_text degree), (''ef_construction'', optional_text ef)]))))"

definition native_build_of :: "tools \<Rightarrow> pystr \<Rightarrow> pystr \<Rightarrow> jobj \<Rightarrow> build res" where
  "native_build_of t tier source obs =
     and_then (jidx obs ''wall_seconds'') (\<lambda>wall.
     and_then (native_config obs) (\<lambda>config.
     and_then (make_artifact_set t (jget obs ''artifacts'')) (\<lambda>artifacts.
     Inr \<lparr>bd_tier = tier, bd_system = native_system, bd_source = source, bd_wall = wall, bd_rss = jget obs ''peak_rss_bytes'',
       bd_algorithm = JNull, bd_storage = None, bd_storage_sha = None, bd_config = config, bd_profile = u ''native'',
       bd_evidence = (if jhas obs ''artifacts'' then jget obs ''artifacts'' else JArr []), bd_artifacts = artifacts,
       bd_inherited = []\<rparr>)))"

definition native_build_step :: "collector_env \<Rightarrow> pystr \<Rightarrow> pystr \<Rightarrow> collector \<Rightarrow> json \<Rightarrow> collector res" where
  "native_build_step env tier source c v =
     and_then (measurement (ce_tools env) (ce_disk env) (co_verifier c) v False) (\<lambda>(fv, obs, _).
     and_then (context_of c source) (\<lambda>_.
     and_then (native_build_of (ce_tools env) tier source obs) (\<lambda>b.
     Inr (c\<lparr>co_verifier := fv, co_builds := co_builds c @ [b]\<rparr>))))"

definition native_build :: "collector_env \<Rightarrow> collector \<Rightarrow> pystr \<Rightarrow> pystr \<Rightarrow> jobj \<Rightarrow> collector res" where
  "native_build env c tier source stage =
     and_then (sequence (jget stage ''measurements'')) (\<lambda>ms.
     and_then (fold_res (native_build_step env tier source) c ms) (\<lambda>c.
     Inr (if ms = [] then add_issue c ''no-measurements'' tier (u ''native'') (u ''stage has no measurement'') else c)))"

subsection \<open>Native statistics\<close>

text \<open>The artifacts whose path has a suffix.\<close>

definition artifacts_ending :: "tools \<Rightarrow> string \<Rightarrow> json list \<Rightarrow> jobj list res" where
  "artifacts_ending t ending artifacts =
     and_then (map_res mapping artifacts) (\<lambda>ms.
     Inr (filter (\<lambda>m. endswith (py_str t (if jhas m ''path'' then jget m ''path'' else JStr [])) (u ending)) ms))"

definition check_stats :: "jobj \<Rightarrow> dataset_record \<Rightarrow> int res" where
  "check_stats parsed ds =
     and_then (integer (jget parsed ''index_bytes'') 1) (\<lambda>index_bytes.
     and_then (require (py_eq (jget parsed ''nodes'') (JInt (ds_corpus_count (dr_identity ds)))) (CollectionError ''stats node count differs'')) (\<lambda>_.
     and_then (require (py_eq (jget parsed ''dimension'') (JInt (ds_dimensions (dr_identity ds)))) (CollectionError ''stats dimensions differ'')) (\<lambda>_.
     and_then (require (py_eq (jget parsed ''dense_vector_bytes_avoided'') (JInt (dr_dense_bytes ds))) (CollectionError ''dense byte baseline differs'')) (\<lambda>_.
     Inr index_bytes))))"

definition store_bytes :: "tools \<Rightarrow> json list \<Rightarrow> int \<Rightarrow> int res" where
  "store_bytes t artifacts index_bytes =
     and_then (artifacts_ending t ''.leann'' artifacts) (\<lambda>index.
     and_then (artifacts_ending t ''.docs'' artifacts) (\<lambda>docs.
     case (index, docs) of
       ([i], [d]) \<Rightarrow>
         and_then (require (py_eq (jget i ''size_bytes'') (JInt index_bytes)) (CollectionError ''index artifact size differs'')) (\<lambda>_.
         integer (jget d ''size_bytes'') 0)
     | _ \<Rightarrow> Inl (CollectionError ''expected one .leann and one .docs artifact'')))"

definition native_storage :: "dataset_record \<Rightarrow> int \<Rightarrow> int \<Rightarrow> storage" where
  "native_storage ds index_bytes text_bytes =
     \<lparr>st_vector_index = index_bytes, st_lookup_aux = 0, st_vector_serving = index_bytes, st_text_store = text_bytes,
      st_total = index_bytes + text_bytes, st_dense = dr_dense_bytes ds, st_raw = dr_raw_bytes ds,
      st_definition = u ''vector_serving_bytes is the native .leann graph/PQ/metadata artifact; the .docs text store is reported separately''\<rparr>"

text \<open>\<open>sample.setdefault("config", {})["approximation"] = ...\<close>.\<close>

definition with_approximation :: "jobj \<Rightarrow> json \<Rightarrow> json" where
  "with_approximation parsed config =
     (case config of JObj m \<Rightarrow> JObj (dict_set m (u ''approximation'') (jget parsed ''approximation'')) | v \<Rightarrow> v)"

definition of_native_run :: "pystr \<Rightarrow> pystr \<Rightarrow> build \<Rightarrow> bool" where
  "of_native_run tier source b \<longleftrightarrow> bd_tier b = tier \<and> bd_system b = native_system \<and> bd_source b = source"

definition native_stats :: "collector_env \<Rightarrow> collector \<Rightarrow> pystr \<Rightarrow> pystr \<Rightarrow> jobj \<Rightarrow> dataset_record \<Rightarrow> collector res" where
  "native_stats env c tier source stage ds =
     and_then (sequence (jget stage ''measurements'')) (\<lambda>ms.
     if ms = [] then Inr (add_issue c ''no-measurements'' tier (u ''native'') (u ''stage has no measurement''))
     else
       and_then (measurement (ce_tools env) (ce_disk env) (co_verifier c) (last ms) False) (\<lambda>(fv, obs, _).
       and_then (mapping (jget obs ''parsed_stdout'')) (\<lambda>parsed.
       and_then (check_stats parsed ds) (\<lambda>index_bytes.
       and_then (sequence (jget obs ''artifacts'')) (\<lambda>artifacts.
       and_then (make_artifact_set (ce_tools env) (JArr artifacts)) (\<lambda>stats_set.
       and_then (store_bytes (ce_tools env) artifacts index_bytes) (\<lambda>text_bytes.
       let own = filter (of_native_run tier source) (co_builds c) in
       and_then (require (own \<noteq> []) (CollectionError ''native stats has no build observation to bind'')) (\<lambda>_.
       and_then (require (list_all (\<lambda>b. as_sha (bd_artifacts b) = as_sha stats_set) own)
          (CollectionError ''native stats artifact set differs from its build observation artifact set'')) (\<lambda>_.
       Inr (c\<lparr>co_verifier := fv, co_builds := map (\<lambda>b. if of_native_run tier source b
          then b\<lparr>bd_storage := Some (native_storage ds index_bytes text_bytes), bd_config := with_approximation parsed (bd_config b)\<rparr>
          else b) (co_builds c)\<rparr>))))))))))"

subsection \<open>Native search\<close>

text \<open>\<open>int(...)\<close> of \<open>native-search-ef(\d+)\<close>.\<close>

definition stage_ef :: "pystr \<Rightarrow> int res" where
  "stage_ef name =
     (let digits = drop (length (u ''native-search-ef'')) name in
      if startswith name (u ''native-search-ef'') \<and> digits \<noteq> [] \<and> list_all (\<lambda>ch. digit_val ch \<noteq> None) digits
      then decimal_int digits else Inl (CollectionError ''invalid native search stage name''))"

definition native_counts :: "native_row list \<Rightarrow> (string \<times> series) list" where
  "native_counts rows =
     [(''candidate_embeddings'', Ints (map (\<lambda>r. nr_counters r ! 0) rows)),
      (''approximate_distances'', Ints (map (\<lambda>r. nr_counters r ! 1) rows)),
      (''upper_layer_hops'', Ints (map (\<lambda>r. nr_counters r ! 2) rows)),
      (''embedding_batches'', Ints (map (\<lambda>r. nr_counters r ! 3) rows))]"

text \<open>The command of the measurement names the same \<open>ef\<close> as the stage; its batch size.\<close>

definition native_options :: "jobj \<Rightarrow> int \<Rightarrow> int res" where
  "native_options obs ef =
     and_then (argv_value (jget obs ''command'') ''--ef-search'') (\<lambda>e.
     and_then (case e of None \<Rightarrow> Inr None
        | Some s \<Rightarrow> and_then (text_int ''command ef-search is not an integer'' s) (\<lambda>i. Inr (Some i))) (\<lambda>command_ef.
     and_then (require (command_ef = Some ef) (CollectionError ''command ef-search differs from stage'')) (\<lambda>_.
     and_then (argv_value (jget obs ''command'') ''--recompute-batch'') (\<lambda>b.
     case b of None \<Rightarrow> Inl (CollectionError ''missing recompute batch'')
     | Some s \<Rightarrow> text_int ''invalid recompute batch'' s))))"

definition new_sample :: "pystr \<Rightarrow> dataset \<Rightarrow> pystr \<Rightarrow> source_context \<Rightarrow> pystr \<Rightarrow> pystr \<Rightarrow> int \<times> int \<Rightarrow> jobj \<Rightarrow> artifact_set \<Rightarrow> sample" where
  "new_sample tier ds source sx system mode config evidence artifacts =
     \<lparr>sm_tier = tier, sm_corpus = ds_corpus_count ds, sm_system = system, sm_mode = mode, sm_comparable = (mode = u ''real''),
      sm_parameter = (if system = native_system then u ''ef_search'' else u ''complexity''), sm_value = fst config,
      sm_batch = snd config, sm_queries = ds_query_count ds, sm_source = source, sm_protocol = sx_protocol sx,
      sm_role = sx_role sx, sm_reuse_artifacts = map_option ru_artifacts (sx_reuse sx),
      sm_reuse_source = map_option ru_source (sx_reuse sx), sm_reuse_storage = map_option ru_storage (sx_reuse sx),
      sm_evidence = evidence, sm_artifacts = artifacts, sm_latency = [], sm_recalls = [], sm_counts = [],
      sm_ids_sha = None, sm_binding = None\<rparr>"

definition native_metrics :: "collector_env \<Rightarrow> verifier \<Rightarrow> jobj \<Rightarrow> dataset \<Rightarrow> nat list \<Rightarrow> nat list list \<Rightarrow> (verifier \<times> native_point) res" where
  "native_metrics env fv obs ds cutoffs truth =
     and_then (require (jhas obs ''result_file'') (CollectionError ''raw CSV snapshot missing'')) (\<lambda>_.
     and_then (verify (ce_tools env) (ce_disk env) fv (jget obs ''result_file'')) (\<lambda>(fv, path).
     and_then (mapping (jget obs ''parsed_stdout'')) (\<lambda>parsed.
     and_then (read_native_csv (ce_tools env) (ce_disk env) path (nat (ds_query_count ds)) (ds_corpus_count ds) cutoffs
        (nat (ds_truth_top_k ds)) (map (map int) truth) parsed) (\<lambda>point.
     Inr (fv, point)))))"

definition native_sample ::
  "collector_env \<Rightarrow> verifier \<Rightarrow> source_context \<Rightarrow> pystr \<Rightarrow> pystr \<Rightarrow> dataset \<Rightarrow> nat list \<Rightarrow> nat list list \<Rightarrow> int \<Rightarrow> json \<Rightarrow> (verifier \<times> sample) res" where
  "native_sample env fv sx tier source ds cutoffs truth ef v =
     and_then (measurement (ce_tools env) (ce_disk env) fv v False) (\<lambda>(fv, obs, _).
     and_then (native_metrics env fv obs ds cutoffs truth) (\<lambda>(fv, point).
     and_then (native_options obs ef) (\<lambda>batch_size.
     and_then (evidence_of obs) (\<lambda>evidence.
     and_then (make_artifact_set (ce_tools env) (jget obs ''artifacts'')) (\<lambda>artifacts.
     Inr (fv, (new_sample tier ds source sx native_system (u ''real'') (ef, batch_size) evidence artifacts)
        \<lparr>sm_latency := metric_series (np_rows point) (u ''latency_ms''),
         sm_recalls := map (\<lambda>k. (recall_key k, metric_series (np_rows point) (recall_key k))) cutoffs,
         sm_counts := native_counts (np_rows point), sm_ids_sha := Some (np_ids_sha point)\<rparr>))))))"

definition native_search_step ::
  "collector_env \<Rightarrow> pystr \<Rightarrow> pystr \<Rightarrow> dataset \<Rightarrow> nat list \<Rightarrow> nat list list \<Rightarrow> int \<Rightarrow> collector \<Rightarrow> json \<Rightarrow> collector res" where
  "native_search_step env tier source ds cutoffs truth ef c v =
     and_then (context_of c source) (\<lambda>sx.
     and_then (native_sample env (co_verifier c) sx tier source ds cutoffs truth ef v) (\<lambda>(fv, s).
     Inr (c\<lparr>co_verifier := fv, co_samples := co_samples c @ [s]\<rparr>)))"

definition native_search ::
  "collector_env \<Rightarrow> collector \<Rightarrow> pystr \<Rightarrow> pystr \<Rightarrow> pystr \<Rightarrow> jobj \<Rightarrow> dataset_record \<Rightarrow> nat list \<Rightarrow> collector res" where
  "native_search env c tier source stage_name stage ds cutoffs =
     and_then (stage_ef stage_name) (\<lambda>ef.
     and_then (jget2 stage ''inputs'' ''ef_search'') (\<lambda>recorded.
     and_then (require (py_eq recorded (JInt ef)) (CollectionError ''ef-search input differs from stage name'')) (\<lambda>_.
     and_then (load_truth env c ds) (\<lambda>(c, truth).
     and_then (sequence (jget stage ''measurements'')) (\<lambda>ms.
     fold_res (native_search_step env tier source (dr_identity ds) cutoffs truth ef) c ms)))))"

subsection \<open>The identity of an official report\<close>

definition official_schema :: pystr where "official_schema = u ''leann.cpp-official-comparison-v1''"

definition commit_field :: "string \<Rightarrow> json \<Rightarrow> pystr res" where
  "commit_field message v = (case v of JStr s \<Rightarrow> if is_hex 40 s then Inr s else Inl (CollectionError message) | _ \<Rightarrow> Inl (CollectionError message))"

definition report_identity :: "jobj \<Rightarrow> dataset \<Rightarrow> jobj \<Rightarrow> pystr res" where
  "report_identity result ds runtime =
     and_then (require (jget result ''schema'' = JStr official_schema) (CollectionError ''unknown official result schema'')) (\<lambda>_.
     and_then (mapping (jget result ''official'')) (\<lambda>official.
     and_then (mapping (jget official ''runtime'')) (\<lambda>report_runtime.
     and_then (require (py_eq (JObj report_runtime) (JObj (filter (\<lambda>kv. fst kv \<notin> {u ''launcher'', u ''launcher_resolved''}) runtime)))
        (CollectionError ''official report runtime differs from the staged runtime'')) (\<lambda>_.
     and_then (commit_field ''invalid official commit'' (jget official ''commit'')) (\<lambda>sha.
     and_then (mapping (jget result ''dataset'')) (\<lambda>dataset.
     and_then (require (py_eq (jget dataset ''documents'') (JInt (ds_corpus_count ds))) (CollectionError ''official corpus count differs'')) (\<lambda>_.
     and_then (require (py_eq (jget dataset ''queries'') (JInt (ds_query_count ds))) (CollectionError ''official query count differs'')) (\<lambda>_.
     and_then (mapping (jget result ''embedding_cache'')) (\<lambda>cache.
     and_then (require (py_eq (jget cache ''sha256'') (JStr (ds_corpus_cache_sha ds))) (CollectionError ''official corpus cache SHA differs'')) (\<lambda>_.
     Inr sha))))))))))"

text \<open>A measurement of the official program whose runtime and report are bound to the stage.\<close>

definition official_measurement ::
  "collector_env \<Rightarrow> jobj \<Rightarrow> dataset \<Rightarrow> collector \<Rightarrow> json \<Rightarrow> (collector \<times> jobj \<times> jobj) res" where
  "official_measurement env stage ds c v =
     and_then (measurement (ce_tools env) (ce_disk env) (co_verifier c) v True) (\<lambda>(fv, obs, result).
     case result of None \<Rightarrow> Inl (AssertionError ''result is not None'') | Some r \<Rightarrow>
     and_then (runtime_binding (ce_tools env) (ce_disk env) fv stage obs) (\<lambda>(fv, runtime).
     and_then (report_identity r ds runtime) (\<lambda>sha.
     Inr (c\<lparr>co_verifier := fv, co_official_commits := insert sha (co_official_commits c)\<rparr>, obs, r))))"

subsection \<open>Official builds\<close>

type_synonym file_sizes = "(pystr \<times> int) list"

definition storage_file :: "pystr \<times> json \<Rightarrow> (pystr \<times> int) res" where
  "storage_file kv =
     and_then (require (fst kv \<noteq> []) (CollectionError ''official storage has an invalid file name'')) (\<lambda>_.
     and_then (integer (snd kv) 0) (\<lambda>n. Inr (fst kv, n)))"

definition artifact_file :: "file_sizes \<Rightarrow> jobj \<Rightarrow> file_sizes res" where
  "artifact_file seen m =
     and_then (nonempty_string (jget m ''path'')) (\<lambda>path.
     and_then (require (pure_name path \<notin> fst ` set seen) (CollectionError ''duplicate official artifact basename'')) (\<lambda>_.
     and_then (integer (jget m ''size_bytes'') 0) (\<lambda>n.
     Inr (seen @ [(pure_name path, n)]))))"

text \<open>The files of the report are those of the verified artifacts.\<close>

definition official_files :: "jobj \<Rightarrow> json \<Rightarrow> file_sizes res" where
  "official_files files artifacts =
     and_then (map_res storage_file files) (\<lambda>normalized.
     and_then (sequence artifacts) (\<lambda>vals.
     and_then (map_res mapping vals) (\<lambda>records.
     and_then (fold_res artifact_file [] records) (\<lambda>verified.
     and_then (require (set normalized = set verified)
        (CollectionError ''official storage file entries do not exactly match verified build artifacts'')) (\<lambda>_.
     Inr normalized)))))"

definition is_index :: "pystr \<Rightarrow> bool" where "is_index name \<longleftrightarrow> endswith name (u ''.index'')"

definition is_lookup :: "pystr \<Rightarrow> bool" where
  "is_lookup name \<longleftrightarrow> endswith name (u ''.ids.txt'') \<or> endswith name (u ''.passages.idx'') \<or> endswith name (u ''.meta.json'')"

definition is_text :: "pystr \<Rightarrow> bool" where "is_text name \<longleftrightarrow> endswith name (u ''.passages.jsonl'')"

definition bytes_of :: "(pystr \<Rightarrow> bool) \<Rightarrow> file_sizes \<Rightarrow> int" where
  "bytes_of P files = sum_list (map snd (filter (P \<circ> fst) files))"

definition classify_files :: "file_sizes \<Rightarrow> unit res" where
  "classify_files files =
     require (length (filter (is_index \<circ> fst) files) = 1 \<and> length (filter (is_text \<circ> fst) files) = 1
         \<and> list_all (\<lambda>f. is_index (fst f) \<or> is_lookup (fst f) \<or> is_text (fst f)) files)
       (CollectionError ''official storage artifacts cannot be unambiguously classified'')"

definition storage_semantics :: "file_sizes \<Rightarrow> (string \<times> int) list" where
  "storage_semantics files =
     [(''vector_index_bytes'', bytes_of is_index files), (''lookup_aux_bytes'', bytes_of is_lookup files),
      (''vector_serving_bytes'', bytes_of is_index files + bytes_of is_lookup files),
      (''text_store_bytes'', bytes_of is_text files), (''total_bytes'', bytes_of (\<lambda>_. True) files)]"

definition check_storage :: "jobj \<Rightarrow> file_sizes \<Rightarrow> unit res" where
  "check_storage storage files =
     and_then (map_res (\<lambda>kv. integer (jget storage (fst kv)) 0) (storage_semantics files)) (\<lambda>_.
     and_then (require (py_eq (jget storage ''total_bytes'') (JInt (bytes_of (\<lambda>_. True) files)))
        (CollectionError ''official storage total differs'')) (\<lambda>_.
     require (list_all (\<lambda>kv. py_eq (jget storage (fst kv)) (JInt (snd kv))) (storage_semantics files))
       (CollectionError ''official storage semantic totals do not match verified artifacts'')))"

definition storage_digest :: "tools \<Rightarrow> file_sizes \<Rightarrow> pystr res" where
  "storage_digest t files =
     collector_hash t (JObj (jobj ((''files'', JObj (map (\<lambda>(k, n). (k, JInt n)) files))
        # map (\<lambda>(k, n). (k, JInt n)) (storage_semantics files))))"

definition official_storage :: "dataset_record \<Rightarrow> file_sizes \<Rightarrow> storage" where
  "official_storage ds files =
     \<lparr>st_vector_index = bytes_of is_index files, st_lookup_aux = bytes_of is_lookup files,
      st_vector_serving = bytes_of is_index files + bytes_of is_lookup files, st_text_store = bytes_of is_text files,
      st_total = bytes_of (\<lambda>_. True) files, st_dense = dr_dense_bytes ds, st_raw = dr_raw_bytes ds,
      st_definition = u ''vector_serving_bytes is official LEANN's vector index plus ID/offset/metadata lookup auxiliaries; passages are separate''\<rparr>"

definition official_build_of ::
  "tools \<Rightarrow> pystr \<Rightarrow> pystr \<Rightarrow> pystr \<Rightarrow> dataset_record \<Rightarrow> jobj \<Rightarrow> jobj \<Rightarrow> build res" where
  "official_build_of t tier profile source ds obs result =
     and_then (mapping (jget result ''build'')) (\<lambda>build_result.
     and_then (mapping (jget build_result ''storage'')) (\<lambda>storage.
     and_then (mapping (jget storage ''files'')) (\<lambda>files.
     and_then (official_files files (jget obs ''artifacts'')) (\<lambda>sizes.
     and_then (classify_files sizes) (\<lambda>_.
     and_then (check_storage storage sizes) (\<lambda>_.
     and_then (storage_digest t sizes) (\<lambda>digest.
     and_then (jidx obs ''wall_seconds'') (\<lambda>wall.
     and_then (evidence_of obs) (\<lambda>evidence.
     and_then (make_artifact_set t (jget obs ''artifacts'')) (\<lambda>artifacts.
     Inr \<lparr>bd_tier = tier, bd_system = official_system, bd_source = source, bd_wall = wall, bd_rss = jget obs ''peak_rss_bytes'',
       bd_algorithm = jget build_result ''elapsed_seconds_excluding_embedding'', bd_storage = Some (official_storage ds sizes),
       bd_storage_sha = Some digest,
       bd_config = (case jget result ''official'' of JObj m \<Rightarrow> jget m ''config'' | _ \<Rightarrow> JNull),
       bd_profile = profile, bd_evidence = JObj evidence, bd_artifacts = artifacts, bd_inherited = []\<rparr>))))))))))"

definition official_build_step ::
  "collector_env \<Rightarrow> pystr \<Rightarrow> pystr \<Rightarrow> pystr \<Rightarrow> jobj \<Rightarrow> dataset_record \<Rightarrow> collector \<Rightarrow> json \<Rightarrow> collector res" where
  "official_build_step env tier profile source stage ds c v =
     and_then (official_measurement env stage (dr_identity ds) c v) (\<lambda>(c, obs, result).
     and_then (context_of c source) (\<lambda>_.
     and_then (official_build_of (ce_tools env) tier profile source ds obs result) (\<lambda>b.
     Inr (c\<lparr>co_builds := co_builds c @ [b]\<rparr>))))"

definition official_build ::
  "collector_env \<Rightarrow> collector \<Rightarrow> pystr \<Rightarrow> pystr \<Rightarrow> pystr \<Rightarrow> jobj \<Rightarrow> dataset_record \<Rightarrow> collector res" where
  "official_build env c tier profile source stage ds =
     and_then (sequence (jget stage ''measurements'')) (\<lambda>ms.
     fold_res (official_build_step env tier profile source stage ds) c ms)"

subsection \<open>Official search\<close>

text \<open>The complexities and batch sizes the command sweeps, when it names both.\<close>

definition expected_points :: "json \<Rightarrow> (int \<times> int) set option res" where
  "expected_points template =
     and_then (argv_values template ''--complexities'') (\<lambda>complexities.
     and_then (argv_values template ''--batch-sizes'') (\<lambda>batches.
     case (complexities, batches) of
       (Some cs, Some bs) \<Rightarrow>
         and_then (map_res (text_int ''official command has non-integer sweep values'') bs) (\<lambda>bi.
         and_then (map_res (text_int ''official command has non-integer sweep values'') cs) (\<lambda>ci.
         Inr (Some (set (List.product ci bi)))))
     | _ \<Rightarrow> Inr None))"

text \<open>The report covers the complete query set of the dataset, with its caches and its ground truth.\<close>

definition complete_queries :: "jobj \<Rightarrow> pystr \<Rightarrow> dataset \<Rightarrow> json list res" where
  "complete_queries benchmark mode ds =
     and_then (require (py_eq (jget benchmark ''candidate_recompute_mode'') (JStr mode)) (CollectionError ''recompute mode differs from stage'')) (\<lambda>_.
     and_then (integer (jget benchmark ''query_count'') 1) (\<lambda>query_count.
     and_then (require (query_count = ds_query_count ds) (CollectionError ''official query count is not complete'')) (\<lambda>_.
     and_then (require (py_eq (jget benchmark ''query_embedding_cache_sha256'') (JStr (ds_query_cache_sha ds)))
        (CollectionError ''official query cache SHA differs'')) (\<lambda>_.
     and_then (require (py_eq (jget benchmark ''corpus_embedding_cache_sha256'') (JStr (ds_corpus_cache_sha ds)))
        (CollectionError ''official corpus cache SHA differs'')) (\<lambda>_.
     and_then (require (case jget benchmark ''truth'' of JObj m \<Rightarrow> py_eq (jget m ''sha256'') (JStr (ds_truth_sha ds)) | _ \<Rightarrow> True)
        (CollectionError ''official ground-truth SHA differs'')) (\<lambda>_.
     and_then (sequence (jget benchmark ''query_indices'')) (\<lambda>indices.
     and_then (require (py_eq (JArr indices) (JArr (map JInt [0..ds_query_count ds - 1])))
       (CollectionError ''official queries are not exactly the complete ordered query set'')) (\<lambda>_.
     Inr indices))))))))"

text \<open>A bool or a float that equals an integer is no index: it raises when the row is read, as a position past the end does.\<close>

definition query_positions :: "nat list list \<Rightarrow> json list \<Rightarrow> int list" where
  "query_positions truth indices = map (\<lambda>v. case v of JInt i \<Rightarrow> i | _ \<Rightarrow> int (length truth)) indices"

definition official_sample ::
  "collector_env \<Rightarrow> source_context \<Rightarrow> pystr \<Rightarrow> pystr \<Rightarrow> pystr \<Rightarrow> dataset \<Rightarrow> nat list \<Rightarrow> nat list list \<Rightarrow> int list \<Rightarrow> jobj \<Rightarrow> jobj \<Rightarrow> sample res" where
  "official_sample env sx tier mode source ds cutoffs truth indices obs point =
     and_then (validate_official_point (ce_tools env) point mode ds (ds_query_count ds) cutoffs (map (map int) truth)
        indices (ds_truth_top_k ds)) (\<lambda>op.
     and_then (evidence_of obs) (\<lambda>evidence.
     and_then (make_artifact_set (ce_tools env) (jget obs ''artifacts'')) (\<lambda>artifacts.
     Inr ((new_sample tier ds source sx official_system mode (op_complexity op, op_batch_size op) evidence artifacts)
       \<lparr>sm_latency := op_latency op,
        sm_recalls := map (\<lambda>(k, r). (k, replicate (nat (ds_query_count ds)) r)) (op_recalls op),
        sm_counts := [(''candidate_embeddings'', Floats (replicate (nat (ds_query_count ds)) (op_candidates op)))],
        sm_ids_sha := Some (op_ids_sha op)\<rparr>))))"

definition official_point_step ::
  "collector_env \<Rightarrow> pystr \<Rightarrow> pystr \<Rightarrow> pystr \<Rightarrow> dataset \<Rightarrow> nat list \<Rightarrow> nat list list \<Rightarrow> int list \<Rightarrow> jobj
     \<Rightarrow> collector \<times> (int \<times> int) list \<Rightarrow> json \<Rightarrow> (collector \<times> (int \<times> int) list) res" where
  "official_point_step env tier mode source ds cutoffs truth indices obs st v =
     and_then (mapping v) (\<lambda>point.
     and_then (context_of (fst st) source) (\<lambda>sx.
     and_then (official_sample env sx tier mode source ds cutoffs truth indices obs point) (\<lambda>s.
     and_then (require ((sm_value s, sm_batch s) \<notin> set (snd st)) (CollectionError ''duplicate official point'')) (\<lambda>_.
     Inr ((fst st)\<lparr>co_samples := co_samples (fst st) @ [s]\<rparr>, snd st @ [(sm_value s, sm_batch s)])))))"

definition official_search_step ::
  "collector_env \<Rightarrow> pystr \<Rightarrow> pystr \<Rightarrow> pystr \<Rightarrow> jobj \<Rightarrow> dataset \<Rightarrow> nat list \<Rightarrow> nat list list \<Rightarrow> (int \<times> int) set option
     \<Rightarrow> collector \<Rightarrow> json \<Rightarrow> collector res" where
  "official_search_step env tier mode source stage ds cutoffs truth sweep c v =
     and_then (official_measurement env stage ds c v) (\<lambda>(c, obs, result).
     and_then (mapping (jget result ''benchmark'')) (\<lambda>benchmark.
     and_then (complete_queries benchmark mode ds) (\<lambda>indices.
     and_then (sequence (jget benchmark ''points'')) (\<lambda>points.
     and_then (fold_res (official_point_step env tier mode source ds cutoffs truth (query_positions truth indices) obs) (c, []) points) (\<lambda>(c, seen).
     and_then (require (case sweep of None \<Rightarrow> True | Some ps \<Rightarrow> set seen = ps)
        (CollectionError ''official result point set differs from command sweep'')) (\<lambda>_.
     Inr c))))))"

definition official_search ::
  "collector_env \<Rightarrow> collector \<Rightarrow> pystr \<Rightarrow> pystr \<Rightarrow> pystr \<Rightarrow> jobj \<Rightarrow> dataset_record \<Rightarrow> nat list \<Rightarrow> collector res" where
  "official_search env c tier mode source stage ds cutoffs =
     and_then (sequence (jget stage ''measurements'')) (\<lambda>ms.
     and_then (load_truth env c ds) (\<lambda>(c, truth).
     and_then (jget2 stage ''inputs'' ''command_template'') (\<lambda>template.
     and_then (expected_points template) (\<lambda>sweep.
     fold_res (official_search_step env tier mode source stage (dr_identity ds) cutoffs truth sweep) c ms))))"

subsection \<open>Builds that were accepted\<close>

definition keeps :: "collector_env \<Rightarrow> collector \<Rightarrow> collector \<Rightarrow> bool" where
  "keeps env c c' \<longleftrightarrow> (collector_ok env c \<longrightarrow> collector_ok env c') \<and> co_context c' = co_context c"

lemma keeps_refl [simp]: "keeps env c c"
  by (simp add: keeps_def)

lemma keeps_trans: "keeps env c c1 \<Longrightarrow> keeps env c1 c2 \<Longrightarrow> keeps env c c2"
  by (simp add: keeps_def)

lemma keeps_fold:
  assumes "fold_res f c xs = Inr c'" and "\<And>c1 x c2. f c1 x = Inr c2 \<Longrightarrow> co_context c1 = co_context c \<Longrightarrow> keeps env c1 c2"
  shows "keeps env c c'"
  using assms(1) by (rule fold_res_invariant) (simp, metis assms(2) keeps_def keeps_trans)

lemma keeps_issue [simp]: "keeps env c (add_issue c' code tier profile detail) = keeps env c c'"
  by (simp add: keeps_def) (simp add: add_issue_def)

lemma keeps_verifier:
  "(verifier_ok (ce_tools env) (ce_disk env) (co_verifier c) \<Longrightarrow> verifier_ok (ce_tools env) (ce_disk env) fv) \<Longrightarrow> keeps env c (c\<lparr>co_verifier := fv\<rparr>)"
  by (simp add: keeps_def collector_ok_def)

lemma keeps_build:
  assumes "keeps env c c1" and "collector_ok env c \<Longrightarrow> build_on_disk env b"
  shows "keeps env c (c1\<lparr>co_builds := co_builds c1 @ [b]\<rparr>)"
  using assms by (simp add: keeps_def collector_ok_def)

lemma keeps_sample:
  assumes "keeps env c c1" and "collector_ok env c \<Longrightarrow> sample_complete s \<and> sample_on_disk env s \<and> sm_role s \<noteq> u ''native-gate''"
  shows "keeps env c (c1\<lparr>co_samples := co_samples c1 @ [s]\<rparr>)"
  using assms by (simp add: keeps_def collector_ok_def)

lemma evidence_of_ok:
  "evidence_of obs = Inr e \<longleftrightarrow> (\<exists>m. map_of obs (u ''result_file'') = Some (JObj m) \<and> e = snapshot_identity m)"
proof (cases "map_of obs (u ''result_file'')")
  case (Some v)
  then show ?thesis by (cases v) (auto simp: evidence_of_def jidx_def)
qed (simp add: evidence_of_def jidx_def)

text \<open>A measurement whose artifacts form a set and whose result file is the evidence.\<close>

lemma measured_artifacts:
  assumes "measurement (ce_tools env) (ce_disk env) fv v b = Inr (fv', obs, r)" and "verifier_ok (ce_tools env) (ce_disk env) fv"
    and "make_artifact_set (ce_tools env) (jget obs ''artifacts'') = Inr as"
  shows "artifacts_on_disk env as" and "evidence_on_disk env (jget obs ''artifacts'')"
proof -
  from assms(3) obtain xs where xs: "jget obs ''artifacts'' = JArr xs"
    by (auto simp: make_artifact_set_def ok_simps)
  then have m: "list_all (snapshot_matches (ce_tools env) (ce_disk env)) xs"
    using measurement_evidence(2) [OF assms(1,2)] by blast
  then show "artifacts_on_disk env as" using artifact_set_on_disk assms(3) xs by metis
  show "evidence_on_disk env (jget obs ''artifacts'')" using m xs by (simp add: evidence_on_disk_def)
qed

lemma measured_evidence:
  assumes "measurement (ce_tools env) (ce_disk env) fv v b = Inr (fv', obs, r)" and "verifier_ok (ce_tools env) (ce_disk env) fv"
    and "evidence_of obs = Inr e"
  shows "evidence_on_disk env (JObj e)"
proof -
  from assms(3) obtain m where m: "map_of obs (u ''result_file'') = Some (JObj m)" "e = snapshot_identity m"
    by (auto simp: evidence_of_ok)
  then have "snapshot_matches (ce_tools env) (ce_disk env) (JObj m)"
    using measurement_evidence(1) [OF assms(1,2)] by (simp add: jhas_def jget_def)
  then show ?thesis using m(2) by (simp add: evidence_on_disk_def snapshot_matches_identity)
qed

lemma collector_verifier: "collector_ok env c \<Longrightarrow> verifier_ok (ce_tools env) (ce_disk env) (co_verifier c)"
  by (simp add: collector_ok_def)

lemma native_build_step_kept:
  assumes "native_build_step env tier source c v = Inr c'"
  shows "keeps env c c'"
proof -
  from assms obtain fv obs r b where m: "measurement (ce_tools env) (ce_disk env) (co_verifier c) v False = Inr (fv, obs, r)"
    and b: "native_build_of (ce_tools env) tier source obs = Inr b" and c': "c' = c\<lparr>co_verifier := fv, co_builds := co_builds c @ [b]\<rparr>"
    unfolding native_build_step_def by (simp add: ok_simps split: prod.splits) blast
  have "build_on_disk env b" if "collector_ok env c"
    using b measured_artifacts [OF m collector_verifier [OF that]]
    by (auto simp: native_build_of_def ok_simps build_on_disk_def jget_def jhas_def make_artifact_set_def split: option.splits)
  moreover have "keeps env c (c\<lparr>co_verifier := fv\<rparr>)" using m by (intro keeps_verifier) (rule sound.measurement_kept)
  ultimately show ?thesis using keeps_build [of env c "c\<lparr>co_verifier := fv\<rparr>" b] by (simp add: c')
qed

lemma native_build_kept: "native_build env c tier source stage = Inr c' \<Longrightarrow> keeps env c c'"
  by (auto simp: native_build_def ok_simps intro: keeps_fold [OF _ native_build_step_kept])

lemma native_stats_kept:
  assumes "native_stats env c tier source stage ds = Inr c'"
  shows "keeps env c c'"
proof -
  from assms obtain ms where rest: "(if ms = [] then c' = add_issue c ''no-measurements'' tier (u ''native'') (u ''stage has no measurement'')
     else \<exists>v fv obs r g. measurement (ce_tools env) (ce_disk env) (co_verifier c) v False = Inr (fv, obs, r)
       \<and> c' = c\<lparr>co_verifier := fv, co_builds := map g (co_builds c)\<rparr>
       \<and> (\<forall>b. bd_evidence (g b) = bd_evidence b \<and> bd_artifacts (g b) = bd_artifacts b))"
    unfolding native_stats_def by (simp add: ok_simps Let_def split: prod.splits if_splits) fastforce
  show ?thesis
  proof (cases "ms = []")
    case False
    then obtain v fv obs r g where m: "measurement (ce_tools env) (ce_disk env) (co_verifier c) v False = Inr (fv, obs, r)"
      and c': "c' = c\<lparr>co_verifier := fv, co_builds := map g (co_builds c)\<rparr>"
      and g: "\<forall>b. bd_evidence (g b) = bd_evidence b \<and> bd_artifacts (g b) = bd_artifacts b"
      using rest by (simp only: if_False) blast
    have "build_on_disk env (g b) = build_on_disk env b" for b using g by (simp add: build_on_disk_def)
    then show ?thesis using sound.measurement_kept [OF m] by (simp add: keeps_def collector_ok_def c' list.pred_map comp_def)
  qed (use rest in simp)
qed

subsection \<open>Samples that were accepted\<close>

lemma read_native_csv_length:
  assumes "read_native_csv t d path query_count corpus_count cutoffs top_k truth parsed = Inr point"
  shows "length (np_rows point) = query_count"
proof -
  from assms obtain names rows ps where "length rows = query_count"
    "map_res (read_native_row corpus_count cutoffs top_k truth) (enumerate 0 rows) = Inr ps" "np_rows point = ps"
    unfolding read_native_csv_def by (simp add: ok_simps split: prod.splits) fastforce
  then show ?thesis using map_res_length by fastforce
qed

lemma official_point_length:
  assumes "validate_official_point t point mode ds query_count ks truth indices top_k = Inr op"
  shows "int (length (op_latency op)) = query_count"
proof -
  from assms obtain raw where "official_latency t point query_count = Inr raw" "op_latency op = raw"
    unfolding validate_official_point_def by (simp add: ok_simps split: prod.splits) fastforce
  then show ?thesis by (auto simp: official_latency_def ok_simps)
qed

lemma new_sample_simps [simp]:
  "sm_role (new_sample tier ds source sx system mode config evidence artifacts) = sx_role sx"
  "sm_evidence (new_sample tier ds source sx system mode config evidence artifacts) = evidence"
  "sm_artifacts (new_sample tier ds source sx system mode config evidence artifacts) = artifacts"
  "sm_queries (new_sample tier ds source sx system mode config evidence artifacts) = ds_query_count ds"
  by (simp_all add: new_sample_def)

lemma native_sample_kept:
  assumes "native_sample env fv sx tier source ds cutoffs truth ef v = Inr (fv', s)" and "1 \<le> ds_query_count ds"
    and "verifier_ok (ce_tools env) (ce_disk env) fv"
  shows "verifier_ok (ce_tools env) (ce_disk env) fv'" and "sample_complete s" and "sample_on_disk env s" and "sm_role s = sx_role sx"
proof -
  from assms(1) obtain fv1 obs r point batch evidence artifacts where
    m: "measurement (ce_tools env) (ce_disk env) fv v False = Inr (fv1, obs, r)"
    and p: "native_metrics env fv1 obs ds cutoffs truth = Inr (fv', point)"
    and e: "evidence_of obs = Inr evidence" "make_artifact_set (ce_tools env) (jget obs ''artifacts'') = Inr artifacts"
    and s: "s = (new_sample tier ds source sx native_system (u ''real'') (ef, batch) evidence artifacts)
        \<lparr>sm_latency := metric_series (np_rows point) (u ''latency_ms''),
         sm_recalls := map (\<lambda>k. (recall_key k, metric_series (np_rows point) (recall_key k))) cutoffs,
         sm_counts := native_counts (np_rows point), sm_ids_sha := Some (np_ids_sha point)\<rparr>"
    unfolding native_sample_def by (simp add: ok_simps split: prod.splits) blast
  have f1: "verifier_ok (ce_tools env) (ce_disk env) fv1" using sound.measurement_kept [OF m assms(3)] .
  from p obtain path parsed where v: "verify (ce_tools env) (ce_disk env) fv1 (jget obs ''result_file'') = Inr (fv', path)"
    and c: "read_native_csv (ce_tools env) (ce_disk env) path (nat (ds_query_count ds)) (ds_corpus_count ds) cutoffs
        (nat (ds_truth_top_k ds)) (map (map int) truth) parsed = Inr point"
    unfolding native_metrics_def by (simp add: ok_simps split: prod.splits) blast
  show "verifier_ok (ce_tools env) (ce_disk env) fv'" using verify_sound(1) [OF v f1] .
  have "int (length (np_rows point)) = ds_query_count ds" using read_native_csv_length [OF c] assms(2) by simp
  then show "sample_complete s"
    using assms(2) by (simp add: s sample_complete_def metric_series_def native_counts_def list_all_iff)
  show "sample_on_disk env s"
    using measured_evidence [OF m assms(3) e(1)] measured_artifacts(1) [OF m assms(3) e(2)] by (simp add: s sample_on_disk_def)
  show "sm_role s = sx_role sx" by (simp add: s)
qed

text \<open>The source of the samples is no gate run.\<close>

definition no_gate :: "collector \<Rightarrow> pystr \<Rightarrow> bool" where
  "no_gate c source = (case map_of (co_context c) source of None \<Rightarrow> True | Some sx \<Rightarrow> sx_role sx \<noteq> u ''native-gate'')"

lemma context_no_gate: "context_of c source = Inr sx \<Longrightarrow> no_gate c source \<Longrightarrow> sx_role sx \<noteq> u ''native-gate''"
  by (auto simp: context_of_def no_gate_def split: option.splits)

lemma native_search_step_kept:
  assumes "native_search_step env tier source ds cutoffs truth ef c v = Inr c'" and "1 \<le> ds_query_count ds" and "no_gate c source"
  shows "keeps env c c'"
proof -
  from assms(1) obtain sx fv s where sx: "context_of c source = Inr sx"
    and n: "native_sample env (co_verifier c) sx tier source ds cutoffs truth ef v = Inr (fv, s)"
    and c': "c' = c\<lparr>co_verifier := fv, co_samples := co_samples c @ [s]\<rparr>"
    unfolding native_search_step_def by (simp add: ok_simps split: prod.splits) blast
  note k = native_sample_kept [OF n assms(2)]
  have "keeps env c (c\<lparr>co_verifier := fv\<rparr>)" using k(1) by (rule keeps_verifier)
  then have "keeps env c (c\<lparr>co_verifier := fv, co_samples := co_samples (c\<lparr>co_verifier := fv\<rparr>) @ [s]\<rparr>)"
    using k context_no_gate [OF sx assms(3)] collector_verifier by (intro keeps_sample) auto
  then show ?thesis by (simp add: c')
qed

lemma load_truth_keeps: "load_truth env c ds = Inr (c', truth) \<Longrightarrow> keeps env c c'"
  using load_truth_kept by (fastforce simp: keeps_def load_truth_def Let_def ok_simps split: option.splits)

lemma no_gate_context: "co_context c' = co_context c \<Longrightarrow> no_gate c' source = no_gate c source"
  by (simp add: no_gate_def)

lemma native_search_kept:
  assumes "native_search env c tier source name stage ds cutoffs = Inr c'" and "1 \<le> ds_query_count (dr_identity ds)" and "no_gate c source"
  shows "keeps env c c'"
proof -
  from assms(1) obtain ef c1 truth ms where t: "load_truth env c ds = Inr (c1, truth)"
    and f: "fold_res (native_search_step env tier source (dr_identity ds) cutoffs truth ef) c1 ms = Inr c'"
    unfolding native_search_def by (simp add: ok_simps split: prod.splits) blast
  have t1: "keeps env c c1" using t by (rule load_truth_keeps)
  then have "no_gate c1 source" using assms(3) by (simp add: keeps_def no_gate_def)
  then have "keeps env c1 c'"
    using native_search_step_kept assms(2) no_gate_context by (intro keeps_fold [OF f]) blast
  then show ?thesis using t1 keeps_trans by blast
qed

lemma official_measurement_kept:
  assumes "official_measurement env stage ds c v = Inr (c', obs, r)"
  shows "keeps env c c'" and "\<exists>fv r'. measurement (ce_tools env) (ce_disk env) (co_verifier c) v True = Inr (fv, obs, r')"
proof -
  from assms obtain fv r' fv1 runtime sha where m: "measurement (ce_tools env) (ce_disk env) (co_verifier c) v True = Inr (fv, obs, r')"
    and b: "runtime_binding (ce_tools env) (ce_disk env) fv stage obs = Inr (fv1, runtime)"
    and c': "c' = c\<lparr>co_verifier := fv1, co_official_commits := insert sha (co_official_commits c)\<rparr>"
    unfolding official_measurement_def by (simp add: ok_simps split: prod.splits) blast
  show "keeps env c c'" using sound.measurement_kept [OF m] sound.runtime_binding_kept [OF b] by (simp add: keeps_def collector_ok_def c')
  show "\<exists>fv r'. measurement (ce_tools env) (ce_disk env) (co_verifier c) v True = Inr (fv, obs, r')" using m by blast
qed

lemma official_build_step_kept:
  assumes "official_build_step env tier profile source stage ds c v = Inr c'"
  shows "keeps env c c'"
proof -
  from assms obtain c1 obs r b where m: "official_measurement env stage (dr_identity ds) c v = Inr (c1, obs, r)"
    and b: "official_build_of (ce_tools env) tier profile source ds obs r = Inr b" and c': "c' = c1\<lparr>co_builds := co_builds c1 @ [b]\<rparr>"
    unfolding official_build_step_def by (simp add: ok_simps split: prod.splits) blast
  from official_measurement_kept(2) [OF m] obtain fv r' where
    m': "measurement (ce_tools env) (ce_disk env) (co_verifier c) v True = Inr (fv, obs, r')" by blast
  from b obtain evidence artifacts where e: "evidence_of obs = Inr evidence" "make_artifact_set (ce_tools env) (jget obs ''artifacts'') = Inr artifacts"
    "bd_evidence b = JObj evidence" "bd_artifacts b = artifacts"
    unfolding official_build_of_def by (simp add: ok_simps) fastforce
  have "build_on_disk env b" if "collector_ok env c"
    using measured_evidence [OF m' collector_verifier [OF that] e(1)] measured_artifacts(1) [OF m' collector_verifier [OF that] e(2)] e
    by (simp add: build_on_disk_def)
  then show ?thesis using keeps_build [OF official_measurement_kept(1) [OF m]] by (simp add: c')
qed

lemma official_build_kept: "official_build env c tier profile source stage ds = Inr c' \<Longrightarrow> keeps env c c'"
  by (auto simp: official_build_def ok_simps intro: keeps_fold [OF _ official_build_step_kept])

lemma official_sample_kept:
  assumes "official_sample env sx tier mode source ds cutoffs truth indices obs point = Inr s" and "1 \<le> ds_query_count ds"
    and "measurement (ce_tools env) (ce_disk env) fv v b = Inr (fv', obs, r)" and "verifier_ok (ce_tools env) (ce_disk env) fv"
  shows "sample_complete s" and "sample_on_disk env s" and "sm_role s = sx_role sx"
proof -
  from assms(1) obtain op evidence artifacts where
    p: "validate_official_point (ce_tools env) point mode ds (ds_query_count ds) cutoffs (map (map int) truth) indices (ds_truth_top_k ds) = Inr op"
    and e: "evidence_of obs = Inr evidence" "make_artifact_set (ce_tools env) (jget obs ''artifacts'') = Inr artifacts"
    and s: "s = (new_sample tier ds source sx official_system mode (op_complexity op, op_batch_size op) evidence artifacts)
       \<lparr>sm_latency := op_latency op,
        sm_recalls := map (\<lambda>(k, r). (k, replicate (nat (ds_query_count ds)) r)) (op_recalls op),
        sm_counts := [(''candidate_embeddings'', Floats (replicate (nat (ds_query_count ds)) (op_candidates op)))],
        sm_ids_sha := Some (op_ids_sha op)\<rparr>"
    unfolding official_sample_def by (simp add: ok_simps) blast
  show "sample_complete s"
    using assms(2) official_point_length [OF p] by (simp add: s sample_complete_def list_all_iff case_prod_unfold)
  show "sample_on_disk env s"
    using measured_evidence [OF assms(3,4) e(1)] measured_artifacts(1) [OF assms(3,4) e(2)] by (simp add: s sample_on_disk_def)
  show "sm_role s = sx_role sx" by (simp add: s)
qed

lemma official_points_kept:
  assumes "fold_res (official_point_step env tier mode source ds cutoffs truth indices obs) (c, []) points = Inr (c', seen)"
    and "keeps env c0 c" and "no_gate c0 source" and "1 \<le> ds_query_count ds"
    and "measurement (ce_tools env) (ce_disk env) (co_verifier c0) v True = Inr (fv, obs, r)"
  shows "keeps env c0 c'"
proof -
  have step: "keeps env c0 (fst st')"
    if "official_point_step env tier mode source ds cutoffs truth indices obs st x = Inr st'" "keeps env c0 (fst st)" for st x st'
  proof -
    from that(1) obtain point sx s where sx: "context_of (fst st) source = Inr sx"
      and s: "official_sample env sx tier mode source ds cutoffs truth indices obs point = Inr s"
      and st': "fst st' = (fst st)\<lparr>co_samples := co_samples (fst st) @ [s]\<rparr>"
      unfolding official_point_step_def by (simp add: ok_simps) fastforce
    have "no_gate (fst st) source" using that(2) assms(3) by (simp add: keeps_def no_gate_def)
    then have "sx_role sx \<noteq> u ''native-gate''" using context_no_gate [OF sx] by blast
    then show ?thesis unfolding st'
      using official_sample_kept [OF s assms(4,5) collector_verifier] by (intro keeps_sample [OF that(2)]) simp
  qed
  have "keeps env c0 (fst (c', seen))"
    using assms(1) by (rule fold_res_invariant) (use assms(2) step in auto)
  then show ?thesis by simp
qed

lemma official_search_step_kept:
  assumes "official_search_step env tier mode source stage ds cutoffs truth sweep c v = Inr c'" and "1 \<le> ds_query_count ds" and "no_gate c source"
  shows "keeps env c c'"
proof -
  from assms(1) obtain c1 obs r indices points seen where m: "official_measurement env stage ds c v = Inr (c1, obs, r)"
    and f: "fold_res (official_point_step env tier mode source ds cutoffs truth (query_positions truth indices) obs) (c1, []) points = Inr (c', seen)"
    unfolding official_search_step_def by (simp add: ok_simps split: prod.splits) blast
  from official_measurement_kept(2) [OF m] obtain fv r' where
    "measurement (ce_tools env) (ce_disk env) (co_verifier c) v True = Inr (fv, obs, r')" by blast
  then show ?thesis using official_points_kept [OF f official_measurement_kept(1) [OF m] assms(3,2)] by blast
qed

lemma official_search_kept:
  assumes "official_search env c tier mode source stage ds cutoffs = Inr c'" and "1 \<le> ds_query_count (dr_identity ds)" and "no_gate c source"
  shows "keeps env c c'"
proof -
  from assms(1) obtain ms c1 truth sweep where t: "load_truth env c ds = Inr (c1, truth)"
    and f: "fold_res (official_search_step env tier mode source stage (dr_identity ds) cutoffs truth sweep) c1 ms = Inr c'"
    unfolding official_search_def by (simp add: ok_simps split: prod.splits) blast
  have t1: "keeps env c c1" using t by (rule load_truth_keeps)
  then have "no_gate c1 source" using assms(3) by (simp add: keeps_def no_gate_def)
  then have "keeps env c1 c'"
    using official_search_step_kept assms(2) no_gate_context by (intro keeps_fold [OF f]) blast
  then show ?thesis using t1 keeps_trans by blast
qed

end
