(* ===== verification/Collector.thy ===== *)
theory Collector
  imports Ingest
begin

text \<open>
  \<open>Collector.ingest\<close>: one run manifest with all its recorded stages, from the shared artifacts and the provenance to
  the dispatch of every stage to the operations of \<open>Ingest\<close>; and the two validations over all ingested sources,
  \<open>validate_cross_source_identities\<close> and \<open>validate_declared_tier_prefix\<close>. The lemmas carry the invariant of the
  collector through all of it: what it holds was verified on the disk.
\<close>

subsection \<open>Recorded endpoints\<close>

definition recorded_payload :: "jobj \<Rightarrow> string \<Rightarrow> json res" where
  "recorded_payload observation endpoint =
     and_then (mapping (jget observation endpoint)) (\<lambda>r.
     and_then (require (py_eq (jget r ''status'') (JInt 200)) (CollectionError ''endpoint was not HTTP 200'')) (\<lambda>_.
     Inr (jget r ''payload'')))"

definition no_slashes :: "pystr \<Rightarrow> pystr" where
  "no_slashes s = rstrip_while (\<lambda>ch. ch = 47) s"

definition normalize_url :: "json \<Rightarrow> pystr" where
  "normalize_url v =
     (case v of
        JStr s \<Rightarrow> (let n = no_slashes s in no_slashes (if endswith n (u ''/v1'') then take (length n - 3) n else n))
      | _ \<Rightarrow> [])"

definition check_server :: "jobj \<Rightarrow> jobj \<Rightarrow> unit res" where
  "check_server server props =
     and_then (integer (jget server ''parallel'') 1) (\<lambda>parallel.
     and_then (integer (jget server ''per_slot_ctx'') 1) (\<lambda>per_slot.
     and_then (integer (jget server ''required_product'') 1) (\<lambda>product.
     and_then (integer (jget server ''server_ctx_size'') 1) (\<lambda>total_ctx.
     and_then (require (py_eq (jget props ''total_slots'') (JInt parallel)) (CollectionError ''recorded endpoint slot count differs'')) (\<lambda>_.
     and_then (mapping (jget props ''default_generation_settings'')) (\<lambda>settings.
     and_then (require (py_eq (jget settings ''n_ctx'') (JInt per_slot)) (CollectionError ''recorded endpoint context differs'')) (\<lambda>_.
     and_then (require (product = parallel * per_slot) (CollectionError ''server context product is inconsistent'')) (\<lambda>_.
     require (product \<le> total_ctx) (CollectionError ''total server context is undersized'')))))))))"

text \<open>A tool of the provenance, when it is recorded, is the script the endpoint runs.\<close>

definition tool_agrees :: "(pystr \<times> jobj) list \<Rightarrow> string \<Rightarrow> json \<Rightarrow> bool" where
  "tool_agrees tooling name sha = (case map_of tooling (u name) of None \<Rightarrow> True | Some m \<Rightarrow> py_eq sha (jget m ''sha256''))"

definition check_candidate :: "jobj \<Rightarrow> dataset \<Rightarrow> (pystr \<times> jobj) list \<Rightarrow> jobj \<Rightarrow> unit res" where
  "check_candidate provenance ds tooling metrics =
     (let mode = jget provenance ''official_candidate_recompute_mode'' in
      and_then (require (mode = JStr (u ''cached'') \<or> mode = JStr (u ''real'')) (CollectionError ''recorded candidate endpoint mode differs'')) (\<lambda>_.
      and_then (require (py_eq (jget metrics ''mode'') (JStr (if mode = JStr (u ''cached'') then u ''cache'' else u ''proxy'')))
         (CollectionError ''recorded candidate endpoint mode differs'')) (\<lambda>_.
      if mode = JStr (u ''cached'') then
        and_then (mapping (jget metrics ''cache_identity'')) (\<lambda>identity.
        and_then (require (list_all (\<lambda>(k, v). py_eq (jget identity k) v) (cached_identity ds))
           (CollectionError ''recorded cached endpoint differs'')) (\<lambda>_.
        require (tool_agrees tooling ''cached_embedding_server.py'' (jget identity ''server_script_sha256''))
          (CollectionError ''recorded cached server script hash differs'')))
      else
        and_then (require (normalize_url (jget metrics ''upstream'') = normalize_url (jget provenance ''embedding_endpoint''))
           (CollectionError ''recorded proxy upstream differs'')) (\<lambda>_.
        require (tool_agrees tooling ''openai_embedding_proxy.py'' (jget metrics ''proxy_script_sha256''))
          (CollectionError ''recorded proxy script hash differs'')))))"

definition check_model_path :: "collector_env \<Rightarrow> jobj \<Rightarrow> jobj \<Rightarrow> unit res" where
  "check_model_path env shared props =
     and_then (mapping (jget shared ''model'')) (\<lambda>model.
     and_then (mapping (jget model ''artifact'')) (\<lambda>artifact.
     case jget artifact ''path'' of
       JStr path \<Rightarrow>
         and_then (require (path \<noteq> []) (CollectionError ''model artifact path is missing'')) (\<lambda>_.
         require (fs_resolve (ce_disk env) (py_str (ce_tools env) (if jhas props ''model_path'' then jget props ''model_path'' else JStr []))
             = fs_resolve (ce_disk env) path) (CollectionError ''recorded endpoint model path differs''))
     | _ \<Rightarrow> Inl (CollectionError ''model artifact path is missing'')))"

definition attested_digests :: "tools \<Rightarrow> jobj \<Rightarrow> jobj \<Rightarrow> jobj \<Rightarrow> jobj \<Rightarrow> jobj \<Rightarrow> attested res" where
  "attested_digests t runtime environment server embedding candidate =
     and_then (collector_hash t (JObj runtime)) (\<lambda>r.
     and_then (collector_hash t (JObj environment)) (\<lambda>m.
     and_then (collector_hash t (JObj server)) (\<lambda>s.
     and_then (collector_hash t (JObj embedding)) (\<lambda>e.
     and_then (collector_hash t (JObj candidate)) (\<lambda>c.
     Inr \<lparr>ao_runtime = r, ao_machine = m, ao_server = s, ao_embedding = e, ao_candidate = c\<rparr>)))))"

definition recorded_attestation ::
  "collector_env \<Rightarrow> jobj \<Rightarrow> jobj \<Rightarrow> dataset \<Rightarrow> (pystr \<times> jobj) list \<Rightarrow> attested res" where
  "recorded_attestation env provenance shared ds tooling =
     and_then (mapping (jget provenance ''official_runtime'')) (\<lambda>runtime.
     and_then (mapping (jget provenance ''embedding_endpoint_observation'')) (\<lambda>embedding.
     and_then (mapping (jget provenance ''candidate_endpoint_observation'')) (\<lambda>candidate.
     and_then (and_then (recorded_payload embedding ''/props'') mapping) (\<lambda>props.
     and_then (check_model_path env shared props) (\<lambda>_.
     and_then (mapping (jget provenance ''server_context'')) (\<lambda>server.
     and_then (check_server server props) (\<lambda>_.
     and_then (and_then (recorded_payload candidate ''/metrics'') mapping) (\<lambda>metrics.
     and_then (check_candidate provenance ds tooling metrics) (\<lambda>_.
     and_then (mapping (jget provenance ''environment'')) (\<lambda>environment.
     attested_digests (ce_tools env) runtime environment server embedding candidate))))))))))"

subsection \<open>The head of a manifest\<close>

definition planned_names :: "jobj \<Rightarrow> pystr list res" where
  "planned_names manifest =
     and_then (sequence (jget manifest ''planned_stages'')) (\<lambda>vals.
     case strings_of vals of
       None \<Rightarrow> Inl (CollectionError ''planned stage names must be strings'')
     | Some planned \<Rightarrow>
         and_then (require (distinct planned) (CollectionError ''planned stage names contain duplicates'')) (\<lambda>_.
         and_then (require (list_all recognized_stage_name planned) (CollectionError ''unrecognized planned stages'')) (\<lambda>_.
         Inr planned)))"

definition recall_cutoffs :: "jobj \<Rightarrow> dataset \<Rightarrow> nat list res" where
  "recall_cutoffs protocol ds =
     and_then (sequence (jget protocol ''recall_cutoffs'')) (\<lambda>vals.
     and_then (map_res (\<lambda>v. integer v 1) vals) (\<lambda>ks.
     and_then (require (ks \<noteq> []) (CollectionError ''no recall cutoffs'')) (\<lambda>_.
     and_then (require (list_all (\<lambda>k. k \<le> ds_truth_top_k ds) ks) (CollectionError ''recall cutoff exceeds truth width'')) (\<lambda>_.
     Inr (map nat (sorted_set ks))))))"

text \<open>A commit that is recorded is 40 hexadecimal digits.\<close>

definition recorded_commit :: "string \<Rightarrow> json \<Rightarrow> pystr option res" where
  "recorded_commit message v = (if v = JNull then Inr None else and_then (commit_field message v) (\<lambda>s. Inr (Some s)))"

definition ingest_commits :: "collector \<Rightarrow> jobj \<Rightarrow> collector res" where
  "ingest_commits c provenance =
     and_then (mapping (jget provenance ''leann_cpp'')) (\<lambda>leann.
     and_then (mapping (jget provenance ''official_leann'')) (\<lambda>official.
     and_then (recorded_commit ''invalid leann.cpp commit'' (jget leann ''commit'')) (\<lambda>l.
     and_then (recorded_commit ''invalid official LEANN commit'' (jget official ''commit'')) (\<lambda>o1.
     Inr (c\<lparr>co_leann_commits := set_option l \<union> co_leann_commits c,
            co_official_commits := set_option o1 \<union> co_official_commits c\<rparr>)))))"

definition string_field :: "jobj \<Rightarrow> string \<Rightarrow> pystr res" where
  "string_field m k = (case jget m k of JStr s \<Rightarrow> Inr s | _ \<Rightarrow> Inl (KeyError k))"

lemma string_field_ok [ok_simps]: "string_field m k = Inr s \<longleftrightarrow> jget m k = JStr s"
  by (cases "jget m k") (simp_all add: string_field_def)

type_synonym tool_map = "(pystr \<times> jobj) list"

definition ingest_tool :: "collector_env \<Rightarrow> collector \<times> tool_map \<Rightarrow> json \<Rightarrow> (collector \<times> tool_map) res" where
  "ingest_tool env st v =
     and_then (verify_file env (fst st) v) (\<lambda>(c, path).
     and_then (mapping v) (\<lambda>m.
     and_then (string_field m ''sha256'') (\<lambda>sha.
     Inr (c\<lparr>co_tooling := insert (pure_name path, sha) (co_tooling c)\<rparr>, dict_set (snd st) (pure_name path) m))))"

definition ingest_tooling :: "collector_env \<Rightarrow> collector \<Rightarrow> json \<Rightarrow> (collector \<times> tool_map) res" where
  "ingest_tooling env c tooling =
     (if tooling = JNull then Inr (c, [])
      else and_then (sequence tooling) (\<lambda>items. fold_res (ingest_tool env) (c, []) items))"

definition machine_identity :: "jobj \<Rightarrow> jobj res" where
  "machine_identity environment =
     (let parts = jobj (map (\<lambda>k. (k, jget environment k)) [''platform'', ''machine'', ''processor'']) in
      and_then (require (list_all (\<lambda>kv. case snd kv of JStr _ \<Rightarrow> True | _ \<Rightarrow> False) parts) (CollectionError ''incomplete machine identity'')) (\<lambda>_.
      Inr parts))"

subsection \<open>An attested reuse of an index\<close>

definition reuse_schema :: pystr where "reuse_schema = u ''leann-official-index-reuse-v1''"
definition reuse_role :: pystr where "reuse_role = u ''official-real-search-reuse''"

definition check_reuse :: "collector_env \<Rightarrow> collector \<Rightarrow> pystr \<Rightarrow> jobj \<Rightarrow> (collector \<times> reuse_of) res" where
  "check_reuse env c role reuse =
     and_then (require (py_eq (jget reuse ''schema'') (JStr reuse_schema)) (CollectionError ''unknown official index reuse schema'')) (\<lambda>_.
     and_then (require (role = reuse_role) (CollectionError ''index reuse attestation is attached to unexpected run role'')) (\<lambda>_.
     and_then (mapping (jget reuse ''source_manifest'')) (\<lambda>source.
     and_then (verify_file env c (JObj source)) (\<lambda>(c, _).
     and_then (verify_file env c (jget reuse ''source_stage'')) (\<lambda>(c, _).
     and_then (sequence (jget reuse ''artifacts'')) (\<lambda>artifacts.
     and_then (verify_each (ce_tools env) (ce_disk env) (co_verifier c) artifacts) (\<lambda>fv.
     and_then (make_artifact_set (ce_tools env) (JArr artifacts)) (\<lambda>reused.
     and_then (require (py_eq (jget reuse ''artifact_set_sha256'') (JStr (as_sha reused))) (CollectionError ''reused index artifact identity differs'')) (\<lambda>_.
     and_then (sha_field (jget reuse ''storage_identity_sha256'') (CollectionError ''reused storage identity is invalid'')) (\<lambda>storage.
     and_then (string_field source ''sha256'') (\<lambda>sha.
     Inr (c\<lparr>co_verifier := fv\<rparr>, \<lparr>ru_source = sha, ru_artifacts = as_sha reused, ru_storage = storage\<rparr>))))))))))))"

definition ingest_reuse :: "collector_env \<Rightarrow> collector \<Rightarrow> pystr \<Rightarrow> json \<Rightarrow> (collector \<times> (jobj \<times> reuse_of) option) res" where
  "ingest_reuse env c role raw =
     (if raw = JNull then
        and_then (require (role \<noteq> reuse_role) (CollectionError ''search-only official real run has no exact cached-build reuse attestation'')) (\<lambda>_.
        Inr (c, None))
      else and_then (mapping raw) (\<lambda>reuse. and_then (check_reuse env c role reuse) (\<lambda>(c, r). Inr (c, Some (reuse, r)))))"

subsection \<open>The source of a run\<close>

record run_info =
  ri_path :: pystr
  ri_sha :: pystr
  ri_tier :: pystr
  ri_manifest :: jobj
  ri_shared :: jobj
  ri_data :: tier_data
  ri_protocol :: jobj
  ri_planned :: "pystr list"
  ri_cutoffs :: "nat list"
  ri_provenance :: jobj
  ri_role :: pystr
  ri_reuse :: "(jobj \<times> reuse_of) option"

definition protocol_hash :: "tools \<Rightarrow> pystr \<Rightarrow> jobj \<Rightarrow> pystr list \<Rightarrow> jobj \<Rightarrow> pystr res" where
  "protocol_hash t role protocol planned provenance =
     collector_hash t (JObj (jobj [(''run_role'', JStr role), (''protocol'', JObj protocol),
       (''planned_stages'', JArr (map JStr (sort planned))), (''server_context'', jget provenance ''server_context''),
       (''candidate_recompute_mode'', jget provenance ''official_candidate_recompute_mode'')]))"

text \<open>\<open>self._source_context[source_sha] = ...; self.sources.append(...)\<close>.\<close>

definition enter_source ::
  "collector \<Rightarrow> run_info \<Rightarrow> pystr \<Rightarrow> pystr \<Rightarrow> attested option \<Rightarrow> pystr \<Rightarrow> collector" where
  "enter_source c ri machine server attestation protocol =
     c\<lparr>co_context := dict_set (co_context c) (ri_sha ri)
         \<lparr>sx_role = ri_role ri, sx_protocol = protocol, sx_reuse = map_option snd (ri_reuse ri)\<rparr>,
       co_sources := co_sources c @ [\<lparr>sr_tier = ri_tier ri, sr_path = ri_path ri, sr_sha = ri_sha ri,
         sr_manifest = ri_manifest ri, sr_machine = machine, sr_server = server, sr_attestation = attestation,
         sr_reuse = map_option fst (ri_reuse ri), sr_role = ri_role ri, sr_protocol = protocol, sr_stages = []\<rparr>]\<rparr>"

definition official_planned :: "pystr list \<Rightarrow> bool" where
  "official_planned planned \<longleftrightarrow> list_ex (\<lambda>n. startswith n (u ''official-'')) planned"

definition ingest_attestation ::
  "collector_env \<Rightarrow> collector \<Rightarrow> jobj \<Rightarrow> jobj \<Rightarrow> dataset \<Rightarrow> tool_map \<Rightarrow> pystr list \<Rightarrow> (collector \<times> attested option) res" where
  "ingest_attestation env c provenance shared ds tooling planned =
     (if official_planned planned then
        and_then (recorded_attestation env provenance shared ds tooling) (\<lambda>a.
        Inr (c\<lparr>co_runtimes := insert (ao_runtime a) (co_runtimes c)\<rparr>, Some a))
      else Inr (c, None))"

text \<open>Everything of \<open>ingest\<close> up to the recorded stages.\<close>

definition ingest_provenance ::
  "collector_env \<Rightarrow> collector \<Rightarrow> jobj \<Rightarrow> jobj \<Rightarrow> dataset \<Rightarrow> pystr list
     \<Rightarrow> (collector \<times> pystr \<times> pystr \<times> attested option) res" where
  "ingest_provenance env c provenance shared ds planned =
     and_then (ingest_commits c provenance) (\<lambda>c.
     and_then (ingest_tooling env c (jget provenance ''tooling'')) (\<lambda>(c, tooling).
     and_then (mapping (jget provenance ''environment'')) (\<lambda>environment.
     and_then (machine_identity environment) (\<lambda>identity.
     and_then (collector_hash (ce_tools env) (JObj identity)) (\<lambda>machine.
     and_then (mapping (jget provenance ''server_context'')) (\<lambda>server.
     and_then (collector_hash (ce_tools env) (JObj server)) (\<lambda>server_sha.
     and_then (ingest_attestation env (c\<lparr>co_machines := insert machine (co_machines c), co_servers := insert server_sha (co_servers c)\<rparr>)
        provenance shared ds tooling planned) (\<lambda>(c, attestation).
     Inr (c, machine, server_sha, attestation)))))))))"

definition manifest_schema :: pystr where "manifest_schema = u ''leann-large-scale-benchmark-v1''"

definition open_run :: "collector_env \<Rightarrow> pystr \<Rightarrow> (jobj \<times> pystr \<times> jobj) res" where
  "open_run env path =
     and_then (and_then (collector_load (ce_tools env) (ce_disk env) path) mapping) (\<lambda>manifest.
     and_then (require (py_eq (jget manifest ''schema'') (JStr manifest_schema)) (CollectionError ''unknown manifest schema'')) (\<lambda>_.
     and_then (sha256_file (tl_host (ce_tools env)) (ce_disk env) path 0 None) (\<lambda>sha.
     and_then (mapping (jget manifest ''shared_artifacts'')) (\<lambda>shared.
     Inr (manifest, sha, shared)))))"

definition ingest_head :: "collector_env \<Rightarrow> collector \<Rightarrow> pystr \<Rightarrow> pystr \<Rightarrow> (collector \<times> run_info) res" where
  "ingest_head env c tier raw_path =
     (let path = fs_resolve (ce_disk env) raw_path in
      and_then (open_run env path) (\<lambda>(manifest, sha, shared).
      and_then (register_shared env c tier shared) (\<lambda>(c, td).
      and_then (mapping (jget manifest ''protocol'')) (\<lambda>protocol.
      and_then (planned_names manifest) (\<lambda>planned.
      and_then (recall_cutoffs protocol (dr_identity (td_record td))) (\<lambda>cutoffs.
      and_then (mapping (jget manifest ''provenance'')) (\<lambda>provenance.
      and_then (ingest_provenance env c provenance shared (dr_identity (td_record td)) planned) (\<lambda>(c, machine, server, attestation).
      and_then (validate_declared_run_role (jget manifest ''run_role'') planned) (\<lambda>role.
      and_then (require (py_eq (jget protocol ''run_role'') (JStr role)) (CollectionError ''protocol run role differs from manifest run role'')) (\<lambda>_.
      and_then (ingest_reuse env c role (jget provenance ''official_index_reuse'')) (\<lambda>(c, reuse).
      and_then (protocol_hash (ce_tools env) role protocol planned provenance) (\<lambda>hash.
      let ri = \<lparr>ri_path = path, ri_sha = sha, ri_tier = tier, ri_manifest = manifest, ri_shared = shared, ri_data = td,
           ri_protocol = protocol, ri_planned = planned, ri_cutoffs = cutoffs, ri_provenance = provenance, ri_role = role, ri_reuse = reuse\<rparr>;
          c = enter_source c ri machine server attestation hash in
      Inr (if py_eq (jget manifest ''status'') (JStr (u ''complete'')) then c
           else add_issue c ''manifest-incomplete'' tier (u ''all'') (u ''manifest is not complete''), ri)))))))))))))"

subsection \<open>Stage files\<close>

definition is_absolute :: "pystr \<Rightarrow> bool" where "is_absolute p \<longleftrightarrow> startswith p [47]"

definition stage_candidates :: "pystr \<Rightarrow> pystr \<Rightarrow> json \<Rightarrow> pystr list" where
  "stage_candidates manifest name raw =
     (case raw of
        JStr p \<Rightarrow> if p = [] then [] else [if is_absolute p then p else path_join (path_parent manifest) p]
      | _ \<Rightarrow> [])
     @ [path_join (path_join (path_parent manifest) (u ''stages'')) (name @ u ''.json'')]"

definition resolve_stage_path :: "fsys \<Rightarrow> pystr \<Rightarrow> pystr \<Rightarrow> json \<Rightarrow> pystr" where
  "resolve_stage_path d manifest name raw =
     (let cs = stage_candidates manifest name raw in
      fs_resolve d (case filter (\<lambda>p. file_at d p \<noteq> None) cs of [] \<Rightarrow> hd cs | p # _ \<Rightarrow> p))"

definition stage_profile :: "jobj \<Rightarrow> pystr \<Rightarrow> pystr" where
  "stage_profile provenance name =
     (if startswith name (u ''native-'') then u ''native''
      else if startswith name (u ''official-search-'') then u ''official-'' @ last (split_on 45 name)
      else if name = u ''official-build'' then
        (case jget provenance ''official_candidate_recompute_mode'' of
           JStr m \<Rightarrow> if m = u ''cached'' \<or> m = u ''real'' then u ''official-'' @ m else u ''official''
         | _ \<Rightarrow> u ''official'')
      else u ''official'')"

definition stage_map :: "run_info \<Rightarrow> jobj res" where
  "stage_map ri =
     and_then (mapping (if jhas (ri_manifest ri) ''stages'' then jget (ri_manifest ri) ''stages'' else JObj [])) (\<lambda>stages.
     and_then (require (list_all (\<lambda>kv. recognized_stage_name (fst kv)) stages) (CollectionError ''unrecognized recorded stages'')) (\<lambda>_.
     and_then (require (fst ` set stages = set (ri_planned ri)) (CollectionError ''planned/recorded stage sets differ'')) (\<lambda>_.
     Inr stages)))"

definition enter_stage :: "collector \<Rightarrow> stage_entry \<Rightarrow> collector" where
  "enter_stage c e =
     c\<lparr>co_sources := (case co_sources c of [] \<Rightarrow> []
        | s # ss \<Rightarrow> butlast (co_sources c) @ [(last (co_sources c))\<lparr>sr_stages := sr_stages (last (co_sources c)) @ [e]\<rparr>])\<rparr>"

subsection \<open>What binds a stage to its manifest\<close>

definition stage_schema :: pystr where "stage_schema = u ''leann-command-stage-v1''"

definition stage_bound :: "tools \<Rightarrow> run_info \<Rightarrow> pystr \<Rightarrow> jobj \<Rightarrow> jobj \<Rightarrow> unit res" where
  "stage_bound t ri name stage inputs =
     and_then (collector_hash t (JObj inputs)) (\<lambda>hash.
     and_then (require (py_eq (jget stage ''input_hash'') (JStr hash)) (CollectionError ''stage input hash differs'')) (\<lambda>_.
     and_then (require (py_eq (jget inputs ''shared'') (JObj (ri_shared ri))) (CollectionError ''stage shared artifacts differ from manifest'')) (\<lambda>_.
     and_then (require (\<not> jhas inputs ''tooling'' \<or> py_eq (jget inputs ''tooling'') (jget (ri_provenance ri) ''tooling''))
        (CollectionError ''stage tooling differs from manifest provenance'')) (\<lambda>_.
     and_then (require (\<not> startswith name (u ''official-'')
          \<or> py_eq (jget inputs ''official_runtime'') (jget (ri_provenance ri) ''official_runtime''))
        (CollectionError ''official runtime differs from manifest provenance'')) (\<lambda>_.
     require (name \<noteq> u ''official-search-real'' \<or> (case ri_reuse ri of None \<Rightarrow> True
          | Some (reuse, _) \<Rightarrow> py_eq (jget inputs ''index_reuse'') (JObj reuse)))
       (CollectionError ''search stage reuse binding differs from manifest provenance''))))))"

text \<open>The repetitions and warm-ups the protocol asks of a stage.\<close>

definition expected_counts :: "jobj \<Rightarrow> pystr \<Rightarrow> (int \<times> int) res" where
  "expected_counts protocol name =
     (if name = u ''native-build'' \<or> name = u ''official-build'' then
        and_then (integer (jget protocol ''build_repetitions'') 1) (\<lambda>r.
        and_then (integer (jget protocol ''build_warmups'') 0) (\<lambda>w. Inr (r, w)))
      else if name = u ''native-stats'' then Inr (1, 0)
      else
        and_then (integer (jget protocol ''search_repetitions'') 1) (\<lambda>r.
        and_then (integer (jget protocol ''search_warmups'') 0) (\<lambda>w. Inr (r, w))))"

definition check_counts :: "jobj \<Rightarrow> pystr \<Rightarrow> jobj \<Rightarrow> json list \<Rightarrow> json list \<Rightarrow> unit res" where
  "check_counts protocol name inputs measurements warmups =
     and_then (expected_counts protocol name) (\<lambda>(r, w).
     and_then (mapping (jget inputs ''execution_protocol'')) (\<lambda>declared.
     and_then (require (py_eq (JObj declared) (JObj (jobj [(''warmups'', JInt w), (''repetitions'', JInt r)])))
        (CollectionError ''stage execution protocol differs from the manifest protocol'')) (\<lambda>_.
     and_then (require (int (length measurements) = r) (CollectionError ''measurement repetition count differs'')) (\<lambda>_.
     require (int (length warmups) = w) (CollectionError ''warmup count differs'')))))"

text \<open>\<open>kind\<close>, \<open>ordinal\<close> and command of one observation, and the runtime of an official one.\<close>

definition check_observation ::
  "collector_env \<Rightarrow> pystr \<Rightarrow> jobj \<Rightarrow> jobj \<Rightarrow> pystr \<Rightarrow> verifier \<Rightarrow> nat \<times> json \<Rightarrow> verifier res" where
  "check_observation env name stage inputs kind fv iv =
     and_then (mapping (snd iv)) (\<lambda>obs.
     and_then (require (py_eq (jget obs ''kind'') (JStr kind) \<and> py_eq (jget obs ''ordinal'') (JInt (int (fst iv))))
        (CollectionError ''observation has a mismatched kind/ordinal'')) (\<lambda>_.
     and_then (expected_observation_command inputs kind (fst iv)) (\<lambda>command.
     and_then (require (py_eq (jget obs ''command'') (JArr (map JStr command)))
        (CollectionError ''observation command differs from the stage command template'')) (\<lambda>_.
     if startswith name (u ''official-'') then
       and_then (runtime_binding (ce_tools env) (ce_disk env) fv stage obs) (\<lambda>(fv, _). Inr fv)
     else Inr fv))))"

definition check_observations ::
  "collector_env \<Rightarrow> pystr \<Rightarrow> jobj \<Rightarrow> jobj \<Rightarrow> json list \<Rightarrow> json list \<Rightarrow> verifier \<Rightarrow> verifier res" where
  "check_observations env name stage inputs warmups measurements fv =
     and_then (fold_res (check_observation env name stage inputs (u ''warmups'')) fv (enumerate 0 warmups)) (\<lambda>fv.
     fold_res (check_observation env name stage inputs (u ''measurements'')) fv (enumerate 0 measurements))"

definition check_executable :: "collector_env \<Rightarrow> pystr \<Rightarrow> verifier \<Rightarrow> json \<Rightarrow> verifier res" where
  "check_executable env binary fv v =
     and_then (mapping v) (\<lambda>obs.
     and_then (mapping (jget obs ''executable'')) (\<lambda>executable.
     and_then (verify (ce_tools env) (ce_disk env) fv (JObj executable)) (\<lambda>(fv, _).
     and_then (require (py_eq (jget executable ''sha256'') (JStr binary)) (CollectionError ''executable SHA-256 differs from binary_sha256'')) (\<lambda>_.
     Inr fv))))"

text \<open>The binary of a native stage, which all its observations ran.\<close>

definition native_binary :: "pystr \<Rightarrow> jobj \<Rightarrow> pystr option res" where
  "native_binary name inputs =
     (if startswith name (u ''native-'') then
        and_then (sha_field (jget inputs ''binary_sha256'') (CollectionError ''missing native binary SHA'')) (\<lambda>s. Inr (Some s))
      else Inr None)"

definition check_stage :: "collector_env \<Rightarrow> collector \<Rightarrow> run_info \<Rightarrow> pystr \<Rightarrow> jobj \<Rightarrow> jobj \<Rightarrow> collector res" where
  "check_stage env c ri name stage inputs =
     and_then (native_binary name inputs) (\<lambda>binary.
     and_then (sequence (jget stage ''measurements'')) (\<lambda>measurements.
     and_then (sequence (jget stage ''warmups'')) (\<lambda>warmups.
     and_then (check_counts (ri_protocol ri) name inputs measurements warmups) (\<lambda>_.
     and_then (check_observations env name stage inputs warmups measurements (co_verifier c)) (\<lambda>fv.
     and_then (case binary of None \<Rightarrow> Inr fv
        | Some b \<Rightarrow> fold_res (check_executable env b) fv (warmups @ measurements)) (\<lambda>fv.
     Inr (c\<lparr>co_verifier := fv, co_binaries := set_option binary \<union> co_binaries c\<rparr>)))))))"

subsection \<open>Dispatch\<close>

definition build_mode :: "tools \<Rightarrow> jobj \<Rightarrow> jobj \<Rightarrow> pystr" where
  "build_mode t provenance inputs =
     py_str t (if jhas inputs ''candidate_recompute_mode'' then jget inputs ''candidate_recompute_mode''
       else if jhas provenance ''official_candidate_recompute_mode'' then jget provenance ''official_candidate_recompute_mode''
       else JStr [])"

definition dispatch_stage :: "collector_env \<Rightarrow> collector \<Rightarrow> run_info \<Rightarrow> pystr \<Rightarrow> jobj \<Rightarrow> jobj \<Rightarrow> collector res" where
  "dispatch_stage env c ri name stage inputs =
     (let ds = td_record (ri_data ri) in
      if name = u ''native-build'' then native_build env c (ri_tier ri) (ri_sha ri) stage
      else if name = u ''native-stats'' then native_stats env c (ri_tier ri) (ri_sha ri) stage ds
      else if startswith name (u ''native-search-'') then native_search env c (ri_tier ri) (ri_sha ri) name stage ds (ri_cutoffs ri)
      else if name = u ''official-build'' then
        (let mode = build_mode (ce_tools env) (ri_provenance ri) inputs in
         and_then (require (mode = u ''cached'' \<or> mode = u ''real'') (CollectionError ''invalid official build recompute mode'')) (\<lambda>_.
         official_build env c (ri_tier ri) (u ''official-'' @ mode) (ri_sha ri) stage ds))
      else if name = u ''official-search-cached'' \<or> name = u ''official-search-real'' then
        (let mode = last (split_on 45 name) in
         and_then (require (py_eq (jget inputs ''candidate_recompute_mode'') (JStr mode))
           (CollectionError ''candidate recompute mode differs from stage name'')) (\<lambda>_.
         and_then (require (py_eq (jget (ri_provenance ri) ''official_candidate_recompute_mode'') (JStr mode))
           (CollectionError ''candidate recompute mode differs from manifest'')) (\<lambda>_.
         official_search env c (ri_tier ri) mode (ri_sha ri) stage ds (ri_cutoffs ri))))
      else Inl (CollectionError ''recognized stage was not dispatched''))"

text \<open>A gate run is not parsed when \<open>native-gate\<close> is the whole role.\<close>

definition gate_stage :: "run_info \<Rightarrow> pystr \<Rightarrow> bool" where
  "gate_stage ri name \<longleftrightarrow> ri_role ri = u ''native-gate'' \<and> startswith name (u ''native-'')"

definition ingest_document ::
  "collector_env \<Rightarrow> run_info \<Rightarrow> collector \<Rightarrow> pystr \<Rightarrow> jobj \<Rightarrow> collector res" where
  "ingest_document env ri c name stage =
     and_then (require (py_eq (jget stage ''schema'') (JStr stage_schema) \<and> py_eq (jget stage ''name'') (JStr name))
        (CollectionError ''stage schema/name mismatch'')) (\<lambda>_.
     let c = (if py_eq (jget stage ''status'') (JStr (u ''complete'')) then c
              else add_issue c ''stage-incomplete'' (ri_tier ri) (stage_profile (ri_provenance ri) name) (u ''stage is not complete'')) in
     and_then (mapping (jget stage ''inputs'')) (\<lambda>inputs.
     and_then (stage_bound (ce_tools env) ri name stage inputs) (\<lambda>_.
     if gate_stage ri name then Inr c
     else and_then (check_stage env c ri name stage inputs) (\<lambda>c. dispatch_stage env c ri name stage inputs))))"

definition ingest_stage :: "collector_env \<Rightarrow> run_info \<Rightarrow> jobj \<Rightarrow> collector \<Rightarrow> pystr \<Rightarrow> collector res" where
  "ingest_stage env ri stages c name =
     (let d = ce_disk env;
          path = resolve_stage_path d (ri_path ri) name (case map_of stages name of None \<Rightarrow> JNull | Some v \<Rightarrow> v) in
      if file_at d path = None then
        Inr (add_issue c ''missing-stage-file'' (ri_tier ri) (stage_profile (ri_provenance ri) name) (u ''stage file does not exist''))
      else
        and_then (and_then (collector_load (ce_tools env) d path) mapping) (\<lambda>stage.
        and_then (sha256_file (tl_host (ce_tools env)) d path 0 None) (\<lambda>sha.
        ingest_document env ri
          (enter_stage c \<lparr>se_name = name, se_path = path, se_sha = sha, se_status = jget stage ''status''\<rparr>) name stage)))"

definition ingest :: "collector_env \<Rightarrow> collector \<Rightarrow> pystr \<Rightarrow> pystr \<Rightarrow> collector res" where
  "ingest env c tier path =
     and_then (ingest_head env c tier path) (\<lambda>(c, ri).
     and_then (stage_map ri) (\<lambda>stages.
     fold_res (ingest_stage env ri stages) c (sort (map fst stages))))"

subsection \<open>Identities across the sources\<close>

definition single :: "'a set \<Rightarrow> bool" where
  "single A \<longleftrightarrow> (\<forall>x \<in> A. \<forall>y \<in> A. x = y)"

definition identity_sets :: "collector \<Rightarrow> (string \<times> bool) list" where
  "identity_sets c =
     [(''model identity'', single (co_models c)), (''query source identity'', single (co_queries c)),
      (''query count'', single (co_query_counts c)), (''embedding dimensions'', single (co_dimensions c)),
      (''native binary identity'', single (co_binaries c)), (''leann.cpp commit'', single (co_leann_commits c)),
      (''official LEANN commit'', single (co_official_commits c)), (''official runtime identity'', single (co_runtimes c)),
      (''machine/platform identity'', single (co_machines c)), (''server context identity'', single (co_servers c)),
      (''tooling'', \<forall>x \<in> co_tooling c. \<forall>y \<in> co_tooling c. fst x = fst y \<longrightarrow> snd x = snd y)]"

definition validate_cross_source_identities :: "collector \<Rightarrow> unit res" where
  "validate_cross_source_identities c =
     (case filter (\<lambda>kb. \<not> snd kb) (identity_sets c) of
        [] \<Rightarrow> Inr ()
      | (label, _) # _ \<Rightarrow> Inl (CollectionError (''cross-source mismatch: '' @ label)))"

subsection \<open>The declared tiers\<close>

definition same_shared :: "dataset \<Rightarrow> dataset \<Rightarrow> bool" where
  "same_shared a b \<longleftrightarrow> ds_query_count a = ds_query_count b \<and> ds_dimensions a = ds_dimensions b
     \<and> ds_queries_sha a = ds_queries_sha b \<and> ds_query_cache_sha a = ds_query_cache_sha b \<and> ds_model_sha a = ds_model_sha b
     \<and> ds_model_artifact_sha a = ds_model_artifact_sha b \<and> ds_fingerprint a = ds_fingerprint b"

definition same_envelope :: "cache_meta \<Rightarrow> cache_meta \<Rightarrow> bool" where
  "same_envelope a b \<longleftrightarrow> cm_dimensions a = cm_dimensions b \<and> cm_fingerprint a = cm_fingerprint b
     \<and> cm_vector_bytes a = 100000 * cm_dimensions a * 4"

definition json_path :: "json \<Rightarrow> pystr res" where
  "json_path v = (case v of JStr p \<Rightarrow> Inr p | _ \<Rightarrow> Inl (TypeError ''path''))"

definition tier_prefix_of :: "collector_env \<Rightarrow> tier_data \<Rightarrow> tier_data \<Rightarrow> tier_prefix res" where
  "tier_prefix_of env smaller larger =
     (let a = td_record smaller; b = td_record larger; h = tl_host (ce_tools env); d = ce_disk env in
      and_then (require (same_shared (dr_identity a) (dr_identity b)) (CollectionError ''100k/1m shared query/model identities differ'')) (\<lambda>_.
      and_then (json_path (dr_documents_path a)) (\<lambda>_.
      and_then (json_path (dr_documents_path b)) (\<lambda>larger_documents.
      and_then (require (dr_raw_bytes a < dr_raw_bytes b) (CollectionError ''1m prepared document file is not larger than 100k'')) (\<lambda>_.
      and_then (sha256_file h d larger_documents 0 (Some (nat (dr_raw_bytes a)))) (\<lambda>documents_sha.
      and_then (require (documents_sha = ds_documents_sha (dr_identity a)) (CollectionError ''100k prepared documents are not the exact byte prefix of 1m'')) (\<lambda>_.
      and_then (require (same_envelope (td_corpus smaller) (td_corpus larger)) (CollectionError ''100k/1m corpus cache vector envelopes are inconsistent'')) (\<lambda>_.
      and_then (json_path (dr_corpus_cache_path a)) (\<lambda>smaller_cache.
      and_then (sha256_file h d smaller_cache (cm_vector_offset (td_corpus smaller)) (Some (cm_vector_bytes (td_corpus smaller)))) (\<lambda>smaller_sha.
      and_then (json_path (dr_corpus_cache_path b)) (\<lambda>larger_cache.
      and_then (sha256_file h d larger_cache (cm_vector_offset (td_corpus larger)) (Some (cm_vector_bytes (td_corpus smaller)))) (\<lambda>larger_sha.
      and_then (require (smaller_sha = larger_sha) (CollectionError ''100k corpus vectors are not the exact bitwise prefix of 1m'')) (\<lambda>_.
      Inr \<lparr>tp_documents_bytes = dr_raw_bytes a, tp_documents_sha = documents_sha,
           tp_vector_bytes = int (cm_vector_bytes (td_corpus smaller)), tp_vector_sha = smaller_sha\<rparr>)))))))))))))"

definition validate_declared_tier_prefix :: "collector_env \<Rightarrow> collector \<Rightarrow> collector res" where
  "validate_declared_tier_prefix env c =
     (case (map_of (co_datasets c) (u ''100k''), map_of (co_datasets c) (u ''1m'')) of
        (Some smaller, Some larger) \<Rightarrow> and_then (tier_prefix_of env smaller larger) (\<lambda>p. Inr (c\<lparr>co_prefix := Some p\<rparr>))
      | _ \<Rightarrow> Inr c)"

subsection \<open>Gate runs\<close>

lemma gate_role_plan:
  assumes "validate_declared_run_role declared planned = Inr (u ''native-gate'')"
  shows "u ''official-search-cached'' \<notin> set planned" and "u ''official-search-real'' \<notin> set planned"
proof -
  have "split_on 43 (u ''native-gate'') = [u ''native-gate'']" by (simp add: u_def)
  moreover have "\<not> startswith (u ''native-gate'') (u ''official-'')" by (simp add: startswith_code u_def)
  moreover obtain role where "role = u ''native-gate''"
    "set (filter (\<lambda>c. startswith c (u ''official-'')) (split_on 43 role)) = expected_official (set planned)"
    using assms unfolding validate_declared_run_role_def by (simp add: ok_simps Let_def del: set_filter)
  ultimately have "expected_official (set planned) = {}" by simp
  then show "u ''official-search-cached'' \<notin> set planned" "u ''official-search-real'' \<notin> set planned"
    by (auto simp: expected_official_def split: if_splits)
qed

text \<open>What the head of a manifest guarantees to its stages.\<close>

definition run_ok :: "collector \<Rightarrow> run_info \<Rightarrow> bool" where
  "run_ok c ri \<longleftrightarrow>
     1 \<le> ds_query_count (dr_identity (td_record (ri_data ri)))
     \<and> map_option sx_role (map_of (co_context c) (ri_sha ri)) = Some (ri_role ri)
     \<and> (ri_role ri = u ''native-gate'' \<longrightarrow>
          u ''official-search-cached'' \<notin> set (ri_planned ri) \<and> u ''official-search-real'' \<notin> set (ri_planned ri))"

lemma run_ok_context: "co_context c' = co_context c \<Longrightarrow> run_ok c' ri = run_ok c ri"
  by (simp add: run_ok_def)

lemma run_no_gate: "run_ok c ri \<Longrightarrow> ri_role ri \<noteq> u ''native-gate'' \<Longrightarrow> no_gate c (ri_sha ri)"
  by (auto simp: run_ok_def no_gate_def)

subsection \<open>The head keeps the invariant\<close>

lemma ok_by_fields:
  assumes "collector_ok env c" and "verifier_ok (ce_tools env) (ce_disk env) (co_verifier c')"
    and "co_caches c' = co_caches c" "co_lines c' = co_lines c" "co_datasets c' = co_datasets c" "co_samples c' = co_samples c"
    "co_builds c' = co_builds c"
  shows "collector_ok env c'"
  using assms by (simp add: collector_ok_def)

lemma ingest_tooling_kept:
  assumes "ingest_tooling env c tooling = Inr (c', tools)" and "collector_ok env c"
  shows "collector_ok env c'"
proof (cases "tooling = JNull")
  case False
  then obtain items where "fold_res (ingest_tool env) (c, []) items = Inr (c', tools)"
    using assms(1) by (auto simp: ingest_tooling_def ok_simps)
  then have "collector_ok env (fst (c', tools))"
  proof (rule fold_res_invariant)
    fix st x st'
    assume ok: "collector_ok env (fst st)" and s: "ingest_tool env st x = Inr st'"
    from s obtain c1 p m sha where v: "verify_file env (fst st) x = Inr (c1, p)"
      and st': "fst st' = c1\<lparr>co_tooling := insert (pure_name p, sha) (co_tooling c1)\<rparr>"
      unfolding ingest_tool_def by (auto simp: ok_simps)
    from verify_file_ok [OF v ok] have "collector_ok env c1" by simp
    then show "collector_ok env (fst st')" unfolding st' by (rule ok_by_fields) (simp_all add: collector_verifier [OF \<open>collector_ok env c1\<close>])
  qed (use assms(2) in simp)
  then show ?thesis by simp
qed (use assms in \<open>simp add: ingest_tooling_def\<close>)

lemma ingest_attestation_kept:
  "ingest_attestation env c provenance shared ds tooling planned = Inr (c', a) \<Longrightarrow> collector_ok env c \<Longrightarrow> collector_ok env c'"
  by (auto simp: ingest_attestation_def ok_simps collector_ok_def split: if_splits)

lemma ingest_provenance_kept:
  assumes "ingest_provenance env c provenance shared ds planned = Inr (c', m, s, a)" and "collector_ok env c"
  shows "collector_ok env c'"
proof -
  from assms(1) obtain c1 c2 tooling machine server where c: "ingest_commits c provenance = Inr c1"
    "ingest_tooling env c1 (jget provenance ''tooling'') = Inr (c2, tooling)"
    "ingest_attestation env (c2\<lparr>co_machines := insert machine (co_machines c2), co_servers := insert server (co_servers c2)\<rparr>)
        provenance shared ds tooling planned = Inr (c', a)"
    unfolding ingest_provenance_def by (simp add: ok_simps split: prod.splits) blast
  have "collector_ok env c1" using c(1) assms(2) by (auto simp: ingest_commits_def ok_simps collector_ok_def)
  then have "collector_ok env c2" using c(2) ingest_tooling_kept by blast
  then have "collector_ok env (c2\<lparr>co_machines := insert machine (co_machines c2), co_servers := insert server (co_servers c2)\<rparr>)"
    by (simp add: collector_ok_def)
  then show ?thesis using c(3) ingest_attestation_kept by blast
qed

lemma ingest_reuse_kept:
  assumes "ingest_reuse env c role raw = Inr (c', r)" and "collector_ok env c"
  shows "collector_ok env c'"
proof (cases "raw = JNull")
  case False
  then obtain reuse x where "check_reuse env c role reuse = Inr (c', x)"
    using assms(1) by (auto simp: ingest_reuse_def ok_simps)
  then obtain s1 p1 c1 s2 p2 c2 ss fv where v: "verify_file env c s1 = Inr (c1, p1)" "verify_file env c1 s2 = Inr (c2, p2)"
    "verify_each (ce_tools env) (ce_disk env) (co_verifier c2) ss = Inr fv" and c': "c' = c2\<lparr>co_verifier := fv\<rparr>"
    unfolding check_reuse_def by (simp add: ok_simps split: prod.splits) blast
  have "collector_ok env c2" using v(1,2) assms(2) verify_file_ok by blast
  then show ?thesis using sound.verify_each_kept [OF v(3)] by (simp add: c' collector_ok_def)
qed (use assms in \<open>auto simp: ingest_reuse_def ok_simps\<close>)

lemma ingest_head_kept:
  assumes "ingest_head env c tier path = Inr (c', ri)" and "collector_ok env c"
  shows "collector_ok env c'" and "run_ok c' ri"
proof -
  from assms(1) obtain manifest sha shared c1 td protocol planned cutoffs provenance c2 machine server a role c3 reuse hash where
    r: "register_shared env c tier shared = Inr (c1, td)"
      "ingest_provenance env c1 provenance shared (dr_identity (td_record td)) planned = Inr (c2, machine, server, a)"
      "validate_declared_run_role (jget manifest ''run_role'') planned = Inr role"
      "ingest_reuse env c2 role (jget provenance ''official_index_reuse'') = Inr (c3, reuse)"
    and ri: "ri = \<lparr>ri_path = fs_resolve (ce_disk env) path, ri_sha = sha, ri_tier = tier, ri_manifest = manifest, ri_shared = shared,
        ri_data = td, ri_protocol = protocol, ri_planned = planned, ri_cutoffs = cutoffs, ri_provenance = provenance,
        ri_role = role, ri_reuse = reuse\<rparr>"
    and c': "c' = (if py_eq (jget manifest ''status'') (JStr (u ''complete'')) then enter_source c3 ri machine server a hash
        else add_issue (enter_source c3 ri machine server a hash) ''manifest-incomplete'' tier (u ''all'') (u ''manifest is not complete''))"
    unfolding ingest_head_def by (simp add: ok_simps Let_def split: prod.splits) blast
  have r1: "collector_ok env c1" "1 \<le> ds_query_count (dr_identity (td_record td))" using register_shared_kept [OF r(1) assms(2)] by auto
  have c3: "collector_ok env c3" using ingest_reuse_kept [OF r(4)] ingest_provenance_kept [OF r(2) r1(1)] by blast
  have "collector_ok env (enter_source c3 ri machine server a hash)" using c3 by (simp add: collector_ok_def enter_source_def)
  then show "collector_ok env c'" by (simp add: c')
  have "run_ok (enter_source c3 ri machine server a hash) ri"
    using r1(2) r(3) gate_role_plan by (auto simp: run_ok_def ri enter_source_def)
  then show "run_ok c' ri" by (simp add: c' run_ok_def) (simp add: add_issue_def)
qed

subsection \<open>Every stage keeps the invariant\<close>

lemma keeps_fields:
  "co_verifier c' = co_verifier c \<Longrightarrow> co_caches c' = co_caches c \<Longrightarrow> co_lines c' = co_lines c \<Longrightarrow> co_datasets c' = co_datasets c \<Longrightarrow>
     co_samples c' = co_samples c \<Longrightarrow> co_builds c' = co_builds c \<Longrightarrow> co_context c' = co_context c \<Longrightarrow> keeps env c c'"
  by (simp add: keeps_def collector_ok_def)

lemma check_observations_kept:
  assumes "check_observations env name stage inputs ws ms fv = Inr fv'" and "verifier_ok (ce_tools env) (ce_disk env) fv"
  shows "verifier_ok (ce_tools env) (ce_disk env) fv'"
proof -
  have step: "verifier_ok (ce_tools env) (ce_disk env) f2"
    if "verifier_ok (ce_tools env) (ce_disk env) f1" "check_observation env name stage inputs k f1 x = Inr f2" for k f1 x f2
    using that by (auto simp: check_observation_def ok_simps intro: sound.runtime_binding_kept split: if_splits)
  from assms(1) obtain f1 where f: "fold_res (check_observation env name stage inputs (u ''warmups'')) fv (enumerate 0 ws) = Inr f1"
    "fold_res (check_observation env name stage inputs (u ''measurements'')) f1 (enumerate 0 ms) = Inr fv'"
    by (auto simp: check_observations_def ok_simps)
  from f(1) assms(2) step have "verifier_ok (ce_tools env) (ce_disk env) f1" by (rule fold_res_invariant)
  with f(2) show ?thesis using step by (rule fold_res_invariant)
qed

lemma check_stage_kept:
  assumes "check_stage env c ri name stage inputs = Inr c'"
  shows "keeps env c c'"
proof -
  from assms obtain binary ws ms f1 fv where f: "check_observations env name stage inputs ws ms (co_verifier c) = Inr f1"
    "(case binary of None \<Rightarrow> Inr f1 | Some b \<Rightarrow> fold_res (check_executable env b) f1 (ws @ ms)) = Inr fv"
    and c': "c' = c\<lparr>co_verifier := fv, co_binaries := set_option binary \<union> co_binaries c\<rparr>"
    unfolding check_stage_def by (simp add: ok_simps split: prod.splits) blast
  have "verifier_ok (ce_tools env) (ce_disk env) fv" if "verifier_ok (ce_tools env) (ce_disk env) (co_verifier c)"
  proof (cases binary)
    case (Some b)
    then have "fold_res (check_executable env b) f1 (ws @ ms) = Inr fv" using f(2) by simp
    then show ?thesis
      by (rule fold_res_invariant) (use that check_observations_kept [OF f(1)] in \<open>auto simp: check_executable_def ok_simps intro: verify_sound(1)\<close>)
  qed (use that check_observations_kept [OF f(1)] f(2) in simp)
  then show ?thesis by (simp add: keeps_def collector_ok_def c')
qed

lemma official_not_native:
  "\<not> startswith (u ''official-build'') (u ''native-'')" "\<not> startswith (u ''official-search-cached'') (u ''native-'')"
  "\<not> startswith (u ''official-search-real'') (u ''native-'')"
  by (simp_all add: startswith_code u_def)

lemma search_starts_native: "startswith name (u ''native-search-'') \<Longrightarrow> startswith name (u ''native-'')"
proof -
  have "u ''native-search-'' = u ''native-'' @ u ''search-''" by (simp add: u_def)
  then show "startswith name (u ''native-search-'') \<Longrightarrow> startswith name (u ''native-'')"
    unfolding startswith_def by (metis append_prefixD)
qed

lemma dispatch_stage_kept:
  assumes "dispatch_stage env c ri name stage inputs = Inr c'" and "run_ok c ri" and "name \<in> set (ri_planned ri)" and "\<not> gate_stage ri name"
  shows "keeps env c c'"
proof -
  have q: "1 \<le> ds_query_count (dr_identity (td_record (ri_data ri)))" using assms(2) by (simp add: run_ok_def)
  have gate: "no_gate c (ri_sha ri)" if "startswith name (u ''native-search-'') \<or> name = u ''official-search-cached'' \<or> name = u ''official-search-real''"
  proof (rule run_no_gate [OF assms(2)])
    show "ri_role ri \<noteq> u ''native-gate''"
      using that assms(2-4) search_starts_native by (auto simp: run_ok_def gate_stage_def)
  qed
  consider (nb) "native_build env c (ri_tier ri) (ri_sha ri) stage = Inr c'"
    | (ns) "native_stats env c (ri_tier ri) (ri_sha ri) stage (td_record (ri_data ri)) = Inr c'"
    | (se) "startswith name (u ''native-search-'')"
        "native_search env c (ri_tier ri) (ri_sha ri) name stage (td_record (ri_data ri)) (ri_cutoffs ri) = Inr c'"
    | (ob) "\<exists>profile. official_build env c (ri_tier ri) profile (ri_sha ri) stage (td_record (ri_data ri)) = Inr c'"
    | (os) "name = u ''official-search-cached'' \<or> name = u ''official-search-real''"
        "\<exists>mode. official_search env c (ri_tier ri) mode (ri_sha ri) stage (td_record (ri_data ri)) (ri_cutoffs ri) = Inr c'"
    using assms(1) unfolding dispatch_stage_def Let_def by (auto simp: ok_simps split: if_splits)
  then show ?thesis
  proof cases
    case nb then show ?thesis by (rule native_build_kept)
  next
    case ns then show ?thesis by (rule native_stats_kept)
  next
    case se then show ?thesis using native_search_kept q gate by blast
  next
    case ob then show ?thesis using official_build_kept by blast
  next
    case os then show ?thesis using official_search_kept q gate by blast
  qed
qed

lemma ingest_document_kept:
  assumes "ingest_document env ri c name stage = Inr c'" and "run_ok c ri" and "name \<in> set (ri_planned ri)"
  shows "keeps env c c'"
proof -
  obtain c0 where c0: "c0 = (if py_eq (jget stage ''status'') (JStr (u ''complete'')) then c
      else add_issue c ''stage-incomplete'' (ri_tier ri) (stage_profile (ri_provenance ri) name) (u ''stage is not complete''))" by simp
  have k0: "keeps env c c0" by (simp add: c0)
  from assms(1) obtain inputs where rest: "(if gate_stage ri name then Inr c0
      else and_then (check_stage env c0 ri name stage inputs) (\<lambda>c. dispatch_stage env c ri name stage inputs)) = Inr c'"
    unfolding ingest_document_def c0 Let_def by (simp add: ok_simps) blast
  show ?thesis
  proof (cases "gate_stage ri name")
    case False
    then obtain c1 where c1: "check_stage env c0 ri name stage inputs = Inr c1" "dispatch_stage env c1 ri name stage inputs = Inr c'"
      using rest by (auto simp: ok_simps)
    have k1: "keeps env c0 c1" using check_stage_kept c1(1) .
    have "run_ok c1 ri" using assms(2) k0 k1 run_ok_context by (simp add: keeps_def run_ok_def)
    then show ?thesis using dispatch_stage_kept [OF c1(2) _ assms(3) False] k0 k1 keeps_trans by blast
  qed (use rest k0 in simp)
qed

lemma ingest_stage_kept:
  assumes "ingest_stage env ri stages c name = Inr c'" and "run_ok c ri" and "name \<in> set (ri_planned ri)"
  shows "keeps env c c'"
proof -
  have e: "keeps env c (enter_stage c e)" for e by (rule keeps_fields) (simp_all add: enter_stage_def)
  then have r: "run_ok (enter_stage c e) ri" for e using assms(2) by (simp add: keeps_def run_ok_def)
  show ?thesis
  proof (cases "file_at (ce_disk env) (resolve_stage_path (ce_disk env) (ri_path ri) name (case map_of stages name of None \<Rightarrow> JNull | Some v \<Rightarrow> v)) = None")
    case True
    then show ?thesis using assms(1) by (auto simp: ingest_stage_def Let_def)
  next
    case False
    then obtain stage sha where "ingest_document env ri (enter_stage c \<lparr>se_name = name,
        se_path = resolve_stage_path (ce_disk env) (ri_path ri) name (case map_of stages name of None \<Rightarrow> JNull | Some v \<Rightarrow> v),
        se_sha = sha, se_status = jget stage ''status''\<rparr>) name stage = Inr c'"
      using assms(1) unfolding ingest_stage_def Let_def if_not_P [OF False] by (simp only: ok_simps) blast
    then show ?thesis using ingest_document_kept r assms(3) e keeps_trans by blast
  qed
qed

lemma ingest_kept:
  assumes "ingest env c tier path = Inr c'" and "collector_ok env c"
  shows "collector_ok env c'"
proof -
  from assms(1) obtain c1 ri stages where h: "ingest_head env c tier path = Inr (c1, ri)" and s: "stage_map ri = Inr stages"
    and f: "fold_res (ingest_stage env ri stages) c1 (sort (map fst stages)) = Inr c'"
    by (auto simp: ingest_def ok_simps)
  have names: "x \<in> set (ri_planned ri)" if "x \<in> set (sort (map fst stages))" for x
    using that s by (auto simp: stage_map_def ok_simps)
  from f have "collector_ok env c' \<and> co_context c' = co_context c1"
  proof (rule fold_res_invariant)
    fix c2 x c3
    assume "x \<in> set (sort (map fst stages))" "collector_ok env c2 \<and> co_context c2 = co_context c1" "ingest_stage env ri stages c2 x = Inr c3"
    then show "collector_ok env c3 \<and> co_context c3 = co_context c1"
      using ingest_stage_kept names ingest_head_kept(2) [OF h assms(2)] run_ok_context by (metis keeps_def)
  qed (use ingest_head_kept(1) [OF h assms(2)] in simp)
  then show ?thesis by simp
qed

end
