(* ===== verification/CollectRun.thy ===== *)
theory CollectRun
  imports Collector
begin

text \<open>
  The loop of \<open>collect_results\<close> over the manifests it is given, and what holds of the collector when it ends: every
  sample and every build rests on files that are on the disk with the recorded digests, the memory of the collector is
  that of the disk, and every sample is complete. A sample run at the end shows that the loop accepts evidence at all.
\<close>

subsection \<open>The manifest specifications\<close>

definition valid_tier :: "pystr \<Rightarrow> bool" where
  "valid_tier tier \<longleftrightarrow> tier \<noteq> [] \<and> \<not> list_ex py_ws tier"

text \<open>\<open>re.fullmatch(r"[1-9][0-9]*[km]", tier)\<close>.\<close>

definition size_label :: "pystr \<Rightarrow> bool" where
  "size_label tier \<longleftrightarrow>
     2 \<le> length tier \<and> last tier \<in> {107, 109} \<and> 49 \<le> hd tier \<and> hd tier \<le> 57 \<and> list_all (\<lambda>ch. 48 \<le> ch \<and> ch \<le> 57) (butlast tier)"

definition ingest_spec ::
  "collector_env \<Rightarrow> collector \<times> (pystr \<times> pystr) list \<Rightarrow> pystr \<times> pystr \<Rightarrow> (collector \<times> (pystr \<times> pystr) list) res" where
  "ingest_spec env st spec =
     (let tier = fst spec; path = fs_resolve (ce_disk env) (snd spec) in
      and_then (require (valid_tier tier) (CollectionError ''invalid tier label'')) (\<lambda>_.
      and_then (require (size_label tier \<longrightarrow> map_of declared_cardinality tier \<noteq> None)
         (CollectionError ''tier is outside the declared 100k/1m matrix'')) (\<lambda>_.
      and_then (require ((tier, path) \<notin> set (snd st)) (CollectionError ''duplicate manifest specification'')) (\<lambda>_.
      and_then (ingest env (fst st) tier path) (\<lambda>c. Inr (c, (tier, path) # snd st))))))"

definition start_collector :: "bool \<Rightarrow> collector" where
  "start_collector verify_artifacts =
     (if verify_artifacts then new_collector True
      else add_issue (new_collector False) ''artifact-hash-verification-disabled'' (u ''all'') (u ''all'')
        (u ''recorded artifact hashes were trusted instead of recomputed''))"

definition ingest_specs :: "collector_env \<Rightarrow> bool \<Rightarrow> (pystr \<times> pystr) list \<Rightarrow> collector res" where
  "ingest_specs env verify_artifacts specs =
     and_then (fold_res (ingest_spec env) (start_collector verify_artifacts, []) (sort specs)) (\<lambda>st. Inr (fst st))"

lemma ingest_specs_ok:
  assumes "ingest_specs env True specs = Inr c"
  shows "collector_ok env c"
proof -
  obtain seen where "fold_res (ingest_spec env) (start_collector True, []) (sort specs) = Inr (c, seen)"
    using assms by (auto simp: ingest_specs_def ok_simps)
  then have "collector_ok env (fst (c, seen))"
    by (rule fold_res_invariant) (auto simp: start_collector_def new_collector_ok ingest_spec_def ok_simps Let_def intro: ingest_kept)
  then show ?thesis by simp
qed


text \<open>
  C28. Every sample the collector holds is well formed: it has queries, one latency per query, and one value per query
  in every recall series and every counter series; and none of them comes from a run whose whole role is the native gate.
\<close>

theorem ingested_samples_are_complete:
  assumes "ingest_specs env True specs = Inr c"
  shows "list_all (\<lambda>s. sample_complete s \<and> sm_role s \<noteq> u ''native-gate'') (co_samples c)"
  using ingest_specs_ok [OF assms] by (simp add: collector_ok_def list_all_iff)

subsection \<open>A sample run\<close>

definition zero_host :: host where
  "zero_host = \<lparr>sha256 = (\<lambda>_. replicate 32 0), dumps_canonical = (\<lambda>_. []), dumps_indent = (\<lambda>_. []), loads = (\<lambda>_. None)\<rparr>"

definition zero_sha :: pystr where "zero_sha = to_hex (replicate 32 0)"

lemma zero_sha_simps [simp]: "sha_hex zero_host content = zero_sha" "is_hex 64 zero_sha" "zero_sha \<noteq> []"
proof -
  show "is_hex 64 zero_sha" using is_hex_to_hex [of "replicate 32 0"] by (simp add: zero_sha_def)
  then show "zero_sha \<noteq> []" by (auto simp: is_hex_def)
qed (simp add: sha_hex_def zero_host_def zero_sha_def)

definition docs_bytes :: bytes where "docs_bytes = utf8_bytes (u ''a'' @ [10] @ u ''b'' @ [10])"
definition query_bytes :: bytes where "query_bytes = utf8_bytes (u ''a'' @ [10])"
definition truth_bytes :: bytes where "truth_bytes = gt_header 1 1 2 @ gt_payload [[1]]"
definition table_bytes :: bytes where "table_bytes = utf8_bytes (written_csv sample_table)"

definition cache_bytes :: "nat \<Rightarrow> nat \<Rightarrow> bytes" where
  "cache_bytes n nbytes = v2_header_bytes 1 n [109] nbytes (replicate 32 0) @ concat (replicate n [0, 0, 128, 63])"

definition run_meta :: "string \<Rightarrow> nat \<Rightarrow> nat \<Rightarrow> cache_meta" where
  "run_meta path n nbytes = \<lparr>cm_version = 2, cm_path = u path, cm_count = n, cm_dimensions = 1, cm_fingerprint = u ''m'',
     cm_fingerprint_sha = zero_sha, cm_vector_offset = 65, cm_vector_bytes = n * 4, cm_size = 65 + n * 4,
     cm_source = Some (nbytes, zero_sha)\<rparr>"

text \<open>The record of a file: path, size and digest, with more.\<close>

definition recorded_file :: "string \<Rightarrow> nat \<Rightarrow> (string \<times> json) list \<Rightarrow> json" where
  "recorded_file path n extra = JObj (jobj ([(''path'', JStr (u path)), (''size_bytes'', JInt (int n)), (''sha256'', JStr zero_sha)] @ extra))"

definition recorded_cache :: "string \<Rightarrow> nat \<Rightarrow> nat \<Rightarrow> json" where
  "recorded_cache path n nbytes = recorded_file path (65 + n * 4)
     [(''schema'', JStr (u ''LEANNBC2'')), (''version'', JInt 2), (''count'', JInt (int n)), (''dimensions'', JInt 1),
      (''fingerprint'', JStr (u ''m'')), (''fingerprint_sha256'', JStr zero_sha), (''vector_offset'', JInt 65),
      (''vector_bytes'', JInt (int (n * 4))), (''source_size_bytes'', JInt (int nbytes)), (''source_sha256'', JStr zero_sha)]"

definition run_shared :: jobj where
  "run_shared = jobj
     [(''documents'', recorded_file ''/d'' 4 [(''nonempty_lines'', JInt 2)]),
      (''queries'', recorded_file ''/q'' 2 [(''nonempty_lines'', JInt 1)]),
      (''corpus_cache'', recorded_cache ''/dc'' 2 4), (''query_cache'', recorded_cache ''/qc'' 1 2),
      (''ground_truth'', recorded_file ''/t'' (length truth_bytes)
         [(''top_k'', JInt 1), (''corpus_count'', JInt 2), (''query_count'', JInt 1)]),
      (''model'', JObj (jobj [(''sha256'', JStr zero_sha), (''identity_strength'', JStr (u ''artifact-sha256'')),
         (''artifact'', recorded_file ''/x'' 1 [])]))]"

text \<open>The run is a sweep or a gate.\<close>

definition run_role_name :: "native_role \<Rightarrow> pystr" where
  "run_role_name g = u ''native-'' @ native_role_name g"

definition run_manifest :: "native_role \<Rightarrow> jobj" where
  "run_manifest g = jobj
     [(''schema'', JStr manifest_schema), (''status'', JStr (u ''complete'')), (''run_role'', JStr (run_role_name g)),
      (''shared_artifacts'', JObj run_shared),
      (''protocol'', JObj (jobj [(''run_role'', JStr (run_role_name g)), (''recall_cutoffs'', JArr [JInt 1]),
         (''search_repetitions'', JInt 1), (''search_warmups'', JInt 0)])),
      (''planned_stages'', JArr [JStr (u ''native-search-ef8'')]),
      (''stages'', JObj (jobj [(''native-search-ef8'', JNull)])),
      (''provenance'', JObj (jobj [(''leann_cpp'', JObj []), (''official_leann'', JObj []), (''server_context'', JObj []),
         (''environment'', JObj (jobj [(''platform'', JStr []), (''machine'', JStr []), (''processor'', JStr [])]))]))]"

definition run_command :: "pystr list" where
  "run_command = map u [''/x'', ''--ef-search'', ''8'', ''--recompute-batch'', ''4'']"

definition run_observation :: jobj where
  "run_observation = jobj
     [(''kind'', JStr (u ''measurements'')), (''ordinal'', JInt 0), (''command'', JArr (map JStr run_command)),
      (''exit_code'', JInt 0), (''wall_seconds'', JInt 1), (''result_file'', recorded_file ''/r'' (length table_bytes) []),
      (''parsed_stdout'', JObj sample_parsed), (''artifacts'', JArr [recorded_file ''/x'' 1 []]),
      (''executable'', recorded_file ''/x'' 1 [])]"

definition run_inputs :: jobj where
  "run_inputs = jobj
     [(''shared'', JObj run_shared), (''binary_sha256'', JStr zero_sha), (''ef_search'', JInt 8),
      (''command_template'', JArr (map JStr run_command)),
      (''execution_protocol'', JObj (jobj [(''warmups'', JInt 0), (''repetitions'', JInt 1)]))]"

definition run_stage_document :: jobj where
  "run_stage_document = jobj
     [(''schema'', JStr stage_schema), (''name'', JStr (u ''native-search-ef8'')), (''status'', JStr (u ''complete'')),
      (''inputs'', JObj run_inputs), (''input_hash'', JStr zero_sha), (''warmups'', JArr []),
      (''measurements'', JArr [JObj run_observation])]"

text \<open>A parity report of the two vector files, the manifest it derives the dataset from, and an endpoint attestation.\<close>

definition sealed_by :: "(string \<times> json) list \<Rightarrow> json" where
  "sealed_by extra = JObj (jobj ((''sha256'', JStr zero_sha) # extra))"

definition parity_kind :: "string \<Rightarrow> string \<times> json" where
  "parity_kind kind = (kind, JObj (jobj [(''rows'', JInt 1), (''minimum_cosine_similarity'', JFloat (Fin 1)),
     (''maximum_absolute_difference'', JFloat (Fin 0))]))"

definition parity_truncation :: json where
  "parity_truncation = JObj (jobj [(''documents'', JInt 1), (''bytes_removed'', JInt 1)])"

definition parity_cache :: "int \<Rightarrow> json" where
  "parity_cache rows = sealed_by [(''count'', JInt rows), (''dimensions'', JInt 1), (''fingerprint'', JStr (u ''m'')), (''sidecar_sha256'', JStr zero_sha)]"

definition parity_metrics :: json where
  "parity_metrics = JObj (jobj [(''minimum_cosine_similarity'', JFloat (Fin 1)), (''mean_cosine_similarity'', JFloat (Fin 1)),
     (''maximum_absolute_difference'', JFloat (Fin 0)), (''rows'', JInt 2), (''dimensions'', JInt 1),
     (''by_kind'', JObj (jobj [parity_kind ''query'', parity_kind ''document'']))])"

definition parity_acceptance :: json where
  "parity_acceptance = JObj (jobj [(''minimum_cosine_similarity'', JFloat (Fin 1))])"

definition parity_described :: json where
  "parity_described = JObj (jobj
     [(''tier'', JStr (u ''t'')), (''documents'', sealed_by [(''nonempty_lines'', JInt 2)]), (''queries'', sealed_by [(''nonempty_lines'', JInt 1)]),
      (''manifest'', sealed_by [(''path'', JStr (u ''/dm'')), (''maximum_prepared_document_bytes'', JInt 9),
         (''tier_truncation'', parity_truncation)]),
      (''document_ids'', sealed_by [(''path'', JStr (u ''/x'')), (''size_bytes'', JInt 1)]), (''source_archive'', sealed_by [])])"

definition parity_covered :: json where
  "parity_covered = JObj (jobj
     [(''queries'', JObj (jobj [(''selected'', JInt 1), (''source_rows'', JInt 1), (''all_queries'', JBool True)])), (''total_rows'', JInt 2),
      (''documents'', JObj (jobj [(''selected_documents'', JInt 1),
         (''truncation_proof'', JObj (jobj [(''checked_documents'', JInt 1), (''source_verified_truncated_documents'', JInt 1)]))]))])"

definition parity_native_part :: json where
  "parity_native_part = JObj (jobj [(''model'', sealed_by []), (''binary'', sealed_by []), (''cache'', recorded_cache ''/dc'' 2 4)])"

definition parity_reference_part :: json where
  "parity_reference_part = JObj (jobj [(''corpus_cache'', parity_cache 2), (''query_cache'', parity_cache 1),
     (''model'', sealed_by [(''artifact'', sealed_by [])])])"

definition parity_rows :: json where
  "parity_rows = JArr [JObj (jobj [(''kind'', JStr (u ''query''))]), JObj (jobj [(''kind'', JStr (u ''document''))])]"

definition parity_fixture_part :: json where
  "parity_fixture_part = JObj (jobj [(''rows'', parity_rows), (''source'', recorded_file ''/d'' 4 [(''nonempty_lines'', JInt 2)]),
     (''reference_cache'', recorded_cache ''/dc'' 2 4)])"

definition run_parity :: jobj where
  "run_parity = jobj
     [(''schema'', JStr (u ''leann-embedding-parity-v1'')), (''passed'', JBool True), (''acceptance'', parity_acceptance),
      (''metrics'', parity_metrics), (''dataset'', parity_described), (''coverage'', parity_covered),
      (''official_comparison_reference'', parity_reference_part), (''native'', parity_native_part), (''fixture'', parity_fixture_part),
      (''input_hash'', JStr zero_sha)]"

definition derived_tier :: json where
  "derived_tier = JObj (jobj [(''documents'', JInt 2), (''maximum_prepared_document_bytes'', JInt 9), (''truncation'', parity_truncation),
     (''text_duplicates'', JObj (jobj [(''rows'', JInt 2), (''unique_prepared_texts'', JInt 2), (''duplicate_rows'', JInt 0),
        (''duplicate_rate'', JInt 0)]))])"

definition derived_coverage :: json where
  "derived_coverage = JObj (jobj [(''required_positive_documents'', JInt 1), (''covered_positive_documents_t'', JInt 1),
     (''document_coverage_t'', JInt 1), (''positive_judgment_coverage_t'', JInt 1)])"

definition derived_normalization :: json where
  "derived_normalization = JObj (jobj [(''document_format'', JStr []), (''query_format'', JStr []), (''line_cleaning'', JStr []),
     (''document_truncation'', JObj (jobj [(''algorithm'', JStr []), (''maximum_utf8_bytes_including_prefix'', JInt 9),
        (''applied_before_text_hashing_deduplication_and_selection'', JBool True)]))])"

definition run_derivation :: jobj where
  "run_derivation = jobj
     [(''schema_version'', JInt 1), (''tiers'', JObj (jobj [(''t'', derived_tier)])),
      (''queries'', JObj (jobj [(''queries'', JInt 1), (''positive_qrel_rows'', JInt 1), (''qrel_rows'', JInt 1)])),
      (''files'', JObj (jobj [(''documents_t'', sealed_by [(''lines'', JInt 2)]), (''queries'', sealed_by [(''lines'', JInt 1)]),
         (''document_ids_t'', sealed_by [(''lines'', JInt 2)])])),
      (''selection'', JObj (jobj (map (\<lambda>k. (k, JStr (u ''s''))) [''queries'', ''documents'', ''rank'', ''seed'']))),
      (''qrel_coverage'', derived_coverage),
      (''invariants'', JObj (jobj (map (\<lambda>k. (k, JBool True)) [''100k_is_exact_prefix_of_1m'', ''document_ids_are_unique'',
         ''original_query_document_ids_and_qrel_scores_preserved'']))),
      (''normalization'', derived_normalization),
      (''dataset'', JObj (jobj [(''name'', JStr (u ''nq'')), (''archive'', sealed_by [])]))]"

definition attested_source :: json where
  "attested_source = recorded_file ''/d'' 4 [(''nonempty_lines'', JInt 2)]"

definition attested_binding :: json where
  "attested_binding = JObj (jobj
     [(''tier'', JStr (u ''t'')), (''source'', attested_source), (''expected_source_count'', JInt 2),
      (''model_descriptor_sha256'', JStr zero_sha), (''model_artifact_sha256'', JStr zero_sha), (''fingerprint'', JStr (u ''m'')),
      (''dimension'', JInt 1)])"

definition healthy :: json where
  "healthy = JObj (jobj [(''status'', JInt 200), (''payload'', JObj (jobj [(''status'', JStr (u ''ok''))]))])"

definition attested_endpoint :: json where
  "attested_endpoint = JObj (jobj [(''health_before'', healthy), (''health_after'', healthy), (''embedding_url'', JStr (u ''e'')),
     (''props_identity'', JObj (jobj [(''build_info'', JStr (u ''b'')), (''model_path'', JStr (u ''/x''))]))])"

definition attested_checkpoint :: json where
  "attested_checkpoint = JObj (jobj [(''stable_identity'', JObj (jobj
     [(''fingerprint'', JStr (u ''m'')), (''dimension'', JInt 1), (''model'', sealed_by []), (''source'', sealed_by []),
      (''embedding_endpoint'', JStr (u ''e''))]))])"

definition attested_moment :: json where
  "attested_moment = JObj (jobj [(''identity_sha256'', JStr zero_sha), (''executable'', recorded_file ''/x'' 1 []),
     (''command_model_path'', JStr (u ''/x''))])"

definition attested_process :: json where
  "attested_process = JObj (jobj [(''status'', JStr (u ''verified'')), (''required'', JBool True), (''unchanged'', JBool True),
     (''server_started_before_checkpoint'', JBool True), (''before'', attested_moment), (''after'', attested_moment)])"

definition captured_evidence :: jobj where
  "captured_evidence = jobj
     [(''required_post_run_native_parity'', attested_binding), (''source'', attested_source), (''source_unchanged'', JBool True),
      (''model_artifact_unchanged'', JBool True), (''model_artifact'', recorded_file ''/x'' 1 []),
      (''model_artifact_after'', recorded_file ''/x'' 1 []), (''endpoint'', attested_endpoint), (''expected_build_info'', JStr (u ''b'')),
      (''checkpoint'', attested_checkpoint), (''process_proof'', attested_process)]"

definition run_capture :: jobj where
  "run_capture = jobj
     [(''schema'', JStr (u ''leann-embedding-endpoint-attestation-v1'')), (''phase'', JStr (u ''live-capture'')),
      (''evidence'', JObj captured_evidence), (''attestation_id'', JStr zero_sha)]"

definition run_attestation :: jobj where
  "run_attestation = jobj
     [(''schema'', JStr (u ''leann-embedding-endpoint-attestation-v1'')), (''phase'', JStr (u ''finalized'')),
      (''post_run_native_parity'', JObj (jobj [(''status'', JStr (u ''verified''))])), (''attestation_id'', JStr zero_sha),
      (''evidence'', JObj (jobj
         [(''live_capture'', JObj (jobj [(''artifact'', recorded_file ''/c'' 1 []), (''report'', JObj run_capture), (''attestation_id'', JStr zero_sha)])),
          (''binding'', attested_binding),
          (''native_parity'', JObj (jobj [(''artifact'', recorded_file ''/p'' 1 []), (''input_hash'', JStr zero_sha),
             (''minimum_cosine_similarity'', JFloat (Fin 1)), (''required_minimum_cosine_similarity'', JFloat (Fin 1)),
             (''native_model'', sealed_by []), (''corpus_cache_sha256'', JStr zero_sha), (''native_binary'', sealed_by [])]))]))]"

text \<open>The documents on the disk, by the byte that stands for their text.\<close>

definition run_documents :: "native_role \<Rightarrow> (byte \<times> jobj) list" where
  "run_documents g = [(1, run_manifest g), (2, run_stage_document), (3, run_parity), (4, run_derivation), (5, run_attestation), (6, run_capture)]"

definition run_files_map :: "pystr \<Rightarrow> bytes option" where
  "run_files_map = map_of [(u ''/m'', [1]), (u ''/stages/native-search-ef8.json'', [2]), (u ''/d'', docs_bytes), (u ''/q'', query_bytes),
     (u ''/dc'', cache_bytes 2 4), (u ''/qc'', cache_bytes 1 2), (u ''/t'', truth_bytes), (u ''/x'', [0]), (u ''/r'', table_bytes),
     (u ''/p'', [3]), (u ''/dm'', [4]), (u ''/a'', [5]), (u ''/c'', [6])]"

definition run_tools :: "native_role \<Rightarrow> tools" where
  "run_tools g = \<lparr>tl_host = zero_host\<lparr>loads := (\<lambda>b. case b of [x] \<Rightarrow> map_option JObj (map_of (run_documents g) x) | _ \<Rightarrow> None)\<rparr>,
     tl_dumps = (\<lambda>_. Inr []), tl_str = (\<lambda>_. []), tl_mean = tl_mean point_tools, tl_percentile = (\<lambda>vals _. hd vals)\<rparr>"

definition run_world :: "native_role \<Rightarrow> collector_env" where
  "run_world g = \<lparr>ce_tools = (run_tools g), ce_numerics = unit_numerics, ce_disk = \<lparr>fs_resolve = id, fs_file = run_files_map\<rparr>\<rparr>"

lemma run_world_simps [simp]:
  "ce_tools (run_world g) = (run_tools g)" "ce_numerics (run_world g) = unit_numerics" "fs_resolve (ce_disk (run_world g)) p = p"
  "fs_file (ce_disk (run_world g)) p = run_files_map p" "file_at (ce_disk (run_world g)) p = run_files_map p"
  "open_rb (ce_disk (run_world g)) p = (case run_files_map p of None \<Rightarrow> Inl (OSError ''no such file'') | Some bs \<Rightarrow> Inr bs)"
  "sha_hex (tl_host (run_tools g)) content = zero_sha" "collector_hash (run_tools g) v = Inr zero_sha"
  by (simp_all add: run_world_def file_at_def open_rb_def run_tools_def sha_hex_def zero_host_def zero_sha_def collector_hash_def)

lemma run_files [simp]:
  "run_files_map (u ''/m'') = Some [1]" "run_files_map (u ''/stages/native-search-ef8.json'') = Some [2]"
  "run_files_map (u ''/d'') = Some docs_bytes" "run_files_map (u ''/q'') = Some query_bytes"
  "run_files_map (u ''/dc'') = Some (cache_bytes 2 4)" "run_files_map (u ''/qc'') = Some (cache_bytes 1 2)"
  "run_files_map (u ''/t'') = Some truth_bytes" "run_files_map (u ''/x'') = Some [0]" "run_files_map (u ''/r'') = Some table_bytes"
  "run_files_map (u ''/p'') = Some [3]" "run_files_map (u ''/dm'') = Some [4]" "run_files_map (u ''/a'') = Some [5]" "run_files_map (u ''/c'') = Some [6]"
  by (simp_all add: run_files_map_def)

text \<open>A recorded file that is on the disk is verified; what the verifier remembers of it.\<close>

definition remember :: "verifier \<Rightarrow> string \<Rightarrow> nat \<Rightarrow> verifier" where
  "remember fv path n =
     (if \<not> fv_enabled fv \<or> (u path, int n, zero_sha) \<in> set (fv_verified fv) then fv
      else fv\<lparr>fv_verified := fv_verified fv @ [(u path, int n, zero_sha)]\<rparr>)"

lemma verify_recorded:
  assumes "map_option length (run_files_map (u path)) = Some n" and "path \<noteq> []"
  shows "verify (run_tools g) (ce_disk (run_world g)) fv (recorded_file path n extra) = Inr (remember fv path n, u path)"
  using assms by (auto simp: verify_def recorded_file_def mapping_def required_def integer_def path_field_def sha_field_def Let_def remember_def)

lemma run_sizes [simp]:
  "length docs_bytes = 4" "length query_bytes = 2" "length (cache_bytes 2 4) = 73" "length (cache_bytes (Suc 0) 2) = 69"
  by (simp_all add: docs_bytes_def query_bytes_def cache_bytes_def u_def utf8_char_def numeral_2_eq_2)

lemma verify_run [simp]:
  "verify (run_tools g) (ce_disk (run_world g)) fv (recorded_file ''/d'' 4 e) = Inr (remember fv ''/d'' 4, u ''/d'')"
  "verify (run_tools g) (ce_disk (run_world g)) fv (recorded_file ''/q'' 2 e) = Inr (remember fv ''/q'' 2, u ''/q'')"
  "verify (run_tools g) (ce_disk (run_world g)) fv (recorded_cache ''/dc'' 2 4) = Inr (remember fv ''/dc'' 73, u ''/dc'')"
  "verify (run_tools g) (ce_disk (run_world g)) fv (recorded_cache ''/qc'' (Suc 0) 2) = Inr (remember fv ''/qc'' 69, u ''/qc'')"
  "verify (run_tools g) (ce_disk (run_world g)) fv (recorded_file ''/t'' (length truth_bytes) e) = Inr (remember fv ''/t'' (length truth_bytes), u ''/t'')"
  "verify (run_tools g) (ce_disk (run_world g)) fv (recorded_file ''/p'' (Suc 0) e) = Inr (remember fv ''/p'' (Suc 0), u ''/p'')"
  "verify (run_tools g) (ce_disk (run_world g)) fv (recorded_file ''/c'' (Suc 0) e) = Inr (remember fv ''/c'' (Suc 0), u ''/c'')"
  "verify (run_tools g) (ce_disk (run_world g)) fv (recorded_file ''/x'' (Suc 0) e) = Inr (remember fv ''/x'' (Suc 0), u ''/x'')"
  "verify (run_tools g) (ce_disk (run_world g)) fv (recorded_file ''/r'' (length table_bytes) e) = Inr (remember fv ''/r'' (length table_bytes), u ''/r'')"
  by (simp_all add: recorded_cache_def verify_recorded)

lemma recorded_file_obj: "recorded_file path n e = JObj (jobj ([(''path'', JStr (u path)), (''size_bytes'', JInt (int n)), (''sha256'', JStr zero_sha)] @ e))"
  by (rule recorded_file_def)

lemma run_lines: "count_nonempty_lines docs_bytes = Inr 2" "count_nonempty_lines query_bytes = Inr 1"
  using iter_nonempty_lines_unlines [of "[u ''a'', u ''b'']"] iter_nonempty_lines_unlines [of "[u ''a'']"]
  by (simp_all add: count_nonempty_lines_def docs_bytes_def query_bytes_def u_def is_scalar_def)

lemma read_cache_unit:
  assumes "read_cache h np path True None k content = Inr (rows, meta)" and "cm_version meta = 2"
  shows "read_cache h np path True (Some True) k content = Inr (rows, meta)"
  using assms by (auto simp: read_cache_def ok_simps Let_def split: sum.splits if_splits)

lemma run_cache_read:
  assumes "0 < n" and "n < 256" and "b < 256"
  shows "read_cache (tl_host (run_tools g)) unit_numerics (u path) True (Some True) 8192 (cache_bytes n b)
    = Inr (replicate n [0, 0, 128, 63], run_meta path n b)"
proof -
  from small_header [of "replicate 32 0" n b] assms obtain header where
    h: "cache_v2_header (int 1) (int n) (u ''m'') (int b) (to_hex (replicate 32 0)) = Inr header" by auto
  from h obtain raw where raw: "utf8_encode (u ''m'') = Inr raw" "header = v2_header_bytes 1 n raw b (replicate 32 0)"
    by (rule cache_v2_header_ok) blast
  have "raw = [109]" using raw(1) by (simp add: utf8_encode_def is_scalar_def u_def utf8_char_def byte_of_def split: if_splits)
  then have c: "cache_bytes n b = header @ concat (replicate n [0, 0, 128, 63])" and l: "length header = 65"
    using raw(2) by (simp_all add: cache_bytes_def)
  have "read_cache (tl_host (run_tools g)) unit_numerics (u path) True None 8192 (cache_bytes n b)
      = Inr (replicate n [0, 0, 128, 63], run_meta path n b)"
    using read_cache_of_header [OF h, of "replicate n [0, 0, 128, 63]" unit_numerics "tl_host (run_tools g)" "u path"]
    unfolding c by (simp add: run_meta_def l list_all_iff zero_sha_def [symmetric])
  then show ?thesis by (rule read_cache_unit) (simp add: run_meta_def)
qed

lemma parsed_run_cache:
  assumes "run_files_map (u path) = Some (cache_bytes n b)" and "0 < n" and "n < 256" and "b < 256"
  shows "parsed_cache (run_world g) (u path) = Inr (run_meta path n b)"
  using assms run_cache_read [OF assms(2-4)] by (simp add: parsed_cache_def rethrow_def run_meta_def)

lemma run_truth: "read_ground_truth h path (Some 1) (Some 1) (Some 2) truth_bytes
    = Inr ([[1]], \<lparr>tm_path = path, tm_queries = 1, tm_k = 1, tm_corpus = 2, tm_size = length truth_bytes, tm_sha = sha_hex h truth_bytes\<rparr>)"
  if "sha_hex h truth_bytes = zero_sha" for h path
proof -
  have "truth_rows 1 2 [[1]]" by (simp add: truth_rows_def)
  from read_written_truth [OF this, of "Some 1" "Some 1" "Some 2" h path] show ?thesis by (simp add: truth_bytes_def)
qed

text \<open>The head of the manifest.\<close>

definition run_identity :: dataset where
  "run_identity = \<lparr>ds_corpus_count = 2, ds_query_count = 1, ds_dimensions = 1, ds_documents_sha = zero_sha, ds_queries_sha = zero_sha,
     ds_corpus_cache_sha = zero_sha, ds_query_cache_sha = zero_sha, ds_truth_sha = zero_sha, ds_truth_top_k = 1, ds_model_sha = zero_sha,
     ds_model_artifact_sha = zero_sha, ds_fingerprint = u ''m''\<rparr>"

definition run_dataset :: dataset_record where
  "run_dataset = \<lparr>dr_tier = u ''t'', dr_identity = run_identity, dr_raw_bytes = 4, dr_dense_bytes = 8,
     dr_documents_path = JStr (u ''/d''), dr_corpus_cache_path = JStr (u ''/dc''), dr_truth_path = JStr (u ''/t'')\<rparr>"

definition run_tier :: tier_data where
  "run_tier = \<lparr>td_record = run_dataset, td_corpus = run_meta ''/dc'' 2 4, td_query = run_meta ''/qc'' 1 2\<rparr>"

lemma shared_members [simp]:
  "jget run_shared ''documents'' = recorded_file ''/d'' 4 [(''nonempty_lines'', JInt 2)]"
  "jget run_shared ''queries'' = recorded_file ''/q'' 2 [(''nonempty_lines'', JInt 1)]"
  "jget run_shared ''corpus_cache'' = recorded_cache ''/dc'' 2 4" "jget run_shared ''query_cache'' = recorded_cache ''/qc'' 1 2"
  "jget run_shared ''ground_truth'' = recorded_file ''/t'' (length truth_bytes)
     [(''top_k'', JInt 1), (''corpus_count'', JInt 2), (''query_count'', JInt 1)]"
  "jget run_shared ''model'' = JObj (jobj [(''sha256'', JStr zero_sha), (''identity_strength'', JStr (u ''artifact-sha256'')),
     (''artifact'', recorded_file ''/x'' 1 [])])"
  by (simp_all add: run_shared_def)

lemma run_members:
  "member run_shared ''documents'' = mapping (jget run_shared ''documents'')" "member run_shared ''queries'' = mapping (jget run_shared ''queries'')"
  "member run_shared ''corpus_cache'' = mapping (jget run_shared ''corpus_cache'')"
  "member run_shared ''query_cache'' = mapping (jget run_shared ''query_cache'')"
  "member run_shared ''ground_truth'' = mapping (jget run_shared ''ground_truth'')" "member run_shared ''model'' = mapping (jget run_shared ''model'')"
  by (simp_all add: member_def required_def run_shared_def)

lemma run_shared_identity: "shared_identity run_shared = Inr run_identity"
  by (simp add: shared_identity_def run_members member_def [of "jobj _"] required_def recorded_cache_def recorded_file_def mapping_def
      identity_fields_def identity_sha_def sha_field_def identity_text_def integer_def identity_agrees_def run_identity_def)

lemma run_dataset_record: "make_dataset_record (u ''t'') run_shared = Inr run_dataset"
  by (simp add: make_dataset_record_def run_shared_identity run_members recorded_cache_def recorded_file_def
      mapping_def integer_def run_dataset_def)

lemma run_header_fields: "0 < n \<Longrightarrow> map_res (check_header_field (jobj ([(''path'', JStr (u path)), (''size_bytes'', JInt (int (65 + n * 4))),
   (''sha256'', JStr zero_sha), (''schema'', JStr (u ''LEANNBC2'')), (''version'', JInt 2), (''count'', JInt (int n)), (''dimensions'', JInt 1),
   (''fingerprint'', JStr (u ''m'')), (''fingerprint_sha256'', JStr zero_sha), (''vector_offset'', JInt 65),
   (''vector_bytes'', JInt (int (n * 4))), (''source_size_bytes'', JInt (int b)), (''source_sha256'', JStr zero_sha)])) (run_meta path n b)) header_fields
     = Inr (replicate 11 ())"
  by (simp add: header_fields_def check_header_field_def cache_meta_json_def run_meta_def u_def dec_nat.simps numeral_eq_Suc)

lemma run_file_key [simp]:
  "path \<noteq> [] \<Longrightarrow> file_key (run_world g) (jobj ([(''path'', JStr (u path)), (''size_bytes'', JInt (int n)), (''sha256'', JStr zero_sha)] @ e))
     = Inr (u path, (u path, int n, zero_sha))"
  by (simp add: file_key_def nonempty_string_def integer_def)

lemma mapping_recorded: "mapping (recorded_file path n e) = Inr (jobj ([(''path'', JStr (u path)), (''size_bytes'', JInt (int n)), (''sha256'', JStr zero_sha)] @ e))"
  by (simp add: mapping_def recorded_file_def)

definition cache_fields :: "string \<Rightarrow> nat \<Rightarrow> nat \<Rightarrow> (string \<times> json) list" where
  "cache_fields path n nbytes =
     [(''schema'', JStr (u ''LEANNBC2'')), (''version'', JInt 2), (''count'', JInt (int n)), (''dimensions'', JInt 1),
      (''fingerprint'', JStr (u ''m'')), (''fingerprint_sha256'', JStr zero_sha), (''vector_offset'', JInt 65),
      (''vector_bytes'', JInt (int (n * 4))), (''source_size_bytes'', JInt (int nbytes)), (''source_sha256'', JStr zero_sha)]"

lemma recorded_cache_fields: "recorded_cache path n nbytes = recorded_file path (65 + n * 4) (cache_fields path n nbytes)"
  by (simp add: recorded_cache_def cache_fields_def)

lemma run_shared_cache:
  assumes "run_files_map (u path) = Some (cache_bytes n b)" and "0 < n" "n < 256" "b < 256" and "path \<noteq> []" "source \<noteq> []"
    and "run_files_map (u source) = Some content" and "count_nonempty_lines content = Inr n"
    and "map_of (co_caches c) (u path, int (65 + n * 4), zero_sha) = None" and "map_of (co_lines c) (u source, int b, zero_sha) = None"
  shows "\<exists>caches lines. validate_shared_cache (run_world g) c
      (jobj ([(''path'', JStr (u path)), (''size_bytes'', JInt (int (65 + n * 4))), (''sha256'', JStr zero_sha)] @ cache_fields path n b))
      (jobj ([(''path'', JStr (u source)), (''size_bytes'', JInt (int b)), (''sha256'', JStr zero_sha)] @ [(''nonempty_lines'', JInt (int n))]))
    = Inr (c\<lparr>co_caches := caches, co_lines := lines\<rparr>, run_meta path n b)
    \<and> fst ` set caches = insert (u path, int (65 + n * 4), zero_sha) (fst ` set (co_caches c))
    \<and> fst ` set lines = insert (u source, int b, zero_sha) (fst ` set (co_lines c))"
proof -
  let ?r = "jobj ([(''path'', JStr (u path)), (''size_bytes'', JInt (int (65 + n * 4))), (''sha256'', JStr zero_sha)] @ cache_fields path n b)"
  let ?s = "jobj ([(''path'', JStr (u source)), (''size_bytes'', JInt (int b)), (''sha256'', JStr zero_sha)] @ [(''nonempty_lines'', JInt (int n))])"
  let ?caches = "dict_set (co_caches c) (u path, int (65 + n * 4), zero_sha) (run_meta path n b)"
  let ?c1 = "c\<lparr>co_caches := ?caches\<rparr>"
  let ?lines = "dict_set (co_lines c) (u source, int b, zero_sha) n"
  have "file_key (run_world g) ?r = Inr (u path, u path, int (65 + n * 4), zero_sha)" using assms(5) by (rule run_file_key)
  then have f: "find_cache (run_world g) c ?r = Inr (?c1, run_meta path n b)"
    using assms(9) parsed_run_cache [OF assms(1-4)] by (simp add: find_cache_def)
  have h: "map_res (check_header_field ?r (run_meta path n b)) header_fields = Inr (replicate 11 ())"
    using run_header_fields [OF assms(2), of path b] by (simp add: cache_fields_def)
  have "file_key (run_world g) ?s = Inr (u source, u source, int b, zero_sha)" using assms(6) by (rule run_file_key)
  moreover have "counted_lines (run_world g) (u source) = Inr n" using assms(7,8) by (simp add: counted_lines_def rethrow_def)
  ultimately have l: "line_count (run_world g) ?c1 ?s = Inr (?c1\<lparr>co_lines := ?lines\<rparr>, n)"
    using assms(10) by (simp add: line_count_def)
  have m: "jidx (cache_meta_json (run_meta path n b)) ''source_size_bytes'' = Inr (JInt (int b))"
    "jidx (cache_meta_json (run_meta path n b)) ''source_sha256'' = Inr (JStr zero_sha)"
    by (simp_all add: cache_meta_json_def run_meta_def)
  have s: "check_cache_source (run_meta path n b) ?s n = Inr ()"
    using assms(2) by (simp add: check_cache_source_def m integer_def) (simp add: run_meta_def)
  have "validate_shared_cache (run_world g) c ?r ?s = Inr (?c1\<lparr>co_lines := ?lines\<rparr>, run_meta path n b)"
    unfolding validate_shared_cache_def f and_then_simps case_prod_conv h l s ..
  then show ?thesis by (intro exI [of _ ?caches] exI [of _ ?lines]) (simp add: keys_dict_set)
qed

text \<open>What a registration leaves alone, and a collector whose run is entered but not measured.\<close>

definition untouched :: "collector \<Rightarrow> collector \<Rightarrow> bool" where
  "untouched c c' \<longleftrightarrow>
     co_samples c' = co_samples c \<and> co_truths c' = co_truths c \<and> co_builds c' = co_builds c \<and> co_issues c' = co_issues c
     \<and> co_binaries c' = co_binaries c \<and> co_official_commits c' = co_official_commits c \<and> co_leann_commits c' = co_leann_commits c
     \<and> co_tooling c' = co_tooling c \<and> co_runtimes c' = co_runtimes c \<and> co_machines c' = co_machines c \<and> co_servers c' = co_servers c"

definition entered :: "collector \<Rightarrow> bool" where
  "entered c \<longleftrightarrow>
     co_samples c = [] \<and> co_truths c = [] \<and> co_builds c = [] \<and> co_issues c = [] \<and> co_binaries c = {} \<and> co_datasets c = [(u ''t'', run_tier)]
     \<and> validate_cross_source_identities c = Inr () \<and> map_of (co_context c) zero_sha \<noteq> None"

lemma run_registered:
  assumes "co_caches c = []" and "co_lines c = []" and "co_datasets c = []"
  shows "\<exists>c'. register_shared (run_world g) c (u ''t'') run_shared = Inr (c', run_tier) \<and> untouched c c'
    \<and> co_datasets c' = [(u ''t'', run_tier)] \<and> co_models c' = insert zero_sha (co_models c) \<and> co_queries c' = insert zero_sha (co_queries c)
    \<and> co_query_counts c' = insert 1 (co_query_counts c) \<and> co_dimensions c' = insert 1 (co_dimensions c)"
proof -
  obtain fv where v: "verify_shared (run_world g) c run_shared = Inr (c\<lparr>co_verifier := fv\<rparr>)"
    by (simp add: verify_shared_def verify_file_def mapping_def)
  let ?c1 = "c\<lparr>co_verifier := fv\<rparr>"
  from run_shared_cache [of "''/dc''" 2 4 "''/d''" docs_bytes ?c1, where g = g] run_lines(1) assms obtain ca li where
    a: "validate_shared_cache (run_world g) ?c1
      (jobj ([(''path'', JStr (u ''/dc'')), (''size_bytes'', JInt (int (65 + 2 * 4))), (''sha256'', JStr zero_sha)] @ cache_fields ''/dc'' 2 4))
      (jobj ([(''path'', JStr (u ''/d'')), (''size_bytes'', JInt (int 4)), (''sha256'', JStr zero_sha)] @ [(''nonempty_lines'', JInt (int 2))]))
      = Inr (?c1\<lparr>co_caches := ca, co_lines := li\<rparr>, run_meta ''/dc'' 2 4)"
    and ca: "fst ` set ca = {(u ''/dc'', int (65 + 2 * 4), zero_sha)}" "fst ` set li = {(u ''/d'', int 4, zero_sha)}" by auto
  let ?c2 = "?c1\<lparr>co_caches := ca, co_lines := li\<rparr>"
  have none: "map_of (co_caches ?c2) (u ''/qc'', int (65 + 1 * 4), zero_sha) = None" "map_of (co_lines ?c2) (u ''/q'', int 2, zero_sha) = None"
    using ca by (simp_all add: map_of_eq_None_iff)
  from run_shared_cache [of "''/qc''" 1 2 "''/q''" query_bytes ?c2, where g = g] run_lines(2) none obtain cb lj where
    b: "validate_shared_cache (run_world g) ?c2
      (jobj ([(''path'', JStr (u ''/qc'')), (''size_bytes'', JInt (int (65 + 1 * 4))), (''sha256'', JStr zero_sha)] @ cache_fields ''/qc'' 1 2))
      (jobj ([(''path'', JStr (u ''/q'')), (''size_bytes'', JInt (int 2)), (''sha256'', JStr zero_sha)] @ [(''nonempty_lines'', JInt (int 1))]))
      = Inr (?c2\<lparr>co_caches := cb, co_lines := lj\<rparr>, run_meta ''/qc'' 1 2)" by auto
  have card: "check_cardinality (u ''t'') run_dataset = Inr ()" by (simp add: check_cardinality_def declared_cardinality_def)
  have members: "jget run_shared ''documents'' = recorded_file ''/d'' 4 [(''nonempty_lines'', JInt (int 2))]"
    "jget run_shared ''queries'' = recorded_file ''/q'' 2 [(''nonempty_lines'', JInt (int 1))]"
    "jget run_shared ''corpus_cache'' = recorded_file ''/dc'' (65 + 2 * 4) (cache_fields ''/dc'' 2 4)"
    "jget run_shared ''query_cache'' = recorded_file ''/qc'' (65 + 1 * 4) (cache_fields ''/qc'' 1 2)"
    by (simp_all add: recorded_cache_fields)
  show ?thesis
    unfolding register_shared_def v and_then_simps run_dataset_record card members mapping_recorded a b case_prod_conv Let_def
    by (simp add: enter_dataset_def run_tier_def run_dataset_def run_identity_def assms(3) Let_def untouched_def)
qed

definition run_stage_name :: pystr where "run_stage_name = u ''native-search-ef8''"

lemma run_stage_recognized [simp]: "recognized_stage_name run_stage_name"
  by (simp add: recognized_stage_name_def run_stage_name_def startswith_code u_def)

lemma run_role: "validate_declared_run_role (JStr (run_role_name g)) [run_stage_name] = Inr (run_role_name g)"
proof -
  have n: "startswith run_stage_name (u ''native-'')" by (simp add: run_stage_name_def startswith_code u_def)
  have "run_stage_name \<noteq> u ''official-search-cached''" "run_stage_name \<noteq> u ''official-search-real''" "run_stage_name \<noteq> u ''official-build''"
    by (simp_all add: run_stage_name_def)
  then have "shape_planned (Some g \<noteq> None) None (set [run_stage_name])" using n by (auto simp: shape_planned_def)
  then have "validate_declared_run_role (JStr (role_of (Some g) None)) [run_stage_name] = Inr (role_of (Some g) None)"
    by (rule role_accepted) simp
  moreover have "role_of (Some g) None = run_role_name g" by (simp add: role_of_def run_role_name_def)
  ultimately show ?thesis by simp
qed

definition run_protocol_fields :: "native_role \<Rightarrow> jobj" where
  "run_protocol_fields g = jobj [(''run_role'', JStr (run_role_name g)), (''recall_cutoffs'', JArr [JInt 1]),
     (''search_repetitions'', JInt 1), (''search_warmups'', JInt 0)]"

definition run_origin :: jobj where
  "run_origin = jobj [(''leann_cpp'', JObj []), (''official_leann'', JObj []), (''server_context'', JObj []),
     (''environment'', JObj (jobj [(''platform'', JStr []), (''machine'', JStr []), (''processor'', JStr [])]))]"

definition run_details :: "native_role \<Rightarrow> run_info" where
  "run_details g = \<lparr>ri_path = u ''/m'', ri_sha = zero_sha, ri_tier = u ''t'', ri_manifest = (run_manifest g), ri_shared = run_shared, ri_data = run_tier,
     ri_protocol = (run_protocol_fields g), ri_planned = [run_stage_name], ri_cutoffs = [1], ri_provenance = run_origin,
     ri_role = run_role_name g, ri_reuse = None\<rparr>"

lemma run_details_simps [simp]:
  "ri_path (run_details g) = u ''/m''" "ri_sha (run_details g) = zero_sha" "ri_tier (run_details g) = u ''t''" "ri_shared (run_details g) = run_shared"
  "ri_manifest (run_details g) = (run_manifest g)" "ri_data (run_details g) = run_tier" "ri_protocol (run_details g) = (run_protocol_fields g)"
  "ri_planned (run_details g) = [run_stage_name]" "ri_cutoffs (run_details g) = [1]" "ri_provenance (run_details g) = run_origin"
  "ri_role (run_details g) = run_role_name g" "ri_reuse (run_details g) = None"
  by (simp_all add: run_details_def)

lemma run_manifest_fields [simp]:
  "jget (run_manifest g) ''schema'' = JStr manifest_schema" "jget (run_manifest g) ''status'' = JStr (u ''complete'')"
  "jget (run_manifest g) ''run_role'' = JStr (run_role_name g)" "jget (run_manifest g) ''shared_artifacts'' = JObj run_shared"
  "jget (run_manifest g) ''protocol'' = JObj (run_protocol_fields g)" "jget (run_manifest g) ''planned_stages'' = JArr [JStr run_stage_name]"
  "jget (run_manifest g) ''stages'' = JObj (jobj [(''native-search-ef8'', JNull)])" "jget (run_manifest g) ''provenance'' = JObj run_origin"
  "jhas (run_manifest g) ''stages''"
  by (simp_all add: run_manifest_def run_protocol_fields_def run_origin_def run_stage_name_def)

lemma run_document:
  assumes "run_files_map path = Some [x]" and "x \<in> {1, 2, 3, 4, 5, 6}"
  shows "collector_load (run_tools g) (ce_disk (run_world g)) path = Inr (JObj (the (map_of (run_documents g) x)))"
proof -
  have "utf8_decode [y] = Inr [unat y]" if "y \<in> {1, 2, 3, 4, 5, 6}" for y
    using that by (intro utf8_decode_encode) (auto simp: utf8_encode_def is_scalar_def utf8_char_def byte_of_def)
  then have "utf8_decode [x] = Inr [unat x]" using assms(2) .
  then show ?thesis using assms by (auto simp: collector_load_def run_tools_def run_documents_def)
qed

lemma run_loads: "collector_load (run_tools g) (ce_disk (run_world g)) (u ''/m'') = Inr (JObj (run_manifest g))"
  "collector_load (run_tools g) (ce_disk (run_world g)) (u ''/stages/native-search-ef8.json'') = Inr (JObj run_stage_document)"
  "collector_load (run_tools g) (ce_disk (run_world g)) (u ''/p'') = Inr (JObj run_parity)"
  "collector_load (run_tools g) (ce_disk (run_world g)) (u ''/dm'') = Inr (JObj run_derivation)"
  "collector_load (run_tools g) (ce_disk (run_world g)) (u ''/a'') = Inr (JObj run_attestation)"
  "collector_load (run_tools g) (ce_disk (run_world g)) (u ''/c'') = Inr (JObj run_capture)"
  by (simp_all add: run_document run_documents_def)

lemma run_digests: "run_files_map path = Some content \<Longrightarrow> sha256_file (tl_host (run_tools g)) (ce_disk (run_world g)) path 0 None = Inr zero_sha"
  by (simp add: sha256_file_def sha256_bytes_all)

lemma run_head:
  "\<exists>c. ingest_head (run_world g) (start_collector True) (u ''t'') (u ''/m'') = Inr (c, run_details g) \<and> entered c"
proof -
  obtain c1 where r: "register_shared (run_world g) (start_collector True) (u ''t'') run_shared = Inr (c1, run_tier)"
    and c1: "untouched (start_collector True) c1" "co_datasets c1 = [(u ''t'', run_tier)]" "co_models c1 = {zero_sha}"
      "co_queries c1 = {zero_sha}" "co_query_counts c1 = {1}" "co_dimensions c1 = {1}"
    using run_registered [of "start_collector True" g] by (auto simp: start_collector_def new_collector_def)
  have o: "open_run (run_world g) (u ''/m'') = Inr ((run_manifest g), zero_sha, run_shared)"
    by (simp add: open_run_def run_loads run_digests mapping_def)
  have p: "planned_names (run_manifest g) = Inr [run_stage_name]" by (simp add: planned_names_def sequence_def)
  have k: "recall_cutoffs (run_protocol_fields g) (dr_identity (td_record run_tier)) = Inr [1]"
    by (simp add: recall_cutoffs_def run_protocol_fields_def sequence_def integer_def run_tier_def run_dataset_def run_identity_def sorted_set_def)
  have off: "\<not> official_planned [run_stage_name]" by (simp add: official_planned_def run_stage_name_def startswith_code u_def)
  obtain c2 where v: "ingest_provenance (run_world g) c1 run_origin run_shared (dr_identity (td_record run_tier)) [run_stage_name]
      = Inr (c2, zero_sha, zero_sha, None)" and c2: "c2 = c1\<lparr>co_machines := insert zero_sha (co_machines c1), co_servers := insert zero_sha (co_servers c1)\<rparr>"
    using off by (simp add: ingest_provenance_def ingest_commits_def run_origin_def mapping_def recorded_commit_def ingest_tooling_def
        machine_identity_def ingest_attestation_def jget_def [of "[]"]) (simp add: jobj_def)
  have u: "ingest_reuse (run_world g) c2 (run_role_name g) (jget run_origin ''official_index_reuse'') = Inr (c2, None)"
    by (cases g) (simp_all add: ingest_reuse_def run_origin_def reuse_role_def run_role_name_def u_def)
  have role: "py_eq (jget (run_protocol_fields g) ''run_role'') (JStr (run_role_name g))" by (simp add: run_protocol_fields_def)
  have "ingest_head (run_world g) (start_collector True) (u ''t'') (u ''/m'') = Inr (enter_source c2 (run_details g) zero_sha zero_sha None zero_sha, run_details g)"
    unfolding ingest_head_def Let_def run_world_simps o and_then_simps case_prod_conv r run_manifest_fields mapping_def json.case
      p k v run_role u protocol_hash_def require_def if_P [OF role] run_details_def [symmetric] option.map
    by (simp add: run_details_def)
  moreover have "entered (enter_source c2 (run_details g) zero_sha zero_sha None zero_sha)"
    using c1 by (simp add: c2 entered_def enter_source_def untouched_def start_collector_def new_collector_def
        validate_cross_source_identities_def identity_sets_def single_def)
  ultimately show ?thesis by blast
qed

lemma run_observation_fields [simp]:
  "jget run_observation ''kind'' = JStr (u ''measurements'')" "jget run_observation ''ordinal'' = JInt 0"
  "jget run_observation ''command'' = JArr (map JStr run_command)" "jget run_observation ''exit_code'' = JInt 0"
  "jget run_observation ''wall_seconds'' = JInt 1" "jget run_observation ''result_file'' = recorded_file ''/r'' (length table_bytes) []"
  "jget run_observation ''parsed_stdout'' = JObj sample_parsed" "jget run_observation ''artifacts'' = JArr [recorded_file ''/x'' (Suc 0) []]"
  "jget run_observation ''executable'' = recorded_file ''/x'' (Suc 0) []" "jget run_observation ''result'' = JNull"
  "jhas run_observation ''result_file''" "jhas run_observation ''artifacts''"
  by (simp_all add: run_observation_def)

lemma run_measurement:
  "\<exists>fv'. measurement (run_tools g) (ce_disk (run_world g)) fv (JObj run_observation) False = Inr (fv', run_observation, None)"
proof -
  have "\<not> has_json_suffix (u ''/r'')" by (simp add: has_json_suffix_def endswith_def pure_name_def u_def Let_def)
  moreover have "recorded_file path n e \<noteq> JNull" for path n e by (simp add: recorded_file_def)
  ultimately show ?thesis
    by (simp add: measurement_def mapping_def number_1 result_of_file_def iter_json_def verify_each_def)
qed

lemma run_options: "native_options run_observation 8 = Inr 4"
proof -
  have strip: "py_strip [c] = [c]" if "\<not> py_ws c" for c
    using that by (simp add: py_strip_def py_lstrip_def py_rstrip_def rstrip_while_def)
  have "\<not> py_ws 52" "\<not> py_ws 56" "digit_val 52 = Some 4" "digit_val 56 = Some 8" by (simp_all add: py_ws_def digit_val_def)
  then have n: "py_int (u ''8'') = Some 8" "py_int (u ''4'') = Some 4"
    by (simp_all add: u_def py_int_def strip of_digits_def Let_def)
  have p: "positions (\<lambda>v. v = u ''--ef-search'') run_command = [1]" "positions (\<lambda>v. v = u ''--recompute-batch'') run_command = [3]"
    by (simp_all add: run_command_def positions_def upt_rec)
  have s: "strings_of (map JStr vs) = Some vs" for vs by (induction vs) simp_all
  show ?thesis
    by (simp add: native_options_def argv_value_def argv_of_def s p text_int_def) (simp add: run_command_def n)
qed

lemma run_artifacts: "\<exists>as. make_artifact_set (run_tools g) (JArr [recorded_file ''/x'' n []]) = Inr as"
  by (simp add: make_artifact_set_def sequence_def artifact_step_def recorded_file_def mapping_def Let_def)

lemma run_sample:
  "\<exists>fv' s. native_sample (run_world g) fv sx (u ''t'') zero_sha run_identity [1] [[1]] 8 (JObj run_observation) = Inr (fv', s)"
proof -
  from run_measurement obtain fv1 where m: "measurement (run_tools g) (ce_disk (run_world g)) fv (JObj run_observation) False = Inr (fv1, run_observation, None)"
    by blast
  have "file_at (ce_disk (run_world g)) (u ''/r'') = Some (utf8_bytes (written_csv sample_table))" by (simp add: table_bytes_def)
  moreover have "tl_mean (run_tools g) = tl_mean point_tools" "\<And>v. \<exists>payload. tl_dumps (run_tools g) v = Inr payload" by (simp_all add: run_tools_def)
  ultimately obtain point where "read_native_csv (run_tools g) (ce_disk (run_world g)) (u ''/r'') 1 2 [1] 1 [[1]] sample_parsed = Inr point"
    using sample_native_point by blast
  then have n: "native_metrics (run_world g) fv1 run_observation run_identity [1] [[1]] = Inr (remember fv1 ''/r'' (length table_bytes), point)"
    by (simp add: native_metrics_def mapping_def run_identity_def)
  have e: "evidence_of run_observation = Inr (snapshot_identity (jobj ([(''path'', JStr (u ''/r'')),
      (''size_bytes'', JInt (int (length table_bytes))), (''sha256'', JStr zero_sha)] @ [])))"
    by (simp add: evidence_of_ok run_observation_def recorded_file_def)
  from run_artifacts obtain as where a: "make_artifact_set (run_tools g) (JArr [recorded_file ''/x'' (Suc 0) []]) = Inr as" by blast
  show ?thesis
    unfolding native_sample_def run_world_simps m and_then_simps case_prod_conv n run_options e run_observation_fields a by blast
qed

lemma run_truth_loaded: "co_truths c = [] \<Longrightarrow> \<exists>ts. load_truth (run_world g) c run_dataset = Inr (c\<lparr>co_truths := ts\<rparr>, [[1]])"
  using run_truth [of "tl_host (run_tools g)" "u ''/t''"]
  by (simp add: load_truth_def read_truth_def run_dataset_def run_identity_def py_str_def Let_def) blast

lemma run_ef: "stage_ef run_stage_name = Inr 8"
proof -
  have strip: "py_strip [c] = [c]" if "\<not> py_ws c" for c
    using that by (simp add: py_strip_def py_lstrip_def py_rstrip_def rstrip_while_def)
  have "\<not> py_ws 56" "digit_val 56 = Some 8" by (simp_all add: py_ws_def digit_val_def)
  then show ?thesis
    by (simp add: stage_ef_def run_stage_name_def startswith_code Let_def) (simp add: u_def decimal_int_def py_int_def strip of_digits_def Let_def)
qed

lemma run_stage_fields [simp]:
  "jget run_stage_document ''schema'' = JStr stage_schema" "jget run_stage_document ''name'' = JStr run_stage_name"
  "jget run_stage_document ''status'' = JStr (u ''complete'')" "jget run_stage_document ''inputs'' = JObj run_inputs"
  "jget run_stage_document ''input_hash'' = JStr zero_sha" "jget run_stage_document ''warmups'' = JArr []"
  "jget run_stage_document ''measurements'' = JArr [JObj run_observation]"
  "jget2 run_stage_document ''inputs'' ''ef_search'' = Inr (JInt 8)"
  by (simp_all add: run_stage_document_def run_stage_name_def jget2_def run_inputs_def)

lemma run_search:
  assumes "co_samples c = []" and "co_truths c = []" and "map_of (co_context c) zero_sha = Some sx"
  shows "\<exists>c' s. native_search (run_world g) c (u ''t'') zero_sha run_stage_name run_stage_document run_dataset [1] = Inr c' \<and> co_samples c' = [s]"
proof -
  from run_truth_loaded [OF assms(2)] obtain ts where t: "load_truth (run_world g) c run_dataset = Inr (c\<lparr>co_truths := ts\<rparr>, [[1]])" by blast
  from run_sample obtain fv s where n: "native_sample (run_world g) (co_verifier c) sx (u ''t'') zero_sha run_identity [1] [[1]] 8 (JObj run_observation) = Inr (fv, s)"
    by blast
  have "dr_identity run_dataset = run_identity" by (simp add: run_dataset_def)
  then show ?thesis
    using assms by (simp add: native_search_def run_ef t sequence_def native_search_step_def context_of_def n [simplified])
qed

lemma run_checked: "\<exists>c'. check_stage (run_world g) c (run_details g) run_stage_name run_stage_document run_inputs = Inr c'
    \<and> co_samples c' = co_samples c \<and> co_truths c' = co_truths c \<and> co_context c' = co_context c"
proof -
  have name: "startswith run_stage_name (u ''native-'')" "\<not> startswith run_stage_name (u ''official-'')"
    "run_stage_name \<noteq> u ''native-build''" "run_stage_name \<noteq> u ''official-build''" "run_stage_name \<noteq> u ''native-stats''"
    by (simp_all add: run_stage_name_def startswith_code) (simp_all add: u_def)
  have inputs: "jget run_inputs ''binary_sha256'' = JStr zero_sha"
    "jget run_inputs ''execution_protocol'' = JObj (jobj [(''warmups'', JInt 0), (''repetitions'', JInt 1)])"
    "jhas run_inputs ''command_template''" "jget run_inputs ''command_template'' = JArr (map JStr run_command)"
    by (simp_all add: run_inputs_def)
  have proto: "expected_counts (run_protocol_fields g) run_stage_name = Inr (1, 0)"
    by (simp add: expected_counts_def name run_protocol_fields_def integer_def)
  have strs: "strings_of (map JStr vs) = Some vs" for vs by (induction vs) simp_all
  have plain: "map (expand (u ''measurements'') (dec_nat 0)) run_command = run_command"
    by (simp add: run_command_def expand_plain u_def)
  have command: "expected_observation_command run_inputs (u ''measurements'') 0 = Inr run_command"
    by (simp add: expected_observation_command_def inputs sequence_def strs plain) (simp add: run_command_def)
  have eq: "py_eq_list (map JStr vs) (map JStr vs)" for vs by (induction vs) simp_all
  have exe: "mapping (recorded_file ''/x'' (Suc 0) []) = Inr (jobj [(''path'', JStr (u ''/x'')), (''size_bytes'', JInt 1), (''sha256'', JStr zero_sha)])"
    "JObj (jobj [(''path'', JStr (u ''/x'')), (''size_bytes'', JInt 1), (''sha256'', JStr zero_sha)]) = recorded_file ''/x'' (Suc 0) []"
    by (simp_all add: recorded_file_def mapping_def)
  have execution: "py_eq_items (jobj [(''warmups'', JInt 0), (''repetitions'', JInt 1)]) (jobj [(''warmups'', JInt 0), (''repetitions'', JInt 1)])"
    by (simp add: jobj_def)
  show ?thesis
    by (simp add: execution check_stage_def native_binary_def name inputs sha_field_def sequence_def check_counts_def proto mapping_def [of "JObj _"]
        check_observations_def check_observation_def command eq check_executable_def exe)
qed

lemma run_stage_bound: "stage_bound (run_tools g) (run_details g) run_stage_name run_stage_document run_inputs = Inr ()"
proof -
  have "py_eq (JObj run_shared) (JObj run_shared)"
    by (rule py_eq_refl) (simp_all add: run_shared_def recorded_cache_def recorded_file_def jobj_def)
  then have "py_eq (jget run_inputs ''shared'') (JObj run_shared)" by (simp add: run_inputs_def del: py_eq.simps)
  moreover have "\<not> startswith run_stage_name (u ''official-'')" "run_stage_name \<noteq> u ''official-search-real''" "\<not> jhas run_inputs ''tooling''"
    by (simp_all add: run_stage_name_def startswith_code run_inputs_def) (simp add: u_def)
  ultimately show ?thesis by (simp add: stage_bound_def del: py_eq.simps)
qed

definition run_stage_entry :: stage_entry where
  "run_stage_entry = \<lparr>se_name = run_stage_name, se_path = u ''/stages/native-search-ef8.json'', se_sha = zero_sha, se_status = JStr (u ''complete'')\<rparr>"

text \<open>The run comes down to its one stage.\<close>

lemma run_of_stage:
  assumes "ingest_head (run_world g) (start_collector True) (u ''t'') (u ''/m'') = Inr (c1, run_details g)"
    and "ingest_document (run_world g) (run_details g) (enter_stage c1 run_stage_entry) run_stage_name run_stage_document = Inr c"
  shows "ingest_specs (run_world g) True [(u ''t'', u ''/m'')] = Inr c"
proof -
  have m: "stage_map (run_details g) = Inr (jobj [(''native-search-ef8'', JNull)])"
    using run_stage_recognized by (simp add: stage_map_def mapping_def jobj_def run_stage_name_def)
  have path: "resolve_stage_path (ce_disk (run_world g)) (u ''/m'') run_stage_name JNull = u ''/stages/native-search-ef8.json''"
    by (simp add: resolve_stage_path_def stage_candidates_def path_parent_def path_join_def run_stage_name_def) (simp add: u_def run_files_map_def)
  have "ingest_stage (run_world g) (run_details g) (jobj [(''native-search-ef8'', JNull)]) c1 run_stage_name = Inr c"
    using assms(2)
    by (simp add: ingest_stage_def path run_loads run_digests mapping_def run_stage_entry_def)
      (simp add: run_stage_name_def jobj_def path [unfolded run_stage_name_def] run_loads run_digests mapping_def)
  then have "ingest (run_world g) (start_collector True) (u ''t'') (u ''/m'') = Inr c"
    by (simp add: ingest_def assms(1) m) (simp add: jobj_def run_stage_name_def)
  then show ?thesis
    by (simp add: ingest_specs_def ingest_spec_def valid_tier_def size_label_def) (simp add: u_def py_ws_def)
qed

lemma run_ingested:
  "\<exists>c s. ingest_specs (run_world Sweep) True [(u ''t'', u ''/m'')] = Inr c \<and> co_samples c = [s]"
proof -
  from run_head [of Sweep] obtain c1 where h: "ingest_head (run_world Sweep) (start_collector True) (u ''t'') (u ''/m'') = Inr (c1, run_details Sweep)"
    and e: "entered c1" by blast
  then obtain sx where c1: "co_samples c1 = []" "co_truths c1 = []" "map_of (co_context c1) zero_sha = Some sx" by (auto simp: entered_def)
  let ?c2 = "enter_stage c1 run_stage_entry"
  from run_checked [of Sweep ?c2] obtain c3 where k: "check_stage (run_world Sweep) ?c2 (run_details Sweep) run_stage_name run_stage_document run_inputs = Inr c3"
    and c3: "co_samples c3 = []" "co_truths c3 = []" "map_of (co_context c3) zero_sha = Some sx"
    using c1 by (auto simp: enter_stage_def)
  from run_search [OF c3, of Sweep] obtain c4 s where s: "native_search (run_world Sweep) c3 (u ''t'') zero_sha run_stage_name run_stage_document run_dataset [1] = Inr c4"
    "co_samples c4 = [s]" by blast
  have d: "dispatch_stage (run_world Sweep) c3 (run_details Sweep) run_stage_name run_stage_document run_inputs = Inr c4"
    using s(1) by (simp add: dispatch_stage_def run_tier_def run_stage_name_def [symmetric])
      (simp add: run_stage_name_def startswith_code, simp add: u_def)
  have "\<not> gate_stage (run_details Sweep) run_stage_name" by (simp add: gate_stage_def run_role_name_def u_def)
  then have "ingest_document (run_world Sweep) (run_details Sweep) ?c2 run_stage_name run_stage_document = Inr c4"
    by (simp add: ingest_document_def mapping_def run_stage_bound k d)
  from run_of_stage [OF h this] s(2) show ?thesis by blast
qed

text \<open>A gate run is entered, and nothing of it is pooled.\<close>

lemma gate_run_ingested:
  "\<exists>c. ingest_specs (run_world Gate) True [(u ''t'', u ''/m'')] = Inr c \<and> entered c"
proof -
  from run_head [of Gate] obtain c1 where h: "ingest_head (run_world Gate) (start_collector True) (u ''t'') (u ''/m'') = Inr (c1, run_details Gate)"
    and c1: "entered c1" by blast
  let ?c2 = "enter_stage c1 run_stage_entry"
  have "gate_stage (run_details Gate) run_stage_name"
    by (simp add: gate_stage_def run_role_name_def run_stage_name_def startswith_code u_def)
  then have "ingest_document (run_world Gate) (run_details Gate) ?c2 run_stage_name run_stage_document = Inr ?c2"
    by (simp add: ingest_document_def mapping_def run_stage_bound)
  from run_of_stage [OF h this] have "ingest_specs (run_world Gate) True [(u ''t'', u ''/m'')] = Inr ?c2" .
  moreover have "validate_cross_source_identities ?c2 = validate_cross_source_identities c1"
    by (simp add: validate_cross_source_identities_def identity_sets_def enter_stage_def)
  with c1 have "entered ?c2" by (simp add: entered_def) (simp add: enter_stage_def)
  ultimately show ?thesis by blast
qed


theorem ingested_samples_are_complete_witness:
  "\<exists>c s. ingest_specs (run_world Sweep) True [(u ''t'', u ''/m'')] = Inr c \<and> co_samples c = [s] \<and> sample_complete s"
proof -
  obtain c s where c: "ingest_specs (run_world Sweep) True [(u ''t'', u ''/m'')] = Inr c" "co_samples c = [s]" using run_ingested by blast
  from ingested_samples_are_complete [OF c(1)] c show ?thesis by auto
qed

end
