(* ===== verification/ParityReport.thy ===== *)
theory ParityReport
  imports CollectRun
begin

text \<open>
  The three validators of supplied proofs in \<open>collect_large_scale_results.py\<close>: the derivation of the dataset from its
  manifest (\<open>_validate_dataset_derivation\<close>), the embedding parity report (\<open>_validate_parity_report\<close>), which recomputes
  every similarity from the two vector files, and the finalized endpoint attestation (\<open>_validate_endpoint_attestation\<close>).
  \<open>vector_tools\<close> is what NumPy computes of two rows: the clipped cosine, the largest absolute difference, and whether a
  norm vanishes. The lemmas show that the similarities of an accepted report are those of vectors that are on the disk.
\<close>

record vector_tools =
  vt_cosine :: "bytes \<Rightarrow> bytes \<Rightarrow> pyfloat"
  vt_difference :: "bytes \<Rightarrow> bytes \<Rightarrow> pyfloat"
  vt_vanishes :: "bytes \<Rightarrow> bytes \<Rightarrow> bool"

text \<open>\<open>m.get(k) == v\<close> and \<open>m.get(k) is True\<close>.\<close>

definition field_is :: "jobj \<Rightarrow> string \<Rightarrow> json \<Rightarrow> bool" where
  "field_is m k v \<longleftrightarrow> py_eq (jget m k) v"

definition holds :: "jobj \<Rightarrow> string \<Rightarrow> bool" where
  "holds m k \<longleftrightarrow> jget m k = JBool True"

definition sub :: "jobj \<Rightarrow> string \<Rightarrow> jobj res" where
  "sub m k = mapping (jget m k)"

lemma sub_ok [ok_simps]: "sub m k = Inr x \<longleftrightarrow> jget m k = JObj x"
  by (simp add: sub_def ok_simps)

text \<open>A recorded path, relative to the report that records it.\<close>

definition beside :: "fsys \<Rightarrow> pystr \<Rightarrow> pystr \<Rightarrow> pystr" where
  "beside d report p = fs_resolve d (if is_absolute p then p else path_join (path_parent report) p)"

definition digest_of :: "collector_env \<Rightarrow> pystr \<Rightarrow> pystr res" where
  "digest_of env path = sha256_file (tl_host (ce_tools env)) (ce_disk env) path 0 None"

definition size_of :: "collector_env \<Rightarrow> pystr \<Rightarrow> int res" where
  "size_of env path = (case file_at (ce_disk env) path of None \<Rightarrow> Inl (OSError ''stat'') | Some content \<Rightarrow> Inr (int (length content)))"

subsection \<open>The derivation of the dataset\<close>

definition derivation_manifest :: "collector_env \<Rightarrow> pystr \<Rightarrow> jobj \<Rightarrow> (jobj \<times> pystr \<times> pystr \<times> jobj) res" where
  "derivation_manifest env report report_dataset =
     and_then (sub report_dataset ''manifest'') (\<lambda>r.
     and_then (nonempty_string (jget r ''path'')) (\<lambda>recorded_path.
     let path = beside (ce_disk env) report recorded_path in
     and_then (require (file_at (ce_disk env) path \<noteq> None) (CollectionError ''dataset manifest does not exist'')) (\<lambda>_.
     and_then (sha_field (jget r ''sha256'') (CollectionError ''dataset manifest hash is invalid'')) (\<lambda>sha.
     and_then (digest_of env path) (\<lambda>actual.
     and_then (require (actual = sha) (CollectionError ''dataset manifest SHA-256 changed'')) (\<lambda>_.
     and_then (and_then (collector_load (ce_tools env) (ce_disk env) path) mapping) (\<lambda>manifest.
     and_then (integer (jget manifest ''schema_version'') 1) (\<lambda>_.
     Inr (r, path, sha, manifest)))))))))"

record tier_facts =
  tf_maximum :: int
  tf_documents :: int
  tf_bytes :: int

definition derivation_tier :: "jobj \<Rightarrow> jobj \<Rightarrow> pystr \<Rightarrow> dataset \<Rightarrow> tier_facts res" where
  "derivation_tier r manifest tier ds =
     and_then (sub manifest ''tiers'') (\<lambda>tiers.
     and_then (mapping (item tiers tier)) (\<lambda>tr.
     and_then (require (field_is tr ''documents'' (JInt (ds_corpus_count ds))) (CollectionError ''dataset manifest tier/document count differs'')) (\<lambda>_.
     and_then (integer (jget tr ''maximum_prepared_document_bytes'') 1) (\<lambda>maximum.
     and_then (require (field_is r ''maximum_prepared_document_bytes'' (JInt maximum)) (CollectionError ''parity/manifest document byte ceilings differ'')) (\<lambda>_.
     and_then (sub tr ''truncation'') (\<lambda>truncation.
     and_then (require (field_is r ''tier_truncation'' (JObj truncation)) (CollectionError ''parity/manifest tier truncation differs'')) (\<lambda>_.
     and_then (integer (jget truncation ''documents'') 1) (\<lambda>documents.
     and_then (integer (jget truncation ''bytes_removed'') 1) (\<lambda>removed.
     and_then (sub tr ''text_duplicates'') (\<lambda>duplicates.
     and_then (require (field_is duplicates ''rows'' (JInt (ds_corpus_count ds)) \<and> field_is duplicates ''unique_prepared_texts'' (JInt (ds_corpus_count ds))
          \<and> field_is duplicates ''duplicate_rows'' (JInt 0)) (CollectionError ''selected tier is not unique after text deduplication'')) (\<lambda>_.
     and_then (number (jget duplicates ''duplicate_rate'')) (\<lambda>rate.
     and_then (require (fl_eq rate (Fin 0)) (CollectionError ''selected tier is not unique after text deduplication'')) (\<lambda>_.
     Inr \<lparr>tf_maximum = maximum, tf_documents = documents, tf_bytes = removed\<rparr>)))))))))))))"

definition derivation_queries :: "jobj \<Rightarrow> dataset \<Rightarrow> int res" where
  "derivation_queries manifest ds =
     and_then (sub manifest ''queries'') (\<lambda>q.
     and_then (require (field_is q ''queries'' (JInt (ds_query_count ds))) (CollectionError ''dataset manifest query count differs'')) (\<lambda>_.
     and_then (integer (jget q ''positive_qrel_rows'') 1) (\<lambda>rows.
     and_then (require (field_is q ''qrel_rows'' (JInt rows)) (CollectionError ''selected qrels contain non-positive rows'')) (\<lambda>_.
     Inr rows))))"

record ids_file =
  if_path :: pystr
  if_size :: int
  if_sha :: json

text \<open>The document identifiers on the disk, and the files of the manifest.\<close>

definition derivation_ids :: "collector_env \<Rightarrow> pystr \<Rightarrow> jobj \<Rightarrow> ids_file res" where
  "derivation_ids env report report_dataset =
     and_then (sub report_dataset ''document_ids'') (\<lambda>r.
     and_then (nonempty_string (jget r ''path'')) (\<lambda>recorded_path.
     let path = beside (ce_disk env) report recorded_path; e = CollectionError ''document ID file snapshot changed'' in
     and_then (integer (jget r ''size_bytes'') 1) (\<lambda>n.
     case file_at (ce_disk env) path of
       None \<Rightarrow> Inl e
     | Some content \<Rightarrow>
         and_then (require (int (length content) = n) e) (\<lambda>_.
         and_then (digest_of env path) (\<lambda>actual.
         and_then (require (py_eq (JStr actual) (jget r ''sha256'')) e) (\<lambda>_.
         Inr \<lparr>if_path = path, if_size = n, if_sha = jget r ''sha256''\<rparr>))))))"

definition derivation_files :: "collector_env \<Rightarrow> pystr \<Rightarrow> jobj \<Rightarrow> jobj \<Rightarrow> pystr \<Rightarrow> dataset \<Rightarrow> ids_file res" where
  "derivation_files env report report_dataset manifest tier ds =
     and_then (sub manifest ''files'') (\<lambda>files.
     and_then (mapping (item files (u ''documents_'' @ tier))) (\<lambda>documents.
     and_then (sub files ''queries'') (\<lambda>queries.
     and_then (mapping (item files (u ''document_ids_'' @ tier))) (\<lambda>ids.
     and_then (derivation_ids env report report_dataset) (\<lambda>recorded_ids.
     and_then (require (field_is documents ''sha256'' (JStr (ds_documents_sha ds)) \<and> field_is documents ''lines'' (JInt (ds_corpus_count ds))
          \<and> field_is queries ''sha256'' (JStr (ds_queries_sha ds)) \<and> field_is queries ''lines'' (JInt (ds_query_count ds))
          \<and> field_is ids ''sha256'' (if_sha recorded_ids) \<and> field_is ids ''lines'' (JInt (ds_corpus_count ds)))
        (CollectionError ''dataset manifest file bindings differ'')) (\<lambda>_.
     Inr recorded_ids))))))"

definition derivation_selection :: "jobj \<Rightarrow> jobj res" where
  "derivation_selection manifest =
     and_then (sub manifest ''selection'') (\<lambda>selection.
     and_then (map_res (\<lambda>k. and_then (nonempty_string (jget selection k)) (\<lambda>s. Inr (u k, JStr s))) [''queries'', ''documents'', ''rank'', ''seed''])
       Inr)"

definition coverage_key :: "string \<Rightarrow> pystr \<Rightarrow> pystr" where
  "coverage_key stem tier = u stem @ tier"

definition derivation_coverage :: "jobj \<Rightarrow> pystr \<Rightarrow> int res" where
  "derivation_coverage manifest tier =
     (let e = CollectionError ''selected tier does not cover every positive qrel'' in
      and_then (sub manifest ''qrel_coverage'') (\<lambda>coverage.
      and_then (integer (jget coverage ''required_positive_documents'') 1) (\<lambda>required_documents.
      and_then (require (py_eq (item coverage (coverage_key ''covered_positive_documents_'' tier)) (JInt required_documents)) e) (\<lambda>_.
      and_then (number (item coverage (coverage_key ''document_coverage_'' tier))) (\<lambda>a.
      and_then (require (close a (Fin 1)) e) (\<lambda>_.
      and_then (number (item coverage (coverage_key ''positive_judgment_coverage_'' tier))) (\<lambda>b.
      and_then (require (close b (Fin 1)) e) (\<lambda>_.
      Inr required_documents))))))))"

definition derivation_invariants :: "jobj \<Rightarrow> unit res" where
  "derivation_invariants manifest =
     and_then (sub manifest ''invariants'') (\<lambda>invariants.
     and_then (require (holds invariants ''100k_is_exact_prefix_of_1m'') (CollectionError ''nested 100K/1M corpus invariant is not proven'')) (\<lambda>_.
     and_then (require (holds invariants ''document_ids_are_unique'') (CollectionError ''unique document ID invariant is not proven'')) (\<lambda>_.
     require (holds invariants ''original_query_document_ids_and_qrel_scores_preserved'')
       (CollectionError ''source ID/qrel preservation is not proven''))))"

definition derivation_normalization :: "jobj \<Rightarrow> int \<Rightarrow> jobj res" where
  "derivation_normalization manifest maximum =
     and_then (sub manifest ''normalization'') (\<lambda>normalization.
     and_then (sub normalization ''document_truncation'') (\<lambda>policy.
     and_then (require (field_is policy ''maximum_utf8_bytes_including_prefix'' (JInt maximum)
          \<and> holds policy ''applied_before_text_hashing_deduplication_and_selection'')
        (CollectionError ''normalization/truncation policy differs'')) (\<lambda>_.
     Inr (jobj [(''document_format'', jget normalization ''document_format''), (''query_format'', jget normalization ''query_format''),
       (''line_cleaning'', jget normalization ''line_cleaning''), (''truncation_algorithm'', jget policy ''algorithm''),
       (''maximum_utf8_bytes_including_prefix'', JInt maximum), (''truncation_before_hashing_deduplication_and_selection'', JBool True)]))))"

definition derivation_archive :: "jobj \<Rightarrow> jobj \<Rightarrow> jobj res" where
  "derivation_archive manifest report_dataset =
     and_then (sub manifest ''dataset'') (\<lambda>source.
     and_then (sub source ''archive'') (\<lambda>archive.
     and_then (sub report_dataset ''source_archive'') (\<lambda>reported.
     and_then (require (py_eq (jget archive ''sha256'') (jget reported ''sha256'')) (CollectionError ''dataset/source archive binding differs'')) (\<lambda>_.
     Inr (jobj [(''name'', jget source ''name''), (''archive_sha256'', jget archive ''sha256'')])))))"

definition derivation_tier_json :: "pystr \<Rightarrow> dataset \<Rightarrow> tier_facts \<Rightarrow> ids_file \<Rightarrow> jobj" where
  "derivation_tier_json tier ds facts ids = jobj
     [(''name'', JStr tier), (''documents'', JInt (ds_corpus_count ds)), (''unique_prepared_texts'', JInt (ds_corpus_count ds)),
      (''duplicate_rows_after_selection'', JInt 0), (''truncated_documents'', JInt (tf_documents facts)),
      (''truncated_bytes_removed'', JInt (tf_bytes facts)),
      (''document_ids'', JObj (jobj [(''path'', JStr (if_path ids)), (''size_bytes'', JInt (if_size ids)), (''sha256'', if_sha ids)]))]"

definition validate_dataset_derivation :: "collector_env \<Rightarrow> pystr \<Rightarrow> pystr \<Rightarrow> jobj \<Rightarrow> dataset \<Rightarrow> jobj res" where
  "validate_dataset_derivation env report tier report_dataset ds =
     and_then (derivation_manifest env report report_dataset) (\<lambda>(r, path, sha, manifest).
     and_then (derivation_tier r manifest tier ds) (\<lambda>facts.
     and_then (derivation_queries manifest ds) (\<lambda>positive.
     and_then (derivation_files env report report_dataset manifest tier ds) (\<lambda>ids.
     and_then (derivation_selection manifest) (\<lambda>selection.
     and_then (derivation_coverage manifest tier) (\<lambda>required_documents.
     and_then (derivation_invariants manifest) (\<lambda>_.
     and_then (derivation_normalization manifest (tf_maximum facts)) (\<lambda>normalization.
     and_then (derivation_archive manifest report_dataset) (\<lambda>source.
     and_then (size_of env path) (\<lambda>n.
     Inr (jobj
       [(''manifest'', JObj (jobj [(''path'', JStr path), (''size_bytes'', JInt n), (''sha256'', JStr sha)])),
        (''source_dataset'', JObj source), (''selection'', JObj selection),
        (''queries'', JObj (jobj [(''selected'', JInt (ds_query_count ds)), (''positive_qrel_rows'', JInt positive)])),
        (''qrel_coverage'', JObj (jobj [(''required_positive_documents'', JInt required_documents),
           (''covered_positive_documents'', JInt required_documents), (''document_coverage'', JFloat (Fin 1)),
           (''positive_judgment_coverage'', JFloat (Fin 1))])),
        (''invariants'', JObj (jobj [(''100k_is_exact_prefix_of_1m'', JBool True), (''document_ids_are_unique'', JBool True),
           (''original_query_document_ids_and_qrel_scores_preserved'', JBool True)])),
        (''normalization'', JObj normalization), (''tier'', JObj (derivation_tier_json tier ds facts ids))])))))))))))"

subsection \<open>The parity report\<close>

definition parity_schema :: pystr where "parity_schema = u ''leann-embedding-parity-v1''"

record parity_head =
  ph_acceptance :: jobj
  ph_metrics :: jobj
  ph_threshold :: pyfloat
  ph_minimum :: pyfloat

definition parity_gate :: "jobj \<Rightarrow> pyfloat \<Rightarrow> parity_head res" where
  "parity_gate report minimum_cosine =
     and_then (require (field_is report ''schema'' (JStr parity_schema)) (CollectionError ''unknown embedding parity schema'')) (\<lambda>_.
     and_then (require (holds report ''passed'') (CollectionError ''embedding parity did not pass'')) (\<lambda>_.
     and_then (sub report ''acceptance'') (\<lambda>acceptance.
     and_then (number (jget acceptance ''minimum_cosine_similarity'')) (\<lambda>threshold.
     and_then (sub report ''metrics'') (\<lambda>metrics.
     and_then (number (jget metrics ''minimum_cosine_similarity'')) (\<lambda>observed.
     and_then (require (\<not> fl_lt threshold minimum_cosine) (CollectionError ''parity threshold is below required'')) (\<lambda>_.
     and_then (require (\<not> fl_lt observed threshold \<and> \<not> fl_lt observed minimum_cosine) (CollectionError ''minimum cosine fails the declared gate'')) (\<lambda>_.
     Inr \<lparr>ph_acceptance = acceptance, ph_metrics = metrics, ph_threshold = threshold, ph_minimum = observed\<rparr>))))))))"

text \<open>The report is about the dataset of the tier.\<close>

definition parity_dataset :: "jobj \<Rightarrow> pystr \<Rightarrow> dataset \<Rightarrow> jobj res" where
  "parity_dataset report tier ds =
     and_then (sub report ''dataset'') (\<lambda>rd.
     and_then (require (field_is rd ''tier'' (JStr tier)) (CollectionError ''parity tier differs'')) (\<lambda>_.
     and_then (sub rd ''documents'') (\<lambda>documents.
     and_then (sub rd ''queries'') (\<lambda>queries.
     and_then (require (field_is documents ''sha256'' (JStr (ds_documents_sha ds)) \<and> field_is documents ''nonempty_lines'' (JInt (ds_corpus_count ds)))
        (CollectionError ''parity document binding differs'')) (\<lambda>_.
     and_then (require (field_is queries ''sha256'' (JStr (ds_queries_sha ds)) \<and> field_is queries ''nonempty_lines'' (JInt (ds_query_count ds)))
        (CollectionError ''parity query binding differs'')) (\<lambda>_.
     Inr rd))))))"

text \<open>Every query, and the selected documents with their truncation proof.\<close>

definition parity_coverage :: "jobj \<Rightarrow> jobj \<Rightarrow> dataset \<Rightarrow> (jobj \<times> int \<times> jobj) res" where
  "parity_coverage report metrics ds =
     and_then (sub report ''coverage'') (\<lambda>coverage.
     and_then (sub coverage ''queries'') (\<lambda>qc.
     and_then (require (field_is qc ''selected'' (JInt (ds_query_count ds)) \<and> field_is qc ''source_rows'' (JInt (ds_query_count ds))
          \<and> holds qc ''all_queries'') (CollectionError ''parity does not cover every query'')) (\<lambda>_.
     and_then (require (py_eq (jget coverage ''total_rows'') (jget metrics ''rows'')) (CollectionError ''parity coverage/metric row counts differ'')) (\<lambda>_.
     and_then (require (field_is metrics ''dimensions'' (JInt (ds_dimensions ds))) (CollectionError ''parity embedding dimensions differ'')) (\<lambda>_.
     and_then (number (jget metrics ''maximum_absolute_difference'')) (\<lambda>_.
     and_then (sub coverage ''documents'') (\<lambda>dc.
     and_then (integer (jget dc ''selected_documents'') 1) (\<lambda>selected.
     and_then (sub dc ''truncation_proof'') (\<lambda>proof_record.
     and_then (require (field_is proof_record ''checked_documents'' (JInt selected)) (CollectionError ''parity truncation proof is incomplete'')) (\<lambda>_.
     and_then (integer (jget proof_record ''source_verified_truncated_documents'') 1) (\<lambda>_.
     and_then (sub metrics ''by_kind'') (\<lambda>by_kind.
     and_then (sub by_kind ''query'') (\<lambda>kq.
     and_then (require (field_is kq ''rows'' (JInt (ds_query_count ds))) (CollectionError ''parity query metric row count differs'')) (\<lambda>_.
     and_then (sub by_kind ''document'') (\<lambda>kd.
     and_then (require (field_is kd ''rows'' (JInt selected)) (CollectionError ''parity document metric row count differs'')) (\<lambda>_.
     Inr (coverage, selected, by_kind)))))))))))))))))"

definition parity_cache_record :: "jobj \<Rightarrow> int \<Rightarrow> dataset \<Rightarrow> unit res" where
  "parity_cache_record cache rows ds =
     and_then (require (field_is cache ''count'' (JInt rows) \<and> field_is cache ''dimensions'' (JInt (ds_dimensions ds))
          \<and> field_is cache ''fingerprint'' (JStr (ds_fingerprint ds))) (CollectionError ''parity cache metadata differs'')) (\<lambda>_.
     and_then (sha_field (jget cache ''sidecar_sha256'') (CollectionError ''parity sidecar hash is invalid'')) (\<lambda>_. Inr ()))"

definition parity_reference :: "jobj \<Rightarrow> dataset \<Rightarrow> (jobj \<times> jobj \<times> jobj) res" where
  "parity_reference report ds =
     and_then (sub report ''official_comparison_reference'') (\<lambda>reference.
     and_then (sub reference ''corpus_cache'') (\<lambda>corpus.
     and_then (sub reference ''query_cache'') (\<lambda>query.
     and_then (sub reference ''model'') (\<lambda>model.
     and_then (require (field_is corpus ''sha256'' (JStr (ds_corpus_cache_sha ds))) (CollectionError ''parity corpus cache binding differs'')) (\<lambda>_.
     and_then (require (field_is query ''sha256'' (JStr (ds_query_cache_sha ds))) (CollectionError ''parity query cache binding differs'')) (\<lambda>_.
     and_then (require (field_is model ''sha256'' (JStr (ds_model_sha ds))) (CollectionError ''parity model identity differs'')) (\<lambda>_.
     and_then (sub model ''artifact'') (\<lambda>artifact.
     and_then (require (field_is artifact ''sha256'' (JStr (ds_model_artifact_sha ds))) (CollectionError ''parity model artifact binding differs'')) (\<lambda>_.
     and_then (parity_cache_record corpus (ds_corpus_count ds) ds) (\<lambda>_.
     and_then (parity_cache_record query (ds_query_count ds) ds) (\<lambda>_.
     Inr (corpus, query, model))))))))))))"

definition parity_native :: "jobj \<Rightarrow> dataset \<Rightarrow> pystr option \<Rightarrow> (jobj \<times> jobj \<times> jobj) res" where
  "parity_native report ds binary_sha =
     and_then (sub report ''native'') (\<lambda>native.
     and_then (sub native ''model'') (\<lambda>model.
     and_then (require (field_is model ''sha256'' (JStr (ds_model_artifact_sha ds))) (CollectionError ''parity native GGUF binding differs'')) (\<lambda>_.
     and_then (sub native ''binary'') (\<lambda>binary.
     and_then (require (case binary_sha of None \<Rightarrow> True | Some s \<Rightarrow> field_is binary ''sha256'' (JStr s)) (CollectionError ''parity native binary binding differs'')) (\<lambda>_.
     Inr (native, model, binary))))))"

subsection \<open>The vectors\<close>

text \<open>The two vector files with their source, verified and read independently of the report.\<close>

definition evidence_cache :: "collector_env \<Rightarrow> pystr \<Rightarrow> (bytes list \<times> cache_meta) res" where
  "evidence_cache env path =
     rethrow os_or_value ''cannot independently read parity vector evidence'' (and_then (open_rb (ce_disk env) path)
       (read_cache (tl_host (ce_tools env)) (ce_numerics env) (fs_resolve (ce_disk env) path) True (Some True) 8192))"

definition evidence_meta :: "cache_meta \<Rightarrow> nat \<Rightarrow> dataset \<Rightarrow> unit res" where
  "evidence_meta meta rows ds =
     require (cm_count meta = rows \<and> int (cm_dimensions meta) = ds_dimensions ds \<and> cm_fingerprint meta = ds_fingerprint ds)
       (CollectionError ''parity vector evidence metadata differs'')"

definition bound_to_source :: "collector_env \<Rightarrow> cache_meta \<Rightarrow> pystr \<Rightarrow> unit res" where
  "bound_to_source env meta source =
     (let e = CollectionError ''parity reference cache is not bound to the fixture source'' in
      and_then (require (cm_version meta = 2) e) (\<lambda>_.
      and_then (size_of env source) (\<lambda>n.
      case cm_source meta of
        None \<Rightarrow> Inl e
      | Some (nbytes, sha) \<Rightarrow>
          and_then (require (int nbytes = n) e) (\<lambda>_.
          and_then (digest_of env source) (\<lambda>actual.
          require (sha = actual) e)))))"

definition parity_vectors ::
  "collector_env \<Rightarrow> jobj \<Rightarrow> jobj \<Rightarrow> nat \<Rightarrow> dataset \<Rightarrow> ((bytes \<times> bytes) list \<times> jobj \<times> jobj) res" where
  "parity_vectors env fixture native rows ds =
     (let t = ce_tools env; d = ce_disk env in
      and_then (sub fixture ''source'') (\<lambda>source.
      and_then (sub fixture ''reference_cache'') (\<lambda>reference_cache.
      and_then (sub native ''cache'') (\<lambda>native_cache.
      and_then (verify t d \<lparr>fv_enabled = True, fv_verified = []\<rparr> (JObj source)) (\<lambda>(fv, source_path).
      and_then (verify t d fv (JObj reference_cache)) (\<lambda>(fv, reference_path).
      and_then (verify t d fv (JObj native_cache)) (\<lambda>(fv, native_path).
      and_then (evidence_cache env reference_path) (\<lambda>(reference_rows, reference_meta).
      and_then (evidence_cache env native_path) (\<lambda>(native_rows, native_meta).
      and_then (evidence_meta reference_meta rows ds) (\<lambda>_.
      and_then (evidence_meta native_meta rows ds) (\<lambda>_.
      and_then (bound_to_source env reference_meta source_path) (\<lambda>_.
      Inr (zip reference_rows native_rows, reference_cache, native_cache)))))))))))))"

text \<open>\<open>math.isclose(a, b, rel_tol=0.0, abs_tol=1e-12)\<close>.\<close>

definition agrees :: "pyfloat \<Rightarrow> pyfloat \<Rightarrow> bool" where
  "agrees reported recomputed = isclose (Fin 0) (fl_lit 1 12) reported recomputed"

definition cosines :: "vector_tools \<Rightarrow> (bytes \<times> bytes) list \<Rightarrow> pyfloat list" where
  "cosines vt pairs = map (\<lambda>(a, b). vt_cosine vt a b) pairs"

definition differences :: "vector_tools \<Rightarrow> (bytes \<times> bytes) list \<Rightarrow> pyfloat list" where
  "differences vt pairs = map (\<lambda>(a, b). vt_difference vt a b) pairs"

text \<open>The kind of every row of the fixture, and the rows of one kind.\<close>

definition fixture_kinds :: "json list \<Rightarrow> pystr list res" where
  "fixture_kinds rows = map_res (\<lambda>v. and_then (mapping v) (\<lambda>m. nonempty_string (jget m ''kind''))) rows"

definition rows_of_kind :: "pystr list \<Rightarrow> pystr \<Rightarrow> 'a list \<Rightarrow> 'a list" where
  "rows_of_kind kinds kind xs = map snd (filter (\<lambda>kx. fst kx = kind) (zip kinds xs))"

definition check_kind_counts :: "pystr list \<Rightarrow> dataset \<Rightarrow> int \<Rightarrow> unit res" where
  "check_kind_counts kinds ds selected =
     require (set kinds = {u ''query'', u ''document''} \<and> int (count_list kinds (u ''query'')) = ds_query_count ds
         \<and> int (count_list kinds (u ''document'')) = selected)
       (CollectionError ''parity fixture row kinds differ'')"

definition check_kind_metrics :: "vector_tools \<Rightarrow> jobj \<Rightarrow> pystr list \<Rightarrow> (bytes \<times> bytes) list \<Rightarrow> string \<Rightarrow> unit res" where
  "check_kind_metrics vt by_kind kinds pairs kind =
     (let e = CollectionError ''reported metrics differ from vector evidence''; own = rows_of_kind kinds (u kind) pairs in
      and_then (sub by_kind kind) (\<lambda>reported.
      and_then (require (field_is reported ''rows'' (JInt (int (length own)))) e) (\<lambda>_.
      and_then (number (jget reported ''minimum_cosine_similarity'')) (\<lambda>minimum.
      and_then (require (agrees minimum (fl_min (cosines vt own))) e) (\<lambda>_.
      and_then (number (jget reported ''maximum_absolute_difference'')) (\<lambda>maximum.
      require (agrees maximum (fl_max (differences vt own))) e))))))"

definition check_similarities ::
  "tools \<Rightarrow> vector_tools \<Rightarrow> parity_head \<Rightarrow> pyfloat \<Rightarrow> jobj \<Rightarrow> pystr list \<Rightarrow> dataset \<Rightarrow> int \<Rightarrow> (bytes \<times> bytes) list \<Rightarrow> unit res" where
  "check_similarities t vt ph minimum_cosine by_kind kinds ds selected pairs =
     (let cs = cosines vt pairs; minimum = fl_min cs in
      and_then (require (\<not> list_ex (\<lambda>(a, b). vt_vanishes vt a b) pairs) (CollectionError ''parity evidence contains a zero vector'')) (\<lambda>_.
      and_then (require (agrees (ph_minimum ph) minimum) (CollectionError ''reported minimum cosine differs from vector evidence'')) (\<lambda>_.
      and_then (number (jget (ph_metrics ph) ''maximum_absolute_difference'')) (\<lambda>reported.
      and_then (require (agrees reported (fl_max (differences vt pairs)))
         (CollectionError ''reported maximum absolute difference differs from vector evidence'')) (\<lambda>_.
      and_then (check_kind_counts kinds ds selected) (\<lambda>_.
      and_then (require (\<not> fl_lt minimum (ph_threshold ph) \<and> \<not> fl_lt minimum minimum_cosine)
         (CollectionError ''independently recomputed cosine fails the parity gate'')) (\<lambda>_.
      and_then (number (jget (ph_metrics ph) ''mean_cosine_similarity'')) (\<lambda>mean.
      and_then (require (agrees mean (tl_mean t cs)) (CollectionError ''reported mean cosine differs from vector evidence'')) (\<lambda>_.
      and_then (map_res (check_kind_metrics vt by_kind kinds pairs) [''document'', ''query'']) (\<lambda>_. Inr ()))))))))))"

definition check_digests :: "jobj list \<Rightarrow> jobj \<Rightarrow> unit res" where
  "check_digests records report =
     and_then (map_res (\<lambda>m. sha_field (jget m ''sha256'') (CollectionError ''hash is invalid'')) records) (\<lambda>_.
     and_then (sha_field (jget report ''input_hash'') (CollectionError ''parity input hash is invalid'')) (\<lambda>_. Inr ()))"

record parity =
  py_tier :: pystr
  py_path :: pystr
  py_size :: int
  py_sha :: pystr
  py_input_hash :: json
  py_acceptance :: jobj
  py_metrics :: jobj
  py_coverage :: jobj
  py_derivation :: jobj
  py_bindings :: jobj

text \<open>The fixture: one row per covered row, its kinds, and the two vector files.\<close>

definition parity_fixture ::
  "collector_env \<Rightarrow> jobj \<Rightarrow> jobj \<Rightarrow> jobj \<Rightarrow> dataset \<Rightarrow> (json list \<times> (bytes \<times> bytes) list \<times> jobj \<times> jobj) res" where
  "parity_fixture env report coverage native ds =
     and_then (sub report ''fixture'') (\<lambda>fixture.
     and_then (sequence (jget fixture ''rows'')) (\<lambda>rows.
     and_then (require (py_eq (JInt (int (length rows))) (jget coverage ''total_rows'')) (CollectionError ''parity fixture row count differs'')) (\<lambda>_.
     and_then (parity_vectors env fixture native (length rows) ds) (\<lambda>(pairs, reference_cache, native_cache).
     Inr (rows, pairs, reference_cache, native_cache)))))"

definition parity_bindings :: "dataset \<Rightarrow> jobj \<Rightarrow> jobj" where
  "parity_bindings ds binary = jobj
     [(''documents_sha256'', JStr (ds_documents_sha ds)), (''queries_sha256'', JStr (ds_queries_sha ds)),
      (''corpus_cache_sha256'', JStr (ds_corpus_cache_sha ds)), (''query_cache_sha256'', JStr (ds_query_cache_sha ds)),
      (''model_sha256'', JStr (ds_model_sha ds)), (''model_artifact_sha256'', JStr (ds_model_artifact_sha ds)),
      (''native_binary_sha256'', jget binary ''sha256'')]"

definition parity_proofs :: "jobj \<Rightarrow> jobj \<Rightarrow> jobj \<Rightarrow> jobj \<Rightarrow> unit res" where
  "parity_proofs report report_dataset native_cache reference_cache =
     and_then (sub report_dataset ''manifest'') (\<lambda>manifest.
     and_then (sha_field (jget manifest ''sha256'') (CollectionError ''hash is invalid'')) (\<lambda>_.
     and_then (sub report_dataset ''source_archive'') (\<lambda>archive.
     and_then (sha_field (jget archive ''sha256'') (CollectionError ''hash is invalid'')) (\<lambda>_.
     and_then (sub report_dataset ''document_ids'') (\<lambda>ids.
     check_digests [ids, native_cache, reference_cache] report)))))"

definition validate_parity_report ::
  "collector_env \<Rightarrow> vector_tools \<Rightarrow> pystr \<Rightarrow> pystr \<Rightarrow> dataset \<Rightarrow> pyfloat \<Rightarrow> pystr option \<Rightarrow> parity res" where
  "validate_parity_report env vt tier raw_path ds minimum_cosine binary_sha =
     (let path = fs_resolve (ce_disk env) raw_path in
      and_then (and_then (collector_load (ce_tools env) (ce_disk env) path) mapping) (\<lambda>report.
      and_then (parity_gate report minimum_cosine) (\<lambda>ph.
      and_then (parity_dataset report tier ds) (\<lambda>report_dataset.
      and_then (parity_coverage report (ph_metrics ph) ds) (\<lambda>(coverage, selected, by_kind).
      and_then (parity_reference report ds) (\<lambda>_.
      and_then (parity_native report ds binary_sha) (\<lambda>(native, model, binary).
      and_then (parity_fixture env report coverage native ds) (\<lambda>(rows, pairs, reference_cache, native_cache).
      and_then (fixture_kinds rows) (\<lambda>kinds.
      and_then (check_similarities (ce_tools env) vt ph minimum_cosine by_kind kinds ds selected pairs) (\<lambda>_.
      and_then (parity_proofs report report_dataset native_cache reference_cache) (\<lambda>_.
      and_then (validate_dataset_derivation env path tier report_dataset ds) (\<lambda>derivation.
      and_then (size_of env path) (\<lambda>n.
      and_then (digest_of env path) (\<lambda>sha.
      Inr \<lparr>py_tier = tier, py_path = path, py_size = n, py_sha = sha, py_input_hash = jget report ''input_hash'',
        py_acceptance = ph_acceptance ph, py_metrics = ph_metrics ph, py_coverage = coverage, py_derivation = derivation,
        py_bindings = parity_bindings ds binary\<rparr>))))))))))))))"


subsection \<open>What an accepted report says\<close>

lemma read_cache_rows:
  assumes "read_cache h np path vv ru k content = Inr (rows, meta)"
  shows "length rows = cm_count meta" and "0 < cm_count meta"
proof -
  obtain hdr where "read_fixed content = Inr hdr" and hdr: "0 < ch_dimension hdr" "0 < ch_count hdr"
      "length content = ch_fixed hdr + ch_fingerprint_size hdr + ch_count hdr * ch_dimension hdr * 4"
      "rows = rows_of (4 * ch_dimension hdr) (drop (ch_fixed hdr + ch_fingerprint_size hdr) content)"
    and meta: "cm_count meta = ch_count hdr"
    using assms unfolding read_cache_def by (auto simp: ok_simps Let_def)
  have "length (drop (ch_fixed hdr + ch_fingerprint_size hdr) content) = ch_count hdr * (4 * ch_dimension hdr)"
    using hdr(3) by simp
  from rows_of_exact(1) [OF _ this] show "length rows = cm_count meta" using hdr meta by simp
  show "0 < cm_count meta" using hdr(2) meta by simp
qed

text \<open>Vectors of a cache file that a snapshot names with its size and digest, for the model of the dataset.\<close>

definition vectors_on_disk :: "collector_env \<Rightarrow> dataset \<Rightarrow> bytes list \<Rightarrow> bool" where
  "vectors_on_disk env ds rows \<longleftrightarrow>
     (\<exists>r path meta. snapshot_matches (ce_tools env) (ce_disk env) (JObj r) \<and> jget r ''path'' = JStr path
        \<and> evidence_cache env path = Inr (rows, meta) \<and> length rows = cm_count meta
        \<and> int (cm_dimensions meta) = ds_dimensions ds \<and> cm_fingerprint meta = ds_fingerprint ds)"

lemma verify_path: "verify t d fv (JObj r) = Inr (fv', path) \<Longrightarrow> jget r ''path'' = JStr path"
  by (auto simp: verify_def ok_simps Let_def jget_def split: if_splits option.splits)

lemma vectors_on_diskI:
  assumes "verify (ce_tools env) (ce_disk env) fv (JObj r) = Inr (fv', path)" "verifier_ok (ce_tools env) (ce_disk env) fv"
    and "evidence_cache env path = Inr (rows, meta)" and "evidence_meta meta n ds = Inr ()"
  shows "vectors_on_disk env ds rows" and "length rows = n" and "0 < n"
proof -
  have m: "cm_count meta = n" "int (cm_dimensions meta) = ds_dimensions ds" "cm_fingerprint meta = ds_fingerprint ds"
    using assms(4) by (auto simp: evidence_meta_def ok_simps)
  from assms(3) obtain content where
    "read_cache (tl_host (ce_tools env)) (ce_numerics env) (fs_resolve (ce_disk env) path) True (Some True) 8192 content = Inr (rows, meta)"
    by (auto simp: evidence_cache_def ok_simps)
  then have "length rows = cm_count meta" "0 < cm_count meta" by (rule read_cache_rows)+
  then show "vectors_on_disk env ds rows" "length rows = n" "0 < n"
    using verify_sound(2) [OF assms(1,2)] verify_path [OF assms(1)] assms(3) m by (auto simp: vectors_on_disk_def)
qed

lemma parity_vectors_ok:
  assumes "parity_vectors env fixture native n ds = Inr (pairs, r, k)"
  shows "\<exists>reference natives. pairs = zip reference natives \<and> length reference = n \<and> length natives = n \<and> 0 < n
    \<and> vectors_on_disk env ds reference \<and> vectors_on_disk env ds natives"
proof -
  let ?v = "verify (ce_tools env) (ce_disk env)" and ?ok = "verifier_ok (ce_tools env) (ce_disk env)"
  obtain source r k fv1 fv2 fv3 p1 p2 p3 reference rm natives nm where
    v1: "?v \<lparr>fv_enabled = True, fv_verified = []\<rparr> (JObj source) = Inr (fv1, p1)"
    and v2: "?v fv1 (JObj r) = Inr (fv2, p2)" and v3: "?v fv2 (JObj k) = Inr (fv3, p3)"
    and e: "evidence_cache env p2 = Inr (reference, rm)" "evidence_cache env p3 = Inr (natives, nm)"
    and m: "evidence_meta rm n ds = Inr ()" "evidence_meta nm n ds = Inr ()" and p: "pairs = zip reference natives"
    using assms by (simp add: parity_vectors_def ok_simps Let_def split: prod.splits) blast
  have "?ok \<lparr>fv_enabled = True, fv_verified = []\<rparr>" by (simp add: verifier_ok_def)
  from verify_sound(1) [OF v1 this] have o1: "?ok fv1" .
  from verify_sound(1) [OF v2 this] have o2: "?ok fv2" .
  show ?thesis using vectors_on_diskI [OF v2 o1 e(1) m(1)] vectors_on_diskI [OF v3 o2 e(2) m(2)] p by blast
qed



subsection \<open>A sample report\<close>

definition unit_vectors :: vector_tools where
  "unit_vectors = \<lparr>vt_cosine = (\<lambda>_ _. Fin 1), vt_difference = (\<lambda>_ _. Fin 0), vt_vanishes = (\<lambda>_ _. False)\<rparr>"

lemma unit_vectors_simps [simp]:
  "cosines unit_vectors pairs = map (\<lambda>_. Fin 1) pairs" "differences unit_vectors pairs = map (\<lambda>_. Fin 0) pairs" "\<not> vt_vanishes unit_vectors a b"
  by (simp_all add: cosines_def differences_def unit_vectors_def case_prod_beta)

lemma run_identity_simps [simp]:
  "ds_corpus_count run_identity = 2" "ds_query_count run_identity = 1" "ds_dimensions run_identity = 1" "ds_documents_sha run_identity = zero_sha"
  "ds_queries_sha run_identity = zero_sha" "ds_corpus_cache_sha run_identity = zero_sha" "ds_query_cache_sha run_identity = zero_sha"
  "ds_model_sha run_identity = zero_sha" "ds_model_artifact_sha run_identity = zero_sha" "ds_fingerprint run_identity = u ''m''"
  by (simp_all add: run_identity_def)

lemma number_Fin [simp]: "number (JFloat (Fin x)) = Inr (Fin x)"
  by (simp add: number_def is_number_def fl_isfinite_def)

lemmas parity_parts = sub_def mapping_def field_is_def holds_def integer_def sealed_by_def

definition run_gate :: parity_head where
  "run_gate = \<lparr>ph_acceptance = jobj [(''minimum_cosine_similarity'', JFloat (Fin 1))],
     ph_metrics = (case parity_metrics of JObj m \<Rightarrow> m | _ \<Rightarrow> []), ph_threshold = Fin 1, ph_minimum = Fin 1\<rparr>"

lemma run_parity_gate: "parity_gate run_parity (Fin 1) = Inr run_gate"
  by (simp add: parity_gate_def run_parity_def parity_schema_def parity_parts parity_acceptance_def parity_metrics_def run_gate_def)

lemma run_parity_dataset: "\<exists>rd. parity_dataset run_parity (u ''t'') run_identity = Inr rd \<and> parity_described = JObj rd"
  by (simp add: parity_dataset_def run_parity_def parity_described_def parity_parts)

lemma run_parity_coverage: "\<exists>coverage. parity_coverage run_parity (ph_metrics run_gate) run_identity
     = Inr (coverage, 1, jobj [parity_kind ''query'', parity_kind ''document'']) \<and> jget coverage ''total_rows'' = JInt 2"
  by (simp add: parity_coverage_def run_parity_def parity_covered_def parity_metrics_def run_gate_def parity_kind_def parity_parts)

lemma run_parity_reference: "\<exists>r. parity_reference run_parity run_identity = Inr r"
  by (simp add: parity_reference_def run_parity_def parity_reference_part_def parity_cache_record_def parity_cache_def parity_parts sha_field_def)

lemma run_parity_native: "\<exists>native model binary. parity_native run_parity run_identity None = Inr (native, model, binary)
    \<and> parity_native_part = JObj native"
  by (simp add: parity_native_def run_parity_def parity_native_part_def parity_parts)

lemma run_evidence: "evidence_cache (run_world g) (u ''/dc'') = Inr (replicate 2 [0, 0, 128, 63], run_meta ''/dc'' 2 4)"
  using run_cache_read [of 2 4 g "''/dc''"] by (simp add: evidence_cache_def rethrow_def)

lemma run_parity_fixture:
  assumes "jget coverage ''total_rows'' = JInt 2" and "parity_native_part = JObj native"
  shows "\<exists>pairs rc nc. parity_fixture (run_world g) run_parity coverage native run_identity
      = Inr ([JObj (jobj [(''kind'', JStr (u ''query''))]), JObj (jobj [(''kind'', JStr (u ''document''))])], pairs, rc, nc)
    \<and> length pairs = 2 \<and> jget rc ''sha256'' = JStr zero_sha \<and> jget nc ''sha256'' = JStr zero_sha"
proof -
  have source: "verify (run_tools g) (ce_disk (run_world g)) fv (recorded_file ''/d'' 4 x) = Inr (remember fv ''/d'' 4, u ''/d'')" for fv x by simp
  have cache: "verify (run_tools g) (ce_disk (run_world g)) fv (recorded_cache ''/dc'' 2 4) = Inr (remember fv ''/dc'' 73, u ''/dc'')" for fv by simp
  obtain s where s: "recorded_file ''/d'' 4 [(''nonempty_lines'', JInt 2)] = JObj s" by (simp add: recorded_file_def)
  obtain c where c: "recorded_cache ''/dc'' 2 4 = JObj c" "jget c ''sha256'' = JStr zero_sha"
    by (simp add: recorded_cache_def recorded_file_def)
  have m: "evidence_meta (run_meta ''/dc'' 2 4) (Suc (Suc 0)) run_identity = Inr ()" by (simp add: evidence_meta_def run_meta_def)
  have b: "bound_to_source (run_world g) (run_meta ''/dc'' 2 4) (u ''/d'') = Inr ()"
    by (simp add: bound_to_source_def run_meta_def size_of_def digest_of_def run_digests)
  have "native = jobj [(''model'', sealed_by []), (''binary'', sealed_by []), (''cache'', JObj c)]"
    using assms(2) by (simp add: parity_native_part_def c(1))
  moreover have "jget run_parity ''fixture'' = JObj (jobj [(''rows'', parity_rows), (''source'', JObj s), (''reference_cache'', JObj c)])"
    by (simp add: run_parity_def parity_fixture_part_def s c(1))
  ultimately show ?thesis
    using assms(1) source [of _ "[(''nonempty_lines'', JInt 2)]", unfolded s] cache [unfolded c(1)] c(2)
    by (simp add: parity_fixture_def parity_vectors_def sub_def mapping_def parity_rows_def sequence_def run_evidence m b)
qed

lemma run_fixture_kinds:
  "fixture_kinds [JObj (jobj [(''kind'', JStr (u ''query''))]), JObj (jobj [(''kind'', JStr (u ''document''))])] = Inr [u ''query'', u ''document'']"
  by (simp add: fixture_kinds_def mapping_def nonempty_string_def u_def)

lemma agrees_Fin [simp]: "agrees (Fin x) (Fin x)"
  by (simp add: agrees_def isclose_refl)

lemma rnd64_one [simp]: "rnd64 1 = Fin 1"
  using rnd64_dyadic [of 1 0] by (simp add: pow2_def)

lemma run_similarities:
  assumes "length pairs = 2"
  shows "check_similarities (run_tools g) unit_vectors run_gate (Fin 1) (jobj [parity_kind ''query'', parity_kind ''document''])
     [u ''query'', u ''document''] run_identity 1 pairs = Inr ()"
proof -
  obtain a b where pairs: "pairs = [a, b]" using assms by (auto simp: length_Suc_conv numeral_2_eq_2)
  have d: "u ''query'' \<noteq> u ''document''" by (simp add: u_def)
  have mean: "tl_mean (run_tools g) [Fin 1, Fin 1] = Fin 1" by (simp add: run_tools_def point_tools_def)
  have "check_kind_metrics unit_vectors (jobj [parity_kind ''query'', parity_kind ''document'']) [u ''query'', u ''document''] [a, b] kind = Inr ()"
    if "kind \<in> {''query'', ''document''}" for kind
    using that d by (auto simp: check_kind_metrics_def rows_of_kind_def parity_kind_def parity_parts fl_min_def fl_max_def Let_def)
  then show ?thesis
    using d by (simp add: check_similarities_def pairs run_gate_def parity_metrics_def fl_min_def fl_max_def check_kind_counts_def mean list_ex_iff Let_def insert_commute)
qed

lemma item_jobj [simp]: "item (jobj kvs) (u k) = (case map_of kvs k of None \<Rightarrow> JNull | Some v \<Rightarrow> v)"
  by (simp add: item_def)

lemma run_beside [simp]: "beside (ce_disk (run_world g)) report (u (CHR ''/'' # p)) = u (CHR ''/'' # p)"
  by (simp add: beside_def is_absolute_def startswith_code u_def)

lemma run_derived:
  assumes "parity_described = JObj rd"
  shows "\<exists>d. validate_dataset_derivation (run_world g) (u ''/p'') (u ''t'') rd run_identity = Inr d"
proof -
  have rd: "rd = (case parity_described of JObj m \<Rightarrow> m | _ \<Rightarrow> [])" by (simp add: assms)
  have v: "jget run_derivation ''schema_version'' = JInt 1" by (simp add: run_derivation_def)
  have m: "derivation_manifest (run_world g) (u ''/p'') rd
      = Inr (jobj [(''sha256'', JStr zero_sha), (''path'', JStr (u ''/dm'')), (''maximum_prepared_document_bytes'', JInt 9),
          (''tier_truncation'', parity_truncation)], u ''/dm'', zero_sha, run_derivation)"
    by (simp add: derivation_manifest_def rd parity_described_def parity_parts nonempty_string_def sha_field_def digest_of_def run_digests run_loads v Let_def)
  have t: "derivation_tier (jobj [(''sha256'', JStr zero_sha), (''path'', JStr (u ''/dm'')), (''maximum_prepared_document_bytes'', JInt 9),
          (''tier_truncation'', parity_truncation)]) run_derivation (u ''t'') run_identity = Inr \<lparr>tf_maximum = 9, tf_documents = 1, tf_bytes = 1\<rparr>"
  proof -
    have "number (JInt 0) = Inr (Fin 0)" by (simp add: number_def is_number_def fl_of_int_def fl_isfinite_def)
    moreover have "py_eq parity_truncation parity_truncation" by (rule py_eq_refl) (simp_all add: parity_truncation_def jobj_def)
    ultimately show ?thesis
      by (simp add: derivation_tier_def run_derivation_def derived_tier_def parity_parts parity_truncation_def)
  qed
  have q: "derivation_queries run_derivation run_identity = Inr 1"
    by (simp add: derivation_queries_def run_derivation_def parity_parts)
  have f: "\<exists>ids. derivation_files (run_world g) (u ''/p'') rd run_derivation (u ''t'') run_identity = Inr ids"
    by (simp add: derivation_files_def derivation_ids_def run_derivation_def rd parity_described_def parity_parts nonempty_string_def
        digest_of_def run_digests Let_def)
  have s: "\<exists>x. derivation_selection run_derivation = Inr x"
    by (simp add: derivation_selection_def run_derivation_def parity_parts nonempty_string_def)
  have c: "derivation_coverage run_derivation (u ''t'') = Inr 1"
    by (simp add: derivation_coverage_def run_derivation_def derived_coverage_def coverage_key_def parity_parts number_1 close_refl Let_def)
  have i: "derivation_invariants run_derivation = Inr ()" by (simp add: derivation_invariants_def run_derivation_def parity_parts)
  have n: "\<exists>x. derivation_normalization run_derivation 9 = Inr x"
    by (simp add: derivation_normalization_def run_derivation_def derived_normalization_def parity_parts)
  have a: "\<exists>x. derivation_archive run_derivation rd = Inr x"
    by (simp add: derivation_archive_def run_derivation_def rd parity_described_def parity_parts)
  have z: "size_of (run_world g) (u ''/dm'') = Inr 1" by (simp add: size_of_def)
  from f s n a show ?thesis unfolding validate_dataset_derivation_def m and_then_simps case_prod_conv t q c i z
    by (elim exE) (simp add: c i)
qed

lemma run_parity_accepted:
  "\<exists>py. validate_parity_report (run_world g) unit_vectors (u ''t'') (u ''/p'') run_identity (Fin 1) None = Inr py
    \<and> py_path py = u ''/p'' \<and> py_sha py = zero_sha \<and> py_input_hash py = JStr zero_sha \<and> py_metrics py = ph_metrics run_gate
    \<and> py_acceptance py = ph_acceptance run_gate \<and> jget (py_bindings py) ''native_binary_sha256'' = JStr zero_sha"
proof -
  have l: "and_then (collector_load (run_tools g) (ce_disk (run_world g)) (u ''/p'')) mapping = Inr run_parity" by (simp add: run_loads mapping_def)
  from run_parity_dataset obtain rd where rd: "parity_dataset run_parity (u ''t'') run_identity = Inr rd" "parity_described = JObj rd" by blast
  from run_parity_coverage obtain coverage where c: "parity_coverage run_parity (ph_metrics run_gate) run_identity
     = Inr (coverage, 1, jobj [parity_kind ''query'', parity_kind ''document''])" "jget coverage ''total_rows'' = JInt 2" by blast
  from run_parity_reference obtain r where r: "parity_reference run_parity run_identity = Inr r" by blast
  from run_parity_native obtain native model binary where n: "parity_native run_parity run_identity None = Inr (native, model, binary)"
    "parity_native_part = JObj native" by blast
  have b: "jget binary ''sha256'' = JStr zero_sha"
    using n(1) by (auto simp: parity_native_def run_parity_def parity_native_part_def parity_parts)
  from run_parity_fixture [OF c(2) n(2), of g] obtain pairs rc nc where
    f: "parity_fixture (run_world g) run_parity coverage native run_identity
      = Inr ([JObj (jobj [(''kind'', JStr (u ''query''))]), JObj (jobj [(''kind'', JStr (u ''document''))])], pairs, rc, nc)"
    and p: "length pairs = 2" and h: "jget rc ''sha256'' = JStr zero_sha" "jget nc ''sha256'' = JStr zero_sha"
    by auto
  have "parity_proofs run_parity rd nc rc = Inr ()"
    using rd(2) h by (auto simp: parity_proofs_def check_digests_def parity_described_def parity_parts sha_field_def run_parity_def)
  moreover obtain d where "validate_dataset_derivation (run_world g) (u ''/p'') (u ''t'') rd run_identity = Inr d"
    using run_derived [OF rd(2)] by blast
  ultimately show ?thesis
    unfolding validate_parity_report_def Let_def run_world_simps l and_then_simps run_parity_gate rd(1) c(1) case_prod_conv r n(1) f
      run_fixture_kinds run_similarities [OF p]
    by (simp add: size_of_def digest_of_def run_digests parity_bindings_def b) (simp add: run_parity_def)
qed


end
