(* ===== verification/Attest.thy ===== *)
theory Attest
  imports ParityReport
begin

text \<open>
  \<open>_validate_endpoint_attestation\<close> of \<open>collect_large_scale_results.py\<close>: a finalized attestation of the embedding endpoint,
  the live capture on the disk it was finalized from, and everything both record of the source, the model, the
  checkpoint, the server process and the parity report. One definition per part, in the order of the code. The lemmas
  show that an accepted attestation is sealed by its hash, equals the capture on the disk, and speaks of the same
  source, model and parity report as the rest of the evidence.
\<close>

definition attestation_schema :: pystr where "attestation_schema = u ''leann-embedding-endpoint-attestation-v1''"

text \<open>The hash that an attestation carries is the hash of its evidence.\<close>

definition sealed :: "tools \<Rightarrow> jobj \<Rightarrow> jobj \<Rightarrow> bool res" where
  "sealed t report evidence =
     and_then (collector_hash t (JObj evidence)) (\<lambda>hash. Inr (field_is report ''attestation_id'' (JStr hash)))"

definition finalized_evidence :: "collector_env \<Rightarrow> pystr \<Rightarrow> (jobj \<times> jobj) res" where
  "finalized_evidence env path =
     (let e = CollectionError ''endpoint attestation is not finalized'' in
      and_then (and_then (collector_load (ce_tools env) (ce_disk env) path) mapping) (\<lambda>report.
      and_then (require (field_is report ''schema'' (JStr attestation_schema) \<and> field_is report ''phase'' (JStr (u ''finalized''))) e) (\<lambda>_.
      and_then (sub report ''post_run_native_parity'') (\<lambda>post_run.
      and_then (require (field_is post_run ''status'' (JStr (u ''verified''))) e) (\<lambda>_.
      and_then (sub report ''evidence'') (\<lambda>evidence.
      and_then (sealed (ce_tools env) report evidence) (\<lambda>ok.
      and_then (require ok (CollectionError ''endpoint attestation ID differs'')) (\<lambda>_.
      Inr (report, evidence)))))))))"

text \<open>The live capture: its file, its evidence, its seal and the record of it in the finalized attestation.\<close>

record live_capture =
  lc_path :: pystr
  lc_record :: jobj
  lc_report :: jobj
  lc_evidence :: jobj

definition captured :: "collector_env \<Rightarrow> verifier \<Rightarrow> jobj \<Rightarrow> (verifier \<times> live_capture) res" where
  "captured env fv evidence =
     (let t = ce_tools env; d = ce_disk env; e = CollectionError ''live capture attestation ID differs'' in
      and_then (sub evidence ''live_capture'') (\<lambda>live.
      and_then (verify t d fv (jget live ''artifact'')) (\<lambda>(fv, raw_path).
      let path = fs_resolve d raw_path in
      and_then (and_then (collector_load t d path) mapping) (\<lambda>capture.
      and_then (sub live ''report'') (\<lambda>embedded.
      and_then (require (py_eq (JObj capture) (JObj embedded)) (CollectionError ''embedded live capture differs from its immutable artifact'')) (\<lambda>_.
      and_then (require (field_is capture ''schema'' (JStr attestation_schema) \<and> field_is capture ''phase'' (JStr (u ''live-capture'')))
         (CollectionError ''live capture schema/phase differs'')) (\<lambda>_.
      and_then (sub capture ''evidence'') (\<lambda>capture_evidence.
      and_then (sealed t capture capture_evidence) (\<lambda>ok.
      and_then (require (ok \<and> field_is live ''attestation_id'' (jget capture ''attestation_id'')) e) (\<lambda>_.
      Inr (fv, \<lparr>lc_path = path, lc_record = live, lc_report = capture, lc_evidence = capture_evidence\<rparr>)))))))))))"

subsection \<open>The binding\<close>

definition captured_binding :: "jobj \<Rightarrow> jobj res" where
  "captured_binding capture_evidence =
     and_then (sub capture_evidence ''required_post_run_native_parity'') (\<lambda>binding.
     and_then (sub capture_evidence ''source'') (\<lambda>source.
     and_then (sub binding ''source'') (\<lambda>bound_source.
     and_then (require (py_eq (JObj source) (JObj bound_source) \<and> holds capture_evidence ''source_unchanged''
          \<and> holds capture_evidence ''model_artifact_unchanged'') (CollectionError ''live capture source/model stability proof differs'')) (\<lambda>_.
     Inr binding))))"

text \<open>The binding of a tier that was embedded as the prefix of the captured one.\<close>

definition prefix_binding :: "pystr \<Rightarrow> jobj \<Rightarrow> jobj \<Rightarrow> jobj res" where
  "prefix_binding tier capture_evidence binding =
     and_then (sub capture_evidence ''prefix_seed'') (\<lambda>seed.
     and_then (sub seed ''source'') (\<lambda>source.
     and_then (sub seed ''cache'') (\<lambda>cache.
     and_then (sub seed ''cache_metadata'') (\<lambda>metadata.
     Inr (jobj
       [(''tier'', JStr tier), (''expected_source_count'', jget seed ''rows''), (''source'', JObj source),
        (''model_descriptor_sha256'', jget binding ''model_descriptor_sha256''),
        (''model_artifact_sha256'', jget binding ''model_artifact_sha256''), (''fingerprint'', jget metadata ''fingerprint''),
        (''dimension'', jget metadata ''dimensions''), (''checkpoint_input_hash'', jget binding ''checkpoint_input_hash''),
        (''scope'', JStr (u ''prefix-seed'')), (''parent_tier'', jget binding ''tier''),
        (''prefix_cache_sha256'', jget cache ''sha256'')])))))"

definition prefix_scope :: "jobj \<Rightarrow> bool" where
  "prefix_scope binding = field_is binding ''scope'' (JStr (u ''prefix-seed''))"

definition final_binding :: "pystr \<Rightarrow> jobj \<Rightarrow> jobj \<Rightarrow> jobj res" where
  "final_binding tier evidence capture_evidence =
     and_then (sub evidence ''binding'') (\<lambda>binding.
     and_then (captured_binding capture_evidence) (\<lambda>at_capture.
     if py_eq (JObj binding) (JObj at_capture) then Inr binding
     else and_then (require (prefix_scope binding) (CollectionError ''finalized binding differs from the live capture'')) (\<lambda>_.
       and_then (prefix_binding tier capture_evidence at_capture) (\<lambda>expected.
       and_then (require (py_eq (JObj binding) (JObj expected)) (CollectionError ''finalized prefix binding differs from the live capture prefix seed'')) (\<lambda>_.
       Inr binding)))))"

definition check_binding :: "collector_env \<Rightarrow> verifier \<Rightarrow> pystr \<Rightarrow> jobj \<Rightarrow> dataset_record \<Rightarrow> verifier res" where
  "check_binding env fv tier binding dr =
     (let ds = dr_identity dr in
      and_then (require (field_is binding ''tier'' (JStr tier)) (CollectionError ''endpoint attestation tier differs'')) (\<lambda>_.
      and_then (sub binding ''source'') (\<lambda>source.
      and_then (verify (ce_tools env) (ce_disk env) fv (JObj source)) (\<lambda>(fv, source_path).
      and_then (json_path (dr_documents_path dr)) (\<lambda>documents.
      and_then (require (fs_resolve (ce_disk env) source_path = fs_resolve (ce_disk env) documents
           \<and> field_is source ''sha256'' (JStr (ds_documents_sha ds)) \<and> field_is source ''size_bytes'' (JInt (dr_raw_bytes dr))
           \<and> field_is source ''nonempty_lines'' (JInt (ds_corpus_count ds))
           \<and> field_is binding ''expected_source_count'' (JInt (ds_corpus_count ds))) (CollectionError ''endpoint attestation source differs'')) (\<lambda>_.
      and_then (require (field_is binding ''model_descriptor_sha256'' (JStr (ds_model_sha ds))
           \<and> field_is binding ''model_artifact_sha256'' (JStr (ds_model_artifact_sha ds))
           \<and> field_is binding ''fingerprint'' (JStr (ds_fingerprint ds)) \<and> field_is binding ''dimension'' (JInt (ds_dimensions ds)))
         (CollectionError ''endpoint attestation field differs'')) (\<lambda>_.
      Inr fv)))))))"

subsection \<open>The model, the endpoint, the checkpoint and the process\<close>

definition check_model :: "collector_env \<Rightarrow> verifier \<Rightarrow> jobj \<Rightarrow> dataset \<Rightarrow> (verifier \<times> pystr) res" where
  "check_model env fv capture_evidence ds =
     (let t = ce_tools env; d = ce_disk env; e = CollectionError ''captured model artifact differs'' in
      and_then (sub capture_evidence ''model_artifact'') (\<lambda>artifact.
      and_then (verify t d fv (JObj artifact)) (\<lambda>(fv, raw_path).
      and_then (sub capture_evidence ''model_artifact_after'') (\<lambda>after.
      and_then (verify t d fv (JObj after)) (\<lambda>(fv, _).
      and_then (require (field_is artifact ''sha256'' (JStr (ds_model_artifact_sha ds)) \<and> field_is after ''sha256'' (jget artifact ''sha256'')) e) (\<lambda>_.
      and_then (nonempty_string (jget artifact ''path'')) (\<lambda>path.
      and_then (require (fs_resolve d raw_path = fs_resolve d path) e) (\<lambda>_.
      Inr (fv, fs_resolve d raw_path)))))))))"

definition check_health :: "jobj \<Rightarrow> string \<Rightarrow> unit res" where
  "check_health endpoint key =
     (let e = CollectionError ''captured endpoint health was not healthy'' in
      and_then (sub endpoint key) (\<lambda>health.
      and_then (require (field_is health ''status'' (JInt 200)) e) (\<lambda>_.
      and_then (sub health ''payload'') (\<lambda>payload.
      require (field_is payload ''status'' (JStr (u ''ok''))) e))))"

definition check_endpoint :: "collector_env \<Rightarrow> jobj \<Rightarrow> pystr \<Rightarrow> (jobj \<times> jobj) res" where
  "check_endpoint env capture_evidence model =
     (let e = CollectionError ''endpoint props identity differs'' in
      and_then (sub capture_evidence ''endpoint'') (\<lambda>endpoint.
      and_then (check_health endpoint ''health_before'') (\<lambda>_.
      and_then (check_health endpoint ''health_after'') (\<lambda>_.
      and_then (sub endpoint ''props_identity'') (\<lambda>props.
      and_then (require (field_is props ''build_info'' (jget capture_evidence ''expected_build_info'')) e) (\<lambda>_.
      and_then (nonempty_string (jget props ''model_path'')) (\<lambda>path.
      and_then (require (fs_resolve (ce_disk env) path = model) e) (\<lambda>_.
      Inr (endpoint, props)))))))))"

definition checkpoint_prefix_agrees :: "jobj \<Rightarrow> jobj \<Rightarrow> dataset_record \<Rightarrow> bool res" where
  "checkpoint_prefix_agrees fixed binding dr =
     (let ds = dr_identity dr in
      and_then (sub fixed ''prefix_seed'') (\<lambda>seed.
      Inr (field_is seed ''cache_sha256'' (jget binding ''prefix_cache_sha256'') \<and> field_is seed ''rows'' (JInt (ds_corpus_count ds))
        \<and> field_is seed ''source_prefix_sha256'' (JStr (ds_documents_sha ds))
        \<and> field_is seed ''source_prefix_size_bytes'' (JInt (dr_raw_bytes dr)))))"

definition check_checkpoint :: "jobj \<Rightarrow> jobj \<Rightarrow> jobj \<Rightarrow> dataset_record \<Rightarrow> unit res" where
  "check_checkpoint capture_evidence endpoint binding dr =
     (let ds = dr_identity dr in
      and_then (sub capture_evidence ''checkpoint'') (\<lambda>checkpoint.
      and_then (sub checkpoint ''stable_identity'') (\<lambda>fixed.
      and_then (sub fixed ''model'') (\<lambda>model.
      and_then (sub fixed ''source'') (\<lambda>source.
      and_then (if prefix_scope binding then checkpoint_prefix_agrees fixed binding dr
                else Inr (field_is source ''sha256'' (JStr (ds_documents_sha ds)))) (\<lambda>same_source.
      require (field_is fixed ''fingerprint'' (JStr (ds_fingerprint ds)) \<and> field_is fixed ''dimension'' (JInt (ds_dimensions ds))
          \<and> field_is model ''sha256'' (JStr (ds_model_sha ds))
          \<and> field_is fixed ''embedding_endpoint'' (jget endpoint ''embedding_url'') \<and> same_source)
        (CollectionError ''captured checkpoint identity differs'')))))))"

definition check_process_record :: "collector_env \<Rightarrow> pystr \<Rightarrow> verifier \<Rightarrow> jobj \<Rightarrow> verifier res" where
  "check_process_record env model fv r =
     and_then (collector_hash (ce_tools env) (JObj (filter (\<lambda>kv. fst kv \<noteq> u ''identity_sha256'') r))) (\<lambda>hash.
     and_then (require (field_is r ''identity_sha256'' (JStr hash)) (CollectionError ''process identity hash differs'')) (\<lambda>_.
     and_then (sub r ''executable'') (\<lambda>executable.
     and_then (verify (ce_tools env) (ce_disk env) fv (JObj executable)) (\<lambda>(fv, _).
     and_then (nonempty_string (jget r ''command_model_path'')) (\<lambda>path.
     and_then (require (fs_resolve (ce_disk env) path = model) (CollectionError ''process model argument differs from the captured GGUF'')) (\<lambda>_.
     Inr fv))))))"

definition check_process :: "collector_env \<Rightarrow> verifier \<Rightarrow> jobj \<Rightarrow> pystr \<Rightarrow> (verifier \<times> jobj) res" where
  "check_process env fv capture_evidence model =
     and_then (sub capture_evidence ''process_proof'') (\<lambda>proof_record.
     and_then (sub proof_record ''before'') (\<lambda>before.
     and_then (sub proof_record ''after'') (\<lambda>after.
     and_then (require (field_is proof_record ''status'' (JStr (u ''verified'')) \<and> holds proof_record ''required''
          \<and> holds proof_record ''unchanged'' \<and> holds proof_record ''server_started_before_checkpoint''
          \<and> field_is before ''identity_sha256'' (jget after ''identity_sha256''))
        (CollectionError ''live server process proof is not verified'')) (\<lambda>_.
     and_then (fold_res (check_process_record env model) fv [before, after]) (\<lambda>fv.
     Inr (fv, before))))))"

subsection \<open>The parity report and the result\<close>

definition check_native_parity :: "collector_env \<Rightarrow> verifier \<Rightarrow> jobj \<Rightarrow> dataset \<Rightarrow> parity \<Rightarrow> (verifier \<times> jobj) res" where
  "check_native_parity env fv evidence ds py =
     (let d = ce_disk env; e = CollectionError ''finalized endpoint attestation differs from validated parity'' in
      and_then (sub evidence ''native_parity'') (\<lambda>native.
      and_then (sub native ''artifact'') (\<lambda>artifact.
      and_then (verify (ce_tools env) d fv (JObj artifact)) (\<lambda>(fv, raw_path).
      and_then (require (fs_resolve d raw_path = fs_resolve d (py_path py) \<and> field_is artifact ''sha256'' (JStr (py_sha py))
           \<and> field_is native ''input_hash'' (py_input_hash py)
           \<and> field_is native ''minimum_cosine_similarity'' (jget (py_metrics py) ''minimum_cosine_similarity'')
           \<and> field_is native ''required_minimum_cosine_similarity'' (jget (py_acceptance py) ''minimum_cosine_similarity'')) e) (\<lambda>_.
      and_then (sub native ''native_model'') (\<lambda>model.
      and_then (require (field_is model ''sha256'' (JStr (ds_model_artifact_sha ds))
           \<and> field_is native ''corpus_cache_sha256'' (JStr (ds_corpus_cache_sha ds))) e) (\<lambda>_.
      and_then (sub native ''native_binary'') (\<lambda>binary.
      and_then (require (field_is binary ''sha256'' (jget (py_bindings py) ''native_binary_sha256''))
         (CollectionError ''endpoint attestation native binary differs from parity'')) (\<lambda>_.
      Inr (fv, binary))))))))))"

record attestation =
  at_tier :: pystr
  at_path :: pystr
  at_size :: int
  at_sha :: pystr
  at_id :: json
  at_capture_path :: pystr
  at_capture_sha :: json
  at_capture_id :: json
  at_bindings :: jobj
  at_process :: jobj

definition attestation_bindings :: "dataset \<Rightarrow> parity \<Rightarrow> jobj \<Rightarrow> jobj \<Rightarrow> jobj \<Rightarrow> jobj" where
  "attestation_bindings ds py binary props executable = jobj
     [(''documents_sha256'', JStr (ds_documents_sha ds)), (''model_sha256'', JStr (ds_model_sha ds)),
      (''model_artifact_sha256'', JStr (ds_model_artifact_sha ds)), (''fingerprint'', JStr (ds_fingerprint ds)),
      (''dimensions'', JInt (ds_dimensions ds)), (''corpus_cache_sha256'', JStr (ds_corpus_cache_sha ds)),
      (''parity_sha256'', JStr (py_sha py)), (''native_binary_sha256'', jget binary ''sha256''),
      (''server_build_info'', jget props ''build_info''), (''server_executable_sha256'', jget executable ''sha256'')]"

definition validate_endpoint_attestation ::
  "collector_env \<Rightarrow> verifier \<Rightarrow> pystr \<Rightarrow> pystr \<Rightarrow> dataset_record \<Rightarrow> parity \<Rightarrow> (verifier \<times> attestation) res" where
  "validate_endpoint_attestation env fv tier raw_path dr py =
     (let path = fs_resolve (ce_disk env) raw_path; ds = dr_identity dr in
      and_then (finalized_evidence env path) (\<lambda>(report, evidence).
      and_then (captured env fv evidence) (\<lambda>(fv, lc).
      and_then (final_binding tier evidence (lc_evidence lc)) (\<lambda>binding.
      and_then (check_binding env fv tier binding dr) (\<lambda>fv.
      and_then (check_model env fv (lc_evidence lc) ds) (\<lambda>(fv, model).
      and_then (check_endpoint env (lc_evidence lc) model) (\<lambda>(endpoint, props).
      and_then (check_checkpoint (lc_evidence lc) endpoint binding dr) (\<lambda>_.
      and_then (check_process env fv (lc_evidence lc) model) (\<lambda>(fv, before).
      and_then (check_native_parity env fv evidence ds py) (\<lambda>(fv, binary).
      and_then (size_of env path) (\<lambda>n.
      and_then (digest_of env path) (\<lambda>sha.
      and_then (sub (lc_record lc) ''artifact'') (\<lambda>artifact.
      and_then (sub before ''executable'') (\<lambda>executable.
      Inr (fv, \<lparr>at_tier = tier, at_path = path, at_size = n, at_sha = sha, at_id = jget report ''attestation_id'',
        at_capture_path = lc_path lc, at_capture_sha = jget artifact ''sha256'', at_capture_id = jget (lc_report lc) ''attestation_id'',
        at_bindings = attestation_bindings ds py binary props executable,
        at_process = jobj [(''status'', JStr (u ''verified'')), (''provider'', jget before ''provider''),
          (''pid'', jget before ''pid''), (''identity_sha256'', jget before ''identity_sha256'')]\<rparr>)))))))))))))))"


subsection \<open>What an accepted attestation says\<close>

text \<open>A document on the disk that carries the hash of its own evidence.\<close>

definition sealed_document :: "collector_env \<Rightarrow> pystr \<Rightarrow> jobj \<Rightarrow> jobj \<Rightarrow> bool" where
  "sealed_document env path document evidence \<longleftrightarrow>
     collector_load (ce_tools env) (ce_disk env) path = Inr (JObj document) \<and> jget document ''evidence'' = JObj evidence
     \<and> (\<exists>hash. collector_hash (ce_tools env) (JObj evidence) = Inr hash \<and> jget document ''attestation_id'' = JStr hash)"

text \<open>A snapshot of the disk that names this file with this digest.\<close>

definition names_file :: "collector_env \<Rightarrow> jobj \<Rightarrow> pystr \<Rightarrow> pystr \<Rightarrow> bool" where
  "names_file env r path digest \<longleftrightarrow>
     snapshot_matches (ce_tools env) (ce_disk env) (JObj r) \<and> jget r ''sha256'' = JStr digest
     \<and> (\<exists>raw. jget r ''path'' = JStr raw \<and> fs_resolve (ce_disk env) raw = fs_resolve (ce_disk env) path)"

lemma finalized_ok:
  assumes "finalized_evidence env path = Inr (report, evidence)"
  shows "sealed_document env path report evidence" and "jget report ''phase'' = JStr (u ''finalized'')"
  using assms by (auto simp: finalized_evidence_def sealed_document_def sealed_def field_is_def py_eq_str ok_simps Let_def)

lemma captured_verified:
  assumes "captured env fv evidence = Inr (fv', lc)" and "verifier_ok (ce_tools env) (ce_disk env) fv"
  shows "verifier_ok (ce_tools env) (ce_disk env) fv'" and "sealed_document env (lc_path lc) (lc_report lc) (lc_evidence lc)"
    and "jget evidence ''live_capture'' = JObj (lc_record lc)"
    and "snapshot_matches (ce_tools env) (ce_disk env) (jget (lc_record lc) ''artifact'')"
proof -
  obtain live raw_path capture capture_evidence where l: "sub evidence ''live_capture'' = Inr live"
    and v: "verify (ce_tools env) (ce_disk env) fv (jget live ''artifact'') = Inr (fv', raw_path)"
    and c: "and_then (collector_load (ce_tools env) (ce_disk env) (fs_resolve (ce_disk env) raw_path)) mapping = Inr capture"
    and e: "sub capture ''evidence'' = Inr capture_evidence" and h: "sealed (ce_tools env) capture capture_evidence = Inr True"
    and lc: "lc = \<lparr>lc_path = fs_resolve (ce_disk env) raw_path, lc_record = live, lc_report = capture, lc_evidence = capture_evidence\<rparr>"
    using assms(1) by (auto simp: captured_def ok_simps Let_def split: prod.splits)
  from verify_sound(1,2) [OF v assms(2)] show "verifier_ok (ce_tools env) (ce_disk env) fv'"
    "snapshot_matches (ce_tools env) (ce_disk env) (jget (lc_record lc) ''artifact'')" by (simp_all add: lc)
  show "sealed_document env (lc_path lc) (lc_report lc) (lc_evidence lc)"
    using c e h by (auto simp: lc sealed_document_def sealed_def field_is_def py_eq_str ok_simps)
  show "jget evidence ''live_capture'' = JObj (lc_record lc)"
    using l by (auto simp: lc ok_simps)
qed

lemma check_binding_verified:
  assumes "check_binding env fv tier binding dr = Inr fv'" and "verifier_ok (ce_tools env) (ce_disk env) fv"
  shows "verifier_ok (ce_tools env) (ce_disk env) fv'"
    and "\<exists>source documents. jget binding ''source'' = JObj source \<and> dr_documents_path dr = JStr documents
      \<and> names_file env source documents (ds_documents_sha (dr_identity dr)) \<and> jget binding ''tier'' = JStr tier
      \<and> jget binding ''model_artifact_sha256'' = JStr (ds_model_artifact_sha (dr_identity dr))"
proof -
  obtain source p documents where b: "jget binding ''tier'' = JStr tier" "sub binding ''source'' = Inr source"
    "json_path (dr_documents_path dr) = Inr documents" "fs_resolve (ce_disk env) p = fs_resolve (ce_disk env) documents"
    "jget source ''sha256'' = JStr (ds_documents_sha (dr_identity dr))"
    "jget binding ''model_artifact_sha256'' = JStr (ds_model_artifact_sha (dr_identity dr))"
    and v: "verify (ce_tools env) (ce_disk env) fv (JObj source) = Inr (fv', p)"
    using assms(1) by (auto simp: check_binding_def ok_simps Let_def field_is_def py_eq_str split: prod.splits)
  from verify_sound(1) [OF v assms(2)] show "verifier_ok (ce_tools env) (ce_disk env) fv'" .
  have "jget binding ''source'' = JObj source" "dr_documents_path dr = JStr documents"
    using b(2,3) by (auto simp: json_path_def ok_simps split: json.splits)
  then show "\<exists>source documents. jget binding ''source'' = JObj source \<and> dr_documents_path dr = JStr documents
      \<and> names_file env source documents (ds_documents_sha (dr_identity dr)) \<and> jget binding ''tier'' = JStr tier
      \<and> jget binding ''model_artifact_sha256'' = JStr (ds_model_artifact_sha (dr_identity dr))"
    using b verify_sound(2) [OF v assms(2)] verify_path [OF v] by (auto simp: names_file_def)
qed

lemma check_model_verified:
  assumes "check_model env fv capture_evidence ds = Inr (fv', model)" and "verifier_ok (ce_tools env) (ce_disk env) fv"
  shows "verifier_ok (ce_tools env) (ce_disk env) fv'"
    and "\<exists>artifact raw. jget capture_evidence ''model_artifact'' = JObj artifact \<and> names_file env artifact raw (ds_model_artifact_sha ds)"
proof -
  obtain artifact after p q fv1 where b: "sub capture_evidence ''model_artifact'' = Inr artifact"
    "jget artifact ''sha256'' = JStr (ds_model_artifact_sha ds)"
    and v: "verify (ce_tools env) (ce_disk env) fv (JObj artifact) = Inr (fv1, p)"
    and w: "verify (ce_tools env) (ce_disk env) fv1 (JObj after) = Inr (fv', q)"
    using assms(1) by (auto simp: check_model_def ok_simps Let_def field_is_def py_eq_str split: prod.splits)
  from verify_sound(1) [OF v assms(2)] have o1: "verifier_ok (ce_tools env) (ce_disk env) fv1" .
  from verify_sound(1) [OF w o1] show "verifier_ok (ce_tools env) (ce_disk env) fv'" .
  show "\<exists>artifact raw. jget capture_evidence ''model_artifact'' = JObj artifact \<and> names_file env artifact raw (ds_model_artifact_sha ds)"
    using b verify_sound(2) [OF v assms(2)] verify_path [OF v] by (auto simp: names_file_def ok_simps)
qed

lemma check_process_verified:
  assumes "check_process env fv capture_evidence model = Inr (fv', before)" and "verifier_ok (ce_tools env) (ce_disk env) fv"
  shows "verifier_ok (ce_tools env) (ce_disk env) fv'"
proof -
  obtain x y where "fold_res (check_process_record env model) fv [x, y] = Inr fv'"
    using assms(1) by (auto simp: check_process_def ok_simps simp del: fold_res.simps)
  then show ?thesis using assms(2)
    by (rule fold_res_invariant) (auto simp: check_process_record_def ok_simps split: prod.splits dest: verify_sound(1))
qed

lemma check_native_parity_verified:
  assumes "check_native_parity env fv evidence ds py = Inr (fv', binary)" and "verifier_ok (ce_tools env) (ce_disk env) fv"
  shows "verifier_ok (ce_tools env) (ce_disk env) fv'"
    and "\<exists>native artifact. jget evidence ''native_parity'' = JObj native \<and> jget native ''artifact'' = JObj artifact
      \<and> names_file env artifact (py_path py) (py_sha py)"
proof -
  obtain native artifact p where b: "sub evidence ''native_parity'' = Inr native" "sub native ''artifact'' = Inr artifact"
    "fs_resolve (ce_disk env) p = fs_resolve (ce_disk env) (py_path py)" "jget artifact ''sha256'' = JStr (py_sha py)"
    and v: "verify (ce_tools env) (ce_disk env) fv (JObj artifact) = Inr (fv', p)"
    using assms(1) by (auto simp: check_native_parity_def ok_simps Let_def field_is_def py_eq_str split: prod.splits)
  from verify_sound(1) [OF v assms(2)] show "verifier_ok (ce_tools env) (ce_disk env) fv'" .
  show "\<exists>native artifact. jget evidence ''native_parity'' = JObj native \<and> jget native ''artifact'' = JObj artifact
      \<and> names_file env artifact (py_path py) (py_sha py)"
    using b verify_sound(2) [OF v assms(2)] verify_path [OF v] by (auto simp: names_file_def ok_simps)
qed



subsection \<open>A sample attestation\<close>

lemma sealed_run [simp]: "sealed (run_tools g) report evidence = Inr (field_is report ''attestation_id'' (JStr zero_sha))"
  by (simp add: sealed_def)

lemma run_finalized: "\<exists>evidence. finalized_evidence (run_world g) (u ''/a'') = Inr (run_attestation, evidence)
    \<and> jget run_attestation ''evidence'' = JObj evidence"
  by (simp add: finalized_evidence_def run_loads mapping_def sub_def Let_def)
    (simp add: run_attestation_def field_is_def attestation_schema_def)

lemma attested_plain: "py_eq attested_binding attested_binding" "py_eq attested_source attested_source" "py_eq (JObj run_capture) (JObj run_capture)"
  by (rule py_eq_refl; simp add: attested_binding_def attested_source_def recorded_file_def run_capture_def captured_evidence_def
      attested_endpoint_def healthy_def attested_checkpoint_def attested_process_def attested_moment_def sealed_by_def jobj_def)+

lemma run_captured:
  assumes "jget run_attestation ''evidence'' = JObj evidence"
  shows "\<exists>lc. captured (run_world g) fv evidence = Inr (remember fv ''/c'' 1, lc) \<and> lc_evidence lc = captured_evidence
    \<and> lc_path lc = u ''/c'' \<and> jget (lc_record lc) ''artifact'' = recorded_file ''/c'' 1 []"
proof -
  have e: "jget evidence ''live_capture'' = JObj (jobj [(''artifact'', recorded_file ''/c'' 1 []), (''report'', JObj run_capture),
      (''attestation_id'', JStr zero_sha)])"
    using assms by (auto simp: run_attestation_def)
  have c: "jget run_capture ''schema'' = JStr attestation_schema" "jget run_capture ''phase'' = JStr (u ''live-capture'')"
    "jget run_capture ''evidence'' = JObj captured_evidence" "jget run_capture ''attestation_id'' = JStr zero_sha"
    by (simp_all add: run_capture_def attestation_schema_def)
  show ?thesis
    using attested_plain(3) by (simp add: captured_def e sub_def mapping_def run_loads c field_is_def Let_def del: py_eq.simps(4))
qed

lemma run_final_binding:
  assumes "jget run_attestation ''evidence'' = JObj evidence"
  shows "\<exists>binding. final_binding tier evidence captured_evidence = Inr binding \<and> attested_binding = JObj binding"
proof -
  obtain b where b: "attested_binding = JObj b" by (simp add: attested_binding_def)
  obtain s where s: "attested_source = JObj s" by (simp add: attested_source_def recorded_file_def)
  have "jget b ''source'' = JObj s" using b s by (auto simp: attested_binding_def)
  moreover have "jget evidence ''binding'' = JObj b" using assms b by (auto simp: run_attestation_def)
  moreover have "jget captured_evidence ''required_post_run_native_parity'' = JObj b" "jget captured_evidence ''source'' = JObj s"
    "holds captured_evidence ''source_unchanged''" "holds captured_evidence ''model_artifact_unchanged''"
    by (simp_all add: captured_evidence_def b s holds_def)
  ultimately show ?thesis
    using attested_plain(1,2) by (simp add: final_binding_def captured_binding_def sub_def mapping_def b s del: py_eq.simps(4))
qed

lemma run_binding:
  assumes "attested_binding = JObj binding"
  shows "check_binding (run_world g) fv (u ''t'') binding run_dataset = Inr (remember fv ''/d'' 4)"
proof -
  obtain s where s: "attested_source = JObj s" "jget s ''sha256'' = JStr zero_sha" "jget s ''size_bytes'' = JInt 4" "jget s ''nonempty_lines'' = JInt 2"
    by (simp add: attested_source_def recorded_file_def)
  have v: "verify (run_tools g) (ce_disk (run_world g)) fv (JObj s) = Inr (remember fv ''/d'' 4, u ''/d'')"
    using verify_run(1) [of g fv] by (simp add: s(1) [symmetric] attested_source_def)
  have "dr_identity run_dataset = run_identity" "dr_documents_path run_dataset = JStr (u ''/d'')" "dr_raw_bytes run_dataset = 4"
    by (simp_all add: run_dataset_def)
  moreover have "binding = (case attested_binding of JObj m \<Rightarrow> m | _ \<Rightarrow> [])" by (simp add: assms)
  ultimately show ?thesis
    by (simp add: check_binding_def attested_binding_def s v sub_def mapping_def field_is_def json_path_def)
qed

lemma run_model: "check_model (run_world g) fv captured_evidence run_identity = Inr (remember (remember fv ''/x'' 1) ''/x'' 1, u ''/x'')"
proof -
  obtain x where x: "recorded_file ''/x'' 1 [] = JObj x" "jget x ''sha256'' = JStr zero_sha" "jget x ''path'' = JStr (u ''/x'')"
    by (simp add: recorded_file_def)
  have v: "verify (run_tools g) (ce_disk (run_world g)) fv (JObj x) = Inr (remember fv ''/x'' 1, u ''/x'')" for fv
    using verify_run(8) [of g fv "[]"] by (simp add: x(1) [symmetric])
  have "jget captured_evidence ''model_artifact'' = JObj x" "jget captured_evidence ''model_artifact_after'' = JObj x"
    by (simp_all add: captured_evidence_def x(1) [symmetric])
  then show ?thesis
    by (simp add: check_model_def sub_def mapping_def v field_is_def x nonempty_string_def)
qed

lemma run_endpoint: "\<exists>endpoint props. check_endpoint (run_world g) captured_evidence (u ''/x'') = Inr (endpoint, props)
    \<and> attested_endpoint = JObj endpoint"
  by (simp add: check_endpoint_def check_health_def captured_evidence_def attested_endpoint_def healthy_def sub_def mapping_def field_is_def
      nonempty_string_def)

lemma run_checkpoint:
  assumes "attested_endpoint = JObj endpoint" and "attested_binding = JObj binding"
  shows "check_checkpoint captured_evidence endpoint binding run_dataset = Inr ()"
proof -
  have "jget endpoint ''embedding_url'' = JStr (u ''e'')" using assms(1) by (auto simp: attested_endpoint_def)
  moreover have "\<not> prefix_scope binding" using assms(2) by (auto simp: attested_binding_def prefix_scope_def field_is_def)
  moreover have "dr_identity run_dataset = run_identity" by (simp add: run_dataset_def)
  ultimately show ?thesis
    by (simp add: check_checkpoint_def captured_evidence_def attested_checkpoint_def sealed_by_def sub_def mapping_def field_is_def)
qed

lemma run_process: "\<exists>fv' before. check_process (run_world g) fv captured_evidence (u ''/x'') = Inr (fv', before)
    \<and> jget before ''executable'' = recorded_file ''/x'' 1 []"
proof -
  obtain x where x: "recorded_file ''/x'' 1 [] = JObj x" by (simp add: recorded_file_def)
  have v: "verify (run_tools g) (ce_disk (run_world g)) fv (JObj x) = Inr (remember fv ''/x'' 1, u ''/x'')" for fv
    using verify_run(8) [of g fv "[]"] by (simp add: x [symmetric])
  have "check_process_record (run_world g) (u ''/x'') fv (jobj [(''identity_sha256'', JStr zero_sha), (''executable'', JObj x),
     (''command_model_path'', JStr (u ''/x''))]) = Inr (remember fv ''/x'' 1)" for fv
    by (simp add: check_process_record_def field_is_def sub_def mapping_def v nonempty_string_def)
  then show ?thesis
    by (simp add: check_process_def captured_evidence_def attested_process_def attested_moment_def x [unfolded One_nat_def] sub_def mapping_def field_is_def holds_def)
qed

lemma run_native_parity:
  assumes "jget run_attestation ''evidence'' = JObj evidence" and "py_path py = u ''/p''" "py_sha py = zero_sha" "py_input_hash py = JStr zero_sha"
    "py_metrics py = ph_metrics run_gate" "py_acceptance py = ph_acceptance run_gate" "jget (py_bindings py) ''native_binary_sha256'' = JStr zero_sha"
  shows "\<exists>fv' binary. check_native_parity (run_world g) fv evidence run_identity py = Inr (fv', binary)"
proof -
  obtain x where x: "recorded_file ''/p'' 1 [] = JObj x" "jget x ''sha256'' = JStr zero_sha" by (simp add: recorded_file_def)
  have v: "verify (run_tools g) (ce_disk (run_world g)) fv (JObj x) = Inr (remember fv ''/p'' 1, u ''/p'')" for fv
    using verify_run(6) [of g fv "[]"] by (simp add: x(1) [symmetric])
  have "jget evidence ''native_parity'' = JObj (jobj [(''artifact'', JObj x), (''input_hash'', JStr zero_sha),
             (''minimum_cosine_similarity'', JFloat (Fin 1)), (''required_minimum_cosine_similarity'', JFloat (Fin 1)),
             (''native_model'', sealed_by []), (''corpus_cache_sha256'', JStr zero_sha), (''native_binary'', sealed_by [])])"
    using assms(1) x(1) by (auto simp: run_attestation_def)
  then show ?thesis
    by (simp add: check_native_parity_def sub_def mapping_def v assms(2-) field_is_def x(2) run_gate_def parity_metrics_def sealed_by_def)
qed

text \<open>The parity report of the sample, and the attestation bound to it.\<close>

lemma run_attested:
  assumes "py_path py = u ''/p''" "py_sha py = zero_sha" "py_input_hash py = JStr zero_sha"
    "py_metrics py = ph_metrics run_gate" "py_acceptance py = ph_acceptance run_gate" "jget (py_bindings py) ''native_binary_sha256'' = JStr zero_sha"
  shows "\<exists>fv' a. validate_endpoint_attestation (run_world g) fv (u ''t'') (u ''/a'') run_dataset py = Inr (fv', a)"
proof -
  obtain evidence where f: "finalized_evidence (run_world g) (u ''/a'') = Inr (run_attestation, evidence)"
    and e: "jget run_attestation ''evidence'' = JObj evidence" using run_finalized by blast
  obtain fv1 lc where c: "captured (run_world g) fv evidence = Inr (fv1, lc)" "lc_evidence lc = captured_evidence"
    "jget (lc_record lc) ''artifact'' = recorded_file ''/c'' 1 []"
    using run_captured [OF e] by blast
  obtain binding where b: "final_binding (u ''t'') evidence captured_evidence = Inr binding" "attested_binding = JObj binding"
    using run_final_binding [OF e] by blast
  obtain endpoint props where p: "check_endpoint (run_world g) captured_evidence (u ''/x'') = Inr (endpoint, props)" "attested_endpoint = JObj endpoint"
    using run_endpoint by blast
  obtain fv2 before where r: "check_process (run_world g) (remember (remember (remember fv1 ''/d'' 4) ''/x'' 1) ''/x'' 1) captured_evidence (u ''/x'') = Inr (fv2, before)"
    "jget before ''executable'' = recorded_file ''/x'' 1 []" using run_process by blast
  obtain fv3 binary where n: "check_native_parity (run_world g) fv2 evidence run_identity py = Inr (fv3, binary)"
    using run_native_parity [OF e assms] by blast
  have i: "dr_identity run_dataset = run_identity" by (simp add: run_dataset_def)
  show ?thesis
    unfolding validate_endpoint_attestation_def Let_def run_world_simps f and_then_simps case_prod_conv c b(1) run_binding [OF b(2)] i run_model p(1)
      run_checkpoint [OF p(2) b(2)] r n sub_def mapping_recorded
    by (simp add: size_of_def digest_of_def run_digests)
qed


end
