(* ===== verification/Compare.thy ===== *)
theory Compare
  imports Aggregate
begin

text \<open>
  The end of \<open>collect_results\<close>: the matched comparison of native and official points (\<open>_matched_comparisons\<close>) and the
  completeness of the required matrix (\<open>_completeness\<close>). A point is named by its position in the list of points, as the
  code marks the selected points in place. The lemmas show that a selected pair is eligible and ranks first, and what a
  profile that is reported complete contains.
\<close>

subsection \<open>Counterparts\<close>

record match_config =
  mc_cutoff :: nat
  mc_minimum :: pyfloat
  mc_tolerance :: pyfloat

definition tier_points :: "point list \<Rightarrow> pystr \<Rightarrow> pystr \<Rightarrow> string \<Rightarrow> nat list" where
  "tier_points points tier system mode =
     filter (\<lambda>i. pt_tier (points ! i) = tier \<and> pt_system (points ! i) = system \<and> pt_mode (points ! i) = u mode)
       [0..<length points]"

definition same_config :: "point \<Rightarrow> point \<Rightarrow> bool" where
  "same_config p q \<longleftrightarrow> pt_value p = pt_value q \<and> pt_batch p = pt_batch q"

text \<open>\<open>cached_by_config.get(...)\<close>: the last cached point of a configuration counts.\<close>

definition counterpart :: "point list \<Rightarrow> pystr \<Rightarrow> point \<Rightarrow> nat option" where
  "counterpart points tier rp =
     (case filter (\<lambda>i. same_config (points ! i) rp) (tier_points points tier official_system ''cached'') of
        [] \<Rightarrow> None | is \<Rightarrow> Some (last is))"

definition candidate_float :: "point \<Rightarrow> pyfloat res" where
  "candidate_float p = (case pt_candidates p of None \<Rightarrow> Inl (TypeError ''float'') | Some f \<Rightarrow> Inr f)"

definition recall_differs :: "point \<Rightarrow> point \<Rightarrow> pystr \<Rightarrow> bool" where
  "recall_differs p q key =
     (case (map_of (pt_recalls p) key, map_of (pt_recalls q) key) of (Some a, Some b) \<Rightarrow> \<not> close a b | _ \<Rightarrow> False)"

definition counterpart_mismatches :: "point \<Rightarrow> point \<Rightarrow> pystr list res" where
  "counterpart_mismatches cached rp =
     and_then (candidate_float cached) (\<lambda>c. and_then (candidate_float rp) (\<lambda>r.
     Inr ((if pt_queries cached \<noteq> pt_queries rp then [u ''complete-query counts differ''] else [])
       @ (if pt_ids_sha cached \<noteq> pt_ids_sha rp then [u ''all-query result IDs differ''] else [])
       @ map (\<lambda>key. key @ u '' differs'') (filter (recall_differs cached rp)
            (sorted_set (filter (\<lambda>key. key \<in> fst ` set (pt_recalls rp)) (map fst (pt_recalls cached)))))
       @ (if \<not> close c r then [u ''candidate counts differ''] else []))))"

definition real_mismatches :: "point list \<Rightarrow> pystr \<Rightarrow> nat \<Rightarrow> pystr list res" where
  "real_mismatches points tier i =
     (case counterpart points tier (points ! i) of
        None \<Rightarrow> Inr [u ''configuration absent from cached sweep'']
      | Some j \<Rightarrow> counterpart_mismatches (points ! j) (points ! i))"

definition mismatch_issue :: "pystr \<Rightarrow> point \<Rightarrow> pystr list \<Rightarrow> issue" where
  "mismatch_issue tier rp mismatch =
     make_issue ''real-cached-counterpart-mismatch'' tier (u ''official-real'')
       (u ''complexity='' @ dec_int (pt_value rp) @ u '',batch_size='' @ dec_int (pt_batch rp) @ u '': ''
          @ py_join (u '', '') mismatch)"

definition verified_real :: "point list \<Rightarrow> pystr \<Rightarrow> (nat list \<times> issue list) res" where
  "verified_real points tier =
     and_then (map_res (\<lambda>i. and_then (real_mismatches points tier i) (\<lambda>ms. Inr (i, ms)))
       (tier_points points tier official_system ''real'')) (\<lambda>checked.
     Inr (map fst (filter (\<lambda>c. snd c = []) checked),
          map (\<lambda>c. mismatch_issue tier (points ! fst c) (snd c)) (filter (\<lambda>c. snd c \<noteq> []) checked)))"

subsection \<open>Candidates\<close>

text \<open>The order of floats, as the key a tuple is compared by.\<close>

definition fl_rank :: "pyfloat \<Rightarrow> int \<times> rat" where
  "fl_rank f = (case f of Fin r \<Rightarrow> (0, r) | NInf \<Rightarrow> (-1, 0) | PInf \<Rightarrow> (1, 0) | NaN \<Rightarrow> (2, 0))"

type_synonym rank = "(int \<times> rat) \<times> (int \<times> rat) \<times> (int \<times> rat) \<times> int \<times> int \<times> int"

definition point_recall :: "match_config \<Rightarrow> point \<Rightarrow> pyfloat option" where
  "point_recall cfg p =
     (case map_of (pt_recalls p) (recall_key (mc_cutoff cfg)) of
        None \<Rightarrow> None | Some f \<Rightarrow> if fl_isfinite f then Some f else None)"

definition candidate_number :: "point \<Rightarrow> pyfloat res" where
  "candidate_number p =
     (case pt_candidates p of None \<Rightarrow> Inl (CollectionError ''expected a finite number'')
      | Some f \<Rightarrow> if fl_isfinite f then Inr f else Inl (CollectionError ''expected a finite number''))"

definition recall_gap :: "pyfloat \<Rightarrow> pyfloat \<Rightarrow> pyfloat" where
  "recall_gap a b = fl_abs (fl_sub a b)"

definition eligible :: "match_config \<Rightarrow> pyfloat \<Rightarrow> pyfloat \<Rightarrow> bool" where
  "eligible cfg a b \<longleftrightarrow>
     \<not> fl_lt a (mc_minimum cfg) \<and> \<not> fl_lt b (mc_minimum cfg) \<and> \<not> fl_lt (mc_tolerance cfg) (recall_gap a b)"

definition pair_rank :: "match_config \<Rightarrow> point \<Rightarrow> point \<Rightarrow> rank option res" where
  "pair_rank cfg native rp =
     (case (point_recall cfg native, point_recall cfg rp) of
        (Some a, Some b) \<Rightarrow>
          if \<not> eligible cfg a b then Inr None
          else and_then (candidate_number native) (\<lambda>nc. and_then (candidate_number rp) (\<lambda>oc.
            Inr (Some (fl_rank (recall_gap a b), fl_rank (fl_add nc oc), fl_rank (fl_neg (if fl_lt b a then b else a)),
                 pt_value native, pt_value rp, pt_batch rp))))
      | _ \<Rightarrow> Inr None)"

record candidate =
  ca_rank :: rank
  ca_native :: nat
  ca_real :: nat

definition tier_candidates :: "match_config \<Rightarrow> point list \<Rightarrow> pystr \<Rightarrow> nat list \<Rightarrow> candidate list res" where
  "tier_candidates cfg points tier reals =
     and_then (map_res (\<lambda>(i, k). and_then (pair_rank cfg (points ! k) (points ! i)) (\<lambda>r.
         Inr (case r of None \<Rightarrow> [] | Some x \<Rightarrow> [\<lparr>ca_rank = x, ca_native = k, ca_real = i\<rparr>])))
       (List.product reals (tier_points points tier native_system ''real''))) (\<lambda>cs. Inr (concat cs))"

subsection \<open>The matched comparison of a tier\<close>

definition pair_core :: "pystr \<Rightarrow> point \<Rightarrow> point \<Rightarrow> json" where
  "pair_core tier native rp = JObj (jobj
     [(''tier'', JStr tier),
      (''native'', JObj (jobj [(''ef_search'', JInt (pt_value native)), (''batch_size'', JInt (pt_batch native)),
         (''source_manifest_sha256'', JArr (map JStr (pt_sources native)))])),
      (''official_real'', JObj (jobj [(''complexity'', JInt (pt_value rp)), (''batch_size'', JInt (pt_batch rp)),
         (''source_manifest_sha256'', JArr (map JStr (pt_sources rp)))]))])"

record matched =
  mt_pair :: pystr
  mt_native :: point
  mt_real :: point
  mt_cached :: point
  mt_latency_ratio :: pyfloat
  mt_candidate_ratio :: pyfloat

record match_state =
  ms_points :: "point list"
  ms_issues :: "issue list"
  ms_output :: "(pystr \<times> matched option) list"

definition fl_positive :: "pyfloat \<Rightarrow> bool" where
  "fl_positive f \<longleftrightarrow> \<not> fl_le f (Fin 0)"

definition make_match :: "tools \<Rightarrow> pystr \<Rightarrow> point \<Rightarrow> point \<Rightarrow> point \<Rightarrow> matched res" where
  "make_match t tier native rp cached =
     and_then (collector_hash t (pair_core tier native rp)) (\<lambda>pair.
     and_then (candidate_float native) (\<lambda>nc. and_then (candidate_float rp) (\<lambda>oc.
     let nl = la_mean (pt_latency native); ol = la_mean (pt_latency rp) in
     and_then (require (fl_positive nl \<and> fl_positive ol \<and> fl_positive nc \<and> fl_positive oc)
        (CollectionError ''matched comparison ratios require positive latency and candidate counts'')) (\<lambda>_.
     and_then (fl_div ol nl) (\<lambda>speedup. and_then (fl_div oc nc) (\<lambda>ratio.
     Inr \<lparr>mt_pair = pair, mt_native = native, mt_real = rp, mt_cached = cached, mt_latency_ratio = speedup,
          mt_candidate_ratio = ratio\<rparr>))))))"

definition mark_pair :: "point list \<Rightarrow> nat \<Rightarrow> nat \<Rightarrow> nat \<Rightarrow> pystr \<Rightarrow> point list" where
  "mark_pair points k i j pair =
     (let p1 = points[k := (points ! k)\<lparr>pt_selected := True, pt_pair := Some pair\<rparr>];
          p2 = p1[i := (p1 ! i)\<lparr>pt_selected := True, pt_pair := Some pair\<rparr>]
      in p2[j := (p2 ! j)\<lparr>pt_pair := Some pair\<rparr>])"

text \<open>The choice of a tier: the positions of the native, real and cached point that rank first.\<close>

definition tier_choice :: "match_config \<Rightarrow> point list \<Rightarrow> pystr \<Rightarrow> ((nat \<times> nat \<times> nat) option \<times> issue list) res" where
  "tier_choice cfg points tier =
     and_then (verified_real points tier) (\<lambda>(reals, issues).
     and_then (tier_candidates cfg points tier reals) (\<lambda>candidates.
     if candidates = [] then
       Inr (None, issues @ [make_issue ''no-predeclared-matched-pair'' tier (u ''official-real'')
              (u ''requires both real Recall and gap, and an exact cached counterpart'')])
     else let c = arg_min_list ca_rank candidates in
       case counterpart points tier (points ! ca_real c) of
         None \<Rightarrow> Inl (AssertionError ''cached is not None'')
       | Some j \<Rightarrow> Inr (Some (ca_native c, ca_real c, j), issues)))"

definition match_tier :: "tools \<Rightarrow> match_config \<Rightarrow> match_state \<Rightarrow> pystr \<Rightarrow> match_state res" where
  "match_tier t cfg st tier =
     (let points = ms_points st in
      and_then (tier_choice cfg points tier) (\<lambda>(choice, issues).
      case choice of
        None \<Rightarrow> Inr (st\<lparr>ms_issues := ms_issues st @ issues, ms_output := ms_output st @ [(tier, None)]\<rparr>)
      | Some (k, i, j) \<Rightarrow>
          and_then (make_match t tier (points ! k) (points ! i) (points ! j)) (\<lambda>m.
          Inr \<lparr>ms_points = mark_pair points k i j (mt_pair m), ms_issues = ms_issues st @ issues,
               ms_output = ms_output st @ [(tier, Some m)]\<rparr>)))"

definition unmark :: "point \<Rightarrow> point" where
  "unmark p = p\<lparr>pt_selected := False, pt_pair := None\<rparr>"

definition matched_comparisons ::
  "tools \<Rightarrow> match_config \<Rightarrow> pystr list \<Rightarrow> point list \<Rightarrow> issue list \<Rightarrow> match_state res" where
  "matched_comparisons t cfg required_tiers points issues =
     fold_res (match_tier t cfg) \<lparr>ms_points = map unmark points, ms_issues = issues, ms_output = []\<rparr>
       (sorted_set required_tiers)"

subsection \<open>Completeness\<close>

record requirements =
  rq_tiers :: "pystr list"
  rq_profiles :: "pystr list"
  rq_efs :: "int list"
  rq_complexities :: "int list"
  rq_batches :: "int list"
  rq_real_points :: nat

definition observed_points :: "point list \<Rightarrow> pystr \<Rightarrow> pystr \<Rightarrow> point list" where
  "observed_points points tier profile =
     filter (\<lambda>p. pt_tier p = tier \<and> profile_for (pt_system p) (pt_mode p) = profile) points"

definition missing_configs :: "requirements \<Rightarrow> pystr \<Rightarrow> point list \<Rightarrow> pystr list" where
  "missing_configs rq profile observed =
     (if profile = u ''native'' then
        map (\<lambda>v. u ''ef_search='' @ dec_int v) (filter (\<lambda>v. v \<notin> pt_value ` set observed) (rq_efs rq))
      else if profile = u ''official-cached'' then
        map (\<lambda>(b, c). u ''complexity='' @ dec_int c @ u '',batch_size='' @ dec_int b)
          (filter (\<lambda>(b, c). (c, b) \<notin> (\<lambda>p. (pt_value p, pt_batch p)) ` set observed)
             (List.product (rq_batches rq) (rq_complexities rq)))
      else if profile = u ''official-real'' then
        (if length observed < rq_real_points rq
         then [dec_nat (rq_real_points rq - length observed) @ u '' additional real point(s)''] else [])
      else [])"

definition required_points :: "requirements \<Rightarrow> pystr \<Rightarrow> point list \<Rightarrow> point list" where
  "required_points rq profile observed =
     (if profile = u ''native'' then filter (\<lambda>p. pt_value p \<in> set (rq_efs rq)) observed
      else if profile = u ''official-cached'' then
        filter (\<lambda>p. pt_value p \<in> set (rq_complexities rq) \<and> pt_batch p \<in> set (rq_batches rq)) observed
      else observed)"

text \<open>The sweep of one profile comes from one benchmark run.\<close>

definition common_sources :: "point list \<Rightarrow> pystr set" where
  "common_sources ps = (case ps of [] \<Rightarrow> {} | p # qs \<Rightarrow> fold (\<lambda>q acc. acc \<inter> set (pt_sources q)) qs (set (pt_sources p)))"

definition profile_issues :: "requirements \<Rightarrow> pystr \<Rightarrow> pystr \<Rightarrow> point list \<Rightarrow> issue list" where
  "profile_issues rq tier profile observed =
     (let missing = missing_configs rq profile observed; needed = required_points rq profile observed in
      (if observed = [] then [make_issue ''missing-profile'' tier profile (u ''no measured '' @ profile @ u '' point'')] else [])
      @ map (make_issue ''missing-configuration'' tier profile) missing
      @ (if missing = [] \<and> needed \<noteq> [] \<and> profile \<in> {u ''native'', u ''official-cached''} \<and> common_sources needed = {}
         then [make_issue ''split-sweep'' tier profile
                 (u ''required sweep points do not come from one protocol-bound benchmark manifest'')] else []))"

record profile_record =
  pr_tier :: pystr
  pr_profile :: pystr
  pr_complete :: bool
  pr_measured :: nat
  pr_missing :: "pystr list"
  pr_blocking :: "pystr list"

definition blocking_codes :: "issue list \<Rightarrow> pystr \<Rightarrow> pystr \<Rightarrow> pystr list" where
  "blocking_codes issues tier profile =
     sorted_set (map is_code (filter (\<lambda>i. is_tier i = tier \<and> is_profile i \<in> {profile, u ''all''}) issues))"

definition check_profile ::
  "requirements \<Rightarrow> point list \<Rightarrow> pystr \<Rightarrow> issue list \<times> profile_record list \<Rightarrow> pystr \<Rightarrow> issue list \<times> profile_record list" where
  "check_profile rq points tier st profile =
     (let observed = observed_points points tier profile; missing = missing_configs rq profile observed;
          issues = fst st @ profile_issues rq tier profile observed; blocking = blocking_codes issues tier profile in
      (issues, snd st @ [\<lparr>pr_tier = tier, pr_profile = profile,
         pr_complete = (observed \<noteq> [] \<and> missing = [] \<and> blocking = []), pr_measured = length observed,
         pr_missing = missing, pr_blocking = blocking\<rparr>]))"

definition check_tier ::
  "requirements \<Rightarrow> pystr list \<Rightarrow> point list \<Rightarrow> issue list \<times> profile_record list \<Rightarrow> pystr \<Rightarrow> issue list \<times> profile_record list" where
  "check_tier rq datasets points st tier =
     (let issues = (if tier \<in> set datasets then []
          else [make_issue ''missing-tier'' tier (u ''all'') (u ''no manifest supplied for tier '' @ tier)]) in
      fold (\<lambda>profile st. check_profile rq points tier st profile) (rq_profiles rq) (fst st @ issues, snd st))"

definition completeness ::
  "requirements \<Rightarrow> pystr list \<Rightarrow> point list \<Rightarrow> issue list \<Rightarrow> issue list \<times> profile_record list" where
  "completeness rq datasets points issues =
     fold (\<lambda>tier st. check_tier rq datasets points st tier) (rq_tiers rq) (issues, [])"

subsection \<open>The selected pair is eligible and ranks first\<close>

text \<open>A native and a real point of a tier that may be compared, with the rank of the pair.\<close>

definition comparable_pair :: "match_config \<Rightarrow> point list \<Rightarrow> pystr \<Rightarrow> nat \<Rightarrow> nat \<Rightarrow> rank \<Rightarrow> bool" where
  "comparable_pair cfg points tier k i r \<longleftrightarrow>
     k \<in> set (tier_points points tier native_system ''real'') \<and> i \<in> set (tier_points points tier official_system ''real'')
     \<and> (\<exists>j. counterpart points tier (points ! i) = Some j \<and> counterpart_mismatches (points ! j) (points ! i) = Inr [])
     \<and> (\<exists>a b nc oc. point_recall cfg (points ! k) = Some a \<and> point_recall cfg (points ! i) = Some b \<and> eligible cfg a b
          \<and> candidate_number (points ! k) = Inr nc \<and> candidate_number (points ! i) = Inr oc
          \<and> r = (fl_rank (recall_gap a b), fl_rank (fl_add nc oc), fl_rank (fl_neg (if fl_lt b a then b else a)),
                 pt_value (points ! k), pt_value (points ! i), pt_batch (points ! i)))"

lemma pair_rank_Some:
  "pair_rank cfg p q = Inr (Some r) \<longleftrightarrow>
     (\<exists>a b nc oc. point_recall cfg p = Some a \<and> point_recall cfg q = Some b \<and> eligible cfg a b
        \<and> candidate_number p = Inr nc \<and> candidate_number q = Inr oc
        \<and> r = (fl_rank (recall_gap a b), fl_rank (fl_add nc oc), fl_rank (fl_neg (if fl_lt b a then b else a)),
               pt_value p, pt_value q, pt_batch q))"
proof (cases "point_recall cfg p")
  case (Some a)
  note a = Some
  show ?thesis
  proof (cases "point_recall cfg q")
    case (Some b)
    show ?thesis
    proof (cases "eligible cfg a b")
      case True
      then show ?thesis using a Some
        by (cases "candidate_number p"; cases "candidate_number q") (simp_all add: pair_rank_def eq_commute [of r])
    qed (simp add: pair_rank_def a Some)
  qed (simp add: pair_rank_def a)
qed (simp add: pair_rank_def)

lemma real_mismatches_Nil:
  "real_mismatches points tier i = Inr [] \<longleftrightarrow>
     (\<exists>j. counterpart points tier (points ! i) = Some j \<and> counterpart_mismatches (points ! j) (points ! i) = Inr [])"
  by (auto simp: real_mismatches_def split: option.splits)

lemma fst_of_those: "fst ` {c \<in> S. snd c = x} = {i. (i, x) \<in> S}"
  by force

lemma verified_real_set:
  assumes "verified_real points tier = Inr (reals, issues)"
  shows "set reals = {i \<in> set (tier_points points tier official_system ''real''). real_mismatches points tier i = Inr []}"
proof -
  from assms obtain checked where c: "map_res (\<lambda>i. and_then (real_mismatches points tier i) (\<lambda>ms. Inr (i, ms)))
      (tier_points points tier official_system ''real'') = Inr checked" and r: "reals = map fst (filter (\<lambda>c. snd c = []) checked)"
    by (auto simp: verified_real_def ok_simps)
  have "(i, ms) \<in> set checked \<longleftrightarrow> i \<in> set (tier_points points tier official_system ''real'') \<and> real_mismatches points tier i = Inr ms" for i ms
  proof
    assume "(i, ms) \<in> set checked"
    from map_res_set [OF c this] show "i \<in> set (tier_points points tier official_system ''real'') \<and> real_mismatches points tier i = Inr ms"
      by (auto simp: ok_simps)
  next
    assume a: "i \<in> set (tier_points points tier official_system ''real'') \<and> real_mismatches points tier i = Inr ms"
    from map_res_set_dom [OF c, of i] a show "(i, ms) \<in> set checked" by simp
  qed
  then show ?thesis unfolding r by (simp add: fst_of_those)
qed

lemma tier_candidates_set:
  assumes "tier_candidates cfg points tier reals = Inr cs"
  shows "c \<in> set cs \<longleftrightarrow> ca_real c \<in> set reals \<and> ca_native c \<in> set (tier_points points tier native_system ''real'')
    \<and> pair_rank cfg (points ! ca_native c) (points ! ca_real c) = Inr (Some (ca_rank c))"
proof -
  let ?f = "\<lambda>(i, k). and_then (pair_rank cfg (points ! k) (points ! i)) (\<lambda>r.
         Inr (case r of None \<Rightarrow> [] | Some x \<Rightarrow> [\<lparr>ca_rank = x, ca_native = k, ca_real = i\<rparr>]))"
  from assms obtain css where c: "map_res ?f (List.product reals (tier_points points tier native_system ''real'')) = Inr css"
    and cs: "cs = concat css"
    unfolding tier_candidates_def by (auto simp: ok_simps)
  show ?thesis
  proof
    assume "c \<in> set cs"
    then obtain l where l: "l \<in> set css" "c \<in> set l" by (auto simp: cs)
    from map_res_set [OF c l(1)] obtain i k where ik: "(i, k) \<in> set (List.product reals (tier_points points tier native_system ''real''))"
      and f: "?f (i, k) = Inr l" by auto
    from f obtain o' where o: "pair_rank cfg (points ! k) (points ! i) = Inr o'"
      and l': "l = (case o' of None \<Rightarrow> [] | Some x \<Rightarrow> [\<lparr>ca_rank = x, ca_native = k, ca_real = i\<rparr>])"
      by (cases "pair_rank cfg (points ! k) (points ! i)") simp_all
    from l' l(2) obtain x where x: "o' = Some x" and "c = \<lparr>ca_rank = x, ca_native = k, ca_real = i\<rparr>"
      by (cases o') simp_all
    note o [unfolded x] this(2)
    with ik show "ca_real c \<in> set reals \<and> ca_native c \<in> set (tier_points points tier native_system ''real'')
      \<and> pair_rank cfg (points ! ca_native c) (points ! ca_real c) = Inr (Some (ca_rank c))"
      by simp
  next
    assume a: "ca_real c \<in> set reals \<and> ca_native c \<in> set (tier_points points tier native_system ''real'')
      \<and> pair_rank cfg (points ! ca_native c) (points ! ca_real c) = Inr (Some (ca_rank c))"
    then have "(ca_real c, ca_native c) \<in> set (List.product reals (tier_points points tier native_system ''real''))" by simp
    from map_res_set_dom [OF c this] a have "[\<lparr>ca_rank = ca_rank c, ca_native = ca_native c, ca_real = ca_real c\<rparr>] \<in> set css" by simp
    then have "[c] \<in> set css" by (cases c) simp
    then show "c \<in> set cs" unfolding cs by force
  qed
qed

lemma tier_choice_best:
  assumes "tier_choice cfg points tier = Inr (choice, issues)"
  shows "case choice of None \<Rightarrow> \<forall>k i r. \<not> comparable_pair cfg points tier k i r
    | Some (k, i, j) \<Rightarrow> counterpart points tier (points ! i) = Some j
        \<and> (\<exists>r. comparable_pair cfg points tier k i r \<and> (\<forall>k' i' r'. comparable_pair cfg points tier k' i' r' \<longrightarrow> r \<le> r'))"
proof -
  from assms obtain reals is' where v: "verified_real points tier = Inr (reals, is')"
    by (auto simp: tier_choice_def ok_simps)
  from assms v obtain cs where t: "tier_candidates cfg points tier reals = Inr cs"
    by (auto simp: tier_choice_def ok_simps)
  have set: "c \<in> set cs \<longleftrightarrow> comparable_pair cfg points tier (ca_native c) (ca_real c) (ca_rank c)" for c
    unfolding tier_candidates_set [OF t] verified_real_set [OF v] comparable_pair_def pair_rank_Some
    by (auto simp: real_mismatches_Nil)
  show ?thesis
  proof (cases "cs = []")
    case True
    have "\<not> comparable_pair cfg points tier k i r" for k i r
      using set [of "\<lparr>ca_rank = r, ca_native = k, ca_real = i\<rparr>"] True by simp
    moreover have "choice = None" using assms v t True by (simp add: tier_choice_def)
    ultimately show ?thesis by simp
  next
    case False
    let ?c = "arg_min_list ca_rank cs"
    from assms v t False obtain j where j: "counterpart points tier (points ! ca_real ?c) = Some j"
      and ch: "choice = Some (ca_native ?c, ca_real ?c, j)"
      by (auto simp: tier_choice_def Let_def split: option.splits)
    have best: "ca_rank ?c \<le> r" if "comparable_pair cfg points tier k i r" for k i r
    proof -
      have "\<lparr>ca_rank = r, ca_native = k, ca_real = i\<rparr> \<in> set cs" using that set by simp
      then have "r \<in> ca_rank ` set cs" by force
      then show ?thesis using False by (simp add: f_arg_min_list_f)
    qed
    have "comparable_pair cfg points tier (ca_native ?c) (ca_real ?c) (ca_rank ?c)"
      using arg_min_list_in [OF False, of ca_rank] set by blast
    then have "\<exists>r. comparable_pair cfg points tier (ca_native ?c) (ca_real ?c) r
        \<and> (\<forall>k' i' r'. comparable_pair cfg points tier k' i' r' \<longrightarrow> r \<le> r')" using best by blast
    then show ?thesis unfolding ch using j by simp
  qed
qed

text \<open>Only the marks of the points change, and the choice of a tier does not look at them.\<close>

lemma unmark_simps [simp]:
  "pt_tier (unmark p) = pt_tier p" "pt_system (unmark p) = pt_system p" "pt_mode (unmark p) = pt_mode p"
  "pt_value (unmark p) = pt_value p" "pt_batch (unmark p) = pt_batch p" "pt_queries (unmark p) = pt_queries p"
  "pt_ids_sha (unmark p) = pt_ids_sha p" "pt_recalls (unmark p) = pt_recalls p" "pt_candidates (unmark p) = pt_candidates p"
  "unmark (unmark p) = unmark p" "unmark (p\<lparr>pt_selected := b\<rparr>) = unmark p" "unmark (p\<lparr>pt_pair := x\<rparr>) = unmark p"
  by (simp_all add: unmark_def)

lemma tier_points_less: "i \<in> set (tier_points points tier system mode) \<Longrightarrow> i < length points"
  by (simp add: tier_points_def)

lemma tier_points_unmark: "tier_points (map unmark points) tier system mode = tier_points points tier system mode"
  by (auto simp: tier_points_def intro: filter_cong)

lemma counterpart_unmark: "i < length points \<Longrightarrow>
    counterpart (map unmark points) tier (map unmark points ! i) = counterpart points tier (points ! i)"
proof -
  assume "i < length points"
  then have "filter (\<lambda>j. same_config (map unmark points ! j) (map unmark points ! i)) (tier_points points tier official_system ''cached'')
      = filter (\<lambda>j. same_config (points ! j) (points ! i)) (tier_points points tier official_system ''cached'')"
    by (intro filter_cong) (auto simp: same_config_def dest: tier_points_less)
  then show ?thesis by (simp only: counterpart_def tier_points_unmark)
qed

lemma counterpart_cached: "counterpart points tier p = Some j \<Longrightarrow>
    j \<in> set (tier_points points tier official_system ''cached'') \<and> same_config (points ! j) p"
proof -
  assume a: "counterpart points tier p = Some j"
  let ?xs = "filter (\<lambda>i. same_config (points ! i) p) (tier_points points tier official_system ''cached'')"
  from a have "?xs \<noteq> []" "j = last ?xs" by (auto simp: counterpart_def split: list.splits)
  then have "j \<in> set ?xs" by (metis last_in_set)
  then show ?thesis by simp
qed

lemma counterpart_mismatches_unmark: "counterpart_mismatches (unmark p) (unmark q) = counterpart_mismatches p q"
proof -
  have "recall_differs (unmark x) (unmark y) key = recall_differs x y key" for x y key
    by (simp add: recall_differs_def)
  then have "recall_differs (unmark x) (unmark y) = recall_differs x y" for x y by (rule ext)
  moreover have "candidate_float (unmark x) = candidate_float x" for x by (simp add: candidate_float_def)
  ultimately show ?thesis by (simp add: counterpart_mismatches_def)
qed

lemma real_mismatches_unmark:
  assumes "i < length points"
  shows "real_mismatches (map unmark points) tier i = real_mismatches points tier i"
proof (cases "counterpart points tier (points ! i)")
  case None
  then show ?thesis by (simp only: real_mismatches_def counterpart_unmark [OF assms] option.case)
next
  case (Some j)
  then have "j < length points" using counterpart_cached tier_points_less by blast
  then show ?thesis using assms
    unfolding real_mismatches_def counterpart_unmark [OF assms] Some option.case
    by (simp only: nth_map counterpart_mismatches_unmark)
qed

lemma comparable_pair_iff:
  "comparable_pair cfg points tier k i r \<longleftrightarrow>
     k \<in> set (tier_points points tier native_system ''real'') \<and> i \<in> set (tier_points points tier official_system ''real'')
     \<and> real_mismatches points tier i = Inr [] \<and> pair_rank cfg (points ! k) (points ! i) = Inr (Some r)"
  unfolding comparable_pair_def real_mismatches_Nil pair_rank_Some by (rule refl)

lemma pair_rank_unmark: "pair_rank cfg (unmark p) (unmark q) = pair_rank cfg p q"
proof -
  have "point_recall cfg (unmark x) = point_recall cfg x" "candidate_number (unmark x) = candidate_number x" for x
    by (simp_all add: point_recall_def candidate_number_def)
  then show ?thesis by (simp only: pair_rank_def unmark_simps)
qed

lemma comparable_pair_less: "comparable_pair cfg points tier k i r \<Longrightarrow> k < length points \<and> i < length points"
  by (simp only: comparable_pair_iff) (blast intro: tier_points_less)

lemma comparable_pair_unmark: "comparable_pair cfg (map unmark points) tier k i r = comparable_pair cfg points tier k i r"
proof (cases "k < length points \<and> i < length points")
  case True
  then show ?thesis
    by (simp only: comparable_pair_iff tier_points_unmark real_mismatches_unmark pair_rank_unmark nth_map)
next
  case False
  then show ?thesis using comparable_pair_less [of cfg points tier k i r] comparable_pair_less [of cfg "map unmark points" tier k i r]
    by auto
qed

text \<open>What the output for a tier says of the points: no pair may be compared, or the pair that ranks first was taken.\<close>

definition best_of_tier :: "match_config \<Rightarrow> point list \<Rightarrow> pystr \<Rightarrow> matched option \<Rightarrow> bool" where
  "best_of_tier cfg points tier out \<longleftrightarrow>
     (case out of
        None \<Rightarrow> \<forall>k i r. \<not> comparable_pair cfg points tier k i r
      | Some m \<Rightarrow> \<exists>k i j r. comparable_pair cfg points tier k i r \<and> counterpart points tier (points ! i) = Some j
          \<and> unmark (mt_native m) = unmark (points ! k) \<and> unmark (mt_real m) = unmark (points ! i)
          \<and> unmark (mt_cached m) = unmark (points ! j)
          \<and> (\<forall>k' i' r'. comparable_pair cfg points tier k' i' r' \<longrightarrow> r \<le> r'))"

lemma best_of_tier_unmark:
  assumes "map unmark qs = map unmark ps" and "best_of_tier cfg qs tier out"
  shows "best_of_tier cfg ps tier out"
proof -
  have c: "comparable_pair cfg qs tier k i r = comparable_pair cfg ps tier k i r" for k i r
    by (metis assms(1) comparable_pair_unmark)
  have len: "length qs = length ps" using assms(1) by (rule map_eq_imp_length_eq)
  have n: "unmark (qs ! i) = unmark (ps ! i)" if "i < length ps" for i
    using assms(1) that len by (metis nth_map)
  have p: "counterpart qs tier (qs ! i) = counterpart ps tier (ps ! i)" if "i < length ps" for i
    using counterpart_unmark [of i qs tier] counterpart_unmark [of i ps tier] assms(1) that len by simp
  show ?thesis
  proof (cases out)
    case None
    then show ?thesis using assms(2) by (simp add: best_of_tier_def c)
  next
    case (Some m)
    with assms(2) obtain k i j r where r: "comparable_pair cfg ps tier k i r" and j: "counterpart qs tier (qs ! i) = Some j"
      and m: "unmark (mt_native m) = unmark (qs ! k)" "unmark (mt_real m) = unmark (qs ! i)" "unmark (mt_cached m) = unmark (qs ! j)"
      and best: "\<forall>k' i' r'. comparable_pair cfg ps tier k' i' r' \<longrightarrow> r \<le> r'"
      unfolding best_of_tier_def c by (simp del: split_paired_All split_paired_Ex) blast
    have "k < length ps" "i < length ps" "j < length ps"
      using comparable_pair_less [OF r] tier_points_less [OF conjunct1 [OF counterpart_cached [OF j]]] len by simp_all
    then have "comparable_pair cfg ps tier k i r \<and> counterpart ps tier (ps ! i) = Some j
        \<and> unmark (mt_native m) = unmark (ps ! k) \<and> unmark (mt_real m) = unmark (ps ! i)
        \<and> unmark (mt_cached m) = unmark (ps ! j) \<and> (\<forall>k' i' r'. comparable_pair cfg ps tier k' i' r' \<longrightarrow> r \<le> r')"
      using r m j best n p by simp
    then show ?thesis unfolding best_of_tier_def Some option.case by blast
  qed
qed

lemma map_update_at:
  assumes "f y = f (ps ! x)"
  shows "map f (ps[x := y]) = map f ps"
proof (cases "x < length ps")
  case True
  with assms have "(map f ps)[x := f y] = (map f ps)[x := map f ps ! x]" by simp
  then show ?thesis by (simp only: map_update list_update_id)
qed (simp add: list_update_beyond)

lemma mark_pair_unmark: "map unmark (mark_pair points k i j pair) = map unmark points"
  unfolding mark_pair_def Let_def by (simp add: map_update_at del: map_update list_update_id)

lemma match_tier_step:
  assumes "match_tier t cfg st tier = Inr st'"
  shows "map unmark (ms_points st') = map unmark (ms_points st)
    \<and> (\<exists>out. ms_output st' = ms_output st @ [(tier, out)] \<and> best_of_tier cfg (ms_points st) tier out)"
proof -
  from assms obtain choice issues where ch: "tier_choice cfg (ms_points st) tier = Inr (choice, issues)"
    by (auto simp: match_tier_def Let_def ok_simps)
  note best = tier_choice_best [OF ch]
  show ?thesis
  proof (cases choice)
    case None
    with assms ch best show ?thesis by (auto simp: match_tier_def best_of_tier_def simp del: split_paired_All split_paired_Ex)
  next
    case (Some c)
    then obtain k i j where c: "choice = Some (k, i, j)" by (metis prod_cases3)
    from assms ch c obtain m where m: "make_match t tier (ms_points st ! k) (ms_points st ! i) (ms_points st ! j) = Inr m"
      and st': "st' = \<lparr>ms_points = mark_pair (ms_points st) k i j (mt_pair m), ms_issues = ms_issues st @ issues,
        ms_output = ms_output st @ [(tier, Some m)]\<rparr>"
      by (auto simp: match_tier_def Let_def ok_simps)
    from m have sel: "mt_native m = ms_points st ! k" "mt_real m = ms_points st ! i" "mt_cached m = ms_points st ! j"
      by (auto simp: make_match_def ok_simps Let_def)
    from best c sel have "best_of_tier cfg (ms_points st) tier (Some m)"
      unfolding best_of_tier_def option.case by (simp del: split_paired_All split_paired_Ex) blast
    then show ?thesis by (simp add: st' mark_pair_unmark)
  qed
qed

lemma match_fold:
  assumes "fold_res (match_tier t cfg) st tiers = Inr st'"
  shows "map unmark (ms_points st') = map unmark (ms_points st)
    \<and> (\<exists>outs. ms_output st' = ms_output st @ outs \<and> list_all2 (\<lambda>tier out. fst out = tier \<and> best_of_tier cfg (ms_points st) tier (snd out)) tiers outs)"
  using assms
proof (induction tiers arbitrary: st)
  case (Cons tier tiers)
  then obtain st1 where s: "match_tier t cfg st tier = Inr st1" and r: "fold_res (match_tier t cfg) st1 tiers = Inr st'"
    by (auto simp: ok_simps)
  from match_tier_step [OF s] obtain out where p: "map unmark (ms_points st1) = map unmark (ms_points st)"
    and o: "ms_output st1 = ms_output st @ [(tier, out)]" "best_of_tier cfg (ms_points st) tier out" by blast
  from Cons.IH [OF r] obtain outs where "map unmark (ms_points st') = map unmark (ms_points st1)"
    and "ms_output st' = ms_output st1 @ outs"
    and l: "list_all2 (\<lambda>tier out. fst out = tier \<and> best_of_tier cfg (ms_points st1) tier (snd out)) tiers outs" by blast
  moreover have "list_all2 (\<lambda>tier out. fst out = tier \<and> best_of_tier cfg (ms_points st) tier (snd out)) tiers outs"
    using l by (rule list_all2_mono) (use best_of_tier_unmark [OF p] in blast)
  ultimately show ?case using p o by (intro conjI exI [of _ "(tier, out) # outs"]) simp_all
qed simp

text \<open>
  C23. For every required tier, in order, the comparison takes the native and the real official point that rank first
  among all pairs whose recalls reach the minimum, whose recall gap is within the tolerance, and whose official point
  agrees with its cached counterpart; it takes none only if no pair may be compared. Nothing of a point but its marks
  changes.
\<close>

theorem matched_pair_is_best:
  assumes "matched_comparisons t cfg required_tiers points issues = Inr st"
  shows "list_all2 (\<lambda>tier out. fst out = tier \<and> best_of_tier cfg points tier (snd out)) (sorted_set required_tiers) (ms_output st)
    \<and> map unmark (ms_points st) = map unmark points"
proof -
  have p: "map unmark (map unmark points) = map unmark points" by simp
  from match_fold [OF assms [unfolded matched_comparisons_def]] obtain outs
    where "map unmark (ms_points st) = map unmark (map unmark points)" and o: "ms_output st = outs"
    and l: "list_all2 (\<lambda>tier out. fst out = tier \<and> best_of_tier cfg (map unmark points) tier (snd out)) (sorted_set required_tiers) outs"
    by auto
  moreover from l have "list_all2 (\<lambda>tier out. fst out = tier \<and> best_of_tier cfg points tier (snd out)) (sorted_set required_tiers) outs"
    by (rule list_all2_mono) (use best_of_tier_unmark [OF p] in blast)
  ultimately show ?thesis by simp
qed

subsection \<open>What a complete profile contains\<close>

lemma check_profile_record:
  "snd (check_profile rq points tier st profile) = snd st @ [r] \<Longrightarrow>
     pr_tier r = tier \<and> pr_profile r = profile
     \<and> (pr_complete r \<longrightarrow> observed_points points tier profile \<noteq> []
          \<and> missing_configs rq profile (observed_points points tier profile) = []
          \<and> blocking_codes (fst st @ profile_issues rq tier profile (observed_points points tier profile)) tier profile = [])"
  by (auto simp: check_profile_def Let_def)

text \<open>What a record of the completeness report that is complete says of the points and issues it was made from.\<close>

definition profile_measured :: "requirements \<Rightarrow> pystr list \<Rightarrow> point list \<Rightarrow> issue list \<Rightarrow> pystr \<Rightarrow> pystr \<Rightarrow> bool" where
  "profile_measured rq datasets points issues tier profile \<longleftrightarrow>
     (let observed = {p \<in> set points. pt_tier p = tier \<and> profile_for (pt_system p) (pt_mode p) = profile} in
      tier \<in> set datasets \<and> observed \<noteq> {}
      \<and> (\<forall>i \<in> set issues. is_tier i = tier \<longrightarrow> is_profile i \<notin> {profile, u ''all''})
      \<and> (profile = u ''native'' \<longrightarrow> set (rq_efs rq) \<subseteq> pt_value ` observed)
      \<and> (profile = u ''official-cached'' \<longrightarrow> set (rq_complexities rq) \<times> set (rq_batches rq) \<subseteq> (\<lambda>p. (pt_value p, pt_batch p)) ` observed)
      \<and> (profile = u ''official-real'' \<longrightarrow> rq_real_points rq \<le> length (observed_points points tier profile))
      \<and> (profile = u ''native'' \<and> rq_efs rq \<noteq> [] \<longrightarrow>
           (\<exists>s. \<forall>p \<in> observed. pt_value p \<in> set (rq_efs rq) \<longrightarrow> s \<in> set (pt_sources p)))
      \<and> (profile = u ''official-cached'' \<and> rq_complexities rq \<noteq> [] \<and> rq_batches rq \<noteq> [] \<longrightarrow>
           (\<exists>s. \<forall>p \<in> observed. pt_value p \<in> set (rq_complexities rq) \<and> pt_batch p \<in> set (rq_batches rq) \<longrightarrow> s \<in> set (pt_sources p))))"

lemma make_issue_simps [simp]:
  "is_code (make_issue code tier profile detail) = u code" "is_tier (make_issue code tier profile detail) = tier"
  "is_profile (make_issue code tier profile detail) = profile"
  by (simp_all add: make_issue_def)

lemma common_sources_eq: "ps \<noteq> [] \<Longrightarrow> common_sources ps = (\<Inter>p \<in> set ps. set (pt_sources p))"
proof -
  have "fold (\<lambda>q acc. acc \<inter> set (pt_sources q)) qs A = A \<inter> (\<Inter>p \<in> set qs. set (pt_sources p))" for qs and A :: "pystr set"
    by (induction qs arbitrary: A) auto
  then show "ps \<noteq> [] \<Longrightarrow> ?thesis" by (cases ps) (simp_all add: common_sources_def)
qed

lemma observed_set: "set (observed_points points tier profile)
    = {p \<in> set points. pt_tier p = tier \<and> profile_for (pt_system p) (pt_mode p) = profile}"
  by (auto simp: observed_points_def)

lemma blocking_Nil: "blocking_codes issues tier profile = [] \<longleftrightarrow>
    (\<forall>i \<in> set issues. is_tier i = tier \<longrightarrow> is_profile i \<notin> {profile, u ''all''})"
  by (auto simp: blocking_codes_def filter_empty_conv)

lemma unsplit_sweep:
  assumes "blocking_codes (issues @ profile_issues rq tier profile observed) tier profile = []"
    and "missing_configs rq profile observed = []" and "required_points rq profile observed \<noteq> []"
    and "profile \<in> {u ''native'', u ''official-cached''}"
  shows "\<exists>s. \<forall>p \<in> set (required_points rq profile observed). s \<in> set (pt_sources p)"
proof -
  have "common_sources (required_points rq profile observed) \<noteq> {}"
  proof
    assume "common_sources (required_points rq profile observed) = {}"
    then have "make_issue ''split-sweep'' tier profile
        (u ''required sweep points do not come from one protocol-bound benchmark manifest'')
          \<in> set (issues @ profile_issues rq tier profile observed)"
      using assms(2-4) by (simp add: profile_issues_def Let_def)
    then show False using assms(1) unfolding blocking_Nil by (metis insertI1 make_issue_simps)
  qed
  then show ?thesis unfolding common_sources_eq [OF assms(3)] by blast
qed

lemma config_iff: "filter (\<lambda>x. x \<notin> A) xs = [] \<longleftrightarrow> set xs \<subseteq> A"
  by (auto simp: filter_empty_conv)

lemma profile_distinct: "u ''native'' \<noteq> u ''official-cached''" "u ''native'' \<noteq> u ''official-real''" "u ''official-cached'' \<noteq> u ''official-real''"
  by (simp_all add: u_def)

lemma missing_native: "missing_configs rq (u ''native'') observed = [] \<longleftrightarrow> set (rq_efs rq) \<subseteq> pt_value ` set observed"
  by (simp add: missing_configs_def config_iff)

lemma missing_cached: "missing_configs rq (u ''official-cached'') observed = [] \<longleftrightarrow>
    set (rq_complexities rq) \<times> set (rq_batches rq) \<subseteq> (\<lambda>p. (pt_value p, pt_batch p)) ` set observed"
  using profile_distinct by (auto simp: missing_configs_def filter_empty_conv)

lemma missing_real: "missing_configs rq (u ''official-real'') observed = [] \<longleftrightarrow> rq_real_points rq \<le> length observed"
  using profile_distinct by (simp add: missing_configs_def not_less)

lemma complete_check:
  assumes "observed_points points tier profile \<noteq> []" and m: "missing_configs rq profile (observed_points points tier profile) = []"
    and b: "blocking_codes (issues @ profile_issues rq tier profile (observed_points points tier profile)) tier profile = []"
    and "tier \<in> set datasets" and sub: "set issues0 \<subseteq> set issues"
  shows "profile_measured rq datasets points issues0 tier profile"
proof -
  let ?o = "observed_points points tier profile"
  have issues: "\<forall>i \<in> set issues0. is_tier i = tier \<longrightarrow> is_profile i \<notin> {profile, u ''all''}"
    using b sub unfolding blocking_Nil by auto
  note unsplit = unsplit_sweep [OF b m]
  have native: "\<exists>s. \<forall>p \<in> set ?o. pt_value p \<in> set (rq_efs rq) \<longrightarrow> s \<in> set (pt_sources p)"
    if p: "profile = u ''native''" and e: "rq_efs rq \<noteq> []"
  proof -
    have r: "required_points rq profile ?o = filter (\<lambda>p. pt_value p \<in> set (rq_efs rq)) ?o"
      by (simp add: required_points_def p)
    obtain v where "v \<in> set (rq_efs rq)" using e by (cases "rq_efs rq") auto
    then obtain x where "x \<in> set ?o" "pt_value x \<in> set (rq_efs rq)"
      using m unfolding p missing_native by blast
    then have "required_points rq profile ?o \<noteq> []" unfolding r by (auto simp: filter_empty_conv)
    from unsplit [OF this] p show ?thesis unfolding r by auto
  qed
  have cached: "\<exists>s. \<forall>p \<in> set ?o. pt_value p \<in> set (rq_complexities rq) \<and> pt_batch p \<in> set (rq_batches rq) \<longrightarrow> s \<in> set (pt_sources p)"
    if p: "profile = u ''official-cached''" and e: "rq_complexities rq \<noteq> []" "rq_batches rq \<noteq> []"
  proof -
    have r: "required_points rq profile ?o
        = filter (\<lambda>p. pt_value p \<in> set (rq_complexities rq) \<and> pt_batch p \<in> set (rq_batches rq)) ?o"
      using profile_distinct by (simp add: required_points_def p)
    obtain c d where "c \<in> set (rq_complexities rq)" "d \<in> set (rq_batches rq)" using e by (cases "rq_complexities rq"; cases "rq_batches rq") auto
    then obtain x where "x \<in> set ?o" "pt_value x \<in> set (rq_complexities rq)" "pt_batch x \<in> set (rq_batches rq)"
      using m unfolding p missing_cached by blast
    then have "required_points rq profile ?o \<noteq> []" unfolding r by (auto simp: filter_empty_conv)
    from unsplit [OF this] p show ?thesis unfolding r by auto
  qed
  have o: "{p \<in> set points. pt_tier p = tier \<and> profile_for (pt_system p) (pt_mode p) = profile} = set ?o"
    by (simp only: observed_set)
  show ?thesis unfolding profile_measured_def Let_def o
    using assms(1) assms(4) issues native cached m missing_native missing_cached missing_real by (intro conjI) auto
qed

text \<open>The records follow the required matrix, and each is judged on the issues known by then.\<close>

lemma profile_fold:
  assumes "tier \<in> set datasets \<or> (\<exists>i \<in> set (fst st). is_tier i = tier \<and> is_profile i = u ''all'')"
    and "set issues0 \<subseteq> set (fst st)"
  shows "\<exists>rs. snd (fold (\<lambda>profile st. check_profile rq points tier st profile) profiles st) = snd st @ rs
    \<and> map (\<lambda>r. (pr_tier r, pr_profile r)) rs = map (Pair tier) profiles
    \<and> (\<forall>r \<in> set rs. pr_complete r \<longrightarrow> profile_measured rq datasets points issues0 tier (pr_profile r))
    \<and> set (fst st) \<subseteq> set (fst (fold (\<lambda>profile st. check_profile rq points tier st profile) profiles st))"
  using assms
proof (induction profiles arbitrary: st)
  case (Cons profile profiles)
  let ?st = "check_profile rq points tier st profile"
  let ?o = "observed_points points tier profile"
  obtain r where s: "snd ?st = snd st @ [r]" by (simp add: check_profile_def Let_def)
  have f: "fst ?st = fst st @ profile_issues rq tier profile ?o" by (simp add: check_profile_def Let_def)
  have c: "profile_measured rq datasets points issues0 tier profile" if "pr_complete r"
  proof (rule complete_check)
    show b: "blocking_codes (fst st @ profile_issues rq tier profile ?o) tier profile = []"
      "?o \<noteq> []" "missing_configs rq profile ?o = []"
      using check_profile_record [OF s] that by simp_all
    show "tier \<in> set datasets" using Cons.prems(1) b(1) by (auto simp: blocking_Nil)
  qed (rule Cons.prems(2))
  have "tier \<in> set datasets \<or> (\<exists>i \<in> set (fst ?st). is_tier i = tier \<and> is_profile i = u ''all'')" "set issues0 \<subseteq> set (fst ?st)"
    using Cons.prems f by auto
  from Cons.IH [OF this] obtain rs where "snd (fold (\<lambda>profile st. check_profile rq points tier st profile) profiles ?st) = snd ?st @ rs"
    and "map (\<lambda>r. (pr_tier r, pr_profile r)) rs = map (Pair tier) profiles"
    and "\<forall>r \<in> set rs. pr_complete r \<longrightarrow> profile_measured rq datasets points issues0 tier (pr_profile r)"
    and "set (fst ?st) \<subseteq> set (fst (fold (\<lambda>profile st. check_profile rq points tier st profile) profiles ?st))" by blast
  then show ?case using s f c check_profile_record [OF s] by (intro exI [of _ "r # rs"]) auto
qed simp

lemma tier_fold:
  assumes "set issues0 \<subseteq> set (fst st)"
  shows "\<exists>rs. snd (fold (\<lambda>tier st. check_tier rq datasets points st tier) tiers st) = snd st @ rs
    \<and> map (\<lambda>r. (pr_tier r, pr_profile r)) rs = List.product tiers (rq_profiles rq)
    \<and> (\<forall>r \<in> set rs. pr_complete r \<longrightarrow> profile_measured rq datasets points issues0 (pr_tier r) (pr_profile r))"
  using assms
proof (induction tiers arbitrary: st)
  case (Cons tier tiers)
  let ?st = "check_tier rq datasets points st tier"
  let ?init = "(fst st @ (if tier \<in> set datasets then []
          else [make_issue ''missing-tier'' tier (u ''all'') (u ''no manifest supplied for tier '' @ tier)]), snd st)"
  have "tier \<in> set datasets \<or> (\<exists>i \<in> set (fst ?init). is_tier i = tier \<and> is_profile i = u ''all'')" "set issues0 \<subseteq> set (fst ?init)"
    using Cons.prems by auto
  have ct: "?st = fold (\<lambda>profile st. check_profile rq points tier st profile) (rq_profiles rq) ?init"
    by (simp only: check_tier_def Let_def)
  note * = \<open>tier \<in> set datasets \<or> (\<exists>i \<in> set (fst ?init). is_tier i = tier \<and> is_profile i = u ''all'')\<close>
    \<open>set issues0 \<subseteq> set (fst ?init)\<close>
  from profile_fold [OF *, of rq points "rq_profiles rq"] obtain rs where r: "snd ?st = snd st @ rs"
    "map (\<lambda>r. (pr_tier r, pr_profile r)) rs = map (Pair tier) (rq_profiles rq)"
    "\<forall>r \<in> set rs. pr_complete r \<longrightarrow> profile_measured rq datasets points issues0 tier (pr_profile r)"
    and sub: "set (fst ?init) \<subseteq> set (fst ?st)"
    unfolding ct [symmetric] snd_conv by blast
  from r(2) have t: "pr_tier r = tier" if "r \<in> set rs" for r using that
    by (metis (no_types, lifting) ex_map_conv fst_conv image_eqI list.set_map)
  have "set issues0 \<subseteq> set (fst ?st)" using sub Cons.prems by auto
  from Cons.IH [OF this] obtain rs' where "snd (fold (\<lambda>tier st. check_tier rq datasets points st tier) tiers ?st) = snd ?st @ rs'"
    "map (\<lambda>r. (pr_tier r, pr_profile r)) rs' = List.product tiers (rq_profiles rq)"
    "\<forall>r \<in> set rs'. pr_complete r \<longrightarrow> profile_measured rq datasets points issues0 (pr_tier r) (pr_profile r)" by blast
  then show ?case using r t by (intro exI [of _ "rs @ rs'"]) auto
qed simp

text \<open>
  The completeness report has one record for every required tier and profile, in order. A profile is reported
  complete only if its tier was supplied, every required configuration was measured, no issue was recorded against
  it, and the required points of a native or cached sweep come from one benchmark manifest.
\<close>

theorem complete_profile_is_measured:
  assumes "completeness rq datasets points issues = (issues', records)"
  shows "map (\<lambda>r. (pr_tier r, pr_profile r)) records = List.product (rq_tiers rq) (rq_profiles rq)
    \<and> (\<forall>r \<in> set records. pr_complete r \<longrightarrow> profile_measured rq datasets points issues (pr_tier r) (pr_profile r))"
  using tier_fold [of issues "(issues, [])" rq datasets points "rq_tiers rq"] assms by (auto simp: completeness_def)

subsection \<open>Sample points\<close>

definition tier_sample :: "pystr \<Rightarrow> string \<Rightarrow> point" where
  "tier_sample system mode = \<lparr>pt_tier = u ''1m'', pt_corpus = 5, pt_system = system, pt_mode = u mode,
     pt_comparable = True, pt_parameter = u ''p'', pt_value = 32, pt_batch = 0, pt_repetitions = 1, pt_queries = 1,
     pt_observations = 1, pt_latency = \<lparr>la_mean = Fin 1, la_p50 = Fin 1, la_p95 = Fin 1, la_min = Fin 1, la_max = Fin 1\<rparr>,
     pt_evidence = [], pt_sources = [u ''run''], pt_role = u ''role'', pt_protocol = u ''p'', pt_statuses = [],
     pt_artifacts = u ''index'', pt_build_sources = [], pt_recalls = [(recall_key 3, Fin 1)], pt_candidates = Some (Fin 1),
     pt_batches = None, pt_distances = None, pt_hops = None, pt_ids_sha = Some (u ''ids''), pt_selected = False,
     pt_pair = None\<rparr>"

definition tier_sample_points :: "point list" where
  "tier_sample_points = [tier_sample native_system ''real'', tier_sample official_system ''real'',
     tier_sample official_system ''cached'']"

definition sample_match :: match_config where
  "sample_match = \<lparr>mc_cutoff = 3, mc_minimum = Fin 0, mc_tolerance = Fin 0\<rparr>"

lemma sample_tier_points:
  "tier_points tier_sample_points (u ''1m'') native_system ''real'' = [0]"
  "tier_points tier_sample_points (u ''1m'') official_system ''real'' = [1]"
  "tier_points tier_sample_points (u ''1m'') official_system ''cached'' = [2]"
  by (simp_all add: tier_points_def tier_sample_points_def tier_sample_def native_system_def official_system_def u_def upt_rec)

lemma sample_nth [simp]:
  "tier_sample_points ! 0 = tier_sample native_system ''real''" "tier_sample_points ! 1 = tier_sample official_system ''real''"
  "tier_sample_points ! Suc 0 = tier_sample official_system ''real''" "tier_sample_points ! 2 = tier_sample official_system ''cached''"
  by (simp_all add: tier_sample_points_def)

lemma sample_fields [simp]:
  "pt_value (tier_sample s m) = 32" "pt_batch (tier_sample s m) = 0" "pt_queries (tier_sample s m) = 1"
  "pt_ids_sha (tier_sample s m) = Some (u ''ids'')" "pt_candidates (tier_sample s m) = Some (Fin 1)"
  "pt_recalls (tier_sample s m) = [(recall_key 3, Fin 1)]" "la_mean (pt_latency (tier_sample s m)) = Fin 1"
  by (simp_all add: tier_sample_def)

lemma sample_unmarked: "map unmark tier_sample_points = tier_sample_points"
  by (simp add: tier_sample_points_def tier_sample_def unmark_def)

theorem complete_profile_is_measured_witness:
  "\<exists>issues records. completeness \<lparr>rq_tiers = [u ''1m''], rq_profiles = [u ''native''], rq_efs = [32], rq_complexities = [],
        rq_batches = [], rq_real_points = 1\<rparr> [u ''1m''] tier_sample_points [] = (issues, records)
     \<and> length records = 1 \<and> pr_complete (records ! 0) \<and> pr_profile (records ! 0) = u ''native''"
proof -
  let ?rq = "\<lparr>rq_tiers = [u ''1m''], rq_profiles = [u ''native''], rq_efs = [32], rq_complexities = [],
        rq_batches = [], rq_real_points = 1\<rparr>"
  obtain issues records where c: "completeness ?rq [u ''1m''] tier_sample_points [] = (issues, records)" by (metis surj_pair)
  have o: "observed_points tier_sample_points (u ''1m'') (u ''native'') = [tier_sample native_system ''real'']"
    by (simp add: observed_points_def tier_sample_points_def tier_sample_def profile_for_def native_system_def official_system_def u_def)
  from c have "pr_complete (records ! 0)"
    by (auto simp: completeness_def check_tier_def check_profile_def o Let_def blocking_codes_def profile_issues_def
        missing_configs_def required_points_def common_sources_def tier_sample_def)
  with complete_profile_is_measured [OF c] c show ?thesis
    by (cases records) auto
qed

theorem matched_pair_is_best_witness:
  "\<exists>st m. matched_comparisons sample_tools sample_match [u ''1m''] tier_sample_points [] = Inr st
     \<and> ms_output st = [(u ''1m'', Some m)] \<and> best_of_tier sample_match tier_sample_points (u ''1m'') (Some m)"
proof -
  have c: "counterpart tier_sample_points (u ''1m'') (tier_sample_points ! 1) = Some 2"
    by (simp add: counterpart_def sample_tier_points same_config_def)
  have "real_mismatches tier_sample_points (u ''1m'') 1 = Inr []"
    unfolding real_mismatches_def c option.case by (simp add: counterpart_mismatches_def candidate_float_def recall_differs_def close_def
        isclose_refl sorted_set_def)
  then have v: "verified_real tier_sample_points (u ''1m'') = Inr ([1], [])"
    by (simp add: verified_real_def sample_tier_points)
  have "pair_rank sample_match (tier_sample_points ! 0) (tier_sample_points ! 1)
      = Inr (Some ((0, 0), fl_rank (fl_add (Fin 1) (Fin 1)), (0, -1), 32, 32, 0))"
    by (simp add: pair_rank_def point_recall_def candidate_number_def eligible_def recall_gap_def fl_rank_def fl_isfinite_def
        sample_match_def)
  then have "tier_choice sample_match tier_sample_points (u ''1m'') = Inr (Some (0, 1, 2), [])"
    using c by (simp add: tier_choice_def v tier_candidates_def sample_tier_points)
  moreover have "rnd64 1 = Fin 1" using rnd64_dyadic [of 1 0] by (simp add: pow2_def)
  then have "\<exists>m. make_match sample_tools (u ''1m'') (tier_sample_points ! 0) (tier_sample_points ! 1) (tier_sample_points ! 2) = Inr m"
    by (simp add: make_match_def candidate_float_def collector_hash_def sample_tools_def fl_positive_def fl_le_def require_def
        fl_div_def Let_def)
  then obtain m where "make_match sample_tools (u ''1m'') (tier_sample_points ! 0) (tier_sample_points ! 1) (tier_sample_points ! 2) = Inr m" ..
  ultimately obtain st where st: "matched_comparisons sample_tools sample_match [u ''1m''] tier_sample_points [] = Inr st"
    and o: "ms_output st = [(u ''1m'', Some m)]"
    by (auto simp: matched_comparisons_def sample_unmarked sorted_set_def match_tier_def)
  from matched_pair_is_best [OF st] o have "best_of_tier sample_match tier_sample_points (u ''1m'') (Some m)"
    by (simp add: sorted_set_def)
  with st o show ?thesis by blast
qed

end
