(* ===== verification/Collection.thy ===== *)
theory Collection
  imports Attest Compare
begin

text \<open>
  \<open>collect_results\<close> of \<open>collect_large_scale_results.py\<close>: the arguments, the ingestion of the manifests, the parity
  reports and the derivation they share, the endpoint attestations, the exclusion of gate runs, the binding, pooling,
  matching and completeness of what was measured, and the decision on the recorded issues. A report is the record of
  what the code puts into its dict, without its constant texts and without the hash of its rendering; the identifier
  prefix, which the code merges into the tier prefix, stays a field of its own. The lemmas show that no step ever
  drops an issue, so that a report that is accepted without \<open>allow_incomplete\<close> is complete.
\<close>

subsection \<open>The arguments\<close>

definition profile_names :: "pystr list" where
  "profile_names = [u ''native'', u ''official-cached'', u ''official-real'']"

record matrix =
  mx_tiers :: "pystr list"
  mx_profiles :: "pystr list"
  mx_efs :: "int list"
  mx_complexities :: "int list"
  mx_batches :: "int list"
  mx_real_points :: int
  mx_cutoff :: int
  mx_minimum :: pyfloat
  mx_tolerance :: pyfloat
  mx_cosine :: pyfloat
  mx_parity :: bool
  mx_attestation :: "bool option"
  mx_incomplete :: bool
  mx_verify :: bool

definition declared_tiers :: "pystr set" where
  "declared_tiers = set (map fst declared_cardinality)"

definition check_matrix :: "matrix \<Rightarrow> (pystr \<times> pystr) list \<Rightarrow> unit res" where
  "check_matrix mx manifests =
     and_then (require (manifests \<noteq> []) (CollectionError ''at least one manifest is required'')) (\<lambda>_.
     and_then (require (set (mx_tiers mx) \<inter> declared_tiers = {} \<or> set (mx_tiers mx) = declared_tiers)
        (CollectionError ''the declared publication matrix requires exactly tiers 100k and 1m'')) (\<lambda>_.
     and_then (require (list_all (\<lambda>p. p \<in> set profile_names) (mx_profiles mx)) (CollectionError ''required profiles must be selected from PROFILES'')) (\<lambda>_.
     and_then (require (1 \<le> mx_real_points mx) (CollectionError ''min_real_points must be positive'')) (\<lambda>_.
     and_then (require (0 < mx_cutoff mx) (CollectionError ''recall_match_cutoff must be positive'')) (\<lambda>_.
     and_then (require (fl_le (Fin 0) (mx_minimum mx) \<and> fl_le (mx_minimum mx) (Fin 1)) (CollectionError ''minimum_matched_recall must be in [0,1]'')) (\<lambda>_.
     and_then (require (\<not> fl_lt (mx_tolerance mx) (Fin 0)) (CollectionError ''recall_match_tolerance must be non-negative'')) (\<lambda>_.
     require (fl_lt (Fin 0) (mx_cosine mx) \<and> fl_le (mx_cosine mx) (Fin 1)) (CollectionError ''minimum_parity_cosine must be in (0,1]''))))))))"

definition attestation_required :: "matrix \<Rightarrow> bool" where
  "attestation_required mx = (case mx_attestation mx of None \<Rightarrow> set (mx_tiers mx) = declared_tiers | Some b \<Rightarrow> b)"

subsection \<open>The parity reports\<close>

text \<open>\<open>next(iter(hashes), None)\<close>, of a set that the cross-source check keeps to one element.\<close>

definition only_of :: "'a set \<Rightarrow> 'a option" where
  "only_of A = (if A = {} then None else Some (the_elem A))"

definition parity_step ::
  "collector_env \<Rightarrow> vector_tools \<Rightarrow> matrix \<Rightarrow> collector \<Rightarrow> (pystr \<times> parity) list \<Rightarrow> pystr \<times> pystr \<Rightarrow> (pystr \<times> parity) list res" where
  "parity_step env vt mx c found spec =
     (case spec of (tier, path) \<Rightarrow>
        and_then (require (map_of found tier = None) (CollectionError ''duplicate parity result'')) (\<lambda>_.
        case map_of (co_datasets c) tier of
          None \<Rightarrow> Inl (CollectionError ''parity result supplied for unknown tier'')
        | Some td \<Rightarrow>
            and_then (validate_parity_report env vt tier path (dr_identity (td_record td)) (mx_cosine mx) (only_of (co_binaries c))) (\<lambda>py.
            Inr (found @ [(tier, py)]))))"

definition parity_reports ::
  "collector_env \<Rightarrow> vector_tools \<Rightarrow> matrix \<Rightarrow> collector \<Rightarrow> (pystr \<times> pystr) list \<Rightarrow> (pystr \<times> parity) list res" where
  "parity_reports env vt mx c specs = fold_res (parity_step env vt mx c) [] (sort specs)"

definition derivation_keys :: "string list" where
  "derivation_keys = [''source_dataset'', ''selection'', ''queries'', ''qrel_coverage'', ''invariants'', ''normalization'']"

definition obj_of :: "json \<Rightarrow> jobj" where
  "obj_of v = (case v of JObj m \<Rightarrow> m | _ \<Rightarrow> [])"

definition all_equal :: "'a list \<Rightarrow> bool" where
  "all_equal xs = list_all (\<lambda>x. x = hd xs) xs"

text \<open>The name of a derived tier, which \<open>_validate_dataset_derivation\<close> sets to a string.\<close>

definition tier_name :: "json \<Rightarrow> pystr" where
  "tier_name tier = (case jget (obj_of tier) ''name'' of JStr s \<Rightarrow> s | _ \<Rightarrow> [])"

definition same_under :: "tools \<Rightarrow> jobj list \<Rightarrow> string \<Rightarrow> unit res" where
  "same_under t derivations key =
     and_then (map_res (\<lambda>v. collector_hash t (jget v key)) derivations) (\<lambda>hashes.
     require (all_equal hashes) (CollectionError ''embedding parity dataset derivations differ''))"

definition shared_derivation :: "tools \<Rightarrow> jobj list \<Rightarrow> jobj res" where
  "shared_derivation t derivations =
     and_then (require (all_equal (map (\<lambda>v. jget (obj_of (jget v ''manifest'')) ''sha256'') derivations))
        (CollectionError ''embedding parity results do not share one dataset manifest'')) (\<lambda>_.
     and_then (map_res (same_under t derivations) derivation_keys) (\<lambda>_.
     Inr (jobj ((''manifest'', jget (hd derivations) ''manifest'') # map (\<lambda>key. (key, jget (hd derivations) key)) derivation_keys
       @ [(''tiers'', JArr (sort_key tier_name (map (\<lambda>v. jget v ''tier'') derivations)))]))))"

text \<open>The derivation that all parity reports share, with the identifier prefix of its tiers.\<close>

definition derived ::
  "collector_env \<Rightarrow> collector \<Rightarrow> (pystr \<times> parity) list \<Rightarrow> (jobj option \<times> prefix_identity option) res" where
  "derived env c parities =
     (if parities = [] then Inr (None, None)
      else and_then (shared_derivation (ce_tools env) (map (py_derivation \<circ> snd) (sort_key fst parities))) (\<lambda>derivation.
        and_then (validate_document_id_prefix (ce_tools env) (ce_disk env) derivation) (\<lambda>prefix_of_ids.
        and_then (require (prefix_of_ids = None \<or> co_prefix c \<noteq> None)
           (CollectionError ''document ID prefix evidence exists without declared document/vector tier-prefix evidence'')) (\<lambda>_.
        Inr (Some derivation, prefix_of_ids)))))"

definition missing_issues :: "matrix \<Rightarrow> (pystr \<times> 'a) list \<Rightarrow> string \<Rightarrow> string \<Rightarrow> issue list" where
  "missing_issues mx found code detail =
     map (\<lambda>tier. make_issue code tier (u ''all'') (u detail)) (filter (\<lambda>tier. map_of found tier = None) (sorted_set (mx_tiers mx)))"

definition parity_issues :: "matrix \<Rightarrow> (pystr \<times> parity) list \<Rightarrow> issue list" where
  "parity_issues mx parities =
     (if mx_parity mx then missing_issues mx parities ''missing-embedding-parity'' ''no passed, identity-bound embedding parity JSON supplied'' else [])"

subsection \<open>The endpoint attestations\<close>

definition attestation_step ::
  "collector_env \<Rightarrow> collector \<Rightarrow> (pystr \<times> parity) list \<Rightarrow> verifier \<times> (pystr \<times> attestation) list \<Rightarrow> pystr \<times> pystr
     \<Rightarrow> (verifier \<times> (pystr \<times> attestation) list) res" where
  "attestation_step env c parities st spec =
     (case spec of (tier, path) \<Rightarrow>
        and_then (require (map_of (snd st) tier = None) (CollectionError ''duplicate endpoint attestation'')) (\<lambda>_.
        case map_of (co_datasets c) tier of
          None \<Rightarrow> Inl (CollectionError ''endpoint attestation supplied for unknown tier'')
        | Some td \<Rightarrow>
            (case map_of parities tier of
               None \<Rightarrow> Inl (CollectionError ''endpoint attestation has no validated parity report'')
             | Some py \<Rightarrow>
                 and_then (validate_endpoint_attestation env (fst st) tier path (td_record td) py) (\<lambda>(fv, a).
                 Inr (fv, snd st @ [(tier, a)])))))"

definition attestations ::
  "collector_env \<Rightarrow> collector \<Rightarrow> (pystr \<times> parity) list \<Rightarrow> (pystr \<times> pystr) list \<Rightarrow> (verifier \<times> (pystr \<times> attestation) list) res" where
  "attestations env c parities specs = fold_res (attestation_step env c parities) (co_verifier c, []) (sort specs)"

definition attestation_issues :: "matrix \<Rightarrow> (pystr \<times> attestation) list \<Rightarrow> issue list" where
  "attestation_issues mx found =
     (if attestation_required mx
      then missing_issues mx found ''missing-endpoint-attestation'' ''no finalized process/model/cache/parity-bound endpoint attestation supplied''
      else [])"

subsection \<open>Gate runs\<close>

definition gate_sources :: "collector \<Rightarrow> pystr set" where
  "gate_sources c = sr_sha ` {s \<in> set (co_sources c). sr_role s = u ''native-gate''}"

definition exclude_gates :: "collector \<Rightarrow> collector" where
  "exclude_gates c =
     c\<lparr>co_samples := filter (\<lambda>s. sm_source s \<notin> gate_sources c) (co_samples c),
       co_builds := filter (\<lambda>b. bd_source b \<notin> gate_sources c) (co_builds c)\<rparr>"

text \<open>The tiers that the warning \<open>native-gate-excluded\<close> names; no warning is recorded without a gate run.\<close>

definition gate_warning :: "collector \<Rightarrow> pystr list option" where
  "gate_warning c =
     (if gate_sources c = {} then None
      else Some (sorted_set (map sr_tier (filter (\<lambda>s. sr_sha s \<in> gate_sources c) (co_sources c)))))"

subsection \<open>The report\<close>

definition requirements_of :: "matrix \<Rightarrow> requirements" where
  "requirements_of mx =
     \<lparr>rq_tiers = sorted_set (mx_tiers mx), rq_profiles = filter (\<lambda>p. p \<in> set (mx_profiles mx)) profile_names,
      rq_efs = sorted_set (mx_efs mx), rq_complexities = sorted_set (mx_complexities mx), rq_batches = sorted_set (mx_batches mx),
      rq_real_points = nat (mx_real_points mx)\<rparr>"

definition match_config_of :: "matrix \<Rightarrow> match_config" where
  "match_config_of mx = \<lparr>mc_cutoff = nat (mx_cutoff mx), mc_minimum = mx_minimum mx, mc_tolerance = mx_tolerance mx\<rparr>"

definition matched_tiers :: "matrix \<Rightarrow> pystr list" where
  "matched_tiers mx = (if set profile_names \<subseteq> set (mx_profiles mx) then mx_tiers mx else [])"

record evaluation =
  ev_points :: "point list"
  ev_builds :: "build_summary list"
  ev_samples :: "sample list"
  ev_matched :: "(pystr \<times> matched option) list"
  ev_profiles :: "profile_record list"
  ev_issues :: "issue list"

definition evaluate :: "tools \<Rightarrow> (pyfloat list \<Rightarrow> pyfloat) \<Rightarrow> matrix \<Rightarrow> collector \<Rightarrow> evaluation res" where
  "evaluate t fsum mx c =
     and_then (bind_search_indexes (co_builds c) (co_issues c) (co_samples c)) (\<lambda>b.
     and_then (aggregate_points t fsum (bn_samples b)) (\<lambda>points.
     and_then (aggregate_builds t (bn_builds b)) (\<lambda>builds.
     and_then (matched_comparisons t (match_config_of mx) (matched_tiers mx) points (bn_issues b)) (\<lambda>ms.
     case completeness (requirements_of mx) (map fst (co_datasets c)) (ms_points ms) (ms_issues ms) of
       (issues, profiles) \<Rightarrow>
         Inr \<lparr>ev_points = ms_points ms, ev_builds = builds, ev_samples = bn_samples b, ev_matched = ms_output ms,
              ev_profiles = profiles, ev_issues = issues\<rparr>))))"

text \<open>\<open>sorted({(code, tier, profile, detail) for issue in issues})\<close>.\<close>

definition issue_key :: "issue \<Rightarrow> pystr \<times> pystr \<times> pystr \<times> pystr" where
  "issue_key i = (is_code i, is_tier i, is_profile i, is_detail i)"

definition latest :: "source_record list \<Rightarrow> pystr option" where
  "latest sources =
     (let times = List.map_filter (\<lambda>s. case jget (sr_manifest s) ''completed_at'' of JStr x \<Rightarrow> Some x | _ \<Rightarrow> None) sources in
      if times = [] then None else Some (Max (set times)))"

record identities =
  id_model :: "pystr option"
  id_query :: "pystr option"
  id_query_count :: "int option"
  id_dimensions :: "int option"
  id_binary :: "pystr option"
  id_leann_commit :: "pystr option"
  id_official_commit :: "pystr option"
  id_runtime :: "pystr option"
  id_machine :: "pystr option"
  id_server :: "pystr option"
  id_tooling :: "(pystr \<times> pystr) set"

definition identities_of :: "collector \<Rightarrow> identities" where
  "identities_of c =
     \<lparr>id_model = only_of (co_models c), id_query = only_of (co_queries c), id_query_count = only_of (co_query_counts c),
      id_dimensions = only_of (co_dimensions c), id_binary = only_of (co_binaries c),
      id_leann_commit = only_of (co_leann_commits c), id_official_commit = only_of (co_official_commits c),
      id_runtime = only_of (co_runtimes c), id_machine = only_of (co_machines c), id_server = only_of (co_servers c),
      id_tooling = co_tooling c\<rparr>"

record report =
  re_complete :: bool
  re_latest :: "pystr option"
  re_requirements :: requirements
  re_verified :: nat
  re_issues :: "(pystr \<times> pystr \<times> pystr \<times> pystr) list"
  re_gate_tiers :: "pystr list option"
  re_identities :: identities
  re_datasets :: "(pystr \<times> dataset_record) list"
  re_prefix :: "tier_prefix option"
  re_ids_prefix :: "prefix_identity option"
  re_derivation :: "jobj option"
  re_evaluation :: evaluation
  re_parity :: "(pystr \<times> parity) list"
  re_attestations :: "(pystr \<times> attestation) list"
  re_sources :: "source_record list"

text \<open>The collector with all manifests ingested and compared with each other.\<close>

definition collected :: "collector_env \<Rightarrow> matrix \<Rightarrow> (pystr \<times> pystr) list \<Rightarrow> collector res" where
  "collected env mx manifests =
     and_then (check_matrix mx manifests) (\<lambda>_.
     and_then (ingest_specs env (mx_verify mx) manifests) (\<lambda>c.
     and_then (validate_cross_source_identities c) (\<lambda>_.
     validate_declared_tier_prefix env c)))"

definition make_report ::
  "matrix \<Rightarrow> collector \<Rightarrow> verifier \<Rightarrow> (pystr \<times> parity) list \<Rightarrow> jobj option \<Rightarrow> prefix_identity option
     \<Rightarrow> (pystr \<times> attestation) list \<Rightarrow> evaluation \<Rightarrow> report" where
  "make_report mx c fv parities derivation prefix_of_ids found ev =
     (let issues = sorted_set (map issue_key (ev_issues ev));
          sources = sort_key (\<lambda>s. (sr_tier s, sr_sha s)) (co_sources c) in
      \<lparr>re_complete = (issues = []), re_latest = latest sources, re_requirements = requirements_of mx,
       re_verified = length (fv_verified fv), re_issues = issues, re_gate_tiers = gate_warning c,
       re_identities = identities_of c, re_datasets = sort_key fst (map (\<lambda>(tier, td). (tier, td_record td)) (co_datasets c)),
       re_prefix = co_prefix c, re_ids_prefix = prefix_of_ids, re_derivation = derivation, re_evaluation = ev,
       re_parity = sort_key fst parities, re_attestations = sort_key fst found, re_sources = sources\<rparr>)"

definition collect_results ::
  "collector_env \<Rightarrow> vector_tools \<Rightarrow> (pyfloat list \<Rightarrow> pyfloat) \<Rightarrow> matrix \<Rightarrow> (pystr \<times> pystr) list \<Rightarrow> (pystr \<times> pystr) list
     \<Rightarrow> (pystr \<times> pystr) list \<Rightarrow> report res" where
  "collect_results env vt fsum mx manifests parity_specs attestation_specs =
     and_then (collected env mx manifests) (\<lambda>c.
     and_then (parity_reports env vt mx c parity_specs) (\<lambda>parities.
     and_then (derived env c parities) (\<lambda>(derivation, prefix_of_ids).
     and_then (attestations env c parities attestation_specs) (\<lambda>(fv, found).
     let with_issues = c\<lparr>co_issues := co_issues c @ parity_issues mx parities @ attestation_issues mx found\<rparr> in
     and_then (evaluate (ce_tools env) fsum mx (exclude_gates with_issues)) (\<lambda>ev.
     and_then (require (ev_issues ev = [] \<or> mx_incomplete mx) (CollectionError ''benchmark matrix is incomplete'')) (\<lambda>_.
     Inr (make_report mx c fv parities derivation prefix_of_ids found ev)))))))"


subsection \<open>No issue is ever dropped\<close>

text \<open>A fold that only appends issues: if none is left at the end, none was ever recorded.\<close>

lemma clean_fold:
  assumes "\<And>x st. fst (f x st) = [] \<Longrightarrow> fst st = [] \<and> (\<exists>rs. snd (f x st) = snd st @ rs \<and> list_all P rs)"
    and "fst (fold f xs st) = []"
  shows "fst st = [] \<and> (\<exists>rs. snd (fold f xs st) = snd st @ rs \<and> list_all P rs)"
  using assms(2)
proof (induction xs arbitrary: st)
  case (Cons x xs)
  from Cons.prems have "fst (fold f xs (f x st)) = []" by simp
  note ih = Cons.IH [OF this]
  from conjunct1 [OF ih] have f: "fst (f x st) = []" .
  from conjunct2 [OF ih] obtain rs where r: "snd (fold f xs (f x st)) = snd (f x st) @ rs" "list_all P rs"
    by (elim exE conjE)
  from assms(1) [OF f] obtain rs0 where "fst st = []" "snd (f x st) = snd st @ rs0" "list_all P rs0" by blast
  with r show ?case by (intro conjI exI [of _ "rs0 @ rs"]) simp_all
qed simp

lemma check_profile_clean:
  assumes "fst (check_profile rq points tier st profile) = []"
  shows "fst st = [] \<and> (\<exists>rs. snd (check_profile rq points tier st profile) = snd st @ rs \<and> list_all pr_complete rs)"
proof -
  have n: "profile_issues rq tier profile (observed_points points tier profile) = []" "fst st = []"
    using assms by (simp_all add: check_profile_def Let_def)
  then have "observed_points points tier profile \<noteq> []" "missing_configs rq profile (observed_points points tier profile) = []"
    by (auto simp: profile_issues_def Let_def split: if_splits)
  then show ?thesis using n by (simp add: check_profile_def Let_def blocking_codes_def)
qed

lemma check_tier_clean:
  assumes "fst (check_tier rq datasets points st tier) = []"
  shows "fst st = [] \<and> (\<exists>rs. snd (check_tier rq datasets points st tier) = snd st @ rs \<and> list_all pr_complete rs)"
proof -
  let ?st = "(fst st @ (if tier \<in> set datasets then []
          else [make_issue ''missing-tier'' tier (u ''all'') (u ''no manifest supplied for tier '' @ tier)]), snd st)"
  have "check_tier rq datasets points st tier = fold (\<lambda>profile st. check_profile rq points tier st profile) (rq_profiles rq) ?st"
    by (simp only: check_tier_def Let_def)
  with clean_fold [of "\<lambda>profile st. check_profile rq points tier st profile", OF check_profile_clean, of "rq_profiles rq" ?st] assms
  show ?thesis by (cases st; cases "tier \<in> set datasets") auto
qed

lemma completeness_clean:
  assumes "completeness rq datasets points issues = ([], records)"
  shows "issues = [] \<and> list_all pr_complete records"
  using clean_fold [of "\<lambda>tier st. check_tier rq datasets points st tier", OF check_tier_clean, of "rq_tiers rq" "(issues, [])"] assms
  by (simp add: completeness_def)

lemma match_tier_issues:
  assumes "match_tier t cfg st tier = Inr st'"
  shows "\<exists>is out. ms_issues st' = ms_issues st @ is \<and> ms_output st' = ms_output st @ [(tier, out)] \<and> (is = [] \<longrightarrow> out \<noteq> None)"
proof -
  from assms obtain choice issues where ch: "tier_choice cfg (ms_points st) tier = Inr (choice, issues)"
    by (auto simp: match_tier_def Let_def ok_simps)
  show ?thesis
  proof (cases choice)
    case None
    with ch have "issues \<noteq> []" by (auto simp: tier_choice_def ok_simps Let_def split: if_splits option.splits prod.splits)
    with None assms ch show ?thesis by (auto simp: match_tier_def)
  next
    case (Some c)
    with assms ch show ?thesis by (cases c) (auto simp: match_tier_def Let_def ok_simps)
  qed
qed

lemma match_fold_clean:
  assumes "fold_res (match_tier t cfg) st tiers = Inr st'" and "ms_issues st' = []"
  shows "ms_issues st = [] \<and> (\<exists>outs. ms_output st' = ms_output st @ outs \<and> map fst outs = tiers \<and> list_all (\<lambda>out. snd out \<noteq> None) outs)"
  using assms
proof (induction tiers arbitrary: st)
  case (Cons tier tiers)
  then obtain st1 where s: "match_tier t cfg st tier = Inr st1" and r: "fold_res (match_tier t cfg) st1 tiers = Inr st'"
    by (auto simp: ok_simps)
  from match_tier_issues [OF s] obtain "is" out where i: "ms_issues st1 = ms_issues st @ is" "ms_output st1 = ms_output st @ [(tier, out)]"
    "is = [] \<longrightarrow> out \<noteq> None" by blast
  from Cons.IH [OF r Cons.prems(2)] obtain outs where "ms_issues st1 = []" "ms_output st' = ms_output st1 @ outs" "map fst outs = tiers"
    "list_all (\<lambda>out. snd out \<noteq> None) outs" by blast
  with i show ?case by (intro conjI exI [of _ "(tier, out) # outs"]) simp_all
qed simp

lemma unbound_issue: "binding_issues builds s = [] \<Longrightarrow> bi_status (sample_binding builds s) \<noteq> u ''unbound''"
proof -
  assume "binding_issues builds s = []"
  then have "selected_builds builds s \<noteq> []" by (auto simp: binding_issues_def Let_def split: if_splits)
  then show ?thesis by (simp add: sample_binding_def Let_def u_def)
qed

lemma bind_clean:
  assumes "bind_search_indexes builds issues samples = Inr b" and "bn_issues b = []"
  shows "issues = [] \<and> list_all (\<lambda>s. \<exists>i. sm_binding s = Some i \<and> bi_status i \<noteq> u ''unbound'') (bn_samples b)"
proof -
  from bind_fold [OF assms(1) [unfolded bind_search_indexes_def]] assms(2)
  have "issues = []" "\<forall>s \<in> set samples. binding_issues builds s = []"
    "bn_samples b = map (\<lambda>s. s\<lparr>sm_binding := Some (sample_binding builds s)\<rparr>) samples" by auto
  then show ?thesis using unbound_issue by (simp add: list_all_iff)
qed

text \<open>What an evaluation without an issue says.\<close>

definition complete_evaluation :: "matrix \<Rightarrow> pystr list \<Rightarrow> evaluation \<Rightarrow> bool" where
  "complete_evaluation mx datasets ev \<longleftrightarrow>
     map (\<lambda>r. (pr_tier r, pr_profile r)) (ev_profiles ev) = List.product (rq_tiers (requirements_of mx)) (rq_profiles (requirements_of mx))
     \<and> (\<forall>r \<in> set (ev_profiles ev). pr_complete r
          \<and> profile_measured (requirements_of mx) datasets (ev_points ev) [] (pr_tier r) (pr_profile r))
     \<and> map fst (ev_matched ev) = sorted_set (matched_tiers mx) \<and> (\<forall>m \<in> set (ev_matched ev). snd m \<noteq> None)
     \<and> (\<forall>s \<in> set (ev_samples ev). \<exists>i. sm_binding s = Some i \<and> bi_status i \<noteq> u ''unbound'')"

lemma evaluate_ok:
  assumes "evaluate t fsum mx c = Inr ev"
  obtains b points builds ms issues profiles where
    "bind_search_indexes (co_builds c) (co_issues c) (co_samples c) = Inr b"
    "matched_comparisons t (match_config_of mx) (matched_tiers mx) points (bn_issues b) = Inr ms"
    "completeness (requirements_of mx) (map fst (co_datasets c)) (ms_points ms) (ms_issues ms) = (issues, profiles)"
    "ev = \<lparr>ev_points = ms_points ms, ev_builds = builds, ev_samples = bn_samples b, ev_matched = ms_output ms,
              ev_profiles = profiles, ev_issues = issues\<rparr>"
proof -
  from assms obtain b points builds ms where
    b: "bind_search_indexes (co_builds c) (co_issues c) (co_samples c) = Inr b"
    and m: "matched_comparisons t (match_config_of mx) (matched_tiers mx) points (bn_issues b) = Inr ms"
    and r: "(case completeness (requirements_of mx) (map fst (co_datasets c)) (ms_points ms) (ms_issues ms) of (issues, profiles) \<Rightarrow>
        Inr \<lparr>ev_points = ms_points ms, ev_builds = builds, ev_samples = bn_samples b, ev_matched = ms_output ms,
              ev_profiles = profiles, ev_issues = issues\<rparr>) = (Inr ev :: evaluation res)"
    by (simp add: evaluate_def ok_simps) blast
  obtain issues profiles where k: "completeness (requirements_of mx) (map fst (co_datasets c)) (ms_points ms) (ms_issues ms) = (issues, profiles)"
    by (metis surj_pair)
  from that [OF b m k] r k show thesis by auto
qed

lemma evaluate_clean:
  assumes "evaluate t fsum mx c = Inr ev" and "ev_issues ev = []"
  shows "co_issues c = [] \<and> complete_evaluation mx (map fst (co_datasets c)) ev"
proof -
  obtain b points builds ms issues profiles where
    b: "bind_search_indexes (co_builds c) (co_issues c) (co_samples c) = Inr b"
    and m: "matched_comparisons t (match_config_of mx) (matched_tiers mx) points (bn_issues b) = Inr ms"
    and k': "completeness (requirements_of mx) (map fst (co_datasets c)) (ms_points ms) (ms_issues ms) = (issues, profiles)"
    and ev: "ev = \<lparr>ev_points = ms_points ms, ev_builds = builds, ev_samples = bn_samples b, ev_matched = ms_output ms,
              ev_profiles = profiles, ev_issues = issues\<rparr>" using assms(1) by (rule evaluate_ok)
  with assms(2) have k: "completeness (requirements_of mx) (map fst (co_datasets c)) (ms_points ms) (ms_issues ms) = ([], profiles)" by simp
  from completeness_clean [OF k] have i: "ms_issues ms = []" and p: "list_all pr_complete profiles" by simp_all
  from match_fold_clean [OF m [unfolded matched_comparisons_def] i]
  have bi: "bn_issues b = []" and o: "map fst (ms_output ms) = sorted_set (matched_tiers mx)" "list_all (\<lambda>out. snd out \<noteq> None) (ms_output ms)"
    by auto
  from tier_fold [of "[]" "([], [])" "requirements_of mx" "map fst (co_datasets c)" "ms_points ms" "rq_tiers (requirements_of mx)"] k i
  have "map (\<lambda>r. (pr_tier r, pr_profile r)) profiles = List.product (rq_tiers (requirements_of mx)) (rq_profiles (requirements_of mx))"
    "\<forall>r \<in> set profiles. pr_complete r \<longrightarrow> profile_measured (requirements_of mx) (map fst (co_datasets c)) (ms_points ms) [] (pr_tier r) (pr_profile r)"
    by (auto simp: completeness_def)
  with bind_clean [OF b bi] p o show ?thesis by (simp add: ev complete_evaluation_def list_all_iff)
qed

lemma missing_issues_Nil: "missing_issues mx found code detail = [] \<longleftrightarrow> set (mx_tiers mx) \<subseteq> fst ` set found"
  by (auto simp: missing_issues_def filter_empty_conv map_of_eq_None_iff)

lemma exclude_gates_simps [simp]:
  "co_issues (exclude_gates c) = co_issues c" "co_datasets (exclude_gates c) = co_datasets c"
  by (simp_all add: exclude_gates_def)

lemma collect_results_ok:
  assumes "collect_results env vt fsum mx manifests parity_specs attestation_specs = Inr rep"
  obtains c parities derivation prefix_of_ids fv found ev where
    "collected env mx manifests = Inr c" "parity_reports env vt mx c parity_specs = Inr parities"
    "derived env c parities = Inr (derivation, prefix_of_ids)" "attestations env c parities attestation_specs = Inr (fv, found)"
    "evaluate (ce_tools env) fsum mx (exclude_gates (c\<lparr>co_issues := co_issues c @ parity_issues mx parities @ attestation_issues mx found\<rparr>)) = Inr ev"
    "ev_issues ev = [] \<or> mx_incomplete mx" "rep = make_report mx c fv parities derivation prefix_of_ids found ev"
  using assms by (auto simp: collect_results_def ok_simps Let_def)

lemma make_report_simps [simp]:
  "re_issues (make_report mx c fv parities derivation prefix_of_ids found ev) = sorted_set (map issue_key (ev_issues ev))"
  "re_complete (make_report mx c fv parities derivation prefix_of_ids found ev) = (ev_issues ev = [])"
  "re_evaluation (make_report mx c fv parities derivation prefix_of_ids found ev) = ev"
  "set (re_parity (make_report mx c fv parities derivation prefix_of_ids found ev)) = set parities"
  "set (re_attestations (make_report mx c fv parities derivation prefix_of_ids found ev)) = set found"
  "fst ` set (re_datasets (make_report mx c fv parities derivation prefix_of_ids found ev)) = fst ` set (co_datasets c)"
  by (auto simp: make_report_def Let_def image_iff, force+)

lemma complete_evaluation_cong: "set datasets = set datasets' \<Longrightarrow> complete_evaluation mx datasets ev = complete_evaluation mx datasets' ev"
  by (simp add: complete_evaluation_def profile_measured_def)


subsection \<open>What was collected with verification on\<close>

lemma collected_ok:
  assumes "collected env mx manifests = Inr c" and "mx_verify mx"
  shows "collector_ok env c"
proof -
  obtain c0 where c0: "ingest_specs env True manifests = Inr c0" and p: "validate_declared_tier_prefix env c0 = Inr c"
    using assms by (auto simp: collected_def ok_simps)
  from p have "c = c0 \<or> (\<exists>p. c = c0\<lparr>co_prefix := p\<rparr>)"
    by (auto simp: validate_declared_tier_prefix_def ok_simps split: option.splits)
  with ingest_specs_ok [OF c0] show ?thesis by (auto simp: collector_ok_def)
qed

lemma pooled_samples_ok:
  assumes "collect_results env vt fsum mx manifests parity_specs attestation_specs = Inr rep" and "mx_verify mx"
    and "s \<in> set (ev_samples (re_evaluation rep))"
  shows "sample_complete s \<and> sample_on_disk env s \<and> sm_role s \<noteq> u ''native-gate''"
proof -
  obtain c parities derivation prefix_of_ids fv found ev where c: "collected env mx manifests = Inr c" and
    e: "evaluate (ce_tools env) fsum mx (exclude_gates (c\<lparr>co_issues := co_issues c @ parity_issues mx parities @ attestation_issues mx found\<rparr>)) = Inr ev"
    and r: "rep = make_report mx c fv parities derivation prefix_of_ids found ev"
    using assms(1) by (rule collect_results_ok)
  let ?c = "exclude_gates (c\<lparr>co_issues := co_issues c @ parity_issues mx parities @ attestation_issues mx found\<rparr>)"
  obtain b where b: "fold_res bind_sample \<lparr>bn_builds = co_builds ?c, bn_issues = co_issues ?c, bn_samples = []\<rparr> (co_samples ?c) = Inr b"
    and s: "ev_samples ev = bn_samples b"
    using e by (rule evaluate_ok) (simp add: bind_search_indexes_def)
  from bind_fold [OF b] s have "ev_samples ev = map (\<lambda>s. s\<lparr>sm_binding := Some (sample_binding (co_builds ?c) s)\<rparr>) (co_samples ?c)" by simp
  with assms(3) r obtain s0 where "s0 \<in> set (co_samples c)" "s = s0\<lparr>sm_binding := Some (sample_binding (co_builds ?c) s0)\<rparr>"
    by (auto simp: exclude_gates_def)
  then show ?thesis using collected_ok [OF c assms(2)]
    by (auto simp: collector_ok_def list_all_iff sample_complete_def sample_on_disk_def)
qed

subsection \<open>A sample collection\<close>

lemma derivation_tier_of:
  assumes "validate_dataset_derivation env path tier rd ds = Inr d"
  shows "\<exists>facts ids. jget d ''tier'' = JObj (derivation_tier_json tier ds facts ids)"
  using assms by (auto simp: validate_dataset_derivation_def ok_simps) blast

lemma derivation_has_tier:
  assumes "validate_parity_report env vt tier path ds minimum_cosine binary_sha = Inr py"
  shows "\<exists>facts ids. jget (py_derivation py) ''tier'' = JObj (derivation_tier_json tier ds facts ids)"
proof -
  have "\<exists>path' rd. validate_dataset_derivation env path' tier rd ds = Inr (py_derivation py)"
    using assms by (auto simp: validate_parity_report_def ok_simps Let_def) blast
  then show ?thesis using derivation_tier_of by blast
qed

definition run_matrix :: matrix where
  "run_matrix = \<lparr>mx_tiers = [u ''t''], mx_profiles = [], mx_efs = [], mx_complexities = [], mx_batches = [], mx_real_points = 1, mx_cutoff = 3,
     mx_minimum = Fin 1, mx_tolerance = Fin 0, mx_cosine = Fin 1, mx_parity = True, mx_attestation = Some True, mx_incomplete = False, mx_verify = True\<rparr>"

lemma run_matrix_simps [simp]:
  "mx_tiers run_matrix = [u ''t'']" "mx_profiles run_matrix = []" "mx_cosine run_matrix = Fin 1" "mx_verify run_matrix"
  "\<not> mx_incomplete run_matrix" "mx_parity run_matrix" "attestation_required run_matrix" "matched_tiers run_matrix = []"
  by (simp_all add: run_matrix_def attestation_required_def matched_tiers_def profile_names_def)

lemma run_matrix_ok: "manifests \<noteq> [] \<Longrightarrow> check_matrix run_matrix manifests = Inr ()"
  by (simp add: check_matrix_def run_matrix_def declared_tiers_def declared_cardinality_def fl_le_def)

lemma run_collected: "\<exists>c. collected (run_world Gate) run_matrix [(u ''t'', u ''/m'')] = Inr c \<and> entered c"
proof -
  obtain c where c: "ingest_specs (run_world Gate) True [(u ''t'', u ''/m'')] = Inr c" "entered c" using gate_run_ingested by blast
  moreover have "validate_declared_tier_prefix (run_world Gate) c = Inr c"
    using c(2) by (simp add: validate_declared_tier_prefix_def entered_def)
  ultimately show ?thesis by (simp add: collected_def run_matrix_ok entered_def)
qed

lemma run_tier_record [simp]: "td_record run_tier = run_dataset" "dr_identity run_dataset = run_identity"
  by (simp_all add: run_tier_def run_dataset_def)

lemma run_derived_once:
  assumes "jget d ''tier'' = JObj (derivation_tier_json (u ''t'') ds facts ids)" and "py_derivation py = d"
  shows "\<exists>x. derived (run_world g) c [(u ''t'', py)] = Inr (Some x, None)"
proof -
  let ?t = "derivation_tier_json (u ''t'') ds facts ids"
  have "\<exists>x. shared_derivation (run_tools g) [d] = Inr x \<and> jget x ''tiers'' = JArr [JObj ?t]"
    by (simp add: shared_derivation_def all_equal_def derivation_keys_def same_under_def assms(1))
  then obtain x where x: "shared_derivation (run_tools g) [d] = Inr x" "jget x ''tiers'' = JArr [JObj ?t]" by blast
  have "tier_item [] (JObj ?t) = Inr [(JStr (u ''t''), ?t)]"
    by (simp add: tier_item_def derivation_tier_json_def jidx_def)
  then have "validate_document_id_prefix (run_tools g) (ce_disk (run_world g)) x = Inr None"
    by (simp add: validate_document_id_prefix_def x(2) sequence_def)
  then show ?thesis by (simp add: derived_def assms(2) x(1))
qed

text \<open>The whole collection of the sample run, its parity report and its attestation.\<close>

lemma run_report: "\<exists>rep. collect_results (run_world Gate) unit_vectors (\<lambda>_. Fin 0) run_matrix [(u ''t'', u ''/m'')] [(u ''t'', u ''/p'')] [(u ''t'', u ''/a'')] = Inr rep"
proof -
  obtain c where c: "collected (run_world Gate) run_matrix [(u ''t'', u ''/m'')] = Inr c" and e: "entered c" using run_collected by blast
  from e have d: "co_datasets c = [(u ''t'', run_tier)]" "co_binaries c = {}" "co_samples c = []" "co_builds c = []" "co_issues c = []"
    by (simp_all add: entered_def)
  obtain py :: parity where v: "validate_parity_report (run_world Gate) unit_vectors (u ''t'') (u ''/p'') run_identity (Fin 1) None = Inr py"
    and py: "py_path py = u ''/p''" "py_sha py = zero_sha" "py_input_hash py = JStr zero_sha"
    "py_metrics py = ph_metrics run_gate" "py_acceptance py = ph_acceptance run_gate" "jget (py_bindings py) ''native_binary_sha256'' = JStr zero_sha"
    using run_parity_accepted by blast
  have r: "parity_reports (run_world Gate) unit_vectors run_matrix c [(u ''t'', u ''/p'')] = Inr [(u ''t'', py)]"
    using v by (simp add: parity_reports_def parity_step_def d only_of_def)
  obtain x where x: "derived (run_world Gate) c [(u ''t'', py)] = Inr (Some x, None)"
    using derivation_has_tier [OF v] run_derived_once by blast
  obtain fv a where "validate_endpoint_attestation (run_world Gate) (co_verifier c) (u ''t'') (u ''/a'') run_dataset py = Inr (fv, a)"
    using run_attested [OF py] by blast
  then have t: "attestations (run_world Gate) c [(u ''t'', py)] [(u ''t'', u ''/a'')] = Inr (fv, [(u ''t'', a)])"
    by (simp add: attestations_def attestation_step_def d)
  have n: "parity_issues run_matrix [(u ''t'', py)] = []" "attestation_issues run_matrix [(u ''t'', a)] = []"
    by (simp_all add: parity_issues_def attestation_issues_def missing_issues_Nil)
  let ?c = "exclude_gates (c\<lparr>co_issues := []\<rparr>)"
  have g: "co_samples ?c = []" "co_builds ?c = []" "co_issues ?c = []" by (simp_all add: exclude_gates_def d)
  have rq: "rq_profiles (requirements_of run_matrix) = []" "rq_tiers (requirements_of run_matrix) = [u ''t'']"
    by (simp_all add: requirements_of_def sorted_set_def)
  have "completeness (requirements_of run_matrix) [u ''t''] [] [] = ([], [])"
    by (simp add: completeness_def rq check_tier_def)
  then have "\<exists>ev. evaluate (run_tools Gate) (\<lambda>_. Fin 0) run_matrix ?c = Inr ev \<and> ev_issues ev = []"
    using g d by (simp add: evaluate_def bind_search_indexes_def aggregate_points_def aggregate_builds_def keyed_builds_def one_storage_def
        matched_comparisons_def sorted_set_def)
  then obtain ev where "evaluate (run_tools Gate) (\<lambda>_. Fin 0) run_matrix ?c = Inr ev" "ev_issues ev = []" by blast
  then show ?thesis by (simp add: collect_results_def c r x t n d(5))
qed


end
