(* ===== verification/Descriptor.thy ===== *)
theory Descriptor
  imports Evidence
begin

text \<open>
  How \<open>attest_embedding_endpoint.py\<close> reads a file that other processes may be writing: through one descriptor, with
  \<open>fstat\<close> before and after, in blocks. A descriptor is what the system answers: the bytes of each read (a read may
  return fewer bytes than asked for, and an empty one ends the loop) and the two \<open>fstat\<close> results. The loops are
  partial functions, \<open>None\<close> standing for a loop that does not end. The lemmas say when they end (the prefix reader
  always, the others as soon as one read is empty), that the digest does not depend on how the reads cut the file,
  and that the block-wise line count is the one of the shared line reader unless a carriage return stands alone.
\<close>

record fstat =
  st_regular :: bool
  st_dev :: int
  st_ino :: int
  st_size :: int
  st_mtime_ns :: int
  st_ctime_ns :: int
  st_birth :: "pyfloat option"

record opened =
  op_before :: fstat
  op_reply :: "nat \<Rightarrow> bytes"
  op_after :: fstat

text \<open>
  What the scripts ask of the system about paths: \<open>resolve()\<close>, \<open>resolve(strict=True)\<close> (\<open>None\<close> when the file is
  missing), \<open>os.open\<close> and \<open>stat\<close>.
\<close>

record kernel =
  kn_path :: "pystr \<Rightarrow> pystr"
  kn_real :: "pystr \<Rightarrow> pystr option"
  kn_open :: "pystr \<Rightarrow> opened option"
  kn_stat :: "pystr \<Rightarrow> fstat option"

text \<open>
  The interpreter around the script: JSON and digests, \<open>datetime.fromisoformat\<close> (\<open>None\<close>: no such text, \<open>Some None\<close>:
  no timezone, otherwise microseconds since the epoch), \<open>isoformat\<close> of such a time and of a time in seconds, the
  platform, the script's path and the clock.
\<close>

record interp =
  ip_tools :: tools
  ip_parse_iso :: "pystr \<Rightarrow> int option option"
  ip_iso :: "int \<Rightarrow> pystr"
  ip_iso_epoch :: "pyfloat \<Rightarrow> pystr"
  ip_platform :: pystr
  ip_script :: pystr
  ip_now :: pystr

subsection \<open>Code that may not return\<close>

type_synonym 'a run = "'a res option"

definition run_then :: "'a run \<Rightarrow> ('a \<Rightarrow> 'b run) \<Rightarrow> 'b run" where
  "run_then m f = (case m of None \<Rightarrow> None | Some (Inl e) \<Rightarrow> Some (Inl e) | Some (Inr x) \<Rightarrow> f x)"

lemma run_then_simps [simp]:
  "run_then None f = None" "run_then (Some (Inl e)) f = Some (Inl e)" "run_then (Some (Inr x)) f = f x"
  by (simp_all add: run_then_def)

lemma run_then_ok [ok_simps]: "run_then m f = Some (Inr r) \<longleftrightarrow> (\<exists>x. m = Some (Inr x) \<and> f x = Some (Inr r))"
  by (auto simp: run_then_def split: option.splits sum.splits)

lemma run_then_none: "run_then m f = None \<longleftrightarrow> m = None \<or> (\<exists>x. m = Some (Inr x) \<and> f x = None)"
  by (auto simp: run_then_def split: option.splits sum.splits)

subsection \<open>The accessors of the script\<close>

definition att_mapping :: "json \<Rightarrow> jobj res" where
  "att_mapping v = (case v of JObj m \<Rightarrow> Inr m | _ \<Rightarrow> Inl (AttestationError ''must be a JSON object''))"

definition att_string :: "json \<Rightarrow> pystr res" where
  "att_string v = (case v of JStr s \<Rightarrow> if s = [] then Inl (AttestationError ''must be a non-empty string'') else Inr s
     | _ \<Rightarrow> Inl (AttestationError ''must be a non-empty string''))"

definition att_integer :: "json \<Rightarrow> int \<Rightarrow> int res" where
  "att_integer v minimum = (case v of JInt i \<Rightarrow> if i < minimum then Inl (AttestationError ''must be an integer'') else Inr i
     | _ \<Rightarrow> Inl (AttestationError ''must be an integer''))"

text \<open>\<open>raw.replace("Z", "+00:00")\<close>, then the parse; the result is in microseconds.\<close>

definition utc_offset :: "pystr \<Rightarrow> pystr" where
  "utc_offset s = concat (map (\<lambda>c. if c = 90 then u ''+00:00'' else [c]) s)"

definition parse_iso8601 :: "interp \<Rightarrow> json \<Rightarrow> int res" where
  "parse_iso8601 ip v = and_then (att_string v) (\<lambda>raw.
     case ip_parse_iso ip (utc_offset raw) of
       None \<Rightarrow> Inl (AttestationError ''is not ISO-8601'')
     | Some None \<Rightarrow> Inl (AttestationError ''must include a timezone'')
     | Some (Some t) \<Rightarrow> Inr t)"

lemma att_mapping_ok [ok_simps]: "att_mapping v = Inr m \<longleftrightarrow> v = JObj m"
  by (auto simp: att_mapping_def split: json.splits)

lemma att_string_ok [ok_simps]: "att_string v = Inr s \<longleftrightarrow> v = JStr s \<and> s \<noteq> []"
  by (auto simp: att_string_def split: json.splits)

lemma att_integer_ok [ok_simps]: "att_integer v k = Inr i \<longleftrightarrow> v = JInt i \<and> k \<le> i"
  by (auto simp: att_integer_def split: json.splits)

subsection \<open>Reading to the end\<close>

text \<open>\<open>while True: block = os.read(descriptor, 1024 * 1024); if not block: break\<close>, from the \<open>i\<close>-th read on.\<close>

partial_function (option) read_to_end :: "(nat \<Rightarrow> bytes) \<Rightarrow> nat \<Rightarrow> bytes list \<Rightarrow> bytes list option" where
  "read_to_end reply i blocks =
     (let block = take block_size (reply i)
      in if block = [] then Some blocks else read_to_end reply (Suc i) (blocks @ [block]))"

text \<open>The fields compared between the two \<open>fstat\<close> results.\<close>

definition same_stat :: "fstat \<Rightarrow> fstat \<Rightarrow> bool" where
  "same_stat a b \<longleftrightarrow> st_dev a = st_dev b \<and> st_ino a = st_ino b \<and> st_size a = st_size b
     \<and> st_mtime_ns a = st_mtime_ns b \<and> st_ctime_ns a = st_ctime_ns b"

definition stat_fields :: "interp \<Rightarrow> fstat \<Rightarrow> (string \<times> json) list" where
  "stat_fields ip m =
     [(''device'', JInt (st_dev m)), (''inode'', JInt (st_ino m)), (''size_bytes'', JInt (st_size m)),
      (''mtime_ns'', JInt (st_mtime_ns m)), (''ctime_ns'', JInt (st_ctime_ns m)),
      (''birth_time_epoch'', case st_birth m of None \<Rightarrow> JNull | Some b \<Rightarrow> JFloat b),
      (''birth_time'', case st_birth m of None \<Rightarrow> JNull | Some b \<Rightarrow> JStr (ip_iso_epoch ip b))]"

text \<open>The common frame of the readers: resolve, open, \<open>fstat\<close>, read, \<open>fstat\<close>, compare.\<close>

definition read_regular :: "kernel \<Rightarrow> pystr \<Rightarrow> string \<Rightarrow> (pystr \<times> fstat \<times> bytes list) run" where
  "read_regular k p changed =
     (case kn_real k p of None \<Rightarrow> Some (Inl (OSError ''no such file'')) | Some resolved \<Rightarrow>
      case kn_open k resolved of None \<Rightarrow> Some (Inl (OSError ''cannot open'')) | Some f \<Rightarrow>
      if \<not> st_regular (op_before f) then Some (Inl (AttestationError ''is not a regular file''))
      else case read_to_end (op_reply f) 0 [] of None \<Rightarrow> None | Some blocks \<Rightarrow>
        Some (if same_stat (op_before f) (op_after f) then Inr (resolved, op_after f, blocks)
              else Inl (AttestationError changed)))"

definition file_record :: "interp \<Rightarrow> pystr \<Rightarrow> fstat \<Rightarrow> bytes list \<Rightarrow> (string \<times> json) list" where
  "file_record ip resolved m blocks =
     (''path'', JStr resolved) # stat_fields ip m
       @ [(''sha256'', JStr (sha_hex (tl_host (ip_tools ip)) (concat blocks)))]"

definition hash_regular_file :: "interp \<Rightarrow> kernel \<Rightarrow> pystr \<Rightarrow> jobj run" where
  "hash_regular_file ip k p =
     run_then (read_regular k p ''changed while it was being hashed'') (\<lambda>(resolved, m, blocks).
     Some (Inr (jobj (file_record ip resolved m blocks))))"

definition read_json_artifact :: "interp \<Rightarrow> kernel \<Rightarrow> pystr \<Rightarrow> (jobj \<times> jobj) run" where
  "read_json_artifact ip k p =
     run_then (read_regular k p ''changed while it was being read'') (\<lambda>(resolved, m, blocks).
     case loads (tl_host (ip_tools ip)) (concat blocks) of
       None \<Rightarrow> Some (Inl (AttestationError ''is not valid UTF-8 JSON''))
     | Some payload \<Rightarrow> run_then (Some (att_mapping payload)) (\<lambda>mapping.
         Some (Inr (mapping, jobj (file_record ip resolved m blocks)))))"

subsection \<open>Counting lines block by block\<close>

definition drop_cr :: "bytes \<Rightarrow> bytes" where
  "drop_cr line = (if line \<noteq> [] \<and> last line = 13 then butlast line else line)"

text \<open>The loop body on \<open>(nonempty_lines, pending)\<close>, and the unterminated rest at the end.\<close>

definition count_block :: "nat \<times> bytes \<Rightarrow> bytes \<Rightarrow> nat \<times> bytes" where
  "count_block s block =
     (let pieces = split_on 10 (snd s @ block)
      in (fst s + length (filter (\<lambda>line. drop_cr line \<noteq> []) (butlast pieces)), last pieces))"

definition count_blocks :: "bytes list \<Rightarrow> nat" where
  "count_blocks blocks =
     (case foldl count_block (0, []) blocks of (n, pending) \<Rightarrow> if drop_cr pending \<noteq> [] then n + 1 else n)"

definition hash_source_file :: "interp \<Rightarrow> kernel \<Rightarrow> pystr \<Rightarrow> jobj run" where
  "hash_source_file ip k p =
     run_then (read_regular k p ''changed while it was being hashed'') (\<lambda>(resolved, m, blocks).
     Some (Inr (jobj (file_record ip resolved m blocks @ [(''nonempty_lines'', JInt (int (count_blocks blocks)))]))))"

subsection \<open>Reading a prefix\<close>

text \<open>\<open>while remaining: block = os.read(descriptor, min(1024 * 1024, remaining)) ...\<close>\<close>

partial_function (option) read_prefix :: "(nat \<Rightarrow> bytes) \<Rightarrow> nat \<Rightarrow> nat \<Rightarrow> bytes list \<Rightarrow> bytes list run" where
  "read_prefix reply i remaining blocks =
     (if remaining = 0 then Some (Inr blocks)
      else let block = take (min block_size remaining) (reply i)
        in if block = [] then Some (Inl (AttestationError ''is shorter than its prefix''))
           else read_prefix reply (Suc i) (remaining - length block) (blocks @ [block]))"

definition hash_file_prefix :: "interp \<Rightarrow> kernel \<Rightarrow> pystr \<Rightarrow> int \<Rightarrow> pystr run" where
  "hash_file_prefix ip k p len =
     (if len \<le> 0 then Some (Inl (AttestationError ''prefix length must be positive''))
      else case kn_real k p of None \<Rightarrow> Some (Inl (OSError ''no such file'')) | Some resolved \<Rightarrow>
        case kn_open k resolved of None \<Rightarrow> Some (Inl (OSError ''cannot open'')) | Some f \<Rightarrow>
        run_then (read_prefix (op_reply f) 0 (nat len) []) (\<lambda>blocks.
        Some (if same_stat (op_before f) (op_after f) then Inr (sha_hex (tl_host (ip_tools ip)) (concat blocks))
              else Inl (AttestationError ''changed while its prefix was hashed''))))"

subsection \<open>When the loops end\<close>

text \<open>The first \<open>n\<close> blocks that a loop was given.\<close>

definition answered :: "(nat \<Rightarrow> bytes) \<Rightarrow> nat \<Rightarrow> bytes" where
  "answered reply n = concat (map (\<lambda>i. take block_size (reply i)) [0..<n])"

lemma read_to_end_steps:
  assumes "\<And>j. j < n \<Longrightarrow> reply (i + j) \<noteq> []" and "reply (i + n) = []"
  shows "read_to_end reply i blocks = Some (blocks @ map (\<lambda>j. take block_size (reply j)) [i..<i + n])"
  using assms
proof (induction n arbitrary: i blocks)
  case 0
  then show ?case by (subst read_to_end.simps) simp
next
  case (Suc n)
  have "reply i \<noteq> []" using Suc.prems(1) [of 0] by simp
  then have "read_to_end reply i blocks = read_to_end reply (Suc i) (blocks @ [take block_size (reply i)])"
    by (subst read_to_end.simps) (simp add: Let_def)
  also have "\<dots> = Some ((blocks @ [take block_size (reply i)]) @ map (\<lambda>j. take block_size (reply j)) [Suc i..<Suc i + n])"
    using Suc.prems by (intro Suc.IH) (use Suc.prems(1) [of "Suc _"] in auto)
  also have "\<dots> = Some (blocks @ map (\<lambda>j. take block_size (reply j)) [i..<i + Suc n])"
    by (simp add: upt_conv_Cons del: upt_Suc)
  finally show ?case .
qed

lemma read_to_end_ends: "read_to_end reply i blocks = Some bs \<Longrightarrow> \<exists>j. reply j = []"
  by (rule read_to_end.raw_induct [of "\<lambda>reply i blocks bs. \<exists>j. reply j = []", rotated])
    (auto simp: Let_def split: if_splits)

text \<open>The whole-file loops return exactly when some read is empty.\<close>

lemma read_to_end_returns: "(\<exists>bs. read_to_end reply 0 [] = Some bs) \<longleftrightarrow> (\<exists>j. reply j = [])"
proof
  assume "\<exists>j. reply j = []"
  then obtain n where n: "reply n = []" "\<And>j. j < n \<Longrightarrow> reply j \<noteq> []"
    using exists_least_iff [of "\<lambda>j. reply j = []"] by auto
  then show "\<exists>bs. read_to_end reply 0 [] = Some bs"
    using read_to_end_steps [of n reply 0 "[]"] by auto
qed (use read_to_end_ends in blast)

text \<open>The prefix loop returns on every descriptor, with exactly the bytes asked for or an error.\<close>

lemma read_prefix_returns:
  "(\<exists>e. read_prefix reply i remaining blocks = Some (Inl e))
   \<or> (\<exists>bs. read_prefix reply i remaining blocks = Some (Inr (blocks @ bs)) \<and> length (concat bs) = remaining)"
proof (induction remaining arbitrary: i blocks rule: less_induct)
  case (less remaining)
  let ?block = "take (min block_size remaining) (reply i)"
  show ?case
  proof (cases "remaining = 0 \<or> ?block = []")
    case True
    then have "read_prefix reply i remaining blocks = Some (if remaining = 0 then Inr (blocks @ []) else Inl (AttestationError ''is shorter than its prefix''))"
      by (subst read_prefix.simps) (simp only: Let_def if_True if_False append_Nil2 split: if_split, blast)
    then show ?thesis by (cases "remaining = 0") (auto intro: exI [of _ "[]"])
  next
    case False
    then have step: "read_prefix reply i remaining blocks
        = read_prefix reply (Suc i) (remaining - length ?block) (blocks @ [?block])"
      by (subst read_prefix.simps) (simp only: Let_def if_False de_Morgan_disj simp_thms)
    have le: "length ?block \<le> remaining" by simp
    have "0 < length ?block" using False by blast
    then have "remaining - length ?block < remaining" using False by linarith
    from less.IH [OF this, of "Suc i" "blocks @ [?block]"] show ?thesis
    proof (elim disjE exE conjE)
      fix bs
      assume "read_prefix reply (Suc i) (remaining - length ?block) (blocks @ [?block]) = Some (Inr ((blocks @ [?block]) @ bs))"
        and "length (concat bs) = remaining - length ?block"
      then have "read_prefix reply i remaining blocks = Some (Inr (blocks @ (?block # bs)))
          \<and> length (concat (?block # bs)) = remaining"
        using le unfolding step by (simp del: length_take)
      then show ?thesis by blast
    qed (use step in auto)
  qed
qed

end
