(* ===== verification/Capture.thy ===== *)
theory Capture
  imports Descriptor Attest
begin

text \<open>
  The live capture of \<open>attest_embedding_endpoint.py\<close>: the evidence that a cache checkpoint used one server process
  with one model file. The code observes the system one after the other (files through descriptors, the endpoint over
  HTTP, the process), so the system at its \<open>i\<close>-th observation is \<open>cx_kernel i\<close>; the process probe and the JSON
  query are parameters of the function in the code as well. One definition per part, in the order of the code.
\<close>

record url_parts =
  up_scheme :: pystr
  up_credentials :: bool
  up_query :: pystr
  up_fragment :: pystr
  up_host :: pystr
  up_path :: pystr
  up_port :: "int option res"

record endpoint =
  en_scheme :: pystr
  en_host :: pystr
  en_port :: int
  en_origin :: pystr
  en_health :: pystr
  en_props :: pystr
  en_embeddings :: pystr

text \<open>\<open>urlsplit\<close> is the interpreter's; \<open>up_credentials\<close> says that a user name or a password is given.\<close>

definition endpoint_urls :: "(pystr \<Rightarrow> url_parts res) \<Rightarrow> pystr \<Rightarrow> endpoint res" where
  "endpoint_urls urlsplit url =
     and_then (urlsplit url) (\<lambda>parsed.
     and_then (require (up_scheme parsed \<in> {u ''http'', u ''https''}) (AttestationError ''--endpoint must use http or https'')) (\<lambda>_.
     and_then (require (\<not> up_credentials parsed \<and> up_query parsed = [] \<and> up_fragment parsed = [])
        (AttestationError ''--endpoint must not contain credentials/query/fragment'')) (\<lambda>_.
     and_then (require (up_host parsed \<noteq> []) (AttestationError ''--endpoint must contain a host'')) (\<lambda>_.
     and_then (require (rstrip_while (\<lambda>c. c = 47) (up_path parsed) \<in> {[], u ''/v1'', u ''/v1/embeddings''})
        (AttestationError ''--endpoint path must be empty, /v1, or /v1/embeddings'')) (\<lambda>_.
     and_then (case up_port parsed of Inl (ValueError _) \<Rightarrow> Inl (AttestationError ''--endpoint contains an invalid port'') | r \<Rightarrow> r) (\<lambda>declared.
     let default_port = (if up_scheme parsed = u ''https'' then 443 else 80);
         port = (case declared of None \<Rightarrow> default_port | Some n \<Rightarrow> n);
         host = up_host parsed;
         host_for_url = (if 58 \<in> set host then 91 # host @ [93] else host);
         authority = (if port = default_port then host_for_url else host_for_url @ 58 # dec_int port);
         origin = up_scheme parsed @ u ''://'' @ authority
     in Inr \<lparr>en_scheme = up_scheme parsed, en_host = host, en_port = port, en_origin = origin,
          en_health = origin @ u ''/health'', en_props = origin @ u ''/props'', en_embeddings = origin @ u ''/v1/embeddings''\<rparr>))))))"

subsection \<open>The checkpoint\<close>

definition att_sub :: "jobj \<Rightarrow> string \<Rightarrow> jobj res" where
  "att_sub m k = att_mapping (jget m k)"

lemma att_sub_ok [ok_simps]: "att_sub m k = Inr x \<longleftrightarrow> jget m k = JObj x"
  by (simp add: att_sub_def ok_simps)

definition att_require :: "bool \<Rightarrow> string \<Rightarrow> unit res" where
  "att_require b words = require b (AttestationError words)"

lemma att_require_ok [ok_simps]: "att_require b e = Inr x \<longleftrightarrow> b"
  by (simp add: att_require_def ok_simps)

lemma att_require_True [simp]: "att_require True e = Inr ()"
  by (simp add: att_require_def)

definition stable_keys :: "string list" where
  "stable_keys = [''schema'', ''source'', ''cache_path'', ''fingerprint'', ''model'', ''role'', ''bindings'', ''embedding_endpoint'',
     ''batch_size'', ''requested_dimension'', ''prefix_cache_sha256'', ''input_hash'', ''dimension'', ''header_size'', ''prefix_seed'']"

definition checkpoint_stable :: "jobj \<Rightarrow> jobj" where
  "checkpoint_stable payload = jobj (map (\<lambda>key. (key, jget payload key)) stable_keys)"

definition resolve_declared_path :: "kernel \<Rightarrow> json \<Rightarrow> pystr \<Rightarrow> pystr res" where
  "resolve_declared_path k v base = and_then (att_string v) (\<lambda>path.
     case kn_real k (if is_absolute path then path else path_join base path) of
       None \<Rightarrow> Inl (OSError ''no such file'') | Some resolved \<Rightarrow> Inr resolved)"

definition is_file :: "kernel \<Rightarrow> pystr \<Rightarrow> bool" where
  "is_file k p = (case kn_stat k p of None \<Rightarrow> False | Some m \<Rightarrow> st_regular m)"

definition iso_timestamp :: "int \<Rightarrow> pyfloat" where
  "iso_timestamp t = rnd64 (of_int t / 1000000)"

definition start_record :: "interp \<Rightarrow> jobj \<Rightarrow> fstat \<Rightarrow> (string \<times> json) list res" where
  "start_record ip checkpoint m =
     (if st_birth m \<noteq> None then
        Inr (stat_fields ip m @ [(''start_time_source'', JStr (u ''filesystem birth time of the append-only cache/partial artifact''))])
      else if jget checkpoint ''created_at'' \<noteq> JNull then
        and_then (parse_iso8601 ip (jget checkpoint ''created_at'')) (\<lambda>created_at.
        Inr (dict_set (dict_set (stat_fields ip m) ''birth_time_epoch'' (JFloat (iso_timestamp created_at)))
               ''birth_time'' (JStr (ip_iso ip created_at)) @ [(''start_time_source'', JStr (u ''checkpoint.created_at''))]))
      else Inr (stat_fields ip m @ [(''start_time_source'',
        JStr (u ''unavailable: filesystem has no birth time and the checkpoint predates created_at support''))]))"

definition checkpoint_start_artifact :: "interp \<Rightarrow> kernel \<Rightarrow> jobj \<Rightarrow> pystr \<Rightarrow> jobj res" where
  "checkpoint_start_artifact ip k checkpoint cp =
     and_then (att_string (jget checkpoint ''cache_path'')) (\<lambda>declared.
     let cache = kn_path k (if is_absolute declared then declared else path_join (path_parent cp) declared) in
     case filter (is_file k) [cache, partial_path cache] of
       [found] \<Rightarrow>
         (case kn_real k found of None \<Rightarrow> Inl (OSError ''no such file'') | Some resolved \<Rightarrow>
          case kn_stat k resolved of None \<Rightarrow> Inl (OSError ''no such file'') | Some m \<Rightarrow>
          and_then (att_require (st_regular m) ''checkpoint start artifact is not a regular file'') (\<lambda>_.
          and_then (start_record ip checkpoint m) (\<lambda>items.
          Inr (jobj ((''path'', JStr resolved) # items)))))
     | _ \<Rightarrow> Inl (AttestationError ''checkpoint must have exactly one cache or partial-cache start artifact''))"

text \<open>The binding of a checkpoint to the hashed source and model, which parity has to confirm later.\<close>

definition model_record :: "jobj \<Rightarrow> json \<Rightarrow> json" where
  "model_record model declared = JObj (jobj [(''embedding_model'', jget model ''embedding_model''),
     (''native_fingerprint'', jget model ''native_fingerprint''), (''declared_identity'', jget model ''declared_identity''), (''artifact'', declared)])"

definition check_declared_source :: "kernel \<Rightarrow> jobj \<Rightarrow> pystr \<Rightarrow> jobj \<Rightarrow> int \<Rightarrow> unit res" where
  "check_declared_source k checkpoint cp source expected =
     and_then (att_sub checkpoint ''source'') (\<lambda>declared.
     and_then (resolve_declared_path k (jget declared ''path'') (path_parent cp)) (\<lambda>path.
     and_then (att_require (JStr path = jget source ''path'') ''checkpoint source path differs from the hashed source'') (\<lambda>_.
     and_then (att_require (list_all (\<lambda>key. py_eq (jget declared key) (jget source key)) [''size_bytes'', ''sha256'', ''nonempty_lines''])
        ''checkpoint source differs'') (\<lambda>_.
     att_require (py_eq (jget source ''nonempty_lines'') (JInt expected)) ''tier requires source rows''))))"

definition check_declared_model :: "interp \<Rightarrow> kernel \<Rightarrow> jobj \<Rightarrow> pystr \<Rightarrow> jobj \<Rightarrow> jobj res" where
  "check_declared_model ip k checkpoint cp artifact =
     and_then (att_sub checkpoint ''model'') (\<lambda>model.
     and_then (att_sub model ''artifact'') (\<lambda>declared.
     and_then (resolve_declared_path k (jget declared ''path'') (path_parent cp)) (\<lambda>path.
     and_then (att_require (JStr path = jget artifact ''path'') ''checkpoint model artifact path differs'') (\<lambda>_.
     and_then (att_require (list_all (\<lambda>key. py_eq (jget declared key) (jget artifact key)) [''size_bytes'', ''sha256''])
        ''checkpoint model artifact differs'') (\<lambda>_.
     and_then (collector_hash (ip_tools ip) (model_record model (JObj declared))) (\<lambda>hash.
     and_then (att_require (py_eq (jget model ''sha256'') (JStr hash)) ''checkpoint model descriptor SHA-256 differs'') (\<lambda>_.
     Inr model)))))))"

definition validate_checkpoint :: "interp \<Rightarrow> kernel \<Rightarrow> jobj \<Rightarrow> pystr \<Rightarrow> jobj \<Rightarrow> jobj \<Rightarrow> endpoint \<Rightarrow> pystr \<Rightarrow> int \<Rightarrow> jobj res" where
  "validate_checkpoint ip k checkpoint cp source artifact endpoint tier expected =
     and_then (att_require (py_eq (jget checkpoint ''schema'') (JStr (u ''leann-cache-generation-checkpoint-v1''))) ''unsupported cache checkpoint schema'') (\<lambda>_.
     and_then (att_require (py_eq (jget checkpoint ''role'') (JStr (u ''corpus''))) ''endpoint attestation requires a corpus checkpoint'') (\<lambda>_.
     and_then (att_require (jget checkpoint ''status'' \<in> {JStr (u ''running''), JStr (u ''ready-to-publish'')}) ''checkpoint is not running or ready-to-publish'') (\<lambda>_.
     and_then (att_require (py_eq (jget checkpoint ''embedding_endpoint'') (JStr (en_embeddings endpoint))) ''checkpoint embedding endpoint differs'') (\<lambda>_.
     and_then (check_declared_source k checkpoint cp source expected) (\<lambda>_.
     and_then (check_declared_model ip k checkpoint cp artifact) (\<lambda>model.
     and_then (att_integer (jget checkpoint ''dimension'') 1) (\<lambda>dimension.
     and_then (att_require (jget checkpoint ''requested_dimension'' = JNull \<or> py_eq (jget checkpoint ''requested_dimension'') (JInt dimension))
        ''checkpoint requested/observed dimensions differ'') (\<lambda>_.
     and_then (att_integer (jget checkpoint ''completed_rows'') 0) (\<lambda>completed.
     and_then (att_require (completed \<le> expected) ''checkpoint completed_rows exceeds the tier'') (\<lambda>_.
     and_then (parse_iso8601 ip (jget checkpoint ''updated_at'')) (\<lambda>_.
     and_then (att_string (jget checkpoint ''input_hash'')) (\<lambda>input_hash.
     and_then (att_string (jget checkpoint ''fingerprint'')) (\<lambda>fingerprint.
     Inr (jobj [(''tier'', JStr tier), (''expected_source_count'', JInt expected), (''source'', JObj source),
       (''model_descriptor_sha256'', jget model ''sha256''), (''model_artifact_sha256'', jget artifact ''sha256''),
       (''fingerprint'', JStr fingerprint), (''dimension'', JInt dimension), (''checkpoint_input_hash'', JStr input_hash)]))))))))))))))"

subsection \<open>The prefix seed\<close>

definition seed_cache :: "interp \<Rightarrow> kernel \<Rightarrow> jobj \<Rightarrow> pystr \<Rightarrow> jobj \<Rightarrow> (pystr \<times> jobj \<times> pystr) run" where
  "seed_cache ip k checkpoint cp seed =
     run_then (Some (resolve_declared_path k (jget seed ''cache'') (path_parent cp))) (\<lambda>path.
     run_then (hash_regular_file ip k path) (\<lambda>cache.
     run_then (Some (att_string (jget seed ''cache_sha256''))) (\<lambda>expected.
     run_then (Some (att_require (py_eq (jget cache ''sha256'') (JStr expected) \<and> py_eq (jget checkpoint ''prefix_cache_sha256'') (JStr expected))
        ''prefix cache SHA-256 differs from checkpoint'')) (\<lambda>_.
     Some (Inr (path, cache, expected))))))"

definition seed_rows :: "interp \<Rightarrow> kernel \<Rightarrow> pystr \<Rightarrow> jobj \<Rightarrow> (int \<times> int \<times> pystr) run" where
  "seed_rows ip k source_path seed =
     run_then (Some (att_integer (jget seed ''rows'') 1)) (\<lambda>rows.
     run_then (Some (att_integer (jget seed ''source_prefix_size_bytes'') 1)) (\<lambda>n.
     run_then (Some (att_string (jget seed ''source_prefix_sha256''))) (\<lambda>sha.
     run_then (hash_file_prefix ip k source_path n) (\<lambda>found.
     run_then (Some (att_require (found = sha) ''target source bytes do not match prefix-cache source'')) (\<lambda>_.
     run_then (Some (att_require (jget seed ''vectors_copied_bitwise'' = JBool True) ''checkpoint does not prove bitwise prefix vector reuse'')) (\<lambda>_.
     Some (Inr (rows, n, sha))))))))"

definition seed_sidecar :: "interp \<Rightarrow> kernel \<Rightarrow> jobj \<Rightarrow> pystr \<Rightarrow> jobj \<Rightarrow> int \<Rightarrow> int \<Rightarrow> pystr \<Rightarrow> (jobj \<times> jobj \<times> jobj) run" where
  "seed_sidecar ip k checkpoint path cache rows n sha =
     run_then (read_json_artifact ip k (sidecar_path path)) (\<lambda>(sidecar, sidecar_file).
     run_then (Some (att_require (py_eq (jget sidecar ''schema'') (JStr (u ''leann-shared-embedding-cache-v1''))
          \<and> py_eq (jget sidecar ''role'') (JStr (u ''corpus''))) ''prefix cache has invalid provenance sidecar'')) (\<lambda>_.
     run_then (Some (att_sub sidecar ''cache'')) (\<lambda>declared.
     run_then (Some (att_require (py_eq (jget declared ''sha256'') (jget cache ''sha256'') \<and> py_eq (jget declared ''count'') (JInt rows)
          \<and> py_eq (jget declared ''source_size_bytes'') (JInt n) \<and> py_eq (jget declared ''source_sha256'') (JStr sha)
          \<and> py_eq (jget declared ''dimensions'') (jget checkpoint ''dimension'')
          \<and> py_eq (jget declared ''fingerprint'') (jget checkpoint ''fingerprint'')) ''prefix cache sidecar binding differs'')) (\<lambda>_.
     Some (Inr (sidecar, sidecar_file, declared))))))"

definition seed_source :: "interp \<Rightarrow> kernel \<Rightarrow> pystr \<Rightarrow> jobj \<Rightarrow> int \<Rightarrow> int \<Rightarrow> pystr \<Rightarrow> jobj run" where
  "seed_source ip k path sidecar rows n sha =
     run_then (Some (att_sub sidecar ''source'')) (\<lambda>declared.
     run_then (Some (resolve_declared_path k (jget declared ''path'') (path_parent (sidecar_path path)))) (\<lambda>source_path.
     run_then (hash_source_file ip k source_path) (\<lambda>source.
     run_then (Some (att_require (list_all (\<lambda>(key, expected). py_eq (jget declared key) expected \<and> py_eq (jget source key) expected)
          [(''size_bytes'', JInt n), (''sha256'', JStr sha), (''nonempty_lines'', JInt rows)]) ''prefix cache source differs'')) (\<lambda>_.
     Some (Inr source)))))"

definition seed_model :: "jobj \<Rightarrow> jobj \<Rightarrow> jobj \<Rightarrow> endpoint \<Rightarrow> (jobj \<times> json) res" where
  "seed_model checkpoint sidecar artifact endpoint =
     and_then (att_sub sidecar ''model'') (\<lambda>model.
     and_then (att_sub model ''artifact'') (\<lambda>declared.
     and_then (att_sub checkpoint ''model'') (\<lambda>checkpoint_model.
     and_then (att_require (py_eq (jget model ''sha256'') (jget checkpoint_model ''sha256'') \<and> py_eq (jget declared ''sha256'') (jget artifact ''sha256''))
        ''prefix cache model differs from checkpoint model'') (\<lambda>_.
     and_then (att_sub sidecar ''generation'') (\<lambda>generation.
     and_then (att_require (py_eq (jget generation ''endpoint'') (JStr (en_embeddings endpoint))) ''prefix cache generation endpoint differs'') (\<lambda>_.
     Inr (model, jget generation ''endpoint'')))))))"

text \<open>When the generation of the prefix cache began: seconds since the epoch, and where they come from.\<close>

definition seed_start :: "interp \<Rightarrow> jobj \<Rightarrow> jobj \<Rightarrow> (pyfloat \<times> pystr) res" where
  "seed_start ip cache sidecar =
     (case jget cache ''birth_time_epoch'' of
        JFloat birth \<Rightarrow> Inr (birth, u ''filesystem birth time of completed prefix cache'')
      | _ \<Rightarrow> and_then (parse_iso8601 ip (jget sidecar ''created_at'')) (\<lambda>created_at.
          Inr (iso_timestamp created_at, u ''prefix sidecar created_at'')))"

definition prefix_seed_evidence :: "interp \<Rightarrow> kernel \<Rightarrow> jobj \<Rightarrow> pystr \<Rightarrow> pystr \<Rightarrow> jobj \<Rightarrow> endpoint \<Rightarrow> (jobj \<times> pyfloat \<times> pystr) option run" where
  "prefix_seed_evidence ip k checkpoint cp source_path artifact endpoint =
     (if jget checkpoint ''prefix_seed'' = JNull then Some (Inr None)
      else run_then (Some (att_sub checkpoint ''prefix_seed'')) (\<lambda>seed.
        run_then (seed_cache ip k checkpoint cp seed) (\<lambda>(path, cache, _).
        run_then (seed_rows ip k source_path seed) (\<lambda>(rows, n, sha).
        run_then (seed_sidecar ip k checkpoint path cache rows n sha) (\<lambda>(sidecar, sidecar_file, declared).
        run_then (seed_source ip k path sidecar rows n sha) (\<lambda>source.
        run_then (Some (seed_model checkpoint sidecar artifact endpoint)) (\<lambda>(model, generation).
        run_then (Some (seed_start ip cache sidecar)) (\<lambda>(start, start_source).
        Some (Inr (Some (jobj
          [(''cache'', JObj cache), (''cache_metadata'', JObj declared), (''sidecar'', JObj sidecar_file), (''source'', JObj source),
           (''model'', JObj model), (''rows'', JInt rows), (''source_prefix_size_bytes'', JInt n), (''source_prefix_sha256'', JStr sha),
           (''vectors_copied_bitwise'', JBool True), (''generation_endpoint'', generation), (''start_time_epoch'', JFloat start),
           (''start_time'', JStr (ip_iso_epoch ip start)), (''start_time_source'', JStr start_source)], start, start_source)))))))))))"

subsection \<open>The endpoint\<close>

definition validate_props :: "kernel \<Rightarrow> jobj \<Rightarrow> jobj \<Rightarrow> pystr \<Rightarrow> pystr \<Rightarrow> pystr option \<Rightarrow> jobj res" where
  "validate_props k health props expected_build expected_artifact server_cwd =
     and_then (att_sub health ''payload'') (\<lambda>health_payload.
     and_then (att_require (py_eq (jget health_payload ''status'') (JStr (u ''ok''))) ''llama-server /health status is not ok'') (\<lambda>_.
     and_then (att_sub props ''payload'') (\<lambda>payload.
     and_then (att_string (jget payload ''build_info'')) (\<lambda>build.
     and_then (att_require (build = expected_build) ''props build_info differs'') (\<lambda>_.
     and_then (att_string (jget payload ''model_path'')) (\<lambda>raw.
     and_then (if is_absolute raw then Inr raw
               else case server_cwd of
                 None \<Rightarrow> Inl (AttestationError ''relative props model_path requires a verified server working directory'')
               | Some cwd \<Rightarrow> Inr (path_join cwd raw)) (\<lambda>path.
     case (kn_real k path, kn_real k expected_artifact) of
       (Some model, Some expected) \<Rightarrow>
         and_then (att_require (model = expected) ''props model_path differs from expected artifact'') (\<lambda>_.
         Inr (jobj [(''model_path'', JStr model), (''build_info'', JStr build), (''model_alias'', jget payload ''model_alias''),
           (''model_ftype'', jget payload ''model_ftype'')]))
     | _ \<Rightarrow> Inl (OSError ''no such file''))))))))"

subsection \<open>The capture\<close>

text \<open>What the caller fixes, and the system: files, process probe and HTTP query at the \<open>i\<close>-th observation.\<close>

record capture_args =
  ca_endpoint :: pystr
  ca_artifact :: pystr
  ca_build :: pystr
  ca_pid :: "int option"
  ca_checkpoint :: pystr
  ca_tier :: pystr
  ca_count :: int
  ca_timeout :: pyfloat
  ca_process :: bool

record system_view =
  cx_urlsplit :: "pystr \<Rightarrow> url_parts res"
  cx_kernel :: "nat \<Rightarrow> kernel"
  cx_probe :: "nat \<Rightarrow> pystr \<Rightarrow> int \<Rightarrow> int option \<Rightarrow> pystr \<Rightarrow> jobj res"
  cx_query :: "nat \<Rightarrow> pystr \<Rightarrow> pyfloat \<Rightarrow> jobj res"

text \<open>What is read before the endpoint is asked.\<close>

record capture_inputs =
  ci_endpoint :: endpoint
  ci_tool :: jobj
  ci_artifact :: jobj
  ci_checkpoint :: jobj
  ci_checkpoint_file :: jobj
  ci_source_path :: pystr
  ci_source :: jobj
  ci_start :: jobj
  ci_seed :: "(jobj \<times> pyfloat \<times> pystr) option"

definition checkpoint_at :: "system_view \<Rightarrow> capture_args \<Rightarrow> nat \<Rightarrow> pystr" where
  "checkpoint_at sv a i = kn_path (cx_kernel sv i) (ca_checkpoint a)"

definition read_inputs :: "interp \<Rightarrow> system_view \<Rightarrow> capture_args \<Rightarrow> capture_inputs run" where
  "read_inputs ip sv a =
     run_then (Some (endpoint_urls (cx_urlsplit sv) (ca_endpoint a))) (\<lambda>endpoint.
     run_then (Some (att_require (en_scheme endpoint = u ''http'') ''process-bound llama-server attestation requires HTTP'')) (\<lambda>_.
     run_then (hash_regular_file ip (cx_kernel sv 0) (ip_script ip)) (\<lambda>tool.
     run_then (hash_regular_file ip (cx_kernel sv 1) (ca_artifact a)) (\<lambda>artifact.
     run_then (read_json_artifact ip (cx_kernel sv 2) (ca_checkpoint a)) (\<lambda>(checkpoint, checkpoint_file).
     run_then (Some (att_sub checkpoint ''source'')) (\<lambda>declared.
     run_then (Some (resolve_declared_path (cx_kernel sv 3) (jget declared ''path'') (path_parent (checkpoint_at sv a 3)))) (\<lambda>source_path.
     run_then (hash_source_file ip (cx_kernel sv 4) source_path) (\<lambda>source.
     run_then (Some (checkpoint_start_artifact ip (cx_kernel sv 5) checkpoint (checkpoint_at sv a 5))) (\<lambda>start.
     run_then (prefix_seed_evidence ip (cx_kernel sv 6) checkpoint (checkpoint_at sv a 6) source_path artifact endpoint) (\<lambda>seed.
     Some (Inr \<lparr>ci_endpoint = endpoint, ci_tool = tool, ci_artifact = artifact, ci_checkpoint = checkpoint,
       ci_checkpoint_file = checkpoint_file, ci_source_path = source_path, ci_source = source, ci_start = start, ci_seed = seed\<rparr>)))))))))))"

definition proof_requested :: "capture_args \<Rightarrow> bool" where
  "proof_requested a \<longleftrightarrow> ca_process a \<or> ca_pid a \<noteq> None"

definition probe_process :: "interp \<Rightarrow> system_view \<Rightarrow> capture_args \<Rightarrow> endpoint \<Rightarrow> jobj option res" where
  "probe_process ip sv a endpoint =
     and_then
       (if proof_requested a \<or> ip_platform ip = u ''darwin'' \<or> startswith (ip_platform ip) (u ''linux'') then
          case cx_probe sv 0 (en_host endpoint) (en_port endpoint) (ca_pid a) (ca_artifact a) of
            Inr snapshot \<Rightarrow> Inr (Some snapshot)
          | Inl (AttestationError words) \<Rightarrow> if proof_requested a then Inl (AttestationError words) else Inr None
          | Inl e \<Rightarrow> Inl e
        else Inr None) (\<lambda>before.
     and_then (att_require (\<not> (ca_process a \<and> before = None)) ''required process proof is unavailable'') (\<lambda>_.
     and_then (att_require (case ca_pid a of None \<Rightarrow> True | Some pid \<Rightarrow>
         (case before of None \<Rightarrow> False | Some snapshot \<Rightarrow> py_eq (jget snapshot ''pid'') (JInt pid))) ''listener PID differs from --expected-pid'') (\<lambda>_.
     Inr before)))"

text \<open>The endpoint before and after the checkpoint is validated.\<close>

record observed =
  ob_health_before :: jobj
  ob_props_before :: jobj
  ob_health_after :: jobj
  ob_props_after :: jobj
  ob_identity :: jobj
  ob_binding :: jobj

definition working_directory :: "interp \<Rightarrow> jobj option \<Rightarrow> pystr option res" where
  "working_directory ip before = (case before of None \<Rightarrow> Inr None
     | Some snapshot \<Rightarrow> and_then (jidx snapshot ''working_directory'') (\<lambda>v. Inr (Some (py_str (ip_tools ip) v))))"

definition observe_endpoint :: "interp \<Rightarrow> system_view \<Rightarrow> capture_args \<Rightarrow> capture_inputs \<Rightarrow> jobj option \<Rightarrow> observed res" where
  "observe_endpoint ip sv a ci before =
     (let endpoint = ci_endpoint ci;
          props_identity = (\<lambda>i health props cwd. validate_props (cx_kernel sv i) health props (ca_build a) (ca_artifact a) cwd) in
      and_then (cx_query sv 0 (en_health endpoint) (ca_timeout a)) (\<lambda>health_before.
      and_then (cx_query sv 1 (en_props endpoint) (ca_timeout a)) (\<lambda>props_before.
      and_then (working_directory ip before) (\<lambda>cwd.
      and_then (props_identity 7 health_before props_before cwd) (\<lambda>identity_before.
      and_then (validate_checkpoint ip (cx_kernel sv 8) (ci_checkpoint ci) (checkpoint_at sv a 8) (ci_source ci) (ci_artifact ci) endpoint
          (ca_tier a) (ca_count a)) (\<lambda>binding.
      and_then (cx_query sv 2 (en_health endpoint) (ca_timeout a)) (\<lambda>health_after.
      and_then (cx_query sv 3 (en_props endpoint) (ca_timeout a)) (\<lambda>props_after.
      and_then (props_identity 9 health_after props_after cwd) (\<lambda>identity_after.
      and_then (att_require (py_eq (JObj identity_after) (JObj identity_before)) ''llama-server props identity changed during capture'') (\<lambda>_.
      Inr \<lparr>ob_health_before = health_before, ob_props_before = props_before, ob_health_after = health_after,
        ob_props_after = props_after, ob_identity = identity_before, ob_binding = binding\<rparr>))))))))))"

text \<open>Everything again, after the endpoint was asked.\<close>

definition same_file_identity :: "jobj \<Rightarrow> jobj \<Rightarrow> bool" where
  "same_file_identity before after \<longleftrightarrow> list_all (\<lambda>key. py_eq (jget before key) (jget after key))
     [''path'', ''device'', ''inode'', ''size_bytes'', ''mtime_ns'', ''ctime_ns'', ''sha256'']"

definition source_unchanged :: "kernel \<Rightarrow> pystr \<Rightarrow> jobj \<Rightarrow> unit res" where
  "source_unchanged k path source =
     (case kn_real k path of None \<Rightarrow> Inl (OSError ''no such file'') | Some resolved \<Rightarrow>
      case kn_stat k resolved of None \<Rightarrow> Inl (OSError ''no such file'') | Some m \<Rightarrow>
      att_require (list_all (\<lambda>(key, seen). py_eq (jget source key) (JInt seen))
        [(''device'', st_dev m), (''inode'', st_ino m), (''size_bytes'', st_size m), (''mtime_ns'', st_mtime_ns m), (''ctime_ns'', st_ctime_ns m)])
        ''checkpoint source changed during capture'')"

record rechecked =
  re_artifact :: jobj
  re_process :: "jobj option"
  re_checkpoint_file :: jobj
  re_rows_before :: int
  re_rows_after :: int
  re_start :: jobj

definition probe_again :: "system_view \<Rightarrow> capture_args \<Rightarrow> endpoint \<Rightarrow> jobj option \<Rightarrow> jobj option res" where
  "probe_again sv a endpoint before = (case before of None \<Rightarrow> Inr None | Some first \<Rightarrow>
     and_then (cx_probe sv 1 (en_host endpoint) (en_port endpoint) (ca_pid a) (ca_artifact a)) (\<lambda>after.
     and_then (att_require (py_eq (jget after ''identity_sha256'') (jget first ''identity_sha256''))
        ''listener process identity changed during capture'') (\<lambda>_. Inr (Some after))))"

definition recheck :: "interp \<Rightarrow> system_view \<Rightarrow> capture_args \<Rightarrow> capture_inputs \<Rightarrow> jobj option \<Rightarrow> rechecked run" where
  "recheck ip sv a ci before =
     run_then (hash_regular_file ip (cx_kernel sv 10) (ca_artifact a)) (\<lambda>artifact_after.
     run_then (Some (att_require (same_file_identity (ci_artifact ci) artifact_after) ''expected GGUF artifact changed during capture'')) (\<lambda>_.
     run_then (Some (source_unchanged (cx_kernel sv 11) (ci_source_path ci) (ci_source ci))) (\<lambda>_.
     run_then (Some (probe_again sv a (ci_endpoint ci) before)) (\<lambda>after.
     run_then (read_json_artifact ip (cx_kernel sv 12) (ca_checkpoint a)) (\<lambda>(checkpoint_after, checkpoint_file_after).
     run_then (Some (att_require (py_eq (JObj (checkpoint_stable checkpoint_after)) (JObj (checkpoint_stable (ci_checkpoint ci))))
        ''checkpoint stable identity changed during capture'')) (\<lambda>_.
     run_then (Some (att_integer (jget (ci_checkpoint ci) ''completed_rows'') 0)) (\<lambda>before_rows.
     run_then (Some (att_integer (jget checkpoint_after ''completed_rows'') 0)) (\<lambda>after_rows.
     run_then (Some (att_require (before_rows \<le> after_rows) ''checkpoint progress moved backwards during capture'')) (\<lambda>_.
     run_then (Some (validate_checkpoint ip (cx_kernel sv 13) checkpoint_after (checkpoint_at sv a 13) (ci_source ci) (ci_artifact ci)
        (ci_endpoint ci) (ca_tier a) (ca_count a))) (\<lambda>_.
     run_then (Some (checkpoint_start_artifact ip (cx_kernel sv 14) checkpoint_after (checkpoint_at sv a 14))) (\<lambda>start_after.
     run_then (Some (att_require (list_all (\<lambda>key. py_eq (jget start_after key) (jget (ci_start ci) key)) [''path'', ''device'', ''inode'', ''birth_time_epoch''])
        ''checkpoint start artifact changed during capture'')) (\<lambda>_.
     Some (Inr \<lparr>re_artifact = artifact_after, re_process = after, re_checkpoint_file = checkpoint_file_after,
       re_rows_before = before_rows, re_rows_after = after_rows, re_start = start_after\<rparr>)))))))))))))"

subsection \<open>The process proof\<close>

definition float_of_json :: "json \<Rightarrow> pyfloat res" where
  "float_of_json v = (case v of JFloat f \<Rightarrow> Inr f | JInt i \<Rightarrow> fl_of_int i | JBool b \<Rightarrow> Inr (Fin (if b then 1 else 0))
     | JStr s \<Rightarrow> (case py_float s of None \<Rightarrow> Inl (ValueError ''could not convert string to float'') | Some f \<Rightarrow> Inr f)
     | _ \<Rightarrow> Inl (TypeError ''float() argument''))"

text \<open>\<open>min(candidates, key=lambda value: value[0])\<close>: the first of the least.\<close>

fun earliest :: "(pyfloat \<times> 'a) list \<Rightarrow> (pyfloat \<times> 'a) option" where
  "earliest [] = None"
| "earliest (c # cs) = Some (foldl (\<lambda>best x. if fl_lt (fst x) (fst best) then x else best) c cs)"

definition start_candidates :: "capture_inputs \<Rightarrow> (pyfloat \<times> pystr) list" where
  "start_candidates ci =
     (case (jget (ci_start ci) ''birth_time_epoch'', jget (ci_start ci) ''start_time_source'') of
        (JFloat birth, JStr words) \<Rightarrow> [(birth, words)] | _ \<Rightarrow> [])
     @ (case ci_seed ci of None \<Rightarrow> [] | Some (_, start, words) \<Rightarrow> [(start, words)])"

definition mtime_seconds :: "jobj \<Rightarrow> pyfloat res" where
  "mtime_seconds artifact = (case jget artifact ''mtime_ns'' of JInt ns \<Rightarrow> int_true_div ns 1000000000
     | _ \<Rightarrow> Inl (TypeError ''unsupported operand''))"

definition started_before :: "interp \<Rightarrow> capture_inputs \<Rightarrow> jobj \<Rightarrow> (pyfloat \<times> pystr) res" where
  "started_before ip ci before =
     and_then (and_then (jidx before ''process_start_epoch'') float_of_json) (\<lambda>process_start.
     case earliest (start_candidates ci) of
       None \<Rightarrow> Inl (AttestationError ''cannot prove cache generation start'')
     | Some (start, start_source) \<Rightarrow>
         and_then (att_require (\<not> fl_le start process_start) ''server process did not start before cache generation'') (\<lambda>_.
         and_then (mtime_seconds (ci_artifact ci)) (\<lambda>modified.
         and_then (att_require (\<not> fl_lt process_start modified) ''GGUF artifact was modified after the server process started'') (\<lambda>_.
         and_then (parse_iso8601 ip (jget (ci_checkpoint ci) ''updated_at'')) (\<lambda>updated.
         and_then (att_require (\<not> fl_le (iso_timestamp updated) process_start) ''server process did not start before checkpoint update'') (\<lambda>_.
         Inr (start, start_source)))))))"

definition process_proof :: "interp \<Rightarrow> capture_args \<Rightarrow> capture_inputs \<Rightarrow> jobj option \<Rightarrow> jobj option \<Rightarrow> jobj res" where
  "process_proof ip a ci before after =
     (case (before, after) of
        (Some first, Some second) \<Rightarrow>
          and_then (started_before ip ci first) (\<lambda>(start, start_source).
          Inr (jobj [(''status'', JStr (u ''verified'')), (''required'', JBool (ca_process a)), (''platform'', JStr (ip_platform ip)),
            (''before'', JObj first), (''after'', JObj second), (''unchanged'', JBool True), (''server_started_before_checkpoint'', JBool True),
            (''checkpoint_start_source'', JStr start_source), (''earliest_cache_generation_start_time'', JStr (ip_iso_epoch ip start))]))
      | _ \<Rightarrow> Inr (jobj [(''status'', JStr (u ''unavailable'')), (''required'', JBool (ca_process a)), (''platform'', JStr (ip_platform ip)),
            (''server_started_before_checkpoint'', JNull)]))"

subsection \<open>The report\<close>

definition endpoint_evidence :: "endpoint \<Rightarrow> observed \<Rightarrow> json" where
  "endpoint_evidence endpoint ob = JObj (jobj
     [(''origin'', JStr (en_origin endpoint)), (''embedding_url'', JStr (en_embeddings endpoint)), (''host'', JStr (en_host endpoint)),
      (''port'', JInt (en_port endpoint)), (''health_before'', JObj (ob_health_before ob)), (''props_before'', JObj (ob_props_before ob)),
      (''health_after'', JObj (ob_health_after ob)), (''props_after'', JObj (ob_props_after ob)), (''props_identity'', JObj (ob_identity ob))])"

definition checkpoint_evidence :: "capture_inputs \<Rightarrow> rechecked \<Rightarrow> json" where
  "checkpoint_evidence ci re = JObj (jobj
     [(''before'', JObj (ci_checkpoint_file ci)), (''after'', JObj (re_checkpoint_file re)),
      (''stable_identity'', JObj (checkpoint_stable (ci_checkpoint ci))), (''completed_rows_before'', JInt (re_rows_before re)),
      (''completed_rows_after'', JInt (re_rows_after re)), (''start_artifact_before'', JObj (ci_start ci)), (''start_artifact_after'', JObj (re_start re))])"

definition live_evidence :: "capture_args \<Rightarrow> capture_inputs \<Rightarrow> observed \<Rightarrow> rechecked \<Rightarrow> jobj \<Rightarrow> jobj" where
  "live_evidence a ci ob re proc = jobj
     [(''tool'', JObj (ci_tool ci)), (''endpoint'', endpoint_evidence (ci_endpoint ci) ob), (''model_artifact'', JObj (ci_artifact ci)),
      (''model_artifact_after'', JObj (re_artifact re)), (''model_artifact_unchanged'', JBool True), (''expected_build_info'', JStr (ca_build a)),
      (''checkpoint'', checkpoint_evidence ci re), (''source'', JObj (ci_source ci)), (''source_unchanged'', JBool True),
      (''prefix_seed'', case ci_seed ci of None \<Rightarrow> JNull | Some (seed, _) \<Rightarrow> JObj seed), (''process_proof'', JObj proc),
      (''required_post_run_native_parity'', JObj (ob_binding ob))]"

definition capture_attestation :: "interp \<Rightarrow> system_view \<Rightarrow> capture_args \<Rightarrow> jobj run" where
  "capture_attestation ip sv a =
     run_then (read_inputs ip sv a) (\<lambda>ci.
     run_then (Some (probe_process ip sv a (ci_endpoint ci))) (\<lambda>before.
     run_then (Some (observe_endpoint ip sv a ci before)) (\<lambda>ob.
     run_then (recheck ip sv a ci before) (\<lambda>re.
     run_then (Some (process_proof ip a ci before (re_process re))) (\<lambda>proc.
     let evidence = live_evidence a ci ob re proc in
     run_then (Some (collector_hash (ip_tools ip) (JObj evidence))) (\<lambda>hash.
     Some (Inr (jobj [(''schema'', JStr attestation_schema), (''phase'', JStr (u ''live-capture'')), (''created_at'', JStr (ip_now ip)),
       (''attestation_id'', JStr hash), (''evidence'', JObj evidence),
       (''post_run_native_parity'', JObj (jobj [(''status'', JStr (u ''required-pending'')), (''finalization'',
          JStr (u ''Run this script's finalize command with the immutable live capture and a passing validate_embedding_parity.py report.''))]))]))))))))"

end
