(* ===== verification/Finalize.thy ===== *)
theory Finalize
  imports Capture
begin

text \<open>
  The second phase of \<open>attest_embedding_endpoint.py\<close>: a live capture on the disk is bound to a later parity report.
  The lemmas follow an attestation from the capture to the collector: what \<open>finalize_attestation\<close> writes passes the
  collector's checks of the seal, of the embedded capture and of the binding (theory \<open>Attest\<close>).
\<close>

definition validate_live_capture :: "interp \<Rightarrow> jobj \<Rightarrow> jobj res" where
  "validate_live_capture ip report =
     and_then (att_require (py_eq (jget report ''schema'') (JStr attestation_schema) \<and> py_eq (jget report ''phase'') (JStr (u ''live-capture'')))
        ''input is not a live endpoint capture'') (\<lambda>_.
     and_then (att_sub report ''evidence'') (\<lambda>evidence.
     and_then (collector_hash (ip_tools ip) (JObj evidence)) (\<lambda>hash.
     and_then (att_require (py_eq (jget report ''attestation_id'') (JStr hash)) ''live capture attestation_id differs'') (\<lambda>_.
     and_then (parse_iso8601 ip (jget report ''created_at'')) (\<lambda>_.
     and_then (att_sub evidence ''process_proof'') (\<lambda>proc.
     and_then (att_require (\<not> (jget proc ''required'' = JBool True \<and> \<not> py_eq (jget proc ''status'') (JStr (u ''verified''))))
        ''required live process proof was not verified'') (\<lambda>_.
     Inr evidence)))))))"

text \<open>The parity report has to pass and to be younger than the capture.\<close>

definition passing_parity :: "interp \<Rightarrow> jobj \<Rightarrow> jobj \<Rightarrow> jobj res" where
  "passing_parity ip capture parity =
     and_then (att_require (py_eq (jget parity ''schema'') (JStr parity_schema) \<and> jget parity ''passed'' = JBool True)
        ''native parity report is not a passing v1 report'') (\<lambda>_.
     and_then (parse_iso8601 ip (jget capture ''created_at'')) (\<lambda>capture_time.
     and_then (parse_iso8601 ip (jget parity ''created_at'')) (\<lambda>parity_time.
     and_then (att_require (capture_time < parity_time) ''native parity report was not created after capture'') (\<lambda>_.
     att_sub parity ''dataset''))))"

text \<open>The binding: the captured one, or that of the prefix from which the captured cache was seeded.\<close>

definition seeded_binding :: "jobj \<Rightarrow> jobj \<Rightarrow> json \<Rightarrow> (jobj \<times> pystr) res" where
  "seeded_binding evidence binding parity_tier =
     and_then (att_sub evidence ''prefix_seed'') (\<lambda>prefix_seed.
     and_then (att_require (py_eq (jget binding ''tier'') (JStr (u ''1m'')) \<and> py_eq parity_tier (JStr (u ''100k'')))
        ''native parity tier differs from live capture'') (\<lambda>_.
     and_then (att_sub prefix_seed ''source'') (\<lambda>source.
     and_then (att_sub prefix_seed ''cache_metadata'') (\<lambda>metadata.
     and_then (att_sub prefix_seed ''model'') (\<lambda>model.
     and_then (att_require (py_eq (jget model ''sha256'') (jget binding ''model_descriptor_sha256'')) ''prefix parity model differs from live capture'') (\<lambda>_.
     and_then (att_sub prefix_seed ''cache'') (\<lambda>cache.
     and_then (att_string (jget cache ''sha256'')) (\<lambda>cache_sha.
     and_then (jidx binding ''model_descriptor_sha256'') (\<lambda>model_sha.
     and_then (jidx binding ''model_artifact_sha256'') (\<lambda>artifact_sha.
     and_then (jidx binding ''checkpoint_input_hash'') (\<lambda>input_hash.
     and_then (jidx binding ''tier'') (\<lambda>parent_tier.
     Inr (jobj [(''tier'', parity_tier), (''expected_source_count'', jget prefix_seed ''rows''), (''source'', JObj source),
        (''model_descriptor_sha256'', model_sha), (''model_artifact_sha256'', artifact_sha), (''fingerprint'', jget metadata ''fingerprint''),
        (''dimension'', jget metadata ''dimensions''), (''checkpoint_input_hash'', input_hash), (''scope'', JStr (u ''prefix-seed'')),
        (''parent_tier'', parent_tier), (''prefix_cache_sha256'', JStr cache_sha)], cache_sha)))))))))))))"

definition bind_tier :: "jobj \<Rightarrow> jobj \<Rightarrow> json \<Rightarrow> (jobj \<times> pystr option) res" where
  "bind_tier evidence binding parity_tier =
     (if py_eq parity_tier (jget binding ''tier'') then Inr (binding, None)
      else and_then (seeded_binding evidence binding parity_tier) (\<lambda>(final, cache_sha). Inr (final, Some cache_sha)))"

definition check_parity_documents :: "jobj \<Rightarrow> jobj \<Rightarrow> jobj res" where
  "check_parity_documents dataset final =
     and_then (att_sub dataset ''documents'') (\<lambda>documents.
     and_then (att_sub final ''source'') (\<lambda>source.
     and_then (att_require (list_all (\<lambda>key. py_eq (jget documents key) (jget source key)) [''sha256'', ''size_bytes'', ''nonempty_lines''])
        ''native parity source differs'') (\<lambda>_.
     Inr source)))"

definition check_parity_cache :: "jobj \<Rightarrow> jobj \<Rightarrow> jobj \<Rightarrow> pystr option \<Rightarrow> (jobj \<times> jobj) res" where
  "check_parity_cache parity final source cache_sha =
     and_then (att_sub parity ''official_comparison_reference'') (\<lambda>official.
     and_then (att_sub official ''corpus_cache'') (\<lambda>corpus_cache.
     and_then (jidx source ''sha256'') (\<lambda>source_sha.
     and_then (jidx source ''size_bytes'') (\<lambda>source_size.
     and_then (jidx final ''expected_source_count'') (\<lambda>expected.
     and_then (jidx final ''dimension'') (\<lambda>dimension.
     and_then (jidx final ''fingerprint'') (\<lambda>fingerprint.
     and_then (att_require (list_all (\<lambda>(key, v). py_eq (jget corpus_cache key) v)
          [(''source_sha256'', source_sha), (''source_size_bytes'', source_size), (''count'', expected), (''dimensions'', dimension),
           (''fingerprint'', fingerprint)]) ''native parity corpus cache differs'') (\<lambda>_.
     and_then (att_require (case cache_sha of None \<Rightarrow> True | Some sha \<Rightarrow> py_eq (jget corpus_cache ''sha256'') (JStr sha))
        ''native parity prefix cache SHA-256 differs'') (\<lambda>_.
     Inr (official, corpus_cache))))))))))"

definition check_parity_models :: "jobj \<Rightarrow> jobj \<Rightarrow> jobj \<Rightarrow> (jobj \<times> jobj) res" where
  "check_parity_models parity final official =
     and_then (att_sub official ''model'') (\<lambda>model.
     and_then (att_sub model ''artifact'') (\<lambda>artifact.
     and_then (jidx final ''model_descriptor_sha256'') (\<lambda>model_sha.
     and_then (jidx final ''model_artifact_sha256'') (\<lambda>artifact_sha.
     and_then (att_require (py_eq (jget model ''sha256'') model_sha \<and> py_eq (jget artifact ''sha256'') artifact_sha) ''official-path parity model differs'') (\<lambda>_.
     and_then (att_sub parity ''native'') (\<lambda>native.
     and_then (att_sub native ''model'') (\<lambda>native_model.
     and_then (att_require (py_eq (jget native_model ''sha256'') artifact_sha) ''native parity GGUF differs'') (\<lambda>_.
     and_then (att_sub native ''cache'') (\<lambda>native_cache.
     and_then (jidx final ''dimension'') (\<lambda>dimension.
     and_then (jidx final ''fingerprint'') (\<lambda>fingerprint.
     and_then (att_require (py_eq (jget native_cache ''dimensions'') dimension \<and> py_eq (jget native_cache ''fingerprint'') fingerprint)
        ''native parity cache model metadata differs'') (\<lambda>_.
     Inr (native, native_model)))))))))))))"

definition plain_number :: "json \<Rightarrow> bool" where
  "plain_number v = (case v of JInt _ \<Rightarrow> True | JFloat _ \<Rightarrow> True | _ \<Rightarrow> False)"

definition number_less :: "json \<Rightarrow> json \<Rightarrow> bool" where
  "number_less a b = (case (num_of a, num_of b) of (Some x, Some y) \<Rightarrow> fl_lt x y | _ \<Rightarrow> False)"

definition check_cosine :: "jobj \<Rightarrow> (json \<times> json) res" where
  "check_cosine parity =
     and_then (att_sub parity ''acceptance'') (\<lambda>acceptance.
     and_then (att_sub parity ''metrics'') (\<lambda>metrics.
     let threshold = jget acceptance ''minimum_cosine_similarity''; minimum = jget metrics ''minimum_cosine_similarity'' in
     and_then (att_require (plain_number threshold \<and> plain_number minimum \<and> \<not> number_less minimum threshold)
        ''native parity cosine acceptance is invalid'') (\<lambda>_.
     Inr (minimum, threshold))))"

definition final_evidence :: "jobj \<Rightarrow> jobj \<Rightarrow> jobj \<Rightarrow> jobj \<Rightarrow> json \<Rightarrow> json \<Rightarrow> jobj \<Rightarrow> jobj \<Rightarrow> jobj \<Rightarrow> jobj \<Rightarrow> jobj" where
  "final_evidence capture capture_file parity parity_file minimum threshold native native_model corpus_cache final = jobj
     [(''live_capture'', JObj (jobj [(''artifact'', JObj capture_file), (''attestation_id'', jget capture ''attestation_id''), (''report'', JObj capture)])),
      (''native_parity'', JObj (jobj [(''artifact'', JObj parity_file), (''input_hash'', jget parity ''input_hash''),
         (''minimum_cosine_similarity'', minimum), (''required_minimum_cosine_similarity'', threshold), (''native_binary'', jget native ''binary''),
         (''native_model'', JObj native_model), (''corpus_cache_sha256'', jget corpus_cache ''sha256'')])),
      (''binding'', JObj final)]"

definition finalize_attestation :: "interp \<Rightarrow> (nat \<Rightarrow> kernel) \<Rightarrow> pystr \<Rightarrow> pystr \<Rightarrow> jobj run" where
  "finalize_attestation ip k capture_path parity_path =
     run_then (read_json_artifact ip (k 0) capture_path) (\<lambda>(capture, capture_file).
     run_then (Some (validate_live_capture ip capture)) (\<lambda>evidence.
     run_then (Some (att_sub evidence ''required_post_run_native_parity'')) (\<lambda>binding.
     run_then (read_json_artifact ip (k 1) parity_path) (\<lambda>(parity, parity_file).
     run_then (Some (passing_parity ip capture parity)) (\<lambda>dataset.
     run_then (Some (bind_tier evidence binding (jget dataset ''tier''))) (\<lambda>(final, cache_sha).
     run_then (Some (check_parity_documents dataset final)) (\<lambda>source.
     run_then (Some (check_parity_cache parity final source cache_sha)) (\<lambda>(official, corpus_cache).
     run_then (Some (check_parity_models parity final official)) (\<lambda>(native, native_model).
     run_then (Some (check_cosine parity)) (\<lambda>(minimum, threshold).
     let fevidence = final_evidence capture capture_file parity parity_file minimum threshold native native_model corpus_cache final in
     run_then (Some (collector_hash (ip_tools ip) (JObj fevidence))) (\<lambda>hash.
     Some (Inr (jobj [(''schema'', JStr attestation_schema), (''phase'', JStr (u ''finalized'')), (''created_at'', JStr (ip_now ip)),
       (''attestation_id'', JStr hash), (''evidence'', JObj fevidence),
       (''post_run_native_parity'', JObj (jobj [(''status'', JStr (u ''verified''))]))])))))))))))))"

end
