(* ===== verification/Quiet.thy ===== *)
theory Quiet
  imports Descriptor
begin

text \<open>
  The readers of \<open>attest_embedding_endpoint.py\<close> on a file that nobody writes to: whatever the sizes of the blocks,
  they end, digest the content, and count its lines as \<open>benchmark_cache.py\<close> does, as long as no carriage return
  stands before anything but a line feed.
\<close>

subsection \<open>The line count does not depend on the blocks\<close>

lemma split_on_through: "split_on d (xs @ ys) = butlast (split_on d xs) @ split_on d (last (split_on d xs) @ ys)"
proof (induction xs)
  case (Cons x xs)
  obtain f fs where f: "split_on d xs = f # fs" by (cases "split_on d xs") (use split_on_ne in auto)
  obtain g gs where g: "split_on d (last (split_on d xs) @ ys) = g # gs"
    by (cases "split_on d (last (split_on d xs) @ ys)") (use split_on_ne in auto)
  show ?case
  proof (cases "fs = []")
    case True
    with Cons f g show ?thesis by (auto simp: split_on_noccur)
  next
    case False
    with Cons f g show ?thesis by auto
  qed
qed simp

definition source_lines :: "bytes \<Rightarrow> nat" where
  "source_lines content = length (filter (\<lambda>line. drop_cr line \<noteq> []) (split_on 10 content))"

lemma foldl_count_block:
  "foldl count_block (0, []) blocks =
     (length (filter (\<lambda>line. drop_cr line \<noteq> []) (butlast (split_on 10 (concat blocks)))), last (split_on 10 (concat blocks)))"
proof (induction blocks rule: rev_induct)
  case (snoc block blocks)
  have "foldl count_block (0, []) (blocks @ [block]) = count_block (foldl count_block (0, []) blocks) block"
    by simp
  also have "\<dots> = (length (filter (\<lambda>line. drop_cr line \<noteq> []) (butlast (split_on 10 (concat (blocks @ [block]))))),
      last (split_on 10 (concat (blocks @ [block]))))"
    unfolding snoc using split_on_through [of 10 "concat blocks" block]
    by (simp add: count_block_def Let_def butlast_append)
  finally show ?case .
qed simp

lemma count_blocks_concat: "count_blocks blocks = source_lines (concat blocks)"
proof -
  let ?pieces = "split_on 10 (concat blocks)"
  have "?pieces = butlast ?pieces @ [last ?pieces]" by simp
  then have "source_lines (concat blocks)
      = length (filter (\<lambda>line. drop_cr line \<noteq> []) (butlast ?pieces @ [last ?pieces]))"
    unfolding source_lines_def by (rule arg_cong)
  also have "\<dots> = count_blocks blocks"
    unfolding count_blocks_def foldl_count_block filter_append by simp
  finally show ?thesis ..
qed

subsection \<open>The line count is the one of the shared reader\<close>

text \<open>A carriage return that is followed by something else than a line feed.\<close>

fun lone_cr :: "pystr \<Rightarrow> bool" where
  "lone_cr [] = False"
| "lone_cr (c # cs) = ((c = 13 \<and> cs \<noteq> [] \<and> hd cs \<noteq> 10) \<or> lone_cr cs)"

definition strip_cr :: "pystr \<Rightarrow> pystr" where
  "strip_cr line = (if line \<noteq> [] \<and> last line = 13 then butlast line else line)"

lemma last_not_in: "x \<notin> set l \<Longrightarrow> l = [] \<or> last l \<noteq> x"
  using last_in_set by blast

lemma strip_line_end_cases:
  assumes "10 \<notin> set l" and "13 \<notin> set l"
  shows "strip_line_end l = l" and "strip_line_end (l @ [13]) = l" and "strip_line_end (l @ [13, 10]) = l"
proof -
  have "l = [] \<or> last l \<noteq> 10" "l = [] \<or> last l \<noteq> 13" using assms last_not_in by metis+
  then show "strip_line_end l = l" by (auto simp: strip_line_end_def)
  show "strip_line_end (l @ [13]) = l" by (simp add: strip_line_end_def)
  have "butlast (l @ [13, 10]) = l @ [13 :: nat]" by (simp add: butlast_append)
  then show "strip_line_end (l @ [13, 10]) = l" by (simp add: strip_line_end_def)
qed

lemma universal_lines_count:
  assumes "\<not> lone_cr s" and "10 \<notin> set acc" and "13 \<notin> set acc"
  shows "length (filter (\<lambda>l. strip_line_end l \<noteq> []) (lines_universal acc s))
       = length (filter (\<lambda>l. strip_cr l \<noteq> []) (split_on 10 (acc @ s)))"
  using assms
proof (induction acc s rule: lines_universal.induct)
  case (1 acc)
  then have "acc = [] \<or> last acc \<noteq> 13" using last_not_in by metis
  then show ?case using 1 by (auto simp: split_on_noccur strip_line_end_cases strip_cr_def)
next
  case (2 acc c cs)
  have acc: "strip_cr acc = acc" "strip_cr (acc @ [13]) = acc"
    using 2 last_not_in [of 13 acc] by (auto simp: strip_cr_def)
  note ends = strip_line_end_cases [OF 2(6,7)] strip_line_end_unix [OF 2(6,7)]
  consider "c = 10" | "c = 13" "cs = []" | ds where "c = 13" "cs = 10 # ds" | "c \<noteq> 10" "c \<noteq> 13"
    using 2(5) by (cases cs) auto
  then show ?case
  proof cases
    case 1
    with 2 show ?thesis by (simp add: split_on_append acc ends)
  next
    case 2
    then have "split_on 10 (acc @ [c]) = [acc @ [13]]" using "2.prems" by (subst split_on_noccur) auto
    with 2 show ?thesis by (simp add: acc ends)
  next
    case (3 ds)
    have "split_on 10 ((acc @ [13]) @ 10 # ds) = (acc @ [13]) # split_on 10 ds"
      using "2.prems" by (subst split_on_append) auto
    moreover have "length (filter (\<lambda>l. strip_line_end l \<noteq> []) (lines_universal [] ds))
        = length (filter (\<lambda>l. strip_cr l \<noteq> []) (split_on 10 ([] @ ds)))"
      using "2.IH"(2) [of 10 ds] 3 "2.prems" by simp
    ultimately show ?thesis using 3 by (simp add: acc ends)
  next
    case 4
    with 2 show ?thesis by simp
  qed
qed

lemma unat_small_byte: "n < 256 \<Longrightarrow> unat (byte_of n) = n"
  by simp

lemma utf8_char_bytes:
  assumes "is_scalar c" and "b \<in> set (utf8_char c)"
  shows "(c < 128 \<and> b = byte_of c) \<or> 128 \<le> unat b"
proof -
  have c: "c < 1114112" using assms(1) by (auto simp: is_scalar_def)
  have cont: "128 \<le> unat (byte_of (128 + n mod 64))" for n by simp
  consider "c < 128" | "128 \<le> c" "c < 2048" | "2048 \<le> c" "c < 65536" | "65536 \<le> c" by linarith
  then show ?thesis
  proof cases
    case 1
    with assms show ?thesis by (simp add: utf8_char_def)
  next
    case 2
    then have "c div 64 < 32" by auto
    with 2 assms cont [of c] show ?thesis by (auto simp: utf8_char_def)
  next
    case 3
    then have "c div 4096 < 16" by auto
    with 3 assms cont [of c] cont [of "c div 64"] show ?thesis by (auto simp: utf8_char_def)
  next
    case 4
    then have "c div 262144 < 16" using c by auto
    with 4 assms cont [of c] cont [of "c div 64"] cont [of "c div 4096"] show ?thesis by (auto simp: utf8_char_def)
  qed
qed

lemma utf8_char_other:
  assumes "is_scalar c" and "c \<noteq> d" and "d < 128"
  shows "byte_of d \<notin> set (utf8_char c)"
proof
  assume "byte_of d \<in> set (utf8_char c)"
  from utf8_char_bytes [OF assms(1) this] assms(3) have "c < 128" "byte_of d = byte_of c" by auto
  then have "unat (byte_of d) = unat (byte_of c)" by simp
  with \<open>c < 128\<close> assms show False by simp
qed

lemma split_on_prepend: "d \<notin> set xs \<Longrightarrow> split_on d (xs @ ys) = (xs @ hd (split_on d ys)) # tl (split_on d ys)"
  by (induction xs) (auto split: list.splits)

lemma utf8_split:
  "\<forall>c \<in> set s. is_scalar c \<Longrightarrow> d < 128 \<Longrightarrow> split_on (byte_of d) (utf8_bytes s) = map utf8_bytes (split_on d s)"
proof (induction s)
  case (Cons c s)
  then have IH: "split_on (byte_of d) (utf8_bytes s) = map utf8_bytes (split_on d s)" by simp
  show ?case
  proof (cases "c = d")
    case True
    then have "utf8_char c = [byte_of d]" using Cons.prems by (simp add: utf8_char_def)
    then show ?thesis using IH True by simp
  next
    case False
    obtain f fs where "split_on d s = f # fs" by (cases "split_on d s") (use split_on_ne in auto)
    then show ?thesis using IH False Cons.prems utf8_char_other [of c d]
      by (simp add: split_on_prepend)
  qed
qed simp

lemma drop_cr_utf8:
  assumes "\<forall>c \<in> set l. is_scalar c"
  shows "drop_cr (utf8_bytes l) = utf8_bytes (strip_cr l)"
proof (cases l rule: rev_cases)
  case (snoc k c)
  have ne: "utf8_bytes l \<noteq> []" "l \<noteq> []" by (simp_all add: snoc)
  show ?thesis
  proof (cases "c = 13")
    case True
    then have "utf8_bytes l = utf8_bytes k @ [13]" by (simp add: snoc utf8_char_def byte_of_def)
    with True show ?thesis by (simp add: drop_cr_def strip_cr_def snoc)
  next
    case False
    have "byte_of 13 \<notin> set (utf8_char c)" using assms False by (intro utf8_char_other) (auto simp: snoc)
    then have "(13 :: byte) \<notin> set (utf8_char c)" by (simp add: byte_of_def)
    then have "last (utf8_char c) \<noteq> 13" using last_in_set [OF utf8_char_ne [of c]] by metis
    then have "last (utf8_bytes l) \<noteq> 13" by (simp add: snoc)
    with False show ?thesis by (simp add: drop_cr_def strip_cr_def snoc)
  qed
qed (simp add: drop_cr_def strip_cr_def)

lemma utf8_bytes_eq_Nil [simp]: "utf8_bytes l = [] \<longleftrightarrow> l = []"
  by (cases l) auto

lemma split_on_subset: "l \<in> set (split_on d s) \<Longrightarrow> set l \<subseteq> set s"
proof (induction s arbitrary: l)
  case (Cons c s)
  obtain f fs where f: "split_on d s = f # fs" by (cases "split_on d s") (use split_on_ne in auto)
  show ?case
  proof (cases "c = d")
    case True
    with Cons show ?thesis by auto
  next
    case False
    with f Cons.prems have "l = c # f \<or> l \<in> set (split_on d s)" by auto
    moreover have "set f \<subseteq> set s" using Cons.IH [of f] f by simp
    ultimately show ?thesis using Cons.IH by auto
  qed
qed simp

theorem source_lines_shared:
  assumes "utf8_decode content = Inr s" and "\<not> lone_cr s"
  shows "count_nonempty_lines content = Inr (source_lines content)"
proof -
  have e: "utf8_encode s = Inr content" using utf8_encode_decode [OF assms(1)] .
  then have scalar: "\<forall>c \<in> set s. is_scalar c" and content: "content = utf8_bytes s"
    by (auto simp: utf8_encode_def list_all_iff split: if_splits)
  have fields: "\<forall>c \<in> set l. is_scalar c" if "l \<in> set (split_on 10 s)" for l
  proof -
    have "set l \<subseteq> set s" using that by (rule split_on_subset)
    with scalar show ?thesis by auto
  qed
  have "split_on 10 content = map utf8_bytes (split_on 10 s)"
    using utf8_split [OF scalar, of 10] by (simp add: content byte_of_def)
  then have "source_lines content = length (filter (\<lambda>l. drop_cr (utf8_bytes l) \<noteq> []) (split_on 10 s))"
    by (simp add: source_lines_def filter_map comp_def)
  also have "filter (\<lambda>l. drop_cr (utf8_bytes l) \<noteq> []) (split_on 10 s) = filter (\<lambda>l. strip_cr l \<noteq> []) (split_on 10 s)"
    by (rule filter_cong [OF refl]) (simp add: drop_cr_utf8 fields)
  also have "length \<dots> = length (filter (\<lambda>l. strip_line_end l \<noteq> []) (lines_universal [] s))"
    using universal_lines_count [of s "[]"] assms(2) by simp
  finally show ?thesis
    by (simp add: count_nonempty_lines_def iter_nonempty_lines_def assms(1) filter_map comp_def)
qed

text \<open>With a carriage return of its own the two counts differ.\<close>

lemma lone_cr_counted_apart:
  "source_lines (utf8_bytes [97, 13, 98, 10]) = 1" "count_nonempty_lines (utf8_bytes [97, 13, 98, 10]) = Inr 2"
proof -
  have "\<forall>c \<in> set [97, 13, 98, 10 :: nat]. is_scalar c" by (simp add: is_scalar_def)
  from utf8_decode_bytes [OF this] show "count_nonempty_lines (utf8_bytes [97, 13, 98, 10]) = Inr 2"
    by (simp add: count_nonempty_lines_def iter_nonempty_lines_def strip_line_end_def)
qed (simp add: source_lines_def drop_cr_def utf8_char_def byte_of_def)

subsection \<open>A quiet file\<close>

text \<open>
  The answers of a descriptor on a file with this content that does not change: no read exceeds the block size, they
  add up to a prefix of the content, and only the end of the file is answered with nothing.
\<close>

definition serves :: "(nat \<Rightarrow> bytes) \<Rightarrow> bytes \<Rightarrow> bool" where
  "serves reply content \<longleftrightarrow>
     (\<forall>n. length (reply n) \<le> block_size \<and> prefix (concat (map reply [0..<n])) content
       \<and> (reply n = [] \<longrightarrow> concat (map reply [0..<n]) = content))"

definition quiet :: "kernel \<Rightarrow> pystr \<Rightarrow> bytes \<Rightarrow> fstat \<Rightarrow> bool" where
  "quiet k resolved content m \<longleftrightarrow>
     (\<exists>f. kn_open k resolved = Some f \<and> st_regular (op_before f) \<and> same_stat (op_before f) (op_after f)
        \<and> op_after f = m \<and> st_size m = int (length content) \<and> serves (op_reply f) content)"

lemma serves_ends:
  assumes "serves reply content"
  obtains n where "reply n = []" and "\<And>j. j < n \<Longrightarrow> reply j \<noteq> []" and "concat (map reply [0..<n]) = content"
proof -
  have grows: "\<forall>j < n. reply j \<noteq> [] \<Longrightarrow> n \<le> length (concat (map reply [0..<n]))" for n
  proof (induction n)
    case (Suc n)
    then have "0 < length (reply n)" by simp
    moreover have "n \<le> length (concat (map reply [0..<n]))" using Suc by simp
    moreover have "length (concat (map reply [0..<Suc n])) = length (concat (map reply [0..<n])) + length (reply n)" by simp
    ultimately show ?case by linarith
  qed simp
  have "length (concat (map reply [0..<n])) \<le> length content" for n
    using assms unfolding serves_def by (meson prefix_length_le)
  then have "\<exists>j. reply j = []"
    using grows [of "Suc (length content)"] by (meson not_less_eq_eq)
  then obtain n where "reply n = []" "\<And>j. j < n \<Longrightarrow> reply j \<noteq> []"
    using exists_least_iff [of "\<lambda>j. reply j = []"] by auto
  with that show ?thesis using assms unfolding serves_def by blast
qed

lemma serves_blocks: "serves reply content \<Longrightarrow> map (\<lambda>j. take block_size (reply j)) js = map reply js"
  by (auto simp: serves_def)

lemma serves_read:
  assumes "serves reply content"
  obtains blocks where "read_to_end reply 0 [] = Some blocks" and "concat blocks = content"
proof -
  obtain n where n: "reply n = []" "\<And>j. j < n \<Longrightarrow> reply j \<noteq> []" "concat (map reply [0..<n]) = content"
    using serves_ends [OF assms] by blast
  from n have "read_to_end reply 0 [] = Some (map reply [0..<n])"
    using read_to_end_steps [of n reply 0 "[]"] serves_blocks [OF assms] by auto
  with n(3) that show ?thesis by blast
qed

lemma serves_prefix:
  assumes "serves reply content"
  shows "(length content < n \<longrightarrow> (\<exists>e. read_prefix reply 0 n [] = Some (Inl e)))
    \<and> (n \<le> length content \<longrightarrow> (\<exists>blocks. read_prefix reply 0 n [] = Some (Inr blocks) \<and> concat blocks = take n content))"
proof -
  have main: "(length content - length got < m \<longrightarrow> (\<exists>e. read_prefix reply i m blocks = Some (Inl e)))
      \<and> (m \<le> length content - length got \<longrightarrow>
           (\<exists>bs. read_prefix reply i m blocks = Some (Inr (blocks @ bs)) \<and> concat bs = take m (drop (length got) content)))"
    if "got = concat (map reply [0..<i])" for m i got blocks
    using that
  proof (induction m arbitrary: i got blocks rule: less_induct)
    case (less m)
    let ?block = "take (min block_size m) (reply i)"
    have pre: "prefix (got @ reply i) content" and small: "length (reply i) \<le> block_size"
      and fin: "reply i = [] \<Longrightarrow> got = content"
    proof -
      have "prefix (concat (map reply [0..<Suc i])) content" using assms unfolding serves_def by blast
      then show "prefix (got @ reply i) content" by (simp add: less.prems)
    qed (use assms less.prems in \<open>auto simp: serves_def\<close>)
    obtain rest where rest: "content = got @ reply i @ rest" using pre by (auto simp: prefix_def)
    consider "m = 0" | "0 < m" "reply i = []" | "0 < m" "reply i \<noteq> []" "m \<le> length (reply i)"
      | "0 < m" "reply i \<noteq> []" "length (reply i) < m" by linarith
    then show ?case
    proof cases
      case 1
      then have "read_prefix reply i m blocks = Some (Inr (blocks @ []))" by (subst read_prefix.simps) simp
      with 1 show ?thesis by (metis append_Nil2 concat.simps(1) less_nat_zero_code take0)
    next
      case 2
      then have "read_prefix reply i m blocks = Some (Inl (AttestationError ''is shorter than its prefix''))"
        by (subst read_prefix.simps) simp
      with 2 fin show ?thesis by simp
    next
      case 3
      have block: "?block = take m (reply i)" "?block \<noteq> []" using 3 small by (simp_all add: min_def)
      then have "read_prefix reply i m blocks = read_prefix reply (Suc i) 0 (blocks @ [?block])"
        using 3 by (subst read_prefix.simps) (simp add: Let_def)
      also have "\<dots> = Some (Inr (blocks @ [?block]))" by (subst read_prefix.simps) simp
      finally have "read_prefix reply i m blocks = Some (Inr (blocks @ [?block]))" .
      moreover have "concat [?block] = take m (drop (length got) content)" using 3 block(1) by (simp add: rest)
      moreover have "m \<le> length content - length got" using 3 by (simp add: rest)
      ultimately show ?thesis by (metis not_le)
    next
      case 4
      have block: "?block = reply i" using 4 small by (simp add: min_def)
      then have step: "read_prefix reply i m blocks = read_prefix reply (Suc i) (m - length (reply i)) (blocks @ [reply i])"
        using 4 by (subst read_prefix.simps) (simp add: Let_def)
      have "m - length (reply i) < m" using 4 by simp
      moreover have "got @ reply i = concat (map reply [0..<Suc i])" by (simp add: less.prems)
      ultimately have IH: "(length content - length (got @ reply i) < m - length (reply i) \<longrightarrow>
            (\<exists>e. read_prefix reply (Suc i) (m - length (reply i)) (blocks @ [reply i]) = Some (Inl e)))
        \<and> (m - length (reply i) \<le> length content - length (got @ reply i) \<longrightarrow>
            (\<exists>bs. read_prefix reply (Suc i) (m - length (reply i)) (blocks @ [reply i]) = Some (Inr ((blocks @ [reply i]) @ bs))
              \<and> concat bs = take (m - length (reply i)) (drop (length (got @ reply i)) content)))"
        by (rule less.IH)
      show ?thesis
      proof (intro conjI impI)
        assume "length content - length got < m"
        then have "length content - length (got @ reply i) < m - length (reply i)" using 4 by (simp add: rest)
        with IH step show "\<exists>e. read_prefix reply i m blocks = Some (Inl e)" by simp
      next
        assume "m \<le> length content - length got"
        then have "m - length (reply i) \<le> length content - length (got @ reply i)" by (simp add: rest)
        with IH obtain bs where bs: "read_prefix reply i m blocks = Some (Inr (blocks @ (reply i # bs)))"
          "concat bs = take (m - length (reply i)) (drop (length (got @ reply i)) content)" using step by auto
        have "concat (reply i # bs) = take m (drop (length got) content)" using 4 by (simp add: bs(2) rest)
        with bs(1) show "\<exists>bs. read_prefix reply i m blocks = Some (Inr (blocks @ bs)) \<and> concat bs = take m (drop (length got) content)"
          by blast
      qed
    qed
  qed
  from main [of "[]" 0 n "[]"] show ?thesis by simp
qed

lemma quiet_read:
  assumes "kn_real k p = Some resolved" and "quiet k resolved content m"
  obtains blocks where "read_regular k p changed = Some (Inr (resolved, m, blocks))" and "concat blocks = content"
proof -
  from assms(2) obtain f where f: "kn_open k resolved = Some f" "st_regular (op_before f)"
    "same_stat (op_before f) (op_after f)" "op_after f = m" "serves (op_reply f) content" by (auto simp: quiet_def)
  from serves_read [OF f(5)] obtain blocks where "read_to_end (op_reply f) 0 [] = Some blocks" "concat blocks = content"
    by blast
  with f assms(1) that show ?thesis by (simp add: read_regular_def)
qed

lemma readers_return:
  "(\<exists>e. hash_file_prefix ip k p len = Some (Inl e))
     \<or> (\<exists>blocks. hash_file_prefix ip k p len = Some (Inr (sha_hex (tl_host (ip_tools ip)) (concat blocks)))
          \<and> int (length (concat blocks)) = len)"
  "hash_regular_file ip k p = None
     \<longleftrightarrow> (\<exists>resolved f. kn_real k p = Some resolved \<and> kn_open k resolved = Some f \<and> st_regular (op_before f)
            \<and> {i. op_reply f i = []} = {})"
  "(hash_source_file ip k p = None \<longleftrightarrow> hash_regular_file ip k p = None)
     \<and> (read_json_artifact ip k p = None \<longleftrightarrow> hash_regular_file ip k p = None)"
proof -
  have read: "read_to_end reply 0 [] = None \<longleftrightarrow> {i. reply i = []} = {}" for reply
    using read_to_end_returns [of reply] by (cases "read_to_end reply 0 []") auto
  have regular: "read_regular k p changed = None
     \<longleftrightarrow> (\<exists>resolved f. kn_real k p = Some resolved \<and> kn_open k resolved = Some f \<and> st_regular (op_before f)
            \<and> {i. op_reply f i = []} = {})" for changed
    unfolding read_regular_def read [symmetric] by (auto split: option.splits)
  show "hash_regular_file ip k p = None
     \<longleftrightarrow> (\<exists>resolved f. kn_real k p = Some resolved \<and> kn_open k resolved = Some f \<and> st_regular (op_before f)
            \<and> {i. op_reply f i = []} = {})"
    unfolding hash_regular_file_def run_then_none regular by auto
  then show "(hash_source_file ip k p = None \<longleftrightarrow> hash_regular_file ip k p = None)
     \<and> (read_json_artifact ip k p = None \<longleftrightarrow> hash_regular_file ip k p = None)"
    unfolding hash_source_file_def read_json_artifact_def run_then_none regular
    by (auto simp: run_then_none split: option.splits)
  show "(\<exists>e. hash_file_prefix ip k p len = Some (Inl e))
     \<or> (\<exists>blocks. hash_file_prefix ip k p len = Some (Inr (sha_hex (tl_host (ip_tools ip)) (concat blocks)))
          \<and> int (length (concat blocks)) = len)"
  proof (cases "len \<le> 0 \<or> kn_real k p = None \<or> kn_open k (the (kn_real k p)) = None")
    case True
    then show ?thesis by (auto simp: hash_file_prefix_def split: option.splits)
  next
    case False
    then obtain resolved f where f: "kn_real k p = Some resolved" "kn_open k resolved = Some f" "0 < len" by auto
    from read_prefix_returns [of "op_reply f" 0 "nat len" "[]"] show ?thesis
    proof (elim disjE exE conjE)
      fix bs
      assume "read_prefix (op_reply f) 0 (nat len) [] = Some (Inr ([] @ bs))" "length (concat bs) = nat len"
      with f show ?thesis by (cases "same_stat (op_before f) (op_after f)") (auto simp: hash_file_prefix_def)
    qed (use f in \<open>simp add: hash_file_prefix_def\<close>)
  qed
qed

text \<open>
  C34. Termination of the readers of \<open>attest_embedding_endpoint.py\<close>. Whatever the system answers, \<open>hash_file_prefix\<close>
  returns, and if it returns a digest it is that of exactly as many bytes as asked for. The readers of whole files
  return unless every read of the opened regular file brings something, a file that grows for ever.
\<close>

theorem descriptor_readers_return:
  "((\<exists>e. hash_file_prefix ip k p len = Some (Inl e))
     \<or> (\<exists>blocks. hash_file_prefix ip k p len = Some (Inr (sha_hex (tl_host (ip_tools ip)) (concat blocks)))
          \<and> int (length (concat blocks)) = len))
   \<and> (hash_regular_file ip k p = None
     \<longleftrightarrow> (\<exists>resolved f. kn_real k p = Some resolved \<and> kn_open k resolved = Some f \<and> st_regular (op_before f)
            \<and> {i. op_reply f i = []} = {}))
   \<and> (hash_source_file ip k p = None \<longleftrightarrow> hash_regular_file ip k p = None)
   \<and> (read_json_artifact ip k p = None \<longleftrightarrow> hash_regular_file ip k p = None)"
  using readers_return by blast

lemma quiet_source_identity:
  assumes "source_identity (tl_host (ip_tools ip)) d p = Inr si"
    and "kn_real k p = Some (fs_resolve d p)" and "fs_file d (fs_resolve d p) = Some content"
    and "quiet k (fs_resolve d p) content m"
    and "utf8_decode content = Inr s" and "\<not> lone_cr s"
  shows "\<exists>r. hash_source_file ip k p = Some (Inr r) \<and> jget r ''path'' = JStr (si_path si)
      \<and> jget r ''size_bytes'' = JInt (int (si_size si)) \<and> jget r ''sha256'' = JStr (si_sha si)
      \<and> jget r ''nonempty_lines'' = JInt (int (si_lines si))"
    and "n \<in> {1..length content} \<Longrightarrow>
      hash_file_prefix ip k p (int n) = Some (sha256_file (tl_host (ip_tools ip)) d p 0 (Some n))"
proof -
  obtain blocks where b: "read_regular k p ''changed while it was being hashed'' = Some (Inr (fs_resolve d p, m, blocks))"
    and c: "concat blocks = content" using quiet_read [OF assms(2,4)] by blast
  have lines: "count_nonempty_lines content = Inr (count_blocks blocks)"
    using source_lines_shared [OF assms(5,6)] by (simp add: count_blocks_concat c)
  have size: "st_size m = int (length content)" using assms(4) by (auto simp: quiet_def)
  have si: "si_path si = fs_resolve d p" "si_size si = length content"
    "si_sha si = sha_hex (tl_host (ip_tools ip)) content" "si_lines si = count_blocks blocks"
    using assms(1,3) lines by (auto simp: source_identity_def open_rb_def sha256_bytes_all)
  let ?r = "jobj (file_record ip (fs_resolve d p) m blocks @ [(''nonempty_lines'', JInt (int (count_blocks blocks)))])"
  have "hash_source_file ip k p = Some (Inr ?r)" by (simp add: hash_source_file_def b)
  moreover have "jget ?r ''path'' = JStr (si_path si)" "jget ?r ''size_bytes'' = JInt (int (si_size si))"
    "jget ?r ''sha256'' = JStr (si_sha si)" "jget ?r ''nonempty_lines'' = JInt (int (si_lines si))"
    by (simp_all add: file_record_def stat_fields_def size c si)
  ultimately show "\<exists>r. hash_source_file ip k p = Some (Inr r) \<and> jget r ''path'' = JStr (si_path si)
      \<and> jget r ''size_bytes'' = JInt (int (si_size si)) \<and> jget r ''sha256'' = JStr (si_sha si)
      \<and> jget r ''nonempty_lines'' = JInt (int (si_lines si))" by blast
  assume n: "n \<in> {1..length content}"
  obtain f where f: "kn_open k (fs_resolve d p) = Some f" "same_stat (op_before f) (op_after f)" "serves (op_reply f) content"
    using assms(4) by (auto simp: quiet_def)
  from serves_prefix [OF f(3), of n] n obtain bs where "read_prefix (op_reply f) 0 n [] = Some (Inr bs)" "concat bs = take n content"
    by auto
  with f n assms(2,3) show "hash_file_prefix ip k p (int n) = Some (sha256_file (tl_host (ip_tools ip)) d p 0 (Some n))"
    by (simp add: hash_file_prefix_def sha256_file_def open_rb_def sha256_bytes_some)
qed

text \<open>
  C35. The two identities of a source agree: on a quiet file without a lone carriage return \<open>hash_source_file\<close>
  of \<open>attest_embedding_endpoint.py\<close> records the path, size, digest and number of lines that \<open>source_identity\<close> of
  \<open>benchmark_cache.py\<close> records, however the reads cut the file, and \<open>hash_file_prefix\<close> digests the bytes before the
  given length, or refuses one beyond the end.
\<close>

theorem quiet_source_has_one_identity:
  assumes "source_identity (tl_host (ip_tools ip)) d p = Inr si"
    and "kn_real k p = Some (fs_resolve d p)" and "fs_file d (fs_resolve d p) = Some content"
    and "quiet k (fs_resolve d p) content m"
    and "utf8_decode content = Inr s" and "\<not> lone_cr s"
  shows "(\<exists>r. hash_source_file ip k p = Some (Inr r) \<and> jget r ''path'' = JStr (si_path si)
      \<and> jget r ''size_bytes'' = JInt (int (si_size si)) \<and> jget r ''sha256'' = JStr (si_sha si)
      \<and> jget r ''nonempty_lines'' = JInt (int (si_lines si)))
    \<and> (\<forall>n \<in> {1..length content}.
      hash_file_prefix ip k p (int n) = Some (sha256_file (tl_host (ip_tools ip)) d p 0 (Some n)))"
  using quiet_source_identity [OF assms] by blast

text \<open>A file of two lines that is answered in two reads.\<close>

definition two_lines :: bytes where "two_lines = utf8_bytes (u ''ab'' @ 13 # 10 # u ''c'')"

definition two_reads :: "nat \<Rightarrow> bytes" where
  "two_reads i = (if i = 0 then take 3 two_lines else if i = 1 then drop 3 two_lines else [])"

definition sample_stat :: fstat where
  "sample_stat = \<lparr>st_regular = True, st_dev = 1, st_ino = 2, st_size = 5, st_mtime_ns = 3, st_ctime_ns = 4, st_birth = None\<rparr>"

definition sample_kernel :: kernel where
  "sample_kernel = \<lparr>kn_path = id, kn_real = Some,
     kn_open = (\<lambda>_. Some \<lparr>op_before = sample_stat, op_reply = two_reads, op_after = sample_stat\<rparr>), kn_stat = (\<lambda>_. Some sample_stat)\<rparr>"

definition sample_interp :: interp where
  "sample_interp = \<lparr>ip_tools = sample_tools, ip_parse_iso = (\<lambda>_. None), ip_iso = (\<lambda>_. []), ip_iso_epoch = (\<lambda>_. []),
     ip_platform = u ''linux'', ip_script = u ''attest.py'', ip_now = []\<rparr>"

definition one_file :: fsys where
  "one_file = \<lparr>fs_resolve = id, fs_file = (\<lambda>_. Some two_lines)\<rparr>"

lemma two_lines_bytes: "two_lines = [97, 98, 13, 10, 99]"
  by (simp add: two_lines_def u_def utf8_char_def byte_of_def)

lemma two_reads_serve: "serves two_reads two_lines"
proof -
  have "concat (map two_reads [0..<n]) = (if n = 0 then [] else if n = 1 then take 3 two_lines else two_lines)" for n
    by (induction n) (auto simp: two_reads_def)
  then show ?thesis by (auto simp: serves_def two_reads_def two_lines_bytes block_size_def split: if_splits)
qed

lemma two_lines_quiet: "quiet sample_kernel p two_lines sample_stat"
  using two_reads_serve by (simp add: quiet_def sample_kernel_def sample_stat_def same_stat_def two_lines_bytes)

lemma two_lines_text: "utf8_decode two_lines = Inr (u ''ab'' @ 13 # 10 # u ''c'')"
  unfolding two_lines_def by (rule utf8_decode_bytes) (simp add: u_def is_scalar_def)

lemma two_lines_identity:
  "source_identity (tl_host sample_tools) one_file p =
     Inr \<lparr>si_path = p, si_size = 5, si_sha = sha_hex (tl_host sample_tools) two_lines, si_lines = 2\<rparr>"
proof -
  have "count_nonempty_lines two_lines = Inr (source_lines two_lines)"
    by (rule source_lines_shared [OF two_lines_text]) (simp add: u_def)
  then have "count_nonempty_lines two_lines = Inr 2"
    by (simp add: two_lines_bytes source_lines_def drop_cr_def)
  then show ?thesis
    by (simp add: source_identity_def open_rb_def one_file_def sha256_bytes_all) (simp add: two_lines_bytes)
qed

theorem quiet_source_has_one_identity_witness:
  "(\<exists>r. hash_source_file sample_interp sample_kernel (u ''x'') = Some (Inr r) \<and> jget r ''nonempty_lines'' = JInt 2)
   \<and> hash_file_prefix sample_interp sample_kernel (u ''x'') 3
       = Some (sha256_file (tl_host sample_tools) one_file (u ''x'') 0 (Some 3))"
proof -
  have i: "source_identity (tl_host (ip_tools sample_interp)) one_file (u ''x'') =
      Inr \<lparr>si_path = u ''x'', si_size = 5, si_sha = sha_hex (tl_host sample_tools) two_lines, si_lines = 2\<rparr>"
    by (simp add: sample_interp_def two_lines_identity)
  have r: "kn_real sample_kernel (u ''x'') = Some (fs_resolve one_file (u ''x''))"
    "fs_file one_file (fs_resolve one_file (u ''x'')) = Some two_lines"
    by (simp_all add: sample_kernel_def one_file_def)
  have c: "\<not> lone_cr (u ''ab'' @ 13 # 10 # u ''c'')" by (simp add: u_def)
  have t: "(\<exists>r. hash_source_file sample_interp sample_kernel (u ''x'') = Some (Inr r) \<and> jget r ''nonempty_lines'' = JInt 2)
    \<and> (\<forall>n \<in> {1..length two_lines}. hash_file_prefix sample_interp sample_kernel (u ''x'') (int n)
      = Some (sha256_file (tl_host (ip_tools sample_interp)) one_file (u ''x'') 0 (Some n)))"
    using quiet_source_has_one_identity [OF i r two_lines_quiet two_lines_text c] by auto
  moreover have "3 \<in> {1..length two_lines}" by (simp add: two_lines_bytes)
  ultimately have "hash_file_prefix sample_interp sample_kernel (u ''x'') 3
      = Some (sha256_file (tl_host (ip_tools sample_interp)) one_file (u ''x'') 0 (Some 3))"
    by (metis of_nat_numeral)
  with t show ?thesis by (auto simp: sample_interp_def)
qed

end
