(* ===== verification/Sealing.thy ===== *)
theory Sealing
  imports Finalize Quiet
begin

text \<open>
  From the capture to the collector: the reports of \<open>attest_embedding_endpoint.py\<close> pass the collector's checks of them.
  \<open>seal_ok\<close> is the contract of \<open>json\<close> and \<open>hashlib\<close> this rests on.
\<close>

definition seal_ok :: "tools \<Rightarrow> bool" where
  "seal_ok t \<longleftrightarrow> codec_ok (tl_host t)
     \<and> (\<forall>v. json_plain v \<longrightarrow> tl_dumps t (json_sorted v) = tl_dumps t v)
     \<and> (\<forall>v b. tl_dumps t v = Inr b \<longrightarrow> json_no_nan v)
     \<and> (\<forall>v. \<exists>s. utf8_decode (dumps_indent (tl_host t) v @ [10]) = Inr s)
     \<and> (\<forall>b. length (sha256 (tl_host t) b) = 32)"

lemma jobj_items [simp]: "list_all (\<lambda>kv. P (snd kv)) (jobj kvs) = list_all (\<lambda>kv. P (snd kv)) kvs" "distinct (map fst (jobj kvs)) = distinct (map fst kvs)"
proof -
  have "map fst (jobj kvs) = map u (map fst kvs)" by (auto simp: jobj_def)
  moreover have "inj_on u A" for A by (auto simp: inj_on_def)
  ultimately show "distinct (map fst (jobj kvs)) = distinct (map fst kvs)" by (simp only: distinct_map) blast
qed (auto simp: jobj_def list_all_iff)

lemma plain_obj:
  "json_plain (JObj (jobj kvs)) \<longleftrightarrow> distinct (map fst kvs) \<and> list_all (\<lambda>kv. json_plain (snd kv)) kvs"
  "json_no_nan (JObj (jobj kvs)) \<longleftrightarrow> list_all (\<lambda>kv. json_no_nan (snd kv)) kvs"
  by simp_all

text \<open>\<open>stored d p m\<close>: the document \<open>m\<close> was written to \<open>p\<close> by \<open>atomic_write_json\<close>.\<close>

definition stored :: "tools \<Rightarrow> fsys \<Rightarrow> pystr \<Rightarrow> jobj \<Rightarrow> bool" where
  "stored t d p m \<longleftrightarrow> json_plain (JObj m) \<and> file_at d p = Some (dumps_indent (tl_host t) (JObj m) @ [10])"

text \<open>\<open>reread m n\<close>: the document that is read back after \<open>m\<close> was written.\<close>

definition reread :: "jobj \<Rightarrow> jobj \<Rightarrow> bool" where
  "reread m n \<longleftrightarrow> json_plain (JObj m) \<and> json_sorted (JObj m) = JObj n"

lemma json_no_nan_sorted: "json_no_nan (json_sorted v) = json_no_nan v"
  by (induction v rule: json_sorted.induct) (auto simp: list_all_iff)

lemma reread_exists: "json_plain (JObj m) \<Longrightarrow> \<exists>n. reread m n"
  by (simp add: reread_def)

lemma reread_get: "reread m n \<Longrightarrow> jget n k = json_sorted (jget m k)"
  unfolding reread_def by (metis jget_sorted)

lemma json_plain_get: "json_plain (JObj m) \<Longrightarrow> json_plain (jget m k)"
  by (auto simp: jget_def list_all_iff split: option.splits dest!: map_of_SomeD)

lemma json_no_nan_get: "json_no_nan (JObj m) \<Longrightarrow> json_no_nan (jget m k)"
  by (auto simp: jget_def list_all_iff split: option.splits dest!: map_of_SomeD)

lemma reread_sub: "reread m n \<Longrightarrow> jget m k = JObj x \<Longrightarrow> \<exists>y. jget n k = JObj y \<and> reread x y"
  using json_plain_get [of m k] by (simp add: reread_get) (auto simp: reread_def)

lemma reread_str: "reread m n \<Longrightarrow> jget m k = JStr s \<Longrightarrow> jget n k = JStr s"
  by (simp add: reread_get)

lemma reread_bool: "reread m n \<Longrightarrow> jget m k = JBool b \<Longrightarrow> jget n k = JBool b"
  by (simp add: reread_get)

lemma reread_int: "reread m n \<Longrightarrow> jget m k = JInt b \<Longrightarrow> jget n k = JInt b"
  by (simp add: reread_get)

lemma reread_has: "reread m n \<Longrightarrow> map_of n (u k) = map_option json_sorted (map_of m (u k))"
  unfolding reread_def by (metis json_sorted_lookup)

lemma reread_idx: "reread m n \<Longrightarrow> jget m k \<noteq> JNull \<Longrightarrow> jidx n k = Inr (json_sorted (jget m k))"
  using reread_has [of m n k] by (auto simp: jidx_def jget_def split: option.splits)

lemma reread_no_nan: "reread m n \<Longrightarrow> json_no_nan (JObj n) = json_no_nan (JObj m)"
  unfolding reread_def by (metis json_no_nan_sorted)

lemma reread_plain: "reread m n \<Longrightarrow> json_plain (JObj n)"
  unfolding reread_def by (metis json_plain_sorted)

lemma reread_twice: "reread m n \<Longrightarrow> reread n n"
  using reread_plain [of m n] json_sorted_idem [of "JObj m"] by (simp add: reread_def)

lemma reread_eq: "reread m n \<Longrightarrow> reread m n' \<Longrightarrow> n = n'"
  by (simp add: reread_def)

lemma reread_hash: "seal_ok t \<Longrightarrow> reread m n \<Longrightarrow> collector_hash t (JObj n) = collector_hash t (JObj m)"
  unfolding seal_ok_def reread_def collector_hash_def by metis

lemma hash_no_nan: "seal_ok t \<Longrightarrow> collector_hash t v = Inr x \<Longrightarrow> json_no_nan v"
  by (auto simp: seal_ok_def collector_hash_def ok_simps)

lemma sha_hex_form: "seal_ok t \<Longrightarrow> is_hex 64 (sha_hex (tl_host t) b)"
  using is_hex_to_hex [of "sha256 (tl_host t) b"] by (simp add: seal_ok_def sha_hex_def)

lemma stored_loads:
  assumes "seal_ok t" and "stored t d p m"
  obtains n where "collector_load t d p = Inr (JObj n)" and "reread m n"
proof -
  obtain n where n: "reread m n" using assms(2) reread_exists by (auto simp: stored_def)
  have f: "file_at d p = Some (dumps_indent (tl_host t) (JObj m) @ [10])" and "json_plain (JObj m)"
    using assms(2) by (simp_all only: stored_def)
  then have "loads (tl_host t) (dumps_indent (tl_host t) (JObj m) @ [10]) = Some (json_sorted (JObj m))"
    using assms(1) by (simp add: seal_ok_def codec_ok_def)
  moreover obtain s where "utf8_decode (dumps_indent (tl_host t) (JObj m) @ [10]) = Inr s"
    using assms(1) unfolding seal_ok_def by blast
  ultimately have "collector_load t d p = Inr (json_sorted (JObj m))"
    using f by (simp add: collector_load_def open_rb_file_at)
  with n that show ?thesis unfolding reread_def by metis
qed

lemma stored_read:
  assumes t: "seal_ok (ip_tools ip)" and s: "stored (ip_tools ip) d p m"
    and k: "kn_real k p = Some (fs_resolve d p)" and q: "\<exists>c. file_at d p = Some c \<and> quiet k (fs_resolve d p) c st"
  obtains n blocks where "read_json_artifact ip k p = Some (Inr (n, jobj (file_record ip (fs_resolve d p) st blocks)))"
    and "reread m n" and "file_at d p = Some (concat blocks)" and "st_size st = int (length (concat blocks))"
proof -
  obtain c where c: "file_at d p = Some c" "quiet k (fs_resolve d p) c st" using q by blast
  obtain blocks where b: "read_regular k p ''changed while it was being read'' = Some (Inr (fs_resolve d p, st, blocks))" "concat blocks = c"
    using quiet_read [OF k c(2)] by blast
  from stored_loads [OF t s] obtain n where n: "collector_load (ip_tools ip) d p = Inr (JObj n)" "reread m n" by blast
  then have "loads (tl_host (ip_tools ip)) c = Some (JObj n)"
    using c(1) by (auto simp: collector_load_def open_rb_file_at ok_simps split: option.splits)
  with b have "read_json_artifact ip k p = Some (Inr (n, jobj (file_record ip (fs_resolve d p) st blocks)))"
    by (simp add: read_json_artifact_def att_mapping_def)
  moreover have "st_size st = int (length c)" using c(2) by (auto simp: quiet_def)
  ultimately show ?thesis using that n(2) b(2) c(1) by blast
qed

subsection \<open>What a capture holds\<close>

lemma validate_checkpoint_binding:
  "validate_checkpoint ip k checkpoint cp source artifact endpoint tier expected = Inr binding \<Longrightarrow>
     jget binding ''source'' = JObj source \<and> jget binding ''tier'' = JStr tier"
  by (auto simp: validate_checkpoint_def ok_simps)

definition stable_evidence :: "jobj \<Rightarrow> jobj \<Rightarrow> bool" where
  "stable_evidence evidence binding \<longleftrightarrow>
     jget evidence ''required_post_run_native_parity'' = JObj binding \<and> jget evidence ''source'' = jget binding ''source''
     \<and> (\<exists>source. jget binding ''source'' = JObj source) \<and> holds evidence ''source_unchanged'' \<and> holds evidence ''model_artifact_unchanged''"

lemma capture_shape:
  assumes "capture_attestation ip sv a = Some (Inr report)"
  obtains evidence binding hash where "jget report ''evidence'' = JObj evidence" and "stable_evidence evidence binding"
    and "collector_hash (ip_tools ip) (JObj evidence) = Inr hash" and "jget report ''attestation_id'' = JStr hash"
    and "jget report ''phase'' = JStr (u ''live-capture'')" and "jget binding ''tier'' = JStr (ca_tier a)"
proof -
  obtain ci before ob re proc hash where o: "observe_endpoint ip sv a ci before = Inr ob"
    and h: "collector_hash (ip_tools ip) (JObj (live_evidence a ci ob re proc)) = Inr hash"
    and r: "jget report ''evidence'' = JObj (live_evidence a ci ob re proc)" "jget report ''attestation_id'' = JStr hash"
      "jget report ''phase'' = JStr (u ''live-capture'')"
    using assms by (auto simp: capture_attestation_def ok_simps Let_def)
  have "jget (ob_binding ob) ''source'' = JObj (ci_source ci)" "jget (ob_binding ob) ''tier'' = JStr (ca_tier a)"
    using o by (auto simp: observe_endpoint_def ok_simps Let_def dest!: validate_checkpoint_binding)
  then have "stable_evidence (live_evidence a ci ob re proc) (ob_binding ob)"
    by (simp add: stable_evidence_def live_evidence_def holds_def)
  with that h r \<open>jget (ob_binding ob) ''tier'' = JStr (ca_tier a)\<close> show ?thesis by blast
qed

lemma fl_le_trans: "fl_le a b \<Longrightarrow> fl_le b c \<Longrightarrow> fl_le a c"
  by (cases a; cases b; cases c) (auto simp: fl_le_def)

lemma fl_not_less: "a \<noteq> NaN \<Longrightarrow> b \<noteq> NaN \<Longrightarrow> \<not> fl_lt a b \<longleftrightarrow> fl_le b a"
  by (cases a; cases b) (auto simp: fl_le_def)

lemma earliest_least:
  assumes "NaN \<notin> fst ` set cs" and "earliest cs = Some e"
  shows "\<forall>c \<in> set cs. fl_le (fst e) (fst c)"
proof -
  have main: "fl_le (fst (foldl (\<lambda>best x. if fl_lt (fst x) (fst best) then x else best) b xs)) (fst c)"
    if "NaN \<notin> insert (fst b) (fst ` set xs)" "c = b \<or> c \<in> set xs" for b xs and c :: "pyfloat \<times> 'a"
    using that
  proof (induction xs arbitrary: b c)
    case Nil
    then show ?case by (cases "fst b") (auto simp: fl_le_def)
  next
    case (Cons x xs)
    let ?m = "if fl_lt (fst x) (fst b) then x else b"
    have m: "fl_le (fst ?m) (fst b)" "fl_le (fst ?m) (fst x)" "NaN \<notin> insert (fst ?m) (fst ` set xs)"
      using Cons.prems(1) fl_not_less [of "fst x" "fst b"] by (cases "fst x"; cases "fst b"; auto simp: fl_le_def)+
    from Cons.IH [OF m(3), of ?m] Cons.IH [OF m(3), of c] Cons.prems(2) m(1,2) show ?case
      by (auto intro: fl_le_trans)
  qed
  show ?thesis
  proof (cases cs)
    case (Cons c0 rest)
    with assms main [of c0 rest] show ?thesis by auto
  qed (use assms in simp)
qed

lemma validate_checkpoint_counts:
  assumes "validate_checkpoint ip k checkpoint cp source artifact endpoint tier expected = Inr binding"
  shows "py_eq (jget source ''nonempty_lines'') (JInt expected)"
    and "\<exists>n. jget checkpoint ''completed_rows'' = JInt n \<and> n \<le> expected"
  using assms by (auto simp: validate_checkpoint_def check_declared_source_def ok_simps simp del: py_eq_int)

lemma started_before_all:
  assumes "started_before ip ci before = Inr r"
  obtains v t where "jidx before ''process_start_epoch'' = Inr v" and "float_of_json v = Inr t"
    and "NaN \<notin> insert t (fst ` set (start_candidates ci)) \<longrightarrow> (\<forall>c \<in> set (start_candidates ci). fl_lt t (fst c))"
proof -
  obtain v t start words where v: "jidx before ''process_start_epoch'' = Inr v" "float_of_json v = Inr t"
    and e: "earliest (start_candidates ci) = Some (start, words)" "\<not> fl_le start t"
    using assms by (auto simp: started_before_def ok_simps)
  have "\<forall>c \<in> set (start_candidates ci). fl_lt t (fst c)" if n: "NaN \<notin> insert t (fst ` set (start_candidates ci))"
  proof
    fix c assume c: "c \<in> set (start_candidates ci)"
    have "fl_le start (fst c)" using earliest_least [OF _ e(1)] n c by auto
    moreover have "fst c \<noteq> NaN" "t \<noteq> NaN" using n c by (metis image_eqI insertCI)+
    ultimately show "fl_lt t (fst c)" using e(2) fl_not_less [of t "fst c"] fl_le_trans by blast
  qed
  with that v show ?thesis by blast
qed


subsection \<open>What finalizing adds\<close>

lemma finalize_shape:
  assumes "finalize_attestation ip k capture_path parity_path = Some (Inr report)"
  obtains capture capture_file evidence binding final cache_sha fevidence hash parity_tier where
    "read_json_artifact ip (k 0) capture_path = Some (Inr (capture, capture_file))"
    and "validate_live_capture ip capture = Inr evidence" and "jget evidence ''required_post_run_native_parity'' = JObj binding"
    and "bind_tier evidence binding parity_tier = Inr (final, cache_sha)"
    and "jget fevidence ''live_capture'' = JObj (jobj [(''artifact'', JObj capture_file), (''attestation_id'', jget capture ''attestation_id''), (''report'', JObj capture)])"
    and "jget fevidence ''binding'' = JObj final" and "collector_hash (ip_tools ip) (JObj fevidence) = Inr hash"
    and "jget report ''evidence'' = JObj fevidence" and "jget report ''attestation_id'' = JStr hash"
    and "jget report ''schema'' = JStr attestation_schema" and "jget report ''phase'' = JStr (u ''finalized'')"
    and "jget report ''post_run_native_parity'' = JObj (jobj [(''status'', JStr (u ''verified''))])"
proof -
  obtain capture capture_file evidence binding parity parity_file dataset final cache_sha corpus_cache native native_model minimum threshold hash where
    "read_json_artifact ip (k 0) capture_path = Some (Inr (capture, capture_file))"
    "validate_live_capture ip capture = Inr evidence" "jget evidence ''required_post_run_native_parity'' = JObj binding"
    "bind_tier evidence binding (jget dataset ''tier'') = Inr (final, cache_sha)"
    "collector_hash (ip_tools ip) (JObj (final_evidence capture capture_file parity parity_file minimum threshold native native_model corpus_cache final)) = Inr hash"
    "report = jobj [(''schema'', JStr attestation_schema), (''phase'', JStr (u ''finalized'')), (''created_at'', JStr (ip_now ip)),
       (''attestation_id'', JStr hash),
       (''evidence'', JObj (final_evidence capture capture_file parity parity_file minimum threshold native native_model corpus_cache final)),
       (''post_run_native_parity'', JObj (jobj [(''status'', JStr (u ''verified''))]))]"
    using assms by (auto simp: finalize_attestation_def ok_simps Let_def split: prod.splits)
  then show ?thesis by (intro that) (simp_all add: final_evidence_def)
qed

lemma finalized_is_read:
  assumes t: "seal_ok (ce_tools env)" and s: "stored (ce_tools env) (ce_disk env) path report"
    and r: "jget report ''schema'' = JStr attestation_schema" "jget report ''phase'' = JStr (u ''finalized'')"
      "jget report ''post_run_native_parity'' = JObj (jobj [(''status'', JStr (u ''verified''))])"
      "jget report ''evidence'' = JObj evidence" "jget report ''attestation_id'' = JStr hash"
    and h: "collector_hash (ce_tools env) (JObj evidence) = Inr hash"
  shows "\<exists>report' evidence'. finalized_evidence env path = Inr (report', evidence') \<and> reread evidence evidence'"
proof -
  obtain r' where l: "collector_load (ce_tools env) (ce_disk env) path = Inr (JObj r')" and r': "reread report r'"
    using stored_loads [OF t s] by blast
  obtain e' where e': "jget r' ''evidence'' = JObj e'" "reread evidence e'" using reread_sub [OF r' r(4)] by blast
  obtain p where p: "jget r' ''post_run_native_parity'' = JObj p" "reread (jobj [(''status'', JStr (u ''verified''))]) p"
    using reread_sub [OF r' r(3)] by blast
  have "jget p ''status'' = JStr (u ''verified'')" using reread_str [OF p(2)] by simp
  then have "finalized_evidence env path = Inr (r', e')"
    using l e' p(1) reread_str [OF r' r(1)] reread_str [OF r' r(2)] reread_str [OF r' r(5)] reread_hash [OF t e'(2)] h
    by (simp add: finalized_evidence_def Let_def mapping_def sub_def field_is_def sealed_def)
  with e'(2) show ?thesis by blast
qed

lemma verify_file_record:
  assumes t: "seal_ok t" and f: "file_at d resolved = Some (concat blocks)" and ne: "resolved \<noteq> []"
    and m: "st_size m = int (length (concat blocks))" and r: "reread (jobj (file_record ip resolved m blocks)) r" and ip: "ip_tools ip = t"
  shows "\<exists>fv'. verify t d fv (JObj r) = Inr (fv', resolved)"
proof -
  let ?r = "jobj (file_record ip resolved m blocks)"
  have "map_of ?r (u ''path'') = Some (JStr resolved)" "map_of ?r (u ''size_bytes'') = Some (JInt (int (length (concat blocks))))"
    "map_of ?r (u ''sha256'') = Some (JStr (sha_hex (tl_host t) (concat blocks)))"
    by (simp_all add: file_record_def stat_fields_def ip) (simp add: m)
  then have "map_of r (u ''path'') = Some (JStr resolved)" "map_of r (u ''size_bytes'') = Some (JInt (int (length (concat blocks))))"
    "map_of r (u ''sha256'') = Some (JStr (sha_hex (tl_host t) (concat blocks)))"
    using reread_has [OF r] by simp_all
  then show ?thesis using f ne sha_hex_form [OF t]
    by (simp add: verify_def mapping_def required_def integer_def path_field_def sha_field_def Let_def)
qed

lemma captured_is_read:
  assumes t: "seal_ok (ce_tools env)" and s: "stored (ce_tools env) (ce_disk env) p report"
    and idem: "fs_resolve (ce_disk env) resolved = resolved" "resolved \<noteq> []" "resolved = fs_resolve (ce_disk env) p"
    and c: "reread report capture" and v: "validate_live_capture ip capture = Inr evidence" and ip: "ip_tools ip = ce_tools env"
    and m: "st_size m = int (length (concat blocks))" "file_at (ce_disk env) p = Some (concat blocks)"
    and no: "json_no_nan (JObj capture)"
    and live: "jget fevidence ''live_capture'' = JObj (jobj [(''artifact'', JObj (jobj (file_record ip resolved m blocks))),
      (''attestation_id'', jget capture ''attestation_id''), (''report'', JObj capture)])"
    and fe: "reread fevidence fevidence'"
  shows "\<exists>fv' lc. captured env fv fevidence' = Inr (fv', lc) \<and> lc_report lc = capture \<and> lc_evidence lc = evidence"
proof -
  obtain l where l: "jget fevidence' ''live_capture'' = JObj l"
    and rl: "reread (jobj [(''artifact'', JObj (jobj (file_record ip resolved m blocks))),
      (''attestation_id'', jget capture ''attestation_id''), (''report'', JObj capture)]) l"
    using reread_sub [OF fe live] by blast
  obtain af where af: "jget l ''artifact'' = JObj af" "reread (jobj (file_record ip resolved m blocks)) af"
    using reread_sub [OF rl, of "''artifact''"] by auto
  obtain em where em: "jget l ''report'' = JObj em" "reread capture em" using reread_sub [OF rl, of "''report''"] by auto
  have "em = capture" using reread_eq [OF em(2) reread_twice [OF c]] .
  have at: "file_at (ce_disk env) resolved = Some (concat blocks)" using m(2) idem by (simp add: file_at_def)
  obtain fv' where fv': "verify (ce_tools env) (ce_disk env) fv (JObj af) = Inr (fv', resolved)"
    using verify_file_record [OF t at idem(2) m(1) af(2) ip] by blast
  have "stored (ce_tools env) (ce_disk env) resolved report"
    using s idem by (simp add: stored_def file_at_def)
  then obtain c' where "collector_load (ce_tools env) (ce_disk env) resolved = Inr (JObj c')" "reread report c'"
    using stored_loads [OF t] by blast
  then have load: "collector_load (ce_tools env) (ce_disk env) resolved = Inr (JObj capture)"
    using reread_eq [OF _ c] by blast
  obtain hash where h: "collector_hash (ce_tools env) (JObj evidence) = Inr hash" "jget capture ''attestation_id'' = JStr hash"
    "jget capture ''evidence'' = JObj evidence" "jget capture ''schema'' = JStr attestation_schema" "jget capture ''phase'' = JStr (u ''live-capture'')"
    using v by (auto simp: validate_live_capture_def ok_simps ip)
  have "jget l ''attestation_id'' = JStr hash" using reread_str [OF rl] h(2) by simp
  moreover have "py_eq (JObj capture) (JObj capture)" using py_eq_refl [OF reread_plain [OF c] no] .
  ultimately have "captured env fv fevidence' = Inr (fv', \<lparr>lc_path = resolved, lc_record = l, lc_report = capture, lc_evidence = evidence\<rparr>)"
    using l af(1) em(1) \<open>em = capture\<close> fv' idem(1) load h
    by (simp add: captured_def Let_def mapping_def sub_def field_is_def sealed_def del: py_eq.simps)
  then show ?thesis by auto
qed

lemma stable_reread:
  assumes "stable_evidence evidence binding" and "reread evidence e"
  shows "\<exists>b. stable_evidence e b \<and> reread binding b"
proof -
  obtain b where b: "jget e ''required_post_run_native_parity'' = JObj b" "reread binding b"
    using reread_sub [OF assms(2)] assms(1) unfolding stable_evidence_def by blast
  have "jget e ''source'' = jget b ''source''" "\<exists>source. jget b ''source'' = JObj source"
    using assms(1) reread_get [OF assms(2)] reread_get [OF b(2)] by (auto simp: stable_evidence_def)
  moreover have "holds e ''source_unchanged''" "holds e ''model_artifact_unchanged''"
    using assms(1) reread_bool [OF assms(2)] by (simp_all add: stable_evidence_def holds_def)
  ultimately show ?thesis using b by (auto simp: stable_evidence_def)
qed

lemma stable_binding:
  assumes "stable_evidence e b" and "json_plain (JObj e)" and "json_no_nan (JObj e)"
  shows "captured_binding e = Inr b"
proof -
  obtain source where s: "jget e ''source'' = JObj source" "jget b ''source'' = JObj source"
    using assms(1) by (auto simp: stable_evidence_def)
  have "py_eq (JObj source) (JObj source)"
    using py_eq_refl [OF json_plain_get [OF assms(2)] json_no_nan_get [OF assms(3)], of "''source''"] s(1) by (simp only:)
  with s assms(1) show ?thesis
    by (simp add: captured_binding_def stable_evidence_def sub_def mapping_def del: py_eq.simps)
qed

lemma jidx_jget: "jidx m k = Inr v \<Longrightarrow> jget m k = v"
  by (auto simp: jidx_def jget_def split: option.splits)

lemma seeded_is_prefix_binding:
  assumes "seeded_binding e b parity_tier = Inr (final, sha)" and "jget final ''tier'' = JStr tier"
  shows "prefix_binding tier e b = Inr final" and "prefix_scope final"
  using assms by (auto simp: seeded_binding_def prefix_binding_def prefix_scope_def field_is_def sub_def mapping_def ok_simps dest!: jidx_jget)

lemma final_binding_is_read:
  assumes b: "bind_tier e b parity_tier = Inr (final, sha)" and e: "stable_evidence e b" "json_plain (JObj e)" "json_no_nan (JObj e)" "reread b b"
    and f: "jget fe ''binding'' = JObj final" "reread fe fe'" "json_no_nan (JObj fe)" and tier: "jget final ''tier'' = JStr tier"
  shows "\<exists>final'. final_binding tier fe' e = Inr final' \<and> reread final final'"
proof -
  obtain final' where g: "jget fe' ''binding'' = JObj final'" "reread final final'" using reread_sub [OF f(2,1)] by blast
  have c: "captured_binding e = Inr b" using stable_binding [OF e(1-3)] .
  have no: "json_no_nan (JObj final')"
    using json_no_nan_get [OF f(3), of "''binding''"] g(2) json_no_nan_sorted [of "JObj final"] by (simp add: f(1) reread_def)
  have refl: "py_eq (JObj final') (JObj final')" using py_eq_refl [OF reread_plain [OF g(2)] no] .
  have "final_binding tier fe' e = Inr final'"
  proof (cases "py_eq (JObj final') (JObj b)")
    case True
    then show ?thesis using g c by (simp add: final_binding_def sub_def mapping_def del: py_eq.simps)
  next
    case False
    have "final \<noteq> b" using False refl reread_eq [OF g(2)] e(4) by blast
    then have s: "seeded_binding e b parity_tier = Inr (final, the sha)"
      using b by (auto simp: bind_tier_def ok_simps split: if_splits prod.splits)
    note p = seeded_is_prefix_binding [OF s tier]
    have "prefix_scope final'" using p(2) reread_get [OF g(2), of "''scope''"]
      by (auto simp: prefix_scope_def field_is_def)
    moreover have "py_eq (JObj final') (JObj final)"
      using refl py_eq_sorted_right [of "JObj final" "JObj final'"] g(2) by (simp add: reread_def del: py_eq.simps)
    ultimately show ?thesis using g c p(1) False by (simp add: final_binding_def sub_def mapping_def del: py_eq.simps)
  qed
  with g(2) show ?thesis by blast
qed

text \<open>
  C32. From capture to collector. If \<open>capture_attestation\<close> returns a report, it is stored, and \<open>finalize_attestation\<close>
  accepts the stored file with some parity report, then the collector's checks of the seals, of the embedded capture
  and of the binding (\<open>finalized_evidence\<close>, \<open>captured\<close>, \<open>final_binding\<close>) accept the stored attestation, with the capture
  that was made.
\<close>

theorem attestation_reaches_collector:
  assumes t: "seal_ok (ce_tools env)" and ip: "ip_tools ip = ce_tools env"
    and capture: "capture_attestation ip sv a = Some (Inr live)" and live: "stored (ce_tools env) (ce_disk env) capture_path live"
    and view: "kn_real (k 0) capture_path = Some resolved" "file_at (ce_disk env) capture_path = Some content"
      "quiet (k 0) resolved content m"
    and path: "resolved = fs_resolve (ce_disk env) capture_path" "fs_resolve (ce_disk env) resolved = resolved" "resolved \<noteq> []"
    and final: "finalize_attestation ip k capture_path parity_path = Some (Inr report)" and stored: "stored (ce_tools env) (ce_disk env) path report"
  shows "\<exists>document evidence. finalized_evidence env path = Inr (document, evidence)
    \<and> (\<exists>fv' lc. captured env fv evidence = Inr (fv', lc) \<and> reread live (lc_report lc)
      \<and> (\<exists>binding. sub evidence ''binding'' = Inr binding
           \<and> (\<forall>tier. jget binding ''tier'' = JStr tier \<longrightarrow> final_binding tier evidence (lc_evidence lc) = Inr binding)))"
proof -
  obtain c cf evidence binding final cache_sha fe hash parity_tier where
    r: "read_json_artifact ip (k 0) capture_path = Some (Inr (c, cf))" and v: "validate_live_capture ip c = Inr evidence"
    and b: "jget evidence ''required_post_run_native_parity'' = JObj binding" "bind_tier evidence binding parity_tier = Inr (final, cache_sha)"
    and fe: "jget fe ''live_capture'' = JObj (jobj [(''artifact'', JObj cf), (''attestation_id'', jget c ''attestation_id''), (''report'', JObj c)])"
      "jget fe ''binding'' = JObj final" "collector_hash (ip_tools ip) (JObj fe) = Inr hash"
    and rep: "jget report ''evidence'' = JObj fe" "jget report ''attestation_id'' = JStr hash" "jget report ''schema'' = JStr attestation_schema"
      "jget report ''phase'' = JStr (u ''finalized'')" "jget report ''post_run_native_parity'' = JObj (jobj [(''status'', JStr (u ''verified''))])"
    using final by (rule finalize_shape)
  obtain e0 b0 where e0: "jget live ''evidence'' = JObj e0" "stable_evidence e0 b0" using capture by (rule capture_shape)
  have "\<exists>n blocks. read_json_artifact ip (k 0) capture_path = Some (Inr (n, jobj (file_record ip resolved m blocks)))
      \<and> reread live n \<and> file_at (ce_disk env) capture_path = Some (concat blocks) \<and> st_size m = int (length (concat blocks))"
    using stored_read [of ip "ce_disk env" capture_path live "k 0" m] t live view path(1) ip by metis
  then obtain blocks where c: "cf = jobj (file_record ip resolved m blocks)" "reread live c"
      "file_at (ce_disk env) capture_path = Some (concat blocks)" "st_size m = int (length (concat blocks))"
    using r by auto
  have ev: "jget c ''evidence'' = JObj evidence"
    using v by (auto simp: validate_live_capture_def ok_simps)
  have fno: "json_no_nan (JObj fe)" using hash_no_nan [OF t fe(3) [unfolded ip]] .
  have cno: "json_no_nan (JObj c)" using json_no_nan_get [OF fno, of "''live_capture''"] by (simp add: fe(1) jobj_def)
  have eno: "json_no_nan (JObj evidence)" using json_no_nan_get [OF cno, of "''evidence''"] ev by simp
  have re: "reread e0 evidence" using reread_sub [OF c(2) e0(1)] ev by auto
  obtain b' where b': "stable_evidence evidence b'" "reread b0 b'" using stable_reread [OF e0(2) re] by blast
  then have bb: "b' = binding" using b(1) by (simp add: stable_evidence_def)
  obtain document fe' where d: "finalized_evidence env path = Inr (document, fe')" "reread fe fe'"
    using finalized_is_read [OF t stored rep(3,4,5,1,2)] fe(3) ip by auto
  obtain fv' lc where lc: "captured env fv fe' = Inr (fv', lc)" "lc_report lc = c" "lc_evidence lc = evidence"
    using captured_is_read [OF t live path(2,3,1) c(2) v ip c(4,3) cno fe(1) [unfolded c(1)] d(2)] by blast
  obtain final' where f': "jget fe' ''binding'' = JObj final'" "reread final final'" using reread_sub [OF d(2) fe(2)] by blast
  have tiers: "final_binding tier fe' evidence = Inr final'" if "jget final' ''tier'' = JStr tier" for tier
  proof -
    have "json_sorted (jget final ''tier'') = JStr tier" using that reread_get [OF f'(2)] by simp
    then have "jget final ''tier'' = JStr tier" by (cases "jget final ''tier''") auto
    from final_binding_is_read [OF b(2) b'(1) [unfolded bb] reread_plain [OF re] eno reread_twice [OF b'(2) [unfolded bb]] fe(2) d(2) fno this]
    show ?thesis using reread_eq [OF _ f'(2)] by blast
  qed
  have "sub fe' ''binding'' = Inr final'" using f'(1) by (simp add: ok_simps)
  with d(1) lc c(2) tiers show ?thesis by blast
qed

end
