(* ===== verification/SealRun.thy ===== *)
theory SealRun
  imports Sealing
begin

text \<open>
  One attestation from end to end: a server, a model, a checkpoint and a source are captured, the capture is finalized
  with a parity report, and the collector's checks of both documents succeed.
\<close>

definition seal_host :: host where
  "seal_host = counting_host\<lparr>sha256 := (\<lambda>_. replicate 32 0)\<rparr>"

definition seal_tools :: tools where
  "seal_tools = sample_tools\<lparr>tl_host := seal_host, tl_dumps := (\<lambda>v. if json_no_nan v then Inr [] else Inl (ValueError ''nan''))\<rparr>"

lemma seal_tools_sha [simp]: "sha_hex (tl_host seal_tools) b = zero_sha"
  by (simp add: sha_hex_def seal_tools_def seal_host_def zero_sha_def)

lemma seal_tools_hash: "collector_hash seal_tools v = (if json_no_nan v then Inr zero_sha else Inl (ValueError ''nan''))"
  using seal_tools_sha [of "[]"] by (simp add: collector_hash_def seal_tools_def)

lemma seal_tools_ok: "seal_ok seal_tools"
proof -
  have "codec_ok seal_host" using counting_host_codec by (simp add: codec_ok_def seal_host_def)
  moreover have "\<exists>s. utf8_decode (dumps_indent seal_host v @ [10]) = Inr s" for v
  proof -
    have "dumps_indent seal_host v @ [10] = utf8_bytes (replicate (to_nat (json_sorted v)) 0 @ [10])"
      by (simp add: seal_host_def counting_host_def utf8_bytes_def utf8_char_def byte_of_def map_replicate concat_replicate_single)
    then show ?thesis
      using utf8_decode_bytes [of "replicate (to_nat (json_sorted v)) 0 @ [10]"] by (auto simp: is_scalar_def)
  qed
  ultimately show ?thesis
    by (simp add: seal_ok_def seal_tools_def json_no_nan_sorted) (simp add: seal_host_def)
qed

text \<open>A document as the bytes that are read back as it is.\<close>

definition doc_bytes :: "jobj \<Rightarrow> bytes" where
  "doc_bytes m = replicate (Suc (to_nat (JObj m))) 0"

lemma doc_loads: "json_plain (JObj m) \<Longrightarrow> loads (tl_host seal_tools) (doc_bytes m) = Some (JObj m)"
  by (simp add: seal_tools_def seal_host_def counting_host_def doc_bytes_def Let_def)

subsection \<open>The files\<close>

definition stat_of :: "bytes \<Rightarrow> fstat" where
  "stat_of content = \<lparr>st_regular = True, st_dev = 1, st_ino = 2, st_size = int (length content), st_mtime_ns = 0, st_ctime_ns = 0,
     st_birth = Some (Fin 9)\<rparr>"

text \<open>A descriptor that is answered in whole blocks.\<close>

definition whole_blocks :: "bytes \<Rightarrow> nat \<Rightarrow> bytes" where
  "whole_blocks content i = take block_size (drop (i * block_size) content)"

definition kernel_of :: "(pystr \<Rightarrow> bytes option) \<Rightarrow> kernel" where
  "kernel_of files = \<lparr>kn_path = id, kn_real = (\<lambda>p. map_option (\<lambda>_. p) (files p)),
     kn_open = (\<lambda>p. map_option (\<lambda>c. \<lparr>op_before = stat_of c, op_reply = whole_blocks c, op_after = stat_of c\<rparr>) (files p)),
     kn_stat = (\<lambda>p. map_option stat_of (files p))\<rparr>"

lemma whole_blocks_concat: "concat (map (whole_blocks content) [0..<n]) = take (n * block_size) content"
proof (induction n)
  case (Suc n)
  then show ?case
    using take_add [of "n * block_size" block_size content] by (simp add: whole_blocks_def add.commute)
qed simp

lemma whole_blocks_serve: "serves (whole_blocks content) content"
  unfolding serves_def whole_blocks_concat by (auto simp: whole_blocks_def take_is_prefix)

lemma kernel_quiet: "files p = Some content \<Longrightarrow> quiet (kernel_of files) p content (stat_of content)"
  using whole_blocks_serve by (simp add: quiet_def kernel_of_def stat_of_def same_stat_def)

lemma kernel_paths [simp]:
  "kn_path (kernel_of files) p = p" "kn_real (kernel_of files) p = map_option (\<lambda>_. p) (files p)"
  "kn_stat (kernel_of files) p = map_option stat_of (files p)"
  by (simp_all add: kernel_of_def)

text \<open>What the readers return on such files.\<close>

definition file_facts :: "interp \<Rightarrow> pystr \<Rightarrow> bytes \<Rightarrow> (string \<times> json) list" where
  "file_facts ip p content = (''path'', JStr p) # stat_fields ip (stat_of content) @ [(''sha256'', JStr zero_sha)]"

lemma kernel_reads:
  assumes "files p = Some content" and "ip_tools ip = seal_tools"
  shows "hash_regular_file ip (kernel_of files) p = Some (Inr (jobj (file_facts ip p content)))"
    and "hash_source_file ip (kernel_of files) p = Some (Inr (jobj (file_facts ip p content @ [(''nonempty_lines'', JInt (int (source_lines content)))])))"
    and "content = doc_bytes m \<Longrightarrow> json_plain (JObj m) \<Longrightarrow>
      read_json_artifact ip (kernel_of files) p = Some (Inr (m, jobj (file_facts ip p content)))"
proof -
  have k: "kn_real (kernel_of files) p = Some p" using assms(1) by simp
  have b: "\<exists>blocks. read_regular (kernel_of files) p changed = Some (Inr (p, stat_of content, blocks)) \<and> concat blocks = content" for changed
    using quiet_read [OF k kernel_quiet [of files p content, OF assms(1)]] by metis
  show "hash_regular_file ip (kernel_of files) p = Some (Inr (jobj (file_facts ip p content)))"
    using b [of "''changed while it was being hashed''"] assms(2) by (auto simp: hash_regular_file_def file_record_def file_facts_def)
  show "hash_source_file ip (kernel_of files) p = Some (Inr (jobj (file_facts ip p content @ [(''nonempty_lines'', JInt (int (source_lines content)))])))"
    using b [of "''changed while it was being hashed''"] assms(2)
    by (auto simp: hash_source_file_def file_record_def file_facts_def count_blocks_concat)
  assume "content = doc_bytes m" "json_plain (JObj m)"
  then show "read_json_artifact ip (kernel_of files) p = Some (Inr (m, jobj (file_facts ip p content)))"
    using b [of "''changed while it was being read''"] assms(2) doc_loads [of m]
    by (auto simp: read_json_artifact_def file_record_def file_facts_def att_mapping_def)
qed

subsection \<open>The capture\<close>

definition seal_interp :: interp where
  "seal_interp = \<lparr>ip_tools = seal_tools,
     ip_parse_iso = (\<lambda>s. if s = u ''b'' then Some (Some 20000000) else Some (Some 10000000)), ip_iso = (\<lambda>_. []),
     ip_iso_epoch = (\<lambda>_. []), ip_platform = u ''linux'', ip_script = u ''/tool'', ip_now = u ''a''\<rparr>"

definition model_source :: jobj where
  "model_source = jobj [(''path'', JStr (u ''/model'')), (''size_bytes'', JInt 0), (''sha256'', JStr zero_sha)]"

definition seal_checkpoint :: jobj where
  "seal_checkpoint = jobj
     [(''schema'', JStr (u ''leann-cache-generation-checkpoint-v1'')), (''role'', JStr (u ''corpus'')), (''status'', JStr (u ''running'')),
      (''embedding_endpoint'', JStr (u ''http://h/v1/embeddings'')), (''cache_path'', JStr (u ''/c'')),
      (''source'', JObj (jobj [(''path'', JStr (u ''/s'')), (''size_bytes'', JInt 1), (''sha256'', JStr zero_sha), (''nonempty_lines'', JInt 1)])),
      (''model'', JObj (jobj [(''artifact'', JObj model_source), (''sha256'', JStr zero_sha)])),
      (''dimension'', JInt 1), (''completed_rows'', JInt 0), (''updated_at'', JStr (u ''a'')), (''input_hash'', JStr (u ''i'')),
      (''fingerprint'', JStr (u ''f''))]"

definition seal_files :: "pystr \<Rightarrow> bytes option" where
  "seal_files = map_of [(u ''/tool'', []), (u ''/model'', []), (u ''/k'', doc_bytes seal_checkpoint), (u ''/s'', [97]), (u ''/c'', [])]"

definition seal_process :: jobj where
  "seal_process = jobj [(''pid'', JInt 7), (''identity_sha256'', JStr zero_sha), (''working_directory'', JStr (u ''/'')),
     (''process_start_epoch'', JFloat (Fin 5))]"

definition seal_args :: capture_args where
  "seal_args = \<lparr>ca_endpoint = u ''http://h'', ca_artifact = u ''/model'', ca_build = u ''b1'', ca_pid = Some 7, ca_checkpoint = u ''/k'',
     ca_tier = u ''t'', ca_count = 1, ca_timeout = Fin 10, ca_process = True\<rparr>"

definition seal_answer :: jobj where
  "seal_answer = jobj [(''status'', JInt 200), (''payload'', JObj (jobj [(''status'', JStr (u ''ok'')), (''build_info'', JStr (u ''b1'')),
     (''model_path'', JStr (u ''/model''))]))]"

definition seal_view :: system_view where
  "seal_view = \<lparr>cx_urlsplit = (\<lambda>_. Inr \<lparr>up_scheme = u ''http'', up_credentials = False, up_query = [], up_fragment = [], up_host = u ''h'',
       up_path = [], up_port = Inr None\<rparr>),
     cx_kernel = (\<lambda>_. kernel_of seal_files), cx_probe = (\<lambda>_ _ _ _ _. Inr seal_process), cx_query = (\<lambda>_ _ _. Inr seal_answer)\<rparr>"

definition seal_endpoint :: endpoint where
  "seal_endpoint = \<lparr>en_scheme = u ''http'', en_host = u ''h'', en_port = 80, en_origin = u ''http://h'', en_health = u ''http://h/health'',
     en_props = u ''http://h/props'', en_embeddings = u ''http://h/v1/embeddings''\<rparr>"

lemma seal_interp_simps [simp]:
  "ip_tools seal_interp = seal_tools" "ip_script seal_interp = u ''/tool''" "ip_platform seal_interp = u ''linux''" "ip_now seal_interp = u ''a''"
  by (simp_all add: seal_interp_def)

lemma seal_view_simps [simp]:
  "cx_kernel seal_view i = kernel_of seal_files" "cx_probe seal_view i a b c e = Inr seal_process" "cx_query seal_view i p t = Inr seal_answer"
  by (simp_all add: seal_view_def)

lemma seal_files_simps [simp]:
  "seal_files (u ''/tool'') = Some []" "seal_files (u ''/model'') = Some []" "seal_files (u ''/k'') = Some (doc_bytes seal_checkpoint)"
  "seal_files (u ''/s'') = Some [97]" "seal_files (u ''/c'') = Some []" "seal_files (u ''/c.partial'') = None"
  by (simp_all add: seal_files_def)

lemma seal_iso: "parse_iso8601 seal_interp (JStr (u ''a'')) = Inr 10000000" "parse_iso8601 seal_interp (JStr (u ''b'')) = Inr 20000000"
proof -
  have "utc_offset (u ''a'') = u ''a''" "utc_offset (u ''b'') = u ''b''" by (simp_all add: utc_offset_def u_def)
  then show "parse_iso8601 seal_interp (JStr (u ''a'')) = Inr 10000000" "parse_iso8601 seal_interp (JStr (u ''b'')) = Inr 20000000"
    by (simp_all add: parse_iso8601_def att_string_def seal_interp_def)
qed

lemma seal_urls: "endpoint_urls (cx_urlsplit seal_view) (ca_endpoint seal_args) = Inr seal_endpoint"
  by (simp add: endpoint_urls_def seal_view_def seal_endpoint_def rstrip_while_def Let_def) (simp add: u_def)

definition seal_source :: jobj where
  "seal_source = jobj (file_facts seal_interp (u ''/s'') [97] @ [(''nonempty_lines'', JInt 1)])"

lemma one_line: "source_lines [97] = 1"
  by (simp add: source_lines_def drop_cr_def)

lemma seal_checkpoint_plain: "json_plain (JObj seal_checkpoint)"
  by (simp add: seal_checkpoint_def model_source_def jobj_def)

lemma seal_reads:
  "hash_regular_file seal_interp (kernel_of seal_files) (u ''/tool'') = Some (Inr (jobj (file_facts seal_interp (u ''/tool'') [])))"
  "hash_regular_file seal_interp (kernel_of seal_files) (u ''/model'') = Some (Inr (jobj (file_facts seal_interp (u ''/model'') [])))"
  "hash_source_file seal_interp (kernel_of seal_files) (u ''/s'') = Some (Inr seal_source)"
  "read_json_artifact seal_interp (kernel_of seal_files) (u ''/k'')
     = Some (Inr (seal_checkpoint, jobj (file_facts seal_interp (u ''/k'') (doc_bytes seal_checkpoint))))"
  using kernel_reads [of seal_files _ _ seal_interp] seal_checkpoint_plain by (simp_all add: seal_source_def one_line)

lemma absolute_literal [simp]: "is_absolute (u (CHR ''/'' # p))"
  by (simp add: is_absolute_def startswith_def u_def)

lemma seal_checkpoint_get [simp]:
  "jget seal_checkpoint ''schema'' = JStr (u ''leann-cache-generation-checkpoint-v1'')" "jget seal_checkpoint ''role'' = JStr (u ''corpus'')"
  "jget seal_checkpoint ''status'' = JStr (u ''running'')" "jget seal_checkpoint ''embedding_endpoint'' = JStr (u ''http://h/v1/embeddings'')"
  "jget seal_checkpoint ''cache_path'' = JStr (u ''/c'')" "jget seal_checkpoint ''prefix_seed'' = JNull"
  "jget seal_checkpoint ''source'' = JObj (jobj [(''path'', JStr (u ''/s'')), (''size_bytes'', JInt 1), (''sha256'', JStr zero_sha), (''nonempty_lines'', JInt 1)])"
  "jget seal_checkpoint ''model'' = JObj (jobj [(''artifact'', JObj model_source), (''sha256'', JStr zero_sha)])"
  "jget seal_checkpoint ''dimension'' = JInt 1" "jget seal_checkpoint ''requested_dimension'' = JNull" "jget seal_checkpoint ''completed_rows'' = JInt 0"
  "jget seal_checkpoint ''updated_at'' = JStr (u ''a'')" "jget seal_checkpoint ''input_hash'' = JStr (u ''i'')"
  "jget seal_checkpoint ''fingerprint'' = JStr (u ''f'')" "jget seal_checkpoint ''bindings'' = JNull" "jget seal_checkpoint ''batch_size'' = JNull"
  "jget seal_checkpoint ''prefix_cache_sha256'' = JNull" "jget seal_checkpoint ''header_size'' = JNull"
  by (simp_all add: seal_checkpoint_def)

lemma seal_args_simps [simp]:
  "ca_endpoint seal_args = u ''http://h''" "ca_artifact seal_args = u ''/model''" "ca_build seal_args = u ''b1''" "ca_pid seal_args = Some 7"
  "ca_checkpoint seal_args = u ''/k''" "ca_tier seal_args = u ''t''" "ca_count seal_args = 1" "ca_process seal_args"
  by (simp_all add: seal_args_def)

lemma file_facts_get [simp]:
  "map_of (file_facts ip p content) ''path'' = Some (JStr p)" "map_of (file_facts ip p content) ''sha256'' = Some (JStr zero_sha)"
  "map_of (file_facts ip p content) ''size_bytes'' = Some (JInt (int (length content)))"
  "map_of (file_facts ip p content) ''mtime_ns'' = Some (JInt 0)" "map_of (file_facts ip p content) ''device'' = Some (JInt 1)"
  "map_of (file_facts ip p content) ''inode'' = Some (JInt 2)" "map_of (file_facts ip p content) ''ctime_ns'' = Some (JInt 0)"
  by (simp_all add: file_facts_def stat_fields_def stat_of_def)

lemma seal_source_get [simp]:
  "jget seal_source ''path'' = JStr (u ''/s'')" "jget seal_source ''sha256'' = JStr zero_sha" "jget seal_source ''size_bytes'' = JInt 1"
  "jget seal_source ''nonempty_lines'' = JInt 1" "jget seal_source ''mtime_ns'' = JInt 0" "jget seal_source ''device'' = JInt 1"
  "jget seal_source ''inode'' = JInt 2" "jget seal_source ''ctime_ns'' = JInt 0"
  by (simp_all add: seal_source_def file_facts_def stat_fields_def stat_of_def)

definition seal_start :: jobj where
  "seal_start = jobj ((''path'', JStr (u ''/c'')) # stat_fields seal_interp (stat_of [])
     @ [(''start_time_source'', JStr (u ''filesystem birth time of the append-only cache/partial artifact''))])"

lemma seal_start_artifact:
  "checkpoint_start_artifact seal_interp (kernel_of seal_files) seal_checkpoint (u ''/k'') = Inr seal_start"
  by (simp add: checkpoint_start_artifact_def att_string_def is_file_def partial_path_def stat_of_def start_record_def seal_start_def Let_def)

definition seal_inputs :: capture_inputs where
  "seal_inputs = \<lparr>ci_endpoint = seal_endpoint, ci_tool = jobj (file_facts seal_interp (u ''/tool'') []),
     ci_artifact = jobj (file_facts seal_interp (u ''/model'') []), ci_checkpoint = seal_checkpoint,
     ci_checkpoint_file = jobj (file_facts seal_interp (u ''/k'') (doc_bytes seal_checkpoint)),
     ci_source_path = u ''/s'', ci_source = seal_source, ci_start = seal_start, ci_seed = None\<rparr>"

lemma seal_inputs_read: "read_inputs seal_interp seal_view seal_args = Some (Inr seal_inputs)"
proof -
  have "endpoint_urls (cx_urlsplit seal_view) (u ''http://h'') = Inr seal_endpoint" using seal_urls by simp
  then show ?thesis
    by (simp add: read_inputs_def seal_reads att_sub_def att_mapping_def resolve_declared_path_def att_string_def checkpoint_at_def
        seal_start_artifact prefix_seed_evidence_def seal_inputs_def) (simp add: seal_endpoint_def)
qed

definition seal_binding :: jobj where
  "seal_binding = jobj [(''tier'', JStr (u ''t'')), (''expected_source_count'', JInt 1), (''source'', JObj seal_source),
     (''model_descriptor_sha256'', JStr zero_sha), (''model_artifact_sha256'', JStr zero_sha), (''fingerprint'', JStr (u ''f'')),
     (''dimension'', JInt 1), (''checkpoint_input_hash'', JStr (u ''i''))]"

lemma model_source_get [simp]:
  "jget model_source ''path'' = JStr (u ''/model'')" "jget model_source ''size_bytes'' = JInt 0" "jget model_source ''sha256'' = JStr zero_sha"
  by (simp_all add: model_source_def)

lemma model_source_no_nan [simp]: "json_no_nan (JObj model_source)"
  by (simp add: model_source_def jobj_def)

lemma seal_checkpoint_valid:
  "validate_checkpoint seal_interp (kernel_of seal_files) seal_checkpoint (u ''/k'') seal_source
     (jobj (file_facts seal_interp (u ''/model'') [])) seal_endpoint (u ''t'') 1 = Inr seal_binding"
proof -
  have "json_no_nan (model_record (jobj [(''artifact'', JObj model_source), (''sha256'', JStr zero_sha)]) (JObj model_source))"
    using model_source_no_nan by (simp add: model_record_def)
  then have "check_declared_model seal_interp (kernel_of seal_files) seal_checkpoint (u ''/k'') (jobj (file_facts seal_interp (u ''/model'') []))
      = Inr (jobj [(''artifact'', JObj model_source), (''sha256'', JStr zero_sha)])"
    by (simp add: check_declared_model_def att_sub_def att_mapping_def resolve_declared_path_def att_string_def seal_tools_hash)
  moreover have "check_declared_source (kernel_of seal_files) seal_checkpoint (u ''/k'') seal_source 1 = Inr ()"
    by (simp add: check_declared_source_def att_sub_def att_mapping_def resolve_declared_path_def att_string_def)
  ultimately show ?thesis
    by (simp add: validate_checkpoint_def att_integer_def att_string_def seal_iso seal_binding_def seal_endpoint_def)
qed

definition seal_identity :: jobj where
  "seal_identity = jobj [(''model_path'', JStr (u ''/model'')), (''build_info'', JStr (u ''b1'')), (''model_alias'', JNull), (''model_ftype'', JNull)]"

definition seal_observed :: observed where
  "seal_observed = \<lparr>ob_health_before = seal_answer, ob_props_before = seal_answer, ob_health_after = seal_answer, ob_props_after = seal_answer,
     ob_identity = seal_identity, ob_binding = seal_binding\<rparr>"

lemma plain_eq: "json_plain v \<Longrightarrow> json_no_nan v \<Longrightarrow> py_eq v v"
  by (rule py_eq_refl)

lemma seal_props: "validate_props (kernel_of seal_files) seal_answer seal_answer (u ''b1'') (u ''/model'') cwd = Inr seal_identity"
  by (simp add: validate_props_def seal_answer_def att_sub_def att_mapping_def att_string_def seal_identity_def)

lemma seal_observe: "observe_endpoint seal_interp seal_view seal_args seal_inputs (Some seal_process) = Inr seal_observed"
proof -
  have "py_eq (JObj seal_identity) (JObj seal_identity)" by (rule py_eq_refl) (simp_all add: seal_identity_def)
  moreover have "working_directory seal_interp (Some seal_process) = Inr (Some (u ''/''))"
    by (simp add: working_directory_def seal_process_def py_str_def)
  moreover have "checkpoint_at seal_view seal_args 8 = u ''/k''" by (simp add: checkpoint_at_def)
  ultimately show ?thesis
    by (simp add: observe_endpoint_def seal_inputs_def seal_props seal_checkpoint_valid seal_observed_def Let_def del: py_eq.simps)
qed

lemma seal_probe: "probe_process seal_interp seal_view seal_args seal_endpoint = Inr (Some seal_process)"
  by (simp add: probe_process_def proof_requested_def seal_process_def)

definition seal_rechecked :: rechecked where
  "seal_rechecked = \<lparr>re_artifact = jobj (file_facts seal_interp (u ''/model'') []), re_process = Some seal_process,
     re_checkpoint_file = jobj (file_facts seal_interp (u ''/k'') (doc_bytes seal_checkpoint)), re_rows_before = 0, re_rows_after = 0,
     re_start = seal_start\<rparr>"

lemma seal_recheck: "recheck seal_interp seal_view seal_args seal_inputs (Some seal_process) = Some (Inr seal_rechecked)"
proof -
  have "py_eq (JObj (checkpoint_stable seal_checkpoint)) (JObj (checkpoint_stable seal_checkpoint))"
    by (rule py_eq_refl) (simp_all add: checkpoint_stable_def stable_keys_def model_source_def)
  moreover have "same_file_identity (jobj (file_facts seal_interp (u ''/model'') [])) (jobj (file_facts seal_interp (u ''/model'') []))"
    by (simp add: same_file_identity_def)
  moreover have "source_unchanged (kernel_of seal_files) (u ''/s'') seal_source = Inr ()"
    by (simp add: source_unchanged_def stat_of_def)
  moreover have "probe_again seal_view seal_args seal_endpoint (Some seal_process) = Inr (Some seal_process)"
    by (simp add: probe_again_def seal_process_def)
  moreover have "py_eq (jget seal_start k) (jget seal_start k)" if "k \<in> {''path'', ''device'', ''inode'', ''birth_time_epoch''}" for k
    using that by (auto simp: seal_start_def stat_fields_def stat_of_def)
  ultimately show ?thesis
    by (simp add: recheck_def seal_inputs_def seal_reads seal_checkpoint_valid seal_start_artifact checkpoint_at_def att_integer_def
        seal_rechecked_def del: py_eq.simps)
qed

lemma ten_seconds: "iso_timestamp 10000000 = Fin 10"
proof -
  have "rnd64 (of_int 10 * pow2 0) = Fin (of_int 10 * pow2 0)"
    by (rule rnd64_dyadic) (simp_all add: pow2_def)
  then show ?thesis by (simp add: iso_timestamp_def pow2_def)
qed

definition seal_proof :: jobj where
  "seal_proof = jobj [(''status'', JStr (u ''verified'')), (''required'', JBool True), (''platform'', JStr (u ''linux'')),
     (''before'', JObj seal_process), (''after'', JObj seal_process), (''unchanged'', JBool True), (''server_started_before_checkpoint'', JBool True),
     (''checkpoint_start_source'', JStr (u ''filesystem birth time of the append-only cache/partial artifact'')),
     (''earliest_cache_generation_start_time'', JStr [])]"

lemma seal_process_proof: "process_proof seal_interp seal_args seal_inputs (Some seal_process) (Some seal_process) = Inr seal_proof"
proof -
  have "start_candidates seal_inputs = [(Fin 9, u ''filesystem birth time of the append-only cache/partial artifact'')]"
    by (simp add: start_candidates_def seal_inputs_def seal_start_def stat_fields_def stat_of_def)
  then have "started_before seal_interp seal_inputs seal_process = Inr (Fin 9, u ''filesystem birth time of the append-only cache/partial artifact'')"
    by (simp add: started_before_def seal_process_def float_of_json_def mtime_seconds_def int_true_div_def fl_le_def seal_inputs_def seal_iso ten_seconds)
  then show ?thesis by (simp add: process_proof_def seal_proof_def seal_interp_def)
qed

definition seal_evidence :: jobj where
  "seal_evidence = live_evidence seal_args seal_inputs seal_observed seal_rechecked seal_proof"

definition seal_report :: jobj where
  "seal_report = jobj [(''schema'', JStr attestation_schema), (''phase'', JStr (u ''live-capture'')), (''created_at'', JStr (u ''a'')),
     (''attestation_id'', JStr zero_sha), (''evidence'', JObj seal_evidence),
     (''post_run_native_parity'', JObj (jobj [(''status'', JStr (u ''required-pending'')), (''finalization'',
        JStr (u ''Run this script's finalize command with the immutable live capture and a passing validate_embedding_parity.py report.''))]))]"

lemma file_facts_fine [simp]:
  "distinct (map fst (file_facts seal_interp p content))" "list_all (\<lambda>kv. json_plain (snd kv)) (file_facts seal_interp p content)"
  "list_all (\<lambda>kv. json_no_nan (snd kv)) (file_facts seal_interp p content)"
  by (simp_all add: file_facts_def stat_fields_def stat_of_def)

lemma seal_parts_fine:
  "json_plain (JObj seal_source)" "json_no_nan (JObj seal_source)" "json_plain (JObj seal_start)" "json_no_nan (JObj seal_start)"
  "json_plain (JObj seal_answer)" "json_no_nan (JObj seal_answer)" "json_plain (JObj seal_process)" "json_no_nan (JObj seal_process)"
  "json_plain (JObj (checkpoint_stable seal_checkpoint))" "json_no_nan (JObj (checkpoint_stable seal_checkpoint))"
  by (simp_all add: seal_source_def seal_start_def seal_answer_def seal_process_def checkpoint_stable_def stable_keys_def model_source_def
      file_facts_def stat_fields_def stat_of_def)

lemma seal_evidence_fine: "json_plain (JObj seal_evidence)" "json_no_nan (JObj seal_evidence)"
  using seal_parts_fine
  by (simp_all add: plain_obj seal_evidence_def live_evidence_def endpoint_evidence_def checkpoint_evidence_def seal_inputs_def seal_observed_def
      seal_rechecked_def seal_identity_def seal_proof_def seal_binding_def del: json_plain.simps(2) json_no_nan.simps(3))

lemma seal_captured: "capture_attestation seal_interp seal_view seal_args = Some (Inr seal_report)"
proof -
  have "re_process seal_rechecked = Some seal_process" by (simp add: seal_rechecked_def)
  moreover have "ci_endpoint seal_inputs = seal_endpoint" by (simp add: seal_inputs_def)
  ultimately show ?thesis
    using seal_evidence_fine(2)
    by (simp add: capture_attestation_def seal_inputs_read seal_probe seal_observe seal_recheck seal_process_proof seal_tools_hash
        seal_evidence_def [symmetric] seal_report_def Let_def del: json_no_nan.simps(3))
qed

subsection \<open>The parity report\<close>

definition seal_parity :: jobj where
  "seal_parity = jobj
     [(''schema'', JStr parity_schema), (''passed'', JBool True), (''created_at'', JStr (u ''b'')),
      (''dataset'', JObj (jobj [(''tier'', JStr (u ''t'')), (''documents'', JObj (jobj [(''sha256'', JStr zero_sha), (''size_bytes'', JInt 1), (''nonempty_lines'', JInt 1)]))])),
      (''official_comparison_reference'', JObj (jobj
         [(''corpus_cache'', JObj (jobj [(''source_sha256'', JStr zero_sha), (''source_size_bytes'', JInt 1), (''count'', JInt 1), (''dimensions'', JInt 1),
            (''fingerprint'', JStr (u ''f'')), (''sha256'', JStr zero_sha)])),
          (''model'', JObj (jobj [(''artifact'', JObj (jobj [(''sha256'', JStr zero_sha)])), (''sha256'', JStr zero_sha)]))])),
      (''native'', JObj (jobj [(''model'', JObj (jobj [(''sha256'', JStr zero_sha)])), (''binary'', JNull),
         (''cache'', JObj (jobj [(''dimensions'', JInt 1), (''fingerprint'', JStr (u ''f''))]))])),
      (''acceptance'', JObj (jobj [(''minimum_cosine_similarity'', JInt 1)])), (''metrics'', JObj (jobj [(''minimum_cosine_similarity'', JInt 1)]))]"

definition seal_stored :: "pystr \<Rightarrow> bytes option" where
  "seal_stored = map_of [(u ''/l'', dumps_indent seal_host (JObj seal_report) @ [10]), (u ''/p'', doc_bytes seal_parity)]"

lemma seal_stored_simps [simp]:
  "seal_stored (u ''/l'') = Some (dumps_indent seal_host (JObj seal_report) @ [10])" "seal_stored (u ''/p'') = Some (doc_bytes seal_parity)"
  by (simp_all add: seal_stored_def)

lemma seal_parity_plain: "json_plain (JObj seal_parity)"
  by (simp add: seal_parity_def plain_obj del: json_plain.simps(2))

lemma seal_report_plain: "json_plain (JObj seal_report)"
  using seal_evidence_fine(1) by (simp add: seal_report_def plain_obj del: json_plain.simps(2))

definition seal_disk :: "jobj \<Rightarrow> fsys" where
  "seal_disk report = \<lparr>fs_resolve = id, fs_file = seal_stored(u ''/f'' \<mapsto> dumps_indent seal_host (JObj report) @ [10])\<rparr>"

lemma seal_disk_simps [simp]:
  "fs_resolve (seal_disk report) p = p" "file_at (seal_disk report) (u ''/l'') = Some (dumps_indent seal_host (JObj seal_report) @ [10])"
  "file_at (seal_disk report) (u ''/f'') = Some (dumps_indent seal_host (JObj report) @ [10])"
  by (simp_all add: seal_disk_def file_at_def)

lemma seal_host_tools [simp]: "tl_host seal_tools = seal_host"
  by (simp add: seal_tools_def)

text \<open>The stored capture as it is read back.\<close>

lemma seal_reread:
  obtains c cf where "read_json_artifact seal_interp (kernel_of seal_stored) (u ''/l'') = Some (Inr (c, jobj cf))"
    and "reread seal_report c" and "distinct (map fst cf)" and "list_all (\<lambda>kv. json_plain (snd kv)) cf" and "list_all (\<lambda>kv. json_no_nan (snd kv)) cf"
proof -
  let ?content = "dumps_indent seal_host (JObj seal_report) @ [10]"
  have "stored (ip_tools seal_interp) (seal_disk []) (u ''/l'') seal_report" using seal_report_plain by (simp add: stored_def)
  moreover have "kn_real (kernel_of seal_stored) (u ''/l'') = Some (fs_resolve (seal_disk []) (u ''/l''))" by simp
  moreover have "\<exists>c. file_at (seal_disk []) (u ''/l'') = Some c
      \<and> quiet (kernel_of seal_stored) (fs_resolve (seal_disk []) (u ''/l'')) c (stat_of ?content)"
    using kernel_quiet [of seal_stored "u ''/l''" ?content] by simp
  ultimately obtain c blocks where c: "read_json_artifact seal_interp (kernel_of seal_stored) (u ''/l'')
      = Some (Inr (c, jobj (file_record seal_interp (fs_resolve (seal_disk []) (u ''/l'')) (stat_of ?content) blocks)))"
    "reread seal_report c" using seal_tools_ok by (metis stored_read seal_interp_simps(1))
  show ?thesis
    by (rule that [OF c]) (simp_all add: file_record_def stat_fields_def stat_of_def)
qed

lemma seal_binding_get [simp]:
  "jget seal_binding ''tier'' = JStr (u ''t'')" "jget seal_binding ''expected_source_count'' = JInt 1" "jget seal_binding ''source'' = JObj seal_source"
  "jget seal_binding ''model_descriptor_sha256'' = JStr zero_sha" "jget seal_binding ''model_artifact_sha256'' = JStr zero_sha"
  "jget seal_binding ''fingerprint'' = JStr (u ''f'')" "jget seal_binding ''dimension'' = JInt 1"
  by (simp_all add: seal_binding_def)

lemma seal_validated:
  assumes "reread seal_report c"
  obtains e b where "validate_live_capture seal_interp c = Inr e" and "jget e ''required_post_run_native_parity'' = JObj b" and "reread seal_binding b"
proof -
  have r: "jget seal_report ''evidence'' = JObj seal_evidence" by (simp add: seal_report_def)
  obtain e where e: "jget c ''evidence'' = JObj e" "reread seal_evidence e" using reread_sub [OF assms r] by blast
  have p: "jget seal_evidence ''process_proof'' = JObj seal_proof" "jget seal_evidence ''required_post_run_native_parity'' = JObj seal_binding"
    by (simp_all add: seal_evidence_def live_evidence_def seal_observed_def)
  obtain pr where pr: "jget e ''process_proof'' = JObj pr" "reread seal_proof pr" using reread_sub [OF e(2) p(1)] by blast
  obtain b where b: "jget e ''required_post_run_native_parity'' = JObj b" "reread seal_binding b" using reread_sub [OF e(2) p(2)] by blast
  have "json_no_nan (JObj e)" using reread_no_nan [OF e(2)] seal_evidence_fine(2) by blast
  moreover have "jget c ''schema'' = JStr attestation_schema" "jget c ''phase'' = JStr (u ''live-capture'')" "jget c ''attestation_id'' = JStr zero_sha"
    "jget c ''created_at'' = JStr (u ''a'')" by (rule reread_str [OF assms]; simp add: seal_report_def)+
  moreover have "jget pr ''status'' = JStr (u ''verified'')" by (rule reread_str [OF pr(2)]) (simp add: seal_proof_def)
  ultimately have "validate_live_capture seal_interp c = Inr e"
    using e(1) pr(1) by (simp add: validate_live_capture_def att_sub_def att_mapping_def seal_tools_hash seal_iso del: json_no_nan.simps(3))
  with that b show ?thesis by blast
qed

lemma seal_parity_get [simp]:
  "jget seal_parity ''schema'' = JStr parity_schema" "jget seal_parity ''passed'' = JBool True" "jget seal_parity ''created_at'' = JStr (u ''b'')"
  by (simp_all add: seal_parity_def)

lemma seal_parity_checks:
  assumes b: "reread seal_binding b"
  obtains dataset source official corpus_cache native native_model where
    "att_sub seal_parity ''dataset'' = Inr dataset" and "jget dataset ''tier'' = JStr (u ''t'')"
    and "check_parity_documents dataset b = Inr source" and "check_parity_cache seal_parity b source None = Inr (official, corpus_cache)"
    and "check_parity_models seal_parity b official = Inr (native, native_model)"
    and "check_cosine seal_parity = Inr (JInt 1, JInt 1)" and "json_no_nan (JObj native_model)" and "json_no_nan (JObj corpus_cache)"
    and "json_plain (JObj native_model)" and "json_plain (JObj corpus_cache)" and "jget native ''binary'' = JNull"
proof -
  obtain s where s: "jget b ''source'' = JObj s" "reread seal_source s" using reread_sub [OF b, of "''source''"] by auto
  have sg: "jget s ''sha256'' = JStr zero_sha" "jget s ''size_bytes'' = JInt 1" "jget s ''nonempty_lines'' = JInt 1"
    using reread_get [OF s(2)] by simp_all
  have idx: "jidx s ''sha256'' = Inr (JStr zero_sha)" "jidx s ''size_bytes'' = Inr (JInt 1)"
    "jidx b ''expected_source_count'' = Inr (JInt 1)" "jidx b ''dimension'' = Inr (JInt 1)" "jidx b ''fingerprint'' = Inr (JStr (u ''f''))"
    "jidx b ''model_descriptor_sha256'' = Inr (JStr zero_sha)" "jidx b ''model_artifact_sha256'' = Inr (JStr zero_sha)"
    using reread_idx [OF s(2)] reread_idx [OF b] by simp_all
  have "\<exists>dataset. att_sub seal_parity ''dataset'' = Inr dataset \<and> jget dataset ''tier'' = JStr (u ''t'')
      \<and> check_parity_documents dataset b = Inr s"
    by (simp add: seal_parity_def att_sub_def att_mapping_def check_parity_documents_def s(1) sg)
  moreover have "\<exists>official cache. check_parity_cache seal_parity b s None = Inr (official, cache)
      \<and> json_no_nan (JObj cache) \<and> json_plain (JObj cache)
      \<and> (\<exists>native model. check_parity_models seal_parity b official = Inr (native, model)
          \<and> json_no_nan (JObj model) \<and> json_plain (JObj model) \<and> jget native ''binary'' = JNull)"
    by (simp add: seal_parity_def att_sub_def att_mapping_def check_parity_cache_def check_parity_models_def idx)
  moreover have "check_cosine seal_parity = Inr (JInt 1, JInt 1)"
    by (simp add: seal_parity_def att_sub_def att_mapping_def check_cosine_def plain_number_def number_less_def Let_def)
  ultimately show ?thesis using that by blast
qed

text \<open>The parity report is accepted and the attestation finalized.\<close>

lemma seal_finalized:
  "\<exists>report. finalize_attestation seal_interp (\<lambda>_. kernel_of seal_stored) (u ''/l'') (u ''/p'') = Some (Inr report) \<and> json_plain (JObj report)"
proof -
  obtain c cf where c: "read_json_artifact seal_interp (kernel_of seal_stored) (u ''/l'') = Some (Inr (c, jobj cf))" "reread seal_report c"
    and cf: "distinct (map fst cf)" "list_all (\<lambda>kv. json_plain (snd kv)) cf" "list_all (\<lambda>kv. json_no_nan (snd kv)) cf"
    by (rule seal_reread)
  obtain e b where v: "validate_live_capture seal_interp c = Inr e" "jget e ''required_post_run_native_parity'' = JObj b" and b: "reread seal_binding b"
    using c(2) by (rule seal_validated)
  obtain dataset source official corpus_cache native native_model where
    d: "att_sub seal_parity ''dataset'' = Inr dataset" "jget dataset ''tier'' = JStr (u ''t'')"
    and k: "check_parity_documents dataset b = Inr source" "check_parity_cache seal_parity b source None = Inr (official, corpus_cache)"
      "check_parity_models seal_parity b official = Inr (native, native_model)" "check_cosine seal_parity = Inr (JInt 1, JInt 1)"
    and fine: "json_no_nan (JObj native_model)" "json_no_nan (JObj corpus_cache)" "json_plain (JObj native_model)" "json_plain (JObj corpus_cache)"
      "jget native ''binary'' = JNull"
    using b by (rule seal_parity_checks)
  have p: "read_json_artifact seal_interp (kernel_of seal_stored) (u ''/p'')
      = Some (Inr (seal_parity, jobj (file_facts seal_interp (u ''/p'') (doc_bytes seal_parity))))"
    using kernel_reads(3) [of seal_stored "u ''/p''" "doc_bytes seal_parity" seal_interp] seal_parity_plain by simp
  have "jget c ''created_at'' = JStr (u ''a'')" by (rule reread_str [OF c(2)]) (simp add: seal_report_def)
  then have q: "passing_parity seal_interp c seal_parity = Inr dataset" using d(1) by (simp add: passing_parity_def seal_iso)
  have "jget b ''tier'' = JStr (u ''t'')" by (rule reread_str [OF b]) simp
  then have t: "bind_tier e b (JStr (u ''t'')) = Inr (b, None)" by (simp add: bind_tier_def)
  let ?fe = "final_evidence c (jobj cf) seal_parity (jobj (file_facts seal_interp (u ''/p'') (doc_bytes seal_parity))) (JInt 1) (JInt 1) native native_model corpus_cache b"
  have "json_no_nan (JObj seal_binding)" "json_no_nan (JObj seal_report)" "json_plain (JObj seal_binding)"
    using seal_evidence_fine seal_parts_fine by (simp_all add: seal_binding_def seal_report_def plain_obj del: json_no_nan.simps(3) json_plain.simps(2))
  then have cb: "json_no_nan (JObj c)" "json_no_nan (JObj b)" "json_plain (JObj c)" "json_plain (JObj b)"
    using reread_no_nan [OF c(2)] reread_no_nan [OF b] reread_plain [OF c(2)] reread_plain [OF b] by blast+
  have sub: "json_no_nan (jget corpus_cache ''sha256'')" "json_plain (jget corpus_cache ''sha256'')" "json_no_nan (jget c ''attestation_id'')"
    "json_plain (jget c ''attestation_id'')" "json_plain (jget seal_parity ''input_hash'')"
    using json_no_nan_get json_plain_get fine cb seal_parity_plain by blast+
  have i: "jget seal_parity ''input_hash'' = JNull" by (simp add: seal_parity_def)
  have fe: "json_no_nan (JObj ?fe)" "json_plain (JObj ?fe)"
    using cf cb fine sub
    by (simp_all add: final_evidence_def plain_obj i del: json_no_nan.simps(3) json_plain.simps(2))
  have "finalize_attestation seal_interp (\<lambda>_. kernel_of seal_stored) (u ''/l'') (u ''/p'') = Some (Inr
      (jobj [(''schema'', JStr attestation_schema), (''phase'', JStr (u ''finalized'')), (''created_at'', JStr (u ''a'')),
       (''attestation_id'', JStr zero_sha), (''evidence'', JObj ?fe), (''post_run_native_parity'', JObj (jobj [(''status'', JStr (u ''verified''))]))]))"
    using c(1) v p q d(2) t k fe(1)
    by (simp add: finalize_attestation_def att_sub_def att_mapping_def seal_tools_hash Let_def del: json_no_nan.simps(3))
  moreover have "json_plain (JObj (jobj [(''schema'', JStr attestation_schema), (''phase'', JStr (u ''finalized'')), (''created_at'', JStr (u ''a'')),
       (''attestation_id'', JStr zero_sha), (''evidence'', JObj ?fe), (''post_run_native_parity'', JObj (jobj [(''status'', JStr (u ''verified''))]))]))"
    using fe(2) by (simp add: plain_obj del: json_plain.simps(2))
  ultimately show ?thesis by blast
qed

theorem attestation_reaches_collector_witness:
  "\<exists>env document evidence fv lc. finalized_evidence env (u ''/f'') = Inr (document, evidence)
     \<and> captured env \<lparr>fv_enabled = True, fv_verified = []\<rparr> evidence = Inr (fv, lc) \<and> reread seal_report (lc_report lc)"
proof -
  obtain report where f: "finalize_attestation seal_interp (\<lambda>_. kernel_of seal_stored) (u ''/l'') (u ''/p'') = Some (Inr report)"
    "json_plain (JObj report)" using seal_finalized by blast
  define env where "env = \<lparr>ce_tools = seal_tools, ce_numerics = unit_numerics, ce_disk = seal_disk report\<rparr>"
  have e: "ce_tools env = seal_tools" "ce_disk env = seal_disk report" by (simp_all add: env_def)
  have "seal_ok (ce_tools env)" "ip_tools seal_interp = ce_tools env" "stored (ce_tools env) (ce_disk env) (u ''/l'') seal_report"
    "stored (ce_tools env) (ce_disk env) (u ''/f'') report"
    using seal_tools_ok seal_report_plain f(2) by (simp_all add: e stored_def del: json_plain.simps(2))
  moreover have "kn_real (kernel_of seal_stored) (u ''/l'') = Some (u ''/l'')"
    "file_at (ce_disk env) (u ''/l'') = Some (dumps_indent seal_host (JObj seal_report) @ [10])"
    "quiet (kernel_of seal_stored) (u ''/l'') (dumps_indent seal_host (JObj seal_report) @ [10]) (stat_of (dumps_indent seal_host (JObj seal_report) @ [10]))"
    using kernel_quiet [of seal_stored "u ''/l''"] by (simp_all add: e)
  moreover have "u ''/l'' = fs_resolve (ce_disk env) (u ''/l'')" "fs_resolve (ce_disk env) (u ''/l'') = u ''/l''" "u ''/l'' \<noteq> []" by (simp_all add: e)
  ultimately show ?thesis
    using attestation_reaches_collector [of env seal_interp seal_view seal_args seal_report "u ''/l''" "\<lambda>_. kernel_of seal_stored"] seal_captured f(1)
    by blast
qed


end
