(* ===== verification/Server.thy ===== *)
theory Server
  imports VectorCache Disk GroundTruth
begin

text \<open>
  The two HTTP helpers of the benchmark: \<open>cached_embedding_server.py\<close>, which answers embedding requests from the
  vector cache, and \<open>openai_embedding_proxy.py\<close>, which counts what it passes on. A handler is a function from the
  request to the reply and to the calls it makes on the shared \<open>Metrics\<close> object; each call holds the lock, so what
  the threads do to the counters is some interleaving of these calls. The lemmas show that the cached server
  returns the vectors of the texts, and that no call is lost or counted twice, resets included.
\<close>

subsection \<open>Metrics\<close>

record metrics =
  mt_requests :: nat
  mt_inputs :: nat
  mt_started :: nat
  mt_finished :: nat
  mt_http_errors :: nat
  mt_network_errors :: nat
  mt_status :: "(pystr \<times> nat) list"

definition no_metrics :: metrics where
  "no_metrics = \<lparr>mt_requests = 0, mt_inputs = 0, mt_started = 0, mt_finished = 0, mt_http_errors = 0, mt_network_errors = 0, mt_status = []\<rparr>"

text \<open>The calls: \<open>add\<close>/\<open>request\<close>, \<open>upstream_started\<close>, \<open>upstream_finished\<close>/\<open>response\<close>, \<open>network_failed\<close>, \<open>reset\<close>.\<close>

datatype call = Add nat | Started | Finished nat | NetworkFailed | Reset

definition count_status :: "(pystr \<times> nat) list \<Rightarrow> nat \<Rightarrow> (pystr \<times> nat) list" where
  "count_status counts status =
     (let key = dec_nat status in dict_set counts key ((case map_of counts key of None \<Rightarrow> 0 | Some n \<Rightarrow> n) + 1))"

fun metrics_call :: "metrics \<Rightarrow> call \<Rightarrow> metrics" where
  "metrics_call m (Add n) = m\<lparr>mt_requests := mt_requests m + 1, mt_inputs := mt_inputs m + n\<rparr>"
| "metrics_call m Started = m\<lparr>mt_started := mt_started m + 1\<rparr>"
| "metrics_call m (Finished status) =
     m\<lparr>mt_finished := mt_finished m + 1, mt_status := count_status (mt_status m) status,
       mt_http_errors := mt_http_errors m + (if 400 \<le> status then 1 else 0)\<rparr>"
| "metrics_call m NetworkFailed = m\<lparr>mt_network_errors := mt_network_errors m + 1\<rparr>"
| "metrics_call m Reset = no_metrics"

text \<open>The snapshots that resets return, in order, and the counters at the end.\<close>

fun run_calls :: "metrics \<Rightarrow> call list \<Rightarrow> metrics list \<times> metrics" where
  "run_calls m [] = ([], m)"
| "run_calls m (c # cs) =
     (case run_calls (metrics_call m c) cs of (snapshots, final) \<Rightarrow> (if c = Reset then m # snapshots else snapshots, final))"

definition proxy_snapshot :: "pystr \<Rightarrow> pystr \<Rightarrow> metrics \<Rightarrow> jobj" where
  "proxy_snapshot upstream script m = jobj
     [(''mode'', JStr (u ''proxy'')), (''upstream'', JStr upstream), (''proxy_script_sha256'', JStr script),
      (''requests'', JInt (int (mt_requests m))), (''inputs'', JInt (int (mt_inputs m))), (''upstream_requests'', JInt (int (mt_started m))),
      (''upstream_responses'', JInt (int (mt_finished m))), (''http_errors'', JInt (int (mt_http_errors m))),
      (''network_errors'', JInt (int (mt_network_errors m))),
      (''status_counts'', JObj (map (\<lambda>(k, n). (k, JInt (int n))) (sort_key fst (mt_status m))))]"

definition cache_snapshot :: "jobj \<Rightarrow> metrics \<Rightarrow> jobj" where
  "cache_snapshot identity m = jobj
     [(''mode'', JStr (u ''cache'')), (''cache_identity'', JObj identity), (''requests'', JInt (int (mt_requests m))),
      (''inputs'', JInt (int (mt_inputs m))), (''upstream_requests'', JInt (int (mt_requests m))),
      (''upstream_responses'', JInt (int (sum_list (map snd (mt_status m))))), (''http_errors'', JInt (int (mt_http_errors m))),
      (''network_errors'', JInt 0), (''status_counts'', JObj (map (\<lambda>(k, n). (k, JInt (int n))) (sort_key fst (mt_status m))))]"

subsection \<open>Requests and replies\<close>

datatype verb = Get | Post

record request =
  rq_verb :: verb
  rq_path :: pystr
  rq_length :: "pystr option"
  rq_body :: bytes

record reply =
  rp_status :: nat
  rp_payload :: json

definition error_reply :: "nat \<Rightarrow> string \<Rightarrow> reply" where
  "error_reply status words = \<lparr>rp_status = status, rp_payload = JObj (jobj [(''error'', JObj (jobj [(''message'', JStr (u words))]))])\<rparr>"

definition content_length :: "request \<Rightarrow> int option" where
  "content_length r = (case rq_length r of None \<Rightarrow> Some 0 | Some s \<Rightarrow> py_int s)"

subsection \<open>The cached server\<close>

record server =
  sv_documents :: "pystr list"
  sv_vectors :: "bytes list"
  sv_rows :: "(pystr \<times> nat) list"
  sv_identity :: jobj
  sv_model :: pystr
  sv_limit :: int

text \<open>What NumPy computes of rows: \<open>array_equal\<close> and \<open>tolist\<close>.\<close>

record row_tools =
  rt_equal :: "bytes \<Rightarrow> bytes \<Rightarrow> bool"
  rt_list :: "bytes \<Rightarrow> json list"

fun index_texts :: "row_tools \<Rightarrow> bytes list \<Rightarrow> (pystr \<times> nat) list \<Rightarrow> (nat \<times> pystr) list \<Rightarrow> (pystr \<times> nat) list res" where
  "index_texts rt vectors found [] = Inr found"
| "index_texts rt vectors found ((row, text) # rest) =
     (case map_of found text of
        None \<Rightarrow> index_texts rt vectors (dict_set found text row) rest
      | Some previous \<Rightarrow>
          if previous \<noteq> row \<and> \<not> rt_equal rt (vectors ! previous) (vectors ! row)
          then Inl (ValueError ''duplicate corpus text maps to different cached vectors'')
          else index_texts rt vectors found rest)"

text \<open>The provenance sidecar: \<open>None\<close> when there is none.\<close>

definition load_declared :: "host \<Rightarrow> fsys \<Rightarrow> cache_meta \<Rightarrow> pystr \<Rightarrow> pystr \<Rightarrow> json option res" where
  "load_declared h d meta cache cache_sha =
     (if path_exists d (sidecar_path cache) then
        and_then (open_rb d (sidecar_path cache)) (\<lambda>content.
        and_then (utf8_decode content) (\<lambda>_.
        case loads h content of None \<Rightarrow> Inl (ValueError ''json'') | Some declared \<Rightarrow>
        and_then (json_get declared ''schema'') (\<lambda>schema.
        and_then (json_get declared ''role'') (\<lambda>role.
        and_then (require (py_eq schema (JStr (u ''leann-shared-embedding-cache-v1'')) \<and> py_eq role (JStr (u ''corpus'')))
           (ValueError ''cache provenance sidecar schema/role mismatch'')) (\<lambda>_.
        and_then (json_get2 declared ''cache'' ''sha256'') (\<lambda>sha.
        and_then (require (py_eq sha (JStr cache_sha)) (ValueError ''cache provenance sidecar SHA-256 mismatch'')) (\<lambda>_.
        and_then (json_get2 declared ''source'' ''sha256'') (\<lambda>source.
        and_then (require (py_eq source (case cm_source meta of None \<Rightarrow> JNull | Some (_, s) \<Rightarrow> JStr s))
           (ValueError ''cache provenance sidecar source mismatch'')) (\<lambda>_.
        Inr (Some declared))))))))))
      else if cm_version meta = 2 then Inl (ValueError ''integrity-bound cache requires a provenance sidecar'')
      else Inr None)"

definition schema_name :: "cache_meta \<Rightarrow> pystr" where
  "schema_name meta = u (if cm_version meta = 2 then ''LEANNBC2'' else ''LEANNBC1'')"

definition cache_identity :: "cache_meta \<Rightarrow> pystr \<Rightarrow> json \<Rightarrow> pystr \<Rightarrow> jobj" where
  "cache_identity meta cache_sha model script_sha = jobj
     [(''schema'', JStr (schema_name meta)), (''cache_sha256'', JStr cache_sha),
      (''source_sha256'', case cm_source meta of None \<Rightarrow> JNull | Some (_, s) \<Rightarrow> JStr s),
      (''source_size_bytes'', case cm_source meta of None \<Rightarrow> JNull | Some (n, _) \<Rightarrow> JInt (int n)),
      (''fingerprint'', JStr (cm_fingerprint meta)), (''dimensions'', JInt (int (cm_dimensions meta))),
      (''count'', JInt (int (cm_count meta))), (''model_sha256'', model), (''server_script_sha256'', JStr script_sha)]"

record server_args =
  sa_documents :: pystr
  sa_cache :: pystr
  sa_model :: pystr
  sa_allow_v1 :: bool
  sa_limit :: int
  sa_script :: pystr

definition start_server :: "host \<Rightarrow> numerics \<Rightarrow> row_tools \<Rightarrow> fsys \<Rightarrow> server_args \<Rightarrow> server res" where
  "start_server h np rt d a =
     and_then (and_then (open_rb d (sa_documents a)) iter_nonempty_lines) (\<lambda>documents.
     and_then (read_cache_default h np d (sa_cache a)) (\<lambda>(vectors, meta).
     and_then (if cm_version meta = 2 then and_then (validate_cache_source h d meta (sa_documents a) (Some (length documents)) True) (\<lambda>_. Inr ())
               else require (sa_allow_v1 a) (ValueError ''legacy V1 cache requires explicit --allow-v1'')) (\<lambda>_.
     and_then (require (length documents = length vectors) (ValueError ''Document/cache mismatch'')) (\<lambda>_.
     and_then (sha256_file h d (sa_cache a) 0 None) (\<lambda>cache_sha.
     and_then (load_declared h d meta (sa_cache a) cache_sha) (\<lambda>declared.
     and_then (case declared of None \<Rightarrow> Inr JNull | Some v \<Rightarrow> json_get2 v ''model'' ''sha256'') (\<lambda>model.
     and_then (sha256_file h d (sa_script a) 0 None) (\<lambda>script_sha.
     and_then (index_texts rt vectors [] (zip [0..<length documents] documents)) (\<lambda>rows.
     Inr \<lparr>sv_documents = documents, sv_vectors = vectors, sv_rows = rows, sv_identity = cache_identity meta cache_sha model script_sha,
       sv_model = sa_model a, sv_limit = sa_limit a\<rparr>)))))))))"

definition embedding_item :: "row_tools \<Rightarrow> nat \<Rightarrow> bytes \<Rightarrow> json" where
  "embedding_item rt i row = JObj (jobj [(''object'', JStr (u ''embedding'')), (''index'', JInt (int i)), (''embedding'', JArr (rt_list rt row))])"

definition requested_texts :: "jobj \<Rightarrow> pystr list option" where
  "requested_texts request =
     (case map_of request (u ''input'') of
        None \<Rightarrow> Some []
      | Some (JStr s) \<Rightarrow> Some [s]
      | Some (JArr vs) \<Rightarrow> (if list_all (\<lambda>v. case v of JStr _ \<Rightarrow> True | _ \<Rightarrow> False) vs then Some (map (\<lambda>v. case v of JStr s \<Rightarrow> s | _ \<Rightarrow> []) vs) else None)
      | _ \<Rightarrow> None)"

definition embed_texts :: "row_tools \<Rightarrow> server \<Rightarrow> jobj \<Rightarrow> pystr list \<Rightarrow> reply" where
  "embed_texts rt sv request texts =
     (if list_all (\<lambda>t. map_of (sv_rows sv) t \<noteq> None) texts then
        \<lparr>rp_status = 200, rp_payload = JObj (jobj
          [(''object'', JStr (u ''list'')),
           (''data'', JArr (map (\<lambda>(i, t). embedding_item rt i (sv_vectors sv ! the (map_of (sv_rows sv) t))) (zip [0..<length texts] texts))),
           (''model'', case map_of request (u ''model'') of None \<Rightarrow> JStr (sv_model sv) | Some v \<Rightarrow> v),
           (''usage'', JObj (jobj [(''prompt_tokens'', JInt 0), (''total_tokens'', JInt 0)]))])\<rparr>
      else error_reply 400 ''Unknown corpus text'')"

text \<open>\<open>do_POST\<close> on an embeddings path: the reply and the calls on the metrics.\<close>

definition embeddings_handler :: "host \<Rightarrow> row_tools \<Rightarrow> server \<Rightarrow> request \<Rightarrow> reply \<times> call list" where
  "embeddings_handler h rt sv r =
     (case content_length r of
        None \<Rightarrow> (error_reply 400 ''invalid literal for int()'', [Finished 400])
      | Some n \<Rightarrow>
          if n \<le> 0 \<or> sv_limit sv < n then (error_reply 413 ''invalid request size'', [Finished 413])
          else case loads h (take (nat n) (rq_body r)) of
            Some (JObj request) \<Rightarrow>
              (case requested_texts request of
                 None \<Rightarrow> (error_reply 400 ''input must be a string or list of strings'', [Finished 400])
               | Some texts \<Rightarrow>
                   let result = embed_texts rt sv request texts in (result, [Add (length texts), Finished (rp_status result)]))
          | Some _ \<Rightarrow> (error_reply 400 ''request body must be an object'', [Finished 400])
          | None \<Rightarrow> (error_reply 400 ''json'', [Finished 400]))"

text \<open>The whole handler; a metrics reply holds the counters at the moment of the call.\<close>

definition cached_handler :: "host \<Rightarrow> row_tools \<Rightarrow> server \<Rightarrow> request \<Rightarrow> metrics \<Rightarrow> reply \<times> call list" where
  "cached_handler h rt sv r m =
     (if rq_verb r = Get then
        (if rq_path r = u ''/metrics'' then (\<lparr>rp_status = 200, rp_payload = JObj (cache_snapshot (sv_identity sv) m)\<rparr>, [])
         else (error_reply 404 ''not found'', [Finished 404]))
      else if rq_path r = u ''/metrics/reset'' then (\<lparr>rp_status = 200, rp_payload = JObj (cache_snapshot (sv_identity sv) m)\<rparr>, [Reset])
      else if \<not> endswith (rq_path r) (u ''/embeddings'') then (error_reply 404 ''not found'', [Finished 404])
      else embeddings_handler h rt sv r)"

subsection \<open>The proxy\<close>

text \<open>
  What the upstream does with a request: an answer, an HTTP error with its body, a failure that \<open>urlopen\<close> reports, or a
  connection that breaks while the body is read, which raises an exception that the code does not catch. A body may be JSON,
  no JSON, or raise another exception (it is not UTF-8), which is not caught either.
\<close>

datatype upstream = Answered nat bytes | Refused nat bytes | Unavailable | Broken
datatype parsed = NotText | NotJson | Parsed json

definition counted_inputs :: "json \<Rightarrow> nat" where
  "counted_inputs v = (case v of
     JObj m \<Rightarrow> (case map_of m (u ''input'') of None \<Rightarrow> 0 | Some (JArr vs) \<Rightarrow> length vs | Some _ \<Rightarrow> 1)
   | _ \<Rightarrow> 0)"

definition relay :: "upstream \<Rightarrow> (nat \<times> bytes option) option \<times> call list" where
  "relay up = (case up of
     Answered status payload \<Rightarrow> (Some (status, Some payload), [Started, Finished status])
   | Refused status payload \<Rightarrow> (Some (status, Some payload), [Started, Finished status])
   | Unavailable \<Rightarrow> (Some (502, None), [Started, NetworkFailed])
   | Broken \<Rightarrow> (None, [Started]))"

text \<open>
  \<open>None\<close> for the payload stands for one the proxy writes itself (a snapshot or the 502 message); a handler that dies of
  an exception the code does not catch has no reply.
\<close>

definition proxy_handler :: "(bytes \<Rightarrow> parsed) \<Rightarrow> (request \<Rightarrow> upstream) \<Rightarrow> request \<Rightarrow> (nat \<times> bytes option) option \<times> call list" where
  "proxy_handler parse up r =
     (if rq_verb r = Get then
        (if rq_path r = u ''/metrics'' then (Some (200, None), [])
         else relay (up r))
      else if rq_path r = u ''/metrics/reset'' then (Some (200, None), [Reset])
      else case content_length r of
        None \<Rightarrow> (None, [])
      | Some n \<Rightarrow>
          let body = (if n < 0 then rq_body r else take (nat n) (rq_body r));
              passed = relay (up r)
          in if endswith (rq_path r) (u ''/embeddings'') then
               (case parse body of
                  NotText \<Rightarrow> (None, [])
                | NotJson \<Rightarrow> (fst passed, Add 0 # snd passed)
                | Parsed v \<Rightarrow> (fst passed, Add (counted_inputs v) # snd passed))
             else passed)"

subsection \<open>No call is lost\<close>

text \<open>All orders in which the threads can make their calls.\<close>

fun interleavings :: "'a list list \<Rightarrow> 'a list set" where
  "interleavings [] = {[]}"
| "interleavings (t # ts) = (\<Union>s \<in> interleavings ts. shuffles t s)"

lemma mset_interleavings: "cs \<in> interleavings ts \<Longrightarrow> mset cs = mset (concat ts)"
  by (induction ts arbitrary: cs) (auto simp: mset_shuffles)

text \<open>The sum of a counter over all returned snapshots and the last state.\<close>

definition over_all :: "(metrics \<Rightarrow> nat) \<Rightarrow> metrics list \<times> metrics \<Rightarrow> nat" where
  "over_all f parts = sum_list (map f (fst parts)) + f (snd parts)"

lemma run_calls_sum:
  assumes "f no_metrics = 0" and "g Reset = 0" and "\<And>m c. c \<noteq> Reset \<Longrightarrow> f (metrics_call m c) = f m + g c"
  shows "over_all f (run_calls m cs) = f m + sum_list (map g cs)"
proof (induction cs arbitrary: m)
  case (Cons c cs)
  show ?case
  proof (cases "c = Reset")
    case True
    with Cons [of no_metrics] show ?thesis
      by (cases "run_calls no_metrics cs") (simp add: over_all_def assms(1,2))
  next
    case False
    with Cons [of "metrics_call m c"] show ?thesis
      by (cases "run_calls (metrics_call m c) cs") (simp add: over_all_def assms(3))
  qed
qed (simp add: over_all_def)

lemma sum_interleaved:
  fixes g :: "'a \<Rightarrow> nat"
  assumes "cs \<in> interleavings ts"
  shows "sum_list (map g cs) = sum_list (map (\<lambda>t. sum_list (map g t)) ts)"
proof -
  have "sum_list (map g cs) = sum_mset (image_mset g (mset cs))" by (metis mset_map sum_mset_sum_list)
  also have "\<dots> = sum_list (map g (concat ts))" unfolding mset_interleavings [OF assms] by (metis mset_map sum_mset_sum_list)
  also have "\<dots> = sum_list (map (\<lambda>t. sum_list (map g t)) ts)" by (induction ts) auto
  finally show ?thesis .
qed

fun is_add :: "call \<Rightarrow> nat" where "is_add (Add n) = 1" | "is_add _ = 0"
fun inputs_of :: "call \<Rightarrow> nat" where "inputs_of (Add n) = n" | "inputs_of _ = 0"
fun is_start :: "call \<Rightarrow> nat" where "is_start Started = 1" | "is_start _ = 0"
fun is_finish :: "call \<Rightarrow> nat" where "is_finish (Finished s) = 1" | "is_finish _ = 0"
fun is_error :: "call \<Rightarrow> nat" where "is_error (Finished s) = (if 400 \<le> s then 1 else 0)" | "is_error _ = 0"
fun is_failure :: "call \<Rightarrow> nat" where "is_failure NetworkFailed = 1" | "is_failure _ = 0"

lemma counters_sum:
  "over_all mt_requests (run_calls m cs) = mt_requests m + sum_list (map is_add cs)"
  "over_all mt_inputs (run_calls m cs) = mt_inputs m + sum_list (map inputs_of cs)"
  "over_all mt_started (run_calls m cs) = mt_started m + sum_list (map is_start cs)"
  "over_all mt_finished (run_calls m cs) = mt_finished m + sum_list (map is_finish cs)"
  "over_all mt_http_errors (run_calls m cs) = mt_http_errors m + sum_list (map is_error cs)"
  "over_all mt_network_errors (run_calls m cs) = mt_network_errors m + sum_list (map is_failure cs)"
  by (rule run_calls_sum; (simp add: no_metrics_def; fail)?; case_tac c; simp)+

text \<open>The status counts of every state add up to the responses.\<close>

lemma sum_dict_set:
  "distinct (map fst counts) \<Longrightarrow>
     sum_list (map snd (dict_set counts k (Suc (case map_of counts k of None \<Rightarrow> 0 | Some n \<Rightarrow> n)))) = Suc (sum_list (map snd counts))"
proof (induction counts)
  case (Cons kv counts)
  show ?case
  proof (cases "fst kv = k")
    case True
    then show ?thesis by (cases kv) simp
  next
    case False
    with Cons show ?thesis by (cases kv) auto
  qed
qed simp

definition metrics_ok :: "metrics \<Rightarrow> bool" where
  "metrics_ok m \<longleftrightarrow> distinct (map fst (mt_status m)) \<and> sum_list (map snd (mt_status m)) = mt_finished m \<and> mt_http_errors m \<le> mt_finished m"

lemma metrics_call_ok: "metrics_ok m \<Longrightarrow> metrics_ok (metrics_call m c)"
  by (cases c) (auto simp: metrics_ok_def count_status_def no_metrics_def sum_dict_set Let_def simp del: dict_set.simps)

lemma run_calls_ok: "metrics_ok m \<Longrightarrow> list_all metrics_ok (fst (run_calls m cs)) \<and> metrics_ok (snd (run_calls m cs))"
proof (induction cs arbitrary: m)
  case (Cons c cs)
  from Cons.IH [OF metrics_call_ok [OF Cons.prems, of c]] Cons.prems show ?case by (auto split: prod.splits)
qed simp

text \<open>A reset between the two calls of one request leaves more responses than requests in the next snapshot.\<close>

lemma reset_splits_request:
  "run_calls no_metrics [Started, Reset, Finished 200, Reset] =
     ([no_metrics\<lparr>mt_started := 1\<rparr>, no_metrics\<lparr>mt_finished := 1, mt_status := [(u ''200'', 1)]\<rparr>], no_metrics)"
  by (simp add: no_metrics_def count_status_def Let_def dec_nat.simps [of 200] dec_nat.simps [of 20] dec_nat.simps [of 2] u_def)

text \<open>Requests that the proxy passed on, and those among them that were answered with an error.\<close>

definition passed_on :: "(bytes \<Rightarrow> parsed) \<Rightarrow> (request \<Rightarrow> upstream) \<Rightarrow> request \<Rightarrow> bool" where
  "passed_on parse up r \<longleftrightarrow> Started \<in> set (snd (proxy_handler parse up r))"

definition unreachable :: "(request \<Rightarrow> upstream) \<Rightarrow> request \<Rightarrow> bool" where
  "unreachable up r \<longleftrightarrow> up r = Unavailable"

definition broken_off :: "(request \<Rightarrow> upstream) \<Rightarrow> request \<Rightarrow> bool" where
  "broken_off up r \<longleftrightarrow> up r = Broken"

definition answered_with_error :: "(request \<Rightarrow> upstream) \<Rightarrow> request \<Rightarrow> bool" where
  "answered_with_error up r = (case up r of Answered s _ \<Rightarrow> 400 \<le> s | Refused s _ \<Rightarrow> 400 \<le> s | _ \<Rightarrow> False)"

lemma proxy_trace:
  "sum_list (map is_start (snd (proxy_handler parse up r))) = (if passed_on parse up r then 1 else 0)"
  "sum_list (map is_failure (snd (proxy_handler parse up r))) = (if passed_on parse up r \<and> unreachable up r then 1 else 0)"
  "sum_list (map is_finish (snd (proxy_handler parse up r))) = (if passed_on parse up r \<and> \<not> unreachable up r \<and> \<not> broken_off up r then 1 else 0)"
  "sum_list (map is_error (snd (proxy_handler parse up r))) = (if passed_on parse up r \<and> answered_with_error up r then 1 else 0)"
proof -
  have "snd (proxy_handler parse up r) \<in> {[], [Reset]} \<or> (\<exists>front. set front \<subseteq> range Add \<and> snd (proxy_handler parse up r) = front @ snd (relay (up r)))"
    by (cases "relay (up r)") (auto simp: proxy_handler_def Let_def split: parsed.splits option.splits intro: exI [of _ "[]"] exI [of _ "[Add _]"])
  moreover have "sum_list (map is_start front) = 0 \<and> sum_list (map is_failure front) = 0 \<and> sum_list (map is_finish front) = 0
      \<and> sum_list (map is_error front) = 0 \<and> Started \<notin> set front" if "set front \<subseteq> range Add" for front
    using that by (induction front) auto
  moreover have "snd (relay (up r)) = (case up r of Answered s _ \<Rightarrow> [Started, Finished s] | Refused s _ \<Rightarrow> [Started, Finished s]
      | Unavailable \<Rightarrow> [Started, NetworkFailed] | Broken \<Rightarrow> [Started])"
    by (simp add: relay_def split: upstream.splits)
  ultimately show "sum_list (map is_start (snd (proxy_handler parse up r))) = (if passed_on parse up r then 1 else 0)"
    "sum_list (map is_failure (snd (proxy_handler parse up r))) = (if passed_on parse up r \<and> unreachable up r then 1 else 0)"
    "sum_list (map is_finish (snd (proxy_handler parse up r))) = (if passed_on parse up r \<and> \<not> unreachable up r \<and> \<not> broken_off up r then 1 else 0)"
    "sum_list (map is_error (snd (proxy_handler parse up r))) = (if passed_on parse up r \<and> answered_with_error up r then 1 else 0)"
    unfolding passed_on_def unreachable_def broken_off_def answered_with_error_def by (cases "up r"; auto)+
qed


subsection \<open>The vectors of the texts\<close>

text \<open>The first \<open>n\<close> documents are in the index: each text under a row that holds it, with the vector of every row that holds it.\<close>

definition indexed :: "row_tools \<Rightarrow> bytes list \<Rightarrow> pystr list \<Rightarrow> nat \<Rightarrow> (pystr \<times> nat) list \<Rightarrow> bool" where
  "indexed rt vectors documents n found \<longleftrightarrow>
     (\<forall>row < n. \<exists>i \<le> row. map_of found (documents ! row) = Some i \<and> (i = row \<or> rt_equal rt (vectors ! i) (vectors ! row)))
     \<and> (\<forall>t i. map_of found t = Some i \<longrightarrow> i < n \<and> documents ! i = t)"

lemma indexed_step:
  assumes "indexed rt vectors documents n found" and "index_texts rt vectors found ((n, documents ! n) # rest) = Inr result"
  shows "\<exists>found'. indexed rt vectors documents (Suc n) found' \<and> index_texts rt vectors found' rest = Inr result"
proof (cases "map_of found (documents ! n)")
  case None
  from assms(1) None have "indexed rt vectors documents (Suc n) (dict_set found (documents ! n) n)"
    unfolding indexed_def
  proof (intro conjI allI impI)
    fix row assume "row < Suc n"
    show "\<exists>i \<le> row. map_of (dict_set found (documents ! n) n) (documents ! row) = Some i
        \<and> (i = row \<or> rt_equal rt (vectors ! i) (vectors ! row))"
    proof (cases "row = n")
      case False
      with \<open>row < Suc n\<close> have "row < n" by simp
      with assms(1) obtain i where "i \<le> row" "map_of found (documents ! row) = Some i" "i = row \<or> rt_equal rt (vectors ! i) (vectors ! row)"
        unfolding indexed_def by blast
      moreover from this(2) None have "documents ! row \<noteq> documents ! n" by auto
      ultimately show ?thesis by auto
    qed auto
  next
    fix t i assume "map_of (dict_set found (documents ! n) n) t = Some i"
    then show "i < Suc n" "documents ! i = t"
      using assms(1) by (auto simp: indexed_def less_Suc_eq split: if_splits)
  qed
  with assms(2) None show ?thesis by auto
next
  case (Some i)
  with assms have i: "i < n" "documents ! i = documents ! n" "rt_equal rt (vectors ! i) (vectors ! n)"
      "index_texts rt vectors found rest = Inr result"
    by (auto simp: indexed_def split: if_splits)
  have "indexed rt vectors documents (Suc n) found"
    unfolding indexed_def
  proof (intro conjI allI impI)
    fix row assume "row < Suc n"
    then show "\<exists>i \<le> row. map_of found (documents ! row) = Some i \<and> (i = row \<or> rt_equal rt (vectors ! i) (vectors ! row))"
      using assms(1) Some i by (cases "row = n") (auto simp: indexed_def intro: less_imp_le)
  next
    fix t j assume "map_of found t = Some j"
    then show "j < Suc n" "documents ! j = t" using assms(1) by (auto simp: indexed_def less_Suc_eq)
  qed
  with i(4) show ?thesis by blast
qed

lemma index_texts_indexed:
  assumes "indexed rt vectors documents n found" and "n \<le> length documents"
    and "index_texts rt vectors found (zip [n..<length documents] (drop n documents)) = Inr result"
  shows "indexed rt vectors documents (length documents) result"
  using assms
proof (induction "length documents - n" arbitrary: n found)
  case 0
  then show ?case by simp
next
  case (Suc k)
  then have n: "n < length documents" by simp
  have "zip [n..<length documents] (drop n documents) = (n, documents ! n) # zip [Suc n..<length documents] (drop (Suc n) documents)"
    using n by (simp add: upt_conv_Cons Cons_nth_drop_Suc [symmetric])
  with Suc.prems(3) obtain found' where "indexed rt vectors documents (Suc n) found'"
      "index_texts rt vectors found' (zip [Suc n..<length documents] (drop (Suc n) documents)) = Inr result"
    using indexed_step [OF Suc.prems(1)] by metis
  with Suc.hyps n show ?case by (metis Suc_diff_Suc Suc_leI diff_Suc_1)
qed

lemma start_server_ok:
  assumes "start_server h np rt d a = Inr sv"
  shows "(\<exists>c. open_rb d (sa_documents a) = Inr c \<and> iter_nonempty_lines c = Inr (sv_documents sv))
    \<and> (\<exists>meta. read_cache_default h np d (sa_cache a) = Inr (sv_vectors sv, meta))
    \<and> length (sv_documents sv) = length (sv_vectors sv)
    \<and> index_texts rt (sv_vectors sv) [] (zip [0..<length (sv_documents sv)] (sv_documents sv)) = Inr (sv_rows sv)"
  using assms unfolding start_server_def
proof (elim and_then_pair_E and_then_E)
  fix c documents vectors meta found checked counted cache_sha declared model script_sha
  assume parts: "open_rb d (sa_documents a) = Inr c" "iter_nonempty_lines c = Inr documents"
      "read_cache_default h np d (sa_cache a) = Inr (vectors, meta)"
      "require (length documents = length vectors) (ValueError ''Document/cache mismatch'') = Inr counted"
      "index_texts rt vectors [] (zip [0..<length documents] documents) = Inr found"
    and "Inr \<lparr>sv_documents = documents, sv_vectors = vectors, sv_rows = found, sv_identity = cache_identity meta cache_sha model script_sha,
       sv_model = sa_model a, sv_limit = sa_limit a\<rparr> = Inr sv"
  then have "sv_documents sv = documents" "sv_vectors sv = vectors" "sv_rows sv = found" by auto
  with parts show ?thesis by (simp add: require_ok)
qed

lemma start_server_indexed:
  assumes "start_server h np rt d a = Inr sv"
  shows "indexed rt (sv_vectors sv) (sv_documents sv) (length (sv_documents sv)) (sv_rows sv)"
  using start_server_ok [OF assms] by (intro index_texts_indexed [of _ _ _ 0 "[]"]) (auto simp: indexed_def)

text \<open>
  C39. The vectors that the cached server returns. Once the server has started, a request whose texts all are documents
  is answered with one embedding per text, in the order of the texts, and for every row of the document file that
  holds the text, the embedding is the vector of that row of the cache or of an earlier one that compares equal; the request is counted once.
\<close>

theorem server_returns_cached_vectors:
  assumes "start_server h np rt d a = Inr sv" and "content_length r = Some n" and "0 < n" and "n \<le> sv_limit sv"
    and "loads h (take (nat n) (rq_body r)) = Some (JObj request)" and "requested_texts request = Some texts"
    and "set texts \<subseteq> set (sv_documents sv)"
  shows "\<exists>data payload. embeddings_handler h rt sv r = (\<lparr>rp_status = 200, rp_payload = JObj payload\<rparr>, [Add (length texts), Finished 200])
    \<and> jget payload ''data'' = JArr data \<and> length data = length texts
    \<and> (\<exists>c meta. open_rb d (sa_documents a) = Inr c \<and> iter_nonempty_lines c = Inr (sv_documents sv)
         \<and> read_cache_default h np d (sa_cache a) = Inr (sv_vectors sv, meta) \<and> length (sv_documents sv) = length (sv_vectors sv))
    \<and> (\<forall>i < length texts. \<forall>row < length (sv_documents sv). sv_documents sv ! row = texts ! i \<longrightarrow>
         (\<exists>v \<in> set (sv_vectors sv). data ! i = embedding_item rt i v \<and> (v = sv_vectors sv ! row \<or> rt_equal rt v (sv_vectors sv ! row))))"
proof -
  let ?row = "\<lambda>t. the (map_of (sv_rows sv) t)"
  let ?data = "map (\<lambda>(i, t). embedding_item rt i (sv_vectors sv ! ?row t)) (zip [0..<length texts] texts)"
  note ok = start_server_ok [OF assms(1)] and idx = start_server_indexed [OF assms(1), unfolded indexed_def]
  have known: "map_of (sv_rows sv) t \<noteq> None" if "t \<in> set texts" for t
    using that assms(7) idx by (metis in_set_conv_nth option.distinct(1) subset_iff)
  then have "list_all (\<lambda>t. map_of (sv_rows sv) t \<noteq> None) texts" by (simp add: list_all_iff)
  then have "\<exists>payload. embed_texts rt sv request texts = \<lparr>rp_status = 200, rp_payload = JObj payload\<rparr> \<and> jget payload ''data'' = JArr ?data"
    by (simp add: embed_texts_def jget_def jobj_def u_def)
  then obtain payload where p: "embed_texts rt sv request texts = \<lparr>rp_status = 200, rp_payload = JObj payload\<rparr>" "jget payload ''data'' = JArr ?data" by blast
  have e: "embeddings_handler h rt sv r = (\<lparr>rp_status = 200, rp_payload = JObj payload\<rparr>, [Add (length texts), Finished 200])"
    using assms(2-6) p(1) by (simp add: embeddings_handler_def Let_def)
  have "\<exists>v \<in> set (sv_vectors sv). ?data ! i = embedding_item rt i v \<and> (v = sv_vectors sv ! row \<or> rt_equal rt v (sv_vectors sv ! row))"
    if "i < length texts" "row < length (sv_documents sv)" "sv_documents sv ! row = texts ! i" for i row
  proof -
    from idx that obtain j where "j \<le> row" "map_of (sv_rows sv) (texts ! i) = Some j" "j = row \<or> rt_equal rt (sv_vectors sv ! j) (sv_vectors sv ! row)"
      by metis
    with that ok show ?thesis by (intro bexI [of _ "sv_vectors sv ! j"]) auto
  qed
  then have all: "\<forall>i < length texts. \<forall>row < length (sv_documents sv). sv_documents sv ! row = texts ! i \<longrightarrow>
      (\<exists>v \<in> set (sv_vectors sv). ?data ! i = embedding_item rt i v \<and> (v = sv_vectors sv ! row \<or> rt_equal rt v (sv_vectors sv ! row)))"
    by blast
  have len: "length ?data = length texts" by simp
  from ok have files: "\<exists>c meta. open_rb d (sa_documents a) = Inr c \<and> iter_nonempty_lines c = Inr (sv_documents sv)
      \<and> read_cache_default h np d (sa_cache a) = Inr (sv_vectors sv, meta) \<and> length (sv_documents sv) = length (sv_vectors sv)" by blast
  from e p(2) len files all show ?thesis by blast
qed

subsection \<open>Samples\<close>

definition sample_request :: request where
  "sample_request = \<lparr>rq_verb = Post, rq_path = u ''/embeddings'', rq_length = Some (dec_nat 1), rq_body = [1]\<rparr>"

definition sample_reset :: request where
  "sample_reset = \<lparr>rq_verb = Post, rq_path = u ''/metrics/reset'', rq_length = None, rq_body = []\<rparr>"

lemma sample_request_fields: "content_length sample_request = Some 1" "endswith (rq_path sample_request) (u ''/embeddings'')"
    "rq_path sample_request \<noteq> u ''/metrics/reset''" "rq_verb sample_request = Post" "rq_body sample_request = [1]"
proof -
  show "content_length sample_request = Some 1" by (simp add: content_length_def sample_request_def py_int_short [OF short_nat_bound])
qed (simp_all add: sample_request_def u_def endswith_def)



text \<open>A legacy cache of one vector for two equal lines, and a request for their text.\<close>

definition legacy_cache :: bytes where
  "legacy_cache = magic_v1 @ le_encode 4 1 @ le_encode 8 2 @ le_encode 4 0 @ [0, 0, 128, 63, 0, 0, 128, 63]"

definition server_disk :: fsys where
  "server_disk = \<lparr>fs_resolve = id, fs_file = [u ''docs'' \<mapsto> utf8_bytes (u ''a'' @ [10] @ u ''a'' @ [10]), u ''cache'' \<mapsto> legacy_cache, u ''s'' \<mapsto> []]\<rparr>"

definition server_host :: host where
  "server_host = plain_host\<lparr>loads := \<lambda>_. Some (JObj (jobj [(''input'', JStr (u ''a''))]))\<rparr>"

definition plain_rows :: row_tools where
  "plain_rows = \<lparr>rt_equal = (=), rt_list = (\<lambda>_. [JNull])\<rparr>"

definition sample_args :: server_args where
  "sample_args = \<lparr>sa_documents = u ''docs'', sa_cache = u ''cache'', sa_model = u ''m'', sa_allow_v1 = True, sa_limit = 8, sa_script = u ''s''\<rparr>"

lemma sample_server:
  obtains sv where "start_server server_host unit_numerics plain_rows server_disk sample_args = Inr sv"
    and "sv_documents sv = [u ''a'', u ''a'']" and "sv_vectors sv = [[0, 0, 128, 63], [0, 0, 128, 63]]" and "sv_limit sv = 8"
proof -
  let ?rows = "[[0, 0, 128, 63], [0, 0, 128, 63]] :: bytes list"
  have lines: "iter_nonempty_lines (utf8_bytes (u ''a'' @ [10] @ u ''a'' @ [10])) = Inr [u ''a'', u ''a'']"
    using iter_nonempty_lines_unlines [of "[u ''a'', u ''a'']"] by (simp add: u_def is_scalar_def)
  have hdr: "read_fixed legacy_cache = Inr \<lparr>ch_version = 1, ch_dimension = 1, ch_count = 2, ch_fingerprint_size = 0, ch_source = None, ch_fixed = 24\<rparr>"
    by (simp add: read_fixed_def legacy_cache_def Let_def le_decode_encode)
  have len: "length legacy_cache = 32" "drop 24 legacy_cache = [0, 0, 128, 63, 0, 0, 128, 63]" by (simp_all add: legacy_cache_def)
  have "decode_fingerprint [] = Inr []" by (simp add: decode_fingerprint_def utf8_decode.simps)
  moreover have "rows_of 4 [0, 0, 128, 63, 0, 0, 128, 63] = ?rows" using rows_of_concat [of 4 ?rows] by simp
  moreover have "validate_vector_matrix unit_numerics b 8192 (fl_lit 2 3) 1 ?rows = Inr ()" for b by (simp add: validate_vector_matrix_ok)
  ultimately obtain meta where cache: "read_cache_default server_host unit_numerics server_disk (u ''cache'') = Inr (?rows, meta)" "cm_version meta = 1"
    by (simp add: read_cache_default_def open_rb_def server_disk_def read_cache_def hdr len Let_def u_def)
  have sha: "\<exists>x. sha256_file server_host server_disk p 0 None = Inr x" if "p \<in> {u ''cache'', u ''s''}" for p
    using that by (auto simp: sha256_file_def open_rb_def server_disk_def sha256_bytes_all u_def)
  have no: "\<not> path_exists server_disk (sidecar_path (u ''cache''))"
    by (simp add: path_exists_def file_at_def server_disk_def sidecar_path_def u_def)
  have "\<exists>sv. start_server server_host unit_numerics plain_rows server_disk sample_args = Inr sv \<and> sv_documents sv = [u ''a'', u ''a'']
      \<and> sv_vectors sv = ?rows \<and> sv_limit sv = 8"
  proof -
    have "open_rb server_disk (u ''docs'') = Inr (utf8_bytes (u ''a'' @ [10] @ u ''a'' @ [10]))"
      by (simp add: open_rb_def server_disk_def u_def)
    with lines have "and_then (open_rb server_disk (u ''docs'')) iter_nonempty_lines = Inr [u ''a'', u ''a'']" by simp
    moreover have "load_declared server_host server_disk meta (u ''cache'') x = Inr None" for x
      using no cache(2) by (simp add: load_declared_def)
    moreover have "index_texts plain_rows ?rows [] [(0, u ''a''), (1, u ''a'')] = Inr [(u ''a'', 0)]" by (simp add: plain_rows_def)
    moreover have "zip [0..<2] [u ''a'', u ''a''] = [(0, u ''a''), (1, u ''a'')]" by (simp add: upt_rec)
    moreover obtain x y where "sha256_file server_host server_disk (u ''cache'') 0 None = Inr x" "sha256_file server_host server_disk (u ''s'') 0 None = Inr y"
      using sha by blast
    ultimately show ?thesis using cache by (simp add: start_server_def sample_args_def require_def numeral_2_eq_2)
  qed
  with that show ?thesis by blast
qed

theorem server_returns_cached_vectors_witness:
  "\<exists>sv data payload. start_server server_host unit_numerics plain_rows server_disk sample_args = Inr sv
     \<and> embeddings_handler server_host plain_rows sv sample_request = (\<lparr>rp_status = 200, rp_payload = JObj payload\<rparr>, [Add 1, Finished 200])
     \<and> jget payload ''data'' = JArr data \<and> length data = 1"
proof -
  obtain sv where sv: "start_server server_host unit_numerics plain_rows server_disk sample_args = Inr sv"
      "sv_documents sv = [u ''a'', u ''a'']" "sv_limit sv = 8" by (rule sample_server)
  have "loads server_host (take (nat 1) (rq_body sample_request)) = Some (JObj (jobj [(''input'', JStr (u ''a''))]))" by (simp add: server_host_def)
  moreover have "requested_texts (jobj [(''input'', JStr (u ''a''))]) = Some [u ''a'']" by (simp add: requested_texts_def jobj_def)
  ultimately show ?thesis
    using server_returns_cached_vectors [OF sv(1) sample_request_fields(1), of "jobj [(''input'', JStr (u ''a''))]" "[u ''a'']"] sv by auto
qed

end
