(* ===== verification/ParitySample.thy ===== *)
theory ParitySample
  imports LineFiles "HOL-Library.Multiset"
begin

text \<open>
  The document sample of \<open>validate_embedding_parity.py\<close>: rows at even distances, the longest rows, and rows named by the
  caller, selected in one pass over the documents. The pass keeps the longest rows in a heap of bounded size; a heap
  of \<open>heapq\<close> is seen through its contract, its contents in order. The theorem is that the pass returns exactly the
  sample that a global sort of all rows by length gives.
\<close>

subsection \<open>Even distances\<close>

definition evenly_spaced_indices :: "int \<Rightarrow> int \<Rightarrow> nat list res" where
  "evenly_spaced_indices n requested =
     (if n \<le> 0 then Inl (ValueError ''count must be positive'')
      else if requested < 0 then Inl (ValueError ''requested must be non-negative'')
      else if requested = 0 then Inr []
      else if requested \<ge> n then Inr [0..<nat n]
      else if requested = 1 then Inr [0]
      else Inr (map (\<lambda>position. nat (int position * (n - 1) div (requested - 1))) [0..<nat requested]))"

subsection \<open>The candidates of the heap\<close>

datatype candidate = Candidate (cd_bytes: nat) (cd_index: nat) (cd_text: pystr)

text \<open>Tuples \<open>(utf8_bytes, -index, text)\<close> in Python's order.\<close>

instantiation candidate :: linorder
begin

definition less_eq_candidate :: "candidate \<Rightarrow> candidate \<Rightarrow> bool" where
  "less_eq_candidate a b \<longleftrightarrow> cd_bytes a < cd_bytes b \<or> cd_bytes a = cd_bytes b
     \<and> (cd_index b < cd_index a \<or> cd_index a = cd_index b \<and> cd_text a \<le> cd_text b)"

definition less_candidate :: "candidate \<Rightarrow> candidate \<Rightarrow> bool" where
  "less_candidate a b \<longleftrightarrow> cd_bytes a < cd_bytes b \<or> cd_bytes a = cd_bytes b
     \<and> (cd_index b < cd_index a \<or> cd_index a = cd_index b \<and> cd_text a < cd_text b)"

instance
  by standard (auto simp: less_eq_candidate_def less_candidate_def intro: candidate.expand)

end

text \<open>\<open>candidate[:2] > heap[0][:2]\<close>, and the heap operations on the sorted contents.\<close>

definition outranks :: "candidate \<Rightarrow> candidate \<Rightarrow> bool" where
  "outranks a b \<longleftrightarrow> cd_bytes b < cd_bytes a \<or> cd_bytes a = cd_bytes b \<and> cd_index a < cd_index b"

definition heap_step :: "nat \<Rightarrow> candidate list \<Rightarrow> candidate \<Rightarrow> candidate list" where
  "heap_step longest heap c =
     (if length heap < longest then insort c heap
      else if outranks c (hd heap) then insort c (tl heap)
      else heap)"

subsection \<open>The pass\<close>

record scan =
  sc_seen :: nat
  sc_direct :: "(nat \<times> pystr \<times> nat) list"
  sc_heap :: "candidate list"

definition scan_row :: "nat set \<Rightarrow> nat \<Rightarrow> scan \<Rightarrow> pystr \<Rightarrow> scan" where
  "scan_row direct longest st text =
     (let index = sc_seen st; utf8_bytes = length (utf8_bytes text) in
      st\<lparr>sc_seen := index + 1,
         sc_direct := (if index \<in> direct then sc_direct st @ [(index, text, utf8_bytes)] else sc_direct st),
         sc_heap := (if longest = 0 then sc_heap st else heap_step longest (sc_heap st) (Candidate utf8_bytes index text))\<rparr>)"

definition scan_documents :: "nat set \<Rightarrow> nat \<Rightarrow> pystr list \<Rightarrow> scan" where
  "scan_documents direct longest texts = foldl (scan_row direct longest) \<lparr>sc_seen = 0, sc_direct = [], sc_heap = []\<rparr> texts"

record sample_row =
  sr_index :: nat
  sr_text :: pystr
  sr_bytes :: nat
  sr_categories :: "pystr list"

text \<open>\<open>categories.setdefault(index, set()).add(name)\<close> for every index of a list.\<close>

definition categorize :: "pystr \<Rightarrow> (nat \<Rightarrow> pystr set) \<Rightarrow> nat list \<Rightarrow> nat \<Rightarrow> pystr set" where
  "categorize name categories indices = (\<lambda>i. if i \<in> set indices then insert name (categories i) else categories i)"

definition categories_of :: "nat list \<Rightarrow> nat list \<Rightarrow> nat list \<Rightarrow> nat \<Rightarrow> pystr set" where
  "categories_of spaced longest explicit =
     categorize (u ''explicit_truncation_candidate'')
       (categorize (u ''longest'') (categorize (u ''evenly_spaced'') (\<lambda>_. {}) spaced) longest) explicit"

text \<open>\<open>{**longest_rows, **direct_rows}[index]\<close>: a direct row wins.\<close>

definition materialized :: "scan \<Rightarrow> nat \<Rightarrow> pystr \<times> nat" where
  "materialized st i = (case map_of (sc_direct st) i of
     Some row \<Rightarrow> row
   | None \<Rightarrow> (case map_of (map (\<lambda>c. (cd_index c, (cd_text c, cd_bytes c))) (sc_heap st)) i of Some row \<Rightarrow> row | None \<Rightarrow> ([], 0)))"

record sample_summary =
  ss_spaced :: int
  ss_longest :: int
  ss_explicit :: "nat list"
  ss_selected :: nat
  ss_counts :: "(pystr \<times> nat) list"

definition summarize :: "int \<Rightarrow> int \<Rightarrow> nat list \<Rightarrow> sample_row list \<Rightarrow> sample_summary" where
  "summarize spaced longest explicit rows =
     \<lparr>ss_spaced = spaced, ss_longest = longest, ss_explicit = explicit, ss_selected = length rows,
      ss_counts = map (\<lambda>name. (name, length (filter (\<lambda>r. name \<in> set (sr_categories r)) rows)))
        [u ''evenly_spaced'', u ''longest'', u ''explicit_truncation_candidate'']\<rparr>"

definition select_document_sample ::
  "bytes res \<Rightarrow> int \<Rightarrow> int \<Rightarrow> int \<Rightarrow> int list \<Rightarrow> (sample_row list \<times> sample_summary) res" where
  "select_document_sample documents expected_count evenly_spaced longest truncated =
     and_then (require (0 < expected_count) (ValueError ''expected_count must be positive'')) (\<lambda>_.
     and_then (require (0 \<le> longest) (ValueError ''longest must be non-negative'')) (\<lambda>_.
     let explicit = sorted_list_of_set (set truncated) in
     and_then (require (explicit = [] \<or> \<not> (hd explicit < 0 \<or> expected_count \<le> last explicit))
        (ValueError ''truncated document index is outside the corpus'')) (\<lambda>_.
     and_then (evenly_spaced_indices expected_count evenly_spaced) (\<lambda>spaced.
     let explicit = map nat explicit; direct = set spaced \<union> set explicit in
     and_then (and_then documents iter_nonempty_lines) (\<lambda>texts.
     let st = scan_documents direct (nat longest) texts in
     and_then (require (int (sc_seen st) = expected_count) (ValueError ''documents/cache row mismatch'')) (\<lambda>_.
     and_then (require (set (map fst (sc_direct st)) = direct) (ValueError ''failed to load selected document rows'')) (\<lambda>_.
     let categories = categories_of spaced (map cd_index (sc_heap st)) explicit;
         rows = map (\<lambda>i. \<lparr>sr_index = i, sr_text = fst (materialized st i), sr_bytes = snd (materialized st i),
             sr_categories = sorted_list_of_set (categories i)\<rparr>)
           (sorted_list_of_set (set spaced \<union> set (map cd_index (sc_heap st)) \<union> set explicit))
     in Inr (rows, summarize evenly_spaced longest explicit rows))))))))"

subsection \<open>The specification\<close>

text \<open>The longest rows of all, ties by lowest index, by sorting everything.\<close>

definition candidates :: "pystr list \<Rightarrow> candidate list" where
  "candidates texts = map (\<lambda>i. Candidate (length (utf8_bytes (texts ! i))) i (texts ! i)) [0..<length texts]"

definition longest_indices :: "pystr list \<Rightarrow> nat \<Rightarrow> nat list" where
  "longest_indices texts k = map cd_index (take k (rev (sort (candidates texts))))"

definition sample_rows :: "pystr list \<Rightarrow> nat list \<Rightarrow> nat list \<Rightarrow> nat list \<Rightarrow> sample_row list" where
  "sample_rows texts spaced longest explicit =
     map (\<lambda>i. \<lparr>sr_index = i, sr_text = texts ! i, sr_bytes = length (utf8_bytes (texts ! i)),
         sr_categories = (if i \<in> set spaced then [u ''evenly_spaced''] else [])
           @ (if i \<in> set explicit then [u ''explicit_truncation_candidate''] else [])
           @ (if i \<in> set longest then [u ''longest''] else [])\<rparr>)
       (sorted_list_of_set (set spaced \<union> set longest \<union> set explicit))"

subsection \<open>The heap holds the longest rows\<close>

lemma drop_insort:
  "sorted S \<Longrightarrow> m < length S \<Longrightarrow>
     drop (Suc m) (insort x S) = (if S ! m < x then insort x (drop (Suc m) S) else drop m S)"
proof (induction S arbitrary: m)
  case (Cons a S)
  show ?case
  proof (cases "x \<le> a")
    case True
    have "a \<le> (a # S) ! m" using Cons.prems by (cases m) auto
    with True show ?thesis by auto
  next
    case False
    with Cons show ?thesis by (cases m) auto
  qed
qed simp

lemma sort_snoc: "sort (xs @ [x]) = insort x (sort xs)" for x :: "'a :: linorder"
  by (rule properties_for_sort) (auto simp: sorted_insort)

lemma candidates_snoc: "candidates (texts @ [t]) = candidates texts @ [Candidate (length (utf8_bytes t)) (length texts) t]"
  by (simp add: candidates_def nth_append)

lemma length_candidates [simp]: "length (candidates texts) = length texts"
  by (simp add: candidates_def)

lemma candidates_index: "c \<in> set (candidates texts) \<longleftrightarrow>
    (\<exists>i < length texts. c = Candidate (length (utf8_bytes (texts ! i))) i (texts ! i))"
  by (auto simp: candidates_def)

definition kept :: "nat \<Rightarrow> pystr list \<Rightarrow> candidate list" where
  "kept longest texts = (if longest = 0 then [] else drop (length texts - longest) (sort (candidates texts)))"

lemma outranks_fresh: "cd_index a \<noteq> cd_index b \<Longrightarrow> outranks a b \<longleftrightarrow> b < a"
  by (auto simp: outranks_def less_candidate_def)

lemma heap_step_kept:
  assumes "0 < longest"
  shows "heap_step longest (kept longest texts) (Candidate (length (utf8_bytes t)) (length texts) t) = kept longest (texts @ [t])"
proof -
  let ?c = "Candidate (length (utf8_bytes t)) (length texts) t" and ?S = "sort (candidates texts)" and ?n = "length texts"
  have kept: "kept longest texts = drop (?n - longest) ?S" "kept longest (texts @ [t]) = drop (Suc ?n - longest) (insort ?c ?S)"
    using assms by (simp_all add: kept_def candidates_snoc sort_snoc)
  show ?thesis
  proof (cases "?n < longest")
    case True
    then show ?thesis by (simp add: kept heap_step_def)
  next
    case False
    let ?m = "?n - longest"
    have m: "?m < length ?S" "Suc ?n - longest = Suc ?m" using assms False by simp_all
    have heap: "drop ?m ?S = ?S ! ?m # drop (Suc ?m) ?S" using m(1) by (simp add: Cons_nth_drop_Suc)
    have "?S ! ?m \<in> set (candidates texts)" using nth_mem [OF m(1)] by simp
    then have "cd_index ?c \<noteq> cd_index (?S ! ?m)" by (auto simp: candidates_index)
    then have "outranks ?c (?S ! ?m) \<longleftrightarrow> ?S ! ?m < ?c" by (rule outranks_fresh)
    moreover have "drop (Suc ?m) (insort ?c ?S) = (if ?S ! ?m < ?c then insort ?c (drop (Suc ?m) ?S) else drop ?m ?S)"
      using drop_insort [OF sorted_sort m(1)] .
    moreover have "\<not> length (drop ?m ?S) < longest" using False by simp
    ultimately show ?thesis by (simp add: kept m(2) heap_step_def heap del: insort_key.simps drop_Suc)
  qed
qed

definition direct_part :: "nat set \<Rightarrow> pystr list \<Rightarrow> (nat \<times> pystr \<times> nat) list" where
  "direct_part direct texts = map (\<lambda>i. (i, texts ! i, length (utf8_bytes (texts ! i)))) (filter (\<lambda>i. i \<in> direct) [0..<length texts])"

lemma scan_documents_result:
  "scan_documents direct longest texts = \<lparr>sc_seen = length texts, sc_direct = direct_part direct texts, sc_heap = kept longest texts\<rparr>"
proof (induction texts rule: rev_induct)
  case Nil
  show ?case by (simp add: scan_documents_def direct_part_def kept_def candidates_def)
next
  case (snoc t texts)
  have "scan_documents direct longest (texts @ [t]) = scan_row direct longest (scan_documents direct longest texts) t"
    by (simp add: scan_documents_def)
  moreover have "direct_part direct (texts @ [t])
      = direct_part direct texts @ (if length texts \<in> direct then [(length texts, t, length (utf8_bytes t))] else [])"
    by (simp add: direct_part_def nth_append)
  moreover have "longest = 0 \<Longrightarrow> kept longest ts = []" for ts by (simp add: kept_def)
  ultimately show ?case
    using heap_step_kept [of longest texts t] by (auto simp: snoc scan_row_def Let_def)
qed

lemma kept_longest: "set (map cd_index (kept longest texts)) = set (longest_indices texts longest)"
proof -
  have "kept longest texts = rev (take longest (rev (sort (candidates texts))))"
    unfolding rev_take by (simp add: kept_def)
  then show ?thesis by (simp add: longest_indices_def)
qed

subsection \<open>The sample\<close>

lemma longest_index_bound: "i \<in> set (longest_indices texts k) \<Longrightarrow> i < length texts"
proof -
  assume "i \<in> set (longest_indices texts k)"
  then obtain c where "c \<in> set (take k (rev (sort (candidates texts))))" "i = cd_index c" by (auto simp: longest_indices_def)
  then have "c \<in> set (candidates texts)" by (metis in_set_takeD set_rev set_sort)
  with \<open>i = cd_index c\<close> show ?thesis by (auto simp: candidates_index)
qed

lemma materialized_text:
  assumes "i \<in> direct \<or> i \<in> set (longest_indices texts longest)" and "i < length texts"
  shows "materialized (scan_documents direct longest texts) i = (texts ! i, length (utf8_bytes (texts ! i)))"
proof (cases "i \<in> direct")
  case True
  have "map_of (direct_part direct texts) i = Some (texts ! i, length (utf8_bytes (texts ! i)))"
    unfolding direct_part_def using assms(2) True by (intro map_of_is_SomeI) (auto simp: comp_def)
  then show ?thesis by (simp add: scan_documents_result materialized_def)
next
  case False
  have no: "map_of (direct_part direct texts) i = None" using False by (auto simp: direct_part_def map_of_eq_None_iff)
  let ?row = "\<lambda>c. (cd_index c, (cd_text c, cd_bytes c))"
  have sub: "set (kept longest texts) \<subseteq> set (candidates texts)"
    unfolding kept_def using set_drop_subset [of _ "sort (candidates texts)"] by simp
  have dist: "distinct (map cd_index (kept longest texts))"
  proof -
    have "map cd_index (candidates texts) = [0..<length texts]" by (simp add: candidates_def comp_def)
    then have "distinct (map cd_index (sort (candidates texts)))"
      by (metis distinct_upt mset_eq_imp_distinct_iff mset_map mset_sort)
    then show ?thesis by (simp add: kept_def drop_map [symmetric])
  qed
  have "i \<in> set (map cd_index (kept longest texts))" using assms(1) False unfolding kept_longest by blast
  then obtain c where c: "c \<in> set (kept longest texts)" "cd_index c = i" by auto
  then have "c \<in> set (candidates texts)" using sub by blast
  then obtain j where "c = Candidate (length (utf8_bytes (texts ! j))) j (texts ! j)" unfolding candidates_index by blast
  with c(2) have "c = Candidate (length (utf8_bytes (texts ! i))) i (texts ! i)" by simp
  moreover have "map_of (map ?row (kept longest texts)) i = Some (cd_text c, cd_bytes c)"
    using c dist by (intro map_of_is_SomeI) (auto simp: comp_def)
  ultimately show ?thesis by (simp add: scan_documents_result materialized_def no)
qed

lemma categories_sorted:
  "sorted_list_of_set (categories_of spaced longest explicit i) =
     (if i \<in> set spaced then [u ''evenly_spaced''] else [])
     @ (if i \<in> set explicit then [u ''explicit_truncation_candidate''] else [])
     @ (if i \<in> set longest then [u ''longest''] else [])"
proof -
  have less: "u ''evenly_spaced'' < u ''explicit_truncation_candidate''" "u ''explicit_truncation_candidate'' < u ''longest''"
    "u ''evenly_spaced'' < u ''longest''"
    by (simp_all add: u_def less_list_code)
  then show ?thesis
    by (auto simp: categories_of_def categorize_def)
qed

lemma spaced_bound:
  assumes "evenly_spaced_indices n k = Inr spaced" and "i \<in> set spaced"
  shows "i < nat n"
proof -
  consider "i \<in> set [0..<nat n]" | "i = 0" "0 < n" | position where "position < nat k" "1 < k" "k < n"
      "i = nat (int position * (n - 1) div (k - 1))"
    using assms by (auto simp: evenly_spaced_indices_def split: if_splits)
  then show ?thesis
  proof cases
    case (3 position)
    have "int position * (n - 1) \<le> (k - 1) * (n - 1)" using 3 by (intro mult_right_mono) auto
    then have "int position * (n - 1) div (k - 1) \<le> (k - 1) * (n - 1) div (k - 1)" using 3 by (intro zdiv_mono1) auto
    then have "int position * (n - 1) div (k - 1) \<le> n - 1" using 3 by simp
    moreover have "0 \<le> int position * (n - 1) div (k - 1)" using 3 by (intro div_int_pos_iff [THEN iffD2]) auto
    ultimately show ?thesis using 3 by simp
  qed auto
qed

text \<open>The endpoints are taken, and no index twice.\<close>

lemma spaced_endpoints:
  assumes "evenly_spaced_indices n k = Inr spaced" and "1 < k" and "k < n"
  shows "sorted_wrt (<) spaced" and "hd spaced = 0" and "last spaced = nat (n - 1)" and "length spaced = nat k"
proof -
  have sp: "spaced = map (\<lambda>position. nat (int position * (n - 1) div (k - 1))) [0..<nat k]"
    using assms by (auto simp: evenly_spaced_indices_def split: if_splits)
  show "length spaced = nat k" by (simp add: sp)
  show "hd spaced = 0" using assms by (simp add: sp hd_map)
  have "last [0..<nat k] = nat k - 1" using assms by simp
  then show "last spaced = nat (n - 1)" using assms by (simp add: sp last_map of_nat_diff)
  have step: "nat (int p * (n - 1) div (k - 1)) < nat (int q * (n - 1) div (k - 1))" if "p < q" for p q
  proof -
    have "int p * (n - 1) + (k - 1) \<le> int q * (n - 1)"
    proof -
      have "(int p + 1) * (n - 1) \<le> int q * (n - 1)" using that assms by (intro mult_right_mono) auto
      then show ?thesis using assms by (simp add: algebra_simps)
    qed
    then have "(int p * (n - 1) + (k - 1)) div (k - 1) \<le> int q * (n - 1) div (k - 1)" using assms by (intro zdiv_mono1) auto
    moreover have "(int p * (n - 1) + (k - 1)) div (k - 1) = int p * (n - 1) div (k - 1) + 1" using assms by simp
    moreover have "0 \<le> int p * (n - 1) div (k - 1)" using assms by (intro div_int_pos_iff [THEN iffD2]) auto
    ultimately show ?thesis by simp
  qed
  show "sorted_wrt (<) spaced" unfolding sp sorted_wrt_map by (rule sorted_wrt_mono_rel [OF _ sorted_wrt_upt]) (use step in auto)
qed

lemma sorted_last_bound: "sorted xs \<Longrightarrow> x \<in> set xs \<Longrightarrow> x \<le> last xs"
  by (induction xs) auto

lemma sample_rows_scan:
  assumes "\<forall>i \<in> set spaced \<union> set explicit. i < length texts"
  shows "map (\<lambda>i. \<lparr>sr_index = i, sr_text = fst (materialized (scan_documents (set spaced \<union> set explicit) longest texts) i),
        sr_bytes = snd (materialized (scan_documents (set spaced \<union> set explicit) longest texts) i),
        sr_categories = sorted_list_of_set (categories_of spaced (map cd_index (kept longest texts)) explicit i)\<rparr>)
      (sorted_list_of_set (set spaced \<union> set (map cd_index (kept longest texts)) \<union> set explicit))
    = sample_rows texts spaced (longest_indices texts longest) explicit"
  unfolding sample_rows_def kept_longest
proof (rule map_cong [OF refl])
  fix i assume "i \<in> set (sorted_list_of_set (set spaced \<union> set (longest_indices texts longest) \<union> set explicit))"
  then have i: "i \<in> set spaced \<union> set explicit \<or> i \<in> set (longest_indices texts longest)" by auto
  then have "i < length texts" using assms longest_index_bound by blast
  note m = materialized_text [OF i this]
  have "i \<in> set (map cd_index (kept longest texts)) \<longleftrightarrow> i \<in> set (longest_indices texts longest)" unfolding kept_longest ..
  then show "\<lparr>sr_index = i, sr_text = fst (materialized (scan_documents (set spaced \<union> set explicit) longest texts) i),
        sr_bytes = snd (materialized (scan_documents (set spaced \<union> set explicit) longest texts) i),
        sr_categories = sorted_list_of_set (categories_of spaced (map cd_index (kept longest texts)) explicit i)\<rparr>
    = \<lparr>sr_index = i, sr_text = texts ! i, sr_bytes = length (utf8_bytes (texts ! i)),
        sr_categories = (if i \<in> set spaced then [u ''evenly_spaced''] else [])
          @ (if i \<in> set explicit then [u ''explicit_truncation_candidate''] else [])
          @ (if i \<in> set (longest_indices texts longest) then [u ''longest''] else [])\<rparr>"
    unfolding m categories_sorted by simp
qed

text \<open>
  C38. The document sample. Whatever its arguments, \<open>select_document_sample\<close> raises exactly for invalid arguments or a
  wrong number of rows; otherwise it returns, in ascending order and with their texts, the evenly spaced rows, the
  explicit candidates and the longest rows of a global sort by UTF-8 length (ties by lowest index), although its
  heap only ever holds as many rows as were asked for.
\<close>

theorem document_sample_is_exact:
  "select_document_sample documents expected evenly longest truncated =
     (if expected \<le> 0 then Inl (ValueError ''expected_count must be positive'')
      else if longest < 0 then Inl (ValueError ''longest must be non-negative'')
      else if \<exists>i \<in> set truncated. i < 0 \<or> expected \<le> i then Inl (ValueError ''truncated document index is outside the corpus'')
      else and_then (evenly_spaced_indices expected evenly) (\<lambda>spaced.
        and_then (and_then documents iter_nonempty_lines) (\<lambda>texts.
        if int (length texts) \<noteq> expected then Inl (ValueError ''documents/cache row mismatch'')
        else let explicit = map nat (sorted_list_of_set (set truncated));
                 rows = sample_rows texts spaced (longest_indices texts (nat longest)) explicit
             in Inr (rows, summarize evenly longest explicit rows))))"
proof -
  let ?explicit = "sorted_list_of_set (set truncated)"
  have range: "(?explicit = [] \<or> \<not> (hd ?explicit < 0 \<or> expected \<le> last ?explicit))
      \<longleftrightarrow> \<not> (\<exists>i \<in> set truncated. i < 0 \<or> expected \<le> i)"
  proof (cases "?explicit = []")
    case False
    have "hd ?explicit \<in> set truncated" "last ?explicit \<in> set truncated"
      using hd_in_set [OF False] last_in_set [OF False] by simp_all
    moreover have "hd ?explicit \<le> i" if "i \<in> set truncated" for i
    proof -
      have "i \<in> set ?explicit" using that by simp
      then show ?thesis using sorted_sorted_list_of_set [of "set truncated"] by (cases ?explicit) auto
    qed
    moreover have "i \<le> last ?explicit" if "i \<in> set truncated" for i
    proof -
      have "i \<in> set ?explicit" using that by simp
      then show ?thesis using sorted_last_bound [OF sorted_sorted_list_of_set] by blast
    qed
    ultimately show ?thesis using False by (meson le_less_trans order_trans not_less)
  qed auto
  show ?thesis
  proof (cases "0 < expected \<and> 0 \<le> longest \<and> \<not> (\<exists>i \<in> set truncated. i < 0 \<or> expected \<le> i)")
    case False
    then show ?thesis
      by (cases "0 < expected"; cases "0 \<le> longest") (simp_all only: select_document_sample_def Let_def range require_def and_then_simps
          not_less not_le if_True if_False not_not refl simp_thms, auto)
  next
    case True
    show ?thesis
    proof (cases "and_then (evenly_spaced_indices expected evenly) (\<lambda>spaced. and_then (and_then documents iter_nonempty_lines) (\<lambda>texts. Inr (spaced, texts)))")
      case (Inl e)
      with True show ?thesis
        unfolding select_document_sample_def Let_def range
        by (cases "evenly_spaced_indices expected evenly"; cases "and_then documents iter_nonempty_lines") simp_all
    next
      case (Inr st)
      then obtain spaced texts where st: "evenly_spaced_indices expected evenly = Inr spaced" "and_then documents iter_nonempty_lines = Inr texts"
        by (auto simp: ok_simps)
      let ?nats = "map nat ?explicit"
      have sel: "select_document_sample documents expected evenly longest truncated =
          and_then (require (int (length texts) = expected) (ValueError ''documents/cache row mismatch'')) (\<lambda>_.
          and_then (require (set (map fst (direct_part (set spaced \<union> set ?nats) texts)) = set spaced \<union> set ?nats)
             (ValueError ''failed to load selected document rows'')) (\<lambda>_.
          let rows = map (\<lambda>i. \<lparr>sr_index = i, sr_text = fst (materialized (scan_documents (set spaced \<union> set ?nats) (nat longest) texts) i),
                sr_bytes = snd (materialized (scan_documents (set spaced \<union> set ?nats) (nat longest) texts) i),
                sr_categories = sorted_list_of_set (categories_of spaced (map cd_index (kept (nat longest) texts)) ?nats i)\<rparr>)
              (sorted_list_of_set (set spaced \<union> set (map cd_index (kept (nat longest) texts)) \<union> set ?nats))
          in Inr (rows, summarize evenly longest ?nats rows)))"
        unfolding select_document_sample_def Let_def range
        using True by (simp only: st and_then_simps require_def if_True simp_thms) (simp only: scan_documents_result scan.simps)
      show ?thesis
      proof (cases "int (length texts) = expected")
        case False
        with True show ?thesis unfolding sel by (simp add: st require_def)
      next
        case len: True
        have bound: "\<forall>i \<in> set spaced \<union> set ?nats. i < length texts"
          using spaced_bound [OF st(1)] True len by auto
        then have "set (map fst (direct_part (set spaced \<union> set ?nats) texts)) = set spaced \<union> set ?nats"
          by (auto simp: direct_part_def)
        with True len show ?thesis
          unfolding sel sample_rows_scan [OF bound] Let_def by (simp add: st)
      qed
    qed
  qed
qed

end
