(* ===== verification/ParityOrigin.thy ===== *)
theory ParityOrigin
  imports ParitySample NqArchive VectorCache GroundTruth
begin

text \<open>
  The truncation proof of \<open>validate_embedding_parity.py\<close>: the sampled rows are joined by identifier to the records of
  the published archive and prepared again (\<open>load_selected_document_ids\<close>, \<open>verify_document_origins\<close>). The theorem
  is that an accepted proof names, for every row, one record of the archive that the preparation turns into the text of
  the row, and lists exactly the rows whose record was cut at the byte budget. The rows are those of one sample,
  with distinct indices; a \<open>found\<close> set is a list.
\<close>

subsection \<open>The identifiers\<close>

definition id_step :: "nat set \<Rightarrow> nat \<times> (nat \<times> pystr) list \<Rightarrow> pystr \<Rightarrow> (nat \<times> (nat \<times> pystr) list) res" where
  "id_step selected_indices st line =
     (case st of (observed, selected) \<Rightarrow>
      let parts = split_on 9 (strip_line_end line) in
      and_then (require (length parts = 2) (ValueError ''invalid TSV row'')) (\<lambda>_.
      case py_int (parts ! 0) of None \<Rightarrow> Inl (ValueError ''non-integer row'') | Some position \<Rightarrow>
      and_then (require (position = int observed) (ValueError ''expected position'')) (\<lambda>_.
      and_then (require (parts ! 1 \<noteq> []) (ValueError ''empty corpus ID'')) (\<lambda>_.
      Inr (observed + 1, if nat position \<in> selected_indices then dict_set selected (nat position) (parts ! 1) else selected)))))"

definition load_selected_document_ids :: "bytes res \<Rightarrow> int \<Rightarrow> nat set \<Rightarrow> (nat \<times> pystr) list res" where
  "load_selected_document_ids document_ids expected_count selected_indices =
     and_then (and_then document_ids utf8_decode) (\<lambda>content.
     and_then (fold_res (id_step selected_indices) (0, []) (lines_universal [] content)) (\<lambda>(observed, selected).
     and_then (require (int observed = expected_count) (ValueError ''document ID/cache row mismatch'')) (\<lambda>_.
     and_then (require (fst ` set selected = selected_indices) (ValueError ''document ID file omitted selected rows'')) (\<lambda>_.
     Inr selected))))"

subsection \<open>The records\<close>

record origin =
  og_id :: pystr
  og_original :: nat
  og_truncated :: bool

definition found_names :: "(nat \<times> origin) list \<Rightarrow> pystr list" where
  "found_names found = map (\<lambda>e. og_id (snd e)) found"

text \<open>What the loop reads: the index of every identifier, the rows, and the byte budget.\<close>

record join_input =
  jn_index :: "(pystr \<times> nat) list"
  jn_rows :: "sample_row list"
  jn_budget :: nat

definition row_at :: "join_input \<Rightarrow> nat \<Rightarrow> sample_row option" where
  "row_at j position = map_of (map (\<lambda>r. (sr_index r, r)) (jn_rows j)) position"

text \<open>A selected record: its row gets the identifier and the flags.\<close>

definition join_selected :: "join_input \<Rightarrow> (nat \<times> origin) list \<Rightarrow> jobj \<Rightarrow> pystr \<Rightarrow> nat \<Rightarrow> (nat \<times> origin) list res" where
  "join_selected j found m name position =
     and_then (require (name \<notin> set (found_names found)) (ValueError ''duplicate selected corpus ID'')) (\<lambda>_.
     and_then (document_text m (jn_budget j)) (\<lambda>prepared.
     case row_at j position of None \<Rightarrow> Inl (KeyError ''rows_by_index'') | Some row \<Rightarrow>
     and_then (require (pd_text prepared = sr_text row) (ValueError ''prepared document differs from source'')) (\<lambda>_.
     Inr (found @ [(position, \<lparr>og_id = name, og_original = pd_original_bytes prepared, og_truncated = pd_truncated prepared\<rparr>)]))))"

definition record_of :: "host \<Rightarrow> py \<Rightarrow> bytes \<Rightarrow> (jobj \<times> pystr) res" where
  "record_of h py raw =
     (case loads h raw of
        None \<Rightarrow> Inl (ValueError ''invalid JSONL'')
      | Some v \<Rightarrow> (case v of
            JObj m \<Rightarrow> (case map_of m (u ''_id'') of
              None \<Rightarrow> Inl (ValueError ''record has no _id'')
            | Some i \<Rightarrow> Inr (m, py_str py i))
          | _ \<Rightarrow> Inl (ValueError ''record has no _id'')))"

text \<open>The loop over the lines, which stops once every identifier was found.\<close>

fun join_lines :: "host \<Rightarrow> py \<Rightarrow> join_input \<Rightarrow> (nat \<times> origin) list \<Rightarrow> bytes list \<Rightarrow> (nat \<times> origin) list res" where
  "join_lines h py j found [] = Inr found"
| "join_lines h py j found (raw # rest) =
     and_then (record_of h py raw) (\<lambda>(m, name).
     case map_of (jn_index j) name of
       None \<Rightarrow> join_lines h py j found rest
     | Some position \<Rightarrow>
         and_then (join_selected j found m name position) (\<lambda>found'.
         if length found' = length (jn_index j) then Inr found' else join_lines h py j found' rest))"

definition is_corpus_member :: "zip_member \<Rightarrow> bool" where
  "is_corpus_member z \<longleftrightarrow> \<not> endswith (zm_name z) (u ''/'')
     \<and> posix_components (zm_name z) \<noteq> [] \<and> last (posix_components (zm_name z)) = u ''corpus.jsonl''"

record truncation_proof =
  tp_member :: pystr
  tp_checked :: nat
  tp_indices :: "nat list"

definition verify_document_origins ::
  "host \<Rightarrow> py \<Rightarrow> zip_member list res \<Rightarrow> bytes res \<Rightarrow> sample_row list \<Rightarrow> int \<Rightarrow> nat \<Rightarrow> (truncation_proof \<times> (nat \<times> origin) list) res" where
  "verify_document_origins h py archive document_ids rows expected_count budget =
     and_then (load_selected_document_ids document_ids expected_count (sr_index ` set rows)) (\<lambda>ids.
     let index_by_id = map prod.swap ids in
     and_then (require (distinct (map fst index_by_id)) (ValueError ''selected corpus IDs are not unique'')) (\<lambda>_.
     and_then archive (\<lambda>members.
     case filter is_corpus_member members of
       [member] \<Rightarrow>
         and_then (zm_data member) (\<lambda>content.
         and_then (join_lines h py \<lparr>jn_index = index_by_id, jn_rows = rows, jn_budget = budget\<rparr> [] (lines_keep 10 content)) (\<lambda>found.
         and_then (require (fst ` set index_by_id \<subseteq> set (found_names found)) (ValueError ''selected corpus IDs were not found'')) (\<lambda>_.
         let truncated = map sr_index (filter (\<lambda>r. case map_of found (sr_index r) of Some g \<Rightarrow> og_truncated g | None \<Rightarrow> False) rows) in
         and_then (require (truncated \<noteq> []) (ValueError ''sample contains no source-verified truncated row'')) (\<lambda>_.
         Inr (\<lparr>tp_member = zm_name member, tp_checked = length rows, tp_indices = truncated\<rparr>, found)))))
     | _ \<Rightarrow> Inl (ValueError ''expected exactly one corpus.jsonl member''))))"

subsection \<open>What the identifier file says\<close>

text \<open>Line \<open>i\<close> of the file names document \<open>i\<close>.\<close>

definition names_document :: "pystr \<Rightarrow> nat \<Rightarrow> pystr \<Rightarrow> bool" where
  "names_document content i name \<longleftrightarrow> i < length (lines_universal [] content) \<and>
     (\<exists>position. split_on 9 (strip_line_end (lines_universal [] content ! i)) = [position, name] \<and> py_int position = Some (int i))"

lemma id_step_ok:
  assumes "id_step S (n, sel) line = Inr (n', sel')"
  shows "\<exists>position name. n' = Suc n \<and> split_on 9 (strip_line_end line) = [position, name] \<and> py_int position = Some (int n)
    \<and> sel' = (if n \<in> S then dict_set sel n name else sel)"
proof -
  have "length (split_on 9 (strip_line_end line)) = 2" using assms by (auto simp: id_step_def Let_def ok_simps)
  then obtain position name where p: "split_on 9 (strip_line_end line) = [position, name]"
    by (metis (no_types, lifting) One_nat_def Suc_1 length_0_conv length_Suc_conv)
  with assms show ?thesis by (auto simp: id_step_def Let_def ok_simps)
qed

lemma id_lines:
  assumes "fold_res (id_step S) (n, sel) ls = Inr (n', sel')"
  shows "n' = n + length ls
    \<and> (\<forall>i name. map_of sel' i = Some name \<longrightarrow> map_of sel i = Some name \<or>
         (n \<le> i \<and> i < n' \<and> (\<exists>position. split_on 9 (strip_line_end (ls ! (i - n))) = [position, name] \<and> py_int position = Some (int i))))
    \<and> (distinct (map fst sel) \<longrightarrow> distinct (map fst sel'))"
  using assms
proof (induction ls arbitrary: n sel)
  case (Cons line ls)
  then obtain n1 sel1 where s: "id_step S (n, sel) line = Inr (n1, sel1)" and r: "fold_res (id_step S) (n1, sel1) ls = Inr (n', sel')"
    by (auto split: sum.splits)
  from id_step_ok [OF s] obtain position name where l: "n1 = Suc n" "split_on 9 (strip_line_end line) = [position, name]"
      "py_int position = Some (int n)" "sel1 = (if n \<in> S then dict_set sel n name else sel)" by blast
  note IH = Cons.IH [OF r]
  have "map_of sel i = Some x \<or> n \<le> i \<and> i < n' \<and> (\<exists>p. split_on 9 (strip_line_end ((line # ls) ! (i - n))) = [p, x] \<and> py_int p = Some (int i))"
    if "map_of sel' i = Some x" for i x
  proof -
    from IH that consider "map_of sel1 i = Some x"
      | "n1 \<le> i" "i < n'" "\<exists>p. split_on 9 (strip_line_end (ls ! (i - n1))) = [p, x] \<and> py_int p = Some (int i)" by blast
    then show ?thesis
    proof cases
      case 1
      have n': "n < n'" using IH l(1) by simp
      show ?thesis
      proof (cases "i = n \<and> n \<in> S")
        case True
        with 1 l n' show ?thesis by simp
      next
        case False
        with 1 l(4) show ?thesis by (auto split: if_splits)
      qed
    next
      case 2
      with l have "(line # ls) ! (i - n) = ls ! (i - n1)" by (auto simp: nth_Cons')
      with 2 l show ?thesis by auto
    qed
  qed
  with IH l show ?case by auto
qed simp

lemma load_selected_document_ids_ok:
  assumes "load_selected_document_ids document_ids expected S = Inr ids"
  obtains content raw where "document_ids = Inr raw" and "utf8_decode raw = Inr content"
    and "fst ` set ids = S" and "distinct (map fst ids)" and "int (length (lines_universal [] content)) = expected"
    and "\<And>i name. map_of ids i = Some name \<Longrightarrow> names_document content i name"
proof -
  from assms obtain raw content observed where f: "document_ids = Inr raw" "utf8_decode raw = Inr content"
      "fold_res (id_step S) (0, []) (lines_universal [] content) = Inr (observed, ids)" "int observed = expected" "fst ` set ids = S"
    by (auto simp: load_selected_document_ids_def ok_simps split: prod.splits)
  from id_lines [OF f(3)] have "observed = length (lines_universal [] content)" "distinct (map fst ids)"
      "\<And>i name. map_of ids i = Some name \<Longrightarrow> names_document content i name"
    by (auto simp: names_document_def)
  with f that show thesis by blast
qed

subsection \<open>The join\<close>

text \<open>What one joined record says: the record is in the archive, and preparing it gives the text of its row.\<close>

definition join_holds :: "host \<Rightarrow> py \<Rightarrow> join_input \<Rightarrow> bytes set \<Rightarrow> nat \<times> origin \<Rightarrow> bool" where
  "join_holds h py j raws e \<longleftrightarrow>
     (\<exists>raw m d r. raw \<in> raws \<and> record_of h py raw = Inr (m, og_id (snd e)) \<and> map_of (jn_index j) (og_id (snd e)) = Some (fst e)
        \<and> document_text m (jn_budget j) = Inr d \<and> row_at j (fst e) = Some r \<and> pd_text d = sr_text r
        \<and> og_truncated (snd e) = pd_truncated d \<and> og_original (snd e) = pd_original_bytes d)"

lemma join_lines_joined:
  assumes "join_lines h py j found ls = Inr found'" and "set ls \<subseteq> raws" and "\<forall>e \<in> set found. join_holds h py j raws e"
    and "distinct (found_names found)"
  shows "(\<forall>e \<in> set found'. join_holds h py j raws e) \<and> distinct (found_names found')"
  using assms
proof (induction ls arbitrary: found)
  case (Cons raw rest)
  from Cons.prems(1) obtain m name where rec: "record_of h py raw = Inr (m, name)" by (auto simp: ok_simps)
  show ?case
  proof (cases "map_of (jn_index j) name")
    case None
    with Cons.prems rec show ?thesis by (intro Cons.IH [of found]) simp_all
  next
    case (Some position)
    with Cons.prems(1) rec obtain found1 where sel: "join_selected j found m name position = Inr found1"
      and rest: "(if length found1 = length (jn_index j) then Inr found1 else join_lines h py j found1 rest) = Inr found'"
      by (auto simp: ok_simps)
    from sel obtain d r where d: "name \<notin> set (found_names found)" "document_text m (jn_budget j) = Inr d" "row_at j position = Some r"
        "pd_text d = sr_text r" "found1 = found @ [(position, \<lparr>og_id = name, og_original = pd_original_bytes d, og_truncated = pd_truncated d\<rparr>)]"
      by (auto simp: join_selected_def ok_simps)
    have "join_holds h py j raws (position, \<lparr>og_id = name, og_original = pd_original_bytes d, og_truncated = pd_truncated d\<rparr>)"
      unfolding join_holds_def using Cons.prems(2) rec Some d by (intro exI [of _ raw] exI [of _ m] exI [of _ d] exI [of _ r]) simp
    with Cons.prems d have all: "\<forall>e \<in> set found1. join_holds h py j raws e" "distinct (found_names found1)" by (auto simp: found_names_def)
    show ?thesis
    proof (cases "length found1 = length (jn_index j)")
      case True
      with rest all show ?thesis by simp
    next
      case False
      with rest Cons.prems(2) all show ?thesis by (intro Cons.IH [of found1]) simp_all
    qed
  qed
qed simp

lemma row_at_ok: "row_at j i = Some r \<Longrightarrow> r \<in> set (jn_rows j) \<and> sr_index r = i"
  by (auto simp: row_at_def dest!: map_of_SomeD)

lemma row_at_self: "distinct (map sr_index (jn_rows j)) \<Longrightarrow> r \<in> set (jn_rows j) \<Longrightarrow> row_at j (sr_index r) = Some r"
  unfolding row_at_def by (rule map_of_is_SomeI) (auto simp: comp_def)

lemma fst_swapped [simp]: "map (fst \<circ> prod.swap) xs = map snd xs" "fst ` prod.swap ` A = snd ` A"
  by (simp_all add: comp_def image_comp)

lemma verify_document_origins_ok:
  assumes "verify_document_origins h py archive document_ids rows expected budget = Inr (tp, found)"
  obtains ids members member content where "load_selected_document_ids document_ids expected (sr_index ` set rows) = Inr ids"
    and "distinct (map snd ids)" and "archive = Inr members" and "filter is_corpus_member members = [member]"
    and "zm_data member = Inr content"
    and "join_lines h py \<lparr>jn_index = map prod.swap ids, jn_rows = rows, jn_budget = budget\<rparr> [] (lines_keep 10 content) = Inr found"
    and "set (map snd ids) \<subseteq> set (found_names found)" and "tp_indices tp \<noteq> []"
    and "tp_indices tp = map sr_index (filter (\<lambda>r. case map_of found (sr_index r) of Some g \<Rightarrow> og_truncated g | None \<Rightarrow> False) rows)"
    and "tp_member tp = zm_name member" and "tp_checked tp = length rows"
proof -
  from assms obtain ids members where a: "load_selected_document_ids document_ids expected (sr_index ` set rows) = Inr ids"
      "distinct (map snd ids)" "archive = Inr members"
    by (auto simp: verify_document_origins_def Let_def ok_simps)
  from assms a obtain member where m: "filter is_corpus_member members = [member]"
    by (auto simp: verify_document_origins_def Let_def require_def split: list.splits)
  with assms a show thesis
    by (auto simp: verify_document_origins_def Let_def ok_simps intro!: that)
qed

lemma truncated_budget: "document_text m n = Inr d \<Longrightarrow> pd_truncated d \<longleftrightarrow> n < pd_original_bytes d"
proof (erule document_text_spec)
  fix title body
  assume "truncate_utf8 (document_prefix @ document_content title body) n = Inr (pd_text d, pd_truncated d)"
    and "pd_original_bytes d = length (utf8_bytes (document_prefix @ document_content title body))"
  then show "pd_truncated d \<longleftrightarrow> n < pd_original_bytes d" using truncate_utf8_spec(4) by metis
qed

lemma distinct_map_snd_unique: "distinct (map snd xs) \<Longrightarrow> (i, v) \<in> set xs \<Longrightarrow> (k, v) \<in> set xs \<Longrightarrow> i = k"
  by (induction xs) force+

lemma swapped_lookup: "distinct (map fst ids) \<Longrightarrow> map_of (map prod.swap ids) name = Some i \<Longrightarrow> map_of ids i = Some name"
  by (rule map_of_is_SomeI) (auto dest!: map_of_SomeD)

text \<open>
  C37. The truncation proof. When \<open>verify_document_origins\<close> accepts a sample, then every row is the prepared form of a
  record of the one corpus file in the archive: the line of the identifier file at the index of the row names the record, and
  preparing the record at the byte budget gives the text of the row. The proof lists, in the order of the sample, exactly
  the rows whose prepared text was longer than the budget, and there is at least one.
\<close>

theorem truncation_proof_is_sound:
  assumes "verify_document_origins h py archive document_ids rows expected budget = Inr (tp, found)" and "distinct (map sr_index rows)"
  shows "\<exists>members member raw_ids ids content. archive = Inr members \<and> filter is_corpus_member members = [member] \<and> zm_data member = Inr content
    \<and> document_ids = Inr raw_ids \<and> utf8_decode raw_ids = Inr ids \<and> int (length (lines_universal [] ids)) = expected
    \<and> (\<forall>r \<in> set rows. \<exists>raw m name d. raw \<in> set (lines_keep 10 content) \<and> record_of h py raw = Inr (m, name)
         \<and> names_document ids (sr_index r) name \<and> document_text m budget = Inr d \<and> pd_text d = sr_text r
         \<and> (sr_index r \<in> set (tp_indices tp) \<longleftrightarrow> budget < pd_original_bytes d))
    \<and> tp_indices tp = filter (\<lambda>i. i \<in> set (tp_indices tp)) (map sr_index rows) \<and> tp_indices tp \<noteq> []"
proof -
  from assms(1) obtain named members member content where
    n: "load_selected_document_ids document_ids expected (sr_index ` set rows) = Inr named" "distinct (map snd named)"
    and a: "archive = Inr members" "filter is_corpus_member members = [member]" "zm_data member = Inr content"
    and j: "join_lines h py \<lparr>jn_index = map prod.swap named, jn_rows = rows, jn_budget = budget\<rparr> [] (lines_keep 10 content) = Inr found"
    and all: "set (map snd named) \<subseteq> set (found_names found)" and ne: "tp_indices tp \<noteq> []"
    and tp: "tp_indices tp = map sr_index (filter (\<lambda>r. case map_of found (sr_index r) of Some g \<Rightarrow> og_truncated g | None \<Rightarrow> False) rows)"
    by (rule verify_document_origins_ok)
  obtain ids raw_ids where f: "document_ids = Inr raw_ids" "utf8_decode raw_ids = Inr ids" "fst ` set named = sr_index ` set rows"
      "distinct (map fst named)" "int (length (lines_universal [] ids)) = expected" "\<And>i name. map_of named i = Some name \<Longrightarrow> names_document ids i name"
    using load_selected_document_ids_ok [OF n(1)] by metis
  let ?j = "\<lparr>jn_index = map prod.swap named, jn_rows = rows, jn_budget = budget\<rparr>" and ?raws = "set (lines_keep 10 content)"
  have holds: "join_holds h py ?j ?raws e" if "e \<in> set found" for e
    using join_lines_joined [OF j order_refl] that by (simp add: found_names_def)
  define cut_row where "cut_row i = (case map_of found i of Some g \<Rightarrow> og_truncated g | None \<Rightarrow> False)" for i
  have tp': "tp_indices tp = filter cut_row (map sr_index rows)" unfolding tp cut_row_def by (simp add: filter_map comp_def)
  have "\<exists>raw m name d. raw \<in> ?raws \<and> record_of h py raw = Inr (m, name)
         \<and> names_document ids (sr_index r) name \<and> document_text m budget = Inr d \<and> pd_text d = sr_text r
         \<and> (sr_index r \<in> set (tp_indices tp) \<longleftrightarrow> budget < pd_original_bytes d)" if r: "r \<in> set rows" for r
  proof -
    let ?i = "sr_index r"
    from r f(3) obtain name where "map_of named ?i = Some name" by (metis imageI map_of_eq_None_iff option.exhaust)
    then have "name \<in> set (map snd named)" by (force dest: map_of_SomeD)
    with all obtain e where e: "e \<in> set found" "og_id (snd e) = name" by (auto simp: found_names_def)
    from holds [OF e(1)] e(2) have "map_of (map prod.swap named) name = Some (fst e)" by (auto simp: join_holds_def)
    then have "map_of named (fst e) = Some name" by (rule swapped_lookup [OF f(4)])
    with \<open>map_of named ?i = Some name\<close> n(2) have "fst e = ?i"
      by (metis map_of_SomeD distinct_map_snd_unique)
    with e(1) obtain g where g: "map_of found ?i = Some g" by (metis map_of_eq_None_iff imageI option.exhaust)
    from holds [OF map_of_SomeD [OF g]] obtain raw m d r' where h: "raw \<in> ?raws" "record_of h py raw = Inr (m, og_id g)"
        "map_of (map prod.swap named) (og_id g) = Some ?i" "document_text m budget = Inr d" "row_at ?j ?i = Some r'" "pd_text d = sr_text r'"
        "og_truncated g = pd_truncated d"
      by (auto simp: join_holds_def)
    have "r' = r" using row_at_self [of ?j r] assms(2) r h(5) by simp
    moreover have "names_document ids ?i (og_id g)" using f(6) swapped_lookup [OF f(4) h(3)] by blast
    moreover have "?i \<in> set (tp_indices tp) \<longleftrightarrow> pd_truncated d" using g h(7) r by (auto simp: tp' cut_row_def)
    ultimately show ?thesis using h truncated_budget [OF h(4)] by blast
  qed
  moreover have "tp_indices tp = filter (\<lambda>i. i \<in> set (tp_indices tp)) (map sr_index rows)"
    unfolding tp' by (rule filter_cong) auto
  ultimately show ?thesis using a f(1,2,5) ne by blast
qed

text \<open>One sampled row, cut at twenty bytes.\<close>

definition cut_record :: jobj where
  "cut_record = jobj [(''_id'', JStr (u ''d'')), (''title'', JStr (u ''A'')), (''text'', JStr (u ''b  c''))]"

definition cut_text :: pystr where "cut_text = u ''search_document: A.''"

definition origin_ids :: bytes where "origin_ids = utf8_bytes (concat (map (\<lambda>l. l @ [10]) [dec_nat 0 @ [9, 100]]))"

definition cut_archive :: "byte \<Rightarrow> zip_member list" where "cut_archive b = [plain_member ''nq/corpus.jsonl'' [b]]"

lemma cut_archive_member: "filter is_corpus_member (cut_archive b) = [plain_member ''nq/corpus.jsonl'' [b]]"
  "zm_data (plain_member ''nq/corpus.jsonl'' [b]) = Inr [b]" "zm_name (plain_member ''nq/corpus.jsonl'' [b]) = u ''nq/corpus.jsonl''"
  "lines_keep 10 [b] = [[b]]"
proof -
  have "is_corpus_member (plain_member ''nq/corpus.jsonl'' [b])"
    by (simp add: is_corpus_member_def plain_member_def posix_components_def u_def endswith_def suffix_to_prefix)
  then show "filter is_corpus_member (cut_archive b) = [plain_member ''nq/corpus.jsonl'' [b]]" by (simp add: cut_archive_def)
qed (simp_all add: plain_member_def lines_keep.simps)

lemma cut_record_of: "loads h [b] = Some (JObj cut_record) \<Longrightarrow> record_of h py [b] = Inr (cut_record, u ''d'')"
  by (simp add: record_of_def cut_record_def py_str_def jobj_def)

lemma cut_row_verified:
  assumes "loads h [b] = Some (JObj cut_record)" and "sr_index r = 0" and "sr_text r = cut_text"
  shows "verify_document_origins h py (Inr (cut_archive b)) (Inr origin_ids) [r] 1 20
      = Inr (\<lparr>tp_member = u ''nq/corpus.jsonl'', tp_checked = 1, tp_indices = [0]\<rparr>, [(0, \<lparr>og_id = u ''d'', og_original = 23, og_truncated = True\<rparr>)])"
proof -
  have zero: "dec_nat 0 = [48]" by (simp add: dec_nat.simps)
  have py: "py_int (dec_nat 0) = Some 0" using py_int_short [OF short_nat_bound, of 0] by simp
  have "utf8_decode origin_ids = Inr [48, 9, 100, 10]"
    unfolding origin_ids_def by (subst utf8_decode_bytes) (simp_all add: zero is_scalar_def)
  moreover have "lines_universal [] [48, 9, 100, 10] = [[48, 9, 100, 10]]" by simp
  moreover have "id_step {0} (0, []) [48, 9, 100, 10] = Inr (1, [(0, u ''d'')])"
    using py by (simp add: id_step_def strip_line_end_def Let_def require_def zero u_def)
  ultimately have ids: "load_selected_document_ids (Inr origin_ids) 1 {0} = Inr [(0, u ''d'')]"
    by (simp add: load_selected_document_ids_def require_def)
  have "get_text cut_record ''title'' = JStr (u ''A'')" "get_text cut_record ''text'' = JStr (u ''b  c'')"
    by (simp_all add: get_text_def cut_record_def)
  note doc = cut_document [OF this]
  have join: "join_lines h py \<lparr>jn_index = [(u ''d'', 0)], jn_rows = [r], jn_budget = 20\<rparr> [] [[b]]
      = Inr [(0, \<lparr>og_id = u ''d'', og_original = 23, og_truncated = True\<rparr>)]"
    using doc cut_record_of [OF assms(1)] assms(2,3) by (simp add: join_selected_def found_names_def require_def row_at_def cut_text_def)
  have swap: "map prod.swap [(0 :: nat, u ''d'')] = [(u ''d'', 0)]" by simp
  show ?thesis
    using ids join assms(2)
    by (simp add: verify_document_origins_def cut_archive_member Let_def require_def found_names_def swap del: join_lines.simps list.map) simp
qed

definition origin_host :: host where
  "origin_host = plain_host\<lparr>loads := \<lambda>_. Some (JObj cut_record)\<rparr>"

definition cut_sample :: sample_row where
  "cut_sample = \<lparr>sr_index = 0, sr_text = cut_text, sr_bytes = 19, sr_categories = [u ''longest'']\<rparr>"

theorem truncation_proof_is_sound_witness:
  "\<exists>tp found. verify_document_origins origin_host sample_py (Inr (cut_archive 1)) (Inr origin_ids) [cut_sample] 1 20
      = Inr (tp, found) \<and> tp_indices tp = [0]
    \<and> (\<exists>m d. record_of origin_host sample_py [1] = Inr (m, u ''d'') \<and> document_text m 20 = Inr d \<and> pd_text d = sr_text cut_sample)"
proof -
  let ?tp = "\<lparr>tp_member = u ''nq/corpus.jsonl'', tp_checked = 1, tp_indices = [0]\<rparr>"
  have l: "loads origin_host [1] = Some (JObj cut_record)" by (simp add: origin_host_def)
  have v: "verify_document_origins origin_host sample_py (Inr (cut_archive 1)) (Inr origin_ids) [cut_sample] 1 20
      = Inr (?tp, [(0, \<lparr>og_id = u ''d'', og_original = 23, og_truncated = True\<rparr>)])"
    using l by (rule cut_row_verified) (simp_all add: cut_sample_def)
  have "distinct (map sr_index [cut_sample])" by simp
  from truncation_proof_is_sound [OF v this] obtain members member content ids where
    m: "(Inr (cut_archive 1) :: zip_member list res) = Inr members" "filter is_corpus_member members = [member]" "zm_data member = Inr content"
    and all: "\<forall>r \<in> set [cut_sample]. \<exists>raw m name d. raw \<in> set (lines_keep 10 content) \<and> record_of origin_host sample_py raw = Inr (m, name)
      \<and> names_document ids (sr_index r) name \<and> document_text m 20 = Inr d \<and> pd_text d = sr_text r
      \<and> (sr_index r \<in> set [0] \<longleftrightarrow> 20 < pd_original_bytes d)"
    unfolding truncation_proof.simps by (elim exE conjE) (rule that)
  then have r: "\<exists>raw m name d. raw \<in> set (lines_keep 10 content) \<and> record_of origin_host sample_py raw = Inr (m, name)
      \<and> document_text m 20 = Inr d \<and> pd_text d = sr_text cut_sample" by (meson list.set_intros(1))
  from m have "member = plain_member ''nq/corpus.jsonl'' [1]" by (auto simp: cut_archive_member)
  with m(3) have "content = [1]" by (simp add: cut_archive_member)
  with r cut_record_of [OF l] have "\<exists>m d. record_of origin_host sample_py [1] = Inr (m, u ''d'') \<and> document_text m 20 = Inr d \<and> pd_text d = sr_text cut_sample"
    by (auto simp: cut_archive_member)
  with v show ?thesis by auto
qed

end
