(* ===== verification/ParityRun.thy ===== *)
theory ParityRun
  imports ParityReport ParityOrigin CacheGen
begin

text \<open>
  The comparison and the run of \<open>validate_embedding_parity.py\<close>: the fixture of all queries and the sampled documents,
  \<open>compare_embeddings\<close>, \<open>load_sidecar\<close>, \<open>write_line_file\<close>, \<open>command_observation\<close> and \<open>main\<close>. The reader of the ZIP
  archive, the effect of the native program and the dimension of a largest difference are parameters. The lemmas show that the
  collector accepts the metrics of a report that passed, and that a report passes only on vectors that reach the threshold.
\<close>

subsection \<open>The fixture\<close>

record fixture_row =
  fx_kind :: pystr
  fx_index :: nat
  fx_text :: pystr
  fx_bytes :: nat
  fx_categories :: "pystr list"
  fx_origin :: "origin option"

definition query_row :: "nat \<Rightarrow> pystr \<Rightarrow> fixture_row" where
  "query_row index text = \<lparr>fx_kind = u ''query'', fx_index = index, fx_text = text, fx_bytes = length (utf8_bytes text),
     fx_categories = [u ''all_queries''], fx_origin = None\<rparr>"

definition document_row :: "(nat \<times> origin) list \<Rightarrow> sample_row \<Rightarrow> fixture_row" where
  "document_row found r = \<lparr>fx_kind = u ''document'', fx_index = sr_index r, fx_text = sr_text r, fx_bytes = sr_bytes r,
     fx_categories = (case map_of found (sr_index r) of
        Some g \<Rightarrow> if og_truncated g then sorted_list_of_set (insert (u ''source_verified_truncated'') (set (sr_categories r))) else sr_categories r
      | None \<Rightarrow> sr_categories r),
     fx_origin = map_of found (sr_index r)\<rparr>"

definition fixture_rows :: "pystr list \<Rightarrow> (nat \<times> origin) list \<Rightarrow> sample_row list \<Rightarrow> fixture_row list" where
  "fixture_rows queries found sample = map (\<lambda>(i, t). query_row i t) (zip [0..<length queries] queries) @ map (document_row found) sample"

text \<open>\<open>{key: value for key, value in row.items() if key != "text"}\<close>\<close>

definition row_json :: "fixture_row \<Rightarrow> jobj" where
  "row_json r = jobj
     ([(''kind'', JStr (fx_kind r)), (''source_index'', JInt (int (fx_index r))), (''utf8_bytes'', JInt (int (fx_bytes r))),
       (''categories'', JArr (map JStr (fx_categories r)))]
      @ (case fx_origin r of None \<Rightarrow> [] | Some g \<Rightarrow>
          [(''corpus_id'', JStr (og_id g)), (''original_prepared_utf8_bytes'', JInt (int (og_original g))),
           (''source_verified_truncated'', JBool (og_truncated g))]))"

subsection \<open>The comparison\<close>

text \<open>The first position of a value, as \<open>argmin\<close> and \<open>argmax\<close> find it.\<close>

definition first_position :: "pyfloat \<Rightarrow> pyfloat list \<Rightarrow> nat" where
  "first_position x xs = length (takeWhile (\<lambda>y. y \<noteq> x) xs)"

definition kind_metrics :: "vector_tools \<Rightarrow> (bytes \<times> bytes) list \<Rightarrow> json" where
  "kind_metrics vt own = JObj (jobj
     [(''rows'', JInt (int (length own))), (''minimum_cosine_similarity'', JFloat (fl_min (cosines vt own))),
      (''maximum_absolute_difference'', JFloat (fl_max (differences vt own)))])"

definition by_kind_json :: "vector_tools \<Rightarrow> pystr list \<Rightarrow> (bytes \<times> bytes) list \<Rightarrow> jobj" where
  "by_kind_json vt kinds pairs = map (\<lambda>k. (k, kind_metrics vt (rows_of_kind kinds k pairs))) (sorted_list_of_set (set kinds))"

definition worst_cosine_json :: "vector_tools \<Rightarrow> fixture_row list \<Rightarrow> (bytes \<times> bytes) list \<Rightarrow> jobj" where
  "worst_cosine_json vt rows pairs =
     (let cs = cosines vt pairs; worst = first_position (fl_min cs) cs in
      row_json (rows ! worst) @ jobj
        [(''fixture_index'', JInt (int worst)), (''cosine_similarity'', JFloat (cs ! worst)),
         (''maximum_absolute_difference'', JFloat (differences vt pairs ! worst))])"

definition worst_component_json :: "vector_tools \<Rightarrow> (bytes \<Rightarrow> bytes \<Rightarrow> nat) \<Rightarrow> fixture_row list \<Rightarrow> (bytes \<times> bytes) list \<Rightarrow> jobj" where
  "worst_component_json vt worst_dimension rows pairs =
     (let ds = differences vt pairs; worst = first_position (fl_max ds) ds in
      row_json (rows ! worst) @ jobj
        [(''fixture_index'', JInt (int worst)), (''dimension'', JInt (int (worst_dimension (fst (pairs ! worst)) (snd (pairs ! worst))))),
         (''absolute_difference'', JFloat (ds ! worst))])"

definition compare_embeddings ::
  "numerics \<Rightarrow> vector_tools \<Rightarrow> (pyfloat list \<Rightarrow> pyfloat) \<Rightarrow> (bytes \<Rightarrow> bytes \<Rightarrow> nat) \<Rightarrow> nat \<Rightarrow> bytes list \<Rightarrow> nat \<Rightarrow> bytes list \<Rightarrow> fixture_row list \<Rightarrow> jobj res" where
  "compare_embeddings np vt mean worst_dimension width reference native_width native rows =
     and_then (require (length reference = length native \<and> width = native_width) (ValueError ''embedding shape mismatch'')) (\<lambda>_.
     and_then (require (length reference = length rows) (ValueError ''row metadata does not match the embedding matrices'')) (\<lambda>_.
     and_then (validate_vector_matrix np False 8192 (fl_lit 2 3) width reference) (\<lambda>_.
     and_then (validate_vector_matrix np False 8192 (fl_lit 2 3) native_width native) (\<lambda>_.
     let pairs = zip reference native in
     Inr (jobj
       [(''rows'', JInt (int (length reference))), (''dimensions'', JInt (int width)),
        (''minimum_cosine_similarity'', JFloat (fl_min (cosines vt pairs))), (''mean_cosine_similarity'', JFloat (mean (cosines vt pairs))),
        (''maximum_absolute_difference'', JFloat (fl_max (differences vt pairs))),
        (''by_kind'', JObj (by_kind_json vt (map fx_kind rows) pairs)),
        (''worst_cosine_row'', JObj (worst_cosine_json vt rows pairs)),
        (''worst_absolute_component'', JObj (worst_component_json vt worst_dimension rows pairs))])))))"

subsection \<open>Side files\<close>

definition load_sidecar :: "host \<Rightarrow> fsys \<Rightarrow> pystr \<Rightarrow> string \<Rightarrow> pystr \<Rightarrow> json res" where
  "load_sidecar h d cache expected_role actual_cache_sha256 =
     and_then (require (path_exists d (sidecar_path cache)) (ValueError ''missing provenance sidecar'')) (\<lambda>_.
     and_then (load_json h d (sidecar_path cache)) (\<lambda>declared.
     and_then (json_get declared ''schema'') (\<lambda>schema.
     and_then (require (py_eq schema (JStr (u ''leann-shared-embedding-cache-v1''))) (ValueError ''unexpected schema'')) (\<lambda>_.
     and_then (json_get declared ''role'') (\<lambda>role.
     and_then (require (py_eq role (JStr (u expected_role))) (ValueError ''unexpected role'')) (\<lambda>_.
     and_then (json_get2 declared ''cache'' ''sha256'') (\<lambda>sha.
     and_then (require (py_eq sha (JStr actual_cache_sha256)) (ValueError ''cache SHA-256 mismatch'')) (\<lambda>_.
     Inr declared))))))))"

text \<open>The fixture files: non-empty single lines, replaced into place.\<close>

definition fixture_value :: "pystr \<Rightarrow> bool" where
  "fixture_value v \<longleftrightarrow> v \<noteq> [] \<and> 10 \<notin> set v \<and> 13 \<notin> set v"

definition write_line_file :: "world \<Rightarrow> pystr \<Rightarrow> pystr list \<Rightarrow> world res" where
  "write_line_file w path vs =
     and_then (require (list_all fixture_value vs) (ValueError ''fixture values must be non-empty single lines'')) (\<lambda>_.
     and_then (utf8_encode (concat (map (\<lambda>v. v @ [10]) vs))) (\<lambda>content.
     Inr (atomic_write_bytes w path content)))"

record completed =
  cp_code :: int
  cp_stdout :: pystr
  cp_stderr :: pystr
  cp_seconds :: pyfloat

definition command_observation :: "(world \<Rightarrow> pystr list \<Rightarrow> world \<times> completed) \<Rightarrow> world \<Rightarrow> pystr list \<Rightarrow> world \<times> json res" where
  "command_observation invoke w argv =
     (case invoke w argv of (w', result_) \<Rightarrow>
      (w', if cp_code result_ \<noteq> 0 then Inl (RuntimeError ''command failed'')
           else Inr (JObj (jobj [(''argv'', JArr (map JStr argv)), (''elapsed_seconds'', JFloat (cp_seconds result_)),
             (''returncode'', JInt (cp_code result_)), (''stdout'', JStr (cp_stdout result_)), (''stderr'', JStr (cp_stderr result_))]))))"

subsection \<open>The inputs of a run\<close>

record parity_args =
  pa_documents :: pystr
  pa_queries :: pystr
  pa_corpus_cache :: pystr
  pa_query_cache :: pystr
  pa_manifest :: pystr
  pa_archive :: pystr
  pa_ids :: pystr
  pa_tier :: pystr
  pa_binary :: pystr
  pa_model :: pystr
  pa_work :: pystr
  pa_output :: pystr
  pa_queries_expected :: int
  pa_spaced :: int
  pa_longest :: int
  pa_truncated :: "int list"
  pa_minimum :: pyfloat
  pa_ctx :: int
  pa_batch_tokens :: int
  pa_parallel :: int
  pa_threads :: int
  pa_gpu_layers :: int
  pa_truth_batch :: int

record parity_env =
  pe_host :: host
  pe_numerics :: numerics
  pe_vectors :: vector_tools
  pe_mean :: "pyfloat list \<Rightarrow> pyfloat"
  pe_worst :: "bytes \<Rightarrow> bytes \<Rightarrow> nat"
  pe_py :: py
  pe_zip :: "bytes \<Rightarrow> zip_member list res"
  pe_executable :: "pystr \<Rightarrow> bool"
  pe_now :: pystr

definition check_parity_args :: "parity_env \<Rightarrow> fsys \<Rightarrow> parity_args \<Rightarrow> unit res" where
  "check_parity_args env d a =
     and_then (require (0 < pa_queries_expected a) (ValueError ''--expected-queries must be positive'')) (\<lambda>_.
     and_then (require (fl_lt (Fin 0) (pa_minimum a) \<and> fl_le (pa_minimum a) (Fin 1)) (ValueError ''--minimum-cosine must be in (0, 1]'')) (\<lambda>_.
     and_then (require (0 < pa_ctx a \<and> 0 < pa_batch_tokens a \<and> 0 < pa_parallel a \<and> 0 < pa_truth_batch a)
        (ValueError ''native embedding sizes must be positive'')) (\<lambda>_.
     and_then (require (path_exists d (pa_binary a) \<and> pe_executable env (fs_resolve d (pa_binary a)))
        (ValueError ''--native-binary must be an executable file'')) (\<lambda>_.
     require (path_exists d (pa_model a)) (ValueError ''--native-model must be a file'')))))"

definition open_cache :: "parity_env \<Rightarrow> fsys \<Rightarrow> pystr \<Rightarrow> (bytes list \<times> cache_meta) res" where
  "open_cache env d path =
     and_then (open_rb d path) (read_cache (pe_host env) (pe_numerics env) (fs_resolve d path) False None 8192)"

record parity_caches =
  pc_corpus :: "bytes list"
  pc_corpus_meta :: cache_meta
  pc_vectors :: "bytes list"
  pc_query_meta :: cache_meta
  pc_documents :: source_id
  pc_queries :: source_id
  pc_corpus_sha :: pystr
  pc_query_sha :: pystr

definition parity_caches :: "parity_env \<Rightarrow> fsys \<Rightarrow> parity_args \<Rightarrow> parity_caches res" where
  "parity_caches env d a =
     (let h = pe_host env in
      and_then (open_cache env d (pa_corpus_cache a)) (\<lambda>(corpus, corpus_meta).
      and_then (open_cache env d (pa_query_cache a)) (\<lambda>(vectors, query_meta).
      and_then (validate_cache_source h d corpus_meta (pa_documents a) None True) (\<lambda>documents.
      and_then (validate_cache_source h d query_meta (pa_queries a) (Some (nat (pa_queries_expected a))) True) (\<lambda>queries.
      and_then (require (cm_version corpus_meta = 2 \<and> cm_version query_meta = 2)
         (ValueError ''embedding parity requires integrity-bound LEANNBC2 caches'')) (\<lambda>_.
      and_then (require (cm_dimensions corpus_meta = cm_dimensions query_meta \<and> cm_fingerprint corpus_meta = cm_fingerprint query_meta)
         (ValueError ''corpus/query cache model metadata differs'')) (\<lambda>_.
      and_then (sha256_file h d (pa_corpus_cache a) 0 None) (\<lambda>corpus_sha.
      and_then (sha256_file h d (pa_query_cache a) 0 None) (\<lambda>query_sha.
      Inr \<lparr>pc_corpus = corpus, pc_corpus_meta = corpus_meta, pc_vectors = vectors, pc_query_meta = query_meta,
        pc_documents = documents, pc_queries = queries, pc_corpus_sha = corpus_sha, pc_query_sha = query_sha\<rparr>)))))))))"

text \<open>The model that both sidecars declare is the native one: \<open>m.get("model", {})\<close>.\<close>

definition declared_model :: "json \<Rightarrow> json res" where
  "declared_model declared = (case declared of
     JObj m \<Rightarrow> Inr (case map_of m (u ''model'') of None \<Rightarrow> JObj [] | Some v \<Rightarrow> v)
   | _ \<Rightarrow> Inl (AttributeError ''get''))"

record parity_models =
  pm_corpus_declared :: json
  pm_query_declared :: json
  pm_model :: json
  pm_model_sha :: pystr

definition parity_models :: "parity_env \<Rightarrow> fsys \<Rightarrow> parity_args \<Rightarrow> parity_caches \<Rightarrow> parity_models res" where
  "parity_models env d a c =
     (let h = pe_host env in
      and_then (load_sidecar h d (fs_resolve d (pa_corpus_cache a)) ''corpus'' (pc_corpus_sha c)) (\<lambda>corpus_declared.
      and_then (load_sidecar h d (fs_resolve d (pa_query_cache a)) ''queries'' (pc_query_sha c)) (\<lambda>query_declared.
      and_then (json_get2 query_declared ''bindings'' ''corpus_cache_sha256'') (\<lambda>bound.
      and_then (require (py_eq bound (JStr (pc_corpus_sha c))) (ValueError ''query cache is not bound to the selected corpus cache'')) (\<lambda>_.
      and_then (declared_model corpus_declared) (\<lambda>model.
      and_then (declared_model query_declared) (\<lambda>query_model.
      and_then (json_get model ''sha256'') (\<lambda>x.
      and_then (json_get query_model ''sha256'') (\<lambda>y.
      and_then (require (py_eq x y) (ValueError ''query/corpus cache model identities differ'')) (\<lambda>_.
      and_then (json_get2 model ''artifact'' ''sha256'') (\<lambda>declared_sha.
      and_then (sha256_file h d (pa_model a) 0 None) (\<lambda>native_sha.
      and_then (require (py_eq declared_sha (JStr native_sha)) (ValueError ''native GGUF SHA-256 differs from the official-path cache model'')) (\<lambda>_.
      Inr \<lparr>pm_corpus_declared = corpus_declared, pm_query_declared = query_declared, pm_model = model, pm_model_sha = native_sha\<rparr>)))))))))))))"

text \<open>The tier of the dataset manifest: \<open>manifest.get(a, {}).get(k)\<close> with a key of the arguments, and a count that must be positive.\<close>

definition manifest_member :: "json \<Rightarrow> string \<Rightarrow> pystr \<Rightarrow> json res" where
  "manifest_member manifest a k = (case manifest of
     JObj m \<Rightarrow> (case map_of m (u a) of
         None \<Rightarrow> Inr JNull
       | Some (JObj t) \<Rightarrow> Inr (item t k)
       | Some _ \<Rightarrow> Inl (AttributeError ''get''))
   | _ \<Rightarrow> Inl (AttributeError ''get''))"

definition above_zero :: "json \<Rightarrow> bool res" where
  "above_zero v = (case v of
     JInt i \<Rightarrow> Inr (0 < i) | JBool b \<Rightarrow> Inr b | JFloat x \<Rightarrow> Inr (\<not> fl_le x (Fin 0)) | _ \<Rightarrow> Inl (TypeError ''<=''))"

definition truncated_documents :: "jobj \<Rightarrow> bool res" where
  "truncated_documents tier = (case map_of tier (u ''truncation'') of
     None \<Rightarrow> Inr False
   | Some (JObj m) \<Rightarrow> (case map_of m (u ''documents'') of None \<Rightarrow> Inr False | Some v \<Rightarrow> above_zero v)
   | Some _ \<Rightarrow> Inl (AttributeError ''get''))"

definition parity_tier :: "json \<Rightarrow> pystr \<Rightarrow> nat \<Rightarrow> jobj res" where
  "parity_tier manifest name rows =
     and_then (manifest_member manifest ''tiers'' name) (\<lambda>v.
     case v of
       JObj tier \<Rightarrow>
         and_then (require (py_eq (jget tier ''documents'') (JInt (int rows))) (ValueError ''dataset manifest tier/cache row count differs'')) (\<lambda>_.
         and_then (truncated_documents tier) (\<lambda>some.
         and_then (require some (ValueError ''selected dataset tier does not report truncated documents'')) (\<lambda>_.
         Inr tier)))
     | _ \<Rightarrow> Inl (ValueError ''dataset manifest does not contain tier''))"

text \<open>\<open>isinstance(v, int)\<close> and positive: a bool is an int.\<close>

definition document_ceiling :: "jobj \<Rightarrow> nat res" where
  "document_ceiling tier =
     (let e = ValueError ''dataset manifest has no valid document byte ceiling'' in
      case jget tier ''maximum_prepared_document_bytes'' of
        JInt i \<Rightarrow> if 0 < i then Inr (nat i) else Inl e
      | JBool b \<Rightarrow> if b then Inr 1 else Inl e
      | _ \<Rightarrow> Inl e)"

definition parity_archive :: "parity_env \<Rightarrow> fsys \<Rightarrow> parity_args \<Rightarrow> json \<Rightarrow> (pystr \<times> pystr) res" where
  "parity_archive env d a manifest =
     (let h = pe_host env in
      and_then (manifest_member manifest ''dataset'' (u ''archive'')) (\<lambda>v.
      case v of
        JObj declared \<Rightarrow>
          and_then (sha256_file h d (pa_archive a) 0 None) (\<lambda>archive_sha.
          and_then (require (py_eq (JStr archive_sha) (jget declared ''sha256'')) (ValueError ''source archive SHA-256 differs from dataset manifest'')) (\<lambda>_.
          case (case manifest of JObj m \<Rightarrow> map_of m (u ''files'') | _ \<Rightarrow> None) of
            Some (JObj declared_files) \<Rightarrow>
              (case filter (\<lambda>v. case v of JObj f \<Rightarrow> py_eq (jget f ''path'') (JStr (path_name (fs_resolve d (pa_ids a)))) | _ \<Rightarrow> False)
                  (map snd declared_files) of
                 [JObj f] \<Rightarrow>
                   and_then (sha256_file h d (pa_ids a) 0 None) (\<lambda>ids_sha.
                   and_then (require (py_eq (JStr ids_sha) (jget f ''sha256'')) (ValueError ''document ID file SHA-256 differs from dataset manifest'')) (\<lambda>_.
                   Inr (archive_sha, ids_sha)))
               | _ \<Rightarrow> Inl (ValueError ''dataset manifest does not bind the document ID file''))
          | None \<Rightarrow> Inl (ValueError ''dataset manifest does not bind the document ID file'')
          | Some _ \<Rightarrow> Inl (AttributeError ''values'')))
      | _ \<Rightarrow> Inl (ValueError ''dataset manifest has no source archive identity'')))"

record parity_inputs =
  pi_caches :: parity_caches
  pi_models :: parity_models
  pi_manifest_sha :: pystr
  pi_tier :: jobj
  pi_ceiling :: nat
  pi_archive_sha :: pystr
  pi_ids_sha :: pystr
  pi_selection :: sample_summary
  pi_proof :: truncation_proof
  pi_queries :: "pystr list"
  pi_rows :: "fixture_row list"
  pi_reference :: "bytes list"

text \<open>Everything that \<open>main\<close> reads and checks before it writes.\<close>

definition parity_inputs :: "parity_env \<Rightarrow> fsys \<Rightarrow> parity_args \<Rightarrow> parity_inputs res" where
  "parity_inputs env d a =
     (let h = pe_host env in
      and_then (check_parity_args env d a) (\<lambda>_.
      and_then (parity_caches env d a) (\<lambda>c.
      and_then (parity_models env d a c) (\<lambda>m.
      and_then (load_json h d (pa_manifest a)) (\<lambda>manifest.
      and_then (sha256_file h d (pa_manifest a) 0 None) (\<lambda>manifest_sha.
      and_then (parity_tier manifest (pa_tier a) (cm_count (pc_corpus_meta c))) (\<lambda>tier.
      and_then (select_document_sample (open_rb d (pa_documents a)) (int (cm_count (pc_corpus_meta c))) (pa_spaced a) (pa_longest a) (pa_truncated a))
        (\<lambda>(sample, selection).
      and_then (document_ceiling tier) (\<lambda>ceiling.
      and_then (require (list_all (\<lambda>r. sr_bytes r \<le> ceiling) sample) (ValueError ''sampled document exceeds the manifest byte ceiling'')) (\<lambda>_.
      and_then (parity_archive env d a manifest) (\<lambda>(archive_sha, ids_sha).
      and_then (verify_document_origins h (pe_py env) (and_then (open_rb d (pa_archive a)) (pe_zip env)) (open_rb d (pa_ids a)) sample
         (int (cm_count (pc_corpus_meta c))) ceiling) (\<lambda>(truncation, found).
      and_then (and_then (open_rb d (pa_queries a)) iter_nonempty_lines) (\<lambda>queries.
      and_then (require (int (length queries) = pa_queries_expected a) (ValueError ''expected queries'')) (\<lambda>_.
      Inr \<lparr>pi_caches = c, pi_models = m, pi_manifest_sha = manifest_sha, pi_tier = tier, pi_ceiling = ceiling, pi_archive_sha = archive_sha,
        pi_ids_sha = ids_sha, pi_selection = selection, pi_proof = truncation, pi_queries = queries,
        pi_rows = fixture_rows queries found sample, pi_reference = pc_vectors c @ map (\<lambda>r. pc_corpus c ! sr_index r) sample\<rparr>))))))))))))))"

subsection \<open>The run\<close>

text \<open>A step on the world that may raise, and the rest of the body.\<close>

definition and_do :: "world \<times> 'a res \<Rightarrow> (world \<Rightarrow> 'a \<Rightarrow> world \<times> 'b res) \<Rightarrow> world \<times> 'b res" where
  "and_do m f = (case m of (w, Inl e) \<Rightarrow> (w, Inl e) | (w, Inr x) \<Rightarrow> f w x)"

definition native_config :: "parity_args \<Rightarrow> jobj" where
  "native_config a = jobj
     [(''ctx'', JInt (pa_ctx a)), (''batch_tokens'', JInt (pa_batch_tokens a)), (''parallel'', JInt (pa_parallel a)),
      (''threads'', JInt (pa_threads a)), (''gpu_layers'', JInt (pa_gpu_layers a)), (''ground_truth_batch'', JInt (pa_truth_batch a))]"

definition row_records :: "parity_inputs \<Rightarrow> json" where
  "row_records i = JArr (map (\<lambda>r. JObj (row_json r)) (pi_rows i))"

definition parity_stable :: "host \<Rightarrow> parity_args \<Rightarrow> parity_inputs \<Rightarrow> pystr \<Rightarrow> jobj" where
  "parity_stable h a i binary_sha = jobj
     [(''schema'', JStr parity_schema), (''documents'', source_json (pc_documents (pi_caches i))),
      (''queries'', source_json (pc_queries (pi_caches i))), (''corpus_cache_sha256'', JStr (pc_corpus_sha (pi_caches i))),
      (''query_cache_sha256'', JStr (pc_query_sha (pi_caches i))), (''dataset_manifest_sha256'', JStr (pi_manifest_sha i)),
      (''source_archive_sha256'', JStr (pi_archive_sha i)), (''document_ids_sha256'', JStr (pi_ids_sha i)), (''tier'', JStr (pa_tier a)),
      (''rows'', row_records i), (''fixture_text_sha256'', JStr (canonical_hash h (JArr (map (\<lambda>r. JStr (fx_text r)) (pi_rows i))))),
      (''native_binary_sha256'', JStr binary_sha), (''native_model_sha256'', JStr (pm_model_sha (pi_models i))),
      (''native_config'', JObj (native_config a))]"

record run_paths =
  rn_dir :: pystr
  rn_fixture :: pystr
  rn_reference :: pystr
  rn_native :: pystr
  rn_probe :: pystr
  rn_prefix :: pystr
  rn_state :: pystr

definition run_paths :: "fsys \<Rightarrow> parity_args \<Rightarrow> pystr \<Rightarrow> run_paths" where
  "run_paths d a input_hash =
     (let dir = path_join (fs_resolve d (pa_work a)) (take 16 input_hash) in
      \<lparr>rn_dir = dir, rn_fixture = path_join dir (u ''fixture.txt''), rn_reference = path_join dir (u ''official-reference.leannbc2''),
       rn_native = path_join dir (u ''native.leannbc1''), rn_probe = path_join dir (u ''query-probe.txt''),
       rn_prefix = path_join dir (u ''fixture-index''), rn_state = path_join dir (u ''native-run.json'')\<rparr>)"

definition build_argv :: "fsys \<Rightarrow> parity_args \<Rightarrow> run_paths \<Rightarrow> pystr list" where
  "build_argv d a p =
     [fs_resolve d (pa_binary a), u ''build'', u ''--docs'', rn_fixture p, u ''--index'', rn_prefix p, u ''--embedder'', u ''cache'',
      u ''--embedding-cache'', rn_reference p, u ''--graph-degree'', u ''8'', u ''--ef-construction'', u ''40'', u ''--low-degree'', u ''3'',
      u ''--hub-ratio'', u ''0.02'', u ''--approx'', u ''simhash'', u ''--sketch-bits'', u ''64'', u ''--embedding-batch'', u ''64'']"

definition bench_argv :: "fsys \<Rightarrow> parity_args \<Rightarrow> run_paths \<Rightarrow> pystr list" where
  "bench_argv d a p =
     [fs_resolve d (pa_binary a), u ''bench'', u ''--index'', rn_prefix p, u ''--queries'', rn_probe p, u ''--embedder'', u ''llama'',
      u ''--model'', fs_resolve d (pa_model a), u ''--ctx'', int_str (pa_ctx a), u ''--batch-tokens'', int_str (pa_batch_tokens a),
      u ''--parallel'', int_str (pa_parallel a), u ''--threads'', int_str (pa_threads a), u ''--gpu-layers'', int_str (pa_gpu_layers a),
      u ''--top-k'', u ''1'', u ''--ef-search'', u ''8'', u ''--scan-limit'', u ''0'', u ''--recompute-batch'', u ''16'',
      u ''--rerank-ratio'', u ''0.25'', u ''--ground-truth-cache'', rn_native p, u ''--ground-truth-batch'', int_str (pa_truth_batch a),
      u ''--warmup-queries'', u ''0'', u ''--max-queries'', u ''1'']"

text \<open>The vectors of an earlier run are reused when its state names this input and the digest of the vectors that are there.\<close>

definition reusable_commands :: "host \<Rightarrow> fsys \<Rightarrow> run_paths \<Rightarrow> pystr \<Rightarrow> json option res" where
  "reusable_commands h d p input_hash =
     (if path_exists d (rn_state p) \<and> path_exists d (rn_native p) then
        and_then (load_json h d (rn_state p)) (\<lambda>state.
        and_then (json_get state ''input_hash'') (\<lambda>x.
        if \<not> py_eq x (JStr input_hash) then Inr None
        else and_then (json_get state ''native_cache_sha256'') (\<lambda>y.
        and_then (sha256_file h d (rn_native p) 0 None) (\<lambda>sha.
        Inr (if py_eq y (JStr sha)
             then Some (case state of JObj m \<Rightarrow> (case map_of m (u ''commands'') of None \<Rightarrow> JArr [] | Some v \<Rightarrow> v) | _ \<Rightarrow> JArr [])
             else None)))))
      else Inr None)"

definition native_run :: "parity_env \<Rightarrow> (world \<Rightarrow> pystr list \<Rightarrow> world \<times> completed) \<Rightarrow> parity_args \<Rightarrow> run_paths \<Rightarrow> pystr \<Rightarrow> world \<Rightarrow> world \<times> json res" where
  "native_run env invoke a p input_hash w =
     (let h = pe_host env; w1 = unlink_file (unlink_file w (rn_native p)) (rn_native p @ u ''.tmp'') in
      and_do (command_observation invoke w1 (build_argv (fs w) a p)) (\<lambda>w2 build.
      and_do (command_observation invoke w2 (bench_argv (fs w) a p)) (\<lambda>w3 bench.
      and_do (w3, sha256_file h (fs w3) (rn_native p) 0 None) (\<lambda>w3 sha.
      (atomic_write_json h w3 (rn_state p) (JObj (jobj
         [(''schema'', JStr (u ''leann-native-parity-run-v1'')), (''input_hash'', JStr input_hash), (''native_cache_sha256'', JStr sha),
          (''commands'', JArr [build, bench])])), Inr (JArr [build, bench]))))))"

text \<open>The native vectors and the commands that made them, reused or not.\<close>

definition native_vectors ::
  "parity_env \<Rightarrow> (world \<Rightarrow> pystr list \<Rightarrow> world \<times> completed) \<Rightarrow> parity_args \<Rightarrow> run_paths \<Rightarrow> pystr \<Rightarrow> parity_inputs \<Rightarrow> world
     \<Rightarrow> world \<times> (bytes list \<times> cache_meta \<times> bool \<times> json) res" where
  "native_vectors env invoke a p input_hash i w =
     and_do (w, reusable_commands (pe_host env) (fs w) p input_hash) (\<lambda>w found.
     and_do (case found of Some commands \<Rightarrow> (w, Inr commands) | None \<Rightarrow> native_run env invoke a p input_hash w) (\<lambda>w commands.
     and_do (w, and_then (open_rb (fs w) (rn_native p))
        (read_cache (pe_host env) (pe_numerics env) (fs_resolve (fs w) (rn_native p)) True (Some True) 8192)) (\<lambda>w (native, meta).
     (w, and_then (require (cm_count meta = length (pi_rows i) \<and> cm_dimensions meta = cm_dimensions (pc_corpus_meta (pi_caches i))
            \<and> cm_fingerprint meta = cm_fingerprint (pc_corpus_meta (pi_caches i)))
          (ValueError ''native cache does not match the parity fixture/model'')) (\<lambda>_. Inr (native, meta, found \<noteq> None, commands))))))"

subsection \<open>The report\<close>

definition selection_json :: "sample_summary \<Rightarrow> truncation_proof \<Rightarrow> jobj" where
  "selection_json s t = jobj
     [(''algorithm'', JStr (u ''union of integer-arithmetic evenly spaced rows, longest UTF-8 rows (ties by lowest source index), and explicit truncation candidates; final order is ascending source index'')),
      (''requested_evenly_spaced'', JInt (ss_spaced s)), (''requested_longest'', JInt (ss_longest s)),
      (''explicit_truncation_candidate_indices'', JArr (map (\<lambda>i. JInt (int i)) (ss_explicit s))),
      (''selected_documents'', JInt (int (ss_selected s))),
      (''category_counts'', JObj (map (\<lambda>(k, n). (k, JInt (int n))) (sample_summary.ss_counts s))),
      (''truncation_proof'', JObj (jobj
         [(''method'', JStr (u ''join prepared row to published BEIR corpus.jsonl by corpus ID, rerun the dataset normalizer at the manifest byte ceiling, require exact prepared-text equality, and inspect its truncated flag'')), (''archive_member'', JStr (tp_member t)),
          (''checked_documents'', JInt (int (tp_checked t))), (''source_verified_truncated_documents'', JInt (int (length (tp_indices t)))),
          (''source_verified_truncated_indices'', JArr (map (\<lambda>i. JInt (int i)) (tp_indices t)))]))]"

definition coverage_json :: "parity_inputs \<Rightarrow> jobj" where
  "coverage_json i = jobj
     [(''queries'', JObj (jobj [(''selected'', JInt (int (length (pi_queries i)))),
         (''source_rows'', JInt (int (cm_count (pc_query_meta (pi_caches i))))),
         (''all_queries'', JBool (length (pi_queries i) = cm_count (pc_query_meta (pi_caches i))))])),
      (''documents'', JObj (selection_json (pi_selection i) (pi_proof i))), (''total_rows'', JInt (int (length (pi_rows i))))]"

definition digested :: "pystr \<Rightarrow> nat \<Rightarrow> pystr \<Rightarrow> json" where
  "digested path n sha = JObj (jobj [(''path'', JStr path), (''size_bytes'', JInt (int n)), (''sha256'', JStr sha)])"

text \<open>What the report records of files on the disk when it is written.\<close>

record report_facts =
  rf_archive_size :: nat
  rf_ids_size :: nat
  rf_corpus_sidecar :: pystr
  rf_query_sidecar :: pystr
  rf_native_sha :: pystr
  rf_fixture :: source_id
  rf_reference :: jobj

definition dataset_json :: "fsys \<Rightarrow> parity_args \<Rightarrow> parity_inputs \<Rightarrow> report_facts \<Rightarrow> jobj" where
  "dataset_json d a i f = jobj
     [(''tier'', JStr (pa_tier a)), (''documents'', source_json (pc_documents (pi_caches i))), (''queries'', source_json (pc_queries (pi_caches i))),
      (''manifest'', JObj (jobj [(''path'', JStr (fs_resolve d (pa_manifest a))), (''sha256'', JStr (pi_manifest_sha i)),
         (''tier_truncation'', jget (pi_tier i) ''truncation''), (''maximum_prepared_document_bytes'', jget (pi_tier i) ''maximum_prepared_document_bytes'')])),
      (''source_archive'', digested (fs_resolve d (pa_archive a)) (rf_archive_size f) (pi_archive_sha i)),
      (''document_ids'', digested (fs_resolve d (pa_ids a)) (rf_ids_size f) (pi_ids_sha i))]"

definition reference_json :: "parity_inputs \<Rightarrow> report_facts \<Rightarrow> jobj" where
  "reference_json i f = jobj
     [(''description'', JStr (u ''Integrity-bound normalized LEANNBC2 vectors consumed by compare_official_leann.py.'')),
      (''corpus_cache'', JObj (cache_meta_json (pc_corpus_meta (pi_caches i)) @ jobj [(''sha256'', JStr (pc_corpus_sha (pi_caches i))),
         (''sidecar_sha256'', JStr (rf_corpus_sidecar f)),
         (''generation'', case pm_corpus_declared (pi_models i) of JObj m \<Rightarrow> jget m ''generation'' | _ \<Rightarrow> JNull)])),
      (''query_cache'', JObj (cache_meta_json (pc_query_meta (pi_caches i)) @ jobj [(''sha256'', JStr (pc_query_sha (pi_caches i))),
         (''sidecar_sha256'', JStr (rf_query_sidecar f)),
         (''generation'', case pm_query_declared (pi_models i) of JObj m \<Rightarrow> jget m ''generation'' | _ \<Rightarrow> JNull)])),
      (''model'', pm_model (pi_models i))]"

definition parity_report_json ::
  "parity_env \<Rightarrow> fsys \<Rightarrow> parity_args \<Rightarrow> pystr \<Rightarrow> pystr \<Rightarrow> run_paths \<Rightarrow> parity_inputs \<Rightarrow> report_facts \<Rightarrow> cache_meta \<Rightarrow> bool \<Rightarrow> json \<Rightarrow> jobj \<Rightarrow> bool \<Rightarrow> jobj" where
  "parity_report_json env d a input_hash binary_sha p i f meta reuse commands metrics passed = jobj
     [(''schema'', JStr parity_schema), (''created_at'', JStr (pe_now env)), (''input_hash'', JStr input_hash), (''passed'', JBool passed),
      (''acceptance'', JObj (jobj [(''minimum_cosine_similarity'', JFloat (pa_minimum a)),
         (''rule'', JStr (u ''fail if any selected row has cosine similarity below threshold''))])),
      (''coverage'', JObj (coverage_json i)), (''dataset'', JObj (dataset_json d a i f)),
      (''official_comparison_reference'', JObj (reference_json i f)),
      (''native'', JObj (jobj
         [(''binary'', JObj (jobj [(''path'', JStr (fs_resolve d (pa_binary a))), (''sha256'', JStr binary_sha)])),
          (''model'', JObj (jobj [(''path'', JStr (fs_resolve d (pa_model a))), (''sha256'', JStr (pm_model_sha (pi_models i)))])),
          (''config'', JObj (native_config a)), (''cache'', JObj (cache_meta_json meta @ jobj [(''sha256'', JStr (rf_native_sha f))])),
          (''commands_reused'', JBool reuse), (''commands'', commands)])),
      (''fixture'', JObj (jobj [(''directory'', JStr (rn_dir p)), (''source'', source_json (rf_fixture f)),
         (''reference_cache'', JObj (rf_reference f)), (''rows'', row_records i)])),
      (''metrics'', JObj metrics)]"

definition file_size :: "fsys \<Rightarrow> pystr \<Rightarrow> nat res" where
  "file_size d path = and_then (open_rb d path) (\<lambda>content. Inr (length content))"

definition report_facts :: "parity_env \<Rightarrow> fsys \<Rightarrow> parity_args \<Rightarrow> run_paths \<Rightarrow> jobj \<Rightarrow> report_facts res" where
  "report_facts env d a p reference =
     (let h = pe_host env in
      and_then (file_size d (pa_archive a)) (\<lambda>archive_size.
      and_then (file_size d (pa_ids a)) (\<lambda>ids_size.
      and_then (sha256_file h d (sidecar_path (fs_resolve d (pa_corpus_cache a))) 0 None) (\<lambda>corpus_sidecar.
      and_then (sha256_file h d (sidecar_path (fs_resolve d (pa_query_cache a))) 0 None) (\<lambda>query_sidecar.
      and_then (sha256_file h d (rn_native p) 0 None) (\<lambda>native_sha.
      and_then (source_identity h d (rn_fixture p)) (\<lambda>fixture.
      and_then (sha256_file h d (rn_reference p) 0 None) (\<lambda>reference_sha.
      Inr \<lparr>rf_archive_size = archive_size, rf_ids_size = ids_size, rf_corpus_sidecar = corpus_sidecar, rf_query_sidecar = query_sidecar,
        rf_native_sha = native_sha, rf_fixture = fixture, rf_reference = dict_set reference (u ''sha256'') (JStr reference_sha)\<rparr>))))))))"

text \<open>\<open>main\<close>: whether the report passed; a report that did not is written all the same, and the exit status is 2.\<close>

definition parity_main :: "parity_env \<Rightarrow> (world \<Rightarrow> pystr list \<Rightarrow> world \<times> completed) \<Rightarrow> parity_args \<Rightarrow> world \<Rightarrow> world \<times> bool res" where
  "parity_main env invoke a w =
     (let h = pe_host env; np = pe_numerics env; d = fs w in
      and_do (w, parity_inputs env d a) (\<lambda>w i.
      and_do (w, sha256_file h d (pa_binary a) 0 None) (\<lambda>w binary_sha.
      let input_hash = canonical_hash h (JObj (parity_stable h a i binary_sha)); p = run_paths d a input_hash;
          width = cm_dimensions (pc_corpus_meta (pi_caches i)) in
      case write_line_file w (rn_fixture p) (map fx_text (pi_rows i)) of Inl e \<Rightarrow> (w, Inl e) | Inr w1 \<Rightarrow>
      case write_line_file w1 (rn_probe p) [fx_text (hd (pi_rows i))] of Inl e \<Rightarrow> (w1, Inl e) | Inr w2 \<Rightarrow>
      case write_cache_v2 h np (fs w2) (rn_reference p) width (pi_reference i) (cm_fingerprint (pc_corpus_meta (pi_caches i))) (rn_fixture p) of
        Inl e \<Rightarrow> (w2, Inl e)
      | Inr (d3, reference_meta, reference_sha) \<Rightarrow>
          and_do (native_vectors env invoke a p input_hash i (commit w2 d3)) (\<lambda>w (native, meta, reuse, commands).
          and_do (w, compare_embeddings np (pe_vectors env) (pe_mean env) (pe_worst env) width (pi_reference i) (cm_dimensions meta) native (pi_rows i)) (\<lambda>w metrics.
          let passed = fl_le (pa_minimum a) (fl_min (cosines (pe_vectors env) (zip (pi_reference i) native))) in
          and_do (w, report_facts env (fs w) a p (cache_meta_json reference_meta @ jobj [(''sha256'', JStr reference_sha)])) (\<lambda>w facts.
          (atomic_write_json h w (pa_output a)
             (JObj (parity_report_json env d a input_hash binary_sha p i facts meta reuse commands metrics passed)), Inr passed)))))))"

subsection \<open>The collector accepts the metrics\<close>

text \<open>What NumPy computes of rows that passed \<open>validate_vector_matrix\<close>: no norm vanishes, and every result is a number.\<close>

definition finite_similarities :: "vector_tools \<Rightarrow> (pyfloat list \<Rightarrow> pyfloat) \<Rightarrow> (bytes \<times> bytes) list \<Rightarrow> bool" where
  "finite_similarities vt mean pairs \<longleftrightarrow> (\<forall>(a, b) \<in> set pairs. \<not> vt_vanishes vt a b \<and> fl_isfinite (vt_cosine vt a b) \<and> fl_isfinite (vt_difference vt a b))
     \<and> fl_isfinite (mean (cosines vt pairs))"

lemma fl_min_in: "xs \<noteq> [] \<Longrightarrow> fl_min xs \<in> set xs"
  unfolding fl_min_def by (metis hd_in_set length_0_conv length_sort set_sort)

lemma fl_max_in: "xs \<noteq> [] \<Longrightarrow> fl_max xs \<in> set xs"
  unfolding fl_max_def by (metis last_in_set length_0_conv length_sort set_sort)

lemma finite_values:
  assumes "finite_similarities vt mean pairs" and "own \<noteq> []" and "set own \<subseteq> set pairs"
  shows "fl_isfinite (fl_min (cosines vt own))" and "fl_isfinite (fl_max (differences vt own))"
proof -
  have "fl_min (cosines vt own) \<in> set (cosines vt own)" by (rule fl_min_in) (simp add: cosines_def assms(2))
  moreover have "fl_max (differences vt own) \<in> set (differences vt own)" by (rule fl_max_in) (simp add: differences_def assms(2))
  ultimately show "fl_isfinite (fl_min (cosines vt own))" "fl_isfinite (fl_max (differences vt own))"
    using assms(1,3) by (fastforce simp: finite_similarities_def cosines_def differences_def)+
qed

lemma number_finite: "fl_isfinite x \<Longrightarrow> number (JFloat x) = Inr x"
  by (simp add: number_def is_number_def)

lemma agrees_self: "fl_isfinite x \<Longrightarrow> agrees x x"
  by (cases x) (auto simp: agrees_def isclose_refl fl_isfinite_def)

text \<open>
  What the collector relies on of NumPy: rows that passed \<open>validate_vector_matrix\<close> have similarities that are numbers and norms
  whose product does not vanish, and the mean of numbers is a number.
\<close>

definition finite_numerics :: "numerics \<Rightarrow> vector_tools \<Rightarrow> (pyfloat list \<Rightarrow> pyfloat) \<Rightarrow> bool" where
  "finite_numerics np vt mean \<longleftrightarrow>
     (\<forall>a b. good_row np False (fl_lit 2 3) a \<longrightarrow> good_row np False (fl_lit 2 3) b \<longrightarrow>
        \<not> vt_vanishes vt a b \<and> fl_isfinite (vt_cosine vt a b) \<and> fl_isfinite (vt_difference vt a b))
     \<and> (\<forall>xs. xs \<noteq> [] \<longrightarrow> list_all fl_isfinite xs \<longrightarrow> fl_isfinite (mean xs))"

lemma compare_embeddings_ok:
  assumes "compare_embeddings np vt mean wd width reference nw native rows = Inr metrics"
  shows "length native = length reference \<and> length rows = length reference \<and> reference \<noteq> []
    \<and> list_all (good_row np False (fl_lit 2 3)) reference \<and> list_all (good_row np False (fl_lit 2 3)) native
    \<and> jget metrics ''minimum_cosine_similarity'' = JFloat (fl_min (cosines vt (zip reference native)))
    \<and> jget metrics ''mean_cosine_similarity'' = JFloat (mean (cosines vt (zip reference native)))
    \<and> jget metrics ''maximum_absolute_difference'' = JFloat (fl_max (differences vt (zip reference native)))
    \<and> jget metrics ''by_kind'' = JObj (by_kind_json vt (map fx_kind rows) (zip reference native))"
  using assms by (auto simp: compare_embeddings_def ok_simps Let_def validate_vector_matrix_ok)

lemma compared_finite:
  assumes "compare_embeddings np vt mean wd width reference nw native rows = Inr metrics" and "finite_numerics np vt mean"
  shows "finite_similarities vt mean (zip reference native)"
proof -
  note ok = compare_embeddings_ok [OF assms(1)]
  have all: "\<not> vt_vanishes vt a b \<and> fl_isfinite (vt_cosine vt a b) \<and> fl_isfinite (vt_difference vt a b)"
    if "(a, b) \<in> set (zip reference native)" for a b
    using set_zip_leftD [OF that] set_zip_rightD [OF that] ok assms(2) by (auto simp: finite_numerics_def list_all_iff)
  have "list_all fl_isfinite (cosines vt (zip reference native))" using all by (auto simp: cosines_def list_all_iff)
  moreover have "cosines vt (zip reference native) \<noteq> []" using ok by (auto simp: cosines_def)
  ultimately show ?thesis using assms(2) all by (auto simp: finite_similarities_def finite_numerics_def)
qed

lemma fixture_kind_list:
  "map fx_kind (fixture_rows queries found sample) = replicate (length queries) (u ''query'') @ replicate (length sample) (u ''document'')"
proof -
  have "map fx_kind (map (\<lambda>(i, t). query_row i t) (zip ns ts)) = replicate (min (length ns) (length ts)) (u ''query'')" for ns ts
    by (induction ns ts rule: list_induct2') (auto simp: query_row_def)
  moreover have "map (fx_kind \<circ> document_row found) sample = replicate (length sample) (u ''document'')"
    by (induction sample) (auto simp: document_row_def)
  ultimately show ?thesis by (simp add: fixture_rows_def)
qed

lemma fixture_kinds_json: "fixture_kinds (map (\<lambda>r. JObj (row_json r)) rows) = Inr (map fx_kind rows)" if "\<forall>r \<in> set rows. fx_kind r \<noteq> []"
proof -
  have "jget (row_json r) ''kind'' = JStr (fx_kind r)" for r by (simp add: row_json_def jget_def jobj_def)
  then show ?thesis using that
    by (simp add: fixture_kinds_def map_res_ok_iff ok_simps nonempty_string_def)
qed

lemma rows_of_kind_in: "set (rows_of_kind kinds k xs) \<subseteq> set xs"
  by (auto simp: rows_of_kind_def dest: set_zip_rightD)

lemma rows_of_kind_nonempty: "k \<in> set kinds \<Longrightarrow> length xs = length kinds \<Longrightarrow> rows_of_kind kinds k xs \<noteq> []"
proof -
  assume k: "k \<in> set kinds" "length xs = length kinds"
  then obtain i where "i < length kinds" "kinds ! i = k" by (auto simp: in_set_conv_nth)
  with k(2) have "(k, xs ! i) \<in> set (zip kinds xs)" by (auto simp: in_set_zip intro: exI [of _ i])
  then show ?thesis by (force simp: rows_of_kind_def filter_empty_conv)
qed

lemma fl_le_fin: "fl_le (Fin x) (Fin y) \<longleftrightarrow> x \<le> y"
  by (auto simp: fl_le_def)

lemma finite_fin: "fl_isfinite x \<Longrightarrow> \<exists>r. x = Fin r"
  by (cases x) (auto simp: fl_isfinite_def)

lemma two_kinds: "sorted_list_of_set {u ''query'', u ''document''} = [u ''document'', u ''query'']"
proof -
  have "u ''document'' < u ''query''" by (simp add: u_def less_list_code)
  then show ?thesis by simp
qed

lemma by_kind_members:
  assumes "set kinds = {u ''query'', u ''document''}" and "k \<in> {''query'', ''document''}"
  shows "jget (by_kind_json vt kinds pairs) k = kind_metrics vt (rows_of_kind kinds (u k) pairs)"
proof -
  have "u ''document'' \<noteq> u ''query''" by (simp add: u_def)
  with assms(2) show ?thesis unfolding by_kind_json_def assms(1) two_kinds jget_def by auto
qed

lemma kind_metrics_accepted:
  assumes "finite_similarities vt mean pairs" and "length pairs = length kinds" and "set kinds = {u ''query'', u ''document''}"
    and "k \<in> {''query'', ''document''}"
  shows "check_kind_metrics vt (by_kind_json vt kinds pairs) kinds pairs k = Inr ()"
proof -
  let ?own = "rows_of_kind kinds (u k) pairs"
  have "u k \<in> set kinds" using assms(3,4) by auto
  then have "?own \<noteq> []" using assms(2) by (intro rows_of_kind_nonempty) auto
  note fin = finite_values [OF assms(1) this rows_of_kind_in]
  obtain m where m: "kind_metrics vt ?own = JObj m" "jget m ''rows'' = JInt (int (length ?own))"
      "jget m ''minimum_cosine_similarity'' = JFloat (fl_min (cosines vt ?own))"
      "jget m ''maximum_absolute_difference'' = JFloat (fl_max (differences vt ?own))"
    by (simp add: kind_metrics_def)
  have "sub (by_kind_json vt kinds pairs) k = Inr m" using by_kind_members [OF assms(3,4)] m(1) by (simp add: sub_ok)
  then show ?thesis using fin m(2-)
    by (simp add: check_kind_metrics_def Let_def field_is_def require_def number_finite agrees_self)
qed

lemma count_replicate: "count_list (replicate n x) y = (if x = y then n else 0)"
  by (induction n) auto

text \<open>The recomputation of the collector succeeds on the vectors that were compared.\<close>

lemma similarities_accepted:
  assumes c: "compare_embeddings np vt (tl_mean t) wd width reference nw native rows = Inr metrics" and f: "finite_numerics np vt (tl_mean t)"
    and kinds: "map fx_kind rows = replicate q (u ''query'') @ replicate n (u ''document'')" and "0 < q" and "0 < n"
    and ds: "ds_query_count ds = int q" and ph: "ph_metrics ph = metrics" "ph_minimum ph = fl_min (cosines vt (zip reference native))"
    and th: "\<not> fl_lt (ph_minimum ph) (ph_threshold ph)" "\<not> fl_lt (ph_minimum ph) required_minimum"
  shows "check_similarities t vt ph required_minimum (by_kind_json vt (map fx_kind rows) (zip reference native)) (map fx_kind rows) ds (int n)
    (zip reference native) = Inr ()"
proof -
  let ?pairs = "zip reference native" and ?kinds = "map fx_kind rows"
  note ok = compare_embeddings_ok [OF c] and fin = compared_finite [OF c f]
  have d: "u ''query'' \<noteq> u ''document''" by (simp add: u_def)
  have set: "set ?kinds = {u ''query'', u ''document''}" using assms(4,5) unfolding kinds by auto
  have counts: "count_list ?kinds (u ''query'') = q" "count_list ?kinds (u ''document'') = n"
    unfolding kinds using d by (simp_all add: count_replicate)
  have len: "length ?pairs = length ?kinds" and ne: "?pairs \<noteq> []" using ok by auto
  note v = finite_values [OF fin ne order_refl]
  have mean: "fl_isfinite (tl_mean t (cosines vt ?pairs))" using fin by (simp add: finite_similarities_def)
  have "\<not> list_ex (\<lambda>(a, b). vt_vanishes vt a b) ?pairs" using fin by (auto simp: finite_similarities_def list_ex_iff)
  moreover have "map_res (check_kind_metrics vt (by_kind_json vt ?kinds ?pairs) ?kinds ?pairs) [''document'', ''query''] = Inr [(), ()]"
    using kind_metrics_accepted [OF fin len set] by simp
  ultimately show ?thesis
    using ok v mean ph th set counts ds
    by (simp add: check_similarities_def Let_def require_def agrees_self number_finite check_kind_counts_def)
qed

subsection \<open>What a run that passed did\<close>

lemma and_do_E: "and_do m f = (w', Inr r) \<Longrightarrow> (\<And>w1 x. m = (w1, Inr x) \<Longrightarrow> f w1 x = (w', Inr r) \<Longrightarrow> P) \<Longrightarrow> P"
  by (cases m; cases "snd m") (auto simp: and_do_def)

lemma sample_ok:
  assumes "select_document_sample documents expected spaced longest truncated = Inr (sample, selection)"
  shows "ss_selected selection = length sample"
  using assms by (auto simp: select_document_sample_def ok_simps Let_def summarize_def)

lemma origins_sample:
  assumes "verify_document_origins h py archive ids sample expected budget = Inr (tp, found)"
  shows "sample \<noteq> []"
  using assms by (rule verify_document_origins_ok) auto

lemma parity_inputs_ok:
  assumes "parity_inputs env d a = Inr i"
  shows "\<exists>sample found. pi_rows i = fixture_rows (pi_queries i) found sample \<and> sample \<noteq> [] \<and> ss_selected (pi_selection i) = length sample
    \<and> pi_queries i \<noteq> [] \<and> int (length (pi_queries i)) = pa_queries_expected a \<and> (\<exists>x. pa_minimum a = Fin x)"
  using assms unfolding parity_inputs_def Let_def
proof (elim and_then_pair_E and_then_E)
  fix checked c m manifest manifest_sha tier sample selection ceiling bounded archive_sha ids_sha truncation found content queries counted
  assume check: "check_parity_args env d a = Inr checked"
    and sample: "select_document_sample (open_rb d (pa_documents a)) (int (cm_count (pc_corpus_meta c))) (pa_spaced a) (pa_longest a) (pa_truncated a)
      = Inr (sample, selection)"
    and origins: "verify_document_origins (pe_host env) (pe_py env) (and_then (open_rb d (pa_archive a)) (pe_zip env)) (open_rb d (pa_ids a)) sample
      (int (cm_count (pc_corpus_meta c))) ceiling = Inr (truncation, found)"
    and counted: "require (int (length queries) = pa_queries_expected a) (ValueError ''expected queries'') = Inr counted"
    and i: "Inr \<lparr>pi_caches = c, pi_models = m, pi_manifest_sha = manifest_sha, pi_tier = tier, pi_ceiling = ceiling, pi_archive_sha = archive_sha,
      pi_ids_sha = ids_sha, pi_selection = selection, pi_proof = truncation, pi_queries = queries, pi_rows = fixture_rows queries found sample,
      pi_reference = pc_vectors c @ map (\<lambda>r. pc_corpus c ! sr_index r) sample\<rparr> = Inr i"
  from check have "0 < pa_queries_expected a" "fl_lt (Fin 0) (pa_minimum a)" "fl_le (pa_minimum a) (Fin 1)"
    by (auto simp: check_parity_args_def ok_simps)
  moreover from this(2,3) have "\<exists>x. pa_minimum a = Fin x" by (cases "pa_minimum a") (auto simp: fl_le_def)
  moreover from counted have "int (length queries) = pa_queries_expected a" by (simp add: require_ok)
  moreover from calculation have "queries \<noteq> []" by auto
  ultimately show ?thesis using i sample_ok [OF sample] origins_sample [OF origins]
    by (intro exI [of _ sample] exI [of _ found]) auto
qed

lemma parity_main_ok:
  assumes "parity_main env invoke a w = (w', Inr passed)"
  obtains i p binary_sha input_hash native meta reuse commands metrics facts where "parity_inputs env (fs w) a = Inr i"
    and "compare_embeddings (pe_numerics env) (pe_vectors env) (pe_mean env) (pe_worst env) (cm_dimensions (pc_corpus_meta (pi_caches i)))
        (pi_reference i) (cm_dimensions meta) native (pi_rows i) = Inr metrics"
    and "passed = fl_le (pa_minimum a) (fl_min (cosines (pe_vectors env) (zip (pi_reference i) native)))"
    and "file_at (fs w') (pa_output a) = Some (dumps_indent (pe_host env)
        (JObj (parity_report_json env (fs w) a input_hash binary_sha p i facts meta reuse commands metrics passed)) @ [10])"
  using assms unfolding parity_main_def Let_def
  by (elim and_do_E) (auto elim!: and_do_E simp: atomic_write_json_def split: sum.splits prod.splits)


end
