(* ===== verification/ParityTrial.thy ===== *)
theory ParityTrial
  imports ParityRun
begin

text \<open>
  A complete parity run on a small disk: one query, one document that was cut at twenty bytes, caches of dimension one, and a
  native program that writes the vectors it is asked for. It shows that the hypotheses of the acceptance theorem can hold.
\<close>

definition trial_docs :: bytes where "trial_docs = utf8_bytes (concat (map (\<lambda>l. l @ [10]) [cut_text]))"

definition trial_sidecar :: "string \<Rightarrow> jobj" where
  "trial_sidecar role = jobj
     [(''schema'', JStr (u ''leann-shared-embedding-cache-v1'')), (''role'', JStr (u role)), (''cache'', sealed_by []),
      (''bindings'', JObj (jobj [(''corpus_cache_sha256'', JStr zero_sha)])),
      (''model'', sealed_by [(''artifact'', sealed_by [])])]"

definition trial_tier :: jobj where
  "trial_tier = jobj [(''documents'', JInt 1), (''truncation'', JObj (jobj [(''documents'', JInt 1)])), (''maximum_prepared_document_bytes'', JInt 20)]"

definition trial_manifest :: jobj where
  "trial_manifest = jobj
     [(''tiers'', JObj (jobj [(''t'', JObj trial_tier)])), (''dataset'', JObj (jobj [(''archive'', sealed_by [])])),
      (''files'', JObj (jobj [(''ids'', JObj (jobj [(''path'', JStr (u ''ids'')), (''sha256'', JStr zero_sha)]))]))]"

definition trial_host :: host where
  "trial_host = zero_host\<lparr>loads := (\<lambda>b. if b = [1] then Some (JObj (trial_sidecar ''corpus'')) else if b = [2] then Some (JObj (trial_sidecar ''queries''))
     else if b = [3] then Some (JObj trial_manifest) else if b = [4] then Some (JObj cut_record) else None)\<rparr>"

definition trial_files :: "pystr \<Rightarrow> bytes option" where
  "trial_files = map_of [(u ''/d'', trial_docs), (u ''/q'', query_bytes), (u ''/dc'', cache_bytes 1 20), (u ''/qc'', cache_bytes 1 2),
     (u ''/dc.meta.json'', [1]), (u ''/qc.meta.json'', [2]), (u ''/m'', [3]), (u ''/z'', [0]), (u ''/ids'', origin_ids), (u ''/b'', [0]), (u ''/x'', [0])]"

definition trial_disk :: fsys where "trial_disk = \<lparr>fs_resolve = id, fs_file = trial_files\<rparr>"

definition trial_args :: parity_args where
  "trial_args = \<lparr>pa_documents = u ''/d'', pa_queries = u ''/q'', pa_corpus_cache = u ''/dc'', pa_query_cache = u ''/qc'', pa_manifest = u ''/m'',
     pa_archive = u ''/z'', pa_ids = u ''/ids'', pa_tier = u ''t'', pa_binary = u ''/b'', pa_model = u ''/x'', pa_work = u ''/w'', pa_output = u ''/o'',
     pa_queries_expected = 1, pa_spaced = 1, pa_longest = 0, pa_truncated = [], pa_minimum = Fin 1, pa_ctx = 1, pa_batch_tokens = 1, pa_parallel = 1,
     pa_threads = 0, pa_gpu_layers = 0, pa_truth_batch = 1\<rparr>"

definition trial_env :: parity_env where
  "trial_env = \<lparr>pe_host = trial_host, pe_numerics = unit_numerics, pe_vectors = unit_vectors, pe_mean = (\<lambda>_. Fin 1), pe_worst = (\<lambda>_ _. 0),
     pe_py = sample_py, pe_zip = (\<lambda>_. Inr (cut_archive 4)), pe_executable = (\<lambda>_. True), pe_now = []\<rparr>"

lemma trial_env_simps [simp]: "pe_host trial_env = trial_host" "pe_numerics trial_env = unit_numerics" "pe_vectors trial_env = unit_vectors"
  "pe_mean trial_env = (\<lambda>_. Fin 1)" "pe_py trial_env = sample_py" "pe_zip trial_env c = Inr (cut_archive 4)" "pe_executable trial_env p"
  by (simp_all add: trial_env_def)

lemma trial_host_simps [simp]: "sha_hex trial_host c = zero_sha" "loads trial_host [1] = Some (JObj (trial_sidecar ''corpus''))"
  "loads trial_host [2] = Some (JObj (trial_sidecar ''queries''))" "loads trial_host [3] = Some (JObj trial_manifest)"
  "loads trial_host [4] = Some (JObj cut_record)"
  by (simp_all add: trial_host_def sha_hex_def zero_host_def zero_sha_def)

lemma trial_disk_simps [simp]: "fs_resolve trial_disk p = p" "fs_file trial_disk p = trial_files p" "file_at trial_disk p = trial_files p"
  by (simp_all add: trial_disk_def file_at_def)

lemma trial_files_simps [simp]:
  "trial_files (u ''/d'') = Some trial_docs" "trial_files (u ''/q'') = Some query_bytes" "trial_files (u ''/dc'') = Some (cache_bytes 1 20)"
  "trial_files (u ''/qc'') = Some (cache_bytes 1 2)" "trial_files (u ''/dc.meta.json'') = Some [1]" "trial_files (u ''/qc.meta.json'') = Some [2]"
  "trial_files (u ''/m'') = Some [3]" "trial_files (u ''/z'') = Some [0]" "trial_files (u ''/ids'') = Some origin_ids"
  "trial_files (u ''/b'') = Some [0]" "trial_files (u ''/x'') = Some [0]"
  by (simp_all add: trial_files_def)

lemma trial_args_simps [simp]: "pa_documents trial_args = u ''/d''" "pa_queries trial_args = u ''/q''" "pa_corpus_cache trial_args = u ''/dc''"
  "pa_query_cache trial_args = u ''/qc''" "pa_manifest trial_args = u ''/m''" "pa_archive trial_args = u ''/z''" "pa_ids trial_args = u ''/ids''"
  "pa_tier trial_args = u ''t''" "pa_binary trial_args = u ''/b''" "pa_model trial_args = u ''/x''" "pa_work trial_args = u ''/w''"
  "pa_output trial_args = u ''/o''" "pa_queries_expected trial_args = 1" "pa_spaced trial_args = 1" "pa_longest trial_args = 0"
  "pa_truncated trial_args = []" "pa_minimum trial_args = Fin 1"
  by (simp_all add: trial_args_def)

lemma trial_sha [simp]: "trial_files p = Some c \<Longrightarrow> sha256_file trial_host trial_disk p 0 None = Inr zero_sha"
  by (simp add: sha256_file_def open_rb_def sha256_bytes_all)

subsection \<open>The inputs\<close>

lemma trial_lines: "iter_nonempty_lines trial_docs = Inr [cut_text]" "iter_nonempty_lines query_bytes = Inr [u ''a'']"
  using iter_nonempty_lines_unlines [of "[cut_text]"] iter_nonempty_lines_unlines [of "[u ''a'']"]
  by (simp_all add: trial_docs_def query_bytes_def cut_text_def u_def is_scalar_def)

lemma trial_sizes: "length trial_docs = 20" "length query_bytes = 2" "length (utf8_bytes cut_text) = 19"
  by (simp_all add: trial_docs_def query_bytes_def cut_text_def u_def utf8_char_def)

lemma read_cache_unvalidated:
  assumes "read_cache h np path True ru k content = Inr (rows, meta)"
  shows "read_cache h np path False None k content = Inr (rows, meta)"
  using assms by (auto simp: read_cache_def ok_simps Let_def split: sum.splits if_splits)

lemma trial_cache_read:
  assumes "0 < n" and "n < 256" and "b < 256"
  shows "read_cache trial_host unit_numerics (u path) True (Some True) 8192 (cache_bytes n b) = Inr (replicate n [0, 0, 128, 63], run_meta path n b)"
    and "read_cache trial_host unit_numerics (u path) False None 8192 (cache_bytes n b) = Inr (replicate n [0, 0, 128, 63], run_meta path n b)"
proof -
  fix g
  have eq: "sha_hex trial_host = sha_hex (tl_host (run_tools g))" by (rule ext) simp
  have "read_cache trial_host = read_cache (tl_host (run_tools g))" by (intro ext) (simp only: read_cache_def eq)
  then show r: "read_cache trial_host unit_numerics (u path) True (Some True) 8192 (cache_bytes n b) = Inr (replicate n [0, 0, 128, 63], run_meta path n b)"
    using run_cache_read [OF assms, of g path] by simp
  show "read_cache trial_host unit_numerics (u path) False None 8192 (cache_bytes n b) = Inr (replicate n [0, 0, 128, 63], run_meta path n b)"
    using r by (rule read_cache_unvalidated)
qed

definition trial_source :: "string \<Rightarrow> nat \<Rightarrow> source_id" where
  "trial_source path n = \<lparr>si_path = u path, si_size = n, si_sha = zero_sha, si_lines = 1\<rparr>"

lemma trial_identity:
  "source_identity trial_host trial_disk (u ''/d'') = Inr (trial_source ''/d'' 20)" "source_identity trial_host trial_disk (u ''/q'') = Inr (trial_source ''/q'' 2)"
  by (simp_all add: source_identity_def open_rb_def sha256_bytes_all count_nonempty_lines_def trial_lines trial_sizes trial_source_def)

definition trial_caches :: parity_caches where
  "trial_caches = \<lparr>pc_corpus = [[0, 0, 128, 63]], pc_corpus_meta = run_meta ''/dc'' 1 20, pc_vectors = [[0, 0, 128, 63]],
     pc_query_meta = run_meta ''/qc'' 1 2, pc_documents = trial_source ''/d'' 20, pc_queries = trial_source ''/q'' 2,
     pc_corpus_sha = zero_sha, pc_query_sha = zero_sha\<rparr>"

lemma trial_opened:
  "open_cache trial_env trial_disk (u ''/dc'') = Inr ([[0, 0, 128, 63]], run_meta ''/dc'' 1 20)"
  "open_cache trial_env trial_disk (u ''/qc'') = Inr ([[0, 0, 128, 63]], run_meta ''/qc'' 1 2)"
  using trial_cache_read(2) [of 1 20 "''/dc''"] trial_cache_read(2) [of 1 2 "''/qc''"] by (simp_all add: open_cache_def open_rb_def)

lemma trial_caches_read: "parity_caches trial_env trial_disk trial_args = Inr trial_caches"
  by (simp add: parity_caches_def trial_opened trial_identity validate_cache_source_def Let_def require_def run_meta_def trial_source_def trial_caches_def)

definition trial_models :: parity_models where
  "trial_models = \<lparr>pm_corpus_declared = JObj (trial_sidecar ''corpus''), pm_query_declared = JObj (trial_sidecar ''queries''),
     pm_model = sealed_by [(''artifact'', sealed_by [])], pm_model_sha = zero_sha\<rparr>"

lemma trial_sidecar_members:
  "jget (trial_sidecar r) ''schema'' = JStr (u ''leann-shared-embedding-cache-v1'')" "jget (trial_sidecar r) ''role'' = JStr (u r)"
  "jget2 (trial_sidecar r) ''cache'' ''sha256'' = Inr (JStr zero_sha)" "jget2 (trial_sidecar r) ''bindings'' ''corpus_cache_sha256'' = Inr (JStr zero_sha)"
  "map_of (trial_sidecar r) (u ''model'') = Some (sealed_by [(''artifact'', sealed_by [])])"
  by (simp_all add: trial_sidecar_def jget2_def sealed_by_def)

lemma trial_sidecar_paths: "sidecar_path (u ''/dc'') = u ''/dc.meta.json''" "sidecar_path (u ''/qc'') = u ''/qc.meta.json''"
  by (simp_all add: sidecar_path_def u_def)

lemma trial_models_read: "parity_models trial_env trial_disk trial_args trial_caches = Inr trial_models"
  by (simp add: parity_models_def load_sidecar_def trial_sidecar_paths path_exists_def require_def load_json_def open_rb_def json_get_def json_get2_def
      trial_sidecar_members trial_caches_def declared_model_def Let_def trial_models_def) (simp add: sealed_by_def jget2_def)

lemma trial_manifest_read:
  "parity_tier (JObj trial_manifest) (u ''t'') 1 = Inr trial_tier" "document_ceiling trial_tier = Inr 20"
  "parity_archive trial_env trial_disk trial_args (JObj trial_manifest) = Inr (zero_sha, zero_sha)"
proof -
  have "manifest_member (JObj trial_manifest) ''tiers'' (u ''t'') = Inr (JObj trial_tier)" by (simp add: manifest_member_def trial_manifest_def)
  then show "parity_tier (JObj trial_manifest) (u ''t'') 1 = Inr trial_tier"
    by (simp add: parity_tier_def require_def truncated_documents_def trial_tier_def above_zero_def)
  show "document_ceiling trial_tier = Inr 20" by (simp add: document_ceiling_def trial_tier_def Let_def)
  have m: "manifest_member (JObj trial_manifest) ''dataset'' (u ''archive'') = Inr (sealed_by [])" by (simp add: manifest_member_def trial_manifest_def)
  have f: "map_of trial_manifest (u ''files'') = Some (JObj (jobj [(''ids'', JObj (jobj [(''path'', JStr (u ''ids'')), (''sha256'', JStr zero_sha)]))]))"
    by (simp add: trial_manifest_def)
  have n: "path_name (u ''/ids'') = u ''ids''" by (simp add: path_name_def u_def)
  have v: "map snd (jobj [(''ids'', JObj (jobj [(''path'', JStr (u ''ids'')), (''sha256'', JStr zero_sha)]))])
      = [JObj (jobj [(''path'', JStr (u ''ids'')), (''sha256'', JStr zero_sha)])]" by (simp add: jobj_def)
  show "parity_archive trial_env trial_disk trial_args (JObj trial_manifest) = Inr (zero_sha, zero_sha)"
    by (simp add: parity_archive_def m f v n Let_def require_def sealed_by_def)
qed

definition trial_sample :: sample_row where
  "trial_sample = \<lparr>sr_index = 0, sr_text = cut_text, sr_bytes = 19, sr_categories = [u ''evenly_spaced'']\<rparr>"

lemma trial_selected:
  "select_document_sample (Inr trial_docs) 1 1 0 [] = Inr ([trial_sample], summarize 1 0 [] [trial_sample])"
proof -
  have scan: "scan_documents {0} 0 [cut_text] = \<lparr>sc_seen = 1, sc_direct = [(0, cut_text, 19)], sc_heap = []\<rparr>"
    by (simp add: scan_documents_def scan_row_def Let_def trial_sizes)
  show ?thesis
    by (simp add: select_document_sample_def evenly_spaced_indices_def require_def trial_lines Let_def scan materialized_def
        categories_of_def categorize_def trial_sample_def)
qed

definition trial_found :: "(nat \<times> origin) list" where
  "trial_found = [(0, \<lparr>og_id = u ''d'', og_original = 23, og_truncated = True\<rparr>)]"

definition trial_inputs :: parity_inputs where
  "trial_inputs = \<lparr>pi_caches = trial_caches, pi_models = trial_models, pi_manifest_sha = zero_sha, pi_tier = trial_tier, pi_ceiling = 20,
     pi_archive_sha = zero_sha, pi_ids_sha = zero_sha, pi_selection = summarize 1 0 [] [trial_sample],
     pi_proof = \<lparr>tp_member = u ''nq/corpus.jsonl'', tp_checked = 1, tp_indices = [0]\<rparr>, pi_queries = [u ''a''],
     pi_rows = fixture_rows [u ''a''] trial_found [trial_sample], pi_reference = [[0, 0, 128, 63], [0, 0, 128, 63]]\<rparr>"

lemma trial_inputs_read: "parity_inputs trial_env trial_disk trial_args = Inr trial_inputs"
proof -
  have check: "check_parity_args trial_env trial_disk trial_args = Inr ()"
    by (simp add: check_parity_args_def require_def fl_le_fin path_exists_def) (simp add: trial_args_def)
  have origins: "verify_document_origins trial_host sample_py (Inr (cut_archive 4)) (Inr origin_ids) [trial_sample] 1 20
      = Inr (pi_proof trial_inputs, trial_found)"
    using cut_row_verified [of trial_host 4 trial_sample sample_py] by (simp add: trial_sample_def trial_inputs_def trial_found_def)
  have counts: "cm_count (pc_corpus_meta trial_caches) = 1" "pc_vectors trial_caches = [[0, 0, 128, 63]]" "pc_corpus trial_caches = [[0, 0, 128, 63]]"
    by (simp_all add: trial_caches_def run_meta_def)
  have opened: "open_rb trial_disk (u p) = (case trial_files (u p) of None \<Rightarrow> Inl (OSError ''no such file'') | Some c \<Rightarrow> Inr c)" for p
    by (simp add: open_rb_def)
  have row: "sr_bytes trial_sample \<le> 20" "sr_index trial_sample = 0" by (simp_all add: trial_sample_def)
  show ?thesis
    using origins
    by (simp add: parity_inputs_def Let_def check trial_caches_read trial_models_read load_json_def opened trial_manifest_read trial_manifest_read(1) [simplified] counts trial_selected
        trial_lines require_def row) (simp add: trial_inputs_def)
qed

subsection \<open>The files of the run\<close>

definition trial_program :: "world \<Rightarrow> pystr list \<Rightarrow> world \<times> completed" where
  "trial_program w argv = (commit w (set_file (fs w) (path_join (path_join (u ''/w'') (take 16 zero_sha)) (u ''native.leannbc1'')) (Some (cache_bytes 2 0))),
     \<lparr>cp_code = 0, cp_stdout = [], cp_stderr = [], cp_seconds = Fin 0\<rparr>)"

definition trial_paths :: run_paths where "trial_paths = run_paths trial_disk trial_args zero_sha"

lemma trial_canonical: "canonical_hash trial_host v = zero_sha" by (simp add: canonical_hash_def)

lemma trial_native: "rn_native trial_paths = path_join (path_join (u ''/w'') (take 16 zero_sha)) (u ''native.leannbc1'')"
  by (simp add: trial_paths_def run_paths_def Let_def)

lemma trial_names_distinct:
  "rn_native trial_paths \<noteq> rn_fixture trial_paths" "rn_native trial_paths \<noteq> rn_reference trial_paths" "rn_native trial_paths \<noteq> rn_probe trial_paths"
  "rn_native trial_paths \<noteq> rn_state trial_paths" "rn_fixture trial_paths \<noteq> rn_reference trial_paths" "rn_fixture trial_paths \<noteq> rn_probe trial_paths"
  "rn_fixture trial_paths \<noteq> rn_state trial_paths" "rn_reference trial_paths \<noteq> rn_probe trial_paths" "rn_reference trial_paths \<noteq> rn_state trial_paths"
  "rn_native trial_paths @ u ''.tmp'' \<notin> {rn_native trial_paths, rn_fixture trial_paths, rn_reference trial_paths}"
  by (simp_all add: trial_paths_def run_paths_def Let_def path_join_def u_def)

text \<open>The directory of the run holds none of the input files.\<close>

lemma trial_files_outside: "trial_files (path_join (path_join (u ''/w'') x) y) = None"
  by (simp add: trial_files_def path_join_def u_def)

lemma trial_run_files: "trial_files (rn_state trial_paths) = None" "trial_files (rn_native trial_paths) = None"
  by (simp_all add: trial_paths_def run_paths_def Let_def trial_files_outside)

lemma inputs_outside_run:
  assumes "p \<in> {rn_fixture trial_paths, rn_reference trial_paths, rn_native trial_paths, rn_probe trial_paths, rn_state trial_paths,
      rn_native trial_paths @ u ''.tmp''}" and "q \<in> {u ''/z'', u ''/ids'', u ''/dc.meta.json'', u ''/qc.meta.json''}"
  shows "p \<noteq> q"
  using assms by (auto simp: trial_paths_def run_paths_def Let_def path_join_def u_def)

lemma trial_native_name: "rn_native trial_paths = u ''/w/0000000000000000/native.leannbc1''"
proof -
  have "to_hex (replicate n 0) = replicate (2 * n) 48" for n
    by (induction n) (simp_all add: to_hex_def hex_char_def)
  then have "take 16 zero_sha = replicate 16 48" by (simp add: zero_sha_def)
  also have "\<dots> = u ''0000000000000000''" by (simp add: u_def) code_simp
  finally have "take 16 zero_sha = u ''0000000000000000''" .
  then show ?thesis unfolding trial_native by (simp add: path_join_def u_def)
qed

subsection \<open>The steps\<close>

definition fixture_bytes :: bytes where "fixture_bytes = utf8_bytes (concat (map (\<lambda>l. l @ [10]) [u ''a'', cut_text]))"

lemma fixture_facts: "iter_nonempty_lines fixture_bytes = Inr [u ''a'', cut_text]" "length fixture_bytes = 22"
  using iter_nonempty_lines_unlines [of "[u ''a'', cut_text]"]
  by (simp_all add: fixture_bytes_def cut_text_def u_def is_scalar_def utf8_char_def)

lemma line_files_written: "write_line_file w p [u ''a'', cut_text] = Inr (atomic_write_bytes w p fixture_bytes)"
    "write_line_file w p [u ''a''] = Inr (atomic_write_bytes w p query_bytes)"
  by (simp_all add: write_line_file_def require_def fixture_value_def utf8_encode_def fixture_bytes_def query_bytes_def cut_text_def u_def is_scalar_def)

definition plain_disk :: "fsys \<Rightarrow> bool" where "plain_disk d \<longleftrightarrow> fs_resolve d = id"

lemma reference_written:
  assumes "plain_disk d" and "file_at d (rn_fixture trial_paths) = Some fixture_bytes"
  shows "\<exists>c m sha. write_cache_v2 trial_host unit_numerics d (rn_reference trial_paths) 1 [[0, 0, 128, 63], [0, 0, 128, 63]] (u ''m'') (rn_fixture trial_paths)
      = Inr (set_file d (rn_reference trial_paths) (Some c), m, sha)"
proof -
  let ?rows = "[[0, 0, 128, 63], [0, 0, 128, 63]] :: bytes list"
  have norm: "normalize_vectors unit_numerics 1 ?rows = Inr ?rows"
  proof -
    have "validate_vector_matrix unit_numerics True 8192 (fl_lit 2 3) 1 ?rows = Inr ()" by (simp add: validate_vector_matrix_ok)
    then show ?thesis by (simp add: normalize_vectors_def unit_numerics_def fl_le_def float32_tiny_def pow2_def)
  qed
  have sid: "source_identity trial_host d (rn_fixture trial_paths) = Inr \<lparr>si_path = rn_fixture trial_paths, si_size = 22, si_sha = zero_sha, si_lines = 2\<rparr>"
    using assms by (simp add: source_identity_def open_rb_file_at sha256_bytes_all count_nonempty_lines_def fixture_facts plain_disk_def)
  from small_header [of "replicate 32 0" 2 22] obtain header where
    h: "cache_v2_header (int 1) (int 2) (u ''m'') (int 22) zero_sha = Inr header" by (auto simp: zero_sha_def)
  have "\<exists>m. read_cache trial_host unit_numerics (rn_reference trial_paths) True None 8192 (header @ concat ?rows) = Inr (?rows, m)"
    using read_cache_of_header [OF h [unfolded zero_sha_def], of ?rows unit_numerics trial_host "rn_reference trial_paths"] by simp
  then show ?thesis
    unfolding write_cache_v2_def norm sid using h assms(1) by (auto simp: Let_def fs_write_def set_file_def plain_disk_def)
qed

lemma plain_disk_set [simp]: "plain_disk (set_file d p c) \<longleftrightarrow> plain_disk d"
  by (simp add: plain_disk_def)

lemma plain_file_at: "plain_disk d \<Longrightarrow> file_at (set_file d p c) q = (if q = p then c else file_at d q)"
  by (simp add: plain_disk_def)

definition trial_observation :: "pystr list \<Rightarrow> json" where
  "trial_observation argv = JObj (jobj [(''argv'', JArr (map JStr argv)), (''elapsed_seconds'', JFloat (Fin 0)), (''returncode'', JInt 0),
     (''stdout'', JStr []), (''stderr'', JStr [])])"

definition trial_commands :: json where
  "trial_commands = JArr [trial_observation (build_argv trial_disk trial_args trial_paths), trial_observation (bench_argv trial_disk trial_args trial_paths)]"

lemma trial_observed: "command_observation trial_program v argv
    = (commit v (set_file (fs v) (rn_native trial_paths) (Some (cache_bytes 2 0))), Inr (trial_observation argv))"
  by (simp add: command_observation_def trial_program_def trial_native trial_observation_def)

lemma argv_resolved: "plain_disk d \<Longrightarrow> build_argv d trial_args p = build_argv trial_disk trial_args p"
    "plain_disk d \<Longrightarrow> bench_argv d trial_args p = bench_argv trial_disk trial_args p"
  by (simp_all add: build_argv_def bench_argv_def plain_disk_def)

lemma trial_native_run:
  assumes "plain_disk (fs w)"
  shows "\<exists>w'. native_run trial_env trial_program trial_args trial_paths zero_sha w = (w', Inr trial_commands) \<and> plain_disk (fs w')
    \<and> (\<forall>q. q \<notin> {rn_native trial_paths, rn_native trial_paths @ u ''.tmp'', rn_state trial_paths} \<longrightarrow> file_at (fs w') q = file_at (fs w) q)
    \<and> file_at (fs w') (rn_native trial_paths) = Some (cache_bytes 2 0)"
proof -
  let ?n = "rn_native trial_paths"
  let ?w1 = "unlink_file (unlink_file w ?n) (?n @ u ''.tmp'')"
  obtain w2 where w2: "w2 = commit ?w1 (set_file (fs ?w1) ?n (Some (cache_bytes 2 0)))" by blast
  obtain w3 where w3: "w3 = commit w2 (set_file (fs w2) ?n (Some (cache_bytes 2 0)))" by blast
  have plain: "plain_disk (fs w3)" using assms by (simp add: w3 w2 unlink_file_def)
  have at: "file_at (fs w3) q = (if q = ?n then Some (cache_bytes 2 0) else if q = ?n @ u ''.tmp'' then None else file_at (fs w) q)" for q
    using assms trial_names_distinct(10) by (simp add: w3 w2 unlink_file_def plain_file_at u_def del: file_at_set_file)
  have sha: "sha256_file trial_host (fs w3) ?n 0 None = Inr zero_sha"
    by (simp add: sha256_file_def open_rb_file_at at sha256_bytes_all)
  have "native_run trial_env trial_program trial_args trial_paths zero_sha w
      = (atomic_write_json trial_host w3 (rn_state trial_paths) (JObj (jobj
         [(''schema'', JStr (u ''leann-native-parity-run-v1'')), (''input_hash'', JStr zero_sha), (''native_cache_sha256'', JStr zero_sha),
          (''commands'', trial_commands)])), Inr trial_commands)"
  proof -
    have one: "command_observation trial_program ?w1 argv = (w2, Inr (trial_observation argv))" for argv unfolding w2 by (rule trial_observed)
    have two: "command_observation trial_program w2 argv = (w3, Inr (trial_observation argv))" for argv unfolding w3 by (rule trial_observed)
    show ?thesis
      unfolding native_run_def Let_def one argv_resolved [OF assms] trial_commands_def
      by (simp add: and_do_def two sha)
  qed
  moreover have "?n \<noteq> rn_state trial_paths" by (rule trial_names_distinct(4))
  ultimately show ?thesis using plain at by (simp add: atomic_write_json_def plain_file_at del: file_at_set_file)
qed

lemma trial_native_vectors:
  assumes "plain_disk (fs w)" and "file_at (fs w) (rn_state trial_paths) = None"
  shows "\<exists>w'. native_vectors trial_env trial_program trial_args trial_paths zero_sha trial_inputs w
      = (w', Inr ([[0, 0, 128, 63], [0, 0, 128, 63]], run_meta ''/w/0000000000000000/native.leannbc1'' 2 0, False, trial_commands))
    \<and> plain_disk (fs w')
    \<and> (\<forall>q. q \<notin> {rn_native trial_paths, rn_native trial_paths @ u ''.tmp'', rn_state trial_paths} \<longrightarrow> file_at (fs w') q = file_at (fs w) q)
    \<and> file_at (fs w') (rn_native trial_paths) = Some (cache_bytes 2 0)"
proof -
  have none: "reusable_commands trial_host (fs w) trial_paths zero_sha = Inr None" using assms by (simp add: reusable_commands_def path_exists_def)
  from trial_native_run [OF assms(1)] obtain w' where w': "native_run trial_env trial_program trial_args trial_paths zero_sha w = (w', Inr trial_commands)"
      "plain_disk (fs w')" "file_at (fs w') (rn_native trial_paths) = Some (cache_bytes 2 0)"
      "\<forall>q. q \<notin> {rn_native trial_paths, rn_native trial_paths @ u ''.tmp'', rn_state trial_paths} \<longrightarrow> file_at (fs w') q = file_at (fs w) q" by blast
  have res: "fs_resolve (fs w') (rn_native trial_paths) = u ''/w/0000000000000000/native.leannbc1''"
    using w'(2) by (simp add: plain_disk_def trial_native_name)
  have read: "read_cache trial_host unit_numerics (u ''/w/0000000000000000/native.leannbc1'') True (Some True) 8192 (cache_bytes 2 0)
      = Inr ([[0, 0, 128, 63], [0, 0, 128, 63]], run_meta ''/w/0000000000000000/native.leannbc1'' 2 0)"
    using trial_cache_read(1) [of 2 0] by (simp add: numeral_2_eq_2)
  have m: "length (pi_rows trial_inputs) = 2" "cm_dimensions (pc_corpus_meta (pi_caches trial_inputs)) = 1"
      "cm_fingerprint (pc_corpus_meta (pi_caches trial_inputs)) = u ''m''"
    by (simp_all add: trial_inputs_def fixture_rows_def trial_caches_def run_meta_def)
  have f: "cm_count (run_meta p 2 0) = 2" "cm_dimensions (run_meta p 2 0) = 1" "cm_fingerprint (run_meta p 2 0) = u ''m''" for p
    by (simp_all add: run_meta_def)
  have "native_vectors trial_env trial_program trial_args trial_paths zero_sha trial_inputs w
      = (w', Inr ([[0, 0, 128, 63], [0, 0, 128, 63]], run_meta ''/w/0000000000000000/native.leannbc1'' 2 0, False, trial_commands))"
    using w'(3) by (simp add: native_vectors_def and_do_def none w'(1) open_rb_file_at res read m f require_def)
  then show ?thesis using w' by blast
qed

lemma trial_facts:
  assumes "plain_disk d" and "\<And>q. q \<in> {u ''/z'', u ''/ids'', u ''/dc.meta.json'', u ''/qc.meta.json''} \<Longrightarrow> file_at d q = trial_files q"
    and "file_at d (rn_native trial_paths) \<noteq> None" and "file_at d (rn_fixture trial_paths) = Some fixture_bytes" and "file_at d (rn_reference trial_paths) \<noteq> None"
  shows "\<exists>f. report_facts trial_env d trial_args trial_paths reference = Inr f"
proof -
  have o: "open_rb d q = (case file_at d q of None \<Rightarrow> Inl (OSError ''no such file'') | Some c \<Rightarrow> Inr c)" for q by (rule open_rb_file_at)
  have sha: "file_at d q \<noteq> None \<Longrightarrow> sha256_file trial_host d q 0 None = Inr zero_sha" for q
    by (auto simp: sha256_file_def o sha256_bytes_all)
  have res: "fs_resolve d q = q" for q using assms(1) by (simp add: plain_disk_def)
  have "\<exists>s. source_identity trial_host d (rn_fixture trial_paths) = Inr s"
    using assms(4) by (simp add: source_identity_def o sha256_bytes_all count_nonempty_lines_def fixture_facts)
  moreover have "sha256_file trial_host d (rn_native trial_paths) 0 None = Inr zero_sha" "sha256_file trial_host d (rn_reference trial_paths) 0 None = Inr zero_sha"
      "sha256_file trial_host d (u ''/dc.meta.json'') 0 None = Inr zero_sha" "sha256_file trial_host d (u ''/qc.meta.json'') 0 None = Inr zero_sha"
    using assms by (simp_all add: sha)
  ultimately show ?thesis
    using assms(2) by (auto simp: report_facts_def Let_def file_size_def o res trial_sidecar_paths)
qed

lemma trial_compared:
  "\<exists>metrics. compare_embeddings unit_numerics unit_vectors (\<lambda>_. Fin 1) (\<lambda>_ _. 0) 1 [[0, 0, 128, 63], [0, 0, 128, 63]] 1 [[0, 0, 128, 63], [0, 0, 128, 63]]
      (pi_rows trial_inputs) = Inr metrics"
proof -
  have "validate_vector_matrix unit_numerics False 8192 (fl_lit 2 3) 1 [[0, 0, 128, 63], [0, 0, 128, 63]] = Inr ()" by (simp add: validate_vector_matrix_ok)
  moreover have "length (pi_rows trial_inputs) = 2" by (simp add: trial_inputs_def fixture_rows_def)
  ultimately show ?thesis by (simp add: compare_embeddings_def require_def Let_def)
qed

lemma trial_run: "\<exists>w'. parity_main trial_env trial_program trial_args (boot trial_disk) = (w', Inr True)"
proof -
  let ?rows = "[[0, 0, 128, 63], [0, 0, 128, 63]] :: bytes list" and ?p = trial_paths
  have plain: "plain_disk trial_disk" by (simp add: plain_disk_def trial_disk_def)
  define w2 where "w2 = atomic_write_bytes (atomic_write_bytes (boot trial_disk) (rn_fixture ?p) fixture_bytes) (rn_probe ?p) query_bytes"
  have d2: "plain_disk (fs w2)" "file_at (fs w2) q = (if q = rn_probe ?p then Some query_bytes else if q = rn_fixture ?p then Some fixture_bytes else trial_files q)" for q
    using plain by (simp_all add: w2_def atomic_write_bytes_def plain_file_at del: file_at_set_file)
  have "file_at (fs w2) (rn_fixture ?p) = Some fixture_bytes" using trial_names_distinct(6) by (simp add: d2)
  from reference_written [OF d2(1) this] obtain c m sha where
    ref: "write_cache_v2 trial_host unit_numerics (fs w2) (rn_reference ?p) 1 ?rows (u ''m'') (rn_fixture ?p) = Inr (set_file (fs w2) (rn_reference ?p) (Some c), m, sha)"
    by blast
  define w3 where "w3 = commit w2 (set_file (fs w2) (rn_reference ?p) (Some c))"
  have d3: "plain_disk (fs w3)" "file_at (fs w3) q = (if q = rn_reference ?p then Some c else file_at (fs w2) q)" for q
    using d2(1) by (simp_all add: w3_def plain_file_at del: file_at_set_file)
  have "rn_state ?p \<noteq> rn_probe ?p" by (simp add: trial_paths_def run_paths_def Let_def path_join_def u_def)
  then have "file_at (fs w3) (rn_state ?p) = None"
    using trial_names_distinct(7,9) trial_run_files(1) by (simp add: d3 d2)
  from trial_native_vectors [OF d3(1) this] obtain w4 where
    nat: "native_vectors trial_env trial_program trial_args ?p zero_sha trial_inputs w3
      = (w4, Inr (?rows, run_meta ''/w/0000000000000000/native.leannbc1'' 2 0, False, trial_commands))" and d4: "plain_disk (fs w4)"
      "\<forall>q. q \<notin> {rn_native ?p, rn_native ?p @ u ''.tmp'', rn_state ?p} \<longrightarrow> file_at (fs w4) q = file_at (fs w3) q"
      "file_at (fs w4) (rn_native ?p) = Some (cache_bytes 2 0)" by blast
  have inputs: "file_at (fs w4) q = trial_files q" if "q \<in> {u ''/z'', u ''/ids'', u ''/dc.meta.json'', u ''/qc.meta.json''}" for q
  proof -
    have "x \<noteq> q" if "x \<in> {rn_fixture ?p, rn_reference ?p, rn_native ?p, rn_probe ?p, rn_state ?p, rn_native ?p @ u ''.tmp''}" for x
      using that \<open>q \<in> _\<close> by (rule inputs_outside_run)
    then have "q \<noteq> rn_fixture ?p" "q \<noteq> rn_reference ?p" "q \<noteq> rn_probe ?p" "q \<notin> {rn_native ?p, rn_native ?p @ u ''.tmp'', rn_state ?p}"
      by blast+
    then show ?thesis using d4(2) by (simp add: d3 d2)
  qed
  have "file_at (fs w4) (rn_fixture ?p) = Some fixture_bytes" "file_at (fs w4) (rn_reference ?p) = Some c"
    using trial_names_distinct d4(2) by (auto simp: d3 d2)
  then obtain f where f: "report_facts trial_env (fs w4) trial_args ?p r = Inr (f r)" for r
    using trial_facts [OF d4(1) inputs] d4(3) by (metis option.distinct(1))
  from trial_compared obtain metrics where cmp: "compare_embeddings unit_numerics unit_vectors (\<lambda>_. Fin 1) (\<lambda>_ _. 0) 1 ?rows 1 ?rows (pi_rows trial_inputs) = Inr metrics" by blast
  have parts: "pi_reference trial_inputs = ?rows" "map fx_text (pi_rows trial_inputs) = [u ''a'', cut_text]" "fx_text (hd (pi_rows trial_inputs)) = u ''a''"
      "cm_dimensions (pc_corpus_meta (pi_caches trial_inputs)) = 1" "cm_fingerprint (pc_corpus_meta (pi_caches trial_inputs)) = u ''m''"
    by (simp_all add: trial_inputs_def fixture_rows_def query_row_def document_row_def trial_sample_def trial_caches_def run_meta_def)
  have passed: "fl_le (pa_minimum trial_args) (fl_min (cosines unit_vectors (zip ?rows ?rows)))" by (simp add: fl_min_def fl_le_fin)
  have width: "cm_dimensions (run_meta p 2 0) = 1" for p by (simp add: run_meta_def)
  have worst: "pe_worst trial_env = (\<lambda>_ _. 0)" by (simp add: trial_env_def)
  show ?thesis
    unfolding parity_main_def Let_def
    by (simp add: and_do_def trial_inputs_read trial_canonical trial_paths_def [symmetric] parts line_files_written w2_def [symmetric] ref [simplified] w3_def [symmetric]
        nat width worst cmp [simplified] f passed [simplified])
qed

subsection \<open>The report is accepted\<close>


end
