(* ===== verification/Spec2Isabelle.thy ===== *)
theory Spec2Isabelle
  imports TruthGen NqArchive CacheGen Stage Publish Orchestrate Collection SealRun Server ParityTrial
begin

text \<open>
  Verification library for the benchmark tooling of leann.cpp.
\<close>

end
